(* ===== verification/Prelude.thy ===== *)
theory Prelude
  imports Complex_Main "HOL-Library.Word" "HOL-Library.Multiset"
begin

text \<open>
  What the components share: the Go types every aggregate uses (time, duration, the values of a
  \<open>map[string]interface{}\<close>), the convention for a fallible method, the runs of an aggregate under
  a list of commands, the two interfaces an aggregate root offers (\<open>aggregate\<close> and its extension
  \<open>versioned_aggregate\<close>), and the generic lemmas on lists and maps the component proofs use.

  A fallible method is a function \<open>'s \<Rightarrow> 'e + 's\<close>: \<open>Inl e\<close> is the error return, with the receiver left as
  it was (every such method checks its guards before its first assignment), and \<open>Inr s'\<close> the
  receiver after a nil error. A method that changes its receiver and then fails returns the
  pair of both. Each reading of the clock and each generated identifier is an argument.
\<close>

section \<open>Shared types\<close>

text \<open>\<open>time.Time\<close> is an instant and \<open>time.Duration\<close> a span, both in nanoseconds.\<close>

type_synonym time = int
type_synonym duration = int

abbreviation Second :: duration where "Second \<equiv> 1000000000"
abbreviation Minute :: duration where "Minute \<equiv> 60 * Second"
abbreviation Hour :: duration where "Hour \<equiv> 60 * Minute"

text \<open>Go's integer division truncates towards zero.\<close>

definition quot :: "int \<Rightarrow> int \<Rightarrow> int" where
  "quot a b = sgn a * sgn b * (\<bar>a\<bar> div \<bar>b\<bar>)"

lemma quot_nonneg [simp]: "0 \<le> a \<Longrightarrow> 0 < b \<Longrightarrow> quot a b = a div b"
  by (cases "a = 0") (auto simp: quot_def)

text \<open>The dynamic values of an \<open>interface{}\<close>: what a JSON document can hold.\<close>

datatype "value" =
    VNil
  | VBool bool
  | VInt int
  | VNum rat
  | VStr string
  | VList "value list"
  | VMap "string \<Rightarrow> value option"

type_synonym dict = "string \<Rightarrow> value option"

text \<open>A Go map that may be nil reads as an empty one.\<close>

definition entries :: "dict option \<Rightarrow> dict" where
  "entries d = (case d of None \<Rightarrow> Map.empty | Some m \<Rightarrow> m)"

lemma entries_simps [simp]: "entries None = Map.empty" "entries (Some m) = m"
  by (simp_all add: entries_def)

section \<open>Collections of facts\<close>

named_theorems op_defs "definitions of the operations of an aggregate"
named_theorems op_inv "operations keep the invariant of their aggregate"
named_theorems op_version "operations advance the version of their aggregate"

section \<open>Runs of an aggregate\<close>

text \<open>
  One command of a client. A rejected command leaves the aggregate unchanged, as the methods do.
\<close>

definition attempt :: "('c \<Rightarrow> 's \<Rightarrow> 'e + 's) \<Rightarrow> 's \<Rightarrow> 'c \<Rightarrow> 's" where
  "attempt step s c = (case step c s of Inl _ \<Rightarrow> s | Inr s' \<Rightarrow> s')"

fun attempts :: "('c \<Rightarrow> 's \<Rightarrow> 'e + 's) \<Rightarrow> 's \<Rightarrow> 'c list \<Rightarrow> 's" where
  "attempts step s [] = s"
| "attempts step s (c # cs) = attempts step (attempt step s c) cs"

fun accepted :: "('c \<Rightarrow> 's \<Rightarrow> 'e + 's) \<Rightarrow> 's \<Rightarrow> 'c list \<Rightarrow> nat" where
  "accepted step s [] = 0"
| "accepted step s (c # cs) =
     (case step c s of Inl _ \<Rightarrow> accepted step s cs | Inr s' \<Rightarrow> Suc (accepted step s' cs))"

text \<open>Every command of the list meets a side condition when its turn comes.\<close>

fun admissible :: "('c \<Rightarrow> 's \<Rightarrow> 'e + 's) \<Rightarrow> ('s \<Rightarrow> 'c \<Rightarrow> bool) \<Rightarrow> 's \<Rightarrow> 'c list \<Rightarrow> bool" where
  "admissible step pre s [] = True"
| "admissible step pre s (c # cs) = (pre s c \<and> admissible step pre (attempt step s c) cs)"

lemma attempt_Inl [simp]: "step c s = Inl e \<Longrightarrow> attempt step s c = s"
  by (simp add: attempt_def)

lemma attempt_Inr [simp]: "step c s = Inr s' \<Longrightarrow> attempt step s c = s'"
  by (simp add: attempt_def)

lemma attempts_append:
  "attempts step s (cs @ ds) = attempts step (attempts step s cs) ds"
  by (induction cs arbitrary: s) auto

lemma attempts_induct [consumes 2, case_names step]:
  assumes "P s" and "admissible step pre s cs"
    and "\<And>s c s'. P s \<Longrightarrow> pre s c \<Longrightarrow> step c s = Inr s' \<Longrightarrow> P s'"
  shows "P (attempts step s cs)"
  using assms(1,2)
proof (induction cs arbitrary: s)
  case (Cons c cs)
  then show ?case
    by (cases "step c s") (auto intro: assms(3))
qed simp

lemma admissible_True [simp]: "admissible step (\<lambda>_ _. True) s cs"
  by (induction cs arbitrary: s) auto

lemma admissible_all: "\<forall>c \<in> set cs. P c \<Longrightarrow> admissible step (\<lambda>_ c. P c) s cs"
  by (induction cs arbitrary: s) auto

lemma attempts_stuck:
  assumes "\<And>c. \<exists>e. step c s = Inl e"
  shows "attempts step s cs = s"
  using assms by (induction cs) (auto simp: attempt_def split: sum.splits, metis Inl_Inr_False)

section \<open>The interface of an aggregate root\<close>

text \<open>
  An aggregate root offers fallible commands that keep its invariant, whenever the caller keeps
  its own side of the contract \<open>pre\<close> (for instance that a generated identifier is fresh).
\<close>

locale aggregate =
  fixes step :: "'c \<Rightarrow> 's \<Rightarrow> 'e + 's"
    and inv :: "'s \<Rightarrow> bool"
    and pre :: "'s \<Rightarrow> 'c \<Rightarrow> bool"
  assumes step_inv: "inv s \<Longrightarrow> pre s c \<Longrightarrow> step c s = Inr s' \<Longrightarrow> inv s'"
begin

lemma run_inv: "inv s \<Longrightarrow> admissible step pre s cs \<Longrightarrow> inv (attempts step s cs)"
  by (erule (1) attempts_induct) (rule step_inv)

end

text \<open>
  A versioned aggregate numbers its accepted commands, which is what an optimistic check of the
  version on the next save relies on.
\<close>

locale versioned_aggregate = aggregate step inv pre
  for step :: "'c \<Rightarrow> 's \<Rightarrow> 'e + 's" and inv :: "'s \<Rightarrow> bool" and pre :: "'s \<Rightarrow> 'c \<Rightarrow> bool" +
  fixes version :: "'s \<Rightarrow> int"
  assumes step_version: "step c s = Inr s' \<Longrightarrow> version s' = version s + 1"
begin

lemma run_version: "version (attempts step s cs) = version s + int (accepted step s cs)"
proof (induction cs arbitrary: s)
  case (Cons c cs)
  then show ?case
    by (cases "step c s") (auto dest: step_version)
qed simp

lemma accepted_none: "accepted step s cs = 0 \<Longrightarrow> attempts step s cs = s"
  by (induction cs) (auto split: sum.splits)

lemma run_version_mono: "version s \<le> version (attempts step s cs)"
  by (simp add: run_version)

lemma run_version_eq: "version (attempts step s cs) = version s \<Longrightarrow> attempts step s cs = s"
  by (simp add: run_version accepted_none)

end

section \<open>Generic lemmas\<close>

lemma find_SomeD: "find P xs = Some x \<Longrightarrow> x \<in> set xs \<and> P x"
  by (induction xs) (auto split: if_splits)

lemma find_unique: "distinct (map f t) \<Longrightarrow> row \<in> set t \<Longrightarrow> find (\<lambda>x. f x = f row) t = Some row"
  by (induction t) auto

lemma find_append: "find P (xs @ ys) = (case find P xs of Some x \<Rightarrow> Some x | None \<Rightarrow> find P ys)"
  by (induction xs) auto

lemma sum_mset_empty_iff:
  "finite A \<Longrightarrow> (\<Sum>x\<in>A. f x) = ({#} :: 'a multiset) \<longleftrightarrow> (\<forall>x\<in>A. f x = {#})"
  by (induction rule: finite_induct) auto

lemma sum_bind_cases:
  "(case x of Inl e \<Rightarrow> Inl e | Inr a \<Rightarrow> f a) = Inr b \<longleftrightarrow> (\<exists>a. x = Inr a \<and> f a = Inr b)"
  by (cases x) auto

lemma filter_distinct_map: "distinct (map f xs) \<Longrightarrow> distinct (map f (filter P xs))"
  by (simp add: distinct_map_filter)

lemma list_update_ids:
  "i < length xs \<Longrightarrow> f y = f (xs ! i) \<Longrightarrow> map f (xs[i := y]) = map f xs"
  by (metis list_update_id map_update)

end
