(* ===== verification/Workflow_Types.thy ===== *)
theory Workflow_Types
  imports Prelude
begin

text \<open>
  The data of the workflow aggregate (\<open>internal/workflow/domain/model/workflow.go\<close>): value objects,
  nodes, connections, settings, the aggregate's own record, and its domain events
  (\<open>internal/workflow/domain/model/events.go\<close>). Floating point positions are rationals; the graph of a
  workflow is the edge relation of its connections.
\<close>

section \<open>Value objects\<close>

type_synonym WorkflowID = string

datatype WorkflowStatus =
    WorkflowStatusDraft
  | WorkflowStatusActive
  | WorkflowStatusInactive
  | WorkflowStatusArchived

text \<open>\<open>NodeType\<close> is a Go string type: the five constants, or any other string of a request.\<close>

datatype NodeType =
    NodeTypeTrigger
  | NodeTypeAction
  | NodeTypeCondition
  | NodeTypeLoop
  | NodeTypeOutput
  | NodeTypeOther string

record Position =
  p_X :: rat
  p_Y :: rat

record Node =
  n_ID :: string
  n_Type :: NodeType
  n_Name :: string
  n_Description :: string
  n_Config :: dict
  n_Position :: Position

record Connection =
  c_ID :: string
  c_SourceNodeID :: string
  c_TargetNodeID :: string
  c_SourcePort :: string
  c_TargetPort :: string

datatype ErrorHandlingStrategy =
    ErrorHandlingStop
  | ErrorHandlingContinue
  | ErrorHandlingRetry

record RetryPolicy =
  rp_MaxAttempts :: int
  rp_BackoffType :: string
  rp_Delay :: duration

record Settings =
  st_MaxExecutionTime :: int
  st_RetryPolicy :: RetryPolicy
  st_ErrorHandling :: ErrorHandlingStrategy
  st_Metadata :: dict

definition DefaultSettings :: Settings where
  "DefaultSettings = \<lparr> st_MaxExecutionTime = 3600,
     st_RetryPolicy = \<lparr> rp_MaxAttempts = 3, rp_BackoffType = ''exponential'', rp_Delay = 5 * Second \<rparr>,
     st_ErrorHandling = ErrorHandlingStop, st_Metadata = Map.empty \<rparr>"

section \<open>Domain events\<close>

datatype WorkflowEvent =
    WorkflowCreatedEvent WorkflowID string string string time
  | WorkflowActivatedEvent WorkflowID time
  | WorkflowDeactivatedEvent WorkflowID time
  | WorkflowArchivedEvent WorkflowID time
  | NodeAddedEvent WorkflowID Node time
  | NodeRemovedEvent WorkflowID string time
  | ConnectionAddedEvent WorkflowID Connection time
  | WorkflowSettingsUpdatedEvent WorkflowID Settings time

fun EventType :: "WorkflowEvent \<Rightarrow> string" where
  "EventType (WorkflowCreatedEvent i u n d t) = ''workflow.created''"
| "EventType (WorkflowActivatedEvent i t) = ''workflow.activated''"
| "EventType (WorkflowDeactivatedEvent i t) = ''workflow.deactivated''"
| "EventType (WorkflowArchivedEvent i t) = ''workflow.archived''"
| "EventType (NodeAddedEvent i n t) = ''workflow.node_added''"
| "EventType (NodeRemovedEvent i n t) = ''workflow.node_removed''"
| "EventType (ConnectionAddedEvent i c t) = ''workflow.connection_added''"
| "EventType (WorkflowSettingsUpdatedEvent i s t) = ''workflow.settings_updated''"

fun AggregateID :: "WorkflowEvent \<Rightarrow> string" where
  "AggregateID (WorkflowCreatedEvent i u n d t) = i"
| "AggregateID (WorkflowActivatedEvent i t) = i"
| "AggregateID (WorkflowDeactivatedEvent i t) = i"
| "AggregateID (WorkflowArchivedEvent i t) = i"
| "AggregateID (NodeAddedEvent i n t) = i"
| "AggregateID (NodeRemovedEvent i n t) = i"
| "AggregateID (ConnectionAddedEvent i c t) = i"
| "AggregateID (WorkflowSettingsUpdatedEvent i s t) = i"

fun OccurredAt :: "WorkflowEvent \<Rightarrow> time" where
  "OccurredAt (WorkflowCreatedEvent i u n d t) = t"
| "OccurredAt (WorkflowActivatedEvent i t) = t"
| "OccurredAt (WorkflowDeactivatedEvent i t) = t"
| "OccurredAt (WorkflowArchivedEvent i t) = t"
| "OccurredAt (NodeAddedEvent i n t) = t"
| "OccurredAt (NodeRemovedEvent i n t) = t"
| "OccurredAt (ConnectionAddedEvent i c t) = t"
| "OccurredAt (WorkflowSettingsUpdatedEvent i s t) = t"

section \<open>The aggregate\<close>

record Workflow =
  w_id :: WorkflowID
  w_version :: int
  w_events :: "WorkflowEvent list"
  w_userID :: string
  w_name :: string
  w_description :: string
  w_status :: WorkflowStatus
  w_nodes :: "Node list"
  w_connections :: "Connection list"
  w_settings :: Settings
  w_tags :: "string list"
  w_createdAt :: time
  w_updatedAt :: time
  w_maxNodes :: int

datatype WorkflowError =
    ErrEmptyWorkflowID
  | ErrParseUUID string
  | ErrUserIDRequired
  | ErrNameRequired
  | ErrNotActivatable
  | ErrNoNodes
  | ErrInvalidConnections WorkflowError
  | ErrNoTrigger
  | ErrOnlyActive
  | ErrAlreadyArchived
  | ErrTooManyNodes int
  | ErrArchived
  | ErrDuplicateNode
  | ErrNodeNotFound
  | ErrSourceNotFound string
  | ErrTargetNotFound string
  | ErrDuplicateConnection
  | ErrCycle

text \<open>
  \<open>WorkflowID.Validate\<close>: the UUID parser is a library function, here a parameter that gives the
  parse error of its argument, if any.
\<close>

definition WorkflowID_Validate :: "(string \<Rightarrow> string option) \<Rightarrow> WorkflowID \<Rightarrow> WorkflowError option" where
  "WorkflowID_Validate uuid_Parse i =
     (if i = '''' then Some ErrEmptyWorkflowID else map_option ErrParseUUID (uuid_Parse i))"

section \<open>The graph of a workflow\<close>

abbreviation node_ids :: "Node list \<Rightarrow> string set" where
  "node_ids ns \<equiv> n_ID ` set ns"

lemma list_ex_ID [simp]: "list_ex (\<lambda>n. n_ID n = x) ns \<longleftrightarrow> x \<in> node_ids ns"
  by (induction ns) auto

definition edges :: "Connection list \<Rightarrow> (string \<times> string) set" where
  "edges cs = {(c_SourceNodeID c, c_TargetNodeID c) |c. c \<in> set cs}"

definition endpoints_in :: "string set \<Rightarrow> Connection list \<Rightarrow> bool" where
  "endpoints_in N cs = (\<forall>c\<in>set cs. c_SourceNodeID c \<in> N \<and> c_TargetNodeID c \<in> N)"

lemma edges_Nil [simp]: "edges [] = {}"
  by (simp add: edges_def)

lemma edges_Cons [simp]: "edges (c # cs) = insert (c_SourceNodeID c, c_TargetNodeID c) (edges cs)"
  by (auto simp: edges_def)

lemma edges_append [simp]: "edges (cs @ ds) = edges cs \<union> edges ds"
  by (auto simp: edges_def)

lemma finite_edges [simp]: "finite (edges cs)"
  by (induction cs) auto

lemma edges_filter_subset: "edges (filter P cs) \<subseteq> edges cs"
  by (auto simp: edges_def)

lemma edges_mono: "set cs \<subseteq> set ds \<Longrightarrow> edges cs \<subseteq> edges ds"
  by (auto simp: edges_def)

lemma edgesI: "c \<in> set cs \<Longrightarrow> (c_SourceNodeID c, c_TargetNodeID c) \<in> edges cs"
  by (auto simp: edges_def)

lemma endpoints_in_Nil [simp]: "endpoints_in N []"
  by (simp add: endpoints_in_def)

lemma endpoints_in_Cons [simp]:
  "endpoints_in N (c # cs) \<longleftrightarrow> c_SourceNodeID c \<in> N \<and> c_TargetNodeID c \<in> N \<and> endpoints_in N cs"
  by (simp add: endpoints_in_def)

lemma endpoints_in_append [simp]:
  "endpoints_in N (cs @ ds) \<longleftrightarrow> endpoints_in N cs \<and> endpoints_in N ds"
  by (auto simp: endpoints_in_def)

lemma endpoints_in_mono: "endpoints_in N cs \<Longrightarrow> N \<subseteq> M \<Longrightarrow> endpoints_in M cs"
  by (auto simp: endpoints_in_def)

lemma endpoints_in_edges: "endpoints_in N cs \<longleftrightarrow> edges cs \<subseteq> N \<times> N"
  by (auto simp: endpoints_in_def edges_def)

lemma endpoints_in_filter:
  "endpoints_in N cs \<Longrightarrow>
   endpoints_in (N - {x}) (filter (\<lambda>c. c_SourceNodeID c \<noteq> x \<and> c_TargetNodeID c \<noteq> x) cs)"
  by (auto simp: endpoints_in_def)

text \<open>The targets of a node, in the order the adjacency list of the code has them.\<close>

definition adjacency :: "Connection list \<Rightarrow> string \<Rightarrow> string list" where
  "adjacency cs x = map c_TargetNodeID (filter (\<lambda>c. c_SourceNodeID c = x) cs)"

lemma adjacency_simps [simp]:
  "adjacency [] x = []"
  "adjacency (c # cs) x =
     (if c_SourceNodeID c = x then c_TargetNodeID c # adjacency cs x else adjacency cs x)"
  "adjacency (cs @ ds) x = adjacency cs x @ adjacency ds x"
  by (simp_all add: adjacency_def)

lemma set_adjacency: "y \<in> set (adjacency cs x) \<longleftrightarrow> (x, y) \<in> edges cs"
  by (induction cs) auto

lemma acyclic_not_refl: "acyclic r \<Longrightarrow> (x, x) \<notin> r\<^sup>+"
  by (simp add: acyclic_def)

end
