(* ===== verification/Workflow_Cycle.thy ===== *)
theory Workflow_Cycle
  imports Workflow_Types
begin

text \<open>
  \<open>Workflow.hasCycle\<close>: the depth-first search with a visited set and a recursion stack that guards
  activation, and its correctness: it answers true exactly when the connections have a cycle.
\<close>

section \<open>The search\<close>

text \<open>
  The adjacency list is built by appending each connection's target to its source's entry. The two
  maps \<open>visited\<close> and \<open>recStack\<close> are the sets of their true entries.
\<close>

fun build_adj :: "(string \<Rightarrow> string list) \<Rightarrow> Connection list \<Rightarrow> string \<Rightarrow> string list" where
  "build_adj adj [] = adj"
| "build_adj adj (c # cs) =
     build_adj (adj(c_SourceNodeID c := adj (c_SourceNodeID c) @ [c_TargetNodeID c])) cs"

lemma build_adj_eq: "build_adj adj cs x = adj x @ adjacency cs x"
  by (induction cs arbitrary: adj) auto

text \<open>
  The loop over the neighbours inside \<open>hasCycleDFS\<close>, with the recursive call on an unvisited
  neighbour inlined: enter it, search its neighbours, and leave it when nothing was found.
\<close>

function neighborsDFS ::
  "Connection list \<Rightarrow> string list \<Rightarrow> string set \<Rightarrow> string set \<Rightarrow> bool \<times> string set \<times> string set" where
  "neighborsDFS cs [] visited recStack = (False, visited, recStack)"
| "neighborsDFS cs (m # ms) visited recStack =
     (if m \<notin> visited then
        (case neighborsDFS cs (build_adj (\<lambda>_. []) cs m) (insert m visited) (insert m recStack) of
           (found, visited', recStack') \<Rightarrow>
             if found then (True, visited', recStack')
             else neighborsDFS cs ms visited' (recStack' - {m}))
      else if m \<in> recStack then (True, visited, recStack)
      else neighborsDFS cs ms visited recStack)"
  by pat_completeness auto

lemma neighborsDFS_visited:
  "neighborsDFS_dom (cs, ms, v, r) \<Longrightarrow> neighborsDFS cs ms v r = (b, v', r') \<Longrightarrow> v \<subseteq> v'"
proof (induction cs ms v r arbitrary: b v' r' rule: neighborsDFS.pinduct)
  case (2 cs m ms v r)
  obtain b1 v1 r1 where rec: "neighborsDFS cs (build_adj (\<lambda>_. []) cs m) (insert m v) (insert m r) = (b1, v1, r1)"
    by (metis prod_cases3)
  note eq = 2(5)[unfolded neighborsDFS.psimps(2)[OF 2(1)] rec]
  show ?case
  proof (cases "m \<in> v")
    case True
    then show ?thesis
      using eq 2(4)[of b v' r'] by (cases "m \<in> r") auto
  next
    case False
    then have "insert m v \<subseteq> v1"
      using 2(2)[OF _ rec] by simp
    moreover have "v1 \<subseteq> v'"
      using eq False 2(3)[OF _ rec[symmetric] refl, of b v' r'] by (cases b1) auto
    ultimately show ?thesis
      by blast
  qed
qed (simp add: neighborsDFS.psimps)

text \<open>Every call either enters an unvisited node of the graph or shortens the list.\<close>

definition graph_nodes :: "Connection list \<Rightarrow> string set" where
  "graph_nodes cs = c_SourceNodeID ` set cs \<union> c_TargetNodeID ` set cs"

lemma finite_graph_nodes [simp]: "finite (graph_nodes cs)"
  by (simp add: graph_nodes_def)

lemma build_adj_outside: "m \<notin> graph_nodes cs \<Longrightarrow> build_adj (\<lambda>_. []) cs m = []"
  by (auto simp: build_adj_eq adjacency_def graph_nodes_def filter_empty_conv)

termination neighborsDFS
proof (relation "inv_image (finite_psubset <*lex*> less_than)
    (\<lambda>(cs, ms, v, r). (graph_nodes cs - v, length ms))", goal_cases)
  case 1
  show ?case
    by auto
next
  case (2 cs m ms v r)
  show ?case
    using 2 by (cases "m \<in> graph_nodes cs") (auto simp: build_adj_outside)
next
  case (3 cs m ms v r b p v1 r1)
  then have "neighborsDFS cs (build_adj (\<lambda>_. []) cs m) (insert m v) (insert m r) = (b, v1, r1)"
    by simp
  then have "insert m v \<subseteq> v1"
    using 3 neighborsDFS_visited by metis
  then show ?case
    by auto
next
  case 4
  then show ?case
    by auto
qed

definition hasCycleDFS ::
  "Connection list \<Rightarrow> string \<Rightarrow> string set \<Rightarrow> string set \<Rightarrow> bool \<times> string set \<times> string set" where
  "hasCycleDFS cs node visited recStack =
     (case neighborsDFS cs (build_adj (\<lambda>_. []) cs node) (insert node visited) (insert node recStack) of
        (found, visited', recStack') \<Rightarrow>
          if found then (True, visited', recStack') else (False, visited', recStack' - {node}))"

text \<open>The loop of the code, with the call of \<open>hasCycleDFS\<close> written as the code has it.\<close>

lemma neighborsDFS_loop:
  "neighborsDFS cs (m # ms) v r =
     (if m \<notin> v then
        (case hasCycleDFS cs m v r of
           (found, v', r') \<Rightarrow> if found then (True, v', r') else neighborsDFS cs ms v' r')
      else if m \<in> r then (True, v, r)
      else neighborsDFS cs ms v r)"
  by (auto simp: hasCycleDFS_def split: prod.splits)

fun hasCycleLoop :: "Connection list \<Rightarrow> Node list \<Rightarrow> string set \<Rightarrow> string set \<Rightarrow> bool" where
  "hasCycleLoop cs [] visited recStack = False"
| "hasCycleLoop cs (n # ns) visited recStack =
     (if n_ID n \<notin> visited then
        (case hasCycleDFS cs (n_ID n) visited recStack of
           (found, visited', recStack') \<Rightarrow>
             if found then True else hasCycleLoop cs ns visited' recStack')
      else hasCycleLoop cs ns visited recStack)"

definition hasCycle :: "Workflow \<Rightarrow> bool" where
  "hasCycle w = hasCycleLoop (w_connections w) (w_nodes w) {} {}"


section \<open>Correctness of the search\<close>

text \<open>
  A search that finds nothing restores the recursion stack; it leaves its list in the finished set
  (visited, off the stack), which stays closed under the edges and free of cycles.
\<close>

definition finished_ok :: "(string \<times> string) set \<Rightarrow> string set \<Rightarrow> bool" where
  "finished_ok E B \<longleftrightarrow> E `` B \<subseteq> B \<and> (\<forall>x\<in>B. (x, x) \<notin> E\<^sup>+)"

lemma trancl_closed: "(x, y) \<in> E\<^sup>+ \<Longrightarrow> E `` B \<subseteq> B \<Longrightarrow> x \<in> B \<Longrightarrow> y \<in> B"
  by (induction rule: trancl_induct) auto

lemma finished_ok_insert:
  assumes "finished_ok E B" and "E `` {m} \<subseteq> B" and "m \<notin> B"
  shows "finished_ok E (insert m B)"
proof -
  have "(m, m) \<notin> E\<^sup>+"
  proof
    assume "(m, m) \<in> E\<^sup>+"
    then obtain y where "(m, y) \<in> E" and y: "y = m \<or> (y, m) \<in> E\<^sup>+"
      by (meson tranclD rtranclD)
    then have "y \<in> B"
      using assms(2) by blast
    then show False
      using y assms(1,3) trancl_closed[of y m E B] by (auto simp: finished_ok_def)
  qed
  then show ?thesis
    using assms by (auto simp: finished_ok_def)
qed

lemma neighborsDFS_False:
  assumes "neighborsDFS cs ms v r = (False, v', r')" and "r \<subseteq> v"
    and "finished_ok (edges cs) (v - r)"
  shows "r' = r \<and> v \<subseteq> v' \<and> set ms \<subseteq> v' - r \<and> finished_ok (edges cs) (v' - r)"
  using assms
proof (induction cs ms v r arbitrary: v' r' rule: neighborsDFS.induct)
  case (2 cs m ms v r)
  show ?case
  proof (cases "m \<in> v")
    case True
    then show ?thesis
      using 2(3)[of v' r'] 2(4-) by (cases "m \<in> r") auto
  next
    case False
    obtain b v1 r1 where rec: "neighborsDFS cs (build_adj (\<lambda>_. []) cs m) (insert m v) (insert m r) = (b, v1, r1)"
      by (metis prod_cases3)
    with False 2(4) have b: "\<not> b" and rest: "neighborsDFS cs ms v1 (r1 - {m}) = (False, v', r')"
      by (auto split: if_splits)
    have "insert m v - insert m r = v - r"
      using False 2(5) by auto
    with 2(1)[of v1 r1] False rec b 2(5,6)
    have r1: "r1 = insert m r" and v1: "insert m v \<subseteq> v1"
      and succ: "set (build_adj (\<lambda>_. []) cs m) \<subseteq> v1 - insert m r"
      and ok: "finished_ok (edges cs) (v1 - insert m r)"
      by auto
    have m: "m \<notin> r"
      using False 2(5) by auto
    have "edges cs `` {m} \<subseteq> v1 - insert m r"
      using succ by (auto simp: build_adj_eq set_adjacency subset_iff)
    then have "finished_ok (edges cs) (insert m (v1 - insert m r))"
      using ok by (intro finished_ok_insert) auto
    moreover have "insert m (v1 - insert m r) = v1 - r"
      using m v1 by auto
    ultimately have "finished_ok (edges cs) (v1 - r)"
      by simp
    moreover have "r1 - {m} = r"
      using r1 m by auto
    moreover have "r \<subseteq> v1"
      using v1 2(5) by auto
    ultimately have "r' = r \<and> v1 \<subseteq> v' \<and> set ms \<subseteq> v' - r \<and> finished_ok (edges cs) (v' - r)"
      using 2(2)[OF _ rec[symmetric] refl, of v' r'] False b rest by simp
    then show ?thesis
      using v1 m by auto
  qed
qed auto

text \<open>
  A search that finds something has met a node of the stack again; every node of the stack reaches
  the nodes of the list.
\<close>

lemma neighborsDFS_True:
  assumes "neighborsDFS cs ms v r = (True, v', r')" and "r \<subseteq> v"
    and "finished_ok (edges cs) (v - r)"
    and "\<And>x m. x \<in> r \<Longrightarrow> m \<in> set ms \<Longrightarrow> (x, m) \<in> (edges cs)\<^sup>+"
  shows "\<exists>x. (x, x) \<in> (edges cs)\<^sup>+"
  using assms
proof (induction cs ms v r arbitrary: v' r' rule: neighborsDFS.induct)
  case (2 cs m ms v r)
  show ?case
  proof (cases "m \<in> v")
    case True
    then show ?thesis
      using 2(3)[of v' r'] 2(4-) by (cases "m \<in> r") auto
  next
    case False
    obtain b v1 r1 where rec: "neighborsDFS cs (build_adj (\<lambda>_. []) cs m) (insert m v) (insert m r) = (b, v1, r1)"
      by (metis prod_cases3)
    have diff: "insert m v - insert m r = v - r" and m: "m \<notin> r"
      using False 2(5) by auto
    show ?thesis
    proof (cases b)
      case True
      have step: "(x, y) \<in> (edges cs)\<^sup>+"
        if "x \<in> insert m r" "y \<in> set (build_adj (\<lambda>_. []) cs m)" for x y
      proof -
        have "(m, y) \<in> edges cs"
          using that(2) by (simp add: build_adj_eq set_adjacency)
        then show ?thesis
          using that(1) 2(7)[of x m] by (auto intro: trancl_into_trancl)
      qed
      show ?thesis
        by (rule 2(1)[of v1 r1]) (use False rec True 2(5,6) diff step in auto)
    next
      case b: False
      then have rest: "neighborsDFS cs ms v1 (r1 - {m}) = (True, v', r')"
        using rec False 2(4) by simp
      have fin: "r1 = insert m r \<and> insert m v \<subseteq> v1 \<and>
          set (build_adj (\<lambda>_. []) cs m) \<subseteq> v1 - insert m r \<and> finished_ok (edges cs) (v1 - insert m r)"
        by (rule neighborsDFS_False) (use rec b 2(5,6) diff in auto)
      then have "neighborsDFS cs (m # []) v r = (False, v1, r)"
        using rec b False m by auto
      then have ok: "v \<subseteq> v1 \<and> finished_ok (edges cs) (v1 - r)"
        using neighborsDFS_False[of cs "[m]" v r v1 r] 2(5,6) by auto
      have "r1 - {m} = r"
        using fin m by auto
      then show ?thesis
        using 2(2)[OF _ rec[symmetric] refl, of v' r'] False b rest ok 2(5,7) by auto
    qed
  qed
qed simp

lemma hasCycleLoop_neighborsDFS:
  "finished_ok (edges cs) v \<Longrightarrow>
   hasCycleLoop cs ns v {} = fst (neighborsDFS cs (map n_ID ns) v {})"
proof (induction ns arbitrary: v)
  case (Cons n ns)
  show ?case
  proof (cases "n_ID n \<in> v")
    case True
    then show ?thesis
      using Cons by simp
  next
    case False
    obtain b v1 r1 where dfs: "hasCycleDFS cs (n_ID n) v {} = (b, v1, r1)"
      by (metis prod_cases3)
    show ?thesis
    proof (cases b)
      case True
      then show ?thesis
        using False dfs by (simp add: neighborsDFS_loop del: neighborsDFS.simps(2))
    next
      case b: False
      then have "neighborsDFS cs [n_ID n] v {} = (False, v1, r1)"
        using False dfs by (simp add: neighborsDFS_loop del: neighborsDFS.simps(2))
      then have "r1 = {} \<and> finished_ok (edges cs) v1"
        using neighborsDFS_False[of cs "[n_ID n]" v "{}" v1 r1] Cons.prems by simp
      then show ?thesis
        using False dfs b Cons.IH[of v1] by (simp add: neighborsDFS_loop del: neighborsDFS.simps(2))
    qed
  qed
qed simp

lemma hasCycle_sound: "hasCycle w \<Longrightarrow> \<not> acyclic (edges (w_connections w))"
proof -
  assume "hasCycle w"
  then have "fst (neighborsDFS (w_connections w) (map n_ID (w_nodes w)) {} {})"
    using hasCycleLoop_neighborsDFS[of "w_connections w" "{}" "w_nodes w"]
    by (simp add: hasCycle_def finished_ok_def)
  then obtain v' r' where
    "neighborsDFS (w_connections w) (map n_ID (w_nodes w)) {} {} = (True, v', r')"
    by (metis (full_types) prod.collapse)
  from neighborsDFS_True[OF this] have "\<exists>x. (x, x) \<in> (edges (w_connections w))\<^sup>+"
    by (simp add: finished_ok_def)
  then show ?thesis
    by (simp add: acyclic_def)
qed

lemma hasCycle_complete:
  assumes "\<not> hasCycle w" and "endpoints_in (node_ids (w_nodes w)) (w_connections w)"
  shows "acyclic (edges (w_connections w))"
proof -
  let ?E = "edges (w_connections w)"
  have "\<not> fst (neighborsDFS (w_connections w) (map n_ID (w_nodes w)) {} {})"
    using assms(1) hasCycleLoop_neighborsDFS[of "w_connections w" "{}" "w_nodes w"]
    by (simp add: hasCycle_def finished_ok_def)
  then obtain v' r' where
    "neighborsDFS (w_connections w) (map n_ID (w_nodes w)) {} {} = (False, v', r')"
    by (metis (full_types) prod.collapse)
  from neighborsDFS_False[OF this]
  have nodes: "node_ids (w_nodes w) \<subseteq> v'" and ok: "finished_ok ?E v'"
    by (auto simp: finished_ok_def)
  show ?thesis
    unfolding acyclic_def
  proof
    fix x
    show "(x, x) \<notin> ?E\<^sup>+"
    proof
      assume "(x, x) \<in> ?E\<^sup>+"
      moreover from this have "x \<in> node_ids (w_nodes w)"
        using assms(2) by (auto simp: endpoints_in_edges dest: tranclD)
      ultimately show False
        using nodes ok by (auto simp: finished_ok_def)
    qed
  qed
qed

lemma hasCycle_correct:
  "endpoints_in (node_ids (w_nodes w)) (w_connections w) \<Longrightarrow>
   hasCycle w \<longleftrightarrow> \<not> acyclic (edges (w_connections w))"
  using hasCycle_sound hasCycle_complete by blast

end
