(* ===== verification/Workflow.thy ===== *)
theory Workflow
  imports Workflow_Cycle
begin

text \<open>
  The operations of the workflow aggregate (\<open>internal/workflow/domain/model/workflow.go\<close>): one
  definition per method, its guards in the order of the code, the event it appends and the version
  it bumps. The invariant \<open>workflow_inv\<close> is what an aggregate promises between calls; the contract
  \<open>workflow_pre\<close> of a caller is only that a generated identifier is fresh. The abstract counterpart
  is the replay of the event stream.

  Arguments that stand for the environment: \<open>fresh\<close> is the identifier \<open>uuid.New\<close> gives, \<open>now\<close> the
  reading of the clock.
\<close>

section \<open>Events and construction\<close>

definition addEvent :: "WorkflowEvent \<Rightarrow> Workflow \<Rightarrow> Workflow" where
  "addEvent e w = w\<lparr> w_events := w_events w @ [e], w_version := w_version w + 1 \<rparr>"

definition GetUncommittedEvents :: "Workflow \<Rightarrow> WorkflowEvent list" where
  "GetUncommittedEvents w = w_events w"

definition MarkEventsAsCommitted :: "Workflow \<Rightarrow> Workflow" where
  "MarkEventsAsCommitted w = w\<lparr> w_events := [] \<rparr>"

definition NewWorkflow ::
  "string \<Rightarrow> time \<Rightarrow> time \<Rightarrow> string \<Rightarrow> string \<Rightarrow> string \<Rightarrow> WorkflowError + Workflow" where
  "NewWorkflow fresh now1 now2 userID name description =
     (if userID = '''' then Inl ErrUserIDRequired
      else if name = '''' then Inl ErrNameRequired
      else Inr (addEvent (WorkflowCreatedEvent fresh userID name description now1)
        \<lparr> w_id = fresh, w_version = 0, w_events = [], w_userID = userID, w_name = name,
          w_description = description, w_status = WorkflowStatusDraft, w_nodes = [],
          w_connections = [], w_settings = DefaultSettings, w_tags = [],
          w_createdAt = now1, w_updatedAt = now2, w_maxNodes = 100 \<rparr>))"

definition ReconstructWorkflow ::
  "WorkflowID \<Rightarrow> string \<Rightarrow> string \<Rightarrow> string \<Rightarrow> WorkflowStatus \<Rightarrow> Node list \<Rightarrow> Connection list \<Rightarrow>
   Settings \<Rightarrow> int \<Rightarrow> time \<Rightarrow> time \<Rightarrow> Workflow" where
  "ReconstructWorkflow i userID name description status nodes connections settings version
     createdAt updatedAt =
     \<lparr> w_id = i, w_version = version, w_events = [], w_userID = userID, w_name = name,
       w_description = description, w_status = status, w_nodes = nodes,
       w_connections = connections, w_settings = settings, w_tags = [],
       w_createdAt = createdAt, w_updatedAt = updatedAt, w_maxNodes = 100 \<rparr>"

section \<open>Activation\<close>

text \<open>\<open>nodeMap\<close> is the set of node identifiers; the loop stops at the first dangling end.\<close>

fun checkEndpoints :: "string set \<Rightarrow> Connection list \<Rightarrow> WorkflowError option" where
  "checkEndpoints nodeMap [] = None"
| "checkEndpoints nodeMap (c # cs) =
     (if c_SourceNodeID c \<notin> nodeMap then Some (ErrSourceNotFound (c_SourceNodeID c))
      else if c_TargetNodeID c \<notin> nodeMap then Some (ErrTargetNotFound (c_TargetNodeID c))
      else checkEndpoints nodeMap cs)"

definition validateConnections :: "Workflow \<Rightarrow> WorkflowError option" where
  "validateConnections w =
     (case checkEndpoints (set (map n_ID (w_nodes w))) (w_connections w) of
        Some e \<Rightarrow> Some e
      | None \<Rightarrow> if hasCycle w then Some ErrCycle else None)"

definition Workflow_Activate :: "time \<Rightarrow> Workflow \<Rightarrow> WorkflowError + Workflow" where
  "Workflow_Activate now w =
     (if w_status w \<noteq> WorkflowStatusDraft \<and> w_status w \<noteq> WorkflowStatusInactive then Inl ErrNotActivatable
      else if w_nodes w = [] then Inl ErrNoNodes
      else case validateConnections w of
        Some e \<Rightarrow> Inl (ErrInvalidConnections e)
      | None \<Rightarrow>
          if \<not> list_ex (\<lambda>n. n_Type n = NodeTypeTrigger) (w_nodes w) then Inl ErrNoTrigger
          else Inr (addEvent (WorkflowActivatedEvent (w_id w) now)
                 (w\<lparr> w_status := WorkflowStatusActive, w_updatedAt := now \<rparr>)))"

definition Workflow_Deactivate :: "time \<Rightarrow> Workflow \<Rightarrow> WorkflowError + Workflow" where
  "Workflow_Deactivate now w =
     (if w_status w \<noteq> WorkflowStatusActive then Inl ErrOnlyActive
      else Inr (addEvent (WorkflowDeactivatedEvent (w_id w) now)
             (w\<lparr> w_status := WorkflowStatusInactive, w_updatedAt := now \<rparr>)))"

definition Workflow_Archive :: "time \<Rightarrow> Workflow \<Rightarrow> WorkflowError + Workflow" where
  "Workflow_Archive now w =
     (if w_status w = WorkflowStatusArchived then Inl ErrAlreadyArchived
      else Inr (addEvent (WorkflowArchivedEvent (w_id w) now)
             (w\<lparr> w_status := WorkflowStatusArchived, w_updatedAt := now \<rparr>)))"

section \<open>Structure\<close>

text \<open>A change of the structure takes an active workflow back to draft.\<close>

definition redraft :: "Workflow \<Rightarrow> Workflow" where
  "redraft w = (if w_status w = WorkflowStatusActive then w\<lparr> w_status := WorkflowStatusDraft \<rparr> else w)"

definition AddNode :: "string \<Rightarrow> time \<Rightarrow> Node \<Rightarrow> Workflow \<Rightarrow> WorkflowError + Workflow" where
  "AddNode fresh now node w =
     (if int (length (w_nodes w)) \<ge> w_maxNodes w then Inl (ErrTooManyNodes (w_maxNodes w))
      else if w_status w = WorkflowStatusArchived then Inl ErrArchived
      else if list_ex (\<lambda>existing. n_ID existing = n_ID node) (w_nodes w) then Inl ErrDuplicateNode
      else
        let node' = (if n_ID node = '''' then node\<lparr> n_ID := fresh \<rparr> else node)
        in Inr (addEvent (NodeAddedEvent (w_id w) node' now)
             (redraft (w\<lparr> w_nodes := w_nodes w @ [node'], w_updatedAt := now \<rparr>))))"

fun nodeIndex :: "string \<Rightarrow> Node list \<Rightarrow> nat option" where
  "nodeIndex nodeID [] = None"
| "nodeIndex nodeID (n # ns) =
     (if n_ID n = nodeID then Some 0 else map_option Suc (nodeIndex nodeID ns))"

definition RemoveNode :: "time \<Rightarrow> string \<Rightarrow> Workflow \<Rightarrow> WorkflowError + Workflow" where
  "RemoveNode now nodeID w =
     (if w_status w = WorkflowStatusArchived then Inl ErrArchived
      else case nodeIndex nodeID (w_nodes w) of
        None \<Rightarrow> Inl ErrNodeNotFound
      | Some i \<Rightarrow>
          Inr (addEvent (NodeRemovedEvent (w_id w) nodeID now)
            (redraft (w\<lparr> w_nodes := take i (w_nodes w) @ drop (i + 1) (w_nodes w),
               w_connections := filter (\<lambda>c. c_SourceNodeID c \<noteq> nodeID \<and> c_TargetNodeID c \<noteq> nodeID)
                 (w_connections w),
               w_updatedAt := now \<rparr>))))"

definition AddConnection :: "string \<Rightarrow> time \<Rightarrow> Connection \<Rightarrow> Workflow \<Rightarrow> WorkflowError + Workflow" where
  "AddConnection fresh now conn w =
     (if w_status w = WorkflowStatusArchived then Inl ErrArchived
      else if \<not> list_ex (\<lambda>n. n_ID n = c_SourceNodeID conn) (w_nodes w)
        then Inl (ErrSourceNotFound (c_SourceNodeID conn))
      else if \<not> list_ex (\<lambda>n. n_ID n = c_TargetNodeID conn) (w_nodes w)
        then Inl (ErrTargetNotFound (c_TargetNodeID conn))
      else if list_ex (\<lambda>e. c_SourceNodeID e = c_SourceNodeID conn \<and> c_TargetNodeID e = c_TargetNodeID conn
                        \<and> c_SourcePort e = c_SourcePort conn \<and> c_TargetPort e = c_TargetPort conn)
             (w_connections w)
        then Inl ErrDuplicateConnection
      else
        let conn' = (if c_ID conn = '''' then conn\<lparr> c_ID := fresh \<rparr> else conn)
        in Inr (addEvent (ConnectionAddedEvent (w_id w) conn' now)
             (redraft (w\<lparr> w_connections := w_connections w @ [conn'], w_updatedAt := now \<rparr>))))"

definition UpdateSettings :: "time \<Rightarrow> Settings \<Rightarrow> Workflow \<Rightarrow> WorkflowError + Workflow" where
  "UpdateSettings now settings w =
     (if w_status w = WorkflowStatusArchived then Inl ErrArchived
      else Inr (addEvent (WorkflowSettingsUpdatedEvent (w_id w) settings now)
             (w\<lparr> w_settings := settings, w_updatedAt := now \<rparr>)))"

lemmas workflow_defs [op_defs] =
  Workflow_Activate_def Workflow_Deactivate_def Workflow_Archive_def AddNode_def RemoveNode_def
  AddConnection_def UpdateSettings_def addEvent_def redraft_def Let_def

section \<open>Commands\<close>

datatype WorkflowCmd =
    DoActivate time
  | DoDeactivate time
  | DoArchive time
  | DoAddNode string time Node
  | DoRemoveNode time string
  | DoAddConnection string time Connection
  | DoUpdateSettings time Settings

fun workflow_step :: "WorkflowCmd \<Rightarrow> Workflow \<Rightarrow> WorkflowError + Workflow" where
  "workflow_step (DoActivate now) w = Workflow_Activate now w"
| "workflow_step (DoDeactivate now) w = Workflow_Deactivate now w"
| "workflow_step (DoArchive now) w = Workflow_Archive now w"
| "workflow_step (DoAddNode fresh now n) w = AddNode fresh now n w"
| "workflow_step (DoRemoveNode now x) w = RemoveNode now x w"
| "workflow_step (DoAddConnection fresh now c) w = AddConnection fresh now c w"
| "workflow_step (DoUpdateSettings now s) w = UpdateSettings now s w"

section \<open>The invariant\<close>

definition port_key :: "Connection \<Rightarrow> string \<times> string \<times> string \<times> string" where
  "port_key c = (c_SourceNodeID c, c_TargetNodeID c, c_SourcePort c, c_TargetPort c)"

definition runnable :: "Workflow \<Rightarrow> bool" where
  "runnable w \<longleftrightarrow> (\<exists>n\<in>set (w_nodes w). n_Type n = NodeTypeTrigger) \<and> acyclic (edges (w_connections w))"

definition structure_inv :: "Workflow \<Rightarrow> bool" where
  "structure_inv w \<longleftrightarrow>
     distinct (map n_ID (w_nodes w)) \<and> '''' \<notin> node_ids (w_nodes w) \<and>
     int (length (w_nodes w)) \<le> w_maxNodes w \<and>
     distinct (map port_key (w_connections w)) \<and>
     endpoints_in (node_ids (w_nodes w)) (w_connections w)"

definition workflow_inv :: "Workflow \<Rightarrow> bool" where
  "workflow_inv w \<longleftrightarrow> structure_inv w \<and> (w_status w = WorkflowStatusActive \<longrightarrow> runnable w)"

text \<open>The caller's side: a generated node identifier is a new, non-empty string.\<close>

fun workflow_pre :: "Workflow \<Rightarrow> WorkflowCmd \<Rightarrow> bool" where
  "workflow_pre w (DoAddNode fresh now n) =
     (n_ID n = '''' \<longrightarrow> fresh \<noteq> '''' \<and> fresh \<notin> node_ids (w_nodes w))"
| "workflow_pre w _ = True"

lemma redraft_simps [simp]:
  "w_nodes (redraft w) = w_nodes w" "w_connections (redraft w) = w_connections w"
  "w_maxNodes (redraft w) = w_maxNodes w" "w_version (redraft w) = w_version w"
  "w_events (redraft w) = w_events w" "w_id (redraft w) = w_id w"
  "w_updatedAt (redraft w) = w_updatedAt w" "w_status (redraft w) \<noteq> WorkflowStatusActive"
  by (simp_all add: redraft_def)

lemma addEvent_simps [simp]:
  "w_nodes (addEvent e w) = w_nodes w" "w_connections (addEvent e w) = w_connections w"
  "w_maxNodes (addEvent e w) = w_maxNodes w" "w_version (addEvent e w) = w_version w + 1"
  "w_events (addEvent e w) = w_events w @ [e]" "w_id (addEvent e w) = w_id w"
  "w_status (addEvent e w) = w_status w" "w_updatedAt (addEvent e w) = w_updatedAt w"
  by (simp_all add: addEvent_def)

lemma structure_inv_cong:
  "w_nodes w' = w_nodes w \<Longrightarrow> w_connections w' = w_connections w \<Longrightarrow> w_maxNodes w' = w_maxNodes w \<Longrightarrow>
   structure_inv w' = structure_inv w"
  by (simp add: structure_inv_def)

lemma checkEndpoints_None: "checkEndpoints N cs = None \<longleftrightarrow> endpoints_in N cs"
  by (induction cs) auto

lemma validateConnections_None:
  "validateConnections w = None \<longleftrightarrow>
   endpoints_in (node_ids (w_nodes w)) (w_connections w) \<and> acyclic (edges (w_connections w))"
  using hasCycle_correct[of w]
  by (auto simp: validateConnections_def checkEndpoints_None split: option.splits)
     (simp_all flip: checkEndpoints_None)

lemma nodeIndex_Some:
  "nodeIndex x ns = Some i \<Longrightarrow>
   i < length ns \<and> n_ID (ns ! i) = x \<and> x \<notin> n_ID ` set (take i ns) \<and>
   ns = take i ns @ ns ! i # drop (i + 1) ns"
  by (induction ns arbitrary: i) (auto split: if_splits)

lemma nodeIndex_None: "nodeIndex x ns = None \<longleftrightarrow> x \<notin> node_ids ns"
  by (induction ns) auto

text \<open>With distinct identifiers, cutting out the first hit is filtering the identifier away.\<close>

lemma remove_at_nodeIndex:
  assumes "nodeIndex x ns = Some i" and "distinct (map n_ID ns)"
  shows "take i ns @ drop (i + 1) ns = filter (\<lambda>n. n_ID n \<noteq> x) ns"
  using assms
proof (induction ns arbitrary: i)
  case (Cons n ns)
  then show ?case
    by (cases "n_ID n = x") (auto intro!: filter_True[symmetric] simp: image_iff)
qed simp

lemma Workflow_Activate_ok:
  "Workflow_Activate now w = Inr w' \<longleftrightarrow>
   w_status w \<in> {WorkflowStatusDraft, WorkflowStatusInactive} \<and>
   endpoints_in (node_ids (w_nodes w)) (w_connections w) \<and> runnable w \<and>
   w' = addEvent (WorkflowActivatedEvent (w_id w) now)
     (w\<lparr> w_status := WorkflowStatusActive, w_updatedAt := now \<rparr>)"
  using validateConnections_None[of w]
  by (cases "validateConnections w") (auto simp: Workflow_Activate_def runnable_def list_ex_iff)

lemma AddNode_inv [op_inv]:
  assumes "AddNode fresh now n w = Inr w'" and "structure_inv w"
    and "n_ID n = '''' \<Longrightarrow> fresh \<noteq> '''' \<and> fresh \<notin> node_ids (w_nodes w)"
  shows "workflow_inv w'"
proof -
  obtain n' where ns: "w_nodes w' = w_nodes w @ [n']" and new: "n_ID n' \<noteq> ''''" "n_ID n' \<notin> node_ids (w_nodes w)"
    and len: "int (length (w_nodes w)) < w_maxNodes w"
    and rest: "w_connections w' = w_connections w" "w_maxNodes w' = w_maxNodes w"
      "w_status w' \<noteq> WorkflowStatusActive"
    using assms(1,3)
    by (cases "n_ID n = ''''") (auto simp: AddNode_def Let_def simp del: image_iff split: if_splits)
  have "endpoints_in (node_ids (w_nodes w')) (w_connections w)"
    using assms(2) by (auto simp: structure_inv_def ns intro: endpoints_in_mono)
  then show ?thesis
    using assms(2) len new rest by (simp add: workflow_inv_def structure_inv_def ns)
qed

lemma RemoveNode_inv [op_inv]:
  assumes "RemoveNode now x w = Inr w'" and "structure_inv w"
  shows "workflow_inv w'"
proof -
  obtain i where i: "nodeIndex x (w_nodes w) = Some i"
    using assms(1) by (auto simp: RemoveNode_def split: if_splits option.splits)
  have ns: "w_nodes w' = filter (\<lambda>n. n_ID n \<noteq> x) (w_nodes w)"
    and cs: "w_connections w' =
      filter (\<lambda>c. c_SourceNodeID c \<noteq> x \<and> c_TargetNodeID c \<noteq> x) (w_connections w)"
    and rest: "w_maxNodes w' = w_maxNodes w" "w_status w' \<noteq> WorkflowStatusActive"
    using assms i remove_at_nodeIndex[OF i]
    by (auto simp: RemoveNode_def structure_inv_def split: if_splits)
  have "node_ids (w_nodes w') = node_ids (w_nodes w) - {x}"
    by (auto simp: ns)
  moreover have "int (length (w_nodes w')) \<le> w_maxNodes w"
    using assms(2) length_filter_le[of "\<lambda>n. n_ID n \<noteq> x" "w_nodes w"]
    unfolding ns structure_inv_def by linarith
  ultimately show ?thesis
    using assms(2) rest endpoints_in_filter[of "node_ids (w_nodes w)" "w_connections w" x]
    by (auto simp: workflow_inv_def structure_inv_def ns cs filter_distinct_map)
qed

lemma AddConnection_inv [op_inv]:
  assumes "AddConnection fresh now c w = Inr w'" and "structure_inv w"
  shows "workflow_inv w'"
proof -
  obtain c' where cs: "w_connections w' = w_connections w @ [c']" and key: "port_key c' = port_key c"
    and ends: "c_SourceNodeID c' \<in> node_ids (w_nodes w)" "c_TargetNodeID c' \<in> node_ids (w_nodes w)"
    and rest: "w_nodes w' = w_nodes w" "w_maxNodes w' = w_maxNodes w"
      "w_status w' \<noteq> WorkflowStatusActive"
    using assms(1)
    by (cases "c_ID c = ''''")
       (auto simp: AddConnection_def Let_def port_key_def simp del: image_iff split: if_splits)
  have "port_key c \<notin> port_key ` set (w_connections w)"
    using assms(1) by (auto simp: AddConnection_def list_ex_iff port_key_def split: if_splits)
  then show ?thesis
    using assms(2) cs key ends rest by (simp add: workflow_inv_def structure_inv_def)
qed

lemma workflow_step_inv [op_inv]:
  assumes "workflow_inv w" and "workflow_pre w c" and "workflow_step c w = Inr w'"
  shows "workflow_inv w'"
proof (cases c)
  case (DoActivate now)
  then show ?thesis
    using assms structure_inv_cong[of w' w]
    by (auto simp: Workflow_Activate_ok workflow_inv_def runnable_def)
next
  case (DoDeactivate now)
  then show ?thesis
    using assms structure_inv_cong[of w' w]
    by (auto simp: Workflow_Deactivate_def workflow_inv_def split: if_splits)
next
  case (DoArchive now)
  then show ?thesis
    using assms structure_inv_cong[of w' w]
    by (auto simp: Workflow_Archive_def workflow_inv_def split: if_splits)
next
  case (DoUpdateSettings now s)
  then show ?thesis
    using assms structure_inv_cong[of w' w]
    by (auto simp: UpdateSettings_def workflow_inv_def runnable_def split: if_splits)
next
  case (DoAddNode fresh now n)
  then show ?thesis
    using assms AddNode_inv[of fresh now n w w'] by (simp add: workflow_inv_def[of w])
next
  case (DoRemoveNode now x)
  then show ?thesis
    using assms RemoveNode_inv[of now x w w'] by (simp add: workflow_inv_def[of w])
next
  case (DoAddConnection fresh now d)
  then show ?thesis
    using assms AddConnection_inv[of fresh now d w w'] by (simp add: workflow_inv_def[of w])
qed

lemma workflow_step_version [op_version]:
  "workflow_step c w = Inr w' \<Longrightarrow> w_version w' = w_version w + 1"
  by (cases c) (auto simp: Workflow_Activate_ok Workflow_Deactivate_def Workflow_Archive_def
      AddNode_def RemoveNode_def AddConnection_def UpdateSettings_def Let_def
      split: if_splits option.splits)

interpretation workflow: versioned_aggregate workflow_step workflow_inv workflow_pre w_version
  by unfold_locales (rule op_inv op_version; assumption)+

lemma archived_step: "w_status w = WorkflowStatusArchived \<Longrightarrow> \<exists>e. workflow_step c w = Inl e"
  by (cases c) (auto simp: workflow_defs)

lemma NewWorkflow_inv:
  "NewWorkflow i t1 t2 u n d = Inr w \<Longrightarrow> workflow_inv w"
  by (auto simp: NewWorkflow_def workflow_inv_def structure_inv_def split: if_splits)

lemma MarkEventsAsCommitted_inv: "workflow_inv (MarkEventsAsCommitted w) = workflow_inv w"
  by (simp add: MarkEventsAsCommitted_def workflow_inv_def structure_inv_def runnable_def)

section \<open>Replaying the events\<close>

text \<open>
  The abstract specification of the event stream: an event says how the content of the aggregate
  changes, and \<open>apply_event\<close> says what a consumer that sees only the events makes of it. The tags
  and the limit on the nodes never change; the version counts the events.
\<close>

fun apply_event :: "WorkflowEvent \<Rightarrow> Workflow \<Rightarrow> Workflow" where
  "apply_event (WorkflowCreatedEvent i u n d t) w =
     w\<lparr> w_id := i, w_userID := u, w_name := n, w_description := d, w_createdAt := t \<rparr>"
| "apply_event (WorkflowActivatedEvent i t) w =
     w\<lparr> w_status := WorkflowStatusActive, w_updatedAt := t \<rparr>"
| "apply_event (WorkflowDeactivatedEvent i t) w =
     w\<lparr> w_status := WorkflowStatusInactive, w_updatedAt := t \<rparr>"
| "apply_event (WorkflowArchivedEvent i t) w =
     w\<lparr> w_status := WorkflowStatusArchived, w_updatedAt := t \<rparr>"
| "apply_event (NodeAddedEvent i n t) w =
     redraft (w\<lparr> w_nodes := w_nodes w @ [n], w_updatedAt := t \<rparr>)"
| "apply_event (NodeRemovedEvent i x t) w =
     redraft (w\<lparr> w_nodes := filter (\<lambda>n. n_ID n \<noteq> x) (w_nodes w),
       w_connections := filter (\<lambda>c. x \<notin> {c_SourceNodeID c, c_TargetNodeID c}) (w_connections w),
       w_updatedAt := t \<rparr>)"
| "apply_event (ConnectionAddedEvent i c t) w =
     redraft (w\<lparr> w_connections := w_connections w @ [c], w_updatedAt := t \<rparr>)"
| "apply_event (WorkflowSettingsUpdatedEvent i s t) w = w\<lparr> w_settings := s, w_updatedAt := t \<rparr>"

text \<open>What the events describe: all but the bookkeeping of the events themselves.\<close>

definition content :: "Workflow \<Rightarrow> Workflow" where
  "content w = w\<lparr> w_events := [], w_version := 0 \<rparr>"

lemma redraft_upd [simp]:
  "content (redraft w) = redraft (content w)"
  by (simp add: content_def redraft_def)

lemma content_addEvent [simp]: "content (addEvent e w) = content w"
  by (simp add: content_def addEvent_def)

lemma workflow_step_event:
  assumes "workflow_inv w" and "workflow_step c w = Inr w'"
  shows "\<exists>e. w_events w' = w_events w @ [e] \<and> content w' = apply_event e (content w) \<and>
           AggregateID e = w_id w \<and> w_id w' = w_id w \<and> OccurredAt e = w_updatedAt w'"
proof (cases c)
  case (DoRemoveNode now x)
  then obtain i where i: "nodeIndex x (w_nodes w) = Some i"
    using assms(2) by (auto simp: RemoveNode_def split: if_splits option.splits)
  have "take i (w_nodes w) @ drop (i + 1) (w_nodes w) = filter (\<lambda>n. n_ID n \<noteq> x) (w_nodes w)"
    using remove_at_nodeIndex[OF i] assms(1) by (simp add: workflow_inv_def structure_inv_def)
  moreover have "filter (\<lambda>c. c_SourceNodeID c \<noteq> x \<and> c_TargetNodeID c \<noteq> x) (w_connections w) =
      filter (\<lambda>c. x \<notin> {c_SourceNodeID c, c_TargetNodeID c}) (w_connections w)"
    by (rule filter_cong) auto
  ultimately show ?thesis
    using assms(2) DoRemoveNode i
    by (auto simp: RemoveNode_def content_def addEvent_def redraft_def split: if_splits)
qed (use assms(2) in \<open>auto simp: Workflow_Activate_ok Workflow_Deactivate_def Workflow_Archive_def
       AddNode_def AddConnection_def UpdateSettings_def Let_def content_def addEvent_def redraft_def
       split: if_splits\<close>)

lemma run_replay:
  assumes "workflow_inv w" and "admissible workflow_step workflow_pre w cs"
  shows "\<exists>es. w_events (attempts workflow_step w cs) = w_events w @ es \<and>
           content (attempts workflow_step w cs) = fold apply_event es (content w) \<and>
           (\<forall>e\<in>set es. AggregateID e = w_id w)"
proof -
  let ?P = "\<lambda>v. workflow_inv v \<and> w_id v = w_id w \<and> (\<exists>es. w_events v = w_events w @ es \<and>
      content v = fold apply_event es (content w) \<and> (\<forall>e\<in>set es. AggregateID e = w_id w))"
  have "?P (attempts workflow_step w cs)"
  proof (rule attempts_induct[where P = ?P])
    fix v c v'
    assume P: "?P v" and pre: "workflow_pre v c" and step: "workflow_step c v = Inr v'"
    from P obtain es where es: "w_events v = w_events w @ es" "content v = fold apply_event es (content w)"
      "\<forall>e\<in>set es. AggregateID e = w_id w" by blast
    from P step obtain e where e: "w_events v' = w_events v @ [e]" "content v' = apply_event e (content v)"
      "AggregateID e = w_id v" "w_id v' = w_id v"
      using workflow_step_event by blast
    show "?P v'"
      using workflow_step_inv[OF _ pre step] P es e by (auto intro!: exI[of _ "es @ [e]"])
  qed (use assms in auto)
  then show ?thesis
    by blast
qed

lemma workflow_step_frame:
  "workflow_step c w = Inr w' \<Longrightarrow> w_maxNodes w' = w_maxNodes w \<and> w_id w' = w_id w"
  by (cases c) (auto simp: Workflow_Activate_ok Workflow_Deactivate_def Workflow_Archive_def
      AddNode_def RemoveNode_def AddConnection_def UpdateSettings_def Let_def
      split: if_splits option.splits)

lemma run_maxNodes: "w_maxNodes (attempts workflow_step w cs) = w_maxNodes w"
proof (induction cs arbitrary: w)
  case (Cons c cs)
  then show ?case
    by (cases "workflow_step c w") (auto dest: workflow_step_frame)
qed simp

section \<open>Properties\<close>

text \<open>Sample data for the instances below: a trigger feeding an action.\<close>

definition sample_node :: "string \<Rightarrow> NodeType \<Rightarrow> Node" where
  "sample_node i t = \<lparr> n_ID = i, n_Type = t, n_Name = i, n_Description = '''', n_Config = Map.empty,
     n_Position = \<lparr> p_X = 0, p_Y = 0 \<rparr> \<rparr>"

definition sample_conn :: "string \<Rightarrow> string \<Rightarrow> Connection" where
  "sample_conn a b = \<lparr> c_ID = a @ ''-'' @ b, c_SourceNodeID = a, c_TargetNodeID = b,
     c_SourcePort = ''out'', c_TargetPort = ''in'' \<rparr>"

definition sample_workflow :: "Node list \<Rightarrow> Connection list \<Rightarrow> Workflow" where
  "sample_workflow ns cs =
     ReconstructWorkflow ''w'' ''u'' ''n'' '''' WorkflowStatusDraft ns cs DefaultSettings 0 0 0"

definition sample_cmds :: "WorkflowCmd list" where
  "sample_cmds =
    [DoAddNode ''f1'' 2 (sample_node ''a'' NodeTypeTrigger),
     DoAddNode ''f2'' 3 (sample_node '''' NodeTypeAction),
     DoAddConnection ''f3'' 4 (sample_conn ''a'' ''f2''),
     DoActivate 5]"

definition sample_new :: Workflow where
  "sample_new = projr (NewWorkflow ''w'' 0 1 ''u'' ''n'' '''')"

lemmas sample_defs = sample_node_def sample_conn_def sample_workflow_def ReconstructWorkflow_def

text \<open>C1: the depth-first search \<open>hasCycle\<close> answers true exactly when the directed graph of the
  connections has a cycle, for every workflow whose connections join its own nodes, in particular
  for every workflow \<open>validateConnections\<close> applies it to.\<close>

theorem hasCycle_iff_cyclic:
  assumes "endpoints_in (node_ids (w_nodes w)) (w_connections w)"
  shows "hasCycle w \<longleftrightarrow> \<not> acyclic (edges (w_connections w))"
  using assms by (rule hasCycle_correct)

theorem hasCycle_iff_cyclic_witness:
  "\<not> acyclic (edges (w_connections
     (sample_workflow [sample_node ''a'' NodeTypeTrigger, sample_node ''b'' NodeTypeAction,
        sample_node ''c'' NodeTypeAction]
       [sample_conn ''a'' ''b'', sample_conn ''b'' ''c'', sample_conn ''c'' ''b''])))"
  by (subst hasCycle_iff_cyclic[symmetric])
     (simp_all add: sample_defs hasCycle_def hasCycleDFS_def)

text \<open>C2: whatever commands a client sends to a new workflow, in any order and with any of them
  rejected, its node identifiers stay distinct, it has at most 100 nodes, its connections join its
  nodes, and whenever it is active it has a trigger and no cycle.\<close>

theorem active_workflow_runnable:
  assumes "NewWorkflow i t1 t2 u n d = Inr w0"
    and "admissible workflow_step workflow_pre w0 cs"
    and "w = attempts workflow_step w0 cs"
  shows "distinct (map n_ID (w_nodes w)) \<and> length (w_nodes w) \<le> 100 \<and>
    (\<forall>c\<in>set (w_connections w). c_SourceNodeID c \<in> node_ids (w_nodes w) \<and> c_TargetNodeID c \<in> node_ids (w_nodes w)) \<and>
    (w_status w = WorkflowStatusActive \<longrightarrow>
       (\<exists>n\<in>set (w_nodes w). n_Type n = NodeTypeTrigger) \<and> acyclic (edges (w_connections w)))"
proof -
  have "workflow_inv w"
    unfolding assms(3) by (rule workflow.run_inv[OF NewWorkflow_inv[OF assms(1)] assms(2)])
  moreover have "w_maxNodes w = 100"
    using assms(1,3) run_maxNodes[of w0 cs] by (auto simp: NewWorkflow_def split: if_splits)
  ultimately show ?thesis
    by (simp add: workflow_inv_def structure_inv_def runnable_def endpoints_in_def)
qed

theorem active_workflow_runnable_witness:
  "w_status (attempts workflow_step sample_new sample_cmds) = WorkflowStatusActive \<and>
   acyclic (edges (w_connections (attempts workflow_step sample_new sample_cmds)))"
proof -
  have new: "NewWorkflow ''w'' 0 1 ''u'' ''n'' '''' = Inr sample_new"
    by (simp add: sample_new_def NewWorkflow_def)
  have adm: "admissible workflow_step workflow_pre sample_new sample_cmds"
    by code_simp
  have act: "w_status (attempts workflow_step sample_new sample_cmds) = WorkflowStatusActive"
    by code_simp
  then show ?thesis
    using active_workflow_runnable[OF new adm refl] by auto
qed

text \<open>Activation succeeds exactly for a draft or inactive workflow with a trigger node whose
  connections join its nodes without a cycle; it then only sets the status and the time, and appends
  the activation event.\<close>

theorem Activate_succeeds_iff:
  "(\<exists>w'. Workflow_Activate now w = Inr w') \<longleftrightarrow>
     w_status w \<in> {WorkflowStatusDraft, WorkflowStatusInactive} \<and>
     (\<exists>n\<in>set (w_nodes w). n_Type n = NodeTypeTrigger) \<and>
     endpoints_in (node_ids (w_nodes w)) (w_connections w) \<and>
     acyclic (edges (w_connections w))"
  by (auto simp: Workflow_Activate_ok runnable_def)

text \<open>An archived workflow is final: every command is rejected and no sequence of commands
  changes anything in it.\<close>

theorem archived_is_final:
  assumes "w_status w = WorkflowStatusArchived"
  shows "attempts workflow_step w cs = w"
  by (rule attempts_stuck) (rule archived_step[OF assms])

theorem archived_is_final_witness:
  "attempts workflow_step
     (sample_workflow [] [] \<lparr> w_status := WorkflowStatusArchived \<rparr>) sample_cmds =
   sample_workflow [] [] \<lparr> w_status := WorkflowStatusArchived \<rparr>"
  by (rule archived_is_final) simp

text \<open>\<open>RemoveNode\<close> of a node of the workflow leaves exactly the other nodes, in their order,
  and exactly the connections that do not touch it; an active workflow falls back to draft, any
  other status stays.\<close>

theorem RemoveNode_exact:
  assumes "workflow_inv w" and "w_status w \<noteq> WorkflowStatusArchived"
    and "x \<in> node_ids (w_nodes w)"
  shows "\<exists>w'. RemoveNode now x w = Inr w' \<and>
     w_nodes w' = filter (\<lambda>n. n_ID n \<noteq> x) (w_nodes w) \<and>
     w_connections w' = filter (\<lambda>c. c_SourceNodeID c \<noteq> x \<and> c_TargetNodeID c \<noteq> x) (w_connections w) \<and>
     w_status w' = (if w_status w = WorkflowStatusActive then WorkflowStatusDraft else w_status w)"
proof -
  obtain i where i: "nodeIndex x (w_nodes w) = Some i"
    using assms(3) nodeIndex_None[of x "w_nodes w"] by (cases "nodeIndex x (w_nodes w)") auto
  then show ?thesis
    using remove_at_nodeIndex[OF i] assms(1,2)
    by (simp add: RemoveNode_def workflow_inv_def structure_inv_def redraft_def)
qed

theorem RemoveNode_exact_witness:
  "\<exists>w'. RemoveNode 7 ''a'' (sample_workflow [sample_node ''a'' NodeTypeTrigger, sample_node ''b'' NodeTypeAction]
       [sample_conn ''a'' ''b'']) = Inr w' \<and> w_nodes w' = [sample_node ''b'' NodeTypeAction] \<and> w_connections w' = []"
  using RemoveNode_exact[of "sample_workflow [sample_node ''a'' NodeTypeTrigger, sample_node ''b'' NodeTypeAction]
       [sample_conn ''a'' ''b'']" "''a''" 7]
  by (auto simp: sample_defs workflow_inv_def structure_inv_def)

text \<open>C3: the events are a faithful journal: the events a run of commands appends all carry the
  workflow's identifier, and replaying them alone on the content the workflow had before gives the
  content it has afterwards.\<close>

theorem events_replay_content:
  assumes "workflow_inv w" and "admissible workflow_step workflow_pre w cs"
    and "w_events w = []" and "w' = attempts workflow_step w cs"
  shows "fold apply_event (GetUncommittedEvents w') (content w) = content w' \<and>
     (\<forall>e\<in>set (GetUncommittedEvents w'). AggregateID e = w_id w)"
  using run_replay[OF assms(1,2)] assms(3,4) by (auto simp: GetUncommittedEvents_def)

theorem events_replay_content_witness:
  "fold apply_event (GetUncommittedEvents (attempts workflow_step (MarkEventsAsCommitted sample_new) sample_cmds))
     (content (MarkEventsAsCommitted sample_new)) =
   content (attempts workflow_step (MarkEventsAsCommitted sample_new) sample_cmds)"
proof -
  have "workflow_inv (MarkEventsAsCommitted sample_new)"
    by (auto simp: MarkEventsAsCommitted_inv sample_new_def NewWorkflow_def intro: NewWorkflow_inv)
  moreover have "admissible workflow_step workflow_pre (MarkEventsAsCommitted sample_new) sample_cmds"
    by code_simp
  moreover have "w_events (MarkEventsAsCommitted sample_new) = []"
    by (simp add: MarkEventsAsCommitted_def)
  ultimately show ?thesis
    using events_replay_content by blast
qed

text \<open>The version numbers the accepted commands: a run that leaves the version as it was has
  changed nothing, which is what a save guarded by the version relies on.\<close>

theorem equal_version_equal_workflow:
  "w_version (attempts workflow_step w cs) = w_version w + int (accepted workflow_step w cs) \<and>
   (w_version (attempts workflow_step w cs) = w_version w \<longrightarrow> attempts workflow_step w cs = w)"
  using workflow.run_version workflow.run_version_eq by blast

theorem equal_version_equal_workflow_witness:
  "attempts workflow_step sample_new [DoDeactivate 1, DoRemoveNode 2 ''x''] = sample_new"
proof -
  have "w_version (attempts workflow_step sample_new [DoDeactivate 1, DoRemoveNode 2 ''x'']) = w_version sample_new"
    by code_simp
  then show ?thesis
    using equal_version_equal_workflow by blast
qed

end
