(* ===== verification/Engine_Types.thy ===== *)
theory Engine_Types
  imports Prelude
begin

text \<open>
  What the two execution engines of \<open>internal/engine\<close> share: the workflow definition they run
  (\<open>engine.go\<close>), the input and output of a node, and the registry of node executors
  (\<open>internal/node/runtime/registry.go\<close>).

  A node executor is an interface value. Its \<open>Execute\<close> may do anything to the outside world, so it
  is a field of the executor that maps a world \<open>'w\<close> and an input to a new world and either an
  error or an output; the models thread the world through every call.
\<close>

section \<open>Node metadata\<close>

record PortDefinition =
  port_Name :: string
  port_Type :: string
  port_Required :: bool
  port_Multiple :: bool
  port_Description :: string

record PropertyOption =
  po_Label :: string
  po_Value :: "value"

record PropertyDefinition =
  pd_Name :: string
  pd_Type :: string
  pd_Required :: bool
  pd_Default :: "value"
  pd_Description :: string
  pd_Options :: "PropertyOption list"
  pd_Placeholder :: string
  pd_DisplayOrder :: int

record NodeMetadata =
  nm_Type :: string
  nm_Name :: string
  nm_Description :: string
  nm_Category :: string
  nm_Icon :: string
  nm_Color :: string
  nm_Version :: string
  nm_Inputs :: "PortDefinition list"
  nm_Outputs :: "PortDefinition list"
  nm_Properties :: "PropertyDefinition list"
  nm_IsTrigger :: bool
  nm_IsPremium :: bool

section \<open>Input and output of a node\<close>

record LogEntry =
  le_Level :: string
  le_Message :: string
  le_Timestamp :: int
  le_NodeID :: string

record ExecutionMetrics =
  em_StartTime :: int
  em_EndTime :: int
  em_DurationMs :: int
  em_ItemsIn :: int
  em_ItemsOut :: int
  em_BytesRead :: int
  em_BytesWritten :: int

record ExecutionContext =
  xc_ExecutionID :: string
  xc_WorkflowID :: string
  xc_UserID :: string
  xc_WorkspaceID :: string
  xc_Variables :: dict
  xc_Env :: "string \<Rightarrow> string option"
  xc_Mode :: string

record ExecutionInput =
  xi_NodeID :: string
  xi_NodeConfig :: dict
  xi_InputData :: dict
  xi_Credentials :: "dict option"
  xi_Context :: ExecutionContext

record ExecutionOutput =
  xo_Data :: "dict option"
  xo_Binary :: "string \<Rightarrow> 8 word list option"
  xo_Error :: "string option"
  xo_Logs :: "LogEntry list"
  xo_Metrics :: ExecutionMetrics

section \<open>The registry of node executors\<close>

record 'w NodeExecutor =
  ex_Type :: string
  ex_Metadata :: NodeMetadata
  ex_IsTriggerExecutor :: bool
  ex_Execute :: "'w \<Rightarrow> ExecutionInput \<Rightarrow> 'w \<times> (string + ExecutionOutput)"

record 'w Registry =
  reg_nodes :: "string \<Rightarrow> 'w NodeExecutor option"
  reg_triggers :: "string \<Rightarrow> 'w NodeExecutor option"

definition NewRegistry :: "'w Registry" where
  "NewRegistry = \<lparr> reg_nodes = Map.empty, reg_triggers = Map.empty \<rparr>"

definition Register :: "'w NodeExecutor \<Rightarrow> 'w Registry \<Rightarrow> string + 'w Registry" where
  "Register ex r =
     (if reg_nodes r (ex_Type ex) \<noteq> None
      then Inl (''node type '' @ ex_Type ex @ '' already registered'')
      else
        let r1 = r\<lparr> reg_nodes := (reg_nodes r)(ex_Type ex \<mapsto> ex) \<rparr>
        in Inr (if ex_IsTriggerExecutor ex
                then r1\<lparr> reg_triggers := (reg_triggers r1)(ex_Type ex \<mapsto> ex) \<rparr> else r1))"

definition Registry_Get :: "string \<Rightarrow> 'w Registry \<Rightarrow> string + 'w NodeExecutor" where
  "Registry_Get t r =
     (case reg_nodes r t of None \<Rightarrow> Inl (''node type '' @ t @ '' not found'') | Some ex \<Rightarrow> Inr ex)"

definition Registry_GetTrigger :: "string \<Rightarrow> 'w Registry \<Rightarrow> string + 'w NodeExecutor" where
  "Registry_GetTrigger t r =
     (case reg_triggers r t of None \<Rightarrow> Inl (''trigger type '' @ t @ '' not found'') | Some ex \<Rightarrow> Inr ex)"

text \<open>
  A Go map is ranged over in an arbitrary order: \<open>keys\<close> lists the keys of \<open>reg_nodes\<close> in the order
  this call happens to visit them.
\<close>

definition ListByCategory :: "string list \<Rightarrow> string \<Rightarrow> 'w Registry \<Rightarrow> NodeMetadata list" where
  "ListByCategory keys category r =
     filter (\<lambda>m. nm_Category m = category) (map (\<lambda>k. ex_Metadata (the (reg_nodes r k))) keys)"

definition List_metadata :: "string list \<Rightarrow> 'w Registry \<Rightarrow> NodeMetadata list" where
  "List_metadata keys r = map (\<lambda>k. ex_Metadata (the (reg_nodes r k))) keys"

section \<open>Workflow definitions\<close>

record EnginePosition =
  ep_X :: rat
  ep_Y :: rat

record NodeDef =
  nd_ID :: string
  nd_Type :: string
  nd_Name :: string
  nd_Config :: dict
  nd_Position :: EnginePosition
  nd_Credential :: string

record EConnection =
  ec_SourceNodeID :: string
  ec_SourcePort :: string
  ec_TargetNodeID :: string
  ec_TargetPort :: string

record WorkflowSettings =
  ws_MaxExecutionTime :: int
  ws_RetryOnFail :: bool
  ws_MaxRetries :: int
  ws_ErrorHandling :: string

record WorkflowDef =
  wd_ID :: string
  wd_Name :: string
  wd_Nodes :: "NodeDef list"
  wd_Connections :: "EConnection list"
  wd_Settings :: WorkflowSettings

record ExecutionOptions =
  eo_Mode :: string
  eo_TriggerData :: "dict option"
  eo_Credentials :: "string \<Rightarrow> dict option"
  eo_Variables :: dict
  eo_Environment :: "string \<Rightarrow> string option"
  eo_UserID :: string
  eo_WorkspaceID :: string

definition getNodeMetadata :: "'w Registry \<Rightarrow> string \<Rightarrow> string + NodeMetadata" where
  "getNodeMetadata r t = (case Registry_Get t r of Inl e \<Rightarrow> Inl e | Inr ex \<Rightarrow> Inr (ex_Metadata ex))"

text \<open>The test both engines make: the type is registered and its metadata says trigger.\<close>

definition is_trigger :: "'w Registry \<Rightarrow> NodeDef \<Rightarrow> bool" where
  "is_trigger r n = (case getNodeMetadata r (nd_Type n) of Inl _ \<Rightarrow> False | Inr m \<Rightarrow> nm_IsTrigger m)"

section \<open>The graph of a definition\<close>

definition eedges :: "EConnection list \<Rightarrow> (string \<times> string) set" where
  "eedges cs = {(ec_SourceNodeID c, ec_TargetNodeID c) |c. c \<in> set cs}"

lemma eedges_Nil [simp]: "eedges [] = {}"
  by (simp add: eedges_def)

lemma eedges_Cons [simp]:
  "eedges (c # cs) = insert (ec_SourceNodeID c, ec_TargetNodeID c) (eedges cs)"
  by (auto simp: eedges_def)

lemma finite_eedges [simp]: "finite (eedges cs)"
  by (induction cs) auto

lemma eedgesI: "c \<in> set cs \<Longrightarrow> (ec_SourceNodeID c, ec_TargetNodeID c) \<in> eedges cs"
  by (auto simp: eedges_def)

text \<open>\<open>buildExecutionGraph\<close>: targets appended to the entry of their source.\<close>

fun buildExecutionGraph :: "EConnection list \<Rightarrow> (string \<Rightarrow> string list) \<Rightarrow> string \<Rightarrow> string list" where
  "buildExecutionGraph [] graph = graph"
| "buildExecutionGraph (c # cs) graph =
     buildExecutionGraph cs
       (graph(ec_SourceNodeID c := graph (ec_SourceNodeID c) @ [ec_TargetNodeID c]))"

lemma buildExecutionGraph_eq:
  "buildExecutionGraph cs g x = g x @ map ec_TargetNodeID (filter (\<lambda>c. ec_SourceNodeID c = x) cs)"
  by (induction cs arbitrary: g) auto

lemma set_buildExecutionGraph:
  "y \<in> set (buildExecutionGraph cs (\<lambda>_. []) x) \<longleftrightarrow> (x, y) \<in> eedges cs"
  by (auto simp: buildExecutionGraph_eq eedges_def)

section \<open>Registration\<close>

definition registry_inv :: "'w Registry \<Rightarrow> bool" where
  "registry_inv r \<longleftrightarrow>
     (\<forall>t ex. reg_nodes r t = Some ex \<longrightarrow> ex_Type ex = t) \<and>
     (\<forall>t. reg_triggers r t =
        (case reg_nodes r t of None \<Rightarrow> None
         | Some ex \<Rightarrow> if ex_IsTriggerExecutor ex then Some ex else None))"

lemma NewRegistry_inv: "registry_inv NewRegistry"
  by (simp add: registry_inv_def NewRegistry_def)

lemma Register_inv: "registry_inv r \<Longrightarrow> Register ex r = Inr r' \<Longrightarrow> registry_inv r'"
  by (auto simp: Register_def registry_inv_def Let_def split: if_splits)

interpretation registry: aggregate Register registry_inv "\<lambda>_ _. True"
  by unfold_locales (rule Register_inv)

lemma Register_keeps:
  "Register ex r = Inr r' \<Longrightarrow> Registry_Get t r = Inr ex' \<Longrightarrow> Registry_Get t r' = Inr ex'"
  by (auto simp: Register_def Registry_Get_def Let_def split: if_splits option.splits)

lemma registrations_keep:
  "Registry_Get t r = Inr ex' \<Longrightarrow> Registry_Get t (attempts Register r exs) = Inr ex'"
proof (induction exs arbitrary: r)
  case (Cons ex exs)
  then show ?case
    by (cases "Register ex r") (auto dest: Register_keeps)
qed simp

end
