(* ===== verification/Engine.thy ===== *)
theory Engine
  imports Engine_Types
begin

text \<open>
  The recursive engine of \<open>internal/engine/engine.go\<close>: \<open>Execute\<close> finds the trigger and follows the
  connections with \<open>executeFromNode\<close>, which keeps no set of visited nodes. The recursion is given
  fuel, a bound on its depth: \<open>None\<close> means that the call is still running at that depth. The
  theorems say for which graphs some fuel is enough, how much, and for which no fuel ever is.

  The environment of a run is the record \<open>EngineEnv\<close>: the registry, the template evaluator of
  \<open>pkg/expression\<close>, and what the code asks the context, the clock and the identifier generator. The world \<open>'w\<close> is threaded
  through the node executors; whether the context is done is read off the world at that moment.
\<close>

section \<open>State\<close>

record ExecState =
  xs_ID :: string
  xs_WorkflowID :: string
  xs_Status :: string
  xs_StartedAt :: time
  xs_CompletedAt :: "time option"
  xs_CurrentNode :: string
  xs_NodeOutputs :: "string \<Rightarrow> dict option"
  xs_Error :: "string option"
  xs_Logs :: "LogEntry list"

record ExprContext =
  ectx_Input :: dict
  ectx_Env :: "string \<Rightarrow> string option"
  ectx_Variables :: dict
  ectx_Nodes :: "string \<Rightarrow> dict option"

record 'w EngineEnv =
  env_registry :: "'w Registry"
  env_EvaluateTemplate :: "dict \<Rightarrow> ExprContext \<Rightarrow> string + dict"
  env_ctxErr :: "'w \<Rightarrow> string option"
  env_UnixMilli :: "'w \<Rightarrow> int"
  env_Now :: "'w \<Rightarrow> time"
  env_UUID :: "'w \<Rightarrow> string"

section \<open>The input of a node\<close>

text \<open>Ranging over the source's output: all its keys but the two reserved ones are copied.\<close>

definition merge_output :: "dict \<Rightarrow> dict \<Rightarrow> dict" where
  "merge_output input out =
     (\<lambda>k. if k \<noteq> ''_output'' \<and> k \<noteq> ''_loopState'' \<and> out k \<noteq> None then out k else input k)"

fun inputLoop :: "EConnection list \<Rightarrow> (string \<Rightarrow> dict option) \<Rightarrow> string \<Rightarrow> dict \<Rightarrow> dict" where
  "inputLoop [] outputs nodeID input = input"
| "inputLoop (c # cs) outputs nodeID input =
     inputLoop cs outputs nodeID
       (if ec_TargetNodeID c = nodeID then
          (case outputs (ec_SourceNodeID c) of
             Some out \<Rightarrow> (merge_output input out)(ec_TargetPort c \<mapsto> VMap out)
           | None \<Rightarrow> input)
        else input)"

definition buildNodeInput :: "WorkflowDef \<Rightarrow> ExecState \<Rightarrow> string \<Rightarrow> dict" where
  "buildNodeInput wfl s nodeID = inputLoop (wd_Connections wfl) (xs_NodeOutputs s) nodeID Map.empty"

definition evaluateConfig ::
  "'w EngineEnv \<Rightarrow> dict \<Rightarrow> (string \<Rightarrow> dict option) \<Rightarrow> dict \<Rightarrow> ExecutionOptions \<Rightarrow> string + dict" where
  "evaluateConfig env config nodeOutputs inputData options =
     env_EvaluateTemplate env config
       \<lparr> ectx_Input = inputData, ectx_Env = eo_Environment options,
         ectx_Variables = eo_Variables options, ectx_Nodes = nodeOutputs \<rparr>"

section \<open>One node\<close>

definition log_entry :: "string \<Rightarrow> string \<Rightarrow> int \<Rightarrow> string \<Rightarrow> LogEntry" where
  "log_entry level msg t nodeID =
     \<lparr> le_Level = level, le_Message = msg, le_Timestamp = t, le_NodeID = nodeID \<rparr>"

definition exec_context :: "WorkflowDef \<Rightarrow> ExecState \<Rightarrow> ExecutionOptions \<Rightarrow> ExecutionContext" where
  "exec_context wfl s options =
     \<lparr> xc_ExecutionID = xs_ID s, xc_WorkflowID = wd_ID wfl, xc_UserID = eo_UserID options,
       xc_WorkspaceID = eo_WorkspaceID options, xc_Variables = eo_Variables options,
       xc_Env = eo_Environment options, xc_Mode = eo_Mode options \<rparr>"

text \<open>
  Branching: an output that names a port follows the connections leaving that port, any other
  output follows all connections.
\<close>

definition nextNodes :: "WorkflowDef \<Rightarrow> string \<Rightarrow> dict \<Rightarrow> string list" where
  "nextNodes wfl nodeID data =
     (case data ''_output'' of
        Some (VStr p) \<Rightarrow>
          map ec_TargetNodeID
            (filter (\<lambda>c. ec_SourceNodeID c = nodeID \<and> ec_SourcePort c = p) (wd_Connections wfl))
      | _ \<Rightarrow> buildExecutionGraph (wd_Connections wfl) (\<lambda>_. []) nodeID)"

text \<open>
  \<open>executeFromNode\<close> up to its loop over the next nodes: an error, or the nodes to go on with.
\<close>

definition executeNodeStep ::
  "'w EngineEnv \<Rightarrow> WorkflowDef \<Rightarrow> ExecutionOptions \<Rightarrow> string \<Rightarrow> 'w \<times> ExecState \<Rightarrow>
   ('w \<times> ExecState) \<times> (string + string list)" where
  "executeNodeStep env wfl options nodeID ws =
     (let (w, s) = ws in
      case find (\<lambda>n. nd_ID n = nodeID) (wd_Nodes wfl) of
        None \<Rightarrow> ((w, s), Inl (''node '' @ nodeID @ '' not found''))
      | Some nodeDef \<Rightarrow>
          (let s1 = s\<lparr> xs_CurrentNode := nodeID \<rparr> in
           case Registry_Get (nd_Type nodeDef) (env_registry env) of
             Inl e \<Rightarrow> ((w, s1), Inl (''executor for node type '' @ nd_Type nodeDef @ '' not found: '' @ e))
           | Inr ex \<Rightarrow>
               (let inputData = buildNodeInput wfl s1 nodeID;
                    credentials = (if nd_Credential nodeDef \<noteq> '''' then eo_Credentials options (nd_Credential nodeDef) else None)
                in case evaluateConfig env (nd_Config nodeDef) (xs_NodeOutputs s1) inputData options of
                  Inl e \<Rightarrow> ((w, s1), Inl (''failed to evaluate config: '' @ e))
                | Inr config \<Rightarrow>
                    (let input = \<lparr> xi_NodeID = nodeID, xi_NodeConfig = config, xi_InputData = inputData,
                           xi_Credentials = credentials, xi_Context = exec_context wfl s1 options \<rparr>;
                         s2 = s1\<lparr> xs_Logs := xs_Logs s1 @
                           [log_entry ''info'' (''Executing node: '' @ nd_Name nodeDef @ '' ('' @ nd_Type nodeDef @ '')'')
                              (env_UnixMilli env w) nodeID] \<rparr>;
                         (w', res) = ex_Execute ex w input
                     in case res of
                       Inl e \<Rightarrow> ((w', s2), Inl (''node '' @ nodeID @ '' execution failed: '' @ e))
                     | Inr out \<Rightarrow>
                         (if xo_Error out \<noteq> None \<and> ws_ErrorHandling (wd_Settings wfl) = ''stop''
                          then ((w', s2), Inl (''node '' @ nodeID @ '' error: '' @ the (xo_Error out)))
                          else
                            let s3 = (case xo_Error out of
                                  None \<Rightarrow> s2
                                | Some e \<Rightarrow> s2\<lparr> xs_Logs := xs_Logs s2 @
                                    [log_entry ''warn'' (''Node '' @ nodeID @ '' error (continuing): '' @ e)
                                       (env_UnixMilli env w') nodeID] \<rparr>);
                                s4 = s3\<lparr> xs_NodeOutputs := (xs_NodeOutputs s3)(nodeID \<mapsto> entries (xo_Data out)),
                                         xs_Logs := xs_Logs s3 @ xo_Logs out \<rparr>
                            in ((w', s4), Inr (nextNodes wfl nodeID (entries (xo_Data out)))))))))"

section \<open>The recursion\<close>

text \<open>The loop over the next nodes, with the recursive call as an argument.\<close>

fun runNext ::
  "'w EngineEnv \<Rightarrow> (string \<Rightarrow> 'w \<times> ExecState \<Rightarrow> (('w \<times> ExecState) \<times> string option) option) \<Rightarrow>
   string list \<Rightarrow> 'w \<times> ExecState \<Rightarrow> (('w \<times> ExecState) \<times> string option) option" where
  "runNext env exec [] ws = Some (ws, None)"
| "runNext env exec (x # xs) ws =
     (case env_ctxErr env (fst ws) of
        Some e \<Rightarrow> Some (ws, Some e)
      | None \<Rightarrow>
          (case exec x ws of
             None \<Rightarrow> None
           | Some (ws', Some e) \<Rightarrow> Some (ws', Some e)
           | Some (ws', None) \<Rightarrow> runNext env exec xs ws'))"

primrec executeFromNode ::
  "'w EngineEnv \<Rightarrow> WorkflowDef \<Rightarrow> ExecutionOptions \<Rightarrow> nat \<Rightarrow> string \<Rightarrow> 'w \<times> ExecState \<Rightarrow>
   (('w \<times> ExecState) \<times> string option) option" where
  "executeFromNode env wfl options 0 = (\<lambda>nodeID ws. None)"
| "executeFromNode env wfl options (Suc fuel) = (\<lambda>nodeID ws.
     (case executeNodeStep env wfl options nodeID ws of
        (ws', Inl e) \<Rightarrow> Some (ws', Some e)
      | (ws', Inr next) \<Rightarrow> runNext env (executeFromNode env wfl options fuel) next ws'))"

text \<open>\<open>Execute\<close>: the two instants are the readings of the clock at the start and at the end.\<close>

definition new_state :: "string \<Rightarrow> time \<Rightarrow> WorkflowDef \<Rightarrow> ExecState" where
  "new_state executionID t wfl =
     \<lparr> xs_ID = executionID, xs_WorkflowID = wd_ID wfl, xs_Status = ''running'', xs_StartedAt = t,
       xs_CompletedAt = None, xs_CurrentNode = '''', xs_NodeOutputs = Map.empty, xs_Error = None,
       xs_Logs = [] \<rparr>"

definition Engine_Execute ::
  "'w EngineEnv \<Rightarrow> nat \<Rightarrow> string \<Rightarrow> time \<Rightarrow> time \<Rightarrow> WorkflowDef \<Rightarrow> ExecutionOptions \<Rightarrow> 'w \<Rightarrow>
   (('w \<times> ExecState) \<times> string option) option" where
  "Engine_Execute env fuel executionID t1 t2 wfl options w =
     (let s = new_state executionID t1 wfl in
      case find (is_trigger (env_registry env)) (wd_Nodes wfl) of
        None \<Rightarrow>
          (let e = ''workflow has no trigger node''
           in Some ((w, s\<lparr> xs_Status := ''failed'', xs_Error := Some e \<rparr>), Some e))
      | Some trigger \<Rightarrow>
          (let s1 = (case eo_TriggerData options of
                None \<Rightarrow> s
              | Some d \<Rightarrow> s\<lparr> xs_NodeOutputs := (xs_NodeOutputs s)(nd_ID trigger \<mapsto> d) \<rparr>)
           in case executeFromNode env wfl options fuel (nd_ID trigger) (w, s1) of
             None \<Rightarrow> None
           | Some ((w', s'), err) \<Rightarrow>
               Some ((w', s'\<lparr> xs_Status := (if err = None then ''completed'' else ''failed''),
                      xs_Error := (if err = None then xs_Error s' else err),
                      xs_CompletedAt := Some t2 \<rparr>), err)))"

section \<open>The table of executions\<close>

type_synonym ExecTable = "string \<Rightarrow> ExecState option"

definition CancelExecution :: "time \<Rightarrow> string \<Rightarrow> ExecTable \<Rightarrow> string + ExecTable" where
  "CancelExecution now i tab =
     (case tab i of
        None \<Rightarrow> Inl (''execution '' @ i @ '' not found'')
      | Some s \<Rightarrow> Inr (tab(i \<mapsto> s\<lparr> xs_Status := ''cancelled'', xs_CompletedAt := Some now \<rparr>)))"

definition GetExecution :: "string \<Rightarrow> ExecTable \<Rightarrow> string + ExecState" where
  "GetExecution i tab =
     (case tab i of None \<Rightarrow> Inl (''execution '' @ i @ '' not found'') | Some s \<Rightarrow> Inr s)"

text \<open>
  \<open>order\<close> lists the keys of the map in the order this call visits them. A negative limit slices
  out of bounds, which panics: \<open>None\<close>.
\<close>

definition ListExecutions :: "string list \<Rightarrow> string \<Rightarrow> int \<Rightarrow> ExecTable \<Rightarrow> ExecState list option" where
  "ListExecutions order workflowID limit tab =
     (let executions = filter (\<lambda>s. workflowID = '''' \<or> xs_WorkflowID s = workflowID)
                         (map (\<lambda>i. the (tab i)) order)
      in if int (length executions) > limit
         then (if limit < 0 then None else Some (take (nat limit) executions))
         else Some executions)"

definition CleanupOldExecutions :: "time \<Rightarrow> duration \<Rightarrow> ExecTable \<Rightarrow> ExecTable" where
  "CleanupOldExecutions now maxAge tab =
     (\<lambda>i. case tab i of
        None \<Rightarrow> None
      | Some s \<Rightarrow>
          (case xs_CompletedAt s of
             Some t \<Rightarrow> if t < now - maxAge then None else Some s
           | None \<Rightarrow> Some s))"

section \<open>Where a run can go\<close>

abbreviation wgraph :: "WorkflowDef \<Rightarrow> (string \<times> string) set" where
  "wgraph wfl \<equiv> eedges (wd_Connections wfl)"

lemma nextNodes_edges: "y \<in> set (nextNodes wfl x data) \<Longrightarrow> (x, y) \<in> wgraph wfl"
  by (auto simp: nextNodes_def set_buildExecutionGraph split: option.splits "value.splits"
      intro: eedgesI)

lemma executeNodeStep_next:
  "executeNodeStep env wfl options x ws = (ws', Inr next) \<Longrightarrow> y \<in> set next \<Longrightarrow> (x, y) \<in> wgraph wfl"
  by (auto simp: executeNodeStep_def Let_def split: prod.splits option.splits sum.splits if_splits
      dest: nextNodes_edges)

lemma executeNodeStep_outputs:
  "executeNodeStep env wfl options x ws = (ws', res) \<Longrightarrow>
   dom (xs_NodeOutputs (snd ws')) \<subseteq> insert x (dom (xs_NodeOutputs (snd ws)))"
  by (auto simp: executeNodeStep_def Let_def split: prod.splits option.splits sum.splits if_splits)

lemma runNext_Some:
  "(\<And>x ws. x \<in> set xs \<Longrightarrow> exec x ws \<noteq> None) \<Longrightarrow> runNext env exec xs ws \<noteq> None"
proof (induction xs arbitrary: ws)
  case (Cons x xs)
  obtain r where "exec x ws = Some r"
    using Cons.prems[of x ws] by auto
  then show ?case
    using Cons.IH[of "fst r"] Cons.prems by (cases r) (simp split: option.split)
qed simp

lemma runNext_cong:
  "(\<And>x ws. x \<in> set xs \<Longrightarrow> exec x ws = exec' x ws) \<Longrightarrow> runNext env exec xs ws = runNext env exec' xs ws"
  by (induction xs arbitrary: ws) (auto split: option.splits)

text \<open>A cycle the walk from \<open>x\<close> can run into, and the rank of a node that meets none.\<close>

definition reaches_cycle :: "(string \<times> string) set \<Rightarrow> string \<Rightarrow> bool" where
  "reaches_cycle E x \<longleftrightarrow> (\<exists>y. (x, y) \<in> E\<^sup>* \<and> (y, y) \<in> E\<^sup>+)"

definition reach_rank :: "(string \<times> string) set \<Rightarrow> string \<Rightarrow> nat" where
  "reach_rank E x = card (E\<^sup>+ `` {x})"

lemma reaches_cycle_step: "(x, y) \<in> E \<Longrightarrow> reaches_cycle E y \<Longrightarrow> reaches_cycle E x"
  unfolding reaches_cycle_def by (meson converse_rtrancl_into_rtrancl)

lemma reaches_cycle_next:
  assumes "reaches_cycle E x"
  shows "\<exists>y. (x, y) \<in> E \<and> reaches_cycle E y"
proof -
  obtain y where y: "(x, y) \<in> E\<^sup>*" "(y, y) \<in> E\<^sup>+"
    using assms by (auto simp: reaches_cycle_def)
  then have "(x, y) \<in> E\<^sup>+"
    by (meson rtrancl_trancl_trancl)
  then obtain z where "(x, z) \<in> E" "(z, y) \<in> E\<^sup>*"
    by (meson tranclD)
  then show ?thesis
    using y(2) by (auto simp: reaches_cycle_def)
qed

lemma trancl_image_snd: "E\<^sup>+ `` {x} \<subseteq> snd ` E"
  by (auto dest!: tranclD2 intro: rev_image_eqI)

lemma finite_trancl_image: "finite E \<Longrightarrow> finite (E\<^sup>+ `` {x})"
  by (rule finite_subset[OF trancl_image_snd]) simp

lemma reach_rank_less:
  assumes "finite E" and "(x, y) \<in> E" and "\<not> reaches_cycle E x"
  shows "reach_rank E y < reach_rank E x"
  unfolding reach_rank_def
proof (rule psubset_card_mono[OF finite_trancl_image[OF assms(1)]])
  have "(y, y) \<notin> E\<^sup>+"
    using assms(2,3) by (auto simp: reaches_cycle_def)
  moreover have "y \<in> E\<^sup>+ `` {x}"
    using assms(2) by auto
  moreover have "E\<^sup>+ `` {y} \<subseteq> E\<^sup>+ `` {x}"
    using assms(2) by (auto intro: trancl_into_trancl2)
  ultimately show "E\<^sup>+ `` {y} \<subset> E\<^sup>+ `` {x}"
    by blast
qed

lemma card_eedges: "card (eedges cs) \<le> length cs"
proof -
  have "eedges cs = (\<lambda>c. (ec_SourceNodeID c, ec_TargetNodeID c)) ` set cs"
    by (auto simp: eedges_def)
  then show ?thesis
    by (metis card_length card_image_le finite_set order_trans)
qed

lemma reach_rank_bound: "reach_rank (eedges cs) x \<le> length cs"
proof -
  have "card ((eedges cs)\<^sup>+ `` {x}) \<le> card (snd ` eedges cs)"
    by (rule card_mono[OF _ trancl_image_snd]) simp
  also have "\<dots> \<le> card (eedges cs)"
    by (rule card_image_le) simp
  finally show ?thesis
    unfolding reach_rank_def using card_eedges[of cs] by linarith
qed

lemma executeFromNode_enough:
  assumes "\<not> reaches_cycle (wgraph wfl) x" and "reach_rank (wgraph wfl) x < fuel"
  shows "executeFromNode env wfl options fuel x ws \<noteq> None"
  using assms
proof (induction fuel arbitrary: x ws)
  case (Suc fuel)
  have step: "executeFromNode env wfl options fuel y ws' \<noteq> None" if "(x, y) \<in> wgraph wfl" for y ws'
  proof (rule Suc.IH)
    show "\<not> reaches_cycle (wgraph wfl) y"
      using Suc.prems(1) reaches_cycle_step[OF that] by blast
    show "reach_rank (wgraph wfl) y < fuel"
      using Suc.prems reach_rank_less[OF _ that] by simp
  qed
  show ?case
  proof (cases "executeNodeStep env wfl options x ws")
    case (Pair ws' res)
    then show ?thesis
      using runNext_Some[of _ "executeFromNode env wfl options fuel"] step executeNodeStep_next[of env wfl options x ws ws']
      by (cases res) auto
  qed
qed simp

lemma executeFromNode_stable:
  assumes "\<not> reaches_cycle (wgraph wfl) x" and "reach_rank (wgraph wfl) x < fuel" and "fuel \<le> fuel'"
  shows "executeFromNode env wfl options fuel' x ws = executeFromNode env wfl options fuel x ws"
  using assms
proof (induction fuel arbitrary: x ws fuel')
  case (Suc fuel)
  then obtain f where f: "fuel' = Suc f"
    by (cases fuel') auto
  have step: "executeFromNode env wfl options f y ws' = executeFromNode env wfl options fuel y ws'"
    if "(x, y) \<in> wgraph wfl" for y ws'
  proof (rule Suc.IH)
    show "\<not> reaches_cycle (wgraph wfl) y"
      using Suc.prems(1) reaches_cycle_step[OF that] by blast
    show "reach_rank (wgraph wfl) y < fuel"
      using Suc.prems reach_rank_less[OF _ that] by simp
    show "fuel \<le> f"
      using Suc.prems f by simp
  qed
  show ?case
  proof (cases "executeNodeStep env wfl options x ws")
    case (Pair ws' res)
    then show ?thesis
      using runNext_cong[of _ "executeFromNode env wfl options f" "executeFromNode env wfl options fuel"] step
        executeNodeStep_next[of env wfl options x ws ws'] f
      by (cases res) auto
  qed
qed simp

section \<open>Running into a cycle\<close>

text \<open>
  A smooth environment: the context is never done and every node reachable from the start succeeds
  without choosing a port, so nothing but the graph steers the walk.
\<close>

definition smooth_from :: "'w EngineEnv \<Rightarrow> WorkflowDef \<Rightarrow> ExecutionOptions \<Rightarrow> string \<Rightarrow> bool" where
  "smooth_from env wfl options t \<longleftrightarrow>
     (\<forall>w. env_ctxErr env w = None) \<and>
     (\<forall>x ws. (t, x) \<in> (wgraph wfl)\<^sup>* \<longrightarrow>
        (\<exists>ws'. executeNodeStep env wfl options x ws =
           (ws', Inr (buildExecutionGraph (wd_Connections wfl) (\<lambda>_. []) x))))"

lemma smooth_fromD:
  assumes "smooth_from env wfl options t"
  shows "env_ctxErr env w = None"
    and "(t, x) \<in> (wgraph wfl)\<^sup>* \<Longrightarrow>
      \<exists>ws'. executeNodeStep env wfl options x ws =
        (ws', Inr (buildExecutionGraph (wd_Connections wfl) (\<lambda>_. []) x))"
  using assms unfolding smooth_from_def by blast+

lemma runNext_no_error:
  assumes "\<And>w. env_ctxErr env w = None"
    and "runNext env exec xs ws = Some r"
    and "\<And>x ws r. x \<in> set xs \<Longrightarrow> exec x ws = Some r \<Longrightarrow> snd r = None"
  shows "snd r = None"
  using assms(2,3)
proof (induction xs arbitrary: ws)
  case (Cons x xs)
  then obtain q where q: "exec x ws = Some q"
    by (cases "exec x ws") (auto simp: assms(1))
  have "snd q = None"
    by (rule Cons.prems(2)[OF _ q]) simp
  then have "runNext env exec xs (fst q) = Some r"
    using Cons.prems(1) q by (cases q) (simp add: assms(1))
  then show ?case
    by (rule Cons.IH) (erule Cons.prems(2)[OF list.set_intros(2)])
qed auto

lemma runNext_stuck:
  assumes "\<And>w. env_ctxErr env w = None"
    and "\<And>x ws r. x \<in> set xs \<Longrightarrow> exec x ws = Some r \<Longrightarrow> snd r = None"
    and "y \<in> set xs" and "\<And>ws. exec y ws = None"
  shows "runNext env exec xs ws = None"
  using assms(2,3)
proof (induction xs arbitrary: ws)
  case (Cons x xs)
  show ?case
  proof (cases "exec x ws")
    case None
    then show ?thesis
      by (simp add: assms(1))
  next
    case (Some r)
    then have "y \<noteq> x"
      using assms(4)[of ws] by auto
    moreover obtain ws' where "r = (ws', None)"
      using Cons.prems(1)[OF _ Some] by (cases r) auto
    moreover have "runNext env exec xs ws' = None"
      by (rule Cons.IH) (use Cons.prems calculation(1) in \<open>auto elim: Cons.prems(1)[rotated]\<close>)
    ultimately show ?thesis
      using Some by (simp add: assms(1))
  qed
qed simp

lemma smooth_no_error:
  assumes "smooth_from env wfl options t" and "(t, x) \<in> (wgraph wfl)\<^sup>*"
  shows "executeFromNode env wfl options fuel x ws = Some r \<Longrightarrow> snd r = None"
  using assms(2)
proof (induction fuel arbitrary: x ws r)
  case (Suc fuel)
  obtain ws' where step: "executeNodeStep env wfl options x ws =
      (ws', Inr (buildExecutionGraph (wd_Connections wfl) (\<lambda>_. []) x))"
    using smooth_fromD(2)[OF assms(1) Suc.prems(2)] by blast
  have "(t, y) \<in> (wgraph wfl)\<^sup>*" if "y \<in> set (buildExecutionGraph (wd_Connections wfl) (\<lambda>_. []) x)" for y
    using that Suc.prems(2) by (auto simp: set_buildExecutionGraph)
  then show ?case
    using runNext_no_error[of env "executeFromNode env wfl options fuel"] Suc.IH Suc.prems(1) step
      smooth_fromD(1)[OF assms(1)]
    by (metis (no_types, lifting) executeFromNode.simps(2) case_prod_conv sum.simps(6))
qed simp

lemma executeFromNode_never:
  assumes "smooth_from env wfl options t" and "(t, x) \<in> (wgraph wfl)\<^sup>*" and "reaches_cycle (wgraph wfl) x"
  shows "executeFromNode env wfl options fuel x ws = None"
  using assms(2,3)
proof (induction fuel arbitrary: x ws)
  case (Suc fuel)
  obtain ws' where step: "executeNodeStep env wfl options x ws =
      (ws', Inr (buildExecutionGraph (wd_Connections wfl) (\<lambda>_. []) x))"
    using smooth_fromD(2)[OF assms(1) Suc.prems(1)] by blast
  obtain y where y: "(x, y) \<in> wgraph wfl" "reaches_cycle (wgraph wfl) y"
    using reaches_cycle_next[OF Suc.prems(2)] by blast
  have reach: "(t, z) \<in> (wgraph wfl)\<^sup>*" if "(x, z) \<in> wgraph wfl" for z
    using that Suc.prems(1) by auto
  have "runNext env (executeFromNode env wfl options fuel)
      (buildExecutionGraph (wd_Connections wfl) (\<lambda>_. []) x) ws' = None"
  proof (rule runNext_stuck)
    show "y \<in> set (buildExecutionGraph (wd_Connections wfl) (\<lambda>_. []) x)"
      using y(1) by (simp add: set_buildExecutionGraph)
    show "executeFromNode env wfl options fuel y v = None" for v
      using Suc.IH[OF reach[OF y(1)] y(2)] .
    show "env_ctxErr env w = None" for w
      by (rule smooth_fromD(1)[OF assms(1)])
    show "snd r = None"
      if "z \<in> set (buildExecutionGraph (wd_Connections wfl) (\<lambda>_. []) x)"
        and "executeFromNode env wfl options fuel z v = Some r" for z v r
      using smooth_no_error[OF assms(1) reach that(2)] that(1) by (simp add: set_buildExecutionGraph)
  qed
  then show ?case
    using step by simp
qed simp

lemma runNext_outputs:
  assumes "runNext env exec xs ws = Some (ws', e)"
    and "\<And>x ws ws' e. x \<in> set xs \<Longrightarrow> exec x ws = Some (ws', e) \<Longrightarrow>
           dom (xs_NodeOutputs (snd ws')) \<subseteq> D \<union> dom (xs_NodeOutputs (snd ws))"
  shows "dom (xs_NodeOutputs (snd ws')) \<subseteq> D \<union> dom (xs_NodeOutputs (snd ws))"
  using assms
proof (induction xs arbitrary: ws)
  case (Cons x xs)
  show ?case
  proof (cases "env_ctxErr env (fst ws)")
    case Some
    then show ?thesis
      using Cons.prems(1) by auto
  next
    case None
    then obtain v f where q: "exec x ws = Some (v, f)"
      using Cons.prems(1) by (cases "exec x ws") auto
    note x = Cons.prems(2)[OF list.set_intros(1) q]
    show ?thesis
    proof (cases f)
      case Some
      then show ?thesis
        using Cons.prems(1) None q x by auto
    next
      case f: None
      then have "runNext env exec xs v = Some (ws', e)"
        using Cons.prems(1) None q by simp
      then have "dom (xs_NodeOutputs (snd ws')) \<subseteq> D \<union> dom (xs_NodeOutputs (snd v))"
        by (rule Cons.IH) (erule Cons.prems(2)[OF list.set_intros(2)])
      then show ?thesis
        using x by blast
    qed
  qed
qed auto

lemma executeFromNode_outputs:
  "executeFromNode env wfl options fuel x ws = Some (ws', e) \<Longrightarrow>
   dom (xs_NodeOutputs (snd ws')) \<subseteq> (wgraph wfl)\<^sup>* `` {x} \<union> dom (xs_NodeOutputs (snd ws))"
proof (induction fuel arbitrary: x ws ws' e)
  case (Suc fuel)
  obtain v res where step: "executeNodeStep env wfl options x ws = (v, res)"
    by fastforce
  note own = executeNodeStep_outputs[OF step]
  show ?case
  proof (cases res)
    case (Inl msg)
    then show ?thesis
      using Suc.prems step own by auto
  next
    case (Inr ys)
    then have "runNext env (executeFromNode env wfl options fuel) ys v = Some (ws', e)"
      using Suc.prems step by simp
    then have "dom (xs_NodeOutputs (snd ws')) \<subseteq> (wgraph wfl)\<^sup>* `` {x} \<union> dom (xs_NodeOutputs (snd v))"
    proof (rule runNext_outputs)
      fix y u u' f
      assume y: "y \<in> set ys" and run: "executeFromNode env wfl options fuel y u = Some (u', f)"
      have "(x, y) \<in> wgraph wfl"
        using executeNodeStep_next[of env wfl options x ws v ys y] step Inr y by simp
      then have "(wgraph wfl)\<^sup>* `` {y} \<subseteq> (wgraph wfl)\<^sup>* `` {x}"
        by (auto intro: converse_rtrancl_into_rtrancl)
      then show "dom (xs_NodeOutputs (snd u')) \<subseteq> (wgraph wfl)\<^sup>* `` {x} \<union> dom (xs_NodeOutputs (snd u))"
        using Suc.IH[OF run] by blast
    qed
    then show ?thesis
      using own by auto
  qed
qed simp

section \<open>Properties\<close>

text \<open>Sample data: an environment whose single executor returns its input, and two graphs.\<close>

definition sample_metadata :: NodeMetadata where
  "sample_metadata = \<lparr> nm_Type = ''t'', nm_Name = ''t'', nm_Description = '''', nm_Category = '''',
     nm_Icon = '''', nm_Color = '''', nm_Version = '''', nm_Inputs = [], nm_Outputs = [],
     nm_Properties = [], nm_IsTrigger = True, nm_IsPremium = False \<rparr>"

definition sample_output :: "dict \<Rightarrow> ExecutionOutput" where
  "sample_output d = \<lparr> xo_Data = Some d, xo_Binary = Map.empty, xo_Error = None, xo_Logs = [],
     xo_Metrics = \<lparr> em_StartTime = 0, em_EndTime = 0, em_DurationMs = 0, em_ItemsIn = 0,
       em_ItemsOut = 0, em_BytesRead = 0, em_BytesWritten = 0 \<rparr> \<rparr>"

definition sample_env :: "nat EngineEnv" where
  "sample_env = \<lparr> env_registry = \<lparr> reg_nodes = [''t'' \<mapsto>
       \<lparr> ex_Type = ''t'', ex_Metadata = sample_metadata, ex_IsTriggerExecutor = False,
         ex_Execute = (\<lambda>w i. (Suc w, Inr (sample_output Map.empty))) \<rparr>], reg_triggers = Map.empty \<rparr>,
     env_EvaluateTemplate = (\<lambda>c _. Inr c), env_ctxErr = (\<lambda>_. None), env_UnixMilli = int,
     env_Now = int, env_UUID = (\<lambda>_. ''u'') \<rparr>"

definition sample_nd :: "string \<Rightarrow> NodeDef" where
  "sample_nd i = \<lparr> nd_ID = i, nd_Type = ''t'', nd_Name = i, nd_Config = Map.empty,
     nd_Position = \<lparr> ep_X = 0, ep_Y = 0 \<rparr>, nd_Credential = '''' \<rparr>"

definition sample_def :: "string list \<Rightarrow> (string \<times> string) list \<Rightarrow> WorkflowDef" where
  "sample_def ns cs = \<lparr> wd_ID = ''w'', wd_Name = ''w'', wd_Nodes = map sample_nd ns,
     wd_Connections = map (\<lambda>(a, b). \<lparr> ec_SourceNodeID = a, ec_SourcePort = ''out'',
        ec_TargetNodeID = b, ec_TargetPort = ''in'' \<rparr>) cs,
     wd_Settings = \<lparr> ws_MaxExecutionTime = 0, ws_RetryOnFail = False, ws_MaxRetries = 0,
        ws_ErrorHandling = ''stop'' \<rparr> \<rparr>"

definition sample_options :: ExecutionOptions where
  "sample_options = \<lparr> eo_Mode = ''manual'', eo_TriggerData = None, eo_Credentials = Map.empty,
     eo_Variables = Map.empty, eo_Environment = Map.empty, eo_UserID = '''', eo_WorkspaceID = '''' \<rparr>"

lemmas engine_sample_defs = sample_metadata_def sample_output_def sample_env_def sample_def_def
  sample_options_def sample_nd_def

lemma sample_nd_simps [simp]:
  "nd_ID (sample_nd i) = i" "nd_Name (sample_nd i) = i" "sample_nd i = sample_nd j \<longleftrightarrow> i = j"
  by (simp_all add: sample_nd_def)

lemma sample_def_simps [simp]:
  "wd_Nodes (sample_def ns cs) = map sample_nd ns"
  "length (wd_Connections (sample_def ns cs)) = length cs"
  by (simp_all add: sample_def_def)

lemma sample_def_graph [simp]: "wgraph (sample_def ns cs) = set cs"
proof -
  have "eedges (map (\<lambda>(a, b). \<lparr> ec_SourceNodeID = a, ec_SourcePort = p, ec_TargetNodeID = b,
      ec_TargetPort = q \<rparr>) cs) = set cs" for p q
    by (induction cs) (simp_all split: prod.split)
  then show ?thesis
    by (simp add: sample_def_def)
qed

lemma sample_trigger [simp]: "is_trigger (env_registry sample_env) (sample_nd i)"
  by (simp add: engine_sample_defs is_trigger_def getNodeMetadata_def Registry_Get_def)

text \<open>C7: the recursive engine returns from every workflow without a cycle in reach of the start
  node, whatever the executors do: a recursion depth of one more than the number of connections is
  enough, and a larger one changes nothing.\<close>

theorem executeFromNode_terminates:
  assumes "\<not> reaches_cycle (wgraph wfl) x"
  shows "\<exists>r. \<forall>fuel > length (wd_Connections wfl). executeFromNode env wfl options fuel x ws = Some r"
proof -
  have rank: "reach_rank (wgraph wfl) x < Suc (length (wd_Connections wfl))"
    using reach_rank_bound[of "wd_Connections wfl" x] by simp
  obtain r where "executeFromNode env wfl options (Suc (length (wd_Connections wfl))) x ws = Some r"
    using executeFromNode_enough[OF assms rank, of env options ws] by auto
  then show ?thesis
    using executeFromNode_stable[OF assms rank, of _ env options ws] by (auto simp: Suc_le_eq)
qed

theorem executeFromNode_terminates_witness:
  "\<exists>r. \<forall>fuel > 2. executeFromNode sample_env (sample_def [''a'', ''b'', ''c''] [(''a'', ''b''), (''b'', ''c'')])
     sample_options fuel ''a'' (0, new_state ''x'' 0 (sample_def [] [])) = Some r"
proof -
  let ?E = "{(''a'', ''b''), (''b'', ''c'')} :: (string \<times> string) set"
  have "acyclic ?E"
    by (auto simp: acyclic_insert rtrancl_insert) (simp add: acyclic_def)
  then have "\<not> reaches_cycle (wgraph (sample_def [''a'', ''b'', ''c''] [(''a'', ''b''), (''b'', ''c'')])) ''a''"
    by (simp add: reaches_cycle_def acyclic_def)
  moreover have "length (wd_Connections (sample_def [''a'', ''b'', ''c''] [(''a'', ''b''), (''b'', ''c'')])) = 2"
    by simp
  ultimately show ?thesis
    using executeFromNode_terminates by metis
qed

text \<open>Nothing in the engine stops it on a cycle: when every node succeeds without choosing a
  port and the context is never done, a start node that reaches a cycle makes the recursion
  bottomless.\<close>

theorem executeFromNode_diverges:
  assumes "smooth_from env wfl options x" and "reaches_cycle (wgraph wfl) x"
  shows "executeFromNode env wfl options fuel x ws = None"
  by (rule executeFromNode_never[OF assms(1) _ assms(2)]) simp

theorem executeFromNode_diverges_witness:
  "\<forall>fuel s. executeFromNode sample_env (sample_def [''a'', ''b''] [(''a'', ''b''), (''b'', ''b'')])
     sample_options fuel ''a'' (0, s) = None"
proof (intro allI, rule executeFromNode_diverges)
  let ?w = "sample_def [''a'', ''b''] [(''a'', ''b''), (''b'', ''b'')]"
  have E: "wgraph ?w = {(''a'', ''b''), (''b'', ''b'')}"
    by (auto simp: sample_def_def)
  have nodes: "x = ''a'' \<or> x = ''b''" if "(''a'', x) \<in> (wgraph ?w)\<^sup>*" for x
    using that by (induction rule: rtrancl_induct) (auto simp: E)
  show "smooth_from sample_env ?w sample_options ''a''"
    unfolding smooth_from_def
  proof (intro conjI allI impI)
    show "env_ctxErr sample_env w = None" for w
      by (simp add: sample_env_def)
    show "\<exists>ws'. executeNodeStep sample_env ?w sample_options x ws =
        (ws', Inr (buildExecutionGraph (wd_Connections ?w) (\<lambda>_. []) x))"
      if "(''a'', x) \<in> (wgraph ?w)\<^sup>*" for x ws
      using nodes[OF that]
      by (cases ws) (auto simp: executeNodeStep_def Let_def engine_sample_defs Registry_Get_def
          evaluateConfig_def nextNodes_def)
  qed
  show "reaches_cycle (wgraph ?w) ''a''"
    unfolding reaches_cycle_def by (rule exI[of _ "''b''"]) (auto simp: E)
qed

text \<open>A run that returns has stored outputs only for nodes the trigger reaches, it ends in
  status completed or failed according to its error, and it is dated when it had a trigger.\<close>

theorem Engine_Execute_result:
  assumes "Engine_Execute env fuel i t1 t2 wfl options w = Some ((w', s), err)"
  shows "xs_Status s = (if err = None then ''completed'' else ''failed'') \<and>
    (case find (is_trigger (env_registry env)) (wd_Nodes wfl) of
       None \<Rightarrow> err \<noteq> None \<and> xs_CompletedAt s = None \<and> xs_NodeOutputs s = Map.empty
     | Some trigger \<Rightarrow> xs_CompletedAt s = Some t2 \<and>
         dom (xs_NodeOutputs s) \<subseteq> (wgraph wfl)\<^sup>* `` {nd_ID trigger})"
proof (cases "find (is_trigger (env_registry env)) (wd_Nodes wfl)")
  case None
  then show ?thesis
    using assms by (auto simp: Engine_Execute_def new_state_def Let_def)
next
  case (Some trigger)
  let ?s = "(case eo_TriggerData options of None \<Rightarrow> new_state i t1 wfl
     | Some d \<Rightarrow> (new_state i t1 wfl)\<lparr> xs_NodeOutputs := [nd_ID trigger \<mapsto> d] \<rparr>)"
  have "dom (xs_NodeOutputs ?s) \<subseteq> {nd_ID trigger}"
    by (auto simp: new_state_def split: option.splits)
  then show ?thesis
    using assms Some executeFromNode_outputs[of env wfl options fuel "nd_ID trigger" "(w, ?s)"]
    by (fastforce simp: Engine_Execute_def Let_def new_state_def split: option.splits)
qed

theorem Engine_Execute_result_witness:
  "\<exists>w s. Engine_Execute sample_env 3 ''x'' 0 9 (sample_def [''a'', ''b''] [(''a'', ''b'')]) sample_options 0 =
      Some ((w, s), None) \<and> xs_Status s = ''completed'' \<and> xs_CompletedAt s = Some 9"
proof -
  obtain r where r: "Engine_Execute sample_env 3 ''x'' 0 9 (sample_def [''a'', ''b''] [(''a'', ''b'')])
      sample_options 0 = Some r \<and> snd r = None"
    by (auto simp: Engine_Execute_def Let_def engine_sample_defs Registry_Get_def new_state_def
        evaluateConfig_def nextNodes_def is_trigger_def getNodeMetadata_def executeNodeStep_def
        numeral_3_eq_3)
  then show ?thesis
    using Engine_Execute_result[of sample_env 3 "''x''" 0 9 "sample_def [''a'', ''b''] [(''a'', ''b'')]"
        sample_options 0 "fst (fst r)" "snd (fst r)" None]
    by (cases r) (auto simp: engine_sample_defs is_trigger_def getNodeMetadata_def Registry_Get_def)
qed

text \<open>Of the executions that returned, cleaning up removes exactly those that had a trigger and
  ended before the cutoff: an execution that failed for want of a trigger carries no completion date
  and stays in the table for ever.\<close>

theorem CleanupOldExecutions_returned:
  assumes "Engine_Execute env fuel i t1 t2 wfl options w = Some ((w', s), err)"
    and "tab i = Some s"
  shows "CleanupOldExecutions now maxAge tab i =
    (if list_ex (is_trigger (env_registry env)) (wd_Nodes wfl) \<and> t2 < now - maxAge then None else Some s)"
proof (cases "find (is_trigger (env_registry env)) (wd_Nodes wfl)")
  case None
  then have "\<not> list_ex (is_trigger (env_registry env)) (wd_Nodes wfl)"
    by (simp add: find_None_iff list_ex_iff)
  then show ?thesis
    using assms None by (auto simp: Engine_Execute_def new_state_def Let_def CleanupOldExecutions_def)
next
  case (Some trigger)
  then have "list_ex (is_trigger (env_registry env)) (wd_Nodes wfl)"
    by (auto simp: list_ex_iff find_Some_iff)
  then show ?thesis
    using assms Some by (auto simp: Engine_Execute_def Let_def CleanupOldExecutions_def split: option.splits)
qed

theorem CleanupOldExecutions_returned_witness:
  "\<exists>s. CleanupOldExecutions 1000 1 [''x'' \<mapsto> s] ''x'' = Some s \<and> xs_Status s = ''failed''"
proof -
  let ?s = "(new_state ''x'' 0 (sample_def [] []))
    \<lparr> xs_Status := ''failed'', xs_Error := Some ''workflow has no trigger node'' \<rparr>"
  have "Engine_Execute sample_env 0 ''x'' 0 1 (sample_def [] []) sample_options 0 =
      Some ((0, ?s), Some ''workflow has no trigger node'')"
    by (simp add: Engine_Execute_def sample_def_def Let_def)
  from CleanupOldExecutions_returned[OF this, of "[''x'' \<mapsto> ?s]" 1000 1] show ?thesis
    by (intro exI[of _ ?s]) (simp add: sample_def_def)
qed

end
