(* ===== verification/Plan.thy ===== *)
theory Plan
  imports Engine "HOL-Library.Char_ord" "HOL-Library.List_Lexorder"
begin

text \<open>
  The staged engine of \<open>internal/engine/executor.go\<close>: \<open>buildExecutionPlan\<close> groups the nodes of a
  definition into stages with Kahn's algorithm started at the trigger, and \<open>executePlan\<close> runs one
  stage after the other. The theorems characterise exactly which definitions have a plan and say
  that a plan is a schedule: every node once, each after everything it depends on.
\<close>

section \<open>Building the plan\<close>

record PlanNode =
  pn_ID :: string
  pn_Type :: string
  pn_Name :: string
  pn_Config :: dict
  pn_Dependencies :: "string list"
  pn_Outputs :: "string list"
  pn_Stage :: nat

record ExecutionPlan =
  pl_Stages :: "PlanNode list list"
  pl_TriggerID :: string
  pl_TotalNodes :: nat

text \<open>A later node with the same identifier replaces an earlier one in the map.\<close>

fun nodeMap :: "NodeDef list \<Rightarrow> (string \<Rightarrow> NodeDef option) \<Rightarrow> string \<Rightarrow> NodeDef option" where
  "nodeMap [] m = m"
| "nodeMap (n # ns) m = nodeMap ns (m(nd_ID n \<mapsto> n))"

text \<open>
  The three maps of the dependency graph, filled connection by connection. An absent entry reads as
  the empty list or zero, as the entries set first for the nodes do.
\<close>

record DepGraph =
  dg_outputs :: "string \<Rightarrow> string list"
  dg_inputs :: "string \<Rightarrow> string list"
  dg_inDegree :: "string \<Rightarrow> int"

fun depGraph :: "EConnection list \<Rightarrow> DepGraph \<Rightarrow> DepGraph" where
  "depGraph [] g = g"
| "depGraph (c # cs) g =
     depGraph cs (g\<lparr>
       dg_outputs := (dg_outputs g)(ec_SourceNodeID c := dg_outputs g (ec_SourceNodeID c) @ [ec_TargetNodeID c]),
       dg_inputs := (dg_inputs g)(ec_TargetNodeID c := dg_inputs g (ec_TargetNodeID c) @ [ec_SourceNodeID c]),
       dg_inDegree := (dg_inDegree g)(ec_TargetNodeID c := dg_inDegree g (ec_TargetNodeID c) + 1) \<rparr>)"

definition emptyGraph :: DepGraph where
  "emptyGraph = \<lparr> dg_outputs = (\<lambda>_. []), dg_inputs = (\<lambda>_. []), dg_inDegree = (\<lambda>_. 0) \<rparr>"

text \<open>The loop over the dependents of a node just taken.\<close>

fun decrease :: "string list \<Rightarrow> (string \<Rightarrow> int) \<Rightarrow> string list \<Rightarrow> (string \<Rightarrow> int) \<times> string list" where
  "decrease [] remaining nextQueue = (remaining, nextQueue)"
| "decrease (outID # outs) remaining nextQueue =
     (let remaining' = remaining(outID := remaining outID - 1)
      in decrease outs remaining' (if remaining' outID = 0 then nextQueue @ [outID] else nextQueue))"

definition mkPlanNode :: "DepGraph \<Rightarrow> nat \<Rightarrow> NodeDef \<Rightarrow> PlanNode" where
  "mkPlanNode g k node =
     \<lparr> pn_ID = nd_ID node, pn_Type = nd_Type node, pn_Name = nd_Name node, pn_Config = nd_Config node,
       pn_Dependencies = dg_inputs g (nd_ID node), pn_Outputs = dg_outputs g (nd_ID node), pn_Stage = k \<rparr>"

text \<open>One stage: the loop over the queue.\<close>

record StageState =
  sg_stage :: "PlanNode list"
  sg_nextQueue :: "string list"
  sg_remaining :: "string \<Rightarrow> int"
  sg_processed :: "string set"

definition takeNode :: "NodeDef list \<Rightarrow> DepGraph \<Rightarrow> nat \<Rightarrow> string \<Rightarrow> StageState \<Rightarrow> StageState" where
  "takeNode ns g k nodeID s =
     (if nodeID \<in> sg_processed s then s
      else case nodeMap ns Map.empty nodeID of
        None \<Rightarrow> s
      | Some node \<Rightarrow>
          (let (remaining', nextQueue') =
             decrease (dg_outputs g nodeID) (sg_remaining s) (sg_nextQueue s)
           in \<lparr> sg_stage = sg_stage s @ [mkPlanNode g k node], sg_nextQueue = nextQueue',
                sg_remaining = remaining', sg_processed = insert nodeID (sg_processed s) \<rparr>))"

fun stageLoop :: "NodeDef list \<Rightarrow> DepGraph \<Rightarrow> nat \<Rightarrow> string list \<Rightarrow> StageState \<Rightarrow> StageState" where
  "stageLoop ns g k [] s = s"
| "stageLoop ns g k (nodeID # queue) s = stageLoop ns g k queue (takeNode ns g k nodeID s)"

definition startStage :: "(string \<Rightarrow> int) \<Rightarrow> string set \<Rightarrow> StageState" where
  "startStage remaining processed =
     \<lparr> sg_stage = [], sg_nextQueue = [], sg_remaining = remaining, sg_processed = processed \<rparr>"

text \<open>The loop over the stages.\<close>

lemma nodeMap_eq: "nodeMap ns m x = (case find (\<lambda>n. nd_ID n = x) (rev ns) of None \<Rightarrow> m x | Some n \<Rightarrow> Some n)"
proof (induction ns arbitrary: m)
  case (Cons n ns)
  have "find P (xs @ [y]) = (case find P xs of None \<Rightarrow> if P y then Some y else None | Some z \<Rightarrow> Some z)"
    for P xs and y :: NodeDef
    by (induction xs) auto
  then show ?case
    by (simp add: Cons.IH split: option.split)
qed simp

lemma nodeMap_Some: "nodeMap ns Map.empty x = Some n \<Longrightarrow> n \<in> set ns \<and> nd_ID n = x"
  by (auto simp: nodeMap_eq find_Some_iff split: option.splits) (metis in_set_conv_nth length_rev set_rev)

lemma nodeMap_None: "nodeMap ns Map.empty x = None \<longleftrightarrow> x \<notin> nd_ID ` set ns"
proof -
  have "dom (nodeMap ns m) = nd_ID ` set ns \<union> dom m" for m
    by (induction ns arbitrary: m) auto
  then show ?thesis
    by (metis Un_empty_right domIff dom_empty)
qed

lemma takeNode_skip:
  "x \<in> sg_processed s \<or> x \<notin> nd_ID ` set ns \<Longrightarrow> takeNode ns g k x s = s"
  using nodeMap_None[of ns x] by (auto simp: takeNode_def)

lemma takeNode_processed:
  "sg_processed (takeNode ns g k x s) = sg_processed s \<union> ({x} \<inter> nd_ID ` set ns)"
  using nodeMap_None[of ns x]
  by (auto simp: takeNode_def split: option.split prod.split)

lemma stageLoop_processed:
  "sg_processed (stageLoop ns g k q s) = sg_processed s \<union> (set q \<inter> nd_ID ` set ns)"
  by (induction q arbitrary: s) (auto simp: takeNode_processed)

lemma stageLoop_idle:
  "set q \<inter> nd_ID ` set ns \<subseteq> sg_processed s \<Longrightarrow> stageLoop ns g k q s = s"
proof (induction q arbitrary: s)
  case (Cons x q)
  then have "takeNode ns g k x s = s"
    by (intro takeNode_skip) auto
  then show ?case
    using Cons by auto
qed simp

function planLoop ::
  "NodeDef list \<Rightarrow> DepGraph \<Rightarrow> string list \<Rightarrow> (string \<Rightarrow> int) \<Rightarrow> string set \<Rightarrow> PlanNode list list \<Rightarrow>
   PlanNode list list \<times> string set" where
  "planLoop ns g queue remaining processed stages =
     (if queue = [] then (stages, processed)
      else
        let s = stageLoop ns g (length stages) queue (startStage remaining processed)
        in planLoop ns g (sg_nextQueue s) (sg_remaining s) (sg_processed s)
             (if sg_stage s \<noteq> [] then stages @ [sg_stage s] else stages))"
  by pat_completeness auto

termination planLoop
proof (relation "inv_image (finite_psubset <*lex*> less_than)
    (\<lambda>(ns, g, queue, r, p, st). (nd_ID ` set ns - p, length queue))", goal_cases)
  case 1
  show ?case
    by auto
next
  case (2 ns g queue r p st s)
  have P: "sg_processed s = p \<union> (set queue \<inter> nd_ID ` set ns)"
    using 2(2) by (simp add: stageLoop_processed startStage_def)
  show ?case
  proof (cases "nd_ID ` set ns - sg_processed s = nd_ID ` set ns - p")
    case True
    then have "set queue \<inter> nd_ID ` set ns \<subseteq> p"
      using P by blast
    then have "s = startStage r p"
      using 2(2) by (simp add: stageLoop_idle startStage_def)
    then show ?thesis
      using 2(1) by (simp add: startStage_def)
  next
    case False
    then show ?thesis
      using P by auto
  qed
qed

declare planLoop.simps [simp del]

definition buildExecutionPlan :: "'w Registry \<Rightarrow> WorkflowDef \<Rightarrow> string + ExecutionPlan" where
  "buildExecutionPlan r wfl =
     (let g = depGraph (wd_Connections wfl) emptyGraph;
          triggerID = (case find (\<lambda>n. dg_inDegree g (nd_ID n) = 0 \<and> is_trigger r n) (wd_Nodes wfl) of
                         None \<Rightarrow> '''' | Some n \<Rightarrow> nd_ID n)
      in if triggerID = '''' then Inl ''no trigger node found''
         else
           let (stages, processed) = planLoop (wd_Nodes wfl) g [triggerID] (dg_inDegree g) {} []
           in if card processed \<noteq> length (wd_Nodes wfl)
              then Inl ''workflow contains cycles or disconnected nodes''
              else Inr \<lparr> pl_Stages = stages, pl_TriggerID = triggerID,
                         pl_TotalNodes = length (wd_Nodes wfl) \<rparr>)"

section \<open>The dependency graph\<close>

lemma depGraph_closed:
  "dg_outputs (depGraph cs g) x = dg_outputs g x @ map ec_TargetNodeID (filter (\<lambda>c. ec_SourceNodeID c = x) cs)"
  "dg_inputs (depGraph cs g) x = dg_inputs g x @ map ec_SourceNodeID (filter (\<lambda>c. ec_TargetNodeID c = x) cs)"
  "dg_inDegree (depGraph cs g) x = dg_inDegree g x + int (length (filter (\<lambda>c. ec_TargetNodeID c = x) cs))"
  by (induction cs arbitrary: g) auto

definition graph_of :: "EConnection list \<Rightarrow> DepGraph" where
  "graph_of cs = depGraph cs emptyGraph"

lemma graph_of_simps:
  "dg_outputs (graph_of cs) x = map ec_TargetNodeID (filter (\<lambda>c. ec_SourceNodeID c = x) cs)"
  "dg_inputs (graph_of cs) x = map ec_SourceNodeID (filter (\<lambda>c. ec_TargetNodeID c = x) cs)"
  "dg_inDegree (graph_of cs) x = int (length (filter (\<lambda>c. ec_TargetNodeID c = x) cs))"
  by (simp_all add: graph_of_def depGraph_closed emptyGraph_def)

text \<open>The connections into a node whose source has not been taken yet; \<open>remaining\<close> counts them.\<close>

definition pending :: "EConnection list \<Rightarrow> string set \<Rightarrow> string \<Rightarrow> EConnection list" where
  "pending cs P x = filter (\<lambda>c. ec_TargetNodeID c = x \<and> ec_SourceNodeID c \<notin> P) cs"

lemma inDegree_pending: "dg_inDegree (graph_of cs) x = int (length (pending cs {} x))"
  by (simp add: graph_of_simps pending_def)

lemma pending_insert:
  "a \<notin> P \<Longrightarrow> length (pending cs (insert a P) x) + count_list (dg_outputs (graph_of cs) a) x =
   length (pending cs P x)"
  by (induction cs) (auto simp: graph_of_simps pending_def)

lemma pending_Nil: "pending cs P x = [] \<longleftrightarrow> (\<forall>a. (a, x) \<in> eedges cs \<longrightarrow> a \<in> P)"
  by (auto simp: pending_def filter_empty_conv eedges_def)

lemma set_outputs: "x \<in> set (dg_outputs (graph_of cs) a) \<longleftrightarrow> (a, x) \<in> eedges cs"
  by (auto simp: graph_of_simps eedges_def)

text \<open>
  The inner loop subtracts the multiplicities and queues exactly the nodes that reach zero.
\<close>

lemma decrease_spec:
  assumes "decrease os rem nq = (rem', nq')" and "\<And>x. int (count_list os x) \<le> rem x"
  shows "rem' x = rem x - int (count_list os x)"
    and "set nq' = set nq \<union> {x \<in> set os. rem' x = 0}"
proof -
  have "(\<forall>x. rem' x = rem x - int (count_list os x)) \<and>
      set nq' = set nq \<union> {x \<in> set os. rem x = int (count_list os x)}"
    using assms
  proof (induction os arbitrary: rem nq)
    case (Cons a os)
    let ?rem = "rem(a := rem a - 1)"
    have le: "int (count_list os x) \<le> ?rem x" for x
      using Cons.prems(2)[of x] by (auto split: if_splits)
    have dec: "decrease os ?rem (if ?rem a = 0 then nq @ [a] else nq) = (rem', nq')"
      using Cons.prems(1) by (simp add: Let_def)
    have "count_list os a = 0 \<longleftrightarrow> a \<notin> set os"
      by (simp add: count_list_0_iff)
    then show ?case
      using Cons.IH[OF dec le] le[of a] by (auto split: if_splits)
  qed simp
  then show "rem' x = rem x - int (count_list os x)"
    and "set nq' = set nq \<union> {x \<in> set os. rem' x = 0}"
    by auto
qed

section \<open>The invariant of a stage\<close>

text \<open>
  \<open>P0\<close> is what was taken before the stage and \<open>queue\<close> what the loop has still to look at. A node of
  the stage or the queue depends only on \<open>P0\<close>; a node of the next queue depends on what is taken so
  far, and on something; and nothing that could be taken is forgotten.
\<close>

definition ids_of :: "PlanNode list \<Rightarrow> string set" where
  "ids_of ps = pn_ID ` set ps"

definition stage_inv ::
  "NodeDef list \<Rightarrow> EConnection list \<Rightarrow> nat \<Rightarrow> string set \<Rightarrow> string list \<Rightarrow> StageState \<Rightarrow> bool" where
  "stage_inv ns cs k P0 queue s \<longleftrightarrow>
     (\<forall>x. sg_remaining s x = int (length (pending cs (sg_processed s) x))) \<and>
     sg_processed s = P0 \<union> ids_of (sg_stage s) \<and>
     distinct (map pn_ID (sg_stage s)) \<and> ids_of (sg_stage s) \<inter> P0 = {} \<and>
     (\<forall>p\<in>set (sg_stage s). \<exists>n\<in>set ns. p = mkPlanNode (graph_of cs) k n) \<and>
     (\<forall>x\<in>ids_of (sg_stage s) \<union> set queue. \<forall>a. (a, x) \<in> eedges cs \<longrightarrow> a \<in> P0) \<and>
     (\<forall>x\<in>set (sg_nextQueue s). (\<forall>a. (a, x) \<in> eedges cs \<longrightarrow> a \<in> sg_processed s) \<and> x \<in> Range (eedges cs)) \<and>
     (\<forall>x\<in>nd_ID ` set ns \<inter> Range (eedges cs). (\<forall>a. (a, x) \<in> eedges cs \<longrightarrow> a \<in> sg_processed s) \<longrightarrow>
        x \<in> sg_processed s \<union> set queue \<union> set (sg_nextQueue s))"

lemma stage_inv_skip:
  assumes "stage_inv ns cs k P0 (x # queue) s" and "x \<in> sg_processed s \<or> x \<notin> nd_ID ` set ns"
  shows "stage_inv ns cs k P0 queue s"
  using assms unfolding stage_inv_def by (elim conjE, intro conjI) auto

lemma stage_invD:
  assumes "stage_inv ns cs k P0 queue s"
  shows "\<forall>x. sg_remaining s x = int (length (pending cs (sg_processed s) x))"
    and "sg_processed s = P0 \<union> ids_of (sg_stage s)"
    and "distinct (map pn_ID (sg_stage s))" and "ids_of (sg_stage s) \<inter> P0 = {}"
    and "\<forall>p\<in>set (sg_stage s). \<exists>n\<in>set ns. p = mkPlanNode (graph_of cs) k n"
    and "\<forall>x\<in>ids_of (sg_stage s) \<union> set queue. \<forall>a. (a, x) \<in> eedges cs \<longrightarrow> a \<in> P0"
    and "\<forall>x\<in>set (sg_nextQueue s). (\<forall>a. (a, x) \<in> eedges cs \<longrightarrow> a \<in> sg_processed s) \<and> x \<in> Range (eedges cs)"
    and "\<forall>x\<in>nd_ID ` set ns \<inter> Range (eedges cs). (\<forall>a. (a, x) \<in> eedges cs \<longrightarrow> a \<in> sg_processed s) \<longrightarrow>
        x \<in> sg_processed s \<union> set queue \<union> set (sg_nextQueue s)"
  using assms unfolding stage_inv_def by - (elim conjE, assumption)+

lemma stage_inv_take:
  assumes inv: "stage_inv ns cs k P0 (x # queue) s"
    and n: "nodeMap ns Map.empty x = Some n" and new: "x \<notin> sg_processed s"
    and dec: "decrease (dg_outputs (graph_of cs) x) (sg_remaining s) (sg_nextQueue s) = (rem, nq)"
  shows "stage_inv ns cs k P0 queue
    \<lparr> sg_stage = sg_stage s @ [mkPlanNode (graph_of cs) k n], sg_nextQueue = nq,
      sg_remaining = rem, sg_processed = insert x (sg_processed s) \<rparr>"
proof -
  let ?P = "sg_processed s" and ?os = "dg_outputs (graph_of cs) x"
  note I = stage_invD[OF inv]
  have rem0: "sg_remaining s y = int (length (pending cs ?P y))" for y
    using I(1) by blast
  have cnt: "length (pending cs (insert x ?P) y) + count_list ?os y = length (pending cs ?P y)" for y
    by (rule pending_insert[OF new])
  have le: "int (count_list ?os y) \<le> sg_remaining s y" for y
    using cnt[of y] rem0[of y] by linarith
  have rem: "rem y = int (length (pending cs (insert x ?P) y))" for y
    using decrease_spec(1)[OF dec le, of y] cnt[of y] rem0[of y] by linarith
  have nq: "set nq = set (sg_nextQueue s) \<union> {y. (x, y) \<in> eedges cs \<and> (\<forall>a. (a, y) \<in> eedges cs \<longrightarrow> a \<in> insert x ?P)}"
    using decrease_spec(2)[OF dec le] by (simp add: rem pending_Nil set_outputs)
  have id: "nd_ID n = x" "n \<in> set ns"
    using nodeMap_Some[OF n] by auto
  have ids: "ids_of (sg_stage s @ [mkPlanNode (graph_of cs) k n]) = insert x (ids_of (sg_stage s))"
    using id by (simp add: ids_of_def mkPlanNode_def)
  have out: "x \<notin> ids_of (sg_stage s)" "x \<notin> P0"
    using new I(2) by auto
  have closed: "y \<in> insert x ?P \<union> set queue \<union> set nq"
    if y: "y \<in> nd_ID ` set ns \<inter> Range (eedges cs)" "\<forall>a. (a, y) \<in> eedges cs \<longrightarrow> a \<in> insert x ?P" for y
  proof (cases "(x, y) \<in> eedges cs")
    case True
    then show ?thesis
      using y(2) nq by simp
  next
    case False
    then have "\<forall>a. (a, y) \<in> eedges cs \<longrightarrow> a \<in> ?P"
      using y(2) by auto
    then have "y \<in> ?P \<union> set (x # queue) \<union> set (sg_nextQueue s)"
      using I(8) y(1) by blast
    then show ?thesis
      using nq by auto
  qed
  show ?thesis
    unfolding stage_inv_def StageState.simps ids
  proof (intro conjI)
    show "distinct (map pn_ID (sg_stage s @ [mkPlanNode (graph_of cs) k n]))"
      using I(3) out(1) id(1) by (simp add: ids_of_def mkPlanNode_def)
    show "\<forall>y\<in>set nq. (\<forall>a. (a, y) \<in> eedges cs \<longrightarrow> a \<in> insert x ?P) \<and> y \<in> Range (eedges cs)"
      using I(7) nq id(1) by auto
    show "\<forall>y\<in>nd_ID ` set ns \<inter> Range (eedges cs). (\<forall>a. (a, y) \<in> eedges cs \<longrightarrow> a \<in> insert x ?P) \<longrightarrow>
        y \<in> insert x ?P \<union> set queue \<union> set nq"
      using closed id(1) by blast
    show "\<forall>y\<in>insert x (ids_of (sg_stage s)) \<union> set queue. \<forall>a. (a, y) \<in> eedges cs \<longrightarrow> a \<in> P0"
      using I(6) id(1) by auto
  qed (use rem I(2,4,5) out id in auto)
qed

lemma stageLoop_inv:
  "stage_inv ns cs k P0 queue s \<Longrightarrow> stage_inv ns cs k P0 [] (stageLoop ns (graph_of cs) k queue s)"
proof (induction queue arbitrary: s)
  case (Cons x queue)
  show ?case
  proof (cases "x \<in> sg_processed s \<or> nodeMap ns Map.empty x = None")
    case True
    then show ?thesis
      using Cons.IH[OF stage_inv_skip[OF Cons.prems]] nodeMap_None[of ns x] takeNode_skip[of x s ns]
      by auto
  next
    case False
    then obtain n where n: "nodeMap ns Map.empty x = Some n" "x \<notin> sg_processed s" by auto
    obtain r nq where dec: "decrease (dg_outputs (graph_of cs) x) (sg_remaining s) (sg_nextQueue s) = (r, nq)"
      by fastforce
    show ?thesis
      using Cons.IH[OF stage_inv_take[OF Cons.prems n dec]] n dec by (simp add: takeNode_def)
  qed
qed simp

section \<open>The invariant of the plan\<close>

text \<open>Everything a node of stage \<open>i\<close> receives from is in a stage before it.\<close>

definition taken :: "PlanNode list list \<Rightarrow> string set" where
  "taken stages = ids_of (concat stages)"

definition stage_ok :: "NodeDef list \<Rightarrow> EConnection list \<Rightarrow> nat \<Rightarrow> string set \<Rightarrow> PlanNode list \<Rightarrow> bool" where
  "stage_ok ns cs i T ps \<longleftrightarrow> ps \<noteq> [] \<and>
     (\<forall>p\<in>set ps. (\<exists>n\<in>set ns. p = mkPlanNode (graph_of cs) i n) \<and> (\<forall>a. (a, pn_ID p) \<in> eedges cs \<longrightarrow> a \<in> T))"

definition staged :: "NodeDef list \<Rightarrow> EConnection list \<Rightarrow> PlanNode list list \<Rightarrow> bool" where
  "staged ns cs stages \<longleftrightarrow> distinct (map pn_ID (concat stages)) \<and>
     (\<forall>i < length stages. stage_ok ns cs i (taken (take i stages)) (stages ! i))"

lemma taken_simps [simp]:
  "taken [] = {}" "taken (st # stages) = ids_of st \<union> taken stages"
  "taken (stages @ [st]) = taken stages \<union> ids_of st"
  by (auto simp: taken_def ids_of_def)

lemma taken_nth: "x \<in> taken stages \<longleftrightarrow> (\<exists>j < length stages. x \<in> ids_of (stages ! j))"
proof -
  have "taken stages = (\<Union>st\<in>set stages. ids_of st)"
    by (auto simp: taken_def ids_of_def)
  then show ?thesis
    by (metis UN_iff in_set_conv_nth)
qed

lemma staged_snoc:
  assumes "staged ns cs stages" and "stage_ok ns cs (length stages) (taken stages) stage"
    and "distinct (map pn_ID stage)" and "ids_of stage \<inter> taken stages = {}"
  shows "staged ns cs (stages @ [stage])"
  using assms by (auto simp: staged_def taken_def ids_of_def nth_append less_Suc_eq)

definition plan_inv ::
  "NodeDef list \<Rightarrow> EConnection list \<Rightarrow> string \<Rightarrow> string list \<Rightarrow> (string \<Rightarrow> int) \<Rightarrow> string set \<Rightarrow>
   PlanNode list list \<Rightarrow> bool" where
  "plan_inv ns cs t queue rem P stages \<longleftrightarrow>
     (\<forall>x. rem x = int (length (pending cs P x))) \<and> P = taken stages \<and> staged ns cs stages \<and>
     (\<forall>x\<in>set queue. \<forall>a. (a, x) \<in> eedges cs \<longrightarrow> a \<in> P) \<and>
     (\<forall>x\<in>P \<union> set queue. x = t \<or> x \<in> Range (eedges cs)) \<and>
     (\<forall>x\<in>nd_ID ` set ns \<inter> Range (eedges cs). (\<forall>a. (a, x) \<in> eedges cs \<longrightarrow> a \<in> P) \<longrightarrow> x \<in> P \<union> set queue) \<and>
     t \<in> P \<union> set queue"

lemma plan_invD:
  assumes "plan_inv ns cs t queue rem P stages"
  shows "\<forall>x. rem x = int (length (pending cs P x))" and "P = taken stages" and "staged ns cs stages"
    and "\<forall>x\<in>set queue. \<forall>a. (a, x) \<in> eedges cs \<longrightarrow> a \<in> P"
    and "\<forall>x\<in>P \<union> set queue. x = t \<or> x \<in> Range (eedges cs)"
    and "\<forall>x\<in>nd_ID ` set ns \<inter> Range (eedges cs).
           (\<forall>a. (a, x) \<in> eedges cs \<longrightarrow> a \<in> P) \<longrightarrow> x \<in> P \<union> set queue"
    and "t \<in> P \<union> set queue"
  using assms unfolding plan_inv_def by - (elim conjE, assumption)+

lemma plan_inv_step:
  assumes inv: "plan_inv ns cs t queue rem P stages" and t: "t \<in> nd_ID ` set ns"
    and s: "s = stageLoop ns (graph_of cs) (length stages) queue (startStage rem P)"
  shows "plan_inv ns cs t (sg_nextQueue s) (sg_remaining s) (sg_processed s)
           (if sg_stage s \<noteq> [] then stages @ [sg_stage s] else stages)"
proof -
  note I = plan_invD[OF inv]
  have "stage_inv ns cs (length stages) P queue (startStage rem P)"
    unfolding stage_inv_def startStage_def StageState.simps ids_of_def
    by (intro conjI) (use I(1,4,6) in simp_all)
  note S = stage_invD[OF stageLoop_inv[OF this], folded s]
  let ?stages = "if sg_stage s \<noteq> [] then stages @ [sg_stage s] else stages"
  have P: "sg_processed s = taken ?stages"
    using S(2) I(2) by (auto simp: ids_of_def)
  have st: "staged ns cs ?stages"
    using I(2,3) S(3,4,5,6) by (simp add: staged_snoc stage_ok_def ids_of_def)
  have new: "sg_processed s \<subseteq> P \<union> set queue"
    by (auto simp: s startStage_def stageLoop_processed)
  have old: "P \<subseteq> sg_processed s"
    using S(2) by blast
  have "t \<in> sg_processed s"
    using I(7) t by (auto simp: s startStage_def stageLoop_processed)
  then show ?thesis
    unfolding plan_inv_def
  proof (intro conjI)
    show "\<forall>x\<in>sg_processed s \<union> set (sg_nextQueue s). x = t \<or> x \<in> Range (eedges cs)"
      using I(5) S(7) new by blast
    show "\<forall>x\<in>nd_ID ` set ns \<inter> Range (eedges cs). (\<forall>a. (a, x) \<in> eedges cs \<longrightarrow> a \<in> sg_processed s) \<longrightarrow>
        x \<in> sg_processed s \<union> set (sg_nextQueue s)"
      using S(8) by simp
  qed (use S(1,7) P st in simp_all)
qed

section \<open>The result of the loop\<close>


lemma planLoop_inv:
  assumes "plan_inv ns cs t queue rem P stages" and "t \<in> nd_ID ` set ns"
    and "planLoop ns (graph_of cs) queue rem P stages = (stages', P')"
  shows "\<exists>rem'. plan_inv ns cs t [] rem' P' stages'"
  using assms
proof (induction ns "graph_of cs" queue rem P stages rule: planLoop.induct)
  case (1 ns queue rem P stages)
  show ?case
  proof (cases "queue = []")
    case True
    then show ?thesis
      using 1(2,4) by (auto simp: planLoop.simps)
  next
    case False
    let ?s = "stageLoop ns (graph_of cs) (length stages) queue (startStage rem P)"
    have "planLoop ns (graph_of cs) (sg_nextQueue ?s) (sg_remaining ?s) (sg_processed ?s)
        (if sg_stage ?s \<noteq> [] then stages @ [sg_stage ?s] else stages) = (stages', P')"
      using 1(4) False by (subst (asm) planLoop.simps) (simp add: Let_def)
    then show ?thesis
      by (rule 1(1)[OF False refl plan_inv_step[OF 1(2,3) refl] 1(3)])
  qed
qed

lemma plan_inv_start:
  assumes "t \<notin> Range (eedges cs)"
  shows "plan_inv ns cs t [t] (dg_inDegree (graph_of cs)) {} []"
  using assms by (auto simp: plan_inv_def inDegree_pending staged_def)

lemma inDegree_zero: "dg_inDegree (graph_of cs) x = 0 \<longleftrightarrow> x \<notin> Range (eedges cs)"
  by (auto simp: inDegree_pending pending_Nil)

lemma staged_known: "staged ns cs stages \<Longrightarrow> taken stages \<subseteq> nd_ID ` set ns"
  by (auto simp: staged_def stage_ok_def taken_nth ids_of_def mkPlanNode_def) (force simp: mkPlanNode_def)

lemma taken_take: "x \<in> taken (take k stages) \<longleftrightarrow> (\<exists>j < length stages. j < k \<and> x \<in> ids_of (stages ! j))"
  by (auto simp: taken_nth)

text \<open>The stage of a node decreases along its dependencies, so what is staged has no cycle.\<close>

lemma staged_acyclic:
  assumes "staged ns cs stages" and "N \<subseteq> taken stages"
  shows "acyclic (eedges cs \<inter> UNIV \<times> N)"
proof -
  define level where "level x = (LEAST k. x \<in> taken (take k stages))" for x
  have "level a < level x" if "(a, x) \<in> eedges cs" "x \<in> N" for a x
  proof -
    have "x \<in> taken (take (length stages) stages)"
      using assms(2) that(2) by auto
    then have "x \<in> taken (take (level x) stages)"
      unfolding level_def by (rule LeastI)
    then obtain j where j: "j < length stages" "j < level x" "x \<in> ids_of (stages ! j)"
      by (auto simp: taken_take)
    then have "a \<in> taken (take j stages)"
      using assms(1) that(1) by (auto simp: staged_def stage_ok_def ids_of_def)
    then have "level a \<le> j"
      unfolding level_def by (rule Least_le)
    then show ?thesis
      using j by simp
  qed
  then have "eedges cs \<inter> UNIV \<times> N \<subseteq> measure level"
    by auto
  then show ?thesis
    by (meson wf_acyclic wf_measure wf_subset)
qed

lemma planned_set:
  assumes "plan_inv ns cs t [] rem P stages" and "card P = length ns"
  shows "P = nd_ID ` set ns \<and> distinct (map nd_ID ns)"
proof -
  note I = plan_invD[OF assms(1)]
  have sub: "P \<subseteq> nd_ID ` set ns"
    using staged_known[OF I(3)] I(2) by simp
  have "card (nd_ID ` set ns) \<le> length ns"
    by (metis card_length length_map list.set_map)
  then have "card (nd_ID ` set ns) = length ns" and "P = nd_ID ` set ns"
    using card_seteq[OF _ sub] card_mono[OF _ sub] assms(2) by auto
  then show ?thesis
    by (metis card_distinct length_map list.set_map)
qed

text \<open>The definitions that have a plan.\<close>

definition plannable :: "'w Registry \<Rightarrow> WorkflowDef \<Rightarrow> bool" where
  "plannable r wfl \<longleftrightarrow>
     distinct (map nd_ID (wd_Nodes wfl)) \<and>
     (\<exists>t\<in>set (wd_Nodes wfl). is_trigger r t \<and> nd_ID t \<noteq> '''' \<and>
        (\<forall>n\<in>set (wd_Nodes wfl). nd_ID n \<notin> Range (wgraph wfl) \<longleftrightarrow> n = t)) \<and>
     (\<forall>a x. (a, x) \<in> wgraph wfl \<longrightarrow> x \<in> nd_ID ` set (wd_Nodes wfl) \<longrightarrow> a \<in> nd_ID ` set (wd_Nodes wfl)) \<and>
     acyclic (wgraph wfl \<inter> UNIV \<times> nd_ID ` set (wd_Nodes wfl))"

text \<open>What \<open>buildExecutionPlan\<close> did when it succeeded.\<close>

lemma buildExecutionPlan_Inr:
  assumes "buildExecutionPlan r wfl = Inr plan"
  obtains t rem P where "find (\<lambda>n. nd_ID n \<notin> Range (wgraph wfl) \<and> is_trigger r n) (wd_Nodes wfl) = Some t"
    and "nd_ID t \<noteq> ''''" and "pl_TriggerID plan = nd_ID t"
    and "plan_inv (wd_Nodes wfl) (wd_Connections wfl) (nd_ID t) [] rem P (pl_Stages plan)"
    and "card P = length (wd_Nodes wfl)"
proof -
  let ?ns = "wd_Nodes wfl" and ?cs = "wd_Connections wfl"
  have g: "depGraph ?cs emptyGraph = graph_of ?cs"
    by (simp add: graph_of_def)
  obtain t where t: "find (\<lambda>n. nd_ID n \<notin> Range (wgraph wfl) \<and> is_trigger r n) ?ns = Some t" "nd_ID t \<noteq> ''''"
    using assms by (auto simp: buildExecutionPlan_def g inDegree_zero Let_def split: if_splits option.splits)
  then have root: "nd_ID t \<notin> Range (wgraph wfl)" "nd_ID t \<in> nd_ID ` set ?ns"
    using find_SomeD[OF t(1)] by blast+
  obtain stages P where loop: "planLoop ?ns (graph_of ?cs) [nd_ID t] (dg_inDegree (graph_of ?cs)) {} [] = (stages, P)"
    by fastforce
  then have "card P = length ?ns" "pl_Stages plan = stages" "pl_TriggerID plan = nd_ID t"
    using assms t by (auto simp: buildExecutionPlan_def g inDegree_zero Let_def split: if_splits)
  then show thesis
    using that t planLoop_inv[OF plan_inv_start[OF root(1)] root(2) loop] by blast
qed

lemma plan_sound:
  assumes "buildExecutionPlan r wfl = Inr plan"
  shows "plannable r wfl"
proof -
  let ?ns = "wd_Nodes wfl" and ?E = "wgraph wfl"
  obtain t rem P where t: "find (\<lambda>n. nd_ID n \<notin> Range ?E \<and> is_trigger r n) ?ns = Some t" "nd_ID t \<noteq> ''''"
    and inv: "plan_inv ?ns (wd_Connections wfl) (nd_ID t) [] rem P (pl_Stages plan)" and c: "card P = length ?ns"
    by (rule buildExecutionPlan_Inr[OF assms]) (rule that; assumption)
  note I = plan_invD[OF inv]
  have P: "P = nd_ID ` set ?ns" and d: "distinct (map nd_ID ?ns)"
    using planned_set[OF inv c] by auto
  have mem: "t \<in> set ?ns" "is_trigger r t" "nd_ID t \<notin> Range ?E"
    using find_SomeD[OF t(1)] by blast+
  have unique: "n = t" if "n \<in> set ?ns" "nd_ID n \<notin> Range ?E" for n
    using I(5) P that d mem(1) by (auto simp: distinct_map inj_on_def)
  have "a \<in> nd_ID ` set ?ns" if e: "(a, x) \<in> ?E" "x \<in> nd_ID ` set ?ns" for a x
  proof -
    obtain j where "j < length (pl_Stages plan)" "x \<in> ids_of (pl_Stages plan ! j)"
      using e(2) P I(2) taken_nth[of x "pl_Stages plan"] by blast
    then have "a \<in> taken (take j (pl_Stages plan))"
      using I(3) e(1) by (auto simp: staged_def stage_ok_def ids_of_def)
    then have "a \<in> taken (pl_Stages plan)"
      by (auto simp: taken_take taken_nth)
    then show ?thesis
      using P I(2) by simp
  qed
  moreover have "acyclic (?E \<inter> UNIV \<times> nd_ID ` set ?ns)"
    by (rule staged_acyclic[OF I(3)]) (use P I(2) in simp)
  ultimately show ?thesis
    using d t(2) mem unique unfolding plannable_def by blast
qed

lemma plan_complete:
  assumes "plannable r wfl"
  shows "\<exists>plan. buildExecutionPlan r wfl = Inr plan"
proof -
  let ?ns = "wd_Nodes wfl" and ?cs = "wd_Connections wfl" and ?E = "wgraph wfl"
  let ?N = "nd_ID ` set ?ns"
  obtain t where t: "t \<in> set ?ns" "is_trigger r t" "nd_ID t \<noteq> ''''"
    and root: "\<And>n. n \<in> set ?ns \<Longrightarrow> nd_ID n \<notin> Range ?E \<longleftrightarrow> n = t"
    and known: "\<And>a x. (a, x) \<in> ?E \<Longrightarrow> x \<in> ?N \<Longrightarrow> a \<in> ?N"
    and d: "distinct (map nd_ID ?ns)" and acyc: "acyclic (?E \<inter> UNIV \<times> ?N)"
    using assms unfolding plannable_def by blast
  have "find (\<lambda>n. nd_ID n \<notin> Range ?E \<and> is_trigger r n) ?ns \<noteq> None"
    using t root by (auto simp: find_None_iff)
  moreover have "n = t" if "find (\<lambda>n. nd_ID n \<notin> Range ?E \<and> is_trigger r n) ?ns = Some n" for n
    using find_SomeD[OF that] root by blast
  ultimately have found: "find (\<lambda>n. nd_ID n \<notin> Range ?E \<and> is_trigger r n) ?ns = Some t"
    by blast
  obtain stages P where loop: "planLoop ?ns (graph_of ?cs) [nd_ID t] (dg_inDegree (graph_of ?cs)) {} [] = (stages, P)"
    by fastforce
  have "nd_ID t \<notin> Range ?E"
    using root t(1) by blast
  then obtain rem where inv: "plan_inv ?ns ?cs (nd_ID t) [] rem P stages"
    using planLoop_inv[OF plan_inv_start _ loop] t(1) by blast
  note I = plan_invD[OF inv]
  have wf: "wf (?E \<inter> UNIV \<times> ?N)"
    by (rule finite_acyclic_wf[OF _ acyc]) simp
  have "x \<in> ?N \<longrightarrow> x \<in> P" for x
  proof (induction x rule: wf_induct_rule[OF wf])
    case (1 x)
    show ?case
    proof
      assume x: "x \<in> ?N"
      show "x \<in> P"
      proof (cases "x \<in> Range ?E")
        case True
        have "\<forall>a. (a, x) \<in> ?E \<longrightarrow> a \<in> P"
          using 1 x known by blast
        then show ?thesis
          using I(6) x True by auto
      next
        case False
        then show ?thesis
          using I(7) root x by auto
      qed
    qed
  qed
  then have "P = ?N"
    using staged_known[OF I(3)] I(2) by blast
  then have "card P = length ?ns"
    using d by (metis distinct_card length_map list.set_map)
  then show ?thesis
    using found t(3) loop
    by (simp add: buildExecutionPlan_def inDegree_zero Let_def flip: graph_of_def)
qed

section \<open>Executing the plan\<close>

datatype EngineStatus =
    EngineStatusPending
  | EngineStatusRunning
  | EngineStatusCompleted
  | EngineStatusFailed
  | EngineStatusCancelled
  | EngineStatusPaused

record NodeResult =
  nr_NodeID :: string
  nr_NodeType :: string
  nr_Status :: EngineStatus
  nr_StartedAt :: time
  nr_CompletedAt :: "time option"
  nr_DurationMs :: int
  nr_Input :: "dict option"
  nr_Output :: "dict option"
  nr_Error :: string
  nr_Retries :: int

record ExecutionLog =
  el_Timestamp :: time
  el_Level :: string
  el_Message :: string

record ExecutionResult =
  er_ExecutionID :: string
  er_WorkflowID :: string
  er_Status :: EngineStatus
  er_StartedAt :: time
  er_CompletedAt :: "time option"
  er_DurationMs :: int
  er_NodeResults :: "string \<Rightarrow> NodeResult option"
  er_Outputs :: "(string \<Rightarrow> dict option) option"
  er_Error :: string
  er_Logs :: "ExecutionLog list"

text \<open>The input of a node: the outputs of its dependencies, later ones over earlier ones.\<close>

definition depInput :: "string list \<Rightarrow> (string \<Rightarrow> dict option) \<Rightarrow> dict" where
  "depInput deps nodeOutputs =
     fold (\<lambda>d input. case nodeOutputs d of Some out \<Rightarrow> merge_output input out | None \<Rightarrow> input) deps Map.empty"

definition nodeCredentials :: "WorkflowDef \<Rightarrow> ExecutionOptions \<Rightarrow> string \<Rightarrow> dict option" where
  "nodeCredentials wfl options x =
     (case find (\<lambda>n. nd_ID n = x \<and> nd_Credential n \<noteq> '''') (wd_Nodes wfl) of
        None \<Rightarrow> None | Some n \<Rightarrow> eo_Credentials options (nd_Credential n))"

definition executeNode ::
  "'w EngineEnv \<Rightarrow> PlanNode \<Rightarrow> WorkflowDef \<Rightarrow> ExecutionOptions \<Rightarrow> (string \<Rightarrow> dict option) \<Rightarrow> 'w \<Rightarrow>
   'w \<times> NodeResult" where
  "executeNode env pn wfl options nodeOutputs w =
     (let startTime = env_Now env w;
          result = \<lparr> nr_NodeID = pn_ID pn, nr_NodeType = pn_Type pn, nr_Status = EngineStatusRunning,
            nr_StartedAt = startTime, nr_CompletedAt = None, nr_DurationMs = 0, nr_Input = None,
            nr_Output = None, nr_Error = '''', nr_Retries = 0 \<rparr>
      in case Registry_Get (pn_Type pn) (env_registry env) of
        Inl e \<Rightarrow> (w, result\<lparr> nr_Status := EngineStatusFailed, nr_Error := ''executor not found: '' @ e \<rparr>)
      | Inr ex \<Rightarrow>
          (let inputData = depInput (pn_Dependencies pn) nodeOutputs;
               result1 = result\<lparr> nr_Input := Some inputData \<rparr>
           in case evaluateConfig env (pn_Config pn) nodeOutputs inputData options of
             Inl e \<Rightarrow> (w, result1\<lparr> nr_Status := EngineStatusFailed, nr_Error := ''config evaluation failed: '' @ e \<rparr>)
           | Inr config \<Rightarrow>
               (let input = \<lparr> xi_NodeID = pn_ID pn, xi_NodeConfig = config, xi_InputData = inputData,
                      xi_Credentials = nodeCredentials wfl options (pn_ID pn),
                      xi_Context = \<lparr> xc_ExecutionID = env_UUID env w, xc_WorkflowID = wd_ID wfl,
                        xc_UserID = eo_UserID options, xc_WorkspaceID = eo_WorkspaceID options,
                        xc_Variables = eo_Variables options, xc_Env = eo_Environment options,
                        xc_Mode = eo_Mode options \<rparr> \<rparr>;
                    (w', res) = ex_Execute ex w input;
                    endTime = env_Now env w';
                    result2 = result1\<lparr> nr_CompletedAt := Some endTime,
                      nr_DurationMs := quot (endTime - startTime) 1000000 \<rparr>
                in case res of
                  Inl e \<Rightarrow> (w', result2\<lparr> nr_Status := EngineStatusFailed, nr_Error := e \<rparr>)
                | Inr out \<Rightarrow>
                    (case xo_Error out of
                       Some e \<Rightarrow> (w', result2\<lparr> nr_Status := EngineStatusFailed, nr_Error := e \<rparr>)
                     | None \<Rightarrow> (w', result2\<lparr> nr_Status := EngineStatusCompleted, nr_Output := xo_Data out \<rparr>)))))"

text \<open>
  The nodes of a stage run in goroutines that only read \<open>nodeOutputs\<close>; results are collected when all
  have ended. The list \<open>pns\<close> is the stage in the order in which this run happens to complete it, and
  the executions are atomic steps of the world.
\<close>

fun runStageNodes ::
  "'w EngineEnv \<Rightarrow> WorkflowDef \<Rightarrow> ExecutionOptions \<Rightarrow> (string \<Rightarrow> dict option) \<Rightarrow> PlanNode list \<Rightarrow> 'w \<Rightarrow>
   'w \<times> NodeResult list" where
  "runStageNodes env wfl options nodeOutputs [] w = (w, [])"
| "runStageNodes env wfl options nodeOutputs (pn # pns) w =
     (let (w1, r) = executeNode env pn wfl options nodeOutputs w;
          (w2, rs) = runStageNodes env wfl options nodeOutputs pns w1
      in (w2, r # rs))"

fun collectResults ::
  "NodeResult list \<Rightarrow> (string \<Rightarrow> dict option) \<times> (string \<Rightarrow> NodeResult option) \<Rightarrow>
   (string \<Rightarrow> dict option) \<times> (string \<Rightarrow> NodeResult option)" where
  "collectResults [] (outs, res) = (outs, res)"
| "collectResults (r # rs) (outs, res) =
     collectResults rs
       (case nr_Output r of None \<Rightarrow> outs | Some d \<Rightarrow> outs(nr_NodeID r \<mapsto> d), res(nr_NodeID r \<mapsto> r))"

definition stageErrors :: "NodeResult list \<Rightarrow> string list" where
  "stageErrors rs = map (\<lambda>r. ''node '' @ nr_NodeID r @ '' failed: '' @ nr_Error r)
     (filter (\<lambda>r. nr_Error r \<noteq> '''') rs)"

definition exec_log :: "time \<Rightarrow> string \<Rightarrow> string \<Rightarrow> ExecutionLog" where
  "exec_log t level msg = \<lparr> el_Timestamp = t, el_Level = level, el_Message = msg \<rparr>"

text \<open>
  The loop over the stages; \<open>order\<close> gives the completion order of each stage and \<open>stageMsg\<close> is the
  formatting of the log line.
\<close>

fun executeStages ::
  "'w EngineEnv \<Rightarrow> (PlanNode list \<Rightarrow> PlanNode list) \<Rightarrow> (nat \<Rightarrow> nat \<Rightarrow> string) \<Rightarrow> WorkflowDef \<Rightarrow>
   ExecutionOptions \<Rightarrow> nat \<Rightarrow> PlanNode list list \<Rightarrow> 'w \<times> (string \<Rightarrow> dict option) \<times> ExecutionResult \<Rightarrow>
   ('w \<times> (string \<Rightarrow> dict option) \<times> ExecutionResult) \<times> string option" where
  "executeStages env order stageMsg wfl options k [] st = (st, None)"
| "executeStages env order stageMsg wfl options k (stage # stages) (w, outs, result) =
     (let log = exec_log (env_Now env w) ''info'' (stageMsg k (length stage));
          (w1, rs) = runStageNodes env wfl options outs (order stage) w;
          (outs1, res1) = collectResults rs (outs, er_NodeResults result);
          result1 = result\<lparr> er_NodeResults := res1, er_Logs := er_Logs result @ [log] \<rparr>
      in case stageErrors rs of
        [] \<Rightarrow> executeStages env order stageMsg wfl options (Suc k) stages (w1, outs1, result1)
      | e # es \<Rightarrow>
          if ws_ErrorHandling (wd_Settings wfl) = ''stop'' then ((w1, outs1, result1), Some e)
          else executeStages env order stageMsg wfl options (Suc k) stages
                 (w1, outs1, result1\<lparr> er_Logs := er_Logs result1 @
                    map (exec_log (env_Now env w1) ''error'') (e # es) \<rparr>))"

definition executePlan ::
  "'w EngineEnv \<Rightarrow> (PlanNode list \<Rightarrow> PlanNode list) \<Rightarrow> (nat \<Rightarrow> nat \<Rightarrow> string) \<Rightarrow> ExecutionPlan \<Rightarrow>
   WorkflowDef \<Rightarrow> ExecutionOptions \<Rightarrow> 'w \<times> ExecutionResult \<Rightarrow> ('w \<times> ExecutionResult) \<times> string option" where
  "executePlan env order stageMsg plan wfl options st =
     (let (w, result) = st;
          outs = (case eo_TriggerData options of None \<Rightarrow> Map.empty | Some d \<Rightarrow> [pl_TriggerID plan \<mapsto> d])
      in case executeStages env order stageMsg wfl options 0 (pl_Stages plan) (w, outs, result) of
        ((w', outs', result'), Some e) \<Rightarrow> ((w', result'), Some e)
      | ((w', outs', result'), None) \<Rightarrow>
          ((w', result'\<lparr> er_Outputs := Some (\<lambda>x.
              if \<exists>p\<in>set (concat (pl_Stages plan)). pn_ID p = x \<and> pn_Outputs p = [] then outs' x else None) \<rparr>),
           None))"

text \<open>\<open>ExecuteWorkflow\<close> with the events it emits, as status of the final one.\<close>

datatype EngineEvent =
    EventTypeExecutionStarted string string time
  | EventTypeExecutionCompleted string string time EngineStatus int

definition Advanced_ExecuteWorkflow ::
  "'w EngineEnv \<Rightarrow> (PlanNode list \<Rightarrow> PlanNode list) \<Rightarrow> (nat \<Rightarrow> nat \<Rightarrow> string) \<Rightarrow> WorkflowDef \<Rightarrow>
   ExecutionOptions \<Rightarrow> 'w \<Rightarrow> ('w \<times> ExecutionResult) \<times> EngineEvent list \<times> string option" where
  "Advanced_ExecuteWorkflow env order stageMsg wfl options w =
     (let i = env_UUID env w; startTime = env_Now env w;
          result = \<lparr> er_ExecutionID = i, er_WorkflowID = wd_ID wfl, er_Status = EngineStatusRunning,
            er_StartedAt = startTime, er_CompletedAt = None, er_DurationMs = 0,
            er_NodeResults = Map.empty, er_Outputs = None, er_Error = '''', er_Logs = [] \<rparr>;
          started = EventTypeExecutionStarted i (wd_ID wfl) startTime
      in case buildExecutionPlan (env_registry env) wfl of
        Inl e \<Rightarrow> ((w, result\<lparr> er_Status := EngineStatusFailed, er_Error := e \<rparr>), [started], Some e)
      | Inr plan \<Rightarrow>
          (let ((w', result1), err) = executePlan env order stageMsg plan wfl options (w, result);
               endTime = env_Now env w';
               durationMs = quot (endTime - startTime) 1000000;
               result2 = result1\<lparr> er_CompletedAt := Some endTime, er_DurationMs := durationMs \<rparr>;
               result3 = (case err of
                   Some e \<Rightarrow> result2\<lparr> er_Status := EngineStatusFailed, er_Error := e \<rparr>
                 | None \<Rightarrow> result2\<lparr> er_Status := EngineStatusCompleted \<rparr>)
           in ((w', result3),
               [started, EventTypeExecutionCompleted i (wd_ID wfl) endTime (er_Status result3) durationMs], err)))"

section \<open>Sorted execution\<close>

text \<open>A missing entry of a Go map of structs is the zero struct.\<close>

definition zeroNode :: NodeDef where
  "zeroNode = \<lparr> nd_ID = '''', nd_Type = '''', nd_Name = '''', nd_Config = Map.empty,
     nd_Position = \<lparr> ep_X = 0, ep_Y = 0 \<rparr>, nd_Credential = '''' \<rparr>"

definition open_degree :: "EConnection list \<Rightarrow> (string \<Rightarrow> int) \<Rightarrow> nat" where
  "open_degree cs deg = (\<Sum>x\<in>ec_TargetNodeID ` set cs. nat (deg x))"

lemma open_degree_upd:
  assumes "a \<in> ec_TargetNodeID ` set cs"
  shows "open_degree cs (deg(a := deg a - 1)) + (if deg a = 1 then 1 else 0) \<le> open_degree cs deg"
proof -
  have "open_degree cs d = nat (d a) + (\<Sum>x\<in>ec_TargetNodeID ` set cs - {a}. nat (d x))" for d
    unfolding open_degree_def using assms by (simp add: sum.remove)
  moreover have "(\<Sum>x\<in>ec_TargetNodeID ` set cs - {a}. nat ((deg(a := deg a - 1)) x)) =
      (\<Sum>x\<in>ec_TargetNodeID ` set cs - {a}. nat (deg x))"
    by (rule sum.cong) auto
  ultimately show ?thesis
    by auto
qed

lemma decrease_open_degree:
  "decrease os deg q = (deg', q') \<Longrightarrow> set os \<subseteq> ec_TargetNodeID ` set cs \<Longrightarrow>
   open_degree cs deg' + length q' \<le> open_degree cs deg + length q"
proof (induction os arbitrary: deg q)
  case (Cons a os)
  let ?deg = "deg(a := deg a - 1)"
  have "decrease os ?deg (if ?deg a = 0 then q @ [a] else q) = (deg', q')"
    using Cons.prems(1) by (simp only: decrease.simps Let_def)
  then have "open_degree cs deg' + length q' \<le>
      open_degree cs ?deg + length (if ?deg a = 0 then q @ [a] else q)"
    by (rule Cons.IH) (use Cons.prems(2) in simp)
  moreover have "open_degree cs ?deg + (if deg a = 1 then 1 else 0) \<le> open_degree cs deg"
    by (rule open_degree_upd) (use Cons.prems in auto)
  ultimately show ?case
    by (auto split: if_splits)
qed simp

function kahnLoop ::
  "NodeDef list \<Rightarrow> EConnection list \<Rightarrow> string list \<Rightarrow> (string \<Rightarrow> int) \<Rightarrow> NodeDef list \<Rightarrow> NodeDef list" where
  "kahnLoop ns cs queue inDegree acc =
     (case queue of
        [] \<Rightarrow> acc
      | nodeID # rest \<Rightarrow>
          (case decrease (dg_outputs (depGraph cs emptyGraph) nodeID) inDegree rest of
             (inDegree', queue') \<Rightarrow>
               kahnLoop ns cs queue' inDegree'
                 (acc @ [case nodeMap ns Map.empty nodeID of Some n \<Rightarrow> n | None \<Rightarrow> zeroNode])))"
  by pat_completeness auto

termination kahnLoop
proof (relation "measure (\<lambda>(ns, cs, queue, deg, acc). open_degree cs deg + length queue)", goal_cases)
  case 1
  show ?case
    by simp
next
  case (2 ns cs queue deg acc x rest deg' queue')
  have "set (dg_outputs (depGraph cs emptyGraph) x) \<subseteq> ec_TargetNodeID ` set cs"
    by (auto simp: depGraph_closed emptyGraph_def)
  then have "open_degree cs deg' + length queue' \<le> open_degree cs deg + length rest"
    using decrease_open_degree[of "dg_outputs (depGraph cs emptyGraph) x" deg rest deg' queue'] 2 by simp
  then show ?case
    using 2(1) by simp
qed

declare kahnLoop.simps [simp del]

text \<open>\<open>keys\<close> lists the keys of the in-degree map in the order this call ranges over them.\<close>

definition SortedExecution ::
  "string list \<Rightarrow> NodeDef list \<Rightarrow> EConnection list \<Rightarrow> string + NodeDef list" where
  "SortedExecution keys ns cs =
     (let inDegree = dg_inDegree (depGraph cs emptyGraph);
          topo = kahnLoop ns cs (filter (\<lambda>i. inDegree i = 0) keys) inDegree []
      in if length topo \<noteq> length ns then Inl ''workflow contains cycles''
         else Inr (sort_key nd_Name topo))"

section \<open>What a run of the plan has done\<close>

lemma executeNode_ID: "executeNode env pn wfl options outs w = (w', r) \<Longrightarrow> nr_NodeID r = pn_ID pn"
  by (auto simp: executeNode_def Let_def split: sum.splits option.splits prod.splits)

lemma runStageNodes_IDs:
  "runStageNodes env wfl options outs pns w = (w', rs) \<Longrightarrow> map nr_NodeID rs = map pn_ID pns"
  by (induction pns arbitrary: w w' rs)
     (auto simp: Let_def split: prod.splits dest: executeNode_ID)

lemma collectResults_results:
  "collectResults rs (outs, res) = (outs', res') \<Longrightarrow>
   dom res' = dom res \<union> nr_NodeID ` set rs \<and>
   (\<forall>x r. res' x = Some r \<longrightarrow> r \<in> set rs \<or> res x = Some r)"
proof (induction rs arbitrary: outs res)
  case (Cons r rs)
  from Cons.IH[OF Cons.prems[unfolded collectResults.simps]] show ?case
    by (auto split: if_splits)
qed simp

lemma stageErrors_Nil: "stageErrors rs = [] \<longleftrightarrow> (\<forall>r\<in>set rs. nr_Error r = '''')"
  by (auto simp: stageErrors_def filter_empty_conv)

text \<open>
  A run ends after some number of stages: all of them when there is no error, and without an error
  under the strategy stop no node has failed.
\<close>

lemma executeStages_results:
  assumes "executeStages env order msg wfl options k stages (w, outs, result) = ((w', outs', result'), err)"
    and "\<And>st. set (order st) = set st"
  shows "(\<exists>m\<le>length stages. dom (er_NodeResults result') = dom (er_NodeResults result) \<union> taken (take m stages) \<and>
       (err = None \<longrightarrow> m = length stages)) \<and>
     (err \<noteq> None \<longrightarrow> ws_ErrorHandling (wd_Settings wfl) = ''stop'') \<and>
     (err = None \<longrightarrow> ws_ErrorHandling (wd_Settings wfl) = ''stop'' \<longrightarrow>
        (\<forall>x r. er_NodeResults result' x = Some r \<longrightarrow> nr_Error r = '''' \<or> er_NodeResults result x = Some r))"
  using assms(1)
proof (induction stages arbitrary: k w outs result)
  case (Cons stage stages)
  obtain w1 rs where run: "runStageNodes env wfl options outs (order stage) w = (w1, rs)"
    by fastforce
  obtain outs1 res1 where col: "collectResults rs (outs, er_NodeResults result) = (outs1, res1)"
    by fastforce
  have "nr_NodeID ` set rs = ids_of stage"
    using runStageNodes_IDs[OF run] assms(2)[of stage] by (metis ids_of_def list.set_map)
  then have res1: "dom res1 = dom (er_NodeResults result) \<union> ids_of stage"
    and old: "\<And>x r. res1 x = Some r \<Longrightarrow> r \<in> set rs \<or> er_NodeResults result x = Some r"
    using collectResults_results[OF col] by auto
  let ?r1 = "result\<lparr> er_NodeResults := res1, er_Logs := er_Logs result @
    [exec_log (env_Now env w) ''info'' (msg k (length stage))] \<rparr>"
  have more: ?case if rest: "executeStages env order msg wfl options (Suc k) stages (w1, outs1, r) =
      ((w', outs', result'), err)" "er_NodeResults r = res1"
    and ok: "ws_ErrorHandling (wd_Settings wfl) = ''stop'' \<Longrightarrow> \<forall>r\<in>set rs. nr_Error r = ''''" for r
  proof -
    obtain m where m: "m \<le> length stages" "err = None \<longrightarrow> m = length stages"
      "dom (er_NodeResults result') = dom res1 \<union> taken (take m stages)"
      using Cons.IH[OF rest(1)] rest(2) by auto
    have "taken (take (Suc m) (stage # stages)) = ids_of stage \<union> taken (take m stages)"
      by (auto simp: taken_def ids_of_def)
    then have "Suc m \<le> length (stage # stages) \<and>
        dom (er_NodeResults result') = dom (er_NodeResults result) \<union> taken (take (Suc m) (stage # stages)) \<and>
        (err = None \<longrightarrow> Suc m = length (stage # stages))"
      using m res1 by auto
    then show ?thesis
      using Cons.IH[OF rest(1)] rest(2) ok old by blast
  qed
  show ?case
  proof (cases "stageErrors rs")
    case Nil
    then have "\<forall>r\<in>set rs. nr_Error r = ''''"
      using stageErrors_Nil by blast
    then show ?thesis
      using more[of ?r1] Cons.prems run col Nil by (simp add: Let_def)
  next
    case (Cons e es)
    show ?thesis
    proof (cases "ws_ErrorHandling (wd_Settings wfl) = ''stop''")
      case True
      then have "result' = ?r1" "err = Some e"
        using Cons.prems run col Cons by (auto simp: Let_def)
      then show ?thesis
        using res1 True by (auto intro!: exI[of _ 1])
    next
      case False
      then have "executeStages env order msg wfl options (Suc k) stages
          (w1, outs1, ?r1\<lparr> er_Logs := er_Logs ?r1 @ map (exec_log (env_Now env w1) ''error'') (e # es) \<rparr>) =
          ((w', outs', result'), err)"
        using Cons.prems run col Cons by (simp add: Let_def)
      then show ?thesis
        by (rule more) (use False in simp_all)
    qed
  qed
qed simp

section \<open>Properties\<close>

text \<open>C4: \<open>buildExecutionPlan\<close> succeeds exactly for the definitions with distinct node identifiers in
  which one node has no incoming connection, that node is a trigger with a non-empty identifier, every
  connection into a node comes from a node, and the connections into nodes have no cycle. In
  particular two start nodes, both triggers, are refused.\<close>

theorem plan_exists_iff:
  "(\<exists>plan. buildExecutionPlan r wfl = Inr plan) \<longleftrightarrow>
     distinct (map nd_ID (wd_Nodes wfl)) \<and>
     (\<exists>t\<in>set (wd_Nodes wfl). is_trigger r t \<and> nd_ID t \<noteq> '''' \<and>
        {n \<in> set (wd_Nodes wfl). nd_ID n \<notin> Range (wgraph wfl)} = {t}) \<and>
     (\<forall>a x. (a, x) \<in> wgraph wfl \<and> x \<in> nd_ID ` set (wd_Nodes wfl) \<longrightarrow> a \<in> nd_ID ` set (wd_Nodes wfl)) \<and>
     acyclic (wgraph wfl \<inter> UNIV \<times> nd_ID ` set (wd_Nodes wfl))"
proof -
  have "{n \<in> set (wd_Nodes wfl). nd_ID n \<notin> Range (wgraph wfl)} = {t} \<longleftrightarrow>
      (\<forall>n\<in>set (wd_Nodes wfl). nd_ID n \<notin> Range (wgraph wfl) \<longleftrightarrow> n = t)"
    if "t \<in> set (wd_Nodes wfl)" for t
    using that by blast
  then have "plannable r wfl \<longleftrightarrow> distinct (map nd_ID (wd_Nodes wfl)) \<and>
     (\<exists>t\<in>set (wd_Nodes wfl). is_trigger r t \<and> nd_ID t \<noteq> '''' \<and>
        {n \<in> set (wd_Nodes wfl). nd_ID n \<notin> Range (wgraph wfl)} = {t}) \<and>
     (\<forall>a x. (a, x) \<in> wgraph wfl \<and> x \<in> nd_ID ` set (wd_Nodes wfl) \<longrightarrow> a \<in> nd_ID ` set (wd_Nodes wfl)) \<and>
     acyclic (wgraph wfl \<inter> UNIV \<times> nd_ID ` set (wd_Nodes wfl))"
    unfolding plannable_def by (simp cong: bex_cong) blast
  then show ?thesis
    using plan_sound[of r wfl] plan_complete[of r wfl] by blast
qed

theorem plan_exists_iff_witness:
  "\<not> (\<exists>plan. buildExecutionPlan (env_registry sample_env) (sample_def [''a'', ''b''] []) = Inr plan) \<and>
   (\<exists>plan. buildExecutionPlan (env_registry sample_env) (sample_def [''a'', ''b''] [(''a'', ''b'')]) = Inr plan)"
proof -
  have "acyclic {(''a'', ''b'') :: string \<times> string}"
    by (simp add: acyclic_insert) (simp add: acyclic_def)
  then show ?thesis
    unfolding plan_exists_iff by (auto simp: Collect_disj_eq)
qed

text \<open>C5: a plan is a schedule of the definition: it holds every node exactly once, and all the
  dependencies of a node of stage \<open>i\<close>, which are the sources of the connections into it, are in
  earlier stages.\<close>

theorem plan_is_schedule:
  assumes "buildExecutionPlan r wfl = Inr plan"
  shows "distinct (map pn_ID (concat (pl_Stages plan))) \<and>
    pn_ID ` set (concat (pl_Stages plan)) = nd_ID ` set (wd_Nodes wfl) \<and>
    (\<forall>i < length (pl_Stages plan). \<forall>p\<in>set (pl_Stages plan ! i). pn_Stage p = i \<and>
       set (pn_Dependencies p) = {a. (a, pn_ID p) \<in> wgraph wfl} \<and>
       set (pn_Dependencies p) \<subseteq> (\<Union>j<i. pn_ID ` set (pl_Stages plan ! j)))"
proof -
  obtain t rem P where inv: "plan_inv (wd_Nodes wfl) (wd_Connections wfl) t [] rem P (pl_Stages plan)"
    and c: "card P = length (wd_Nodes wfl)"
    by (rule buildExecutionPlan_Inr[OF assms]) (rule that; assumption)
  have st: "staged (wd_Nodes wfl) (wd_Connections wfl) (pl_Stages plan)" and P: "P = taken (pl_Stages plan)"
    using plan_invD(2,3)[OF inv] by auto
  have node: "\<forall>i < length (pl_Stages plan). \<forall>p\<in>set (pl_Stages plan ! i). pn_Stage p = i \<and>
      set (pn_Dependencies p) = {a. (a, pn_ID p) \<in> wgraph wfl} \<and>
      set (pn_Dependencies p) \<subseteq> (\<Union>j<i. pn_ID ` set (pl_Stages plan ! j))"
  proof (intro allI impI ballI)
    fix i p
    assume ip: "i < length (pl_Stages plan)" "p \<in> set (pl_Stages plan ! i)"
    have ok: "stage_ok (wd_Nodes wfl) (wd_Connections wfl) i (taken (take i (pl_Stages plan))) (pl_Stages plan ! i)"
      using st ip(1) by (simp add: staged_def)
    then obtain n where p: "p = mkPlanNode (graph_of (wd_Connections wfl)) i n"
      using ip(2) by (auto simp: stage_ok_def)
    have deps: "set (pn_Dependencies p) = {a. (a, pn_ID p) \<in> wgraph wfl}"
      by (auto simp: p mkPlanNode_def graph_of_simps eedges_def)
    moreover have "{a. (a, pn_ID p) \<in> wgraph wfl} \<subseteq> taken (take i (pl_Stages plan))"
      using ok ip(2) by (auto simp: stage_ok_def)
    moreover have "taken (take i (pl_Stages plan)) \<subseteq> (\<Union>j<i. pn_ID ` set (pl_Stages plan ! j))"
      using taken_take[of _ i "pl_Stages plan"] unfolding ids_of_def by blast
    moreover have "pn_Stage p = i"
      by (simp add: p mkPlanNode_def)
    ultimately show "pn_Stage p = i \<and> set (pn_Dependencies p) = {a. (a, pn_ID p) \<in> wgraph wfl} \<and>
        set (pn_Dependencies p) \<subseteq> (\<Union>j<i. pn_ID ` set (pl_Stages plan ! j))"
      by simp
  qed
  have "distinct (map pn_ID (concat (pl_Stages plan)))"
    using st unfolding staged_def by blast
  moreover have "pn_ID ` set (concat (pl_Stages plan)) = nd_ID ` set (wd_Nodes wfl)"
    using planned_set[OF inv c] P unfolding taken_def ids_of_def by blast
  ultimately show ?thesis
    using node by (intro conjI)
qed

theorem plan_is_schedule_witness:
  "\<exists>plan. buildExecutionPlan (env_registry sample_env) (sample_def [''b'', ''a''] [(''a'', ''b'')]) = Inr plan \<and>
     pn_ID ` set (concat (pl_Stages plan)) = {''a'', ''b''}"
proof -
  have acyc: "acyclic {(''a'', ''b'') :: string \<times> string}"
    by (simp add: acyclic_insert) (simp add: acyclic_def)
  have "plannable (env_registry sample_env) (sample_def [''b'', ''a''] [(''a'', ''b'')])"
    unfolding plannable_def using acyc by auto
  then obtain plan where plan: "buildExecutionPlan (env_registry sample_env)
      (sample_def [''b'', ''a''] [(''a'', ''b'')]) = Inr plan"
    using plan_complete by blast
  then show ?thesis
    using plan_is_schedule[OF plan] by auto
qed

text \<open>C6: an execution that ends as completed has a result for every node of the definition, and
  under the strategy stop all of them are free of errors; it ends as failed exactly when it returns
  an error, and a plan once found is given up only under the strategy stop. This holds for every
  order in which the goroutines of a stage may end.\<close>

theorem completed_execution_covers:
  assumes "Advanced_ExecuteWorkflow env order msg wfl options w = ((w', result), events, err)"
    and "\<And>st. set (order st) = set st"
  shows "(er_Status result = EngineStatusFailed \<longleftrightarrow> err \<noteq> None) \<and>
    (err = None \<longrightarrow> er_Status result = EngineStatusCompleted \<and>
       dom (er_NodeResults result) = nd_ID ` set (wd_Nodes wfl) \<and>
       (ws_ErrorHandling (wd_Settings wfl) = ''stop'' \<longrightarrow>
          (\<forall>r\<in>ran (er_NodeResults result). nr_Error r = ''''))) \<and>
    (err \<noteq> None \<longrightarrow> buildExecutionPlan (env_registry env) wfl = Inl (the err) \<or>
       ws_ErrorHandling (wd_Settings wfl) = ''stop'')"
proof (cases "buildExecutionPlan (env_registry env) wfl")
  case (Inl e)
  then show ?thesis
    using assms(1) by (auto simp: Advanced_ExecuteWorkflow_def Let_def)
next
  case (Inr plan)
  let ?r0 = "\<lparr> er_ExecutionID = env_UUID env w, er_WorkflowID = wd_ID wfl, er_Status = EngineStatusRunning,
            er_StartedAt = env_Now env w, er_CompletedAt = None, er_DurationMs = 0,
            er_NodeResults = Map.empty, er_Outputs = None, er_Error = '''', er_Logs = [] \<rparr>"
  let ?outs = "(case eo_TriggerData options of None \<Rightarrow> Map.empty | Some d \<Rightarrow> [pl_TriggerID plan \<mapsto> d])"
  obtain w1 outs1 r1 e1 where run: "executeStages env order msg wfl options 0 (pl_Stages plan) (w, ?outs, ?r0) =
      ((w1, outs1, r1), e1)"
    by (rule prod.exhaust[of "executeStages env order msg wfl options 0 (pl_Stages plan) (w, ?outs, ?r0)"])
       (metis prod_cases3)
  note R = executeStages_results[OF run assms(2)]
  have nodes: "taken (pl_Stages plan) = nd_ID ` set (wd_Nodes wfl)"
  proof -
    obtain t rem P where inv: "plan_inv (wd_Nodes wfl) (wd_Connections wfl) t [] rem P (pl_Stages plan)"
      and c: "card P = length (wd_Nodes wfl)"
      by (rule buildExecutionPlan_Inr[OF Inr]) (rule that; assumption)
    then show ?thesis
      using planned_set[OF inv c] plan_invD(2)[OF inv] by simp
  qed
  obtain r2 where plan_run: "executePlan env order msg plan wfl options (w, ?r0) = ((w1, r2), e1)"
    and r2: "er_NodeResults r2 = er_NodeResults r1"
    using run by (cases e1) (simp_all add: executePlan_def)
  have final: "err = e1 \<and> er_Status result = (if e1 = None then EngineStatusCompleted else EngineStatusFailed) \<and>
      er_NodeResults result = er_NodeResults r1"
    using assms(1)[unfolded Advanced_ExecuteWorkflow_def Let_def Inr sum.case plan_run prod.case] r2
    by (cases e1) auto
  then have "err = e1" and st: "er_Status result = (if err = None then EngineStatusCompleted else EngineStatusFailed)"
    and res: "er_NodeResults result = er_NodeResults r1"
    by auto
  show ?thesis
  proof (cases err)
    case None
    then have e1: "e1 = None"
      using \<open>err = e1\<close> by simp
    then have "dom (er_NodeResults r1) = taken (pl_Stages plan)"
      using R[THEN conjunct1] by auto
    moreover have "ws_ErrorHandling (wd_Settings wfl) = ''stop'' \<longrightarrow>
        (\<forall>r\<in>ran (er_NodeResults r1). nr_Error r = '''')"
      using R[THEN conjunct2, THEN conjunct2] e1 by (simp add: ran_def) blast
    ultimately show ?thesis
      using None st nodes res by simp
  next
    case (Some e)
    then have "ws_ErrorHandling (wd_Settings wfl) = ''stop''"
      using R[THEN conjunct2, THEN conjunct1] \<open>err = e1\<close> by simp
    then show ?thesis
      using Some st by simp
  qed
qed

theorem completed_execution_covers_witness:
  "\<exists>w r ev. Advanced_ExecuteWorkflow sample_env (\<lambda>st. st) (\<lambda>_ _. '''') (sample_def [''a''] []) sample_options 0 =
     ((w, r), ev, None) \<and> dom (er_NodeResults r) = {''a''}"
proof -
  obtain q ev err where run: "Advanced_ExecuteWorkflow sample_env (\<lambda>st. st) (\<lambda>_ _. '''') (sample_def [''a''] [])
      sample_options 0 = (q, ev, err)"
    by (metis prod_cases3)
  have err: "err = None"
    using run
    by (auto simp: Advanced_ExecuteWorkflow_def buildExecutionPlan_def executePlan_def Let_def engine_sample_defs
        is_trigger_def getNodeMetadata_def Registry_Get_def planLoop.simps startStage_def takeNode_def
        emptyGraph_def mkPlanNode_def executeNode_def depInput_def evaluateConfig_def stageErrors_def)
  then show ?thesis
    using completed_execution_covers[of sample_env "\<lambda>st. st" "\<lambda>_ _. ''''" "sample_def [''a''] []" sample_options 0
        "fst q" "snd q" ev None] run
    by (cases q) (auto simp: sample_def_def)
qed

text \<open>\<open>SortedExecution\<close> returns its nodes in the order of their names and in no other order,
  whatever the connections say: a dependency whose name is greater comes after its dependent.\<close>

theorem SortedExecution_by_name:
  assumes "SortedExecution keys ns cs = Inr ss" and "i < j" and "j < length ss"
  shows "nd_Name (ss ! i) \<le> nd_Name (ss ! j)"
proof -
  have "sorted (map nd_Name ss)"
    using assms(1) by (auto simp: SortedExecution_def Let_def split: if_splits)
  then show ?thesis
    using assms(2,3) sorted_nth_mono[of "map nd_Name ss" i j] by simp
qed

theorem SortedExecution_by_name_witness:
  "\<exists>ss. SortedExecution [''z'', ''a''] (wd_Nodes (sample_def [''z'', ''a''] []))
     (wd_Connections (sample_def [] [(''z'', ''a'')])) = Inr ss \<and>
     map nd_ID ss = [''a'', ''z''] \<and> nd_Name (ss ! 0) \<le> nd_Name (ss ! 1)"
proof -
  obtain ss where ss: "SortedExecution [''z'', ''a''] (wd_Nodes (sample_def [''z'', ''a''] []))
     (wd_Connections (sample_def [] [(''z'', ''a'')])) = Inr ss" and ids: "map nd_ID ss = [''a'', ''z'']"
    by (auto simp: SortedExecution_def Let_def sample_def_def kahnLoop.simps emptyGraph_def)
  then have "1 < length ss"
    by (auto dest: arg_cong[of _ _ length])
  then show ?thesis
    using SortedExecution_by_name[OF ss, of 0 1] ss ids by simp
qed

end
