(* ===== verification/Task_Queue.thy ===== *)
theory Task_Queue
  imports Engine_Types
begin

text \<open>
  The task queues of \<open>internal/engine/queue.go\<close>: the \<open>InMemoryQueue\<close>, ordered by priority, and the
  \<open>PriorityQueue\<close>, which keeps one of them per level. What the Go interface \<open>TaskQueue\<close> promises its
  clients is the locale \<open>task_queue\<close>; both queues are interpretations of it. A task is the record of
  \<open>internal/engine/worker.go\<close>.

  Every method holds the queue's lock, so it is one step. A \<open>Dequeue\<close> that has to wait for the
  condition variable is the result \<open>Blocked\<close>: it runs again when it is woken.
\<close>

section \<open>Tasks\<close>

datatype TaskType =
    TaskTypeWorkflowExecution
  | TaskTypeNodeExecution
  | TaskTypeWebhookTrigger
  | TaskTypeScheduleTrigger
  | TaskTypeOther string

record Task =
  t_ID :: string
  t_Type :: TaskType
  t_ExecutionID :: string
  t_WorkflowID :: string
  t_NodeID :: string
  t_Workflow :: "WorkflowDef option"
  t_Options :: "ExecutionOptions option"
  t_Priority :: int
  t_CreatedAt :: time
  t_StartedAt :: "time option"
  t_Timeout :: duration
  t_RetryCount :: int
  t_MaxRetries :: int
  t_Metadata :: dict

section \<open>The in-memory queue\<close>

record InMemoryQueue =
  q_tasks :: "Task list"
  q_processing :: "string \<Rightarrow> Task option"
  q_closed :: bool

definition NewInMemoryQueue :: InMemoryQueue where
  "NewInMemoryQueue = \<lparr> q_tasks = [], q_processing = Map.empty, q_closed = False \<rparr>"

text \<open>The loop inserts before the first task of a strictly lower priority, else appends.\<close>

fun insertTask :: "Task \<Rightarrow> Task list \<Rightarrow> Task list" where
  "insertTask task [] = [task]"
| "insertTask task (t # ts) =
     (if t_Priority task > t_Priority t then task # t # ts else t # insertTask task ts)"

text \<open>What \<open>Enqueue\<close> writes into the task: a missing identifier and the time.\<close>

definition stamp :: "string \<Rightarrow> time \<Rightarrow> Task \<Rightarrow> Task" where
  "stamp fresh now task = task\<lparr> t_ID := (if t_ID task = '''' then fresh else t_ID task), t_CreatedAt := now \<rparr>"

definition Queue_Enqueue :: "string \<Rightarrow> time \<Rightarrow> Task \<Rightarrow> InMemoryQueue \<Rightarrow> string + InMemoryQueue" where
  "Queue_Enqueue fresh now task q =
     (if q_closed q then Inl ''queue is closed''
      else Inr (q\<lparr> q_tasks := insertTask (stamp fresh now task) (q_tasks q) \<rparr>))"

datatype 'q DequeueResult = Blocked | Refused string | Got Task 'q

definition Queue_Dequeue :: "time \<Rightarrow> InMemoryQueue \<Rightarrow> InMemoryQueue DequeueResult" where
  "Queue_Dequeue now q =
     (case q_tasks q of
        [] \<Rightarrow> if q_closed q then Refused ''queue is closed'' else Blocked
      | t # ts \<Rightarrow>
          (let task = t\<lparr> t_StartedAt := Some now \<rparr>
           in Got task (q\<lparr> q_tasks := ts, q_processing := (q_processing q)(t_ID t \<mapsto> task) \<rparr>)))"

definition Queue_Peek :: "InMemoryQueue \<Rightarrow> Task option" where
  "Queue_Peek q = (case q_tasks q of [] \<Rightarrow> None | t # _ \<Rightarrow> Some t)"

definition Queue_Ack :: "string \<Rightarrow> InMemoryQueue \<Rightarrow> InMemoryQueue" where
  "Queue_Ack taskID q = q\<lparr> q_processing := (q_processing q)(taskID := None) \<rparr>"

definition Queue_Nack :: "string \<Rightarrow> InMemoryQueue \<Rightarrow> string + InMemoryQueue" where
  "Queue_Nack taskID q =
     (case q_processing q taskID of
        None \<Rightarrow> Inl (''task '' @ taskID @ '' not found in processing'')
      | Some task \<Rightarrow>
          Inr (q\<lparr> q_processing := (q_processing q)(taskID := None),
                  q_tasks := q_tasks q @ [task\<lparr> t_RetryCount := t_RetryCount task + 1,
                                               t_Priority := t_Priority task - 1 \<rparr>] \<rparr>))"

definition Queue_Len :: "InMemoryQueue \<Rightarrow> int" where
  "Queue_Len q = int (length (q_tasks q))"

definition Queue_Close :: "InMemoryQueue \<Rightarrow> InMemoryQueue" where
  "Queue_Close q = q\<lparr> q_closed := True \<rparr>"

section \<open>The queue of levels\<close>

record PriorityQueue =
  pq_queues :: "int \<Rightarrow> InMemoryQueue option"
  pq_levels :: "int list"

definition NewPriorityQueue :: "int list \<Rightarrow> PriorityQueue" where
  "NewPriorityQueue levels =
     \<lparr> pq_queues = (\<lambda>l. if l \<in> set levels then Some NewInMemoryQueue else None), pq_levels = levels \<rparr>"

text \<open>
  The level the loop ends with: the last one the priority reaches, else the first. The code indexes
  \<open>levels[0]\<close>, which panics when there is no level; the invariant below excludes that.
\<close>

definition targetLevel :: "int list \<Rightarrow> int \<Rightarrow> int" where
  "targetLevel levels priority = foldl (\<lambda>acc level. if priority \<ge> level then level else acc) (hd levels) levels"

definition PQ_Enqueue :: "string \<Rightarrow> time \<Rightarrow> Task \<Rightarrow> PriorityQueue \<Rightarrow> string + PriorityQueue" where
  "PQ_Enqueue fresh now task pq =
     (let level = targetLevel (pq_levels pq) (t_Priority task)
      in case pq_queues pq level of
        None \<Rightarrow> Inl ''no queue for priority level''
      | Some q \<Rightarrow>
          (case Queue_Enqueue fresh now task q of
             Inl e \<Rightarrow> Inl e
           | Inr q' \<Rightarrow> Inr (pq\<lparr> pq_queues := (pq_queues pq)(level \<mapsto> q') \<rparr>)))"

text \<open>The queue of a level; \<open>NewPriorityQueue\<close> makes one for each.\<close>

definition levelQueue :: "PriorityQueue \<Rightarrow> int \<Rightarrow> InMemoryQueue" where
  "levelQueue pq l = (case pq_queues pq l of Some q \<Rightarrow> q | None \<Rightarrow> NewInMemoryQueue)"

text \<open>The loop from the last level to the first one: the first level with a task.\<close>

definition firstLevel :: "PriorityQueue \<Rightarrow> int option" where
  "firstLevel pq = find (\<lambda>l. Queue_Peek (levelQueue pq l) \<noteq> None) (rev (pq_levels pq))"

definition PQ_DequeueAt :: "time \<Rightarrow> int \<Rightarrow> PriorityQueue \<Rightarrow> PriorityQueue DequeueResult" where
  "PQ_DequeueAt now l pq =
     (case Queue_Dequeue now (levelQueue pq l) of
        Blocked \<Rightarrow> Blocked
      | Refused e \<Rightarrow> Refused e
      | Got t q \<Rightarrow> Got t (pq\<lparr> pq_queues := (pq_queues pq)(l \<mapsto> q) \<rparr>))"

definition PQ_Dequeue :: "time \<Rightarrow> PriorityQueue \<Rightarrow> PriorityQueue DequeueResult" where
  "PQ_Dequeue now pq =
     (case firstLevel pq of
        Some l \<Rightarrow> PQ_DequeueAt now l pq
      | None \<Rightarrow> PQ_DequeueAt now (hd (pq_levels pq)) pq)"

definition PQ_Peek :: "PriorityQueue \<Rightarrow> Task option" where
  "PQ_Peek pq = (case firstLevel pq of Some l \<Rightarrow> Queue_Peek (levelQueue pq l) | None \<Rightarrow> None)"

definition PQ_Ack :: "string \<Rightarrow> PriorityQueue \<Rightarrow> PriorityQueue" where
  "PQ_Ack taskID pq = pq\<lparr> pq_queues := (\<lambda>l. map_option (Queue_Ack taskID) (pq_queues pq l)) \<rparr>"

text \<open>\<open>Nack\<close> does nothing and returns nil.\<close>

definition PQ_Nack :: "string \<Rightarrow> PriorityQueue \<Rightarrow> string + PriorityQueue" where
  "PQ_Nack taskID pq = Inr pq"

text \<open>The loop ranges over the map of the queues, whose keys are the levels without repetition.\<close>

definition PQ_Len :: "PriorityQueue \<Rightarrow> int" where
  "PQ_Len pq = sum_list (map (\<lambda>l. Queue_Len (levelQueue pq l)) (remdups (pq_levels pq)))"

definition PQ_Close :: "PriorityQueue \<Rightarrow> PriorityQueue" where
  "PQ_Close pq = pq\<lparr> pq_queues := (\<lambda>l. map_option Queue_Close (pq_queues pq l)) \<rparr>"

section \<open>The interface\<close>

text \<open>
  What a client of \<open>TaskQueue\<close> may rely on: the identifiers waiting in the queue form a multiset that
  enqueueing adds to, dequeueing takes from, and \<open>Len\<close> counts; \<open>Peek\<close> announces the next \<open>Dequeue\<close>;
  and an open queue blocks only when it is empty.
\<close>

locale task_queue =
  fixes enq :: "string \<Rightarrow> time \<Rightarrow> Task \<Rightarrow> 'q \<Rightarrow> string + 'q"
    and deq :: "time \<Rightarrow> 'q \<Rightarrow> 'q DequeueResult"
    and peek :: "'q \<Rightarrow> Task option"
    and len :: "'q \<Rightarrow> int"
    and waiting :: "'q \<Rightarrow> string multiset"
    and good :: "'q \<Rightarrow> bool"
  assumes enq_waiting: "good q \<Longrightarrow> enq fresh now t q = Inr q' \<Longrightarrow>
      waiting q' = add_mset (t_ID (stamp fresh now t)) (waiting q) \<and> good q'"
    and deq_waiting: "good q \<Longrightarrow> deq now q = Got t q' \<Longrightarrow>
      waiting q = add_mset (t_ID t) (waiting q') \<and> good q'"
    and deq_empty: "good q \<Longrightarrow> waiting q = {#} \<longleftrightarrow> (\<nexists>t q'. deq now q = Got t q')"
    and peek_deq: "good q \<Longrightarrow> peek q = Some t \<Longrightarrow>
      \<exists>q'. deq now q = Got (t\<lparr> t_StartedAt := Some now \<rparr>) q'"
    and len_waiting: "good q \<Longrightarrow> len q = int (size (waiting q))"
begin

fun enqs :: "(string \<times> time \<times> Task) list \<Rightarrow> 'q \<Rightarrow> string + 'q" where
  "enqs [] q = Inr q"
| "enqs ((fresh, now, t) # ts) q = (case enq fresh now t q of Inl e \<Rightarrow> Inl e | Inr q' \<Rightarrow> enqs ts q')"

fun drain :: "nat \<Rightarrow> time \<Rightarrow> 'q \<Rightarrow> Task list" where
  "drain 0 now q = []"
| "drain (Suc n) now q = (case deq now q of Got t q' \<Rightarrow> t # drain n now q' | _ \<Rightarrow> [])"

lemma enqs_waiting:
  "good q \<Longrightarrow> enqs ts q = Inr q' \<Longrightarrow>
   waiting q' = waiting q + mset (map (\<lambda>(fresh, now, t). t_ID (stamp fresh now t)) ts) \<and> good q'"
proof (induction ts q arbitrary: q' rule: enqs.induct)
  case (2 fresh now t ts q)
  then obtain q1 where q1: "enq fresh now t q = Inr q1" "enqs ts q1 = Inr q'"
    by (auto split: sum.splits)
  then show ?case
    using 2 enq_waiting[OF 2(2) q1(1)] by auto
qed simp

lemma drain_waiting:
  "good q \<Longrightarrow> n = size (waiting q) \<Longrightarrow> mset (map t_ID (drain n now q)) = waiting q"
proof (induction n arbitrary: q)
  case (Suc n)
  then have "waiting q \<noteq> {#}"
    by auto
  then obtain t q' where d: "deq now q = Got t q'"
    using deq_empty[OF Suc(2)] by blast
  then show ?case
    using deq_waiting[OF Suc(2) d] Suc by auto
qed simp

lemma enq_len: "good q \<Longrightarrow> enq fresh now t q = Inr q' \<Longrightarrow> len q' = len q + 1"
  using enq_waiting len_waiting by fastforce

end

section \<open>The in-memory queue meets the interface\<close>

definition queue_waiting :: "InMemoryQueue \<Rightarrow> string multiset" where
  "queue_waiting q = mset (map t_ID (q_tasks q))"

lemma mset_insertTask [simp]: "mset (insertTask t ts) = add_mset t (mset ts)"
  by (induction ts) auto

lemma set_insertTask [simp]: "set (insertTask t ts) = insert t (set ts)"
  by (induction ts) auto

interpretation imq: task_queue Queue_Enqueue Queue_Dequeue Queue_Peek Queue_Len queue_waiting "\<lambda>_. True"
  by unfold_locales
     (auto simp: Queue_Enqueue_def Queue_Dequeue_def Queue_Peek_def Queue_Len_def queue_waiting_def Let_def
       split: if_splits list.splits)

section \<open>The queue of levels meets the interface\<close>

definition pq_good :: "PriorityQueue \<Rightarrow> bool" where
  "pq_good pq \<longleftrightarrow> pq_levels pq \<noteq> [] \<and> dom (pq_queues pq) = set (pq_levels pq)"

definition pq_waiting :: "PriorityQueue \<Rightarrow> string multiset" where
  "pq_waiting pq = (\<Sum>l\<in>set (pq_levels pq). queue_waiting (levelQueue pq l))"

lemma targetLevel_in: "levels \<noteq> [] \<Longrightarrow> targetLevel levels p \<in> set levels"
proof -
  have "foldl (\<lambda>acc level. if p \<ge> level then level else acc) a ls \<in> insert a (set ls)" for a ls
    by (induction ls arbitrary: a) (auto split: if_splits)
  then show "levels \<noteq> [] \<Longrightarrow> targetLevel levels p \<in> set levels"
    unfolding targetLevel_def by (metis insert_absorb list.set_sel(1))
qed

lemma levelQueue_upd [simp]:
  "levelQueue (pq\<lparr> pq_queues := (pq_queues pq)(l \<mapsto> q) \<rparr>) k = (if k = l then q else levelQueue pq k)"
  by (simp add: levelQueue_def)

lemma pq_waiting_split:
  "l \<in> set (pq_levels pq) \<Longrightarrow>
   pq_waiting pq = queue_waiting (levelQueue pq l) + (\<Sum>k\<in>set (pq_levels pq) - {l}. queue_waiting (levelQueue pq k))"
  unfolding pq_waiting_def by (simp add: sum.remove)

lemma pq_waiting_upd:
  "l \<in> set (pq_levels pq) \<Longrightarrow>
   pq_waiting (pq\<lparr> pq_queues := (pq_queues pq)(l \<mapsto> q) \<rparr>) =
     queue_waiting q + (\<Sum>k\<in>set (pq_levels pq) - {l}. queue_waiting (levelQueue pq k))"
  by (subst pq_waiting_split[of l]) (auto intro!: sum.cong)

lemma pq_good_upd:
  "pq_good pq \<Longrightarrow> l \<in> set (pq_levels pq) \<Longrightarrow> pq_good (pq\<lparr> pq_queues := (pq_queues pq)(l \<mapsto> q) \<rparr>)"
  by (auto simp: pq_good_def)

lemma Queue_Peek_None [simp]: "Queue_Peek q = None \<longleftrightarrow> q_tasks q = []"
  by (simp add: Queue_Peek_def split: list.split)

lemma firstLevel_Some:
  "firstLevel pq = Some l \<Longrightarrow> l \<in> set (pq_levels pq) \<and> q_tasks (levelQueue pq l) \<noteq> []"
  unfolding firstLevel_def by (drule find_SomeD) simp

lemma firstLevel_None:
  "firstLevel pq = None \<longleftrightarrow> (\<forall>l\<in>set (pq_levels pq). q_tasks (levelQueue pq l) = [])"
  by (auto simp: firstLevel_def find_None_iff)

definition nextLevel :: "PriorityQueue \<Rightarrow> int" where
  "nextLevel pq = (case firstLevel pq of Some l \<Rightarrow> l | None \<Rightarrow> hd (pq_levels pq))"

lemma nextLevel_in: "pq_good pq \<Longrightarrow> nextLevel pq \<in> set (pq_levels pq)"
  by (auto simp: nextLevel_def pq_good_def split: option.split dest: firstLevel_Some)

lemma PQ_Dequeue_eq: "PQ_Dequeue now pq = PQ_DequeueAt now (nextLevel pq) pq"
  by (simp add: PQ_Dequeue_def nextLevel_def split: option.split)

lemma pq_waiting_empty:
  "pq_waiting pq = {#} \<longleftrightarrow> firstLevel pq = None"
  by (simp add: pq_waiting_def firstLevel_None queue_waiting_def sum_mset_empty_iff)

lemma queue_waiting_deq:
  "Queue_Dequeue now q = Got t q' \<Longrightarrow> queue_waiting q = add_mset (t_ID t) (queue_waiting q')"
  by (auto simp: Queue_Dequeue_def queue_waiting_def Let_def split: list.splits if_splits)

interpretation pq: task_queue PQ_Enqueue PQ_Dequeue PQ_Peek PQ_Len pq_waiting pq_good
proof
  fix q q' :: PriorityQueue and fresh now t
  assume good: "pq_good q"
  show "PQ_Enqueue fresh now t q = Inr q' \<Longrightarrow>
      pq_waiting q' = add_mset (t_ID (stamp fresh now t)) (pq_waiting q) \<and> pq_good q'"
  proof -
    assume enq: "PQ_Enqueue fresh now t q = Inr q'"
    let ?l = "targetLevel (pq_levels q) (t_Priority t)"
    have l: "?l \<in> set (pq_levels q)"
      using good targetLevel_in by (auto simp: pq_good_def)
    then obtain q0 q1 where "pq_queues q ?l = Some q0" "Queue_Enqueue fresh now t q0 = Inr q1"
      "q' = q\<lparr> pq_queues := (pq_queues q)(?l \<mapsto> q1) \<rparr>"
      using enq by (auto simp: PQ_Enqueue_def Let_def split: option.splits sum.splits)
    then show ?thesis
      using l pq_good_upd[OF good l] pq_waiting_split[OF l] imq.enq_waiting[where q = q0 and q' = q1 and fresh = fresh and now = now and t = t]
      by (simp add: pq_waiting_upd levelQueue_def)
  qed
  note l = nextLevel_in[OF good]
  show "PQ_Dequeue now q = Got t q' \<Longrightarrow>
      pq_waiting q = add_mset (t_ID t) (pq_waiting q') \<and> pq_good q'"
    using pq_waiting_split[OF l] pq_good_upd[OF good l] l
    by (auto simp: PQ_Dequeue_eq PQ_DequeueAt_def pq_waiting_upd split: DequeueResult.splits
        dest: queue_waiting_deq)
  show "pq_waiting q = {#} \<longleftrightarrow> (\<nexists>t q'. PQ_Dequeue now q = Got t q')"
    using good by (auto simp: pq_waiting_empty PQ_Dequeue_def PQ_DequeueAt_def Queue_Dequeue_def Let_def
        firstLevel_None pq_good_def split: option.splits list.splits dest: firstLevel_Some)
  show "PQ_Peek q = Some t \<Longrightarrow> \<exists>q'. PQ_Dequeue now q = Got (t\<lparr> t_StartedAt := Some now \<rparr>) q'"
    by (auto simp: PQ_Peek_def PQ_Dequeue_def PQ_DequeueAt_def Queue_Dequeue_def Queue_Peek_def Let_def
        split: option.splits list.splits)
  show "PQ_Len q = int (size (pq_waiting q))"
    by (simp add: PQ_Len_def pq_waiting_def sum_list_distinct_conv_sum_set Queue_Len_def queue_waiting_def
        size_multiset_sum)
qed

section \<open>Order of the in-memory queue\<close>

abbreviation by_priority :: "Task \<Rightarrow> int" where
  "by_priority t \<equiv> - t_Priority t"

lemma insertTask_sorted: "sorted (map by_priority ts) \<Longrightarrow> sorted (map by_priority (insertTask t ts))"
  by (induction ts) auto

lemma insertTask_stable:
  "sorted (map by_priority ts) \<Longrightarrow>
   filter (\<lambda>x. by_priority x = k) (insertTask t ts) = filter (\<lambda>x. by_priority x = k) (ts @ [t])"
proof (induction ts)
  case (Cons a ts)
  show ?case
  proof (cases "t_Priority t > t_Priority a")
    case True
    then have "filter (\<lambda>x. by_priority x = by_priority t) (a # ts) = []"
      using Cons.prems by (auto simp: filter_empty_conv)
    then show ?thesis
      using True by (cases "k = by_priority t") auto
  next
    case False
    then show ?thesis
      using Cons by auto
  qed
qed simp

lemma enqs_tasks:
  assumes "imq.enqs ts q = Inr q'" and "sorted (map by_priority (q_tasks q))"
  shows "sorted (map by_priority (q_tasks q')) \<and>
    (\<forall>k. filter (\<lambda>x. by_priority x = k) (q_tasks q') =
       filter (\<lambda>x. by_priority x = k) (q_tasks q @ map (\<lambda>(fresh, now, t). stamp fresh now t) ts)) \<and>
    mset (q_tasks q') = mset (q_tasks q) + mset (map (\<lambda>(fresh, now, t). stamp fresh now t) ts)"
  using assms
proof (induction ts q arbitrary: q' rule: imq.enqs.induct)
  case (2 fresh now t ts q)
  then obtain q1 where q1: "Queue_Enqueue fresh now t q = Inr q1" "imq.enqs ts q1 = Inr q'"
    by (auto split: sum.splits)
  then have "q_tasks q1 = insertTask (stamp fresh now t) (q_tasks q)"
    by (auto simp: Queue_Enqueue_def split: if_splits)
  then show ?case
    using 2(1)[OF q1] insertTask_sorted[OF 2(3), of "stamp fresh now t"]
      insertTask_stable[OF 2(3), of _ "stamp fresh now t"]
    by simp
qed simp

section \<open>Properties\<close>

definition sample_task :: "string \<Rightarrow> int \<Rightarrow> Task" where
  "sample_task i p = \<lparr> t_ID = i, t_Type = TaskTypeNodeExecution, t_ExecutionID = '''', t_WorkflowID = '''',
     t_NodeID = '''', t_Workflow = None, t_Options = None, t_Priority = p, t_CreatedAt = 0,
     t_StartedAt = None, t_Timeout = 0, t_RetryCount = 0, t_MaxRetries = 3, t_Metadata = Map.empty \<rparr>"

text \<open>Enqueueing tasks into a new queue leaves them sorted by descending priority, and tasks of
  one priority in the order of their arrival: it is a stable sort.\<close>

theorem enqueue_stable_sort:
  assumes "imq.enqs ts NewInMemoryQueue = Inr q"
  shows "q_tasks q = sort_key by_priority (map (\<lambda>(fresh, now, t). stamp fresh now t) ts)"
proof -
  have "sorted (map by_priority (q_tasks NewInMemoryQueue))"
    by (simp add: NewInMemoryQueue_def)
  note E = enqs_tasks[OF assms this]
  show ?thesis
  proof (rule properties_for_sort_key[symmetric])
    show "mset (q_tasks q) = mset (map (\<lambda>(fresh, now, t). stamp fresh now t) ts)"
      using E by (simp add: NewInMemoryQueue_def)
    show "filter (\<lambda>x. by_priority k = by_priority x) (q_tasks q) =
        filter (\<lambda>x. by_priority k = by_priority x) (map (\<lambda>(fresh, now, t). stamp fresh now t) ts)" for k
    proof -
      have "\<forall>k. filter (\<lambda>x. by_priority x = k) (q_tasks q) =
          filter (\<lambda>x. by_priority x = k) (map (\<lambda>(fresh, now, t). stamp fresh now t) ts)"
        using E by (simp add: NewInMemoryQueue_def)
      from spec[OF this, of "by_priority k"] show ?thesis
        by (simp only: eq_commute[of "by_priority k"])
    qed
  qed (use E in blast)
qed

theorem enqueue_stable_sort_witness:
  "\<exists>q. imq.enqs [(''f'', 0, sample_task ''a'' 1), (''f'', 1, sample_task ''b'' 5), (''f'', 2, sample_task ''c'' 1)]
     NewInMemoryQueue = Inr q \<and> map t_ID (q_tasks q) = [''b'', ''a'', ''c'']"
proof -
  obtain q where q: "imq.enqs [(''f'', 0, sample_task ''a'' 1), (''f'', 1, sample_task ''b'' 5),
      (''f'', 2, sample_task ''c'' 1)] NewInMemoryQueue = Inr q"
    by (simp add: Queue_Enqueue_def NewInMemoryQueue_def)
  then show ?thesis
    using enqueue_stable_sort[OF q] by (simp add: stamp_def sample_task_def)
qed

text \<open>\<open>Nack\<close> puts the task behind everything that waits, so the queue stays ordered by priority
  only when nothing in it is below the task's lowered priority.\<close>

theorem Nack_order:
  assumes "Queue_Nack i q = Inr q'" and "q_processing q i = Some task"
  shows "sorted (map by_priority (q_tasks q')) \<longleftrightarrow>
    sorted (map by_priority (q_tasks q)) \<and> (\<forall>t\<in>set (q_tasks q). t_Priority task - 1 \<le> t_Priority t)"
proof -
  have "(\<forall>t\<in>set (q_tasks q). by_priority t \<le> 1 - t_Priority task) \<longleftrightarrow>
      (\<forall>t\<in>set (q_tasks q). t_Priority task - 1 \<le> t_Priority t)"
    by (intro ball_cong) auto
  then show ?thesis
    using assms by (auto simp: Queue_Nack_def sorted_append)
qed

theorem Nack_order_witness:
  "\<exists>q'. Queue_Nack ''a'' \<lparr> q_tasks = [sample_task ''b'' 1], q_processing = [''a'' \<mapsto> sample_task ''a'' 9],
     q_closed = False \<rparr> = Inr q' \<and> \<not> sorted (map by_priority (q_tasks q'))"
proof -
  let ?q = "\<lparr> q_tasks = [sample_task ''b'' 1], q_processing = [''a'' \<mapsto> sample_task ''a'' 9],
     q_closed = False \<rparr>"
  obtain q' where "Queue_Nack ''a'' ?q = Inr q'"
    by (simp add: Queue_Nack_def)
  then show ?thesis
    using Nack_order[of "''a''" ?q q' "sample_task ''a'' 9"] by (auto simp: sample_task_def)
qed

text \<open>Whatever is enqueued into an empty queue of levels is dequeued again, each task once: the
  identifiers that come out are those that went in.\<close>

theorem priority_queue_conserves:
  assumes "pq.enqs ts (NewPriorityQueue levels) = Inr q" and "levels \<noteq> []"
  shows "mset (map t_ID (pq.drain (length ts) now q)) =
    mset (map (\<lambda>(fresh, tm, t). t_ID (stamp fresh tm t)) ts)"
proof -
  have good: "pq_good (NewPriorityQueue levels)"
    using assms(2) by (auto simp: pq_good_def NewPriorityQueue_def split: if_splits)
  have "pq_waiting (NewPriorityQueue levels) = {#}"
    by (auto simp: pq_waiting_def NewPriorityQueue_def levelQueue_def queue_waiting_def NewInMemoryQueue_def)
  then have w: "pq_waiting q = mset (map (\<lambda>(fresh, tm, t). t_ID (stamp fresh tm t)) ts)" "pq_good q"
    using pq.enqs_waiting[OF good assms(1)] by auto
  then have "size (pq_waiting q) = length ts"
    by simp
  then show ?thesis
    using pq.drain_waiting[OF w(2), of "length ts" now] w(1) by simp
qed

theorem priority_queue_conserves_witness:
  "\<exists>q. pq.enqs [(''f'', 0, sample_task ''a'' 1), (''f'', 1, sample_task ''b'' 12)] (NewPriorityQueue [0, 10]) = Inr q \<and>
     mset (map t_ID (pq.drain 2 7 q)) = {# ''a'', ''b'' #}"
proof -
  let ?ts = "[(''f'', 0 :: time, sample_task ''a'' 1), (''f'', 1, sample_task ''b'' 12)]"
  obtain q where q: "pq.enqs ?ts (NewPriorityQueue [0, 10]) = Inr q"
    by (simp add: PQ_Enqueue_def Let_def targetLevel_def NewPriorityQueue_def Queue_Enqueue_def
        NewInMemoryQueue_def sample_task_def)
  have "mset (map t_ID (pq.drain (length ?ts) 7 q)) =
      mset (map (\<lambda>(fresh, tm, t). t_ID (stamp fresh tm t)) ?ts)"
    by (rule priority_queue_conserves[OF q]) simp
  moreover have "length ?ts = 2" by simp
  moreover have "mset (map (\<lambda>(fresh, tm, t). t_ID (stamp fresh tm t)) ?ts) = {# ''a'', ''b'' #}"
    by (simp add: stamp_def sample_task_def)
  ultimately show ?thesis
    using q by metis
qed

text \<open>A task taken from the in-memory queue and given back with \<open>Nack\<close> waits again; taken from the
  queue of levels, \<open>Nack\<close> reports success and the task is gone.\<close>

theorem Nack_requeues_or_loses:
  assumes "Queue_Dequeue now q = Got t q1"
    and "pq_good p" and "PQ_Dequeue now p = Got u p1"
  shows "(\<exists>q2. Queue_Nack (t_ID t) q1 = Inr q2 \<and> queue_waiting q2 = queue_waiting q) \<and>
    (\<exists>p2. PQ_Nack (t_ID u) p1 = Inr p2 \<and> pq_waiting p2 = pq_waiting p - {# t_ID u #})"
proof
  show "\<exists>q2. Queue_Nack (t_ID t) q1 = Inr q2 \<and> queue_waiting q2 = queue_waiting q"
    using assms(1) by (auto simp: Queue_Dequeue_def Queue_Nack_def queue_waiting_def Let_def split: list.splits if_splits)
  show "\<exists>p2. PQ_Nack (t_ID u) p1 = Inr p2 \<and> pq_waiting p2 = pq_waiting p - {# t_ID u #}"
    using pq.deq_waiting[OF assms(2,3)] by (simp add: PQ_Nack_def)
qed

theorem Nack_requeues_or_loses_witness:
  "\<exists>p1 p2. PQ_Dequeue 5 (NewPriorityQueue [0] \<lparr> pq_queues := [0 \<mapsto> NewInMemoryQueue \<lparr> q_tasks := [sample_task ''a'' 1] \<rparr>] \<rparr>) =
     Got (sample_task ''a'' 1 \<lparr> t_StartedAt := Some 5 \<rparr>) p1 \<and> PQ_Nack ''a'' p1 = Inr p2 \<and> pq_waiting p2 = {#}"
proof -
  let ?q = "NewInMemoryQueue \<lparr> q_tasks := [sample_task ''a'' 1] \<rparr>"
  let ?p = "NewPriorityQueue [0] \<lparr> pq_queues := [0 \<mapsto> ?q] \<rparr>"
  obtain q1 where q1: "Queue_Dequeue 5 ?q = Got (sample_task ''a'' 1 \<lparr> t_StartedAt := Some 5 \<rparr>) q1"
    by (simp add: Queue_Dequeue_def Let_def)
  have good: "pq_good ?p"
    by (simp add: pq_good_def NewPriorityQueue_def)
  obtain p1 where p1: "PQ_Dequeue 5 ?p = Got (sample_task ''a'' 1 \<lparr> t_StartedAt := Some 5 \<rparr>) p1"
    using q1 by (simp add: PQ_Dequeue_def firstLevel_def NewPriorityQueue_def levelQueue_def PQ_DequeueAt_def)
  have "pq_waiting ?p = {# ''a'' #}"
    by (simp add: pq_waiting_def NewPriorityQueue_def levelQueue_def queue_waiting_def sample_task_def)
  then show ?thesis
    using Nack_requeues_or_loses[OF q1 good p1] p1 by (auto simp: sample_task_def)
qed

text \<open>A \<open>Dequeue\<close> of the queue of levels that waits does so on the first level only: enqueueing a
  task at any other level leaves the condition it waits for false, though the task is the next one.\<close>

theorem blocked_dequeue_not_woken:
  assumes "pq_good p" and "PQ_Dequeue now p = Blocked"
    and "PQ_Enqueue fresh tm t p = Inr p'"
    and "targetLevel (pq_levels p) (t_Priority t) \<noteq> hd (pq_levels p)"
  shows "Queue_Dequeue now' (levelQueue p' (hd (pq_levels p))) = Blocked \<and> PQ_Peek p' = Some (stamp fresh tm t)"
proof -
  let ?l = "targetLevel (pq_levels p) (t_Priority t)"
  have l: "?l \<in> set (pq_levels p)"
    using assms(1) targetLevel_in by (auto simp: pq_good_def)
  have none: "firstLevel p = None"
    using assms(2) firstLevel_Some[of p]
    by (auto simp: PQ_Dequeue_def PQ_DequeueAt_def Queue_Dequeue_def Let_def
        split: option.splits list.splits if_splits DequeueResult.splits)
  then have empty: "q_tasks (levelQueue p k) = []" if "k \<in> set (pq_levels p)" for k
    using that by (simp add: firstLevel_None)
  obtain q0 where q0: "pq_queues p ?l = Some q0" "\<not> q_closed q0"
    "p' = p\<lparr> pq_queues := (pq_queues p)(?l \<mapsto> q0\<lparr> q_tasks := insertTask (stamp fresh tm t) (q_tasks q0) \<rparr>) \<rparr>"
    using assms(3) by (auto simp: PQ_Enqueue_def Queue_Enqueue_def Let_def split: option.splits if_splits)
  have tasks: "q_tasks (levelQueue p' k) = (if k = ?l then [stamp fresh tm t] else [])" if "k \<in> set (pq_levels p)" for k
    using empty[OF that] empty[OF l] q0 by (auto simp: levelQueue_def)
  have "firstLevel p' = Some ?l"
  proof -
    have "firstLevel p' \<noteq> None"
      using tasks[OF l] l by (auto simp: firstLevel_None q0(3))
    then obtain k where k: "firstLevel p' = Some k" by blast
    then have "k \<in> set (pq_levels p)" "q_tasks (levelQueue p' k) \<noteq> []"
      using firstLevel_Some[OF k] by (auto simp: q0(3))
    then show ?thesis
      using tasks k by (auto split: if_splits)
  qed
  then have "PQ_Peek p' = Some (stamp fresh tm t)"
    using tasks[OF l] by (simp add: PQ_Peek_def Queue_Peek_def)
  moreover have "Queue_Dequeue now (levelQueue p (hd (pq_levels p))) = Blocked"
    using assms(2) none by (auto simp: PQ_Dequeue_def PQ_DequeueAt_def split: DequeueResult.splits)
  then have "Queue_Dequeue now' (levelQueue p' (hd (pq_levels p))) = Blocked"
    using assms(4) q0(3) by (auto simp: Queue_Dequeue_def Let_def split: list.splits if_splits)
  ultimately show ?thesis
    by simp
qed

theorem blocked_dequeue_not_woken_witness:
  "\<exists>p'. PQ_Enqueue ''f'' 1 (sample_task ''a'' 12) (NewPriorityQueue [0, 10]) = Inr p' \<and>
     Queue_Dequeue 2 (levelQueue p' 0) = Blocked \<and> PQ_Peek p' \<noteq> None"
proof -
  let ?p = "NewPriorityQueue [0, 10]"
  obtain p' where p': "PQ_Enqueue ''f'' 1 (sample_task ''a'' 12) ?p = Inr p'"
    by (simp add: PQ_Enqueue_def Let_def targetLevel_def NewPriorityQueue_def Queue_Enqueue_def
        NewInMemoryQueue_def sample_task_def)
  have "pq_good ?p"
    by (auto simp: pq_good_def NewPriorityQueue_def split: if_splits)
  moreover have "PQ_Dequeue 0 ?p = Blocked"
    by (simp add: PQ_Dequeue_def firstLevel_def NewPriorityQueue_def levelQueue_def NewInMemoryQueue_def
        PQ_DequeueAt_def Queue_Dequeue_def)
  ultimately show ?thesis
    using blocked_dequeue_not_woken[OF _ _ p', of 0 2] p'
    by (auto simp: targetLevel_def NewPriorityQueue_def sample_task_def)
qed

end
