(* ===== verification/Worker_Pool.thy ===== *)
theory Worker_Pool
  imports Task_Queue
begin

text \<open>
  The worker pool of \<open>internal/engine/worker.go\<close>: workers in goroutines that take tasks from a
  buffered channel, run them, and resubmit what failed after a pause. Every goroutine and every caller is a thread: the list
  of the atomic actions it has still to do. An action is one operation that other threads can see: an atomic change of a
  counter, an operation on a channel, a section under the mutex, a write to a worker. A step performs the first action of
  one thread; what the action leads to is put in its place. So the threads interleave after every action, and the properties
  of the pool are invariants of its reachable states. What the environment decides in a step (the branch of a select, the
  clock, an identifier, the outcome of a run of the engine) is a record \<open>Choice\<close>. A send on a closed channel and the closing
  of a closed channel panic, which ends the process: that is the state \<open>wp_panicked\<close>.
\<close>

section \<open>State\<close>

datatype WorkerStatus = WorkerStatusIdle | WorkerStatusBusy | WorkerStatusStopped

record Worker =
  wk_ID :: string
  wk_Status :: WorkerStatus
  wk_CurrentTask :: "Task option"
  wk_TasksHandled :: int
  wk_StartedAt :: time
  wk_LastActiveAt :: time

datatype TaskStatus =
    TaskStatusPending
  | TaskStatusRunning
  | TaskStatusCompleted
  | TaskStatusFailed
  | TaskStatusCancelled
  | TaskStatusRetrying

record PoolLogEntry =
  pg_Level :: string
  pg_Message :: string
  pg_Timestamp :: int
  pg_TaskID :: string
  pg_WorkerID :: string

record TaskResult =
  tr_TaskID :: string
  tr_ExecutionID :: string
  tr_Status :: TaskStatus
  tr_Output :: "dict option"
  tr_Error :: "string option"
  tr_StartedAt :: time
  tr_CompletedAt :: time
  tr_WorkerID :: string
  tr_Logs :: "PoolLogEntry list"

record PoolMetrics =
  pm_TotalTasks :: int
  pm_CompletedTasks :: int
  pm_FailedTasks :: int
  pm_ActiveTasks :: int
  pm_QueuedTasks :: int
  pm_TotalWorkers :: int
  pm_ActiveWorkers :: int
  pm_IdleWorkers :: int

record PoolConfig =
  pc_MaxWorkers :: int
  pc_QueueSize :: int
  pc_TaskTimeout :: duration
  pc_IdleTimeout :: duration
  pc_ScaleUpDelay :: duration
  pc_ScaleDownDelay :: duration

definition DefaultPoolConfig :: PoolConfig where
  "DefaultPoolConfig = \<lparr> pc_MaxWorkers = 10, pc_QueueSize = 1000, pc_TaskTimeout = 5 * Minute,
     pc_IdleTimeout = 30 * Second, pc_ScaleUpDelay = 5 * Second, pc_ScaleDownDelay = 30 * Second \<rparr>"


text \<open>The counters: those of the metrics, and \<open>activeWorkers\<close> of the pool.\<close>

datatype counter =
    TotalTasks
  | CompletedTasks
  | FailedTasks
  | ActiveTasks
  | QueuedTasks
  | TotalWorkers
  | ActiveWorkers
  | IdleWorkers
  | PoolActiveWorkers

text \<open>
  The actions. \<open>SelectTask i\<close> is the select of the worker \<open>i\<close>, \<open>RunTask\<close> the run of a task by \<open>executeTask\<close>,
  \<open>SelectResult\<close> that of \<open>processResults\<close>, \<open>AwaitTick\<close> that of \<open>collectMetrics\<close>; \<open>ScanIdle\<close> and \<open>DownAt\<close> are the
  rounds of the loops over the workers of \<open>collectMetrics\<close> and \<open>ScaleDown\<close>, under the mutex.
\<close>

datatype act =
    AddCounter counter int
  | StoreIdle int
  | AppendWorker string time
  | UnlockPool
  | LaunchResults
  | LaunchMetrics
  | LaunchRetry Task
  | CountWorkers int "nat \<Rightarrow> string \<times> time"
  | LockForDown int
  | DownAt nat int
  | SendTask Task
  | SelectTask nat
  | MarkBusy nat Task time
  | RunTask nat Task
  | SendResult TaskResult
  | MarkIdle nat
  | MarkStopped nat
  | SelectResult
  | AwaitTick
  | LockForScan
  | ScanIdle nat int
  | CancelPool
  | CloseTasks
  | CloseResults

record Choice =
  cc_done :: bool
  cc_fresh :: string
  cc_now :: time
  cc_later :: time
  cc_outcome :: "string + dict"

record WorkerPool =
  wp_workers :: "Worker list"
  wp_threads :: "act list list"
  wp_taskQueue :: "Task list"
  wp_resultQueue :: "TaskResult list"
  wp_queueSize :: int
  wp_tasksClosed :: bool
  wp_resultsClosed :: bool
  wp_maxWorkers :: int
  wp_activeWorkers :: int
  wp_locked :: bool
  wp_readers :: nat
  wp_cancelled :: bool
  wp_metrics :: PoolMetrics
  wp_panicked :: bool

text \<open>A negative capacity of a channel or of the slice of workers panics.\<close>

definition NewWorkerPool :: "PoolConfig option \<Rightarrow> WorkerPool" where
  "NewWorkerPool config =
     (let c = (case config of None \<Rightarrow> DefaultPoolConfig | Some c \<Rightarrow> c)
      in \<lparr> wp_workers = [], wp_threads = [], wp_taskQueue = [], wp_resultQueue = [],
           wp_queueSize = pc_QueueSize c, wp_tasksClosed = False, wp_resultsClosed = False, wp_maxWorkers = pc_MaxWorkers c,
           wp_activeWorkers = 0, wp_locked = False, wp_readers = 0, wp_cancelled = False,
           wp_metrics = \<lparr> pm_TotalTasks = 0, pm_CompletedTasks = 0, pm_FailedTasks = 0, pm_ActiveTasks = 0,
             pm_QueuedTasks = 0, pm_TotalWorkers = 0, pm_ActiveWorkers = 0, pm_IdleWorkers = 0 \<rparr>,
           wp_panicked = (pc_QueueSize c < 0 \<or> pc_MaxWorkers c < 0) \<rparr>)"

section \<open>The calls\<close>

text \<open>What a call does, as a thread.\<close>

definition addWorker :: "string \<Rightarrow> time \<Rightarrow> act list" where
  "addWorker fresh now = [AppendWorker fresh now]"

definition addWorkers :: "int \<Rightarrow> (nat \<Rightarrow> string \<times> time) \<Rightarrow> act list" where
  "addWorkers n fresh = concat (map (\<lambda>k. addWorker (fst (fresh k)) (snd (fresh k))) [0 ..< nat n])"

definition Pool_Start :: "int \<Rightarrow> (nat \<Rightarrow> string \<times> time) \<Rightarrow> WorkerPool \<Rightarrow> act list" where
  "Pool_Start numWorkers fresh p =
     (let n = (if numWorkers > wp_maxWorkers p then wp_maxWorkers p else numWorkers)
      in addWorkers n fresh @ [LaunchResults, LaunchMetrics])"

text \<open>The goroutines beside the workers: both are loops, which stand at their select.\<close>

definition processResults :: "act list" where
  "processResults = [SelectResult]"

definition collectMetrics :: "act list" where
  "collectMetrics = [AwaitTick]"

text \<open>\<open>Stop\<close> waits for the workers, but at most thirty seconds: the wait may end at any time.\<close>

definition Pool_Stop :: "act list" where
  "Pool_Stop = [CancelPool, CloseTasks, CloseResults]"

definition Pool_Submit :: "Task \<Rightarrow> act list" where
  "Pool_Submit task = [SendTask task]"

definition workflowTask :: "string \<Rightarrow> string \<Rightarrow> WorkflowDef \<Rightarrow> ExecutionOptions \<Rightarrow> Task" where
  "workflowTask executionID i wfl options =
     \<lparr> t_ID = i, t_Type = TaskTypeWorkflowExecution, t_ExecutionID = executionID, t_WorkflowID = wd_ID wfl,
       t_NodeID = '''', t_Workflow = Some wfl, t_Options = Some options, t_Priority = 5, t_CreatedAt = 0,
       t_StartedAt = None, t_Timeout = 5 * Minute, t_RetryCount = 0, t_MaxRetries = 3, t_Metadata = Map.empty \<rparr>"

definition SubmitWorkflow :: "string \<Rightarrow> string \<Rightarrow> WorkflowDef \<Rightarrow> ExecutionOptions \<Rightarrow> act list" where
  "SubmitWorkflow executionID i wfl options = Pool_Submit (workflowTask executionID i wfl options)"

definition ScaleUp :: "int \<Rightarrow> (nat \<Rightarrow> string \<times> time) \<Rightarrow> act list" where
  "ScaleUp cnt fresh = [CountWorkers cnt fresh]"

definition ScaleDown :: "int \<Rightarrow> act list" where
  "ScaleDown cnt = [LockForDown cnt]"

datatype pool_call =
    CallStart int "nat \<Rightarrow> string \<times> time"
  | CallStop
  | CallSubmit Task
  | CallSubmitWorkflow string string WorkflowDef ExecutionOptions
  | CallScaleUp int "nat \<Rightarrow> string \<times> time"
  | CallScaleDown int

fun callActs :: "pool_call \<Rightarrow> WorkerPool \<Rightarrow> act list" where
  "callActs (CallStart n fresh) p = Pool_Start n fresh p"
| "callActs CallStop p = Pool_Stop"
| "callActs (CallSubmit task) p = Pool_Submit task"
| "callActs (CallSubmitWorkflow executionID i wfl options) p = SubmitWorkflow executionID i wfl options"
| "callActs (CallScaleUp n fresh) p = ScaleUp n fresh"
| "callActs (CallScaleDown n) p = ScaleDown n"

section \<open>The run of a task\<close>

text \<open>
  The dispatch of \<open>executeTask\<close>: only workflow executions can succeed; \<open>engineOutcome\<close> is what
  \<open>Engine.Execute\<close> gave.
\<close>

definition taskOutcome :: "Task \<Rightarrow> string + dict \<Rightarrow> string + dict" where
  "taskOutcome t engineOutcome =
     (case t_Type t of
        TaskTypeWorkflowExecution \<Rightarrow> engineOutcome
      | TaskTypeNodeExecution \<Rightarrow> Inl ''node execution not implemented''
      | _ \<Rightarrow> Inl ''unknown task type'')"

fun statusName :: "TaskStatus \<Rightarrow> string" where
  "statusName TaskStatusPending = ''pending''"
| "statusName TaskStatusRunning = ''running''"
| "statusName TaskStatusCompleted = ''completed''"
| "statusName TaskStatusFailed = ''failed''"
| "statusName TaskStatusCancelled = ''cancelled''"
| "statusName TaskStatusRetrying = ''retrying''"

definition taskLog :: "string \<Rightarrow> Task \<Rightarrow> Worker \<Rightarrow> int \<Rightarrow> PoolLogEntry" where
  "taskLog msg t w ts = \<lparr> pg_Level = ''info'', pg_Message = ''Task '' @ t_ID t @ msg, pg_Timestamp = ts,
     pg_TaskID = t_ID t, pg_WorkerID = wk_ID w \<rparr>"

definition retries :: "Task \<Rightarrow> string + dict \<Rightarrow> bool" where
  "retries t out = (case out of Inl _ \<Rightarrow> t_RetryCount t < t_MaxRetries t | Inr _ \<Rightarrow> False)"

definition resultStatus :: "Task \<Rightarrow> string + dict \<Rightarrow> TaskStatus" where
  "resultStatus t out =
     (case out of
        Inr _ \<Rightarrow> TaskStatusCompleted
      | Inl _ \<Rightarrow> if t_RetryCount t < t_MaxRetries t then TaskStatusRetrying else TaskStatusFailed)"

definition taskResult :: "Task \<Rightarrow> Worker \<Rightarrow> string + dict \<Rightarrow> time \<Rightarrow> TaskResult" where
  "taskResult t w out now =
     \<lparr> tr_TaskID = t_ID t, tr_ExecutionID = t_ExecutionID t,
       tr_Status = resultStatus t out,
       tr_Output = (case out of Inr d \<Rightarrow> Some d | Inl _ \<Rightarrow> None),
       tr_Error = (case out of Inr _ \<Rightarrow> None | Inl e \<Rightarrow> Some e),
       tr_StartedAt = the (t_StartedAt t), tr_CompletedAt = now, tr_WorkerID = wk_ID w,
       tr_Logs = [taskLog ('' started by worker '' @ wk_ID w) t w now,
         taskLog ('' completed with status '' @ statusName (resultStatus t out)) t w now] \<rparr>"

text \<open>\<open>runWorker\<close> once it has received a task.\<close>

definition receivedActs :: "nat \<Rightarrow> time \<Rightarrow> Task \<Rightarrow> act list" where
  "receivedActs i now t =
     [MarkBusy i t now, AddCounter PoolActiveWorkers 1, AddCounter IdleWorkers (- 1), AddCounter ActiveWorkers 1,
      AddCounter QueuedTasks (- 1), AddCounter ActiveTasks 1, RunTask i t]"

text \<open>The end of \<open>executeTask\<close> and the rest of \<open>runWorker\<close>, up to the next select.\<close>

definition finishedActs :: "nat \<Rightarrow> time \<Rightarrow> Task \<Rightarrow> Worker \<Rightarrow> string + dict \<Rightarrow> act list" where
  "finishedActs i now t w out =
     (if retries t out then [LaunchRetry (t\<lparr> t_RetryCount := t_RetryCount t + 1 \<rparr>)] else []) @
     [AddCounter (case out of Inl _ \<Rightarrow> FailedTasks | Inr _ \<Rightarrow> CompletedTasks) 1, SendResult (taskResult t w out now), MarkIdle i,
      AddCounter PoolActiveWorkers (- 1), AddCounter IdleWorkers 1, AddCounter ActiveWorkers (- 1), AddCounter ActiveTasks (- 1),
      SelectTask i]"

text \<open>The return of \<open>runWorker\<close>: its deferred function.\<close>

definition exitActs :: "nat \<Rightarrow> act list" where
  "exitActs i = [MarkStopped i, AddCounter TotalWorkers (- 1)]"

section \<open>The actions\<close>

fun addCounter :: "counter \<Rightarrow> int \<Rightarrow> WorkerPool \<Rightarrow> WorkerPool" where
  "addCounter TotalTasks d p = p\<lparr> wp_metrics := (wp_metrics p)\<lparr> pm_TotalTasks := pm_TotalTasks (wp_metrics p) + d \<rparr> \<rparr>"
| "addCounter CompletedTasks d p = p\<lparr> wp_metrics := (wp_metrics p)\<lparr> pm_CompletedTasks := pm_CompletedTasks (wp_metrics p) + d \<rparr> \<rparr>"
| "addCounter FailedTasks d p = p\<lparr> wp_metrics := (wp_metrics p)\<lparr> pm_FailedTasks := pm_FailedTasks (wp_metrics p) + d \<rparr> \<rparr>"
| "addCounter ActiveTasks d p = p\<lparr> wp_metrics := (wp_metrics p)\<lparr> pm_ActiveTasks := pm_ActiveTasks (wp_metrics p) + d \<rparr> \<rparr>"
| "addCounter QueuedTasks d p = p\<lparr> wp_metrics := (wp_metrics p)\<lparr> pm_QueuedTasks := pm_QueuedTasks (wp_metrics p) + d \<rparr> \<rparr>"
| "addCounter TotalWorkers d p = p\<lparr> wp_metrics := (wp_metrics p)\<lparr> pm_TotalWorkers := pm_TotalWorkers (wp_metrics p) + d \<rparr> \<rparr>"
| "addCounter ActiveWorkers d p = p\<lparr> wp_metrics := (wp_metrics p)\<lparr> pm_ActiveWorkers := pm_ActiveWorkers (wp_metrics p) + d \<rparr> \<rparr>"
| "addCounter IdleWorkers d p = p\<lparr> wp_metrics := (wp_metrics p)\<lparr> pm_IdleWorkers := pm_IdleWorkers (wp_metrics p) + d \<rparr> \<rparr>"
| "addCounter PoolActiveWorkers d p = p\<lparr> wp_activeWorkers := wp_activeWorkers p + d \<rparr>"

definition setWorker :: "nat \<Rightarrow> (Worker \<Rightarrow> Worker) \<Rightarrow> WorkerPool \<Rightarrow> WorkerPool" where
  "setWorker i f p = p\<lparr> wp_workers := (wp_workers p)[i := f (wp_workers p ! i)] \<rparr>"

definition panic :: "WorkerPool \<Rightarrow> WorkerPool" where
  "panic p = p\<lparr> wp_panicked := True \<rparr>"

definition lockedOut :: "WorkerPool \<Rightarrow> bool" where
  "lockedOut p \<longleftrightarrow> wp_locked p \<or> 0 < wp_readers p"

text \<open>
  One action: what takes its place in the thread, the threads it launches, and the pool after it; None if it has to wait. A
  select whose context is done may take that branch or another that is ready: \<open>cc_done\<close> is the branch.
\<close>

fun runAct :: "Choice \<Rightarrow> act \<Rightarrow> WorkerPool \<Rightarrow> (act list \<times> act list list \<times> WorkerPool) option" where
  "runAct ch (AddCounter c d) p = Some ([], [], addCounter c d p)"
| "runAct ch (StoreIdle n) p = Some ([], [], p\<lparr> wp_metrics := (wp_metrics p)\<lparr> pm_IdleWorkers := n \<rparr> \<rparr>)"
| "runAct ch (AppendWorker fresh now) p =
     (if lockedOut p then None
      else Some ([AddCounter TotalWorkers 1, AddCounter IdleWorkers 1, UnlockPool], [[SelectTask (length (wp_workers p))]],
        p\<lparr> wp_locked := True, wp_workers := wp_workers p @ [\<lparr> wk_ID = fresh, wk_Status = WorkerStatusIdle,
             wk_CurrentTask = None, wk_TasksHandled = 0, wk_StartedAt = now, wk_LastActiveAt = 0 \<rparr>] \<rparr>))"
| "runAct ch UnlockPool p = Some ([], [], p\<lparr> wp_locked := False \<rparr>)"
| "runAct ch LaunchResults p = Some ([], [processResults], p)"
| "runAct ch LaunchMetrics p = Some ([], [collectMetrics], p)"
| "runAct ch (LaunchRetry t) p = Some ([], [Pool_Submit t], p)"
| "runAct ch (CountWorkers cnt fresh) p =
     (if lockedOut p then None
      else
        let currentCount = int (length (wp_workers p));
            toAdd = (if currentCount + cnt > wp_maxWorkers p then wp_maxWorkers p - currentCount else cnt)
        in Some (addWorkers toAdd fresh, [], p))"
| "runAct ch (LockForDown cnt) p =
     (if lockedOut p then None else Some ([DownAt (length (wp_workers p)) cnt], [], p\<lparr> wp_locked := True \<rparr>))"
| "runAct ch (DownAt k left) p =
     (if k = 0 \<or> left \<le> 0 then Some ([UnlockPool], [], p)
      else if wk_Status (wp_workers p ! (k - 1)) = WorkerStatusIdle
        then Some ([DownAt (k - 1) (left - 1)], [], setWorker (k - 1) (\<lambda>w. w\<lparr> wk_Status := WorkerStatusStopped \<rparr>) p)
      else Some ([DownAt (k - 1) left], [], p))"
| "runAct ch (SendTask t) p =
     (if wp_tasksClosed p then Some ([], [], panic p)
      else if int (length (wp_taskQueue p)) < wp_queueSize p
        then Some ([AddCounter TotalTasks 1, AddCounter QueuedTasks 1], [],
          p\<lparr> wp_taskQueue := wp_taskQueue p @ [stamp (cc_fresh ch) (cc_now ch) t] \<rparr>)
      else Some ([], [], p))"
| "runAct ch (SelectTask i) p =
     (if cc_done ch then (if wp_cancelled p then Some (exitActs i, [], p) else None)
      else (case wp_taskQueue p of
          t # ts \<Rightarrow> Some (receivedActs i (cc_now ch) t, [], p\<lparr> wp_taskQueue := ts \<rparr>)
        | [] \<Rightarrow> if wp_tasksClosed p then Some (exitActs i, [], p) else None))"
| "runAct ch (MarkBusy i t now) p =
     Some ([], [], setWorker i (\<lambda>w. w\<lparr> wk_Status := WorkerStatusBusy, wk_CurrentTask := Some t, wk_LastActiveAt := now \<rparr>) p)"
| "runAct ch (RunTask i t) p =
     Some (finishedActs i (cc_later ch) (t\<lparr> t_StartedAt := Some (cc_now ch) \<rparr>) (wp_workers p ! i) (taskOutcome t (cc_outcome ch)),
       [], p)"
| "runAct ch (SendResult r) p =
     (if wp_resultsClosed p then Some ([], [], panic p)
      else if int (length (wp_resultQueue p)) < wp_queueSize p
        then Some ([], [], p\<lparr> wp_resultQueue := wp_resultQueue p @ [r] \<rparr>)
      else Some ([], [], p))"
| "runAct ch (MarkIdle i) p =
     Some ([], [], setWorker i (\<lambda>w. w\<lparr> wk_Status := WorkerStatusIdle, wk_CurrentTask := None,
       wk_TasksHandled := wk_TasksHandled w + 1 \<rparr>) p)"
| "runAct ch (MarkStopped i) p = Some ([], [], setWorker i (\<lambda>w. w\<lparr> wk_Status := WorkerStatusStopped \<rparr>) p)"
| "runAct ch SelectResult p =
     (if cc_done ch then (if wp_cancelled p then Some ([], [], p) else None)
      else (case wp_resultQueue p of
          r # rs \<Rightarrow> Some (processResults, [], p\<lparr> wp_resultQueue := rs \<rparr>)
        | [] \<Rightarrow> if wp_resultsClosed p then Some ([], [], p) else None))"
| "runAct ch AwaitTick p =
     (if cc_done ch then (if wp_cancelled p then Some ([], [], p) else None) else Some ([LockForScan], [], p))"
| "runAct ch LockForScan p =
     (if wp_locked p then None else Some ([ScanIdle 0 0], [], p\<lparr> wp_readers := wp_readers p + 1 \<rparr>))"
| "runAct ch (ScanIdle k n) p =
     (if k < length (wp_workers p)
      then Some ([ScanIdle (k + 1) (if wk_Status (wp_workers p ! k) = WorkerStatusIdle then n + 1 else n)], [], p)
      else Some (StoreIdle n # collectMetrics, [], p\<lparr> wp_readers := wp_readers p - 1 \<rparr>))"
| "runAct ch CancelPool p = Some ([], [], p\<lparr> wp_cancelled := True \<rparr>)"
| "runAct ch CloseTasks p =
     (if wp_tasksClosed p then Some ([], [], panic p) else Some ([], [], p\<lparr> wp_tasksClosed := True \<rparr>))"
| "runAct ch CloseResults p =
     (if wp_resultsClosed p then Some ([], [], panic p) else Some ([], [], p\<lparr> wp_resultsClosed := True \<rparr>))"

section \<open>The interleavings\<close>

text \<open>
  A call starts a thread; a thread performs its first action; and a channel without a buffer hands a task from a sender to a
  worker that waits at its select, in one step of both.
\<close>

datatype pool_event =
    Invoke pool_call
  | Perform nat Choice
  | HandOver nat nat Choice

definition advance :: "nat \<Rightarrow> act list \<Rightarrow> act list list \<Rightarrow> WorkerPool \<Rightarrow> WorkerPool" where
  "advance k th launched p = p\<lparr> wp_threads := (wp_threads p)[k := th] @ launched \<rparr>"

fun poolStep :: "pool_event \<Rightarrow> WorkerPool \<Rightarrow> WorkerPool option" where
  "poolStep (Invoke c) p = (if wp_panicked p then None else Some (p\<lparr> wp_threads := wp_threads p @ [callActs c p] \<rparr>))"
| "poolStep (Perform k ch) p =
     (if wp_panicked p \<or> length (wp_threads p) \<le> k then None
      else (case wp_threads p ! k of
          [] \<Rightarrow> None
        | a # rest \<Rightarrow>
          (case runAct ch a p of
             None \<Rightarrow> None
           | Some (as, launched, p1) \<Rightarrow> Some (advance k (as @ rest) launched p1))))"
| "poolStep (HandOver k j ch) p =
     (if wp_panicked p \<or> wp_tasksClosed p \<or> wp_queueSize p \<noteq> 0 \<or> length (wp_threads p) \<le> k \<or> length (wp_threads p) \<le> j \<or> k = j
      then None
      else (case (wp_threads p ! k, wp_threads p ! j) of
          (SendTask t # rest, SelectTask i # rest') \<Rightarrow>
            Some (advance j (receivedActs i (cc_later ch) (stamp (cc_fresh ch) (cc_now ch) t) @ rest') []
              (advance k ([AddCounter TotalTasks 1, AddCounter QueuedTasks 1] @ rest) [] p))
        | _ \<Rightarrow> None))"

inductive pool_reachable :: "PoolConfig option \<Rightarrow> WorkerPool \<Rightarrow> bool" for config where
  init: "pool_reachable config (NewWorkerPool config)"
| step: "pool_reachable config p \<Longrightarrow> poolStep ev p = Some p' \<Longrightarrow> pool_reachable config p'"

section \<open>What the counters measure\<close>

text \<open>What the threads have still to add to a counter, the tasks that were received and whose run has not ended, and the workers
  at their select, each as a sum over all actions of all threads.\<close>

fun pendingOf :: "counter \<Rightarrow> act \<Rightarrow> int" where
  "pendingOf c (AddCounter c' d) = (if c' = c then d else 0)"
| "pendingOf c _ = 0"

fun runningOf :: "act \<Rightarrow> int" where
  "runningOf (RunTask i t) = 1"
| "runningOf _ = 0"

fun waitingOf :: "act \<Rightarrow> int" where
  "waitingOf (SelectTask i) = 1"
| "waitingOf _ = 0"

definition actSum :: "(act \<Rightarrow> int) \<Rightarrow> act list \<Rightarrow> int" where
  "actSum f as = sum_list (map f as)"

definition threadSum :: "(act \<Rightarrow> int) \<Rightarrow> act list list \<Rightarrow> int" where
  "threadSum f ths = sum_list (map (actSum f) ths)"

abbreviation pendingSum :: "counter \<Rightarrow> WorkerPool \<Rightarrow> int" where
  "pendingSum c p \<equiv> threadSum (pendingOf c) (wp_threads p)"

abbreviation runningTasks :: "WorkerPool \<Rightarrow> int" where
  "runningTasks p \<equiv> threadSum runningOf (wp_threads p)"

abbreviation waitingWorkers :: "WorkerPool \<Rightarrow> int" where
  "waitingWorkers p \<equiv> threadSum waitingOf (wp_threads p)"

lemma actSum_simps [simp]:
  "actSum f [] = 0" "actSum f (a # as) = f a + actSum f as" "actSum f (as @ bs) = actSum f as + actSum f bs"
  by (simp_all add: actSum_def)

lemma threadSum_simps [simp]:
  "threadSum f [] = 0" "threadSum f (th # ths) = actSum f th + threadSum f ths"
  "threadSum f (ths @ ths') = threadSum f ths + threadSum f ths'"
  by (simp_all add: threadSum_def)

lemma threadSum_update: "k < length ths \<Longrightarrow> threadSum f (ths[k := th]) = threadSum f ths - actSum f (ths ! k) + actSum f th"
proof (induction ths arbitrary: k)
  case (Cons th' ths)
  then show ?case by (cases k) simp_all
qed simp

text \<open>
  The books balance up to what is under way. The sums of the threads are the argument \<open>s\<close>, so that an action can be looked at
  by itself.
\<close>

definition balanced :: "((act \<Rightarrow> int) \<Rightarrow> int) \<Rightarrow> WorkerPool \<Rightarrow> bool" where
  "balanced s p \<longleftrightarrow>
     pm_QueuedTasks (wp_metrics p) + s (pendingOf QueuedTasks) = int (length (wp_taskQueue p)) \<and>
     pm_ActiveTasks (wp_metrics p) + s (pendingOf ActiveTasks) = s runningOf \<and>
     pm_ActiveWorkers (wp_metrics p) + s (pendingOf ActiveWorkers) = s runningOf \<and>
     wp_activeWorkers p + s (pendingOf PoolActiveWorkers) = s runningOf \<and>
     pm_TotalWorkers (wp_metrics p) + s (pendingOf TotalWorkers) = s runningOf + s waitingOf \<and>
     pm_TotalTasks (wp_metrics p) + s (pendingOf TotalTasks) = int (length (wp_taskQueue p)) + s runningOf
       + (pm_CompletedTasks (wp_metrics p) + s (pendingOf CompletedTasks)) + (pm_FailedTasks (wp_metrics p) + s (pendingOf FailedTasks)) \<and>
     int (length (wp_taskQueue p)) \<le> max 0 (wp_queueSize p) \<and> int (length (wp_resultQueue p)) \<le> max 0 (wp_queueSize p)"

lemma addWorkers_sum [simp]: "(\<And>fresh now. f (AppendWorker fresh now) = 0) \<Longrightarrow> actSum f (addWorkers n fresh) = 0"
  by (simp add: addWorkers_def addWorker_def actSum_def comp_def)

lemma addCounter_rest [simp]:
  "wp_threads (addCounter c d p) = wp_threads p" "wp_taskQueue (addCounter c d p) = wp_taskQueue p"
  "wp_resultQueue (addCounter c d p) = wp_resultQueue p" "wp_queueSize (addCounter c d p) = wp_queueSize p"
  by (cases c; simp)+

lemma setWorker_rest [simp]:
  "wp_threads (setWorker i f p) = wp_threads p" "wp_taskQueue (setWorker i f p) = wp_taskQueue p"
  "wp_resultQueue (setWorker i f p) = wp_resultQueue p" "wp_queueSize (setWorker i f p) = wp_queueSize p"
  "wp_metrics (setWorker i f p) = wp_metrics p" "wp_activeWorkers (setWorker i f p) = wp_activeWorkers p"
  by (simp_all add: setWorker_def)

lemma panic_rest [simp]:
  "wp_threads (panic p) = wp_threads p" "wp_taskQueue (panic p) = wp_taskQueue p"
  "wp_resultQueue (panic p) = wp_resultQueue p" "wp_queueSize (panic p) = wp_queueSize p"
  "wp_metrics (panic p) = wp_metrics p" "wp_activeWorkers (panic p) = wp_activeWorkers p"
  by (simp_all add: panic_def)

lemmas program_defs [simp] = processResults_def collectMetrics_def
lemmas worker_defs = receivedActs_def finishedActs_def exitActs_def Pool_Submit_def

text \<open>One action, in place of which others come, keeps the balance.\<close>

definition changedSum :: "((act \<Rightarrow> int) \<Rightarrow> int) \<Rightarrow> act \<Rightarrow> act list \<Rightarrow> act list list \<Rightarrow> (act \<Rightarrow> int) \<Rightarrow> int" where
  "changedSum s a as launched f = s f - f a + actSum f as + threadSum f launched"

lemma runAct_threads: "runAct ch a p = Some (as, launched, p1) \<Longrightarrow> wp_threads p1 = wp_threads p"
  by (cases a) (auto simp: Let_def split: if_splits list.splits)

lemma runAct_balanced:
  assumes "balanced s p" and "runAct ch a p = Some (as, launched, p1)"
  shows "balanced (changedSum s a as launched) p1"
proof (cases a)
  case (AddCounter c d)
  then show ?thesis
    using assms by (cases c) (auto simp: balanced_def changedSum_def)
next
  case (SelectTask i)
  then show ?thesis
    using assms by (auto simp: balanced_def changedSum_def worker_defs split: if_splits list.splits)
next
  case (RunTask i t)
  then show ?thesis
    using assms by (auto simp: balanced_def changedSum_def worker_defs split: if_splits sum.splits)
next
  case (SendTask t)
  then show ?thesis
    using assms by (auto simp: balanced_def changedSum_def split: if_splits)
next
  case (SendResult r)
  then show ?thesis
    using assms by (auto simp: balanced_def changedSum_def split: if_splits)
next
  case SelectResult
  then show ?thesis
    using assms by (auto simp: balanced_def changedSum_def split: if_splits list.splits)
qed (use assms in \<open>auto simp: balanced_def changedSum_def Let_def Pool_Submit_def split: if_splits\<close>)

lemma advance_sum:
  assumes "k < length (wp_threads p)" and "wp_threads p ! k = a # rest"
  shows "threadSum f (wp_threads (advance k (as @ rest) launched p)) = changedSum (\<lambda>f. threadSum f (wp_threads p)) a as launched f"
  using assms by (simp add: advance_def changedSum_def threadSum_update)

lemma advance_rest [simp]:
  "wp_taskQueue (advance k th launched p) = wp_taskQueue p" "wp_resultQueue (advance k th launched p) = wp_resultQueue p"
  "wp_queueSize (advance k th launched p) = wp_queueSize p" "wp_metrics (advance k th launched p) = wp_metrics p"
  "wp_activeWorkers (advance k th launched p) = wp_activeWorkers p"
  by (simp_all add: advance_def)

definition pool_inv :: "WorkerPool \<Rightarrow> bool" where
  "pool_inv p \<longleftrightarrow> balanced (\<lambda>f. threadSum f (wp_threads p)) p"

lemma balanced_cong:
  "balanced s p \<Longrightarrow> (\<And>f. s' f = s f) \<Longrightarrow> wp_taskQueue q = wp_taskQueue p \<Longrightarrow> wp_resultQueue q = wp_resultQueue p
     \<Longrightarrow> wp_queueSize q = wp_queueSize p \<Longrightarrow> wp_metrics q = wp_metrics p \<Longrightarrow> wp_activeWorkers q = wp_activeWorkers p \<Longrightarrow> balanced s' q"
  by (simp add: balanced_def)

lemma callActs_sum:
  "actSum (pendingOf c) (callActs call p) = 0" "actSum runningOf (callActs call p) = 0" "actSum waitingOf (callActs call p) = 0"
  by (cases call; simp add: Pool_Start_def Pool_Stop_def Pool_Submit_def SubmitWorkflow_def ScaleUp_def ScaleDown_def Let_def)+

lemma poolStep_inv:
  assumes "poolStep ev p = Some p'" and "pool_inv p"
  shows "pool_inv p'"
proof (cases ev)
  case (Invoke c)
  then have "p' = p\<lparr> wp_threads := wp_threads p @ [callActs c p] \<rparr>"
    using assms(1) by (simp split: if_splits)
  then show ?thesis
    using assms(2) by (simp add: pool_inv_def balanced_def callActs_sum)
next
  case (Perform k ch)
  then obtain a rest as launched p1 where k: "k < length (wp_threads p)" "wp_threads p ! k = a # rest"
      and act: "runAct ch a p = Some (as, launched, p1)" and p': "p' = advance k (as @ rest) launched p1"
    using assms(1) by (auto split: if_splits list.splits option.splits prod.splits)
  have same: "wp_threads p1 = wp_threads p"
    by (rule runAct_threads[OF act])
  have "balanced (changedSum (\<lambda>f. threadSum f (wp_threads p)) a as launched) p1"
    using runAct_balanced[OF _ act] assms(2) by (simp add: pool_inv_def)
  then show ?thesis
    unfolding pool_inv_def p' by (rule balanced_cong) (use advance_sum[of k p1 a rest] k same in simp_all)
next
  case (HandOver k j ch)
  then obtain t rest i rest' where at: "wp_threads p ! k = SendTask t # rest" "wp_threads p ! j = SelectTask i # rest'"
      and kj: "k < length (wp_threads p)" "j < length (wp_threads p)" "k \<noteq> j"
      and p': "p' = advance j (receivedActs i (cc_later ch) (stamp (cc_fresh ch) (cc_now ch) t) @ rest') []
              (advance k ([AddCounter TotalTasks 1, AddCounter QueuedTasks 1] @ rest) [] p)"
    using assms(1) by (auto split: if_splits list.splits act.splits)
  let ?q = "advance k ([AddCounter TotalTasks 1, AddCounter QueuedTasks 1] @ rest) [] p"
  have "j < length (wp_threads ?q)" "wp_threads ?q ! j = SelectTask i # rest'"
    using at kj by (simp_all add: advance_def)
  note sums = advance_sum[OF this, of _ "receivedActs i (cc_later ch) (stamp (cc_fresh ch) (cc_now ch) t)" "[]"]
    advance_sum[OF kj(1) at(1), of _ "[AddCounter TotalTasks 1, AddCounter QueuedTasks 1]" "[]"]
  show ?thesis
    using assms(2) unfolding pool_inv_def p' balanced_def sums changedSum_def by (simp add: receivedActs_def)
qed

lemma pool_reachable_inv: "pool_reachable config p \<Longrightarrow> pool_inv p"
proof (induction rule: pool_reachable.induct)
  case init
  then show ?case by (simp add: pool_inv_def balanced_def NewWorkerPool_def Let_def)
qed (rule poolStep_inv)

section \<open>Properties\<close>

text \<open>C8: In every reachable state of a pool, whatever calls are made and however callers, workers, retries and the other
  goroutines interleave between any two atomic actions, the books balance up to what the threads have still to add: each
  gauge and what is pending for it give what it measures (the length of the channel, the tasks received whose run has not
  ended, the workers that have not returned), and the total is the tasks in the channel, those running, the completed and
  the failed. The channel keeps to its capacity. Where nothing is pending for a counter, it is exact.\<close>

theorem pool_counters_balance:
  assumes "pool_reachable config p"
  shows "pm_TotalTasks (wp_metrics p) + pendingSum TotalTasks p = int (length (wp_taskQueue p)) + runningTasks p
       + (pm_CompletedTasks (wp_metrics p) + pendingSum CompletedTasks p) + (pm_FailedTasks (wp_metrics p) + pendingSum FailedTasks p) \<and>
     pm_QueuedTasks (wp_metrics p) + pendingSum QueuedTasks p = int (length (wp_taskQueue p)) \<and>
     pm_ActiveTasks (wp_metrics p) + pendingSum ActiveTasks p = runningTasks p \<and>
     pm_ActiveWorkers (wp_metrics p) + pendingSum ActiveWorkers p = runningTasks p \<and>
     wp_activeWorkers p + pendingSum PoolActiveWorkers p = runningTasks p \<and>
     pm_TotalWorkers (wp_metrics p) + pendingSum TotalWorkers p = runningTasks p + waitingWorkers p \<and>
     int (length (wp_taskQueue p)) \<le> max 0 (wp_queueSize p)"
  using pool_reachable_inv[OF assms] by (simp add: pool_inv_def balanced_def)

section \<open>Runs\<close>

fun poolRun :: "pool_event list \<Rightarrow> WorkerPool \<Rightarrow> WorkerPool option" where
  "poolRun [] p = Some p"
| "poolRun (ev # evs) p = (case poolStep ev p of None \<Rightarrow> None | Some p1 \<Rightarrow> poolRun evs p1)"

lemma poolRun_reachable: "pool_reachable config p \<Longrightarrow> poolRun evs p = Some p' \<Longrightarrow> pool_reachable config p'"
  by (induction evs arbitrary: p) (auto split: option.splits intro: pool_reachable.step)

definition going :: Choice where
  "going = \<lparr> cc_done = False, cc_fresh = ''f'', cc_now = 1, cc_later = 2, cc_outcome = Inl ''failed'' \<rparr>"

definition named :: "nat \<Rightarrow> string \<times> time" where
  "named k = (''w'', 0)"

text \<open>The thread \<open>k\<close> performs \<open>n\<close> actions.\<close>

definition performs :: "nat \<Rightarrow> nat \<Rightarrow> pool_event list" where
  "performs n k = replicate n (Perform k going)"

text \<open>A pool with one worker receives a task; the caller has not yet counted it.\<close>

definition half_submitted :: "pool_event list" where
  "half_submitted = [Invoke (CallStart 1 named)] @ performs 6 0 @ [Invoke (CallSubmit (sample_task ''a'' 5))] @ performs 1 4 @ performs 6 1"

definition half_pool :: WorkerPool where
  "half_pool = the (poolRun half_submitted (NewWorkerPool None))"

lemma half_pool_run: "poolRun half_submitted (NewWorkerPool None) = Some half_pool"
proof -
  have "poolRun half_submitted (NewWorkerPool None) \<noteq> None"
    by code_simp
  then show ?thesis
    by (auto simp: half_pool_def)
qed

text \<open>The number of queued tasks is negative in this state: the worker counts the task off before its sender has counted it.\<close>

lemma half_pool_eval:
  "pendingSum QueuedTasks half_pool = 1 \<and> length (wp_taskQueue half_pool) = 0 \<and> pendingSum TotalTasks half_pool = 1
   \<and> pm_TotalTasks (wp_metrics half_pool) = 0"
  by code_simp

lemma pool_counters_balance_witness:
  "pm_QueuedTasks (wp_metrics half_pool) = - 1 \<and> pendingSum QueuedTasks half_pool = 1"
  using pool_counters_balance[OF poolRun_reachable[OF pool_reachable.init half_pool_run]] half_pool_eval by auto

text \<open>Stopping a pool while a failed task sleeps before its retry can crash the process: a run of
  the default pool from its start to \<open>Stop\<close> ends in a send on the closed channel.\<close>

definition stopped_too_soon :: "pool_event list" where
  "stopped_too_soon = half_submitted @ performs 3 1 @ [Invoke CallStop] @ performs 3 6 @ performs 1 5"

theorem stop_can_panic: "\<exists>p. pool_reachable None p \<and> wp_tasksClosed p \<and> wp_panicked p"
proof -
  have "map_option (\<lambda>p. (wp_tasksClosed p, wp_panicked p)) (poolRun stopped_too_soon (NewWorkerPool None)) = Some (True, True)"
    by code_simp
  then obtain p where "poolRun stopped_too_soon (NewWorkerPool None) = Some p" "wp_tasksClosed p" "wp_panicked p"
    by auto
  then show ?thesis
    using poolRun_reachable[OF pool_reachable.init] by blast
qed

text \<open>Stopping a pool a second time closes a closed channel and crashes the process as well.\<close>

theorem second_stop_panics:
  assumes "wp_tasksClosed p"
  shows "runAct ch CloseTasks p = Some ([], [], panic p)"
  using assms by simp

text \<open>The maximum of workers is not kept: two calls of \<open>ScaleUp\<close> that both count the workers before either adds one exceed it,
  and so does a second \<open>Start\<close>, which does not count them.\<close>

definition one_worker_config :: PoolConfig where
  "one_worker_config = DefaultPoolConfig\<lparr> pc_MaxWorkers := 1 \<rparr>"

theorem maximum_exceeded:
  "map_option (\<lambda>p. (length (wp_workers p), wp_maxWorkers p))
     (poolRun ([Invoke (CallScaleUp 1 named), Invoke (CallScaleUp 1 named)] @ performs 1 0 @ performs 1 1 @ performs 4 0 @ performs 4 1)
       (NewWorkerPool (Some one_worker_config))) = Some (2, 1)
   \<and> map_option (\<lambda>p. (length (wp_workers p), wp_maxWorkers p))
     (poolRun ([Invoke (CallStart 1 named), Invoke (CallStart 1 named)] @ performs 6 0 @ performs 4 1)
       (NewWorkerPool (Some one_worker_config))) = Some (2, 1)"
  by code_simp

text \<open>Scaling down stops no worker: the select of a worker does not look at its status, and after a task it is marked idle again.\<close>

theorem ScaleDown_stops_nobody:
  "map_option (\<lambda>p. map wk_Status (wp_workers p))
     (poolRun ([Invoke (CallStart 1 named)] @ performs 6 0 @ [Invoke (CallScaleDown 1)] @ performs 4 4) (NewWorkerPool None))
     = Some [WorkerStatusStopped]
   \<and> map_option (\<lambda>p. map wk_Status (wp_workers p))
     (poolRun ([Invoke (CallStart 1 named)] @ performs 6 0 @ [Invoke (CallScaleDown 1)] @ performs 4 4
        @ [Invoke (CallSubmit (sample_task ''a'' 5))] @ performs 3 5 @ performs 12 1) (NewWorkerPool None))
     = Some [WorkerStatusIdle]"
  by code_simp

lemma select_ignores_status:
  "runAct ch (SelectTask i) (setWorker j f p) = map_option (\<lambda>(as, launched, q). (as, launched, setWorker j f q)) (runAct ch (SelectTask i) p)"
  by (simp add: setWorker_def split: list.split)

end
