(* ===== verification/Circuit_Breaker.thy ===== *)
theory Circuit_Breaker
  imports Prelude
begin

text \<open>
  The two circuit breakers of the program: the one of \<open>internal/engine/retry.go\<close> and the one of
  \<open>internal/platform/resilience/circuit_breaker.go\<close> with its registry and retry loop. What a client
  of a breaker relies on is the locale \<open>breaker\<close>, which both interpret. An argument \<open>now\<close> is the
  reading of the clock of that call; a protected function acts on a world \<open>'w\<close> and returns an error
  or nil.
\<close>

section \<open>The breaker of the engine\<close>

datatype CircuitState = CircuitStateClosed | CircuitStateOpen | CircuitStateHalfOpen

record EngineBreaker =
  eb_name :: string
  eb_state :: CircuitState
  eb_failCount :: int
  eb_successCount :: int
  eb_lastFailure :: time
  eb_maxFailures :: int
  eb_resetTimeout :: duration
  eb_halfOpenMax :: int

record EngineBreakerConfig =
  ebc_MaxFailures :: int
  ebc_ResetTimeout :: duration
  ebc_HalfOpenMax :: int

definition Engine_NewCircuitBreaker :: "string \<Rightarrow> EngineBreakerConfig option \<Rightarrow> EngineBreaker" where
  "Engine_NewCircuitBreaker name config =
     (let c = (case config of
            None \<Rightarrow> \<lparr> ebc_MaxFailures = 5, ebc_ResetTimeout = 30 * Second, ebc_HalfOpenMax = 1 \<rparr>
          | Some c \<Rightarrow> c)
      in \<lparr> eb_name = name, eb_state = CircuitStateClosed, eb_failCount = 0, eb_successCount = 0,
           eb_lastFailure = 0, eb_maxFailures = ebc_MaxFailures c, eb_resetTimeout = ebc_ResetTimeout c,
           eb_halfOpenMax = ebc_HalfOpenMax c \<rparr>)"

definition Engine_canExecute :: "time \<Rightarrow> EngineBreaker \<Rightarrow> bool \<times> EngineBreaker" where
  "Engine_canExecute now cb =
     (case eb_state cb of
        CircuitStateClosed \<Rightarrow> (True, cb)
      | CircuitStateOpen \<Rightarrow>
          if now - eb_lastFailure cb > eb_resetTimeout cb
          then (True, cb\<lparr> eb_state := CircuitStateHalfOpen, eb_successCount := 0 \<rparr>)
          else (False, cb)
      | CircuitStateHalfOpen \<Rightarrow> (eb_successCount cb < eb_halfOpenMax cb, cb))"

definition Engine_recordFailure :: "time \<Rightarrow> EngineBreaker \<Rightarrow> EngineBreaker" where
  "Engine_recordFailure now cb =
     (let cb1 = cb\<lparr> eb_failCount := eb_failCount cb + 1, eb_lastFailure := now \<rparr>
      in if eb_state cb1 = CircuitStateHalfOpen then cb1\<lparr> eb_state := CircuitStateOpen \<rparr>
         else if eb_failCount cb1 \<ge> eb_maxFailures cb1 then cb1\<lparr> eb_state := CircuitStateOpen \<rparr>
         else cb1)"

definition Engine_recordSuccess :: "EngineBreaker \<Rightarrow> EngineBreaker" where
  "Engine_recordSuccess cb =
     (let cb1 = cb\<lparr> eb_successCount := eb_successCount cb + 1 \<rparr>
      in if eb_state cb1 = CircuitStateHalfOpen \<and> eb_successCount cb1 \<ge> eb_halfOpenMax cb1
         then cb1\<lparr> eb_state := CircuitStateClosed, eb_failCount := 0 \<rparr>
         else cb1)"

definition Engine_Breaker_Reset :: "EngineBreaker \<Rightarrow> EngineBreaker" where
  "Engine_Breaker_Reset cb = cb\<lparr> eb_state := CircuitStateClosed, eb_failCount := 0, eb_successCount := 0 \<rparr>"

section \<open>The breaker of the platform\<close>

datatype State = StateClosed | StateOpen | StateHalfOpen

fun State_String :: "State \<Rightarrow> string" where
  "State_String StateClosed = ''closed''"
| "State_String StateOpen = ''open''"
| "State_String StateHalfOpen = ''half-open''"

text \<open>\<open>cb_changes\<close> lists the calls of \<open>onStateChange\<close> that were started.\<close>

record CircuitBreaker =
  cb_name :: string
  cb_state :: State
  cb_failures :: int
  cb_successes :: int
  cb_lastFailureTime :: time
  cb_lastStateChange :: time
  cb_maxFailures :: int
  cb_timeout :: duration
  cb_halfOpenSuccess :: int
  cb_changes :: "(State \<times> State) list"

record CircuitBreakerConfig =
  cc_Name :: string
  cc_MaxFailures :: int
  cc_Timeout :: duration
  cc_HalfOpenSuccess :: int

definition DefaultCircuitBreakerConfig :: "string \<Rightarrow> CircuitBreakerConfig" where
  "DefaultCircuitBreakerConfig name = \<lparr> cc_Name = name, cc_MaxFailures = 5, cc_Timeout = 30 * Second,
     cc_HalfOpenSuccess = 3 \<rparr>"

definition NewCircuitBreaker :: "time \<Rightarrow> CircuitBreakerConfig \<Rightarrow> CircuitBreaker" where
  "NewCircuitBreaker now c =
     \<lparr> cb_name = cc_Name c, cb_state = StateClosed, cb_failures = 0, cb_successes = 0,
       cb_lastFailureTime = 0, cb_lastStateChange = now, cb_maxFailures = cc_MaxFailures c,
       cb_timeout = cc_Timeout c, cb_halfOpenSuccess = cc_HalfOpenSuccess c, cb_changes = [] \<rparr>"

definition transitionTo :: "time \<Rightarrow> State \<Rightarrow> CircuitBreaker \<Rightarrow> CircuitBreaker" where
  "transitionTo now newState cb =
     (if cb_state cb = newState then cb
      else
        let cb1 = cb\<lparr> cb_state := newState, cb_lastStateChange := now \<rparr>;
            cb2 = (if newState = StateClosed then cb1\<lparr> cb_failures := 0, cb_successes := 0 \<rparr>
                   else if newState = StateHalfOpen then cb1\<lparr> cb_successes := 0 \<rparr>
                   else cb1)
        in cb2\<lparr> cb_changes := cb_changes cb2 @ [(cb_state cb, newState)] \<rparr>)"

definition canExecute :: "time \<Rightarrow> CircuitBreaker \<Rightarrow> bool \<times> CircuitBreaker" where
  "canExecute now cb =
     (case cb_state cb of
        StateClosed \<Rightarrow> (True, cb)
      | StateOpen \<Rightarrow>
          if now - cb_lastFailureTime cb > cb_timeout cb then (True, transitionTo now StateHalfOpen cb)
          else (False, cb)
      | StateHalfOpen \<Rightarrow> (True, cb))"

definition onFailure :: "time \<Rightarrow> CircuitBreaker \<Rightarrow> CircuitBreaker" where
  "onFailure now cb =
     (let cb1 = cb\<lparr> cb_failures := cb_failures cb + 1, cb_lastFailureTime := now, cb_successes := 0 \<rparr>
      in case cb_state cb1 of
        StateClosed \<Rightarrow> if cb_failures cb1 \<ge> cb_maxFailures cb1 then transitionTo now StateOpen cb1 else cb1
      | StateHalfOpen \<Rightarrow> transitionTo now StateOpen cb1
      | StateOpen \<Rightarrow> cb1)"

definition onSuccess :: "time \<Rightarrow> CircuitBreaker \<Rightarrow> CircuitBreaker" where
  "onSuccess now cb =
     (case cb_state cb of
        StateClosed \<Rightarrow> cb\<lparr> cb_failures := 0 \<rparr>
      | StateHalfOpen \<Rightarrow>
          (let cb1 = cb\<lparr> cb_successes := cb_successes cb + 1 \<rparr>
           in if cb_successes cb1 \<ge> cb_halfOpenSuccess cb1 then transitionTo now StateClosed cb1 else cb1)
      | StateOpen \<Rightarrow> cb)"

definition recordResult :: "time \<Rightarrow> bool \<Rightarrow> CircuitBreaker \<Rightarrow> CircuitBreaker" where
  "recordResult now failed cb = (if failed then onFailure now cb else onSuccess now cb)"

definition Breaker_Reset :: "time \<Rightarrow> CircuitBreaker \<Rightarrow> CircuitBreaker" where
  "Breaker_Reset now cb = transitionTo now StateClosed cb"

section \<open>The interface\<close>

text \<open>
  A breaker refuses a call exactly while it is open and its timeout has not passed, refusing changes
  nothing, a call that is let through leaves it not open, and only a failure opens it, at its own time.
\<close>

locale breaker =
  fixes can :: "time \<Rightarrow> 's \<Rightarrow> bool \<times> 's"
    and report :: "time \<Rightarrow> bool \<Rightarrow> 's \<Rightarrow> 's"
    and opened :: "'s \<Rightarrow> bool"
    and since :: "'s \<Rightarrow> time"
    and timeout :: "'s \<Rightarrow> duration"
    and good :: "'s \<Rightarrow> bool"
  assumes refuses: "good s \<Longrightarrow> fst (can now s) \<longleftrightarrow> \<not> (opened s \<and> now - since s \<le> timeout s)"
    and refused_same: "\<not> fst (can now s) \<Longrightarrow> snd (can now s) = s"
    and let_through: "fst (can now s) \<Longrightarrow> \<not> opened (snd (can now s))"
    and opens: "opened (report now failed s) \<Longrightarrow> \<not> opened s \<Longrightarrow> failed \<and> since (report now failed s) = now"
    and good_can: "good s \<Longrightarrow> good (snd (can now s))"
    and good_report: "good s \<Longrightarrow> \<not> opened s \<Longrightarrow> good (report now failed s)"
    and timeout_can: "timeout (snd (can now s)) = timeout s"
    and timeout_report: "timeout (report now failed s) = timeout s"
begin

text \<open>
  A call of \<open>fn\<close> made at \<open>now\<close>, which ends at \<open>later\<close> if it runs: its error or nil, the world and
  the breaker after it; and a list of such calls.
\<close>

definition execute :: "'e \<Rightarrow> time \<times> time \<times> ('w \<Rightarrow> 'e option \<times> 'w) \<Rightarrow> 'w \<times> 's \<Rightarrow> 'e option \<times> 'w \<times> 's" where
  "execute e c ws = (case c of (now, later, fn) \<Rightarrow>
     (case can now (snd ws) of (ok, s1) \<Rightarrow>
        if \<not> ok then (Some e, fst ws, s1)
        else (case fn (fst ws) of (r, w1) \<Rightarrow> (r, w1, report later (r \<noteq> None) s1))))"

fun executes :: "'e \<Rightarrow> (time \<times> time \<times> ('w \<Rightarrow> 'e option \<times> 'w)) list \<Rightarrow> 'w \<times> 's \<Rightarrow> 'e option list \<times> 'w \<times> 's" where
  "executes e [] ws = ([], ws)"
| "executes e (c # cs) ws =
     (case execute e c ws of (r, ws1) \<Rightarrow> (case executes e cs ws1 of (rs, ws2) \<Rightarrow> (r # rs, ws2)))"

lemma execute_refused:
  assumes "good s" and "opened s" and "fst c - since s \<le> timeout s"
  shows "execute e c (w, s) = (Some e, w, s)"
proof -
  have "\<not> fst (can (fst c) s)"
    using assms refuses by simp
  then show ?thesis
    using refused_same[of "fst c" s] by (auto simp: execute_def split: prod.splits)
qed

lemma open_refuses:
  "good s \<Longrightarrow> opened s \<Longrightarrow> (\<And>c. c \<in> set cs \<Longrightarrow> fst c - since s \<le> timeout s) \<Longrightarrow>
   executes e cs (w, s) = (map (\<lambda>_. Some e) cs, w, s)"
  by (induction cs) (simp_all add: execute_refused)

lemma execute_trips:
  assumes "good s" and "execute e (now, later, fn) (w, s) = (r, w', s')" and "opened s'"
    and "\<not> opened s \<or> timeout s < now - since s"
  shows "good s' \<and> since s' = later \<and> timeout s' = timeout s \<and> r \<noteq> None"
proof -
  have ran: "fst (can now s)"
    using assms(1,4) refuses by auto
  then have s': "s' = report later (r \<noteq> None) (snd (can now s))"
    using assms(2) by (auto simp: execute_def split: prod.splits)
  show ?thesis
    using opens[of later "r \<noteq> None" "snd (can now s)"] let_through[OF ran] assms(1,3) s'
      good_report good_can timeout_report timeout_can by auto
qed

text \<open>After a call that tripped the breaker nothing runs until the timeout has passed.\<close>

lemma tripped_silence:
  assumes "good s" and "execute e (now, later, fn) (w, s) = (r, w', s')" and "opened s'"
    and "\<not> opened s \<or> timeout s < now - since s"
    and "\<And>c. c \<in> set cs \<Longrightarrow> fst c \<le> later + timeout s"
  shows "executes e cs (w', s') = (map (\<lambda>_. Some e) cs, w', s')"
proof (rule open_refuses)
  note trip = execute_trips[OF assms(1-4)]
  show "good s'" and "opened s'"
    using trip assms(3) by simp_all
  show "fst c - since s' \<le> timeout s'" if "c \<in> set cs" for c
    using assms(5)[OF that] trip by simp
qed

end

definition Engine_record :: "time \<Rightarrow> bool \<Rightarrow> EngineBreaker \<Rightarrow> EngineBreaker" where
  "Engine_record now failed cb = (if failed then Engine_recordFailure now cb else Engine_recordSuccess cb)"

text \<open>A half-open breaker has room for another success: reaching the limit closes it.\<close>

definition eb_good :: "EngineBreaker \<Rightarrow> bool" where
  "eb_good cb \<longleftrightarrow> 0 < eb_halfOpenMax cb \<and>
     (eb_state cb = CircuitStateHalfOpen \<longrightarrow> eb_successCount cb < eb_halfOpenMax cb)"

interpretation engine_cb: breaker Engine_canExecute Engine_record "\<lambda>cb. eb_state cb = CircuitStateOpen"
  eb_lastFailure eb_resetTimeout eb_good
  by unfold_locales
     (auto simp: Engine_canExecute_def Engine_record_def Engine_recordFailure_def Engine_recordSuccess_def
        eb_good_def Let_def split: CircuitState.splits if_splits)

interpretation platform_cb: breaker canExecute recordResult "\<lambda>cb. cb_state cb = StateOpen"
  cb_lastFailureTime cb_timeout "\<lambda>_. True"
  by unfold_locales
     (auto simp: canExecute_def recordResult_def onFailure_def onSuccess_def transitionTo_def Let_def
        split: State.splits if_splits)


lemmas breaker_defs = Engine_canExecute_def Engine_record_def Engine_recordFailure_def
  Engine_recordSuccess_def canExecute_def recordResult_def onFailure_def onSuccess_def transitionTo_def

section \<open>Execution through a breaker\<close>

datatype breaker_error = ErrCircuitOpen | ContextError | OtherError string

definition EB_Execute ::
  "time \<Rightarrow> time \<Rightarrow> ('w \<Rightarrow> breaker_error option \<times> 'w) \<Rightarrow> 'w \<times> EngineBreaker \<Rightarrow> breaker_error option \<times> 'w \<times> EngineBreaker" where
  "EB_Execute now later fn ws = (case ws of (w, cb) \<Rightarrow>
     (case Engine_canExecute now cb of (ok, cb1) \<Rightarrow>
        if \<not> ok then (Some ErrCircuitOpen, w, cb1)
        else (case fn w of
            (None, w1) \<Rightarrow> (None, w1, Engine_recordSuccess cb1)
          | (Some err, w1) \<Rightarrow> (Some err, w1, Engine_recordFailure later cb1))))"

definition Execute ::
  "time \<Rightarrow> time \<Rightarrow> ('w \<Rightarrow> breaker_error option \<times> 'w) \<Rightarrow> 'w \<times> CircuitBreaker \<Rightarrow> breaker_error option \<times> 'w \<times> CircuitBreaker" where
  "Execute now later fn ws = (case ws of (w, cb) \<Rightarrow>
     (case canExecute now cb of (ok, cb1) \<Rightarrow>
        if \<not> ok then (Some ErrCircuitOpen, w, cb1)
        else (case fn w of (err, w1) \<Rightarrow> (err, w1, recordResult later (err \<noteq> None) cb1))))"

definition ExecuteWithFallback ::
  "time \<Rightarrow> time \<Rightarrow> ('w \<Rightarrow> breaker_error option \<times> 'w) \<Rightarrow> ('w \<Rightarrow> breaker_error option \<times> 'w) \<Rightarrow>
   'w \<times> CircuitBreaker \<Rightarrow> breaker_error option \<times> 'w \<times> CircuitBreaker" where
  "ExecuteWithFallback now later fn fallback ws = (case ws of (w, cb) \<Rightarrow>
     (case canExecute now cb of (ok, cb1) \<Rightarrow>
        if \<not> ok then (case fallback w of (err, w1) \<Rightarrow> (err, w1, cb1))
        else (case fn w of (err, w1) \<Rightarrow>
          let cb2 = recordResult later (err \<noteq> None) cb1
          in if err \<noteq> None \<and> cb_state cb2 = StateOpen
             then (case fallback w1 of (err2, w2) \<Rightarrow> (err2, w2, cb2))
             else (err, w1, cb2))))"

text \<open>A sequence of calls of \<open>Execute\<close>, each with its two clock readings and its function.\<close>

fun EB_Executes ::
  "(time \<times> time \<times> ('w \<Rightarrow> breaker_error option \<times> 'w)) list \<Rightarrow> 'w \<times> EngineBreaker \<Rightarrow> breaker_error option list \<times> 'w \<times> EngineBreaker" where
  "EB_Executes [] ws = ([], ws)"
| "EB_Executes ((now, later, fn) # cs) ws =
     (case EB_Execute now later fn ws of (r, ws1) \<Rightarrow>
        (case EB_Executes cs ws1 of (rs, ws2) \<Rightarrow> (r # rs, ws2)))"

fun Executes ::
  "(time \<times> time \<times> ('w \<Rightarrow> breaker_error option \<times> 'w)) list \<Rightarrow> 'w \<times> CircuitBreaker \<Rightarrow> breaker_error option list \<times> 'w \<times> CircuitBreaker" where
  "Executes [] ws = ([], ws)"
| "Executes ((now, later, fn) # cs) ws =
     (case Execute now later fn ws of (r, ws1) \<Rightarrow>
        (case Executes cs ws1 of (rs, ws2) \<Rightarrow> (r # rs, ws2)))"

lemma EB_Execute_eq: "EB_Execute now later fn ws = engine_cb.execute ErrCircuitOpen (now, later, fn) ws"
  by (cases ws) (auto simp: EB_Execute_def engine_cb.execute_def Engine_record_def split: prod.splits option.splits)

lemma EB_Executes_eq: "EB_Executes cs ws = engine_cb.executes ErrCircuitOpen cs ws"
  by (induction cs ws rule: EB_Executes.induct) (auto simp: EB_Execute_eq split: prod.splits)

lemma Execute_eq: "Execute now later fn ws = platform_cb.execute ErrCircuitOpen (now, later, fn) ws"
  by (cases ws) (auto simp: Execute_def platform_cb.execute_def split: prod.splits)

lemma Executes_eq: "Executes cs ws = platform_cb.executes ErrCircuitOpen cs ws"
  by (induction cs ws rule: Executes.induct) (auto simp: Execute_eq split: prod.splits)

text \<open>C36: Once a call has tripped the platform's breaker, every call made up to its timeout later returns
  \<open>ErrCircuitOpen\<close> without running its function: world and breaker stay as they are.
\<close>

theorem Execute_silent_after_trip:
  assumes "Execute now later fn (w, cb) = (r, w', cb')" and "cb_state cb' = StateOpen"
    and "cb_state cb \<noteq> StateOpen \<or> cb_timeout cb < now - cb_lastFailureTime cb"
    and "\<forall>c \<in> set cs. fst c \<le> later + cb_timeout cb"
  shows "Executes cs (w', cb') = (map (\<lambda>_. Some ErrCircuitOpen) cs, w', cb')"
  unfolding Executes_eq
  by (rule platform_cb.tripped_silence[OF TrueI assms(1)[unfolded Execute_eq] assms(2,3)]) (use assms(4) in blast)

definition fails :: "int \<Rightarrow> breaker_error option \<times> int" where
  "fails n = (Some (OtherError ''down''), n + 1)"

lemma Execute_silent_after_trip_witness:
  "Executes [(9, 9, fails), (11, 12, fails)]
     (8, snd (snd (Execute 1 2 fails (7, NewCircuitBreaker 0 \<lparr> cc_Name = ''db'', cc_MaxFailures = 1, cc_Timeout = 10, cc_HalfOpenSuccess = 1 \<rparr>)))) =
   ([Some ErrCircuitOpen, Some ErrCircuitOpen], 8,
    snd (snd (Execute 1 2 fails (7, NewCircuitBreaker 0 \<lparr> cc_Name = ''db'', cc_MaxFailures = 1, cc_Timeout = 10, cc_HalfOpenSuccess = 1 \<rparr>))))"
  using Execute_silent_after_trip[of 1 2 fails 7
      "NewCircuitBreaker 0 \<lparr> cc_Name = ''db'', cc_MaxFailures = 1, cc_Timeout = 10, cc_HalfOpenSuccess = 1 \<rparr>"
      "Some (OtherError ''down'')" 8 _ "[(9, 9, fails), (11, 12, fails)]"]
  by (simp add: Execute_def fails_def NewCircuitBreaker_def breaker_defs)

text \<open>The same holds of the engine's breaker, provided its half-open limit is positive and not used up.
\<close>

theorem EB_Execute_silent_after_trip:
  assumes "EB_Execute now later fn (w, cb) = (r, w', cb')" and "eb_state cb' = CircuitStateOpen"
    and "eb_state cb \<noteq> CircuitStateOpen \<or> eb_resetTimeout cb < now - eb_lastFailure cb"
    and "eb_good cb" and "\<forall>c \<in> set cs. fst c \<le> later + eb_resetTimeout cb"
  shows "EB_Executes cs (w', cb') = (map (\<lambda>_. Some ErrCircuitOpen) cs, w', cb')"
  unfolding EB_Executes_eq
  by (rule engine_cb.tripped_silence[OF assms(4) assms(1)[unfolded EB_Execute_eq] assms(2,3)])
     (use assms(5) in blast)

definition sample_engine_cb :: EngineBreaker where
  "sample_engine_cb = Engine_NewCircuitBreaker ''db'' (Some \<lparr> ebc_MaxFailures = 1, ebc_ResetTimeout = 10, ebc_HalfOpenMax = 1 \<rparr>)"

lemma EB_Execute_silent_after_trip_witness:
  "EB_Executes [(9, 9, fails), (11, 12, fails)] (8, snd (snd (EB_Execute 1 2 fails (7, sample_engine_cb)))) =
   ([Some ErrCircuitOpen, Some ErrCircuitOpen], 8, snd (snd (EB_Execute 1 2 fails (7, sample_engine_cb))))"
  using EB_Execute_silent_after_trip[of 1 2 fails 7 sample_engine_cb "Some (OtherError ''down'')" 8 _
      "[(9, 9, fails), (11, 12, fails)]"]
  by (simp add: EB_Execute_def fails_def sample_engine_cb_def Engine_NewCircuitBreaker_def breaker_defs eb_good_def)


section \<open>When a breaker opens\<close>

text \<open>The length of the run of failures at the end of a list of results (\<open>True\<close> is a failure).\<close>

definition trailing_failures :: "bool list \<Rightarrow> nat" where
  "trailing_failures fs = length (takeWhile id (rev fs))"

lemma trailing_simps [simp]:
  "trailing_failures [] = 0"
  "trailing_failures (fs @ [True]) = Suc (trailing_failures fs)"
  "trailing_failures (fs @ [False]) = 0"
  by (simp_all add: trailing_failures_def)

fun record_all :: "(time \<times> bool) list \<Rightarrow> CircuitBreaker \<Rightarrow> CircuitBreaker" where
  "record_all [] cb = cb"
| "record_all ((now, failed) # rs) cb = record_all rs (recordResult now failed cb)"

fun Engine_record_all :: "(time \<times> bool) list \<Rightarrow> EngineBreaker \<Rightarrow> EngineBreaker" where
  "Engine_record_all [] cb = cb"
| "Engine_record_all ((now, failed) # rs) cb = Engine_record_all rs (Engine_record now failed cb)"

lemma record_all_snoc: "record_all (rs @ [(now, failed)]) cb = recordResult now failed (record_all rs cb)"
  by (induction rs arbitrary: cb) auto

lemma Engine_record_all_snoc:
  "Engine_record_all (rs @ [(now, failed)]) cb = Engine_record now failed (Engine_record_all rs cb)"
  by (induction rs arbitrary: cb) auto

lemma all_take_snoc:
  "(\<forall>n \<le> length (xs @ [x]). P (take n (xs @ [x]))) \<longleftrightarrow> (\<forall>n \<le> length xs. P (take n xs)) \<and> P (xs @ [x])"
  by (auto simp: le_Suc_eq)

lemma record_all_closed:
  assumes "cb_state cb = StateClosed" and "cb_failures cb = 0" and "0 < cb_maxFailures cb"
  shows "cb_maxFailures (record_all rs cb) = cb_maxFailures cb \<and>
    (if \<forall>n \<le> length rs. int (trailing_failures (take n (map snd rs))) < cb_maxFailures cb
     then cb_state (record_all rs cb) = StateClosed \<and>
          cb_failures (record_all rs cb) = int (trailing_failures (map snd rs))
     else cb_state (record_all rs cb) = StateOpen)"
proof (induction rs rule: rev_induct)
  case Nil
  then show ?case using assms by simp
next
  case (snoc r rs)
  obtain now failed where r: "r = (now, failed)" by (cases r)
  have all: "(\<forall>n \<le> length (rs @ [r]). int (trailing_failures (take n (map snd (rs @ [r])))) < cb_maxFailures cb)
    \<longleftrightarrow> (\<forall>n \<le> length rs. int (trailing_failures (take n (map snd rs))) < cb_maxFailures cb) \<and>
      int (trailing_failures (map snd rs @ [failed])) < cb_maxFailures cb"
    using all_take_snoc[of "map snd rs" failed "\<lambda>ys. int (trailing_failures ys) < cb_maxFailures cb"]
    by (simp add: r)
  show ?case
    unfolding all using snoc assms
    by (cases failed) (auto simp: r record_all_snoc breaker_defs Let_def split: if_splits State.splits)
qed

lemma Engine_record_all_closed:
  assumes "eb_state cb = CircuitStateClosed" and "eb_failCount cb = 0" and "0 < eb_maxFailures cb"
  shows "eb_maxFailures (Engine_record_all rs cb) = eb_maxFailures cb \<and>
    eb_failCount (Engine_record_all rs cb) = int (length (filter snd rs)) \<and>
    eb_state (Engine_record_all rs cb) =
      (if int (length (filter snd rs)) < eb_maxFailures cb then CircuitStateClosed else CircuitStateOpen)"
proof (induction rs rule: rev_induct)
  case (snoc r rs)
  then show ?case
    using assms by (cases r) (auto simp: Engine_record_all_snoc breaker_defs Let_def)
qed (use assms in simp)

text \<open>Of a closed breaker that has counted nothing, the platform's is still closed after a list of
  results exactly if no \<open>maxFailures\<close> failures came in a row, the engine's exactly if fewer than
  \<open>maxFailures\<close> results were failures at all: a success does not reset the engine's count.
\<close>

theorem breakers_open_when:
  assumes "cb_state cb = StateClosed \<and> cb_failures cb = 0 \<and> 0 < cb_maxFailures cb"
    and "eb_state eb = CircuitStateClosed \<and> eb_failCount eb = 0 \<and> 0 < eb_maxFailures eb"
  shows "(cb_state (record_all rs cb) = StateClosed \<longleftrightarrow>
      (\<forall>n \<in> {..length rs}. int (trailing_failures (take n (map snd rs))) < cb_maxFailures cb)) \<and>
    (eb_state (Engine_record_all rs eb) = CircuitStateClosed \<longleftrightarrow> int (length (filter snd rs)) < eb_maxFailures eb)"
  using record_all_closed[of cb rs] Engine_record_all_closed[of eb rs] assms
  by (auto simp del: Engine_record_all.simps record_all.simps split: if_splits)

definition sample_cb :: CircuitBreaker where
  "sample_cb = NewCircuitBreaker 0 \<lparr> cc_Name = ''db'', cc_MaxFailures = 2, cc_Timeout = 10, cc_HalfOpenSuccess = 1 \<rparr>"

lemma breakers_open_when_witness:
  "cb_state (record_all [(1, True), (2, False), (3, True)] sample_cb) = StateClosed \<and>
   eb_state (Engine_record_all [(1, True), (2, False), (3, True)]
     (Engine_NewCircuitBreaker ''db'' (Some \<lparr> ebc_MaxFailures = 2, ebc_ResetTimeout = 10, ebc_HalfOpenMax = 1 \<rparr>)))
     \<noteq> CircuitStateClosed"
  using breakers_open_when[of sample_cb
      "Engine_NewCircuitBreaker ''db'' (Some \<lparr> ebc_MaxFailures = 2, ebc_ResetTimeout = 10, ebc_HalfOpenMax = 1 \<rparr>)"
      "[(1, True), (2, False), (3, True)]"]
  by (simp add: sample_cb_def NewCircuitBreaker_def Engine_NewCircuitBreaker_def atMost_Suc
      trailing_failures_def numeral_3_eq_3)

section \<open>Retrying through a breaker\<close>

text \<open>
  One call reads the clock at \<open>clk i\<close> (start and end of attempt \<open>i\<close>), the context is found done
  before attempt \<open>i\<close> if \<open>done i\<close> and during the wait after it if \<open>expired i\<close>. The result ends with the
  waits that were started. The loop variable is an \<open>int\<close> as in the source.
\<close>

function retry_loop ::
  "(int \<Rightarrow> time \<times> time) \<Rightarrow> (int \<Rightarrow> bool) \<Rightarrow> (int \<Rightarrow> bool) \<Rightarrow> int \<Rightarrow> duration \<Rightarrow>
   ('w \<Rightarrow> breaker_error option \<times> 'w) \<Rightarrow> int \<Rightarrow> breaker_error option \<Rightarrow> 'w \<times> CircuitBreaker \<Rightarrow>
   breaker_error option \<times> ('w \<times> CircuitBreaker) \<times> duration list" where
  "retry_loop clk stop expired maxRetries backoff fn i lastErr ws =
     (if i > maxRetries then (lastErr, ws, [])
      else if stop i then (Some ContextError, ws, [])
      else (case Execute (fst (clk i)) (snd (clk i)) fn ws of (err, ws1) \<Rightarrow>
        (case err of
           None \<Rightarrow> (None, ws1, [])
         | Some e \<Rightarrow>
             if e = ErrCircuitOpen then (Some e, ws1, [])
             else if i < maxRetries then
               (if expired i then (Some ContextError, ws1, [backoff * (i + 1)])
                else (case retry_loop clk stop expired maxRetries backoff fn (i + 1) (Some e) ws1 of
                   (r, ws2, ds) \<Rightarrow> (r, ws2, backoff * (i + 1) # ds)))
             else retry_loop clk stop expired maxRetries backoff fn (i + 1) (Some e) ws1)))"
  by auto

termination retry_loop
  by (relation "measure (\<lambda>(clk, stop, expired, maxRetries, backoff, fn, i, lastErr, ws). nat (maxRetries + 1 - i))") auto

declare retry_loop.simps [simp del]

definition RetryWithCircuitBreaker ::
  "(int \<Rightarrow> time \<times> time) \<Rightarrow> (int \<Rightarrow> bool) \<Rightarrow> (int \<Rightarrow> bool) \<Rightarrow> int \<Rightarrow> duration \<Rightarrow>
   ('w \<Rightarrow> breaker_error option \<times> 'w) \<Rightarrow> 'w \<times> CircuitBreaker \<Rightarrow>
   breaker_error option \<times> ('w \<times> CircuitBreaker) \<times> duration list" where
  "RetryWithCircuitBreaker clk stop expired maxRetries backoff fn ws =
     retry_loop clk stop expired maxRetries backoff fn 0 None ws"

text \<open>The world after \<open>k\<close> runs of the function.\<close>

definition runs :: "('w \<Rightarrow> 'e \<times> 'w) \<Rightarrow> nat \<Rightarrow> 'w \<Rightarrow> 'w" where
  "runs fn k w = ((\<lambda>w. snd (fn w)) ^^ k) w"

lemma runs_0 [simp]: "runs fn 0 w = w"
  by (simp add: runs_def)

lemma runs_Suc: "runs fn (Suc k) w = runs fn k (snd (fn w))"
  by (simp add: runs_def funpow_Suc_right del: funpow.simps)

lemma Execute_cases:
  assumes "Execute now later fn ws = (err, ws1)"
  obtains "err = Some ErrCircuitOpen" and "fst ws1 = fst ws"
    | "err = fst (fn (fst ws))" and "fst ws1 = snd (fn (fst ws))"
  using assms by (cases ws) (auto simp: Execute_def split: prod.splits if_splits)

text \<open>How a run of the loop ends: after \<open>k\<close> runs of \<open>fn\<close>, in nil only if the last of them was.\<close>

definition retry_ends ::
  "('w \<Rightarrow> breaker_error option \<times> 'w) \<Rightarrow> nat \<Rightarrow> 'w \<Rightarrow> breaker_error option \<times> ('w \<times> CircuitBreaker) \<times> duration list \<Rightarrow> bool" where
  "retry_ends fn k w res \<longleftrightarrow> fst (fst (snd res)) = runs fn k w \<and> length (snd (snd res)) \<le> k \<and>
     (fst res = None \<longrightarrow> 0 < k \<and> fst (fn (runs fn (k - 1) w)) = None)"

lemma retry_ends_0: "e \<noteq> None \<Longrightarrow> retry_ends fn 0 (fst ws) (e, ws, [])"
  by (simp add: retry_ends_def)

lemma retry_ends_Suc:
  "retry_ends fn k (snd (fn w)) (r, ws, ds) \<Longrightarrow> fst (fn w) \<noteq> None \<Longrightarrow> length ds' \<le> Suc (length ds) \<Longrightarrow>
   retry_ends fn (Suc k) w (r, ws, ds')"
  by (cases k) (auto simp: retry_ends_def runs_Suc)

lemma retry_loop_ends:
  "lastErr \<noteq> None \<or> i \<le> maxRetries \<Longrightarrow>
   \<exists>k \<le> nat (maxRetries + 1 - i). retry_ends fn k (fst ws) (retry_loop clk stop expired maxRetries backoff fn i lastErr ws)"
proof (induction clk stop expired maxRetries backoff fn i lastErr ws rule: retry_loop.induct)
  case (1 clk stop expired maxRetries backoff fn i lastErr ws)
  obtain err ws1 where ex: "Execute (fst (clk i)) (snd (clk i)) fn ws = (err, ws1)"
    by (cases "Execute (fst (clk i)) (snd (clk i)) fn ws")
  show ?case
  proof (cases "i > maxRetries \<or> stop i \<or> err = Some ErrCircuitOpen \<and> fst ws1 = fst ws")
    case True
    then show ?thesis
      using 1(3) ex by (auto simp: retry_loop.simps[of _ _ _ _ _ _ i] retry_ends_def intro!: exI[of _ 0])
  next
    case False
    then have go: "\<not> i > maxRetries" "\<not> stop i" and r: "err = fst (fn (fst ws))" "fst ws1 = snd (fn (fst ws))"
      using Execute_cases[OF ex] by auto
    show ?thesis
    proof (cases "err = None \<or> err = Some ErrCircuitOpen \<or> i < maxRetries \<and> expired i")
      case True
      then show ?thesis
        using go r ex by (cases err)
          (auto simp: retry_loop.simps[of _ _ _ _ _ _ i] retry_ends_def runs_Suc intro!: exI[of _ 1] split: option.splits)
    next
      case False
      then obtain e where e: "err = Some e" "e \<noteq> ErrCircuitOpen" by auto
      let ?rec = "retry_loop clk stop expired maxRetries backoff fn (i + 1) (Some e) ws1"
      obtain k where k: "k \<le> nat (maxRetries + 1 - (i + 1))" "retry_ends fn k (fst ws1) ?rec"
        using 1 go ex e False by (cases "i < maxRetries") fastforce+
      obtain r' ws2 ds where rec: "?rec = (r', ws2, ds)" by (cases ?rec)
      have "\<exists>ds'. length ds' \<le> Suc (length ds) \<and>
          retry_loop clk stop expired maxRetries backoff fn i lastErr ws = (r', ws2, ds')"
        using go ex e False rec by (auto simp: retry_loop.simps[of _ _ _ _ _ _ i])
      moreover have "fst (fn (fst ws)) \<noteq> None"
        by (simp add: r(1)[symmetric] e(1))
      ultimately show ?thesis
        using k rec r go by (auto intro!: exI[of _ "Suc k"] retry_ends_Suc)
    qed
  qed
qed

text \<open>A retry with a non-negative bound runs its function at most \<open>maxRetries + 1\<close> times, waits at most
  once per run, and returns nil only if the last run succeeded; with a negative bound it returns nil
  without having run anything.
\<close>

theorem RetryWithCircuitBreaker_bounded:
  "if maxRetries < 0
   then RetryWithCircuitBreaker clk stop expired maxRetries backoff fn ws = (None, ws, [])
   else \<exists>k \<le> nat maxRetries + 1.
     retry_ends fn k (fst ws) (RetryWithCircuitBreaker clk stop expired maxRetries backoff fn ws)"
proof (cases "maxRetries < 0")
  case False
  then have "nat (maxRetries + 1 - 0) = nat maxRetries + 1" by simp
  then show ?thesis
    using False retry_loop_ends[of None 0 maxRetries fn ws clk stop expired backoff]
    by (simp add: RetryWithCircuitBreaker_def)
qed (simp add: RetryWithCircuitBreaker_def retry_loop.simps)

section \<open>The registry of breakers\<close>

record CircuitBreakerRegistry =
  cr_breakers :: "string \<rightharpoonup> CircuitBreaker"
  cr_config :: CircuitBreakerConfig

record CircuitBreakerStats =
  cs_Name :: string
  cs_State :: string
  cs_Failures :: int

definition NewCircuitBreakerRegistry :: "CircuitBreakerConfig \<Rightarrow> CircuitBreakerRegistry" where
  "NewCircuitBreakerRegistry defaultConfig = \<lparr> cr_breakers = Map.empty, cr_config = defaultConfig \<rparr>"

definition Breakers_Get :: "time \<Rightarrow> string \<Rightarrow> CircuitBreakerRegistry \<Rightarrow> CircuitBreaker \<times> CircuitBreakerRegistry" where
  "Breakers_Get now name r =
     (case cr_breakers r name of
        Some cb \<Rightarrow> (cb, r)
      | None \<Rightarrow>
          (let cb = NewCircuitBreaker now ((cr_config r)\<lparr> cc_Name := name \<rparr>)
           in (cb, r\<lparr> cr_breakers := (cr_breakers r)(name \<mapsto> cb) \<rparr>)))"

definition Breakers_GetAll :: "CircuitBreakerRegistry \<Rightarrow> string \<rightharpoonup> CircuitBreaker" where
  "Breakers_GetAll r = cr_breakers r"

definition Breakers_Stats :: "CircuitBreakerRegistry \<Rightarrow> string \<rightharpoonup> CircuitBreakerStats" where
  "Breakers_Stats r = (\<lambda>name. map_option (\<lambda>cb.
     \<lparr> cs_Name = name, cs_State = State_String (cb_state cb), cs_Failures = cb_failures cb \<rparr>) (cr_breakers r name))"

lemma Breakers_Get_twice:
  assumes "Breakers_Get now name r = (cb, r1)"
  shows "Breakers_Get later name r1 = (cb, r1)"
    and "other \<noteq> name \<Longrightarrow> cr_breakers r1 other = cr_breakers r other"
  using assms by (auto simp: Breakers_Get_def Let_def split: option.splits)

end
