(* ===== verification/Retry.thy ===== *)
theory Retry
  imports Prelude
begin

text \<open>
  Retries and error handling of the engine (\<open>internal/engine/retry.go\<close>): \<open>Retry\<close> with its backoff, and
  \<open>ErrorHandler\<close> with its policies and its sliding window of recent errors. Factors and delays are
  rationals where the code computes with \<open>float64\<close>; the random number of a delay, the clock and
  the moments at which the context is done are arguments.
\<close>

section \<open>Errors\<close>

text \<open>An error value: a sentinel, an error with a text that wraps another, and the program's own two.\<close>

datatype go_error =
    Sentinel string
  | Wrap string go_error
  | WrapNil string
  | RetryableError go_error
  | CircuitOpenError

fun errors_Is :: "go_error \<Rightarrow> go_error \<Rightarrow> bool" where
  "errors_Is (Wrap s e) t \<longleftrightarrow> Wrap s e = t \<or> errors_Is e t"
| "errors_Is (RetryableError e) t \<longleftrightarrow> RetryableError e = t \<or> errors_Is e t"
| "errors_Is e t \<longleftrightarrow> e = t"

fun Error_text :: "go_error \<Rightarrow> string" where
  "Error_text (Sentinel s) = s"
| "Error_text (Wrap s e) = s @ Error_text e"
| "Error_text (WrapNil s) = s @ ''%!w(<nil>)''"
| "Error_text (RetryableError e) = ''retryable: '' @ Error_text e"
| "Error_text CircuitOpenError = ''circuit breaker is open''"

definition Canceled :: go_error where
  "Canceled = Sentinel ''context canceled''"

section \<open>Retry\<close>

record RetryConfig =
  rc_MaxAttempts :: int
  rc_InitialDelay :: duration
  rc_MaxDelay :: duration
  rc_BackoffFactor :: rat
  rc_JitterFactor :: rat
  rc_RetryableErrors :: "go_error list"

definition DefaultRetryConfig :: RetryConfig where
  "DefaultRetryConfig = \<lparr> rc_MaxAttempts = 3, rc_InitialDelay = 1 * Second, rc_MaxDelay = 30 * Second,
     rc_BackoffFactor = 2, rc_JitterFactor = 1 / 10, rc_RetryableErrors = [] \<rparr>"

definition isRetryable :: "go_error \<Rightarrow> go_error list \<Rightarrow> bool" where
  "isRetryable err retryableErrors =
     (if retryableErrors = [] then True else \<exists>re \<in> set retryableErrors. errors_Is err re)"

text \<open>A conversion to an integer drops the fraction.\<close>

definition trunc :: "rat \<Rightarrow> int" where
  "trunc x = (if x < 0 then - \<lfloor>- x\<rfloor> else \<lfloor>x\<rfloor>)"

definition calculateDelay :: "rat \<Rightarrow> RetryConfig \<Rightarrow> int \<Rightarrow> duration" where
  "calculateDelay random config attemptNo =
     (let delay = of_int (rc_InitialDelay config) * rc_BackoffFactor config ^ nat (attemptNo - 1);
          delay1 = (if rc_JitterFactor config > 0
                    then delay + (random * 2 - 1) * (delay * rc_JitterFactor config) else delay);
          delay2 = (if delay1 > of_int (rc_MaxDelay config) then of_int (rc_MaxDelay config) else delay1)
      in trunc delay2)"

text \<open>What a retry does, in order.\<close>

datatype retry_event = Call int | Sleep duration

function retryLoop ::
  "(int \<Rightarrow> rat) \<Rightarrow> (int \<Rightarrow> bool) \<Rightarrow> (int \<Rightarrow> bool) \<Rightarrow> RetryConfig \<Rightarrow> (int \<Rightarrow> 'w \<Rightarrow> go_error option \<times> 'w) \<Rightarrow>
   int \<Rightarrow> go_error option \<Rightarrow> 'w \<Rightarrow> go_error option \<times> 'w \<times> retry_event list" where
  "retryLoop rnd stop expired config fn attemptNo lastErr w =
     (if attemptNo > rc_MaxAttempts config
      then (Some (case lastErr of
              None \<Rightarrow> WrapNil ''max retries exceeded: ''
            | Some e \<Rightarrow> Wrap ''max retries exceeded: '' e), w, [])
      else if stop attemptNo then (Some Canceled, w, [])
      else (case fn attemptNo w of
          (None, w1) \<Rightarrow> (None, w1, [Call attemptNo])
        | (Some err, w1) \<Rightarrow>
            if \<not> isRetryable err (rc_RetryableErrors config) then (Some err, w1, [Call attemptNo])
            else if attemptNo < rc_MaxAttempts config then
              (let delay = calculateDelay (rnd attemptNo) config attemptNo
               in if expired attemptNo then (Some Canceled, w1, [Call attemptNo, Sleep delay])
                  else (case retryLoop rnd stop expired config fn (attemptNo + 1) (Some err) w1 of
                     (r, w2, es) \<Rightarrow> (r, w2, Call attemptNo # Sleep delay # es)))
            else (case retryLoop rnd stop expired config fn (attemptNo + 1) (Some err) w1 of
                     (r, w2, es) \<Rightarrow> (r, w2, Call attemptNo # es))))"
  by auto

termination retryLoop
  by (relation "measure (\<lambda>(rnd, stop, expired, config, fn, attemptNo, lastErr, w). nat (rc_MaxAttempts config + 1 - attemptNo))") auto

declare retryLoop.simps [simp del]

definition Retry ::
  "(int \<Rightarrow> rat) \<Rightarrow> (int \<Rightarrow> bool) \<Rightarrow> (int \<Rightarrow> bool) \<Rightarrow> RetryConfig option \<Rightarrow> (int \<Rightarrow> 'w \<Rightarrow> go_error option \<times> 'w) \<Rightarrow>
   'w \<Rightarrow> go_error option \<times> 'w \<times> retry_event list" where
  "Retry rnd stop expired config fn w =
     (let c = (case config of None \<Rightarrow> DefaultRetryConfig | Some c \<Rightarrow> c)
      in retryLoop rnd stop expired c fn 1 None w)"

section \<open>The delays\<close>






section \<open>The attempts\<close>














text \<open>With no attempts allowed the function is never called, and the error wraps nil.\<close>

lemma Retry_no_attempts:
  "rc_MaxAttempts c \<le> 0 \<Longrightarrow>
   Retry rnd stop expired (Some c) fn w = (Some (WrapNil ''max retries exceeded: ''), w, [])"
  by (simp add: Retry_def retryLoop.simps)

section \<open>The error handler\<close>

datatype ErrorPolicy =
    ErrorPolicyStop
  | ErrorPolicyContinue
  | ErrorPolicyRetry
  | ErrorPolicyFallback
  | ErrorPolicyCircuitBreaker

record ErrorContext =
  ec_ExecutionID :: string
  ec_WorkflowID :: string
  ec_NodeID :: string
  ec_NodeType :: string
  ec_Attempt :: int
  ec_Error :: go_error
  ec_Timestamp :: time

record errorRecord =
  er_err :: go_error
  er_timestamp :: time

text \<open>A fallback and a callback act on a world \<open>'w\<close>.\<close>

record 'w ErrorHandler =
  h_policy :: ErrorPolicy
  h_onError :: "(go_error \<Rightarrow> ErrorContext \<Rightarrow> 'w \<Rightarrow> 'w) option"
  h_fallback :: "(go_error \<Rightarrow> 'w \<Rightarrow> (dict option \<times> go_error option) \<times> 'w) option"
  h_maxErrors :: int
  h_errorWindow :: duration
  h_errors :: "errorRecord list"

definition NewErrorHandler :: "ErrorPolicy \<Rightarrow> 'w ErrorHandler" where
  "NewErrorHandler policy = \<lparr> h_policy = policy, h_onError = None, h_fallback = None, h_maxErrors = 10,
     h_errorWindow = 5 * Minute, h_errors = [] \<rparr>"

definition WithCallback :: "(go_error \<Rightarrow> ErrorContext \<Rightarrow> 'w \<Rightarrow> 'w) \<Rightarrow> 'w ErrorHandler \<Rightarrow> 'w ErrorHandler" where
  "WithCallback callback h = h\<lparr> h_onError := Some callback \<rparr>"

definition WithFallback ::
  "(go_error \<Rightarrow> 'w \<Rightarrow> (dict option \<times> go_error option) \<times> 'w) \<Rightarrow> 'w ErrorHandler \<Rightarrow> 'w ErrorHandler" where
  "WithFallback fallback h = h\<lparr> h_fallback := Some fallback \<rparr>"

definition WithMaxErrors :: "int \<Rightarrow> 'w ErrorHandler \<Rightarrow> 'w ErrorHandler" where
  "WithMaxErrors m h = h\<lparr> h_maxErrors := m \<rparr>"

definition cleanOldErrors :: "time \<Rightarrow> 'w ErrorHandler \<Rightarrow> 'w ErrorHandler" where
  "cleanOldErrors now h =
     (let cutoff = now + - h_errorWindow h
      in h\<lparr> h_errors := filter (\<lambda>e. er_timestamp e > cutoff) (h_errors h) \<rparr>)"

definition isCircuitOpen :: "time \<Rightarrow> 'w ErrorHandler \<Rightarrow> bool \<times> 'w ErrorHandler" where
  "isCircuitOpen now h =
     (let h1 = cleanOldErrors now h in (int (length (h_errors h1)) \<ge> h_maxErrors h1, h1))"

definition GetErrorCount :: "time \<Rightarrow> 'w ErrorHandler \<Rightarrow> int \<times> 'w ErrorHandler" where
  "GetErrorCount now h = (let h1 = cleanOldErrors now h in (int (length (h_errors h1)), h1))"

text \<open>\<open>now\<close> and \<open>later\<close> are the two readings of the clock.\<close>

definition Handle ::
  "time \<Rightarrow> time \<Rightarrow> ErrorContext \<Rightarrow> 'w \<times> 'w ErrorHandler \<Rightarrow> (dict option \<times> go_error option) \<times> 'w \<times> 'w ErrorHandler" where
  "Handle now later errCtx wh = (case wh of (w, h) \<Rightarrow>
     let err = ec_Error errCtx;
         h1 = h\<lparr> h_errors := h_errors h @ [\<lparr> er_err = err, er_timestamp = ec_Timestamp errCtx \<rparr>] \<rparr>;
         h2 = cleanOldErrors now h1;
         w2 = (case h_onError h2 of None \<Rightarrow> w | Some f \<Rightarrow> f err errCtx w)
     in (case h_policy h2 of
          ErrorPolicyStop \<Rightarrow> ((None, Some err), w2, h2)
        | ErrorPolicyContinue \<Rightarrow> ((Some [''_error'' \<mapsto> VStr (Error_text err)], None), w2, h2)
        | ErrorPolicyRetry \<Rightarrow> ((None, Some (RetryableError err)), w2, h2)
        | ErrorPolicyFallback \<Rightarrow>
            (case h_fallback h2 of
               Some f \<Rightarrow> (case f err w2 of (res, w3) \<Rightarrow> (res, w3, h2))
             | None \<Rightarrow> ((None, Some err), w2, h2))
        | ErrorPolicyCircuitBreaker \<Rightarrow>
            (case isCircuitOpen later h2 of (is_open, h3) \<Rightarrow>
               if is_open then ((None, Some CircuitOpenError), w2, h3)
               else ((None, Some err), w2, h3))))"

text \<open>Handling errors one after another, each with its two readings of the clock.\<close>

fun handle_all :: "(time \<times> time \<times> ErrorContext) list \<Rightarrow> 'w \<times> 'w ErrorHandler \<Rightarrow> 'w \<times> 'w ErrorHandler" where
  "handle_all [] wh = wh"
| "handle_all ((now, later, ctx) # cs) wh = handle_all cs (snd (Handle now later ctx wh))"

definition rec_of :: "time \<times> time \<times> ErrorContext \<Rightarrow> errorRecord" where
  "rec_of c = \<lparr> er_err = ec_Error (snd (snd c)), er_timestamp = ec_Timestamp (snd (snd c)) \<rparr>"

definition recent :: "time \<Rightarrow> duration \<Rightarrow> errorRecord list \<Rightarrow> errorRecord list" where
  "recent now window es = filter (\<lambda>e. er_timestamp e > now - window) es"

lemma recent_recent: "t \<le> now \<Longrightarrow> recent now d (recent t d es) = recent now d es"
  by (auto simp: recent_def intro!: filter_cong)

lemma recent_append: "recent now d (es @ es') = recent now d es @ recent now d es'"
  by (simp add: recent_def)

lemma Handle_window:
  assumes "Handle now later ctx (w, h) = (res, w', h')"
  shows "h_policy h' = h_policy h \<and> h_maxErrors h' = h_maxErrors h \<and> h_errorWindow h' = h_errorWindow h \<and>
    (\<exists>t \<in> {now, later}. h_errors h' = recent t (h_errorWindow h)
      (recent now (h_errorWindow h) (h_errors h @ [rec_of (now, later, ctx)])))"
  using assms
  by (cases "h_policy h") (auto simp: Handle_def Let_def cleanOldErrors_def isCircuitOpen_def rec_of_def
      recent_def split: option.splits prod.splits if_splits)


lemma handle_all_window:
  "\<forall>c \<in> set cs. fst c \<le> now \<and> fst (snd c) \<le> now \<Longrightarrow> handle_all cs (w, h) = (w', h') \<Longrightarrow>
   h_policy h' = h_policy h \<and> h_maxErrors h' = h_maxErrors h \<and> h_errorWindow h' = h_errorWindow h \<and>
   recent now (h_errorWindow h) (h_errors h') = recent now (h_errorWindow h) (h_errors h @ map rec_of cs)"
proof (induction cs arbitrary: w h)
  case (Cons c cs)
  obtain t t' ctx where c: "c = (t, t', ctx)" by (cases c)
  obtain res w1 h1 where h1: "Handle t t' ctx (w, h) = (res, w1, h1)" by (cases "Handle t t' ctx (w, h)")
  have "t \<le> now" "t' \<le> now"
    using Cons.prems(1) c by auto
  then have "recent now (h_errorWindow h) (h_errors h1) = recent now (h_errorWindow h) (h_errors h @ [rec_of c])"
    using Handle_window[OF h1] by (auto simp: recent_recent c)
  moreover have "handle_all cs (w1, h1) = (w', h')"
    using Cons.prems(2) c h1 by simp
  ultimately show ?case
    using Cons.IH[of w1 h1] Cons.prems(1) Handle_window[OF h1]
      recent_append[of now "h_errorWindow h" "[rec_of c]" "map rec_of cs"] by (simp add: recent_append)
qed simp

text \<open>Under the circuit breaker policy a handler counts a sliding window: after any errors handled
  before \<open>now\<close>, the next one is answered by \<open>CircuitOpenError\<close> exactly if at least \<open>maxErrors\<close> of
  them all, itself included, have a timestamp within the window, and by the error itself otherwise.\<close>

theorem Handle_circuit_window:
  assumes "\<forall>c \<in> set cs. fst c \<le> now \<and> fst (snd c) \<le> now" and "now \<le> later"
    and "handle_all cs (w, WithMaxErrors m (NewErrorHandler ErrorPolicyCircuitBreaker)) = (w', h')"
  shows "fst (Handle now later ctx (w', h')) =
    (None, Some (if m \<le> int (length (recent later (5 * Minute) (map rec_of (cs @ [(now, later, ctx)]))))
                 then CircuitOpenError else ec_Error ctx))"
proof -
  let ?d = "5 * Minute"
  have h': "h_policy h' = ErrorPolicyCircuitBreaker" "h_maxErrors h' = m" "h_errorWindow h' = ?d"
      "recent now ?d (h_errors h') = recent now ?d (map rec_of cs)"
    using handle_all_window[OF assms(1,3)] by (simp_all add: WithMaxErrors_def NewErrorHandler_def)
  let ?e = "rec_of (now, later, ctx)"
  have "recent later ?d (recent now ?d (h_errors h' @ [?e])) =
      recent later ?d (recent now ?d (map rec_of cs @ [?e]))"
    using h'(4) by (simp only: recent_append)
  then have win: "recent later ?d (recent now ?d (h_errors h' @ [?e])) = recent later ?d (map rec_of (cs @ [(now, later, ctx)]))"
    using assms(2) by (simp add: recent_recent)
  show ?thesis
    using h'(1,2,3) win[symmetric]
    by (simp add: Handle_def Let_def cleanOldErrors_def isCircuitOpen_def rec_of_def recent_def
        split: option.split)
qed

definition sample_ctx :: "time \<Rightarrow> ErrorContext" where
  "sample_ctx t = \<lparr> ec_ExecutionID = ''e'', ec_WorkflowID = ''w'', ec_NodeID = ''n'', ec_NodeType = ''http'',
     ec_Attempt = 1, ec_Error = Sentinel ''busy'', ec_Timestamp = t \<rparr>"

lemma sample_ctx_timestamp [simp]: "ec_Timestamp (sample_ctx t) = t"
  by (simp add: sample_ctx_def)
lemma Handle_circuit_window_witness:
  "fst (Handle 20 21 (sample_ctx 20)
     (handle_all [(10, 11, sample_ctx 10)] ((), WithMaxErrors 2 (NewErrorHandler ErrorPolicyCircuitBreaker)))) =
   (None, Some CircuitOpenError)"
proof -
  obtain w' h' where h': "handle_all [(10, 11, sample_ctx 10)]
      ((), WithMaxErrors 2 (NewErrorHandler ErrorPolicyCircuitBreaker)) = (w', h')"
    by (rule prod.exhaust)
  show ?thesis
    using Handle_circuit_window[OF _ _ h', of 20 21 "sample_ctx 20"]
    by (simp add: h' recent_def rec_of_def del: handle_all.simps)
qed

end
