(* ===== verification/Saga.thy ===== *)
theory Saga
  imports Prelude
begin

text \<open>
  Sagas (\<open>internal/platform/saga/saga.go\<close>): a list of steps that run one after another, each on the
  result of the one before it; when one fails, or the context is done, the steps that completed are
  compensated in reverse order. Steps and compensations act on a world \<open>'w\<close>; \<open>clk i\<close> holds the
  readings of the clock around step \<open>i\<close>, and \<open>stop i\<close> says that the context is done before it.
\<close>

section \<open>The data\<close>

datatype StepStatus = StepPending | StepRunning | StepCompleted | StepFailed | StepCompensated

datatype SagaStatus = SagaPending | SagaRunning | SagaCompleted | SagaFailed | SagaCompensating | SagaCompensated

datatype saga_error =
    Failure string
  | ContextDone
  | StepFailure string saga_error
  | CompensationFailure string saga_error
  | Joined "saga_error list"

type_synonym 'w executeFunc = "value \<Rightarrow> 'w \<Rightarrow> (saga_error + value) \<times> 'w"
type_synonym 'w compensateFunc = "value \<Rightarrow> 'w \<Rightarrow> saga_error option \<times> 'w"

record 'w Step =
  st_Name :: string
  st_Execute :: "'w executeFunc"
  st_Compensate :: "'w compensateFunc option"
  st_Status :: StepStatus
  st_Result :: "value"
  st_Error :: "saga_error option"
  st_StartedAt :: "time option"
  st_EndedAt :: "time option"

record 'w Saga =
  sg_ID :: string
  sg_Name :: string
  sg_Steps :: "'w Step list"
  sg_Status :: SagaStatus
  sg_Data :: "value"
  sg_Error :: "saga_error option"
  sg_StartedAt :: "time option"
  sg_CompletedAt :: "time option"

record 'w Builder =
  sb_name :: string
  sb_steps :: "'w Step list"

definition NewBuilder :: "string \<Rightarrow> 'w Builder" where
  "NewBuilder name = \<lparr> sb_name = name, sb_steps = [] \<rparr>"

definition AddStep :: "string \<Rightarrow> 'w executeFunc \<Rightarrow> 'w compensateFunc option \<Rightarrow> 'w Builder \<Rightarrow> 'w Builder" where
  "AddStep name execute compensate b = b\<lparr> sb_steps := sb_steps b @
     [\<lparr> st_Name = name, st_Execute = execute, st_Compensate = compensate, st_Status = StepPending,
        st_Result = VNil, st_Error = None, st_StartedAt = None, st_EndedAt = None \<rparr>] \<rparr>"

definition Build :: "string \<Rightarrow> 'w Builder \<Rightarrow> 'w Saga" where
  "Build newId b = \<lparr> sg_ID = newId, sg_Name = sb_name b, sg_Steps = sb_steps b, sg_Status = SagaPending,
     sg_Data = VNil, sg_Error = None, sg_StartedAt = None, sg_CompletedAt = None \<rparr>"

definition set_step :: "nat \<Rightarrow> ('w Step \<Rightarrow> 'w Step) \<Rightarrow> 'w Saga \<Rightarrow> 'w Saga" where
  "set_step i f s = s\<lparr> sg_Steps := (sg_Steps s)[i := f (sg_Steps s ! i)] \<rparr>"

section \<open>Compensation\<close>

text \<open>The loop from step \<open>n - 1\<close> down to the first, with the compensation errors so far.\<close>

fun compensateLoop :: "nat \<Rightarrow> saga_error list \<Rightarrow> 'w Saga \<times> 'w \<Rightarrow> saga_error list \<times> 'w Saga \<times> 'w" where
  "compensateLoop 0 errs sw = (errs, sw)"
| "compensateLoop (Suc i) errs (s, w) =
     (let step = sg_Steps s ! i
      in case st_Compensate step of
           None \<Rightarrow> compensateLoop i errs (s, w)
         | Some f \<Rightarrow>
             (case f (st_Result step) w of
                (Some err, w1) \<Rightarrow> compensateLoop i (errs @ [CompensationFailure (st_Name step) err]) (s, w1)
              | (None, w1) \<Rightarrow> compensateLoop i errs (set_step i (st_Status_update (\<lambda>_. StepCompensated)) s, w1)))"

definition compensate :: "int \<Rightarrow> 'w Saga \<times> 'w \<Rightarrow> 'w Saga \<times> 'w" where
  "compensate lastCompletedStep sw = (case sw of (s, w) \<Rightarrow>
     (case compensateLoop (nat (lastCompletedStep + 1)) [] (s\<lparr> sg_Status := SagaCompensating \<rparr>, w) of
        (errs, s1, w1) \<Rightarrow>
          (let s2 = (if errs \<noteq> [] then s1\<lparr> sg_Error := Some (Joined errs) \<rparr> else s1)
           in (s2\<lparr> sg_Status := SagaCompensated \<rparr>, w1))))"

section \<open>Execution\<close>

text \<open>The loop over the steps from index \<open>i\<close>; the end of it is the end of the method.\<close>

fun sagaLoop ::
  "(nat \<Rightarrow> bool) \<Rightarrow> (nat \<Rightarrow> time \<times> time) \<Rightarrow> time \<Rightarrow> nat \<Rightarrow> 'w Step list \<Rightarrow> value \<Rightarrow> int \<Rightarrow>
   'w Saga \<times> 'w \<Rightarrow> saga_error option \<times> 'w Saga \<times> 'w" where
  "sagaLoop stop clk endTime i [] currentData lastCompletedStep (s, w) =
     (None, s\<lparr> sg_Status := SagaCompleted, sg_Data := currentData, sg_CompletedAt := Some endTime \<rparr>, w)"
| "sagaLoop stop clk endTime i (step # steps) currentData lastCompletedStep (s, w) =
     (if stop i then (Some ContextDone, compensate lastCompletedStep (s, w))
      else
        let s1 = set_step i (\<lambda>p. p\<lparr> st_Status := StepRunning, st_StartedAt := Some (fst (clk i)) \<rparr>) s
        in (case st_Execute step currentData w of (res, w1) \<Rightarrow>
          let s2 = set_step i (\<lambda>p. p\<lparr> st_EndedAt := Some (snd (clk i)) \<rparr>) s1
          in (case res of
            Inl err \<Rightarrow>
              (let s3 = (set_step i (\<lambda>p. p\<lparr> st_Status := StepFailed, st_Error := Some err \<rparr>) s2)\<lparr> sg_Error := Some err \<rparr>
               in (Some (StepFailure (st_Name step) err), compensate lastCompletedStep (s3, w1)))
          | Inr result \<Rightarrow>
              (let s3 = set_step i (\<lambda>p. p\<lparr> st_Status := StepCompleted, st_Result := result \<rparr>) s2
               in sagaLoop stop clk endTime (i + 1) steps result (int i) (s3, w1)))))"

definition Saga_Execute ::
  "(nat \<Rightarrow> bool) \<Rightarrow> (nat \<Rightarrow> time \<times> time) \<Rightarrow> time \<Rightarrow> time \<Rightarrow> value \<Rightarrow> 'w Saga \<times> 'w \<Rightarrow> saga_error option \<times> 'w Saga \<times> 'w" where
  "Saga_Execute stop clk now endTime initialData sw = (case sw of (s, w) \<Rightarrow>
     sagaLoop stop clk endTime 0 (sg_Steps s) initialData (- 1)
       (s\<lparr> sg_Status := SagaRunning, sg_Data := initialData, sg_StartedAt := Some now \<rparr>, w))"

definition GetStepStatus :: "'w Saga \<Rightarrow> (string \<times> StepStatus) list" where
  "GetStepStatus s = map (\<lambda>step. (st_Name step, st_Status step)) (sg_Steps s)"

section \<open>The orchestrator\<close>

text \<open>The table of the orchestrator holds the saga itself, here as it is after its run.\<close>

definition Orchestrator_Execute ::
  "(nat \<Rightarrow> bool) \<Rightarrow> (nat \<Rightarrow> time \<times> time) \<Rightarrow> time \<Rightarrow> time \<Rightarrow> 'w Saga \<Rightarrow> value \<Rightarrow> (string \<rightharpoonup> 'w Saga) \<times> 'w \<Rightarrow>
   saga_error option \<times> (string \<rightharpoonup> 'w Saga) \<times> 'w" where
  "Orchestrator_Execute stop clk now endTime saga data ow = (case ow of (sagas, w) \<Rightarrow>
     (case Saga_Execute stop clk now endTime data (saga, w) of
        (err, saga1, w1) \<Rightarrow> (err, sagas(sg_ID saga \<mapsto> saga1), w1)))"

definition GetSaga :: "string \<Rightarrow> (string \<rightharpoonup> 'w Saga) \<Rightarrow> 'w Saga option" where
  "GetSaga i sagas = sagas i"

definition NewWorkflowExecutionSaga :: "string \<Rightarrow> string \<Rightarrow> 'w Saga" where
  "NewWorkflowExecutionSaga newId workflowID =
     Build newId
      (AddStep ''notify-start'' (\<lambda>data w. (Inr data, w)) None
      (AddStep ''start-execution'' (\<lambda>data w. (Inr data, w)) (Some (\<lambda>data w. (None, w)))
      (AddStep ''allocate-resources'' (\<lambda>data w. (Inr data, w)) (Some (\<lambda>data w. (None, w)))
      (AddStep ''validate-workflow'' (\<lambda>data w. (Inr data, w)) None
        (NewBuilder ''workflow-execution'')))))"


section \<open>The promise of a saga\<close>

text \<open>
  What a saga promises: run the steps on each other's results until one fails, then undo the ones that
  completed, the last one first. \<open>forward\<close> gives the results of the steps that completed.
\<close>

fun forward ::
  "(nat \<Rightarrow> bool) \<Rightarrow> nat \<Rightarrow> 'w Step list \<Rightarrow> value \<Rightarrow> 'w \<Rightarrow> value list \<times> saga_error option \<times> 'w" where
  "forward stop i [] d w = ([], None, w)"
| "forward stop i (p # ps) d w =
     (if stop i then ([], Some ContextDone, w)
      else (case st_Execute p d w of
          (Inl e, w1) \<Rightarrow> ([], Some (StepFailure (st_Name p) e), w1)
        | (Inr r, w1) \<Rightarrow> (case forward stop (i + 1) ps r w1 of (rs, e, w2) \<Rightarrow> (r # rs, e, w2))))"

fun backward :: "('w compensateFunc option \<times> value) list \<Rightarrow> 'w \<Rightarrow> 'w" where
  "backward [] w = w"
| "backward ((c, r) # us) w = backward us (case c of None \<Rightarrow> w | Some f \<Rightarrow> snd (f r w))"

lemma set_step_simps [simp]:
  "sg_Steps (set_step i f s) = (sg_Steps s)[i := f (sg_Steps s ! i)]"
  "sg_Status (set_step i f s) = sg_Status s"
  "sg_Data (set_step i f s) = sg_Data s"
  by (simp_all add: set_step_def)

lemma map_list_update_same: "f y = f (xs ! i) \<Longrightarrow> map f (xs[i := y]) = map f xs"
  by (metis list_update_id map_update)

lemma compensateLoop_steps:
  "compensateLoop n errs (s, w) = (errs', s', w') \<Longrightarrow> n \<le> length (sg_Steps s) \<Longrightarrow>
   map st_Result (sg_Steps s') = map st_Result (sg_Steps s) \<and> (\<forall>j \<ge> n. sg_Steps s' ! j = sg_Steps s ! j) \<and>
   w' = backward (rev (take n (zip (map st_Compensate (sg_Steps s)) (map st_Result (sg_Steps s))))) w"
proof (induction n errs "(s, w)" arbitrary: s w rule: compensateLoop.induct)
  case (2 i errs s w)
  let ?step = "sg_Steps s ! i"
  have i: "i < length (sg_Steps s)"
    using 2(5) by simp
  have take: "take (Suc i) (zip (map st_Compensate (sg_Steps s)) (map st_Result (sg_Steps s))) =
      take i (zip (map st_Compensate (sg_Steps s)) (map st_Result (sg_Steps s))) @ [(st_Compensate ?step, st_Result ?step)]"
    using i by (simp add: take_Suc_conv_app_nth)
  have res: "map st_Result ((sg_Steps s)[i := ?step\<lparr>st_Status := StepCompensated\<rparr>]) = map st_Result (sg_Steps s)"
    "map st_Compensate ((sg_Steps s)[i := ?step\<lparr>st_Status := StepCompensated\<rparr>]) = map st_Compensate (sg_Steps s)"
    by (simp_all add: map_list_update_same)
  show ?case
  proof (cases "st_Compensate ?step")
    case None
    then show ?thesis
      using 2(1)[OF refl None] 2(4,5) by (simp add: take)
  next
    case (Some f)
    obtain e w1 where f: "f (st_Result ?step) w = (e, w1)" by (cases "f (st_Result ?step) w")
    show ?thesis
    proof (cases e)
      case None
      then show ?thesis
        using 2(2)[OF refl Some f[symmetric] None] 2(4,5) Some f by (simp add: take res)
    next
      case (Some err)
      then show ?thesis
        using 2(3)[OF refl \<open>st_Compensate ?step = _\<close> f[symmetric] Some] 2(4,5) \<open>st_Compensate ?step = _\<close> f
        by (simp add: take)
    qed
  qed
qed simp

lemma compensate_steps:
  assumes "compensate (int n - 1) (s, w) = (s', w')" and "n \<le> length (sg_Steps s)"
  shows "sg_Status s' = SagaCompensated \<and> map st_Result (sg_Steps s') = map st_Result (sg_Steps s) \<and>
    (\<forall>j \<ge> n. sg_Steps s' ! j = sg_Steps s ! j) \<and>
    w' = backward (rev (take n (zip (map st_Compensate (sg_Steps s)) (map st_Result (sg_Steps s))))) w"
proof -
  obtain errs s1 w1 where c: "compensateLoop n [] (s\<lparr>sg_Status := SagaCompensating\<rparr>, w) = (errs, s1, w1)"
    by (cases "compensateLoop n [] (s\<lparr>sg_Status := SagaCompensating\<rparr>, w)")
  show ?thesis
    using compensateLoop_steps[OF c] assms by (auto simp: compensate_def c split: if_splits)
qed


text \<open>What the end of the loop leaves, against \<open>forward\<close> from step \<open>i\<close> with the results \<open>before\<close>.\<close>

definition saga_end ::
  "'w Saga \<Rightarrow> value list \<Rightarrow> value list \<times> saga_error option \<times> 'w \<Rightarrow> saga_error option \<times> 'w Saga \<times> 'w \<Rightarrow> bool" where
  "saga_end s before fwd res = (case fwd of (rs, e, w1) \<Rightarrow> (case res of (err, s', w') \<Rightarrow>
     err = e \<and>
     sg_Status s' = (if e = None then SagaCompleted else SagaCompensated) \<and>
     length (sg_Steps s') = length (sg_Steps s) \<and>
     map st_Result (take (length (before @ rs)) (sg_Steps s')) = before @ rs \<and>
     (\<forall>j > length (before @ rs). sg_Steps s' ! j = sg_Steps s ! j) \<and>
     w' = (if e = None then w1
           else backward (rev (zip (map st_Compensate (sg_Steps s)) (before @ rs))) w1)))"

lemma take_zip_results:
  assumes "map st_Result (take n (sg_Steps s)) = rs" and "n \<le> length (sg_Steps s)"
  shows "take n (zip (map st_Compensate (sg_Steps s)) (map st_Result (sg_Steps s))) =
    zip (map st_Compensate (sg_Steps s)) rs"
proof -
  have rs: "rs = take n (map st_Result (sg_Steps s))" "length rs = n"
    using assms by (auto simp: take_map)
  have "zip (map st_Compensate (sg_Steps s)) rs = zip (take n (map st_Compensate (sg_Steps s))) rs"
    using rs(2) by (metis take_all order.refl take_zip length_zip min.cobounded2)
  then show ?thesis
    using rs(1) by (simp add: take_zip)
qed

lemma compensate_end:
  assumes "compensate (int i - 1) (s', w1) = (s'', w')" and "i \<le> length (sg_Steps s')"
    and "map st_Result (take i (sg_Steps s')) = before" and "map st_Compensate (sg_Steps s') = map st_Compensate (sg_Steps s)"
    and "\<forall>j > i. sg_Steps s' ! j = sg_Steps s ! j"
  shows "saga_end s before ([], Some e, w1) (Some e, s'', w')"
proof -
  note c = compensate_steps[OF assms(1,2)]
  have len: "length before = i"
    using assms(2,3) by (metis length_map length_take min.absorb2)
  have "map st_Result (take i (sg_Steps s'')) = before"
    using c assms(3) by (metis take_map)
  moreover have "length (sg_Steps s'') = length (sg_Steps s)"
    using c assms(4) by (metis length_map)
  ultimately show ?thesis
    using c assms(4,5) take_zip_results[OF assms(3,2)] by (simp add: saga_end_def len)
qed

lemma saga_end_Cons:
  "saga_end s1 (before @ [r]) (rs, e, w1) res \<Longrightarrow> length (sg_Steps s1) = length (sg_Steps s) \<Longrightarrow>
   map st_Compensate (sg_Steps s1) = map st_Compensate (sg_Steps s) \<Longrightarrow>
   (\<And>j. j > length before \<Longrightarrow> sg_Steps s1 ! j = sg_Steps s ! j) \<Longrightarrow>
   saga_end s before (r # rs, e, w1) res"
  by (auto simp: saga_end_def split: prod.splits)

lemma sagaLoop_end:
  assumes "i + length ps = length (sg_Steps s)"
    and "map st_Result (take i (sg_Steps s)) = before"
  shows "saga_end s before (forward stop i ps d w) (sagaLoop stop clk endTime i ps d (int i - 1) (s, w))"
  using assms
proof (induction ps arbitrary: i s before d w)
  case Nil
  then show ?case
    by (auto simp: saga_end_def)
next
  case (Cons p ps)
  have len: "length before = i"
    using Cons.prems by (metis add_leD1 length_map length_take min.absorb2 order.refl)
  show ?case
  proof (cases "stop i")
    case True
    obtain s'' w' where c: "compensate (int i - 1) (s, w) = (s'', w')"
      by (cases "compensate (int i - 1) (s, w)")
    show ?thesis
      using compensate_end[OF c _ Cons.prems(2)] Cons.prems(1) c True by simp
  next
    case False
    obtain res w1 where ex: "st_Execute p d w = (res, w1)" by (cases "st_Execute p d w")
    let ?s2 = "set_step i (\<lambda>q. q\<lparr> st_EndedAt := Some (snd (clk i)) \<rparr>)
      (set_step i (\<lambda>q. q\<lparr> st_Status := StepRunning, st_StartedAt := Some (fst (clk i)) \<rparr>) s)"
    have i: "i < length (sg_Steps s)"
      using Cons.prems(1) by simp
    show ?thesis
    proof (cases res)
      case (Inl err)
      let ?s3 = "(set_step i (\<lambda>q. q\<lparr> st_Status := StepFailed, st_Error := Some err \<rparr>) ?s2)\<lparr> sg_Error := Some err \<rparr>"
      obtain s'' w' where c: "compensate (int i - 1) (?s3, w1) = (s'', w')"
        by (cases "compensate (int i - 1) (?s3, w1)")
      show ?thesis
        using compensate_end[OF c, of before s] Cons.prems i ex Inl False c
        by (simp add: Let_def map_list_update_same)
    next
      case (Inr r)
      let ?s3 = "set_step i (\<lambda>q. q\<lparr> st_Status := StepCompleted, st_Result := r \<rparr>) ?s2"
      have "map st_Result (take (i + 1) (sg_Steps ?s3)) = before @ [r]"
        using Cons.prems(2) i by (simp add: take_Suc_conv_app_nth)
      then have "saga_end ?s3 (before @ [r]) (forward stop (i + 1) ps r w1)
          (sagaLoop stop clk endTime (i + 1) ps r (int (i + 1) - 1) (?s3, w1))"
        using Cons.IH[of "i + 1" ?s3] Cons.prems(1) by simp
      then have "saga_end s before (r # fst (forward stop (i + 1) ps r w1), snd (forward stop (i + 1) ps r w1))
          (sagaLoop stop clk endTime (i + 1) ps r (int (i + 1) - 1) (?s3, w1))"
        using saga_end_Cons[of ?s3 before r "fst (forward stop (i + 1) ps r w1)"
            "fst (snd (forward stop (i + 1) ps r w1))" "snd (snd (forward stop (i + 1) ps r w1))" _ s] i len
        by (simp add: map_list_update_same)
      then show ?thesis
        using ex Inr False by (simp add: Let_def case_prod_unfold)
    qed
  qed
qed


lemma Saga_Execute_end:
  "saga_end s [] (forward stop 0 (sg_Steps s) data w) (Saga_Execute stop clk now endTime data (s, w))"
proof -
  let ?s = "s\<lparr> sg_Status := SagaRunning, sg_Data := data, sg_StartedAt := Some now \<rparr>"
  have "saga_end ?s before fwd res = saga_end s before fwd res" for before and fwd :: "value list \<times> saga_error option \<times> 'a" and res
    by (simp add: saga_end_def)
  then show ?thesis
    using sagaLoop_end[of 0 "sg_Steps s" ?s "[]" stop data w clk endTime] by (simp add: Saga_Execute_def)
qed

text \<open>C11: running a saga is running its steps forward, each on the result of the one before, and, if one
  fails or the context is done, undoing exactly the completed ones in reverse order, each with its own
  result: the error, the results and the world are those of the two passes. The status is
  \<open>SagaCompleted\<close> or \<open>SagaCompensated\<close>, the latter also when compensations fail.\<close>

theorem Saga_Execute_refines:
  "case forward stop 0 (sg_Steps s) data w of (rs, e, w1) \<Rightarrow>
     case Saga_Execute stop clk now endTime data (s, w) of (err, s', w') \<Rightarrow>
       err = e \<and>
       sg_Status s' = (if e = None then SagaCompleted else SagaCompensated) \<and>
       map st_Result (take (length rs) (sg_Steps s')) = rs \<and>
       (\<forall>j \<in> {length rs <..< length (sg_Steps s)}. sg_Steps s' ! j = sg_Steps s ! j) \<and>
       w' = (if e = None then w1
             else backward (rev (zip (map st_Compensate (sg_Steps s)) rs)) w1)"
  using Saga_Execute_end[of s stop data w clk now endTime]
  by (auto simp: saga_end_def simp del: length_map split: prod.splits)

lemma Saga_Execute_refines_witness:
  "sg_Status (fst (snd (Saga_Execute (\<lambda>_. False) (\<lambda>_. (0, 0)) 0 0 VNil (NewWorkflowExecutionSaga ''s'' ''w'', ())))) = SagaCompleted"
  using Saga_Execute_refines[where stop = "\<lambda>_. False" and s = "NewWorkflowExecutionSaga ''s'' ''w''" and data = VNil
      and w = "()" and clk = "\<lambda>_. (0, 0)" and now = 0 and endTime = 0]
  by (simp add: NewWorkflowExecutionSaga_def Build_def AddStep_def NewBuilder_def case_prod_unfold)

text \<open>A step that its compensation undoes, and that changes nothing when it fails.\<close>

definition undoable :: "'w Step \<Rightarrow> bool" where
  "undoable p \<longleftrightarrow> (\<forall>d w. case st_Execute p d w of
     (Inl _, w1) \<Rightarrow> w1 = w
   | (Inr r, w1) \<Rightarrow> (case st_Compensate p of None \<Rightarrow> w1 = w | Some f \<Rightarrow> snd (f r w1) = w))"

lemma backward_append: "backward (us @ us') w = backward us' (backward us w)"
  by (induction us arbitrary: w) auto

lemma forward_undone:
  "forward stop i ps d w = (rs, Some e, w1) \<Longrightarrow> \<forall>p \<in> set ps. undoable p \<Longrightarrow>
   backward (rev (zip (map st_Compensate ps) rs)) w1 = w"
proof (induction ps arbitrary: i d w rs)
  case (Cons p ps)
  obtain res w2 where ex: "st_Execute p d w = (res, w2)" by (cases "st_Execute p d w")
  have "undoable p" and un: "\<forall>p \<in> set ps. undoable p"
    using Cons.prems(2) by simp_all
  then have p: "case res of Inl _ \<Rightarrow> w2 = w
      | Inr r \<Rightarrow> (case st_Compensate p of None \<Rightarrow> w2 = w | Some f \<Rightarrow> snd (f r w2) = w)"
    unfolding undoable_def using ex by (metis (no_types, lifting) case_prod_conv sum.case_eq_if)
  show ?case
  proof (cases "stop i \<or> (\<exists>err. res = Inl err)")
    case True
    then show ?thesis
      using Cons.prems(1) ex p by (auto split: if_splits)
  next
    case False
    then obtain r where r: "res = Inr r" by (cases res) auto
    obtain rs' where fwd: "forward stop (i + 1) ps r w2 = (rs', Some e, w1)" "rs = r # rs'"
      using Cons.prems(1) False ex r by (auto split: prod.splits)
    show ?thesis
      using Cons.IH[OF fwd(1) un] p r fwd(2) by (simp add: backward_append split: option.splits)
  qed
qed simp

text \<open>C12: a saga is atomic as far as its steps can be undone: if every step's compensation undoes it and a
  failing step changes nothing, a saga that returns an error leaves the world as it found it.\<close>

theorem Saga_atomic:
  assumes "\<forall>p \<in> set (sg_Steps s). undoable p"
    and "Saga_Execute stop clk now endTime data (s, w) = (Some e, s', w')"
  shows "w' = w \<and> sg_Status s' = SagaCompensated"
proof -
  obtain rs e' w1 where fwd: "forward stop 0 (sg_Steps s) data w = (rs, e', w1)"
    by (cases "forward stop 0 (sg_Steps s) data w")
  have "saga_end s [] (rs, e', w1) (Some e, s', w')"
    using Saga_Execute_end[of s stop data w clk now endTime] assms(2) fwd by simp
  then show ?thesis
    using forward_undone[of stop 0 "sg_Steps s" data w rs e w1] assms(1) fwd
    by (auto simp: saga_end_def)
qed

definition debit :: "int \<Rightarrow> int executeFunc" where
  "debit n d w = (if w < n then (Inl (Failure ''funds''), w) else (Inr (VInt n), w - n))"

definition credit :: "int compensateFunc" where
  "credit d w = (None, (case d of VInt n \<Rightarrow> w + n | _ \<Rightarrow> w))"

definition sample_saga :: "int Saga" where
  "sample_saga = Build ''s'' (AddStep ''b'' (debit 8) (Some credit) (AddStep ''a'' (debit 5) (Some credit) (NewBuilder ''pay'')))"

lemma sample_saga_run:
  "\<exists>s'. Saga_Execute (\<lambda>_. False) (\<lambda>_. (0, 0)) 0 0 VNil (sample_saga, 10) =
     (Some (StepFailure ''b'' (Failure ''funds'')), s', 10)"
  by (simp add: sample_saga_def Saga_Execute_def Build_def AddStep_def NewBuilder_def set_step_def debit_def
      credit_def compensate_def Let_def)

lemma sample_saga_undoable: "\<forall>p \<in> set (sg_Steps sample_saga). undoable p"
  by (simp add: sample_saga_def Build_def AddStep_def NewBuilder_def undoable_def debit_def credit_def)

lemma Saga_atomic_witness:
  "snd (snd (Saga_Execute (\<lambda>_. False) (\<lambda>_. (0, 0)) 0 0 VNil (sample_saga, 10))) = 10 \<and>
   sg_Status (fst (snd (Saga_Execute (\<lambda>_. False) (\<lambda>_. (0, 0)) 0 0 VNil (sample_saga, 10)))) = SagaCompensated"
  using sample_saga_run Saga_atomic[OF sample_saga_undoable] by fastforce

end
