(* ===== verification/Execution.thy ===== *)
theory Execution
  imports Prelude
begin

text \<open>
  The execution aggregate (\<open>internal/execution/domain/model/execution.go\<close>): the life cycle of one run
  of a workflow and of its nodes. Its maps are Go references: input data and variables can be one
  map, and an output can be the map of the variables. They are references into a \<open>heap\<close>, and a
  state is a heap with an execution. Every other map of the aggregate is only stored and read.
\<close>

section \<open>Maps by reference\<close>

type_synonym heap = "dict list"
type_synonym mapref = nat

definition make_map :: "dict \<Rightarrow> heap \<Rightarrow> mapref \<times> heap" where
  "make_map d h = (length h, h @ [d])"

text \<open>Reading a nil map reads an empty one.\<close>

definition deref :: "heap \<Rightarrow> mapref option \<Rightarrow> dict" where
  "deref h r = (case r of None \<Rightarrow> Map.empty | Some i \<Rightarrow> if i < length h then h ! i else Map.empty)"

text \<open>A write to a nil map panics.\<close>

definition write_map :: "mapref option \<Rightarrow> (dict \<Rightarrow> dict) \<Rightarrow> heap \<Rightarrow> heap option" where
  "write_map r f h = (case r of None \<Rightarrow> None | Some i \<Rightarrow> Some (h[i := f (h ! i)]))"

section \<open>The data\<close>

type_synonym ExecutionID = string

datatype ExecutionStatus =
    ExecutionStatusPending
  | ExecutionStatusRunning
  | ExecutionStatusCompleted
  | ExecutionStatusFailed
  | ExecutionStatusCancelled
  | ExecutionStatusPaused

datatype TriggerType =
    TriggerTypeManual
  | TriggerTypeSchedule
  | TriggerTypeWebhook
  | TriggerTypeEvent
  | TriggerTypeAPI

record ExecutionError =
  ee_Code :: string
  ee_Message :: string
  ee_Details :: dict
  ee_NodeID :: string

record NodeExecution =
  ne_NodeID :: string
  ne_NodeType :: string
  ne_Status :: ExecutionStatus
  ne_InputData :: "mapref option"
  ne_OutputData :: "mapref option"
  ne_Error :: "ExecutionError option"
  ne_StartedAt :: "time option"
  ne_CompletedAt :: "time option"
  ne_DurationMs :: int
  ne_RetryCount :: int

record ExecContext =
  ctx_Variables :: "mapref option"
  ctx_Credentials :: dict
  ctx_Metadata :: dict

record Execution =
  x_id :: ExecutionID
  x_workflowID :: string
  x_workflowVersion :: int
  x_userID :: string
  x_triggerType :: TriggerType
  x_triggerID :: string
  x_status :: ExecutionStatus
  x_inputData :: "mapref option"
  x_outputData :: "mapref option"
  x_context :: ExecContext
  x_nodeExecutions :: "string \<rightharpoonup> NodeExecution"
  x_executionPath :: "string list"
  x_error :: "ExecutionError option"
  x_startedAt :: "time option"
  x_completedAt :: "time option"
  x_pausedAt :: "time option"
  x_durationMs :: int
  x_metadata :: dict
  x_createdAt :: time
  x_updatedAt :: time
  x_version :: int

datatype execution_error =
    WorkflowIDRequired
  | UserIDRequired
  | CannotIn ExecutionStatus
  | NotRunning
  | NodeNotFound string
  | NodeNotRunning string
  | NilMapWrite

section \<open>Construction\<close>

definition NewExecution ::
  "ExecutionID \<Rightarrow> time \<Rightarrow> string \<Rightarrow> int \<Rightarrow> string \<Rightarrow> TriggerType \<Rightarrow> mapref option \<Rightarrow> heap \<Rightarrow>
   execution_error + heap \<times> Execution" where
  "NewExecution newId now workflowID workflowVersion userID triggerType inputData h =
     (if workflowID = '''' then Inl WorkflowIDRequired
      else if userID = '''' then Inl UserIDRequired
      else
        (case make_map Map.empty h of (out, h1) \<Rightarrow>
         (case make_map Map.empty h1 of (vars, h2) \<Rightarrow>
           let execution = \<lparr> x_id = newId, x_workflowID = workflowID, x_workflowVersion = workflowVersion,
             x_userID = userID, x_triggerType = triggerType, x_triggerID = '''',
             x_status = ExecutionStatusPending, x_inputData = inputData, x_outputData = Some out,
             x_context = \<lparr> ctx_Variables = Some vars, ctx_Credentials = Map.empty, ctx_Metadata = Map.empty \<rparr>,
             x_nodeExecutions = Map.empty, x_executionPath = [], x_error = None, x_startedAt = None,
             x_completedAt = None, x_pausedAt = None, x_durationMs = 0, x_metadata = Map.empty,
             x_createdAt = now, x_updatedAt = now, x_version = 0 \<rparr>
           in Inr (h2, if inputData \<noteq> None
                       then execution\<lparr> x_context := (x_context execution)\<lparr> ctx_Variables := inputData \<rparr> \<rparr>
                       else execution))))"

text \<open>The getter of a map field gives what the reference reads as.\<close>

definition InputData :: "heap \<times> Execution \<Rightarrow> dict" where
  "InputData he = deref (fst he) (x_inputData (snd he))"

definition OutputData :: "heap \<times> Execution \<Rightarrow> dict" where
  "OutputData he = deref (fst he) (x_outputData (snd he))"

definition Variables :: "heap \<times> Execution \<Rightarrow> dict" where
  "Variables he = deref (fst he) (ctx_Variables (x_context (snd he)))"

section \<open>The life cycle of an execution\<close>

definition millis :: "duration \<Rightarrow> int" where
  "millis d = quot d 1000000"

definition touchExecution :: "time \<Rightarrow> Execution \<Rightarrow> Execution" where
  "touchExecution now e = e\<lparr> x_updatedAt := now, x_version := x_version e + 1 \<rparr>"

definition setDuration :: "time \<Rightarrow> Execution \<Rightarrow> Execution" where
  "setDuration now e = (case x_startedAt e of None \<Rightarrow> e | Some s \<Rightarrow> e\<lparr> x_durationMs := millis (now - s) \<rparr>)"

definition Execution_Start :: "time \<Rightarrow> Execution \<Rightarrow> execution_error + Execution" where
  "Execution_Start now e =
     (if x_status e \<noteq> ExecutionStatusPending then Inl (CannotIn (x_status e))
      else Inr (touchExecution now (e\<lparr> x_status := ExecutionStatusRunning, x_startedAt := Some now \<rparr>)))"

definition Execution_Complete :: "time \<Rightarrow> mapref option \<Rightarrow> Execution \<Rightarrow> execution_error + Execution" where
  "Execution_Complete now outputData e =
     (if x_status e \<noteq> ExecutionStatusRunning then Inl (CannotIn (x_status e))
      else Inr (touchExecution now (setDuration now (e\<lparr> x_status := ExecutionStatusCompleted,
        x_completedAt := Some now, x_outputData := outputData \<rparr>))))"

definition Execution_Fail :: "time \<Rightarrow> ExecutionError \<Rightarrow> Execution \<Rightarrow> execution_error + Execution" where
  "Execution_Fail now err e =
     (if x_status e \<noteq> ExecutionStatusRunning \<and> x_status e \<noteq> ExecutionStatusPending then Inl (CannotIn (x_status e))
      else Inr (touchExecution now (setDuration now (e\<lparr> x_status := ExecutionStatusFailed,
        x_error := Some err, x_completedAt := Some now \<rparr>))))"

definition Execution_Cancel :: "time \<Rightarrow> Execution \<Rightarrow> execution_error + Execution" where
  "Execution_Cancel now e =
     (if x_status e \<noteq> ExecutionStatusRunning \<and> x_status e \<noteq> ExecutionStatusPaused then Inl (CannotIn (x_status e))
      else Inr (touchExecution now (setDuration now (e\<lparr> x_status := ExecutionStatusCancelled,
        x_completedAt := Some now \<rparr>))))"

definition Execution_Pause :: "time \<Rightarrow> Execution \<Rightarrow> execution_error + Execution" where
  "Execution_Pause now e =
     (if x_status e \<noteq> ExecutionStatusRunning then Inl (CannotIn (x_status e))
      else Inr (touchExecution now (e\<lparr> x_status := ExecutionStatusPaused, x_pausedAt := Some now \<rparr>)))"

definition Execution_Resume :: "time \<Rightarrow> Execution \<Rightarrow> execution_error + Execution" where
  "Execution_Resume now e =
     (if x_status e \<noteq> ExecutionStatusPaused then Inl (CannotIn (x_status e))
      else Inr (touchExecution now (e\<lparr> x_status := ExecutionStatusRunning, x_pausedAt := None \<rparr>)))"

section \<open>The life cycle of a node\<close>

definition StartNodeExecution ::
  "time \<Rightarrow> string \<Rightarrow> string \<Rightarrow> mapref option \<Rightarrow> heap \<times> Execution \<Rightarrow> execution_error + heap \<times> Execution" where
  "StartNodeExecution now nodeID nodeType inputData he = (case he of (h, e) \<Rightarrow>
     if x_status e \<noteq> ExecutionStatusRunning then Inl NotRunning
     else (case make_map Map.empty h of (out, h1) \<Rightarrow>
       let nodeExec = \<lparr> ne_NodeID = nodeID, ne_NodeType = nodeType, ne_Status = ExecutionStatusRunning,
         ne_InputData = inputData, ne_OutputData = Some out, ne_Error = None, ne_StartedAt = Some now,
         ne_CompletedAt = None, ne_DurationMs = 0, ne_RetryCount = 0 \<rparr>
       in Inr (h1, touchExecution now (e\<lparr> x_nodeExecutions := (x_nodeExecutions e)(nodeID \<mapsto> nodeExec),
            x_executionPath := x_executionPath e @ [nodeID] \<rparr>))))"

definition nodeDuration :: "time \<Rightarrow> NodeExecution \<Rightarrow> NodeExecution" where
  "nodeDuration now n = (case ne_StartedAt n of None \<Rightarrow> n | Some s \<Rightarrow> n\<lparr> ne_DurationMs := millis (now - s) \<rparr>)"

text \<open>The entries that the loop over an output adds to the variables, each under \<open>nodeID.key\<close>.\<close>

definition prefixed :: "string \<Rightarrow> dict \<Rightarrow> dict" where
  "prefixed nodeID out k =
     (if take (length nodeID + 1) k = nodeID @ ''.'' then out (drop (length nodeID + 1) k) else None)"

definition CompleteNodeExecution ::
  "time \<Rightarrow> string \<Rightarrow> mapref option \<Rightarrow> heap \<times> Execution \<Rightarrow> execution_error + heap \<times> Execution" where
  "CompleteNodeExecution now nodeID outputData he = (case he of (h, e) \<Rightarrow>
     (case x_nodeExecutions e nodeID of
        None \<Rightarrow> Inl (NodeNotFound nodeID)
      | Some nodeExec \<Rightarrow>
          if ne_Status nodeExec \<noteq> ExecutionStatusRunning then Inl (NodeNotRunning nodeID)
          else
            let nodeExec1 = nodeDuration now (nodeExec\<lparr> ne_Status := ExecutionStatusCompleted,
                  ne_OutputData := outputData, ne_CompletedAt := Some now \<rparr>);
                e1 = touchExecution now (e\<lparr> x_nodeExecutions := (x_nodeExecutions e)(nodeID \<mapsto> nodeExec1) \<rparr>);
                out = deref h outputData
            in (case write_map (ctx_Variables (x_context e)) (\<lambda>d. d ++ prefixed nodeID out) h of
                  None \<Rightarrow> if out = Map.empty then Inr (h, e1) else Inl NilMapWrite
                | Some h1 \<Rightarrow> Inr (h1, e1))))"

definition FailNodeExecution :: "time \<Rightarrow> string \<Rightarrow> ExecutionError \<Rightarrow> Execution \<Rightarrow> execution_error + Execution" where
  "FailNodeExecution now nodeID err e =
     (case x_nodeExecutions e nodeID of
        None \<Rightarrow> Inl (NodeNotFound nodeID)
      | Some nodeExec \<Rightarrow>
          (let nodeExec1 = nodeDuration now (nodeExec\<lparr> ne_Status := ExecutionStatusFailed,
                 ne_Error := Some err, ne_CompletedAt := Some now \<rparr>)
           in Inr (touchExecution now (e\<lparr> x_nodeExecutions := (x_nodeExecutions e)(nodeID \<mapsto> nodeExec1) \<rparr>))))"

definition RetryNodeExecution :: "time \<Rightarrow> string \<Rightarrow> Execution \<Rightarrow> execution_error + Execution" where
  "RetryNodeExecution now nodeID e =
     (case x_nodeExecutions e nodeID of
        None \<Rightarrow> Inl (NodeNotFound nodeID)
      | Some nodeExec \<Rightarrow>
          (let nodeExec1 = nodeExec\<lparr> ne_RetryCount := ne_RetryCount nodeExec + 1,
                 ne_Status := ExecutionStatusRunning, ne_Error := None, ne_StartedAt := Some now \<rparr>
           in Inr (touchExecution now (e\<lparr> x_nodeExecutions := (x_nodeExecutions e)(nodeID \<mapsto> nodeExec1) \<rparr>))))"

definition SetVariable :: "time \<Rightarrow> string \<Rightarrow> value \<Rightarrow> heap \<times> Execution \<Rightarrow> execution_error + heap \<times> Execution" where
  "SetVariable now key val he = (case he of (h, e) \<Rightarrow>
     (case write_map (ctx_Variables (x_context e)) (\<lambda>d. d(key \<mapsto> val)) h of
        None \<Rightarrow> Inl NilMapWrite
      | Some h1 \<Rightarrow> Inr (h1, touchExecution now e)))"

definition GetVariable :: "string \<Rightarrow> heap \<times> Execution \<Rightarrow> value option" where
  "GetVariable key he = Variables he key"


section \<open>The aggregate\<close>

datatype execution_command =
    XStart time
  | XComplete time "mapref option"
  | XFail time ExecutionError
  | XCancel time
  | XPause time
  | XResume time
  | XStartNode time string string "mapref option"
  | XCompleteNode time string "mapref option"
  | XFailNode time string ExecutionError
  | XRetryNode time string
  | XSetVariable time string "value"

definition on_execution ::
  "(Execution \<Rightarrow> execution_error + Execution) \<Rightarrow> heap \<times> Execution \<Rightarrow> execution_error + heap \<times> Execution" where
  "on_execution f he = (case f (snd he) of Inl err \<Rightarrow> Inl err | Inr e \<Rightarrow> Inr (fst he, e))"

lemma on_execution_Inr:
  "on_execution f he = Inr he' \<longleftrightarrow> (\<exists>e. f (snd he) = Inr e \<and> he' = (fst he, e))"
  by (auto simp: on_execution_def split: sum.splits)

fun execution_step :: "execution_command \<Rightarrow> heap \<times> Execution \<Rightarrow> execution_error + heap \<times> Execution" where
  "execution_step (XStart t) he = on_execution (Execution_Start t) he"
| "execution_step (XComplete t out) he = on_execution (Execution_Complete t out) he"
| "execution_step (XFail t err) he = on_execution (Execution_Fail t err) he"
| "execution_step (XCancel t) he = on_execution (Execution_Cancel t) he"
| "execution_step (XPause t) he = on_execution (Execution_Pause t) he"
| "execution_step (XResume t) he = on_execution (Execution_Resume t) he"
| "execution_step (XStartNode t n ty r) he = StartNodeExecution t n ty r he"
| "execution_step (XCompleteNode t n r) he = CompleteNodeExecution t n r he"
| "execution_step (XFailNode t n err) he = on_execution (FailNodeExecution t n err) he"
| "execution_step (XRetryNode t n) he = on_execution (RetryNodeExecution t n) he"
| "execution_step (XSetVariable t k v) he = SetVariable t k v he"

fun command_time :: "execution_command \<Rightarrow> time" where
  "command_time (XStart t) = t"
| "command_time (XComplete t out) = t"
| "command_time (XFail t err) = t"
| "command_time (XCancel t) = t"
| "command_time (XPause t) = t"
| "command_time (XResume t) = t"
| "command_time (XStartNode t n ty r) = t"
| "command_time (XCompleteNode t n r) = t"
| "command_time (XFailNode t n err) = t"
| "command_time (XRetryNode t n) = t"
| "command_time (XSetVariable t k v) = t"

text \<open>The caller's side: the clock does not run backwards.\<close>

definition execution_pre :: "heap \<times> Execution \<Rightarrow> execution_command \<Rightarrow> bool" where
  "execution_pre he c \<longleftrightarrow> x_updatedAt (snd he) \<le> command_time c"

text \<open>How the status and the dates go together.\<close>

definition terminal :: "ExecutionStatus \<Rightarrow> bool" where
  "terminal st \<longleftrightarrow> st \<in> {ExecutionStatusCompleted, ExecutionStatusFailed, ExecutionStatusCancelled}"

definition life_inv :: "Execution \<Rightarrow> bool" where
  "life_inv e \<longleftrightarrow>
     (x_status e = ExecutionStatusPending \<longrightarrow> x_startedAt e = None) \<and>
     (x_startedAt e = None \<longrightarrow> x_status e \<in> {ExecutionStatusPending, ExecutionStatusFailed}) \<and>
     (x_completedAt e \<noteq> None \<longleftrightarrow> terminal (x_status e)) \<and>
     (x_error e \<noteq> None \<longleftrightarrow> x_status e = ExecutionStatusFailed) \<and>
     (x_status e = ExecutionStatusPaused \<longrightarrow> x_pausedAt e \<noteq> None) \<and>
     (x_status e \<in> {ExecutionStatusPending, ExecutionStatusRunning} \<longrightarrow> x_pausedAt e = None) \<and>
     0 \<le> x_durationMs e \<and> x_createdAt e \<le> x_updatedAt e \<and>
     (case x_startedAt e of None \<Rightarrow> x_executionPath e = [] | Some s \<Rightarrow> s \<le> x_updatedAt e)"

definition node_ok :: "string \<Rightarrow> NodeExecution \<Rightarrow> bool" where
  "node_ok n ne \<longleftrightarrow> ne_NodeID ne = n \<and> ne_StartedAt ne \<noteq> None \<and> 0 \<le> ne_RetryCount ne \<and>
     ne_Status ne \<in> {ExecutionStatusRunning, ExecutionStatusCompleted, ExecutionStatusFailed} \<and>
     (ne_Error ne \<noteq> None \<longrightarrow> ne_Status ne = ExecutionStatusFailed)"

definition nodes_inv :: "Execution \<Rightarrow> bool" where
  "nodes_inv e \<longleftrightarrow> dom (x_nodeExecutions e) = set (x_executionPath e) \<and>
     (\<forall>n ne. x_nodeExecutions e n = Some ne \<longrightarrow> node_ok n ne)"

definition execution_inv :: "heap \<times> Execution \<Rightarrow> bool" where
  "execution_inv he \<longleftrightarrow> life_inv (snd he) \<and> nodes_inv (snd he) \<and> ctx_Variables (x_context (snd he)) \<noteq> None"

lemmas execution_defs = Execution_Start_def Execution_Complete_def Execution_Fail_def Execution_Cancel_def
  Execution_Pause_def Execution_Resume_def StartNodeExecution_def CompleteNodeExecution_def
  FailNodeExecution_def RetryNodeExecution_def SetVariable_def on_execution_def touchExecution_def
  setDuration_def nodeDuration_def make_map_def Let_def

lemma millis_nonneg: "0 \<le> d \<Longrightarrow> 0 \<le> millis d"
  by (cases "d = 0") (auto simp: millis_def quot_def)

lemma touch_life: "life_inv e \<Longrightarrow> x_updatedAt e \<le> now \<Longrightarrow> life_inv (touchExecution now e)"
  by (auto simp: life_inv_def touchExecution_def split: option.splits)

lemma nodes_life: "life_inv (e\<lparr> x_nodeExecutions := m \<rparr>) = life_inv e"
  by (cases "x_startedAt e") (simp_all add: life_inv_def)

lemmas life_ops = touchExecution_def setDuration_def life_inv_def terminal_def millis_nonneg

lemma path_life:
  "life_inv e \<Longrightarrow> x_updatedAt e \<le> now \<Longrightarrow> x_status e = ExecutionStatusRunning \<Longrightarrow>
   life_inv (touchExecution now (e\<lparr> x_nodeExecutions := m, x_executionPath := p \<rparr>))"
  by (cases "x_startedAt e") (simp_all add: touchExecution_def life_inv_def)

lemma start_life: "life_inv e \<Longrightarrow> x_updatedAt e \<le> now \<Longrightarrow> Execution_Start now e = Inr e' \<Longrightarrow> life_inv e'"
  by (cases "x_startedAt e"; cases "x_status e"; clarsimp simp: Execution_Start_def life_ops)

lemma pause_life: "life_inv e \<Longrightarrow> x_updatedAt e \<le> now \<Longrightarrow> Execution_Pause now e = Inr e' \<Longrightarrow> life_inv e'"
  by (cases "x_startedAt e"; cases "x_status e"; clarsimp simp: Execution_Pause_def life_ops)

lemma resume_life: "life_inv e \<Longrightarrow> x_updatedAt e \<le> now \<Longrightarrow> Execution_Resume now e = Inr e' \<Longrightarrow> life_inv e'"
  by (cases "x_startedAt e"; cases "x_status e"; clarsimp simp: Execution_Resume_def life_ops)

lemma complete_life: "life_inv e \<Longrightarrow> x_updatedAt e \<le> now \<Longrightarrow> Execution_Complete now out e = Inr e' \<Longrightarrow> life_inv e'"
  by (cases "x_startedAt e"; cases "x_status e"; clarsimp simp: Execution_Complete_def life_ops)

lemma fail_life: "life_inv e \<Longrightarrow> x_updatedAt e \<le> now \<Longrightarrow> Execution_Fail now err e = Inr e' \<Longrightarrow> life_inv e'"
  by (cases "x_startedAt e"; cases "x_status e"; clarsimp simp: Execution_Fail_def life_ops)

lemma cancel_life: "life_inv e \<Longrightarrow> x_updatedAt e \<le> now \<Longrightarrow> Execution_Cancel now e = Inr e' \<Longrightarrow> life_inv e'"
  by (cases "x_startedAt e"; cases "x_status e"; clarsimp simp: Execution_Cancel_def life_ops)

lemma execution_step_life:
  assumes "life_inv (snd he)" and "execution_pre he c" and "execution_step c he = Inr he'"
  shows "life_inv (snd he')"
proof -
  obtain h e where he: "he = (h, e)" by (cases he)
  have e: "life_inv e" "x_updatedAt e \<le> command_time c"
    using assms(1,2) he by (simp_all add: execution_pre_def)
  show ?thesis
  proof (cases c)
    case (XStartNode t n ty r)
    then show ?thesis
      using assms(3) he e path_life[of e t]
      by (auto simp: StartNodeExecution_def make_map_def Let_def nodes_life split: if_splits)
  next
    case (XCompleteNode t n r)
    then show ?thesis
      using assms(3) he e by (auto simp: CompleteNodeExecution_def Let_def nodes_life touch_life
          split: if_splits option.splits)
  next
    case (XFailNode t n err)
    then show ?thesis
      using assms(3) he e by (auto simp: on_execution_def FailNodeExecution_def Let_def nodes_life touch_life
          split: option.splits)
  next
    case (XRetryNode t n)
    then show ?thesis
      using assms(3) he e by (auto simp: on_execution_def RetryNodeExecution_def Let_def nodes_life touch_life
          split: option.splits)
  next
    case (XSetVariable t k v)
    then show ?thesis
      using assms(3) he e by (auto simp: SetVariable_def touch_life split: option.splits)
  qed (use assms(3) he e in \<open>auto simp: on_execution_Inr dest: start_life[OF e(1), rotated]
      pause_life[OF e(1), rotated] resume_life[OF e(1), rotated] complete_life[OF e(1), rotated]
      fail_life[OF e(1), rotated] cancel_life[OF e(1), rotated]\<close>)
qed

lemma nodes_inv_upd:
  "nodes_inv e \<Longrightarrow> node_ok n ne \<Longrightarrow> n \<in> set (x_executionPath e) \<Longrightarrow>
   nodes_inv (touchExecution t (e\<lparr> x_nodeExecutions := (x_nodeExecutions e)(n \<mapsto> ne) \<rparr>))"
  by (auto simp: nodes_inv_def touchExecution_def)

lemma nodes_inv_new:
  "nodes_inv e \<Longrightarrow> node_ok n ne \<Longrightarrow>
   nodes_inv (touchExecution t (e\<lparr> x_nodeExecutions := (x_nodeExecutions e)(n \<mapsto> ne), x_executionPath := x_executionPath e @ [n] \<rparr>))"
  by (simp add: nodes_inv_def touchExecution_def)

lemma nodes_inv_same:
  "nodes_inv e \<Longrightarrow> x_nodeExecutions e' = x_nodeExecutions e \<Longrightarrow> x_executionPath e' = x_executionPath e \<Longrightarrow> nodes_inv e'"
  by (simp add: nodes_inv_def)

lemma node_ok_end:
  "node_ok n ne \<Longrightarrow> node_ok n (nodeDuration t (ne\<lparr> ne_Status := ExecutionStatusFailed, ne_Error := Some err, ne_CompletedAt := c \<rparr>))"
  "node_ok n ne \<Longrightarrow> ne_Status ne = ExecutionStatusRunning \<Longrightarrow>
   node_ok n (nodeDuration t (ne\<lparr> ne_Status := ExecutionStatusCompleted, ne_OutputData := r, ne_CompletedAt := c \<rparr>))"
  by (auto simp: node_ok_def nodeDuration_def split: option.splits)

lemma nodes_inv_node:
  "nodes_inv e \<Longrightarrow> x_nodeExecutions e n = Some ne \<Longrightarrow> node_ok n ne \<and> n \<in> set (x_executionPath e)"
  by (auto simp: nodes_inv_def)

lemma execution_step_nodes:
  assumes "nodes_inv (snd he)" and "execution_step c he = Inr he'"
  shows "nodes_inv (snd he')"
proof -
  obtain h e where he: "he = (h, e)" by (cases he)
  have e: "nodes_inv e"
    using assms(1) he by simp
  show ?thesis
  proof (cases c)
    case (XStartNode t n ty r)
    then show ?thesis
      using assms(2) he e
      by (auto simp: StartNodeExecution_def make_map_def Let_def node_ok_def intro!: nodes_inv_new split: if_splits)
  next
    case (XCompleteNode t n r)
    then show ?thesis
      using assms(2) he nodes_inv_node[OF e, of n]
      by (auto simp: CompleteNodeExecution_def Let_def intro!: nodes_inv_upd e node_ok_end
          split: if_splits option.splits)
  next
    case (XFailNode t n err)
    then show ?thesis
      using assms(2) he nodes_inv_node[OF e, of n]
      by (auto simp: on_execution_def FailNodeExecution_def Let_def intro!: nodes_inv_upd e node_ok_end
          split: option.splits)
  next
    case (XRetryNode t n)
    then show ?thesis
      using assms(2) he nodes_inv_node[OF e, of n]
      by (auto simp: on_execution_def RetryNodeExecution_def Let_def node_ok_def intro!: nodes_inv_upd e
          split: option.splits)
  next
    case (XSetVariable t k v)
    then show ?thesis
      using assms(2) he e by (auto simp: SetVariable_def touchExecution_def intro: nodes_inv_same split: option.splits)
  qed (use assms(2) he in \<open>auto simp: execution_defs intro!: nodes_inv_same[OF e] split: if_splits option.splits\<close>)
qed

lemma execution_step_variables:
  "execution_step c he = Inr he' \<Longrightarrow> x_context (snd he') = x_context (snd he)"
  by (cases c; cases he) (auto simp: execution_defs split: if_splits option.splits)

lemma execution_step_inv [op_inv]:
  "execution_inv he \<Longrightarrow> execution_pre he c \<Longrightarrow> execution_step c he = Inr he' \<Longrightarrow> execution_inv he'"
  using execution_step_life[of he c he'] execution_step_nodes[of he c he'] execution_step_variables[of c he he']
  by (simp add: execution_inv_def)

lemma execution_step_version [op_version]:
  "execution_step c he = Inr he' \<Longrightarrow> x_version (snd he') = x_version (snd he) + 1"
  by (cases c; cases he) (auto simp: execution_defs split: if_splits option.splits)

interpretation execution: versioned_aggregate execution_step execution_inv execution_pre "\<lambda>he. x_version (snd he)"
  by unfold_locales (rule op_inv op_version; assumption)+

lemma NewExecution_inv:
  "NewExecution i now w v u ty d h = Inr he \<Longrightarrow> execution_inv he"
  by (auto simp: NewExecution_def execution_inv_def life_inv_def nodes_inv_def terminal_def make_map_def
      Let_def split: if_splits option.splits)


section \<open>Properties\<close>

lemma write_map_Some [simp]: "write_map (Some i) f h = Some (h[i := f (h ! i)])"
  by (simp add: write_map_def)

lemma no_panic:
  "ctx_Variables (x_context (snd he)) \<noteq> None \<Longrightarrow> execution_step c he \<noteq> Inl NilMapWrite"
  by (cases c; cases he)
     (auto simp: execution_defs split: if_splits option.splits)

text \<open>C13: whatever commands a client sends, in the order of the clock, the dates, the error and the status of
  an execution stay consistent: a finish date exactly in the three final states, an error exactly
  when it failed, a start date whenever it ran, a non-negative duration; a node has a record exactly
  if it is on the path; and no command ever writes to a nil map.\<close>

theorem execution_consistent:
  assumes "NewExecution i now w v u ty d h = Inr he" and "admissible execution_step execution_pre he cs"
  shows "execution_inv (attempts execution_step he cs) \<and>
    execution_step c (attempts execution_step he cs) \<noteq> Inl NilMapWrite"
proof -
  have inv: "execution_inv (attempts execution_step he cs)"
    using execution.run_inv NewExecution_inv assms by blast
  then show ?thesis
    using no_panic by (simp add: execution_inv_def)
qed

definition sample_exec :: "heap \<times> Execution" where
  "sample_exec = (case NewExecution ''e'' 0 ''w'' 1 ''u'' TriggerTypeManual (Some 0) [[''in'' \<mapsto> VInt 1]] of
     Inr he \<Rightarrow> he | Inl _ \<Rightarrow> undefined)"

lemma sample_exec_new: "NewExecution ''e'' 0 ''w'' 1 ''u'' TriggerTypeManual (Some 0) [[''in'' \<mapsto> VInt 1]] = Inr sample_exec"
  by (simp add: sample_exec_def NewExecution_def make_map_def Let_def)

definition sample_exec_cmds :: "execution_command list" where
  "sample_exec_cmds = [XStart 1, XStartNode 2 ''n'' ''action'' None, XFail 3 \<lparr> ee_Code = ''x'', ee_Message = ''m'', ee_Details = Map.empty, ee_NodeID = '''' \<rparr>]"

lemma sample_exec_admissible: "admissible execution_step execution_pre sample_exec sample_exec_cmds"
  by (simp add: sample_exec_cmds_def sample_exec_def NewExecution_def execution_pre_def attempt_def execution_defs)

lemma sample_exec_failed: "x_status (snd (attempts execution_step sample_exec sample_exec_cmds)) = ExecutionStatusFailed"
  by (simp add: sample_exec_cmds_def sample_exec_def NewExecution_def attempt_def execution_defs)

lemma execution_consistent_witness:
  "execution_inv (attempts execution_step sample_exec sample_exec_cmds) \<and>
   execution_step (XSetVariable 4 ''k'' VNil) (attempts execution_step sample_exec sample_exec_cmds) \<noteq> Inl NilMapWrite"
  using execution_consistent[OF sample_exec_new sample_exec_admissible] .

text \<open>What an execution has at its end.\<close>

definition outcome :: "Execution \<Rightarrow> ExecutionStatus \<times> time option \<times> ExecutionError option \<times> mapref option \<times> int \<times> string list" where
  "outcome e = (x_status e, x_completedAt e, x_error e, x_outputData e, x_durationMs e, x_executionPath e)"

lemma terminal_step:
  "terminal (x_status (snd he)) \<Longrightarrow> execution_step c he = Inr he' \<Longrightarrow> outcome (snd he') = outcome (snd he)"
  by (cases c; cases he) (auto simp: execution_defs outcome_def terminal_def split: if_splits option.splits)

text \<open>C14: once an execution is completed, failed or cancelled, no list of commands changes its status, its
  finish date, its error, which map its output is, its duration or its path.\<close>

theorem terminal_execution_fixed:
  assumes "terminal (x_status (snd he))"
  shows "outcome (snd (attempts execution_step he cs)) = outcome (snd he)"
  using assms
proof (induction cs arbitrary: he)
  case (Cons c cs)
  show ?case
  proof (cases "execution_step c he")
    case (Inr he1)
    have same: "outcome (snd he1) = outcome (snd he)"
      using terminal_step[OF Cons.prems Inr] .
    then have "terminal (x_status (snd he1))"
      using Cons.prems by (simp add: outcome_def)
    then show ?thesis
      using Cons.IH[of he1] same Inr by simp
  qed (use Cons in simp)
qed simp

lemma terminal_execution_fixed_witness:
  "outcome (snd (attempts execution_step (attempts execution_step sample_exec sample_exec_cmds) [XRetryNode 9 ''n'', XStart 10])) =
   outcome (snd (attempts execution_step sample_exec sample_exec_cmds))"
  by (rule terminal_execution_fixed) (simp add: terminal_def sample_exec_failed)

text \<open>Its nodes may still change: a node of a failed execution can be started again.\<close>

lemma retry_after_end:
  "map_option ne_Status (x_nodeExecutions (snd (attempts execution_step sample_exec (sample_exec_cmds @ [XFailNode 4 ''n'' err, XRetryNode 5 ''n'']))) ''n'') =
   Some ExecutionStatusRunning"
  by (simp add: sample_exec_cmds_def sample_exec_def NewExecution_def attempt_def execution_defs)

text \<open>The variables of an execution that has input data are its input data: setting a variable
  changes what \<open>InputData\<close> returns; and if the execution is completed with its variables as output,
  setting a variable later changes what \<open>OutputData\<close> returns too.\<close>

theorem variables_are_input:
  assumes "NewExecution i now w v u ty (Some r) h = Inr he" and "r < length h"
  shows "InputData (attempts execution_step he [XSetVariable t1 k1 v1]) = (InputData he)(k1 \<mapsto> v1) \<and>
    (case attempts execution_step he [XStart t1, XComplete t2 (ctx_Variables (x_context (snd he))), XSetVariable t3 k2 v2] of
       he3 \<Rightarrow> x_status (snd he3) = ExecutionStatusCompleted \<and> OutputData he3 = (InputData he)(k2 \<mapsto> v2))"
  using assms
  by (auto simp: NewExecution_def InputData_def OutputData_def deref_def make_map_def execution_defs
      attempt_def nth_append split: if_splits)

lemma variables_are_input_witness:
  "InputData (attempts execution_step sample_exec [XSetVariable 1 ''k'' (VInt 2)]) = (InputData sample_exec)(''k'' \<mapsto> VInt 2)"
  using variables_are_input[OF sample_exec_new, of 1 "''k''" "VInt 2"] by simp

end
