(* ===== verification/Workflow_Executor.thy ===== *)
theory Workflow_Executor
  imports Workflow Execution
begin

text \<open>
  The domain service that runs a workflow for an execution
  (\<open>internal/execution/domain/service/executor.go\<close>). It composes the aggregates of \<open>Workflow\<close> and
  \<open>Execution\<close>: the nodes are visited depth first from the triggers, and the record of a node in the
  execution is the mark that it was visited. A node executor acts on a world \<open>'w\<close>, which also gives
  the time; its timeout context is not modelled. Printing an error is left out.
\<close>

section \<open>Node executors\<close>

record 'w WfNodeExecutor =
  ne_Execute :: "Node \<Rightarrow> dict \<Rightarrow> 'w \<Rightarrow> (string + dict) \<times> 'w"
  ne_GetType :: NodeType

type_synonym 'w WorkflowExecutor = "NodeType \<Rightarrow> 'w WfNodeExecutor option"

definition RegisterExecutor :: "'w WfNodeExecutor \<Rightarrow> 'w WorkflowExecutor \<Rightarrow> 'w WorkflowExecutor" where
  "RegisterExecutor executor e = e(ne_GetType executor \<mapsto> executor)"

text \<open>A configuration value read as a string; any other value reads as the empty string.\<close>

definition config_string :: "string \<Rightarrow> Node \<Rightarrow> string" where
  "config_string k node = (case n_Config node k of Some (VStr s) \<Rightarrow> s | _ \<Rightarrow> '''')"

definition HTTP_Execute :: "Node \<Rightarrow> dict \<Rightarrow> 'w \<Rightarrow> (string + dict) \<times> 'w" where
  "HTTP_Execute node input w =
     (if config_string ''url'' node = '''' then (Inl ''URL not configured'', w)
      else (Inr [''status'' \<mapsto> VInt 200,
                 ''response'' \<mapsto> VMap [''message'' \<mapsto> VStr ''HTTP request executed'',
                   ''url'' \<mapsto> VStr (config_string ''url'' node), ''method'' \<mapsto> VStr (config_string ''method'' node)]], w))"

definition Condition_Execute :: "Node \<Rightarrow> dict \<Rightarrow> 'w \<Rightarrow> (string + dict) \<times> 'w" where
  "Condition_Execute node input w =
     (if config_string ''condition'' node = '''' then (Inl ''condition not configured'', w)
      else (Inr [''result'' \<mapsto> VBool True, ''condition'' \<mapsto> VStr (config_string ''condition'' node)], w))"

definition Transform_Execute :: "Node \<Rightarrow> dict \<Rightarrow> 'w \<Rightarrow> (string + dict) \<times> 'w" where
  "Transform_Execute node input w =
     (Inr [''transformed'' \<mapsto> VBool True, ''data'' \<mapsto> VMap input,
           ''transform'' \<mapsto> VMap (case n_Config node ''transform'' of Some (VMap m) \<Rightarrow> m | _ \<Rightarrow> Map.empty)], w)"

definition NewWorkflowExecutor :: "'w WorkflowExecutor" where
  "NewWorkflowExecutor =
     RegisterExecutor \<lparr> ne_Execute = Transform_Execute, ne_GetType = NodeTypeAction \<rparr>
    (RegisterExecutor \<lparr> ne_Execute = Condition_Execute, ne_GetType = NodeTypeCondition \<rparr>
    (RegisterExecutor \<lparr> ne_Execute = HTTP_Execute, ne_GetType = NodeTypeAction \<rparr> Map.empty))"

section \<open>The graph\<close>

definition findNodesByType :: "NodeType \<Rightarrow> Workflow \<Rightarrow> Node list" where
  "findNodesByType t wfl = filter (\<lambda>n. n_Type n = t) (w_nodes wfl)"

text \<open>The node map of the code: a later node replaces an earlier one with its identifier.\<close>

definition wfNodeMap :: "Workflow \<Rightarrow> string \<rightharpoonup> Node" where
  "wfNodeMap wfl = map_of (rev (map (\<lambda>n. (n_ID n, n)) (w_nodes wfl)))"

definition findDownstreamNodes :: "Workflow \<Rightarrow> string \<Rightarrow> Node list" where
  "findDownstreamNodes wfl nodeID =
     List.map_filter (\<lambda>c. if c_SourceNodeID c = nodeID then wfNodeMap wfl (c_TargetNodeID c) else None) (w_connections wfl)"

section \<open>One node\<close>

fun NodeType_string :: "NodeType \<Rightarrow> string" where
  "NodeType_string NodeTypeTrigger = ''trigger''"
| "NodeType_string NodeTypeAction = ''action''"
| "NodeType_string NodeTypeCondition = ''condition''"
| "NodeType_string NodeTypeLoop = ''loop''"
| "NodeType_string NodeTypeOutput = ''output''"
| "NodeType_string (NodeTypeOther s) = s"

definition prepareNodeInput :: "heap \<times> Execution \<Rightarrow> Node \<Rightarrow> dict" where
  "prepareNodeInput he node = Variables he ++ n_Config node"

datatype executor_error =
    StartFailed execution_error
  | NoTriggerNode
  | NoExecutor NodeType
  | NodeStartFailed execution_error
  | NodeFailed string string
  | NodeCompleteFailed execution_error

datatype node_result = AlreadyExecuted | NodeError executor_error | GoDownstream

definition nodeFailure :: "Node \<Rightarrow> string \<Rightarrow> ExecutionError" where
  "nodeFailure node msg = \<lparr> ee_Code = ''NODE_EXECUTION_FAILED'', ee_Message = msg,
     ee_Details = [''nodeId'' \<mapsto> VStr (n_ID node), ''nodeType'' \<mapsto> VStr (NodeType_string (n_Type node))], ee_NodeID = '''' \<rparr>"

text \<open>Everything that \<open>executeNode\<close> does before its loop over the downstream nodes.\<close>

definition runNode ::
  "'w WorkflowExecutor \<Rightarrow> ('w \<Rightarrow> time) \<Rightarrow> Node \<Rightarrow> 'w \<times> heap \<times> Execution \<Rightarrow> node_result \<times> 'w \<times> heap \<times> Execution" where
  "runNode ex now node s = (case s of (w, h, e) \<Rightarrow>
     if x_nodeExecutions e (n_ID node) \<noteq> None then (AlreadyExecuted, w, h, e)
     else (case ex (n_Type node) of
        None \<Rightarrow> (NodeError (NoExecutor (n_Type node)), w, h, e)
      | Some executor \<Rightarrow>
          (let inputData = prepareNodeInput (h, e) node; (r, h1) = make_map inputData h
           in (case StartNodeExecution (now w) (n_ID node) (NodeType_string (n_Type node)) (Some r) (h1, e) of
                Inl err \<Rightarrow> (NodeError (NodeStartFailed err), w, h1, e)
              | Inr (h2, e2) \<Rightarrow>
                  (case ne_Execute executor node inputData w of
                     (Inl msg, w2) \<Rightarrow>
                       (NodeError (NodeFailed (n_ID node) msg), w2,
                        case FailNodeExecution (now w2) (n_ID node) (nodeFailure node msg) e2 of
                          Inl _ \<Rightarrow> (h2, e2) | Inr e3 \<Rightarrow> (h2, e3))
                   | (Inr outputData, w2) \<Rightarrow>
                       (let (out, h3) = make_map outputData h2
                        in case CompleteNodeExecution (now w2) (n_ID node) (Some out) (h3, e2) of
                             Inl err \<Rightarrow> (NodeError (NodeCompleteFailed err), w2, h3, e2)
                           | Inr (h4, e4) \<Rightarrow> (GoDownstream, w2, h4, e4)))))))"

section \<open>The traversal\<close>

definition visited_of :: "'w \<times> heap \<times> Execution \<Rightarrow> string set" where
  "visited_of s = dom (x_nodeExecutions (snd (snd s)))"

text \<open>
  A loop that calls \<open>executeNode\<close> on each node of a list and ignores its error, with the body of
  \<open>executeNode\<close> inlined.
\<close>

function runAll ::
  "'w WorkflowExecutor \<Rightarrow> ('w \<Rightarrow> time) \<Rightarrow> Workflow \<Rightarrow> Node list \<Rightarrow> 'w \<times> heap \<times> Execution \<Rightarrow> 'w \<times> heap \<times> Execution" where
  "runAll ex now wfl [] s = s"
| "runAll ex now wfl (n # ns) s =
     (case runNode ex now n s of (r, s1) \<Rightarrow>
        if r = GoDownstream then runAll ex now wfl ns (runAll ex now wfl (findDownstreamNodes wfl (n_ID n)) s1)
        else runAll ex now wfl ns s1)"
  by pat_completeness auto


text \<open>A node that ran: its record is new, and completed exactly if the traversal goes on from it.\<close>

definition node_ran :: "Node \<Rightarrow> node_result \<Rightarrow> Execution \<Rightarrow> Execution \<Rightarrow> bool" where
  "node_ran n r e e' \<longleftrightarrow> x_nodeExecutions e (n_ID n) = None \<and> x_status e = ExecutionStatusRunning \<and>
     x_status e' = x_status e \<and> x_context e' = x_context e \<and>
     x_executionPath e' = x_executionPath e @ [n_ID n] \<and>
     (\<exists>ne. x_nodeExecutions e' = (x_nodeExecutions e)(n_ID n \<mapsto> ne) \<and>
        (r = GoDownstream \<longleftrightarrow> ne_Status ne = ExecutionStatusCompleted))"

lemma StartNode_Inr:
  "StartNodeExecution t i ty r (h, e) = Inr (h', e') \<Longrightarrow>
   x_status e = ExecutionStatusRunning \<and> x_status e' = x_status e \<and> x_context e' = x_context e \<and>
   x_executionPath e' = x_executionPath e @ [i] \<and>
   (\<exists>ne. x_nodeExecutions e' = (x_nodeExecutions e)(i \<mapsto> ne) \<and> ne_Status ne = ExecutionStatusRunning)"
  by (auto simp: StartNodeExecution_def make_map_def Let_def touchExecution_def split: if_splits)

lemma nodeDuration_status [simp]: "ne_Status (nodeDuration t ne) = ne_Status ne"
  by (simp add: nodeDuration_def split: option.split)

lemma FailNode_Some:
  "x_nodeExecutions e i = Some ne0 \<Longrightarrow>
   \<exists>e' ne. FailNodeExecution t i err e = Inr e' \<and> x_status e' = x_status e \<and> x_context e' = x_context e \<and>
     x_executionPath e' = x_executionPath e \<and> x_nodeExecutions e' = (x_nodeExecutions e)(i \<mapsto> ne) \<and>
     ne_Status ne = ExecutionStatusFailed"
  by (auto simp: FailNodeExecution_def Let_def touchExecution_def
      intro!: exI[of _ "nodeDuration t (ne0\<lparr>ne_Status := ExecutionStatusFailed, ne_Error := Some err, ne_CompletedAt := Some t\<rparr>)"])

lemma CompleteNode_Inr:
  "CompleteNodeExecution t i r (h, e) = Inr (h', e') \<Longrightarrow>
   x_status e' = x_status e \<and> x_context e' = x_context e \<and> x_executionPath e' = x_executionPath e \<and>
   (\<exists>ne. x_nodeExecutions e' = (x_nodeExecutions e)(i \<mapsto> ne) \<and> ne_Status ne = ExecutionStatusCompleted)"
  by (auto simp: CompleteNodeExecution_def Let_def touchExecution_def split: option.splits if_splits)

lemma runNode_ran:
  assumes "runNode ex now n (w, h, e) = (r, w', h', e')"
  shows "e' = e \<and> r \<noteq> GoDownstream \<or> ex (n_Type n) \<noteq> None \<and> node_ran n r e e'"
proof (cases "x_nodeExecutions e (n_ID n) = None \<and> ex (n_Type n) \<noteq> None")
  case False
  then show ?thesis
    using assms by (auto simp: runNode_def split: if_splits option.splits)
next
  case True
  then obtain executor where fresh: "x_nodeExecutions e (n_ID n) = None" and ex: "ex (n_Type n) = Some executor"
    by auto
  define input where "input = prepareNodeInput (h, e) n"
  obtain r1 h1 where h1: "make_map input h = (r1, h1)" by (cases "make_map input h")
  let ?start = "StartNodeExecution (now w) (n_ID n) (NodeType_string (n_Type n)) (Some r1) (h1, e)"
  show ?thesis
  proof (cases ?start)
    case (Inl err)
    then show ?thesis
      using assms fresh ex h1 by (auto simp: runNode_def input_def[symmetric])
  next
    case (Inr he2)
    obtain h2 e2 where he2: "he2 = (h2, e2)" by (cases he2)
    obtain ne2 where ne2: "x_nodeExecutions e2 = (x_nodeExecutions e)(n_ID n \<mapsto> ne2)"
        "ne_Status ne2 = ExecutionStatusRunning" "x_status e = ExecutionStatusRunning" "x_status e2 = x_status e"
        "x_context e2 = x_context e" "x_executionPath e2 = x_executionPath e @ [n_ID n]"
      using StartNode_Inr Inr he2 by blast
    obtain res w2 where run: "ne_Execute executor n input w = (res, w2)" by (cases "ne_Execute executor n input w")
    show ?thesis
    proof (cases res)
      case (Inl msg)
      then show ?thesis
        using assms fresh ex h1 Inr he2 ne2 run
          FailNode_Some[of e2 "n_ID n" ne2 "now w2" "nodeFailure n msg"]
        by (auto simp: runNode_def input_def[symmetric] node_ran_def)
    next
      case (Inr out)
      obtain r3 h3 where h3: "make_map out h2 = (r3, h3)" by (cases "make_map out h2")
      show ?thesis
        using assms fresh ex h1 \<open>?start = _\<close> Inr he2 ne2 run h3
          CompleteNode_Inr[of "now w2" "n_ID n" "Some r3" h3 e2]
        by (auto simp: runNode_def input_def[symmetric] node_ran_def split: sum.splits prod.splits)
    qed
  qed
qed

lemma runNode_visited:
  assumes "runNode ex now n s = (r, s')"
  shows "visited_of s \<subseteq> visited_of s' \<and> visited_of s' \<subseteq> insert (n_ID n) (visited_of s) \<and>
    (r = GoDownstream \<longrightarrow> n_ID n \<notin> visited_of s \<and> n_ID n \<in> visited_of s')"
  using assms runNode_ran[of ex now n "fst s" "fst (snd s)" "snd (snd s)" r "fst s'" "fst (snd s')" "snd (snd s')"]
  by (auto simp: node_ran_def visited_of_def)

lemma runAll_visited:
  "runAll_dom (ex, now, wfl, ns, s) \<Longrightarrow> visited_of s \<subseteq> visited_of (runAll ex now wfl ns s)"
proof (induction ex now wfl ns s rule: runAll.pinduct)
  case (2 ex now wfl n ns s)
  obtain r s1 where run: "runNode ex now n s = (r, s1)" by (cases "runNode ex now n s")
  show ?case
    using 2(2)[OF run[symmetric]] 2(3)[OF run[symmetric]] 2(4)[OF run[symmetric]] runNode_visited[OF run] run
    by (auto simp: runAll.psimps(2)[OF 2(1)])
qed (simp add: runAll.psimps)

lemma findDownstream_source: "findDownstreamNodes wfl x \<noteq> [] \<Longrightarrow> x \<in> graph_nodes (w_connections wfl)"
  by (auto simp: findDownstreamNodes_def List.map_filter_def graph_nodes_def filter_empty_conv split: if_splits)

termination runAll
proof (relation "inv_image (finite_psubset <*lex*> less_than)
    (\<lambda>(ex, now, wfl, ns, s). (graph_nodes (w_connections wfl) - visited_of s, length ns))", goal_cases)
  case 1
  show ?case
    by auto
next
  case (2 ex now wfl n ns s r s1)
  then show ?case
    using runNode_visited[OF 2(1)[symmetric]] findDownstream_source[of wfl "n_ID n"]
    by (cases "findDownstreamNodes wfl (n_ID n) = []") auto
next
  case (3 ex now wfl n ns s r s1)
  then show ?case
    using runNode_visited[OF 3(1)[symmetric]] runAll_visited[OF 3(3)] by auto
next
  case (4 ex now wfl n ns s r s1)
  then show ?case
    using runNode_visited[OF 4(1)[symmetric]] by auto
qed


definition Wf_executeNode ::
  "'w WorkflowExecutor \<Rightarrow> ('w \<Rightarrow> time) \<Rightarrow> Workflow \<Rightarrow> Node \<Rightarrow> 'w \<times> heap \<times> Execution \<Rightarrow>
   executor_error option \<times> 'w \<times> heap \<times> Execution" where
  "Wf_executeNode ex now wfl n s =
     (case runNode ex now n s of
        (AlreadyExecuted, s1) \<Rightarrow> (None, s1)
      | (NodeError err, s1) \<Rightarrow> (Some err, s1)
      | (GoDownstream, s1) \<Rightarrow> (None, runAll ex now wfl (findDownstreamNodes wfl (n_ID n)) s1))"

text \<open>The loop as the code has it.\<close>

lemma runAll_Wf_executeNode: "runAll ex now wfl (n # ns) s = runAll ex now wfl ns (snd (Wf_executeNode ex now wfl n s))"
  by (cases "runNode ex now n s"; cases "fst (runNode ex now n s)") (auto simp: Wf_executeNode_def)

definition ExecuteWorkflow ::
  "'w WorkflowExecutor \<Rightarrow> ('w \<Rightarrow> time) \<Rightarrow> Workflow \<Rightarrow> 'w \<times> heap \<times> Execution \<Rightarrow> executor_error option \<times> 'w \<times> heap \<times> Execution" where
  "ExecuteWorkflow ex now wfl s = (case s of (w, h, e) \<Rightarrow>
     (case Execution_Start (now w) e of
        Inl err \<Rightarrow> (Some (StartFailed err), w, h, e)
      | Inr e1 \<Rightarrow>
          (let triggerNodes = findNodesByType NodeTypeTrigger wfl
           in if triggerNodes = [] then
                (Some NoTriggerNode, w, h,
                 case Execution_Fail (now w) \<lparr> ee_Code = ''NO_TRIGGER'', ee_Message = ''No trigger node found in workflow'',
                     ee_Details = Map.empty, ee_NodeID = '''' \<rparr> e1 of Inl _ \<Rightarrow> e1 | Inr e2 \<Rightarrow> e2)
              else (case runAll ex now wfl triggerNodes (w, h, e1) of (w2, h2, e2) \<Rightarrow>
                (None, w2, h2,
                 if x_status e2 = ExecutionStatusRunning
                 then (case Execution_Complete (now w2) (ctx_Variables (x_context e2)) e2 of Inl _ \<Rightarrow> e2 | Inr e3 \<Rightarrow> e3)
                 else e2)))))"

section \<open>What a traversal reaches\<close>

definition completed :: "Execution \<Rightarrow> string \<Rightarrow> bool" where
  "completed e x \<longleftrightarrow> (case x_nodeExecutions e x of None \<Rightarrow> False | Some ne \<Rightarrow> ne_Status ne = ExecutionStatusCompleted)"

text \<open>The traversal goes from a completed node to the downstream nodes that have an executor.\<close>

definition goes :: "'w WorkflowExecutor \<Rightarrow> Workflow \<Rightarrow> Execution \<Rightarrow> (string \<times> string) set" where
  "goes ex wfl e = {(x, n_ID m) |x m. m \<in> set (findDownstreamNodes wfl x) \<and> ex (n_Type m) \<noteq> None \<and> completed e x}"

text \<open>From \<open>e\<close> to \<open>e'\<close> an execution kept its records and its status.\<close>

definition extends :: "Execution \<Rightarrow> Execution \<Rightarrow> bool" where
  "extends e e' \<longleftrightarrow> x_nodeExecutions e \<subseteq>\<^sub>m x_nodeExecutions e' \<and> x_status e' = x_status e \<and> x_context e' = x_context e"

lemma extends_refl [simp]: "extends e e"
  by (simp add: extends_def)

lemma extends_trans: "extends e e' \<Longrightarrow> extends e' e'' \<Longrightarrow> extends e e''"
  by (auto simp: extends_def intro: map_le_trans)

lemma extends_completed: "extends e e' \<Longrightarrow> x \<in> dom (x_nodeExecutions e) \<Longrightarrow> completed e' x = completed e x"
  by (auto simp: extends_def map_le_def completed_def split: option.split)

lemma extends_goes: "extends e e' \<Longrightarrow> goes ex wfl e \<subseteq> goes ex wfl e'"
  using extends_completed by (fastforce simp: goes_def completed_def split: option.splits)

lemma runNode_extends:
  assumes "runNode ex now n s = (r, s')"
  shows "extends (snd (snd s)) (snd (snd s'))"
  using runNode_ran[of ex now n "fst s" "fst (snd s)" "snd (snd s)" r "fst s'" "fst (snd s')" "snd (snd s')"] assms
  by (auto simp: extends_def node_ran_def map_le_def)

lemma runAll_extends: "extends (snd (snd s)) (snd (snd (runAll ex now wfl ns s)))"
proof (induction ex now wfl ns s rule: runAll.induct)
  case (2 ex now wfl n ns s)
  obtain r s1 where run: "runNode ex now n s = (r, s1)" by (cases "runNode ex now n s")
  show ?case
    using 2(1)[OF run[symmetric]] 2(2)[OF run[symmetric]] 2(3)[OF run[symmetric]] runNode_extends[OF run] run
    by (auto intro: extends_trans)
qed simp

lemma extends_visited: "extends (snd (snd s)) (snd (snd s')) \<Longrightarrow> visited_of s \<subseteq> visited_of s'"
  by (auto simp: extends_def visited_of_def map_le_def) (metis domI)

lemma runAll_mono: "visited_of s \<subseteq> visited_of (runAll ex now wfl ns s)"
  by (rule extends_visited, rule runAll_extends)

text \<open>The path lists the visited nodes once.\<close>

definition path_ok :: "Execution \<Rightarrow> bool" where
  "path_ok e \<longleftrightarrow> distinct (x_executionPath e) \<and> set (x_executionPath e) = dom (x_nodeExecutions e)"

lemma runAll_path: "path_ok (snd (snd s)) \<Longrightarrow> path_ok (snd (snd (runAll ex now wfl ns s)))"
proof (induction ex now wfl ns s rule: runAll.induct)
  case (2 ex now wfl n ns s)
  obtain r s1 where run: "runNode ex now n s = (r, s1)" by (cases "runNode ex now n s")
  have "path_ok (snd (snd s1))"
    using runNode_ran[of ex now n "fst s" "fst (snd s)" "snd (snd s)" r "fst s1" "fst (snd s1)" "snd (snd s1)"] run 2(4)
    by (auto simp: path_ok_def node_ran_def)
  then show ?case
    using 2(1)[OF run[symmetric]] 2(2)[OF run[symmetric]] 2(3)[OF run[symmetric]] run by auto
qed simp

text \<open>Every node of the list that has an executor is visited.\<close>

lemma runNode_done:
  "runNode ex now n s = (r, s') \<Longrightarrow> ex (n_Type n) \<noteq> None \<Longrightarrow> x_status (snd (snd s)) = ExecutionStatusRunning \<Longrightarrow>
   n_ID n \<in> visited_of s'"
  by (cases s) (auto simp: runNode_def visited_of_def StartNodeExecution_def make_map_def Let_def touchExecution_def
      CompleteNodeExecution_def FailNodeExecution_def split: if_splits option.splits sum.splits prod.splits)


lemma runNode_fresh:
  "runNode ex now n s = (r, s') \<Longrightarrow> x \<in> visited_of s' - visited_of s \<Longrightarrow>
   x = n_ID n \<and> ex (n_Type n) \<noteq> None \<and> (r = GoDownstream \<longleftrightarrow> completed (snd (snd s')) x)"
  using runNode_ran[of ex now n "fst s" "fst (snd s)" "snd (snd s)" r "fst s'" "fst (snd s')" "snd (snd s')"]
  by (auto simp: node_ran_def visited_of_def completed_def split: if_splits)

lemma runAll_done:
  "x_status (snd (snd s)) = ExecutionStatusRunning \<Longrightarrow> m \<in> set ns \<Longrightarrow> ex (n_Type m) \<noteq> None \<Longrightarrow>
   n_ID m \<in> visited_of (runAll ex now wfl ns s)"
proof (induction ns arbitrary: s)
  case (Cons n ns)
  obtain r s1 where run: "runNode ex now n s = (r, s1)" by (cases "runNode ex now n s")
  define s2 where "s2 = (if r = GoDownstream then runAll ex now wfl (findDownstreamNodes wfl (n_ID n)) s1 else s1)"
  have eq: "runAll ex now wfl (n # ns) s = runAll ex now wfl ns s2"
    using run by (simp add: s2_def)
  have ext: "extends (snd (snd s1)) (snd (snd s2))"
    by (simp add: s2_def runAll_extends)
  have st: "x_status (snd (snd s2)) = ExecutionStatusRunning"
    using ext runNode_extends[OF run] Cons.prems(1) by (simp add: extends_def)
  show ?case
  proof (cases "m = n")
    case True
    then have "n_ID m \<in> visited_of s2"
      using runNode_done[OF run _ Cons.prems(1)] Cons.prems(3) extends_visited[OF ext] by blast
    then show ?thesis
      using runAll_mono eq by fastforce
  next
    case False
    then show ?thesis
      using Cons.IH[OF st] Cons.prems(2,3) eq by simp
  qed
qed simp

text \<open>What a traversal visits lies on a path of completed nodes from its list, and is left complete.\<close>

lemma runAll_sound:
  "x \<in> visited_of (runAll ex now wfl ns s) - visited_of s \<Longrightarrow>
   \<exists>n \<in> set ns. ex (n_Type n) \<noteq> None \<and> (n_ID n, x) \<in> (goes ex wfl (snd (snd (runAll ex now wfl ns s))))\<^sup>*"
proof (induction ex now wfl ns s arbitrary: x rule: runAll.induct)
  case (2 ex now wfl n ns s)
  obtain r s1 where run: "runNode ex now n s = (r, s1)" by (cases "runNode ex now n s")
  define s2 where "s2 = (if r = GoDownstream then runAll ex now wfl (findDownstreamNodes wfl (n_ID n)) s1 else s1)"
  define s3 where "s3 = runAll ex now wfl ns s2"
  have eq: "runAll ex now wfl (n # ns) s = s3"
    using run by (simp add: s2_def s3_def)
  have ext12: "extends (snd (snd s1)) (snd (snd s2))"
    by (simp add: s2_def runAll_extends)
  have ext23: "extends (snd (snd s2)) (snd (snd s3))"
    by (simp add: s3_def runAll_extends)
  consider (new) "x \<in> visited_of s1 - visited_of s" | (below) "x \<in> visited_of s2 - visited_of s1" | (rest) "x \<in> visited_of s3 - visited_of s2"
    using 2(4) eq by auto
  then show ?case
  proof cases
    case new
    then show ?thesis
      using runNode_fresh[OF run] by auto
  next
    case below
    then have go: "r = GoDownstream"
      by (auto simp: s2_def split: if_splits)
    then obtain m where m: "m \<in> set (findDownstreamNodes wfl (n_ID n))" "ex (n_Type m) \<noteq> None"
        "(n_ID m, x) \<in> (goes ex wfl (snd (snd s2)))\<^sup>*"
      using 2(1)[OF run[symmetric] go, of x] below by (auto simp: s2_def)
    have n: "n_ID n \<in> visited_of s1 - visited_of s"
      using runNode_visited[OF run] go by blast
    then have "completed (snd (snd s3)) (n_ID n)"
      using runNode_fresh[OF run n] go extends_completed[OF extends_trans[OF ext12 ext23]] by (simp add: visited_of_def)
    then have "(n_ID n, n_ID m) \<in> goes ex wfl (snd (snd s3))"
      using m(1,2) by (auto simp: goes_def)
    moreover have "(n_ID m, x) \<in> (goes ex wfl (snd (snd s3)))\<^sup>*"
      using m(3) rtrancl_mono[OF extends_goes[OF ext23]] by blast
    ultimately show ?thesis
      using runNode_fresh[OF run n] eq by (auto intro: converse_rtrancl_into_rtrancl)
  next
    case rest
    have "\<exists>n \<in> set ns. ex (n_Type n) \<noteq> None \<and> (n_ID n, x) \<in> (goes ex wfl (snd (snd s3)))\<^sup>*"
    proof (cases "r = GoDownstream")
      case True
      then show ?thesis
        using 2(2)[OF run[symmetric] True, of x] rest by (simp add: s2_def s3_def)
    next
      case False
      then show ?thesis
        using 2(3)[OF run[symmetric] False, of x] rest by (simp add: s2_def s3_def)
    qed
    then show ?thesis
      using eq by auto
  qed
qed simp

lemma runAll_closed:
  "x_status (snd (snd s)) = ExecutionStatusRunning \<Longrightarrow>
   x \<in> visited_of (runAll ex now wfl ns s) - visited_of s \<Longrightarrow>
   (x, y) \<in> goes ex wfl (snd (snd (runAll ex now wfl ns s))) \<Longrightarrow> y \<in> visited_of (runAll ex now wfl ns s)"
proof (induction ex now wfl ns s rule: runAll.induct)
  case (2 ex now wfl n ns s)
  obtain r s1 where run: "runNode ex now n s = (r, s1)" by (cases "runNode ex now n s")
  define s2 where "s2 = (if r = GoDownstream then runAll ex now wfl (findDownstreamNodes wfl (n_ID n)) s1 else s1)"
  define s3 where "s3 = runAll ex now wfl ns s2"
  have eq: "runAll ex now wfl (n # ns) s = s3"
    using run by (simp add: s2_def s3_def)
  have ext12: "extends (snd (snd s1)) (snd (snd s2))"
    by (simp add: s2_def runAll_extends)
  have ext23: "extends (snd (snd s2)) (snd (snd s3))"
    by (simp add: s3_def runAll_extends)
  have st: "x_status (snd (snd s1)) = ExecutionStatusRunning" "x_status (snd (snd s2)) = ExecutionStatusRunning"
    using 2(4) runNode_extends[OF run] ext12 by (simp_all add: extends_def)
  have edge: "(x, y) \<in> goes ex wfl (snd (snd s2))" if "x \<in> visited_of s2"
    using 2(6) eq that extends_completed[OF ext23, of x] by (auto simp: goes_def visited_of_def)
  have keep: "y \<in> visited_of s3" if "y \<in> visited_of s2"
    using that extends_visited[OF ext23] by blast
  consider (new) "x \<in> visited_of s1 - visited_of s" | (below) "x \<in> visited_of s2 - visited_of s1" | (rest) "x \<in> visited_of s3 - visited_of s2"
    using 2(5) eq by auto
  then show ?case
  proof cases
    case new
    then have x: "x = n_ID n" and x2: "x \<in> visited_of s2"
      using runNode_fresh[OF run] extends_visited[OF ext12] by auto
    have "completed (snd (snd s1)) x"
      using edge[OF x2] extends_completed[OF ext12, of x] new by (auto simp: goes_def visited_of_def)
    then have go: "r = GoDownstream"
      using runNode_fresh[OF run new] by simp
    obtain m where "m \<in> set (findDownstreamNodes wfl (n_ID n))" "ex (n_Type m) \<noteq> None" "y = n_ID m"
      using edge[OF x2] x by (auto simp: goes_def)
    then have "y \<in> visited_of s2"
      using runAll_done[OF st(1)] go by (simp add: s2_def)
    then show ?thesis
      using keep eq by simp
  next
    case below
    then have go: "r = GoDownstream"
      by (auto simp: s2_def split: if_splits)
    then show ?thesis
      using 2(1)[OF run[symmetric] go st(1)] below edge keep eq by (simp add: s2_def)
  next
    case rest
    have "y \<in> visited_of s3"
    proof (cases "r = GoDownstream")
      case True
      then show ?thesis
        using 2(2)[OF run[symmetric] True] st(2) rest 2(6) eq by (simp add: s2_def s3_def)
    next
      case False
      then show ?thesis
        using 2(3)[OF run[symmetric] False] st(2) rest 2(6) eq by (simp add: s2_def s3_def)
    qed
    then show ?thesis
      using eq by simp
  qed
qed simp

section \<open>Properties\<close>

lemma Complete_frame:
  "Execution_Complete t r e = Inr e' \<Longrightarrow> x_nodeExecutions e' = x_nodeExecutions e \<and>
   x_executionPath e' = x_executionPath e \<and> x_status e' = ExecutionStatusCompleted"
  by (auto simp: Execution_Complete_def touchExecution_def setDuration_def split: if_splits option.splits)

lemma Complete_running: "x_status e = ExecutionStatusRunning \<Longrightarrow> \<exists>e'. Execution_Complete t r e = Inr e'"
  by (simp add: Execution_Complete_def)

lemma goes_cong: "x_nodeExecutions e = x_nodeExecutions e' \<Longrightarrow> goes ex wfl e = goes ex wfl e'"
  by (simp add: goes_def completed_def)

text \<open>A pending execution that no node has touched.\<close>

definition untouched :: "Execution \<Rightarrow> bool" where
  "untouched e \<longleftrightarrow> x_status e = ExecutionStatusPending \<and> x_executionPath e = [] \<and> x_nodeExecutions e = Map.empty"

lemma ExecuteWorkflow_run:
  assumes "untouched e" and "findNodesByType NodeTypeTrigger wfl \<noteq> []"
    and "ExecuteWorkflow ex now wfl (w, h, e) = (err, w', h', e')"
  obtains s1 e2 where "runAll ex now wfl (findNodesByType NodeTypeTrigger wfl) s1 = (w', h', e2)"
    and "untouched ((snd (snd s1))\<lparr> x_status := ExecutionStatusPending \<rparr>)" and "x_status (snd (snd s1)) = ExecutionStatusRunning"
    and "err = None" and "x_status e' = ExecutionStatusCompleted"
    and "x_nodeExecutions e' = x_nodeExecutions e2" and "x_executionPath e' = x_executionPath e2" and "fst s1 = w"
proof -
  obtain e1 where e1: "Execution_Start (now w) e = Inr e1" "x_status e1 = ExecutionStatusRunning"
      "untouched (e1\<lparr> x_status := ExecutionStatusPending \<rparr>)"
    using assms(1) by (simp add: Execution_Start_def untouched_def touchExecution_def)
  obtain w2 h2 e2 where run: "runAll ex now wfl (findNodesByType NodeTypeTrigger wfl) (w, h, e1) = (w2, h2, e2)"
    by (metis prod_cases3)
  have st: "x_status e2 = ExecutionStatusRunning"
    using runAll_extends[of "(w, h, e1)" ex now wfl "findNodesByType NodeTypeTrigger wfl"] run e1(2)
    by (simp add: extends_def)
  obtain e3 where e3: "Execution_Complete (now w2) (ctx_Variables (x_context e2)) e2 = Inr e3"
    using Complete_running[OF st] by blast
  have "err = None \<and> w' = w2 \<and> h' = h2 \<and> e' = e3"
    using assms(2,3) e1(1) run st e3 by (simp add: ExecuteWorkflow_def)
  then show thesis
    using that[of "(w, h, e1)" e2] run e1 Complete_frame[OF e3] by simp
qed

text \<open>C15: running a workflow with a trigger on an untouched execution always ends it as completed, whatever
  its nodes do and even on cyclic connections: each node runs at most once, and the nodes that ran are
  exactly those that can be reached from the triggers through nodes that completed and connections to
  nodes with an executor, if triggers have one.\<close>

theorem ExecuteWorkflow_visits:
  assumes "untouched e" and "findNodesByType NodeTypeTrigger wfl \<noteq> []"
    and "ExecuteWorkflow ex now wfl (w, h, e) = (err, w', h', e')"
  shows "err = None \<and> x_status e' = ExecutionStatusCompleted \<and> distinct (x_executionPath e') \<and>
    set (x_executionPath e') =
      (goes ex wfl e')\<^sup>* `` {n_ID t |t. t \<in> set (findNodesByType NodeTypeTrigger wfl) \<and> ex NodeTypeTrigger \<noteq> None}"
proof -
  let ?ts = "findNodesByType NodeTypeTrigger wfl"
  obtain s1 e2 where run: "runAll ex now wfl ?ts s1 = (w', h', e2)"
    and unt: "untouched ((snd (snd s1))\<lparr> x_status := ExecutionStatusPending \<rparr>)"
    and st: "x_status (snd (snd s1)) = ExecutionStatusRunning"
    and e': "err = None" "x_status e' = ExecutionStatusCompleted"
      "x_nodeExecutions e' = x_nodeExecutions e2" "x_executionPath e' = x_executionPath e2"
    using ExecuteWorkflow_run[OF assms] by blast
  have path: "path_ok e2"
    using runAll_path[of s1 ex now wfl ?ts] run unt by (simp add: path_ok_def untouched_def)
  have empty: "visited_of s1 = {}"
    using unt by (simp add: visited_of_def untouched_def)
  define V where "V = visited_of (w', h', e2)"
  have ty: "n_Type t = NodeTypeTrigger" if "t \<in> set ?ts" for t
    using that by (simp add: findNodesByType_def)
  have "V \<subseteq> (goes ex wfl e2)\<^sup>* `` {n_ID t |t. t \<in> set ?ts \<and> ex NodeTypeTrigger \<noteq> None}"
    using runAll_sound[of _ ex now wfl ?ts s1] run empty ty by (fastforce simp: V_def)
  moreover have "y \<in> V" if "(n_ID t, y) \<in> (goes ex wfl e2)\<^sup>*" "t \<in> set ?ts" "ex NodeTypeTrigger \<noteq> None" for t y
    using that(1)
  proof (induction rule: rtrancl_induct)
    case base
    then show ?case
      using runAll_done[OF st, of t ?ts ex now wfl] that(2,3) ty run by (simp add: V_def)
  next
    case (step y z)
    then show ?case
      using runAll_closed[OF st, of y ex now wfl ?ts z] run empty by (simp add: V_def)
  qed
  ultimately have "V = (goes ex wfl e2)\<^sup>* `` {n_ID t |t. t \<in> set ?ts \<and> ex NodeTypeTrigger \<noteq> None}"
    by blast
  moreover have "goes ex wfl e' = goes ex wfl e2"
    by (rule goes_cong) (rule e'(3))
  ultimately show ?thesis
    using path e' by (simp add: path_ok_def V_def visited_of_def)
qed

text \<open>The executor that \<open>NewWorkflowExecutor\<close> returns has no executor for triggers, so it runs no node
  of any workflow, and reports every workflow with a trigger as completed.\<close>

theorem default_executor_runs_nothing:
  fixes w :: 'w
  assumes "untouched e" and "findNodesByType NodeTypeTrigger wfl \<noteq> []"
  shows "case ExecuteWorkflow NewWorkflowExecutor now wfl (w, h, e) of (err, w', h', e') \<Rightarrow>
    err = None \<and> w' = w \<and> x_status e' = ExecutionStatusCompleted \<and> x_executionPath e' = []"
proof -
  obtain err w' h' e' where run: "ExecuteWorkflow NewWorkflowExecutor now wfl (w, h, e) = (err, w', h', e')"
    by (metis prod_cases4)
  obtain s1 e2 where s1: "runAll NewWorkflowExecutor now wfl (findNodesByType NodeTypeTrigger wfl) s1 = (w', h', e2)"
    "untouched ((snd (snd s1))\<lparr> x_status := ExecutionStatusPending \<rparr>)" and fin: "err = None"
    "x_status e' = ExecutionStatusCompleted" "x_executionPath e' = x_executionPath e2" "fst s1 = w"
    using ExecuteWorkflow_run[OF assms run] by blast
  have "runNode NewWorkflowExecutor now n s = (NodeError (NoExecutor (n_Type n)), s) \<or> runNode NewWorkflowExecutor now n s = (AlreadyExecuted, s)"
    if "n_Type n = NodeTypeTrigger" for n and s :: "'w \<times> heap \<times> Execution"
    using that by (auto simp: runNode_def NewWorkflowExecutor_def RegisterExecutor_def split: prod.split)
  note trigger = this
  have skips: "runAll NewWorkflowExecutor now wfl ns s = s" if "\<forall>n \<in> set ns. n_Type n = NodeTypeTrigger" for ns and s :: "'w \<times> heap \<times> Execution"
    using that
  proof (induction ns)
    case (Cons n ns)
    then show ?case
      using trigger[of n s] by (cases "runNode NewWorkflowExecutor now n s") auto
  qed simp
  have "runAll NewWorkflowExecutor now wfl (findNodesByType NodeTypeTrigger wfl) s1 = s1"
    by (rule skips) (simp add: findNodesByType_def)
  then have "s1 = (w', h', e2)"
    using s1(1) by simp
  then show ?thesis
    using run fin s1(2) by (simp add: untouched_def)
qed


definition cyclic_workflow :: Workflow where
  "cyclic_workflow = sample_workflow [sample_node ''a'' NodeTypeTrigger, sample_node ''b'' NodeTypeAction]
     [sample_conn ''a'' ''b'', sample_conn ''b'' ''a'']"

lemma cyclic_workflow_triggers: "findNodesByType NodeTypeTrigger cyclic_workflow \<noteq> []"
  by (simp add: cyclic_workflow_def findNodesByType_def sample_defs)

lemma sample_exec_untouched: "untouched (snd sample_exec)"
  by (simp add: untouched_def sample_exec_def NewExecution_def make_map_def Let_def)

lemma ExecuteWorkflow_visits_witness:
  "case ExecuteWorkflow (\<lambda>t. Some \<lparr> ne_Execute = Transform_Execute, ne_GetType = t \<rparr>) (\<lambda>_. 0) cyclic_workflow
     ((), fst sample_exec, snd sample_exec) of
   (err, w', h', e') \<Rightarrow> x_status e' = ExecutionStatusCompleted \<and> distinct (x_executionPath e')"
  by (auto simp del: prod.collapse split: prod.split
      dest!: ExecuteWorkflow_visits[OF sample_exec_untouched cyclic_workflow_triggers])

lemma default_executor_runs_nothing_witness:
  "case ExecuteWorkflow NewWorkflowExecutor (\<lambda>_. 0) cyclic_workflow ((), fst sample_exec, snd sample_exec) of
   (err, w', h', e') \<Rightarrow> err = None \<and> w' = () \<and> x_status e' = ExecutionStatusCompleted \<and> x_executionPath e' = []"
  using default_executor_runs_nothing[OF sample_exec_untouched cyclic_workflow_triggers] .

end
