(* ===== verification/Expression.thy ===== *)
theory Expression
  imports Prelude
begin

text \<open>
  The expression language of workflow data (\<open>pkg/expression/parser.go\<close>): templates, references,
  paths and function calls. A string is its list of bytes; each regular expression of the code is a
  function that gives the groups of a match. \<open>strings.TrimSpace\<close> is modelled for ASCII white space.
  The built-in functions, \<open>strconv.ParseFloat\<close>, the formatting of times and floats and
  \<open>json.Marshal\<close> are fields of the parser record.
\<close>

section \<open>Strings\<close>

definition isSpace :: "char \<Rightarrow> bool" where
  "isSpace c \<longleftrightarrow> of_char c \<in> {9, 10, 11, 12, 13, 32 :: nat}"

definition TrimSpace :: "string \<Rightarrow> string" where
  "TrimSpace s = rev (dropWhile isSpace (rev (dropWhile isSpace s)))"

definition HasPrefix :: "string \<Rightarrow> string \<Rightarrow> bool" where
  "HasPrefix s p \<longleftrightarrow> take (length p) s = p"

definition HasSuffix :: "string \<Rightarrow> string \<Rightarrow> bool" where
  "HasSuffix s p \<longleftrightarrow> HasPrefix (rev s) (rev p)"

definition TrimPrefix :: "string \<Rightarrow> string \<Rightarrow> string" where
  "TrimPrefix s p = (if HasPrefix s p then drop (length p) s else s)"

definition TrimSuffix :: "string \<Rightarrow> string \<Rightarrow> string" where
  "TrimSuffix s p = (if HasSuffix s p then take (length s - length p) s else s)"

text \<open>\<open>strings.Trim\<close> with a one-character cutset.\<close>

definition TrimChar :: "string \<Rightarrow> char \<Rightarrow> string" where
  "TrimChar s c = rev (dropWhile ((=) c) (rev (dropWhile ((=) c) s)))"

fun Contains :: "string \<Rightarrow> string \<Rightarrow> bool" where
  "Contains [] p \<longleftrightarrow> p = []"
| "Contains (c # s) p \<longleftrightarrow> HasPrefix (c # s) p \<or> Contains s p"

text \<open>\<open>strings.ReplaceAll\<close> of a two-character pattern.\<close>

fun ReplaceAll2 :: "string \<Rightarrow> char \<Rightarrow> char \<Rightarrow> string \<Rightarrow> string" where
  "ReplaceAll2 (c # d # s) a b new =
     (if c = a \<and> d = b then new @ ReplaceAll2 s a b new else c # ReplaceAll2 (d # s) a b new)"
| "ReplaceAll2 s a b new = s"

text \<open>\<open>strings.Split\<close> at a character.\<close>

fun SplitChar :: "char \<Rightarrow> string \<Rightarrow> string list" where
  "SplitChar sep [] = [[]]"
| "SplitChar sep (c # s) =
     (if c = sep then [] # SplitChar sep s
      else (case SplitChar sep s of [] \<Rightarrow> [[c]] | p # ps \<Rightarrow> (c # p) # ps))"

definition digitValue :: "char \<Rightarrow> int" where
  "digitValue c = int (of_char c) - 48"

definition isDigit :: "char \<Rightarrow> bool" where
  "isDigit c \<longleftrightarrow> 48 \<le> (of_char c :: nat) \<and> (of_char c :: nat) \<le> 57"

definition digitsValue :: "string \<Rightarrow> int" where
  "digitsValue s = foldl (\<lambda>n c. n * 10 + digitValue c) 0 s"

text \<open>\<open>strconv.Atoi\<close>: an optional sign and digits within the range of a 64-bit integer.\<close>

definition Atoi :: "string \<Rightarrow> int option" where
  "Atoi s =
     (let (neg, ds) = (case s of [] \<Rightarrow> (False, []) | c # t \<Rightarrow> if c = CHR ''-'' then (True, t) else if c = CHR ''+'' then (False, t) else (False, s));
          n = (if neg then - digitsValue ds else digitsValue ds)
      in if ds = [] \<or> \<not> list_all isDigit ds then None
         else if n < - (2 ^ 63) \<or> n > 2 ^ 63 - 1 then None else Some n)"

fun showNat :: "nat \<Rightarrow> string" where
  "showNat n = (if n < 10 then [char_of (48 + n)] else showNat (n div 10) @ [char_of (48 + n mod 10)])"

declare showNat.simps [simp del]

definition showInt :: "int \<Rightarrow> string" where
  "showInt n = (if n < 0 then ''-'' @ showNat (nat (- n)) else showNat (nat n))"

section \<open>The context\<close>

record ExprExecution =
  ee_ID :: string
  ee_Mode :: string
  ee_Timestamp :: time

record ExprWorkflow =
  ew_ID :: string
  ew_Name :: string
  ew_Active :: bool

record Context =
  cx_NodeOutputs :: "string \<rightharpoonup> dict"
  cx_Input :: "value"
  cx_Env :: "string \<rightharpoonup> string"
  cx_Variables :: dict
  cx_Execution :: ExprExecution
  cx_Workflow :: ExprWorkflow

definition NewContext :: "time \<Rightarrow> Context" where
  "NewContext now = \<lparr> cx_NodeOutputs = Map.empty, cx_Input = VNil, cx_Env = Map.empty, cx_Variables = Map.empty,
     cx_Execution = \<lparr> ee_ID = '''', ee_Mode = '''', ee_Timestamp = now \<rparr>,
     cx_Workflow = \<lparr> ew_ID = '''', ew_Name = '''', ew_Active = False \<rparr> \<rparr>"

definition SetNodeOutput :: "string \<Rightarrow> dict \<Rightarrow> Context \<Rightarrow> Context" where
  "SetNodeOutput nodeID out c = c\<lparr> cx_NodeOutputs := (cx_NodeOutputs c)(nodeID \<mapsto> out) \<rparr>"

definition SetInput :: "value \<Rightarrow> Context \<Rightarrow> Context" where
  "SetInput input c = c\<lparr> cx_Input := input \<rparr>"

text \<open>How a built-in function can fail; a panic ends the program, or the handler that recovers from it.\<close>

datatype fn_error = FnError string | FnPanic

datatype expr_error =
    NodeNotInContext string
  | FieldNotFound string
  | NoFields string
  | InvalidArrayIndex string
  | ExpectedArray string
  | IndexOutOfBounds int
  | UnknownDate string
  | UnknownExecutionField string
  | UnknownWorkflowField string
  | UnknownFunction string
  | FunctionError fn_error

record Parser =
  pr_functions :: "string \<Rightarrow> (value list \<Rightarrow> fn_error + value) option"
  pr_ParseFloat :: "string \<Rightarrow> rat option"
  pr_RFC3339 :: "time \<Rightarrow> string"
  pr_Date :: "time \<Rightarrow> string"
  pr_FormatFloat :: "rat \<Rightarrow> string"
  pr_Marshal :: "value \<Rightarrow> string"
  pr_Now :: time

section \<open>Paths\<close>

fun getField :: "value \<Rightarrow> string \<Rightarrow> expr_error + value" where
  "getField (VMap d) field = (case d field of None \<Rightarrow> Inl (FieldNotFound field) | Some v \<Rightarrow> Inr v)"
| "getField data field = Inl (NoFields field)"

text \<open>One step of the loop over the parts of a path.\<close>

definition pathStep :: "value \<Rightarrow> string \<Rightarrow> expr_error + value" where
  "pathStep current part =
     (if CHR ''['' \<in> set part then
        (let fieldName = takeWhile (\<lambda>c. c \<noteq> CHR ''['') part;
             indexStr = TrimSuffix (tl (dropWhile (\<lambda>c. c \<noteq> CHR ''['') part)) '']''
         in case Atoi indexStr of
              None \<Rightarrow> Inl (InvalidArrayIndex indexStr)
            | Some index \<Rightarrow>
                (case (if fieldName \<noteq> '''' then getField current fieldName else Inr current) of
                   Inl e \<Rightarrow> Inl e
                 | Inr (VList arr) \<Rightarrow>
                     if index < 0 \<or> index \<ge> int (length arr) then Inl (IndexOutOfBounds index) else Inr (arr ! nat index)
                 | Inr _ \<Rightarrow> Inl (ExpectedArray part)))
      else getField current part)"

fun pathLoop :: "value \<Rightarrow> string list \<Rightarrow> expr_error + value" where
  "pathLoop current [] = Inr current"
| "pathLoop current (part # parts) =
     (case pathStep current part of Inl e \<Rightarrow> Inl e | Inr v \<Rightarrow> pathLoop v parts)"

definition getValueByPath :: "value \<Rightarrow> string \<Rightarrow> expr_error + value" where
  "getValueByPath data path = (if path = '''' then Inr data else pathLoop data (SplitChar (CHR ''.'') path))"


section \<open>Arguments\<close>

abbreviation (input) DQuote :: char where "DQuote \<equiv> CHR 0x22"
abbreviation (input) SQuote :: char where "SQuote \<equiv> CHR 0x27"
abbreviation (input) Backslash :: char where "Backslash \<equiv> CHR 0x5C"

text \<open>
  One byte of the loop of \<open>splitArguments\<close>, from the byte before it, the depth of brackets and the
  quote of the string the loop is in: whether it separates two arguments, the new depth and quote.
\<close>

definition scanByte :: "char option \<Rightarrow> int \<Rightarrow> char option \<Rightarrow> char \<Rightarrow> bool \<times> int \<times> char option" where
  "scanByte prev depth inString c =
     (case inString of
        Some stringChar \<Rightarrow> (False, depth, if c = stringChar \<and> prev \<noteq> Some Backslash then None else inString)
      | None \<Rightarrow>
          if c = DQuote \<or> c = SQuote then (False, depth, Some c)
          else if c = CHR ''('' \<or> c = CHR ''['' \<or> c = CHR ''{'' then (False, depth + 1, None)
          else if c = CHR '')'' \<or> c = CHR '']'' \<or> c = CHR ''}'' then (False, depth - 1, None)
          else if c = CHR '','' \<and> depth = 0 then (True, depth, None)
          else (False, depth, None))"

fun splitLoop :: "char option \<Rightarrow> int \<Rightarrow> char option \<Rightarrow> string \<Rightarrow> string \<Rightarrow> string list" where
  "splitLoop prev depth inString current [] = (if current \<noteq> [] then [current] else [])"
| "splitLoop prev depth inString current (c # s) =
     (case scanByte prev depth inString c of (separator, depth', inString') \<Rightarrow>
        if separator then current # splitLoop (Some c) depth' inString' [] s
        else splitLoop (Some c) depth' inString' (current @ [c]) s)"

definition splitArguments :: "string \<Rightarrow> string list" where
  "splitArguments s = splitLoop None 0 None [] s"

lemma splitLoop_length:
  "p \<in> set (splitLoop prev depth q cur s) \<Longrightarrow> length p \<le> length cur + length s"
proof (induction s arbitrary: prev depth q cur)
  case (Cons c s)
  then show ?case
    by (fastforce split: prod.splits if_splits)
qed (simp split: if_splits)

lemma splitArguments_length: "p \<in> set (splitArguments s) \<Longrightarrow> length p \<le> length s"
  using splitLoop_length by (fastforce simp: splitArguments_def)

lemma TrimSpace_length: "length (TrimSpace s) \<le> length s"
  by (metis TrimSpace_def length_dropWhile_le length_rev order_trans)

section \<open>Regular expressions\<close>

definition isLine :: "string \<Rightarrow> bool" where
  "isLine s \<longleftrightarrow> s \<noteq> [] \<and> CHR 0x0A \<notin> set s"

text \<open>\<open>^\$name\.(.+)$\<close>\<close>

definition matchField :: "string \<Rightarrow> string \<Rightarrow> string option" where
  "matchField name expr =
     (let p = ''$'' @ name @ ''.'' in
      if HasPrefix expr p \<and> isLine (drop (length p) expr) then Some (drop (length p) expr) else None)"

text \<open>\<open>^\$json(?:\.|\[)(.+)$\<close>\<close>

definition matchJson :: "string \<Rightarrow> string option" where
  "matchJson expr =
     (if HasPrefix expr ''$json.'' \<or> HasPrefix expr ''$json['' then
        (if isLine (drop 6 expr) then Some (drop 6 expr) else None)
      else None)"

text \<open>\<open>^\$(now|today|timestamp)$\<close>\<close>

definition matchDate :: "string \<Rightarrow> string option" where
  "matchDate expr = (if expr \<in> {''$now'', ''$today'', ''$timestamp''} then Some (tl expr) else None)"

text \<open>\<open>^\$node\.([^.]+)\.([^.]+)(?:\.(.+))?$\<close>, the last group empty when it is absent.\<close>

definition matchNode :: "string \<Rightarrow> (string \<times> string \<times> string) option" where
  "matchNode expr =
     (let r = drop 6 expr;
          a = takeWhile (\<lambda>c. c \<noteq> CHR ''.'') r; r1 = dropWhile (\<lambda>c. c \<noteq> CHR ''.'') r;
          b = takeWhile (\<lambda>c. c \<noteq> CHR ''.'') (tl r1); r2 = dropWhile (\<lambda>c. c \<noteq> CHR ''.'') (tl r1)
      in if \<not> HasPrefix expr ''$node.'' \<or> a = [] \<or> r1 = [] \<or> b = [] then None
         else if r2 = [] then Some (a, b, '''')
         else if isLine (tl r2) then Some (a, b, tl r2) else None)"

definition isWord :: "char \<Rightarrow> bool" where
  "isWord c \<longleftrightarrow> isDigit c \<or> (of_char c :: nat) \<in> {65..90} \<or> (of_char c :: nat) \<in> {97..122} \<or> c = CHR ''_''"

text \<open>\<open>^\$func\.(\w+)\((.+)\)$\<close>\<close>

definition matchFunc :: "string \<Rightarrow> (string \<times> string) option" where
  "matchFunc expr =
     (let r = drop 6 expr; name = takeWhile isWord r; r1 = dropWhile isWord r
      in if HasPrefix expr ''$func.'' \<and> name \<noteq> [] \<and> 2 \<le> length r1 \<and> hd r1 = CHR ''('' \<and> last r1 = CHR '')'' \<and>
            isLine (butlast (tl r1))
         then Some (name, butlast (tl r1)) else None)"

lemma matchFunc_length: "matchFunc expr = Some (name, args) \<Longrightarrow> length args < length expr"
proof -
  assume m: "matchFunc expr = Some (name, args)"
  let ?r1 = "dropWhile isWord (drop 6 expr)"
  have "args = butlast (tl ?r1)" and "2 \<le> length ?r1"
    using m by (auto simp: matchFunc_def Let_def split: if_splits)
  moreover have "length ?r1 \<le> length expr"
    using length_dropWhile_le[of isWord "drop 6 expr"] by simp
  ultimately show ?thesis
    by simp
qed

section \<open>Evaluation\<close>

text \<open>The first error of a list of evaluations, or all their results.\<close>

fun collect :: "('a \<Rightarrow> 'e + 'b) \<Rightarrow> 'a list \<Rightarrow> 'e + 'b list" where
  "collect f [] = Inr []"
| "collect f (x # xs) =
     (case f x of Inl e \<Rightarrow> Inl e
      | Inr y \<Rightarrow> (case collect f xs of Inl e \<Rightarrow> Inl e | Inr ys \<Rightarrow> Inr (y # ys)))"

lemma collect_cong [fundef_cong]:
  "xs = ys \<Longrightarrow> (\<And>x. x \<in> set ys \<Longrightarrow> f x = g x) \<Longrightarrow> collect f xs = collect g ys"
  by (induction ys arbitrary: xs) (auto split: sum.split)

definition evaluateNodeData :: "string \<times> string \<times> string \<Rightarrow> Context \<Rightarrow> expr_error + value" where
  "evaluateNodeData m ctx = (case m of (nodeID, dataType, path) \<Rightarrow>
     (case cx_NodeOutputs ctx nodeID of
        None \<Rightarrow> Inl (NodeNotInContext nodeID)
      | Some nodeOutput \<Rightarrow>
          (let data = (if dataType = ''data'' \<or> dataType = ''json'' then VMap nodeOutput
                       else (case nodeOutput dataType of None \<Rightarrow> VNil | Some v \<Rightarrow> v))
           in if path = '''' then Inr data else getValueByPath data path)))"

definition evaluateJSONPath :: "string \<Rightarrow> value \<Rightarrow> expr_error + value" where
  "evaluateJSONPath path data =
     getValueByPath data (TrimPrefix (ReplaceAll2 (ReplaceAll2 path (CHR ''['') DQuote ''.'') DQuote (CHR '']'') '''') ''.'')"

definition evaluateInput :: "string \<Rightarrow> Context \<Rightarrow> expr_error + value" where
  "evaluateInput field ctx =
     (if field = ''item'' then Inr (cx_Input ctx) else if field = ''all'' then Inr (cx_Input ctx)
      else getValueByPath (cx_Input ctx) field)"

definition evaluateDate :: "Parser \<Rightarrow> string \<Rightarrow> expr_error + value" where
  "evaluateDate p dateType =
     (if dateType = ''now'' then Inr (VStr (pr_RFC3339 p (pr_Now p)))
      else if dateType = ''today'' then Inr (VStr (pr_Date p (pr_Now p)))
      else if dateType = ''timestamp'' then Inr (VInt (pr_Now p div Second))
      else Inl (UnknownDate dateType))"

definition evaluateExecution :: "Parser \<Rightarrow> string \<Rightarrow> Context \<Rightarrow> expr_error + value" where
  "evaluateExecution p field ctx =
     (if field = ''id'' then Inr (VStr (ee_ID (cx_Execution ctx)))
      else if field = ''mode'' then Inr (VStr (ee_Mode (cx_Execution ctx)))
      else if field = ''timestamp'' then Inr (VStr (pr_RFC3339 p (ee_Timestamp (cx_Execution ctx))))
      else Inl (UnknownExecutionField field))"

definition evaluateWorkflow :: "string \<Rightarrow> Context \<Rightarrow> expr_error + value" where
  "evaluateWorkflow field ctx =
     (if field = ''id'' then Inr (VStr (ew_ID (cx_Workflow ctx)))
      else if field = ''name'' then Inr (VStr (ew_Name (cx_Workflow ctx)))
      else if field = ''active'' then Inr (VBool (ew_Active (cx_Workflow ctx)))
      else Inl (UnknownWorkflowField field))"

text \<open>An argument that is not an expression.\<close>

definition literalArgument :: "Parser \<Rightarrow> string \<Rightarrow> value" where
  "literalArgument p part =
     (if HasPrefix part [DQuote] \<and> HasSuffix part [DQuote] then VStr (TrimChar part DQuote)
      else if HasPrefix part [SQuote] \<and> HasSuffix part [SQuote] then VStr (TrimChar part SQuote)
      else (case pr_ParseFloat p part of
          Some num \<Rightarrow> VNum num
        | None \<Rightarrow> if part = ''true'' then VBool True else if part = ''false'' then VBool False
                  else if part = ''null'' then VNil else VStr part))"

function evaluateExpression :: "Parser \<Rightarrow> Context \<Rightarrow> string \<Rightarrow> expr_error + value" where
  "evaluateExpression p ctx expr0 =
     (let expr = TrimSpace expr0 in
      case matchFunc expr of
        Some (name, argsStr) \<Rightarrow>
          (case pr_functions p name of
             None \<Rightarrow> Inl (UnknownFunction name)
           | Some fn \<Rightarrow>
               (case collect (\<lambda>part. let part1 = TrimSpace part in
                    if HasPrefix part1 ''$'' then evaluateExpression p ctx part1 else Inr (literalArgument p part1))
                  (splitArguments argsStr) of
                  Inl e \<Rightarrow> Inl e
                | Inr args \<Rightarrow> (case fn args of Inl e \<Rightarrow> Inl (FunctionError e) | Inr v \<Rightarrow> Inr v)))
      | None \<Rightarrow> (case matchNode expr of Some m \<Rightarrow> evaluateNodeData m ctx
      | None \<Rightarrow> (case matchJson expr of Some path \<Rightarrow> evaluateJSONPath path (cx_Input ctx)
      | None \<Rightarrow> (case matchField ''env'' expr of
            Some v \<Rightarrow> Inr (VStr (case cx_Env ctx v of None \<Rightarrow> '''' | Some s \<Rightarrow> s))
      | None \<Rightarrow> (case matchField ''input'' expr of Some f \<Rightarrow> evaluateInput f ctx
      | None \<Rightarrow> (case matchDate expr of Some d \<Rightarrow> evaluateDate p d
      | None \<Rightarrow> (case matchField ''execution'' expr of Some f \<Rightarrow> evaluateExecution p f ctx
      | None \<Rightarrow> (case matchField ''workflow'' expr of Some f \<Rightarrow> evaluateWorkflow f ctx
      | None \<Rightarrow>
          if HasPrefix expr ''$vars.''
          then Inr (case cx_Variables ctx (drop 6 expr) of None \<Rightarrow> VNil | Some v \<Rightarrow> v)
          else Inr (VStr expr)))))))))"
  by auto

termination evaluateExpression
proof (relation "measure (\<lambda>(p, ctx, expr). length expr)", goal_cases)
  case (2 p ctx expr0 expr m name argsStr fn part part1)
  then show ?case
    using matchFunc_length[of "TrimSpace expr0" name argsStr] splitArguments_length[of part argsStr]
      TrimSpace_length[of part] TrimSpace_length[of expr0] by simp
qed simp

declare evaluateExpression.simps [simp del]


definition toString :: "Parser \<Rightarrow> value \<Rightarrow> string" where
  "toString p v =
     (case v of
        VNil \<Rightarrow> ''''
      | VStr s \<Rightarrow> s
      | VNum q \<Rightarrow> if q = of_int \<lfloor>q\<rfloor> then showInt \<lfloor>q\<rfloor> else pr_FormatFloat p q
      | VInt n \<Rightarrow> showInt n
      | VBool b \<Rightarrow> if b then ''true'' else ''false''
      | _ \<Rightarrow> pr_Marshal p v)"

text \<open>\<open>\{\{([^}]+)\}\}\<close> at the head of a string: the group and what follows the match.\<close>

definition matchTemplate :: "string \<Rightarrow> (string \<times> string) option" where
  "matchTemplate s =
     (let inner = takeWhile (\<lambda>c. c \<noteq> CHR ''}'') (drop 2 s); rest = dropWhile (\<lambda>c. c \<noteq> CHR ''}'') (drop 2 s)
      in if HasPrefix s ''{{'' \<and> inner \<noteq> [] \<and> HasPrefix rest ''}}'' then Some (inner, drop 2 rest) else None)"

lemma matchTemplate_length: "matchTemplate s = Some (inner, rest) \<Longrightarrow> length rest < length s"
proof -
  assume m: "matchTemplate s = Some (inner, rest)"
  then have "rest = drop 2 (dropWhile (\<lambda>c. c \<noteq> CHR ''}'') (drop 2 s))" and "takeWhile (\<lambda>c. c \<noteq> CHR ''}'') (drop 2 s) \<noteq> []"
    by (auto simp: matchTemplate_def Let_def split: if_splits)
  moreover have "2 < length s"
  proof (rule ccontr)
    assume "\<not> 2 < length s"
    then have "drop 2 s = []" by simp
    then show False using calculation(2) by simp
  qed
  ultimately show ?thesis
    using length_dropWhile_le[of "\<lambda>c. c \<noteq> CHR ''}''" "drop 2 s"] by simp
qed

text \<open>\<open>ReplaceAllStringFunc\<close> with the callback of \<open>Evaluate\<close>.\<close>

function replaceTemplates :: "Parser \<Rightarrow> Context \<Rightarrow> string \<Rightarrow> string" where
  "replaceTemplates p ctx [] = []"
| "replaceTemplates p ctx (c # s) =
     (case matchTemplate (c # s) of
        Some (inner, rest) \<Rightarrow>
          (case evaluateExpression p ctx (TrimSpace inner) of
             Inl _ \<Rightarrow> ''{{'' @ inner @ ''}}'' | Inr v \<Rightarrow> toString p v) @ replaceTemplates p ctx rest
      | None \<Rightarrow> c # replaceTemplates p ctx s)"
  by pat_completeness auto

termination replaceTemplates
  by (relation "measure (\<lambda>(p, ctx, s). length s)") (auto dest: matchTemplate_length)

definition Evaluate :: "Parser \<Rightarrow> Context \<Rightarrow> string \<Rightarrow> expr_error + value" where
  "Evaluate p ctx expr =
     (if \<not> Contains expr ''{{'' then Inr (VStr expr)
      else
        let result = replaceTemplates p ctx expr in
        if HasPrefix (TrimSpace expr) ''{{'' \<and> HasSuffix (TrimSpace expr) ''}}'' then
          evaluateExpression p ctx (TrimSpace (TrimPrefix (TrimSuffix (TrimSpace expr) ''}}'') ''{{''))
        else Inr (VStr result))"

section \<open>Arguments: splitting and joining\<close>

fun join :: "string list \<Rightarrow> string" where
  "join [] = []"
| "join [a] = a"
| "join (a # b # as) = a @ CHR '','' # join (b # as)"

lemma join_Cons: "as \<noteq> [] \<Longrightarrow> join (a # as) = a @ CHR '','' # join as"
  by (cases as) auto

text \<open>Splitting loses nothing but a comma at the end.\<close>

lemma scanByte_separator: "scanByte prev d q c = (True, d', q') \<Longrightarrow> c = CHR '','' \<and> d' = 0 \<and> q' = None \<and> d = 0 \<and> q = None"
  by (auto simp: scanByte_def split: option.splits if_splits)

lemma splitLoop_nonempty: "s \<noteq> [] \<or> cur \<noteq> [] \<Longrightarrow> splitLoop prev d q cur s \<noteq> []"
proof (induction s arbitrary: prev d q cur)
  case (Cons c s)
  then show ?case
    by (auto split: prod.splits)
qed simp

lemma join_splitLoop:
  "join (splitLoop prev d q cur s) = cur @ s \<or>
   (s \<noteq> [] \<and> last s = CHR '','' \<and> join (splitLoop prev d q cur s) @ '','' = cur @ s)"
proof (induction s arbitrary: prev d q cur)
  case (Cons c s)
  obtain sep d' q' where scan: "scanByte prev d q c = (sep, d', q')" by (metis prod_cases3)
  show ?case
  proof (cases sep)
    case True
    have c: "c = CHR '',''"
      using scanByte_separator[of prev d q c d' q'] scan True by simp
    show ?thesis
    proof (cases s)
      case Nil
      then show ?thesis
        using scan True c by simp
    next
      case (Cons b t)
      have "splitLoop (Some c) d' q' [] s \<noteq> []"
        by (rule splitLoop_nonempty) (simp add: Cons)
      then show ?thesis
        using Cons.IH[of "Some c" d' q' "[]"] scan True c Cons by (auto simp: join_Cons)
    qed
  next
    case False
    then show ?thesis
      using Cons.IH[of "Some c" d' q' "cur @ [c]"] scan by auto
  qed
qed auto


text \<open>An argument on its own: its brackets are closed, its strings ended, its commas inside of them.\<close>

fun selfContained :: "char option \<Rightarrow> int \<Rightarrow> char option \<Rightarrow> string \<Rightarrow> bool" where
  "selfContained prev d q [] \<longleftrightarrow> d = 0 \<and> q = None"
| "selfContained prev d q (c # s) \<longleftrightarrow>
     (case scanByte prev d q c of (separator, d', q') \<Rightarrow> \<not> separator \<and> selfContained (Some c) d' q' s)"

lemma selfContained_prev: "selfContained prev d None a \<longleftrightarrow> selfContained prev' d None a"
  by (cases a) (simp_all add: scanByte_def)

lemma splitLoop_argument:
  "selfContained prev d q a \<Longrightarrow> splitLoop prev d q cur (a @ CHR '','' # s) = (cur @ a) # splitLoop (Some (CHR '','')) 0 None [] s"
  by (induction prev d q a arbitrary: cur rule: selfContained.induct) (auto simp: scanByte_def[of _ 0 None] split: prod.splits)

lemma splitLoop_last:
  "selfContained prev d q a \<Longrightarrow> cur @ a \<noteq> [] \<Longrightarrow> splitLoop prev d q cur a = [cur @ a]"
  by (induction prev d q a arbitrary: cur rule: selfContained.induct) (auto split: prod.splits)

lemma splitLoop_join:
  "\<forall>a \<in> set as. a \<noteq> [] \<and> selfContained None 0 None a \<Longrightarrow> splitLoop prev 0 None [] (join as) = as"
proof (induction as arbitrary: prev rule: join.induct)
  case (2 a)
  then show ?case
    using splitLoop_last[of prev 0 None a "[]"] selfContained_prev[of None 0 a prev] by simp
next
  case (3 a b as)
  then show ?case
    using splitLoop_argument[of prev 0 None a "[]" "join (b # as)"] selfContained_prev[of None 0 a prev] by simp
qed simp

text \<open>Splitting the arguments of a call and joining them with commas are inverse: any list of non-empty
  arguments with closed brackets and strings is given back, and joining the parts of any text gives
  that text, up to a comma at its end.\<close>

theorem splitArguments_join:
  assumes "\<forall>a \<in> set as. a \<noteq> [] \<and> selfContained None 0 None a"
  shows "splitArguments (join as) = as \<and>
    (join (splitArguments s) = s \<or> join (splitArguments s) @ '','' = s)"
  using assms splitLoop_join[of as None] join_splitLoop[of None 0 None "[]" s] by (auto simp: splitArguments_def)

lemma splitArguments_join_witness:
  "splitArguments ''f(a,b),[1,2],x'' = [''f(a,b)'', ''[1,2]'', ''x'']"
  using splitArguments_join[of "[''f(a,b)'', ''[1,2]'', ''x'']" "[]"] by (simp add: scanByte_def)

section \<open>Templates and references\<close>

text \<open>A dotted path of plain field names is the nested lookup of the fields.\<close>

fun lookups :: "value \<Rightarrow> string list \<Rightarrow> expr_error + value" where
  "lookups v [] = Inr v"
| "lookups v (f # fs) = (case getField v f of Inl e \<Rightarrow> Inl e | Inr v1 \<Rightarrow> lookups v1 fs)"

fun dotted :: "string list \<Rightarrow> string" where
  "dotted [] = []"
| "dotted [f] = f"
| "dotted (f # g # fs) = f @ CHR ''.'' # dotted (g # fs)"

definition plainField :: "string \<Rightarrow> bool" where
  "plainField f \<longleftrightarrow> f \<noteq> [] \<and> CHR ''.'' \<notin> set f \<and> CHR ''['' \<notin> set f"

lemma SplitChar_plain: "c \<notin> set f \<Longrightarrow> SplitChar c f = [f]"
  by (induction f) auto

lemma SplitChar_append: "c \<notin> set f \<Longrightarrow> SplitChar c (f @ c # s) = f # SplitChar c s"
  by (induction f) auto

lemma SplitChar_dotted: "fs \<noteq> [] \<Longrightarrow> \<forall>f \<in> set fs. plainField f \<Longrightarrow> SplitChar (CHR ''.'') (dotted fs) = fs"
  by (induction fs rule: dotted.induct) (auto simp: plainField_def SplitChar_plain SplitChar_append)

lemma pathLoop_lookups: "\<forall>f \<in> set fs. plainField f \<Longrightarrow> pathLoop v fs = lookups v fs"
  by (induction fs arbitrary: v) (auto simp: pathStep_def plainField_def split: sum.split)

lemma getValueByPath_dotted:
  assumes "\<forall>f \<in> set fs. plainField f"
  shows "getValueByPath v (dotted fs) = lookups v fs"
proof (cases fs)
  case (Cons f gs)
  then have "dotted fs \<noteq> ''''"
    using assms by (cases gs) (auto simp: plainField_def)
  then show ?thesis
    using SplitChar_dotted[of fs] pathLoop_lookups[of fs] assms Cons by (simp add: getValueByPath_def)
qed (simp add: getValueByPath_def)


lemma HasPrefix_append [simp]: "HasPrefix (p @ s) p"
  by (simp add: HasPrefix_def)

lemma HasSuffix_append [simp]: "HasSuffix (s @ p) p"
  by (simp add: HasSuffix_def HasPrefix_def)

lemma TrimPrefix_append [simp]: "TrimPrefix (p @ s) p = s"
  by (simp add: TrimPrefix_def)

lemma TrimSuffix_append [simp]: "TrimSuffix (s @ p) p = s"
  by (simp add: TrimSuffix_def)

text \<open>Text that starts and ends with bytes that are no white space is trimmed already.\<close>

lemma dropWhile_hd: "s \<noteq> [] \<Longrightarrow> \<not> P (hd s) \<Longrightarrow> dropWhile P s = s"
  by (cases s) auto

lemma TrimSpace_id: "s \<noteq> [] \<Longrightarrow> \<not> isSpace (hd s) \<Longrightarrow> \<not> isSpace (last s) \<Longrightarrow> TrimSpace s = s"
  using dropWhile_hd[of "rev s" isSpace] by (simp add: TrimSpace_def dropWhile_hd hd_rev)

text \<open>A text that starts with one template and ends with another is evaluated as a single expression,
  from the first opening braces to the last closing ones: the braces between them become part of it.\<close>

theorem Evaluate_two_templates:
  "Evaluate p ctx (''{{'' @ a @ ''}}'' @ between @ ''{{'' @ b @ ''}}'') =
   evaluateExpression p ctx (TrimSpace (a @ ''}}'' @ between @ ''{{'' @ b))"
proof -
  let ?inner = "a @ ''}}'' @ between @ ''{{'' @ b"
  have trim: "TrimSpace (''{{'' @ ?inner @ ''}}'') = ''{{'' @ ?inner @ ''}}''"
    by (rule TrimSpace_id) (simp_all add: isSpace_def)
  have "TrimPrefix (TrimSuffix (''{{'' @ ?inner @ ''}}'') ''}}'') ''{{'' = ?inner"
    using TrimSuffix_append[of "''{{'' @ ?inner" "''}}''"] TrimPrefix_append[of "''{{''" ?inner] by simp
  moreover have "HasPrefix (''{{'' @ ?inner @ ''}}'') ''{{''" and "HasSuffix (''{{'' @ ?inner @ ''}}'') ''}}''"
    using HasSuffix_append[of "''{{'' @ ?inner" "''}}''"] by (simp_all del: append.simps)
  moreover have "Contains (''{{'' @ ?inner @ ''}}'') ''{{''"
    by (simp add: HasPrefix_def)
  ultimately have "Evaluate p ctx (''{{'' @ ?inner @ ''}}'') = evaluateExpression p ctx (TrimSpace ?inner)"
    using trim by (simp only: Evaluate_def Let_def not_True_eq_False if_False if_True simp_thms)
  then show ?thesis
    by simp
qed

definition isIdent :: "string \<Rightarrow> bool" where
  "isIdent f \<longleftrightarrow> f \<noteq> [] \<and> list_all isWord f"


lemma isWord_not:
  "isWord c \<Longrightarrow> c \<noteq> CHR ''.'' \<and> c \<noteq> CHR ''['' \<and> c \<noteq> CHR '']'' \<and> c \<noteq> DQuote \<and> c \<noteq> CHR 0x0A \<and> \<not> isSpace c"
  by (auto simp: isWord_def isDigit_def isSpace_def)

lemma isIdent_plain: "isIdent f \<Longrightarrow> plainField f"
  using isWord_not by (fastforce simp: isIdent_def plainField_def list_all_iff)

lemma dotted_chars: "\<forall>f \<in> set fs. isIdent f \<Longrightarrow> c \<in> set (dotted fs) \<Longrightarrow> isWord c \<or> c = CHR ''.''"
  by (induction fs rule: dotted.induct) (auto simp: isIdent_def list_all_iff)

lemma dotted_ends:
  "fs \<noteq> [] \<Longrightarrow> \<forall>f \<in> set fs. isIdent f \<Longrightarrow> dotted fs \<noteq> [] \<and> isWord (hd (dotted fs)) \<and> isWord (last (dotted fs))"
  by (induction fs rule: dotted.induct) (auto simp: isIdent_def list_all_iff)

lemma ReplaceAll2_absent: "a \<notin> set s \<Longrightarrow> ReplaceAll2 s a b new = s"
  by (induction s a b new rule: ReplaceAll2.induct) auto

lemma ReplaceAll2_end: "a \<notin> set s \<Longrightarrow> ReplaceAll2 (s @ [a, b]) a b new = s @ new"
proof (induction s)
  case (Cons c s)
  then show ?case
    by (cases s) auto
qed simp

lemma json_expression:
  assumes "s \<noteq> []" and "\<not> isSpace (last s)" and "isLine s" and "x = CHR ''.'' \<or> x = CHR ''[''"
  shows "evaluateExpression p ctx (''$json'' @ x # s) = evaluateJSONPath s (cx_Input ctx)"
proof -
  have "TrimSpace (''$json'' @ x # s) = ''$json'' @ x # s"
    using assms by (intro TrimSpace_id) (simp_all add: isSpace_def)
  moreover have "matchFunc (''$json'' @ x # s) = None" and "matchNode (''$json'' @ x # s) = None"
    by (simp_all add: matchFunc_def matchNode_def HasPrefix_def Let_def)
  moreover have "matchJson (''$json'' @ x # s) = Some s"
    using assms by (auto simp: matchJson_def HasPrefix_def)
  ultimately show ?thesis
    by (simp add: evaluateExpression.simps[of p ctx "''$json'' @ x # s"] Let_def del: append.simps append_Cons append_Nil)
qed

text \<open>\<open>$json\<close> with a dotted path of identifiers reads the nested field of the input, with the errors of
  the nested lookup; in bracket notation it looks for a field whose name starts with a quote.\<close>

theorem json_reference:
  assumes "fs \<noteq> [] \<and> (\<forall>f \<in> set fs. isIdent f)" and "isIdent g"
  shows "evaluateExpression p ctx (''$json.'' @ dotted fs) = lookups (cx_Input ctx) fs \<and>
    evaluateExpression p ctx (''$json['' @ DQuote # g @ [DQuote, CHR '']'']) = getField (cx_Input ctx) (DQuote # g)"
proof
  let ?d = "dotted fs"
  have ends: "?d \<noteq> []" "isWord (hd ?d)" "isWord (last ?d)"
    using dotted_ends assms(1) by blast+
  have absent: "c \<notin> set ?d" if "\<not> isWord c" "c \<noteq> CHR ''.''" for c
    using dotted_chars assms(1) that by blast
  have line: "isLine ?d"
    using ends absent[of "CHR 0x0A"] by (simp add: isLine_def isWord_def isDigit_def)
  have "evaluateJSONPath ?d (cx_Input ctx) = getValueByPath (cx_Input ctx) ?d"
  proof -
    have "\<not> HasPrefix ?d ''.''"
      using ends isWord_not[of "hd ?d"] by (cases ?d) (auto simp: HasPrefix_def)
    then show ?thesis
      using absent[of "CHR ''[''"] absent[of DQuote]
      by (simp add: evaluateJSONPath_def ReplaceAll2_absent TrimPrefix_def isWord_def isDigit_def)
  qed
  then show "evaluateExpression p ctx (''$json.'' @ ?d) = lookups (cx_Input ctx) fs"
    using json_expression[of ?d "CHR ''.''" p ctx] ends isWord_not[of "last ?d"] line
      getValueByPath_dotted[of fs "cx_Input ctx"] assms(1) isIdent_plain by simp
next
  let ?s = "DQuote # g @ [DQuote, CHR '']'']"
  have g: "g \<noteq> []" "\<forall>c \<in> set g. isWord c"
    using assms(2) by (simp_all add: isIdent_def list_all_iff)
  then have absent: "c \<notin> set g" if "\<not> isWord c" for c
    using that by blast
  have "ReplaceAll2 ?s (CHR ''['') DQuote ''.'' = ?s"
    using absent[of "CHR ''[''"] by (intro ReplaceAll2_absent) (simp add: isWord_def isDigit_def)
  moreover have "ReplaceAll2 ?s DQuote (CHR '']'') '''' = DQuote # g"
    using g absent[of DQuote] isWord_not[of "hd g"] ReplaceAll2_end[of DQuote g "CHR '']''" "''''"]
    by (cases g) (auto simp: isWord_def isDigit_def)
  moreover have "getValueByPath (cx_Input ctx) (DQuote # g) = getField (cx_Input ctx) (DQuote # g)"
    using absent[of "CHR ''.''"] absent[of "CHR ''[''"]
    by (simp add: getValueByPath_def pathStep_def SplitChar_plain isWord_def isDigit_def split: sum.split)
  ultimately have "evaluateJSONPath ?s (cx_Input ctx) = getField (cx_Input ctx) (DQuote # g)"
    by (simp add: evaluateJSONPath_def TrimPrefix_def HasPrefix_def)
  moreover have "isLine ?s"
    using absent[of "CHR 0x0A"] by (simp add: isLine_def isWord_def isDigit_def)
  ultimately show "evaluateExpression p ctx (''$json['' @ ?s) = getField (cx_Input ctx) (DQuote # g)"
    using json_expression[of ?s "CHR ''[''" p ctx] by (simp add: isSpace_def)
qed

lemma json_reference_witness:
  "lookups (cx_Input (SetInput (VMap [''a'' \<mapsto> VMap [''b'' \<mapsto> VInt 1]]) (NewContext 0))) [''a'', ''b''] = Inr (VInt 1) \<and>
   (\<forall>p. evaluateExpression p (SetInput (VMap [''a'' \<mapsto> VMap [''b'' \<mapsto> VInt 1]]) (NewContext 0)) ''$json.a.b'' = Inr (VInt 1))"
  using json_reference[of "[''a'', ''b'']" "''a''" _ "SetInput (VMap [''a'' \<mapsto> VMap [''b'' \<mapsto> VInt 1]]) (NewContext 0)"]
  by (simp add: isIdent_def isWord_def isDigit_def SetInput_def)


text \<open>A call without arguments is no function call: its text is the result.\<close>

lemma no_empty_calls: "isIdent name \<Longrightarrow> matchFunc (''$func.'' @ name @ ''()'') = None"
proof -
  assume "isIdent name"
  then have "dropWhile isWord (name @ ''()'') = ''()''"
    by (simp add: isIdent_def list_all_iff dropWhile_append isWord_def isDigit_def)
  then show ?thesis
    by (simp add: matchFunc_def Let_def isLine_def)
qed

end
