(* ===== verification/Expression_Functions.thy ===== *)
theory Expression_Functions
  imports Expression
begin

text \<open>
  The built-in functions of the expression language (\<open>pkg/expression/functions.go\<close>) on strings, numbers,
  arrays and types. A \<open>float64\<close> is a rational number; \<open>fmt.Sprintf("%v", x)\<close> of a float, list or map,
  the case mappings of strings and \<open>strconv.ParseFloat\<close> are fields of the library record. The functions on
  dates, JSON, hashes, identifiers, the keys and values of a map and \<open>sort\<close>, whose order of equal texts is
  not determined, are not modelled.
\<close>

record Lib =
  lib_ParseFloat :: "string \<Rightarrow> rat option"
  lib_Sprint :: "value \<Rightarrow> string"
  lib_ToUpper :: "string \<Rightarrow> string"
  lib_ToLower :: "string \<Rightarrow> string"

type_synonym builtin = "value list \<Rightarrow> fn_error + value"

definition sprint :: "Lib \<Rightarrow> value \<Rightarrow> string" where
  "sprint l v =
     (case v of
        VStr s \<Rightarrow> s
      | VBool b \<Rightarrow> if b then ''true'' else ''false''
      | VInt n \<Rightarrow> showInt n
      | VNil \<Rightarrow> ''<nil>''
      | _ \<Rightarrow> lib_Sprint l v)"

section \<open>Conversions\<close>

fun toFloat :: "Lib \<Rightarrow> value \<Rightarrow> rat" where
  "toFloat l (VNum q) = q"
| "toFloat l (VInt n) = of_int n"
| "toFloat l (VStr s) = (case lib_ParseFloat l s of None \<Rightarrow> 0 | Some q \<Rightarrow> q)"
| "toFloat l v = 0"

definition truncate :: "rat \<Rightarrow> int" where
  "truncate x = (if x < 0 then - \<lfloor>- x\<rfloor> else \<lfloor>x\<rfloor>)"

definition toInt :: "Lib \<Rightarrow> value \<Rightarrow> int" where
  "toInt l v = truncate (toFloat l v)"

fun toBool :: "value \<Rightarrow> bool" where
  "toBool (VBool b) = b"
| "toBool (VStr s) = (s \<noteq> '''' \<and> s \<noteq> ''false'' \<and> s \<noteq> ''0'')"
| "toBool (VNum q) = (q \<noteq> 0)"
| "toBool (VInt n) = (n \<noteq> 0)"
| "toBool VNil = False"
| "toBool v = True"

section \<open>Strings\<close>

definition need :: "nat \<Rightarrow> string \<Rightarrow> value list \<Rightarrow> (fn_error + value) \<Rightarrow> fn_error + value" where
  "need n msg args r = (if length args < n then Inl (FnError msg) else r)"

definition funcUppercase :: "Lib \<Rightarrow> builtin" where
  "funcUppercase l args = need 1 ''uppercase requires 1 argument'' args (Inr (VStr (lib_ToUpper l (sprint l (args ! 0)))))"

definition funcLowercase :: "Lib \<Rightarrow> builtin" where
  "funcLowercase l args = need 1 ''lowercase requires 1 argument'' args (Inr (VStr (lib_ToLower l (sprint l (args ! 0)))))"

definition funcTrim :: "Lib \<Rightarrow> builtin" where
  "funcTrim l args = need 1 ''trim requires 1 argument'' args (Inr (VStr (TrimSpace (sprint l (args ! 0)))))"

definition funcLength :: "Lib \<Rightarrow> builtin" where
  "funcLength l args = need 1 ''length requires 1 argument'' args
     (Inr (VInt (case args ! 0 of
        VStr s \<Rightarrow> int (length s) | VList vs \<Rightarrow> int (length vs) | VMap m \<Rightarrow> int (card (dom m))
      | v \<Rightarrow> int (length (sprint l v)))))"

definition slice :: "nat \<Rightarrow> nat \<Rightarrow> 'a list \<Rightarrow> 'a list" where
  "slice i j xs = take (j - i) (drop i xs)"

definition funcSubstring :: "Lib \<Rightarrow> builtin" where
  "funcSubstring l args = need 2 ''substring requires at least 2 arguments'' args
     (let s = sprint l (args ! 0); i = toInt l (args ! 1) in
      if i < 0 \<or> i \<ge> int (length s) then Inr (VStr '''')
      else if length args \<ge> 3 then
        (let j0 = toInt l (args ! 2); j = (if j0 > int (length s) then int (length s) else j0)
         in if j < i then Inl FnPanic else Inr (VStr (slice (nat i) (nat j) s)))
      else Inr (VStr (drop (nat i) s)))"

text \<open>\<open>strings.ReplaceAll\<close>, \<open>strings.Split\<close> and \<open>strings.Join\<close>; an empty pattern matches between the bytes.\<close>

function ReplaceAll :: "string \<Rightarrow> string \<Rightarrow> string \<Rightarrow> string" where
  "ReplaceAll [] old new = []"
| "ReplaceAll (c # s) old new =
     (if HasPrefix (c # s) old \<and> old \<noteq> [] then new @ ReplaceAll (drop (length old) (c # s)) old new
      else c # ReplaceAll s old new)"
  by pat_completeness auto

termination ReplaceAll
  by (relation "measure (\<lambda>(s, old, new). length s)") auto

definition ReplaceAllGo :: "string \<Rightarrow> string \<Rightarrow> string \<Rightarrow> string" where
  "ReplaceAllGo s old new = (if old = [] then new @ concat (map (\<lambda>c. c # new) s) else ReplaceAll s old new)"

function Split :: "string \<Rightarrow> string \<Rightarrow> string \<Rightarrow> string list" where
  "Split cur [] sep = [cur]"
| "Split cur (c # s) sep =
     (if HasPrefix (c # s) sep \<and> sep \<noteq> [] then cur # Split [] (drop (length sep) (c # s)) sep
      else Split (cur @ [c]) s sep)"
  by pat_completeness auto

termination Split
  by (relation "measure (\<lambda>(cur, s, sep). length s)") auto

definition SplitGo :: "string \<Rightarrow> string \<Rightarrow> string list" where
  "SplitGo s sep = (if sep = [] then map (\<lambda>c. [c]) s else Split [] s sep)"

fun JoinGo :: "string \<Rightarrow> string list \<Rightarrow> string" where
  "JoinGo sep [] = []"
| "JoinGo sep [p] = p"
| "JoinGo sep (p # q # ps) = p @ sep @ JoinGo sep (q # ps)"

definition funcReplace :: "Lib \<Rightarrow> builtin" where
  "funcReplace l args = need 3 ''replace requires 3 arguments'' args
     (Inr (VStr (ReplaceAllGo (sprint l (args ! 0)) (sprint l (args ! 1)) (sprint l (args ! 2)))))"

definition funcSplit :: "Lib \<Rightarrow> builtin" where
  "funcSplit l args = need 2 ''split requires 2 arguments'' args
     (Inr (VList (map VStr (SplitGo (sprint l (args ! 0)) (sprint l (args ! 1))))))"

definition funcJoin :: "Lib \<Rightarrow> builtin" where
  "funcJoin l args = need 2 ''join requires 2 arguments'' args
     (case args ! 0 of
        VList arr \<Rightarrow> Inr (VStr (JoinGo (sprint l (args ! 1)) (map (sprint l) arr)))
      | _ \<Rightarrow> Inl (FnError ''first argument must be an array''))"

definition funcContains :: "Lib \<Rightarrow> builtin" where
  "funcContains l args = need 2 ''contains requires 2 arguments'' args
     (Inr (VBool (Contains (sprint l (args ! 0)) (sprint l (args ! 1)))))"

definition funcStartsWith :: "Lib \<Rightarrow> builtin" where
  "funcStartsWith l args = need 2 ''startsWith requires 2 arguments'' args
     (Inr (VBool (HasPrefix (sprint l (args ! 0)) (sprint l (args ! 1)))))"

definition funcEndsWith :: "Lib \<Rightarrow> builtin" where
  "funcEndsWith l args = need 2 ''endsWith requires 2 arguments'' args
     (Inr (VBool (HasSuffix (sprint l (args ! 0)) (sprint l (args ! 1)))))"

section \<open>Numbers\<close>

text \<open>\<open>math.Round\<close> rounds halves away from zero.\<close>

definition RoundAway :: "rat \<Rightarrow> rat" where
  "RoundAway x = (if x < 0 then - of_int \<lfloor>1 / 2 - x\<rfloor> else of_int \<lfloor>x + 1 / 2\<rfloor>)"

definition power10 :: "int \<Rightarrow> rat" where
  "power10 n = (if n < 0 then 1 / 10 ^ nat (- n) else 10 ^ nat n)"

definition funcRound :: "Lib \<Rightarrow> builtin" where
  "funcRound l args = need 1 ''round requires 1 argument'' args
     (let n = toFloat l (args ! 0);
          precision = (if length args \<ge> 2 then toInt l (args ! 1) else 0);
          multiplier = power10 precision
      in Inr (VNum (RoundAway (n * multiplier) / multiplier)))"

definition funcFloor :: "Lib \<Rightarrow> builtin" where
  "funcFloor l args = need 1 ''floor requires 1 argument'' args (Inr (VNum (of_int \<lfloor>toFloat l (args ! 0)\<rfloor>)))"

definition funcCeil :: "Lib \<Rightarrow> builtin" where
  "funcCeil l args = need 1 ''ceil requires 1 argument'' args (Inr (VNum (of_int \<lceil>toFloat l (args ! 0)\<rceil>)))"

definition funcAbs :: "Lib \<Rightarrow> builtin" where
  "funcAbs l args = need 1 ''abs requires 1 argument'' args (Inr (VNum \<bar>toFloat l (args ! 0)\<bar>))"

text \<open>The numbers a function works on: the elements of an array, or the arguments.\<close>

definition operands :: "value list \<Rightarrow> value list" where
  "operands args = (case args ! 0 of VList arr \<Rightarrow> arr | _ \<Rightarrow> args)"

definition funcMin :: "Lib \<Rightarrow> builtin" where
  "funcMin l args = need 1 ''min requires at least 1 argument'' args
     (case map (toFloat l) (operands args) of
        [] \<Rightarrow> Inr VNil
      | q # qs \<Rightarrow> Inr (VNum (foldl (\<lambda>m f. if f < m then f else m) q qs)))"

definition funcMax :: "Lib \<Rightarrow> builtin" where
  "funcMax l args = need 1 ''max requires at least 1 argument'' args
     (case map (toFloat l) (operands args) of
        [] \<Rightarrow> Inr VNil
      | q # qs \<Rightarrow> Inr (VNum (foldl (\<lambda>m f. if f > m then f else m) q qs)))"

definition funcSum :: "Lib \<Rightarrow> builtin" where
  "funcSum l args = need 1 ''sum requires at least 1 argument'' args
     (Inr (VNum (foldl (\<lambda>a v. a + toFloat l v) 0 (operands args))))"

definition funcAvg :: "Lib \<Rightarrow> builtin" where
  "funcAvg l args = need 1 ''avg requires at least 1 argument'' args
     (if operands args = [] then Inr (VInt 0)
      else Inr (VNum (foldl (\<lambda>a v. a + toFloat l v) 0 (operands args) / of_nat (length (operands args)))))"


section \<open>Arrays\<close>

definition onArray :: "string \<Rightarrow> value \<Rightarrow> (value list \<Rightarrow> value) \<Rightarrow> fn_error + value" where
  "onArray msg v f = (case v of VList arr \<Rightarrow> Inr (f arr) | _ \<Rightarrow> Inl (FnError msg))"

definition funcFirst :: builtin where
  "funcFirst args = need 1 ''first requires 1 argument'' args
     (onArray ''argument must be an array'' (args ! 0) (\<lambda>arr. if arr = [] then VNil else arr ! 0))"

definition funcLast :: builtin where
  "funcLast args = need 1 ''last requires 1 argument'' args
     (onArray ''argument must be an array'' (args ! 0) (\<lambda>arr. if arr = [] then VNil else arr ! (length arr - 1)))"

definition funcCount :: builtin where
  "funcCount args = need 1 ''count requires 1 argument'' args
     (onArray ''argument must be an array'' (args ! 0) (\<lambda>arr. VInt (int (length arr))))"

definition funcReverse :: builtin where
  "funcReverse args = need 1 ''reverse requires 1 argument'' args
     (onArray ''argument must be an array'' (args ! 0) (\<lambda>arr. VList (rev arr)))"

text \<open>The loop of \<open>unique\<close>: the texts seen and the result so far.\<close>

fun uniqueLoop :: "(value \<Rightarrow> string) \<Rightarrow> string set \<Rightarrow> value list \<Rightarrow> value list \<Rightarrow> value list" where
  "uniqueLoop key seen result [] = result"
| "uniqueLoop key seen result (v # arr) =
     (if key v \<notin> seen then uniqueLoop key (insert (key v) seen) (result @ [v]) arr
      else uniqueLoop key seen result arr)"

definition funcUnique :: "Lib \<Rightarrow> builtin" where
  "funcUnique l args = need 1 ''unique requires 1 argument'' args
     (onArray ''argument must be an array'' (args ! 0) (\<lambda>arr. VList (uniqueLoop (sprint l) {} [] arr)))"

text \<open>A comparison of an interface value with the empty string.\<close>

definition isBlank :: "value \<Rightarrow> bool" where
  "isBlank v = (case v of VNil \<Rightarrow> True | VStr s \<Rightarrow> s = '''' | _ \<Rightarrow> False)"

definition funcFilter :: builtin where
  "funcFilter args = need 1 ''filter requires 1 argument'' args
     (onArray ''argument must be an array'' (args ! 0) (\<lambda>arr. VList (filter (\<lambda>v. \<not> isBlank v) arr)))"

definition funcMap :: "Lib \<Rightarrow> builtin" where
  "funcMap l args = need 2 ''map requires 2 arguments'' args
     (onArray ''first argument must be an array'' (args ! 0)
       (\<lambda>arr. VList (map (\<lambda>item. case item of
          VMap m \<Rightarrow> (case m (sprint l (args ! 1)) of None \<Rightarrow> VNil | Some v \<Rightarrow> v) | _ \<Rightarrow> VNil) arr)))"

section \<open>Types and choices\<close>

definition funcToString :: "Lib \<Rightarrow> builtin" where
  "funcToString l args = need 1 ''toString requires 1 argument'' args (Inr (VStr (sprint l (args ! 0))))"

definition funcToNumber :: "Lib \<Rightarrow> builtin" where
  "funcToNumber l args = need 1 ''toNumber requires 1 argument'' args (Inr (VNum (toFloat l (args ! 0))))"

definition funcToBoolean :: builtin where
  "funcToBoolean args = need 1 ''toBoolean requires 1 argument'' args (Inr (VBool (toBool (args ! 0))))"

definition funcIsNull :: builtin where
  "funcIsNull args = (if length args < 1 then Inr (VBool True)
     else Inr (VBool (case args ! 0 of VNil \<Rightarrow> True | _ \<Rightarrow> False)))"

definition funcIsEmpty :: builtin where
  "funcIsEmpty args = (if length args < 1 then Inr (VBool True)
     else Inr (VBool (case args ! 0 of
        VNil \<Rightarrow> True | VStr s \<Rightarrow> s = '''' | VList vs \<Rightarrow> vs = [] | VMap m \<Rightarrow> dom m = {} | _ \<Rightarrow> False)))"

definition funcTypeof :: builtin where
  "funcTypeof args = (if length args < 1 then Inr (VStr ''undefined'')
     else Inr (VStr (case args ! 0 of
        VNil \<Rightarrow> ''null'' | VStr _ \<Rightarrow> ''string'' | VNum _ \<Rightarrow> ''number'' | VInt _ \<Rightarrow> ''number''
      | VBool _ \<Rightarrow> ''boolean'' | VList _ \<Rightarrow> ''array'' | VMap _ \<Rightarrow> ''object'')))"

definition funcIf :: builtin where
  "funcIf args = need 3 ''if requires 3 arguments'' args
     (Inr (if toBool (args ! 0) then args ! 1 else args ! 2))"

definition funcDefault :: builtin where
  "funcDefault args = need 2 ''default requires 2 arguments'' args
     (Inr (if isBlank (args ! 0) then args ! 1 else args ! 0))"

text \<open>The table of functions, without the ones that are not modelled.\<close>

definition registerBuiltinFunctions :: "Lib \<Rightarrow> string \<Rightarrow> builtin option" where
  "registerBuiltinFunctions l = map_of
     [(''uppercase'', funcUppercase l), (''lowercase'', funcLowercase l), (''trim'', funcTrim l),
      (''length'', funcLength l), (''substring'', funcSubstring l), (''replace'', funcReplace l),
      (''split'', funcSplit l), (''join'', funcJoin l), (''contains'', funcContains l),
      (''startsWith'', funcStartsWith l), (''endsWith'', funcEndsWith l), (''round'', funcRound l),
      (''floor'', funcFloor l), (''ceil'', funcCeil l), (''abs'', funcAbs l), (''min'', funcMin l),
      (''max'', funcMax l), (''sum'', funcSum l), (''avg'', funcAvg l), (''first'', funcFirst),
      (''last'', funcLast), (''count'', funcCount), (''reverse'', funcReverse), (''unique'', funcUnique l),
      (''filter'', funcFilter), (''map'', funcMap l), (''toString'', funcToString l),
      (''toNumber'', funcToNumber l), (''toBoolean'', funcToBoolean), (''isNull'', funcIsNull),
      (''isEmpty'', funcIsEmpty), (''typeof'', funcTypeof), (''if'', funcIf), (''default'', funcDefault)]"

section \<open>Properties\<close>

text \<open>Joining the parts of a split with the separator gives the text back.\<close>

lemma JoinGo_Cons: "ps \<noteq> [] \<Longrightarrow> JoinGo sep (p # ps) = p @ sep @ JoinGo sep ps"
  by (cases ps) auto

lemma Split_nonempty: "Split cur s sep \<noteq> []"
  by (induction cur s sep rule: Split.induct) auto

lemma HasPrefix_split: "HasPrefix s p \<Longrightarrow> p @ drop (length p) s = s"
  by (metis HasPrefix_def append_take_drop_id)

lemma JoinGo_Split: "JoinGo sep (Split cur s sep) = cur @ s"
proof (induction cur s sep rule: Split.induct)
  case (2 cur c s sep)
  then show ?case
    using HasPrefix_split[of "c # s" sep] by (auto simp: JoinGo_Cons Split_nonempty)
qed simp

lemma JoinGo_bytes: "JoinGo [] (map (\<lambda>c. [c]) s) = s"
  by (induction s) (simp, case_tac s, auto)

text \<open>The texts of the result of \<open>unique\<close> are distinct, and are those of the input.\<close>

lemma uniqueLoop_spec:
  "distinct (map key result) \<Longrightarrow> seen = key ` set result \<Longrightarrow>
   distinct (map key (uniqueLoop key seen result arr)) \<and>
   key ` set (uniqueLoop key seen result arr) = key ` set result \<union> key ` set arr"
  by (induction key seen result arr rule: uniqueLoop.induct) auto

text \<open>\<open>join\<close> undoes \<open>split\<close> for every text and separator; \<open>unique\<close> keeps one value for each text;
  and \<open>substring\<close> panics exactly if its end, cut to the length of the text, lies before its start
  within the text.\<close>

theorem builtins_spec:
  "(\<exists>parts. funcSplit l [VStr s, VStr sep] = Inr (VList parts) \<and>
      funcJoin l [VList parts, VStr sep] = Inr (VStr s)) \<and>
   (\<exists>vs. funcUnique l [VList arr] = Inr (VList vs) \<and> distinct (map (sprint l) vs) \<and>
      sprint l ` set vs = sprint l ` set arr) \<and>
   (funcSubstring l [VStr s, VInt i, VInt j] = Inl FnPanic \<longleftrightarrow>
      i \<in> {0..<int (length s)} \<and> min j (int (length s)) < i)"
proof (intro conjI)
  have "funcSplit l [VStr s, VStr sep] = Inr (VList (map VStr (SplitGo s sep)))"
    by (simp add: funcSplit_def need_def sprint_def)
  moreover have "funcJoin l [VList (map VStr (SplitGo s sep)), VStr sep] = Inr (VStr s)"
    by (simp add: funcJoin_def need_def sprint_def comp_def SplitGo_def JoinGo_Split JoinGo_bytes)
  ultimately show "\<exists>parts. funcSplit l [VStr s, VStr sep] = Inr (VList parts) \<and>
      funcJoin l [VList parts, VStr sep] = Inr (VStr s)"
    by blast
  show "\<exists>vs. funcUnique l [VList arr] = Inr (VList vs) \<and> distinct (map (sprint l) vs) \<and>
      sprint l ` set vs = sprint l ` set arr"
    using uniqueLoop_spec[of "sprint l" "[]" "{}" arr] by (simp add: funcUnique_def need_def onArray_def)
  show "funcSubstring l [VStr s, VInt i, VInt j] = Inl FnPanic \<longleftrightarrow>
      i \<in> {0..<int (length s)} \<and> min j (int (length s)) < i"
    by (auto simp: funcSubstring_def need_def sprint_def toInt_def truncate_def Let_def numeral_2_eq_2 numeral_3_eq_3)
qed

end
