(* ===== verification/Flow_Nodes.thy ===== *)
theory Flow_Nodes
  imports Engine Expression_Functions
begin

text \<open>
  The built-in nodes that steer a workflow (\<open>internal/node/runtime/nodes\<close>): IF, Switch, Merge, Loop and
  Split In Batches. \<open>Execute\<close> of a node is a function of the library functions it calls, the clock it
  reads (\<open>clk i\<close> is the i-th reading) and its input. A \<open>float64\<close> is a rational number. The texts of
  floats, lists and maps, \<open>strconv.ParseFloat\<close> and the regular expressions of \<open>regexp\<close> are parameters.
\<close>

record NodeLib =
  nl_lib :: Lib
  nl_Match :: "string \<Rightarrow> string \<Rightarrow> bool option"

abbreviation text_of :: "NodeLib \<Rightarrow> value \<Rightarrow> string" where
  "text_of l v \<equiv> sprint (nl_lib l) v"

section \<open>Configuration and logs\<close>

text \<open>A key that is missing in a \<open>map[string]interface{}\<close> reads as nil.\<close>

definition at_key :: "dict \<Rightarrow> string \<Rightarrow> value" where
  "at_key m k = (case m k of None \<Rightarrow> VNil | Some v \<Rightarrow> v)"

definition getStringConfig :: "dict \<Rightarrow> string \<Rightarrow> string \<Rightarrow> string" where
  "getStringConfig config key defaultVal = (case config key of Some (VStr s) \<Rightarrow> s | _ \<Rightarrow> defaultVal)"

definition getIntConfig :: "dict \<Rightarrow> string \<Rightarrow> int \<Rightarrow> int" where
  "getIntConfig config key defaultVal =
     (case config key of Some (VInt n) \<Rightarrow> n | Some (VNum q) \<Rightarrow> Expression_Functions.truncate q | _ \<Rightarrow> defaultVal)"

definition getMapConfig :: "dict \<Rightarrow> string \<Rightarrow> dict" where
  "getMapConfig config key = (case config key of Some (VMap m) \<Rightarrow> m | _ \<Rightarrow> Map.empty)"

text \<open>The list of a configuration key: a failed type assertion gives a nil slice.\<close>

definition getList :: "dict \<Rightarrow> string \<Rightarrow> value list" where
  "getList config key = (case config key of Some (VList vs) \<Rightarrow> vs | _ \<Rightarrow> [])"

definition UnixMilli :: "time \<Rightarrow> int" where
  "UnixMilli t = t div 1000000"

definition info :: "ExecutionInput \<Rightarrow> string \<Rightarrow> time \<Rightarrow> LogEntry" where
  "info input msg now = \<lparr> le_Level = ''info'', le_Message = msg, le_Timestamp = UnixMilli now, le_NodeID = xi_NodeID input \<rparr>"

definition noMetrics :: ExecutionMetrics where
  "noMetrics = \<lparr> em_StartTime = 0, em_EndTime = 0, em_DurationMs = 0, em_ItemsIn = 0, em_ItemsOut = 0,
     em_BytesRead = 0, em_BytesWritten = 0 \<rparr>"

definition metrics :: "time \<Rightarrow> time \<Rightarrow> time \<Rightarrow> ExecutionMetrics" where
  "metrics startTime now later = noMetrics\<lparr> em_StartTime := UnixMilli startTime, em_EndTime := UnixMilli now,
     em_DurationMs := quot (later - startTime) 1000000 \<rparr>"

definition newOutput :: "dict \<Rightarrow> ExecutionOutput" where
  "newOutput data = \<lparr> xo_Data = Some data, xo_Binary = Map.empty, xo_Error = None, xo_Logs = [], xo_Metrics = noMetrics \<rparr>"

section \<open>Field values and conditions\<close>

fun fieldPath :: "string list \<Rightarrow> value \<Rightarrow> value" where
  "fieldPath [] current = current"
| "fieldPath (part # parts) (VMap v) = fieldPath parts (at_key v part)"
| "fieldPath (part # parts) _ = VNil"

definition getFieldValue :: "dict \<Rightarrow> string \<Rightarrow> value" where
  "getFieldValue data field = (if field = '''' then VMap data else fieldPath (SplitChar CHR ''.'' field) (VMap data))"

fun isNil :: "value \<Rightarrow> bool" where
  "isNil VNil = True"
| "isNil v = False"

definition compareEqual :: "NodeLib \<Rightarrow> value \<Rightarrow> value \<Rightarrow> bool" where
  "compareEqual l a b =
     (if isNil a \<and> isNil b then True
      else if isNil a \<or> isNil b then False
      else text_of l a = text_of l b)"

definition compareContains :: "NodeLib \<Rightarrow> value \<Rightarrow> value \<Rightarrow> bool" where
  "compareContains l a b = Contains (text_of l a) (text_of l b)"

definition compareStartsWith :: "NodeLib \<Rightarrow> value \<Rightarrow> value \<Rightarrow> bool" where
  "compareStartsWith l a b = HasPrefix (text_of l a) (text_of l b)"

definition compareEndsWith :: "NodeLib \<Rightarrow> value \<Rightarrow> value \<Rightarrow> bool" where
  "compareEndsWith l a b = HasSuffix (text_of l a) (text_of l b)"

fun toNumber :: "NodeLib \<Rightarrow> value \<Rightarrow> rat" where
  "toNumber l (VNum q) = q"
| "toNumber l (VInt n) = of_int n"
| "toNumber l (VStr s) = (case lib_ParseFloat (nl_lib l) s of None \<Rightarrow> 0 | Some q \<Rightarrow> q)"
| "toNumber l v = 0"

definition compareGreater :: "NodeLib \<Rightarrow> value \<Rightarrow> value \<Rightarrow> bool" where
  "compareGreater l a b = (toNumber l a > toNumber l b)"

definition compareLess :: "NodeLib \<Rightarrow> value \<Rightarrow> value \<Rightarrow> bool" where
  "compareLess l a b = (toNumber l a < toNumber l b)"

fun isEmpty :: "value \<Rightarrow> bool" where
  "isEmpty VNil = True"
| "isEmpty (VStr s) = (s = '''')"
| "isEmpty (VList vs) = (length vs = 0)"
| "isEmpty (VMap m) = (m = Map.empty)"
| "isEmpty v = False"

fun node_toBool :: "value \<Rightarrow> bool" where
  "node_toBool VNil = False"
| "node_toBool (VBool b) = b"
| "node_toBool (VStr s) = (s \<noteq> '''' \<and> s \<noteq> ''false'' \<and> s \<noteq> ''0'')"
| "node_toBool (VNum q) = (q \<noteq> 0)"
| "node_toBool (VInt n) = (n \<noteq> 0)"
| "node_toBool v = True"

definition matchesRegex :: "NodeLib \<Rightarrow> value \<Rightarrow> value \<Rightarrow> bool" where
  "matchesRegex l v pat = (case nl_Match l (text_of l pat) (text_of l v) of None \<Rightarrow> False | Some b \<Rightarrow> b)"

fun isIn :: "NodeLib \<Rightarrow> value \<Rightarrow> value \<Rightarrow> bool" where
  "isIn l v (VList vs) = list_ex (\<lambda>x. text_of l x = text_of l v) vs"
| "isIn l v (VStr s) = list_ex (\<lambda>p. TrimSpace p = text_of l v) (SplitChar CHR '','' s)"
| "isIn l v _ = False"

definition evaluateCondition :: "NodeLib \<Rightarrow> value \<Rightarrow> string \<Rightarrow> value \<Rightarrow> bool" where
  "evaluateCondition l fieldValue operator compareValue =
     (if operator \<in> {''equals'', ''equal'', ''==''} then compareEqual l fieldValue compareValue
      else if operator \<in> {''notEquals'', ''notEqual'', ''!=''} then \<not> compareEqual l fieldValue compareValue
      else if operator = ''contains'' then compareContains l fieldValue compareValue
      else if operator = ''notContains'' then \<not> compareContains l fieldValue compareValue
      else if operator = ''startsWith'' then compareStartsWith l fieldValue compareValue
      else if operator = ''endsWith'' then compareEndsWith l fieldValue compareValue
      else if operator \<in> {''greaterThan'', ''>''} then compareGreater l fieldValue compareValue
      else if operator \<in> {''greaterThanOrEqual'', ''>=''} then
        compareGreater l fieldValue compareValue \<or> compareEqual l fieldValue compareValue
      else if operator \<in> {''lessThan'', ''<''} then compareLess l fieldValue compareValue
      else if operator \<in> {''lessThanOrEqual'', ''<=''} then
        compareLess l fieldValue compareValue \<or> compareEqual l fieldValue compareValue
      else if operator = ''isEmpty'' then isEmpty fieldValue
      else if operator = ''isNotEmpty'' then \<not> isEmpty fieldValue
      else if operator = ''isNull'' then isNil fieldValue
      else if operator = ''isNotNull'' then \<not> isNil fieldValue
      else if operator = ''isTrue'' then node_toBool fieldValue
      else if operator = ''isFalse'' then \<not> node_toBool fieldValue
      else if operator \<in> {''regex'', ''matches''} then matchesRegex l fieldValue compareValue
      else if operator = ''in'' then isIn l fieldValue compareValue
      else if operator = ''notIn'' then \<not> isIn l fieldValue compareValue
      else False)"

text \<open>One condition of an IF node, or one rule of a Switch node: an entry that is no map never holds.\<close>

definition conditionHolds :: "NodeLib \<Rightarrow> dict \<Rightarrow> value \<Rightarrow> bool" where
  "conditionHolds l data cond =
     (case cond of
        VMap condMap \<Rightarrow>
          evaluateCondition l (getFieldValue data (text_of l (at_key condMap ''field'')))
            (text_of l (at_key condMap ''operator'')) (at_key condMap ''value'')
      | _ \<Rightarrow> False)"

definition evaluateConditions :: "NodeLib \<Rightarrow> value list \<Rightarrow> dict \<Rightarrow> string \<Rightarrow> bool" where
  "evaluateConditions l conditions data combineMode =
     (if length conditions = 0 then True
      else
        let results = map (conditionHolds l data) conditions in
        if combineMode = ''or'' then list_ex (\<lambda>r. r) results else list_all (\<lambda>r. r) results)"

section \<open>The IF node\<close>

definition port :: "string \<Rightarrow> string \<Rightarrow> bool \<Rightarrow> string \<Rightarrow> PortDefinition" where
  "port name type required description = \<lparr> port_Name = name, port_Type = type, port_Required = required,
     port_Multiple = False, port_Description = description \<rparr>"

definition node_property ::
  "string \<Rightarrow> string \<Rightarrow> bool \<Rightarrow> value \<Rightarrow> string \<Rightarrow> (string \<times> string) list \<Rightarrow> PropertyDefinition" where
  "node_property name type required dflt description options = \<lparr> pd_Name = name, pd_Type = type, pd_Required = required,
     pd_Default = dflt, pd_Description = description,
     pd_Options = map (\<lambda>(label, v). \<lparr> po_Label = label, po_Value = VStr v \<rparr>) options,
     pd_Placeholder = '''', pd_DisplayOrder = 0 \<rparr>"

definition IF_GetMetadata :: NodeMetadata where
  "IF_GetMetadata = \<lparr> nm_Type = ''if'', nm_Name = ''IF'', nm_Description = ''Route items based on conditions'',
     nm_Category = ''core'', nm_Icon = ''git-branch'', nm_Color = ''#FF9800'', nm_Version = ''1.0.0'',
     nm_Inputs = [port ''main'' ''any'' True ''Input data''],
     nm_Outputs = [port ''true'' ''any'' False ''Items matching condition'',
       port ''false'' ''any'' False ''Items not matching condition''],
     nm_Properties = [node_property ''conditions'' ''json'' True
         (VList [VMap [''field'' \<mapsto> VStr '''', ''operator'' \<mapsto> VStr ''equals'', ''value'' \<mapsto> VStr '''']])
         ''Conditions to evaluate'' [],
       node_property ''combineConditions'' ''select'' False (VStr ''and'') ''How to combine multiple conditions''
         [(''AND (all must match)'', ''and''), (''OR (any must match)'', ''or'')]],
     nm_IsTrigger = False, nm_IsPremium = False \<rparr>"

definition IF_Validate :: "dict \<Rightarrow> string option" where
  "IF_Validate config =
     (case config ''conditions'' of
        None \<Rightarrow> Some ''conditions are required''
      | Some (VList condList) \<Rightarrow> if length condList = 0 then Some ''at least one condition is required'' else None
      | Some _ \<Rightarrow> Some ''at least one condition is required'')"

definition IF_Execute :: "NodeLib \<Rightarrow> (nat \<Rightarrow> time) \<Rightarrow> ExecutionInput \<Rightarrow> ExecutionOutput" where
  "IF_Execute l clk input =
     (let conditions = getList (xi_NodeConfig input) ''conditions'';
          combineMode = getStringConfig (xi_NodeConfig input) ''combineConditions'' ''and'';
          result = evaluateConditions l conditions (xi_InputData input) combineMode;
          output = (if result
            then (newOutput [''_output'' \<mapsto> VStr ''true'', ''true'' \<mapsto> VMap (xi_InputData input)])
              \<lparr> xo_Logs := [info input ''Condition evaluated to TRUE'' (clk 1)] \<rparr>
            else (newOutput [''_output'' \<mapsto> VStr ''false'', ''false'' \<mapsto> VMap (xi_InputData input)])
              \<lparr> xo_Logs := [info input ''Condition evaluated to FALSE'' (clk 1)] \<rparr>)
      in output\<lparr> xo_Metrics := metrics (clk 0) (clk 2) (clk 3) \<rparr>)"

section \<open>The Switch node\<close>

definition Switch_GetMetadata :: NodeMetadata where
  "Switch_GetMetadata = \<lparr> nm_Type = ''switch'', nm_Name = ''Switch'',
     nm_Description = ''Route items to different outputs based on rules'',
     nm_Category = ''core'', nm_Icon = ''shuffle'', nm_Color = ''#FF9800'', nm_Version = ''1.0.0'',
     nm_Inputs = [port ''main'' ''any'' True ''Input data''],
     nm_Outputs = [port ''output0'' ''any'' False ''First route'', port ''output1'' ''any'' False ''Second route'',
       port ''output2'' ''any'' False ''Third route'', port ''output3'' ''any'' False ''Fourth route'',
       port ''fallback'' ''any'' False ''Default route (no match)''],
     nm_Properties = [
       node_property ''mode'' ''select'' False (VStr ''rules'') ''Switch mode''
         [(''Rules'', ''rules''), (''Expression'', ''expression'')],
       node_property ''dataType'' ''select'' False (VStr ''string'') ''Data type to compare''
         [(''String'', ''string''), (''Number'', ''number''), (''Boolean'', ''boolean'')],
       node_property ''rules'' ''json'' False
         (VList [VMap [''output'' \<mapsto> VInt 0, ''field'' \<mapsto> VStr '''', ''operator'' \<mapsto> VStr ''equals'', ''value'' \<mapsto> VStr '''']])
         ''Routing rules'' [],
       node_property ''fallbackOutput'' ''select'' False (VStr ''fallback'') ''Output for non-matching items''
         [(''Fallback output'', ''fallback''), (''None (drop)'', ''none'')]],
     nm_IsTrigger = False, nm_IsPremium = False \<rparr>"

fun evaluateRules :: "NodeLib \<Rightarrow> value list \<Rightarrow> dict \<Rightarrow> string" where
  "evaluateRules l [] data = ''''"
| "evaluateRules l (rule # rules) data =
     (case rule of
        VMap ruleMap \<Rightarrow>
          if evaluateCondition l (getFieldValue data (text_of l (at_key ruleMap ''field'')))
               (text_of l (at_key ruleMap ''operator'')) (at_key ruleMap ''value'')
          then ''output'' @ text_of l (at_key ruleMap ''output'')
          else evaluateRules l rules data
      | _ \<Rightarrow> evaluateRules l rules data)"

definition Switch_Execute :: "NodeLib \<Rightarrow> (nat \<Rightarrow> time) \<Rightarrow> ExecutionInput \<Rightarrow> ExecutionOutput" where
  "Switch_Execute l clk input =
     (let config = xi_NodeConfig input;
          mode = getStringConfig config ''mode'' ''rules'';
          fallbackOutput = getStringConfig config ''fallbackOutput'' ''fallback'';
          matchedOutput = (if mode = ''rules'' then evaluateRules l (getList config ''rules'') (xi_InputData input)
            else ''output'' @ text_of l (getFieldValue (xi_InputData input) (getStringConfig config ''expression'' '''')));
          output = (if matchedOutput \<noteq> ''''
            then (newOutput ([''_output'' \<mapsto> VStr matchedOutput](matchedOutput \<mapsto> VMap (xi_InputData input))))
              \<lparr> xo_Logs := [info input (''Routed to: '' @ matchedOutput) (clk 1)] \<rparr>
            else if fallbackOutput \<noteq> ''none''
            then (newOutput ([''_output'' \<mapsto> VStr fallbackOutput](fallbackOutput \<mapsto> VMap (xi_InputData input))))
              \<lparr> xo_Logs := [info input ''No rule matched, routed to fallback'' (clk 1)] \<rparr>
            else (newOutput Map.empty)\<lparr> xo_Logs := [info input ''No rule matched, item dropped'' (clk 1)] \<rparr>)
      in output\<lparr> xo_Metrics := metrics (clk 0) (clk 2) (clk 3) \<rparr>)"

section \<open>The Merge node\<close>

definition getInputData :: "dict \<Rightarrow> string \<Rightarrow> value" where
  "getInputData data key = (case data key of Some v \<Rightarrow> v | None \<Rightarrow> VMap data)"

definition toArray :: "value \<Rightarrow> value list" where
  "toArray v =
     (case v of
        VList arr \<Rightarrow> arr
      | VMap m \<Rightarrow> (case m ''items'' of Some (VList items) \<Rightarrow> items | _ \<Rightarrow> [VMap m])
      | VNil \<Rightarrow> []
      | _ \<Rightarrow> [v])"

text \<open>An item that is no map gives a nil map, which reads as an empty one.\<close>

definition asMap :: "value \<Rightarrow> dict" where
  "asMap v = (case v of VMap m \<Rightarrow> m | _ \<Rightarrow> Map.empty)"

text \<open>
  \<open>mergeObjects\<close>: each key of the second map is handled on its own, so the order of the loop does not
  matter. A clash handling that is none of the three keeps the first value, like \<open>preferInput1\<close>.
\<close>

primrec mergeValue :: "value \<Rightarrow> string \<Rightarrow> value \<Rightarrow> value" where
  "mergeValue (VMap m1) clash new =
     (case new of
        VMap m2 \<Rightarrow> VMap (\<lambda>k. case m2 k of
            None \<Rightarrow> m1 k
          | Some v \<Rightarrow> (case (map_option mergeValue \<circ> m1) k of
              None \<Rightarrow> Some v
            | Some mergeExisting \<Rightarrow>
                if clash = ''preferInput1'' then m1 k
                else if clash = ''preferInput2'' then Some v
                else if clash = ''merge'' then Some (mergeExisting clash v)
                else m1 k))
      | _ \<Rightarrow> new)"
| "mergeValue VNil clash new = new"
| "mergeValue (VBool b) clash new = new"
| "mergeValue (VInt n) clash new = new"
| "mergeValue (VNum q) clash new = new"
| "mergeValue (VStr s) clash new = new"
| "mergeValue (VList vs) clash new = new"

definition mergeObjects :: "dict \<Rightarrow> dict \<Rightarrow> string \<Rightarrow> dict" where
  "mergeObjects m1 m2 clashHandling = asMap (mergeValue (VMap m1) clashHandling (VMap m2))"

definition appendItems :: "value \<Rightarrow> value \<Rightarrow> value list" where
  "appendItems input1 input2 = toArray input1 @ toArray input2"

definition itemAt :: "value list \<Rightarrow> nat \<Rightarrow> dict" where
  "itemAt arr i = (if i < length arr then asMap (arr ! i) else Map.empty)"

definition mergeByIndex :: "value \<Rightarrow> value \<Rightarrow> string \<Rightarrow> value list" where
  "mergeByIndex input1 input2 clashHandling =
     (let arr1 = toArray input1; arr2 = toArray input2;
          maxLen = (if length arr2 > length arr1 then length arr2 else length arr1)
      in map (\<lambda>i. VMap (mergeObjects (itemAt arr1 i) (itemAt arr2 i) clashHandling)) [0..<maxLen])"

definition keyText :: "NodeLib \<Rightarrow> string \<Rightarrow> dict \<Rightarrow> string" where
  "keyText l key m = text_of l (at_key m key)"

text \<open>\<open>index1\<close>: the last item of a key wins.\<close>

fun indexLoop :: "NodeLib \<Rightarrow> string \<Rightarrow> value list \<Rightarrow> (string \<rightharpoonup> dict) \<Rightarrow> (string \<rightharpoonup> dict)" where
  "indexLoop l key [] index1 = index1"
| "indexLoop l key (item # arr) index1 =
     indexLoop l key arr (case item of VMap m \<Rightarrow> index1(keyText l key m \<mapsto> m) | _ \<Rightarrow> index1)"

fun mergeLoop :: "NodeLib \<Rightarrow> string \<Rightarrow> string \<Rightarrow> (string \<rightharpoonup> dict) \<Rightarrow> value list \<Rightarrow> string set \<times> value list \<Rightarrow>
    string set \<times> value list" where
  "mergeLoop l key clash index1 [] (seen, result) = (seen, result)"
| "mergeLoop l key clash index1 (item # arr) (seen, result) =
     mergeLoop l key clash index1 arr
       (case item of
          VMap m \<Rightarrow>
            (insert (keyText l key m) seen,
             result @ [case index1 (keyText l key m) of
                 Some item1 \<Rightarrow> VMap (mergeObjects item1 m clash) | None \<Rightarrow> VMap m])
        | _ \<Rightarrow> (seen, result))"

text \<open>The items of a list that are maps and whose key is, or is not, in a set.\<close>

definition withKey :: "NodeLib \<Rightarrow> string \<Rightarrow> (string \<Rightarrow> bool) \<Rightarrow> value list \<Rightarrow> value list" where
  "withKey l key P arr = filter (\<lambda>item. case item of VMap m \<Rightarrow> P (keyText l key m) | _ \<Rightarrow> False) arr"

fun keysOf :: "NodeLib \<Rightarrow> string \<Rightarrow> value list \<Rightarrow> string set" where
  "keysOf l key [] = {}"
| "keysOf l key (item # arr) =
     (case item of VMap m \<Rightarrow> insert (keyText l key m) (keysOf l key arr) | _ \<Rightarrow> keysOf l key arr)"

definition mergeByKey :: "NodeLib \<Rightarrow> value \<Rightarrow> value \<Rightarrow> string \<Rightarrow> string \<Rightarrow> value list" where
  "mergeByKey l input1 input2 key clashHandling =
     (let arr1 = toArray input1; arr2 = toArray input2;
          index1 = indexLoop l key arr1 Map.empty
      in case mergeLoop l key clashHandling index1 arr2 ({}, []) of
           (seen, result) \<Rightarrow> result @ withKey l key (\<lambda>k. k \<notin> seen) arr1)"

definition keepKeyMatches :: "NodeLib \<Rightarrow> value \<Rightarrow> value \<Rightarrow> string \<Rightarrow> value list" where
  "keepKeyMatches l input1 input2 key =
     (let keys2 = keysOf l key (toArray input2) in withKey l key (\<lambda>k. k \<in> keys2) (toArray input1))"

definition removeKeyMatches :: "NodeLib \<Rightarrow> value \<Rightarrow> value \<Rightarrow> string \<Rightarrow> value list" where
  "removeKeyMatches l input1 input2 key =
     (let keys2 = keysOf l key (toArray input2) in withKey l key (\<lambda>k. k \<notin> keys2) (toArray input1))"

text \<open>
  \<open>combineAll\<close>: \<open>order m\<close> lists the keys of a map in the order the loop over it visits them; a key of the
  second item that exists already is written with the prefix \<open>input2_\<close>.
\<close>

fun combineLoop :: "string list \<Rightarrow> dict \<Rightarrow> dict \<Rightarrow> dict" where
  "combineLoop [] m2 combined = combined"
| "combineLoop (k # ks) m2 combined =
     combineLoop ks m2 (if combined k \<noteq> None then combined(''input2_'' @ k := m2 k) else combined(k := m2 k))"

definition combineAll :: "(dict \<Rightarrow> string list) \<Rightarrow> value \<Rightarrow> value \<Rightarrow> value list" where
  "combineAll order input1 input2 =
     concat (map (\<lambda>item1. map (\<lambda>item2. VMap (combineLoop (order (asMap item2)) (asMap item2) (asMap item1)))
       (toArray input2)) (toArray input1))"

definition Merge_GetMetadata :: NodeMetadata where
  "Merge_GetMetadata = \<lparr> nm_Type = ''merge'', nm_Name = ''Merge'', nm_Description = ''Merge data from multiple inputs'',
     nm_Category = ''core'', nm_Icon = ''git-merge'', nm_Color = ''#00BCD4'', nm_Version = ''1.0.0'',
     nm_Inputs = [port ''input1'' ''any'' True ''First input'', port ''input2'' ''any'' True ''Second input''],
     nm_Outputs = [port ''main'' ''any'' False ''Merged data''],
     nm_Properties = [
       node_property ''mode'' ''select'' False (VStr ''append'') ''Merge mode''
         [(''Append'', ''append''), (''Merge by Index'', ''mergeByIndex''), (''Merge by Key'', ''mergeByKey''),
          (''Keep Key Matches'', ''keepKeyMatches''), (''Remove Key Matches'', ''removeKeyMatches''),
          (''Combine'', ''combine''), (''Choose Branch'', ''chooseBranch''), (''Wait'', ''wait'')],
       node_property ''mergeKey'' ''string'' False VNil ''Field to use as merge key (for merge by key modes)'' [],
       node_property ''clashHandling'' ''select'' False (VStr ''preferInput2'') ''How to handle field conflicts''
         [(''Prefer Input 1'', ''preferInput1''), (''Prefer Input 2'', ''preferInput2''), (''Merge Objects'', ''merge'')],
       node_property ''chooseBranchValue'' ''select'' False (VStr ''input1'')
         ''Which branch to output (for choose branch mode)'' [(''Input 1'', ''input1''), (''Input 2'', ''input2'')]],
     nm_IsTrigger = False, nm_IsPremium = False \<rparr>"

definition mergeResult :: "NodeLib \<Rightarrow> (dict \<Rightarrow> string list) \<Rightarrow> dict \<Rightarrow> value \<Rightarrow> value \<Rightarrow> string + value" where
  "mergeResult l order config input1 input2 =
     (let mode = getStringConfig config ''mode'' ''append'';
          mergeKey = getStringConfig config ''mergeKey'' ''id'';
          clashHandling = getStringConfig config ''clashHandling'' ''preferInput2''
      in if mode = ''append'' then Inr (VList (appendItems input1 input2))
         else if mode = ''mergeByIndex'' then Inr (VList (mergeByIndex input1 input2 clashHandling))
         else if mode = ''mergeByKey'' then Inr (VList (mergeByKey l input1 input2 mergeKey clashHandling))
         else if mode = ''keepKeyMatches'' then Inr (VList (keepKeyMatches l input1 input2 mergeKey))
         else if mode = ''removeKeyMatches'' then Inr (VList (removeKeyMatches l input1 input2 mergeKey))
         else if mode = ''combine'' then Inr (VList (combineAll order input1 input2))
         else if mode = ''chooseBranch'' then
           Inr (if getStringConfig config ''chooseBranchValue'' ''input1'' = ''input1'' then input1 else input2)
         else if mode = ''wait'' then Inr (VMap [''input1'' \<mapsto> input1, ''input2'' \<mapsto> input2])
         else Inl (''unknown merge mode: '' @ mode))"

definition Merge_Execute ::
  "NodeLib \<Rightarrow> (dict \<Rightarrow> string list) \<Rightarrow> (nat \<Rightarrow> time) \<Rightarrow> ExecutionInput \<Rightarrow> ExecutionOutput" where
  "Merge_Execute l order clk input =
     (let config = xi_NodeConfig input;
          mode = getStringConfig config ''mode'' ''append'';
          input1 = getInputData (xi_InputData input) ''input1'';
          input2 = getInputData (xi_InputData input) ''input2''
      in case mergeResult l order config input1 input2 of
           Inl err \<Rightarrow> (newOutput Map.empty)\<lparr> xo_Error := Some err \<rparr>
         | Inr result \<Rightarrow>
             (newOutput (case result of VMap m \<Rightarrow> m | VList arr \<Rightarrow> [''items'' \<mapsto> VList arr] | _ \<Rightarrow> [''result'' \<mapsto> result]))
               \<lparr> xo_Logs := [info input (''Merged using mode: '' @ mode) (clk 1)],
                 xo_Metrics := metrics (clk 0) (clk 2) (clk 3) \<rparr>)"

section \<open>The Loop and the Split In Batches node\<close>

definition Loop_GetMetadata :: NodeMetadata where
  "Loop_GetMetadata = \<lparr> nm_Type = ''loop'', nm_Name = ''Loop'', nm_Description = ''Iterate over items in an array'',
     nm_Category = ''core'', nm_Icon = ''repeat'', nm_Color = ''#673AB7'', nm_Version = ''1.0.0'',
     nm_Inputs = [port ''main'' ''any'' True ''Array to iterate''],
     nm_Outputs = [port ''loop'' ''any'' False ''Current item (for loop body)'',
       port ''done'' ''any'' False ''All items after loop completes''],
     nm_Properties = [
       node_property ''items'' ''string'' False VNil ''Path to array field (leave empty for root array)'' [],
       node_property ''batchSize'' ''number'' False (VInt 1) ''Number of items per batch'' [],
       node_property ''pauseBetweenBatches'' ''number'' False (VInt 0) ''Pause in ms between batches'' []],
     nm_IsTrigger = False, nm_IsPremium = False \<rparr>"

text \<open>The loop that cuts the items into batches; \<open>i\<close> is its index, and a batch size is at least one.\<close>

function batchesFrom :: "'a list \<Rightarrow> int \<Rightarrow> int \<Rightarrow> 'a list list" where
  "batchesFrom items batchSize i =
     (if i < int (length items) \<and> 1 \<le> batchSize then
        (let e = i + batchSize; e1 = (if e > int (length items) then int (length items) else e)
         in slice (nat i) (nat e1) items # batchesFrom items batchSize (i + batchSize))
      else [])"
  by pat_completeness auto

termination batchesFrom
  by (relation "measure (\<lambda>(items, batchSize, i). nat (int (length items) - i))") auto

declare batchesFrom.simps [simp del]

definition atLeastOne :: "int \<Rightarrow> int" where
  "atLeastOne batchSize = (if batchSize < 1 then 1 else batchSize)"

definition loopItems :: "ExecutionInput \<Rightarrow> string + value list" where
  "loopItems input =
     (let itemsPath = getStringConfig (xi_NodeConfig input) ''items'' ''''
      in if itemsPath = '''' then
           (case xi_InputData input ''items'' of
              Some (VList arr) \<Rightarrow> Inr arr | _ \<Rightarrow> Inr [VMap (xi_InputData input)])
         else (case getFieldValue (xi_InputData input) itemsPath of
              VList arr \<Rightarrow> Inr arr | _ \<Rightarrow> Inl (''field '' @ [CHR 0x27] @ itemsPath @ [CHR 0x27] @ '' is not an array'')))"

definition Loop_Execute :: "(nat \<Rightarrow> time) \<Rightarrow> ExecutionInput \<Rightarrow> ExecutionOutput" where
  "Loop_Execute clk input =
     (let batchSize = atLeastOne (getIntConfig (xi_NodeConfig input) ''batchSize'' 1)
      in case loopItems input of
           Inl err \<Rightarrow> (newOutput Map.empty)\<lparr> xo_Error := Some err \<rparr>
         | Inr items \<Rightarrow>
             if length items = 0 then
               (newOutput [''done'' \<mapsto> VList [], ''_output'' \<mapsto> VStr ''done''])
                 \<lparr> xo_Logs := [info input ''Empty array, nothing to iterate'' (clk 1)] \<rparr>
             else
               (let batches = batchesFrom items batchSize 0;
                    loopState = [''items'' \<mapsto> VList items, ''batches'' \<mapsto> VList (map VList batches),
                      ''totalItems'' \<mapsto> VInt (int (length items)), ''totalBatches'' \<mapsto> VInt (int (length batches)),
                      ''currentBatch'' \<mapsto> VInt 0];
                    body = (if batchSize = 1
                      then [''item'' \<mapsto> items ! 0, ''index'' \<mapsto> VInt 0, ''first'' \<mapsto> VBool True,
                        ''last'' \<mapsto> VBool (length items = 1)]
                      else [''items'' \<mapsto> VList (batches ! 0), ''batchIndex'' \<mapsto> VInt 0, ''first'' \<mapsto> VBool True,
                        ''last'' \<mapsto> VBool (length batches = 1)])
                in (newOutput [''_loopState'' \<mapsto> VMap loopState, ''loop'' \<mapsto> VMap body, ''_output'' \<mapsto> VStr ''loop''])
                     \<lparr> xo_Logs := [info input (''Starting loop with '' @ showNat (length items) @ '' items in ''
                         @ showNat (length batches) @ '' batches'') (clk 1)],
                       xo_Metrics := (metrics (clk 0) (clk 2) (clk 3))\<lparr> em_ItemsIn := int (length items) \<rparr> \<rparr>))"

definition Split_Execute :: "(nat \<Rightarrow> time) \<Rightarrow> ExecutionInput \<Rightarrow> ExecutionOutput" where
  "Split_Execute clk input =
     (let batchSize = atLeastOne (getIntConfig (xi_NodeConfig input) ''batchSize'' 10);
          items = (case xi_InputData input ''items'' of Some (VList arr) \<Rightarrow> arr | _ \<Rightarrow> [VMap (xi_InputData input)]);
          batches = batchesFrom items batchSize 0
      in (newOutput [''batches'' \<mapsto> VList (map VList batches), ''totalItems'' \<mapsto> VInt (int (length items)),
             ''totalBatches'' \<mapsto> VInt (int (length batches)), ''batchSize'' \<mapsto> VInt batchSize])
           \<lparr> xo_Logs := [info input (''Split '' @ showNat (length items) @ '' items into '' @ showNat (length batches)
               @ '' batches of '' @ showInt batchSize) (clk 1)],
             xo_Metrics := (metrics (clk 0) (clk 2) (clk 3))
               \<lparr> em_ItemsIn := int (length items), em_ItemsOut := int (length batches) \<rparr> \<rparr>)"

definition SplitInBatches_GetMetadata :: NodeMetadata where
  "SplitInBatches_GetMetadata = \<lparr> nm_Type = ''split_in_batches'', nm_Name = ''Split In Batches'',
     nm_Description = ''Split items into smaller batches for processing'',
     nm_Category = ''core'', nm_Icon = ''layers'', nm_Color = ''#673AB7'', nm_Version = ''1.0.0'',
     nm_Inputs = [port ''main'' ''any'' True ''Items to split''],
     nm_Outputs = [port ''main'' ''any'' False ''Batched items''],
     nm_Properties = [
       node_property ''batchSize'' ''number'' True (VInt 10) ''Number of items per batch'' [],
       node_property ''options'' ''json'' False VNil ''Additional options'' []],
     nm_IsTrigger = False, nm_IsPremium = False \<rparr>"

section \<open>Routing\<close>

lemmas output_defs = newOutput_def metrics_def noMetrics_def

lemma IF_Execute_data:
  "xo_Data (IF_Execute l clk input) =
     (let p = (if evaluateConditions l (getList (xi_NodeConfig input) ''conditions'') (xi_InputData input)
          (getStringConfig (xi_NodeConfig input) ''combineConditions'' ''and'') then ''true'' else ''false'')
      in Some [''_output'' \<mapsto> VStr p, p \<mapsto> VMap (xi_InputData input)])"
  by (simp add: IF_Execute_def output_defs Let_def)

lemma nextNodes_port:
  "data ''_output'' = Some (VStr p) \<Longrightarrow>
     set (nextNodes wfl n data) = {ec_TargetNodeID c |c. c \<in> set (wd_Connections wfl) \<and> ec_SourceNodeID c = n \<and> ec_SourcePort c = p}"
  by (auto simp: nextNodes_def)

lemma nextNodes_no_port:
  "data ''_output'' = None \<Longrightarrow> set (nextNodes wfl n data) = {y. (n, y) \<in> wgraph wfl}"
  by (auto simp: nextNodes_def set_buildExecutionGraph)

lemma evaluateConditions_iff:
  "evaluateConditions l conditions data combineMode \<longleftrightarrow>
     conditions = [] \<or> (if combineMode = ''or'' then \<exists>c \<in> set conditions. conditionHolds l data c
                        else \<forall>c \<in> set conditions. conditionHolds l data c)"
  by (simp add: evaluateConditions_def Let_def list_ex_iff list_all_iff)

text \<open>After an IF node the engine goes on with exactly the nodes connected to the port \<open>true\<close> when the
  conditions hold - all of them, or one of them in the mode \<open>or\<close>; no conditions count as true - and with those
  of the port \<open>false\<close> otherwise, and the data sent on is the node's input.\<close>
theorem IF_steers_engine:
  fixes l clk input
  defines "data \<equiv> the (xo_Data (IF_Execute l clk input))"
    and "conds \<equiv> getList (xi_NodeConfig input) ''conditions''"
    and "anyOf \<equiv> (getStringConfig (xi_NodeConfig input) ''combineConditions'' ''and'' = ''or'')"
  shows "\<exists>p. (p = ''true'' \<longleftrightarrow> conds = [] \<or> (if anyOf then list_ex (conditionHolds l (xi_InputData input)) conds
        else list_all (conditionHolds l (xi_InputData input)) conds))
    \<and> p \<in> {''true'', ''false''} \<and> data p = Some (VMap (xi_InputData input))
    \<and> set (nextNodes wfl n data) = {ec_TargetNodeID c |c. c \<in> set (wd_Connections wfl) \<and> ec_SourceNodeID c = n \<and> ec_SourcePort c = p}"
proof -
  let ?p = "if evaluateConditions l conds (xi_InputData input) (getStringConfig (xi_NodeConfig input) ''combineConditions'' ''and'')
    then ''true'' else ''false''"
  have data: "data = [''_output'' \<mapsto> VStr ?p, ?p \<mapsto> VMap (xi_InputData input)]"
    by (simp add: data_def conds_def IF_Execute_data Let_def)
  show ?thesis
    by (rule exI[of _ ?p])
      (auto simp: data evaluateConditions_iff anyOf_def list_ex_iff list_all_iff nextNodes_port[where p = ?p])
qed

section \<open>Comparisons\<close>

text \<open>Two values with the same number but different texts, such as 1 and the text 1.0, are neither
  equal nor ordered: equals, less, greater, less-or-equal and greater-or-equal all fail on them.\<close>
theorem same_number_incomparable:
  assumes "toNumber l a = toNumber l b" and "text_of l a \<noteq> text_of l b"
  shows "\<not> evaluateCondition l a ''=='' b \<and> \<not> evaluateCondition l a ''<'' b \<and> \<not> evaluateCondition l a ''>'' b
    \<and> \<not> evaluateCondition l a ''<='' b \<and> \<not> evaluateCondition l a ''>='' b"
proof -
  have "\<not> compareEqual l a b"
    using assms(2) by (cases a; cases b) (auto simp: compareEqual_def)
  then show ?thesis
    using assms(1) by (simp add: evaluateCondition_def compareLess_def compareGreater_def)
qed

definition sample_lib :: NodeLib where
  "sample_lib = \<lparr> nl_lib = \<lparr> lib_ParseFloat = (\<lambda>s. if s = ''1.0'' then Some 1 else None), lib_Sprint = (\<lambda>v. ''?''),
     lib_ToUpper = id, lib_ToLower = id \<rparr>, nl_Match = (\<lambda>p s. None) \<rparr>"

lemma same_number_incomparable_witness:
  "\<not> evaluateCondition sample_lib (VInt 1) ''=='' (VStr ''1.0'') \<and> \<not> evaluateCondition sample_lib (VInt 1) ''<'' (VStr ''1.0'')
    \<and> \<not> evaluateCondition sample_lib (VInt 1) ''>'' (VStr ''1.0'') \<and> \<not> evaluateCondition sample_lib (VInt 1) ''<='' (VStr ''1.0'')
    \<and> \<not> evaluateCondition sample_lib (VInt 1) ''>='' (VStr ''1.0'')"
  by (rule same_number_incomparable) (simp_all add: sample_lib_def sprint_def showInt_def showNat.simps)

text \<open>Texts that are no numbers all count as zero: they are equal or nothing at all.\<close>

lemma texts_incomparable:
  "lib_ParseFloat (nl_lib l) s = None \<Longrightarrow> lib_ParseFloat (nl_lib l) t = None \<Longrightarrow>
     \<not> evaluateCondition l (VStr s) ''<'' (VStr t) \<and> (evaluateCondition l (VStr s) ''<='' (VStr t) \<longleftrightarrow> s = t)"
  by (simp add: evaluateCondition_def compareLess_def compareEqual_def sprint_def)

section \<open>Rules of a Switch\<close>

text \<open>The first rule that holds selects the output, whatever its number is.\<close>

lemma evaluateRules_first:
  "evaluateRules l rules data =
     (case find (conditionHolds l data) rules of
        Some rule \<Rightarrow> ''output'' @ text_of l (at_key (asMap rule) ''output'') | None \<Rightarrow> '''')"
  by (induction rules) (auto simp: conditionHolds_def asMap_def split: "value.splits")


lemma Switch_Execute_data:
  "getStringConfig (xi_NodeConfig input) ''mode'' ''rules'' = ''rules'' \<Longrightarrow>
   xo_Data (Switch_Execute l clk input) =
     (let p = evaluateRules l (getList (xi_NodeConfig input) ''rules'') (xi_InputData input);
          f = getStringConfig (xi_NodeConfig input) ''fallbackOutput'' ''fallback''
      in if p \<noteq> '''' then Some ([''_output'' \<mapsto> VStr p](p \<mapsto> VMap (xi_InputData input)))
         else if f \<noteq> ''none'' then Some ([''_output'' \<mapsto> VStr f](f \<mapsto> VMap (xi_InputData input)))
         else Some Map.empty)"
  by (simp add: Switch_Execute_def output_defs Let_def)

text \<open>A Switch node goes on at the output of the first rule that holds. When none holds and its fallback is
  \<open>none\<close> (or the reserved name \<open>_output\<close>), the item is not dropped: its output names no port, so the engine
  goes on with every node connected to the Switch, whatever the port.\<close>
theorem Switch_steers_engine:
  fixes l clk input
  defines "data \<equiv> the (xo_Data (Switch_Execute l clk input))"
    and "rules \<equiv> getList (xi_NodeConfig input) ''rules''"
  assumes "getStringConfig (xi_NodeConfig input) ''mode'' ''rules'' = ''rules''"
  shows "set (nextNodes wfl n data) =
    (case find (conditionHolds l (xi_InputData input)) rules of
       Some rule \<Rightarrow> {ec_TargetNodeID c |c. c \<in> set (wd_Connections wfl) \<and> ec_SourceNodeID c = n
          \<and> ec_SourcePort c = ''output'' @ text_of l (at_key (asMap rule) ''output'')}
     | None \<Rightarrow>
         if getStringConfig (xi_NodeConfig input) ''fallbackOutput'' ''fallback'' \<in> {''none'', ''_output''}
         then {y. (n, y) \<in> wgraph wfl}
         else {ec_TargetNodeID c |c. c \<in> set (wd_Connections wfl) \<and> ec_SourceNodeID c = n
           \<and> ec_SourcePort c = getStringConfig (xi_NodeConfig input) ''fallbackOutput'' ''fallback''})"
proof (cases "find (conditionHolds l (xi_InputData input)) rules")
  case None
  have "evaluateRules l rules (xi_InputData input) = ''''"
    using None by (simp add: evaluateRules_first)
  then have "data = (let f = getStringConfig (xi_NodeConfig input) ''fallbackOutput'' ''fallback''
      in if f \<noteq> ''none'' then [''_output'' \<mapsto> VStr f](f \<mapsto> VMap (xi_InputData input)) else Map.empty)"
    by (simp add: data_def Switch_Execute_data[OF assms(3)] rules_def Let_def)
  then show ?thesis
    using None by (auto simp: Let_def nextNodes_def set_buildExecutionGraph)
next
  case (Some rule)
  let ?p = "''output'' @ text_of l (at_key (asMap rule) ''output'')"
  have "data = [''_output'' \<mapsto> VStr ?p](?p \<mapsto> VMap (xi_InputData input))"
    using Some by (simp add: data_def Switch_Execute_data[OF assms(3)] rules_def evaluateRules_first Let_def)
  then have "data ''_output'' = Some (VStr ?p)"
    by simp
  then show ?thesis
    using Some by (simp add: nextNodes_port)
qed

definition sample_input :: "dict \<Rightarrow> dict \<Rightarrow> ExecutionInput" where
  "sample_input config data = \<lparr> xi_NodeID = ''n'', xi_NodeConfig = config, xi_InputData = data, xi_Credentials = None,
     xi_Context = \<lparr> xc_ExecutionID = '''', xc_WorkflowID = '''', xc_UserID = '''', xc_WorkspaceID = '''',
       xc_Variables = Map.empty, xc_Env = Map.empty, xc_Mode = '''' \<rparr> \<rparr>"

lemma Switch_steers_engine_witness:
  "set (nextNodes (sample_def [''n'', ''a'', ''b''] [(''n'', ''a''), (''n'', ''b'')]) ''n''
     (the (xo_Data (Switch_Execute sample_lib (\<lambda>_. 0) (sample_input [''fallbackOutput'' \<mapsto> VStr ''none''] Map.empty)))))
   = {''a'', ''b''}"
  using Switch_steers_engine[where input = "sample_input [''fallbackOutput'' \<mapsto> VStr ''none''] Map.empty"
      and wfl = "sample_def [''n'', ''a'', ''b''] [(''n'', ''a''), (''n'', ''b'')]" and n = "''n''" and l = sample_lib and clk = "\<lambda>_. 0"]
  by (auto simp: sample_input_def getStringConfig_def getList_def)

section \<open>Batches\<close>

lemma batchesFrom_concat: "0 \<le> i \<Longrightarrow> 1 \<le> b \<Longrightarrow> concat (batchesFrom items b i) = drop (nat i) items"
proof (induction items b i rule: batchesFrom.induct)
  case (1 items b i)
  show ?case
  proof (cases "i < int (length items)")
    case True
    have "slice (nat i) (nat (if i + b > int (length items) then int (length items) else i + b)) items = take (nat b) (drop (nat i) items)"
      using "1.prems" by (simp add: slice_def nat_diff_distrib nat_add_distrib)
    moreover have "take (nat b) (drop (nat i) items) @ drop (nat (i + b)) items = drop (nat i) items"
      using "1.prems" append_take_drop_id[of "nat b" "drop (nat i) items"] by (simp add: nat_add_distrib add.commute)
    ultimately show ?thesis
      using 1 True by (simp add: batchesFrom.simps[of items b i] Let_def)
  qed (use 1 in \<open>simp add: batchesFrom.simps\<close>)
qed

lemma batchesFrom_sizes:
  "0 \<le> i \<Longrightarrow> 1 \<le> b \<Longrightarrow> k < length (batchesFrom items b i) \<Longrightarrow>
   length (batchesFrom items b i ! k) = (if Suc k < length (batchesFrom items b i) then nat b
     else length items - nat i - k * nat b) \<and> batchesFrom items b i ! k \<noteq> []"
proof (induction items b i arbitrary: k rule: batchesFrom.induct)
  case (1 items b i)
  have "i < int (length items)"
    using 1(4) by (cases "i < int (length items)") (simp_all add: batchesFrom.simps)
  define rest where "rest = batchesFrom items b (i + b)"
  have eq: "batchesFrom items b i = take (nat b) (drop (nat i) items) # rest"
    using \<open>i < _\<close> "1.prems"(1,2)
    by (subst batchesFrom.simps) (simp add: rest_def Let_def slice_def nat_diff_distrib nat_add_distrib)
  show ?case
  proof (cases k)
    case 0
    show ?thesis
    proof (cases "i + b < int (length items)")
      case True
      then have "rest \<noteq> []"
        using "1.prems"(2) by (simp add: rest_def batchesFrom.simps[of items b "i + b"] Let_def)
      moreover have "\<not> length items - nat i \<le> nat b"
        using True "1.prems"(1,2) by linarith
      ultimately show ?thesis
        using 0 "1.prems"(1,2) by (simp add: eq min_def)
    next
      case False
      then have "rest = []"
        by (simp add: rest_def batchesFrom.simps)
      then show ?thesis
        using 0 False \<open>i < _\<close> "1.prems"(1,2) by (simp add: eq min_def)
    qed
  next
    case (Suc j)
    have "length (rest ! j) = (if Suc j < length rest then nat b else length items - nat (i + b) - j * nat b) \<and> rest ! j \<noteq> []"
      using 1(1)[of "i + b" "if i + b > int (length items) then int (length items) else i + b" j] Suc "1.prems" \<open>i < _\<close>
      by (simp add: rest_def[symmetric] eq)
    then show ?thesis
      using "1.prems"(1,2) by (simp add: eq Suc nat_add_distrib add.assoc)
  qed
qed

definition loopBatches :: "ExecutionOutput \<Rightarrow> value list" where
  "loopBatches out = (case xo_Data out of None \<Rightarrow> [] | Some d \<Rightarrow> getList (getMapConfig d ''_loopState'') ''batches'')"

text \<open>C35: A Loop node with items cuts them into batches that give back the items, in order, all of the batch size
  but the last; but it only ever sends the first batch on, and the nodes that follow are exactly those connected to its port
  \<open>loop\<close>, never those connected to the port \<open>done\<close>: the other batches are never processed.\<close>
theorem Loop_first_batch_only:
  fixes clk input
  defines "d \<equiv> the (xo_Data (Loop_Execute clk input))" and "b \<equiv> atLeastOne (getIntConfig (xi_NodeConfig input) ''batchSize'' 1)"
  assumes "loopItems input = Inr items" and "items \<noteq> []"
  shows "loopBatches (Loop_Execute clk input) = map VList (batchesFrom items b 0)
    \<and> concat (batchesFrom items b 0) = items
    \<and> (\<forall>batch \<in> set (butlast (batchesFrom items b 0)). length batch = nat b)
    \<and> set (nextNodes wfl n d) = {ec_TargetNodeID c |c. c \<in> set (wd_Connections wfl) \<and> ec_SourceNodeID c = n \<and> ec_SourcePort c = ''loop''}
    \<and> (if b = 1 then at_key (getMapConfig d ''loop'') ''item'' = hd items
       else at_key (getMapConfig d ''loop'') ''items'' = VList (hd (batchesFrom items b 0)))"
proof -
  have b: "1 \<le> b"
    by (simp add: b_def atLeastOne_def)
  have sizes: "\<forall>batch \<in> set (butlast (batchesFrom items b 0)). length batch = nat b"
    using batchesFrom_sizes[of 0 b _ items] b by (auto simp: in_set_conv_nth nth_butlast less_diff_conv)
  have all: "concat (batchesFrom items b 0) = items"
    using batchesFrom_concat[of 0 b items] b by simp
  then have "batchesFrom items b 0 \<noteq> []"
    using assms(4) by auto
  then have hd0: "batchesFrom items b 0 ! 0 = hd (batchesFrom items b 0)" "items ! 0 = hd items"
    using assms(4) by (simp_all add: hd_conv_nth)
  have "d ''_output'' = Some (VStr ''loop'')"
    using assms(3,4) by (simp add: d_def Loop_Execute_def Let_def output_defs)
  moreover have "loopBatches (Loop_Execute clk input) = map VList (batchesFrom items b 0)"
    using assms(3,4) by (simp add: Loop_Execute_def Let_def output_defs loopBatches_def getList_def getMapConfig_def flip: b_def)
  moreover have "if b = 1 then at_key (getMapConfig d ''loop'') ''item'' = hd items
      else at_key (getMapConfig d ''loop'') ''items'' = VList (hd (batchesFrom items b 0))"
    using assms(3,4) hd0
    by (simp add: Loop_Execute_def Let_def output_defs getMapConfig_def d_def at_key_def flip: b_def)
  ultimately show ?thesis
    using sizes all nextNodes_port[of d "''loop''" wfl n] by blast
qed

text \<open>The batches of Split In Batches give back the items in order; every batch has the batch size but the
  last, which has the rest, and none is empty.\<close>
lemma Split_batches:
  fixes clk input
  defines "b \<equiv> atLeastOne (getIntConfig (xi_NodeConfig input) ''batchSize'' 10)"
  assumes "xi_InputData input ''items'' = Some (VList items)" and "batches = batchesFrom items b 0"
  shows "xo_Data (Split_Execute clk input) = Some [''batches'' \<mapsto> VList (map VList batches), ''totalItems'' \<mapsto> VInt (int (length items)),
      ''totalBatches'' \<mapsto> VInt (int (length batches)), ''batchSize'' \<mapsto> VInt b]
    \<and> concat batches = items
    \<and> (\<forall>k < length batches. length (batches ! k) = (if Suc k < length batches then nat b else length items - k * nat b)
         \<and> batches ! k \<noteq> [])"
proof -
  have "1 \<le> b"
    by (simp add: b_def atLeastOne_def)
  then show ?thesis
    using assms(2,3) batchesFrom_concat[of 0 b items] batchesFrom_sizes[of 0 b _ items]
    by (simp add: Split_Execute_def Let_def output_defs flip: b_def)
qed

definition three_items :: ExecutionInput where
  "three_items = sample_input [''batchSize'' \<mapsto> VInt 2] [''items'' \<mapsto> VList [VInt 1, VInt 2, VInt 3]]"

lemma Loop_first_batch_only_witness:
  "loopBatches (Loop_Execute (\<lambda>_. 0) three_items) = map VList (batchesFrom [VInt 1, VInt 2, VInt 3] 2 0)
    \<and> concat (batchesFrom [VInt 1, VInt 2, VInt 3] 2 0) = [VInt 1, VInt 2, VInt 3]"
proof -
  have items: "loopItems three_items = Inr [VInt 1, VInt 2, VInt 3]"
    and b: "atLeastOne (getIntConfig (xi_NodeConfig three_items) ''batchSize'' 1) = 2"
    by (simp_all add: three_items_def sample_input_def loopItems_def getStringConfig_def getIntConfig_def atLeastOne_def)
  show ?thesis
    using Loop_first_batch_only[OF items, where clk = "\<lambda>_. 0"] unfolding b by blast
qed

section \<open>Merging\<close>

text \<open>Keeping and removing the matches of a key splits the items: each item that is a map is in exactly one part.\<close>

lemma keep_remove_partition:
  "mset (keepKeyMatches l v1 v2 key) + mset (removeKeyMatches l v1 v2 key) =
     mset (filter (\<lambda>item. case item of VMap m \<Rightarrow> True | _ \<Rightarrow> False) (toArray v1))"
proof -
  have "mset (withKey l key P arr) + mset (withKey l key (\<lambda>k. \<not> P k) arr) =
      mset (filter (\<lambda>item. case item of VMap m \<Rightarrow> True | _ \<Rightarrow> False) arr)" for P arr
    by (induction arr) (auto simp: withKey_def split: "value.splits")
  then show ?thesis
    by (simp add: keepKeyMatches_def removeKeyMatches_def Let_def)
qed

lemma indexLoop_lookup:
  "indexLoop l key arr index1 k =
     (case find (\<lambda>item. case item of VMap m \<Rightarrow> keyText l key m = k | _ \<Rightarrow> False) (rev arr) of
        Some item \<Rightarrow> Some (asMap item) | None \<Rightarrow> index1 k)"
proof (induction arr arbitrary: index1)
  case (Cons item arr)
  then show ?case
    by (auto simp: asMap_def find_append split: option.split "value.split")
qed simp

lemma mergeLoop_eq:
  "mergeLoop l key clash index1 arr (seen, result) =
     (seen \<union> keysOf l key arr,
      result @ map (\<lambda>item. case index1 (keyText l key (asMap item)) of
          Some item1 \<Rightarrow> VMap (mergeObjects item1 (asMap item) clash) | None \<Rightarrow> item)
        (filter (\<lambda>item. case item of VMap m \<Rightarrow> True | _ \<Rightarrow> False) arr))"
  by (induction arr arbitrary: seen result) (auto simp: asMap_def split: "value.split" option.split)

definition isMap :: "value \<Rightarrow> bool" where
  "isMap v = (case v of VMap m \<Rightarrow> True | _ \<Rightarrow> False)"

definition hasKey :: "NodeLib \<Rightarrow> string \<Rightarrow> string \<Rightarrow> value \<Rightarrow> bool" where
  "hasKey l key k item \<longleftrightarrow> isMap item \<and> keyText l key (asMap item) = k"

text \<open>Merging by key gives, for each item of the second input, that item merged with the last item of
  the first input that has its key, and then the items of the first input whose key is not in the second.
  Of several items of the first input with a key of the second, all but the last are lost.\<close>
theorem mergeByKey_spec:
  "mergeByKey l v1 v2 key clash =
     map (\<lambda>item. case find (hasKey l key (keyText l key (asMap item))) (rev (toArray v1)) of
         Some item1 \<Rightarrow> VMap (mergeObjects (asMap item1) (asMap item) clash)
       | None \<Rightarrow> item) (filter isMap (toArray v2))
     @ filter (\<lambda>item. isMap item \<and> find (hasKey l key (keyText l key (asMap item))) (toArray v2) = None) (toArray v1)"
proof -
  have lookup: "indexLoop l key arr Map.empty k = map_option asMap (find (hasKey l key k) (rev arr))" for arr k
  proof -
    have "(\<lambda>item. case item of VMap m \<Rightarrow> keyText l key m = k | _ \<Rightarrow> False) = hasKey l key k"
      by (rule ext) (simp add: hasKey_def isMap_def asMap_def split: "value.split")
    then show ?thesis
      by (simp add: indexLoop_lookup split: option.split)
  qed
  have keys: "k \<notin> keysOf l key arr \<longleftrightarrow> find (hasKey l key k) arr = None" for arr k
    by (induction arr) (auto simp: hasKey_def isMap_def asMap_def split: "value.splits")
  have rest: "withKey l key (\<lambda>k. k \<notin> keysOf l key arr2) arr1 =
      filter (\<lambda>item. isMap item \<and> find (hasKey l key (keyText l key (asMap item))) arr2 = None) arr1" for arr1 arr2
    unfolding withKey_def keys by (rule filter_cong) (auto simp: isMap_def asMap_def split: "value.splits")
  have "(\<lambda>item. case item of VMap m \<Rightarrow> True | _ \<Rightarrow> False) = isMap"
    by (simp add: fun_eq_iff isMap_def)
  then show ?thesis
    by (simp add: mergeByKey_def Let_def mergeLoop_eq rest lookup) (auto split: option.split)
qed

text \<open>What the clash handlings mean; one that is none of the three is taken as \<open>preferInput1\<close>.\<close>

lemma mergeObjects_modes:
  "mergeObjects m1 m2 ''preferInput2'' = m1 ++ m2"
  "clash \<noteq> ''preferInput2'' \<Longrightarrow> clash \<noteq> ''merge'' \<Longrightarrow> mergeObjects m1 m2 clash = m2 ++ m1"
  "mergeObjects m1 m2 ''merge'' k =
     (case (m1 k, m2 k) of
        (Some (VMap a), Some (VMap b)) \<Rightarrow> Some (VMap (mergeObjects a b ''merge''))
      | (v, None) \<Rightarrow> v
      | (_, v) \<Rightarrow> v)"
  by (auto simp: mergeObjects_def asMap_def map_add_def fun_eq_iff split: option.splits "value.splits")

lemma mergeObjects_idem: "mergeObjects m Map.empty clash = m" "mergeObjects Map.empty m clash = m"
  by (auto simp: mergeObjects_def asMap_def fun_eq_iff split: option.splits)

text \<open>A Merge node that chooses the branch of an IF node hands on the output of that node with its reserved
  key \<open>_output\<close>: the engine then looks for connections of the Merge node at the port \<open>true\<close> or \<open>false\<close>. If they
  all leave its declared port \<open>main\<close>, the run stops at the Merge node without an error.\<close>
theorem Merge_after_IF_stops:
  assumes "getStringConfig (xi_NodeConfig input) ''mode'' ''append'' = ''chooseBranch''"
    and "getStringConfig (xi_NodeConfig input) ''chooseBranchValue'' ''input1'' = ''input1''"
    and "xi_InputData input ''input1'' = Some (VMap (the (xo_Data (IF_Execute l clk0 input0))))"
    and "\<forall>c \<in> set (wd_Connections wfl). ec_SourceNodeID c = n \<longrightarrow> ec_SourcePort c = ''main''"
  shows "xo_Error (Merge_Execute l order clk input) = None
    \<and> nextNodes wfl n (the (xo_Data (Merge_Execute l order clk input))) = []"
proof -
  define p where "p = (if evaluateConditions l (getList (xi_NodeConfig input0) ''conditions'') (xi_InputData input0)
      (getStringConfig (xi_NodeConfig input0) ''combineConditions'' ''and'') then ''true'' else ''false'')"
  then have p: "p \<in> {''true'', ''false''}"
    "the (xo_Data (IF_Execute l clk0 input0)) = [''_output'' \<mapsto> VStr p, p \<mapsto> VMap (xi_InputData input0)]"
    by (simp_all add: IF_Execute_data Let_def)
  have "xo_Error (Merge_Execute l order clk input) = None"
    and data: "the (xo_Data (Merge_Execute l order clk input)) = [''_output'' \<mapsto> VStr p, p \<mapsto> VMap (xi_InputData input0)]"
    using assms(1-3) p(2) by (simp_all add: Merge_Execute_def mergeResult_def getInputData_def output_defs Let_def)
  moreover have "the (xo_Data (Merge_Execute l order clk input)) ''_output'' = Some (VStr p)"
    using p(1) data by auto
  ultimately show ?thesis
    using assms(4) p(1) by (auto simp: nextNodes_def filter_empty_conv)
qed

definition sample_ports :: "(string \<times> string \<times> string) list \<Rightarrow> WorkflowDef" where
  "sample_ports cs = (sample_def [] [])\<lparr> wd_Connections := map (\<lambda>(s, p, t). \<lparr> ec_SourceNodeID = s, ec_SourcePort = p,
     ec_TargetNodeID = t, ec_TargetPort = ''main'' \<rparr>) cs \<rparr>"

lemma Merge_after_IF_stops_witness:
  fixes if_data :: dict
  defines "if_data \<equiv> the (xo_Data (IF_Execute sample_lib (\<lambda>_. 0) (sample_input Map.empty Map.empty)))"
  defines "input \<equiv> sample_input [''mode'' \<mapsto> VStr ''chooseBranch''] [''input1'' \<mapsto> VMap if_data]"
  shows "xo_Error (Merge_Execute sample_lib (\<lambda>m. []) (\<lambda>_. 0) input) = None
    \<and> nextNodes (sample_ports [(''n'', ''main'', ''a'')]) ''n'' (the (xo_Data (Merge_Execute sample_lib (\<lambda>m. []) (\<lambda>_. 0) input))) = []"
  by (rule Merge_after_IF_stops[where l = sample_lib and ?clk0.0 = "\<lambda>_. 0" and ?input0.0 = "sample_input Map.empty Map.empty"])
    (simp_all add: input_def if_data_def sample_input_def getStringConfig_def sample_ports_def)

end
