(* ===== verification/Rate_Limit.thy ===== *)
theory Rate_Limit
  imports Prelude
begin

text \<open>
  Rate limiting: the token buckets and limiters of the gateway
  (\<open>internal/gateway/middleware/rate_limit_advanced.go\<close>) and of the shared middleware
  (\<open>pkg/middleware/ratelimit.go\<close>). What a limiter relies on is the locale \<open>token_bucket\<close>, which both
  buckets interpret. A \<open>float64\<close> number of tokens is a rational; a call reads the clock once, at
  its argument \<open>now\<close>; the order in which Go visits a map is an argument.
\<close>

definition Seconds :: "duration \<Rightarrow> rat" where
  "Seconds d = of_int d / of_int Second"

lemma sorted_le_last: "sorted xs \<Longrightarrow> x \<in> set xs \<Longrightarrow> x \<le> last (xs :: time list)"
  by (induction xs) auto

section \<open>The interface of a token bucket\<close>

text \<open>Taking a token first refills the bucket up to its capacity, then takes one if there is one.\<close>

locale token_bucket =
  fixes allow :: "time \<Rightarrow> 'b \<Rightarrow> bool \<times> 'b"
    and level :: "'b \<Rightarrow> rat"
    and capacity :: "'b \<Rightarrow> rat"
    and rate :: "'b \<Rightarrow> rat"
    and refilled :: "'b \<Rightarrow> time"
  assumes allow_iff: "fst (allow now b) \<longleftrightarrow> 1 \<le> min (capacity b) (level b + Seconds (now - refilled b) * rate b)"
    and allow_level: "level (snd (allow now b)) =
      min (capacity b) (level b + Seconds (now - refilled b) * rate b) - (if fst (allow now b) then 1 else 0)"
    and allow_refilled: "refilled (snd (allow now b)) = now"
    and allow_capacity: "capacity (snd (allow now b)) = capacity b"
    and allow_rate: "rate (snd (allow now b)) = rate b"
begin

text \<open>The answers to a list of calls, and the bucket after them.\<close>

fun allows :: "time list \<Rightarrow> 'b \<Rightarrow> bool list \<times> 'b" where
  "allows [] b = ([], b)"
| "allows (t # ts) b =
     (case allow t b of (ok, b1) \<Rightarrow> (case allows ts b1 of (oks, b2) \<Rightarrow> (ok # oks, b2)))"

definition granted :: "time list \<Rightarrow> 'b \<Rightarrow> nat" where
  "granted ts b = length (filter id (fst (allows ts b)))"

lemma granted_Cons: "granted (t # ts) b = (if fst (allow t b) then 1 else 0) + granted ts (snd (allow t b))"
  by (simp add: granted_def split: prod.split)

lemma allows_append:
  "allows (xs @ ys) b = (fst (allows xs b) @ fst (allows ys (snd (allows xs b))), snd (allows ys (snd (allows xs b))))"
  by (induction xs arbitrary: b) (simp_all add: case_prod_unfold)

lemma Seconds_add: "Seconds (a - b) + Seconds (b - c) = Seconds (a - c)"
  by (simp add: Seconds_def field_simps)

lemma Seconds_nonneg: "a \<le> b \<Longrightarrow> 0 \<le> Seconds (b - a)"
  by (simp add: Seconds_def)

text \<open>
  Calls up to the time \<open>last\<close> are granted at most the level of the bucket and what flows in until
  then, and the level stays between zero and the capacity.
\<close>

lemma granted_level:
  assumes "0 \<le> rate b" and "0 \<le> level b" and "sorted ts" and "\<forall>t \<in> set ts. refilled b \<le> t \<and> t \<le> end_time"
    and "refilled b \<le> end_time" and "0 \<le> capacity b"
  shows "of_nat (granted ts b) \<le> level b + Seconds (end_time - refilled b) * rate b"
  using assms
proof (induction ts arbitrary: b)
  case Nil
  then show ?case
    using Seconds_nonneg by (simp add: granted_def)
next
  case (Cons t ts)
  let ?b1 = "snd (allow t b)"
  have inflow: "0 \<le> Seconds (t - refilled b) * rate b"
    using Seconds_nonneg[of "refilled b" t] Cons.prems by simp
  have lev: "level ?b1 + (if fst (allow t b) then 1 else 0) \<le> level b + Seconds (t - refilled b) * rate b"
    by (simp add: allow_level)
  have "0 \<le> level ?b1"
    using allow_level[of t b] allow_iff[of t b] inflow Cons.prems by (auto simp: min_def split: if_splits)
  then have "of_nat (granted ts ?b1) \<le> level ?b1 + Seconds (end_time - t) * rate b"
    using Cons.IH[of ?b1] Cons.prems by (simp add: allow_rate allow_refilled allow_capacity)
  moreover have "Seconds (end_time - t) * rate b + Seconds (t - refilled b) * rate b = Seconds (end_time - refilled b) * rate b"
    using Seconds_add[of end_time t "refilled b"] by (simp add: distrib_right[symmetric])
  ultimately show ?case
    using lev by (simp add: granted_Cons split: if_splits)
qed

text \<open>In any stretch of calls, whatever came before: at most the capacity and the inflow.\<close>

lemma granted_bound:
  assumes "0 \<le> rate b" and "0 \<le> level b" and "level b \<le> capacity b" and "sorted (t # ts)" and "refilled b \<le> t"
  shows "of_nat (granted (t # ts) b) \<le> capacity b + Seconds (last (t # ts) - t) * rate b"
proof -
  let ?b1 = "snd (allow t b)"
  have lev: "level ?b1 + (if fst (allow t b) then 1 else 0) \<le> capacity b" and lev0: "0 \<le> level ?b1"
    using allow_level[of t b] allow_iff[of t b] Seconds_nonneg[of "refilled b" t] assms
    by (auto simp: min_def split: if_splits)
  have "\<forall>s \<in> set ts. t \<le> s \<and> s \<le> last (t # ts)" and "t \<le> last (t # ts)"
    using assms(4) sorted_le_last[of "t # ts"] by (auto dest: sorted_le_last)
  then have "of_nat (granted ts ?b1) \<le> level ?b1 + Seconds (last (t # ts) - t) * rate b"
    using granted_level[of ?b1 ts "last (t # ts)"] assms lev0 by (simp add: allow_rate allow_refilled allow_capacity)
  then show ?thesis
    using lev by (simp only: granted_Cons) (auto split: if_splits)
qed

end


section \<open>The limiter of the gateway\<close>

record EndpointRateLimit =
  el_Path :: string
  el_Method :: string
  el_RequestsPerMin :: int
  el_BurstSize :: int

record tokenBucket =
  tk_tokens :: rat
  tk_maxTokens :: rat
  tk_refillRate :: rat
  tk_lastUpdate :: time

type_synonym clientLimits = "string \<rightharpoonup> tokenBucket"

record AdvancedRateLimiter =
  al_endpoints :: "string \<rightharpoonup> EndpointRateLimit"
  al_defaultLimit :: int
  al_defaultBurst :: int
  al_clients :: "string \<rightharpoonup> clientLimits"

definition NewAdvancedRateLimiter :: "int \<Rightarrow> int \<Rightarrow> AdvancedRateLimiter" where
  "NewAdvancedRateLimiter defaultLimit defaultBurst = \<lparr> al_endpoints = Map.empty, al_defaultLimit = defaultLimit,
     al_defaultBurst = defaultBurst, al_clients = Map.empty \<rparr>"

definition endpointKey :: "string \<Rightarrow> string \<Rightarrow> string" where
  "endpointKey mth path = mth @ '':'' @ path"

definition AddEndpointLimit :: "string \<Rightarrow> string \<Rightarrow> int \<Rightarrow> int \<Rightarrow> AdvancedRateLimiter \<Rightarrow> AdvancedRateLimiter" where
  "AddEndpointLimit path mth requestsPerMin burstSize rl =
     rl\<lparr> al_endpoints := (al_endpoints rl)(endpointKey mth path \<mapsto>
       \<lparr> el_Path = path, el_Method = mth, el_RequestsPerMin = requestsPerMin, el_BurstSize = burstSize \<rparr>) \<rparr>"

definition ConfigureDefaults :: "AdvancedRateLimiter \<Rightarrow> AdvancedRateLimiter" where
  "ConfigureDefaults rl = foldl (\<lambda>r f. f r) rl
     [AddEndpointLimit ''/api/v1/auth/login'' ''POST'' 10 5,
      AddEndpointLimit ''/api/v1/auth/register'' ''POST'' 5 3,
      AddEndpointLimit ''/api/v1/auth/password/reset'' ''POST'' 5 3,
      AddEndpointLimit ''/api/v1/workflows/*/execute'' ''POST'' 30 10,
      AddEndpointLimit ''/api/v1/executions'' ''POST'' 60 20,
      AddEndpointLimit ''/api/v1/search'' ''GET'' 60 30,
      AddEndpointLimit ''/api/v1/search'' ''POST'' 60 30,
      AddEndpointLimit ''/api/v1/webhooks/*/trigger'' ''POST'' 300 100,
      AddEndpointLimit ''/api/v1/admin/*'' ''GET'' 30 15,
      AddEndpointLimit ''/api/v1/admin/*'' ''POST'' 20 10,
      AddEndpointLimit ''/api/v1/admin/*'' ''DELETE'' 10 5,
      AddEndpointLimit ''/api/v1/storage/upload'' ''POST'' 20 10,
      AddEndpointLimit ''/api/v1/analytics/events'' ''POST'' 100 50]"

text \<open>The loop of \<open>splitPath\<close>: the part so far and the rest of the path.\<close>

fun splitPathLoop :: "string \<Rightarrow> string \<Rightarrow> string list" where
  "splitPathLoop current [] = (if current \<noteq> '''' then [current] else [])"
| "splitPathLoop current (c # s) =
     (if c = CHR ''/'' \<or> c = CHR '':'' then
        (if current \<noteq> '''' then current # splitPathLoop '''' s else splitPathLoop current s)
      else splitPathLoop (current @ [c]) s)"

definition splitPath :: "string \<Rightarrow> string list" where
  "splitPath path = splitPathLoop '''' path"

definition matchPath :: "string \<Rightarrow> string \<Rightarrow> bool" where
  "matchPath pat path =
     (if pat = path then True
      else
        let patternParts = splitPath pat; pathParts = splitPath path in
        if length patternParts \<noteq> length pathParts then False
        else \<not> list_ex (\<lambda>(pp, qp). pp \<noteq> ''*'' \<and> pp \<noteq> qp) (zip patternParts pathParts))"

text \<open>\<open>order\<close> lists the keys of the limits in the order the loop visits them.\<close>

definition getLimitForEndpoint :: "string list \<Rightarrow> string \<Rightarrow> string \<Rightarrow> AdvancedRateLimiter \<Rightarrow> EndpointRateLimit" where
  "getLimitForEndpoint order mth path rl =
     (case al_endpoints rl (endpointKey mth path) of
        Some limit \<Rightarrow> limit
      | None \<Rightarrow>
          (case find (\<lambda>k. matchPath k (endpointKey mth path)) order of
             Some k \<Rightarrow> the (al_endpoints rl k)
           | None \<Rightarrow> \<lparr> el_Path = path, el_Method = mth, el_RequestsPerMin = al_defaultLimit rl,
                       el_BurstSize = al_defaultBurst rl \<rparr>))"

definition newBucket :: "time \<Rightarrow> EndpointRateLimit \<Rightarrow> tokenBucket" where
  "newBucket now limit = \<lparr> tk_tokens = of_int (el_BurstSize limit), tk_maxTokens = of_int (el_BurstSize limit),
     tk_refillRate = of_int (el_RequestsPerMin limit) / 60, tk_lastUpdate = now \<rparr>"

text \<open>The refill and the token that both limiters of the gateway take.\<close>

definition takeToken :: "time \<Rightarrow> tokenBucket \<Rightarrow> bool \<times> tokenBucket" where
  "takeToken now bucket =
     (let elapsed = Seconds (now - tk_lastUpdate bucket);
          b = bucket\<lparr> tk_tokens := min (tk_maxTokens bucket) (tk_tokens bucket + elapsed * tk_refillRate bucket),
                tk_lastUpdate := now \<rparr>
      in if tk_tokens b < 1 then (False, b) else (True, b\<lparr> tk_tokens := tk_tokens b - 1 \<rparr>))"

definition allowRequest :: "time \<Rightarrow> string \<Rightarrow> string \<Rightarrow> string \<Rightarrow> EndpointRateLimit \<Rightarrow> AdvancedRateLimiter \<Rightarrow> bool \<times> AdvancedRateLimiter" where
  "allowRequest now clientIP mth path limit rl =
     (let client = (case al_clients rl clientIP of None \<Rightarrow> Map.empty | Some c \<Rightarrow> c);
          key = endpointKey mth path;
          bucket = (case client key of None \<Rightarrow> newBucket now limit | Some b \<Rightarrow> b)
      in case takeToken now bucket of
           (ok, b) \<Rightarrow> (ok, rl\<lparr> al_clients := (al_clients rl)(clientIP \<mapsto> client(key \<mapsto> b)) \<rparr>))"

definition getRemainingTokens :: "string \<Rightarrow> string \<Rightarrow> string \<Rightarrow> EndpointRateLimit \<Rightarrow> AdvancedRateLimiter \<Rightarrow> rat" where
  "getRemainingTokens clientIP mth path limit rl =
     (case al_clients rl clientIP of
        None \<Rightarrow> of_int (el_BurstSize limit)
      | Some client \<Rightarrow>
          (case client (endpointKey mth path) of
             None \<Rightarrow> of_int (el_BurstSize limit) | Some bucket \<Rightarrow> tk_tokens bucket))"

definition cleanup :: "time \<Rightarrow> AdvancedRateLimiter \<Rightarrow> AdvancedRateLimiter" where
  "cleanup now rl =
     (let cutoff = now - 10 * Minute
      in rl\<lparr> al_clients := (\<lambda>ip. case al_clients rl ip of
           None \<Rightarrow> None
         | Some client \<Rightarrow> if \<forall>bucket \<in> ran client. \<not> tk_lastUpdate bucket > cutoff then None else Some client) \<rparr>)"

text \<open>The client a request counts for: the headers \<open>X-Forwarded-For\<close> and \<open>X-Real-IP\<close>, and the address.\<close>

definition getClientIP :: "string \<Rightarrow> string \<Rightarrow> string \<Rightarrow> string" where
  "getClientIP xff xri remoteAddr =
     (if xff \<noteq> '''' then takeWhile (\<lambda>c. c \<noteq> CHR '','') xff
      else if xri \<noteq> '''' then xri
      else if CHR '':'' \<in> set remoteAddr
      then rev (tl (dropWhile (\<lambda>c. c \<noteq> CHR '':'') (rev remoteAddr))) else remoteAddr)"

datatype limit_answer = TooManyRequests int | Served int int

definition AdvancedMiddleware ::
  "string list \<Rightarrow> time \<Rightarrow> string \<Rightarrow> string \<Rightarrow> string \<Rightarrow> AdvancedRateLimiter \<Rightarrow> limit_answer \<times> AdvancedRateLimiter" where
  "AdvancedMiddleware order now clientIP mth path rl =
     (let limit = getLimitForEndpoint order mth path rl
      in case allowRequest now clientIP mth path limit rl of
           (ok, rl1) \<Rightarrow>
             if \<not> ok then (TooManyRequests (el_RequestsPerMin limit), rl1)
             else (Served (el_RequestsPerMin limit) \<lfloor>getRemainingTokens clientIP mth path limit rl1\<rfloor>, rl1))"

section \<open>The limiter of users\<close>

record UserRateLimiter =
  ul_limits :: "string \<rightharpoonup> int"
  ul_userTiers :: "string \<rightharpoonup> string"
  ul_userLimiters :: "string \<rightharpoonup> tokenBucket"

definition NewUserRateLimiter :: UserRateLimiter where
  "NewUserRateLimiter = \<lparr> ul_limits = [''free'' \<mapsto> 60, ''starter'' \<mapsto> 300, ''pro'' \<mapsto> 1000, ''enterprise'' \<mapsto> 5000],
     ul_userTiers = Map.empty, ul_userLimiters = Map.empty \<rparr>"

definition SetUserTier :: "string \<Rightarrow> string \<Rightarrow> UserRateLimiter \<Rightarrow> UserRateLimiter" where
  "SetUserTier userID tier rl = rl\<lparr> ul_userTiers := (ul_userTiers rl)(userID \<mapsto> tier) \<rparr>"

definition User_AllowRequest :: "time \<Rightarrow> string \<Rightarrow> UserRateLimiter \<Rightarrow> bool \<times> UserRateLimiter" where
  "User_AllowRequest now userID rl =
     (let tier0 = (case ul_userTiers rl userID of None \<Rightarrow> '''' | Some t \<Rightarrow> t);
          tier = (if tier0 = '''' then ''free'' else tier0);
          limit = (case ul_limits rl tier of None \<Rightarrow> 0 | Some n \<Rightarrow> n);
          bucket = (case ul_userLimiters rl userID of
              None \<Rightarrow> \<lparr> tk_tokens = of_int limit, tk_maxTokens = of_int limit, tk_refillRate = of_int limit / 60, tk_lastUpdate = now \<rparr>
            | Some b \<Rightarrow> b)
      in case takeToken now bucket of
           (ok, b) \<Rightarrow> (ok, rl\<lparr> ul_userLimiters := (ul_userLimiters rl)(userID \<mapsto> b) \<rparr>))"

section \<open>The limiter of the shared middleware\<close>

record TokenBucket =
  tb_tokens :: rat
  tb_maxTokens :: rat
  tb_refillRate :: rat
  tb_lastRefill :: time

definition NewTokenBucket :: "time \<Rightarrow> rat \<Rightarrow> rat \<Rightarrow> TokenBucket" where
  "NewTokenBucket now maxTokens refillRate = \<lparr> tb_tokens = maxTokens, tb_maxTokens = maxTokens,
     tb_refillRate = refillRate, tb_lastRefill = now \<rparr>"

definition TokenBucket_Allow :: "time \<Rightarrow> TokenBucket \<Rightarrow> bool \<times> TokenBucket" where
  "TokenBucket_Allow now tb =
     (let elapsed = Seconds (now - tb_lastRefill tb);
          t1 = tb\<lparr> tb_tokens := tb_tokens tb + elapsed * tb_refillRate tb \<rparr>;
          t2 = (if tb_tokens t1 > tb_maxTokens t1 then t1\<lparr> tb_tokens := tb_maxTokens t1 \<rparr> else t1);
          t3 = t2\<lparr> tb_lastRefill := now \<rparr>
      in if tb_tokens t3 \<ge> 1 then (True, t3\<lparr> tb_tokens := tb_tokens t3 - 1 \<rparr>) else (False, t3))"

record RateLimitConfig =
  rl_RequestsPerMinute :: int
  rl_BurstSize :: int
  rl_SkipPaths :: "string list"
  rl_ExcludedIPs :: "string list"

record RateLimiter =
  rl_buckets :: "string \<rightharpoonup> TokenBucket"
  rl_config :: RateLimitConfig
  rl_cleanup :: time

definition DefaultRateLimitConfig :: RateLimitConfig where
  "DefaultRateLimitConfig = \<lparr> rl_RequestsPerMinute = 100, rl_BurstSize = 200, rl_SkipPaths = [], rl_ExcludedIPs = [] \<rparr>"

definition NewRateLimiter :: "time \<Rightarrow> RateLimitConfig option \<Rightarrow> RateLimiter" where
  "NewRateLimiter now config = \<lparr> rl_buckets = Map.empty,
     rl_config = (case config of None \<Rightarrow> DefaultRateLimitConfig | Some c \<Rightarrow> c), rl_cleanup = now \<rparr>"

definition getBucket :: "time \<Rightarrow> string \<Rightarrow> RateLimiter \<Rightarrow> TokenBucket \<times> RateLimiter" where
  "getBucket now key rl =
     (let r1 = (if now - rl_cleanup rl > 10 * Minute then rl\<lparr> rl_buckets := Map.empty, rl_cleanup := now \<rparr> else rl)
      in case rl_buckets r1 key of
           Some b \<Rightarrow> (b, r1)
         | None \<Rightarrow>
             (let b = NewTokenBucket now (of_int (rl_BurstSize (rl_config r1))) (of_int (rl_RequestsPerMinute (rl_config r1)) / 60)
              in (b, r1\<lparr> rl_buckets := (rl_buckets r1)(key \<mapsto> b) \<rparr>)))"

definition RateLimiter_Allow :: "time \<Rightarrow> string \<Rightarrow> RateLimiter \<Rightarrow> bool \<times> RateLimiter" where
  "RateLimiter_Allow now key rl =
     (case getBucket now key rl of (b, r1) \<Rightarrow>
        (case TokenBucket_Allow now b of (ok, b1) \<Rightarrow> (ok, r1\<lparr> rl_buckets := (rl_buckets r1)(key \<mapsto> b1) \<rparr>)))"

definition RateLimiter_Remaining :: "time \<Rightarrow> string \<Rightarrow> RateLimiter \<Rightarrow> int \<times> RateLimiter" where
  "RateLimiter_Remaining now key rl = (case getBucket now key rl of (b, r1) \<Rightarrow> (\<lfloor>tb_tokens b\<rfloor>, r1))"

datatype rate_answer = Unlimited | RateLimited int | Passed int int

definition RateLimit :: "time \<Rightarrow> string \<Rightarrow> string \<Rightarrow> RateLimiter \<Rightarrow> rate_answer \<times> RateLimiter" where
  "RateLimit now path key rl =
     (let config = rl_config rl in
      if path \<in> set (rl_SkipPaths config) then (Unlimited, rl)
      else if key \<in> set (rl_ExcludedIPs config) then (Unlimited, rl)
      else (case RateLimiter_Allow now key rl of (ok, r1) \<Rightarrow>
        if \<not> ok then (RateLimited (rl_RequestsPerMinute config), r1)
        else (case RateLimiter_Remaining now key r1 of (n, r2) \<Rightarrow> (Passed (rl_RequestsPerMinute config) n, r2))))"

section \<open>Both buckets keep the contract\<close>

interpretation gateway_bucket: token_bucket takeToken tk_tokens tk_maxTokens tk_refillRate tk_lastUpdate
  by unfold_locales (auto simp: takeToken_def Let_def)

interpretation shared_bucket: token_bucket TokenBucket_Allow tb_tokens tb_maxTokens tb_refillRate tb_lastRefill
  by unfold_locales (auto simp: TokenBucket_Allow_def Let_def min_def)

section \<open>What the limiter of the gateway grants\<close>

text \<open>A run of the middleware over requests of any clients: time, client, HTTP method and path.\<close>

type_synonym request = "time \<times> string \<times> string \<times> string"

fun serveAll :: "string list \<Rightarrow> request list \<Rightarrow> AdvancedRateLimiter \<Rightarrow> limit_answer list \<times> AdvancedRateLimiter" where
  "serveAll order [] rl = ([], rl)"
| "serveAll order ((now, ip, mth, path) # rs) rl =
     (case AdvancedMiddleware order now ip mth path rl of (a, rl1) \<Rightarrow>
        (case serveAll order rs rl1 of (as, rl2) \<Rightarrow> (a # as, rl2)))"

fun isServed :: "limit_answer \<Rightarrow> bool" where
  "isServed (Served _ _) = True"
| "isServed (TooManyRequests _) = False"

definition bucketAt :: "string \<Rightarrow> string \<Rightarrow> AdvancedRateLimiter \<Rightarrow> tokenBucket option" where
  "bucketAt ip key rl = (case al_clients rl ip of None \<Rightarrow> None | Some c \<Rightarrow> c key)"

text \<open>The limit of a request depends on its key and the configuration only.\<close>

definition limitOfKey :: "string list \<Rightarrow> string \<Rightarrow> AdvancedRateLimiter \<Rightarrow> int \<times> int" where
  "limitOfKey order key rl =
     (case al_endpoints rl key of
        Some l \<Rightarrow> (el_RequestsPerMin l, el_BurstSize l)
      | None \<Rightarrow> (case find (\<lambda>k. matchPath k key) order of
            Some k \<Rightarrow> (el_RequestsPerMin (the (al_endpoints rl k)), el_BurstSize (the (al_endpoints rl k)))
          | None \<Rightarrow> (al_defaultLimit rl, al_defaultBurst rl)))"

definition freshBucket :: "time \<Rightarrow> int \<times> int \<Rightarrow> tokenBucket" where
  "freshBucket now l = \<lparr> tk_tokens = of_int (snd l), tk_maxTokens = of_int (snd l),
     tk_refillRate = of_int (fst l) / 60, tk_lastUpdate = now \<rparr>"

lemma newBucket_limitOfKey:
  "newBucket now (getLimitForEndpoint order mth path rl) = freshBucket now (limitOfKey order (endpointKey mth path) rl)"
  by (simp add: newBucket_def getLimitForEndpoint_def limitOfKey_def freshBucket_def split: option.split)

text \<open>One request: its answer and the buckets after it.\<close>

lemma allowRequest_eq:
  "allowRequest now ip mth path limit rl =
     (let key = endpointKey mth path;
          res = takeToken now (case bucketAt ip key rl of None \<Rightarrow> newBucket now limit | Some b \<Rightarrow> b)
      in (fst res, rl\<lparr> al_clients := (al_clients rl)(ip \<mapsto>
        (case al_clients rl ip of None \<Rightarrow> Map.empty | Some c \<Rightarrow> c)(key \<mapsto> snd res)) \<rparr>))"
  by (cases "al_clients rl ip") (simp_all add: allowRequest_def Let_def bucketAt_def case_prod_unfold)

lemma bucketAt_update:
  "bucketAt ip' key' (rl\<lparr> al_clients := (al_clients rl)(ip \<mapsto>
        (case al_clients rl ip of None \<Rightarrow> Map.empty | Some c \<Rightarrow> c)(key \<mapsto> b)) \<rparr>) =
     (if ip' = ip \<and> key' = key then Some b else bucketAt ip' key' rl)"
  by (cases "al_clients rl ip") (simp_all add: bucketAt_def)

lemma AdvancedMiddleware_step:
  fixes order now ip mth path rl
  defines "key \<equiv> endpointKey mth path"
  defines "b \<equiv> case_option (freshBucket now (limitOfKey order key rl)) id (bucketAt ip key rl)"
  assumes "AdvancedMiddleware order now ip mth path rl = (a, rl1)"
  shows "isServed a \<longleftrightarrow> fst (takeToken now b)"
    and "bucketAt ip' key' rl1 =
      (if ip' = ip \<and> key' = key then Some (snd (takeToken now b)) else bucketAt ip' key' rl)"
    and "limitOfKey order key' rl1 = limitOfKey order key' rl"
proof -
  let ?limit = "getLimitForEndpoint order mth path rl"
  have b: "b = (case bucketAt ip key rl of None \<Rightarrow> newBucket now ?limit | Some b \<Rightarrow> b)"
    by (simp add: b_def key_def newBucket_limitOfKey split: option.split)
  have res: "allowRequest now ip mth path ?limit rl = (fst (takeToken now b),
      rl\<lparr> al_clients := (al_clients rl)(ip \<mapsto>
        (case al_clients rl ip of None \<Rightarrow> Map.empty | Some c \<Rightarrow> c)(key \<mapsto> snd (takeToken now b))) \<rparr>)"
    (is "_ = (_, ?rl1)")
    by (simp only: allowRequest_eq Let_def b key_def)
  have "rl1 = ?rl1"
    using assms(3) unfolding AdvancedMiddleware_def Let_def res by (auto split: if_splits)
  then show "bucketAt ip' key' rl1 =
      (if ip' = ip \<and> key' = key then Some (snd (takeToken now b)) else bucketAt ip' key' rl)"
    and "limitOfKey order key' rl1 = limitOfKey order key' rl"
    by (simp_all only: bucketAt_update) (simp add: limitOfKey_def cong: option.case_cong)
  show "isServed a \<longleftrightarrow> fst (takeToken now b)"
    using assms(3) unfolding AdvancedMiddleware_def Let_def res by (auto split: if_splits)
qed

text \<open>A bucket that the middleware made: its level lies between zero and the burst size.\<close>

definition bucketOk :: "int \<times> int \<Rightarrow> tokenBucket \<Rightarrow> bool" where
  "bucketOk l b \<longleftrightarrow> 0 \<le> tk_tokens b \<and> tk_tokens b \<le> of_int (snd l) \<and> tk_maxTokens b = of_int (snd l)
     \<and> tk_refillRate b = of_int (fst l) / 60"

lemma bucketOk_fresh: "0 \<le> snd l \<Longrightarrow> bucketOk l (freshBucket now l)"
  by (simp add: bucketOk_def freshBucket_def)

text \<open>After any requests every bucket is in order and was last used before the moment \<open>now\<close>.\<close>

definition bucketAged :: "int \<times> int \<Rightarrow> time \<Rightarrow> tokenBucket \<Rightarrow> bool" where
  "bucketAged l now b \<longleftrightarrow> (0 \<le> fst l \<and> 0 \<le> snd l \<longrightarrow> bucketOk l b \<and> tk_lastUpdate b \<le> now)"

definition bucketsOk :: "string list \<Rightarrow> time \<Rightarrow> AdvancedRateLimiter \<Rightarrow> bool" where
  "bucketsOk order now rl \<longleftrightarrow>
     (\<forall>ip key b. bucketAt ip key rl = Some b \<longrightarrow> bucketAged (limitOfKey order key rl) now b)"

lemma takeToken_ok:
  assumes "bucketOk l b" and "tk_lastUpdate b \<le> now" and "0 \<le> fst l"
  shows "bucketOk l (snd (takeToken now b)) \<and> tk_lastUpdate (snd (takeToken now b)) = now"
proof -
  have "0 \<le> Seconds (now - tk_lastUpdate b)"
    using assms(2) by (rule gateway_bucket.Seconds_nonneg)
  then show ?thesis
    using assms by (auto simp: bucketOk_def takeToken_def Let_def min_def)
qed

lemma takeToken_aged: "bucketAged l before b \<Longrightarrow> before \<le> now \<Longrightarrow> bucketAged l now (snd (takeToken now b))"
  using takeToken_ok[of l b now] by (auto simp: bucketAged_def)

lemma fresh_aged: "bucketAged l now (freshBucket now l)"
  using bucketOk_fresh[of l now] by (simp add: bucketAged_def freshBucket_def)

lemma bucketAged_mono: "bucketAged l before b \<Longrightarrow> before \<le> now \<Longrightarrow> bucketAged l now b"
  by (auto simp: bucketAged_def)

lemma bucketsOk_step:
  assumes ok: "bucketsOk order before rl" and le: "before \<le> now"
    and step: "AdvancedMiddleware order now ip mth path rl = (a, rl1)"
  shows "bucketsOk order now rl1"
  unfolding bucketsOk_def
proof (intro allI impI)
  fix ip' key' b'
  assume at: "bucketAt ip' key' rl1 = Some b'"
  show "bucketAged (limitOfKey order key' rl1) now b'"
  proof (cases "ip' = ip \<and> key' = endpointKey mth path")
    case True
    then show ?thesis
      using at takeToken_aged[OF fresh_aged order_refl] ok takeToken_aged[OF _ le]
      by (cases "bucketAt ip key' rl") (simp_all add: AdvancedMiddleware_step[OF step] bucketsOk_def, blast+)
  next
    case False
    then have "bucketAt ip' key' rl = Some b'"
      using at by (simp only: AdvancedMiddleware_step(2)[OF step] if_False)
    then show ?thesis
      using ok bucketAged_mono[OF _ le] unfolding AdvancedMiddleware_step(3)[OF step] bucketsOk_def by blast
  qed
qed

lemma serveAll_limit: "limitOfKey order key (snd (serveAll order rs rl)) = limitOfKey order key rl"
proof (induction order rs rl rule: serveAll.induct)
  case (2 order now ip mth path rs rl)
  obtain a rl1 where step: "AdvancedMiddleware order now ip mth path rl = (a, rl1)"
    by fastforce
  then show ?case
    using 2 AdvancedMiddleware_step(3)[OF step] by (simp add: case_prod_unfold)
qed simp

lemma serveAll_ok:
  assumes "bucketsOk order before rl" and "sorted (before # map fst rs)"
  shows "bucketsOk order (last (before # map fst rs)) (snd (serveAll order rs rl))"
  using assms
proof (induction rs arbitrary: before rl)
  case (Cons r rs)
  obtain now ip mth path where r: "r = (now, ip, mth, path)"
    by (cases r)
  obtain a rl1 where step: "AdvancedMiddleware order now ip mth path rl = (a, rl1)"
    by fastforce
  have "bucketsOk order now rl1"
    using bucketsOk_step[OF Cons.prems(1) _ step] Cons.prems(2) by (simp add: r)
  then show ?case
    using Cons.IH[of now rl1] Cons.prems(2) by (simp add: r step case_prod_unfold)
qed simp

text \<open>A limiter that started without clients is in order at every later moment.\<close>

lemma last_le_later:
  assumes "sorted (xs @ ys)" and "(t::time) \<in> set ys"
  shows "last (hd (xs @ ys) # xs) \<le> t"
proof (cases xs)
  case Nil
  then show ?thesis
    using assms by (cases ys) auto
next
  case (Cons x xs')
  then have "last (hd (xs @ ys) # xs) \<in> set xs"
    using last_in_set[of xs] by simp
  then show ?thesis
    using assms by (simp add: sorted_append)
qed

lemma serveAll_fresh_ok:
  assumes "al_clients rl = Map.empty" and "sorted (map fst before @ later)" and "t \<in> set later"
  shows "bucketsOk order t (snd (serveAll order before rl))"
proof -
  let ?t0 = "hd (map fst before @ later)"
  have "bucketsOk order ?t0 rl"
    using assms(1) by (simp add: bucketsOk_def bucketAt_def)
  moreover have "sorted (?t0 # map fst before)"
    using assms(2) by (cases before) (auto simp: sorted_append)
  ultimately have "bucketsOk order (last (?t0 # map fst before)) (snd (serveAll order before rl))"
    by (rule serveAll_ok)
  then show ?thesis
    using last_le_later[OF assms(2,3)] bucketAged_mono unfolding bucketsOk_def by blast
qed

subsection \<open>The periodic cleanup\<close>

text \<open>What the middleware answers from the bucket of the request.\<close>

definition answerOf :: "int \<Rightarrow> bool \<times> tokenBucket \<Rightarrow> limit_answer" where
  "answerOf perMin r = (if fst r then Served perMin \<lfloor>tk_tokens (snd r)\<rfloor> else TooManyRequests perMin)"

lemma getRemainingTokens_bucketAt:
  "getRemainingTokens ip mth path limit rl =
     (case bucketAt ip (endpointKey mth path) rl of None \<Rightarrow> of_int (el_BurstSize limit) | Some b \<Rightarrow> tk_tokens b)"
  by (simp add: getRemainingTokens_def bucketAt_def split: option.split)

lemma AdvancedMiddleware_answer:
  fixes order now ip mth path rl
  defines "key \<equiv> endpointKey mth path"
  shows "fst (AdvancedMiddleware order now ip mth path rl) =
    answerOf (fst (limitOfKey order key rl))
      (takeToken now (case_option (freshBucket now (limitOfKey order key rl)) id (bucketAt ip key rl)))"
proof -
  let ?limit = "getLimitForEndpoint order mth path rl"
  let ?b = "case_option (freshBucket now (limitOfKey order key rl)) id (bucketAt ip key rl)"
  let ?rl1 = "snd (allowRequest now ip mth path ?limit rl)"
  have b: "?b = (case bucketAt ip key rl of None \<Rightarrow> newBucket now ?limit | Some b \<Rightarrow> b)"
    by (simp add: key_def newBucket_limitOfKey split: option.split)
  have res: "allowRequest now ip mth path ?limit rl = (fst (takeToken now ?b),
      rl\<lparr> al_clients := (al_clients rl)(ip \<mapsto>
        (case al_clients rl ip of None \<Rightarrow> Map.empty | Some c \<Rightarrow> c)(key \<mapsto> snd (takeToken now ?b))) \<rparr>)"
    unfolding b by (simp only: allowRequest_eq Let_def key_def)
  have perMin: "el_RequestsPerMin ?limit = fst (limitOfKey order key rl)"
    by (simp add: getLimitForEndpoint_def limitOfKey_def key_def split: option.split)
  have "bucketAt ip key ?rl1 = Some (snd (takeToken now ?b))"
    unfolding res snd_conv bucketAt_update by simp
  then have "getRemainingTokens ip mth path ?limit ?rl1 = tk_tokens (snd (takeToken now ?b))"
    by (simp add: getRemainingTokens_bucketAt key_def)
  then show ?thesis
    using res perMin by (simp add: AdvancedMiddleware_def Let_def answerOf_def)
qed

text \<open>Two limiters with the same limits that differ only in buckets unused for ten minutes.\<close>

definition cleaned :: "string list \<Rightarrow> time \<Rightarrow> AdvancedRateLimiter \<Rightarrow> AdvancedRateLimiter \<Rightarrow> bool" where
  "cleaned order now rl rl' \<longleftrightarrow> (\<forall>key. limitOfKey order key rl' = limitOfKey order key rl) \<and>
     (\<forall>ip key. bucketAt ip key rl' = bucketAt ip key rl \<or>
        bucketAt ip key rl' = None \<and> (\<exists>b. bucketAt ip key rl = Some b
          \<and> bucketOk (limitOfKey order key rl) b \<and> tk_lastUpdate b + 10 * Minute \<le> now))"

lemma cleanedD:
  assumes "cleaned order before rl rl'" and "before \<le> now"
  obtains "bucketAt ip key rl' = bucketAt ip key rl"
  | b where "bucketAt ip key rl' = None" and "bucketAt ip key rl = Some b"
      and "bucketOk (limitOfKey order key rl) b" and "tk_lastUpdate b + 10 * Minute \<le> now"
  using assms unfolding cleaned_def by (meson order_trans)

definition refillsInTime :: "string list \<Rightarrow> AdvancedRateLimiter \<Rightarrow> bool" where
  "refillsInTime order rl \<longleftrightarrow> (\<forall>key. 0 \<le> fst (limitOfKey order key rl) \<and> 0 \<le> snd (limitOfKey order key rl)
     \<and> snd (limitOfKey order key rl) \<le> 10 * fst (limitOfKey order key rl))"

text \<open>A bucket that has not been used for ten minutes is full again.\<close>

lemma takeToken_idle:
  assumes "bucketOk l b" and "tk_lastUpdate b + 10 * Minute \<le> now" and "0 \<le> fst l" and "snd l \<le> 10 * fst l"
  shows "takeToken now b = takeToken now (freshBucket now l)"
proof -
  have "600 \<le> Seconds (now - tk_lastUpdate b)"
    using assms(2) by (simp add: Seconds_def field_simps)
  then have "600 * (of_int (fst l) / 60) \<le> Seconds (now - tk_lastUpdate b) * (of_int (fst l) / 60)"
    using assms(3) by (intro mult_right_mono) simp_all
  moreover have "(of_int (snd l) :: rat) \<le> of_int (10 * fst l)"
    using assms(4) by (simp only: of_int_le_iff)
  ultimately have "of_int (snd l) \<le> tk_tokens b + Seconds (now - tk_lastUpdate b) * (of_int (fst l) / 60)"
    using assms(1) by (simp add: bucketOk_def)
  moreover have "tk_maxTokens b = of_int (snd l)" and "tk_refillRate b = of_int (fst l) / 60"
    using assms(1) by (simp_all add: bucketOk_def)
  ultimately have m: "min (tk_maxTokens b) (tk_tokens b + Seconds (now - tk_lastUpdate b) * tk_refillRate b) = of_int (snd l)"
    by (simp only: min_absorb1)
  have "b\<lparr> tk_tokens := of_int (snd l), tk_lastUpdate := now \<rparr> = freshBucket now l"
    using assms(1) by (cases b) (simp add: bucketOk_def freshBucket_def)
  moreover have "(freshBucket now l)\<lparr> tk_tokens := min (tk_maxTokens (freshBucket now l)) (tk_tokens (freshBucket now l)
      + Seconds (now - tk_lastUpdate (freshBucket now l)) * tk_refillRate (freshBucket now l)), tk_lastUpdate := now \<rparr>
      = freshBucket now l"
    by (simp add: freshBucket_def Seconds_def)
  ultimately show ?thesis
    unfolding takeToken_def Let_def m by simp
qed

text \<open>One request does not tell the two limiters apart, and they stay that close.\<close>

lemma cleaned_step:
  assumes sim: "cleaned order before rl rl'" and full: "refillsInTime order rl" and le: "before \<le> now"
    and step: "AdvancedMiddleware order now ip mth path rl = (a, rl1)"
    and step': "AdvancedMiddleware order now ip mth path rl' = (a', rl1')"
  shows "a' = a \<and> cleaned order now rl1 rl1'"
proof -
  let ?key = "endpointKey mth path"
  let ?b = "\<lambda>rl. case_option (freshBucket now (limitOfKey order ?key rl)) id (bucketAt ip ?key rl)"
  have lim: "limitOfKey order key rl' = limitOfKey order key rl" for key
    using sim by (simp add: cleaned_def)
  have same: "takeToken now (?b rl') = takeToken now (?b rl)"
  proof (cases rule: cleanedD[OF sim le, of ip ?key])
    case 1
    then show ?thesis
      by (simp only: lim)
  next
    case (2 b)
    then show ?thesis
      using takeToken_idle[of "limitOfKey order ?key rl" b now] full by (simp add: lim refillsInTime_def)
  qed
  then have "a' = a"
    using AdvancedMiddleware_answer[of order now ip mth path rl] AdvancedMiddleware_answer[of order now ip mth path rl']
    by (simp add: step step' lim)
  moreover have "cleaned order now rl1 rl1'"
    unfolding cleaned_def
  proof (intro conjI allI)
    fix ip' key'
    show "limitOfKey order key' rl1' = limitOfKey order key' rl1"
      by (simp only: AdvancedMiddleware_step(3)[OF step] AdvancedMiddleware_step(3)[OF step'] lim)
    show "bucketAt ip' key' rl1' = bucketAt ip' key' rl1 \<or> bucketAt ip' key' rl1' = None \<and>
        (\<exists>b. bucketAt ip' key' rl1 = Some b \<and> bucketOk (limitOfKey order key' rl1) b \<and> tk_lastUpdate b + 10 * Minute \<le> now)"
    proof (cases "ip' = ip \<and> key' = ?key")
      case True
      have "bucketAt ip ?key rl1' = Some (snd (takeToken now (?b rl')))" "bucketAt ip ?key rl1 = Some (snd (takeToken now (?b rl)))"
        by (simp_all only: AdvancedMiddleware_step(2)[OF step] AdvancedMiddleware_step(2)[OF step'] simp_thms if_True)
      then show ?thesis
        using True same by simp
    next
      case False
      then have "bucketAt ip' key' rl1 = bucketAt ip' key' rl" "bucketAt ip' key' rl1' = bucketAt ip' key' rl'"
        by (simp_all only: AdvancedMiddleware_step(2)[OF step] AdvancedMiddleware_step(2)[OF step'] if_False)
      then show ?thesis
        by (cases rule: cleanedD[OF sim le, of ip' key']) (simp_all add: AdvancedMiddleware_step(3)[OF step])
    qed
  qed
  ultimately show ?thesis
    by blast
qed

lemma cleaned_run:
  assumes "cleaned order before rl rl'" and "refillsInTime order rl" and "sorted (before # map fst rs)"
  shows "fst (serveAll order rs rl') = fst (serveAll order rs rl)"
  using assms
proof (induction rs arbitrary: before rl rl')
  case (Cons r rs)
  obtain now ip mth path where r: "r = (now, ip, mth, path)"
    by (cases r)
  obtain a rl1 a' rl1' where steps: "AdvancedMiddleware order now ip mth path rl = (a, rl1)"
      "AdvancedMiddleware order now ip mth path rl' = (a', rl1')"
    by fastforce
  have "a' = a \<and> cleaned order now rl1 rl1'"
    using cleaned_step[OF Cons.prems(1,2) _ steps] Cons.prems(3) by (simp add: r)
  moreover have "refillsInTime order rl1"
    using Cons.prems(2) by (simp add: refillsInTime_def AdvancedMiddleware_step(3)[OF steps(1)])
  ultimately show ?case
    using Cons.IH[of now rl1 rl1'] Cons.prems(3) by (simp add: r steps case_prod_unfold)
qed simp

lemma cleanup_cleaned:
  assumes "bucketsOk order now rl" and "refillsInTime order rl"
  shows "cleaned order now rl (cleanup now rl)"
proof -
  have "bucketAt ip key (cleanup now rl) = bucketAt ip key rl \<or>
      bucketAt ip key (cleanup now rl) = None \<and>
      (\<exists>b. bucketAt ip key rl = Some b \<and> tk_lastUpdate b + 10 * Minute \<le> now)" for ip key
    by (cases "al_clients rl ip"; cases "the (al_clients rl ip) key")
      (auto simp: bucketAt_def cleanup_def Let_def ran_def)
  then show ?thesis
    using assms unfolding cleaned_def bucketsOk_def bucketAged_def refillsInTime_def
    by (auto simp: limitOfKey_def cleanup_def Let_def cong: option.case_cong) blast+
qed

text \<open>The periodic cleanup of the gateway cannot be observed: as long as every limit refills its
  burst within ten minutes, the requests after a cleanup are answered exactly as without it.\<close>
theorem gateway_cleanup_unobservable:
  assumes "al_clients rl = Map.empty" and "refillsInTime order rl"
    and "sorted (map fst before @ [now] @ map fst after)"
  shows "fst (serveAll order after (cleanup now (snd (serveAll order before rl)))) =
    fst (serveAll order after (snd (serveAll order before rl)))"
proof -
  let ?rl = "snd (serveAll order before rl)"
  have "bucketsOk order now ?rl"
    by (rule serveAll_fresh_ok[where later = "now # map fst after"]) (use assms in simp_all)
  moreover have "refillsInTime order ?rl"
    using assms(2) by (simp add: refillsInTime_def serveAll_limit)
  ultimately show ?thesis
    using cleaned_run[OF cleanup_cleaned, of order now ?rl after] assms(3) by (simp add: sorted_append)
qed

text \<open>The default limits of the gateway all refill in time.\<close>

lemma ConfigureDefaults_endpoints:
  "al_endpoints (ConfigureDefaults (NewAdvancedRateLimiter perMin burst)) key = Some l \<Longrightarrow>
     0 \<le> el_RequestsPerMin l \<and> 0 \<le> el_BurstSize l \<and> el_BurstSize l \<le> 10 * el_RequestsPerMin l"
  by (simp add: ConfigureDefaults_def AddEndpointLimit_def NewAdvancedRateLimiter_def split: if_splits; force)

lemma ConfigureDefaults_refills:
  assumes "0 \<le> burst" and "burst \<le> 10 * perMin"
    and "set order \<subseteq> dom (al_endpoints (ConfigureDefaults (NewAdvancedRateLimiter perMin burst)))"
  shows "refillsInTime order (ConfigureDefaults (NewAdvancedRateLimiter perMin burst))"
proof -
  let ?rl = "ConfigureDefaults (NewAdvancedRateLimiter perMin burst)"
  have dflt: "al_defaultLimit ?rl = perMin" "al_defaultBurst ?rl = burst"
    by (simp_all add: ConfigureDefaults_def AddEndpointLimit_def NewAdvancedRateLimiter_def)
  have "0 \<le> fst (limitOfKey order key ?rl) \<and> 0 \<le> snd (limitOfKey order key ?rl)
      \<and> snd (limitOfKey order key ?rl) \<le> 10 * fst (limitOfKey order key ?rl)" for key
  proof (cases "al_endpoints ?rl key")
    case None
    show ?thesis
    proof (cases "find (\<lambda>k. matchPath k key) order")
      case (Some k)
      then obtain l where "al_endpoints ?rl k = Some l"
        using assms(3) by (auto simp: find_Some_iff) (metis domD nth_mem subsetD)
      then show ?thesis
        using None Some ConfigureDefaults_endpoints by (simp add: limitOfKey_def)
    qed (use None assms(1,2) dflt in \<open>simp add: limitOfKey_def\<close>)
  qed (use ConfigureDefaults_endpoints in \<open>simp add: limitOfKey_def\<close>)
  then show ?thesis
    by (simp add: refillsInTime_def)
qed

definition default_limiter :: AdvancedRateLimiter where
  "default_limiter = ConfigureDefaults (NewAdvancedRateLimiter 100 200)"

lemma gateway_cleanup_unobservable_witness:
  "fst (serveAll [] [(Hour, ''a'', ''POST'', ''/api/v1/search'')]
      (cleanup (30 * Minute) (snd (serveAll [] [(0, ''a'', ''POST'', ''/api/v1/search'')] default_limiter)))) =
    fst (serveAll [] [(Hour, ''a'', ''POST'', ''/api/v1/search'')]
      (snd (serveAll [] [(0, ''a'', ''POST'', ''/api/v1/search'')] default_limiter)))"
  unfolding default_limiter_def
  by (rule gateway_cleanup_unobservable)
    (use ConfigureDefaults_refills[of 200 100 "[]"] in
      \<open>simp_all add: ConfigureDefaults_def AddEndpointLimit_def NewAdvancedRateLimiter_def\<close>)

subsection \<open>Requests and cleanups at the same time\<close>

text \<open>
  Requests are handled by goroutines of their own, and \<open>cleanupLoop\<close> runs beside them. The limits of a client are looked up
  under the lock of the limiter and the token is taken under the lock of the client, so that a cleanup may come between: a
  step is one locked section. The cleanup holds the lock of the limiter over its whole loop, and that of one client at a time:
  \<open>Sweep\<close> is its part for one client, so that a token may be taken between two of them. The limits made for a client are
  numbered: \<open>gw_clients ip\<close> is the number of those in the map, \<open>gw_waiting\<close> holds the requests between their two sections.
\<close>

record Gateway =
  gw_limiter :: AdvancedRateLimiter
  gw_clients :: "string \<rightharpoonup> nat"
  gw_made :: "string \<Rightarrow> nat \<Rightarrow> clientLimits"
  gw_next :: nat
  gw_waiting :: "nat \<rightharpoonup> string \<times> nat \<times> string \<times> string"

datatype gateway_step =
    LookUp nat string string string
  | TakeOne nat time
  | Sweep string time

text \<open>The answer to a request, and whether the limits it was taken from are still those in the map.\<close>

record GatewayAnswer =
  ga_ip :: string
  ga_key :: string
  ga_current :: bool
  ga_time :: time
  ga_ok :: bool

definition lookUpClient :: "string \<Rightarrow> Gateway \<Rightarrow> nat \<times> Gateway" where
  "lookUpClient ip s =
     (case gw_clients s ip of
        Some n \<Rightarrow> (n, s)
      | None \<Rightarrow> (gw_next s, s\<lparr> gw_clients := (gw_clients s)(ip \<mapsto> gw_next s), gw_next := gw_next s + 1 \<rparr>))"

definition takeFrom :: "time \<Rightarrow> string \<Rightarrow> EndpointRateLimit \<Rightarrow> clientLimits \<Rightarrow> bool \<times> clientLimits" where
  "takeFrom now key limit client =
     (case takeToken now (case client key of None \<Rightarrow> newBucket now limit | Some b \<Rightarrow> b) of
        (ok, b) \<Rightarrow> (ok, client(key \<mapsto> b)))"

definition storeLimits :: "string \<Rightarrow> nat \<Rightarrow> clientLimits \<Rightarrow> Gateway \<Rightarrow> Gateway" where
  "storeLimits ip n client s = s\<lparr> gw_made := (gw_made s)(ip := (gw_made s ip)(n := client)) \<rparr>"

definition setWaiting :: "nat \<Rightarrow> (string \<times> nat \<times> string \<times> string) option \<Rightarrow> Gateway \<Rightarrow> Gateway" where
  "setWaiting r w s = s\<lparr> gw_waiting := (gw_waiting s)(r := w) \<rparr>"

definition sweepClient :: "string \<Rightarrow> time \<Rightarrow> Gateway \<Rightarrow> Gateway" where
  "sweepClient ip now s =
     (case gw_clients s ip of
        None \<Rightarrow> s
      | Some n \<Rightarrow>
          if \<forall>bucket \<in> ran (gw_made s ip n). \<not> tk_lastUpdate bucket > now - 10 * Minute
          then s\<lparr> gw_clients := (gw_clients s)(ip := None) \<rparr> else s)"

fun gatewayStep :: "string list \<Rightarrow> gateway_step \<Rightarrow> Gateway \<Rightarrow> GatewayAnswer list \<times> Gateway" where
  "gatewayStep order (LookUp r ip mth path) s =
     (if gw_waiting s r \<noteq> None then ([], s)
      else (case lookUpClient ip s of (n, s1) \<Rightarrow> ([], setWaiting r (Some (ip, n, mth, path)) s1)))"
| "gatewayStep order (TakeOne r now) s =
     (case gw_waiting s r of
        None \<Rightarrow> ([], s)
      | Some (ip, n, mth, path) \<Rightarrow>
          (case takeFrom now (endpointKey mth path) (getLimitForEndpoint order mth path (gw_limiter s)) (gw_made s ip n) of
             (ok, client) \<Rightarrow>
               ([\<lparr> ga_ip = ip, ga_key = endpointKey mth path, ga_current = (gw_clients s ip = Some n), ga_time = now, ga_ok = ok \<rparr>],
                setWaiting r None (storeLimits ip n client s))))"
| "gatewayStep order (Sweep ip now) s = ([], sweepClient ip now s)"

fun gatewayRun :: "string list \<Rightarrow> gateway_step list \<Rightarrow> Gateway \<Rightarrow> GatewayAnswer list \<times> Gateway" where
  "gatewayRun order [] s = ([], s)"
| "gatewayRun order (c # cs) s =
     (case gatewayStep order c s of (as, s1) \<Rightarrow> (case gatewayRun order cs s1 of (bs, s2) \<Rightarrow> (as @ bs, s2)))"

definition newGateway :: "AdvancedRateLimiter \<Rightarrow> Gateway" where
  "newGateway rl = \<lparr> gw_limiter = rl, gw_clients = Map.empty, gw_made = (\<lambda>_ _. Map.empty), gw_next = 0, gw_waiting = Map.empty \<rparr>"

text \<open>The clock does not go back: no token is taken at a moment before one that an earlier step has read.\<close>

fun clockOk :: "time \<Rightarrow> gateway_step list \<Rightarrow> bool" where
  "clockOk before [] = True"
| "clockOk before (LookUp r ip mth path # cs) = clockOk before cs"
| "clockOk before (TakeOne r now # cs) = (before \<le> now \<and> clockOk now cs)"
| "clockOk before (Sweep ip now # cs) = clockOk (max before now) cs"

text \<open>A request whose two sections follow each other is the request of \<open>allowRequest\<close>, and the sweeps are the cleanup.\<close>

definition limiterOf :: "Gateway \<Rightarrow> AdvancedRateLimiter" where
  "limiterOf s = (gw_limiter s)\<lparr> al_clients := \<lambda>ip. map_option (gw_made s ip) (gw_clients s ip) \<rparr>"

lemma getLimitForEndpoint_clients [simp]: "getLimitForEndpoint order mth path (rl\<lparr> al_clients := cs \<rparr>) = getLimitForEndpoint order mth path rl"
  by (simp add: getLimitForEndpoint_def cong: option.case_cong)

lemma request_in_two_steps:
  assumes "gw_waiting s r = None" and "\<And>n. gw_next s \<le> n \<Longrightarrow> gw_made s ip n = Map.empty"
  shows "\<exists>s' a. gatewayRun order [LookUp r ip mth path, TakeOne r now] s = ([a], s') \<and> ga_current a
    \<and> allowRequest now ip mth path (getLimitForEndpoint order mth path (limiterOf s)) (limiterOf s) = (ga_ok a, limiterOf s')"
proof (cases "gw_clients s ip")
  case None
  then show ?thesis
    using assms by (auto simp: lookUpClient_def takeFrom_def setWaiting_def storeLimits_def allowRequest_def limiterOf_def Let_def fun_eq_iff
        split: prod.split)
next
  case (Some n)
  then show ?thesis
    using assms by (auto simp: lookUpClient_def takeFrom_def setWaiting_def storeLimits_def allowRequest_def limiterOf_def Let_def fun_eq_iff
        split: prod.split)
qed

lemma sweep_is_cleanup:
  "al_clients (limiterOf (sweepClient ip now s)) =
     (al_clients (limiterOf s))(ip := al_clients (cleanup now (limiterOf s)) ip)"
  by (auto simp: limiterOf_def sweepClient_def cleanup_def Let_def fun_eq_iff split: option.split)

text \<open>The requests between their sections and the clients in the map have numbers that were given out.\<close>

definition gatewayInv :: "Gateway \<Rightarrow> bool" where
  "gatewayInv s \<longleftrightarrow> (\<forall>ip n. gw_clients s ip = Some n \<longrightarrow> n < gw_next s)
     \<and> (\<forall>r ip n mth path. gw_waiting s r = Some (ip, n, mth, path) \<longrightarrow> n < gw_next s)
     \<and> (\<forall>ip n. gw_next s \<le> n \<longrightarrow> gw_made s ip n = Map.empty)"

definition currentBucket :: "string \<Rightarrow> string \<Rightarrow> Gateway \<Rightarrow> tokenBucket option" where
  "currentBucket ip key s = (case gw_clients s ip of None \<Rightarrow> None | Some n \<Rightarrow> gw_made s ip n key)"

text \<open>An ideal bucket that is never evicted: the one in the map is that bucket, or it is missing and the ideal one is full again.\<close>

definition follows :: "int \<times> int \<Rightarrow> time \<Rightarrow> tokenBucket \<Rightarrow> tokenBucket option \<Rightarrow> bool" where
  "follows l now b x \<longleftrightarrow> bucketOk l b \<and> tk_lastUpdate b \<le> now
     \<and> (x = Some b \<or> x = None \<and> tk_lastUpdate b + 10 * Minute \<le> now)"

lemma follows_later: "follows l before b x \<Longrightarrow> before \<le> now \<Longrightarrow> follows l now b x"
  by (auto simp: follows_def)

text \<open>The answers that were taken from the limits in the map.\<close>

definition mine :: "string \<Rightarrow> string \<Rightarrow> GatewayAnswer list \<Rightarrow> GatewayAnswer list" where
  "mine ip key as = filter (\<lambda>a. ga_ip a = ip \<and> ga_key a = key \<and> ga_current a) as"

lemma mine_append [simp]: "mine ip key (as @ bs) = mine ip key as @ mine ip key bs"
  by (simp add: mine_def)

lemma gatewayInv_step: "gatewayInv s \<Longrightarrow> gatewayInv (snd (gatewayStep order c s)) \<and> gw_limiter (snd (gatewayStep order c s)) = gw_limiter s"
  by (cases c) (auto simp: gatewayInv_def lookUpClient_def setWaiting_def storeLimits_def sweepClient_def less_SucI
      split: option.splits prod.splits if_splits, meson leD)

lemma LookUp_bucket:
  "gatewayInv s \<Longrightarrow> currentBucket ip key (snd (gatewayStep order (LookUp r ip' mth path) s)) = currentBucket ip key s"
  by (auto simp: gatewayInv_def currentBucket_def lookUpClient_def setWaiting_def split: option.splits)

lemma Sweep_bucket:
  "currentBucket ip key (sweepClient ip' now s) = currentBucket ip key s \<or>
   currentBucket ip key (sweepClient ip' now s) = None \<and> (\<forall>b. currentBucket ip key s = Some b \<longrightarrow> tk_lastUpdate b + 10 * Minute \<le> now)"
  by (auto simp: currentBucket_def sweepClient_def ran_def split: option.splits)

lemma TakeOne_bucket:
  assumes "gw_waiting s r = Some (ip', n, mth, path)" and "gatewayStep order (TakeOne r now) s = (as, s1)"
  shows "currentBucket ip key s1 =
      (if ip' = ip \<and> gw_clients s ip = Some n \<and> endpointKey mth path = key
       then Some (snd (takeToken now (case_option (freshBucket now (limitOfKey order key (gw_limiter s))) id (currentBucket ip key s))))
       else currentBucket ip key s)"
    and "mine ip key as =
      (if ip' = ip \<and> gw_clients s ip = Some n \<and> endpointKey mth path = key
       then [\<lparr> ga_ip = ip, ga_key = key, ga_current = True, ga_time = now,
         ga_ok = fst (takeToken now (case_option (freshBucket now (limitOfKey order key (gw_limiter s))) id (currentBucket ip key s))) \<rparr>]
       else [])"
  using assms by (auto simp: currentBucket_def takeFrom_def newBucket_limitOfKey mine_def storeLimits_def setWaiting_def
      split: prod.splits option.splits)

text \<open>One step: the ideal bucket answers as the limiter does.\<close>

lemma gateway_step_follows:
  assumes "gatewayInv s" and "follows l before b (currentBucket ip key s)" and "l = limitOfKey order key (gw_limiter s)"
    and "0 \<le> fst l" and "snd l \<le> 10 * fst l" and "clockOk before (c # cs)" and "gatewayStep order c s = (as, s1)"
  shows "\<exists>now b1. clockOk now cs \<and> follows l now b1 (currentBucket ip key s1)
    \<and> gateway_bucket.allows (map ga_time (mine ip key as)) b = (map ga_ok (mine ip key as), b1)"
proof (cases c)
  case (LookUp r ip' mth path)
  then have "currentBucket ip key s1 = currentBucket ip key s" "as = []"
    using LookUp_bucket[OF assms(1), of ip key order r ip' mth path] assms(7) by (auto split: if_splits prod.splits)
  then show ?thesis
    using assms(2,6) LookUp by (intro exI[of _ before] exI[of _ b]) (simp add: mine_def)
next
  case (Sweep ip' now)
  then have s1: "as = []" "s1 = sweepClient ip' now s" "clockOk (max before now) cs"
    using assms(6,7) by auto
  moreover have "follows l (max before now) b (currentBucket ip key s1)"
    using Sweep_bucket[of ip key ip' now s] follows_later[OF assms(2), of "max before now"] assms(2)
    unfolding s1(2) by (auto simp: follows_def)
  ultimately show ?thesis
    by (intro exI[of _ "max before now"] exI[of _ b]) (simp add: mine_def)
next
  case (TakeOne r now)
  show ?thesis
  proof (cases "gw_waiting s r")
    case None
    then show ?thesis
      using assms(2,6,7) TakeOne follows_later[OF assms(2), of now] by (auto simp: mine_def)
  next
    case (Some w)
    obtain ip' n mth path where w: "gw_waiting s r = Some (ip', n, mth, path)"
      using Some by (cases w) auto
    have le: "before \<le> now" "clockOk now cs"
      using assms(6) TakeOne by simp_all
    have b: "follows l now b (currentBucket ip key s)"
      by (rule follows_later[OF assms(2) le(1)])
    then have same: "takeToken now (case_option (freshBucket now l) id (currentBucket ip key s)) = takeToken now b"
      using takeToken_idle[of l b now] assms(4,5) by (auto simp: follows_def)
    have next_b: "follows l now (snd (takeToken now b)) (Some (snd (takeToken now b)))"
      using takeToken_ok[of l b now] b assms(4) by (simp add: follows_def)
    note facts = TakeOne_bucket[OF w assms(7)[unfolded TakeOne], of ip key, folded assms(3), unfolded same]
    show ?thesis
      using facts b next_b le(2)
      by (cases "ip' = ip \<and> gw_clients s ip = Some n \<and> endpointKey mth path = key") (auto split: prod.split)
  qed
qed

text \<open>A run: the answers from the limits in the map are those of one bucket that is never evicted.\<close>

lemma gateway_run_follows:
  assumes "gatewayInv s" and "follows l before b (currentBucket ip key s)" and "l = limitOfKey order key (gw_limiter s)"
    and "0 \<le> fst l" and "snd l \<le> 10 * fst l" and "clockOk before (cs @ later)" and "gatewayRun order cs s = (as, s1)"
  shows "gatewayInv s1 \<and> gw_limiter s1 = gw_limiter s \<and>
    (\<exists>now b1. clockOk now later \<and> follows l now b1 (currentBucket ip key s1)
      \<and> gateway_bucket.allows (map ga_time (mine ip key as)) b = (map ga_ok (mine ip key as), b1))"
  using assms
proof (induction cs arbitrary: before b s as)
  case Nil
  then show ?case by (auto simp: mine_def)
next
  case (Cons c cs)
  obtain as1 s2 where step: "gatewayStep order c s = (as1, s2)"
    by fastforce
  obtain as2 where rest: "gatewayRun order cs s2 = (as2, s1)" "as = as1 @ as2"
    using Cons.prems(7) step by (auto split: prod.splits)
  obtain now b1 where b1: "clockOk now (cs @ later)" "follows l now b1 (currentBucket ip key s2)"
      "gateway_bucket.allows (map ga_time (mine ip key as1)) b = (map ga_ok (mine ip key as1), b1)"
    using gateway_step_follows[OF Cons.prems(1-5) _ step, of "cs @ later"] Cons.prems(6) by auto
  have inv: "gatewayInv s2" "gw_limiter s2 = gw_limiter s"
    using gatewayInv_step[OF Cons.prems(1), of order c] by (simp_all add: step)
  obtain now' b2 where b2: "gatewayInv s1" "gw_limiter s1 = gw_limiter s" "clockOk now' later" "follows l now' b2 (currentBucket ip key s1)"
      "gateway_bucket.allows (map ga_time (mine ip key as2)) b1 = (map ga_ok (mine ip key as2), b2)"
    using Cons.IH[OF inv(1) b1(2) _ Cons.prems(4,5) b1(1) rest(1)] Cons.prems(3) inv(2) by auto
  then show ?case
    using b1(3) rest(2) by (auto simp: gateway_bucket.allows_append)
qed

lemma gatewayRun_sorted:
  "clockOk before cs \<Longrightarrow> sorted (before # map ga_time (fst (gatewayRun order cs s)))"
proof (induction cs arbitrary: before s)
  case (Cons c cs)
  obtain as s1 where step: "gatewayStep order c s = (as, s1)"
    by fastforce
  have tail: "sorted (t # map ga_time (fst (gatewayRun order cs s1)))" if "clockOk t cs" for t
    by (rule Cons.IH[OF that])
  show ?case
    using Cons.prems step tail by (cases c) (fastforce split: option.splits prod.splits if_splits)+
qed simp

definition servedIn :: "string \<Rightarrow> string \<Rightarrow> GatewayAnswer list \<Rightarrow> nat" where
  "servedIn ip key as = length (filter (\<lambda>a. ga_ip a = ip \<and> ga_key a = key \<and> ga_ok a) as)"

definition evictedIn :: "string \<Rightarrow> string \<Rightarrow> GatewayAnswer list \<Rightarrow> nat" where
  "evictedIn ip key as = length (filter (\<lambda>a. ga_ip a = ip \<and> ga_key a = key \<and> \<not> ga_current a) as)"

lemma servedIn_split: "servedIn ip key as \<le> length (filter id (map ga_ok (mine ip key as))) + evictedIn ip key as"
  by (induction as) (auto simp: servedIn_def evictedIn_def mine_def)

lemma newGateway_follows:
  assumes "0 \<le> snd l"
  shows "gatewayInv (newGateway rl) \<and> follows l now (freshBucket (now - 10 * Minute) l) (currentBucket ip key (newGateway rl))"
  using bucketOk_fresh[OF assms] by (simp add: gatewayInv_def newGateway_def follows_def currentBucket_def freshBucket_def)

text \<open>The first and the last of the moments lie in the interval, so what flows in between them does not exceed what flows in there.\<close>

lemma granted_within:
  assumes "follows l now b x" and "0 \<le> fst l" and "0 \<le> snd l" and "sorted (now # ts)" and "\<forall>t \<in> set ts. t0 \<le> t \<and> t \<le> t1" and "t0 \<le> t1"
  shows "of_nat (gateway_bucket.granted ts b) \<le> of_int (snd l) + Seconds (t1 - t0) * (of_int (fst l) / 60)"
proof -
  have flow: "Seconds (u - v) * (of_int (fst l) / 60) \<le> Seconds (t1 - t0) * (of_int (fst l) / 60)" if "u \<le> t1" "t0 \<le> v" for u v
    using assms(2) that by (intro mult_right_mono) (simp_all add: Seconds_def divide_right_mono)
  show ?thesis
  proof (cases ts)
    case Nil
    have "0 \<le> Seconds (t1 - t0) * (of_int (fst l) / 60)"
      using assms(2,6) gateway_bucket.Seconds_nonneg[of t0 t1] by simp
    then show ?thesis
      using assms(3) Nil by (simp add: gateway_bucket.granted_def)
  next
    case (Cons t us)
    have b: "bucketOk l b" "tk_lastUpdate b \<le> t"
      using assms(1,4) Cons by (simp_all add: follows_def)
    have "of_nat (gateway_bucket.granted ts b) \<le> tk_maxTokens b + Seconds (last ts - t) * tk_refillRate b"
      using gateway_bucket.granted_bound[of b t us] b assms(2,4) Cons by (simp add: bucketOk_def)
    moreover have "last ts \<le> t1" "t0 \<le> t"
      using assms(5) Cons last_in_set[of ts] by auto
    note flow[OF this]
    moreover have "tk_maxTokens b = of_int (snd l)" "tk_refillRate b = of_int (fst l) / 60"
      using b(1) by (simp_all add: bucketOk_def)
    ultimately show ?thesis
      by (simp only:)
  qed
qed

text \<open>C9: Between any two moments the gateway serves a client at an endpoint at most the burst size and what the limit per
  minute lets in, and no more than one request beyond that for each one whose limits a cleanup evicted after they were looked
  up. This holds if the burst refills within the ten minutes after which a client is evicted, however lookups, takes and
  cleanups of all clients interleave and whatever came before.\<close>

theorem gateway_rate_bound:
  assumes "limitOfKey order key rl = (perMin, burst)" and "0 \<le> perMin" and "0 \<le> burst" and "burst \<le> 10 * perMin"
    and "clockOk began (before @ window)" and "gatewayRun order before (newGateway rl) = (bs, s)"
    and "gatewayRun order window s = (as, s')" and "\<forall>a \<in> set as. t0 \<le> ga_time a \<and> ga_time a \<le> t1" and "t0 \<le> t1"
  shows "of_nat (servedIn ip key as)
      \<le> of_int burst + Seconds (t1 - t0) * (of_int perMin / 60) + of_nat (evictedIn ip key as)"
proof -
  let ?l = "(perMin, burst)" and ?ts = "map ga_time (mine ip key as)"
  have l: "0 \<le> fst ?l" "snd ?l \<le> 10 * fst ?l" "0 \<le> snd ?l" "?l = limitOfKey order key (gw_limiter (newGateway rl))"
    using assms(1-4) by (simp_all add: newGateway_def)
  have init: "gatewayInv (newGateway rl)"
      "follows ?l began (freshBucket (began - 10 * Minute) ?l) (currentBucket ip key (newGateway rl))"
    using newGateway_follows[OF l(3)] by blast+
  obtain now b where b: "gatewayInv s" "gw_limiter s = rl" "clockOk now window" "follows ?l now b (currentBucket ip key s)"
    using gateway_run_follows[OF init l(4,1,2) assms(5,6)] by (auto simp: newGateway_def)
  then have "gateway_bucket.granted ?ts b = length (filter id (map ga_ok (mine ip key as)))"
    using gateway_run_follows[OF b(1,4) _ l(1,2) _ assms(7), of "[]"] assms(1)
    by (auto simp: gateway_bucket.granted_def)
  moreover have "sorted (now # ?ts)"
    using gatewayRun_sorted[OF b(3), of order s] assms(7) sorted_filter[of ga_time as]
    by (auto simp: mine_def)
  then have "of_nat (gateway_bucket.granted ?ts b) \<le> of_int burst + Seconds (t1 - t0) * (of_int perMin / 60)"
    using granted_within[OF b(4) l(1,3) _ _ assms(9), of ?ts] assms(8) by (auto simp: mine_def)
  ultimately show ?thesis
    using servedIn_split[of ip key as] by linarith
qed

text \<open>Two requests in a row, with a cleanup between them; a client of a limit of sixty a minute and a burst of two.\<close>

definition gate_before :: "gateway_step list" where
  "gate_before = [LookUp 0 ''a'' ''GET'' ''/x'', TakeOne 0 0]"

definition gate_window :: "gateway_step list" where
  "gate_window = [LookUp 1 ''a'' ''GET'' ''/x'', TakeOne 1 Second, Sweep ''a'' (2 * Second), LookUp 2 ''b'' ''GET'' ''/x'', TakeOne 2 (2 * Second),
     LookUp 1 ''a'' ''GET'' ''/x'', TakeOne 1 (3 * Second)]"

lemmas gate_runs = gate_window_def gate_before_def newGateway_def lookUpClient_def takeFrom_def takeToken_def storeLimits_def setWaiting_def
  sweepClient_def getLimitForEndpoint_def NewAdvancedRateLimiter_def endpointKey_def newBucket_def Seconds_def Let_def ran_def

lemma gateway_rate_bound_witness:
  "of_nat (servedIn ''a'' ''GET:/x'' (fst (gatewayRun [] gate_window (snd (gatewayRun [] gate_before (newGateway (NewAdvancedRateLimiter 60 2)))))))
     \<le> 2 + Seconds (3 * Second - Second) * (60 / 60)
       + (of_nat (evictedIn ''a'' ''GET:/x'' (fst (gatewayRun [] gate_window (snd (gatewayRun [] gate_before (newGateway (NewAdvancedRateLimiter 60 2))))))) :: rat)"
proof -
  obtain bs s where s: "gatewayRun [] gate_before (newGateway (NewAdvancedRateLimiter 60 2)) = (bs, s)"
    by fastforce
  obtain as s' where as: "gatewayRun [] gate_window s = (as, s')"
    by fastforce
  have times: "map ga_time (fst (gatewayRun [] gate_window (snd (gatewayRun [] gate_before (newGateway (NewAdvancedRateLimiter 60 2))))))
      = [Second, 2 * Second, 3 * Second]"
    by (simp add: gate_runs)
  then have "ga_time ` set as = {Second, 2 * Second, 3 * Second}"
    by (simp add: s as flip: set_map)
  then have "\<forall>a \<in> set as. Second \<le> ga_time a \<and> ga_time a \<le> 3 * Second"
    using imageI[of _ "set as" ga_time] by fastforce
  moreover have "limitOfKey [] ''GET:/x'' (NewAdvancedRateLimiter 60 2) = (60, 2)"
    by (simp add: limitOfKey_def NewAdvancedRateLimiter_def)
  moreover have "clockOk 0 (gate_before @ gate_window)"
    by (simp add: gate_before_def gate_window_def)
  ultimately show ?thesis
    using gateway_rate_bound[OF _ _ _ _ _ s as, of "''GET:/x''" 60 2 0 Second "3 * Second" "''a''"]
    by (simp add: s as)
qed

text \<open>A burst that does not refill within ten minutes is granted again after a cleanup: without a limit per minute one request
  is allowed in all, and two are served.\<close>

lemma cleanup_renews_burst:
  "map ga_ok (fst (gatewayRun [] [LookUp 0 ''a'' ''GET'' ''/x'', TakeOne 0 0, Sweep ''a'' (10 * Minute), LookUp 1 ''a'' ''GET'' ''/x'',
      TakeOne 1 (10 * Minute)] (newGateway (NewAdvancedRateLimiter 0 1)))) = [True, True]
   \<and> map ga_ok (fst (gatewayRun [] [LookUp 0 ''a'' ''GET'' ''/x'', TakeOne 0 0, LookUp 1 ''a'' ''GET'' ''/x'',
      TakeOne 1 (10 * Minute)] (newGateway (NewAdvancedRateLimiter 0 1)))) = [True, False]"
  by (simp add: gate_runs)

text \<open>A cleanup between the two locked sections of a first request evicts its limits, which hold no bucket yet: the next request
  gets new ones, and both are served at the same moment, though the burst is one.\<close>

lemma evicted_while_waiting:
  "map (\<lambda>a. (ga_ok a, ga_current a)) (fst (gatewayRun [] [LookUp 0 ''a'' ''GET'' ''/x'', Sweep ''a'' 0, LookUp 1 ''a'' ''GET'' ''/x'',
      TakeOne 1 0, TakeOne 0 0] (newGateway (NewAdvancedRateLimiter 1 1)))) = [(True, True), (True, False)]"
  by (simp add: gate_runs)

text \<open>If no cleanup comes between the two sections of a request, none is evicted.\<close>

fun inTurn :: "(string \<times> string \<times> string \<times> time) + (string \<times> time) \<Rightarrow> gateway_step list" where
  "inTurn (Inl (ip, mth, path, now)) = [LookUp 0 ip mth path, TakeOne 0 now]"
| "inTurn (Inr (ip, now)) = [Sweep ip now]"

lemma inTurn_current:
  assumes "gatewayInv s" and "gw_waiting s 0 = None"
  shows "\<forall>a \<in> set (fst (gatewayRun order (concat (map inTurn cs)) s)). ga_current a"
  using assms
proof (induction cs arbitrary: s)
  case (Cons c cs)
  show ?case
  proof (cases c)
    case (Inl req)
    obtain ip mth path now where req: "c = Inl (ip, mth, path, now)"
      by (cases req) (auto simp: Inl)
    obtain as1 s1 where s1: "gatewayStep order (LookUp 0 ip mth path) s = (as1, s1)"
      by fastforce
    obtain as2 s2 where s2: "gatewayStep order (TakeOne 0 now) s1 = (as2, s2)"
      by fastforce
    have "gatewayInv s2"
      using gatewayInv_step[OF Cons.prems(1), of order "LookUp 0 ip mth path"] gatewayInv_step[of s1 order "TakeOne 0 now"] s1 s2 by simp
    moreover have "gw_waiting s2 0 = None" "as1 = []" "\<forall>a \<in> set as2. ga_current a"
      using s1 s2 Cons.prems(2) by (auto simp: lookUpClient_def setWaiting_def split: option.splits prod.splits)
    moreover have "fst (gatewayRun order (concat (map inTurn (c # cs))) s) = as1 @ as2 @ fst (gatewayRun order (concat (map inTurn cs)) s2)"
      by (simp add: req s1 s2 case_prod_unfold del: gatewayStep.simps)
    ultimately show ?thesis
      using Cons.IH[of s2] by (auto simp del: gatewayStep.simps gatewayRun.simps)
  next
    case (Inr sw)
    obtain ip now where sw: "c = Inr (ip, now)"
      by (cases sw) (auto simp: Inr)
    have "gw_waiting (sweepClient ip now s) 0 = None"
      using Cons.prems(2) by (simp add: sweepClient_def split: option.split)
    then show ?thesis
      using Cons.IH[of "sweepClient ip now s"] gatewayInv_step[OF Cons.prems(1), of order "Sweep ip now"]
      by (simp add: sw split: prod.splits)
  qed
qed simp

section \<open>What the limiter of the shared middleware grants\<close>

fun allowAll :: "time list \<Rightarrow> string \<Rightarrow> RateLimiter \<Rightarrow> bool list \<times> RateLimiter" where
  "allowAll [] key rl = ([], rl)"
| "allowAll (now # ts) key rl =
     (case RateLimiter_Allow now key rl of (ok, rl1) \<Rightarrow>
        (case allowAll ts key rl1 of (oks, rl2) \<Rightarrow> (ok # oks, rl2)))"

lemma allowAll_append:
  "fst (allowAll (ts @ us) key rl) = fst (allowAll ts key rl) @ fst (allowAll us key (snd (allowAll ts key rl)))"
  by (induction ts arbitrary: rl) (simp_all add: case_prod_unfold)

lemma allowAll_config: "rl_config (snd (allowAll ts key rl)) = rl_config rl"
  by (induction ts arbitrary: rl)
    (simp_all add: case_prod_unfold RateLimiter_Allow_def getBucket_def Let_def split: option.split)

text \<open>A call in the same period as the last cleanup works on the bucket that is there.\<close>

lemma RateLimiter_Allow_at:
  assumes "now - rl_cleanup rl \<le> 10 * Minute" and "rl_buckets rl key = Some b"
    and "TokenBucket_Allow now b = (ok, b1)"
  shows "RateLimiter_Allow now key rl = (ok, rl\<lparr> rl_buckets := (rl_buckets rl)(key \<mapsto> b1) \<rparr>)"
  using assms by (simp add: RateLimiter_Allow_def getBucket_def)

lemma TokenBucket_Allow_same_moment:
  assumes "tb_lastRefill b = now" and "1 \<le> tb_tokens b" and "tb_tokens b \<le> tb_maxTokens b"
  shows "TokenBucket_Allow now b = (True, b\<lparr> tb_tokens := tb_tokens b - 1 \<rparr>)"
  using assms by (cases b) (simp add: TokenBucket_Allow_def Let_def Seconds_def)

lemma allowAll_same_moment:
  assumes "now - rl_cleanup rl \<le> 10 * Minute" and "rl_buckets rl key = Some b"
    and "tb_lastRefill b = now" and "of_nat n \<le> tb_tokens b" and "tb_tokens b \<le> tb_maxTokens b"
  shows "fst (allowAll (replicate n now) key rl) = replicate n True
    \<and> rl_cleanup (snd (allowAll (replicate n now) key rl)) = rl_cleanup rl"
  using assms
proof (induction n arbitrary: rl b)
  case (Suc n)
  let ?b = "b\<lparr> tb_tokens := tb_tokens b - 1 \<rparr>"
  have "RateLimiter_Allow now key rl = (True, rl\<lparr> rl_buckets := (rl_buckets rl)(key \<mapsto> ?b) \<rparr>)"
  proof (rule RateLimiter_Allow_at)
    have "1 \<le> tb_tokens b"
      using Suc.prems(4) of_nat_0_le_iff[of n, where 'a = rat] by simp
    then show "TokenBucket_Allow now b = (True, ?b)"
      using Suc.prems by (intro TokenBucket_Allow_same_moment)
  qed (use Suc.prems in simp_all)
  then show ?case
    using Suc.IH[of "rl\<lparr> rl_buckets := (rl_buckets rl)(key \<mapsto> ?b) \<rparr>" ?b] Suc.prems by (simp add: case_prod_unfold)
qed simp

text \<open>A key without a bucket, and after ten minutes every key, may call as often as the burst at once.\<close>

lemma allowAll_fresh:
  assumes "now - rl_cleanup rl > 10 * Minute \<or> rl_buckets rl key = None" and "0 \<le> rl_BurstSize (rl_config rl)"
  shows "fst (allowAll (replicate (nat (rl_BurstSize (rl_config rl))) now) key rl)
      = replicate (nat (rl_BurstSize (rl_config rl))) True"
    and "now - rl_cleanup rl \<le> 10 * Minute \<Longrightarrow>
      rl_cleanup (snd (allowAll (replicate (nat (rl_BurstSize (rl_config rl))) now) key rl)) = rl_cleanup rl"
proof -
  let ?b = "NewTokenBucket now (of_int (rl_BurstSize (rl_config rl))) (of_int (rl_RequestsPerMinute (rl_config rl)) / 60)"
  let ?n = "nat (rl_BurstSize (rl_config rl))"
  define rl1 where "rl1 = snd (getBucket now key rl)"
  have rl1: "rl_buckets rl1 key = Some ?b" "now - rl_cleanup rl1 \<le> 10 * Minute"
      "now - rl_cleanup rl \<le> 10 * Minute \<Longrightarrow> rl_cleanup rl1 = rl_cleanup rl"
    using assms(1) by (auto simp: rl1_def getBucket_def Let_def)
  have "RateLimiter_Allow now key rl = RateLimiter_Allow now key rl1"
    using assms(1) by (auto simp: rl1_def RateLimiter_Allow_def getBucket_def Let_def)
  then have same: "0 < n \<Longrightarrow> allowAll (replicate n now) key rl = allowAll (replicate n now) key rl1" for n
    by (cases n) simp_all
  have "fst (allowAll (replicate ?n now) key rl1) = replicate ?n True \<and>
      rl_cleanup (snd (allowAll (replicate ?n now) key rl1)) = rl_cleanup rl1"
    by (rule allowAll_same_moment[OF rl1(2,1)]) (use assms(2) in \<open>simp_all add: NewTokenBucket_def\<close>)
  then show "fst (allowAll (replicate ?n now) key rl) = replicate ?n True"
    and "now - rl_cleanup rl \<le> 10 * Minute \<Longrightarrow> rl_cleanup (snd (allowAll (replicate ?n now) key rl)) = rl_cleanup rl"
    using same[of ?n] rl1(3) by (cases ?n; simp)+
qed

text \<open>The limiter of the shared middleware throws away all buckets in its periodic cleanup, in use
  or not: a key can call its whole burst just before the cleanup and again right after it, and every
  one of these calls is allowed.\<close>
theorem shared_limiter_burst_twice:
  fixes rl :: RateLimiter
  defines "n \<equiv> nat (rl_BurstSize (rl_config rl))"
  assumes "rl_buckets rl key = None" and "0 \<le> rl_BurstSize (rl_config rl)"
    and "early - rl_cleanup rl \<le> 10 * Minute" and "10 * Minute < late - rl_cleanup rl"
  shows "fst (allowAll (replicate n early @ replicate n late) key rl) = replicate (n + n) True"
proof -
  let ?rl1 = "snd (allowAll (replicate n early) key rl)"
  have "fst (allowAll (replicate n early) key rl) = replicate n True" and "rl_cleanup ?rl1 = rl_cleanup rl"
    using allowAll_fresh[of early rl key] assms by (simp_all add: n_def)
  moreover have "fst (allowAll (replicate n late) key ?rl1) = replicate n True"
    using allowAll_fresh(1)[of late ?rl1 key] calculation(2) assms by (simp add: n_def allowAll_config)
  ultimately show ?thesis
    by (simp add: allowAll_append replicate_add)
qed

lemma shared_limiter_burst_twice_witness:
  "fst (allowAll (replicate (nat 200) (600 * Second) @ replicate (nat 200) (600 * Second + 1)) ''10.0.0.1'' (NewRateLimiter 0 None))
    = replicate (nat 200 + nat 200) True"
  using shared_limiter_burst_twice[where rl = "NewRateLimiter 0 None" and key = "''10.0.0.1''" and early = "600 * Second" and late = "600 * Second + 1"]
  by (simp add: NewRateLimiter_def DefaultRateLimitConfig_def)

text \<open>A new tier changes neither the size nor the rate of the bucket a user already has.\<close>

lemma SetUserTier_too_late:
  "ul_userLimiters rl userID = Some b \<Longrightarrow>
     fst (User_AllowRequest now userID (SetUserTier userID tier rl)) = fst (User_AllowRequest now userID rl)"
  by (simp add: User_AllowRequest_def SetUserTier_def Let_def case_prod_unfold)

end
