(* ===== verification/Schedule.thy ===== *)
theory Schedule
  imports Prelude
begin

text \<open>
  Schedules: the aggregate of \<open>internal/schedule/domain/model/schedule.go\<close> and the scheduler of
  \<open>internal/schedule/app/service/scheduler.go\<close>. The cron library and the time zone database are a
  parameter: parsing an expression, loading a location, the next time of a parsed expression
  in a location, and whether the scheduler's own cron accepts an expression. \<open>clk i\<close> is the i-th reading
  of the clock in a call. A start or end date carries the location it was built with.
\<close>

record ('c, 'l) CronLib =
  cl_Parse :: "string \<Rightarrow> 'c option"
  cl_LoadLocation :: "string \<Rightarrow> 'l option"
  cl_Next :: "'c \<Rightarrow> 'l \<Rightarrow> time \<Rightarrow> time"
  cl_AddFunc :: "string \<Rightarrow> bool"

text \<open>\<open>cron.Schedule.Next\<close> answers the zero time when no time satisfies the expression.\<close>

definition zero_time :: time where
  "zero_time = - 62135596800 * Second"

section \<open>The aggregate\<close>

datatype ScheduleStatus =
    ScheduleStatusActive | ScheduleStatusPaused | ScheduleStatusDisabled | ScheduleStatusExpired | ScheduleStatusError

datatype schedule_error =
    Required string
  | InvalidCron
  | InvalidTimezone
  | StartAfterEnd
  | CannotActivateExpired
  | AlreadyEnded
  | CannotPause ScheduleStatus
  | CannotResume ScheduleStatus

record ('c, 'l) Schedule =
  sc_id :: string
  sc_userID :: string
  sc_organizationID :: string
  sc_workflowID :: string
  sc_name :: string
  sc_description :: string
  sc_cronExpression :: string
  sc_timezone :: string
  sc_startDate :: "(time \<times> 'l) option"
  sc_endDate :: "(time \<times> 'l) option"
  sc_status :: ScheduleStatus
  sc_lastRunAt :: "time option"
  sc_nextRunAt :: "time option"
  sc_runCount :: int
  sc_successCount :: int
  sc_failureCount :: int
  sc_lastError :: string
  sc_inputData :: "dict option"
  sc_metadata :: dict
  sc_cronSchedule :: 'c
  sc_createdAt :: time
  sc_updatedAt :: time
  sc_version :: int

definition afterEnd :: "time \<Rightarrow> ('c, 'l) Schedule \<Rightarrow> bool" where
  "afterEnd now s = (case sc_endDate s of None \<Rightarrow> False | Some (e, _) \<Rightarrow> now > e)"

definition calculateNextRun :: "('c, 'l) CronLib \<Rightarrow> time \<Rightarrow> 'l \<Rightarrow> ('c, 'l) Schedule \<Rightarrow> time option" where
  "calculateNextRun lib now loc s =
     (if sc_status s \<noteq> ScheduleStatusActive then None
      else
        let (fromTime, fromLoc) = (case sc_startDate s of
              Some (start, startLoc) \<Rightarrow> if start > now then (start, startLoc) else (now, loc)
            | None \<Rightarrow> (now, loc));
            next_time = cl_Next lib (sc_cronSchedule s) fromLoc fromTime
        in if afterEnd next_time s then None else Some next_time)"

definition NewSchedule ::
  "('c, 'l) CronLib \<Rightarrow> (nat \<Rightarrow> time) \<Rightarrow> string \<Rightarrow> string \<Rightarrow> string \<Rightarrow> string \<Rightarrow> string \<Rightarrow> string \<Rightarrow>
   schedule_error + ('c, 'l) Schedule" where
  "NewSchedule lib clk newID userID workflowID name cronExpression timezone =
     (if userID = '''' then Inl (Required ''user ID'')
      else if workflowID = '''' then Inl (Required ''workflow ID'')
      else if name = '''' then Inl (Required ''schedule name'')
      else if cronExpression = '''' then Inl (Required ''cron expression'')
      else (case cl_Parse lib cronExpression of
          None \<Rightarrow> Inl InvalidCron
        | Some cronSchedule \<Rightarrow>
            (case cl_LoadLocation lib timezone of
               None \<Rightarrow> Inl InvalidTimezone
             | Some loc \<Rightarrow>
                 let now = clk 0;
                     schedule = \<lparr> sc_id = newID, sc_userID = userID, sc_organizationID = '''', sc_workflowID = workflowID,
                       sc_name = name, sc_description = '''', sc_cronExpression = cronExpression, sc_timezone = timezone,
                       sc_startDate = None, sc_endDate = None, sc_status = ScheduleStatusActive, sc_lastRunAt = None,
                       sc_nextRunAt = None, sc_runCount = 0, sc_successCount = 0, sc_failureCount = 0, sc_lastError = '''',
                       sc_inputData = Some Map.empty, sc_metadata = Map.empty, sc_cronSchedule = cronSchedule,
                       sc_createdAt = now, sc_updatedAt = now, sc_version = 0 \<rparr>
                 in Inr (schedule\<lparr> sc_nextRunAt := calculateNextRun lib (clk 1) loc schedule \<rparr>))))"

text \<open>The end of every method: the date of the update and the version.\<close>

definition touched :: "time \<Rightarrow> ('c, 'l) Schedule \<Rightarrow> ('c, 'l) Schedule" where
  "touched now s = s\<lparr> sc_updatedAt := now, sc_version := sc_version s + 1 \<rparr>"

definition SetOrganizationID :: "(nat \<Rightarrow> time) \<Rightarrow> string \<Rightarrow> ('c, 'l) Schedule \<Rightarrow> ('c, 'l) Schedule" where
  "SetOrganizationID clk orgID s = touched (clk 0) (s\<lparr> sc_organizationID := orgID \<rparr>)"

definition SetDescription :: "(nat \<Rightarrow> time) \<Rightarrow> string \<Rightarrow> ('c, 'l) Schedule \<Rightarrow> ('c, 'l) Schedule" where
  "SetDescription clk description s = touched (clk 0) (s\<lparr> sc_description := description \<rparr>)"

definition SetInputData :: "(nat \<Rightarrow> time) \<Rightarrow> dict option \<Rightarrow> ('c, 'l) Schedule \<Rightarrow> ('c, 'l) Schedule" where
  "SetInputData clk data s = touched (clk 0) (s\<lparr> sc_inputData := data \<rparr>)"

definition startAfterEnd :: "(time \<times> 'l) option \<Rightarrow> (time \<times> 'l) option \<Rightarrow> bool" where
  "startAfterEnd startDate endDate =
     (case startDate of None \<Rightarrow> False | Some (a, _) \<Rightarrow> (case endDate of None \<Rightarrow> False | Some (b, _) \<Rightarrow> a > b))"

definition SetDateRange ::
  "(nat \<Rightarrow> time) \<Rightarrow> (time \<times> 'l) option \<Rightarrow> (time \<times> 'l) option \<Rightarrow> ('c, 'l) Schedule \<Rightarrow> schedule_error + ('c, 'l) Schedule" where
  "SetDateRange clk startDate endDate s =
     (if startAfterEnd startDate endDate then Inl StartAfterEnd
      else
        let s1 = s\<lparr> sc_startDate := startDate, sc_endDate := endDate \<rparr>;
            s2 = (if afterEnd (clk 0) s1 then s1\<lparr> sc_status := ScheduleStatusExpired \<rparr> else s1)
        in Inr (touched (clk 1) s2))"

text \<open>\<open>loc, _ := time.LoadLocation(s.timezone)\<close>: the timezone was accepted when it was set.\<close>

definition scheduleLocation :: "('c, 'l) CronLib \<Rightarrow> ('c, 'l) Schedule \<Rightarrow> 'l" where
  "scheduleLocation lib s = the (cl_LoadLocation lib (sc_timezone s))"

definition recalculated :: "('c, 'l) CronLib \<Rightarrow> time \<Rightarrow> ('c, 'l) Schedule \<Rightarrow> ('c, 'l) Schedule" where
  "recalculated lib now s = s\<lparr> sc_nextRunAt := calculateNextRun lib now (scheduleLocation lib s) s \<rparr>"

definition UpdateCronExpression ::
  "('c, 'l) CronLib \<Rightarrow> (nat \<Rightarrow> time) \<Rightarrow> string \<Rightarrow> ('c, 'l) Schedule \<Rightarrow> schedule_error + ('c, 'l) Schedule" where
  "UpdateCronExpression lib clk cronExpression s =
     (case cl_Parse lib cronExpression of
        None \<Rightarrow> Inl InvalidCron
      | Some cronSchedule \<Rightarrow>
          Inr (touched (clk 1) (recalculated lib (clk 0)
            (s\<lparr> sc_cronExpression := cronExpression, sc_cronSchedule := cronSchedule \<rparr>))))"

definition UpdateTimezone ::
  "('c, 'l) CronLib \<Rightarrow> (nat \<Rightarrow> time) \<Rightarrow> string \<Rightarrow> ('c, 'l) Schedule \<Rightarrow> schedule_error + ('c, 'l) Schedule" where
  "UpdateTimezone lib clk timezone s =
     (case cl_LoadLocation lib timezone of
        None \<Rightarrow> Inl InvalidTimezone
      | Some loc \<Rightarrow>
          let s1 = s\<lparr> sc_timezone := timezone \<rparr>
          in Inr (touched (clk 1) (s1\<lparr> sc_nextRunAt := calculateNextRun lib (clk 0) loc s1 \<rparr>)))"

definition Activate ::
  "('c, 'l) CronLib \<Rightarrow> (nat \<Rightarrow> time) \<Rightarrow> ('c, 'l) Schedule \<Rightarrow> schedule_error + ('c, 'l) Schedule" where
  "Activate lib clk s =
     (if sc_status s = ScheduleStatusExpired then Inl CannotActivateExpired
      else if afterEnd (clk 0) s then Inl AlreadyEnded
      else Inr (touched (clk 2) (recalculated lib (clk 1) (s\<lparr> sc_status := ScheduleStatusActive \<rparr>))))"

definition Pause :: "(nat \<Rightarrow> time) \<Rightarrow> ('c, 'l) Schedule \<Rightarrow> schedule_error + ('c, 'l) Schedule" where
  "Pause clk s =
     (if sc_status s \<noteq> ScheduleStatusActive then Inl (CannotPause (sc_status s))
      else Inr (touched (clk 0) (s\<lparr> sc_status := ScheduleStatusPaused \<rparr>)))"

definition Resume ::
  "('c, 'l) CronLib \<Rightarrow> (nat \<Rightarrow> time) \<Rightarrow> ('c, 'l) Schedule \<Rightarrow> schedule_error + ('c, 'l) Schedule" where
  "Resume lib clk s =
     (if sc_status s \<noteq> ScheduleStatusPaused then Inl (CannotResume (sc_status s))
      else Inr (touched (clk 1) (recalculated lib (clk 0) (s\<lparr> sc_status := ScheduleStatusActive \<rparr>))))"

definition Disable :: "(nat \<Rightarrow> time) \<Rightarrow> ('c, 'l) Schedule \<Rightarrow> ('c, 'l) Schedule" where
  "Disable clk s = touched (clk 0) (s\<lparr> sc_status := ScheduleStatusDisabled, sc_nextRunAt := None \<rparr>)"

definition countRun :: "bool \<Rightarrow> string \<Rightarrow> time \<Rightarrow> ('c, 'l) Schedule \<Rightarrow> ('c, 'l) Schedule" where
  "countRun success errorMessage now s =
     (let s1 = s\<lparr> sc_lastRunAt := Some now, sc_runCount := sc_runCount s + 1 \<rparr> in
      if success then s1\<lparr> sc_successCount := sc_successCount s1 + 1, sc_lastError := '''' \<rparr>
      else
        let s2 = s1\<lparr> sc_failureCount := sc_failureCount s1 + 1, sc_lastError := errorMessage \<rparr>;
            failureRate = (of_int (sc_failureCount s2) / of_int (sc_runCount s2) :: rat)
        in if sc_runCount s2 > 10 \<and> failureRate > 1 / 2 then s2\<lparr> sc_status := ScheduleStatusError \<rparr> else s2)"

definition RecordRun ::
  "('c, 'l) CronLib \<Rightarrow> (nat \<Rightarrow> time) \<Rightarrow> bool \<Rightarrow> string \<Rightarrow> ('c, 'l) Schedule \<Rightarrow> ('c, 'l) Schedule" where
  "RecordRun lib clk success errorMessage s =
     (let s1 = countRun success errorMessage (clk 0) s;
          s2 = (if sc_status s1 = ScheduleStatusActive then recalculated lib (clk 1) s1 else s1);
          s3 = (if afterEnd (clk 2) s2 then s2\<lparr> sc_status := ScheduleStatusExpired, sc_nextRunAt := None \<rparr> else s2)
      in touched (clk 3) s3)"

definition ShouldRun :: "time \<Rightarrow> ('c, 'l) Schedule \<Rightarrow> bool" where
  "ShouldRun checkTime s =
     (if sc_status s \<noteq> ScheduleStatusActive then False
      else if (case sc_startDate s of None \<Rightarrow> False | Some (a, _) \<Rightarrow> checkTime < a) then False
      else if afterEnd checkTime s then False
      else (case sc_nextRunAt s of None \<Rightarrow> False | Some n \<Rightarrow> checkTime > n))"

definition Schedule_Validate :: "('c, 'l) CronLib \<Rightarrow> ('c, 'l) Schedule \<Rightarrow> schedule_error option" where
  "Schedule_Validate lib s =
     (if sc_userID s = '''' then Some (Required ''user ID'')
      else if sc_workflowID s = '''' then Some (Required ''workflow ID'')
      else if sc_name s = '''' then Some (Required ''schedule name'')
      else if sc_cronExpression s = '''' then Some (Required ''cron expression'')
      else if sc_timezone s = '''' then Some (Required ''timezone'')
      else if cl_Parse lib (sc_cronExpression s) = None then Some InvalidCron
      else if cl_LoadLocation lib (sc_timezone s) = None then Some InvalidTimezone
      else if startAfterEnd (sc_startDate s) (sc_endDate s) then Some StartAfterEnd
      else None)"

lemmas schedule_ops = SetOrganizationID_def SetDescription_def SetInputData_def SetDateRange_def UpdateCronExpression_def
  UpdateTimezone_def Activate_def Pause_def Resume_def Disable_def RecordRun_def

section \<open>Runs of the aggregate\<close>

datatype 'l schedule_command =
    DoOrganization "nat \<Rightarrow> time" string
  | DoDescription "nat \<Rightarrow> time" string
  | DoInputData "nat \<Rightarrow> time" "dict option"
  | DoDateRange "nat \<Rightarrow> time" "(time \<times> 'l) option" "(time \<times> 'l) option"
  | DoCron "nat \<Rightarrow> time" string
  | DoTimezone "nat \<Rightarrow> time" string
  | DoActivate "nat \<Rightarrow> time"
  | DoPause "nat \<Rightarrow> time"
  | DoResume "nat \<Rightarrow> time"
  | DoDisable "nat \<Rightarrow> time"
  | DoRecordRun "nat \<Rightarrow> time" bool string

fun schedule_step ::
  "('c, 'l) CronLib \<Rightarrow> 'l schedule_command \<Rightarrow> ('c, 'l) Schedule \<Rightarrow> schedule_error + ('c, 'l) Schedule" where
  "schedule_step lib (DoOrganization clk orgID) s = Inr (SetOrganizationID clk orgID s)"
| "schedule_step lib (DoDescription clk d) s = Inr (SetDescription clk d s)"
| "schedule_step lib (DoInputData clk d) s = Inr (SetInputData clk d s)"
| "schedule_step lib (DoDateRange clk a b) s = SetDateRange clk a b s"
| "schedule_step lib (DoCron clk e) s = UpdateCronExpression lib clk e s"
| "schedule_step lib (DoTimezone clk tz) s = UpdateTimezone lib clk tz s"
| "schedule_step lib (DoActivate clk) s = Activate lib clk s"
| "schedule_step lib (DoPause clk) s = Pause clk s"
| "schedule_step lib (DoResume clk) s = Resume lib clk s"
| "schedule_step lib (DoDisable clk) s = Inr (Disable clk s)"
| "schedule_step lib (DoRecordRun clk ok msg) s = Inr (RecordRun lib clk ok msg s)"

definition schedule_inv :: "('c, 'l) CronLib \<Rightarrow> ('c, 'l) Schedule \<Rightarrow> bool" where
  "schedule_inv lib s \<longleftrightarrow>
     sc_runCount s = sc_successCount s + sc_failureCount s \<and> 0 \<le> sc_successCount s \<and> 0 \<le> sc_failureCount s
     \<and> cl_Parse lib (sc_cronExpression s) = Some (sc_cronSchedule s) \<and> cl_LoadLocation lib (sc_timezone s) \<noteq> None
     \<and> sc_userID s \<noteq> '''' \<and> sc_workflowID s \<noteq> '''' \<and> sc_name s \<noteq> ''''
     \<and> \<not> startAfterEnd (sc_startDate s) (sc_endDate s)
     \<and> (sc_status s = ScheduleStatusDisabled \<longrightarrow> sc_nextRunAt s = None)
     \<and> (sc_status s = ScheduleStatusError \<longrightarrow> 10 < sc_successCount s + sc_failureCount s)"

lemma NewSchedule_inv: "NewSchedule lib clk i u w n e tz = Inr s \<Longrightarrow> schedule_inv lib s \<and> sc_version s = 0"
  by (auto simp: NewSchedule_def Let_def schedule_inv_def startAfterEnd_def split: if_splits option.splits)

lemma countRun_inv: "schedule_inv lib s \<Longrightarrow> schedule_inv lib (countRun ok msg now s)"
  by (auto simp: schedule_inv_def countRun_def Let_def)

lemma countRun_version [simp]: "sc_version (countRun ok msg now s) = sc_version s"
  by (simp add: countRun_def Let_def)

lemma touched_inv [simp]: "schedule_inv lib (touched now s) = schedule_inv lib s"
  by (simp add: schedule_inv_def touched_def)

lemma recalculated_inv: "schedule_inv lib s \<Longrightarrow> schedule_inv lib (recalculated lib now s)"
  by (auto simp: schedule_inv_def recalculated_def calculateNextRun_def)

lemma status_inv:
  "schedule_inv lib s \<Longrightarrow> st \<noteq> ScheduleStatusDisabled \<Longrightarrow> st \<noteq> ScheduleStatusError \<Longrightarrow> schedule_inv lib (s\<lparr> sc_status := st \<rparr>)"
  by (simp add: schedule_inv_def)

lemma expired_inv:
  "schedule_inv lib s \<Longrightarrow> schedule_inv lib (s\<lparr> sc_status := ScheduleStatusExpired, sc_nextRunAt := None \<rparr>)"
  by (auto simp: schedule_inv_def)

lemma schedule_step_inv:
  assumes inv: "schedule_inv lib s" and step: "schedule_step lib c s = Inr s'"
  shows "schedule_inv lib s'"
proof (cases c)
  case (DoRecordRun clk ok msg)
  then show ?thesis
    using countRun_inv[OF inv, of ok msg "clk 0"] step
    by (auto simp: RecordRun_def Let_def recalculated_inv expired_inv)
next
  case (DoDateRange clk a b)
  have "schedule_inv lib (s\<lparr> sc_startDate := a, sc_endDate := b \<rparr>)" if "\<not> startAfterEnd a b"
    using inv that by (simp add: schedule_inv_def)
  then show ?thesis
    using step DoDateRange by (auto simp: SetDateRange_def Let_def status_inv split: if_splits)
next
  case (DoCron clk e)
  have "schedule_inv lib (s\<lparr> sc_cronExpression := e, sc_cronSchedule := p \<rparr>)" if "cl_Parse lib e = Some p" for p
    using inv that by (simp add: schedule_inv_def)
  then show ?thesis
    using step DoCron by (auto simp: UpdateCronExpression_def recalculated_inv split: option.splits)
next
  case (DoTimezone clk tz)
  have "schedule_inv lib (s\<lparr> sc_timezone := tz, sc_nextRunAt := calculateNextRun lib now loc (s\<lparr> sc_timezone := tz \<rparr>) \<rparr>)"
    if "cl_LoadLocation lib tz = Some loc" for now loc
    using inv that by (simp add: schedule_inv_def calculateNextRun_def)
  then show ?thesis
    using step DoTimezone by (auto simp: UpdateTimezone_def Let_def split: option.splits)
next
  case (DoDisable clk)
  have "schedule_inv lib (s\<lparr> sc_status := ScheduleStatusDisabled, sc_nextRunAt := None \<rparr>)"
    using inv by (simp add: schedule_inv_def)
  then show ?thesis
    using step DoDisable by (auto simp: Disable_def)
next
  case (DoOrganization clk d)
  moreover have "schedule_inv lib (s\<lparr> sc_organizationID := d \<rparr>)"
    using inv by (simp add: schedule_inv_def)
  ultimately show ?thesis using step by (auto simp: SetOrganizationID_def)
next
  case (DoDescription clk d)
  moreover have "schedule_inv lib (s\<lparr> sc_description := d \<rparr>)"
    using inv by (simp add: schedule_inv_def)
  ultimately show ?thesis using step by (auto simp: SetDescription_def)
next
  case (DoInputData clk d)
  moreover have "schedule_inv lib (s\<lparr> sc_inputData := d \<rparr>)"
    using inv by (simp add: schedule_inv_def)
  ultimately show ?thesis using step by (auto simp: SetInputData_def)
next
  case (DoActivate clk)
  then show ?thesis using step by (auto simp: Activate_def recalculated_inv status_inv inv split: if_splits)
next
  case (DoPause clk)
  then show ?thesis using step status_inv[OF inv] by (auto simp: Pause_def split: if_splits)
next
  case (DoResume clk)
  then show ?thesis using step by (auto simp: Resume_def recalculated_inv status_inv inv split: if_splits)
qed

lemma schedule_step_version: "schedule_step lib c s = Inr s' \<Longrightarrow> sc_version s' = sc_version s + 1"
  by (cases c) (auto simp: schedule_ops touched_def recalculated_def Let_def split: if_splits option.splits)

interpretation schedule: versioned_aggregate "schedule_step lib" "schedule_inv lib" "\<lambda>_ _. True" sc_version for lib
  by unfold_locales (auto intro: schedule_step_inv schedule_step_version)

text \<open>The zone and the numbers of a cron expression are those of the last accepted update.\<close>

text \<open>After any commands a schedule counts its runs as successes plus failures, its expression and time zone
  are valid and its dates in order, a disabled schedule has no next run and one in error has run more than ten
  times; \<open>Validate\<close> accepts it exactly if its time zone is not empty.\<close>
theorem schedule_consistent:
  assumes "NewSchedule lib clk i u w n e tz = Inr s0" and "cl_Parse lib '''' = None"
  shows "schedule_inv lib (attempts (schedule_step lib) s0 cs)
    \<and> sc_version (attempts (schedule_step lib) s0 cs) = int (accepted (schedule_step lib) s0 cs)
    \<and> (Schedule_Validate lib (attempts (schedule_step lib) s0 cs) = None
        \<longleftrightarrow> sc_timezone (attempts (schedule_step lib) s0 cs) \<noteq> '''')"
proof -
  have "schedule_inv lib (attempts (schedule_step lib) s0 cs)"
    using schedule.run_inv[of lib s0 cs] NewSchedule_inv[OF assms(1)] by simp
  moreover from this have "Schedule_Validate lib (attempts (schedule_step lib) s0 cs) = None
      \<longleftrightarrow> sc_timezone (attempts (schedule_step lib) s0 cs) \<noteq> ''''"
    using assms(2) by (auto simp: Schedule_Validate_def schedule_inv_def)
  ultimately show ?thesis
    using schedule.run_version[of lib s0 cs] NewSchedule_inv[OF assms(1)] by simp
qed

definition sample_cron :: "(nat, nat) CronLib" where
  "sample_cron = \<lparr> cl_Parse = (\<lambda>e. if e = ''0 9 * * *'' then Some 5 else None),
     cl_LoadLocation = (\<lambda>tz. if tz = ''UTC'' \<or> tz = '''' then Some 0 else None), cl_Next = (\<lambda>c l t. t + Hour),
     cl_AddFunc = (\<lambda>e. False) \<rparr>"

definition sample_schedule :: "(nat, nat) Schedule" where
  "sample_schedule = projr (NewSchedule sample_cron (\<lambda>_. 0) ''s'' ''u'' ''w'' ''daily'' ''0 9 * * *'' ''UTC'')"

lemma sample_schedule_eq: "NewSchedule sample_cron (\<lambda>_. 0) ''s'' ''u'' ''w'' ''daily'' ''0 9 * * *'' ''UTC'' = Inr sample_schedule"
  by (simp add: sample_schedule_def NewSchedule_def sample_cron_def Let_def)

lemma schedule_consistent_witness:
  "schedule_inv sample_cron (attempts (schedule_step sample_cron) sample_schedule [DoPause (\<lambda>_. 1), DoRecordRun (\<lambda>_. 2) False ''x''])
    \<and> sc_version (attempts (schedule_step sample_cron) sample_schedule [DoPause (\<lambda>_. 1), DoRecordRun (\<lambda>_. 2) False ''x'']) =
        int (accepted (schedule_step sample_cron) sample_schedule [DoPause (\<lambda>_. 1), DoRecordRun (\<lambda>_. 2) False ''x''])
    \<and> (Schedule_Validate sample_cron (attempts (schedule_step sample_cron) sample_schedule [DoPause (\<lambda>_. 1), DoRecordRun (\<lambda>_. 2) False ''x'']) = None
        \<longleftrightarrow> sc_timezone (attempts (schedule_step sample_cron) sample_schedule [DoPause (\<lambda>_. 1), DoRecordRun (\<lambda>_. 2) False ''x'']) \<noteq> '''')"
  by (rule schedule_consistent[OF sample_schedule_eq]) (simp add: sample_cron_def)

section \<open>When a schedule runs\<close>

lemma countRun_simps [simp]:
  "sc_cronSchedule (countRun ok msg now s) = sc_cronSchedule s" "sc_timezone (countRun ok msg now s) = sc_timezone s"
  "sc_startDate (countRun ok msg now s) = sc_startDate s" "sc_endDate (countRun ok msg now s) = sc_endDate s"
  by (simp_all add: countRun_def Let_def)

text \<open>The law of \<open>cron.Schedule.Next\<close>: a later time, or the zero time when the expression has none.\<close>

definition next_law :: "('c, 'l) CronLib \<Rightarrow> bool" where
  "next_law lib \<longleftrightarrow> (\<forall>c l t. t < cl_Next lib c l t \<or> cl_Next lib c l t = zero_time)"

text \<open>From where the next run is sought after a run: from the end of the run, or from the start date if that is later.\<close>

definition soughtFrom :: "time \<Rightarrow> ('c, 'l) Schedule \<Rightarrow> time" where
  "soughtFrom now s = (case sc_startDate s of None \<Rightarrow> now | Some (a, _) \<Rightarrow> max a now)"

definition nextAfterRun :: "('c, 'l) CronLib \<Rightarrow> time \<Rightarrow> ('c, 'l) Schedule \<Rightarrow> time" where
  "nextAfterRun lib now s =
     cl_Next lib (sc_cronSchedule s)
       (case sc_startDate s of Some (a, l) \<Rightarrow> if now < a then l else scheduleLocation lib s | None \<Rightarrow> scheduleLocation lib s)
       (soughtFrom now s)"

lemma calculateNextRun_nextAfterRun:
  "sc_status s = ScheduleStatusActive \<Longrightarrow>
     calculateNextRun lib now (scheduleLocation lib s) s =
       (if afterEnd (nextAfterRun lib now s) s then None else Some (nextAfterRun lib now s))"
  by (auto simp: calculateNextRun_def nextAfterRun_def soughtFrom_def Let_def max_def split: option.split)

lemma nextAfterRun_countRun [simp]: "nextAfterRun lib now (countRun ok msg at_time s) = nextAfterRun lib now s"
  by (simp add: nextAfterRun_def soughtFrom_def scheduleLocation_def cong: if_cong split: option.split)

lemma afterEnd_countRun [simp]: "afterEnd t (countRun ok msg now s) = afterEnd t s"
  by (simp add: afterEnd_def)

text \<open>C16: After a recorded run an active schedule is due again exactly from the next time of its cron expression on, sought
  from the end of the run or from its start date, within its dates: it does not run twice for one activation. The one
  exception is an expression that no later time satisfies: the library answers the zero time for it, which has always
  passed, so that the schedule is due at once and always.\<close>
theorem due_once_per_activation:
  assumes "next_law lib"
  shows "(ShouldRun t (RecordRun lib clk ok msg s) \<longleftrightarrow>
        sc_status (RecordRun lib clk ok msg s) = ScheduleStatusActive
        \<and> (case sc_startDate s of None \<Rightarrow> True | Some (a, _) \<Rightarrow> a \<le> t) \<and> \<not> afterEnd t s
        \<and> \<not> afterEnd (nextAfterRun lib (clk 1) s) s \<and> nextAfterRun lib (clk 1) s < t)
      \<and> clk 1 \<le> soughtFrom (clk 1) s
      \<and> (soughtFrom (clk 1) s < nextAfterRun lib (clk 1) s \<or> nextAfterRun lib (clk 1) s = zero_time)"
proof -
  let ?s1 = "countRun ok msg (clk 0) s" and ?s' = "RecordRun lib clk ok msg s"
  have dates: "sc_startDate ?s' = sc_startDate s" "afterEnd t ?s' = afterEnd t s"
    by (simp_all add: RecordRun_def Let_def touched_def recalculated_def afterEnd_def)
  have "sc_nextRunAt ?s' = (if afterEnd (nextAfterRun lib (clk 1) s) s then None else Some (nextAfterRun lib (clk 1) s))"
    if active: "sc_status ?s' = ScheduleStatusActive"
  proof -
    have "sc_status ?s1 = ScheduleStatusActive"
      using active by (auto simp: RecordRun_def Let_def touched_def recalculated_def split: if_splits)
    then show ?thesis
      using active calculateNextRun_nextAfterRun[of ?s1 lib "clk 1"]
      by (auto simp: RecordRun_def Let_def touched_def recalculated_def split: if_splits)
  qed
  then have "ShouldRun t ?s' \<longleftrightarrow> sc_status ?s' = ScheduleStatusActive
      \<and> (case sc_startDate s of None \<Rightarrow> True | Some (a, _) \<Rightarrow> a \<le> t) \<and> \<not> afterEnd t s
      \<and> \<not> afterEnd (nextAfterRun lib (clk 1) s) s \<and> nextAfterRun lib (clk 1) s < t"
    by (auto simp: ShouldRun_def dates split: option.splits)
  moreover have "clk 1 \<le> soughtFrom (clk 1) s"
    by (simp add: soughtFrom_def split: option.split)
  moreover have "soughtFrom (clk 1) s < nextAfterRun lib (clk 1) s \<or> nextAfterRun lib (clk 1) s = zero_time"
    using assms by (simp add: nextAfterRun_def next_law_def)
  ultimately show ?thesis
    by blast
qed

lemmas sample_schedule_defs = sample_schedule_def NewSchedule_def sample_cron_def

definition sample_rerun :: "(nat, nat) Schedule" where
  "sample_rerun = RecordRun sample_cron (\<lambda>_. 10) True '''' sample_schedule"

lemma sample_cron_next_law: "next_law sample_cron"
  by (simp add: next_law_def sample_cron_def)

lemma due_once_per_activation_witness:
  "ShouldRun (2 * Hour) sample_rerun \<and> \<not> ShouldRun Hour sample_rerun"
  unfolding sample_rerun_def
  using due_once_per_activation[OF sample_cron_next_law, of "2 * Hour" "\<lambda>_. 10" True "''''" sample_schedule]
    due_once_per_activation[OF sample_cron_next_law, of Hour "\<lambda>_. 10" True "''''" sample_schedule]
  by (simp add: sample_schedule_defs Let_def RecordRun_def countRun_def touched_def recalculated_def
      nextAfterRun_def soughtFrom_def scheduleLocation_def afterEnd_def)

text \<open>An expression that no time satisfies, such as the thirtieth of February, makes a schedule run at
  every check: the cron library answers the zero time, which is stored as the next run and has always passed.\<close>
theorem unsatisfiable_runs_always:
  assumes "\<forall>l t. cl_Next lib (sc_cronSchedule s) l t = zero_time"
    and "sc_status s = ScheduleStatusActive" and "sc_startDate s = None" and "sc_endDate s = None"
    and "zero_time < t"
  shows "ShouldRun t (RecordRun lib clk True '''' s)"
  using assms
  by (simp add: ShouldRun_def RecordRun_def countRun_def touched_def recalculated_def calculateNextRun_def afterEnd_def Let_def)

lemma unsatisfiable_runs_always_witness:
  "ShouldRun Hour (RecordRun (sample_cron\<lparr> cl_Next := \<lambda>c l t. zero_time \<rparr>) (\<lambda>_. 10) True '''' sample_schedule)"
  by (rule unsatisfiable_runs_always) (simp_all add: sample_schedule_defs Let_def zero_time_def)

text \<open>
  An expired schedule whose end date is moved stays expired and cannot be activated; disabling it first makes
  it possible.
\<close>

lemma expired_stays:
  assumes "sc_status s = ScheduleStatusExpired" and "SetDateRange clk a b s = Inr s'"
  shows "Activate lib clk' s' = Inl CannotActivateExpired"
  using assms by (auto simp: SetDateRange_def Activate_def Let_def touched_def split: if_splits)

lemma expired_escapes:
  assumes "\<not> afterEnd (clk' 0) s"
  shows "\<exists>s'. Activate lib clk' (Disable clk s) = Inr s' \<and> sc_status s' = ScheduleStatusActive"
  using assms by (simp add: Activate_def Disable_def touched_def recalculated_def afterEnd_def)

text \<open>Moving the dates leaves the next run as it was: an active schedule without a next run stays without one.\<close>

lemma SetDateRange_next:
  "SetDateRange clk a b s = Inr s' \<Longrightarrow> sc_nextRunAt s' = sc_nextRunAt s"
  by (auto simp: SetDateRange_def Let_def touched_def split: if_splits)

text \<open>While the start date lies ahead, the expression is read in the zone of that date, not of the schedule.\<close>

lemma next_run_in_zone_of_start:
  "sc_status s = ScheduleStatusActive \<Longrightarrow> sc_startDate s = Some (a, l) \<Longrightarrow> now < a \<Longrightarrow> sc_endDate s = None \<Longrightarrow>
     calculateNextRun lib now loc s = Some (cl_Next lib (sc_cronSchedule s) l a)"
  by (simp add: calculateNextRun_def afterEnd_def)

section \<open>The scheduler\<close>

text \<open>
  The scheduler's cron entries and jobs under its mutex. A method that locks the mutex while it is held by its
  caller never returns, which is None. \<open>FindByStatus\<close> and \<open>FindDueSchedules\<close> are answers of the repository,
  \<open>publish\<close> the answer of the event publisher; \<open>Update\<close> writes the schedule to the repository.
\<close>

record ('c, 'l) Scheduler =
  sd_entries :: "(nat \<times> string) list"
  sd_jobs :: "string \<rightharpoonup> nat"
  sd_nextEntry :: nat
  sd_locked :: bool
  sd_running :: bool
  sd_cronStarted :: bool
  sd_store :: "string \<rightharpoonup> ('c, 'l) Schedule"
  sd_events :: "string list"

definition lock :: "('c, 'l) Scheduler \<Rightarrow> ('c, 'l) Scheduler option" where
  "lock s = (if sd_locked s then None else Some (s\<lparr> sd_locked := True \<rparr>))"

definition unlock :: "('c, 'l) Scheduler \<Rightarrow> ('c, 'l) Scheduler" where
  "unlock s = s\<lparr> sd_locked := False \<rparr>"

definition removeJob :: "string \<Rightarrow> ('c, 'l) Scheduler \<Rightarrow> ('c, 'l) Scheduler" where
  "removeJob sid s =
     (case sd_jobs s sid of
        Some entryID \<Rightarrow> s\<lparr> sd_entries := filter (\<lambda>e. fst e \<noteq> entryID) (sd_entries s), sd_jobs := (sd_jobs s)(sid := None) \<rparr>
      | None \<Rightarrow> s)"

definition RegisterSchedule ::
  "('c, 'l) CronLib \<Rightarrow> ('c, 'l) Schedule \<Rightarrow> ('c, 'l) Scheduler \<Rightarrow> ('c, 'l) Scheduler option" where
  "RegisterSchedule lib schedule s0 =
     (case lock s0 of
        None \<Rightarrow> None
      | Some s \<Rightarrow>
          if \<not> sd_running s then Some (unlock s)
          else
            let s1 = removeJob (sc_id schedule) s in
            if sc_status schedule \<noteq> ScheduleStatusActive then Some (unlock s1)
            else if \<not> cl_AddFunc lib (sc_cronExpression schedule) then Some (unlock s1)
            else Some (unlock (s1\<lparr> sd_entries := sd_entries s1 @ [(sd_nextEntry s1, sc_id schedule)],
              sd_jobs := (sd_jobs s1)(sc_id schedule \<mapsto> sd_nextEntry s1), sd_nextEntry := sd_nextEntry s1 + 1 \<rparr>)))"

fun registerAll ::
  "('c, 'l) CronLib \<Rightarrow> ('c, 'l) Schedule list \<Rightarrow> ('c, 'l) Scheduler \<Rightarrow> ('c, 'l) Scheduler option" where
  "registerAll lib [] s = Some s"
| "registerAll lib (schedule # schedules) s =
     (case RegisterSchedule lib schedule s of None \<Rightarrow> None | Some s1 \<Rightarrow> registerAll lib schedules s1)"

definition Scheduler_Start ::
  "('c, 'l) CronLib \<Rightarrow> (string + ('c, 'l) Schedule list) \<Rightarrow> ('c, 'l) Scheduler \<Rightarrow> (string option \<times> ('c, 'l) Scheduler) option" where
  "Scheduler_Start lib findActive s0 =
     (case lock s0 of
        None \<Rightarrow> None
      | Some s \<Rightarrow>
          if sd_running s then Some (None, unlock s)
          else (case findActive of
              Inl err \<Rightarrow> Some (Some err, unlock s)
            | Inr schedules \<Rightarrow>
                (case registerAll lib schedules s of
                   None \<Rightarrow> None
                 | Some s1 \<Rightarrow> Some (None, unlock (s1\<lparr> sd_cronStarted := True, sd_running := True \<rparr>)))))"

definition Scheduler_Stop :: "('c, 'l) Scheduler \<Rightarrow> ('c, 'l) Scheduler option" where
  "Scheduler_Stop s0 =
     (case lock s0 of
        None \<Rightarrow> None
      | Some s \<Rightarrow> if \<not> sd_running s then Some (unlock s)
          else Some (unlock (s\<lparr> sd_cronStarted := False, sd_running := False \<rparr>)))"

definition Scheduler_PauseSchedule :: "string \<Rightarrow> ('c, 'l) Scheduler \<Rightarrow> ('c, 'l) Scheduler option" where
  "Scheduler_PauseSchedule sid s0 = (case lock s0 of None \<Rightarrow> None | Some s \<Rightarrow> Some (unlock (removeJob sid s)))"

definition RemoveSchedule :: "string \<Rightarrow> ('c, 'l) Scheduler \<Rightarrow> ('c, 'l) Scheduler option" where
  "RemoveSchedule sid s0 = (case lock s0 of None \<Rightarrow> None | Some s \<Rightarrow> Some (unlock (removeJob sid s)))"

text \<open>\<open>UpdateSchedule\<close> and \<open>ResumeSchedule\<close> of the scheduler register the schedule again.\<close>

definition Scheduler_UpdateSchedule ::
  "('c, 'l) CronLib \<Rightarrow> ('c, 'l) Schedule \<Rightarrow> ('c, 'l) Scheduler \<Rightarrow> ('c, 'l) Scheduler option" where
  "Scheduler_UpdateSchedule lib schedule s = RegisterSchedule lib schedule s"

definition Scheduler_ResumeSchedule ::
  "('c, 'l) CronLib \<Rightarrow> ('c, 'l) Schedule \<Rightarrow> ('c, 'l) Scheduler \<Rightarrow> ('c, 'l) Scheduler option" where
  "Scheduler_ResumeSchedule lib schedule s = RegisterSchedule lib schedule s"

text \<open>The schedule after its execution: the error of the publisher, when there is one, is recorded.\<close>

definition executed ::
  "('c, 'l) CronLib \<Rightarrow> (string \<Rightarrow> nat \<Rightarrow> time) \<Rightarrow> (string \<Rightarrow> string option) option \<Rightarrow> ('c, 'l) Schedule \<Rightarrow> ('c, 'l) Schedule" where
  "executed lib clk publisher schedule =
     (case publisher of
        None \<Rightarrow> RecordRun lib (clk (sc_id schedule)) True '''' schedule
      | Some publish \<Rightarrow>
          (case publish (sc_id schedule) of
             Some err \<Rightarrow> RecordRun lib (clk (sc_id schedule)) False err schedule
           | None \<Rightarrow> RecordRun lib (clk (sc_id schedule)) True '''' schedule))"

definition ExecuteSchedule ::
  "('c, 'l) CronLib \<Rightarrow> (string \<Rightarrow> nat \<Rightarrow> time) \<Rightarrow> (string \<Rightarrow> string option) option \<Rightarrow> ('c, 'l) Schedule \<Rightarrow>
   ('c, 'l) Scheduler \<Rightarrow> ('c, 'l) Scheduler" where
  "ExecuteSchedule lib clk publisher schedule s =
     s\<lparr> sd_events := (case publisher of None \<Rightarrow> sd_events s
          | Some publish \<Rightarrow> if publish (sc_id schedule) = None then sd_events s @ [sc_id schedule] else sd_events s),
        sd_store := (sd_store s)(sc_id schedule \<mapsto> executed lib clk publisher schedule) \<rparr>"

fun dueLoop ::
  "('c, 'l) CronLib \<Rightarrow> (string \<Rightarrow> nat \<Rightarrow> time) \<Rightarrow> (string \<Rightarrow> string option) option \<Rightarrow> time \<Rightarrow> ('c, 'l) Schedule list \<Rightarrow>
   ('c, 'l) Scheduler \<Rightarrow> ('c, 'l) Scheduler option" where
  "dueLoop lib clk publisher now [] s = Some s"
| "dueLoop lib clk publisher now (schedule # schedules) s =
     (if ShouldRun now schedule then
        (if sd_locked s then None
         else if sd_jobs s (sc_id schedule) = None then
           (case RegisterSchedule lib schedule s of
              None \<Rightarrow> None
            | Some s1 \<Rightarrow> dueLoop lib clk publisher now schedules (ExecuteSchedule lib clk publisher schedule s1))
         else dueLoop lib clk publisher now schedules s)
      else dueLoop lib clk publisher now schedules s)"

definition checkDueSchedules ::
  "('c, 'l) CronLib \<Rightarrow> (string \<Rightarrow> nat \<Rightarrow> time) \<Rightarrow> (string \<Rightarrow> string option) option \<Rightarrow> time \<Rightarrow>
   (string + ('c, 'l) Schedule list) \<Rightarrow> ('c, 'l) Scheduler \<Rightarrow> ('c, 'l) Scheduler option" where
  "checkDueSchedules lib clk publisher now findDue s =
     (case findDue of Inl err \<Rightarrow> Some s | Inr schedules \<Rightarrow> dueLoop lib clk publisher now schedules s)"

text \<open>Starting the scheduler returns only if there is nothing to start: it loads the active schedules under
  its mutex, and registering the first of them waits for the same mutex for ever.\<close>
theorem Scheduler_Start_returns_iff:
  assumes "\<not> sd_locked s"
  shows "Scheduler_Start lib findActive s \<noteq> None \<longleftrightarrow>
    sd_running s \<or> (\<exists>err. findActive = Inl err) \<or> findActive = Inr []"
proof -
  have "registerAll lib schedules (s\<lparr> sd_locked := True \<rparr>) = None" if "schedules \<noteq> []" for schedules
    using that by (cases schedules) (simp_all add: RegisterSchedule_def lock_def)
  then show ?thesis
    using assms by (cases findActive; cases "projr findActive = []") (auto simp: Scheduler_Start_def lock_def)
qed

definition new_scheduler :: "(nat, nat) Scheduler" where
  "new_scheduler = \<lparr> sd_entries = [], sd_jobs = Map.empty, sd_nextEntry = 1, sd_locked = False, sd_running = False,
     sd_cronStarted = False, sd_store = Map.empty, sd_events = [] \<rparr>"

lemma Scheduler_Start_returns_iff_witness:
  "Scheduler_Start sample_cron (Inr [sample_schedule]) new_scheduler = None \<and>
   Scheduler_Start sample_cron (Inr []) new_scheduler \<noteq> None"
proof -
  have l: "\<not> sd_locked new_scheduler" "\<not> sd_running new_scheduler"
    by (simp_all add: new_scheduler_def)
  show ?thesis
    using Scheduler_Start_returns_iff[OF l(1), of sample_cron "Inr [sample_schedule]"]
      Scheduler_Start_returns_iff[OF l(1), of sample_cron "Inr []"] l(2) by blast
qed

text \<open>
  The scheduler's cron reads six fields, with seconds, and the aggregate accepts expressions of five fields only:
  no schedule is ever registered, and the check for due schedules runs each of them itself.
\<close>

definition noExpressionInBoth :: "('c, 'l) CronLib \<Rightarrow> bool" where
  "noExpressionInBoth lib \<longleftrightarrow> (\<forall>e. cl_Parse lib e \<noteq> None \<longrightarrow> \<not> cl_AddFunc lib e)"

lemma RegisterSchedule_never:
  assumes "noExpressionInBoth lib" and "schedule_inv lib x" and "sd_jobs s = Map.empty" and "\<not> sd_locked s"
  shows "RegisterSchedule lib x s = Some s"
  using assms by (cases s) (auto simp: RegisterSchedule_def lock_def unlock_def removeJob_def noExpressionInBoth_def schedule_inv_def Let_def)

text \<open>A check runs each due schedule once: with distinct schedules whose expressions the scheduler's cron
  does not accept, every schedule that should run is executed and stored with its run recorded, no other entry
  of the store changes, and still no job is registered.\<close>
theorem due_schedules_executed:
  assumes "noExpressionInBoth lib" and "\<forall>x \<in> set schedules. schedule_inv lib x" and "distinct (map sc_id schedules)"
    and "sd_jobs s = Map.empty" and "\<not> sd_locked s"
  shows "\<exists>s'. checkDueSchedules lib clk publisher now (Inr schedules) s = Some s' \<and> sd_jobs s' = Map.empty \<and> \<not> sd_locked s'
    \<and> sd_store s' = (\<lambda>sid. case find (\<lambda>x. sc_id x = sid) (filter (ShouldRun now) schedules) of
        Some x \<Rightarrow> Some (executed lib clk publisher x) | None \<Rightarrow> sd_store s sid)"
  using assms(2-5)
proof (induction schedules arbitrary: s)
  case (Cons x xs)
  show ?case
  proof (cases "ShouldRun now x")
    case True
    let ?s1 = "ExecuteSchedule lib clk publisher x s"
    have reg: "RegisterSchedule lib x s = Some s"
      using RegisterSchedule_never[OF assms(1)] Cons.prems by simp
    have s1: "sd_jobs ?s1 = Map.empty" "\<not> sd_locked ?s1" "sd_store ?s1 = (sd_store s)(sc_id x \<mapsto> executed lib clk publisher x)"
      using Cons.prems by (simp_all add: ExecuteSchedule_def)
    obtain s' where s': "checkDueSchedules lib clk publisher now (Inr xs) ?s1 = Some s'" "sd_jobs s' = Map.empty" "\<not> sd_locked s'"
      "sd_store s' = (\<lambda>sid. case find (\<lambda>x. sc_id x = sid) (filter (ShouldRun now) xs) of
        Some x \<Rightarrow> Some (executed lib clk publisher x) | None \<Rightarrow> sd_store ?s1 sid)"
      using Cons.IH[of ?s1] Cons.prems s1 by auto
    have "find (\<lambda>y. sc_id y = sc_id x) (filter (ShouldRun now) xs) = None"
      using Cons.prems(2) by (fastforce simp: find_None_iff image_iff)
    then show ?thesis
      using s' s1(3) reg True Cons.prems by (auto simp: checkDueSchedules_def fun_eq_iff split: option.split)
  next
    case False
    then show ?thesis
      using Cons by (simp add: checkDueSchedules_def)
  qed
qed (simp add: checkDueSchedules_def)

lemma due_schedules_executed_witness:
  "\<exists>s'. checkDueSchedules sample_cron (\<lambda>_ _. 2 * Hour) None (2 * Hour) (Inr [sample_schedule]) new_scheduler = Some s'
    \<and> sd_jobs s' = Map.empty \<and> \<not> sd_locked s'
    \<and> sd_store s' = (\<lambda>sid. case find (\<lambda>x. sc_id x = sid) (filter (ShouldRun (2 * Hour)) [sample_schedule]) of
        Some x \<Rightarrow> Some (executed sample_cron (\<lambda>_ _. 2 * Hour) None x) | None \<Rightarrow> sd_store new_scheduler sid)"
  by (rule due_schedules_executed)
    (use NewSchedule_inv[OF sample_schedule_eq] in \<open>simp_all add: new_scheduler_def noExpressionInBoth_def sample_cron_def\<close>)

end
