(* ===== verification/Folders.thy ===== *)
theory Folders
  imports Prelude "HOL-Library.List_Lexorder" "HOL-Library.Char_ord"
begin

text \<open>
  Folders of workflows (\<open>internal/workflow/features/folders.go\<close>): the service over the in-memory
  repository, a map from identifiers to folders. The loop of \<open>MoveFolder\<close> up the parents may run for ever and is a
  partial function; the recursion of \<open>DeleteFolder\<close> has fuel. Where the code ranges over the
  map, \<open>order\<close> lists its keys. Each reading of the clock and each new identifier is an argument.
\<close>

record Folder =
  fo_ID :: string
  fo_Name :: string
  fo_Description :: string
  fo_ParentID :: "string option"
  fo_UserID :: string
  fo_WorkspaceID :: string
  fo_Color :: string
  fo_Icon :: string
  fo_Order :: int
  fo_Path :: string
  fo_Depth :: int
  fo_CreatedAt :: time
  fo_UpdatedAt :: time

type_synonym folders = "string \<rightharpoonup> Folder"

datatype folder_error =
    FolderNotFound
  | ParentNotFound
  | MaxDepthExceeded int
  | HasSubfolders
  | MoveIntoOwnChild

section \<open>The in-memory repository\<close>

definition Folder_Create :: "Folder \<Rightarrow> folders \<Rightarrow> folders" where
  "Folder_Create folder r = r(fo_ID folder \<mapsto> folder)"

definition FindByID :: "string \<Rightarrow> folders \<Rightarrow> folder_error + Folder" where
  "FindByID fid r = (case r fid of None \<Rightarrow> Inl FolderNotFound | Some f \<Rightarrow> Inr f)"

definition Folder_Update :: "Folder \<Rightarrow> folders \<Rightarrow> folders" where
  "Folder_Update folder r = r(fo_ID folder \<mapsto> folder)"

definition Folder_Delete :: "string \<Rightarrow> folders \<Rightarrow> folders" where
  "Folder_Delete fid r = r(fid := None)"

definition listWhere :: "(Folder \<Rightarrow> bool) \<Rightarrow> string list \<Rightarrow> folders \<Rightarrow> Folder list" where
  "listWhere P order r = filter P (List.map_filter r order)"

definition ListByWorkspace :: "string list \<Rightarrow> string \<Rightarrow> folders \<Rightarrow> Folder list" where
  "ListByWorkspace order workspaceID r = listWhere (\<lambda>f. fo_WorkspaceID f = workspaceID) order r"

definition ListByParent :: "string list \<Rightarrow> string \<Rightarrow> folders \<Rightarrow> Folder list" where
  "ListByParent order parentID r = listWhere (\<lambda>f. fo_ParentID f = Some parentID) order r"

definition ListRoot :: "string list \<Rightarrow> string \<Rightarrow> folders \<Rightarrow> Folder list" where
  "ListRoot order workspaceID r = listWhere (\<lambda>f. fo_WorkspaceID f = workspaceID \<and> fo_ParentID f = None) order r"

definition Folder_Move :: "string \<Rightarrow> string option \<Rightarrow> folders \<Rightarrow> folder_error + folders" where
  "Folder_Move folderID newParentID r =
     (case r folderID of
        None \<Rightarrow> Inl FolderNotFound
      | Some folder \<Rightarrow> Inr (r(folderID \<mapsto> folder\<lparr> fo_ParentID := newParentID \<rparr>)))"

section \<open>The service\<close>

definition maxDepth :: int where
  "maxDepth = 10"

text \<open>The path and the depth of a folder below a parent, or of a root folder.\<close>

definition below :: "Folder option \<Rightarrow> Folder \<Rightarrow> string \<times> int" where
  "below parent folder =
     (case parent of
        Some p \<Rightarrow> (fo_Path p @ ''/'' @ fo_Name folder, fo_Depth p + 1)
      | None \<Rightarrow> (''/'' @ fo_Name folder, 0))"

definition CreateFolder :: "(nat \<Rightarrow> time) \<Rightarrow> string \<Rightarrow> Folder \<Rightarrow> folders \<Rightarrow> folder_error + folders" where
  "CreateFolder clk newID folder0 r =
     (let folder = folder0\<lparr> fo_ID := (if fo_ID folder0 = '''' then newID else fo_ID folder0),
            fo_CreatedAt := clk 0, fo_UpdatedAt := clk 1 \<rparr>
      in case fo_ParentID folder of
           Some parentID \<Rightarrow>
             (case FindByID parentID r of
                Inl _ \<Rightarrow> Inl ParentNotFound
              | Inr parent \<Rightarrow>
                  let f = folder\<lparr> fo_Path := fst (below (Some parent) folder), fo_Depth := snd (below (Some parent) folder) \<rparr>
                  in if fo_Depth f > maxDepth then Inl (MaxDepthExceeded maxDepth) else Inr (Folder_Create f r))
         | None \<Rightarrow> Inr (Folder_Create (folder\<lparr> fo_Path := fst (below None folder), fo_Depth := 0 \<rparr>) r))"

definition UpdateFolder :: "time \<Rightarrow> Folder \<Rightarrow> folders \<Rightarrow> folder_error + folders" where
  "UpdateFolder now folder0 r =
     (let folder = folder0\<lparr> fo_UpdatedAt := now \<rparr>
      in case fo_ParentID folder of
           Some parentID \<Rightarrow>
             (case FindByID parentID r of
                Inl err \<Rightarrow> Inl err
              | Inr parent \<Rightarrow> Inr (Folder_Update (folder\<lparr> fo_Path := fst (below (Some parent) folder) \<rparr>) r))
         | None \<Rightarrow> Inr (Folder_Update (folder\<lparr> fo_Path := fst (below None folder) \<rparr>) r))"

text \<open>
  \<open>DeleteFolder\<close> with fuel: None when it runs out. The loop over the children works on the list that was read before it.
\<close>

fun DeleteFolder :: "nat \<Rightarrow> (string \<Rightarrow> folders \<Rightarrow> string list) \<Rightarrow> string \<Rightarrow> bool \<Rightarrow> folders \<Rightarrow> (folder_error + folders) option"
  and deleteChildren :: "nat \<Rightarrow> (string \<Rightarrow> folders \<Rightarrow> string list) \<Rightarrow> Folder list \<Rightarrow> folders \<Rightarrow> (folder_error + folders) option" where
  "DeleteFolder 0 order fid recursive r = None"
| "DeleteFolder (Suc fuel) order fid recursive r =
     (let children = ListByParent (order fid r) fid r in
      if recursive then
        (case deleteChildren fuel order children r of
           None \<Rightarrow> None
         | Some (Inl err) \<Rightarrow> Some (Inl err)
         | Some (Inr r1) \<Rightarrow> Some (Inr (Folder_Delete fid r1)))
      else if length children > 0 then Some (Inl HasSubfolders)
      else Some (Inr (Folder_Delete fid r)))"
| "deleteChildren fuel order [] r = Some (Inr r)"
| "deleteChildren fuel order (child # children) r =
     (case DeleteFolder fuel order (fo_ID child) True r of
        None \<Rightarrow> None
      | Some (Inl err) \<Rightarrow> Some (Inl err)
      | Some (Inr r1) \<Rightarrow> deleteChildren fuel order children r1)"

text \<open>The loop of \<open>MoveFolder\<close> up from the new parent: does it meet the folder that is moved?\<close>

partial_function (option) ownChild :: "folders \<Rightarrow> string \<Rightarrow> string option \<Rightarrow> bool option" where
  "ownChild r folderID current =
     (case current of
        None \<Rightarrow> Some False
      | Some c \<Rightarrow>
          if c = folderID then Some True
          else (case r c of
                  None \<Rightarrow> Some False
                | Some parent \<Rightarrow> ownChild r folderID (fo_ParentID parent)))"

definition MoveFolder :: "time \<Rightarrow> string \<Rightarrow> string option \<Rightarrow> folders \<Rightarrow> (folder_error + folders) option" where
  "MoveFolder now folderID newParentID r =
     (case FindByID folderID r of
        Inl err \<Rightarrow> Some (Inl err)
      | Inr folder \<Rightarrow>
          (case ownChild r folderID newParentID of
             None \<Rightarrow> None
           | Some True \<Rightarrow> Some (Inl MoveIntoOwnChild)
           | Some False \<Rightarrow>
               (case newParentID of
                  Some p \<Rightarrow>
                    (case FindByID p r of
                       Inl _ \<Rightarrow> Some (Inl ParentNotFound)
                     | Inr parent \<Rightarrow> Some (Inr (Folder_Update (folder\<lparr> fo_ParentID := newParentID,
                         fo_Path := fst (below (Some parent) folder), fo_Depth := snd (below (Some parent) folder),
                         fo_UpdatedAt := now \<rparr>) r)))
                | None \<Rightarrow> Some (Inr (Folder_Update (folder\<lparr> fo_ParentID := None,
                    fo_Path := fst (below None folder), fo_Depth := 0, fo_UpdatedAt := now \<rparr>) r)))))"

text \<open>
  \<open>buildTree\<close>: the nodes of the tree share their children lists through pointers, so the tree is the list of
  root nodes and, for each identifier, the list of its children.
\<close>

record FolderTree =
  ft_root :: "string list"
  ft_children :: "string \<Rightarrow> string list"

fun buildLoop :: "(string \<rightharpoonup> Folder) \<Rightarrow> Folder list \<Rightarrow> FolderTree \<Rightarrow> FolderTree" where
  "buildLoop folderMap [] t = t"
| "buildLoop folderMap (f # fs) t =
     buildLoop folderMap fs
       (case fo_ParentID f of
          None \<Rightarrow> t\<lparr> ft_root := ft_root t @ [fo_ID f] \<rparr>
        | Some p \<Rightarrow> if folderMap p \<noteq> None
            then t\<lparr> ft_children := (ft_children t)(p := ft_children t p @ [fo_ID f]) \<rparr> else t)"

definition buildTree :: "Folder list \<Rightarrow> FolderTree" where
  "buildTree fs = buildLoop (map_of (map (\<lambda>f. (fo_ID f, f)) (rev fs))) fs \<lparr> ft_root = [], ft_children = (\<lambda>_. []) \<rparr>"

definition GetFolderTree :: "string list \<Rightarrow> string \<Rightarrow> folders \<Rightarrow> FolderTree" where
  "GetFolderTree order workspaceID r = buildTree (ListByWorkspace order workspaceID r)"

section \<open>The hierarchy\<close>

definition parentOf :: "folders \<Rightarrow> (string \<times> string) set" where
  "parentOf r = {(c, p). \<exists>f. r c = Some f \<and> fo_ParentID f = Some p}"

definition folders_ok :: "folders \<Rightarrow> bool" where
  "folders_ok r \<longleftrightarrow> finite (dom r) \<and> (\<forall>fid f. r fid = Some f \<longrightarrow> fo_ID f = fid) \<and> acyclic (parentOf r)
     \<and> (\<forall>(c, p) \<in> parentOf r. r p \<noteq> None)"

lemma parentOf_step: "r c = Some f \<Longrightarrow> (c, p) \<in> parentOf r \<longleftrightarrow> fo_ParentID f = Some p"
  by (simp add: parentOf_def)

lemma parentOf_None: "r c = None \<Longrightarrow> (c, p) \<notin> parentOf r"
  by (simp add: parentOf_def)

lemma chain_from_missing: "r c = None \<Longrightarrow> (c, x) \<in> (parentOf r)\<^sup>* \<longleftrightarrow> c = x"
  by (metis converse_rtranclE parentOf_None rtrancl.rtrancl_refl)

lemma chain_to_missing: "folders_ok r \<Longrightarrow> r x = None \<Longrightarrow> (c, x) \<in> (parentOf r)\<^sup>* \<longleftrightarrow> c = x"
  by (rule iffI, erule rtranclE) (auto simp: folders_ok_def)

lemma finite_parentOf: "finite (dom r) \<Longrightarrow> finite (parentOf r)"
proof (rule finite_subset)
  show "parentOf r \<subseteq> (\<lambda>c. (c, the (fo_ParentID (the (r c))))) ` dom r"
    by (force simp: parentOf_def image_iff)
qed simp

lemma folders_ok_wf:
  assumes "folders_ok r"
  shows "wf (parentOf r)" and "wf ((parentOf r)\<inverse>)"
  using assms finite_parentOf by (auto simp: folders_ok_def intro: finite_acyclic_wf finite_acyclic_wf_converse)

text \<open>The loop of \<open>MoveFolder\<close> returns on every hierarchy without cycles, and finds the folder exactly among the
  new parent and its ancestors.\<close>

lemma ownChild_result:
  assumes "folders_ok r"
  shows "ownChild r fid (Some c) = Some ((c, fid) \<in> (parentOf r)\<^sup>*)"
  using folders_ok_wf(2)[OF assms]
proof (induction c rule: wf_induct_rule)
  case (less c)
  show ?case
  proof (cases "c = fid \<or> r c = None")
    case True
    then show ?thesis
      by (subst ownChild.simps) (auto simp: chain_from_missing)
  next
    case False
    then obtain f where f: "r c = Some f" "c \<noteq> fid"
      by auto
    have "(c, fid) \<in> (parentOf r)\<^sup>* \<longleftrightarrow> (\<exists>p. fo_ParentID f = Some p \<and> (p, fid) \<in> (parentOf r)\<^sup>*)"
      using f parentOf_step[of r c f] by (metis converse_rtranclE converse_rtrancl_into_rtrancl)
    moreover have "ownChild r fid (Some p) = Some ((p, fid) \<in> (parentOf r)\<^sup>*)" if "fo_ParentID f = Some p" for p
      using less[of p] that f(1) by (simp add: parentOf_def)
    ultimately show ?thesis
      using f by (subst ownChild.simps) (cases "fo_ParentID f"; simp add: ownChild.simps[of r fid None])
  qed
qed

lemma ownChild_None [simp]: "ownChild r fid None = Some False"
  by (simp add: ownChild.simps)

lemma parentOf_update:
  "parentOf (Folder_Update f r) = {e \<in> parentOf r. fst e \<noteq> fo_ID f} \<union> (\<lambda>p. (fo_ID f, p)) ` set_option (fo_ParentID f)"
  by (force simp: parentOf_def Folder_Update_def split: if_splits)

text \<open>Writing a folder keeps the hierarchy in order if its parent is not the folder or one below it.\<close>

lemma Folder_Update_ok:
  assumes "folders_ok r" and "\<forall>p \<in> set_option (fo_ParentID f). (p, fo_ID f) \<notin> (parentOf r)\<^sup>* \<and> r p \<noteq> None"
  shows "folders_ok (Folder_Update f r)"
proof -
  have "acyclic (parentOf r \<union> (\<lambda>p. (fo_ID f, p)) ` set_option (fo_ParentID f))"
    using assms by (cases "fo_ParentID f") (auto simp: folders_ok_def acyclic_insert)
  then have "acyclic (parentOf (Folder_Update f r))"
    by (rule acyclic_subset) (auto simp: parentOf_update)
  moreover have "\<forall>(c, p) \<in> parentOf (Folder_Update f r). Folder_Update f r p \<noteq> None"
    using assms by (auto simp: parentOf_update folders_ok_def) (auto simp: Folder_Update_def)
  ultimately show ?thesis
    using assms(1) by (auto simp: folders_ok_def Folder_Update_def)
qed

text \<open>C22: On a hierarchy without cycles moving a folder always returns; it is refused as a move into its own child
  exactly when the new parent is the folder itself or lies below it, and an accepted move leaves a hierarchy
  without cycles, in which the folder has the new parent, and changes no other folder.\<close>
theorem MoveFolder_acyclic:
  assumes "folders_ok r" and "r folderID = Some f"
  shows "\<exists>res. MoveFolder now folderID newParentID r = Some res
    \<and> (res = Inl MoveIntoOwnChild \<longleftrightarrow> (\<exists>p. newParentID = Some p \<and> (p, folderID) \<in> (parentOf r)\<^sup>*))
    \<and> (\<forall>r'. res = Inr r' \<longrightarrow> folders_ok r' \<and> map_option fo_ParentID (r' folderID) = Some newParentID
         \<and> (\<forall>x. x \<noteq> folderID \<longrightarrow> r' x = r x))"
proof -
  have fid: "fo_ID f = folderID"
    using assms by (simp add: folders_ok_def)
  show ?thesis
  proof (cases newParentID)
    case None
    have "folders_ok (Folder_Update (f\<lparr> fo_ParentID := None, fo_Path := p, fo_Depth := 0, fo_UpdatedAt := now \<rparr>) r)" for p
      by (rule Folder_Update_ok[OF assms(1)]) simp
    then show ?thesis
      using assms(2) fid None by (simp add: MoveFolder_def FindByID_def Folder_Update_def)
  next
    case (Some p)
    show ?thesis
    proof (cases "(p, folderID) \<in> (parentOf r)\<^sup>* \<or> r p = None")
      case True
      then show ?thesis
        using assms(2) Some ownChild_result[OF assms(1), of folderID p]
        by (cases "(p, folderID) \<in> (parentOf r)\<^sup>*") (simp_all add: MoveFolder_def FindByID_def)
    next
      case False
      have "folders_ok (Folder_Update (f\<lparr> fo_ParentID := Some p, fo_Path := path, fo_Depth := d, fo_UpdatedAt := now \<rparr>) r)" for path d
        by (rule Folder_Update_ok[OF assms(1)]) (use False fid in simp)
      then show ?thesis
        using False assms(2) Some fid ownChild_result[OF assms(1), of folderID p]
        by (auto simp: MoveFolder_def FindByID_def Folder_Update_def)
    qed
  qed
qed

text \<open>Creating a folder under a new identifier keeps the hierarchy in order, and so does deleting one.\<close>

lemma CreateFolder_ok:
  assumes "folders_ok r" and "CreateFolder clk newID f r = Inr r'"
    and "r (if fo_ID f = '''' then newID else fo_ID f) = None"
    and "fo_ParentID f \<noteq> Some (if fo_ID f = '''' then newID else fo_ID f)"
  shows "folders_ok r'"
proof -
  obtain g where g: "r' = Folder_Update g r" "fo_ID g = (if fo_ID f = '''' then newID else fo_ID f)" "fo_ParentID g = fo_ParentID f"
  proof -
    let ?f = "f\<lparr> fo_ID := (if fo_ID f = '''' then newID else fo_ID f), fo_CreatedAt := clk 0, fo_UpdatedAt := clk 1 \<rparr>"
    have "\<exists>path d. r' = Folder_Update (?f\<lparr> fo_Path := path, fo_Depth := d \<rparr>) r"
      using assms(2) unfolding CreateFolder_def Let_def
      by (auto simp: Folder_Create_def Folder_Update_def split: option.splits sum.splits if_splits)
    then show ?thesis
      using that by fastforce
  qed
  have "(p, x) \<notin> (parentOf r)\<^sup>*" if "r x = None" "p \<noteq> x" for p x
    using that chain_to_missing[OF assms(1)] by simp
  moreover have "r p \<noteq> None" if "fo_ParentID f = Some p" for p
    using assms(2) that by (auto simp: CreateFolder_def Let_def FindByID_def split: option.splits)
  ultimately show ?thesis
    unfolding g(1) using assms(3,4) by (intro Folder_Update_ok[OF assms(1)]) (auto simp: g)
qed

definition sample_folder :: "string \<Rightarrow> string option \<Rightarrow> string \<Rightarrow> int \<Rightarrow> Folder" where
  "sample_folder fid parent path depth = \<lparr> fo_ID = fid, fo_Name = fid, fo_Description = '''', fo_ParentID = parent,
     fo_UserID = ''u'', fo_WorkspaceID = ''w'', fo_Color = '''', fo_Icon = '''', fo_Order = 0, fo_Path = path,
     fo_Depth = depth, fo_CreatedAt = 0, fo_UpdatedAt = 0 \<rparr>"

definition sample_folders :: folders where
  "sample_folders = [''a'' \<mapsto> sample_folder ''a'' None ''/a'' 0, ''b'' \<mapsto> sample_folder ''b'' (Some ''a'') ''/a/b'' 1,
     ''c'' \<mapsto> sample_folder ''c'' None ''/c'' 0]"

lemma sample_folders_ok: "folders_ok sample_folders"
proof -
  have "parentOf sample_folders = {(''b'', ''a'')}"
    by (auto simp: parentOf_def sample_folders_def sample_folder_def split: if_splits)
  then show ?thesis
    by (auto simp: folders_ok_def sample_folders_def sample_folder_def acyclic_def split: if_splits elim: tranclE)
qed

lemma MoveFolder_acyclic_witness:
  "\<exists>res. MoveFolder 1 ''a'' (Some ''c'') sample_folders = Some res
    \<and> (res = Inl MoveIntoOwnChild \<longleftrightarrow> (\<exists>p. Some ''c'' = Some p \<and> (p, ''a'') \<in> (parentOf sample_folders)\<^sup>*))
    \<and> (\<forall>r'. res = Inr r' \<longrightarrow> folders_ok r' \<and> map_option fo_ParentID (r' ''a'') = Some (Some ''c'')
         \<and> (\<forall>x. x \<noteq> ''a'' \<longrightarrow> r' x = sample_folders x))"
  by (rule MoveFolder_acyclic[OF sample_folders_ok]) (simp add: sample_folders_def)

section \<open>A cycle made by an update\<close>

text \<open>Between two folders that are the parent of one another the loop never ends.\<close>

lemma ownChild_cycle:
  assumes "ownChild r fid current = Some res" and "current = Some a \<or> current = Some b"
    and "r a = Some fa" and "fo_ParentID fa = Some b" and "r b = Some fb" and "fo_ParentID fb = Some a"
    and "fid \<noteq> a" and "fid \<noteq> b"
  shows False
  using assms
proof (induction rule: ownChild.raw_induct[rotated, consumes 1])
  case (1 go r fid current res)
  then show ?case
    by (auto split: option.splits if_splits) blast+
qed

text \<open>Updating a folder writes the parent it is given without looking for a cycle: a folder can be put below
  its own child, and from then on moving any other folder below one of the two never returns.\<close>
theorem UpdateFolder_cycle_hangs:
  assumes "r b = Some fb" and "fo_ParentID fb = Some (fo_ID fa)" and "fo_ParentID fa = Some b"
    and "fo_ID fa \<noteq> b" and "folderID \<notin> {fo_ID fa, b}" and "r folderID = Some f"
  shows "\<exists>r'. UpdateFolder now fa r = Inr r' \<and> \<not> acyclic (parentOf r') \<and> MoveFolder now' folderID (Some b) r' = None"
proof -
  define r' where "r' = projr (UpdateFolder now fa r)"
  have upd: "UpdateFolder now fa r = Inr r'"
    using assms(1,3) by (simp add: r'_def UpdateFolder_def FindByID_def Let_def)
  obtain fa' where fa': "r' (fo_ID fa) = Some fa'" "fo_ParentID fa' = Some b" and fb: "r' b = Some fb" and f: "r' folderID = Some f"
    using assms by (simp add: r'_def UpdateFolder_def FindByID_def Folder_Update_def Let_def)
  have "(b, fo_ID fa) \<in> parentOf r'" "(fo_ID fa, b) \<in> parentOf r'"
    using fa' fb assms(2) by (simp_all add: parentOf_def)
  then have "\<not> acyclic (parentOf r')"
    unfolding acyclic_def by (meson trancl.simps)
  moreover have "ownChild r' folderID (Some b) = None"
    using ownChild_cycle[of r' folderID "Some b" _ "fo_ID fa" b fa' fb] fa' fb assms(2,5)
    by (cases "ownChild r' folderID (Some b)") auto
  ultimately show ?thesis
    using upd f by (simp add: MoveFolder_def FindByID_def)
qed

lemma UpdateFolder_cycle_hangs_witness:
  "\<exists>r'. UpdateFolder 1 (sample_folder ''a'' (Some ''b'') ''/a'' 0) sample_folders = Inr r' \<and> \<not> acyclic (parentOf r')
    \<and> MoveFolder 2 ''c'' (Some ''b'') r' = None"
  by (rule UpdateFolder_cycle_hangs[where fb = "sample_folder ''b'' (Some ''a'') ''/a/b'' 1" and f = "sample_folder ''c'' None ''/c'' 0"])
    (simp_all add: sample_folders_def sample_folder_def)

section \<open>Paths and depths\<close>

text \<open>The path and depth of every folder are those of its parent, one step further.\<close>

definition placed :: "folders \<Rightarrow> Folder \<Rightarrow> bool" where
  "placed r f \<longleftrightarrow> (fo_Path f, fo_Depth f) = below (case fo_ParentID f of None \<Rightarrow> None | Some p \<Rightarrow> r p) f"

definition paths_ok :: "folders \<Rightarrow> bool" where
  "paths_ok r \<longleftrightarrow> (\<forall>fid f. r fid = Some f \<longrightarrow> placed r f)"

text \<open>Moving a folder gives it the path and the depth of its new place but leaves those of the folders below
  it: the paths and depths stay consistent exactly if the folder has no subfolders, or path and depth are as before.\<close>
theorem MoveFolder_paths:
  assumes "folders_ok r" and "paths_ok r" and "r folderID = Some f"
    and "MoveFolder now folderID newParentID r = Some (Inr r')"
  shows "\<exists>f'. r' folderID = Some f' \<and> placed r' f'
    \<and> (paths_ok r' \<longleftrightarrow> (\<forall>c. (c, folderID) \<notin> parentOf r') \<or> fo_Path f' = fo_Path f \<and> fo_Depth f' = fo_Depth f)"
proof -
  have fid: "fo_ID f = folderID"
    using assms(1,3) by (simp add: folders_ok_def)
  obtain f' where f': "r' = r(folderID \<mapsto> f')" "fo_ParentID f' = newParentID" "fo_Name f' = fo_Name f"
    "(fo_Path f', fo_Depth f') = below (case newParentID of None \<Rightarrow> None | Some p \<Rightarrow> r p) f"
    using assms(3,4) fid unfolding MoveFolder_def FindByID_def Folder_Update_def
    by (cases newParentID) (auto split: option.splits bool.splits sum.splits simp: below_def)
  have np: "newParentID \<noteq> Some folderID"
    using assms(4) by (auto simp: MoveFolder_def ownChild.simps split: sum.splits option.splits bool.splits)
  have new: "below (case newParentID of None \<Rightarrow> None | Some p \<Rightarrow> r' p) f' = (fo_Path f', fo_Depth f')"
  proof (cases newParentID)
    case (Some p)
    then show ?thesis
      using f' np by (simp add: below_def split: option.splits)
  qed (use f' in \<open>simp add: below_def\<close>)
  then have placed': "placed r' f'"
    by (simp add: placed_def f'(2))
  have others: "placed r' g \<longleftrightarrow> fo_ParentID g \<noteq> Some folderID \<or> fo_Path f' = fo_Path f \<and> fo_Depth f' = fo_Depth f"
    if "r x = Some g" for x g
  proof (cases "fo_ParentID g = Some folderID")
    case True
    then show ?thesis
      using assms(2,3) that f'(1) by (auto simp: placed_def paths_ok_def below_def)
  next
    case False
    then have "placed r' g = placed r g"
      using f'(1) by (simp add: placed_def split: option.split)
    then show ?thesis
      using False assms(2) that by (simp add: paths_ok_def)
  qed
  have "paths_ok r' \<longleftrightarrow> (\<forall>x g. x \<noteq> folderID \<and> r x = Some g \<longrightarrow> placed r' g)"
    using placed' f'(1) by (auto simp: paths_ok_def)
  also have "\<dots> \<longleftrightarrow> (\<forall>x g. x \<noteq> folderID \<and> r x = Some g \<longrightarrow> fo_ParentID g \<noteq> Some folderID) \<or>
      fo_Path f' = fo_Path f \<and> fo_Depth f' = fo_Depth f"
    using others by blast
  also have "(\<forall>x g. x \<noteq> folderID \<and> r x = Some g \<longrightarrow> fo_ParentID g \<noteq> Some folderID) \<longleftrightarrow> (\<forall>c. (c, folderID) \<notin> parentOf r')"
    using f'(1,2) np by (auto simp: parentOf_def)
  finally have "paths_ok r' \<longleftrightarrow> (\<forall>c. (c, folderID) \<notin> parentOf r') \<or> fo_Path f' = fo_Path f \<and> fo_Depth f' = fo_Depth f" .
  moreover have "r' folderID = Some f'"
    by (simp add: f'(1))
  ultimately show ?thesis
    using placed' by blast
qed

lemma MoveFolder_paths_witness:
  "\<exists>r' f'. MoveFolder 1 ''a'' (Some ''c'') sample_folders = Some (Inr r') \<and> r' ''a'' = Some f' \<and> placed r' f' \<and> \<not> paths_ok r'"
proof -
  have a: "sample_folders ''a'' = Some (sample_folder ''a'' None ''/a'' 0)" and c: "sample_folders ''c'' = Some (sample_folder ''c'' None ''/c'' 0)"
    and b: "sample_folders ''b'' = Some (sample_folder ''b'' (Some ''a'') ''/a/b'' 1)"
    by (simp_all add: sample_folders_def)
  have ok: "paths_ok sample_folders"
    by (auto simp: paths_ok_def placed_def below_def sample_folders_def sample_folder_def split: if_splits)
  obtain r' where r': "MoveFolder 1 ''a'' (Some ''c'') sample_folders = Some (Inr r')"
      "r' ''a'' = Some ((sample_folder ''a'' (Some ''c'') ''/c/a'' 1)\<lparr> fo_UpdatedAt := 1 \<rparr>)" "r' ''b'' = sample_folders ''b''"
    using a c by (simp add: MoveFolder_def FindByID_def ownChild.simps Folder_Update_def below_def sample_folder_def)
  have "(''b'', ''a'') \<in> parentOf r'"
    using r'(3) b by (simp add: parentOf_def sample_folder_def)
  then have "\<not> paths_ok r'"
    using MoveFolder_paths[OF sample_folders_ok ok a r'(1)] r'(2) by (auto simp: sample_folder_def)
  then show ?thesis
    using MoveFolder_paths[OF sample_folders_ok ok a r'(1)] r'(1) by blast
qed

section \<open>Deleting a folder with its contents\<close>

definition subtree :: "folders \<Rightarrow> string \<Rightarrow> string set" where
  "subtree r fid = {x. (x, fid) \<in> (parentOf r)\<^sup>*}"

definition downClosed :: "folders \<Rightarrow> string set \<Rightarrow> bool" where
  "downClosed r X \<longleftrightarrow> (\<forall>(c, p) \<in> parentOf r. p \<in> X \<longrightarrow> c \<in> X)"

lemma subtree_children: "subtree r fid = insert fid (\<Union>c \<in> {c. (c, fid) \<in> parentOf r}. subtree r c)"
  by (auto simp: subtree_def elim: rtranclE intro: rtrancl_into_rtrancl)

lemma downClosed_subtree: "downClosed r (subtree r fid)"
  by (auto simp: downClosed_def subtree_def intro: converse_rtrancl_into_rtrancl)

lemma downClosed_Un: "downClosed r X \<Longrightarrow> downClosed r Y \<Longrightarrow> downClosed r (X \<union> Y)"
  by (auto simp: downClosed_def)

lemma downClosed_empty: "downClosed r {}"
  by (auto simp: downClosed_def)

lemma restrict_map_UNIV: "m |` UNIV = m"
  by (simp add: restrict_map_def)

lemma downClosed_contains:
  assumes "downClosed r X" and "c \<in> X" shows "subtree r c \<subseteq> X"
proof
  fix x
  assume "x \<in> subtree r c"
  then have "(x, c) \<in> (parentOf r)\<^sup>*"
    by (simp add: subtree_def)
  then show "x \<in> X"
    using assms by (induction rule: converse_rtrancl_induct) (auto simp: downClosed_def)
qed

text \<open>The keys in the order of the loop over the map.\<close>

definition lists_all :: "(string \<Rightarrow> folders \<Rightarrow> string list) \<Rightarrow> bool" where
  "lists_all order \<longleftrightarrow> (\<forall>fid r. finite (dom r) \<longrightarrow> set (order fid r) = dom r)"

lemma children_ids:
  assumes "folders_ok r0" and "lists_all order" and "r = r0 |` (- X)"
  shows "fo_ID ` set (ListByParent (order fid r) fid r) = {c. (c, fid) \<in> parentOf r0} - X"
proof -
  have "finite (dom r)"
    using assms(1,3) by (simp add: folders_ok_def)
  then have "set (ListByParent (order fid r) fid r) = {f. \<exists>c. r c = Some f \<and> fo_ParentID f = Some fid}"
    using assms(2) by (auto simp: ListByParent_def listWhere_def lists_all_def List.map_filter_def image_iff dom_def)
  then show ?thesis
    using assms(1,3) by (auto simp: parentOf_def folders_ok_def restrict_map_def image_iff split: if_splits)
qed

definition deletes :: "(string \<Rightarrow> folders \<Rightarrow> string list) \<Rightarrow> folders \<Rightarrow> string \<Rightarrow> nat \<Rightarrow> bool" where
  "deletes order r0 fid N \<longleftrightarrow> (\<forall>fuel X. N \<le> fuel \<longrightarrow> downClosed r0 X \<longrightarrow>
     DeleteFolder fuel order fid True (r0 |` (- X)) = Some (Inr (r0 |` (- (X \<union> subtree r0 fid)))))"

lemma deleteChildren_deletes:
  assumes "\<forall>c \<in> set cs. deletes order r0 (fo_ID c) N" and "N \<le> fuel" and "downClosed r0 X"
  shows "deleteChildren fuel order cs (r0 |` (- X)) = Some (Inr (r0 |` (- (X \<union> (\<Union>c \<in> set cs. subtree r0 (fo_ID c))))))"
  using assms
proof (induction cs arbitrary: X)
  case (Cons c cs)
  have "DeleteFolder fuel order (fo_ID c) True (r0 |` (- X)) = Some (Inr (r0 |` (- (X \<union> subtree r0 (fo_ID c)))))"
    using Cons.prems by (simp add: deletes_def)
  moreover have "downClosed r0 (X \<union> subtree r0 (fo_ID c))"
    using Cons.prems(3) downClosed_subtree by (rule downClosed_Un)
  ultimately show ?case
    using Cons.IH[of "X \<union> subtree r0 (fo_ID c)"] Cons.prems by (simp add: Un_assoc)
qed simp

lemma deletes_all:
  assumes "folders_ok r0" and "lists_all order"
  shows "\<exists>N. deletes order r0 fid N"
  using folders_ok_wf(1)[OF assms(1)]
proof (induction fid rule: wf_induct_rule)
  case (less fid)
  let ?children = "{c. (c, fid) \<in> parentOf r0}"
  obtain N where N: "\<forall>c \<in> ?children. deletes order r0 c (N c)"
    using less by (metis mem_Collect_eq)
  have fin: "finite ?children"
  proof (rule finite_subset)
    show "?children \<subseteq> fst ` parentOf r0"
      by force
  qed (use finite_parentOf[of r0] assms(1) in \<open>simp add: folders_ok_def\<close>)
  define M where "M = Max (insert 0 (N ` ?children))"
  have M: "deletes order r0 c M" if "c \<in> ?children" for c
  proof -
    have "N c \<le> M"
      using fin that by (auto simp: M_def)
    then show ?thesis
      using N that by (auto simp: deletes_def)
  qed
  have "deletes order r0 fid (Suc M)"
    unfolding deletes_def
  proof (intro allI impI)
    fix fuel X
    assume fuel: "Suc M \<le> fuel" and X: "downClosed r0 X"
    obtain fuel' where fuel': "fuel = Suc fuel'" "M \<le> fuel'"
      using fuel by (cases fuel) auto
    let ?r = "r0 |` (- X)"
    let ?cs = "ListByParent (order fid ?r) fid ?r"
    have ids: "fo_ID ` set ?cs = ?children - X"
      by (rule children_ids[OF assms refl])
    then have "\<forall>c \<in> set ?cs. deletes order r0 (fo_ID c) M"
      using M by blast
    then have "deleteChildren fuel' order ?cs ?r = Some (Inr (r0 |` (- (X \<union> (\<Union>c \<in> set ?cs. subtree r0 (fo_ID c))))))"
      by (rule deleteChildren_deletes[OF _ fuel'(2) X])
    moreover have "X \<union> (\<Union>c \<in> set ?cs. subtree r0 (fo_ID c)) \<union> {fid} = X \<union> subtree r0 fid"
    proof -
      have "(\<Union>c \<in> set ?cs. subtree r0 (fo_ID c)) = (\<Union>c \<in> ?children - X. subtree r0 c)"
        unfolding ids[symmetric] by simp
      moreover have "X \<union> (\<Union>c \<in> ?children - X. subtree r0 c) \<union> {fid} = X \<union> insert fid (\<Union>c \<in> ?children. subtree r0 c)"
        using downClosed_contains[OF X] by blast
      ultimately show ?thesis
        by (simp only: subtree_children[of r0 fid])
    qed
    moreover have "Folder_Delete fid (r0 |` (- Y)) = r0 |` (- (Y \<union> {fid}))" for Y
      by (rule ext) (simp add: Folder_Delete_def restrict_map_def)
    ultimately show "DeleteFolder fuel order fid True ?r = Some (Inr (r0 |` (- (X \<union> subtree r0 fid))))"
      by (simp only: fuel'(1) DeleteFolder.simps Let_def if_True option.case sum.case)
  qed
  then show ?case ..
qed

text \<open>Deleting a folder recursively returns on every hierarchy without cycles and deletes exactly the folder and
  those below it; without recursion it deletes a folder exactly if nothing lies directly below it.\<close>
theorem DeleteFolder_subtree:
  assumes "folders_ok r" and "lists_all order"
  shows "(\<exists>N. \<forall>fuel \<ge> N. DeleteFolder fuel order fid True r = Some (Inr (r |` (- subtree r fid))))
    \<and> DeleteFolder (Suc fuel) order fid False r =
        Some (if \<exists>c. (c, fid) \<in> parentOf r then Inl HasSubfolders else Inr (r(fid := None)))"
proof -
  obtain N where "deletes order r fid N"
    using deletes_all[OF assms] by blast
  then have "\<forall>fuel \<ge> N. DeleteFolder fuel order fid True r = Some (Inr (r |` (- subtree r fid)))"
    unfolding deletes_def by (metis (no_types) downClosed_empty Compl_empty_eq Un_empty_left restrict_map_UNIV)
  moreover have "fo_ID ` set (ListByParent (order fid r) fid r) = {c. (c, fid) \<in> parentOf r}"
    using children_ids[OF assms, of r "{}" fid] by (simp add: restrict_map_UNIV)
  then have "ListByParent (order fid r) fid r = [] \<longleftrightarrow> \<not> (\<exists>c. (c, fid) \<in> parentOf r)"
    by auto
  ultimately show ?thesis
    by (auto simp: Folder_Delete_def)
qed

lemma DeleteFolder_subtree_witness:
  "(\<exists>N. \<forall>fuel \<ge> N. DeleteFolder fuel (\<lambda>_ r. sorted_list_of_set (dom r)) ''a'' True sample_folders =
      Some (Inr (sample_folders |` (- subtree sample_folders ''a''))))
    \<and> DeleteFolder (Suc 3) (\<lambda>_ r. sorted_list_of_set (dom r)) ''a'' False sample_folders =
        Some (if \<exists>c. (c, ''a'') \<in> parentOf sample_folders then Inl HasSubfolders else Inr (sample_folders(''a'' := None)))"
  by (rule DeleteFolder_subtree[OF sample_folders_ok]) (simp add: lists_all_def)

section \<open>The tree of a workspace\<close>

lemma buildLoop_eq:
  "ft_root (buildLoop fm fs t) = ft_root t @ map fo_ID (filter (\<lambda>f. fo_ParentID f = None) fs)"
  "ft_children (buildLoop fm fs t) p =
     ft_children t p @ (if fm p = None then [] else map fo_ID (filter (\<lambda>f. fo_ParentID f = Some p) fs))"
  by (induction fs arbitrary: t) (auto split: option.splits)

text \<open>Each folder hangs once under its parent; a folder whose parent is not in the workspace is left out.\<close>

lemma buildTree_spec:
  "ft_root (buildTree fs) = map fo_ID (filter (\<lambda>f. fo_ParentID f = None) fs)"
  "ft_children (buildTree fs) p =
     (if p \<in> fo_ID ` set fs then map fo_ID (filter (\<lambda>f. fo_ParentID f = Some p) fs) else [])"
  by (auto simp: buildTree_def buildLoop_eq map_of_eq_None_iff image_image)

end
