(* ===== verification/Executor_Service.thy ===== *)
theory Executor_Service
  imports Prelude
begin

text \<open>
  The executor service (\<open>internal/executor/app/service/executor_service.go\<close>): workers, tasks and the
  dispatcher's queue. \<open>es_workers\<close> is the service's table, \<open>es_tasks\<close> what the task repository holds (a lookup
  finds what was last written), \<open>es_queue\<close> the channel of capacity 1000, and \<open>es_held\<close> the task the dispatcher
  keeps while it sleeps. An argument \<open>err\<close> is the answer of a repository, \<open>order\<close> lists the keys of a map in the order
  of a loop over it, and times and identifiers are arguments.
\<close>

datatype ExecWorkerStatus = ExecWorkerIdle | ExecWorkerBusy | ExecWorkerOffline

record ExecWorker =
  ew_ID :: string
  ew_Name :: string
  ew_Host :: string
  ew_Port :: int
  ew_Status :: ExecWorkerStatus
  ew_Capacity :: int
  ew_CurrentLoad :: int
  ew_Tags :: "string list"
  ew_LastHeartbeat :: time
  ew_RegisteredAt :: time

datatype ExecTaskStatus = ExecTaskPending | ExecTaskRunning | ExecTaskCompleted | ExecTaskFailed | ExecTaskCancelled

record ExecTask =
  et_ID :: string
  et_ExecutionID :: string
  et_NodeID :: string
  et_WorkerID :: string
  et_Type :: string
  et_Status :: ExecTaskStatus
  et_Priority :: int
  et_Input :: "dict option"
  et_Output :: "dict option"
  et_Error :: string
  et_Tags :: "string list"
  et_Retries :: int
  et_MaxRetries :: int
  et_CreatedAt :: time
  et_StartedAt :: "time option"
  et_CompletedAt :: "time option"

record ExecutorService =
  es_workers :: "string \<rightharpoonup> ExecWorker"
  es_tasks :: "string \<rightharpoonup> ExecTask"
  es_queue :: "ExecTask list"
  es_held :: "ExecTask option"

definition NewExecutorService :: ExecutorService where
  "NewExecutorService = \<lparr> es_workers = Map.empty, es_tasks = Map.empty, es_queue = [], es_held = None \<rparr>"

datatype executor_service_error = WorkerNotFound | TaskNotFound | QueueFull | RepositoryError string | NothingToDo

record RegisterWorkerInput =
  rw_Name :: string
  rw_Host :: string
  rw_Port :: int
  rw_Capacity :: int
  rw_Tags :: "string list"

record SubmitTaskInput =
  si_ExecutionID :: string
  si_NodeID :: string
  si_Type :: string
  si_Priority :: int
  si_Input :: "dict option"
  si_MaxRetries :: int

section \<open>Operations\<close>

definition Executor_Start :: "ExecWorker list \<Rightarrow> ExecutorService \<Rightarrow> ExecutorService" where
  "Executor_Start workers s = s\<lparr> es_workers := foldl (\<lambda>m w. m(ew_ID w \<mapsto> w)) (es_workers s) workers \<rparr>"

definition RegisterWorker ::
  "(nat \<Rightarrow> time) \<Rightarrow> string \<Rightarrow> string option \<Rightarrow> RegisterWorkerInput \<Rightarrow> ExecutorService \<Rightarrow> executor_service_error + ExecutorService" where
  "RegisterWorker clk newID err input s =
     (let worker = \<lparr> ew_ID = newID, ew_Name = rw_Name input, ew_Host = rw_Host input, ew_Port = rw_Port input,
            ew_Status = ExecWorkerIdle, ew_Capacity = rw_Capacity input, ew_CurrentLoad = 0, ew_Tags = rw_Tags input,
            ew_LastHeartbeat = clk 0, ew_RegisteredAt = clk 1 \<rparr>
      in case err of
           Some e \<Rightarrow> Inl (RepositoryError e)
         | None \<Rightarrow> Inr (s\<lparr> es_workers := (es_workers s)(newID \<mapsto> worker) \<rparr>))"

definition UnregisterWorker :: "string \<Rightarrow> ExecutorService \<Rightarrow> ExecutorService" where
  "UnregisterWorker workerID s = s\<lparr> es_workers := (es_workers s)(workerID := None) \<rparr>"

definition Heartbeat ::
  "time \<Rightarrow> string \<Rightarrow> ExecWorkerStatus \<Rightarrow> int \<Rightarrow> ExecutorService \<Rightarrow> executor_service_error + ExecutorService" where
  "Heartbeat now workerID status currentLoad s =
     (case es_workers s workerID of
        None \<Rightarrow> Inl WorkerNotFound
      | Some worker \<Rightarrow> Inr (s\<lparr> es_workers := (es_workers s)(workerID \<mapsto>
          worker\<lparr> ew_LastHeartbeat := now, ew_Status := status, ew_CurrentLoad := currentLoad \<rparr>) \<rparr>))"

text \<open>Sending on the channel, which holds at most 1000 tasks; the flag says whether there was room.\<close>

definition enqueue :: "ExecTask \<Rightarrow> ExecutorService \<Rightarrow> bool \<times> ExecutorService" where
  "enqueue task s = (if length (es_queue s) < 1000 then (True, s\<lparr> es_queue := es_queue s @ [task] \<rparr>) else (False, s))"

definition SubmitTask ::
  "time \<Rightarrow> string \<Rightarrow> string option \<Rightarrow> SubmitTaskInput \<Rightarrow> ExecutorService \<Rightarrow> (executor_service_error + ExecTask) \<times> ExecutorService" where
  "SubmitTask now newID err input s =
     (let task = \<lparr> et_ID = newID, et_ExecutionID = si_ExecutionID input, et_NodeID = si_NodeID input, et_WorkerID = '''',
            et_Type = si_Type input, et_Status = ExecTaskPending, et_Priority = si_Priority input, et_Input = si_Input input,
            et_Output = None, et_Error = '''', et_Tags = [], et_Retries = 0, et_MaxRetries = si_MaxRetries input,
            et_CreatedAt = now, et_StartedAt = None, et_CompletedAt = None \<rparr>
      in case err of
           Some e \<Rightarrow> (Inl (RepositoryError e), s)
         | None \<Rightarrow>
             (let s1 = s\<lparr> es_tasks := (es_tasks s)(newID \<mapsto> task) \<rparr>
              in case enqueue task s1 of (ok, s2) \<Rightarrow> (if ok then Inr task else Inl QueueFull, s2)))"

definition releaseWorker :: "string \<Rightarrow> ExecutorService \<Rightarrow> ExecutorService" where
  "releaseWorker workerID s =
     (case es_workers s workerID of
        None \<Rightarrow> s
      | Some worker \<Rightarrow>
          let w1 = worker\<lparr> ew_CurrentLoad := ew_CurrentLoad worker - 1 \<rparr>;
              w2 = (if ew_CurrentLoad w1 < ew_Capacity w1 then w1\<lparr> ew_Status := ExecWorkerIdle \<rparr> else w1)
          in s\<lparr> es_workers := (es_workers s)(workerID \<mapsto> w2) \<rparr>)"

definition released :: "ExecTask \<Rightarrow> ExecutorService \<Rightarrow> ExecutorService" where
  "released task s = (if et_WorkerID task \<noteq> '''' then releaseWorker (et_WorkerID task) s else s)"

definition Task_Update :: "ExecTask \<Rightarrow> ExecutorService \<Rightarrow> ExecutorService" where
  "Task_Update task s = s\<lparr> es_tasks := (es_tasks s)(et_ID task \<mapsto> task) \<rparr>"

text \<open>
  The worker is released before the repository writes the task: an error of the repository leaves the task as it was.
\<close>

definition CompleteTask ::
  "time \<Rightarrow> string \<Rightarrow> string option \<Rightarrow> dict option \<Rightarrow> ExecutorService \<Rightarrow> executor_service_error option \<times> ExecutorService" where
  "CompleteTask now taskID err out s =
     (case es_tasks s taskID of
        None \<Rightarrow> (Some TaskNotFound, s)
      | Some task \<Rightarrow>
          let task1 = task\<lparr> et_Status := ExecTaskCompleted, et_Output := out, et_CompletedAt := Some now \<rparr>;
              s1 = released task s
          in case err of
               Some e \<Rightarrow> (Some (RepositoryError e), s1)
             | None \<Rightarrow> (None, Task_Update task1 s1))"

definition FailTask ::
  "time \<Rightarrow> string \<Rightarrow> string option \<Rightarrow> string \<Rightarrow> ExecutorService \<Rightarrow> executor_service_error option \<times> ExecutorService" where
  "FailTask now taskID err errMsg s =
     (case es_tasks s taskID of
        None \<Rightarrow> (Some TaskNotFound, s)
      | Some task \<Rightarrow>
          let s1 = released task s in
          if et_Retries task < et_MaxRetries task then
            let task1 = task\<lparr> et_Retries := et_Retries task + 1, et_Status := ExecTaskPending, et_WorkerID := '''',
                  et_Error := errMsg \<rparr>
            in (case err of
                  Some e \<Rightarrow> (Some (RepositoryError e), s1)
                | None \<Rightarrow> (None, snd (enqueue task1 (Task_Update task1 s1))))
          else
            let task1 = task\<lparr> et_Status := ExecTaskFailed, et_Error := errMsg, et_CompletedAt := Some now \<rparr>
            in (case err of
                  Some e \<Rightarrow> (Some (RepositoryError e), s1)
                | None \<Rightarrow> (None, Task_Update task1 s1)))"

definition hasAllTags :: "string list \<Rightarrow> string list \<Rightarrow> bool" where
  "hasAllTags workerTags requiredTags = list_all (\<lambda>t. t \<in> set workerTags) requiredTags"

fun selectLoop :: "(string \<rightharpoonup> ExecWorker) \<Rightarrow> ExecTask \<Rightarrow> string list \<Rightarrow> ExecWorker option \<times> int \<Rightarrow> ExecWorker option" where
  "selectLoop workers task [] (bestWorker, lowestLoad) = bestWorker"
| "selectLoop workers task (k # ks) (bestWorker, lowestLoad) =
     (case workers k of
        None \<Rightarrow> selectLoop workers task ks (bestWorker, lowestLoad)
      | Some worker \<Rightarrow>
          if ew_Status worker = ExecWorkerOffline \<or> ew_CurrentLoad worker \<ge> ew_Capacity worker
             \<or> (length (et_Tags task) > 0 \<and> \<not> hasAllTags (ew_Tags worker) (et_Tags task))
          then selectLoop workers task ks (bestWorker, lowestLoad)
          else if lowestLoad = -1 \<or> ew_CurrentLoad worker < lowestLoad
          then selectLoop workers task ks (Some worker, ew_CurrentLoad worker)
          else selectLoop workers task ks (bestWorker, lowestLoad))"

definition selectWorker :: "string list \<Rightarrow> ExecTask \<Rightarrow> ExecutorService \<Rightarrow> ExecWorker option" where
  "selectWorker order task s = selectLoop (es_workers s) task order (None, -1)"

text \<open>
  A round of the dispatcher. Without a worker it keeps the task while it sleeps and then puts it back, if there is
  room; an error of the repository ends the round, and the task is in the queue no more.
\<close>

definition dispatch :: "time \<Rightarrow> string list \<Rightarrow> string option \<Rightarrow> ExecutorService \<Rightarrow> executor_service_error + ExecutorService" where
  "dispatch now order err s =
     (if es_held s \<noteq> None then Inl NothingToDo
      else (case es_queue s of
          [] \<Rightarrow> Inl NothingToDo
        | task # queue \<Rightarrow>
            let s1 = s\<lparr> es_queue := queue \<rparr> in
            (case selectWorker order task s1 of
               None \<Rightarrow> Inr (s1\<lparr> es_held := Some task \<rparr>)
             | Some worker \<Rightarrow>
                 let task1 = task\<lparr> et_WorkerID := ew_ID worker, et_Status := ExecTaskRunning, et_StartedAt := Some now \<rparr> in
                 (case err of
                    Some _ \<Rightarrow> Inr s1
                  | None \<Rightarrow>
                      let w1 = worker\<lparr> ew_CurrentLoad := ew_CurrentLoad worker + 1 \<rparr>;
                          w2 = (if ew_CurrentLoad w1 \<ge> ew_Capacity w1 then w1\<lparr> ew_Status := ExecWorkerBusy \<rparr> else w1)
                      in Inr ((Task_Update task1 s1)\<lparr> es_workers := (es_workers s1)(ew_ID worker \<mapsto> w2) \<rparr>)))))"

definition wakeDispatcher :: "ExecutorService \<Rightarrow> executor_service_error + ExecutorService" where
  "wakeDispatcher s =
     (case es_held s of
        None \<Rightarrow> Inl NothingToDo
      | Some task \<Rightarrow> Inr (snd (enqueue task (s\<lparr> es_held := None \<rparr>))))"

definition healthCheck :: "time \<Rightarrow> ExecutorService \<Rightarrow> ExecutorService" where
  "healthCheck now s = s\<lparr> es_workers := map_option (\<lambda>w. if now - ew_LastHeartbeat w > 60 * Second
     then w\<lparr> ew_Status := ExecWorkerOffline \<rparr> else w) \<circ> es_workers s \<rparr>"

section \<open>The choice of a worker\<close>

text \<open>A worker that can take a task: not offline, with free capacity, with the tags the task asks for.\<close>

definition eligible :: "ExecTask \<Rightarrow> ExecWorker \<Rightarrow> bool" where
  "eligible task w \<longleftrightarrow> ew_Status w \<noteq> ExecWorkerOffline \<and> ew_CurrentLoad w < ew_Capacity w
     \<and> set (et_Tags task) \<subseteq> set (ew_Tags w)"

lemma selectLoop_spec:
  assumes "\<forall>k w. workers k = Some w \<longrightarrow> 0 \<le> ew_CurrentLoad w"
    and "case best of None \<Rightarrow> low = -1 | Some w \<Rightarrow> low = ew_CurrentLoad w \<and> 0 \<le> low \<and> eligible task w"
  shows "case selectLoop workers task ks (best, low) of
      None \<Rightarrow> best = None \<and> (\<forall>k \<in> set ks. \<forall>w. workers k = Some w \<longrightarrow> \<not> eligible task w)
    | Some b \<Rightarrow> eligible task b \<and> (best = Some b \<or> (\<exists>k \<in> set ks. workers k = Some b))
        \<and> (\<forall>w. best = Some w \<longrightarrow> ew_CurrentLoad b \<le> ew_CurrentLoad w)
        \<and> (\<forall>k \<in> set ks. \<forall>w. workers k = Some w \<longrightarrow> eligible task w \<longrightarrow> ew_CurrentLoad b \<le> ew_CurrentLoad w)"
  using assms
proof (induction ks arbitrary: best low)
  case Nil
  then show ?case
    by (auto split: option.split)
next
  case (Cons k ks)
  show ?case
  proof (cases "\<exists>w. workers k = Some w \<and> eligible task w \<and> (low = -1 \<or> ew_CurrentLoad w < low)")
    case True
    then obtain w where w: "workers k = Some w" "eligible task w" "low = -1 \<or> ew_CurrentLoad w < low"
      by blast
    then have "selectLoop workers task (k # ks) (best, low) = selectLoop workers task ks (Some w, ew_CurrentLoad w)"
      by (auto simp: eligible_def hasAllTags_def list_all_iff)
    then show ?thesis
      using Cons.IH[where best = "Some w" and low = "ew_CurrentLoad w"] Cons.prems w by (auto split: option.splits)
  next
    case False
    then have "selectLoop workers task (k # ks) (best, low) = selectLoop workers task ks (best, low)"
      by (auto simp: eligible_def hasAllTags_def list_all_iff split: option.split)
    then show ?thesis
      using Cons.IH[where best = best and low = low] Cons.prems False by (auto split: option.splits)
  qed
qed

text \<open>The dispatcher's choice is a worker that can take the task with the least load among all that can,
  and none exactly if no worker can, whatever the order in which the loop visits them.\<close>
theorem selectWorker_least_loaded:
  assumes "\<forall>k w. es_workers s k = Some w \<longrightarrow> 0 \<le> ew_CurrentLoad w" and "set order = dom (es_workers s)"
  shows "case selectWorker order task s of
      None \<Rightarrow> \<forall>w \<in> ran (es_workers s). \<not> eligible task w
    | Some b \<Rightarrow> b \<in> ran (es_workers s) \<and> eligible task b
        \<and> (\<forall>w \<in> ran (es_workers s). eligible task w \<longrightarrow> ew_CurrentLoad b \<le> ew_CurrentLoad w)"
  using selectLoop_spec[where workers = "es_workers s" and task = task and ks = order and best = None and low = "-1"] assms
  unfolding selectWorker_def
  by (auto simp: ran_def dom_def split: option.splits)

section \<open>The load of a worker\<close>

datatype executor_command =
    DoRegister "nat \<Rightarrow> time" string "string option" RegisterWorkerInput
  | DoUnregister string
  | DoHeartbeat time string ExecWorkerStatus int
  | DoSubmit time string "string option" SubmitTaskInput
  | DoComplete time string "string option" "dict option"
  | DoFail time string "string option" string
  | DoDispatch time "string list" "string option"
  | DoWake
  | DoHealthCheck time

fun executor_step :: "executor_command \<Rightarrow> ExecutorService \<Rightarrow> executor_service_error + ExecutorService" where
  "executor_step (DoRegister clk newID err input) s = RegisterWorker clk newID err input s"
| "executor_step (DoUnregister w) s = Inr (UnregisterWorker w s)"
| "executor_step (DoHeartbeat now w st l) s = Heartbeat now w st l s"
| "executor_step (DoSubmit now newID err input) s = Inr (snd (SubmitTask now newID err input s))"
| "executor_step (DoComplete now t err out) s = Inr (snd (CompleteTask now t err out s))"
| "executor_step (DoFail now t err msg) s = Inr (snd (FailTask now t err msg s))"
| "executor_step (DoDispatch now order err) s = dispatch now order err s"
| "executor_step DoWake s = wakeDispatcher s"
| "executor_step (DoHealthCheck now) s = Inr (healthCheck now s)"

definition runningOn :: "ExecutorService \<Rightarrow> string \<Rightarrow> string set" where
  "runningOn s w = {t. \<exists>task. es_tasks s t = Some task \<and> et_Status task = ExecTaskRunning \<and> et_WorkerID task = w}"

text \<open>
  The tasks that wait are pending and as the repository has them; every worker's load is the number of the
  tasks that run on it and never above its capacity.
\<close>

definition waiting :: "ExecutorService \<Rightarrow> ExecTask list" where
  "waiting s = es_queue s @ (case es_held s of None \<Rightarrow> [] | Some t \<Rightarrow> [t])"

definition tasks_inv :: "ExecutorService \<Rightarrow> bool" where
  "tasks_inv s \<longleftrightarrow> finite (dom (es_tasks s)) \<and> (\<forall>t task. es_tasks s t = Some task \<longrightarrow> et_ID task = t)
     \<and> distinct (map et_ID (waiting s))
     \<and> (\<forall>task \<in> set (waiting s). es_tasks s (et_ID task) = Some task \<and> et_Status task = ExecTaskPending)
     \<and> es_workers s '''' = None"

definition loads_inv :: "ExecutorService \<Rightarrow> bool" where
  "loads_inv s \<longleftrightarrow> (\<forall>w worker. es_workers s w = Some worker \<longrightarrow> ew_ID worker = w
     \<and> ew_CurrentLoad worker = int (card (runningOn s w)) \<and> (0 < ew_CurrentLoad worker \<longrightarrow> ew_CurrentLoad worker \<le> ew_Capacity worker))"

text \<open>
  What the callers keep to: new identifiers, a heartbeat that reports the load the service knows, and one
  completion or failure for each run of a task, which the repository accepts.
\<close>

fun executor_pre :: "ExecutorService \<Rightarrow> executor_command \<Rightarrow> bool" where
  "executor_pre s (DoRegister clk newID err input) \<longleftrightarrow> newID \<noteq> '''' \<and> es_workers s newID = None \<and> runningOn s newID = {}"
| "executor_pre s (DoHeartbeat now w st l) \<longleftrightarrow> (\<forall>worker. es_workers s w = Some worker \<longrightarrow> l = ew_CurrentLoad worker)"
| "executor_pre s (DoSubmit now newID err input) \<longleftrightarrow> es_tasks s newID = None"
| "executor_pre s (DoComplete now t err out) \<longleftrightarrow>
     err = None \<and> (\<forall>task. es_tasks s t = Some task \<longrightarrow> et_Status task = ExecTaskRunning)"
| "executor_pre s (DoFail now t err msg) \<longleftrightarrow>
     err = None \<and> (\<forall>task. es_tasks s t = Some task \<longrightarrow> et_Status task = ExecTaskRunning)"
| "executor_pre s (DoDispatch now order err) \<longleftrightarrow> set order = dom (es_workers s)"
| "executor_pre s _ \<longleftrightarrow> True"

lemma finite_runningOn: "tasks_inv s \<Longrightarrow> finite (runningOn s w)"
  by (rule finite_subset[of _ "dom (es_tasks s)"]) (auto simp: tasks_inv_def runningOn_def)

text \<open>Writing a task: the sets of running tasks after it.\<close>

lemma runningOn_Task_Update:
  "runningOn (Task_Update task s) w =
     (runningOn s w - {et_ID task}) \<union> (if et_Status task = ExecTaskRunning \<and> et_WorkerID task = w then {et_ID task} else {})"
  by (auto simp: runningOn_def Task_Update_def split: if_splits)

lemma enqueue_simps [simp]:
  "es_workers (snd (enqueue t s)) = es_workers s" "es_tasks (snd (enqueue t s)) = es_tasks s"
  "es_held (snd (enqueue t s)) = es_held s"
  by (simp_all add: enqueue_def)

lemma Task_Update_simps [simp]:
  "es_workers (Task_Update t s) = es_workers s" "es_queue (Task_Update t s) = es_queue s" "es_held (Task_Update t s) = es_held s"
  "es_tasks (Task_Update t s) = (es_tasks s)(et_ID t \<mapsto> t)"
  by (simp_all add: Task_Update_def)

lemma released_simps [simp]:
  "es_tasks (released t s) = es_tasks s" "es_queue (released t s) = es_queue s" "es_held (released t s) = es_held s"
  by (simp_all add: released_def releaseWorker_def Let_def split: option.split)

lemma waiting_simps [simp]:
  "waiting (Task_Update t s) = waiting s" "waiting (released t s) = waiting s"
  by (simp_all add: waiting_def)

definition executor_inv :: "ExecutorService \<Rightarrow> bool" where
  "executor_inv s \<longleftrightarrow> tasks_inv s \<and> loads_inv s"

lemma released_worker:
  "es_workers (released task s) w = Some worker \<longleftrightarrow>
     (\<exists>old. es_workers s w = Some old \<and>
        (if w = et_WorkerID task \<and> w \<noteq> '''' then worker = old\<lparr> ew_CurrentLoad := ew_CurrentLoad old - 1,
            ew_Status := (if ew_CurrentLoad old - 1 < ew_Capacity old then ExecWorkerIdle else ew_Status old) \<rparr>
         else worker = old))"
  by (auto simp: released_def releaseWorker_def Let_def split: option.splits if_splits)

lemma runningOn_cong: "es_tasks s' = es_tasks s \<Longrightarrow> runningOn s' w = runningOn s w"
  by (simp add: runningOn_def)

lemma runningOn_released [simp]: "runningOn (released task s) w = runningOn s w"
  by (rule runningOn_cong) simp

lemma loads_inv_cong: "es_workers s' = es_workers s \<Longrightarrow> es_tasks s' = es_tasks s \<Longrightarrow> loads_inv s' = loads_inv s"
  by (simp add: loads_inv_def runningOn_def)

lemma loads_inv_same:
  assumes "loads_inv s" and "es_workers s' = es_workers s" and "\<And>w. runningOn s' w = runningOn s w"
  shows "loads_inv s'"
  using assms(1) unfolding loads_inv_def assms(2,3) .

lemma tasks_inv_waiting:
  "tasks_inv s \<Longrightarrow> task \<in> set (waiting s) \<Longrightarrow> es_tasks s (et_ID task) = Some task \<and> et_Status task = ExecTaskPending"
  by (simp add: tasks_inv_def)

lemma tasks_inv_id: "tasks_inv s \<Longrightarrow> es_tasks s t = Some task \<Longrightarrow> et_ID task = t"
  by (simp add: tasks_inv_def)

lemma loads_invD:
  "loads_inv s \<Longrightarrow> es_workers s w = Some worker \<Longrightarrow> ew_ID worker = w \<and> ew_CurrentLoad worker = int (card (runningOn s w))
     \<and> (0 < ew_CurrentLoad worker \<longrightarrow> ew_CurrentLoad worker \<le> ew_Capacity worker)"
  unfolding loads_inv_def by blast

text \<open>The waiting tasks may become fewer, and a task that does not wait may be written.\<close>

lemma tasks_inv_subset:
  assumes "tasks_inv s" and "es_tasks s' = es_tasks s" and "es_workers s' '''' = None"
    and "set (waiting s') \<subseteq> set (waiting s)" and "distinct (map et_ID (waiting s'))"
  shows "tasks_inv s'"
  using assms(1,3,4,5) unfolding tasks_inv_def assms(2) by blast

lemma tasks_inv_write:
  assumes "tasks_inv s" and "es_tasks s' = (es_tasks s)(et_ID task \<mapsto> task)" and "es_workers s' '''' = None"
    and "waiting s' = waiting s" and "et_ID task \<notin> et_ID ` set (waiting s)"
  shows "tasks_inv s'"
proof -
  have "es_tasks s' (et_ID t) = Some t \<and> et_Status t = ExecTaskPending" if "t \<in> set (waiting s)" for t
  proof -
    have "et_ID t \<noteq> et_ID task"
      using that assms(5) by (auto simp: image_iff)
    then show ?thesis
      using tasks_inv_waiting[OF assms(1) that] by (simp add: assms(2))
  qed
  moreover have "et_ID x = t" if "es_tasks s' t = Some x" for t x
    using that tasks_inv_id[OF assms(1)] by (auto simp: assms(2) split: if_splits)
  moreover have "finite (dom (es_tasks s'))" and "distinct (map et_ID (waiting s))"
    using assms(1) by (simp_all add: assms(2) tasks_inv_def)
  ultimately show ?thesis
    unfolding tasks_inv_def assms(4) using assms(3) by blast
qed

text \<open>A running task that stops running gives its worker back.\<close>

lemma finish_inv:
  assumes inv: "executor_inv s" and task: "es_tasks s t = Some task" "et_Status task = ExecTaskRunning"
    and task': "et_ID task' = t" "et_Status task' \<noteq> ExecTaskRunning"
  shows "executor_inv (Task_Update task' (released task s))" and "t \<notin> et_ID ` set (waiting s)"
proof -
  have ti: "tasks_inv s" and li: "loads_inv s"
    using inv by (simp_all add: executor_inv_def)
  then have t: "et_ID task = t" and fin: "finite (runningOn s w)" for w
    using task(1) finite_runningOn tasks_inv_id by blast+
  show nw: "t \<notin> et_ID ` set (waiting s)"
    using tasks_inv_waiting[OF ti] task by fastforce
  have blank: "es_workers s '''' = None"
    using ti by (simp add: tasks_inv_def)
  then have "es_workers (released task s) '''' = None"
    using released_worker[of task s "''''"] by (cases "es_workers (released task s) ''''") auto
  then have "tasks_inv (Task_Update task' (released task s))"
    using tasks_inv_write[OF ti, of "Task_Update task' (released task s)" task'] task'(1) nw by simp
  moreover have "loads_inv (Task_Update task' (released task s))"
    unfolding loads_inv_def
  proof (intro allI impI)
    fix w worker
    assume "es_workers (Task_Update task' (released task s)) w = Some worker"
    then obtain old where old: "es_workers s w = Some old" and new: "if w = et_WorkerID task \<and> w \<noteq> '''' then
        worker = old\<lparr> ew_CurrentLoad := ew_CurrentLoad old - 1,
            ew_Status := (if ew_CurrentLoad old - 1 < ew_Capacity old then ExecWorkerIdle else ew_Status old) \<rparr>
         else worker = old"
      by (auto simp: released_worker)
    have w: "w \<noteq> ''''" "ew_ID old = w" "ew_CurrentLoad old = int (card (runningOn s w))"
      "0 < ew_CurrentLoad old \<longrightarrow> ew_CurrentLoad old \<le> ew_Capacity old"
      using old blank loads_invD[OF li old] by auto
    have running: "runningOn (Task_Update task' (released task s)) w = runningOn s w - {t}"
      using task' by (simp add: runningOn_Task_Update)
    have "t \<in> runningOn s w \<longleftrightarrow> w = et_WorkerID task"
      using task by (auto simp: runningOn_def)
    then show "ew_ID worker = w \<and> ew_CurrentLoad worker = int (card (runningOn (Task_Update task' (released task s)) w))
        \<and> (0 < ew_CurrentLoad worker \<longrightarrow> ew_CurrentLoad worker \<le> ew_Capacity worker)"
      using new w fin[of w] card_Suc_Diff1[of "runningOn s w" t] by (auto simp: running split: if_splits)
  qed
  ultimately show "executor_inv (Task_Update task' (released task s))"
    by (simp add: executor_inv_def)
qed

lemma enqueue_tasks_inv:
  assumes ti: "tasks_inv s" and task: "es_tasks s (et_ID task) = Some task" "et_Status task = ExecTaskPending"
    and new: "et_ID task \<notin> et_ID ` set (waiting s)"
  shows "tasks_inv (snd (enqueue task s))"
proof (cases "length (es_queue s) < 1000")
  case True
  let ?s = "snd (enqueue task s)"
  have ws: "set (waiting ?s) = insert task (set (waiting s))"
    using True by (auto simp: enqueue_def waiting_def split: option.split)
  have "distinct (map et_ID (waiting s))"
    using ti by (simp add: tasks_inv_def)
  then have "distinct (map et_ID (waiting ?s))"
    using True new by (auto simp: enqueue_def waiting_def image_iff split: option.splits)
  moreover have "\<forall>t \<in> set (waiting ?s). es_tasks s (et_ID t) = Some t \<and> et_Status t = ExecTaskPending"
    using ws tasks_inv_waiting[OF ti] task by auto
  ultimately show ?thesis
    using ti unfolding tasks_inv_def enqueue_simps by blast
qed (use ti in \<open>simp add: enqueue_def\<close>)

lemma enqueue_inv:
  assumes "executor_inv s" and "es_tasks s (et_ID task) = Some task" and "et_Status task = ExecTaskPending"
    and "et_ID task \<notin> et_ID ` set (waiting s)"
  shows "executor_inv (snd (enqueue task s))"
proof -
  have "loads_inv (snd (enqueue task s))"
    using assms(1) loads_inv_cong[of "snd (enqueue task s)" s] by (simp add: executor_inv_def)
  then show ?thesis
    using assms enqueue_tasks_inv by (simp add: executor_inv_def)
qed

lemma dispatch_inv:
  assumes inv: "executor_inv s" and step: "dispatch now order err s = Inr s'" and order: "set order = dom (es_workers s)"
  shows "executor_inv s'"
proof -
  obtain task queue where q: "es_queue s = task # queue" and held: "es_held s = None"
    using step by (auto simp: dispatch_def split: if_splits list.splits)
  let ?s1 = "s\<lparr> es_queue := queue \<rparr>"
  have ti: "tasks_inv s" and li: "loads_inv s" and blank: "es_workers s '''' = None"
    using inv by (simp_all add: executor_inv_def tasks_inv_def)
  have ws: "waiting s = task # queue" "waiting ?s1 = queue"
    using q held by (simp_all add: waiting_def)
  then have t: "es_tasks s (et_ID task) = Some task" "et_Status task = ExecTaskPending" "et_ID task \<notin> et_ID ` set queue"
    and dist: "distinct (map et_ID (task # queue))"
    using ti by (simp_all add: tasks_inv_def)
  have ti1: "tasks_inv ?s1"
    using tasks_inv_subset[OF ti, of ?s1] blank dist by (auto simp: ws)
  have li1: "loads_inv ?s1"
    using li loads_inv_cong[of ?s1 s] by simp
  have s1: "executor_inv ?s1"
    using ti1 li1 by (simp add: executor_inv_def)
  show ?thesis
  proof (cases "selectWorker order task ?s1")
    case None
    then have "s' = ?s1\<lparr> es_held := Some task \<rparr>"
      using step q held by (simp add: dispatch_def Let_def)
    moreover have "tasks_inv (?s1\<lparr> es_held := Some task \<rparr>)"
      using tasks_inv_subset[OF ti, of "?s1\<lparr> es_held := Some task \<rparr>"] blank dist q held by (auto simp: waiting_def)
    moreover have "loads_inv (?s1\<lparr> es_held := Some task \<rparr>)"
      using li loads_inv_cong[of "?s1\<lparr> es_held := Some task \<rparr>" s] by simp
    ultimately show ?thesis
      by (simp add: executor_inv_def)
  next
    case (Some worker)
    have loads: "\<forall>k w. es_workers ?s1 k = Some w \<longrightarrow> 0 \<le> ew_CurrentLoad w"
      using loads_invD[OF li] by fastforce
    obtain wid where wid: "es_workers s wid = Some worker" "ew_CurrentLoad worker < ew_Capacity worker"
      using selectLoop_spec[OF loads, where best = None and low = "-1" and task = task and ks = order] Some by (auto simp: selectWorker_def eligible_def)
    then have worker: "ew_ID worker = wid" "ew_CurrentLoad worker = int (card (runningOn s wid))" "wid \<noteq> ''''"
      using loads_invD[OF li wid(1)] blank by auto
    show ?thesis
    proof (cases err)
      case None
      let ?task1 = "task\<lparr> et_WorkerID := wid, et_Status := ExecTaskRunning, et_StartedAt := Some now \<rparr>"
      let ?w2 = "if ew_CurrentLoad worker + 1 \<ge> ew_Capacity worker
        then worker\<lparr> ew_CurrentLoad := ew_CurrentLoad worker + 1, ew_Status := ExecWorkerBusy \<rparr>
        else worker\<lparr> ew_CurrentLoad := ew_CurrentLoad worker + 1 \<rparr>"
      have s': "s' = (Task_Update ?task1 ?s1)\<lparr> es_workers := (es_workers s)(wid \<mapsto> ?w2) \<rparr>"
        using step q held Some None worker(1) by (simp add: dispatch_def Let_def)
      have running: "runningOn s' w = (if w = wid then insert (et_ID task) (runningOn s w) else runningOn s w)" for w
        using t(1,2) by (auto simp: s' runningOn_def split: if_splits)
      have "et_ID task \<notin> runningOn s wid"
        using t by (auto simp: runningOn_def)
      then have card: "card (runningOn s' wid) = Suc (card (runningOn s wid))"
        using finite_runningOn[OF ti] by (simp add: running)
      have "loads_inv s'"
        unfolding loads_inv_def
      proof (intro allI impI)
        fix w x
        assume x: "es_workers s' w = Some x"
        show "ew_ID x = w \<and> ew_CurrentLoad x = int (card (runningOn s' w)) \<and> (0 < ew_CurrentLoad x \<longrightarrow> ew_CurrentLoad x \<le> ew_Capacity x)"
        proof (cases "w = wid")
          case True
          then show ?thesis
            using x worker wid(2) card by (auto simp: s' split: if_splits)
        next
          case False
          then have "es_workers s w = Some x" and "runningOn s' w = runningOn s w"
            using x running by (simp_all add: s')
          then show ?thesis
            using loads_invD[OF li] by metis
        qed
      qed
      moreover have "tasks_inv s'"
        using tasks_inv_write[OF ti1, of s' ?task1] blank t worker(3) by (simp add: s' ws waiting_def held)
      ultimately show ?thesis
        by (simp add: executor_inv_def)
    qed (use step q held Some s1 in \<open>simp add: dispatch_def Let_def\<close>)
  qed
qed


text \<open>A task that no worker runs, written or rewritten, changes no load.\<close>

lemma runningOn_insert:
  assumes "es_tasks s' = (es_tasks s)(t \<mapsto> task)" and "et_Status task \<noteq> ExecTaskRunning" and "es_tasks s t = None"
  shows "runningOn s' w = runningOn s w"
  using assms by (auto simp: runningOn_def)

lemma SubmitTask_inv:
  assumes inv: "executor_inv s" and new: "es_tasks s newID = None"
  shows "executor_inv (snd (SubmitTask now newID err input s))"
proof (cases err)
  case None
  define task where "task = \<lparr> et_ID = newID, et_ExecutionID = si_ExecutionID input, et_NodeID = si_NodeID input, et_WorkerID = '''',
      et_Type = si_Type input, et_Status = ExecTaskPending, et_Priority = si_Priority input, et_Input = si_Input input,
      et_Output = None, et_Error = '''', et_Tags = [], et_Retries = 0, et_MaxRetries = si_MaxRetries input,
      et_CreatedAt = now, et_StartedAt = None, et_CompletedAt = None \<rparr>"
  let ?s1 = "s\<lparr> es_tasks := (es_tasks s)(newID \<mapsto> task) \<rparr>"
  have ti: "tasks_inv s" and li: "loads_inv s"
    using inv by (simp_all add: executor_inv_def)
  have fresh: "et_ID task \<notin> et_ID ` set (waiting s)" and ws: "waiting ?s1 = waiting s"
    using tasks_inv_waiting[OF ti] new by (fastforce simp: task_def, simp add: waiting_def)
  have "tasks_inv ?s1"
    using tasks_inv_write[OF ti, of ?s1 task] fresh ti ws by (simp add: task_def tasks_inv_def)
  moreover have "runningOn ?s1 w = runningOn s w" for w
    using runningOn_insert[of ?s1 s newID task w] new by (simp add: task_def)
  then have "loads_inv ?s1"
    using loads_inv_same[OF li, of ?s1] by simp
  ultimately have "executor_inv (snd (enqueue task ?s1))"
    using enqueue_inv[of ?s1 task] fresh ws by (simp add: executor_inv_def task_def)
  moreover have "snd (SubmitTask now newID err input s) = snd (enqueue task ?s1)"
    using None by (simp add: SubmitTask_def Let_def task_def split: prod.split)
  ultimately show ?thesis
    by simp
qed (use inv in \<open>simp add: SubmitTask_def\<close>)

text \<open>Workers may be written as long as their loads stay.\<close>

lemma workers_inv:
  assumes inv: "executor_inv s"
    and same: "es_tasks s' = es_tasks s" "es_queue s' = es_queue s" "es_held s' = es_held s"
    and old: "\<And>w x. es_workers s' w = Some x \<Longrightarrow> w \<noteq> '''' \<and> ew_ID x = w \<and>
        ((runningOn s w = {} \<and> ew_CurrentLoad x = 0) \<or>
         (\<exists>y. es_workers s w = Some y \<and> ew_CurrentLoad x = ew_CurrentLoad y \<and> ew_Capacity x = ew_Capacity y))"
  shows "executor_inv s'"
proof -
  have ti: "tasks_inv s" and li: "loads_inv s"
    using inv by (simp_all add: executor_inv_def)
  have "waiting s' = waiting s" and running: "runningOn s' w = runningOn s w" for w
    using same by (simp_all add: waiting_def runningOn_def)
  moreover have "es_workers s' '''' = None"
    using old[of "''''"] by (cases "es_workers s' ''''") auto
  ultimately have "tasks_inv s'"
    using tasks_inv_subset[OF ti same(1)] ti by (simp add: tasks_inv_def)
  moreover have "loads_inv s'"
    unfolding loads_inv_def
  proof (intro allI impI)
    fix w x
    assume x: "es_workers s' w = Some x"
    consider "runningOn s w = {}" "ew_CurrentLoad x = 0" |
        y where "es_workers s w = Some y" "ew_CurrentLoad x = ew_CurrentLoad y" "ew_Capacity x = ew_Capacity y"
      using old[OF x] by blast
    then show "ew_ID x = w \<and> ew_CurrentLoad x = int (card (runningOn s' w)) \<and> (0 < ew_CurrentLoad x \<longrightarrow> ew_CurrentLoad x \<le> ew_Capacity x)"
    proof cases
      case 1
      then show ?thesis
        using old[OF x] by (simp add: running)
    next
      case 2
      then show ?thesis
        using old[OF x] loads_invD[OF li, of w y] unfolding running by metis
    qed
  qed
  ultimately show ?thesis
    by (simp add: executor_inv_def)
qed

lemma CompleteTask_inv:
  assumes "executor_inv s" and "\<forall>task. es_tasks s t = Some task \<longrightarrow> et_Status task = ExecTaskRunning"
  shows "executor_inv (snd (CompleteTask now t None out s))"
proof (cases "es_tasks s t")
  case (Some task)
  then have "et_ID task = t"
    using assms(1) tasks_inv_id by (auto simp: executor_inv_def)
  then show ?thesis
    using finish_inv(1)[OF assms(1) Some] assms(2) Some by (simp add: CompleteTask_def Let_def)
qed (use assms in \<open>simp add: CompleteTask_def\<close>)

lemma FailTask_inv:
  assumes inv: "executor_inv s" and "\<forall>task. es_tasks s t = Some task \<longrightarrow> et_Status task = ExecTaskRunning"
  shows "executor_inv (snd (FailTask now t None msg s))"
proof (cases "es_tasks s t")
  case (Some task)
  then have t: "et_ID task = t" and run: "et_Status task = ExecTaskRunning"
    using assms tasks_inv_id by (auto simp: executor_inv_def)
  note finish = finish_inv[OF inv Some run]
  show ?thesis
  proof (cases "et_Retries task < et_MaxRetries task")
    case True
    let ?task1 = "task\<lparr> et_Retries := et_Retries task + 1, et_Status := ExecTaskPending, et_WorkerID := '''', et_Error := msg \<rparr>"
    have "executor_inv (Task_Update ?task1 (released task s))"
      using finish(1)[of ?task1] t by simp
    then have "executor_inv (snd (enqueue ?task1 (Task_Update ?task1 (released task s))))"
      by (rule enqueue_inv) (use finish(2)[of ?task1] t in simp_all)
    then show ?thesis
      using Some True by (simp add: FailTask_def Let_def)
  next
    case False
    then show ?thesis
      using finish(1) Some t by (simp add: FailTask_def Let_def)
  qed
qed (use inv in \<open>simp add: FailTask_def\<close>)

lemma wakeDispatcher_inv:
  assumes inv: "executor_inv s" and step: "wakeDispatcher s = Inr s'"
  shows "executor_inv s'"
proof -
  obtain task where held: "es_held s = Some task" and s': "s' = snd (enqueue task (s\<lparr> es_held := None \<rparr>))"
    using step by (auto simp: wakeDispatcher_def split: option.splits)
  let ?s1 = "s\<lparr> es_held := None \<rparr>"
  have ti: "tasks_inv s" and li: "loads_inv s"
    using inv by (simp_all add: executor_inv_def)
  have ws: "waiting s = waiting ?s1 @ [task]"
    using held by (simp add: waiting_def)
  then have "tasks_inv ?s1"
    using tasks_inv_subset[OF ti, of ?s1] ti by (simp add: tasks_inv_def)
  then have "executor_inv ?s1"
    using li loads_inv_cong[of ?s1 s] by (simp add: executor_inv_def)
  moreover have "es_tasks s (et_ID task) = Some task \<and> et_Status task = ExecTaskPending"
    using tasks_inv_waiting[OF ti, of task] ws by simp
  moreover have "et_ID task \<notin> et_ID ` set (waiting ?s1)"
    using ti ws by (simp add: tasks_inv_def)
  ultimately show ?thesis
    unfolding s' by (intro enqueue_inv) simp_all
qed

lemma executor_step_inv:
  assumes inv: "executor_inv s" and pre: "executor_pre s c" and step: "executor_step c s = Inr s'"
  shows "executor_inv s'"
proof -
  have "ew_ID x = w" if "es_workers s w = Some x" for w x
    using that inv loads_invD by (auto simp: executor_inv_def)
  moreover have blank: "es_workers s '''' = None"
    using inv by (simp add: executor_inv_def tasks_inv_def)
  ultimately have old: "w \<noteq> [] \<and> ew_ID x = w" if "es_workers s w = Some x" for w x
    using that by fastforce
  show ?thesis
  proof (cases c)
    case (DoRegister clk newID err input)
    show ?thesis
      by (rule workers_inv[OF inv]) (use DoRegister pre step old blank in
        \<open>auto simp: RegisterWorker_def Let_def split: option.splits if_splits\<close>)
  next
    case (DoUnregister w)
    show ?thesis
      by (rule workers_inv[OF inv]) (use DoUnregister step old blank in \<open>auto simp: UnregisterWorker_def split: if_splits\<close>)
  next
    case (DoHeartbeat now w st l)
    show ?thesis
      by (rule workers_inv[OF inv]) (use DoHeartbeat pre step old blank in \<open>auto simp: Heartbeat_def split: option.splits if_splits\<close>)
  next
    case (DoHealthCheck now)
    then have s': "s' = healthCheck now s"
      using step by simp
    show ?thesis
    proof (rule workers_inv[OF inv])
      fix w x
      assume "es_workers s' w = Some x"
      then obtain y where "es_workers s w = Some y" "ew_ID x = ew_ID y" "ew_CurrentLoad x = ew_CurrentLoad y"
          "ew_Capacity x = ew_Capacity y"
        by (cases "es_workers s w") (auto simp: s' healthCheck_def)
      with old show "w \<noteq> '''' \<and> ew_ID x = w \<and> ((runningOn s w = {} \<and> ew_CurrentLoad x = 0) \<or>
          (\<exists>y. es_workers s w = Some y \<and> ew_CurrentLoad x = ew_CurrentLoad y \<and> ew_Capacity x = ew_Capacity y))"
        by simp
    qed (simp_all add: s' healthCheck_def)
  next
    case DoSubmit
    then show ?thesis
      using pre step SubmitTask_inv[OF inv] by auto
  next
    case DoComplete
    then show ?thesis
      using pre step CompleteTask_inv[OF inv] by auto
  next
    case DoFail
    then show ?thesis
      using pre step FailTask_inv[OF inv] by auto
  next
    case DoDispatch
    then show ?thesis
      using pre step dispatch_inv[OF inv] by auto
  next
    case DoWake
    then show ?thesis
      using step wakeDispatcher_inv[OF inv] by simp
  qed
qed

interpretation executor: aggregate executor_step executor_inv executor_pre
  by unfold_locales (rule executor_step_inv)

lemma executor_inv_new: "executor_inv NewExecutorService"
  by (simp add: executor_inv_def tasks_inv_def loads_inv_def NewExecutorService_def waiting_def)


text \<open>C17: As long as every run of a task is completed or failed once and heartbeats report the load the service knows,
  every worker's load is the number of the tasks that run on it, never negative and never above its capacity,
  after any commands, in any order.\<close>
theorem worker_load_exact:
  assumes "admissible executor_step executor_pre NewExecutorService cs"
    and "es_workers (attempts executor_step NewExecutorService cs) w = Some worker"
  shows "ew_CurrentLoad worker = int (card (runningOn (attempts executor_step NewExecutorService cs) w))
    \<and> (0 < ew_CurrentLoad worker \<longrightarrow> ew_CurrentLoad worker \<le> ew_Capacity worker)"
  using executor.run_inv[OF executor_inv_new assms(1)] assms(2) loads_invD unfolding executor_inv_def by blast

definition busy_commands :: "executor_command list" where
  "busy_commands =
     [DoRegister (\<lambda>_. 0) ''w'' None \<lparr> rw_Name = ''n'', rw_Host = ''h'', rw_Port = 1, rw_Capacity = 1, rw_Tags = [] \<rparr>,
      DoSubmit 1 ''t'' None \<lparr> si_ExecutionID = ''e'', si_NodeID = ''n'', si_Type = ''x'', si_Priority = 0, si_Input = None,
        si_MaxRetries = 0 \<rparr>,
      DoDispatch 2 [''w''] None]"

lemma busy_commands_run:
  "admissible executor_step executor_pre NewExecutorService busy_commands"
  "\<exists>worker. es_workers (attempts executor_step NewExecutorService busy_commands) ''w'' = Some worker
     \<and> ew_CurrentLoad worker = 1 \<and> ew_Status worker = ExecWorkerBusy"
  "et_WorkerID (the (es_tasks (attempts executor_step NewExecutorService busy_commands) ''t'')) = ''w''"
  by (simp_all add: busy_commands_def attempt_def NewExecutorService_def RegisterWorker_def SubmitTask_def enqueue_def
      dispatch_def selectWorker_def Task_Update_def runningOn_def Let_def)

lemma worker_load_exact_witness:
  "\<exists>worker. es_workers (attempts executor_step NewExecutorService busy_commands) ''w'' = Some worker
     \<and> int (card (runningOn (attempts executor_step NewExecutorService busy_commands) ''w'')) = 1 \<and> 1 \<le> ew_Capacity worker"
  using busy_commands_run(2) worker_load_exact[OF busy_commands_run(1), of "''w''"] by fastforce

definition a_worker :: "string \<Rightarrow> int \<Rightarrow> ExecWorker" where
  "a_worker w load = \<lparr> ew_ID = w, ew_Name = w, ew_Host = ''h'', ew_Port = 1, ew_Status = ExecWorkerIdle, ew_Capacity = 3,
     ew_CurrentLoad = load, ew_Tags = [], ew_LastHeartbeat = 0, ew_RegisteredAt = 0 \<rparr>"

definition two_workers :: ExecutorService where
  "two_workers = NewExecutorService\<lparr> es_workers := [''a'' \<mapsto> a_worker ''a'' 2, ''b'' \<mapsto> a_worker ''b'' 1] \<rparr>"

definition a_task :: ExecTask where
  "a_task = \<lparr> et_ID = ''t'', et_ExecutionID = ''e'', et_NodeID = ''n'', et_WorkerID = '''', et_Type = ''x'',
     et_Status = ExecTaskPending, et_Priority = 0, et_Input = None, et_Output = None, et_Error = '''', et_Tags = [],
     et_Retries = 0, et_MaxRetries = 0, et_CreatedAt = 0, et_StartedAt = None, et_CompletedAt = None \<rparr>"

lemma selectWorker_least_loaded_witness:
  "selectWorker [''a'', ''b''] a_task two_workers = Some (a_worker ''b'' 1)
     \<and> a_worker ''b'' 1 \<in> ran (es_workers two_workers) \<and> eligible a_task (a_worker ''b'' 1)"
proof -
  have sel: "selectWorker [''a'', ''b''] a_task two_workers = Some (a_worker ''b'' 1)"
    by (simp add: selectWorker_def two_workers_def a_worker_def a_task_def)
  have "case selectWorker [''a'', ''b''] a_task two_workers of
      None \<Rightarrow> \<forall>w \<in> ran (es_workers two_workers). \<not> eligible a_task w
    | Some b \<Rightarrow> b \<in> ran (es_workers two_workers) \<and> eligible a_task b
        \<and> (\<forall>w \<in> ran (es_workers two_workers). eligible a_task w \<longrightarrow> ew_CurrentLoad b \<le> ew_CurrentLoad w)"
    by (rule selectWorker_least_loaded) (auto simp: two_workers_def a_worker_def split: if_splits)
  then show ?thesis
    unfolding sel by simp
qed

text \<open>
  Reporting the end of a task twice releases its worker twice: the load falls below the number of the running tasks,
  and a worker that went offline is idle again.
\<close>

lemma completed_twice_negative:
  assumes "es_tasks s t = Some task" and "et_WorkerID task = w" and "w \<noteq> ''''" and "es_workers s w = Some worker"
    and "et_ID task = t" and "ew_CurrentLoad worker = 1" and "0 \<le> ew_Capacity worker"
  shows "\<exists>x. es_workers (snd (CompleteTask now2 t None out2 (snd (CompleteTask now1 t None out1 s)))) w = Some x
     \<and> ew_CurrentLoad x = -1 \<and> ew_Status x = ExecWorkerIdle"
  using assms by (simp add: CompleteTask_def released_def releaseWorker_def Task_Update_def Let_def)

text \<open>A retry that finds the queue full, and a dispatch that the repository does not accept, leave a pending task that waits nowhere.\<close>

lemma failed_dispatch_loses_task:
  assumes "executor_inv s" and "es_queue s = task # queue" and "es_held s = None"
    and "selectWorker order task (s\<lparr> es_queue := queue \<rparr>) = Some worker"
  shows "\<exists>s'. dispatch now order (Some e) s = Inr s' \<and> es_tasks s' (et_ID task) = Some task
     \<and> et_Status task = ExecTaskPending \<and> et_ID task \<notin> et_ID ` set (waiting s')"
  using assms by (simp add: dispatch_def executor_inv_def tasks_inv_def waiting_def)

end
