(* ===== verification/Sharing.thy ===== *)
theory Sharing
  imports Prelude
begin

text \<open>
  Sharing of workflows (\<open>internal/workflow/features/sharing.go\<close>): the service over the in-memory repository, which
  keeps the shares and the invitations by identifier. A loop over a map visits its keys in the order of
  the argument \<open>order\<close>. Permissions are strings, as in the code, since callers pass them in. Readings of the clock, new
  identifiers and tokens are arguments; \<open>ShareLinkOptions\<close> and \<open>UpdateShareOptions\<close> are records. \<open>share_step\<close> runs whole calls
  one after another; \<open>linkStep\<close> interleaves the operations of the repository that calls consist of.
\<close>

type_synonym SharePermission = string

definition PermissionView :: SharePermission where "PermissionView = ''view''"
definition PermissionExecute :: SharePermission where "PermissionExecute = ''execute''"
definition PermissionEdit :: SharePermission where "PermissionEdit = ''edit''"
definition PermissionAdmin :: SharePermission where "PermissionAdmin = ''admin''"

lemmas permission_defs = PermissionView_def PermissionExecute_def PermissionEdit_def PermissionAdmin_def

datatype ShareType = ShareTypeUser | ShareTypeWorkspace | ShareTypePublic | ShareTypeLink

record WorkflowShare =
  sh_ID :: string
  sh_WorkflowID :: string
  sh_OwnerID :: string
  sh_ShareType :: ShareType
  sh_TargetID :: string
  sh_Permission :: SharePermission
  sh_LinkToken :: string
  sh_ExpiresAt :: "time option"
  sh_Password :: string
  sh_MaxUses :: int
  sh_UseCount :: int
  sh_AllowCopy :: bool
  sh_AllowExecute :: bool
  sh_CreatedAt :: time
  sh_UpdatedAt :: time
  sh_CreatedBy :: string
  sh_Metadata :: dict

record ShareInvitation =
  inv_ID :: string
  inv_WorkflowID :: string
  inv_InviterID :: string
  inv_InviteeEmail :: string
  inv_Permission :: SharePermission
  inv_Token :: string
  inv_ExpiresAt :: time
  inv_Status :: string
  inv_CreatedAt :: time

datatype share_error =
    ErrShareNotFound
  | ErrInvalidPermission
  | ErrShareExpired
  | ErrAccessDenied
  | ErrAlreadyShared
  | ErrCannotShareWithSelf
  | ErrAlreadyProcessed

section \<open>The in-memory repository\<close>

record ShareRepository =
  sr_shares :: "string \<rightharpoonup> WorkflowShare"
  sr_invitations :: "string \<rightharpoonup> ShareInvitation"

definition NewInMemoryShareRepository :: ShareRepository where
  "NewInMemoryShareRepository = \<lparr> sr_shares = Map.empty, sr_invitations = Map.empty \<rparr>"

definition Share_Create :: "WorkflowShare \<Rightarrow> ShareRepository \<Rightarrow> ShareRepository" where
  "Share_Create share r = r\<lparr> sr_shares := (sr_shares r)(sh_ID share \<mapsto> share) \<rparr>"

definition Share_FindByID :: "string \<Rightarrow> ShareRepository \<Rightarrow> share_error + WorkflowShare" where
  "Share_FindByID i r = (case sr_shares r i of None \<Rightarrow> Inl ErrShareNotFound | Some share \<Rightarrow> Inr share)"

definition FindByWorkflowID :: "string list \<Rightarrow> string \<Rightarrow> ShareRepository \<Rightarrow> WorkflowShare list" where
  "FindByWorkflowID order workflowID r =
     filter (\<lambda>share. sh_WorkflowID share = workflowID) (List.map_filter (sr_shares r) order)"

definition FindByTargetID :: "string list \<Rightarrow> string \<Rightarrow> ShareType \<Rightarrow> ShareRepository \<Rightarrow> WorkflowShare list" where
  "FindByTargetID order targetID shareType r =
     filter (\<lambda>share. sh_TargetID share = targetID \<and> sh_ShareType share = shareType) (List.map_filter (sr_shares r) order)"

definition FindByLinkToken :: "string list \<Rightarrow> string \<Rightarrow> ShareRepository \<Rightarrow> share_error + WorkflowShare" where
  "FindByLinkToken order token r =
     (case find (\<lambda>share. sh_LinkToken share = token) (List.map_filter (sr_shares r) order) of
        None \<Rightarrow> Inl ErrShareNotFound
      | Some share \<Rightarrow> Inr share)"

definition Share_Update :: "WorkflowShare \<Rightarrow> ShareRepository \<Rightarrow> ShareRepository" where
  "Share_Update share r = r\<lparr> sr_shares := (sr_shares r)(sh_ID share \<mapsto> share) \<rparr>"

definition Share_Delete :: "string \<Rightarrow> ShareRepository \<Rightarrow> ShareRepository" where
  "Share_Delete i r = r\<lparr> sr_shares := (sr_shares r)(i := None) \<rparr>"

definition DeleteByWorkflowID :: "string \<Rightarrow> ShareRepository \<Rightarrow> ShareRepository" where
  "DeleteByWorkflowID workflowID r = r\<lparr> sr_shares := (\<lambda>i. case sr_shares r i of
       None \<Rightarrow> None
     | Some share \<Rightarrow> if sh_WorkflowID share = workflowID then None else Some share) \<rparr>"

definition IncrementUseCount :: "string \<Rightarrow> ShareRepository \<Rightarrow> ShareRepository" where
  "IncrementUseCount i r =
     (case sr_shares r i of
        None \<Rightarrow> r
      | Some share \<Rightarrow> r\<lparr> sr_shares := (sr_shares r)(i \<mapsto> share\<lparr> sh_UseCount := sh_UseCount share + 1 \<rparr>) \<rparr>)"

definition Create_Invitation :: "ShareInvitation \<Rightarrow> ShareRepository \<Rightarrow> ShareRepository" where
  "Create_Invitation i r = r\<lparr> sr_invitations := (sr_invitations r)(inv_ID i \<mapsto> i) \<rparr>"

definition FindInvitationByToken :: "string list \<Rightarrow> string \<Rightarrow> ShareRepository \<Rightarrow> share_error + ShareInvitation" where
  "FindInvitationByToken order token r =
     (case find (\<lambda>i. inv_Token i = token) (List.map_filter (sr_invitations r) order) of
        None \<Rightarrow> Inl ErrShareNotFound
      | Some i \<Rightarrow> Inr i)"

definition UpdateInvitation :: "ShareInvitation \<Rightarrow> ShareRepository \<Rightarrow> ShareRepository" where
  "UpdateInvitation i r = r\<lparr> sr_invitations := (sr_invitations r)(inv_ID i \<mapsto> i) \<rparr>"

definition DeleteInvitation :: "string \<Rightarrow> ShareRepository \<Rightarrow> ShareRepository" where
  "DeleteInvitation i r = r\<lparr> sr_invitations := (sr_invitations r)(i := None) \<rparr>"

definition FindPendingInvitations :: "string list \<Rightarrow> string \<Rightarrow> ShareRepository \<Rightarrow> ShareInvitation list" where
  "FindPendingInvitations order email r =
     filter (\<lambda>i. inv_InviteeEmail i = email \<and> inv_Status i = ''pending'') (List.map_filter (sr_invitations r) order)"

section \<open>The service\<close>

definition isValidPermission :: "SharePermission \<Rightarrow> bool" where
  "isValidPermission p \<longleftrightarrow> p \<in> {PermissionView, PermissionExecute, PermissionEdit, PermissionAdmin}"

text \<open>A permission that is not in the table reads as 0.\<close>

definition permissionRank :: "SharePermission \<Rightarrow> int" where
  "permissionRank p = (case [PermissionView \<mapsto> 1, PermissionExecute \<mapsto> 2, PermissionEdit \<mapsto> 3, PermissionAdmin \<mapsto> 4 :: int] p of
     None \<Rightarrow> 0 | Some n \<Rightarrow> n)"

definition hasPermission :: "SharePermission \<Rightarrow> SharePermission \<Rightarrow> bool" where
  "hasPermission granted required \<longleftrightarrow> permissionRank granted \<ge> permissionRank required"

text \<open>The share that \<open>ShareWithUser\<close>, \<open>ShareWithWorkspace\<close> and \<open>MakePublic\<close> build, but for its type and its flags.\<close>

definition plain_share :: "(nat \<Rightarrow> time) \<Rightarrow> string \<Rightarrow> string \<Rightarrow> string \<Rightarrow> ShareType \<Rightarrow> string \<Rightarrow> SharePermission \<Rightarrow> bool \<Rightarrow> bool \<Rightarrow> WorkflowShare" where
  "plain_share clk newID workflowID ownerID ty target permission copy exec =
     \<lparr> sh_ID = newID, sh_WorkflowID = workflowID, sh_OwnerID = ownerID, sh_ShareType = ty, sh_TargetID = target,
       sh_Permission = permission, sh_LinkToken = '''', sh_ExpiresAt = None, sh_Password = '''', sh_MaxUses = 0,
       sh_UseCount = 0, sh_AllowCopy = copy, sh_AllowExecute = exec, sh_CreatedAt = clk 0, sh_UpdatedAt = clk 1,
       sh_CreatedBy = ownerID, sh_Metadata = Map.empty \<rparr>"

definition ShareWithUser ::
  "(nat \<Rightarrow> time) \<Rightarrow> string \<Rightarrow> string list \<Rightarrow> string \<Rightarrow> string \<Rightarrow> string \<Rightarrow> SharePermission \<Rightarrow> ShareRepository
     \<Rightarrow> share_error + WorkflowShare \<times> ShareRepository" where
  "ShareWithUser clk newID order workflowID ownerID targetUserID permission r =
     (if ownerID = targetUserID then Inl ErrCannotShareWithSelf
      else if \<not> isValidPermission permission then Inl ErrInvalidPermission
      else if list_ex (\<lambda>share. sh_WorkflowID share = workflowID) (FindByTargetID order targetUserID ShareTypeUser r)
        then Inl ErrAlreadyShared
      else
        let share = plain_share clk newID workflowID ownerID ShareTypeUser targetUserID permission
              (permission = PermissionEdit \<or> permission = PermissionAdmin) (permission \<noteq> PermissionView)
        in Inr (share, Share_Create share r))"

definition ShareWithWorkspace ::
  "(nat \<Rightarrow> time) \<Rightarrow> string \<Rightarrow> string \<Rightarrow> string \<Rightarrow> string \<Rightarrow> SharePermission \<Rightarrow> ShareRepository
     \<Rightarrow> share_error + WorkflowShare \<times> ShareRepository" where
  "ShareWithWorkspace clk newID workflowID ownerID workspaceID permission r =
     (if \<not> isValidPermission permission then Inl ErrInvalidPermission
      else
        let share = plain_share clk newID workflowID ownerID ShareTypeWorkspace workspaceID permission
              (permission = PermissionEdit \<or> permission = PermissionAdmin) (permission \<noteq> PermissionView)
        in Inr (share, Share_Create share r))"

record ShareLinkOptions =
  lo_Permission :: SharePermission
  lo_ExpiresIn :: duration
  lo_Password :: string
  lo_MaxUses :: int
  lo_AllowCopy :: bool
  lo_AllowExecute :: bool

definition CreateShareLink ::
  "(nat \<Rightarrow> time) \<Rightarrow> string \<Rightarrow> string \<Rightarrow> string \<Rightarrow> string \<Rightarrow> ShareLinkOptions \<Rightarrow> ShareRepository
     \<Rightarrow> share_error + WorkflowShare \<times> ShareRepository" where
  "CreateShareLink clk newID linkToken workflowID ownerID opts r =
     (let permission = (if lo_Permission opts = '''' then PermissionView else lo_Permission opts) in
      if \<not> isValidPermission permission then Inl ErrInvalidPermission
      else
        let expiresAt = (if lo_ExpiresIn opts > 0 then Some (clk 0 + lo_ExpiresIn opts) else None);
            share = \<lparr> sh_ID = newID, sh_WorkflowID = workflowID, sh_OwnerID = ownerID, sh_ShareType = ShareTypeLink,
              sh_TargetID = '''', sh_Permission = permission, sh_LinkToken = linkToken, sh_ExpiresAt = expiresAt,
              sh_Password = lo_Password opts, sh_MaxUses = lo_MaxUses opts, sh_UseCount = 0,
              sh_AllowCopy = lo_AllowCopy opts, sh_AllowExecute = lo_AllowExecute opts, sh_CreatedAt = clk 1,
              sh_UpdatedAt = clk 2, sh_CreatedBy = ownerID, sh_Metadata = Map.empty \<rparr>
        in Inr (share, Share_Create share r))"

definition MakePublic ::
  "(nat \<Rightarrow> time) \<Rightarrow> string \<Rightarrow> string list \<Rightarrow> string \<Rightarrow> string \<Rightarrow> bool \<Rightarrow> ShareRepository \<Rightarrow> WorkflowShare \<times> ShareRepository" where
  "MakePublic clk newID order workflowID ownerID allowCopy r =
     (case find (\<lambda>share. sh_ShareType share = ShareTypePublic) (FindByWorkflowID order workflowID r) of
        Some share \<Rightarrow>
          let share1 = share\<lparr> sh_AllowCopy := allowCopy, sh_UpdatedAt := clk 0 \<rparr>
          in (share1, Share_Update share1 r)
      | None \<Rightarrow>
          let share = plain_share clk newID workflowID ownerID ShareTypePublic '''' PermissionView allowCopy False
          in (share, Share_Create share r))"

definition MakePrivate :: "string list \<Rightarrow> string \<Rightarrow> string \<Rightarrow> ShareRepository \<Rightarrow> ShareRepository" where
  "MakePrivate order workflowID ownerID r =
     (case find (\<lambda>share. sh_ShareType share = ShareTypePublic \<and> sh_OwnerID share = ownerID)
          (FindByWorkflowID order workflowID r) of
        Some share \<Rightarrow> Share_Delete (sh_ID share) r
      | None \<Rightarrow> r)"

text \<open>
  Opening a link: its share is looked up, checked, and its use is counted. The lookup and the count lock the repository one
  after the other, and the checks between them lock nothing. \<open>AccessShareLink\<close> is a call that runs alone; the section on
  links below takes it apart. The share that is returned is the one in the repository, so it shows the new count.
\<close>

definition linkChecks :: "time \<Rightarrow> string \<Rightarrow> WorkflowShare \<Rightarrow> share_error option" where
  "linkChecks now password share =
     (if (case sh_ExpiresAt share of None \<Rightarrow> False | Some t \<Rightarrow> now > t) then Some ErrShareExpired
      else if sh_MaxUses share > 0 \<and> sh_UseCount share \<ge> sh_MaxUses share then Some ErrShareExpired
      else if sh_Password share \<noteq> '''' \<and> sh_Password share \<noteq> password then Some ErrAccessDenied
      else None)"

definition accessChecks :: "time \<Rightarrow> string list \<Rightarrow> string \<Rightarrow> string \<Rightarrow> ShareRepository \<Rightarrow> share_error + WorkflowShare" where
  "accessChecks now order token password r =
     (case FindByLinkToken order token r of
        Inl _ \<Rightarrow> Inl ErrShareNotFound
      | Inr share \<Rightarrow> (case linkChecks now password share of Some e \<Rightarrow> Inl e | None \<Rightarrow> Inr share))"

definition AccessShareLink ::
  "time \<Rightarrow> string list \<Rightarrow> string \<Rightarrow> string \<Rightarrow> ShareRepository \<Rightarrow> share_error + WorkflowShare \<times> ShareRepository" where
  "AccessShareLink now order token password r =
     (case accessChecks now order token password r of
        Inl e \<Rightarrow> Inl e
      | Inr share \<Rightarrow>
          let r1 = IncrementUseCount (sh_ID share) r
          in Inr (share\<lparr> sh_UseCount := sh_UseCount share + 1 \<rparr>, r1))"

record UpdateShareOptions =
  uo_Permission :: "SharePermission option"
  uo_AllowCopy :: "bool option"
  uo_AllowExecute :: "bool option"
  uo_ExpiresAt :: "time option"

definition editShare :: "time \<Rightarrow> UpdateShareOptions \<Rightarrow> WorkflowShare \<Rightarrow> WorkflowShare" where
  "editShare now opts share =
     (let s1 = (case uo_Permission opts of
            Some p \<Rightarrow> if isValidPermission p then share\<lparr> sh_Permission := p \<rparr> else share
          | None \<Rightarrow> share);
          s2 = (case uo_AllowCopy opts of Some b \<Rightarrow> s1\<lparr> sh_AllowCopy := b \<rparr> | None \<Rightarrow> s1);
          s3 = (case uo_AllowExecute opts of Some b \<Rightarrow> s2\<lparr> sh_AllowExecute := b \<rparr> | None \<Rightarrow> s2);
          s4 = (case uo_ExpiresAt opts of Some t \<Rightarrow> s3\<lparr> sh_ExpiresAt := Some t \<rparr> | None \<Rightarrow> s3)
      in s4\<lparr> sh_UpdatedAt := now \<rparr>)"

definition UpdateShare ::
  "time \<Rightarrow> string \<Rightarrow> string \<Rightarrow> UpdateShareOptions \<Rightarrow> ShareRepository \<Rightarrow> share_error + WorkflowShare \<times> ShareRepository" where
  "UpdateShare now shareID requesterID opts r =
     (case Share_FindByID shareID r of
        Inl _ \<Rightarrow> Inl ErrShareNotFound
      | Inr share \<Rightarrow>
          if sh_OwnerID share \<noteq> requesterID then Inl ErrAccessDenied
          else Inr (editShare now opts share, Share_Update (editShare now opts share) r))"

definition RevokeShare :: "string \<Rightarrow> string \<Rightarrow> ShareRepository \<Rightarrow> share_error + ShareRepository" where
  "RevokeShare shareID requesterID r =
     (case Share_FindByID shareID r of
        Inl _ \<Rightarrow> Inl ErrShareNotFound
      | Inr share \<Rightarrow>
          if sh_OwnerID share \<noteq> requesterID then Inl ErrAccessDenied
          else Inr (Share_Delete shareID r))"

definition RevokeAllShares :: "string \<Rightarrow> string \<Rightarrow> ShareRepository \<Rightarrow> ShareRepository" where
  "RevokeAllShares workflowID ownerID r = DeleteByWorkflowID workflowID r"

definition CreateInvitation ::
  "(nat \<Rightarrow> time) \<Rightarrow> string \<Rightarrow> string \<Rightarrow> string \<Rightarrow> string \<Rightarrow> string \<Rightarrow> SharePermission \<Rightarrow> ShareRepository
     \<Rightarrow> share_error + ShareInvitation \<times> ShareRepository" where
  "CreateInvitation clk newID token workflowID inviterID email permission r =
     (if \<not> isValidPermission permission then Inl ErrInvalidPermission
      else
        let i = \<lparr> inv_ID = newID, inv_WorkflowID = workflowID, inv_InviterID = inviterID, inv_InviteeEmail = email,
              inv_Permission = permission, inv_Token = token, inv_ExpiresAt = clk 0 + 7 * 24 * Hour,
              inv_Status = ''pending'', inv_CreatedAt = clk 1 \<rparr>
        in Inr (i, Create_Invitation i r))"

definition AcceptInvitation ::
  "time \<Rightarrow> (nat \<Rightarrow> time) \<Rightarrow> string \<Rightarrow> string list \<Rightarrow> string list \<Rightarrow> string \<Rightarrow> string \<Rightarrow> ShareRepository
     \<Rightarrow> share_error + WorkflowShare \<times> ShareRepository" where
  "AcceptInvitation now clk newID invitations order token userID r =
     (case FindInvitationByToken invitations token r of
        Inl _ \<Rightarrow> Inl ErrShareNotFound
      | Inr i \<Rightarrow>
          if now > inv_ExpiresAt i then Inl ErrShareExpired
          else if inv_Status i \<noteq> ''pending'' then Inl ErrAlreadyProcessed
          else
            (case ShareWithUser clk newID order (inv_WorkflowID i) (inv_InviterID i) userID (inv_Permission i) r of
               Inl e \<Rightarrow> Inl e
             | Inr (share, r1) \<Rightarrow> Inr (share, UpdateInvitation (i\<lparr> inv_Status := ''accepted'' \<rparr>) r1)))"

definition CheckAccess :: "string list \<Rightarrow> string \<Rightarrow> string \<Rightarrow> SharePermission \<Rightarrow> ShareRepository \<Rightarrow> bool" where
  "CheckAccess order workflowID userID required r =
     list_ex (\<lambda>share. (sh_ShareType share = ShareTypePublic \<and> required = PermissionView)
         \<or> (sh_ShareType share = ShareTypeUser \<and> sh_TargetID share = userID \<and> hasPermission (sh_Permission share) required))
       (FindByWorkflowID order workflowID r)"


section \<open>Who may open a workflow\<close>

text \<open>A loop over all keys of a map sees exactly its values.\<close>

lemma set_values: "set order = dom m \<Longrightarrow> set (List.map_filter m order) = ran m"
  by (auto simp: List.map_filter_def ran_def dom_def image_iff split: option.splits) (metis option.sel)

lemma FindByWorkflowID_set:
  "set order = dom (sr_shares r) \<Longrightarrow> set (FindByWorkflowID order w r) = {share \<in> ran (sr_shares r). sh_WorkflowID share = w}"
  by (auto simp: FindByWorkflowID_def set_values)

lemma FindByTargetID_set:
  "set order = dom (sr_shares r) \<Longrightarrow> set (FindByTargetID order u ty r) =
     {share \<in> ran (sr_shares r). sh_TargetID share = u \<and> sh_ShareType share = ty}"
  by (auto simp: FindByTargetID_def set_values)

lemma CheckAccess_iff:
  assumes "set order = dom (sr_shares r)"
  shows "CheckAccess order w u required r \<longleftrightarrow> (\<exists>share \<in> ran (sr_shares r). sh_WorkflowID share = w \<and>
     (sh_ShareType share = ShareTypePublic \<and> required = PermissionView
      \<or> sh_ShareType share = ShareTypeUser \<and> sh_TargetID share = u \<and> hasPermission (sh_Permission share) required))"
  using FindByWorkflowID_set[OF assms, of w] by (auto simp: CheckAccess_def list_ex_iff)

text \<open>The permissions form a chain; a text that is none of them is below all.\<close>

lemma hasPermission_chain:
  "hasPermission PermissionAdmin p" "hasPermission p PermissionView \<longleftrightarrow> isValidPermission p"
  "hasPermission p PermissionAdmin \<longleftrightarrow> p = PermissionAdmin"
  "\<not> isValidPermission q \<Longrightarrow> hasPermission p q"
  by (auto simp: hasPermission_def permissionRank_def isValidPermission_def permission_defs split: if_splits)

section \<open>The shares of a repository\<close>

datatype share_command =
    CmdShareUser "nat \<Rightarrow> time" string "string list" string string string SharePermission
  | CmdShareWorkspace "nat \<Rightarrow> time" string string string string SharePermission
  | CmdShareLink "nat \<Rightarrow> time" string string string string ShareLinkOptions
  | CmdPublic "nat \<Rightarrow> time" string "string list" string string bool
  | CmdPrivate "string list" string string
  | CmdAccess time "string list" string string
  | CmdUpdate time string string UpdateShareOptions
  | CmdRevoke string string
  | CmdRevokeAll string string
  | CmdInvite "nat \<Rightarrow> time" string string string string string SharePermission
  | CmdAccept time "nat \<Rightarrow> time" string "string list" "string list" string string

fun share_step :: "share_command \<Rightarrow> ShareRepository \<Rightarrow> share_error + ShareRepository" where
  "share_step (CmdShareUser clk newID order w owner target p) r = map_sum id snd (ShareWithUser clk newID order w owner target p r)"
| "share_step (CmdShareWorkspace clk newID w owner ws p) r = map_sum id snd (ShareWithWorkspace clk newID w owner ws p r)"
| "share_step (CmdShareLink clk newID token w owner opts) r = map_sum id snd (CreateShareLink clk newID token w owner opts r)"
| "share_step (CmdPublic clk newID order w owner copy) r = Inr (snd (MakePublic clk newID order w owner copy r))"
| "share_step (CmdPrivate order w owner) r = Inr (MakePrivate order w owner r)"
| "share_step (CmdAccess now order token password) r = map_sum id snd (AccessShareLink now order token password r)"
| "share_step (CmdUpdate now i requester opts) r = map_sum id snd (UpdateShare now i requester opts r)"
| "share_step (CmdRevoke i requester) r = RevokeShare i requester r"
| "share_step (CmdRevokeAll w owner) r = Inr (RevokeAllShares w owner r)"
| "share_step (CmdInvite clk newID token w inviter email p) r = map_sum id snd (CreateInvitation clk newID token w inviter email p r)"
| "share_step (CmdAccept now clk newID invs order token u) r = map_sum id snd (AcceptInvitation now clk newID invs order token u r)"

text \<open>New identifiers are new, a new link token is not empty, and loops visit every key.\<close>

fun share_pre :: "ShareRepository \<Rightarrow> share_command \<Rightarrow> bool" where
  "share_pre r (CmdShareUser clk newID order w owner target p) \<longleftrightarrow> newID \<notin> dom (sr_shares r) \<and> set order = dom (sr_shares r)"
| "share_pre r (CmdShareWorkspace clk newID w owner ws p) \<longleftrightarrow> newID \<notin> dom (sr_shares r)"
| "share_pre r (CmdShareLink clk newID token w owner opts) \<longleftrightarrow> newID \<notin> dom (sr_shares r) \<and> token \<noteq> ''''"
| "share_pre r (CmdPublic clk newID order w owner copy) \<longleftrightarrow> newID \<notin> dom (sr_shares r) \<and> set order = dom (sr_shares r)"
| "share_pre r (CmdAccept now clk newID invs order token u) \<longleftrightarrow> newID \<notin> dom (sr_shares r) \<and> set order = dom (sr_shares r)"
| "share_pre r _ \<longleftrightarrow> True"

text \<open>
  A share is kept under its identifier; a share that is no link has no token, no password and no limit of uses; a link is
  used at most as often as its limit allows; and a workflow is shared with a user once.
\<close>

definition share_ok :: "WorkflowShare \<Rightarrow> bool" where
  "share_ok share \<longleftrightarrow> 0 \<le> sh_UseCount share \<and> (0 < sh_MaxUses share \<longrightarrow> sh_UseCount share \<le> sh_MaxUses share)
     \<and> (sh_ShareType share \<noteq> ShareTypeLink \<longrightarrow> sh_LinkToken share = '''' \<and> sh_Password share = '''' \<and> sh_MaxUses share = 0)"

definition same_grant :: "WorkflowShare \<Rightarrow> WorkflowShare \<Rightarrow> bool" where
  "same_grant a b \<longleftrightarrow> sh_ShareType a = ShareTypeUser \<and> sh_ShareType b = ShareTypeUser
     \<and> sh_WorkflowID a = sh_WorkflowID b \<and> sh_TargetID a = sh_TargetID b"

definition shares_inv :: "ShareRepository \<Rightarrow> bool" where
  "shares_inv r \<longleftrightarrow> (\<forall>i share. sr_shares r i = Some share \<longrightarrow> sh_ID share = i \<and> share_ok share)
     \<and> (\<forall>i j a b. sr_shares r i = Some a \<longrightarrow> sr_shares r j = Some b \<longrightarrow> same_grant a b \<longrightarrow> i = j)"

lemma shares_invD:
  assumes "shares_inv r" and "sr_shares r i = Some share"
  shows "sh_ID share = i" and "share_ok share"
  using assms by (simp_all add: shares_inv_def)

lemma shares_inv_once: "shares_inv r \<Longrightarrow> sr_shares r i = Some a \<Longrightarrow> sr_shares r j = Some b \<Longrightarrow> same_grant a b \<Longrightarrow> i = j"
  unfolding shares_inv_def by blast

text \<open>A share may be added if no other grants the same, rewritten if it keeps what it grants, and dropped.\<close>

lemma shares_inv_add:
  assumes "shares_inv r" and "sh_ID share = i" and "share_ok share" and "sr_shares r' = (sr_shares r)(i \<mapsto> share)"
    and "\<And>j b. j \<noteq> i \<Longrightarrow> sr_shares r j = Some b \<Longrightarrow> \<not> same_grant share b"
  shows "shares_inv r'"
proof -
  have sym: "same_grant a b = same_grant b a" for a b
    by (auto simp: same_grant_def)
  have "i' = j'" if ab: "sr_shares r' i' = Some a" "sr_shares r' j' = Some b" "same_grant a b" for i' j' a b
  proof (rule ccontr)
    assume ne: "i' \<noteq> j'"
    consider "i' = i" "j' \<noteq> i" | "i' \<noteq> i" "j' = i" | "i' \<noteq> i" "j' \<noteq> i"
      using ne by blast
    then show False
    proof cases
      case 1
      then show False
        using ab assms(4,5) by simp
    next
      case 2
      then show False
        using ab assms(4,5) sym by simp
    next
      case 3
      then show False
        using ab ne shares_inv_once[OF assms(1)] by (simp add: assms(4))
    qed
  qed
  moreover have "sh_ID a = j \<and> share_ok a" if "sr_shares r' j = Some a" for j a
    using that assms(2,3) shares_invD[OF assms(1)] by (cases "j = i") (auto simp: assms(4))
  ultimately show ?thesis
    unfolding shares_inv_def by blast
qed

lemma shares_inv_rewrite:
  assumes "shares_inv r" and "sr_shares r i = Some old" and "sh_ID share = i" and "share_ok share"
    and "sr_shares r' = (sr_shares r)(i \<mapsto> share)"
    and "sh_ShareType share = sh_ShareType old" and "sh_WorkflowID share = sh_WorkflowID old" and "sh_TargetID share = sh_TargetID old"
  shows "shares_inv r'"
proof (rule shares_inv_add[OF assms(1,3,4,5)])
  fix j b
  assume "j \<noteq> i" and "sr_shares r j = Some b"
  then have "\<not> same_grant old b"
    using shares_inv_once[OF assms(1,2)] by blast
  then show "\<not> same_grant share b"
    using assms(6-8) by (simp add: same_grant_def)
qed

lemma shares_inv_drop:
  assumes "shares_inv r" and "\<And>i share. sr_shares r' i = Some share \<Longrightarrow> sr_shares r i = Some share"
  shows "shares_inv r'"
  using assms unfolding shares_inv_def by blast


lemma plain_share_ok: "ty \<noteq> ShareTypeLink \<Longrightarrow> share_ok (plain_share clk newID w owner ty target p copy exec)"
  by (simp add: share_ok_def plain_share_def)

lemma plain_share_simps [simp]:
  "sh_ID (plain_share clk newID w owner ty target p copy exec) = newID"
  "sh_ShareType (plain_share clk newID w owner ty target p copy exec) = ty"
  "sh_TargetID (plain_share clk newID w owner ty target p copy exec) = target"
  "sh_WorkflowID (plain_share clk newID w owner ty target p copy exec) = w"
  "sh_OwnerID (plain_share clk newID w owner ty target p copy exec) = owner"
  "sh_Permission (plain_share clk newID w owner ty target p copy exec) = p"
  by (simp_all add: plain_share_def)

lemma ShareWithUser_inv:
  assumes inv: "shares_inv r" and step: "ShareWithUser clk newID order w owner target p r = Inr (share, r')"
    and pre: "newID \<notin> dom (sr_shares r)" "set order = dom (sr_shares r)"
  shows "shares_inv r'"
proof -
  have share: "share = plain_share clk newID w owner ShareTypeUser target p (p = PermissionEdit \<or> p = PermissionAdmin) (p \<noteq> PermissionView)"
    and r': "r' = Share_Create share r"
    and new: "\<not> list_ex (\<lambda>share. sh_WorkflowID share = w) (FindByTargetID order target ShareTypeUser r)"
    using step by (auto simp: ShareWithUser_def Let_def split: if_splits)
  show ?thesis
  proof (rule shares_inv_add[OF inv])
    show "sr_shares r' = (sr_shares r)(newID \<mapsto> share)" "sh_ID share = newID" "share_ok share"
      by (simp_all add: r' share Share_Create_def plain_share_ok)
    fix j b
    assume "sr_shares r j = Some b"
    then show "\<not> same_grant share b"
      using new by (auto simp: share same_grant_def list_ex_iff FindByTargetID_set[OF pre(2)] ran_def)
  qed
qed

lemma not_user_inv:
  assumes "shares_inv r" and "sh_ID share = newID" and "share_ok share" and "sh_ShareType share \<noteq> ShareTypeUser"
  shows "shares_inv (Share_Create share r)"
  by (rule shares_inv_add[OF assms(1-3)]) (use assms(2,4) in \<open>simp_all add: Share_Create_def same_grant_def\<close>)

lemma IncrementUseCount_inv:
  assumes inv: "shares_inv r" and share: "accessChecks now order token password r = Inr share"
  shows "shares_inv (IncrementUseCount (sh_ID share) r)"
proof -
  obtain i where i: "sr_shares r i = Some share"
    using share by (auto simp: accessChecks_def linkChecks_def FindByLinkToken_def List.map_filter_def split: option.splits sum.splits if_splits
        dest!: find_SomeD)
  have id: "sh_ID share = i" and ok: "share_ok share"
    using shares_invD[OF inv i] by auto
  have "\<not> (0 < sh_MaxUses share \<and> sh_UseCount share \<ge> sh_MaxUses share)"
    using share by (auto simp: accessChecks_def linkChecks_def split: option.splits sum.splits if_splits)
  then show ?thesis
    by (intro shares_inv_rewrite[OF inv i, where share = "share\<lparr> sh_UseCount := sh_UseCount share + 1 \<rparr>"])
      (use id ok i in \<open>auto simp: IncrementUseCount_def share_ok_def\<close>)
qed

lemma editShare_simps [simp]:
  "sh_ID (editShare now opts s) = sh_ID s" "sh_ShareType (editShare now opts s) = sh_ShareType s"
  "sh_WorkflowID (editShare now opts s) = sh_WorkflowID s" "sh_TargetID (editShare now opts s) = sh_TargetID s"
  "sh_UseCount (editShare now opts s) = sh_UseCount s" "sh_MaxUses (editShare now opts s) = sh_MaxUses s"
  "sh_LinkToken (editShare now opts s) = sh_LinkToken s" "sh_Password (editShare now opts s) = sh_Password s"
  by (simp_all add: editShare_def Let_def split: option.split)

lemma UpdateShare_inv:
  assumes inv: "shares_inv r" and step: "UpdateShare now i requester opts r = Inr (share, r')"
  shows "shares_inv r'"
proof -
  obtain old where old: "sr_shares r i = Some old"
    using step by (auto simp: UpdateShare_def Share_FindByID_def split: option.splits)
  have id: "sh_ID old = i" and ok: "share_ok old"
    using shares_invD[OF inv old] by auto
  have kept: "sh_ID share = sh_ID old" "sh_ShareType share = sh_ShareType old" "sh_WorkflowID share = sh_WorkflowID old"
      "sh_TargetID share = sh_TargetID old" "sh_UseCount share = sh_UseCount old" "sh_MaxUses share = sh_MaxUses old"
      "sh_LinkToken share = sh_LinkToken old" "sh_Password share = sh_Password old"
    and r': "r' = Share_Update share r"
    using step old by (auto simp: UpdateShare_def Share_FindByID_def Let_def split: if_splits option.splits)
  show ?thesis
    by (rule shares_inv_rewrite[OF inv old, where share = share])
      (use kept r' id ok in \<open>simp_all add: Share_Update_def share_ok_def\<close>)
qed

lemma MakePublic_inv:
  assumes inv: "shares_inv r"
  shows "shares_inv (snd (MakePublic clk newID order w owner copy r))"
proof (cases "find (\<lambda>share. sh_ShareType share = ShareTypePublic) (FindByWorkflowID order w r)")
  case None
  then show ?thesis
    using not_user_inv[OF inv, of "plain_share clk newID w owner ShareTypePublic '''' PermissionView copy False" newID]
    by (simp add: MakePublic_def Let_def plain_share_ok)
next
  case (Some share)
  then obtain i where i: "sr_shares r i = Some share"
    by (auto simp: FindByWorkflowID_def List.map_filter_def dest!: find_SomeD)
  have id: "sh_ID share = i" and ok: "share_ok share"
    using shares_invD[OF inv i] by auto
  show ?thesis
    by (rule shares_inv_rewrite[OF inv i, where share = "share\<lparr> sh_AllowCopy := copy, sh_UpdatedAt := clk 0 \<rparr>"])
      (use Some id ok in \<open>simp_all add: MakePublic_def Let_def Share_Update_def share_ok_def\<close>)
qed

lemma AcceptInvitation_grants:
  assumes "AcceptInvitation now clk newID invs order token u r = Inr (share, r')"
  shows "\<exists>(i :: ShareInvitation) r1. inv_Status i = ''pending'' \<and> now \<le> inv_ExpiresAt i \<and> sr_shares r' = sr_shares r1
    \<and> ShareWithUser clk newID order (inv_WorkflowID i) (inv_InviterID i) u (inv_Permission i) r = Inr (share, r1)"
  using assms by (auto simp: AcceptInvitation_def UpdateInvitation_def split: sum.splits if_splits prod.splits)

lemma shares_inv_cong: "shares_inv r \<Longrightarrow> sr_shares r' = sr_shares r \<Longrightarrow> shares_inv r'"
  by (simp add: shares_inv_def)

lemma share_step_inv:
  assumes inv: "shares_inv r" and pre: "share_pre r c" and step: "share_step c r = Inr r'"
  shows "shares_inv r'"
proof (cases c)
  case (CmdShareUser clk newID order w owner target p)
  then show ?thesis
    using pre step ShareWithUser_inv[OF inv, of clk newID order w owner target p]
    by (cases "ShareWithUser clk newID order w owner target p r") (auto simp del: domIff simp: domIff[symmetric])
next
  case (CmdShareWorkspace clk newID w owner ws p)
  then show ?thesis
    using pre step not_user_inv[OF inv] plain_share_ok by (auto simp: ShareWithWorkspace_def Let_def split: if_splits)
next
  case (CmdShareLink clk newID token w owner opts)
  show ?thesis
    using step CmdShareLink by (auto simp: CreateShareLink_def Let_def share_ok_def split: if_splits intro!: not_user_inv[OF inv])
next
  case (CmdPublic clk newID order w owner copy)
  then show ?thesis
    using step MakePublic_inv[OF inv] by auto
next
  case (CmdPrivate order w owner)
  have "sr_shares r i = Some share" if "sr_shares r' i = Some share" for i share
    using that step CmdPrivate by (auto simp: MakePrivate_def Share_Delete_def split: option.splits if_splits)
  then show ?thesis
    by (rule shares_inv_drop[OF inv])
next
  case (CmdAccess now order token password)
  then show ?thesis
    using step IncrementUseCount_inv[OF inv] by (auto simp: AccessShareLink_def Let_def split: sum.splits)
next
  case (CmdUpdate now i requester opts)
  then show ?thesis
    using step UpdateShare_inv[OF inv] by (cases "UpdateShare now i requester opts r") auto
next
  case (CmdRevoke i requester)
  have "sr_shares r j = Some share" if "sr_shares r' j = Some share" for j share
    using that step CmdRevoke by (auto simp: RevokeShare_def Share_FindByID_def Share_Delete_def split: option.splits if_splits)
  then show ?thesis
    by (rule shares_inv_drop[OF inv])
next
  case (CmdRevokeAll w owner)
  have "sr_shares r j = Some share" if "sr_shares r' j = Some share" for j share
    using that step CmdRevokeAll by (auto simp: RevokeAllShares_def DeleteByWorkflowID_def split: option.splits if_splits)
  then show ?thesis
    by (rule shares_inv_drop[OF inv])
next
  case (CmdInvite clk newID token w inviter email p)
  then show ?thesis
    using step by (auto simp: CreateInvitation_def Create_Invitation_def Let_def split: if_splits intro: shares_inv_cong[OF inv])
next
  case (CmdAccept now clk newID invs order token u)
  then obtain share where "AcceptInvitation now clk newID invs order token u r = Inr (share, r')"
    using step by (cases "AcceptInvitation now clk newID invs order token u r") auto
  then obtain i :: ShareInvitation and r1 where "ShareWithUser clk newID order (inv_WorkflowID i) (inv_InviterID i) u (inv_Permission i) r = Inr (share, r1)"
      and "sr_shares r' = sr_shares r1"
    using AcceptInvitation_grants by blast
  then show ?thesis
    using ShareWithUser_inv[OF inv, of clk newID order _ _ u _ share r1] pre CmdAccept shares_inv_cong[of r1 r'] by auto
qed

interpretation sharing: aggregate share_step shares_inv share_pre
  by unfold_locales (rule share_step_inv)

lemma shares_inv_new: "shares_inv NewInMemoryShareRepository"
  by (simp add: shares_inv_def NewInMemoryShareRepository_def)


section \<open>What the sharing service grants\<close>

text \<open>C18: Revoking the share of a user takes the workflow away from that user: after any commands and a successful
  revocation by the owner of the share, no permission is granted to the user for the workflow, but the
  view of a workflow that is public.\<close>
theorem revoked_user_has_no_access:
  assumes "admissible share_step share_pre NewInMemoryShareRepository cs"
    and "r = attempts share_step NewInMemoryShareRepository cs"
    and "sr_shares r i = Some share" and "sh_ShareType share = ShareTypeUser"
    and "RevokeShare i (sh_OwnerID share) r = Inr r'" and "set order = dom (sr_shares r')"
  shows "CheckAccess order (sh_WorkflowID share) (sh_TargetID share) required r' \<longleftrightarrow>
     required = PermissionView \<and> (\<exists>p \<in> ran (sr_shares r). sh_WorkflowID p = sh_WorkflowID share \<and> sh_ShareType p = ShareTypePublic)"
proof -
  have inv: "shares_inv r"
    using sharing.run_inv[OF shares_inv_new assms(1)] assms(2) by simp
  have r': "sr_shares r' = (sr_shares r)(i := None)"
    using assms(3,5) by (auto simp: RevokeShare_def Share_FindByID_def Share_Delete_def)
  have "\<not> (sh_WorkflowID p = sh_WorkflowID share \<and> sh_ShareType p = ShareTypeUser \<and> sh_TargetID p = sh_TargetID share)"
    if p: "p \<in> ran (sr_shares r')" for p
  proof -
    obtain j where "j \<noteq> i" "sr_shares r j = Some p"
      using p by (auto simp: r' ran_def split: if_splits)
    then show ?thesis
      using shares_inv_once[OF inv assms(3)] assms(4) by (fastforce simp: same_grant_def)
  qed
  moreover have "p \<in> ran (sr_shares r') \<longleftrightarrow> p \<in> ran (sr_shares r)" if "sh_ShareType p = ShareTypePublic" for p
  proof -
    have "sr_shares r j = Some p \<Longrightarrow> j \<noteq> i" for j
      using that assms(3,4) by auto
    then show ?thesis
      unfolding r' ran_def by auto
  qed
  ultimately show ?thesis
    unfolding CheckAccess_iff[OF assms(6)] by blast
qed

text \<open>The empty token opens every share that is not a link: whatever the password, \<open>AccessShareLink\<close> returns a share
  granted to one user, to a workspace or to the public, unless it has expired.\<close>
theorem empty_token_opens_share:
  assumes "admissible share_step share_pre NewInMemoryShareRepository cs"
    and "r = attempts share_step NewInMemoryShareRepository cs"
    and "sr_shares r i = Some share" and "sh_ShareType share \<noteq> ShareTypeLink" and "\<forall>t. sh_ExpiresAt share = Some t \<longrightarrow> now \<le> t"
    and "set keys = dom (sr_shares r)"
  shows "\<exists>order opened r'. set order = dom (sr_shares r) \<and> AccessShareLink now order '''' password r = Inr (opened, r')
    \<and> sh_ID opened = i \<and> sh_Permission opened = sh_Permission share"
proof -
  have "shares_inv r"
    using sharing.run_inv[OF shares_inv_new assms(1)] assms(2) by simp
  then have share: "sh_ID share = i" "sh_LinkToken share = ''''" "sh_Password share = ''''" "sh_MaxUses share = 0"
    using shares_invD assms(3,4) by (fastforce simp: share_ok_def)+
  have "find (\<lambda>s. sh_LinkToken s = '''') (List.map_filter (sr_shares r) (i # keys)) = Some share"
    using assms(3) share by (simp add: List.map_filter_simps)
  then have "AccessShareLink now (i # keys) '''' password r =
      Inr (share\<lparr> sh_UseCount := sh_UseCount share + 1 \<rparr>, IncrementUseCount i r)"
    using share assms(5) by (auto simp: AccessShareLink_def accessChecks_def linkChecks_def FindByLinkToken_def Let_def not_less split: option.split)
  then show ?thesis
    using share assms(3,6) by (intro exI[of _ "i # keys"]) auto
qed

definition one_share :: "share_command list" where
  "one_share = [CmdShareUser (\<lambda>_. 0) ''s'' [] ''w'' ''o'' ''u'' PermissionEdit]"

definition the_share :: WorkflowShare where
  "the_share = plain_share (\<lambda>_. 0) ''s'' ''w'' ''o'' ShareTypeUser ''u'' PermissionEdit True True"

definition one_share_repo :: ShareRepository where
  "one_share_repo = Share_Create the_share NewInMemoryShareRepository"

lemma one_share_run:
  "admissible share_step share_pre NewInMemoryShareRepository one_share"
  "one_share_repo = attempts share_step NewInMemoryShareRepository one_share"
  by (simp_all add: one_share_def one_share_repo_def the_share_def attempt_def ShareWithUser_def NewInMemoryShareRepository_def
      isValidPermission_def FindByTargetID_def List.map_filter_def permission_defs Let_def)

lemma revoked_user_has_no_access_witness:
  "\<not> CheckAccess [] ''w'' ''u'' PermissionEdit (Share_Delete ''s'' one_share_repo)"
  using revoked_user_has_no_access[OF one_share_run, where i = "''s''" and share = the_share and order = "[]"
      and required = PermissionEdit and r' = "Share_Delete ''s'' one_share_repo"]
  by (simp add: one_share_repo_def the_share_def plain_share_def Share_Create_def NewInMemoryShareRepository_def RevokeShare_def
      Share_FindByID_def Share_Delete_def permission_defs)

lemma empty_token_opens_share_witness:
  "\<exists>order opened r'. set order = {''s''} \<and> AccessShareLink 7 order '''' ''guess'' one_share_repo = Inr (opened, r')
     \<and> sh_ID opened = ''s'' \<and> sh_Permission opened = PermissionEdit"
  using empty_token_opens_share[OF one_share_run, where i = "''s''" and share = the_share and now = 7 and keys = "[''s'']"
      and password = "''guess''"]
  by (simp add: one_share_repo_def the_share_def plain_share_def Share_Create_def NewInMemoryShareRepository_def)

section \<open>Links under concurrent calls\<close>

text \<open>
  The calls of the service run in goroutines of their own, and the repository hands out its objects: a call holds the share
  that it found, and what it writes into it every other call sees. A step here is one operation of the repository under its
  lock, or what a call does between two of them. \<open>sl_objects\<close> are the shares ever made, by their identifiers, \<open>sl_present\<close>
  says which of them are in the map, and \<open>sl_underway\<close> holds the accesses that have found their share and have not ended.
  Every operation of the service is a sequence of such steps (\<open>command_in_steps\<close>, \<open>access_in_steps\<close>).
\<close>

record LinkAccess =
  la_share :: string
  la_password :: string
  la_checked :: bool

record ShareWorld =
  sl_objects :: "string \<rightharpoonup> WorkflowShare"
  sl_present :: "string set"
  sl_underway :: "LinkAccess list"

datatype link_step =
    LinkFind "string list" string string
  | LinkCheck nat time
  | LinkCount nat
  | ShareAdded WorkflowShare
  | ShareEdited string time UpdateShareOptions
  | ShareStored string
  | ShareRemoved string
  | SharesRemoved string

definition presentShares :: "ShareWorld \<Rightarrow> string \<rightharpoonup> WorkflowShare" where
  "presentShares w = (\<lambda>i. if i \<in> sl_present w then sl_objects w i else None)"

definition editObject :: "string \<Rightarrow> (WorkflowShare \<Rightarrow> WorkflowShare) \<Rightarrow> ShareWorld \<Rightarrow> ShareWorld" where
  "editObject i f w = w\<lparr> sl_objects := (sl_objects w)(i := map_option f (sl_objects w i)) \<rparr>"

definition withoutAt :: "nat \<Rightarrow> 'a list \<Rightarrow> 'a list" where
  "withoutAt n xs = take n xs @ drop (Suc n) xs"

definition countUse :: "WorkflowShare \<Rightarrow> WorkflowShare" where
  "countUse share = share\<lparr> sh_UseCount := sh_UseCount share + 1 \<rparr>"

text \<open>A step gives the link that it opened, if any, and whether the use was counted.\<close>

fun linkStep :: "link_step \<Rightarrow> ShareWorld \<Rightarrow> (string \<times> bool) list \<times> ShareWorld" where
  "linkStep (LinkFind order token password) w =
     (case FindByLinkToken order token \<lparr> sr_shares = presentShares w, sr_invitations = Map.empty \<rparr> of
        Inl _ \<Rightarrow> ([], w)
      | Inr share \<Rightarrow>
          ([], w\<lparr> sl_underway := sl_underway w @ [\<lparr> la_share = sh_ID share, la_password = password, la_checked = False \<rparr>] \<rparr>))"
| "linkStep (LinkCheck n now) w =
     (if n < length (sl_underway w) \<and> \<not> la_checked (sl_underway w ! n)
      then (case sl_objects w (la_share (sl_underway w ! n)) of
          None \<Rightarrow> ([], w)
        | Some share \<Rightarrow>
          (case linkChecks now (la_password (sl_underway w ! n)) share of
             Some e \<Rightarrow> ([], w\<lparr> sl_underway := withoutAt n (sl_underway w) \<rparr>)
           | None \<Rightarrow> ([], w\<lparr> sl_underway := (sl_underway w)[n := (sl_underway w ! n)\<lparr> la_checked := True \<rparr>] \<rparr>)))
      else ([], w))"
| "linkStep (LinkCount n) w =
     (if n < length (sl_underway w) \<and> la_checked (sl_underway w ! n)
      then
        let i = la_share (sl_underway w ! n);
            w1 = (if i \<in> sl_present w then editObject i countUse w else w)
        in ([(i, i \<in> sl_present w)], w1\<lparr> sl_underway := withoutAt n (sl_underway w) \<rparr>)
      else ([], w))"
| "linkStep (ShareAdded share) w =
     ([], w\<lparr> sl_objects := (sl_objects w)(sh_ID share \<mapsto> share), sl_present := insert (sh_ID share) (sl_present w) \<rparr>)"
| "linkStep (ShareEdited i now opts) w = ([], editObject i (editShare now opts) w)"
| "linkStep (ShareStored i) w = ([], if sl_objects w i = None then w else w\<lparr> sl_present := insert i (sl_present w) \<rparr>)"
| "linkStep (ShareRemoved i) w = ([], w\<lparr> sl_present := sl_present w - {i} \<rparr>)"
| "linkStep (SharesRemoved workflowID) w =
     ([], w\<lparr> sl_present := Set.filter (\<lambda>i. case sl_objects w i of None \<Rightarrow> True | Some share \<Rightarrow> sh_WorkflowID share \<noteq> workflowID)
        (sl_present w) \<rparr>)"

fun linkRun :: "link_step list \<Rightarrow> ShareWorld \<Rightarrow> (string \<times> bool) list \<times> ShareWorld" where
  "linkRun [] w = ([], w)"
| "linkRun (c # cs) w = (case linkStep c w of (os, w1) \<Rightarrow> (case linkRun cs w1 of (ps, w2) \<Rightarrow> (os @ ps, w2)))"

text \<open>Every share is kept under its own identifier.\<close>

definition ownIDs :: "ShareWorld \<Rightarrow> bool" where
  "ownIDs w \<longleftrightarrow> (\<forall>i share. sl_objects w i = Some share \<longrightarrow> sh_ID share = i)"

fun addedID :: "link_step \<Rightarrow> string option" where
  "addedID (ShareAdded share) = Some (sh_ID share)"
| "addedID _ = None"

lemma countUse_simps [simp]:
  "sh_ID (countUse s) = sh_ID s" "sh_MaxUses (countUse s) = sh_MaxUses s" "sh_UseCount (countUse s) = sh_UseCount s + 1"
  by (simp_all add: countUse_def)

lemma ownIDs_step: "ownIDs w \<Longrightarrow> ownIDs (snd (linkStep c w))"
  by (cases c) (auto simp: ownIDs_def editObject_def Let_def split: sum.splits option.splits)

lemma FindByLinkToken_in:
  "FindByLinkToken order token r = Inr share \<Longrightarrow> \<exists>i. sr_shares r i = Some share"
  by (auto simp: FindByLinkToken_def List.map_filter_def split: option.splits dest!: find_SomeD) blast

subsection \<open>The operations of the service are sequences of steps\<close>

text \<open>An access that runs alone is \<open>AccessShareLink\<close>.\<close>

lemma access_in_steps:
  assumes "ownIDs w" and "sr_shares r = presentShares w"
  shows "case AccessShareLink now order token password r of
      Inl e \<Rightarrow> fst (linkRun [LinkFind order token password, LinkCheck (length (sl_underway w)) now, LinkCount (length (sl_underway w))] w) = []
    | Inr (share, r') \<Rightarrow> (\<exists>w'. linkRun [LinkFind order token password, LinkCheck (length (sl_underway w)) now, LinkCount (length (sl_underway w))] w
          = ([(sh_ID share, True)], w') \<and> presentShares w' = sr_shares r' \<and> sl_underway w' = sl_underway w)"
proof (cases "FindByLinkToken order token r")
  case (Inl e)
  then show ?thesis
    using assms(2) by (simp add: AccessShareLink_def accessChecks_def FindByLinkToken_def split: option.splits)
next
  case (Inr s)
  then obtain i where "sr_shares r i = Some s"
    using FindByLinkToken_in by blast
  then have s: "sl_objects w i = Some s" "i \<in> sl_present w" "sh_ID s = i" "sr_shares r i = Some s"
    using assms by (auto simp: presentShares_def ownIDs_def split: if_splits)
  have found: "FindByLinkToken order token \<lparr> sr_shares = presentShares w, sr_invitations = Map.empty \<rparr> = Inr s"
    using Inr assms(2) by (simp add: FindByLinkToken_def)
  show ?thesis
    using s Inr found assms(2) by (auto simp: AccessShareLink_def accessChecks_def IncrementUseCount_def presentShares_def editObject_def
        countUse_def withoutAt_def nth_append fun_eq_iff split: option.splits)
qed

text \<open>Every other operation is a sequence of steps that open nothing.\<close>

fun administrative :: "link_step \<Rightarrow> bool" where
  "administrative (LinkFind order token password) = False"
| "administrative (LinkCheck n now) = False"
| "administrative (LinkCount n) = False"
| "administrative _ = True"

fun isAccess :: "share_command \<Rightarrow> bool" where
  "isAccess (CmdAccess now order token password) = True"
| "isAccess _ = False"

definition inSteps :: "ShareWorld \<Rightarrow> (string \<rightharpoonup> WorkflowShare) \<Rightarrow> bool" where
  "inSteps w m \<longleftrightarrow> (\<exists>cs w'. list_all administrative cs \<and> linkRun cs w = ([], w') \<and> presentShares w' = m)"

lemma inSteps_none: "presentShares w = m \<Longrightarrow> inSteps w m"
  unfolding inSteps_def by (rule exI[of _ "[]"]) simp

lemma inSteps_add: "presentShares w = m \<Longrightarrow> sh_ID share = i \<Longrightarrow> inSteps w (m(i \<mapsto> share))"
  unfolding inSteps_def by (rule exI[of _ "[ShareAdded share]"]) (auto simp: presentShares_def)

lemma inSteps_remove: "presentShares w = m \<Longrightarrow> inSteps w (m(i := None))"
  unfolding inSteps_def by (rule exI[of _ "[ShareRemoved i]"]) (auto simp: presentShares_def)

lemma inSteps_edit:
  assumes "presentShares w = m" and "m i = Some share"
  shows "inSteps w (m(i \<mapsto> editShare now opts share))"
  unfolding inSteps_def
  by (rule exI[of _ "[ShareEdited i now opts, ShareStored i]"])
    (use assms in \<open>auto simp: presentShares_def editObject_def split: if_splits\<close>)

lemma command_in_steps:
  assumes own: "ownIDs w" and r: "presentShares w = sr_shares r" and step: "share_step c r = Inr r'" and "\<not> isAccess c"
  shows "inSteps w (sr_shares r')"
proof -
  have id: "sr_shares r i = Some s \<Longrightarrow> sh_ID s = i" for i s
    using own r by (auto simp: ownIDs_def presentShares_def fun_eq_iff split: if_splits) (metis option.distinct(1))
  show ?thesis
  proof (cases c)
    case CmdShareUser
    then show ?thesis
      using step by (auto simp: ShareWithUser_def Share_Create_def Let_def split: if_splits intro!: inSteps_add[OF r])
  next
    case CmdShareWorkspace
    then show ?thesis
      using step by (auto simp: ShareWithWorkspace_def Share_Create_def Let_def split: if_splits intro!: inSteps_add[OF r])
  next
    case CmdShareLink
    then show ?thesis
      using step by (auto simp: CreateShareLink_def Share_Create_def Let_def split: if_splits intro!: inSteps_add[OF r])
  next
    case (CmdPublic clk newID order wf owner copy)
    show ?thesis
    proof (cases "find (\<lambda>s. sh_ShareType s = ShareTypePublic) (FindByWorkflowID order wf r)")
      case None
      then show ?thesis
        using step CmdPublic by (auto simp: MakePublic_def Share_Create_def Let_def intro!: inSteps_add[OF r])
    next
      case (Some s)
      then obtain i where i: "sr_shares r i = Some s"
        by (auto simp: FindByWorkflowID_def List.map_filter_def dest!: find_SomeD)
      let ?opts = "\<lparr> uo_Permission = None, uo_AllowCopy = Some copy, uo_AllowExecute = None, uo_ExpiresAt = None \<rparr>"
      have "sr_shares r' = (sr_shares r)(i \<mapsto> editShare (clk 0) ?opts s)"
        using step CmdPublic Some id[OF i] by (auto simp: MakePublic_def Share_Update_def editShare_def Let_def)
      then show ?thesis
        using inSteps_edit[OF r i] by simp
    qed
  next
    case (CmdUpdate now i requester opts)
    then obtain s where s: "sr_shares r i = Some s" "sr_shares r' = (sr_shares r)(sh_ID s \<mapsto> editShare now opts s)"
      using step by (auto simp: UpdateShare_def Share_FindByID_def Share_Update_def split: if_splits option.splits)
    then show ?thesis
      using inSteps_edit[OF r s(1)] id by simp
  next
    case (CmdAccept now clk newID invs order token u)
    then obtain s where "AcceptInvitation now clk newID invs order token u r = Inr (s, r')"
      using step by (cases "AcceptInvitation now clk newID invs order token u r") auto
    then obtain inv :: ShareInvitation and r1 where
        "ShareWithUser clk newID order (inv_WorkflowID inv) (inv_InviterID inv) u (inv_Permission inv) r = Inr (s, r1)"
        and "sr_shares r' = sr_shares r1"
      using AcceptInvitation_grants by blast
    then show ?thesis
      by (auto simp: ShareWithUser_def Share_Create_def Let_def split: if_splits intro!: inSteps_add[OF r])
  next
    case (CmdRevokeAll wf owner)
    have "inSteps w (presentShares (snd (linkStep (SharesRemoved wf) w)))"
      unfolding inSteps_def by (rule exI[of _ "[SharesRemoved wf]"]) simp
    moreover have "presentShares (snd (linkStep (SharesRemoved wf) w)) = sr_shares r'"
      using step CmdRevokeAll by (auto simp: RevokeAllShares_def DeleteByWorkflowID_def r[symmetric] presentShares_def split: option.split)
    ultimately show ?thesis
      by simp
  next
    case CmdPrivate
    then show ?thesis
      using step inSteps_remove[OF r] inSteps_none[OF r] by (auto simp: MakePrivate_def Share_Delete_def split: option.splits)
  next
    case CmdRevoke
    then show ?thesis
      using step inSteps_remove[OF r] by (auto simp: RevokeShare_def Share_FindByID_def Share_Delete_def split: option.splits if_splits)
  next
    case CmdInvite
    then show ?thesis
      using step inSteps_none[OF r] by (auto simp: CreateInvitation_def Create_Invitation_def Let_def split: if_splits)
  qed (use assms(4) in simp)
qed

subsection \<open>How often a link is opened\<close>

text \<open>The accesses to a share that have passed the checks and have not counted their use, and the most there are at once in a run.\<close>

definition passedChecks :: "string \<Rightarrow> ShareWorld \<Rightarrow> int" where
  "passedChecks i w = int (length (filter (\<lambda>a. la_share a = i \<and> la_checked a) (sl_underway w)))"

fun mostPassed :: "string \<Rightarrow> link_step list \<Rightarrow> ShareWorld \<Rightarrow> int" where
  "mostPassed i [] w = passedChecks i w"
| "mostPassed i (c # cs) w = max (passedChecks i w) (mostPassed i cs (snd (linkStep c w)))"

text \<open>The times a link is opened, and those of them that did not count because the link had been revoked by then.\<close>

definition openedIn :: "string \<Rightarrow> (string \<times> bool) list \<Rightarrow> int" where
  "openedIn i os = int (length (filter (\<lambda>p. fst p = i) os))"

definition openedRevoked :: "string \<Rightarrow> (string \<times> bool) list \<Rightarrow> int" where
  "openedRevoked i os = int (length (filter (\<lambda>p. p = (i, False)) os))"

lemma opened_append [simp]:
  "openedIn i (os @ ps) = openedIn i os + openedIn i ps" "openedRevoked i (os @ ps) = openedRevoked i os + openedRevoked i ps"
  by (simp_all add: openedIn_def openedRevoked_def)

lemma opened_Nil [simp]: "openedIn i [] = 0" "openedRevoked i [] = 0"
  by (simp_all add: openedIn_def openedRevoked_def)

lemma passedChecks_nonneg: "0 \<le> passedChecks i w"
  by (simp add: passedChecks_def)

lemma passed_le_most: "passedChecks i w \<le> mostPassed i cs w"
  by (cases cs) auto

lemma filter_withoutAt:
  assumes "n < length xs"
  shows "int (length (filter P (withoutAt n xs))) = int (length (filter P xs)) - (if P (xs ! n) then 1 else 0)"
proof -
  have "length (filter P xs) = length (filter P (take n xs @ xs ! n # drop (Suc n) xs))"
    by (rule arg_cong[OF id_take_nth_drop[OF assms], of "\<lambda>xs. length (filter P xs)"])
  then show ?thesis
    by (simp add: withoutAt_def)
qed

lemma filter_update:
  assumes "n < length xs"
  shows "int (length (filter P (xs[n := a]))) = int (length (filter P xs)) - (if P (xs ! n) then 1 else 0) + (if P a then 1 else 0)"
proof -
  have "length (filter P (xs[n := a])) = length (filter P (take n xs)) + (if P a then 1 else 0) + length (filter P (drop (Suc n) xs))"
    by (simp add: upd_conv_take_nth_drop[OF assms])
  then show ?thesis
    using filter_withoutAt[OF assms, of P] by (simp add: withoutAt_def)
qed

text \<open>A step keeps the limit of a share, opens it only for an access that has passed, and lets an access pass only below the limit.\<close>

lemma linkStep_uses:
  assumes "sl_objects w i = Some s" and "0 < sh_MaxUses s" and "addedID c \<noteq> Some i" and "linkStep c w = (os, w1)"
  shows "\<exists>s1. sl_objects w1 i = Some s1 \<and> sh_MaxUses s1 = sh_MaxUses s
    \<and> sh_UseCount s1 = sh_UseCount s + openedIn i os - openedRevoked i os
    \<and> (passedChecks i w1 = passedChecks i w - openedIn i os
        \<or> os = [] \<and> passedChecks i w1 = passedChecks i w + 1 \<and> sh_UseCount s < sh_MaxUses s)
    \<and> openedRevoked i os \<le> openedIn i os"
proof (cases c)
  case (LinkFind order token password)
  then show ?thesis
    using assms by (auto simp: passedChecks_def split: sum.splits)
next
  case (LinkCheck n now)
  let ?a = "sl_underway w ! n" and ?P = "\<lambda>a. la_share a = i \<and> la_checked a"
  show ?thesis
  proof (cases "n < length (sl_underway w) \<and> \<not> la_checked ?a \<and> sl_objects w (la_share ?a) \<noteq> None")
    case False
    then have "os = []" "w1 = w"
      using assms(4) LinkCheck by (auto split: if_splits option.splits)
    then show ?thesis
      using assms(1) by simp
  next
    case True
    then obtain x where x: "sl_objects w (la_share ?a) = Some x"
      by auto
    have n: "n < length (sl_underway w)" "\<not> la_checked ?a"
      using True by blast+
    show ?thesis
    proof (cases "linkChecks now (la_password ?a) x")
      case (Some e)
      then have "os = []" "sl_objects w1 = sl_objects w" "sl_underway w1 = withoutAt n (sl_underway w)"
        using assms(4) LinkCheck n x by auto
      then show ?thesis
        using assms(1) filter_withoutAt[OF n(1), of ?P] n(2) by (simp add: passedChecks_def)
    next
      case None
      then have w1: "os = []" "sl_objects w1 = sl_objects w" "sl_underway w1 = (sl_underway w)[n := ?a\<lparr> la_checked := True \<rparr>]"
        using assms(4) LinkCheck n x by auto
      moreover have "passedChecks i w1 = passedChecks i w + (if la_share ?a = i then 1 else 0)"
        using filter_update[OF n(1), of ?P "?a\<lparr> la_checked := True \<rparr>"] n(2) by (simp add: passedChecks_def w1(3))
      moreover have "sh_UseCount s < sh_MaxUses s" if "la_share ?a = i"
        using that None x assms(1,2) by (auto simp: linkChecks_def split: if_splits)
      ultimately show ?thesis
        using assms(1) by auto
    qed
  qed
next
  case (LinkCount n)
  let ?a = "sl_underway w ! n" and ?P = "\<lambda>a. la_share a = i \<and> la_checked a"
  show ?thesis
  proof (cases "n < length (sl_underway w) \<and> la_checked ?a")
    case False
    then have "os = []" "w1 = w"
      using assms(4) LinkCount by (auto split: if_splits)
    then show ?thesis
      using assms(1) by simp
  next
    case True
    let ?j = "la_share ?a"
    have w1: "os = [(?j, ?j \<in> sl_present w)]" "sl_underway w1 = withoutAt n (sl_underway w)"
        "sl_objects w1 = sl_objects (if ?j \<in> sl_present w then editObject ?j countUse w else w)"
      using assms(4) LinkCount True by (auto simp: Let_def editObject_def)
    have "passedChecks i w1 = passedChecks i w - openedIn i os"
      using filter_withoutAt[of n "sl_underway w" ?P] True by (simp add: passedChecks_def w1 openedIn_def)
    then show ?thesis
      using assms(1) by (auto simp: w1 editObject_def openedIn_def openedRevoked_def)
  qed
next
  case (ShareAdded share)
  then show ?thesis
    using assms by (auto simp: passedChecks_def)
next
  case (ShareEdited j now opts)
  then show ?thesis
    using assms by (auto simp: passedChecks_def editObject_def)
qed (use assms in \<open>auto simp: passedChecks_def split: if_splits\<close>)

text \<open>The invariant of a run: the count of uses grows with what is opened and counted, and together with the accesses that
  have passed it stays below the limit and the other accesses that pass at the same time.\<close>

lemma linkRun_uses:
  assumes "sl_objects w i = Some s" and "0 < sh_MaxUses s" and "\<forall>c \<in> set cs. addedID c \<noteq> Some i" and "linkRun cs w = (os, w1)"
    and "sh_UseCount s + passedChecks i w \<le> sh_MaxUses s + k" and "mostPassed i cs w \<le> k + 1" and "0 \<le> k"
  shows "\<exists>s1. sl_objects w1 i = Some s1 \<and> sh_UseCount s1 = sh_UseCount s + openedIn i os - openedRevoked i os
    \<and> sh_UseCount s1 \<le> sh_MaxUses s + k"
  using assms
proof (induction cs arbitrary: w s os)
  case Nil
  then show ?case
    using passedChecks_nonneg[of i w] by auto
next
  case (Cons c cs)
  obtain os1 w2 where step: "linkStep c w = (os1, w2)"
    by fastforce
  obtain os2 where rest: "linkRun cs w2 = (os2, w1)" "os = os1 @ os2"
    using Cons.prems(4) step by (auto split: prod.splits)
  obtain s2 where s2: "sl_objects w2 i = Some s2" "sh_MaxUses s2 = sh_MaxUses s"
      "sh_UseCount s2 = sh_UseCount s + openedIn i os1 - openedRevoked i os1" "openedRevoked i os1 \<le> openedIn i os1"
      "passedChecks i w2 = passedChecks i w - openedIn i os1 \<or> os1 = [] \<and> passedChecks i w2 = passedChecks i w + 1 \<and> sh_UseCount s < sh_MaxUses s"
    using linkStep_uses[OF Cons.prems(1,2) _ step] Cons.prems(3) by auto
  have most: "mostPassed i cs w2 \<le> k + 1"
    using Cons.prems(6) step by simp
  moreover have "0 \<le> openedRevoked i os1"
    by (simp add: openedRevoked_def)
  ultimately have "sh_UseCount s2 + passedChecks i w2 \<le> sh_MaxUses s2 + k"
    using s2(2-5) Cons.prems(5) passed_le_most[of i w2 cs] by auto
  then show ?case
    using Cons.IH[OF s2(1) _ _ rest(1) _ most] Cons.prems(2,3,7) s2(2,3) rest(2) by auto
qed

text \<open>C19: A link with a limit of uses is opened at most as often as it has uses left, and once more for each access beyond the
  first that may have passed the checks at the same time without having counted its use; not counted in this are the accesses
  that ended after the link had been revoked. This holds for any interleaving of lookups, checks and counts of any
  accesses with the repository operations of all other calls, as long as no new share takes the identifier of the link. With
  one access at a time the limit is exact; with two a link for one use is opened twice (\<open>one_use_opened_twice\<close>).\<close>

theorem link_uses_bounded:
  assumes "sl_objects w i = Some share" and "0 < sh_MaxUses share" and "sh_UseCount share \<le> sh_MaxUses share"
    and "sl_underway w = []" and "\<forall>c \<in> set cs. addedID c \<noteq> Some i" and "linkRun cs w = (os, w')"
  shows "openedIn i os \<le> sh_MaxUses share - sh_UseCount share + max 0 (mostPassed i cs w - 1) + openedRevoked i os"
proof -
  have "passedChecks i w = 0"
    using assms(4) by (simp add: passedChecks_def)
  moreover have "mostPassed i cs w \<le> max 0 (mostPassed i cs w - 1) + 1" "0 \<le> max 0 (mostPassed i cs w - 1)"
    by (simp_all add: max_def)
  ultimately show ?thesis
    using linkRun_uses[OF assms(1,2,5,6), of "max 0 (mostPassed i cs w - 1)"] assms(3) by fastforce
qed

definition link_world :: ShareWorld where
  "link_world = \<lparr> sl_objects = [''l'' \<mapsto> the_share\<lparr> sh_ID := ''l'', sh_ShareType := ShareTypeLink, sh_LinkToken := ''tok'', sh_MaxUses := 1 \<rparr>],
     sl_present = {''l''}, sl_underway = [] \<rparr>"

definition two_at_once :: "link_step list" where
  "two_at_once = [LinkFind [''l''] ''tok'' '''', LinkFind [''l''] ''tok'' '''', LinkCheck 0 1, LinkCheck 1 1, LinkCount 0, LinkCount 0,
     LinkFind [''l''] ''tok'' '''', LinkCheck 0 2]"

lemmas link_runs = two_at_once_def link_world_def the_share_def plain_share_def FindByLinkToken_def List.map_filter_def linkChecks_def
  presentShares_def editObject_def countUse_def withoutAt_def Let_def

text \<open>Two callers whose checks both pass before either counts its use open a link for one use twice.\<close>

lemma one_use_opened_twice: "fst (linkRun two_at_once link_world) = [(''l'', True), (''l'', True)]"
  by (simp add: link_runs)

lemma link_uses_bounded_witness:
  "openedIn ''l'' (fst (linkRun two_at_once link_world))
     \<le> 1 - 0 + max 0 (mostPassed ''l'' two_at_once link_world - 1) + openedRevoked ''l'' (fst (linkRun two_at_once link_world))
   \<and> mostPassed ''l'' two_at_once link_world = 2"
proof -
  obtain os w' where "linkRun two_at_once link_world = (os, w')"
    by fastforce
  from link_uses_bounded[OF _ _ _ _ _ this, of "''l''" "the (sl_objects link_world ''l'')"]
  have "openedIn ''l'' (fst (linkRun two_at_once link_world))
     \<le> 1 - 0 + max 0 (mostPassed ''l'' two_at_once link_world - 1) + openedRevoked ''l'' (fst (linkRun two_at_once link_world))"
    using \<open>linkRun two_at_once link_world = (os, w')\<close>
    by (simp add: link_world_def the_share_def plain_share_def two_at_once_def del: linkRun.simps mostPassed.simps)
  moreover have "mostPassed ''l'' two_at_once link_world = 2"
    by (simp add: link_runs passedChecks_def)
  ultimately show ?thesis
    by blast
qed

end
