(* ===== verification/Workspace.thy ===== *)
theory Workspace
  imports Prelude "HOL-Library.Char_ord"
begin

text \<open>
  Workspaces (\<open>internal/workspace/domain/model/workspace.go\<close> and \<open>internal/workspace/app/service/workspace_service.go\<close>):
  plans and limits, members and their roles, invitations, and the service over its repositories. The
  repositories are tables, a lookup returns the first row that matches; \<open>db k\<close> is the answer to the \<open>k\<close>-th
  call that writes (\<open>Some e\<close> an error, and then nothing is written). Roles, plans and slugs are strings, as callers pass
  them. Readings of the clock, new identifiers and tokens are arguments.
\<close>

section \<open>The domain model\<close>

type_synonym Plan = string

definition PlanFree :: Plan where "PlanFree = ''free''"
definition PlanStarter :: Plan where "PlanStarter = ''starter''"
definition PlanPro :: Plan where "PlanPro = ''pro''"
definition PlanEnterprise :: Plan where "PlanEnterprise = ''enterprise''"

lemmas plan_defs = PlanFree_def PlanStarter_def PlanPro_def PlanEnterprise_def

record WorkspaceSettings =
  wset_DefaultTimezone :: string
  wset_AllowPublicWorkflows :: bool
  wset_RequireApproval :: bool
  wset_AuditLogEnabled :: bool
  wset_SSOEnabled :: bool

record WorkspaceLimits =
  wl_MaxMembers :: int
  wl_MaxWorkflows :: int
  wl_MaxExecutionsMonth :: int
  wl_MaxCredentials :: int
  wl_MaxWebhooks :: int
  wl_RetentionDays :: int

record Workspace =
  wk_ID :: string
  wk_Name :: string
  wk_Slug :: string
  wk_Description :: string
  wk_OwnerID :: string
  wk_Plan :: Plan
  wk_Settings :: WorkspaceSettings
  wk_Limits :: WorkspaceLimits
  wk_CreatedAt :: time
  wk_UpdatedAt :: time

definition freeLimits :: WorkspaceLimits where
  "freeLimits = \<lparr> wl_MaxMembers = 3, wl_MaxWorkflows = 5, wl_MaxExecutionsMonth = 100, wl_MaxCredentials = 5, wl_MaxWebhooks = 2,
     wl_RetentionDays = 7 \<rparr>"

definition GetPlanLimits :: "Plan \<Rightarrow> WorkspaceLimits" where
  "GetPlanLimits plan =
     (if plan = PlanFree then freeLimits
      else if plan = PlanStarter then \<lparr> wl_MaxMembers = 10, wl_MaxWorkflows = 25, wl_MaxExecutionsMonth = 1000, wl_MaxCredentials = 20,
        wl_MaxWebhooks = 10, wl_RetentionDays = 30 \<rparr>
      else if plan = PlanPro then \<lparr> wl_MaxMembers = 50, wl_MaxWorkflows = 100, wl_MaxExecutionsMonth = 10000, wl_MaxCredentials = 100,
        wl_MaxWebhooks = 50, wl_RetentionDays = 90 \<rparr>
      else if plan = PlanEnterprise then \<lparr> wl_MaxMembers = -1, wl_MaxWorkflows = -1, wl_MaxExecutionsMonth = -1, wl_MaxCredentials = -1,
        wl_MaxWebhooks = -1, wl_RetentionDays = 365 \<rparr>
      else freeLimits)"

text \<open>The expression \<open>^[a-z0-9]+(?:-[a-z0-9]+)*$\<close>: words of small letters and digits between single hyphens.\<close>

definition slugChar :: "char \<Rightarrow> bool" where
  "slugChar c \<longleftrightarrow> (CHR ''a'' \<le> c \<and> c \<le> CHR ''z'') \<or> (CHR ''0'' \<le> c \<and> c \<le> CHR ''9'')"

fun slugFrom :: "bool \<Rightarrow> string \<Rightarrow> bool" where
  "slugFrom inWord [] = inWord"
| "slugFrom inWord (c # cs) =
     (if slugChar c then slugFrom True cs else c = CHR ''-'' \<and> inWord \<and> slugFrom False cs)"

definition slugRegex :: "string \<Rightarrow> bool" where
  "slugRegex s = slugFrom False s"

datatype workspace_error =
    NameRequired
  | InvalidSlug
  | SlugTaken
  | WorkspaceNotFound
  | MemberNotFound
  | InvitationNotFound
  | InvitationExpiredErr
  | AlreadyMember
  | CannotRemoveOwner
  | InsufficientPermission
  | MemberLimitReached
  | RepositoryFailed string

definition NewWorkspace :: "time \<Rightarrow> string \<Rightarrow> string \<Rightarrow> string \<Rightarrow> string \<Rightarrow> Plan \<Rightarrow> workspace_error + Workspace" where
  "NewWorkspace now newID name slug ownerID plan =
     (if name = '''' then Inl NameRequired
      else if \<not> slugRegex slug then Inl InvalidSlug
      else Inr \<lparr> wk_ID = newID, wk_Name = name, wk_Slug = slug, wk_Description = '''', wk_OwnerID = ownerID, wk_Plan = plan,
        wk_Settings = \<lparr> wset_DefaultTimezone = ''UTC'', wset_AllowPublicWorkflows = False, wset_RequireApproval = False,
          wset_AuditLogEnabled = True, wset_SSOEnabled = False \<rparr>,
        wk_Limits = GetPlanLimits plan, wk_CreatedAt = now, wk_UpdatedAt = now \<rparr>)"

type_synonym MemberRole = string

definition MemberOwner :: MemberRole where "MemberOwner = ''owner''"
definition MemberAdmin :: MemberRole where "MemberAdmin = ''admin''"
definition MemberMember :: MemberRole where "MemberMember = ''member''"
definition MemberViewer :: MemberRole where "MemberViewer = ''viewer''"

lemmas role_defs = MemberOwner_def MemberAdmin_def MemberMember_def MemberViewer_def

definition CanManageMembers :: "MemberRole \<Rightarrow> bool" where
  "CanManageMembers r \<longleftrightarrow> r = MemberOwner \<or> r = MemberAdmin"

definition CanManageWorkflows :: "MemberRole \<Rightarrow> bool" where
  "CanManageWorkflows r \<longleftrightarrow> r = MemberOwner \<or> r = MemberAdmin \<or> r = MemberMember"

definition CanViewWorkflows :: "MemberRole \<Rightarrow> bool" where
  "CanViewWorkflows r \<longleftrightarrow> True"

definition CanManageSettings :: "MemberRole \<Rightarrow> bool" where
  "CanManageSettings r \<longleftrightarrow> r = MemberOwner \<or> r = MemberAdmin"

record WorkspaceMember =
  wm_ID :: string
  wm_WorkspaceID :: string
  wm_UserID :: string
  wm_Role :: MemberRole
  wm_InvitedBy :: string
  wm_JoinedAt :: time
  wm_UpdatedAt :: time

definition NewWorkspaceMember :: "time \<Rightarrow> string \<Rightarrow> string \<Rightarrow> string \<Rightarrow> MemberRole \<Rightarrow> string \<Rightarrow> WorkspaceMember" where
  "NewWorkspaceMember now newID workspaceID userID role invitedBy =
     \<lparr> wm_ID = newID, wm_WorkspaceID = workspaceID, wm_UserID = userID, wm_Role = role, wm_InvitedBy = invitedBy,
       wm_JoinedAt = now, wm_UpdatedAt = now \<rparr>"

datatype InvitationStatus = InvitationPending | InvitationAccepted | InvitationDeclined | InvitationExpired

record WorkspaceInvitation =
  wi_ID :: string
  wi_WorkspaceID :: string
  wi_Email :: string
  wi_Role :: MemberRole
  wi_Token :: string
  wi_InvitedBy :: string
  wi_Status :: InvitationStatus
  wi_ExpiresAt :: time
  wi_CreatedAt :: time
  wi_AcceptedAt :: "time option"

definition NewWorkspaceInvitation ::
  "time \<Rightarrow> string \<Rightarrow> string \<Rightarrow> string \<Rightarrow> string \<Rightarrow> MemberRole \<Rightarrow> string \<Rightarrow> WorkspaceInvitation" where
  "NewWorkspaceInvitation now newID token workspaceID email role invitedBy =
     \<lparr> wi_ID = newID, wi_WorkspaceID = workspaceID, wi_Email = email, wi_Role = role, wi_Token = token,
       wi_InvitedBy = invitedBy, wi_Status = InvitationPending, wi_ExpiresAt = now + 7 * 24 * Hour, wi_CreatedAt = now,
       wi_AcceptedAt = None \<rparr>"

definition Invitation_IsValid :: "time \<Rightarrow> WorkspaceInvitation \<Rightarrow> bool" where
  "Invitation_IsValid now i \<longleftrightarrow> wi_Status i = InvitationPending \<and> now < wi_ExpiresAt i"

definition Invitation_Accept :: "time \<Rightarrow> WorkspaceInvitation \<Rightarrow> WorkspaceInvitation" where
  "Invitation_Accept now i = i\<lparr> wi_Status := InvitationAccepted, wi_AcceptedAt := Some now \<rparr>"

definition Invitation_Decline :: "WorkspaceInvitation \<Rightarrow> WorkspaceInvitation" where
  "Invitation_Decline i = i\<lparr> wi_Status := InvitationDeclined \<rparr>"

record AuditLog =
  al_ID :: string
  al_WorkspaceID :: string
  al_UserID :: string
  al_Action :: string
  al_Resource :: string
  al_ResourceID :: string
  al_Details :: "dict option"
  al_IPAddress :: string
  al_UserAgent :: string
  al_CreatedAt :: time

definition NewAuditLog ::
  "time \<Rightarrow> string \<Rightarrow> string \<Rightarrow> string \<Rightarrow> string \<Rightarrow> string \<Rightarrow> string \<Rightarrow> dict option \<Rightarrow> AuditLog" where
  "NewAuditLog now newID workspaceID userID action resource resourceID details =
     \<lparr> al_ID = newID, al_WorkspaceID = workspaceID, al_UserID = userID, al_Action = action, al_Resource = resource,
       al_ResourceID = resourceID, al_Details = details, al_IPAddress = [], al_UserAgent = [], al_CreatedAt = now \<rparr>"

section \<open>The repositories\<close>

text \<open>The tables of the service, and the mails that were handed to the mail service.\<close>

record WorkspaceStore =
  st_workspaces :: "Workspace list"
  st_members :: "WorkspaceMember list"
  st_invitations :: "WorkspaceInvitation list"
  st_audit :: "AuditLog list"
  st_mails :: "(string \<times> string \<times> string \<times> string) list"

type_synonym db = "nat \<Rightarrow> string option"
type_synonym 'a served = "(workspace_error + 'a) \<times> WorkspaceStore"

definition emptyStore :: WorkspaceStore where
  "emptyStore = \<lparr> st_workspaces = [], st_members = [], st_invitations = [], st_audit = [], st_mails = [] \<rparr>"

definition Workspace_FindByID :: "string \<Rightarrow> WorkspaceStore \<Rightarrow> Workspace option" where
  "Workspace_FindByID i s = find (\<lambda>w. wk_ID w = i) (st_workspaces s)"

definition SlugExists :: "string \<Rightarrow> WorkspaceStore \<Rightarrow> bool" where
  "SlugExists slug s \<longleftrightarrow> list_ex (\<lambda>w. wk_Slug w = slug) (st_workspaces s)"

definition FindByWorkspaceAndUser :: "string \<Rightarrow> string \<Rightarrow> WorkspaceStore \<Rightarrow> WorkspaceMember option" where
  "FindByWorkspaceAndUser w u s = find (\<lambda>m. wm_WorkspaceID m = w \<and> wm_UserID m = u) (st_members s)"

definition Member_FindByID :: "string \<Rightarrow> WorkspaceStore \<Rightarrow> WorkspaceMember option" where
  "Member_FindByID i s = find (\<lambda>m. wm_ID m = i) (st_members s)"

definition CountByWorkspace :: "string \<Rightarrow> WorkspaceStore \<Rightarrow> int" where
  "CountByWorkspace w s = int (length (filter (\<lambda>m. wm_WorkspaceID m = w) (st_members s)))"

definition Member_Add :: "WorkspaceMember \<Rightarrow> WorkspaceStore \<Rightarrow> WorkspaceStore" where
  "Member_Add m s = s\<lparr> st_members := st_members s @ [m] \<rparr>"

definition UpdateRole :: "string \<Rightarrow> MemberRole \<Rightarrow> WorkspaceStore \<Rightarrow> WorkspaceStore" where
  "UpdateRole i role s = s\<lparr> st_members := map (\<lambda>m. if wm_ID m = i then m\<lparr> wm_Role := role \<rparr> else m) (st_members s) \<rparr>"

definition Member_Remove :: "string \<Rightarrow> WorkspaceStore \<Rightarrow> WorkspaceStore" where
  "Member_Remove i s = s\<lparr> st_members := filter (\<lambda>m. wm_ID m \<noteq> i) (st_members s) \<rparr>"

definition Invitation_FindByToken :: "string \<Rightarrow> WorkspaceStore \<Rightarrow> WorkspaceInvitation option" where
  "Invitation_FindByToken token s = find (\<lambda>i. wi_Token i = token) (st_invitations s)"

definition Invitation_FindByEmail :: "string \<Rightarrow> string \<Rightarrow> WorkspaceStore \<Rightarrow> WorkspaceInvitation option" where
  "Invitation_FindByEmail w email s = find (\<lambda>i. wi_WorkspaceID i = w \<and> wi_Email i = email) (st_invitations s)"

definition Invitation_Update :: "WorkspaceInvitation \<Rightarrow> WorkspaceStore \<Rightarrow> WorkspaceStore" where
  "Invitation_Update v s = s\<lparr> st_invitations := map (\<lambda>i. if wi_ID i = wi_ID v then v else i) (st_invitations s) \<rparr>"

text \<open>Audit records are written with any error ignored.\<close>

definition audit :: "string option \<Rightarrow> AuditLog \<Rightarrow> WorkspaceStore \<Rightarrow> WorkspaceStore" where
  "audit err entry s = (if err = None then s\<lparr> st_audit := st_audit s @ [entry] \<rparr> else s)"

section \<open>The service\<close>

record CreateWorkspaceInput =
  ci_Name :: string
  ci_Slug :: string
  ci_Description :: string
  ci_OwnerID :: string
  ci_Plan :: Plan

definition CreateWorkspace ::
  "db \<Rightarrow> (nat \<Rightarrow> time) \<Rightarrow> (nat \<Rightarrow> string) \<Rightarrow> CreateWorkspaceInput \<Rightarrow> WorkspaceStore \<Rightarrow> Workspace served" where
  "CreateWorkspace db clk ids input s =
     (case db 0 of
        Some e \<Rightarrow> (Inl (RepositoryFailed e), s)
      | None \<Rightarrow>
        if SlugExists (ci_Slug input) s then (Inl SlugTaken, s)
        else (case NewWorkspace (clk 0) (ids 0) (ci_Name input) (ci_Slug input) (ci_OwnerID input) (ci_Plan input) of
            Inl e \<Rightarrow> (Inl e, s)
          | Inr w0 \<Rightarrow>
            let w = w0\<lparr> wk_Description := ci_Description input \<rparr> in
            (case db 1 of
               Some e \<Rightarrow> (Inl (RepositoryFailed e), s)
             | None \<Rightarrow>
               let s1 = s\<lparr> st_workspaces := st_workspaces s @ [w] \<rparr>;
                   m = NewWorkspaceMember (clk 1) (ids 1) (wk_ID w) (ci_OwnerID input) MemberOwner (ci_OwnerID input)
               in (case db 2 of
                     Some e \<Rightarrow> (Inl (RepositoryFailed e), s1)
                   | None \<Rightarrow>
                     (Inr w, audit (db 3) (NewAuditLog (clk 2) (ids 2) (wk_ID w) (ci_OwnerID input) ''create'' ''workspace'' (wk_ID w) None)
                       (Member_Add m s1))))))"

definition ListUserWorkspaces :: "string \<Rightarrow> WorkspaceStore \<Rightarrow> Workspace list" where
  "ListUserWorkspaces userID s =
     List.map_filter (\<lambda>m. Workspace_FindByID (wm_WorkspaceID m) s) (filter (\<lambda>m. wm_UserID m = userID) (st_members s))"

record UpdateWorkspaceInput =
  ui_ID :: string
  ui_Name :: string
  ui_Description :: string
  ui_Settings :: "WorkspaceSettings option"
  ui_ActorID :: string

definition UpdateWorkspace ::
  "db \<Rightarrow> (nat \<Rightarrow> time) \<Rightarrow> string \<Rightarrow> UpdateWorkspaceInput \<Rightarrow> WorkspaceStore \<Rightarrow> Workspace served" where
  "UpdateWorkspace db clk newID input s =
     (case FindByWorkspaceAndUser (ui_ID input) (ui_ActorID input) s of
        None \<Rightarrow> (Inl MemberNotFound, s)
      | Some member \<Rightarrow>
        if \<not> CanManageSettings (wm_Role member) then (Inl InsufficientPermission, s)
        else (case Workspace_FindByID (ui_ID input) s of
            None \<Rightarrow> (Inl WorkspaceNotFound, s)
          | Some w0 \<Rightarrow>
            let w1 = (if ui_Name input \<noteq> '''' then w0\<lparr> wk_Name := ui_Name input \<rparr> else w0);
                w2 = (if ui_Description input \<noteq> '''' then w1\<lparr> wk_Description := ui_Description input \<rparr> else w1);
                w3 = (case ui_Settings input of Some st \<Rightarrow> w2\<lparr> wk_Settings := st \<rparr> | None \<Rightarrow> w2);
                w = w3\<lparr> wk_UpdatedAt := clk 0 \<rparr>
            in (case db 0 of
                  Some e \<Rightarrow> (Inl (RepositoryFailed e), s)
                | None \<Rightarrow>
                  (Inr w, audit (db 1) (NewAuditLog (clk 1) newID (ui_ID input) (ui_ActorID input) ''update'' ''workspace'' (ui_ID input) None)
                    (s\<lparr> st_workspaces := map (\<lambda>v. if wk_ID v = wk_ID w then w else v) (st_workspaces s) \<rparr>)))))"

definition DeleteWorkspace :: "db \<Rightarrow> string \<Rightarrow> string \<Rightarrow> WorkspaceStore \<Rightarrow> unit served" where
  "DeleteWorkspace db workspaceID actorID s =
     (case Workspace_FindByID workspaceID s of
        None \<Rightarrow> (Inl WorkspaceNotFound, s)
      | Some w \<Rightarrow>
        if wk_OwnerID w \<noteq> actorID then (Inl InsufficientPermission, s)
        else (case db 0 of
            Some e \<Rightarrow> (Inl (RepositoryFailed e), s)
          | None \<Rightarrow> (Inr (), s\<lparr> st_workspaces := filter (\<lambda>v. wk_ID v \<noteq> workspaceID) (st_workspaces s) \<rparr>)))"

record InviteMemberInput =
  ii_WorkspaceID :: string
  ii_Email :: string
  ii_Role :: MemberRole
  ii_InviterID :: string
  ii_InviterName :: string

definition InviteMember ::
  "bool \<Rightarrow> db \<Rightarrow> (nat \<Rightarrow> time) \<Rightarrow> (nat \<Rightarrow> string) \<Rightarrow> InviteMemberInput \<Rightarrow> WorkspaceStore \<Rightarrow> WorkspaceInvitation served" where
  "InviteMember hasMail db clk ids input s =
     (case FindByWorkspaceAndUser (ii_WorkspaceID input) (ii_InviterID input) s of
        None \<Rightarrow> (Inl MemberNotFound, s)
      | Some member \<Rightarrow>
        if \<not> CanManageMembers (wm_Role member) then (Inl InsufficientPermission, s)
        else (case Workspace_FindByID (ii_WorkspaceID input) s of
            None \<Rightarrow> (Inl WorkspaceNotFound, s)
          | Some w \<Rightarrow>
            if wl_MaxMembers (wk_Limits w) > 0 \<and> CountByWorkspace (ii_WorkspaceID input) s \<ge> wl_MaxMembers (wk_Limits w)
            then (Inl MemberLimitReached, s)
            else
              let fresh = (let i = NewWorkspaceInvitation (clk 1) (ids 0) (ids 1) (ii_WorkspaceID input) (ii_Email input)
                      (ii_Role input) (ii_InviterID input) in
                  (case db 0 of
                     Some e \<Rightarrow> (Inl (RepositoryFailed e), s)
                   | None \<Rightarrow>
                     let s1 = s\<lparr> st_invitations := st_invitations s @ [i] \<rparr>;
                         s2 = (if hasMail then s1\<lparr> st_mails := st_mails s1 @ [(ii_Email input, wk_Name w, ii_InviterName input, wi_Token i)] \<rparr>
                               else s1)
                     in (Inr i, audit (db 1) (NewAuditLog (clk 2) (ids 2) (ii_WorkspaceID input) (ii_InviterID input) ''invite'' ''member''
                          (wi_ID i) (Some [''email'' \<mapsto> VStr (ii_Email input), ''role'' \<mapsto> VStr (ii_Role input)])) s2)))
              in (case Invitation_FindByEmail (ii_WorkspaceID input) (ii_Email input) s of
                    Some existing \<Rightarrow> if Invitation_IsValid (clk 0) existing then (Inr existing, s) else fresh
                  | None \<Rightarrow> fresh)))"

definition Workspace_AcceptInvitation ::
  "db \<Rightarrow> (nat \<Rightarrow> time) \<Rightarrow> string \<Rightarrow> string \<Rightarrow> string \<Rightarrow> WorkspaceStore \<Rightarrow> WorkspaceMember served" where
  "Workspace_AcceptInvitation db clk newID token userID s =
     (case Invitation_FindByToken token s of
        None \<Rightarrow> (Inl InvitationNotFound, s)
      | Some i \<Rightarrow>
        if \<not> Invitation_IsValid (clk 0) i then (Inl InvitationExpiredErr, s)
        else if FindByWorkspaceAndUser (wi_WorkspaceID i) userID s \<noteq> None then (Inl AlreadyMember, s)
        else
          let m = NewWorkspaceMember (clk 1) newID (wi_WorkspaceID i) userID (wi_Role i) (wi_InvitedBy i) in
          (case db 0 of
             Some e \<Rightarrow> (Inl (RepositoryFailed e), s)
           | None \<Rightarrow>
             let s1 = Member_Add m s
             in (Inr m, if db 1 = None then Invitation_Update (Invitation_Accept (clk 2) i) s1 else s1)))"

definition DeclineInvitation :: "db \<Rightarrow> string \<Rightarrow> WorkspaceStore \<Rightarrow> unit served" where
  "DeclineInvitation db token s =
     (case Invitation_FindByToken token s of
        None \<Rightarrow> (Inl InvitationNotFound, s)
      | Some i \<Rightarrow>
        (case db 0 of
           Some e \<Rightarrow> (Inl (RepositoryFailed e), s)
         | None \<Rightarrow> (Inr (), Invitation_Update (Invitation_Decline i) s)))"

text \<open>Both operations on a member check the role of the actor in the workspace that is named, and read the member by identifier.\<close>

definition onMember ::
  "string \<Rightarrow> string \<Rightarrow> string \<Rightarrow> (WorkspaceMember \<Rightarrow> WorkspaceStore \<Rightarrow> unit served) \<Rightarrow> WorkspaceStore \<Rightarrow> unit served" where
  "onMember workspaceID memberID actorID act s =
     (case FindByWorkspaceAndUser workspaceID actorID s of
        None \<Rightarrow> (Inl MemberNotFound, s)
      | Some actor \<Rightarrow>
        if \<not> CanManageMembers (wm_Role actor) then (Inl InsufficientPermission, s)
        else (case Member_FindByID memberID s of
            None \<Rightarrow> (Inl MemberNotFound, s)
          | Some member \<Rightarrow> if wm_Role member = MemberOwner then (Inl CannotRemoveOwner, s) else act member s))"

definition UpdateMemberRole ::
  "db \<Rightarrow> time \<Rightarrow> string \<Rightarrow> string \<Rightarrow> string \<Rightarrow> MemberRole \<Rightarrow> string \<Rightarrow> WorkspaceStore \<Rightarrow> unit served" where
  "UpdateMemberRole db now newID workspaceID memberID newRole actorID s =
     onMember workspaceID memberID actorID (\<lambda>member s.
       (case db 0 of
          Some e \<Rightarrow> (Inl (RepositoryFailed e), s)
        | None \<Rightarrow> (Inr (), audit (db 1) (NewAuditLog now newID workspaceID actorID ''change_role'' ''member'' memberID
              (Some [''newRole'' \<mapsto> VStr newRole])) (UpdateRole memberID newRole s)))) s"

definition RemoveMember :: "db \<Rightarrow> time \<Rightarrow> string \<Rightarrow> string \<Rightarrow> string \<Rightarrow> string \<Rightarrow> WorkspaceStore \<Rightarrow> unit served" where
  "RemoveMember db now newID workspaceID memberID actorID s =
     onMember workspaceID memberID actorID (\<lambda>member s.
       (case db 0 of
          Some e \<Rightarrow> (Inl (RepositoryFailed e), s)
        | None \<Rightarrow> (Inr (), audit (db 1) (NewAuditLog now newID workspaceID actorID ''remove_member'' ''member'' memberID None)
              (Member_Remove memberID s)))) s"

definition LeaveWorkspace :: "db \<Rightarrow> string \<Rightarrow> string \<Rightarrow> WorkspaceStore \<Rightarrow> unit served" where
  "LeaveWorkspace db workspaceID userID s =
     (case FindByWorkspaceAndUser workspaceID userID s of
        None \<Rightarrow> (Inl MemberNotFound, s)
      | Some member \<Rightarrow>
        if wm_Role member = MemberOwner then (Inl CannotRemoveOwner, s)
        else (case db 0 of
            Some e \<Rightarrow> (Inl (RepositoryFailed e), s)
          | None \<Rightarrow> (Inr (), Member_Remove (wm_ID member) s)))"

definition GetMemberRole :: "string \<Rightarrow> string \<Rightarrow> WorkspaceStore \<Rightarrow> workspace_error + MemberRole" where
  "GetMemberRole workspaceID userID s =
     (case FindByWorkspaceAndUser workspaceID userID s of None \<Rightarrow> Inl MemberNotFound | Some m \<Rightarrow> Inr (wm_Role m))"

definition LogAction ::
  "db \<Rightarrow> time \<Rightarrow> string \<Rightarrow> string \<Rightarrow> string \<Rightarrow> string \<Rightarrow> string \<Rightarrow> string \<Rightarrow> dict option \<Rightarrow> WorkspaceStore \<Rightarrow> WorkspaceStore" where
  "LogAction db now newID workspaceID userID action resource resourceID details s =
     audit (db 0) (NewAuditLog now newID workspaceID userID action resource resourceID details) s"

section \<open>Slugs\<close>

text \<open>The automaton accepts the language of the expression: non-empty words of slug characters, joined by hyphens.\<close>

fun joined :: "string list \<Rightarrow> string" where
  "joined [] = ''''"
| "joined [w] = w"
| "joined (w # ws) = w @ ''-'' @ joined ws"

lemma hyphen_no_slugChar [simp]: "\<not> slugChar (CHR ''-'')"
  by (simp add: slugChar_def less_eq_char_def)

lemma slugFrom_word: "list_all slugChar w \<Longrightarrow> slugFrom b (w @ s) = slugFrom (b \<or> w \<noteq> []) s"
  by (induction w arbitrary: b) auto

lemma slugFrom_joined:
  "ws \<noteq> [] \<Longrightarrow> \<forall>w \<in> set ws. w \<noteq> [] \<and> list_all slugChar w \<Longrightarrow> slugFrom False (joined ws)"
proof (induction ws rule: joined.induct)
  case (2 w)
  then show ?case
    using slugFrom_word[of w False "[]"] by simp
next
  case (3 w v ws)
  then show ?case
    using slugFrom_word[of w False "''-'' @ joined (v # ws)"] by simp
qed simp

lemma slugFrom_split:
  "slugFrom b s \<Longrightarrow> \<exists>w ws. s = joined (w # ws) \<and> list_all slugChar w \<and> (b \<or> w \<noteq> [])
     \<and> (\<forall>v \<in> set ws. v \<noteq> [] \<and> list_all slugChar v)"
proof (induction s arbitrary: b)
  case Nil
  then show ?case
    by (intro exI[of _ "[]"]) simp
next
  case (Cons c cs)
  show ?case
  proof (cases "slugChar c")
    case True
    then obtain w ws where w: "cs = joined (w # ws)" "list_all slugChar w" "\<forall>v \<in> set ws. v \<noteq> [] \<and> list_all slugChar v"
      using Cons.IH[of True] Cons.prems by auto
    then have "c # cs = joined ((c # w) # ws) \<and> list_all slugChar (c # w)"
      using True by (cases ws) auto
    then show ?thesis
      using w(3) by blast
  next
    case False
    then obtain w ws where w: "cs = joined (w # ws)" "list_all slugChar w" "w \<noteq> []" "\<forall>v \<in> set ws. v \<noteq> [] \<and> list_all slugChar v"
        and c: "c = CHR ''-''" "b"
      using Cons.IH[of False] Cons.prems by auto
    then have "c # cs = joined ([] # w # ws)"
      by simp
    then show ?thesis
      using w c by (intro exI[of _ "[]"] exI[of _ "w # ws"]) auto
  qed
qed

lemma slugRegex_iff:
  "slugRegex s \<longleftrightarrow> (\<exists>ws. ws \<noteq> [] \<and> s = joined ws \<and> (\<forall>w \<in> set ws. w \<noteq> [] \<and> list_all slugChar w))"
proof
  assume "slugRegex s"
  then obtain w ws where "s = joined (w # ws)" "\<forall>v \<in> set (w # ws). v \<noteq> [] \<and> list_all slugChar v"
    using slugFrom_split[of False s] by (auto simp: slugRegex_def)
  then show "\<exists>ws. ws \<noteq> [] \<and> s = joined ws \<and> (\<forall>w \<in> set ws. w \<noteq> [] \<and> list_all slugChar w)"
    by blast
qed (auto simp: slugRegex_def slugFrom_joined)

section \<open>The owner of a workspace\<close>

datatype workspace_command =
    WCreate db "nat \<Rightarrow> time" "nat \<Rightarrow> string" CreateWorkspaceInput
  | WUpdate db "nat \<Rightarrow> time" string UpdateWorkspaceInput
  | WDelete db string string
  | WInvite bool db "nat \<Rightarrow> time" "nat \<Rightarrow> string" InviteMemberInput
  | WAccept db "nat \<Rightarrow> time" string string string
  | WDecline db string
  | WChangeRole db time string string string MemberRole string
  | WRemove db time string string string string
  | WLeave db string string
  | WLog db time string string string string string string "dict option"

text \<open>A call may change the store and still fail, so the step is the store after the call.\<close>

fun workspace_step :: "workspace_command \<Rightarrow> WorkspaceStore \<Rightarrow> workspace_error + WorkspaceStore" where
  "workspace_step (WCreate db clk ids input) s = Inr (snd (CreateWorkspace db clk ids input s))"
| "workspace_step (WUpdate db clk i input) s = Inr (snd (UpdateWorkspace db clk i input s))"
| "workspace_step (WDelete db w actor) s = Inr (snd (DeleteWorkspace db w actor s))"
| "workspace_step (WInvite mail db clk ids input) s = Inr (snd (InviteMember mail db clk ids input s))"
| "workspace_step (WAccept db clk i token u) s = Inr (snd (Workspace_AcceptInvitation db clk i token u s))"
| "workspace_step (WDecline db token) s = Inr (snd (DeclineInvitation db token s))"
| "workspace_step (WChangeRole db now i w m role actor) s = Inr (snd (UpdateMemberRole db now i w m role actor s))"
| "workspace_step (WRemove db now i w m actor) s = Inr (snd (RemoveMember db now i w m actor s))"
| "workspace_step (WLeave db w u) s = Inr (snd (LeaveWorkspace db w u s))"
| "workspace_step (WLog db now i w u action res rid details) s = Inr (LogAction db now i w u action res rid details s)"

text \<open>New identifiers are new, and the owner of a new workspace can be stored.\<close>

fun workspace_pre :: "WorkspaceStore \<Rightarrow> workspace_command \<Rightarrow> bool" where
  "workspace_pre s (WCreate db clk ids input) \<longleftrightarrow> db 2 = None \<and> ids 0 \<notin> wk_ID ` set (st_workspaces s)
     \<and> ids 0 \<notin> wm_WorkspaceID ` set (st_members s) \<and> ids 1 \<notin> wm_ID ` set (st_members s)"
| "workspace_pre s (WAccept db clk i token u) \<longleftrightarrow> i \<notin> wm_ID ` set (st_members s)"
| "workspace_pre s _ \<longleftrightarrow> True"

definition seat :: "WorkspaceMember \<Rightarrow> string \<times> string" where
  "seat m = (wm_WorkspaceID m, wm_UserID m)"

definition store_inv :: "WorkspaceStore \<Rightarrow> bool" where
  "store_inv s \<longleftrightarrow> distinct (map wm_ID (st_members s)) \<and> distinct (map seat (st_members s))
     \<and> (\<forall>w \<in> set (st_workspaces s). \<exists>m \<in> set (st_members s). seat m = (wk_ID w, wk_OwnerID w) \<and> wm_Role m = MemberOwner)"

lemma FindByWorkspaceAndUser_iff:
  assumes "distinct (map seat (st_members s))"
  shows "FindByWorkspaceAndUser w u s = Some m \<longleftrightarrow> m \<in> set (st_members s) \<and> seat m = (w, u)"
proof
  assume "FindByWorkspaceAndUser w u s = Some m"
  then show "m \<in> set (st_members s) \<and> seat m = (w, u)"
    by (auto simp: FindByWorkspaceAndUser_def seat_def dest: find_SomeD)
next
  assume m: "m \<in> set (st_members s) \<and> seat m = (w, u)"
  then obtain m' where m': "FindByWorkspaceAndUser w u s = Some m'"
    by (cases "FindByWorkspaceAndUser w u s") (auto simp: FindByWorkspaceAndUser_def find_None_iff seat_def)
  then have "m' \<in> set (st_members s)" "seat m' = (w, u)"
    by (auto simp: FindByWorkspaceAndUser_def seat_def dest: find_SomeD)
  then show "FindByWorkspaceAndUser w u s = Some m"
    using m m' assms by (metis distinct_map inj_onD)
qed

lemma FindByWorkspaceAndUser_None:
  "FindByWorkspaceAndUser w u s = None \<longleftrightarrow> (w, u) \<notin> seat ` set (st_members s)"
  by (auto simp: FindByWorkspaceAndUser_def find_None_iff seat_def image_iff)

text \<open>The store only depends on its tables of workspaces and members.\<close>

lemma store_inv_cong:
  "st_workspaces s' = st_workspaces s \<Longrightarrow> st_members s' = st_members s \<Longrightarrow> store_inv s' = store_inv s"
  by (simp add: store_inv_def)

lemma audit_simps [simp]:
  "st_workspaces (audit e l s) = st_workspaces s" "st_members (audit e l s) = st_members s"
  by (simp_all add: audit_def)

lemma store_inv_audit [simp]: "store_inv (audit e l s) = store_inv s"
  by (rule store_inv_cong) simp_all

lemma store_inv_add:
  assumes "store_inv s" and "wm_ID m \<notin> wm_ID ` set (st_members s)" and "seat m \<notin> seat ` set (st_members s)"
  shows "store_inv (Member_Add m s)"
  using assms unfolding store_inv_def Member_Add_def by auto

text \<open>A change of a member that is no owner, or its removal, leaves every owner.\<close>

lemma store_inv_members:
  assumes "store_inv s" and "st_workspaces s' = st_workspaces s"
    and "distinct (map wm_ID (st_members s'))" and "distinct (map seat (st_members s'))"
    and "\<And>m. m \<in> set (st_members s) \<Longrightarrow> wm_Role m = MemberOwner \<Longrightarrow> m \<in> set (st_members s')"
  shows "store_inv s'"
  using assms unfolding store_inv_def by metis

lemma store_inv_remove:
  assumes inv: "store_inv s" and m: "m \<in> set (st_members s)" "wm_Role m \<noteq> MemberOwner"
  shows "store_inv (Member_Remove (wm_ID m) s)"
proof (rule store_inv_members[OF inv])
  show "st_workspaces (Member_Remove (wm_ID m) s) = st_workspaces s"
    by (simp add: Member_Remove_def)
  show "distinct (map wm_ID (st_members (Member_Remove (wm_ID m) s)))"
    and "distinct (map seat (st_members (Member_Remove (wm_ID m) s)))"
    using inv by (simp_all add: Member_Remove_def store_inv_def filter_distinct_map)
  fix x
  assume x: "x \<in> set (st_members s)" "wm_Role x = MemberOwner"
  have "wm_ID x \<noteq> wm_ID m"
    using x m inv unfolding store_inv_def by (metis distinct_map inj_onD)
  then show "x \<in> set (st_members (Member_Remove (wm_ID m) s))"
    using x by (simp add: Member_Remove_def)
qed

lemma store_inv_role:
  assumes inv: "store_inv s" and m: "m \<in> set (st_members s)" "wm_Role m \<noteq> MemberOwner"
  shows "store_inv (UpdateRole (wm_ID m) role s)"
proof (rule store_inv_members[OF inv])
  have ids: "map wm_ID (st_members (UpdateRole (wm_ID m) role s)) = map wm_ID (st_members s)"
    and seats: "map seat (st_members (UpdateRole (wm_ID m) role s)) = map seat (st_members s)"
    by (simp_all add: UpdateRole_def seat_def)
  show "st_workspaces (UpdateRole (wm_ID m) role s) = st_workspaces s"
    by (simp add: UpdateRole_def)
  show "distinct (map wm_ID (st_members (UpdateRole (wm_ID m) role s)))"
    and "distinct (map seat (st_members (UpdateRole (wm_ID m) role s)))"
    using inv unfolding ids seats store_inv_def by simp_all
  fix x
  assume x: "x \<in> set (st_members s)" "wm_Role x = MemberOwner"
  have "wm_ID x \<noteq> wm_ID m"
    using x m inv unfolding store_inv_def by (metis distinct_map inj_onD)
  then show "x \<in> set (st_members (UpdateRole (wm_ID m) role s))"
    using x by (force simp: UpdateRole_def image_iff)
qed


lemma CreateWorkspace_inv:
  assumes inv: "store_inv s" and pre: "workspace_pre s (WCreate db clk ids input)"
  shows "store_inv (snd (CreateWorkspace db clk ids input s))"
proof (cases "db 0 = None \<and> \<not> SlugExists (ci_Slug input) s \<and> db 1 = None
    \<and> (\<exists>w. NewWorkspace (clk 0) (ids 0) (ci_Name input) (ci_Slug input) (ci_OwnerID input) (ci_Plan input) = Inr w)")
  case False
  then show ?thesis
    using inv by (auto simp: CreateWorkspace_def Let_def split: option.split sum.split)
next
  case True
  then obtain w where ok: "db 0 = None" "\<not> SlugExists (ci_Slug input) s" "db 1 = None"
      and w: "NewWorkspace (clk 0) (ids 0) (ci_Name input) (ci_Slug input) (ci_OwnerID input) (ci_Plan input) = Inr w"
    by blast
  let ?w = "w\<lparr> wk_Description := ci_Description input \<rparr>"
  let ?m = "NewWorkspaceMember (clk 1) (ids 1) (ids 0) (ci_OwnerID input) MemberOwner (ci_OwnerID input)"
  let ?s = "Member_Add ?m (s\<lparr> st_workspaces := st_workspaces s @ [?w] \<rparr>)"
  have ids: "wk_ID w = ids 0" "wk_OwnerID w = ci_OwnerID input"
    using w by (auto simp: NewWorkspace_def split: if_splits)
  then have run: "snd (CreateWorkspace db clk ids input s) = audit (db 3) (NewAuditLog (clk 2) (ids 2) (ids 0) (ci_OwnerID input)
      ''create'' ''workspace'' (ids 0) None) ?s"
    using ok w pre by (simp add: CreateWorkspace_def Let_def)
  have m: "wm_ID ?m = ids 1" "seat ?m = (ids 0, ci_OwnerID input)" "wm_Role ?m = MemberOwner"
    by (simp_all add: NewWorkspaceMember_def seat_def)
  have "store_inv (Member_Add ?m s)"
  proof (rule store_inv_add[OF inv])
    show "wm_ID ?m \<notin> wm_ID ` set (st_members s)"
      using pre unfolding m by simp
    show "seat ?m \<notin> seat ` set (st_members s)"
      using pre unfolding m by (auto simp: seat_def)
  qed
  then have "store_inv ?s"
    using ids m unfolding store_inv_def by (auto simp: Member_Add_def)
  then show ?thesis
    unfolding run by simp
qed

lemma UpdateWorkspace_inv:
  assumes inv: "store_inv s"
  shows "store_inv (snd (UpdateWorkspace db clk i input s))"
proof -
  have "store_inv s'" if w: "UpdateWorkspace db clk i input s = (Inr w, s')" for w s'
  proof -
    obtain old where "Workspace_FindByID (ui_ID input) s = Some old" and w': "wk_ID w = wk_ID old" "wk_OwnerID w = wk_OwnerID old"
      and m: "st_members s' = st_members s"
      and ws: "st_workspaces s' = map (\<lambda>v. if wk_ID v = wk_ID w then w else v) (st_workspaces s)"
      using w by (auto simp: UpdateWorkspace_def Let_def split: option.splits if_splits)
    then have old: "old \<in> set (st_workspaces s)"
      by (auto simp: Workspace_FindByID_def dest: find_SomeD)
    have "\<exists>m \<in> set (st_members s). seat m = (wk_ID v, wk_OwnerID v) \<and> wm_Role m = MemberOwner" if "v \<in> set (st_workspaces s')" for v
      using that inv old w' unfolding ws store_inv_def by (auto split: if_splits)
    then show ?thesis
      using inv m unfolding store_inv_def by simp
  qed
  moreover have "s' = s" if "UpdateWorkspace db clk i input s = (Inl e, s')" for e s'
    using that by (auto simp: UpdateWorkspace_def Let_def split: option.splits if_splits)
  ultimately show ?thesis
    using inv by (cases "UpdateWorkspace db clk i input s"; cases "fst (UpdateWorkspace db clk i input s)") auto
qed

lemma InviteMember_tables [simp]:
  "st_workspaces (snd (InviteMember mail db clk ids input s)) = st_workspaces s"
  "st_members (snd (InviteMember mail db clk ids input s)) = st_members s"
  by (simp_all add: InviteMember_def Let_def split: option.split)

lemma DeclineInvitation_tables [simp]:
  "st_workspaces (snd (DeclineInvitation db token s)) = st_workspaces s"
  "st_members (snd (DeclineInvitation db token s)) = st_members s"
  by (simp_all add: DeclineInvitation_def Invitation_Update_def split: option.split)

lemma Accept_inv:
  assumes inv: "store_inv s" and new: "i \<notin> wm_ID ` set (st_members s)"
  shows "store_inv (snd (Workspace_AcceptInvitation db clk i token u s))"
proof -
  have "store_inv (Member_Add (NewWorkspaceMember t i w u role inviter) s)" if "FindByWorkspaceAndUser w u s = None" for t w role inviter
    using that new by (intro store_inv_add[OF inv]) (auto simp: FindByWorkspaceAndUser_None NewWorkspaceMember_def seat_def)
  moreover have "store_inv (Invitation_Update x y) = store_inv y" for x y
    by (rule store_inv_cong) (simp_all add: Invitation_Update_def)
  ultimately show ?thesis
    using inv by (simp add: Workspace_AcceptInvitation_def Let_def split: option.split)
qed

lemma onMember_inv:
  assumes inv: "store_inv s"
    and act: "\<And>m. m \<in> set (st_members s) \<Longrightarrow> wm_Role m \<noteq> MemberOwner \<Longrightarrow> wm_ID m = i \<Longrightarrow> store_inv (snd (act m s))"
  shows "store_inv (snd (onMember w i actor act s))"
  using inv by (auto simp: onMember_def Member_FindByID_def split: option.split intro!: act dest: find_SomeD)

lemma workspace_step_inv:
  assumes inv: "store_inv s" and pre: "workspace_pre s c" and step: "workspace_step c s = Inr s'"
  shows "store_inv s'"
proof (cases c)
  case (WCreate db clk ids input)
  then show ?thesis
    using CreateWorkspace_inv[OF inv] pre step by auto
next
  case WUpdate
  then show ?thesis
    using UpdateWorkspace_inv[OF inv] step by auto
next
  case (WDelete db w actor)
  have "store_inv (s\<lparr> st_workspaces := filter P (st_workspaces s) \<rparr>)" for P
    using inv by (simp add: store_inv_def)
  then show ?thesis
    using WDelete step inv by (auto simp: DeleteWorkspace_def split: option.splits)
next
  case WInvite
  then show ?thesis
    using step inv store_inv_cong[of s' s] by auto
next
  case WAccept
  then show ?thesis
    using Accept_inv[OF inv] pre step by auto
next
  case WDecline
  then show ?thesis
    using step inv store_inv_cong[of s' s] by auto
next
  case (WChangeRole db now i w m role actor)
  have "store_inv (snd (UpdateMemberRole db now i w m role actor s))"
    unfolding UpdateMemberRole_def
    by (rule onMember_inv[OF inv]) (use inv store_inv_role[OF inv] in \<open>auto split: option.split\<close>)
  then show ?thesis
    using WChangeRole step by simp
next
  case (WRemove db now i w m actor)
  have "store_inv (snd (RemoveMember db now i w m actor s))"
    unfolding RemoveMember_def
    by (rule onMember_inv[OF inv]) (use inv store_inv_remove[OF inv] in \<open>auto split: option.split\<close>)
  then show ?thesis
    using WRemove step by simp
next
  case (WLeave db w u)
  then show ?thesis
    using step inv store_inv_remove[OF inv]
    by (auto simp: LeaveWorkspace_def FindByWorkspaceAndUser_def split: option.splits dest!: find_SomeD)
next
  case WLog
  then show ?thesis
    using step inv by (auto simp: LogAction_def)
qed

interpretation workspaces: aggregate workspace_step store_inv workspace_pre
  by unfold_locales (rule workspace_step_inv)

lemma store_inv_empty: "store_inv emptyStore"
  by (simp add: store_inv_def emptyStore_def)

text \<open>C20: The owner of a workspace keeps the seat and the role: after any commands, whatever writes failed but that of
  a new workspace's owner, every workspace has its owner as a member with the role owner, who can neither leave nor
  be removed or given another role.\<close>
theorem workspace_owner_stays:
  assumes "admissible workspace_step workspace_pre emptyStore cs" and "s = attempts workspace_step emptyStore cs"
    and "w \<in> set (st_workspaces s)"
  shows "\<exists>m. FindByWorkspaceAndUser (wk_ID w) (wk_OwnerID w) s = Some m \<and> wm_Role m = MemberOwner
    \<and> LeaveWorkspace db (wk_ID w) (wk_OwnerID w) s = (Inl CannotRemoveOwner, s)
    \<and> (\<forall>v actor. snd (RemoveMember db now i v (wm_ID m) actor s) = s \<and> snd (UpdateMemberRole db now i v (wm_ID m) role actor s) = s)"
proof -
  have inv: "store_inv s"
    using workspaces.run_inv[OF store_inv_empty assms(1)] assms(2) by simp
  then obtain m where m: "m \<in> set (st_members s)" "seat m = (wk_ID w, wk_OwnerID w)" "wm_Role m = MemberOwner"
    using assms(3) unfolding store_inv_def by blast
  then have seated: "FindByWorkspaceAndUser (wk_ID w) (wk_OwnerID w) s = Some m"
    using inv by (subst FindByWorkspaceAndUser_iff) (simp_all add: store_inv_def)
  have "Member_FindByID (wm_ID m) s \<noteq> None"
    using m(1) by (auto simp: Member_FindByID_def find_None_iff)
  moreover have "x = m" if x: "Member_FindByID (wm_ID m) s = Some x" for x
  proof -
    have "x \<in> set (st_members s)" "wm_ID x = wm_ID m"
      using x by (auto simp: Member_FindByID_def dest: find_SomeD)
    moreover have "inj_on wm_ID (set (st_members s))"
      using inv by (simp add: store_inv_def distinct_map)
    ultimately show ?thesis
      using m(1) by (auto dest: inj_onD)
  qed
  ultimately have "Member_FindByID (wm_ID m) s = Some m"
    by auto
  then have kept: "snd (onMember v (wm_ID m) actor act s) = s" for v actor act
    using m(3) by (simp add: onMember_def split: option.split)
  have "\<forall>v actor. snd (RemoveMember db now i v (wm_ID m) actor s) = s \<and> snd (UpdateMemberRole db now i v (wm_ID m) role actor s) = s"
    unfolding RemoveMember_def UpdateMemberRole_def by (intro allI conjI kept)
  then show ?thesis
    using seated m(3) by (simp add: LeaveWorkspace_def)
qed


text \<open>
  A workspace of the plan \<open>free\<close> with its owner, and the members and invitations of the examples below.
\<close>

definition dbOk :: db where
  "dbOk = (\<lambda>_. None)"

definition tag :: "string \<Rightarrow> nat \<Rightarrow> string" where
  "tag s k = s @ replicate k (CHR ''x'')"

definition create :: "string \<Rightarrow> string \<Rightarrow> workspace_command" where
  "create w u = WCreate dbOk (\<lambda>_. 0) (\<lambda>k. tag w k) \<lparr> ci_Name = w, ci_Slug = w, ci_Description = '''', ci_OwnerID = u, ci_Plan = PlanFree \<rparr>"

definition invite :: "string \<Rightarrow> string \<Rightarrow> string \<Rightarrow> workspace_command" where
  "invite w u email = WInvite False dbOk (\<lambda>_. 0) (\<lambda>k. tag email k) \<lparr> ii_WorkspaceID = w, ii_Email = email, ii_Role = MemberAdmin,
     ii_InviterID = u, ii_InviterName = u \<rparr>"

definition accept :: "string \<Rightarrow> workspace_command" where
  "accept u = WAccept dbOk (\<lambda>_. 1) (tag u 3) (tag u 1) u"

lemmas sample_defs = Let_def numeral_2_eq_2 numeral_3_eq_3 dbOk_def tag_def create_def invite_def accept_def emptyStore_def attempt_def CreateWorkspace_def
  SlugExists_def NewWorkspace_def slugRegex_def slugChar_def less_eq_char_def Member_Add_def NewWorkspaceMember_def audit_def
  InviteMember_def FindByWorkspaceAndUser_def Workspace_FindByID_def CanManageMembers_def role_defs CountByWorkspace_def
  GetPlanLimits_def freeLimits_def plan_defs Invitation_FindByEmail_def Invitation_IsValid_def NewWorkspaceInvitation_def
  Workspace_AcceptInvitation_def Invitation_FindByToken_def Invitation_Update_def Invitation_Accept_def

lemma workspace_owner_stays_witness:
  "\<exists>m. FindByWorkspaceAndUser ''w'' ''u'' (attempts workspace_step emptyStore [create ''w'' ''u'']) = Some m \<and> wm_Role m = MemberOwner"
proof -
  have w: "\<exists>w \<in> set (st_workspaces (attempts workspace_step emptyStore [create ''w'' ''u''])). wk_ID w = ''w'' \<and> wk_OwnerID w = ''u''"
    by (simp add: sample_defs)
  have "admissible workspace_step workspace_pre emptyStore [create ''w'' ''u'']"
    by (simp add: create_def dbOk_def emptyStore_def)
  then show ?thesis
    using w workspace_owner_stays[of "[create ''w'' ''u'']" "attempts workspace_step emptyStore [create ''w'' ''u'']"] by metis
qed

section \<open>What the service does not guard\<close>

text \<open>C21: The operations on a member check the actor in the workspace that is named and not that the member belongs to it: a
  manager of any workspace removes every member of every other workspace but its owners, and can give such a
  member the role of an owner.\<close>
theorem manager_acts_on_other_workspaces:
  assumes "FindByWorkspaceAndUser mine actorID s = Some actor" and "CanManageMembers (wm_Role actor)"
    and "Member_FindByID memberID s = Some member" and "wm_Role member \<noteq> MemberOwner"
  shows "fst (RemoveMember dbOk now i mine memberID actorID s) = Inr ()
    \<and> memberID \<notin> wm_ID ` set (st_members (snd (RemoveMember dbOk now i mine memberID actorID s)))
    \<and> fst (UpdateMemberRole dbOk now i mine memberID MemberOwner actorID s) = Inr ()
    \<and> (\<exists>m \<in> set (st_members (snd (UpdateMemberRole dbOk now i mine memberID MemberOwner actorID s))).
         seat m = seat member \<and> wm_Role m = MemberOwner)"
proof -
  have act: "onMember mine memberID actorID act s = act member s" for act
    using assms by (simp add: onMember_def)
  have member: "member \<in> set (st_members s)" "wm_ID member = memberID"
    using assms(3) by (auto simp: Member_FindByID_def dest: find_SomeD)
  then have "member\<lparr> wm_Role := MemberOwner \<rparr> \<in> set (st_members (UpdateRole memberID MemberOwner s))"
    by (force simp: UpdateRole_def image_iff)
  then show ?thesis
    unfolding RemoveMember_def UpdateMemberRole_def act
    by (auto simp: dbOk_def Member_Remove_def seat_def intro!: bexI[of _ "member\<lparr> wm_Role := MemberOwner \<rparr>"])
qed

definition two_workspaces :: WorkspaceStore where
  "two_workspaces = attempts workspace_step emptyStore [create ''v'' ''u'', create ''w'' ''t'', invite ''w'' ''t'' ''a'', accept ''a'']"

lemma manager_acts_on_other_workspaces_witness:
  "fst (RemoveMember dbOk 2 ''i'' ''v'' ''axxx'' ''u'' two_workspaces) = Inr ()
    \<and> (\<exists>m. Member_FindByID ''axxx'' two_workspaces = Some m \<and> wm_WorkspaceID m = ''w'')"
proof -
  have "\<exists>m. FindByWorkspaceAndUser ''v'' ''u'' two_workspaces = Some m \<and> CanManageMembers (wm_Role m)"
    and a: "\<exists>m. Member_FindByID ''axxx'' two_workspaces = Some m \<and> wm_WorkspaceID m = ''w'' \<and> wm_Role m \<noteq> MemberOwner"
    by (simp_all add: two_workspaces_def sample_defs Member_FindByID_def)
  then show ?thesis
    using manager_acts_on_other_workspaces[of "''v''" "''u''" two_workspaces _ "''axxx''"] by metis
qed

text \<open>
  Only the invitation looks at the limit of members: invitations that were sent while there was room are all accepted, so a
  workspace of the plan \<open>free\<close>, for at most three members, has four.
\<close>

lemma member_limit_exceeded:
  "CountByWorkspace ''w'' (attempts workspace_step emptyStore
     ([create ''w'' ''u'', invite ''w'' ''u'' ''a'', invite ''w'' ''u'' ''b'', invite ''w'' ''u'' ''c'', accept ''a'', accept ''b'', accept ''c''])) = 4"
  by (simp add: sample_defs)

text \<open>An invitation whose update fails after the member was added stays pending: a second user accepts it too.\<close>

lemma accepted_twice:
  assumes "Invitation_FindByToken token s = Some i" and "Invitation_IsValid (clk 0) i"
    and "FindByWorkspaceAndUser (wi_WorkspaceID i) u s = None" and "db = (\<lambda>k. if k = 1 then Some e else None)"
  shows "Invitation_FindByToken token (snd (Workspace_AcceptInvitation db clk newID token u s)) = Some i"
  using assms by (simp add: Workspace_AcceptInvitation_def Invitation_FindByToken_def Member_Add_def Let_def)

end
