(* ===== verification/User.thy ===== *)
theory User
  imports Prelude "HOL-Library.Char_ord"
begin

text \<open>
  The user aggregate (\<open>internal/user/domain/model/user.go\<close>). The library that hashes passwords is a parameter: \<open>bc_generate\<close>
  gives the hash of a password (with a salt) or no hash, \<open>bc_compare\<close> says whether a password fits a hash. A method
  that changes the user and fails returns both; readings of the clock and new identifiers are arguments.
\<close>

record bcrypt =
  bc_generate :: "nat \<Rightarrow> string \<Rightarrow> string option"
  bc_compare :: "string \<Rightarrow> string \<Rightarrow> bool"

datatype UserStatus = UserStatusActive | UserStatusInactive | UserStatusBlocked | UserStatusDeleted

type_synonym Role = string

definition RoleUser :: Role where "RoleUser = ''user''"
definition RoleAdmin :: Role where "RoleAdmin = ''admin''"
definition RoleOwner :: Role where "RoleOwner = ''owner''"

record User =
  us_id :: string
  us_email :: string
  us_username :: string
  us_passwordHash :: string
  us_firstName :: string
  us_lastName :: string
  us_avatarURL :: string
  us_status :: UserStatus
  us_emailVerified :: bool
  us_roles :: "Role list"
  us_organizationID :: "string option"
  us_metadata :: dict
  us_lastLoginAt :: "time option"
  us_failedAttempts :: int
  us_lockedUntil :: "time option"
  us_createdAt :: time
  us_updatedAt :: time
  us_version :: int

datatype user_error =
    InvalidEmail
  | UsernameLength
  | UsernameCharacters
  | PasswordTooShort
  | PasswordNoUpper
  | PasswordNoLower
  | PasswordNoDigit
  | HashFailed
  | AccountLocked
  | InvalidCredentials
  | CurrentPasswordIncorrect
  | EmailAlreadyVerified
  | AlreadyBlocked
  | NotBlocked
  | AlreadyDeleted
  | RoleAlreadyAssigned
  | CannotRemoveLastRole
  | RoleNotAssigned

section \<open>Validation\<close>

definition lower :: "char \<Rightarrow> bool" where "lower c \<longleftrightarrow> CHR ''a'' \<le> c \<and> c \<le> CHR ''z''"
definition upper :: "char \<Rightarrow> bool" where "upper c \<longleftrightarrow> CHR ''A'' \<le> c \<and> c \<le> CHR ''Z''"
definition digit :: "char \<Rightarrow> bool" where "digit c \<longleftrightarrow> CHR ''0'' \<le> c \<and> c \<le> CHR ''9''"

definition localChar :: "char \<Rightarrow> bool" where
  "localChar c \<longleftrightarrow> lower c \<or> digit c \<or> c \<in> {CHR ''.'', CHR ''_'', CHR ''%'', CHR ''+'', CHR ''-''}"

definition hostChar :: "char \<Rightarrow> bool" where
  "hostChar c \<longleftrightarrow> lower c \<or> digit c \<or> c \<in> {CHR ''.'', CHR ''-''}"

text \<open>
  The expression \<open>^[a-z0-9._%+\-]+@[a-z0-9.\-]+\.[a-z]{2,}$\<close>: the sign \<open>@\<close> occurs in no part, so the text is cut at the first
  one, and no dot occurs in the last part, so the rest is cut at the last dot.
\<close>

definition isValidEmail :: "string \<Rightarrow> bool" where
  "isValidEmail s =
     (let local = takeWhile (\<lambda>c. c \<noteq> CHR ''@'') s;
          rest = dropWhile (\<lambda>c. c \<noteq> CHR ''@'') s;
          dom = tl rest;
          tld = rev (takeWhile (\<lambda>c. c \<noteq> CHR ''.'') (rev dom));
          host = rev (tl (dropWhile (\<lambda>c. c \<noteq> CHR ''.'') (rev dom)))
      in rest \<noteq> [] \<and> local \<noteq> [] \<and> list_all localChar local \<and> CHR ''.'' \<in> set dom
         \<and> host \<noteq> [] \<and> list_all hostChar host \<and> length tld \<ge> 2 \<and> list_all lower tld)"

definition usernameChar :: "char \<Rightarrow> bool" where
  "usernameChar c \<longleftrightarrow> lower c \<or> upper c \<or> digit c \<or> c = CHR ''_'' \<or> c = CHR ''-''"

definition validateUsername :: "string \<Rightarrow> user_error option" where
  "validateUsername s =
     (if length s < 3 \<or> length s > 30 then Some UsernameLength
      else if \<not> (s \<noteq> [] \<and> list_all usernameChar s) then Some UsernameCharacters
      else None)"

definition validatePassword :: "string \<Rightarrow> user_error option" where
  "validatePassword s =
     (if length s < 8 then Some PasswordTooShort
      else if \<not> list_ex upper s then Some PasswordNoUpper
      else if \<not> list_ex lower s then Some PasswordNoLower
      else if \<not> list_ex digit s then Some PasswordNoDigit
      else None)"

definition hashPassword :: "bcrypt \<Rightarrow> nat \<Rightarrow> string \<Rightarrow> user_error + string" where
  "hashPassword lib salt password = (case bc_generate lib salt password of None \<Rightarrow> Inl HashFailed | Some h \<Rightarrow> Inr h)"

section \<open>Operations\<close>

definition NewUser ::
  "bcrypt \<Rightarrow> nat \<Rightarrow> time \<Rightarrow> string \<Rightarrow> string \<Rightarrow> string \<Rightarrow> string \<Rightarrow> string \<Rightarrow> string \<Rightarrow> user_error + User" where
  "NewUser lib salt now newID email username password firstName lastName =
     (if \<not> isValidEmail email then Inl InvalidEmail
      else (case validateUsername username of
          Some e \<Rightarrow> Inl e
        | None \<Rightarrow> (case validatePassword password of
            Some e \<Rightarrow> Inl e
          | None \<Rightarrow> (case hashPassword lib salt password of
              Inl e \<Rightarrow> Inl e
            | Inr hash \<Rightarrow> Inr \<lparr> us_id = newID, us_email = email, us_username = username, us_passwordHash = hash,
                us_firstName = firstName, us_lastName = lastName, us_avatarURL = '''', us_status = UserStatusActive,
                us_emailVerified = False, us_roles = [RoleUser], us_organizationID = None, us_metadata = Map.empty,
                us_lastLoginAt = None, us_failedAttempts = 0, us_lockedUntil = None, us_createdAt = now,
                us_updatedAt = now, us_version = 0 \<rparr>))))"

definition recordFailedAttempt :: "(nat \<Rightarrow> time) \<Rightarrow> User \<Rightarrow> User" where
  "recordFailedAttempt clk u =
     (let u1 = u\<lparr> us_failedAttempts := us_failedAttempts u + 1 \<rparr>;
          u2 = (if us_failedAttempts u1 \<ge> 5
            then u1\<lparr> us_lockedUntil := Some (clk 1 + 15 * Minute), us_status := UserStatusBlocked \<rparr> else u1)
      in u2\<lparr> us_updatedAt := clk 2 \<rparr>)"

definition locked :: "time \<Rightarrow> User \<Rightarrow> bool" where
  "locked now u \<longleftrightarrow> (case us_lockedUntil u of None \<Rightarrow> False | Some t \<Rightarrow> t > now)"

definition VerifyPassword :: "bcrypt \<Rightarrow> (nat \<Rightarrow> time) \<Rightarrow> string \<Rightarrow> User \<Rightarrow> user_error option \<times> User" where
  "VerifyPassword lib clk password u =
     (if locked (clk 0) u then (Some AccountLocked, u)
      else if \<not> bc_compare lib (us_passwordHash u) password then (Some InvalidCredentials, recordFailedAttempt clk u)
      else (None, u\<lparr> us_failedAttempts := 0, us_lockedUntil := None, us_lastLoginAt := Some (clk 1), us_updatedAt := clk 2 \<rparr>))"

definition us_touched :: "time \<Rightarrow> User \<Rightarrow> User" where
  "us_touched now u = u\<lparr> us_updatedAt := now, us_version := us_version u + 1 \<rparr>"

definition ChangePassword ::
  "bcrypt \<Rightarrow> nat \<Rightarrow> (nat \<Rightarrow> time) \<Rightarrow> string \<Rightarrow> string \<Rightarrow> User \<Rightarrow> user_error option \<times> User" where
  "ChangePassword lib salt clk currentPassword newPassword u =
     (case VerifyPassword lib clk currentPassword u of
        (Some _, u1) \<Rightarrow> (Some CurrentPasswordIncorrect, u1)
      | (None, u1) \<Rightarrow>
          (case validatePassword newPassword of
             Some e \<Rightarrow> (Some e, u1)
           | None \<Rightarrow>
             (case hashPassword lib salt newPassword of
                Inl e \<Rightarrow> (Some e, u1)
              | Inr hash \<Rightarrow> (None, us_touched (clk 3) (u1\<lparr> us_passwordHash := hash \<rparr>)))))"

definition UpdateProfile :: "time \<Rightarrow> string \<Rightarrow> string \<Rightarrow> string \<Rightarrow> User \<Rightarrow> User" where
  "UpdateProfile now firstName lastName avatarURL u =
     (let u1 = (if firstName \<noteq> '''' then u\<lparr> us_firstName := firstName \<rparr> else u);
          u2 = (if lastName \<noteq> '''' then u1\<lparr> us_lastName := lastName \<rparr> else u1);
          u3 = (if avatarURL \<noteq> '''' then u2\<lparr> us_avatarURL := avatarURL \<rparr> else u2)
      in us_touched now u3)"

definition VerifyEmail :: "time \<Rightarrow> User \<Rightarrow> user_error + User" where
  "VerifyEmail now u =
     (if us_emailVerified u then Inl EmailAlreadyVerified else Inr (us_touched now (u\<lparr> us_emailVerified := True \<rparr>)))"

definition Block :: "time \<Rightarrow> User \<Rightarrow> user_error + User" where
  "Block now u =
     (if us_status u = UserStatusBlocked then Inl AlreadyBlocked else Inr (us_touched now (u\<lparr> us_status := UserStatusBlocked \<rparr>)))"

definition Unblock :: "time \<Rightarrow> User \<Rightarrow> user_error + User" where
  "Unblock now u =
     (if us_status u \<noteq> UserStatusBlocked then Inl NotBlocked else Inr (us_touched now (u\<lparr> us_status := UserStatusActive \<rparr>)))"

definition User_Delete :: "time \<Rightarrow> User \<Rightarrow> user_error + User" where
  "User_Delete now u =
     (if us_status u = UserStatusDeleted then Inl AlreadyDeleted else Inr (us_touched now (u\<lparr> us_status := UserStatusDeleted \<rparr>)))"

definition HasRole :: "Role \<Rightarrow> User \<Rightarrow> bool" where
  "HasRole role u = list_ex (\<lambda>r. r = role) (us_roles u)"

definition AssignRole :: "time \<Rightarrow> Role \<Rightarrow> User \<Rightarrow> user_error + User" where
  "AssignRole now role u =
     (if list_ex (\<lambda>r. r = role) (us_roles u) then Inl RoleAlreadyAssigned
      else Inr (us_touched now (u\<lparr> us_roles := us_roles u @ [role] \<rparr>)))"

definition RemoveRole :: "time \<Rightarrow> Role \<Rightarrow> User \<Rightarrow> user_error + User" where
  "RemoveRole now role u =
     (if length (us_roles u) = 1 \<and> us_roles u ! 0 = role then Inl CannotRemoveLastRole
      else if \<not> list_ex (\<lambda>r. r = role) (us_roles u) then Inl RoleNotAssigned
      else Inr (us_touched now (u\<lparr> us_roles := filter (\<lambda>r. r \<noteq> role) (us_roles u) \<rparr>)))"

definition SetOrganization :: "time \<Rightarrow> string \<Rightarrow> User \<Rightarrow> User" where
  "SetOrganization now orgID u = us_touched now (u\<lparr> us_organizationID := Some orgID \<rparr>)"

section \<open>Validation against the expression\<close>

lemma hostChar_no_at [simp]: "\<not> hostChar (CHR ''@'')"
  and localChar_no_at [simp]: "\<not> localChar (CHR ''@'')"
  and lower_no_dot [simp]: "\<not> lower (CHR ''.'')" and lower_no_at [simp]: "\<not> lower (CHR ''@'')"
  by (simp_all add: hostChar_def localChar_def lower_def digit_def less_eq_char_def)

text \<open>The first place of a character that is not before it, and the last that is not behind it.\<close>

lemma cut_first:
  assumes "c \<notin> set xs"
  shows "takeWhile (\<lambda>x. x \<noteq> c) (xs @ c # ys) = xs" and "dropWhile (\<lambda>x. x \<noteq> c) (xs @ c # ys) = c # ys"
  using assms by (induction xs) auto

lemma cut_last:
  assumes "c \<notin> set ys"
  shows "rev (takeWhile (\<lambda>x. x \<noteq> c) (rev (xs @ c # ys))) = ys" and "rev (tl (dropWhile (\<lambda>x. x \<noteq> c) (rev (xs @ c # ys)))) = xs"
  using cut_first[of c "rev ys" "rev xs"] assms by simp_all

lemma split_first: "c \<in> set s \<Longrightarrow> s = takeWhile (\<lambda>x. x \<noteq> c) s @ c # tl (dropWhile (\<lambda>x. x \<noteq> c) s)"
  by (induction s) auto

lemma split_last:
  assumes "c \<in> set s"
  shows "s = rev (tl (dropWhile (\<lambda>x. x \<noteq> c) (rev s))) @ c # rev (takeWhile (\<lambda>x. x \<noteq> c) (rev s))"
proof -
  have "rev s = takeWhile (\<lambda>x. x \<noteq> c) (rev s) @ c # tl (dropWhile (\<lambda>x. x \<noteq> c) (rev s))"
    using assms by (intro split_first) simp
  then show ?thesis
    by (metis append.assoc append_Cons append_Nil rev.simps(2) rev_append rev_rev_ident)
qed

lemma isValidEmail_iff:
  "isValidEmail s \<longleftrightarrow> (\<exists>l h t. s = l @ ''@'' @ h @ ''.'' @ t \<and> l \<noteq> [] \<and> list_all localChar l
     \<and> h \<noteq> [] \<and> list_all hostChar h \<and> length t \<ge> 2 \<and> list_all lower t)"
proof
  assume valid: "isValidEmail s"
  let ?l = "takeWhile (\<lambda>c. c \<noteq> CHR ''@'') s" and ?d = "tl (dropWhile (\<lambda>c. c \<noteq> CHR ''@'') s)"
  have "CHR ''@'' \<in> set s"
    using valid by (auto simp: isValidEmail_def Let_def)
  then have s: "s = ?l @ CHR ''@'' # ?d"
    by (rule split_first)
  have "CHR ''.'' \<in> set ?d"
    using valid by (simp add: isValidEmail_def Let_def)
  from split_last[OF this] s valid
  show "\<exists>l h t. s = l @ ''@'' @ h @ ''.'' @ t \<and> l \<noteq> [] \<and> list_all localChar l
     \<and> h \<noteq> [] \<and> list_all hostChar h \<and> length t \<ge> 2 \<and> list_all lower t"
    by (intro exI[of _ ?l] exI[of _ "rev (tl (dropWhile (\<lambda>c. c \<noteq> CHR ''.'') (rev ?d)))"]
        exI[of _ "rev (takeWhile (\<lambda>c. c \<noteq> CHR ''.'') (rev ?d))"]) (auto simp: isValidEmail_def Let_def)
next
  assume "\<exists>l h t. s = l @ ''@'' @ h @ ''.'' @ t \<and> l \<noteq> [] \<and> list_all localChar l
     \<and> h \<noteq> [] \<and> list_all hostChar h \<and> length t \<ge> 2 \<and> list_all lower t"
  then obtain l h t where s: "s = l @ CHR ''@'' # h @ CHR ''.'' # t" and parts: "l \<noteq> []" "list_all localChar l" "h \<noteq> []"
      "list_all hostChar h" "length t \<ge> 2" "list_all lower t"
    by auto
  have "CHR ''@'' \<notin> set l" "CHR ''.'' \<notin> set t"
    using parts by (auto simp: list_all_iff)
  then show "isValidEmail s"
    using parts cut_first[of "CHR ''@''" l "h @ CHR ''.'' # t"] cut_first[of "CHR ''.''" "rev t" "rev h"]
    by (simp add: isValidEmail_def s Let_def)
qed

section \<open>The aggregate\<close>

datatype user_command =
    UProfile time string string string
  | UVerifyEmail time
  | UBlock time
  | UUnblock time
  | UDelete time
  | UAssign time Role
  | URemove time Role
  | USetOrganization time string

fun user_step :: "user_command \<Rightarrow> User \<Rightarrow> user_error + User" where
  "user_step (UProfile now f l a) u = Inr (UpdateProfile now f l a u)"
| "user_step (UVerifyEmail now) u = VerifyEmail now u"
| "user_step (UBlock now) u = Block now u"
| "user_step (UUnblock now) u = Unblock now u"
| "user_step (UDelete now) u = User_Delete now u"
| "user_step (UAssign now role) u = AssignRole now role u"
| "user_step (URemove now role) u = RemoveRole now role u"
| "user_step (USetOrganization now org) u = Inr (SetOrganization now org u)"

text \<open>A user has a role, and no role twice.\<close>

definition user_inv :: "User \<Rightarrow> bool" where
  "user_inv u \<longleftrightarrow> us_roles u \<noteq> [] \<and> distinct (us_roles u)"

lemma RemoveRole_inv: "user_inv u \<Longrightarrow> RemoveRole now role u = Inr u' \<Longrightarrow> user_inv u'"
proof -
  assume inv: "user_inv u" and step: "RemoveRole now role u = Inr u'"
  have "filter (\<lambda>r. r \<noteq> role) (us_roles u) \<noteq> []"
  proof
    assume "filter (\<lambda>r. r \<noteq> role) (us_roles u) = []"
    then have "set (us_roles u) \<subseteq> {role}"
      by (auto simp: filter_empty_conv)
    then have "us_roles u = [role]"
      using inv by (cases "us_roles u"; cases "tl (us_roles u)") (auto simp: user_inv_def)
    then show False
      using step by (simp add: RemoveRole_def)
  qed
  then show "user_inv u'"
    using inv step by (auto simp: RemoveRole_def user_inv_def us_touched_def split: if_splits)
qed

lemmas user_op_defs = UpdateProfile_def VerifyEmail_def Block_def Unblock_def User_Delete_def AssignRole_def SetOrganization_def
  us_touched_def Let_def

interpretation users: versioned_aggregate user_step user_inv "\<lambda>_ _. True" us_version
proof
  fix u c u'
  assume "user_inv u" and step: "user_step c u = Inr u'"
  then show "user_inv u'"
  proof (cases c)
    case (URemove now role)
    then show ?thesis
      using RemoveRole_inv[OF \<open>user_inv u\<close>] step by simp
  qed (auto simp: user_op_defs user_inv_def list_ex_iff split: if_splits)
next
  fix u c u'
  assume "user_step c u = Inr u'"
  then show "us_version u' = us_version u + 1"
    by (cases c) (auto simp: user_op_defs RemoveRole_def split: if_splits)
qed


lemma user_roles_kept:
  "NewUser lib salt now i e n p f l = Inr u \<Longrightarrow> user_inv (attempts user_step u cs)"
  by (rule users.run_inv) (auto simp: NewUser_def user_inv_def split: if_splits option.splits sum.splits)

text \<open>Blocking a deleted user and unblocking it makes it active again.\<close>

lemma deleted_user_revived:
  assumes "us_status u = UserStatusDeleted"
  shows "\<exists>u'. attempts user_step u [UBlock t1, UUnblock t2] = u' \<and> us_status u' = UserStatusActive"
  using assms by (simp add: Block_def Unblock_def us_touched_def attempt_def)

section \<open>Guessing a password\<close>

text \<open>The attempts of a guesser, each at a time of its own; \<open>compared\<close> counts those whose password was compared with the hash.\<close>

fun compared :: "bcrypt \<Rightarrow> (time \<times> string) list \<Rightarrow> User \<Rightarrow> nat" where
  "compared lib [] u = 0"
| "compared lib ((t, password) # gs) u =
     (if locked t u then 0 else 1) + compared lib gs (snd (VerifyPassword lib (\<lambda>_. t) password u))"

lemma VerifyPassword_wrong:
  assumes "\<not> bc_compare lib (us_passwordHash u) password"
  shows "us_passwordHash (snd (VerifyPassword lib clk password u)) = us_passwordHash u"
    and "locked (clk 0) u \<Longrightarrow> snd (VerifyPassword lib clk password u) = u"
    and "\<not> locked (clk 0) u \<Longrightarrow> snd (VerifyPassword lib clk password u) = recordFailedAttempt clk u"
  using assms by (simp_all add: VerifyPassword_def recordFailedAttempt_def Let_def)

lemma recordFailedAttempt_simps:
  "us_failedAttempts (recordFailedAttempt clk u) = us_failedAttempts u + 1"
  "us_lockedUntil (recordFailedAttempt clk u) = (if us_failedAttempts u \<ge> 4 then Some (clk 1 + 15 * Minute) else us_lockedUntil u)"
  by (simp_all add: recordFailedAttempt_def Let_def)

lemma window_step:
  fixes l t b :: time
  assumes "l \<le> t" and "t \<le> b"
  shows "(if b < t + 15 * Minute then 0 else (b - (t + 15 * Minute)) div (15 * Minute) + 1) \<le> (b - l) div (15 * Minute)"
proof (cases "b < t + 15 * Minute")
  case True
  then show ?thesis
    using assms by (simp add: pos_imp_zdiv_nonneg_iff)
next
  case False
  have "(b - (t + 15 * Minute)) div (15 * Minute) + 1 = (b - t) div (15 * Minute)"
    using div_add_self2[of "15 * Minute" "b - (t + 15 * Minute)"] by simp
  also have "\<dots> \<le> (b - l) div (15 * Minute)"
    using assms by (intro zdiv_mono1) simp_all
  finally show ?thesis
    using False by simp
qed

lemma compared_locked:
  assumes "us_failedAttempts u \<ge> 5" and "us_lockedUntil u = Some l"
    and "\<forall>(t, password) \<in> set gs. t \<le> b \<and> \<not> bc_compare lib (us_passwordHash u) password"
  shows "int (compared lib gs u) \<le> (if b < l then 0 else (b - l) div (15 * Minute) + 1)"
  using assms
proof (induction gs arbitrary: u l)
  case Nil
  then show ?case
    by simp
next
  case (Cons g gs)
  obtain t password where g: "g = (t, password)"
    by (cases g)
  have wrong: "\<not> bc_compare lib (us_passwordHash u) password" and t: "t \<le> b"
    using Cons.prems(3) g by auto
  let ?u = "snd (VerifyPassword lib (\<lambda>_. t) password u)"
  have hash: "us_passwordHash ?u = us_passwordHash u"
    using VerifyPassword_wrong(1)[OF wrong] .
  show ?case
  proof (cases "locked t u")
    case True
    then show ?thesis
      using Cons.IH[of u l] Cons.prems VerifyPassword_wrong(2)[OF wrong, of "\<lambda>_. t"] g by simp
  next
    case False
    then have u: "?u = recordFailedAttempt (\<lambda>_. t) u" and l: "l \<le> t"
      using VerifyPassword_wrong(3)[OF wrong, of "\<lambda>_. t"] Cons.prems(2) by (auto simp: locked_def)
    have "int (compared lib gs ?u) \<le> (if b < t + 15 * Minute then 0 else (b - (t + 15 * Minute)) div (15 * Minute) + 1)"
      using Cons.prems hash by (intro Cons.IH) (auto simp: u recordFailedAttempt_simps)
    also have "\<dots> \<le> (b - l) div (15 * Minute)"
      using window_step[of l t b] l t by simp
    finally show ?thesis
      using False l t g by simp
  qed
qed

lemma compared_open:
  assumes "0 \<le> us_failedAttempts u" "us_failedAttempts u < 5" and "us_lockedUntil u = None"
    and "\<forall>(t, password) \<in> set gs. a \<le> t \<and> t \<le> b \<and> \<not> bc_compare lib (us_passwordHash u) password" and "a \<le> b"
  shows "int (compared lib gs u) \<le> 5 - us_failedAttempts u + (b - a) div (15 * Minute)"
  using assms
proof (induction gs arbitrary: u)
  case Nil
  then show ?case
    by (simp add: pos_imp_zdiv_nonneg_iff)
next
  case (Cons g gs)
  obtain t password where g: "g = (t, password)"
    by (cases g)
  have wrong: "\<not> bc_compare lib (us_passwordHash u) password" and t: "a \<le> t" "t \<le> b"
    using Cons.prems(4) g by auto
  have u: "snd (VerifyPassword lib (\<lambda>_. t) password u) = recordFailedAttempt (\<lambda>_. t) u" and free: "\<not> locked t u"
    using VerifyPassword_wrong(3)[OF wrong, of "\<lambda>_. t"] Cons.prems(3) by (simp_all add: locked_def)
  have hash: "us_passwordHash (recordFailedAttempt (\<lambda>_. t) u) = us_passwordHash u"
    using VerifyPassword_wrong(1)[OF wrong, of "\<lambda>_. t"] u by simp
  show ?case
  proof (cases "us_failedAttempts u = 4")
    case True
    have "int (compared lib gs (recordFailedAttempt (\<lambda>_. t) u))
        \<le> (if b < t + 15 * Minute then 0 else (b - (t + 15 * Minute)) div (15 * Minute) + 1)"
      using Cons.prems hash True by (intro compared_locked) (auto simp: recordFailedAttempt_simps)
    also have "\<dots> \<le> (b - a) div (15 * Minute)"
      using window_step[of a t b] t by simp
    finally show ?thesis
      using True free by (simp add: g u)
  next
    case False
    then show ?thesis
      using Cons.IH[of "recordFailedAttempt (\<lambda>_. t) u"] Cons.prems hash free by (simp add: g u recordFailedAttempt_simps)
  qed
qed

text \<open>The lock of an account bounds the guessing of a password: within a span of time, however many attempts are made, at
  most five passwords that are wrong are compared with the hash, and one more for every quarter of an hour of the span.\<close>
theorem guesses_bounded:
  assumes "us_failedAttempts u = 0" and "us_lockedUntil u = None" and "a \<le> b"
    and "\<forall>(t, password) \<in> set gs. a \<le> t \<and> t \<le> b \<and> \<not> bc_compare lib (us_passwordHash u) password"
  shows "int (compared lib gs u) \<le> 5 + (b - a) div (15 * Minute)"
  using compared_open[of u gs a b lib] assms by simp

end
