(* ===== verification/Organization.thy ===== *)
theory Organization
  imports User
begin

text \<open>
  The organization aggregate (\<open>internal/user/domain/model/organization.go\<close>) and its repository
  (\<open>internal/user/adapters/repository/postgres/organization_repository.go\<close>), two tables: organizations without
  their members, and members. \<open>db k\<close> is the answer to the \<open>k\<close>-th statement of a call (\<open>Some e\<close> an error, and then it
  changes nothing). Readings of the clock and the random part of a slug are arguments.
\<close>

datatype OrganizationStatus = OrganizationStatusActive | OrganizationStatusInactive | OrganizationStatusSuspended

record Member =
  mb_UserID :: string
  mb_Role :: Role
  mb_JoinedAt :: time

record Organization =
  og_id :: string
  og_name :: string
  og_slug :: string
  og_description :: string
  og_logoURL :: string
  og_website :: string
  og_status :: OrganizationStatus
  og_createdBy :: string
  og_members :: "Member list"
  og_settings :: dict
  og_createdAt :: time
  og_updatedAt :: time
  og_version :: int

datatype organization_error =
    OrgNameRequired
  | CreatedByRequired
  | AlreadyOrgMember
  | CannotRemoveOrgOwner
  | NotOrgMember
  | CannotChangeOwnerRole
  | OrgMemberNotFound
  | AlreadySuspended
  | AlreadyActive

section \<open>The aggregate\<close>

text \<open>Adding 32 to a capital letter gives the small one.\<close>

definition toLower :: "char \<Rightarrow> char" where
  "toLower c = (if upper c then char_of (of_char c + 32 :: nat) else c)"

fun slugLoop :: "string \<Rightarrow> string \<Rightarrow> string" where
  "slugLoop slug [] = slug"
| "slugLoop slug (r # rs) =
     (if lower r \<or> upper r \<or> digit r then slugLoop (slug @ [toLower r]) rs
      else if r = CHR '' '' \<or> r = CHR ''-'' \<or> r = CHR ''_'' then
        slugLoop (if slug \<noteq> '''' \<and> last slug \<noteq> CHR ''-'' then slug @ ''-'' else slug) rs
      else slugLoop slug rs)"

definition generateSlug :: "string \<Rightarrow> string \<Rightarrow> string" where
  "generateSlug random name = slugLoop '''' name @ ''-'' @ take 8 random"

definition NewOrganization ::
  "time \<Rightarrow> string \<Rightarrow> string \<Rightarrow> string \<Rightarrow> string \<Rightarrow> string \<Rightarrow> organization_error + Organization" where
  "NewOrganization now newID random name description createdBy =
     (if name = '''' then Inl OrgNameRequired
      else if createdBy = '''' then Inl CreatedByRequired
      else Inr \<lparr> og_id = newID, og_name = name, og_slug = generateSlug random name, og_description = description,
        og_logoURL = '''', og_website = '''', og_status = OrganizationStatusActive, og_createdBy = createdBy,
        og_members = [\<lparr> mb_UserID = createdBy, mb_Role = RoleOwner, mb_JoinedAt = now \<rparr>],
        og_settings = Map.empty, og_createdAt = now, og_updatedAt = now, og_version = 0 \<rparr>)"

definition og_touched :: "time \<Rightarrow> Organization \<Rightarrow> Organization" where
  "og_touched now o1 = o1\<lparr> og_updatedAt := now, og_version := og_version o1 + 1 \<rparr>"

definition UpdateDetails :: "time \<Rightarrow> string \<Rightarrow> string \<Rightarrow> string \<Rightarrow> string \<Rightarrow> string \<Rightarrow> Organization \<Rightarrow> Organization" where
  "UpdateDetails now random name description logoURL website o1 =
     (let o2 = (if name \<noteq> '''' \<and> name \<noteq> og_name o1 then o1\<lparr> og_name := name, og_slug := generateSlug random name \<rparr> else o1);
          o3 = (if description \<noteq> '''' then o2\<lparr> og_description := description \<rparr> else o2);
          o4 = (if logoURL \<noteq> '''' then o3\<lparr> og_logoURL := logoURL \<rparr> else o3);
          o5 = (if website \<noteq> '''' then o4\<lparr> og_website := website \<rparr> else o4)
      in og_touched now o5)"

definition AddMember :: "(nat \<Rightarrow> time) \<Rightarrow> string \<Rightarrow> Role \<Rightarrow> Organization \<Rightarrow> organization_error + Organization" where
  "AddMember clk userID role o1 =
     (if list_ex (\<lambda>m. mb_UserID m = userID) (og_members o1) then Inl AlreadyOrgMember
      else Inr (og_touched (clk 1) (o1\<lparr> og_members := og_members o1 @
        [\<lparr> mb_UserID = userID, mb_Role = role, mb_JoinedAt = clk 0 \<rparr>] \<rparr>)))"

definition Org_RemoveMember :: "time \<Rightarrow> string \<Rightarrow> Organization \<Rightarrow> organization_error + Organization" where
  "Org_RemoveMember now userID o1 =
     (if userID = og_createdBy o1 then Inl CannotRemoveOrgOwner
      else if \<not> list_ex (\<lambda>m. mb_UserID m = userID) (og_members o1) then Inl NotOrgMember
      else Inr (og_touched now (o1\<lparr> og_members := filter (\<lambda>m. mb_UserID m \<noteq> userID) (og_members o1) \<rparr>)))"

fun setRole :: "string \<Rightarrow> Role \<Rightarrow> Member list \<Rightarrow> (Member list) option" where
  "setRole userID role [] = None"
| "setRole userID role (m # ms) =
     (if mb_UserID m = userID then Some (m\<lparr> mb_Role := role \<rparr> # ms) else map_option (Cons m) (setRole userID role ms))"

definition Org_UpdateMemberRole :: "time \<Rightarrow> string \<Rightarrow> Role \<Rightarrow> Organization \<Rightarrow> organization_error + Organization" where
  "Org_UpdateMemberRole now userID newRole o1 =
     (if userID = og_createdBy o1 \<and> newRole \<noteq> RoleOwner then Inl CannotChangeOwnerRole
      else (case setRole userID newRole (og_members o1) of
          None \<Rightarrow> Inl NotOrgMember
        | Some ms \<Rightarrow> Inr (og_touched now (o1\<lparr> og_members := ms \<rparr>))))"

definition GetMember :: "string \<Rightarrow> Organization \<Rightarrow> organization_error + Member" where
  "GetMember userID o1 =
     (case find (\<lambda>m. mb_UserID m = userID) (og_members o1) of None \<Rightarrow> Inl OrgMemberNotFound | Some m \<Rightarrow> Inr m)"

definition HasMember :: "string \<Rightarrow> Organization \<Rightarrow> bool" where
  "HasMember userID o1 = list_ex (\<lambda>m. mb_UserID m = userID) (og_members o1)"

definition Org_Suspend :: "time \<Rightarrow> Organization \<Rightarrow> organization_error + Organization" where
  "Org_Suspend now o1 =
     (if og_status o1 = OrganizationStatusSuspended then Inl AlreadySuspended
      else Inr (og_touched now (o1\<lparr> og_status := OrganizationStatusSuspended \<rparr>)))"

definition Org_Activate :: "time \<Rightarrow> Organization \<Rightarrow> organization_error + Organization" where
  "Org_Activate now o1 =
     (if og_status o1 = OrganizationStatusActive then Inl AlreadyActive
      else Inr (og_touched now (o1\<lparr> og_status := OrganizationStatusActive \<rparr>)))"

definition Org_UpdateSettings :: "time \<Rightarrow> dict \<Rightarrow> Organization \<Rightarrow> Organization" where
  "Org_UpdateSettings now settings o1 = og_touched now (o1\<lparr> og_settings := og_settings o1 ++ settings \<rparr>)"

section \<open>The repository\<close>

text \<open>The row of an organization is kept without its members, which are rows of their own.\<close>

record OrgTables =
  ot_orgs :: "Organization list"
  ot_members :: "(string \<times> Member) list"

definition saveMember :: "string \<Rightarrow> Member \<Rightarrow> OrgTables \<Rightarrow> OrgTables" where
  "saveMember orgID m t =
     (if list_ex (\<lambda>(i, x). i = orgID \<and> mb_UserID x = mb_UserID m) (ot_members t)
      then t\<lparr> ot_members := map (\<lambda>(i, x). if i = orgID \<and> mb_UserID x = mb_UserID m then (i, x\<lparr> mb_Role := mb_Role m \<rparr>) else (i, x))
        (ot_members t) \<rparr>
      else t\<lparr> ot_members := ot_members t @ [(orgID, m)] \<rparr>)"

fun saveMembers :: "(nat \<Rightarrow> string option) \<Rightarrow> nat \<Rightarrow> string \<Rightarrow> Member list \<Rightarrow> OrgTables \<Rightarrow> string option \<times> OrgTables" where
  "saveMembers db k orgID [] t = (None, t)"
| "saveMembers db k orgID (m # ms) t =
     (case db k of
        Some e \<Rightarrow> (Some e, t)
      | None \<Rightarrow> saveMembers db (k + 1) orgID ms (saveMember orgID m t))"

definition Org_Save :: "(nat \<Rightarrow> string option) \<Rightarrow> Organization \<Rightarrow> OrgTables \<Rightarrow> string option \<times> OrgTables" where
  "Org_Save db o1 t =
     (case db 0 of
        Some e \<Rightarrow> (Some e, t)
      | None \<Rightarrow> saveMembers db 1 (og_id o1) (og_members o1) (t\<lparr> ot_orgs := ot_orgs t @ [o1\<lparr> og_members := [] \<rparr>] \<rparr>))"

definition loadMembers :: "string \<Rightarrow> OrgTables \<Rightarrow> Member list" where
  "loadMembers orgID t = sort_key mb_JoinedAt (map snd (filter (\<lambda>(i, x). i = orgID) (ot_members t)))"

definition Org_FindByID :: "string \<Rightarrow> OrgTables \<Rightarrow> Organization option" where
  "Org_FindByID i t =
     (case find (\<lambda>o1. og_id o1 = i) (ot_orgs t) of
        None \<Rightarrow> None
      | Some row \<Rightarrow> Some (row\<lparr> og_members := loadMembers i t, og_version := 0 \<rparr>))"

definition Org_Update :: "(nat \<Rightarrow> string option) \<Rightarrow> Organization \<Rightarrow> OrgTables \<Rightarrow> string option \<times> OrgTables" where
  "Org_Update db o1 t =
     (case db 0 of
        Some e \<Rightarrow> (Some e, t)
      | None \<Rightarrow>
          let t1 = t\<lparr> ot_orgs := map (\<lambda>row. if og_id row = og_id o1
                then row\<lparr> og_name := og_name o1, og_slug := og_slug o1, og_description := og_description o1,
                  og_logoURL := og_logoURL o1, og_website := og_website o1, og_status := og_status o1,
                  og_settings := og_settings o1, og_updatedAt := og_updatedAt o1 \<rparr> else row) (ot_orgs t) \<rparr>
          in (case db 1 of
                Some e \<Rightarrow> (Some e, t1)
              | None \<Rightarrow> saveMembers db 2 (og_id o1) (og_members o1)
                  (t1\<lparr> ot_members := filter (\<lambda>(i, x). i \<noteq> og_id o1) (ot_members t1) \<rparr>)))"

section \<open>Members and slugs\<close>

datatype organization_command =
    ODetails time string string string string string
  | OAdd "nat \<Rightarrow> time" string Role
  | ORemove time string
  | ORole time string Role
  | OSuspend time
  | OActivate time
  | OSettings time dict

fun organization_step :: "organization_command \<Rightarrow> Organization \<Rightarrow> organization_error + Organization" where
  "organization_step (ODetails now rnd n d l w) o1 = Inr (UpdateDetails now rnd n d l w o1)"
| "organization_step (OAdd clk u role) o1 = AddMember clk u role o1"
| "organization_step (ORemove now u) o1 = Org_RemoveMember now u o1"
| "organization_step (ORole now u role) o1 = Org_UpdateMemberRole now u role o1"
| "organization_step (OSuspend now) o1 = Org_Suspend now o1"
| "organization_step (OActivate now) o1 = Org_Activate now o1"
| "organization_step (OSettings now d) o1 = Inr (Org_UpdateSettings now d o1)"

text \<open>Nobody is a member twice, and the creator is a member with the role owner.\<close>

definition organization_inv :: "Organization \<Rightarrow> bool" where
  "organization_inv o1 \<longleftrightarrow> distinct (map mb_UserID (og_members o1))
     \<and> (\<exists>m \<in> set (og_members o1). mb_UserID m = og_createdBy o1 \<and> mb_Role m = RoleOwner)"

lemma setRole_Some:
  "setRole u role ms = Some ms' \<Longrightarrow> map mb_UserID ms' = map mb_UserID ms
     \<and> (\<forall>m \<in> set ms. mb_UserID m \<noteq> u \<longrightarrow> m \<in> set ms') \<and> (\<exists>m \<in> set ms'. mb_UserID m = u \<and> mb_Role m = role)"
  by (induction ms arbitrary: ms') (auto split: if_splits)

lemmas organization_op_defs = UpdateDetails_def AddMember_def Org_RemoveMember_def Org_UpdateMemberRole_def Org_Suspend_def
  Org_Activate_def Org_UpdateSettings_def og_touched_def Let_def

interpretation organizations: versioned_aggregate organization_step organization_inv "\<lambda>_ _. True" og_version
proof
  fix o1 c o2
  assume inv: "organization_inv o1" and step: "organization_step c o1 = Inr o2"
  show "organization_inv o2"
  proof (cases c)
    case (ORole now u role)
    then obtain ms where ms: "setRole u role (og_members o1) = Some ms" and u: "u = og_createdBy o1 \<longrightarrow> role = RoleOwner"
        and o2: "og_members o2 = ms" "og_createdBy o2 = og_createdBy o1"
      using step by (auto simp: organization_op_defs split: if_splits option.splits)
    then show ?thesis
      using inv setRole_Some[OF ms] unfolding organization_inv_def by metis
  qed (use inv step in \<open>auto simp: organization_op_defs organization_inv_def list_ex_iff filter_distinct_map split: if_splits\<close>)
next
  fix o1 c o2
  assume "organization_step c o1 = Inr o2"
  then show "og_version o2 = og_version o1 + 1"
    by (cases c) (auto simp: organization_op_defs split: if_splits option.splits)
qed

lemma organization_owner_kept:
  assumes "NewOrganization now i rnd name d u = Inr o1"
  shows "organization_inv (attempts organization_step o1 cs)"
  by (rule organizations.run_inv) (use assms in \<open>auto simp: NewOrganization_def organization_inv_def split: if_splits\<close>)

text \<open>A slug holds small letters, digits and hyphens, no two hyphens in a row in the part made from the name.\<close>

lemma slugLoop_chars:
  "list_all (\<lambda>c. lower c \<or> digit c \<or> c = CHR ''-'') slug \<Longrightarrow> list_all (\<lambda>c. lower c \<or> digit c \<or> c = CHR ''-'') (slugLoop slug name)"
proof (induction slug name rule: slugLoop.induct)
  case (2 slug r rs)
  have "lower (toLower r)" if "upper r"
  proof -
    have "65 \<le> (of_char r :: nat)" "(of_char r :: nat) \<le> 90"
      using that by (simp_all add: upper_def less_eq_char_def)
    then show ?thesis
      using that by (simp add: toLower_def lower_def less_eq_char_def of_char_of)
  qed
  then have "lower (toLower r) \<or> digit (toLower r)" if "lower r \<or> upper r \<or> digit r"
    using that by (cases "upper r") (auto simp: toLower_def)
  then show ?case
    using 2 by auto
qed simp

end
