(* ===== verification/User_Service.thy ===== *)
theory User_Service
  imports Organization
begin

text \<open>
  The service of users (\<open>internal/user/app/service/user_service.go\<close>) over its repository of users
  (\<open>internal/user/adapters/repository/postgres/user_repository.go\<close>), a table of rows, and that of organizations.
  \<open>db k\<close> is the answer to the \<open>k\<close>-th call of a repository that reads or writes the database: an error, and then nothing is
  written, or none. The library that signs tokens is a parameter.
\<close>

section \<open>The table of users\<close>

type_synonym users = "User list"
type_synonym answers = "nat \<Rightarrow> string option"

text \<open>An insertion stores a constant instead of the hash, and neither attempts nor a lock.\<close>

definition User_Save :: "User \<Rightarrow> users \<Rightarrow> users" where
  "User_Save u t = t @ [u\<lparr> us_passwordHash := ''hashed_password'', us_failedAttempts := 0, us_lockedUntil := None,
     us_lastLoginAt := None \<rparr>]"

definition User_FindByID :: "string \<Rightarrow> users \<Rightarrow> User option" where
  "User_FindByID i t = map_option (\<lambda>row. row\<lparr> us_version := 0 \<rparr>) (find (\<lambda>row. us_id row = i) t)"

definition User_FindByEmail :: "string \<Rightarrow> users \<Rightarrow> User option" where
  "User_FindByEmail email t =
     (case find (\<lambda>row. us_email row = email) t of None \<Rightarrow> None | Some row \<Rightarrow> User_FindByID (us_id row) t)"

text \<open>An update writes neither the hash nor the attempts and the lock of the user, which it resets.\<close>

definition User_Update :: "User \<Rightarrow> users \<Rightarrow> users" where
  "User_Update u t = map (\<lambda>row. if us_id row = us_id u
     then row\<lparr> us_firstName := us_firstName u, us_lastName := us_lastName u, us_avatarURL := us_avatarURL u,
       us_status := us_status u, us_emailVerified := us_emailVerified u, us_roles := us_roles u,
       us_organizationID := us_organizationID u, us_metadata := us_metadata u, us_lastLoginAt := us_lastLoginAt u,
       us_failedAttempts := 0, us_lockedUntil := None, us_updatedAt := us_updatedAt u \<rparr>
     else row) t"

definition ExistsByEmail :: "string \<Rightarrow> users \<Rightarrow> bool" where
  "ExistsByEmail email t = list_ex (\<lambda>row. us_email row = email \<and> us_status row \<noteq> UserStatusDeleted) t"

definition ExistsByUsername :: "string \<Rightarrow> users \<Rightarrow> bool" where
  "ExistsByUsername username t = list_ex (\<lambda>row. us_username row = username \<and> us_status row \<noteq> UserStatusDeleted) t"

definition User_Remove :: "time \<Rightarrow> string \<Rightarrow> users \<Rightarrow> users" where
  "User_Remove now i t = map (\<lambda>row. if us_id row = i then row\<lparr> us_status := UserStatusDeleted, us_updatedAt := now \<rparr> else row) t"

definition Count :: "users \<Rightarrow> int" where
  "Count t = int (length (filter (\<lambda>row. us_status row \<noteq> UserStatusDeleted) t))"

section \<open>The service\<close>

datatype service_error =
    UserError user_error
  | OrganizationError organization_error
  | EmailRegistered
  | UsernameTaken
  | UserNotFound
  | OrganizationNotFound
  | DatabaseError string
  | TokenError string

record RegisterCommand =
  rc_Email :: string
  rc_Username :: string
  rc_Password :: string
  rc_FirstName :: string
  rc_LastName :: string

definition Service_Register ::
  "bcrypt \<Rightarrow> answers \<Rightarrow> nat \<Rightarrow> time \<Rightarrow> string \<Rightarrow> RegisterCommand \<Rightarrow> users \<Rightarrow> (service_error + User) \<times> users" where
  "Service_Register lib db salt now newID cmd t =
     (case db 0 of
        Some e \<Rightarrow> (Inl (DatabaseError e), t)
      | None \<Rightarrow>
        if ExistsByEmail (rc_Email cmd) t then (Inl EmailRegistered, t)
        else (case db 1 of
            Some e \<Rightarrow> (Inl (DatabaseError e), t)
          | None \<Rightarrow>
            if ExistsByUsername (rc_Username cmd) t then (Inl UsernameTaken, t)
            else (case NewUser lib salt now newID (rc_Email cmd) (rc_Username cmd) (rc_Password cmd) (rc_FirstName cmd) (rc_LastName cmd) of
                Inl e \<Rightarrow> (Inl (UserError e), t)
              | Inr u \<Rightarrow>
                (case db 2 of
                   Some e \<Rightarrow> (Inl (DatabaseError e), t)
                 | None \<Rightarrow> (Inr u, User_Save u t)))))"

record Claims =
  cl_user_id :: string
  cl_email :: string
  cl_username :: string
  cl_roles :: "Role list"
  cl_exp :: time
  cl_iat :: time

definition generateToken :: "(string \<Rightarrow> Claims \<Rightarrow> string + string) \<Rightarrow> (nat \<Rightarrow> time) \<Rightarrow> User \<Rightarrow> string + string" where
  "generateToken sign clk u = sign ''your-secret-key'' \<lparr> cl_user_id = us_id u, cl_email = us_email u, cl_username = us_username u,
     cl_roles = us_roles u, cl_exp = (clk 4 + 24 * Hour) div Second, cl_iat = clk 5 div Second \<rparr>"

text \<open>The user is written after a failed attempt too; errors of both writes are ignored.\<close>

definition Login ::
  "bcrypt \<Rightarrow> (string \<Rightarrow> Claims \<Rightarrow> string + string) \<Rightarrow> answers \<Rightarrow> (nat \<Rightarrow> time) \<Rightarrow> string \<Rightarrow> string \<Rightarrow> users
     \<Rightarrow> (service_error + User \<times> string) \<times> users" where
  "Login lib sign db clk email password t =
     (case db 0 of
        Some e \<Rightarrow> (Inl (DatabaseError e), t)
      | None \<Rightarrow>
        (case User_FindByEmail email t of
           None \<Rightarrow> (Inl (UserError InvalidCredentials), t)
         | Some u \<Rightarrow>
           (case VerifyPassword lib clk password u of
              (Some e, u1) \<Rightarrow> (Inl (UserError e), if db 1 = None then User_Update u1 t else t)
            | (None, u1) \<Rightarrow>
              let t1 = (if db 1 = None then User_Update u1 t else t) in
              (case generateToken sign clk u1 of
                 Inl e \<Rightarrow> (Inl (TokenError e), t1)
               | Inr token \<Rightarrow> (Inr (u1, token), t1)))))"

text \<open>Reading a user, changing it and writing it back, which the operations on one user share.\<close>

definition onUser :: "answers \<Rightarrow> string \<Rightarrow> (User \<Rightarrow> user_error + User) \<Rightarrow> users \<Rightarrow> (service_error + User) \<times> users" where
  "onUser db userID f t =
     (case db 0 of
        Some e \<Rightarrow> (Inl (DatabaseError e), t)
      | None \<Rightarrow>
        (case User_FindByID userID t of
           None \<Rightarrow> (Inl UserNotFound, t)
         | Some u \<Rightarrow>
           (case f u of
              Inl e \<Rightarrow> (Inl (UserError e), t)
            | Inr u1 \<Rightarrow>
              (case db 1 of
                 Some e \<Rightarrow> (Inl (DatabaseError e), t)
               | None \<Rightarrow> (Inr u1, User_Update u1 t)))))"

record UpdateProfileCommand =
  up_FirstName :: string
  up_LastName :: string
  up_AvatarURL :: string

definition Service_UpdateProfile ::
  "answers \<Rightarrow> time \<Rightarrow> string \<Rightarrow> UpdateProfileCommand \<Rightarrow> users \<Rightarrow> (service_error + User) \<times> users" where
  "Service_UpdateProfile db now userID cmd t =
     onUser db userID (\<lambda>u. Inr (UpdateProfile now (up_FirstName cmd) (up_LastName cmd) (up_AvatarURL cmd) u)) t"

definition Service_ChangePassword ::
  "bcrypt \<Rightarrow> answers \<Rightarrow> nat \<Rightarrow> (nat \<Rightarrow> time) \<Rightarrow> string \<Rightarrow> string \<Rightarrow> string \<Rightarrow> users \<Rightarrow> (service_error + User) \<times> users" where
  "Service_ChangePassword lib db salt clk userID currentPassword newPassword t =
     onUser db userID (\<lambda>u. case ChangePassword lib salt clk currentPassword newPassword u of
         (Some e, _) \<Rightarrow> Inl e | (None, u1) \<Rightarrow> Inr u1) t"

definition BlockUser :: "answers \<Rightarrow> time \<Rightarrow> string \<Rightarrow> users \<Rightarrow> (service_error + User) \<times> users" where
  "BlockUser db now userID t = onUser db userID (Block now) t"

definition UnblockUser :: "answers \<Rightarrow> time \<Rightarrow> string \<Rightarrow> users \<Rightarrow> (service_error + User) \<times> users" where
  "UnblockUser db now userID t = onUser db userID (Unblock now) t"

text \<open>An error of \<open>AssignRole\<close> (the role is assigned already) is ignored.\<close>

definition assigned :: "time \<Rightarrow> Role \<Rightarrow> User \<Rightarrow> User" where
  "assigned now role u = (case AssignRole now role u of Inl _ \<Rightarrow> u | Inr u1 \<Rightarrow> u1)"

definition CreateOrganization ::
  "answers \<Rightarrow> answers \<Rightarrow> (nat \<Rightarrow> time) \<Rightarrow> string \<Rightarrow> string \<Rightarrow> string \<Rightarrow> string \<Rightarrow> string \<Rightarrow> OrgTables \<times> users
     \<Rightarrow> (service_error + Organization) \<times> OrgTables \<times> users" where
  "CreateOrganization odb db clk newID random userID name description st =
     (case st of (ot, t) \<Rightarrow>
       (case NewOrganization (clk 0) newID random name description userID of
          Inl e \<Rightarrow> (Inl (OrganizationError e), st)
        | Inr org \<Rightarrow>
          (case Org_Save odb org ot of
             (Some e, ot1) \<Rightarrow> (Inl (DatabaseError e), (ot1, t))
           | (None, ot1) \<Rightarrow>
             (case onUser db userID (\<lambda>u. Inr (assigned (clk 2) RoleOwner (SetOrganization (clk 1) newID u))) t of
                (Inl e, t1) \<Rightarrow> (Inl e, (ot1, t1))
              | (Inr u, t1) \<Rightarrow> (Inr org, (ot1, t1))))))"

definition AddOrganizationMember ::
  "answers \<Rightarrow> answers \<Rightarrow> (nat \<Rightarrow> time) \<Rightarrow> string \<Rightarrow> string \<Rightarrow> Role \<Rightarrow> OrgTables \<times> users
     \<Rightarrow> (service_error + unit) \<times> OrgTables \<times> users" where
  "AddOrganizationMember odb db clk orgID userID role st =
     (case st of (ot, t) \<Rightarrow>
       (case Org_FindByID orgID ot of
          None \<Rightarrow> (Inl OrganizationNotFound, st)
        | Some org \<Rightarrow>
          (case AddMember clk userID role org of
             Inl e \<Rightarrow> (Inl (OrganizationError e), st)
           | Inr org1 \<Rightarrow>
             (case Org_Update odb org1 ot of
                (Some e, ot1) \<Rightarrow> (Inl (DatabaseError e), (ot1, t))
              | (None, ot1) \<Rightarrow>
                (case onUser db userID (\<lambda>u. Inr (assigned (clk 3) role (SetOrganization (clk 2) orgID u))) t of
                   (Inl e, t1) \<Rightarrow> (Inl e, (ot1, t1))
                 | (Inr u, t1) \<Rightarrow> (Inr (), (ot1, t1)))))))"

section \<open>What the table forgets\<close>

text \<open>Rows are found under their identifier and by their mail address when both are unique.\<close>

definition unique_users :: "users \<Rightarrow> bool" where
  "unique_users t \<longleftrightarrow> distinct (map us_id t) \<and> distinct (map us_email t)"

lemma User_FindByEmail_row:
  "unique_users t \<Longrightarrow> row \<in> set t \<Longrightarrow> User_FindByEmail (us_email row) t = Some (row\<lparr> us_version := 0 \<rparr>)"
  using find_unique[of us_email t row] find_unique[of us_id t row]
  by (simp add: User_FindByEmail_def User_FindByID_def unique_users_def)

lemma User_FindByEmail_SomeD:
  "User_FindByEmail email t = Some u \<Longrightarrow> \<exists>row \<in> set t. u = row\<lparr> us_version := 0 \<rparr>"
  by (auto simp: User_FindByEmail_def User_FindByID_def split: option.splits dest: find_SomeD)

lemma User_Update_keeps:
  "map us_id (User_Update u t) = map us_id t" "map us_email (User_Update u t) = map us_email t"
  "map us_passwordHash (User_Update u t) = map us_passwordHash t"
  by (simp_all add: User_Update_def)

text \<open>No row has failed attempts or a lock.\<close>

definition forgetful :: "users \<Rightarrow> bool" where
  "forgetful t \<longleftrightarrow> (\<forall>row \<in> set t. us_failedAttempts row = 0 \<and> us_lockedUntil row = None)"

lemma forgetful_Update: "forgetful t \<Longrightarrow> forgetful (User_Update u t)"
  by (auto simp: forgetful_def User_Update_def)

lemma Login_forgetful: "forgetful t \<Longrightarrow> forgetful (snd (Login lib sign db clk email password t))"
  using forgetful_Update by (auto simp: Login_def Let_def split: option.split prod.split sum.split)


lemma unique_Update: "unique_users t \<Longrightarrow> unique_users (User_Update u t)"
  by (simp add: unique_users_def User_Update_keeps)

text \<open>Any logins, one after the other, each with its clock, its answers of the database and its credentials.\<close>

type_synonym login = "answers \<times> (nat \<Rightarrow> time) \<times> string \<times> string"

fun logins :: "bcrypt \<Rightarrow> (string \<Rightarrow> Claims \<Rightarrow> string + string) \<Rightarrow> login list \<Rightarrow> users \<Rightarrow> users" where
  "logins lib sign [] t = t"
| "logins lib sign ((db, clk, email, password) # ls) t = logins lib sign ls (snd (Login lib sign db clk email password t))"

lemma Login_table:
  "snd (Login lib sign db clk email password t) = t \<or> (\<exists>u. snd (Login lib sign db clk email password t) = User_Update u t)"
  by (auto simp: Login_def Let_def split: option.split prod.split sum.split)

lemma logins_keep:
  assumes "forgetful t" and "unique_users t"
  shows "forgetful (logins lib sign ls t) \<and> unique_users (logins lib sign ls t)
    \<and> map us_id (logins lib sign ls t) = map us_id t \<and> map us_email (logins lib sign ls t) = map us_email t
    \<and> map us_passwordHash (logins lib sign ls t) = map us_passwordHash t"
  using assms
proof (induction ls arbitrary: t)
  case (Cons l ls)
  obtain db clk email password where l: "l = (db, clk, email, password)"
    by (cases l)
  let ?t = "snd (Login lib sign db clk email password t)"
  have "unique_users ?t \<and> map us_id ?t = map us_id t \<and> map us_email ?t = map us_email t
      \<and> map us_passwordHash ?t = map us_passwordHash t"
    using Login_table[of lib sign db clk email password t] Cons.prems(2) unique_Update[OF Cons.prems(2)]
    by (auto simp: User_Update_keeps)
  moreover have "forgetful ?t"
    using Cons.prems(1) by (rule Login_forgetful)
  ultimately show ?case
    using Cons.IH[of ?t] by (simp add: l)
qed simp

text \<open>A row's counterpart in a table with the same columns.\<close>

lemma same_row:
  assumes "map us_email t' = map us_email t" and "map us_passwordHash t' = map us_passwordHash t" and "row \<in> set t"
  shows "\<exists>row' \<in> set t'. us_email row' = us_email row \<and> us_passwordHash row' = us_passwordHash row"
proof -
  obtain k where k: "k < length t" "t ! k = row"
    using assms(3) by (auto simp: in_set_conv_nth)
  then have "k < length t'" "us_email (t' ! k) = us_email row" "us_passwordHash (t' ! k) = us_passwordHash row"
    using assms(1,2) by (metis length_map, metis length_map nth_map, metis length_map nth_map)
  then show ?thesis
    by (meson nth_mem)
qed

text \<open>The repository forgets what locks an account: however many logins were tried, with whatever passwords, the right
  password is compared with the hash and logs in, for a blocked and for a deleted user too.\<close>
theorem logins_never_lock:
  assumes "forgetful t" and "unique_users t" and "row \<in> set t" and "bc_compare lib (us_passwordHash row) password"
    and "db 0 = None" and "\<forall>key claims. \<exists>token. sign key claims = Inr token"
  shows "\<exists>u token. fst (Login lib sign db clk (us_email row) password (logins lib sign ls t)) = Inr (u, token)
    \<and> us_email u = us_email row"
proof -
  let ?t = "logins lib sign ls t"
  have t: "forgetful ?t" "unique_users ?t" "map us_email ?t = map us_email t" "map us_passwordHash ?t = map us_passwordHash t"
    using logins_keep[OF assms(1,2)] by auto
  then obtain row' where row': "row' \<in> set ?t" "us_email row' = us_email row" "us_passwordHash row' = us_passwordHash row"
    using same_row[OF t(3,4) assms(3)] by blast
  then have found: "User_FindByEmail (us_email row) ?t = Some (row'\<lparr> us_version := 0 \<rparr>)"
    using User_FindByEmail_row[OF t(2) row'(1)] by simp
  have "us_lockedUntil row' = None"
    using t(1) row'(1) by (simp add: forgetful_def)
  then have "\<exists>u1. VerifyPassword lib clk password (row'\<lparr> us_version := 0 \<rparr>) = (None, u1) \<and> us_email u1 = us_email row"
    using assms(4) row' by (simp add: VerifyPassword_def locked_def)
  then obtain u1 where u1: "VerifyPassword lib clk password (row'\<lparr> us_version := 0 \<rparr>) = (None, u1)" "us_email u1 = us_email row"
    by blast
  obtain token where "generateToken sign clk u1 = Inr token"
    using assms(6) unfolding generateToken_def by blast
  then show ?thesis
    using found u1 assms(5) by (simp add: Login_def Let_def)
qed

text \<open>A registration stores a constant in place of the hash: as that is no hash of any password, a user who registered
  can never log in, with the password of the registration or any other, after any logins.\<close>
theorem registered_cannot_log_in:
  assumes "\<forall>password. \<not> bc_compare lib ''hashed_password'' password"
    and "Service_Register lib db salt now newID cmd t = (Inr u, t')" and "forgetful t" and "unique_users t'"
  shows "fst (Login lib sign (\<lambda>_. None) clk (rc_Email cmd) password (logins lib sign ls t')) = Inl (UserError InvalidCredentials)"
proof -
  let ?t = "logins lib sign ls t'"
  have t': "t' = User_Save u t" and email: "us_email u = rc_Email cmd"
    using assms(2) by (auto simp: Service_Register_def NewUser_def split: option.splits if_splits sum.splits)
  let ?row = "u\<lparr> us_passwordHash := ''hashed_password'', us_failedAttempts := 0, us_lockedUntil := None, us_lastLoginAt := None \<rparr>"
  have row: "?row \<in> set t'" "us_email ?row = rc_Email cmd" "us_passwordHash ?row = ''hashed_password''"
    using email by (simp_all add: t' User_Save_def)
  have "forgetful t'"
    using assms(3) by (simp add: t' User_Save_def forgetful_def)
  have t: "forgetful ?t" "unique_users ?t" "map us_email ?t = map us_email t'" "map us_passwordHash ?t = map us_passwordHash t'"
    using logins_keep[OF \<open>forgetful t'\<close> assms(4)] by auto
  then obtain row' where row': "row' \<in> set ?t" "us_email row' = rc_Email cmd" "us_passwordHash row' = ''hashed_password''"
    using same_row[OF t(3,4) row(1)] row by auto
  then have found: "User_FindByEmail (rc_Email cmd) ?t = Some (row'\<lparr> us_version := 0 \<rparr>)"
    using User_FindByEmail_row[OF t(2) row'(1)] by simp
  have "us_lockedUntil row' = None"
    using t(1) row'(1) by (simp add: forgetful_def)
  then have "fst (VerifyPassword lib clk password (row'\<lparr> us_version := 0 \<rparr>)) = Some InvalidCredentials"
    using assms(1) row' by (simp add: VerifyPassword_def locked_def)
  then obtain u1 where "VerifyPassword lib clk password (row'\<lparr> us_version := 0 \<rparr>) = (Some InvalidCredentials, u1)"
    by (cases "VerifyPassword lib clk password (row'\<lparr> us_version := 0 \<rparr>)") simp
  then show ?thesis
    using found by (simp add: Login_def)
qed

text \<open>A change of the password that is accepted leaves every hash as it was.\<close>

lemma password_change_lost:
  "map us_passwordHash (snd (Service_ChangePassword lib db salt clk i old new t)) = map us_passwordHash t"
  by (auto simp: Service_ChangePassword_def onUser_def User_Update_keeps split: option.split sum.split)

text \<open>A sample library, whose hash of a password is the password with a mark, and a registration with it.\<close>

definition sample_bcrypt :: bcrypt where
  "sample_bcrypt = \<lparr> bc_generate = (\<lambda>salt password. Some (''#'' @ password)), bc_compare = (\<lambda>hash password. hash = ''#'' @ password) \<rparr>"

definition sample_user :: User where
  "sample_user = \<lparr> us_id = ''i'', us_email = ''a@b.cd'', us_username = ''ann'', us_passwordHash = ''#Secret123'', us_firstName = '''',
     us_lastName = '''', us_avatarURL = '''', us_status = UserStatusDeleted, us_emailVerified = False, us_roles = [RoleUser],
     us_organizationID = None, us_metadata = Map.empty, us_lastLoginAt = None, us_failedAttempts = 0, us_lockedUntil = None,
     us_createdAt = 0, us_updatedAt = 0, us_version = 0 \<rparr>"

definition sample_sign :: "string \<Rightarrow> Claims \<Rightarrow> string + string" where
  "sample_sign key claims = Inr (key @ cl_user_id claims)"

lemma logins_never_lock_witness:
  "\<exists>u token. fst (Login sample_bcrypt sample_sign (\<lambda>_. None) (\<lambda>_. 9) ''a@b.cd'' ''Secret123''
      (logins sample_bcrypt sample_sign (replicate 6 (\<lambda>_. None, \<lambda>_. 1, ''a@b.cd'', ''wrong'')) [sample_user])) = Inr (u, token)
    \<and> us_email u = ''a@b.cd''"
  using logins_never_lock[of "[sample_user]" sample_user sample_bcrypt "''Secret123''" "\<lambda>_. None" sample_sign "\<lambda>_. 9"
      "replicate 6 (\<lambda>_. None, \<lambda>_. 1, ''a@b.cd'', ''wrong'')"]
  by (simp add: sample_user_def sample_bcrypt_def sample_sign_def forgetful_def unique_users_def)

definition sample_registration :: RegisterCommand where
  "sample_registration = \<lparr> rc_Email = ''a@b.cd'', rc_Username = ''ann'', rc_Password = ''Secret123'', rc_FirstName = ''A'', rc_LastName = ''B'' \<rparr>"

lemma registered_cannot_log_in_witness:
  "\<exists>u t. Service_Register sample_bcrypt (\<lambda>_. None) 0 5 ''i'' sample_registration [] = (Inr u, t)
    \<and> fst (Login sample_bcrypt sample_sign (\<lambda>_. None) (\<lambda>_. 9) ''a@b.cd'' ''Secret123'' (logins sample_bcrypt sample_sign [] t))
      = Inl (UserError InvalidCredentials)"
proof -
  have valid: "isValidEmail ''a@b.cd''" "validateUsername ''ann'' = None" "validatePassword ''Secret123'' = None"
    by (simp_all add: isValidEmail_def validateUsername_def validatePassword_def usernameChar_def localChar_def hostChar_def
        lower_def upper_def digit_def less_eq_char_def Let_def)
  obtain u where u: "Service_Register sample_bcrypt (\<lambda>_. None) 0 5 ''i'' sample_registration [] = (Inr u, User_Save u [])"
    using valid by (simp add: Service_Register_def sample_registration_def ExistsByEmail_def ExistsByUsername_def NewUser_def hashPassword_def
        sample_bcrypt_def)
  have "fst (Login sample_bcrypt sample_sign (\<lambda>_. None) (\<lambda>_. 9) (rc_Email sample_registration) ''Secret123''
      (logins sample_bcrypt sample_sign [] (User_Save u []))) = Inl (UserError InvalidCredentials)"
    by (rule registered_cannot_log_in[OF _ u]) (simp_all add: sample_bcrypt_def User_Save_def forgetful_def unique_users_def)
  then show ?thesis
    using u by (auto simp: sample_registration_def)
qed

lemma guesses_bounded_witness:
  "int (compared sample_bcrypt (replicate 9 (7, ''wrong'')) sample_user) \<le> 5 + (20 * Minute - 0) div (15 * Minute)"
  by (rule guesses_bounded) (simp_all add: sample_user_def sample_bcrypt_def)

end
