(* ===== verification/Auth.thy ===== *)
theory Auth
  imports Organization Expression
begin

text \<open>
  Authentication: the model (\<open>internal/auth/domain/model/auth.go\<close>), its tables
  (\<open>internal/auth/adapters/repository/postgres/auth_repository.go\<close>) and the service
  (\<open>internal/auth/app/service/auth_service.go\<close>). The libraries that hash passwords and sign tokens are
  parameters; a token's payload is a map of claims. \<open>db k\<close> is the answer to the \<open>k\<close>-th call of a
  repository: \<open>Some e\<close> is an error, and then nothing is read or written. Texts are ASCII. The goroutines that send
  mails and write the audit log change nothing here but the lists \<open>as_mails\<close> and \<open>as_events\<close>. Readings of the
  clock, identifiers and secure tokens are arguments, the last two as functions of a counter. Columns that are only stored
  (\<open>AvatarURL\<close>, \<open>Phone\<close>, \<open>Preferences\<close>, \<open>Metadata\<close>) and the \<open>updated_at\<close> that the database layer writes by itself are left
  out, and so are the workspace, roles and scopes of the claims, which no token of the service has.
\<close>

section \<open>The model\<close>

record AuthUser =
  au_ID :: string
  au_Email :: string
  au_Username :: string
  au_PasswordHash :: string
  au_FirstName :: string
  au_LastName :: string
  au_Status :: string
  au_EmailVerified :: bool
  au_EmailVerifiedAt :: "time option"
  au_LastLoginAt :: "time option"
  au_LoginCount :: int
  au_FailedLoginCount :: int
  au_LockedUntil :: "time option"
  au_MFAEnabled :: bool
  au_MFASecret :: string
  au_CreatedAt :: time
  au_UpdatedAt :: time
  au_DeletedAt :: "time option"

record RefreshToken =
  rt_ID :: string
  rt_UserID :: string
  rt_Token :: string
  rt_ExpiresAt :: time
  rt_RevokedAt :: "time option"
  rt_UserAgent :: string
  rt_IPAddress :: string
  rt_CreatedAt :: time

definition NewRefreshToken :: "(nat \<Rightarrow> time) \<Rightarrow> string \<Rightarrow> string \<Rightarrow> string \<Rightarrow> string \<Rightarrow> string \<Rightarrow> duration \<Rightarrow> RefreshToken" where
  "NewRefreshToken clk newID token userID userAgent ipAddress expiry =
     \<lparr> rt_ID = newID, rt_UserID = userID, rt_Token = token, rt_ExpiresAt = clk 0 + expiry, rt_RevokedAt = None,
       rt_UserAgent = userAgent, rt_IPAddress = ipAddress, rt_CreatedAt = clk 1 \<rparr>"

definition Refresh_IsValid :: "time \<Rightarrow> RefreshToken \<Rightarrow> bool" where
  "Refresh_IsValid now t \<longleftrightarrow> rt_RevokedAt t = None \<and> now < rt_ExpiresAt t"

definition Refresh_Revoke :: "time \<Rightarrow> RefreshToken \<Rightarrow> RefreshToken" where
  "Refresh_Revoke now t = t\<lparr> rt_RevokedAt := Some now \<rparr>"

record PasswordResetToken =
  pt_ID :: string
  pt_UserID :: string
  pt_Token :: string
  pt_ExpiresAt :: time
  pt_UsedAt :: "time option"
  pt_CreatedAt :: time

definition NewPasswordResetToken :: "(nat \<Rightarrow> time) \<Rightarrow> string \<Rightarrow> string \<Rightarrow> string \<Rightarrow> PasswordResetToken" where
  "NewPasswordResetToken clk newID token userID =
     \<lparr> pt_ID = newID, pt_UserID = userID, pt_Token = token, pt_ExpiresAt = clk 0 + Hour, pt_UsedAt = None, pt_CreatedAt = clk 1 \<rparr>"

definition Reset_IsValid :: "time \<Rightarrow> PasswordResetToken \<Rightarrow> bool" where
  "Reset_IsValid now t \<longleftrightarrow> pt_UsedAt t = None \<and> now < pt_ExpiresAt t"

record EmailVerificationToken =
  vt_ID :: string
  vt_UserID :: string
  vt_Email :: string
  vt_Token :: string
  vt_ExpiresAt :: time
  vt_UsedAt :: "time option"
  vt_CreatedAt :: time

definition NewEmailVerificationToken :: "(nat \<Rightarrow> time) \<Rightarrow> string \<Rightarrow> string \<Rightarrow> string \<Rightarrow> string \<Rightarrow> EmailVerificationToken" where
  "NewEmailVerificationToken clk newID token userID email =
     \<lparr> vt_ID = newID, vt_UserID = userID, vt_Email = email, vt_Token = token, vt_ExpiresAt = clk 0 + 24 * Hour,
       vt_UsedAt = None, vt_CreatedAt = clk 1 \<rparr>"

definition Verification_IsValid :: "time \<Rightarrow> EmailVerificationToken \<Rightarrow> bool" where
  "Verification_IsValid now t \<longleftrightarrow> vt_UsedAt t = None \<and> now < vt_ExpiresAt t"

record APIKey =
  ak_ID :: string
  ak_UserID :: string
  ak_WorkspaceID :: "string option"
  ak_Name :: string
  ak_KeyHash :: string
  ak_KeyPrefix :: string
  ak_Scopes :: "string list"
  ak_LastUsedAt :: "time option"
  ak_ExpiresAt :: "time option"
  ak_RevokedAt :: "time option"
  ak_CreatedAt :: time

text \<open>The random part of a raw key is the URL-safe base 64 text of 32 bytes, 43 characters.\<close>

definition NewAPIKey ::
  "bcrypt \<Rightarrow> nat \<Rightarrow> time \<Rightarrow> string \<Rightarrow> string \<Rightarrow> string \<Rightarrow> string \<Rightarrow> string \<Rightarrow> string list \<Rightarrow> time option
     \<Rightarrow> string + APIKey \<times> string" where
  "NewAPIKey lib salt now newID random userID workspaceID name scopes expiresAt =
     (let rawKey = ''lf_'' @ random in
      case bc_generate lib salt rawKey of
        None \<Rightarrow> Inl ''bcrypt''
      | Some hash \<Rightarrow>
          Inr (\<lparr> ak_ID = newID, ak_UserID = userID,
            ak_WorkspaceID = (if workspaceID \<noteq> '''' then Some workspaceID else None), ak_Name = name, ak_KeyHash = hash,
            ak_KeyPrefix = take 11 rawKey, ak_Scopes = scopes, ak_LastUsedAt = None, ak_ExpiresAt = expiresAt,
            ak_RevokedAt = None, ak_CreatedAt = now \<rparr>, rawKey))"

definition APIKey_Verify :: "bcrypt \<Rightarrow> time \<Rightarrow> string \<Rightarrow> APIKey \<Rightarrow> bool" where
  "APIKey_Verify lib now rawKey k =
     (if ak_RevokedAt k \<noteq> None then False
      else if (case ak_ExpiresAt k of None \<Rightarrow> False | Some t \<Rightarrow> now > t) then False
      else bc_compare lib (ak_KeyHash k) rawKey)"

definition APIKey_MarkUsed :: "time \<Rightarrow> APIKey \<Rightarrow> APIKey" where
  "APIKey_MarkUsed now k = k\<lparr> ak_LastUsedAt := Some now \<rparr>"

definition HasScope :: "string \<Rightarrow> APIKey \<Rightarrow> bool" where
  "HasScope scope k = list_ex (\<lambda>s. s = scope \<or> s = ''*'') (ak_Scopes k)"

record AuthEvent =
  ae_Type :: string
  ae_UserID :: string
  ae_Email :: string
  ae_IPAddress :: string
  ae_UserAgent :: string
  ae_Success :: bool
  ae_FailReason :: string

datatype auth_error =
    ErrInvalidCredentials
  | ErrAccountLocked
  | ErrAccountInactive
  | ErrEmailNotVerified
  | ErrTokenExpired
  | ErrTokenInvalid
  | ErrAuthUserNotFound
  | ErrEmailExists
  | ErrInvalidMFACode
  | ErrRegistrationDisabled
  | ErrInvalidEmailFormat
  | ErrCurrentPassword
  | ErrPassword string
  | ErrEmailAlreadyVerified
  | ErrUnauthorized
  | ErrSigning string
  | ErrDatabase string

section \<open>The tables\<close>

record AuthStore =
  as_users :: "AuthUser list"
  as_refresh :: "RefreshToken list"
  as_resets :: "PasswordResetToken list"
  as_verifications :: "EmailVerificationToken list"
  as_keys :: "APIKey list"
  as_mails :: "(string \<times> string \<times> string) list"
  as_events :: "AuthEvent list"

type_synonym answer = "nat \<Rightarrow> string option"

definition AuthUser_FindByID :: "string \<Rightarrow> AuthStore \<Rightarrow> AuthUser option" where
  "AuthUser_FindByID i s = find (\<lambda>u. au_ID u = i \<and> au_DeletedAt u = None) (as_users s)"

definition AuthUser_FindByEmail :: "string \<Rightarrow> AuthStore \<Rightarrow> AuthUser option" where
  "AuthUser_FindByEmail email s = find (\<lambda>u. au_Email u = email \<and> au_DeletedAt u = None) (as_users s)"

definition AuthUser_Create :: "AuthUser \<Rightarrow> AuthStore \<Rightarrow> AuthStore" where
  "AuthUser_Create u s = s\<lparr> as_users := as_users s @ [u] \<rparr>"

definition AuthUser_Update :: "AuthUser \<Rightarrow> AuthStore \<Rightarrow> AuthStore" where
  "AuthUser_Update u s = s\<lparr> as_users := map (\<lambda>v. if au_ID v = au_ID u then u else v) (as_users s) \<rparr>"

definition UpdatePassword :: "string \<Rightarrow> string \<Rightarrow> AuthStore \<Rightarrow> AuthStore" where
  "UpdatePassword i hash s =
     s\<lparr> as_users := map (\<lambda>v. if au_ID v = i then v\<lparr> au_PasswordHash := hash \<rparr> else v) (as_users s) \<rparr>"

definition AuthUser_VerifyEmail :: "time \<Rightarrow> string \<Rightarrow> AuthStore \<Rightarrow> AuthStore" where
  "AuthUser_VerifyEmail now i s =
     s\<lparr> as_users := map (\<lambda>v. if au_ID v = i then v\<lparr> au_EmailVerified := True, au_EmailVerifiedAt := Some now \<rparr> else v) (as_users s) \<rparr>"

definition AuthUser_ExistsByEmail :: "string \<Rightarrow> AuthStore \<Rightarrow> bool" where
  "AuthUser_ExistsByEmail email s = list_ex (\<lambda>u. au_Email u = email \<and> au_DeletedAt u = None) (as_users s)"

definition SaveRefreshToken :: "RefreshToken \<Rightarrow> AuthStore \<Rightarrow> AuthStore" where
  "SaveRefreshToken t s = s\<lparr> as_refresh := as_refresh s @ [t] \<rparr>"

definition FindRefreshToken :: "string \<Rightarrow> AuthStore \<Rightarrow> RefreshToken option" where
  "FindRefreshToken token s = find (\<lambda>t. rt_Token t = token) (as_refresh s)"

definition RevokeRefreshToken :: "time \<Rightarrow> string \<Rightarrow> AuthStore \<Rightarrow> AuthStore" where
  "RevokeRefreshToken now token s =
     s\<lparr> as_refresh := map (\<lambda>t. if rt_Token t = token then Refresh_Revoke now t else t) (as_refresh s) \<rparr>"

definition RevokeAllUserTokens :: "time \<Rightarrow> string \<Rightarrow> AuthStore \<Rightarrow> AuthStore" where
  "RevokeAllUserTokens now userID s =
     s\<lparr> as_refresh := map (\<lambda>t. if rt_UserID t = userID \<and> rt_RevokedAt t = None then Refresh_Revoke now t else t) (as_refresh s) \<rparr>"

definition CleanupExpiredTokens :: "time \<Rightarrow> AuthStore \<Rightarrow> AuthStore" where
  "CleanupExpiredTokens now s =
     s\<lparr> as_refresh := filter (\<lambda>t. \<not> (rt_ExpiresAt t < now \<or> rt_RevokedAt t \<noteq> None)) (as_refresh s) \<rparr>"

definition SavePasswordResetToken :: "PasswordResetToken \<Rightarrow> AuthStore \<Rightarrow> AuthStore" where
  "SavePasswordResetToken t s = s\<lparr> as_resets := as_resets s @ [t] \<rparr>"

definition FindPasswordResetToken :: "string \<Rightarrow> AuthStore \<Rightarrow> PasswordResetToken option" where
  "FindPasswordResetToken token s = find (\<lambda>t. pt_Token t = token) (as_resets s)"

definition MarkPasswordResetTokenUsed :: "time \<Rightarrow> string \<Rightarrow> AuthStore \<Rightarrow> AuthStore" where
  "MarkPasswordResetTokenUsed now token s =
     s\<lparr> as_resets := map (\<lambda>t. if pt_Token t = token then t\<lparr> pt_UsedAt := Some now \<rparr> else t) (as_resets s) \<rparr>"

definition SaveEmailVerificationToken :: "EmailVerificationToken \<Rightarrow> AuthStore \<Rightarrow> AuthStore" where
  "SaveEmailVerificationToken t s = s\<lparr> as_verifications := as_verifications s @ [t] \<rparr>"

definition FindEmailVerificationToken :: "string \<Rightarrow> AuthStore \<Rightarrow> EmailVerificationToken option" where
  "FindEmailVerificationToken token s = find (\<lambda>t. vt_Token t = token) (as_verifications s)"

definition MarkEmailVerificationTokenUsed :: "time \<Rightarrow> string \<Rightarrow> AuthStore \<Rightarrow> AuthStore" where
  "MarkEmailVerificationTokenUsed now token s =
     s\<lparr> as_verifications := map (\<lambda>t. if vt_Token t = token then t\<lparr> vt_UsedAt := Some now \<rparr> else t) (as_verifications s) \<rparr>"

definition APIKey_Save :: "APIKey \<Rightarrow> AuthStore \<Rightarrow> AuthStore" where
  "APIKey_Save k s = s\<lparr> as_keys := as_keys s @ [k] \<rparr>"

definition APIKey_FindByID :: "string \<Rightarrow> AuthStore \<Rightarrow> APIKey option" where
  "APIKey_FindByID i s = find (\<lambda>k. ak_ID k = i) (as_keys s)"

definition FindByPrefix :: "string \<Rightarrow> AuthStore \<Rightarrow> APIKey option" where
  "FindByPrefix prefix s = find (\<lambda>k. ak_KeyPrefix k = prefix \<and> ak_RevokedAt k = None) (as_keys s)"

definition APIKey_Revoke :: "time \<Rightarrow> string \<Rightarrow> AuthStore \<Rightarrow> AuthStore" where
  "APIKey_Revoke now i s =
     s\<lparr> as_keys := map (\<lambda>k. if ak_ID k = i then k\<lparr> ak_RevokedAt := Some now \<rparr> else k) (as_keys s) \<rparr>"

definition UpdateLastUsed :: "time \<Rightarrow> string \<Rightarrow> AuthStore \<Rightarrow> AuthStore" where
  "UpdateLastUsed now i s =
     s\<lparr> as_keys := map (\<lambda>k. if ak_ID k = i then k\<lparr> ak_LastUsedAt := Some now \<rparr> else k) (as_keys s) \<rparr>"

section \<open>The service\<close>

record AuthConfig =
  cf_JWTSecret :: string
  cf_JWTIssuer :: string
  cf_AccessTokenExpiry :: duration
  cf_RefreshTokenExpiry :: duration
  cf_MaxLoginAttempts :: int
  cf_LockoutDuration :: duration
  cf_RequireEmailVerify :: bool
  cf_AllowSignup :: bool
  cf_MFAEnabled :: bool
  cf_PasswordMinLength :: int
  cf_PasswordRequireUpper :: bool
  cf_PasswordRequireLower :: bool
  cf_PasswordRequireNumber :: bool
  cf_PasswordRequireSymbol :: bool

definition DefaultConfig :: AuthConfig where
  "DefaultConfig = \<lparr> cf_JWTSecret = ''change-me-in-production'', cf_JWTIssuer = ''linkflow-ai'', cf_AccessTokenExpiry = 15 * Minute,
     cf_RefreshTokenExpiry = 7 * 24 * Hour, cf_MaxLoginAttempts = 5, cf_LockoutDuration = 15 * Minute,
     cf_RequireEmailVerify = False, cf_AllowSignup = True, cf_MFAEnabled = False, cf_PasswordMinLength = 8,
     cf_PasswordRequireUpper = True, cf_PasswordRequireLower = True, cf_PasswordRequireNumber = True,
     cf_PasswordRequireSymbol = False \<rparr>"

text \<open>The library of tokens: signing a payload with a key, and reading a token that the key has signed and that has not expired.\<close>

record jwt =
  jw_sign :: "string \<Rightarrow> dict \<Rightarrow> string + string"
  jw_parse :: "string \<Rightarrow> time \<Rightarrow> string \<Rightarrow> dict option"

record AuthService =
  sv_config :: AuthConfig
  sv_bcrypt :: bcrypt
  sv_jwt :: jwt
  sv_hasMail :: bool
  sv_hasAudit :: bool

record TokenPair =
  tp_AccessToken :: string
  tp_RefreshToken :: string
  tp_ExpiresAt :: time
  tp_TokenType :: string

record JWTClaims =
  jc_UserID :: string
  jc_Email :: string
  jc_Subject :: string
  jc_Issuer :: string

record LoginInput =
  li_Email :: string
  li_Password :: string
  li_MFACode :: string
  li_UserAgent :: string
  li_IPAddress :: string

datatype LoginResult = LoggedIn TokenPair AuthUser | RequiresMFA string

record RegisterInput =
  ri_Email :: string
  ri_Password :: string
  ri_FirstName :: string
  ri_LastName :: string
  ri_UserAgent :: string
  ri_IPAddress :: string

record ChangePasswordInput =
  cp_UserID :: string
  cp_CurrentPassword :: string
  cp_NewPassword :: string
  cp_IPAddress :: string
  cp_UserAgent :: string

record CreateAPIKeyInput =
  ka_UserID :: string
  ka_WorkspaceID :: string
  ka_Name :: string
  ka_Scopes :: "string list"
  ka_ExpiresAt :: "time option"

text \<open>A read that fails finds nothing; a write whose error is ignored.\<close>

definition ask :: "string option \<Rightarrow> 'a option \<Rightarrow> 'a option" where
  "ask err row = (if err = None then row else None)"

definition put :: "string option \<Rightarrow> (AuthStore \<Rightarrow> AuthStore) \<Rightarrow> AuthStore \<Rightarrow> AuthStore" where
  "put err f s = (if err = None then f s else s)"

definition normalEmail :: "string \<Rightarrow> string" where
  "normalEmail email = map toLower (TrimSpace email)"

definition logEvent :: "AuthService \<Rightarrow> string \<Rightarrow> string \<Rightarrow> string \<Rightarrow> string \<Rightarrow> string \<Rightarrow> bool \<Rightarrow> string \<Rightarrow> AuthStore \<Rightarrow> AuthStore" where
  "logEvent sv eventType userID email ipAddress userAgent success failReason s =
     (if \<not> sv_hasAudit sv then s
      else s\<lparr> as_events := as_events s @ [\<lparr> ae_Type = eventType, ae_UserID = userID, ae_Email = email, ae_IPAddress = ipAddress,
        ae_UserAgent = userAgent, ae_Success = success, ae_FailReason = failReason \<rparr>] \<rparr>)"

definition sendMail :: "AuthService \<Rightarrow> string option \<Rightarrow> string \<Rightarrow> string \<Rightarrow> string \<Rightarrow> AuthStore \<Rightarrow> (auth_error + unit) \<times> AuthStore" where
  "sendMail sv err kind email token s =
     (if \<not> sv_hasMail sv then (Inr (), s)
      else (case err of
          Some e \<Rightarrow> (Inl (ErrDatabase e), s)
        | None \<Rightarrow> (Inr (), s\<lparr> as_mails := as_mails s @ [(kind, email, token)] \<rparr>)))"

definition verifyPassword :: "AuthService \<Rightarrow> string \<Rightarrow> string \<Rightarrow> bool" where
  "verifyPassword sv password hash = (if password = '''' \<or> hash = '''' then False else bc_compare (sv_bcrypt sv) hash password)"

definition symbolChar :: "char \<Rightarrow> bool" where
  "symbolChar c \<longleftrightarrow> c \<in> set ''!@#$%^&*(),.?:{}|<>'' \<or> c = CHR 34"

definition Auth_validatePassword :: "AuthConfig \<Rightarrow> string \<Rightarrow> auth_error option" where
  "Auth_validatePassword cf password =
     (if int (length password) < cf_PasswordMinLength cf then Some (ErrPassword ''length'')
      else if cf_PasswordRequireUpper cf \<and> \<not> list_ex upper password then Some (ErrPassword ''uppercase'')
      else if cf_PasswordRequireLower cf \<and> \<not> list_ex lower password then Some (ErrPassword ''lowercase'')
      else if cf_PasswordRequireNumber cf \<and> \<not> list_ex digit password then Some (ErrPassword ''digit'')
      else if cf_PasswordRequireSymbol cf \<and> \<not> list_ex symbolChar password then Some (ErrPassword ''special'')
      else None)"

definition Auth_hashPassword :: "AuthService \<Rightarrow> nat \<Rightarrow> string \<Rightarrow> auth_error + string" where
  "Auth_hashPassword sv salt password =
     (case Auth_validatePassword (sv_config sv) password of
        Some e \<Rightarrow> Inl e
      | None \<Rightarrow> (case bc_generate (sv_bcrypt sv) salt password of None \<Rightarrow> Inl (ErrPassword ''hash'') | Some h \<Rightarrow> Inr h))"

definition generateMFAToken :: "AuthService \<Rightarrow> (nat \<Rightarrow> time) \<Rightarrow> string \<Rightarrow> string + string" where
  "generateMFAToken sv clk userID = jw_sign (sv_jwt sv) (cf_JWTSecret (sv_config sv))
     [''uid'' \<mapsto> VStr userID, ''type'' \<mapsto> VStr ''mfa'', ''exp'' \<mapsto> VInt ((clk 0 + 5 * Minute) div Second), ''iat'' \<mapsto> VInt (clk 1 div Second)]"

definition verifyMFACode :: "string \<Rightarrow> string \<Rightarrow> bool" where
  "verifyMFACode secret code = (if secret = '''' \<or> code = '''' then False else code = ''000000'')"

definition generateTokenPair ::
  "AuthService \<Rightarrow> string option \<Rightarrow> (nat \<Rightarrow> time) \<Rightarrow> (nat \<Rightarrow> string) \<Rightarrow> AuthUser \<Rightarrow> string \<Rightarrow> string \<Rightarrow> AuthStore
     \<Rightarrow> (auth_error + TokenPair) \<times> AuthStore" where
  "generateTokenPair sv err clk rnd user userAgent ipAddress s =
     (let cf = sv_config sv;
          expiresAt = clk 10 + cf_AccessTokenExpiry cf;
          claims = [''uid'' \<mapsto> VStr (au_ID user), ''email'' \<mapsto> VStr (au_Email user), ''iss'' \<mapsto> VStr (cf_JWTIssuer cf),
            ''sub'' \<mapsto> VStr (au_ID user), ''exp'' \<mapsto> VInt (expiresAt div Second), ''iat'' \<mapsto> VInt (clk 11 div Second)]
      in case jw_sign (sv_jwt sv) (cf_JWTSecret cf) claims of
           Inl e \<Rightarrow> (Inl (ErrSigning e), s)
         | Inr accessToken \<Rightarrow>
           let t = NewRefreshToken (\<lambda>k. clk (12 + k)) (rnd 10) (rnd 11) (au_ID user) userAgent ipAddress (cf_RefreshTokenExpiry cf) in
           (case err of
              Some e \<Rightarrow> (Inl (ErrDatabase e), s)
            | None \<Rightarrow> (Inr \<lparr> tp_AccessToken = accessToken, tp_RefreshToken = rt_Token t, tp_ExpiresAt = expiresAt,
                tp_TokenType = ''Bearer'' \<rparr>, SaveRefreshToken t s)))"

definition handleFailedLogin ::
  "AuthService \<Rightarrow> string option \<Rightarrow> time \<Rightarrow> AuthUser \<Rightarrow> LoginInput \<Rightarrow> AuthStore \<Rightarrow> AuthStore" where
  "handleFailedLogin sv err now user input s =
     (let u1 = user\<lparr> au_FailedLoginCount := au_FailedLoginCount user + 1 \<rparr>;
          wasLocked = (au_FailedLoginCount u1 \<ge> cf_MaxLoginAttempts (sv_config sv));
          u2 = (if wasLocked then u1\<lparr> au_LockedUntil := Some (now + cf_LockoutDuration (sv_config sv)) \<rparr> else u1);
          s1 = put err (AuthUser_Update u2) s;
          s2 = logEvent sv ''login'' (au_ID u2) (au_Email u2) (li_IPAddress input) (li_UserAgent input) False ''invalid password'' s1
      in if wasLocked
         then logEvent sv ''account_locked'' (au_ID u2) (au_Email u2) (li_IPAddress input) (li_UserAgent input) True ''account locked'' s2
         else s2)"

text \<open>After the checks of a login: the attempts are reset and the tokens made.\<close>

definition loggedIn ::
  "AuthService \<Rightarrow> answer \<Rightarrow> (nat \<Rightarrow> time) \<Rightarrow> (nat \<Rightarrow> string) \<Rightarrow> LoginInput \<Rightarrow> AuthUser \<Rightarrow> AuthStore
     \<Rightarrow> (auth_error + LoginResult) \<times> AuthStore" where
  "loggedIn sv db clk rnd input user s =
     (let u1 = user\<lparr> au_FailedLoginCount := 0, au_LockedUntil := None, au_LastLoginAt := Some (clk 2),
            au_LoginCount := au_LoginCount user + 1 \<rparr>;
          s1 = put (db 1) (AuthUser_Update u1) s
      in case generateTokenPair sv (db 2) clk rnd u1 (li_UserAgent input) (li_IPAddress input) s1 of
           (Inl e, s2) \<Rightarrow> (Inl e, s2)
         | (Inr tokens, s2) \<Rightarrow> (Inr (LoggedIn tokens u1),
             logEvent sv ''login'' (au_ID u1) (normalEmail (li_Email input)) (li_IPAddress input) (li_UserAgent input) True '''' s2))"

definition Auth_Login ::
  "AuthService \<Rightarrow> answer \<Rightarrow> (nat \<Rightarrow> time) \<Rightarrow> (nat \<Rightarrow> string) \<Rightarrow> LoginInput \<Rightarrow> AuthStore
     \<Rightarrow> (auth_error + LoginResult) \<times> AuthStore" where
  "Auth_Login sv db clk rnd input s =
     (let email = normalEmail (li_Email input);
          refuse = (\<lambda>i e reason. (Inl e, logEvent sv ''login'' i email (li_IPAddress input) (li_UserAgent input) False reason s))
      in case ask (db 0) (AuthUser_FindByEmail email s) of
           None \<Rightarrow> refuse '''' ErrInvalidCredentials ''user not found''
         | Some user \<Rightarrow>
           if (case au_LockedUntil user of None \<Rightarrow> False | Some t \<Rightarrow> clk 0 < t) then refuse (au_ID user) ErrAccountLocked ''account locked''
           else if au_Status user \<noteq> ''active'' then refuse (au_ID user) ErrAccountInactive ''account inactive''
           else if \<not> verifyPassword sv (li_Password input) (au_PasswordHash user)
             then (Inl ErrInvalidCredentials, handleFailedLogin sv (db 1) (clk 1) user input s)
           else if cf_RequireEmailVerify (sv_config sv) \<and> \<not> au_EmailVerified user
             then refuse (au_ID user) ErrEmailNotVerified ''email not verified''
           else if au_MFAEnabled user \<and> cf_MFAEnabled (sv_config sv) then
             (if li_MFACode input = '''' then
                (case generateMFAToken sv clk (au_ID user) of
                   Inl e \<Rightarrow> (Inl (ErrSigning e), s)
                 | Inr token \<Rightarrow> (Inr (RequiresMFA token), s))
              else if \<not> verifyMFACode (au_MFASecret user) (li_MFACode input) then refuse (au_ID user) ErrInvalidMFACode ''invalid MFA code''
              else loggedIn sv db clk rnd input user s)
           else loggedIn sv db clk rnd input user s)"

text \<open>A registration. The goroutine that sends the verification mail runs \<open>SendEmailVerification\<close>, a call of its own.\<close>

definition Auth_Register ::
  "AuthService \<Rightarrow> answer \<Rightarrow> nat \<Rightarrow> (nat \<Rightarrow> time) \<Rightarrow> (nat \<Rightarrow> string) \<Rightarrow> RegisterInput \<Rightarrow> AuthStore
     \<Rightarrow> (auth_error + LoginResult) \<times> AuthStore" where
  "Auth_Register sv db salt clk rnd input s =
     (if \<not> cf_AllowSignup (sv_config sv) then (Inl ErrRegistrationDisabled, s)
      else
        let email = normalEmail (ri_Email input) in
        if \<not> isValidEmail email then (Inl ErrInvalidEmailFormat, s)
        else if db 0 = None \<and> AuthUser_ExistsByEmail email s
          then (Inl ErrEmailExists,
            logEvent sv ''register'' '''' email (ri_IPAddress input) (ri_UserAgent input) False ''email already exists'' s)
        else (case Auth_hashPassword sv salt (ri_Password input) of
            Inl e \<Rightarrow> (Inl e, s)
          | Inr hash \<Rightarrow>
            let user = \<lparr> au_ID = rnd 0, au_Email = email, au_Username = email, au_PasswordHash = hash,
                  au_FirstName = TrimSpace (ri_FirstName input), au_LastName = TrimSpace (ri_LastName input), au_Status = ''active'',
                  au_EmailVerified = False, au_EmailVerifiedAt = None, au_LastLoginAt = None, au_LoginCount = 0,
                  au_FailedLoginCount = 0, au_LockedUntil = None, au_MFAEnabled = False, au_MFASecret = '''', au_CreatedAt = clk 0,
                  au_UpdatedAt = clk 1, au_DeletedAt = None \<rparr> in
            (case db 1 of
               Some e \<Rightarrow> (Inl (ErrDatabase e), s)
             | None \<Rightarrow>
               let s1 = logEvent sv ''register'' (au_ID user) email (ri_IPAddress input) (ri_UserAgent input) True '''' (AuthUser_Create user s);
                   s2 = snd (sendMail sv None ''welcome'' (au_Email user) '''' s1)
               in (case generateTokenPair sv (db 2) clk rnd user (ri_UserAgent input) (ri_IPAddress input) s2 of
                     (Inl e, s3) \<Rightarrow> (Inl e, s3)
                   | (Inr tokens, s3) \<Rightarrow> (Inr (LoggedIn tokens user), s3)))))"

definition RefreshTokens ::
  "AuthService \<Rightarrow> answer \<Rightarrow> (nat \<Rightarrow> time) \<Rightarrow> (nat \<Rightarrow> string) \<Rightarrow> string \<Rightarrow> string \<Rightarrow> string \<Rightarrow> AuthStore
     \<Rightarrow> (auth_error + TokenPair) \<times> AuthStore" where
  "RefreshTokens sv db clk rnd refreshToken userAgent ipAddress s =
     (case ask (db 0) (FindRefreshToken refreshToken s) of
        None \<Rightarrow> (Inl ErrTokenInvalid, s)
      | Some token \<Rightarrow>
        if \<not> Refresh_IsValid (clk 0) token then (Inl ErrTokenExpired, s)
        else (case ask (db 1) (AuthUser_FindByID (rt_UserID token) s) of
            None \<Rightarrow> (Inl ErrAuthUserNotFound, s)
          | Some user \<Rightarrow> generateTokenPair sv (db 3) clk rnd user userAgent ipAddress
              (put (db 2) (RevokeRefreshToken (clk 1) refreshToken) s)))"

definition Logout :: "answer \<Rightarrow> time \<Rightarrow> string \<Rightarrow> AuthStore \<Rightarrow> (auth_error + unit) \<times> AuthStore" where
  "Logout db now userID s = (case db 0 of Some e \<Rightarrow> (Inl (ErrDatabase e), s) | None \<Rightarrow> (Inr (), RevokeAllUserTokens now userID s))"

definition LogoutSession :: "answer \<Rightarrow> time \<Rightarrow> string \<Rightarrow> AuthStore \<Rightarrow> (auth_error + unit) \<times> AuthStore" where
  "LogoutSession db now token s = (case db 0 of Some e \<Rightarrow> (Inl (ErrDatabase e), s) | None \<Rightarrow> (Inr (), RevokeRefreshToken now token s))"

definition Auth_ChangePassword ::
  "AuthService \<Rightarrow> answer \<Rightarrow> nat \<Rightarrow> time \<Rightarrow> ChangePasswordInput \<Rightarrow> AuthStore \<Rightarrow> (auth_error + unit) \<times> AuthStore" where
  "Auth_ChangePassword sv db salt now input s =
     (case ask (db 0) (AuthUser_FindByID (cp_UserID input) s) of
        None \<Rightarrow> (Inl ErrAuthUserNotFound, s)
      | Some user \<Rightarrow>
        if \<not> verifyPassword sv (cp_CurrentPassword input) (au_PasswordHash user)
        then (Inl ErrCurrentPassword, logEvent sv ''password_change'' (au_ID user) (au_Email user) (cp_IPAddress input) (cp_UserAgent input)
               False ''invalid current password'' s)
        else (case Auth_hashPassword sv salt (cp_NewPassword input) of
            Inl e \<Rightarrow> (Inl e, s)
          | Inr hash \<Rightarrow>
            (case db 1 of
               Some e \<Rightarrow> (Inl (ErrDatabase e), s)
             | None \<Rightarrow>
               (Inr (), logEvent sv ''password_change'' (au_ID user) (au_Email user) (cp_IPAddress input) (cp_UserAgent input) True ''''
                  (put (db 2) (RevokeAllUserTokens now (au_ID user)) (UpdatePassword (au_ID user) hash s))))))"

definition RequestPasswordReset ::
  "AuthService \<Rightarrow> answer \<Rightarrow> (nat \<Rightarrow> time) \<Rightarrow> (nat \<Rightarrow> string) \<Rightarrow> string \<Rightarrow> AuthStore \<Rightarrow> (auth_error + unit) \<times> AuthStore" where
  "RequestPasswordReset sv db clk rnd email s =
     (case ask (db 0) (AuthUser_FindByEmail email s) of
        None \<Rightarrow> (Inr (), s)
      | Some user \<Rightarrow>
        let token = NewPasswordResetToken clk (rnd 0) (rnd 1) (au_ID user) in
        (case db 1 of
           Some e \<Rightarrow> (Inl (ErrDatabase e), s)
         | None \<Rightarrow> sendMail sv (db 2) ''reset'' (au_Email user) (pt_Token token) (SavePasswordResetToken token s)))"

definition ResetPassword ::
  "AuthService \<Rightarrow> answer \<Rightarrow> nat \<Rightarrow> (nat \<Rightarrow> time) \<Rightarrow> string \<Rightarrow> string \<Rightarrow> AuthStore \<Rightarrow> (auth_error + unit) \<times> AuthStore" where
  "ResetPassword sv db salt clk tokenStr newPassword s =
     (case ask (db 0) (FindPasswordResetToken tokenStr s) of
        None \<Rightarrow> (Inl ErrTokenInvalid, s)
      | Some token \<Rightarrow>
        if \<not> Reset_IsValid (clk 0) token then (Inl ErrTokenExpired, s)
        else (case Auth_hashPassword sv salt newPassword of
            Inl e \<Rightarrow> (Inl e, s)
          | Inr hash \<Rightarrow>
            (case db 1 of
               Some e \<Rightarrow> (Inl (ErrDatabase e), s)
             | None \<Rightarrow>
               (Inr (), put (db 3) (RevokeAllUserTokens (clk 2) (pt_UserID token))
                  (put (db 2) (MarkPasswordResetTokenUsed (clk 1) tokenStr) (UpdatePassword (pt_UserID token) hash s))))))"

definition SendEmailVerification ::
  "AuthService \<Rightarrow> answer \<Rightarrow> (nat \<Rightarrow> time) \<Rightarrow> (nat \<Rightarrow> string) \<Rightarrow> string \<Rightarrow> AuthStore \<Rightarrow> (auth_error + unit) \<times> AuthStore" where
  "SendEmailVerification sv db clk rnd userID s =
     (case ask (db 0) (AuthUser_FindByID userID s) of
        None \<Rightarrow> (Inl ErrAuthUserNotFound, s)
      | Some user \<Rightarrow>
        if au_EmailVerified user then (Inl ErrEmailAlreadyVerified, s)
        else
          let token = NewEmailVerificationToken clk (rnd 0) (rnd 1) userID (au_Email user) in
          (case db 1 of
             Some e \<Rightarrow> (Inl (ErrDatabase e), s)
           | None \<Rightarrow> sendMail sv (db 2) ''verify'' (au_Email user) (vt_Token token) (SaveEmailVerificationToken token s)))"

definition Auth_VerifyEmail :: "answer \<Rightarrow> (nat \<Rightarrow> time) \<Rightarrow> string \<Rightarrow> AuthStore \<Rightarrow> (auth_error + unit) \<times> AuthStore" where
  "Auth_VerifyEmail db clk tokenStr s =
     (case ask (db 0) (FindEmailVerificationToken tokenStr s) of
        None \<Rightarrow> (Inl ErrTokenInvalid, s)
      | Some token \<Rightarrow>
        if \<not> Verification_IsValid (clk 0) token then (Inl ErrTokenExpired, s)
        else (case db 1 of
            Some e \<Rightarrow> (Inl (ErrDatabase e), s)
          | None \<Rightarrow> (Inr (), put (db 2) (MarkEmailVerificationTokenUsed (clk 2) tokenStr) (AuthUser_VerifyEmail (clk 1) (vt_UserID token) s))))"

definition claimText :: "dict \<Rightarrow> string \<Rightarrow> string" where
  "claimText d key = (case d key of Some (VStr t) \<Rightarrow> t | _ \<Rightarrow> '''')"

definition ValidateToken :: "AuthService \<Rightarrow> time \<Rightarrow> string \<Rightarrow> auth_error + JWTClaims" where
  "ValidateToken sv now token =
     (case jw_parse (sv_jwt sv) (cf_JWTSecret (sv_config sv)) now token of
        None \<Rightarrow> Inl ErrTokenInvalid
      | Some d \<Rightarrow> Inr \<lparr> jc_UserID = claimText d ''uid'', jc_Email = claimText d ''email'', jc_Subject = claimText d ''sub'',
          jc_Issuer = claimText d ''iss'' \<rparr>)"

definition CreateAPIKey ::
  "AuthService \<Rightarrow> answer \<Rightarrow> nat \<Rightarrow> time \<Rightarrow> (nat \<Rightarrow> string) \<Rightarrow> CreateAPIKeyInput \<Rightarrow> AuthStore \<Rightarrow> (auth_error + APIKey \<times> string) \<times> AuthStore" where
  "CreateAPIKey sv db salt now rnd input s =
     (case NewAPIKey (sv_bcrypt sv) salt now (rnd 0) (rnd 1) (ka_UserID input) (ka_WorkspaceID input) (ka_Name input) (ka_Scopes input)
          (ka_ExpiresAt input) of
        Inl e \<Rightarrow> (Inl (ErrPassword e), s)
      | Inr (k, rawKey) \<Rightarrow>
        (case db 0 of Some e \<Rightarrow> (Inl (ErrDatabase e), s) | None \<Rightarrow> (Inr (k, rawKey), APIKey_Save k s)))"

definition ValidateAPIKey ::
  "AuthService \<Rightarrow> answer \<Rightarrow> (nat \<Rightarrow> time) \<Rightarrow> string \<Rightarrow> AuthStore \<Rightarrow> (auth_error + APIKey) \<times> AuthStore" where
  "ValidateAPIKey sv db clk rawKey s =
     (if length rawKey < 11 then (Inl ErrTokenInvalid, s)
      else (case ask (db 0) (FindByPrefix (take 11 rawKey) s) of
          None \<Rightarrow> (Inl ErrTokenInvalid, s)
        | Some k \<Rightarrow>
          if \<not> APIKey_Verify (sv_bcrypt sv) (clk 0) rawKey k then (Inl ErrTokenInvalid, s)
          else (Inr (APIKey_MarkUsed (clk 2) k), put (db 1) (UpdateLastUsed (clk 1) (ak_ID k)) s)))"

definition RevokeAPIKey :: "answer \<Rightarrow> time \<Rightarrow> string \<Rightarrow> string \<Rightarrow> AuthStore \<Rightarrow> (auth_error + unit) \<times> AuthStore" where
  "RevokeAPIKey db now keyID userID s =
     (case ask (db 0) (APIKey_FindByID keyID s) of
        None \<Rightarrow> (Inl ErrTokenInvalid, s)
      | Some k \<Rightarrow>
        if ak_UserID k \<noteq> userID then (Inl ErrUnauthorized, s)
        else (case db 1 of Some e \<Rightarrow> (Inl (ErrDatabase e), s) | None \<Rightarrow> (Inr (), APIKey_Revoke now keyID s)))"

text \<open>The keys a caller sees.\<close>

definition ListAPIKeys :: "string \<Rightarrow> string \<Rightarrow> AuthStore \<Rightarrow> APIKey list" where
  "ListAPIKeys userID workspaceID s =
     sort_key (\<lambda>k. - ak_CreatedAt k)
       (if workspaceID \<noteq> ''''
        then filter (\<lambda>k. ak_WorkspaceID k = Some workspaceID \<and> ak_RevokedAt k = None) (as_keys s)
        else filter (\<lambda>k. ak_UserID k = userID \<and> ak_RevokedAt k = None) (as_keys s))"

section \<open>Runs of the service\<close>

datatype auth_command =
    CLogin answer "nat \<Rightarrow> time" "nat \<Rightarrow> string" LoginInput
  | CRegister answer nat "nat \<Rightarrow> time" "nat \<Rightarrow> string" RegisterInput
  | CRefresh answer "nat \<Rightarrow> time" "nat \<Rightarrow> string" string string string
  | CLogout answer time string
  | CLogoutSession answer time string
  | CChangePassword answer nat time ChangePasswordInput
  | CRequestReset answer "nat \<Rightarrow> time" "nat \<Rightarrow> string" string
  | CReset answer nat "nat \<Rightarrow> time" string string
  | CSendVerification answer "nat \<Rightarrow> time" "nat \<Rightarrow> string" string
  | CVerify answer "nat \<Rightarrow> time" string
  | CCreateKey answer nat time "nat \<Rightarrow> string" CreateAPIKeyInput
  | CUseKey answer "nat \<Rightarrow> time" string
  | CRevokeKey answer time string string
  | CCleanup time

text \<open>A call that answers an error may have written, so every command goes on from the tables it leaves.\<close>

fun auth_effect :: "AuthService \<Rightarrow> auth_command \<Rightarrow> AuthStore \<Rightarrow> AuthStore" where
  "auth_effect sv (CLogin db clk rnd input) s = snd (Auth_Login sv db clk rnd input s)"
| "auth_effect sv (CRegister db salt clk rnd input) s = snd (Auth_Register sv db salt clk rnd input s)"
| "auth_effect sv (CRefresh db clk rnd tok agent ip) s = snd (RefreshTokens sv db clk rnd tok agent ip s)"
| "auth_effect sv (CLogout db now user) s = snd (Logout db now user s)"
| "auth_effect sv (CLogoutSession db now tok) s = snd (LogoutSession db now tok s)"
| "auth_effect sv (CChangePassword db salt now input) s = snd (Auth_ChangePassword sv db salt now input s)"
| "auth_effect sv (CRequestReset db clk rnd email) s = snd (RequestPasswordReset sv db clk rnd email s)"
| "auth_effect sv (CReset db salt clk tok password) s = snd (ResetPassword sv db salt clk tok password s)"
| "auth_effect sv (CSendVerification db clk rnd user) s = snd (SendEmailVerification sv db clk rnd user s)"
| "auth_effect sv (CVerify db clk tok) s = snd (Auth_VerifyEmail db clk tok s)"
| "auth_effect sv (CCreateKey db salt now rnd input) s = snd (CreateAPIKey sv db salt now rnd input s)"
| "auth_effect sv (CUseKey db clk key) s = snd (ValidateAPIKey sv db clk key s)"
| "auth_effect sv (CRevokeKey db now key user) s = snd (RevokeAPIKey db now key user s)"
| "auth_effect sv (CCleanup now) s = CleanupExpiredTokens now s"

definition auth_step :: "AuthService \<Rightarrow> auth_command \<Rightarrow> AuthStore \<Rightarrow> unit + AuthStore" where
  "auth_step sv c s = Inr (auth_effect sv c s)"

text \<open>The secure tokens that a call draws are new: none of them is \<open>tok\<close>.\<close>

fun draws :: "auth_command \<Rightarrow> string list" where
  "draws (CLogin db clk rnd input) = [rnd 11]"
| "draws (CRegister db salt clk rnd input) = [rnd 11]"
| "draws (CRefresh db clk rnd tok agent ip) = [rnd 11]"
| "draws _ = []"

definition other_token :: "string \<Rightarrow> AuthStore \<Rightarrow> auth_command \<Rightarrow> bool" where
  "other_token tok s c \<longleftrightarrow> tok \<notin> set (draws c)"

definition dead :: "string \<Rightarrow> AuthStore \<Rightarrow> bool" where
  "dead tok s \<longleftrightarrow> list_all (\<lambda>t. rt_Token t = tok \<longrightarrow> rt_RevokedAt t \<noteq> None) (as_refresh s)"

named_theorems keeps_dead "operations that keep a dead token dead"

lemma dead_cong: "as_refresh s' = as_refresh s \<Longrightarrow> dead tok s' = dead tok s"
  by (simp add: dead_def)

lemma dead_put [keeps_dead]: "dead tok s \<Longrightarrow> (\<And>x. dead tok x \<Longrightarrow> dead tok (f x)) \<Longrightarrow> dead tok (put err f s)"
  by (simp add: put_def)

lemma dead_other_tables [simp]:
  "dead tok (AuthUser_Update u s) = dead tok s"
  "dead tok (AuthUser_Create u s) = dead tok s"
  "dead tok (UpdatePassword i hash s) = dead tok s"
  "dead tok (AuthUser_VerifyEmail now i s) = dead tok s"
  "dead tok (SavePasswordResetToken pt s) = dead tok s"
  "dead tok (MarkPasswordResetTokenUsed now pr s) = dead tok s"
  "dead tok (SaveEmailVerificationToken vt s) = dead tok s"
  "dead tok (MarkEmailVerificationTokenUsed now ev s) = dead tok s"
  "dead tok (APIKey_Save k s) = dead tok s"
  "dead tok (APIKey_Revoke now i s) = dead tok s"
  "dead tok (UpdateLastUsed now i s) = dead tok s"
  "dead tok (logEvent sv ty i email ip agent ok reason s) = dead tok s"
  "dead tok (snd (sendMail sv err kind email m s)) = dead tok s"
  by (simp_all add: dead_def AuthUser_Update_def AuthUser_Create_def UpdatePassword_def AuthUser_VerifyEmail_def
      SavePasswordResetToken_def MarkPasswordResetTokenUsed_def SaveEmailVerificationToken_def
      MarkEmailVerificationTokenUsed_def APIKey_Save_def APIKey_Revoke_def UpdateLastUsed_def logEvent_def sendMail_def
      split: option.split)

lemma dead_revoke [keeps_dead]:
  "dead tok s \<Longrightarrow> dead tok (RevokeRefreshToken now r s)"
  "dead tok s \<Longrightarrow> dead tok (RevokeAllUserTokens now u s)"
  "dead tok s \<Longrightarrow> dead tok (CleanupExpiredTokens now s)"
  by (auto simp: dead_def RevokeRefreshToken_def RevokeAllUserTokens_def CleanupExpiredTokens_def Refresh_Revoke_def list_all_iff)

lemma dead_generateTokenPair [keeps_dead]:
  "dead tok s \<Longrightarrow> rnd 11 \<noteq> tok \<Longrightarrow> dead tok (snd (generateTokenPair sv err clk rnd user agent ip s))"
  by (simp add: generateTokenPair_def Let_def SaveRefreshToken_def NewRefreshToken_def dead_def split: sum.split option.split)

lemma dead_handleFailedLogin [keeps_dead]:
  "dead tok s \<Longrightarrow> dead tok (handleFailedLogin sv err now user input s)"
  by (simp add: handleFailedLogin_def Let_def put_def)

lemma dead_loggedIn [keeps_dead]:
  assumes "dead tok s" and "rnd 11 \<noteq> tok"
  shows "dead tok (snd (loggedIn sv db clk rnd input user s))"
proof -
  have "dead tok (put e (AuthUser_Update u) s)" for e u
    using assms(1) by (simp add: put_def)
  from dead_generateTokenPair[OF this, where rnd = rnd, OF assms(2)] show ?thesis
    by (simp add: loggedIn_def Let_def split: prod.split sum.split) (metis snd_conv)
qed

lemma dead_Login [keeps_dead]: "dead tok s \<Longrightarrow> rnd 11 \<noteq> tok \<Longrightarrow> dead tok (snd (Auth_Login sv db clk rnd input s))"
  by (simp add: Auth_Login_def Let_def keeps_dead split: option.split sum.split)

lemma dead_Register [keeps_dead]:
  assumes "dead tok s" and "rnd 11 \<noteq> tok"
  shows "dead tok (snd (Auth_Register sv db salt clk rnd input s))"
proof -
  have "dead tok x \<Longrightarrow> dead tok (snd (case generateTokenPair sv (db 2) clk rnd user agent ip x of
      (Inl e, s3) \<Rightarrow> (Inl e, s3) | (Inr tokens, s3) \<Rightarrow> (Inr (LoggedIn tokens user), s3)))" for x user agent ip
    using dead_generateTokenPair[where s = x and rnd = rnd and tok = tok, OF _ assms(2)]
    by (auto split: prod.split sum.split) (metis snd_conv)+
  with assms(1) show ?thesis
    by (simp add: Auth_Register_def Let_def split: option.split sum.split)
qed

lemma dead_RefreshTokens [keeps_dead]:
  "dead tok s \<Longrightarrow> rnd 11 \<noteq> tok \<Longrightarrow> dead tok (snd (RefreshTokens sv db clk rnd r agent ip s))"
  by (simp add: RefreshTokens_def keeps_dead split: option.split)

lemma dead_sessions [keeps_dead]:
  assumes "dead tok s"
  shows "dead tok (snd (Logout db now u s))"
    and "dead tok (snd (LogoutSession db now r s))"
    and "dead tok (snd (Auth_ChangePassword sv db salt now ci s))"
    and "dead tok (snd (ResetPassword sv db salt clk r password s))"
  using assms
  by (simp_all add: keeps_dead Logout_def LogoutSession_def Auth_ChangePassword_def ResetPassword_def put_def
      split: option.split sum.split)

lemma dead_mails [keeps_dead]:
  assumes "dead tok s"
  shows "dead tok (snd (RequestPasswordReset sv db clk rnd email s))"
    and "dead tok (snd (SendEmailVerification sv db clk rnd user s))"
    and "dead tok (snd (Auth_VerifyEmail db clk r s))"
  using assms
  by (simp_all add: RequestPasswordReset_def SendEmailVerification_def Auth_VerifyEmail_def Let_def put_def split: option.split)

lemma dead_keys [keeps_dead]:
  assumes "dead tok s"
  shows "dead tok (snd (CreateAPIKey sv db salt now rnd ki s))"
    and "dead tok (snd (ValidateAPIKey sv db clk key s))"
    and "dead tok (snd (RevokeAPIKey db now key user s))"
  using assms
  by (simp_all add: CreateAPIKey_def ValidateAPIKey_def RevokeAPIKey_def put_def split: option.split sum.split prod.split)

lemma dead_auth_effect:
  assumes "dead tok s" and "other_token tok s c"
  shows "dead tok (auth_effect sv c s)"
  using assms by (cases c) (simp_all add: keeps_dead other_token_def)

interpretation auth: aggregate "auth_step sv" "dead tok" "other_token tok" for sv tok
  by unfold_locales (auto simp: auth_step_def intro: dead_auth_effect)

lemma dead_refused:
  assumes "dead tok s"
  shows "(\<exists>e. fst (RefreshTokens sv db clk rnd tok agent ip s) = Inl e) \<and> snd (RefreshTokens sv db clk rnd tok agent ip s) = s"
proof -
  have "rt_RevokedAt t \<noteq> None" if "FindRefreshToken tok s = Some t" for t
    using that assms by (auto simp: FindRefreshToken_def dead_def list_all_iff find_Some_iff)
  then show ?thesis
    by (auto simp: RefreshTokens_def Refresh_IsValid_def ask_def split: option.split)
qed

text \<open>The calls that end the session of \<open>tok\<close>, when they answer without an error and the table of tokens takes the writes.\<close>

definition owned :: "string \<Rightarrow> string \<Rightarrow> AuthStore \<Rightarrow> bool" where
  "owned tok user s = list_all (\<lambda>t. rt_Token t = tok \<longrightarrow> rt_UserID t = user) (as_refresh s)"

fun ends_session :: "AuthService \<Rightarrow> string \<Rightarrow> auth_command \<Rightarrow> AuthStore \<Rightarrow> bool" where
  "ends_session sv tok (CRefresh db clk rnd r agent ip) s =
     (r = tok \<and> rnd 11 \<noteq> tok \<and> db 2 = None \<and> isl (fst (RefreshTokens sv db clk rnd r agent ip s)) = False)"
| "ends_session sv tok (CLogout db now user) s = (owned tok user s \<and> db 0 = None)"
| "ends_session sv tok (CLogoutSession db now r) s = (r = tok \<and> db 0 = None)"
| "ends_session sv tok (CChangePassword db salt now input) s =
     (owned tok (cp_UserID input) s \<and> db 2 = None \<and> isl (fst (Auth_ChangePassword sv db salt now input s)) = False)"
| "ends_session sv tok (CReset db salt clk r password) s =
     (owned tok (case FindPasswordResetToken r s of None \<Rightarrow> '''' | Some t \<Rightarrow> pt_UserID t) s \<and> db 3 = None
        \<and> isl (fst (ResetPassword sv db salt clk r password s)) = False)"
| "ends_session sv tok _ s = False"

lemma revoked_dead:
  "dead tok (RevokeRefreshToken now tok s)"
  "owned tok user s \<Longrightarrow> dead tok (RevokeAllUserTokens now user s)"
  by (simp_all add: dead_def owned_def RevokeRefreshToken_def RevokeAllUserTokens_def Refresh_Revoke_def list.pred_map comp_def)
     (simp_all add: list_all_iff)

lemma owned_other_tables [simp]:
  "owned tok user (UpdatePassword i hash s) = owned tok user s"
  "owned tok user (MarkPasswordResetTokenUsed now r s) = owned tok user s"
  by (simp_all add: owned_def UpdatePassword_def MarkPasswordResetTokenUsed_def)

lemma FindByID_ID: "AuthUser_FindByID i s = Some u \<Longrightarrow> au_ID u = i"
  by (auto simp: AuthUser_FindByID_def find_Some_iff)

lemma ends_session_dead:
  assumes "ends_session sv tok c s"
  shows "dead tok (auth_effect sv c s)"
proof (cases c)
  case (CRefresh db clk rnd r agent ip)
  from assms have "r = tok \<and> rnd 11 \<noteq> tok \<and> db 2 = None \<and> isl (fst (RefreshTokens sv db clk rnd r agent ip s)) = False"
    unfolding CRefresh ends_session.simps .
  then have r: "r = tok" "rnd 11 \<noteq> tok" "db 2 = None" and ok: "\<not> isl (fst (RefreshTokens sv db clk rnd tok agent ip s))"
    by auto
  have "dead tok (snd (RefreshTokens sv db clk rnd tok agent ip s))"
    using ok r(2,3) unfolding RefreshTokens_def put_def
    by (simp add: keeps_dead revoked_dead split: option.split_asm if_split_asm)
  with CRefresh r(1) show ?thesis
    by simp
next
  case (CChangePassword db salt now input)
  with assms show ?thesis
    by (auto simp: Auth_ChangePassword_def put_def ask_def intro!: revoked_dead
        dest: FindByID_ID split: option.splits if_splits sum.splits)
next
  case (CReset db salt clk r password)
  with assms show ?thesis
    by (auto simp: ResetPassword_def put_def ask_def intro!: revoked_dead split: option.splits if_splits sum.splits)
qed (use assms in \<open>auto simp: Logout_def LogoutSession_def intro: revoked_dead\<close>)

text \<open>A session that has ended does not come back: once a refresh token has been exchanged, or its user has logged out,
  changed the password or reset it (and the table of tokens took the writes), no sequence of calls, logins and
  registrations included, makes the service accept that refresh token again, and presenting it changes nothing.\<close>

theorem ended_session_stays_ended:
  assumes "ends_session sv tok c s" and "admissible (auth_step sv) (other_token tok) (auth_effect sv c s) cs"
  shows "(\<exists>e. fst (RefreshTokens sv db clk rnd tok agent ip (attempts (auth_step sv) (auth_effect sv c s) cs)) = Inl e)
     \<and> snd (RefreshTokens sv db clk rnd tok agent ip (attempts (auth_step sv) (auth_effect sv c s) cs))
         = attempts (auth_step sv) (auth_effect sv c s) cs"
  by (rule dead_refused[OF auth.run_inv[OF ends_session_dead[OF assms(1)] assms(2)]])

section \<open>Tokens of a login\<close>

text \<open>What the library of tokens documents: what a key has signed can be read with it until it expires.\<close>

definition jwt_reads :: "jwt \<Rightarrow> bool" where
  "jwt_reads j \<longleftrightarrow> (\<forall>key d token e now. jw_sign j key d = Inr token \<and> d ''exp'' = Some (VInt e) \<and> now < e * Second
     \<longrightarrow> jw_parse j key now token = Some d)"

text \<open>C23: The second factor is bypassed. When a login asks for the code of the second factor, the token that it hands out
  after the password alone is one that \<open>ValidateToken\<close>, the check of every authenticated request, accepts for five
  minutes as an access token of the user.\<close>

theorem mfa_token_authenticates:
  assumes "jwt_reads (sv_jwt sv)" and "Auth_Login sv db clk rnd input s = (Inr (RequiresMFA token), s')"
    and "now < (clk 0 + 5 * Minute) div Second * Second"
  shows "\<exists>user claims. AuthUser_FindByEmail (normalEmail (li_Email input)) s = Some user \<and> au_MFAEnabled user
     \<and> ValidateToken sv now token = Inr claims \<and> jc_UserID claims = au_ID user"
proof -
  obtain user where user: "AuthUser_FindByEmail (normalEmail (li_Email input)) s = Some user" "au_MFAEnabled user"
      and sign: "generateMFAToken sv clk (au_ID user) = Inr token"
    using assms(2) by (auto simp: Auth_Login_def loggedIn_def Let_def ask_def split: option.splits if_splits sum.splits prod.splits)
  let ?d = "[''uid'' \<mapsto> VStr (au_ID user), ''type'' \<mapsto> VStr ''mfa'',
    ''exp'' \<mapsto> VInt ((clk 0 + 5 * Minute) div Second), ''iat'' \<mapsto> VInt (clk 1 div Second)]"
  have "jw_parse (sv_jwt sv) (cf_JWTSecret (sv_config sv)) now token = Some ?d"
    using assms(1,3) sign unfolding jwt_reads_def generateMFAToken_def by fastforce
  with user show ?thesis
    by (simp add: ValidateToken_def claimText_def)
qed

section \<open>The lock of an account\<close>

record guess =
  gs_db :: answer
  gs_clk :: "nat \<Rightarrow> time"
  gs_rnd :: "nat \<Rightarrow> string"
  gs_input :: LoginInput

fun guesses :: "AuthService \<Rightarrow> guess list \<Rightarrow> AuthStore \<Rightarrow> AuthStore" where
  "guesses sv [] s = s"
| "guesses sv (g # gs) s = guesses sv gs (snd (Auth_Login sv (gs_db g) (gs_clk g) (gs_rnd g) (gs_input g) s))"

definition wrong_guess :: "AuthService \<Rightarrow> AuthUser \<Rightarrow> time \<Rightarrow> guess \<Rightarrow> bool" where
  "wrong_guess sv u a g \<longleftrightarrow> normalEmail (li_Email (gs_input g)) = au_Email u \<and> \<not> verifyPassword sv (li_Password (gs_input g)) (au_PasswordHash u)
     \<and> gs_db g 0 = None \<and> gs_db g 1 = None \<and> a \<le> gs_clk g 1"

text \<open>After \<open>k\<close> wrong passwords: locked until \<open>t\<close> at least, or not locked and \<open>k\<close> failures counted.\<close>

definition guarded :: "int \<Rightarrow> AuthUser \<Rightarrow> time \<Rightarrow> int \<Rightarrow> AuthStore \<Rightarrow> bool" where
  "guarded m u t k s \<longleftrightarrow> (\<exists>v. AuthUser_FindByEmail (au_Email u) s = Some v \<and> au_Status v = ''active''
     \<and> au_PasswordHash v = au_PasswordHash u
     \<and> (case au_LockedUntil v of
          None \<Rightarrow> au_FailedLoginCount v < m \<and> au_FailedLoginCount u + k \<le> au_FailedLoginCount v
        | Some l \<Rightarrow> t \<le> l \<and> m \<le> au_FailedLoginCount v))"

lemma FindByEmail_cong: "as_users s' = as_users s \<Longrightarrow> AuthUser_FindByEmail e s' = AuthUser_FindByEmail e s"
  by (simp add: AuthUser_FindByEmail_def)

lemma users_logEvent [simp]: "as_users (logEvent sv ty i email ip agent ok reason s) = as_users s"
  by (simp add: logEvent_def)

lemma FindByEmail_logEvent [simp]:
  "AuthUser_FindByEmail e (logEvent sv ty i email ip agent ok reason s) = AuthUser_FindByEmail e s"
  by (rule FindByEmail_cong) simp

lemma FindByEmail_Update:
  assumes "AuthUser_FindByEmail e s = Some v" and "au_ID v' = au_ID v" and "au_Email v' = au_Email v" and "au_DeletedAt v' = au_DeletedAt v"
  shows "AuthUser_FindByEmail e (AuthUser_Update v' s) = Some v'"
proof -
  have "find P xs = Some v \<Longrightarrow> P v' \<Longrightarrow> find P (map (\<lambda>w. if au_ID w = au_ID v' then v' else w) xs) = Some v'"
    for P and xs :: "AuthUser list"
    using assms(2) by (induction xs) (auto split: if_splits)
  moreover have "au_Email v = e \<and> au_DeletedAt v = None"
    using assms(1) by (auto simp: AuthUser_FindByEmail_def find_Some_iff)
  ultimately show ?thesis
    using assms by (simp add: AuthUser_FindByEmail_def AuthUser_Update_def)
qed

lemma FindByEmail_handleFailedLogin:
  assumes "AuthUser_FindByEmail e s = Some v"
  shows "\<exists>v'. AuthUser_FindByEmail e (handleFailedLogin sv None now v input s) = Some v'
     \<and> au_Status v' = au_Status v \<and> au_PasswordHash v' = au_PasswordHash v
     \<and> au_FailedLoginCount v' = au_FailedLoginCount v + 1
     \<and> au_LockedUntil v' = (if cf_MaxLoginAttempts (sv_config sv) \<le> au_FailedLoginCount v + 1
          then Some (now + cf_LockoutDuration (sv_config sv)) else au_LockedUntil v)"
proof -
  let ?u1 = "v\<lparr> au_FailedLoginCount := au_FailedLoginCount v + 1 \<rparr>"
  let ?u2 = "?u1\<lparr> au_LockedUntil := Some (now + cf_LockoutDuration (sv_config sv)) \<rparr>"
  have "AuthUser_FindByEmail e (AuthUser_Update ?u1 s) = Some ?u1" "AuthUser_FindByEmail e (AuthUser_Update ?u2 s) = Some ?u2"
    by (rule FindByEmail_Update[OF assms]; simp)+
  then show ?thesis
    by (simp add: handleFailedLogin_def Let_def put_def)
qed

lemma guess_guarded:
  assumes "guarded (cf_MaxLoginAttempts (sv_config sv)) u (a + cf_LockoutDuration (sv_config sv)) k s" and "wrong_guess sv u a g"
  shows "guarded (cf_MaxLoginAttempts (sv_config sv)) u (a + cf_LockoutDuration (sv_config sv)) (k + 1)
     (snd (Auth_Login sv (gs_db g) (gs_clk g) (gs_rnd g) (gs_input g) s))"
proof -
  obtain v where v: "AuthUser_FindByEmail (au_Email u) s = Some v" "au_Status v = ''active''" "au_PasswordHash v = au_PasswordHash u"
      "case au_LockedUntil v of
          None \<Rightarrow> au_FailedLoginCount v < cf_MaxLoginAttempts (sv_config sv) \<and> au_FailedLoginCount u + k \<le> au_FailedLoginCount v
        | Some l \<Rightarrow> a + cf_LockoutDuration (sv_config sv) \<le> l \<and> cf_MaxLoginAttempts (sv_config sv) \<le> au_FailedLoginCount v"
    using assms(1) unfolding guarded_def by blast
  show ?thesis
  proof (cases "case au_LockedUntil v of None \<Rightarrow> False | Some l \<Rightarrow> gs_clk g 0 < l")
    case True
    with v assms(2) show ?thesis
      by (auto simp: guarded_def Auth_Login_def wrong_guess_def ask_def Let_def split: option.splits)
  next
    case False
    with v(1-3) assms(2) have "snd (Auth_Login sv (gs_db g) (gs_clk g) (gs_rnd g) (gs_input g) s)
        = handleFailedLogin sv None (gs_clk g 1) v (gs_input g) s"
      by (simp add: Auth_Login_def wrong_guess_def ask_def Let_def)
    moreover obtain v' where "AuthUser_FindByEmail (au_Email u) (handleFailedLogin sv None (gs_clk g 1) v (gs_input g) s) = Some v'"
        "au_Status v' = au_Status v" "au_PasswordHash v' = au_PasswordHash v" "au_FailedLoginCount v' = au_FailedLoginCount v + 1"
        "au_LockedUntil v' = (if cf_MaxLoginAttempts (sv_config sv) \<le> au_FailedLoginCount v + 1
           then Some (gs_clk g 1 + cf_LockoutDuration (sv_config sv)) else au_LockedUntil v)"
      using FindByEmail_handleFailedLogin[OF v(1)] by metis
    ultimately show ?thesis
      using v assms(2) by (auto simp: guarded_def wrong_guess_def split: option.splits)
  qed
qed

lemma guesses_guarded:
  assumes "guarded (cf_MaxLoginAttempts (sv_config sv)) u (a + cf_LockoutDuration (sv_config sv)) k s" and "list_all (wrong_guess sv u a) gs"
  shows "guarded (cf_MaxLoginAttempts (sv_config sv)) u (a + cf_LockoutDuration (sv_config sv)) (k + int (length gs)) (guesses sv gs s)"
  using assms
proof (induction gs arbitrary: s k)
  case (Cons g gs)
  from Cons.IH[OF guess_guarded[OF Cons.prems(1)]] Cons.prems(2) show ?case
    by (simp add: algebra_simps)
qed simp

text \<open>C24: The lock of an account: once as many wrong passwords as \<open>MaxLoginAttempts\<close> (less the failures already counted)
  have been tried from time \<open>a\<close> on, every login, the right password included, is refused until \<open>a + LockoutDuration\<close>.\<close>

theorem lockout_after_wrong_passwords:
  assumes "AuthUser_FindByEmail (au_Email u) s = Some u" and "au_Status u = ''active''" and "au_LockedUntil u = None"
    and "au_FailedLoginCount u < cf_MaxLoginAttempts (sv_config sv)"
    and "list_all (wrong_guess sv u a) gs"
    and "cf_MaxLoginAttempts (sv_config sv) \<le> au_FailedLoginCount u + int (length gs)"
    and "normalEmail (li_Email input) = au_Email u" and "db 0 = None" and "clk 0 < a + cf_LockoutDuration (sv_config sv)"
  shows "fst (Auth_Login sv db clk rnd input (guesses sv gs s)) = Inl ErrAccountLocked"
proof -
  have "guarded (cf_MaxLoginAttempts (sv_config sv)) u (a + cf_LockoutDuration (sv_config sv)) 0 s"
    using assms(1-4) by (simp add: guarded_def)
  from guesses_guarded[OF this assms(5)] obtain v l where
    "AuthUser_FindByEmail (au_Email u) (guesses sv gs s) = Some v" "au_LockedUntil v = Some l"
    "a + cf_LockoutDuration (sv_config sv) \<le> l"
    using assms(6) by (auto simp: guarded_def split: option.splits)
  with assms(7-9) show ?thesis
    by (simp add: Auth_Login_def ask_def Let_def)
qed

text \<open>Refreshing looks at neither the status nor the lock of the user: a deactivated account keeps its sessions.\<close>

lemma refresh_ignores_status:
  assumes "FindRefreshToken tok s = Some t" and "Refresh_IsValid (clk 0) t" and "db 0 = None" and "db 1 = None" and "db 2 = None"
    and "db 3 = None" and "AuthUser_FindByID (rt_UserID t) s = Some u" and "au_Status u = ''inactive''"
    and "\<forall>d. \<exists>x. jw_sign (sv_jwt sv) (cf_JWTSecret (sv_config sv)) d = Inr x"
  shows "\<exists>p. fst (RefreshTokens sv db clk rnd tok agent ip s) = Inr p"
  using assms by (auto simp: RefreshTokens_def ask_def put_def generateTokenPair_def Let_def split: sum.split) (metis sum.distinct(1))

text \<open>When the table does not take the write that revokes it, the exchanged token stays valid: the error is not looked at.\<close>

lemma failed_revocation_keeps_token:
  assumes "db 2 = Some err" and "RefreshTokens sv db clk rnd tok agent ip s = (Inr p, s')"
  shows "FindRefreshToken tok s' = FindRefreshToken tok s"
  using assms by (auto simp: RefreshTokens_def ask_def put_def generateTokenPair_def Let_def SaveRefreshToken_def FindRefreshToken_def
      find_append split: option.splits if_splits sum.splits)

text \<open>
  A key is found by the first eleven characters alone, and only the first such key is compared: another live key with the
  same beginning is never accepted.
\<close>

lemma key_prefix_shadows:
  assumes "FindByPrefix (take 11 rawKey) s = Some k" and "\<not> bc_compare (sv_bcrypt sv) (ak_KeyHash k) rawKey"
  shows "fst (ValidateAPIKey sv db clk rawKey s) = Inl ErrTokenInvalid"
  using assms by (auto simp: ValidateAPIKey_def APIKey_Verify_def ask_def)

section \<open>Examples\<close>

definition plain_bcrypt :: bcrypt where
  "plain_bcrypt = \<lparr> bc_generate = (\<lambda>salt password. Some password), bc_compare = (\<lambda>hash password. hash = password) \<rparr>"

definition sample_auth_user :: AuthUser where
  "sample_auth_user = \<lparr> au_ID = ''u'', au_Email = ''a@b.cd'', au_Username = ''a'', au_PasswordHash = ''Secret123'', au_FirstName = ''A'',
     au_LastName = ''B'', au_Status = ''active'', au_EmailVerified = True, au_EmailVerifiedAt = None, au_LastLoginAt = None,
     au_LoginCount = 0, au_FailedLoginCount = 2, au_LockedUntil = None, au_MFAEnabled = True, au_MFASecret = ''s'',
     au_CreatedAt = 0, au_UpdatedAt = 0, au_DeletedAt = None \<rparr>"

definition sample_auth_store :: AuthStore where
  "sample_auth_store = \<lparr> as_users = [sample_auth_user], as_refresh = [NewRefreshToken (\<lambda>_. 0) ''r'' ''tok'' ''u'' ''agent'' ''ip'' Hour],
     as_resets = [], as_verifications = [], as_keys = [], as_mails = [], as_events = [] \<rparr>"

text \<open>A signing library that signs the payload of one second-factor token, with nothing else signed.\<close>

definition mfa_payload :: dict where
  "mfa_payload = [''uid'' \<mapsto> VStr ''u'', ''type'' \<mapsto> VStr ''mfa'', ''exp'' \<mapsto> VInt 300, ''iat'' \<mapsto> VInt 0]"

definition one_jwt :: jwt where
  "one_jwt = \<lparr> jw_sign = (\<lambda>key d. if d = mfa_payload then Inr ''T'' else Inl ''not signed''),
     jw_parse = (\<lambda>key now t. if t = ''T'' \<and> now < 300 * Second then Some mfa_payload else None) \<rparr>"

definition any_jwt :: jwt where
  "any_jwt = \<lparr> jw_sign = (\<lambda>key d. Inr ''T''), jw_parse = (\<lambda>key now t. None) \<rparr>"

definition sample_auth :: "jwt \<Rightarrow> AuthService" where
  "sample_auth j = \<lparr> sv_config = DefaultConfig\<lparr> cf_MFAEnabled := True \<rparr>, sv_bcrypt = plain_bcrypt, sv_jwt = j, sv_hasMail = True, sv_hasAudit = False \<rparr>"

definition sample_login :: "string \<Rightarrow> LoginInput" where
  "sample_login p = \<lparr> li_Email = ''a@b.cd'', li_Password = p, li_MFACode = '''', li_UserAgent = ''agent'', li_IPAddress = ''ip'' \<rparr>"

lemma sample_normalEmail [simp]: "normalEmail ''a@b.cd'' = ''a@b.cd''"
  by code_simp

lemma mfa_token_authenticates_witness:
  "Auth_Login (sample_auth one_jwt) (\<lambda>_. None) (\<lambda>_. 0) (\<lambda>_. ''x'') (sample_login ''Secret123'') sample_auth_store
     = (Inr (RequiresMFA ''T''), sample_auth_store)
   \<and> (\<exists>claims. ValidateToken (sample_auth one_jwt) 1 ''T'' = Inr claims \<and> jc_UserID claims = ''u'')"
proof -
  have find: "AuthUser_FindByEmail ''a@b.cd'' sample_auth_store = Some sample_auth_user"
    by (simp add: AuthUser_FindByEmail_def sample_auth_store_def sample_auth_user_def)
  have login: "Auth_Login (sample_auth one_jwt) (\<lambda>_. None) (\<lambda>_. 0) (\<lambda>_. ''x'') (sample_login ''Secret123'') sample_auth_store
      = (Inr (RequiresMFA ''T''), sample_auth_store)"
    by (simp add: Auth_Login_def sample_login_def ask_def find Let_def sample_auth_def DefaultConfig_def verifyPassword_def
        plain_bcrypt_def one_jwt_def generateMFAToken_def mfa_payload_def)
       (simp add: sample_auth_user_def)
  moreover have "jwt_reads (sv_jwt (sample_auth one_jwt))"
    by (auto simp: jwt_reads_def sample_auth_def one_jwt_def mfa_payload_def split: if_splits)
  moreover have "au_ID sample_auth_user = ''u''"
    by (simp add: sample_auth_user_def)
  ultimately show ?thesis
    using mfa_token_authenticates[of "sample_auth one_jwt", OF _ login, of 1] find
    by (auto simp: sample_login_def)
qed

definition sample_refresh :: auth_command where
  "sample_refresh = CRefresh (\<lambda>_. None) (\<lambda>_. 1) (\<lambda>_. ''new'') ''tok'' ''agent'' ''ip''"

lemma ended_session_stays_ended_witness:
  "\<exists>e. fst (RefreshTokens (sample_auth any_jwt) (\<lambda>_. None) (\<lambda>_. 2) (\<lambda>_. ''newer'') ''tok'' ''agent'' ''ip''
     (attempts (auth_step (sample_auth any_jwt)) (auth_effect (sample_auth any_jwt) sample_refresh sample_auth_store)
        [CLogin (\<lambda>_. None) (\<lambda>_. 1) (\<lambda>_. ''fresh'') (sample_login ''Secret123'')])) = Inl e"
proof -
  have "ends_session (sample_auth any_jwt) ''tok'' sample_refresh sample_auth_store"
    by (simp add: sample_refresh_def RefreshTokens_def ask_def FindRefreshToken_def sample_auth_store_def NewRefreshToken_def
        Refresh_IsValid_def AuthUser_FindByID_def generateTokenPair_def Let_def sample_auth_def any_jwt_def DefaultConfig_def
        sample_auth_user_def)
  from ended_session_stays_ended[OF this, where cs = "[CLogin (\<lambda>_. None) (\<lambda>_. 1) (\<lambda>_. ''fresh'') (sample_login ''Secret123'')]"]
  show ?thesis
    by (simp add: other_token_def)
qed

definition sample_guess :: guess where
  "sample_guess = \<lparr> gs_db = (\<lambda>_. None), gs_clk = (\<lambda>_. 1), gs_rnd = (\<lambda>_. ''x''), gs_input = sample_login ''wrong'' \<rparr>"

lemma lockout_after_wrong_passwords_witness:
  "fst (Auth_Login (sample_auth any_jwt) (\<lambda>_. None) (\<lambda>_. 9) (\<lambda>_. ''x'') (sample_login ''Secret123'')
     (guesses (sample_auth any_jwt) [sample_guess, sample_guess, sample_guess] sample_auth_store)) = Inl ErrAccountLocked"
  by (rule lockout_after_wrong_passwords[where u = sample_auth_user and a = 1])
     (simp_all add: AuthUser_FindByEmail_def sample_auth_store_def sample_auth_user_def sample_auth_def DefaultConfig_def
        wrong_guess_def sample_guess_def sample_login_def verifyPassword_def plain_bcrypt_def)

end
