(* ===== verification/Versioned_Store.thy ===== *)
theory Versioned_Store
  imports Prelude
begin

text \<open>
  What the tables share: the values that a JSON column gives back, and the lock of a row. A number of a dynamic value comes back
  from JSON as a float (the numbers are those a float holds exactly).
\<close>

section \<open>Values in JSON\<close>

primrec jsonValue :: "value \<Rightarrow> value" where
  "jsonValue VNil = VNil"
| "jsonValue (VBool b) = VBool b"
| "jsonValue (VInt i) = VNum (of_int i)"
| "jsonValue (VNum x) = VNum x"
| "jsonValue (VStr s) = VStr s"
| "jsonValue (VList vs) = VList (map jsonValue vs)"
| "jsonValue (VMap m) = VMap (map_option jsonValue \<circ> m)"

definition jsonDict :: "dict \<Rightarrow> dict" where
  "jsonDict d = map_option jsonValue \<circ> d"

lemma jsonValue_idem [simp]: "jsonValue (jsonValue v) = jsonValue v"
proof (induction v)
  case (VMap m)
  have "map_option jsonValue (map_option jsonValue (m x)) = map_option jsonValue (m x)" for x
    using VMap[of "m x"] by (cases "m x") (auto intro: rangeI dest: sym)
  then show ?case
    by (simp add: comp_def)
qed (simp_all add: map_idI)

lemma jsonDict_idem [simp]: "jsonDict (jsonDict d) = jsonDict d"
  by (simp add: jsonDict_def comp_def option.map_comp)

section \<open>The optimistic lock\<close>

text \<open>
  The contract of a table under an optimistic lock, shared by the tables of workflows and of executions: an update takes the
  version it expects from the copy it writes, is refused when the row has another one, and advances it.
\<close>

locale versioned_store =
  fixes find_row :: "'t \<Rightarrow> string \<Rightarrow> 'a option"
    and update :: "'a \<Rightarrow> 't \<Rightarrow> 'e + 't"
    and key :: "'a \<Rightarrow> string"
    and version :: "'a \<Rightarrow> int"
    and ok :: "'t \<Rightarrow> bool"
  assumes update_current: "ok t \<Longrightarrow> update e t = Inr t' \<Longrightarrow> \<exists>r. find_row t (key e) = Some r \<and> version r = version e"
    and update_advances: "ok t \<Longrightarrow> update e t = Inr t' \<Longrightarrow> ok t' \<and> (\<exists>r. find_row t' (key e) = Some r \<and> version r = version e + 1)"
begin

lemma changed_copy_refused:
  "ok t \<Longrightarrow> find_row t (key e) = Some r \<Longrightarrow> version e \<noteq> version r \<Longrightarrow> \<exists>x. update e t = Inl x"
  by (metis option.inject sum.exhaust update_current)

lemma second_writer_refused:
  assumes "ok t" and "update e t = Inr t'" and "key d = key e" and "version d = version e"
  shows "\<exists>x. update d t' = Inl x"
  using update_advances[OF assms(1,2)] changed_copy_refused[of t' d] assms(3,4) by auto

end

end
