(* ===== verification/Import_Export.thy ===== *)
theory Import_Export
  imports Workflow Expression Versioned_Store
begin

text \<open>
  Import and export of workflows (\<open>internal/workflow/features/import_export.go\<close>). A document is what a reader of its JSON
  text gets: the exported record, its maps as JSON carries them; \<open>None\<close> is a text that is not such a document. Identifiers and readings of the clock are
  functions of a counter. The workflow that an import builds is local to it: \<open>importWorkflow\<close> gives it beside the result, and
  \<open>Import\<close> is the result alone.
\<close>

section \<open>Documents\<close>

datatype ExportFormat = ExportFormatJSON | ExportFormatYAML | ExportFormatOther string

record CredentialExport =
  ce_ID :: string
  ce_Name :: string
  ce_Type :: string
  ce_NodeID :: string
  ce_Placeholder :: string

record WorkflowData =
  wd_ID :: string
  wd_Name :: string
  wd_Description :: string
  wd_Nodes :: "Node list"
  wd_Connections :: "Connection list"
  wd_Settings :: Settings
  wd_Tags :: "string list"

record WorkflowExport =
  wx_Version :: string
  wx_ExportedAt :: time
  wx_ExportedBy :: string
  wx_Workflow :: WorkflowData
  wx_Credentials :: "CredentialExport list"
  wx_Variables :: dict
  wx_Metadata :: dict

text \<open>The version of the code's documents, the field \<open>currentVersion\<close>.\<close>

definition currentVersion :: string where
  "currentVersion = ''1.0.0''"

definition jsonNode :: "Node \<Rightarrow> Node" where
  "jsonNode n = n\<lparr> n_Config := jsonDict (n_Config n) \<rparr>"

definition jsonSettings :: "Settings \<Rightarrow> Settings" where
  "jsonSettings st = st\<lparr> st_Metadata := jsonDict (st_Metadata st) \<rparr>"

definition credentialOf :: "Node \<Rightarrow> string option" where
  "credentialOf n = (case n_Config n ''credentialId'' of Some (VStr c) \<Rightarrow> (if c \<noteq> '''' then Some c else None) | _ \<Rightarrow> None)"

definition credentialExport :: "Node \<Rightarrow> string \<Rightarrow> CredentialExport" where
  "credentialExport n c = \<lparr> ce_ID = c, ce_Name = n_Name n @ ''_credential'',
     ce_Type = (case n_Config n ''credentialType'' of Some (VStr t) \<Rightarrow> t | _ \<Rightarrow> ''''), ce_NodeID = n_ID n,
     ce_Placeholder = ''{{credential:'' @ n_ID n @ ''}}'' \<rparr>"

fun extractCredentials :: "string set \<Rightarrow> Node list \<Rightarrow> CredentialExport list" where
  "extractCredentials seen [] = []"
| "extractCredentials seen (n # ns) =
     (case credentialOf n of
        None \<Rightarrow> extractCredentials seen ns
      | Some c \<Rightarrow> if c \<in> seen then extractCredentials seen ns
                  else credentialExport n c # extractCredentials (insert c seen) ns)"

definition exportOf :: "time \<Rightarrow> string \<Rightarrow> Workflow \<Rightarrow> WorkflowExport" where
  "exportOf now userID w =
     \<lparr> wx_Version = currentVersion, wx_ExportedAt = now, wx_ExportedBy = userID,
       wx_Workflow = \<lparr> wd_ID = w_id w, wd_Name = w_name w, wd_Description = w_description w, wd_Nodes = map jsonNode (w_nodes w),
         wd_Connections = w_connections w, wd_Settings = jsonSettings (w_settings w), wd_Tags = [] \<rparr>,
       wx_Credentials = extractCredentials {} (w_nodes w), wx_Variables = Map.empty, wx_Metadata = Map.empty \<rparr>"

datatype export_error = ErrUnsupportedFormat string | ErrNotADocument | ErrNewWorkflow WorkflowError | ErrDuplication "string list"

definition Export :: "time \<Rightarrow> ExportFormat \<Rightarrow> string \<Rightarrow> Workflow \<Rightarrow> export_error + WorkflowExport option" where
  "Export now format userID w =
     (case format of
        ExportFormatJSON \<Rightarrow> Inr (Some (exportOf now userID w))
      | ExportFormatYAML \<Rightarrow> Inr (Some (exportOf now userID w))
      | ExportFormatOther f \<Rightarrow> Inl (ErrUnsupportedFormat f))"

section \<open>Import\<close>

record ImportOptions =
  io_UserID :: string
  io_CredentialMapping :: "string \<Rightarrow> string option"
  io_VariableMapping :: "dict option"
  io_Prefix :: string

datatype warning =
    VersionMismatch string
  | NodeNotAdded string WorkflowError
  | ConnectionSkipped
  | ConnectionNotAdded WorkflowError
  | SettingsNotApplied WorkflowError

record ImportResult =
  ir_WorkflowID :: string
  ir_WorkflowName :: string
  ir_NodesImported :: int
  ir_ConnectionsImported :: int
  ir_CredentialsNeeded :: "CredentialExport list"
  ir_Warnings :: "warning list"
  ir_Success :: bool

text \<open>The name in a placeholder \<open>{{name}}\<close>.\<close>

definition placeholderName :: "string \<Rightarrow> string option" where
  "placeholderName v =
     (if length v \<ge> 4 \<and> HasPrefix v ''{{'' \<and> HasSuffix v ''}}'' then Some (take (length v - 4) (drop 2 v)) else None)"

primrec substitute :: "dict \<Rightarrow> value \<Rightarrow> value" where
  "substitute mapping VNil = VNil"
| "substitute mapping (VBool b) = VBool b"
| "substitute mapping (VInt i) = VInt i"
| "substitute mapping (VNum x) = VNum x"
| "substitute mapping (VStr s) =
     (case placeholderName s of
        None \<Rightarrow> VStr s
      | Some name \<Rightarrow> (case mapping name of None \<Rightarrow> VStr s | Some v \<Rightarrow> v))"
| "substitute mapping (VList vs) = VList vs"
| "substitute mapping (VMap m) = VMap (map_option (substitute mapping) \<circ> m)"

definition applyVariableMapping :: "dict \<Rightarrow> dict \<Rightarrow> dict" where
  "applyVariableMapping mapping config = map_option (substitute mapping) \<circ> config"

record Importing =
  im_workflow :: Workflow
  im_ids :: "string \<Rightarrow> string option"
  im_needed :: "CredentialExport list"
  im_warnings :: "warning list"
  im_nodes :: int
  im_connections :: int

text \<open>The credential of a node: mapped, or asked for.\<close>

definition importCredential ::
  "ImportOptions \<Rightarrow> CredentialExport list \<Rightarrow> Node \<Rightarrow> CredentialExport list \<Rightarrow> Node \<times> CredentialExport list" where
  "importCredential opt creds n needed =
     (case credentialOf n of
        None \<Rightarrow> (n, needed)
      | Some c \<Rightarrow>
        (case io_CredentialMapping opt c of
           Some m \<Rightarrow> (n\<lparr> n_Config := (n_Config n)(''credentialId'' \<mapsto> VStr m) \<rparr>, needed)
         | None \<Rightarrow>
           (case find (\<lambda>cred. ce_NodeID cred = n_ID n) creds of
              None \<Rightarrow> (n, needed)
            | Some cred \<Rightarrow> (n, needed @ [cred]))))"

definition importNode ::
  "ImportOptions \<Rightarrow> CredentialExport list \<Rightarrow> string \<Rightarrow> time \<Rightarrow> Node \<Rightarrow> Importing \<Rightarrow> Importing" where
  "importNode opt creds newNodeID now n st =
     (let (n1, needed) = importCredential opt creds n (im_needed st);
          config = (case io_VariableMapping opt of None \<Rightarrow> n_Config n1 | Some m \<Rightarrow> applyVariableMapping m (n_Config n1));
          newNode = \<lparr> n_ID = newNodeID, n_Type = n_Type n, n_Name = n_Name n, n_Description = n_Description n,
            n_Config = config, n_Position = n_Position n \<rparr>;
          st1 = st\<lparr> im_ids := (im_ids st)(n_ID n \<mapsto> newNodeID), im_needed := needed \<rparr>
      in case AddNode '''' now newNode (im_workflow st1) of
           Inl e \<Rightarrow> st1\<lparr> im_warnings := im_warnings st1 @ [NodeNotAdded (n_Name n) e] \<rparr>
         | Inr w \<Rightarrow> st1\<lparr> im_workflow := w, im_nodes := im_nodes st1 + 1 \<rparr>)"

fun importNodes ::
  "ImportOptions \<Rightarrow> CredentialExport list \<Rightarrow> (nat \<Rightarrow> string) \<Rightarrow> (nat \<Rightarrow> time) \<Rightarrow> nat \<Rightarrow> Node list \<Rightarrow> Importing \<Rightarrow> Importing" where
  "importNodes opt creds rnd clk k [] st = st"
| "importNodes opt creds rnd clk k (n # ns) st =
     importNodes opt creds rnd clk (k + 1) ns (importNode opt creds (rnd k) (clk k) n st)"

definition importConnection :: "string \<Rightarrow> time \<Rightarrow> Connection \<Rightarrow> Importing \<Rightarrow> Importing" where
  "importConnection newID now c st =
     (case (im_ids st (c_SourceNodeID c), im_ids st (c_TargetNodeID c)) of
        (Some source, Some target) \<Rightarrow>
          (case AddConnection '''' now \<lparr> c_ID = newID, c_SourceNodeID = source, c_TargetNodeID = target,
               c_SourcePort = c_SourcePort c, c_TargetPort = c_TargetPort c \<rparr> (im_workflow st) of
             Inl e \<Rightarrow> st\<lparr> im_warnings := im_warnings st @ [ConnectionNotAdded e] \<rparr>
           | Inr w \<Rightarrow> st\<lparr> im_workflow := w, im_connections := im_connections st + 1 \<rparr>)
      | _ \<Rightarrow> st\<lparr> im_warnings := im_warnings st @ [ConnectionSkipped] \<rparr>)"

fun importConnections :: "(nat \<Rightarrow> string) \<Rightarrow> (nat \<Rightarrow> time) \<Rightarrow> nat \<Rightarrow> Connection list \<Rightarrow> Importing \<Rightarrow> Importing" where
  "importConnections rnd clk k [] st = st"
| "importConnections rnd clk k (c # cs) st = importConnections rnd clk (k + 1) cs (importConnection (rnd k) (clk k) c st)"

definition importWorkflow ::
  "(nat \<Rightarrow> string) \<Rightarrow> (nat \<Rightarrow> time) \<Rightarrow> WorkflowExport option \<Rightarrow> ImportOptions \<Rightarrow> export_error + ImportResult \<times> Workflow" where
  "importWorkflow rnd clk doc opt =
     (case doc of
        None \<Rightarrow> Inl ErrNotADocument
      | Some x \<Rightarrow>
        let warnings = (if wx_Version x \<noteq> currentVersion then [VersionMismatch (wx_Version x)] else []);
            d = wx_Workflow x;
            name = (if io_Prefix opt \<noteq> '''' then io_Prefix opt @ '' '' @ wd_Name d else wd_Name d)
        in (case NewWorkflow (rnd 0) (clk 0) (clk 1) (io_UserID opt) name (wd_Description d) of
              Inl e \<Rightarrow> Inl (ErrNewWorkflow e)
            | Inr w0 \<Rightarrow>
              let st1 = importNodes opt (wx_Credentials x) rnd clk 2 (wd_Nodes d)
                    \<lparr> im_workflow = w0, im_ids = Map.empty, im_needed = [], im_warnings = warnings, im_nodes = 0, im_connections = 0 \<rparr>;
                  st2 = importConnections rnd clk (2 + length (wd_Nodes d)) (wd_Connections d) st1;
                  (w, ws) = (case UpdateSettings (clk (2 + length (wd_Nodes d) + length (wd_Connections d))) (wd_Settings d) (im_workflow st2) of
                      Inl e \<Rightarrow> (im_workflow st2, im_warnings st2 @ [SettingsNotApplied e])
                    | Inr w \<Rightarrow> (w, im_warnings st2))
              in Inr (\<lparr> ir_WorkflowID = w_id w, ir_WorkflowName = w_name w, ir_NodesImported = im_nodes st2,
                   ir_ConnectionsImported = im_connections st2, ir_CredentialsNeeded = im_needed st2, ir_Warnings = ws,
                   ir_Success = True \<rparr>, w)))"

definition Import ::
  "(nat \<Rightarrow> string) \<Rightarrow> (nat \<Rightarrow> time) \<Rightarrow> WorkflowExport option \<Rightarrow> ImportOptions \<Rightarrow> export_error + ImportResult" where
  "Import rnd clk doc opt = map_sum id fst (importWorkflow rnd clk doc opt)"

section \<open>Validation, duplication, many workflows\<close>

datatype validation_error = NotJSON | MissingVersion | MissingName | NoSourceNode string | NoTargetNode string
datatype validation_warning = NoNodes | NoTriggerNode

record ValidationResult =
  vr_Valid :: bool
  vr_Errors :: "validation_error list"
  vr_Warnings :: "validation_warning list"

fun connectionErrors :: "string set \<Rightarrow> Connection list \<Rightarrow> validation_error list" where
  "connectionErrors N [] = []"
| "connectionErrors N (c # cs) =
     (if c_SourceNodeID c \<notin> N then [NoSourceNode (c_SourceNodeID c)] else [])
     @ (if c_TargetNodeID c \<notin> N then [NoTargetNode (c_TargetNodeID c)] else []) @ connectionErrors N cs"

definition ValidateExport :: "WorkflowExport option \<Rightarrow> ValidationResult" where
  "ValidateExport doc =
     (case doc of
        None \<Rightarrow> \<lparr> vr_Valid = False, vr_Errors = [NotJSON], vr_Warnings = [] \<rparr>
      | Some x \<Rightarrow>
        let d = wx_Workflow x;
            e1 = (if wx_Version x = '''' then [MissingVersion] else []);
            e2 = (if wd_Name d = '''' then [MissingName] else []);
            w1 = (if wd_Nodes d = [] then [NoNodes] else []);
            w2 = (if \<not> list_ex (\<lambda>n. n_Type n = NodeTypeTrigger) (wd_Nodes d) then [NoTriggerNode] else []);
            e3 = connectionErrors (set (map n_ID (wd_Nodes d))) (wd_Connections d)
        in \<lparr> vr_Valid = (e1 = [] \<and> e2 = [] \<and> e3 = []), vr_Errors = e1 @ e2 @ e3, vr_Warnings = w1 @ w2 \<rparr>)"

text \<open>The nodes of a duplicate; an error of \<open>AddNode\<close> is not looked at.\<close>

fun duplicateNodes :: "(nat \<Rightarrow> string) \<Rightarrow> (nat \<Rightarrow> time) \<Rightarrow> nat \<Rightarrow> Node list \<Rightarrow> Workflow \<Rightarrow> Workflow" where
  "duplicateNodes rnd clk k [] w = w"
| "duplicateNodes rnd clk k (n # ns) w =
     duplicateNodes rnd clk (k + 1) ns
       (case AddNode '''' (clk k) (n\<lparr> n_ID := rnd k \<rparr>) w of Inl e \<Rightarrow> w | Inr w' \<Rightarrow> w')"

text \<open>The identifiers and times of the inner import are its own.\<close>

definition Duplicate ::
  "(nat \<Rightarrow> string) \<Rightarrow> (nat \<Rightarrow> time) \<Rightarrow> (nat \<Rightarrow> string) \<Rightarrow> (nat \<Rightarrow> time) \<Rightarrow> Workflow \<Rightarrow> string \<Rightarrow> string \<Rightarrow> export_error + Workflow" where
  "Duplicate rnd1 clk1 rnd clk w newName userID =
     (case Export (clk1 0) ExportFormatJSON userID w of
        Inl e \<Rightarrow> Inl e
      | Inr doc \<Rightarrow>
        (case Import rnd1 clk1 doc \<lparr> io_UserID = userID, io_CredentialMapping = Map.empty, io_VariableMapping = None, io_Prefix = '''' \<rparr> of
           Inl e \<Rightarrow> Inl e
         | Inr result \<Rightarrow>
           if \<not> ir_Success result then Inl (ErrDuplication [])
           else (case NewWorkflow (rnd 0) (clk 0) (clk 1) userID newName (w_description w) of
               Inl e \<Rightarrow> Inl (ErrNewWorkflow e)
             | Inr d \<Rightarrow> Inr (duplicateNodes rnd clk 2 (w_nodes w) d))))"

definition BulkExport :: "(nat \<Rightarrow> time) \<Rightarrow> Workflow list \<Rightarrow> string \<Rightarrow> WorkflowExport option list" where
  "BulkExport clk ws userID = map (\<lambda>(i, w). Some (exportOf (clk i) userID w)) (enumerate 0 ws)"

text \<open>An entry \<open>null\<close> is read as the zero document.\<close>

definition zeroExport :: WorkflowExport where
  "zeroExport = \<lparr> wx_Version = '''', wx_ExportedAt = 0, wx_ExportedBy = '''',
     wx_Workflow = \<lparr> wd_ID = '''', wd_Name = '''', wd_Description = '''', wd_Nodes = [], wd_Connections = [],
       wd_Settings = \<lparr> st_MaxExecutionTime = 0, st_RetryPolicy = \<lparr> rp_MaxAttempts = 0, rp_BackoffType = '''', rp_Delay = 0 \<rparr>,
         st_ErrorHandling = ErrorHandlingStop, st_Metadata = Map.empty \<rparr>, wd_Tags = [] \<rparr>,
     wx_Credentials = [], wx_Variables = Map.empty, wx_Metadata = Map.empty \<rparr>"

definition BulkImport ::
  "(nat \<Rightarrow> nat \<Rightarrow> string) \<Rightarrow> (nat \<Rightarrow> nat \<Rightarrow> time) \<Rightarrow> WorkflowExport option list option \<Rightarrow> ImportOptions
     \<Rightarrow> export_error + (export_error + ImportResult) list" where
  "BulkImport rnd clk docs opt =
     (case docs of
        None \<Rightarrow> Inl ErrNotADocument
      | Some xs \<Rightarrow> Inr (map (\<lambda>(i, x). Import (rnd i) (clk i) (Some (case x of None \<Rightarrow> zeroExport | Some d \<Rightarrow> d)) opt) (enumerate 0 xs)))"

section \<open>The credentials of a document\<close>

lemma credentialOf_jsonNode [simp]: "credentialOf (jsonNode n) = credentialOf n"
  by (simp add: credentialOf_def jsonNode_def jsonDict_def split: option.split "value.split")

lemma jsonNode_simps [simp]:
  "n_ID (jsonNode n) = n_ID n" "n_Type (jsonNode n) = n_Type n" "n_Name (jsonNode n) = n_Name n"
  "n_Description (jsonNode n) = n_Description n" "n_Position (jsonNode n) = n_Position n"
  by (simp_all add: jsonNode_def)

lemma extractCredentials_IDs:
  "ce_ID ` set (extractCredentials seen ns) = {c. \<exists>n \<in> set ns. credentialOf n = Some c} - seen"
  by (induction ns arbitrary: seen) (auto simp: credentialExport_def split: option.splits)

lemma extractCredentials_distinct: "distinct (map ce_ID (extractCredentials seen ns))"
  by (induction ns arbitrary: seen) (auto simp: credentialExport_def extractCredentials_IDs split: option.split)

lemma extractCredentials_NodeIDs: "ce_NodeID ` set (extractCredentials seen ns) \<subseteq> node_ids ns"
proof (induction ns arbitrary: seen)
  case (Cons n ns)
  show ?case
  proof (cases "credentialOf n")
    case None
    with Cons[of seen] show ?thesis
      by auto
  next
    case (Some c)
    with Cons[of seen] Cons[of "insert c seen"] show ?thesis
      by (auto simp: credentialExport_def)
  qed
qed simp

section \<open>Import of an export\<close>

definition plain :: "string \<Rightarrow> ImportOptions" where
  "plain userID = \<lparr> io_UserID = userID, io_CredentialMapping = Map.empty, io_VariableMapping = None, io_Prefix = '''' \<rparr>"

fun idMap :: "(nat \<Rightarrow> string) \<Rightarrow> nat \<Rightarrow> Node list \<Rightarrow> (string \<Rightarrow> string option) \<Rightarrow> string \<Rightarrow> string option" where
  "idMap rnd k [] m = m"
| "idMap rnd k (n # ns) m = idMap rnd (k + 1) ns (m(n_ID n \<mapsto> rnd k))"

lemma idMap_other: "x \<notin> node_ids ns \<Longrightarrow> idMap rnd k ns m x = m x"
  by (induction ns arbitrary: k m) auto

lemma idMap_nth: "distinct (map n_ID ns) \<Longrightarrow> i < length ns \<Longrightarrow> idMap rnd k ns m (n_ID (ns ! i)) = Some (rnd (k + i))"
proof (induction ns arbitrary: i k m)
  case (Cons n ns)
  then show ?case
    by (cases i) (auto simp: idMap_other)
qed simp

text \<open>The renaming of the nodes.\<close>

definition renaming :: "(nat \<Rightarrow> string) \<Rightarrow> Node list \<Rightarrow> string \<Rightarrow> string" where
  "renaming rnd ns x = the (idMap rnd 2 ns Map.empty x)"

lemma renaming_Some:
  assumes "distinct (map n_ID ns)" and "x \<in> node_ids ns"
  shows "idMap rnd 2 ns Map.empty x = Some (renaming rnd ns x)"
proof -
  obtain i where "i < length ns" "x = n_ID (ns ! i)"
    using assms(2) by (auto simp: in_set_conv_nth)
  with idMap_nth[OF assms(1)] show ?thesis
    by (simp add: renaming_def)
qed

lemma renaming_nth: "distinct (map n_ID ns) \<Longrightarrow> i < length ns \<Longrightarrow> renaming rnd ns (n_ID (ns ! i)) = rnd (2 + i)"
  by (simp add: renaming_def idMap_nth)

lemma renaming_inj:
  assumes "distinct (map n_ID ns)" and "inj rnd"
  shows "inj_on (renaming rnd ns) (node_ids ns)"
proof (rule inj_onI)
  fix x y assume "x \<in> node_ids ns" "y \<in> node_ids ns" and eq: "renaming rnd ns x = renaming rnd ns y"
  then obtain i j where "i < length ns" "x = n_ID (ns ! i)" "j < length ns" "y = n_ID (ns ! j)"
    by (auto simp: in_set_conv_nth)
  with eq show "x = y"
    using renaming_nth[OF assms(1)] injD[OF assms(2)] by (metis add_left_cancel)
qed

text \<open>What a node becomes, and where an import stands after some of them.\<close>

fun renumbered :: "(nat \<Rightarrow> string) \<Rightarrow> nat \<Rightarrow> Node list \<Rightarrow> Node list" where
  "renumbered rnd k [] = []"
| "renumbered rnd k (n # ns) = n\<lparr> n_ID := rnd k \<rparr> # renumbered rnd (k + 1) ns"

lemma renumbered_length [simp]: "length (renumbered rnd k ns) = length ns"
  by (induction ns arbitrary: k) auto

lemma renumbered_nth: "i < length ns \<Longrightarrow> renumbered rnd k ns ! i = (ns ! i)\<lparr> n_ID := rnd (k + i) \<rparr>"
  by (induction ns arbitrary: k i) (auto simp: nth_Cons split: nat.split)

lemma renumbered_renaming:
  assumes "distinct (map n_ID ns)"
  shows "renumbered rnd 2 ns = map (\<lambda>n. n\<lparr> n_ID := renaming rnd ns (n_ID n) \<rparr>) ns"
  by (rule nth_equalityI) (auto simp: renumbered_nth renaming_nth[OF assms])

definition receives :: "nat \<Rightarrow> Workflow \<Rightarrow> bool" where
  "receives k w \<longleftrightarrow> w_status w = WorkflowStatusDraft \<and> int (length (w_nodes w)) + int k \<le> w_maxNodes w"

lemma AddNode_receives:
  assumes "receives (Suc k) w" and "n_ID n \<notin> node_ids (w_nodes w)" and "n_ID n \<noteq> ''''"
  shows "\<exists>w'. AddNode fresh now n w = Inr w' \<and> receives k w' \<and> w_nodes w' = w_nodes w @ [n] \<and> w_connections w' = w_connections w
     \<and> w_settings w' = w_settings w \<and> w_name w' = w_name w \<and> w_id w' = w_id w"
  using assms by (auto simp: receives_def AddNode_def Let_def addEvent_def redraft_def)

lemma AddConnection_accepts:
  assumes "w_status w = WorkflowStatusDraft" and "c_SourceNodeID c \<in> node_ids (w_nodes w)" and "c_TargetNodeID c \<in> node_ids (w_nodes w)"
    and "port_key c \<notin> set (map port_key (w_connections w))"
  shows "\<exists>w'. AddConnection fresh now c w = Inr w' \<and> map port_key (w_connections w') = map port_key (w_connections w) @ [port_key c]
     \<and> w_nodes w' = w_nodes w \<and> w_status w' = WorkflowStatusDraft \<and> w_settings w' = w_settings w \<and> w_name w' = w_name w \<and> w_id w' = w_id w"
proof -
  have "\<not> list_ex (\<lambda>e. c_SourceNodeID e = c_SourceNodeID c \<and> c_TargetNodeID e = c_TargetNodeID c
       \<and> c_SourcePort e = c_SourcePort c \<and> c_TargetPort e = c_TargetPort c) (w_connections w)"
    using assms(4) by (auto simp: list_ex_iff port_key_def image_iff)
  with assms(1-3) show ?thesis
    by (auto simp: AddConnection_def Let_def addEvent_def redraft_def port_key_def)
qed

lemma importCredential_plain:
  "importCredential (plain u) creds n needed =
     (n, needed @ (case credentialOf n of None \<Rightarrow> []
        | Some c \<Rightarrow> (case find (\<lambda>cred. ce_NodeID cred = n_ID n) creds of None \<Rightarrow> [] | Some cred \<Rightarrow> [cred])))"
  by (simp add: importCredential_def plain_def split: option.split)

definition neededFor :: "CredentialExport list \<Rightarrow> Node list \<Rightarrow> CredentialExport list" where
  "neededFor creds ns = concat (map (\<lambda>n. case credentialOf n of None \<Rightarrow> []
        | Some c \<Rightarrow> (case find (\<lambda>cred. ce_NodeID cred = n_ID n) creds of None \<Rightarrow> [] | Some cred \<Rightarrow> [cred])) ns)"

text \<open>\<open>k\<close> more nodes can come; the node lists and the other fields grow by what was imported.\<close>

definition imported ::
  "nat \<Rightarrow> Importing \<Rightarrow> Node list \<Rightarrow> (string \<Rightarrow> string option) \<Rightarrow> CredentialExport list \<Rightarrow> int \<Rightarrow> Importing \<Rightarrow> bool" where
  "imported k st ns ids needed amount st' \<longleftrightarrow>
     receives k (im_workflow st') \<and> w_nodes (im_workflow st') = w_nodes (im_workflow st) @ ns
     \<and> w_connections (im_workflow st') = w_connections (im_workflow st) \<and> w_name (im_workflow st') = w_name (im_workflow st)
     \<and> im_ids st' = ids \<and> im_needed st' = im_needed st @ needed \<and> im_warnings st' = im_warnings st
     \<and> im_nodes st' = im_nodes st + amount \<and> im_connections st' = im_connections st"

lemma importNode_plain:
  assumes "receives (Suc k) (im_workflow st)" and "i \<notin> node_ids (w_nodes (im_workflow st))" and "i \<noteq> ''''"
  shows "imported k st [n\<lparr> n_ID := i \<rparr>] ((im_ids st)(n_ID n \<mapsto> i)) (neededFor creds [n]) 1 (importNode (plain u) creds i now n st)"
proof -
  obtain w where "AddNode '''' now (n\<lparr> n_ID := i \<rparr>) (im_workflow st) = Inr w" "receives k w"
      "w_nodes w = w_nodes (im_workflow st) @ [n\<lparr> n_ID := i \<rparr>]" "w_connections w = w_connections (im_workflow st)"
      "w_name w = w_name (im_workflow st)"
    using AddNode_receives[OF assms(1), of "n\<lparr> n_ID := i \<rparr>" "''''" now] assms(2,3) by auto
  moreover have same: "\<lparr> n_ID = i, n_Type = n_Type n, n_Name = n_Name n, n_Description = n_Description n, n_Config = n_Config n,
      n_Position = n_Position n \<rparr> = n\<lparr> n_ID := i \<rparr>"
    by (cases n) simp
  moreover have "io_VariableMapping (plain u) = None"
    by (simp add: plain_def)
  ultimately show ?thesis
    unfolding importNode_def importCredential_plain Let_def prod.case by (simp add: imported_def neededFor_def same)
qed

lemma importNodes_plain:
  assumes "receives (length ns) (im_workflow st)" and "inj rnd" and "\<forall>i. rnd i \<noteq> ''''"
    and "\<forall>i \<ge> k. rnd i \<notin> node_ids (w_nodes (im_workflow st))"
  shows "imported 0 st (renumbered rnd k ns) (idMap rnd k ns (im_ids st)) (neededFor creds ns) (int (length ns))
     (importNodes (plain u) creds rnd clk k ns st)"
  using assms(1,4)
proof (induction ns arbitrary: k st)
  case Nil
  then show ?case
    by (simp add: imported_def neededFor_def)
next
  case (Cons n ns)
  let ?st = "importNode (plain u) creds (rnd k) (clk k) n st"
  have w: "imported (length ns) st [n\<lparr> n_ID := rnd k \<rparr>] ((im_ids st)(n_ID n \<mapsto> rnd k)) (neededFor creds [n]) 1 ?st"
    using Cons.prems assms(3) by (intro importNode_plain) simp_all
  then have "w_nodes (im_workflow ?st) = w_nodes (im_workflow st) @ [n\<lparr> n_ID := rnd k \<rparr>]"
    unfolding imported_def by blast
  then have "\<forall>i \<ge> k + 1. rnd i \<notin> node_ids (w_nodes (im_workflow ?st))"
    using Cons.prems(2) inj_eq[OF assms(2)] by simp
  from Cons.IH[OF _ this]
  have "imported 0 ?st (renumbered rnd (k + 1) ns) (idMap rnd (k + 1) ns (im_ids ?st)) (neededFor creds ns) (int (length ns))
      (importNodes (plain u) creds rnd clk (k + 1) ns ?st)"
    using w unfolding imported_def by blast
  with w show ?case
    by (simp add: imported_def neededFor_def)
qed

text \<open>The credentials asked for are those of the document.\<close>

lemma neededFor_extract:
  assumes "distinct (map n_ID ns)" and "\<forall>c \<in> set before. ce_NodeID c \<notin> node_ids ns"
  shows "neededFor (before @ extractCredentials seen ns) (map jsonNode ns) = extractCredentials seen ns"
  using assms
proof (induction ns arbitrary: seen before)
  case Nil
  then show ?case
    by (simp add: neededFor_def)
next
  case (Cons n ns)
  let ?find = "\<lambda>creds. find (\<lambda>cred. ce_NodeID cred = n_ID n) creds"
  have none: "?find (before @ extractCredentials s ns) = None" for s
  proof -
    have "n_ID n \<notin> ce_NodeID ` set (extractCredentials s ns)"
      using Cons.prems(1) extractCredentials_NodeIDs[of s ns] by auto
    with Cons.prems(2) show ?thesis
      unfolding find_None_iff by (metis Un_iff image_eqI list.set_intros(1) set_append)
  qed
  have step: "neededFor creds (map jsonNode (n # ns)) = (case credentialOf n of None \<Rightarrow> []
        | Some c \<Rightarrow> (case ?find creds of None \<Rightarrow> [] | Some cred \<Rightarrow> [cred])) @ neededFor creds (map jsonNode ns)" for creds
    by (simp add: neededFor_def cong: option.case_cong)
  show ?case
  proof (cases "\<exists>c. credentialOf n = Some c \<and> c \<notin> seen")
    case True
    then obtain c where c: "credentialOf n = Some c" "c \<notin> seen" by blast
    let ?cred = "credentialExport n c"
    have "?find (before @ ?cred # extractCredentials (insert c seen) ns) = Some ?cred"
      using none[of seen] by (simp add: find_append credentialExport_def split: option.split_asm)
    moreover have "neededFor ((before @ [?cred]) @ extractCredentials (insert c seen) ns) (map jsonNode ns) = extractCredentials (insert c seen) ns"
      using Cons.prems by (intro Cons.IH) (auto simp: credentialExport_def)
    ultimately show ?thesis
      unfolding step using c by simp
  next
    case False
    then have "extractCredentials seen (n # ns) = extractCredentials seen ns"
      by (auto split: option.split)
    moreover have "neededFor (before @ extractCredentials seen ns) (map jsonNode ns) = extractCredentials seen ns"
      using Cons.prems by (intro Cons.IH) auto
    ultimately show ?thesis
      unfolding step using none[of seen] by (simp del: extractCredentials.simps split: option.split)
  qed
qed

text \<open>The connections, renamed.\<close>

definition renamed_key :: "(string \<Rightarrow> string) \<Rightarrow> Connection \<Rightarrow> string \<times> string \<times> string \<times> string" where
  "renamed_key r c = (r (c_SourceNodeID c), r (c_TargetNodeID c), c_SourcePort c, c_TargetPort c)"

lemma importConnections_renamed:
  assumes "\<forall>x \<in> N. im_ids st x = Some (r x)" and "inj_on r N" and "node_ids (w_nodes (im_workflow st)) = r ` N"
    and "endpoints_in N (before @ cs)" and "distinct (map port_key (before @ cs))"
    and "map port_key (w_connections (im_workflow st)) = map (renamed_key r) before"
    and "w_status (im_workflow st) = WorkflowStatusDraft"
  shows "let st' = importConnections rnd clk k cs st; w = im_workflow st' in
     map port_key (w_connections w) = map (renamed_key r) (before @ cs) \<and> w_nodes w = w_nodes (im_workflow st)
     \<and> w_status w = WorkflowStatusDraft \<and> w_name w = w_name (im_workflow st) \<and> im_needed st' = im_needed st
     \<and> im_warnings st' = im_warnings st \<and> im_nodes st' = im_nodes st \<and> im_connections st' = im_connections st + int (length cs)"
  using assms
proof (induction cs arbitrary: before st k)
  case Nil
  then show ?case
    by simp
next
  case (Cons c cs)
  let ?c = "\<lparr> c_ID = rnd k, c_SourceNodeID = r (c_SourceNodeID c), c_TargetNodeID = r (c_TargetNodeID c),
    c_SourcePort = c_SourcePort c, c_TargetPort = c_TargetPort c \<rparr>"
  have ends: "c_SourceNodeID c \<in> N" "c_TargetNodeID c \<in> N" "endpoints_in N before"
    using Cons.prems(4) by simp_all
  have "renamed_key r c \<noteq> renamed_key r b" if "b \<in> set before" for b
  proof
    assume "renamed_key r c = renamed_key r b"
    moreover have "c_SourceNodeID b \<in> N" "c_TargetNodeID b \<in> N"
      using that ends(3) by (simp_all add: endpoints_in_def)
    ultimately have "port_key c = port_key b"
      using inj_onD[OF Cons.prems(2)] ends by (simp add: renamed_key_def port_key_def)
    with that Cons.prems(5) show False
      by auto
  qed
  then have "renamed_key r c \<notin> set (map port_key (w_connections (im_workflow st)))"
    unfolding Cons.prems(6) by auto
  moreover have "port_key ?c = renamed_key r c"
    by (simp add: port_key_def renamed_key_def)
  ultimately obtain w where w: "AddConnection '''' (clk k) ?c (im_workflow st) = Inr w"
      "map port_key (w_connections w) = map port_key (w_connections (im_workflow st)) @ [renamed_key r c]"
      "w_nodes w = w_nodes (im_workflow st)" "w_status w = WorkflowStatusDraft" "w_name w = w_name (im_workflow st)"
    using AddConnection_accepts[of "im_workflow st" ?c "''''" "clk k"] ends Cons.prems(3,7) by auto
  let ?st = "importConnection (rnd k) (clk k) c st"
  have st: "?st = st\<lparr> im_workflow := w, im_connections := im_connections st + 1 \<rparr>"
    using w(1) ends Cons.prems(1) by (simp add: importConnection_def)
  have "let st' = importConnections rnd clk (k + 1) cs ?st; v = im_workflow st' in
     map port_key (w_connections v) = map (renamed_key r) ((before @ [c]) @ cs) \<and> w_nodes v = w_nodes (im_workflow ?st)
     \<and> w_status v = WorkflowStatusDraft \<and> w_name v = w_name (im_workflow ?st) \<and> im_needed st' = im_needed ?st
     \<and> im_warnings st' = im_warnings ?st \<and> im_nodes st' = im_nodes ?st \<and> im_connections st' = im_connections ?st + int (length cs)"
    by (rule Cons.IH) (use Cons.prems w in \<open>simp_all add: st\<close>)
  then show ?case
    by (simp add: st w Let_def)
qed

text \<open>An injective renaming keeps the cycles of a graph.\<close>

lemma trancl_image:
  assumes "inj_on r N" and "R \<subseteq> N \<times> N" and "(u, v) \<in> (map_prod r r ` R)\<^sup>+"
  shows "\<exists>a b. u = r a \<and> v = r b \<and> (a, b) \<in> R\<^sup>+"
  using assms(3)
proof (induction rule: trancl_induct)
  case (base v)
  then show ?case by auto
next
  case (step v w)
  then obtain a b c d where "u = r a" "v = r b" "(a, b) \<in> R\<^sup>+" and cd: "v = r c" "w = r d" "(c, d) \<in> R"
    by auto
  moreover from \<open>(a, b) \<in> R\<^sup>+\<close> have "b \<in> N"
    using assms(2) by (auto elim: tranclE)
  ultimately have "b = c"
    using assms(1,2) by (auto dest: inj_onD)
  with \<open>u = r a\<close> \<open>(a, b) \<in> R\<^sup>+\<close> cd show ?case
    by (auto intro: trancl_into_trancl)
qed

lemma acyclic_image:
  assumes "inj_on r N" and "R \<subseteq> N \<times> N"
  shows "acyclic (map_prod r r ` R) \<longleftrightarrow> acyclic R"
proof
  have "(r a, r b) \<in> (map_prod r r ` R)\<^sup>+" if "(a, b) \<in> R\<^sup>+" for a b
    using that by (induction rule: trancl_induct) (auto intro: trancl_into_trancl)
  then show "acyclic (map_prod r r ` R) \<Longrightarrow> acyclic R"
    by (auto simp: acyclic_def)
next
  assume "acyclic R"
  show "acyclic (map_prod r r ` R)"
    unfolding acyclic_def
  proof (intro allI notI)
    fix u assume "(u, u) \<in> (map_prod r r ` R)\<^sup>+"
    then obtain a b where ab: "u = r a" "u = r b" "(a, b) \<in> R\<^sup>+"
      using trancl_image[OF assms] by blast
    then have "a \<in> N" "b \<in> N"
      using assms(2) trancl_subset_Sigma[OF assms(2)] by auto
    with ab assms(1) have "a = b"
      by (auto dest: inj_onD)
    with ab(3) \<open>acyclic R\<close> show False
      by (simp add: acyclic_def)
  qed
qed

lemma edges_keys: "edges cs = (\<lambda>(s, t, p, q). (s, t)) ` set (map port_key cs)"
  by (force simp: edges_def port_key_def)

lemma edges_renamed:
  assumes "map port_key ds = map (renamed_key r) cs"
  shows "edges ds = map_prod r r ` edges cs"
  unfolding edges_keys[of ds] assms by (force simp: edges_def renamed_key_def)

lemma runnable_renamed:
  assumes "structure_inv w" and "inj_on r (node_ids (w_nodes w))"
    and "w_nodes v = map (\<lambda>n. (jsonNode n)\<lparr> n_ID := r (n_ID n) \<rparr>) (w_nodes w)"
    and "map port_key (w_connections v) = map (renamed_key r) (w_connections w)"
  shows "runnable v = runnable w"
proof -
  have "edges (w_connections w) \<subseteq> node_ids (w_nodes w) \<times> node_ids (w_nodes w)"
    using assms(1) by (simp add: structure_inv_def endpoints_in_edges)
  from acyclic_image[OF assms(2) this] show ?thesis
    unfolding runnable_def edges_renamed[OF assms(4)] assms(3) by auto
qed

text \<open>The two loops of an import, on the nodes and connections of an exported workflow.\<close>

definition importLoops :: "(nat \<Rightarrow> string) \<Rightarrow> (nat \<Rightarrow> time) \<Rightarrow> string \<Rightarrow> Workflow \<Rightarrow> Workflow \<Rightarrow> Importing" where
  "importLoops rnd clk userID w w0 =
     importConnections rnd clk (2 + length (w_nodes w)) (w_connections w)
       (importNodes (plain userID) (extractCredentials {} (w_nodes w)) rnd clk 2 (map jsonNode (w_nodes w))
          \<lparr> im_workflow = w0, im_ids = Map.empty, im_needed = [], im_warnings = [], im_nodes = 0, im_connections = 0 \<rparr>)"

lemma importLoops_copy:
  fixes w rnd
  defines "r \<equiv> renaming rnd (map jsonNode (w_nodes w))"
  assumes "structure_inv w" and "w_maxNodes w \<le> 100" and "inj rnd" and "\<forall>i. rnd i \<noteq> ''''"
    and w0: "w_nodes w0 = []" "w_connections w0 = []" "w_status w0 = WorkflowStatusDraft" "w_maxNodes w0 = 100"
  shows "inj_on r (node_ids (w_nodes w))
     \<and> w_nodes (im_workflow (importLoops rnd clk u w w0)) = map (\<lambda>n. (jsonNode n)\<lparr> n_ID := r (n_ID n) \<rparr>) (w_nodes w)
     \<and> map port_key (w_connections (im_workflow (importLoops rnd clk u w w0))) = map (renamed_key r) (w_connections w)
     \<and> w_status (im_workflow (importLoops rnd clk u w w0)) = WorkflowStatusDraft
     \<and> im_needed (importLoops rnd clk u w w0) = extractCredentials {} (w_nodes w) \<and> im_warnings (importLoops rnd clk u w w0) = []
     \<and> im_nodes (importLoops rnd clk u w w0) = int (length (w_nodes w))
     \<and> im_connections (importLoops rnd clk u w w0) = int (length (w_connections w))"
proof -
  let ?ns = "map jsonNode (w_nodes w)" and ?N = "node_ids (w_nodes w)" and ?cs = "w_connections w"
  let ?creds = "extractCredentials {} (w_nodes w)"
  let ?st0 = "\<lparr> im_workflow = w0, im_ids = Map.empty, im_needed = [], im_warnings = [], im_nodes = 0, im_connections = 0 \<rparr>"
  have ids: "map n_ID ?ns = map n_ID (w_nodes w)" and N: "node_ids ?ns = ?N"
    by (simp_all add: image_image)
  have inv: "distinct (map n_ID ?ns)" "endpoints_in ?N ?cs" "distinct (map port_key ?cs)" "length ?ns \<le> 100"
    using assms(2,3) unfolding ids by (simp_all add: structure_inv_def)
  define st1 where "st1 = importNodes (plain u) ?creds rnd clk 2 ?ns ?st0"
  have "imported 0 ?st0 (renumbered rnd 2 ?ns) (idMap rnd 2 ?ns (im_ids ?st0)) (neededFor ?creds ?ns) (int (length ?ns)) st1"
    unfolding st1_def using inv(4) assms(4,5) w0 by (intro importNodes_plain) (simp_all add: receives_def)
  moreover have "neededFor ?creds ?ns = ?creds"
    using neededFor_extract[of "w_nodes w" "[]" "{}"] inv(1) by (simp add: comp_def)
  moreover have "renumbered rnd 2 ?ns = map (\<lambda>n. (jsonNode n)\<lparr> n_ID := r (n_ID n) \<rparr>) (w_nodes w)"
    unfolding renumbered_renaming[OF inv(1)] r_def by simp
  ultimately have st1: "w_nodes (im_workflow st1) = map (\<lambda>n. (jsonNode n)\<lparr> n_ID := r (n_ID n) \<rparr>) (w_nodes w)"
      "w_connections (im_workflow st1) = []" "w_status (im_workflow st1) = WorkflowStatusDraft"
      "im_ids st1 = idMap rnd 2 ?ns Map.empty" "im_needed st1 = ?creds" "im_warnings st1 = []"
      "im_nodes st1 = int (length ?ns)" "im_connections st1 = 0"
    using w0 by (simp_all add: imported_def receives_def)
  have inj: "inj_on r ?N"
    using renaming_inj[OF inv(1) assms(4)] unfolding r_def N .
  have "let st' = importConnections rnd clk (2 + length (w_nodes w)) ?cs st1; v = im_workflow st' in
     map port_key (w_connections v) = map (renamed_key r) ([] @ ?cs) \<and> w_nodes v = w_nodes (im_workflow st1)
     \<and> w_status v = WorkflowStatusDraft \<and> w_name v = w_name (im_workflow st1) \<and> im_needed st' = im_needed st1
     \<and> im_warnings st' = im_warnings st1 \<and> im_nodes st' = im_nodes st1 \<and> im_connections st' = im_connections st1 + int (length ?cs)"
  proof (rule importConnections_renamed[OF _ inj])
    show "\<forall>x \<in> ?N. im_ids st1 x = Some (r x)"
      using renaming_Some[OF inv(1)] unfolding N st1(4) r_def by blast
    show "node_ids (w_nodes (im_workflow st1)) = r ` ?N"
      by (simp add: st1(1) image_image)
  qed (use inv st1 in simp_all)
  with inj show ?thesis
    unfolding importLoops_def st1_def[symmetric] by (simp add: st1 Let_def)
qed

text \<open>C25: Exporting a workflow and importing the document rebuilds it: every node and every connection arrives, without a
  warning, under new identifiers that keep the graph (so the copy can be activated exactly when the original could), with the
  settings as JSON carries them; and the import asks for exactly the credentials that the nodes use, each once.\<close>

theorem import_of_export:
  assumes "workflow_inv w" and "w_maxNodes w \<le> 100" and "w_name w \<noteq> ''''" and "userID \<noteq> ''''"
    and "inj rnd" and "\<forall>i. rnd i \<noteq> ''''"
  shows "\<exists>r result v. importWorkflow rnd clk (Some (exportOf now by_user w)) (plain userID) = Inr (result, v)
     \<and> inj_on r (node_ids (w_nodes w)) \<and> w_nodes v = map (\<lambda>n. (jsonNode n)\<lparr> n_ID := r (n_ID n) \<rparr>) (w_nodes w)
     \<and> map port_key (w_connections v) = map (renamed_key r) (w_connections w) \<and> w_settings v = jsonSettings (w_settings w)
     \<and> runnable v = runnable w \<and> ir_Warnings result = [] \<and> ir_NodesImported result = int (length (w_nodes w))
     \<and> ir_ConnectionsImported result = int (length (w_connections w))
     \<and> ce_ID ` set (ir_CredentialsNeeded result) = {c. \<exists>n \<in> set (w_nodes w). credentialOf n = Some c}
     \<and> distinct (map ce_ID (ir_CredentialsNeeded result))"
proof -
  let ?r = "renaming rnd (map jsonNode (w_nodes w))"
  obtain w0 where w0: "NewWorkflow (rnd 0) (clk 0) (clk 1) userID (w_name w) (w_description w) = Inr w0"
      "w_nodes w0 = []" "w_connections w0 = []" "w_status w0 = WorkflowStatusDraft" "w_maxNodes w0 = 100"
    using assms(3,4) by (simp add: NewWorkflow_def addEvent_def)
  have s: "structure_inv w"
    using assms(1) by (simp add: workflow_inv_def)
  note copy = importLoops_copy[OF s assms(2,5,6) w0(2-5), where clk = clk and u = userID]
  let ?st = "importLoops rnd clk userID w w0" and ?t = "clk (2 + length (w_nodes w) + length (w_connections w))"
  define v where "v = addEvent (WorkflowSettingsUpdatedEvent (w_id (im_workflow ?st)) (jsonSettings (w_settings w)) ?t)
     ((im_workflow ?st)\<lparr> w_settings := jsonSettings (w_settings w), w_updatedAt := ?t \<rparr>)"
  have v: "w_nodes v = w_nodes (im_workflow ?st)" "w_connections v = w_connections (im_workflow ?st)"
      "w_settings v = jsonSettings (w_settings w)"
    by (simp_all add: v_def addEvent_def)
  define result where "result = \<lparr> ir_WorkflowID = w_id v, ir_WorkflowName = w_name v,
     ir_NodesImported = int (length (w_nodes w)), ir_ConnectionsImported = int (length (w_connections w)),
     ir_CredentialsNeeded = extractCredentials {} (w_nodes w), ir_Warnings = [], ir_Success = True \<rparr>"
  have "importWorkflow rnd clk (Some (exportOf now by_user w)) (plain userID) = Inr (result, v)"
    using copy w0(1) unfolding importLoops_def result_def v_def
    by (simp add: importWorkflow_def exportOf_def Let_def plain_def UpdateSettings_def)
  moreover have "runnable v = runnable w"
    using copy v by (intro runnable_renamed[OF s, of ?r]) simp_all
  ultimately show ?thesis
    using copy v extractCredentials_IDs[of "{}" "w_nodes w"] extractCredentials_distinct[of "{}" "w_nodes w"]
    by (intro exI[of _ ?r] exI[of _ result] exI[of _ v]) (simp add: result_def)
qed

section \<open>Validation and duplicates\<close>

lemma connectionErrors_Nil: "connectionErrors N cs = [] \<longleftrightarrow> endpoints_in N cs"
  by (induction cs) auto

text \<open>A document is valid exactly when it has a version and a name and its connections join its nodes.\<close>

lemma ValidateExport_iff:
  "vr_Valid (ValidateExport doc) \<longleftrightarrow> (case doc of None \<Rightarrow> False
     | Some x \<Rightarrow> wx_Version x \<noteq> '''' \<and> wd_Name (wx_Workflow x) \<noteq> ''''
         \<and> endpoints_in (node_ids (wd_Nodes (wx_Workflow x))) (wd_Connections (wx_Workflow x)))"
  by (auto simp: ValidateExport_def Let_def connectionErrors_Nil split: option.split)

lemma export_validates:
  assumes "workflow_inv w" and "w_name w \<noteq> ''''"
  shows "vr_Valid (ValidateExport (Some (exportOf now u w)))"
  using assms by (simp add: ValidateExport_iff exportOf_def currentVersion_def workflow_inv_def structure_inv_def image_image)

lemma duplicateNodes_all:
  assumes "receives (length ns) w" and "inj rnd" and "\<forall>i. rnd i \<noteq> ''''" and "\<forall>i \<ge> k. rnd i \<notin> node_ids (w_nodes w)"
  shows "w_nodes (duplicateNodes rnd clk k ns w) = w_nodes w @ renumbered rnd k ns
     \<and> w_connections (duplicateNodes rnd clk k ns w) = w_connections w \<and> w_settings (duplicateNodes rnd clk k ns w) = w_settings w
     \<and> w_name (duplicateNodes rnd clk k ns w) = w_name w"
  using assms(1,4)
proof (induction ns arbitrary: k w)
  case (Cons n ns)
  then obtain v where v: "AddNode '''' (clk k) (n\<lparr> n_ID := rnd k \<rparr>) w = Inr v" "receives (length ns) v"
      "w_nodes v = w_nodes w @ [n\<lparr> n_ID := rnd k \<rparr>]" "w_connections v = w_connections w" "w_settings v = w_settings w" "w_name v = w_name w"
    using AddNode_receives[of "length ns" w "n\<lparr> n_ID := rnd k \<rparr>" "''''" "clk k"] assms(3) by auto
  have "\<forall>i \<ge> k + 1. rnd i \<notin> node_ids (w_nodes v)"
    using Cons.prems(2) inj_eq[OF assms(2)] by (simp add: v(3))
  from Cons.IH[OF v(2) this] show ?case
    by (simp add: v)
qed simp

lemma Import_succeeds:
  assumes "wd_Name (wx_Workflow x) \<noteq> ''''" and "userID \<noteq> ''''"
  shows "\<exists>result. Import rnd clk (Some x) (plain userID) = Inr result \<and> ir_Success result"
proof -
  obtain w0 where "NewWorkflow (rnd 0) (clk 0) (clk 1) userID (wd_Name (wx_Workflow x)) (wd_Description (wx_Workflow x)) = Inr w0"
    using assms by (simp add: NewWorkflow_def)
  then show ?thesis
    by (simp add: Import_def importWorkflow_def plain_def Let_def split: prod.split)
qed

text \<open>A duplicate is not a copy: it has the nodes of the workflow under new identifiers, but none of its connections, and the
  default settings in place of its own.\<close>

theorem duplicate_loses_connections:
  assumes "length (w_nodes w) \<le> 100" and "w_name w \<noteq> ''''" and "userID \<noteq> ''''" and "newName \<noteq> ''''"
    and "inj rnd" and "\<forall>i. rnd i \<noteq> ''''"
  shows "\<exists>d. Duplicate rnd1 clk1 rnd clk w newName userID = Inr d \<and> w_name d = newName
     \<and> w_nodes d = renumbered rnd 2 (w_nodes w) \<and> w_connections d = [] \<and> w_settings d = DefaultSettings"
proof -
  obtain result where "Import rnd1 clk1 (Some (exportOf (clk1 0) userID w)) (plain userID) = Inr result" "ir_Success result"
    using Import_succeeds[of "exportOf (clk1 0) userID w" userID rnd1 clk1] assms(2,3) by (auto simp: exportOf_def)
  moreover obtain d where d: "NewWorkflow (rnd 0) (clk 0) (clk 1) userID newName (w_description w) = Inr d" "receives 100 d"
      "w_nodes d = []" "w_connections d = []" "w_settings d = DefaultSettings" "w_name d = newName"
    using assms(3,4) by (simp add: NewWorkflow_def addEvent_def receives_def)
  moreover have "receives (length (w_nodes w)) d"
    using d(2) assms(1) by (simp add: receives_def)
  then have "w_nodes (duplicateNodes rnd clk 2 (w_nodes w) d) = renumbered rnd 2 (w_nodes w)
      \<and> w_connections (duplicateNodes rnd clk 2 (w_nodes w) d) = [] \<and> w_settings (duplicateNodes rnd clk 2 (w_nodes w) d) = DefaultSettings
      \<and> w_name (duplicateNodes rnd clk 2 (w_nodes w) d) = newName"
    using duplicateNodes_all[of "w_nodes w" d rnd 2 clk] assms(5,6) d by simp
  ultimately show ?thesis
    by (simp add: Duplicate_def Export_def plain_def[symmetric])
qed

section \<open>Examples\<close>

definition exported_node :: "string \<Rightarrow> NodeType \<Rightarrow> Node" where
  "exported_node i t = \<lparr> n_ID = i, n_Type = t, n_Name = i, n_Description = '''', n_Config = [''credentialId'' \<mapsto> VStr ''key''],
     n_Position = \<lparr> p_X = 0, p_Y = 0 \<rparr> \<rparr>"

definition sample_export :: Workflow where
  "sample_export = ReconstructWorkflow ''w'' ''u'' ''flow'' '''' WorkflowStatusDraft
     [exported_node ''a'' NodeTypeTrigger, exported_node ''b'' NodeTypeAction]
     [\<lparr> c_ID = ''c'', c_SourceNodeID = ''a'', c_TargetNodeID = ''b'', c_SourcePort = ''out'', c_TargetPort = ''in'' \<rparr>] DefaultSettings 1 0 0"

definition numbered :: "nat \<Rightarrow> string" where
  "numbered k = replicate (k + 1) (CHR ''x'')"

lemma numbered: "inj numbered" "\<forall>i. numbered i \<noteq> ''''"
  by (auto simp: numbered_def inj_def dest: arg_cong[where f = length])

lemma sample_export_inv: "workflow_inv sample_export"
  by (simp add: sample_export_def ReconstructWorkflow_def workflow_inv_def structure_inv_def exported_node_def port_key_def)

lemma import_of_export_witness:
  "\<exists>result v. importWorkflow numbered (\<lambda>_. 7) (Some (exportOf 5 ''me'' sample_export)) (plain ''u'') = Inr (result, v)
     \<and> length (w_nodes v) = 2 \<and> length (w_connections v) = 1 \<and> ir_Warnings result = []
     \<and> ce_ID ` set (ir_CredentialsNeeded result) = {''key''}"
proof -
  have nodes: "length (w_nodes sample_export) = 2" "length (w_connections sample_export) = 1"
      "{c. \<exists>n \<in> set (w_nodes sample_export). credentialOf n = Some c} = {''key''}"
    by (auto simp: sample_export_def ReconstructWorkflow_def exported_node_def credentialOf_def)
  from import_of_export[OF sample_export_inv _ _ _ numbered, of "''u''" "\<lambda>_. 7" 5 "''me''"] obtain r result v where
    "importWorkflow numbered (\<lambda>_. 7) (Some (exportOf 5 ''me'' sample_export)) (plain ''u'') = Inr (result, v)"
    "w_nodes v = map (\<lambda>n. (jsonNode n)\<lparr> n_ID := r (n_ID n) \<rparr>) (w_nodes sample_export)"
    "map port_key (w_connections v) = map (renamed_key r) (w_connections sample_export)" "ir_Warnings result = []"
    "ce_ID ` set (ir_CredentialsNeeded result) = {c. \<exists>n \<in> set (w_nodes sample_export). credentialOf n = Some c}"
    by (auto simp: sample_export_def ReconstructWorkflow_def)
  with nodes show ?thesis
    by (metis length_map)
qed

lemma duplicate_loses_connections_witness:
  "\<exists>d. Duplicate numbered (\<lambda>_. 7) numbered (\<lambda>_. 8) sample_export ''copy'' ''u'' = Inr d \<and> length (w_nodes d) = 2 \<and> w_connections d = []"
  using duplicate_loses_connections[of sample_export "''u''" "''copy''" numbered numbered "\<lambda>_. 7" "\<lambda>_. 8"] numbered
  by (auto simp: sample_export_def ReconstructWorkflow_def)

end
