(* ===== verification/Workflow_Service.thy ===== *)
theory Workflow_Service
  imports Import_Export Versioned_Store
begin

text \<open>
  The service of workflows (\<open>internal/workflow/app/service/workflow_service.go\<close>), the domain service
  (\<open>internal/workflow/domain/service/domainservice/workflow_domain_service.go\<close>) and their table
  (\<open>internal/workflow/adapters/repository/postgres/workflow_repository.go\<close>). A row is the workflow that reading it back
  gives: its maps have been through JSON, it has no tags and no events. \<open>db k\<close> is the answer of the database to the
  \<open>k\<close>-th call: \<open>Some e\<close> is an error, and then nothing is read or written.
\<close>

section \<open>The table\<close>

record WorkflowTable =
  wt_rows :: "Workflow list"
  wt_events :: "WorkflowEvent list"

datatype workflow_service_error =
    ErrWorkflowNotFound
  | ErrNameExists
  | ErrWorkflowExists
  | ErrOptimisticLock
  | ErrDB string
  | ErrDomain WorkflowError
  | ErrMustBeActive
  | ErrNoTriggerNode
  | ErrNodeConfig string string
  | ErrNoIncoming string
  | ErrMergeOne
  | ErrMergeUser

text \<open>The row of a workflow, as \<open>FindByID\<close> reads it.\<close>

definition stored :: "Workflow \<Rightarrow> Workflow" where
  "stored w = ReconstructWorkflow (w_id w) (w_userID w) (w_name w) (w_description w) (w_status w) (map jsonNode (w_nodes w))
     (w_connections w) (jsonSettings (w_settings w)) (w_version w) (w_createdAt w) (w_updatedAt w)"

definition Workflow_FindByID :: "string \<Rightarrow> WorkflowTable \<Rightarrow> Workflow option" where
  "Workflow_FindByID i t = find (\<lambda>r. w_id r = i) (wt_rows t)"

definition saveEvents :: "Workflow \<Rightarrow> WorkflowTable \<Rightarrow> WorkflowTable" where
  "saveEvents w t = t\<lparr> wt_events := wt_events t @ w_events w \<rparr>"

definition Workflow_Save :: "string option \<Rightarrow> Workflow \<Rightarrow> WorkflowTable \<Rightarrow> workflow_service_error + WorkflowTable" where
  "Workflow_Save err w t =
     (case err of
        Some e \<Rightarrow> Inl (ErrDB e)
      | None \<Rightarrow> if list_ex (\<lambda>r. w_id r = w_id w) (wt_rows t) then Inl ErrWorkflowExists
                else Inr (saveEvents w (t\<lparr> wt_rows := wt_rows t @ [stored w] \<rparr>)))"

text \<open>The statement writes the version after the one it expects, and expects the version of the copy.\<close>

definition Workflow_Update :: "string option \<Rightarrow> Workflow \<Rightarrow> WorkflowTable \<Rightarrow> workflow_service_error + WorkflowTable" where
  "Workflow_Update err w t =
     (case err of
        Some e \<Rightarrow> Inl (ErrDB e)
      | None \<Rightarrow>
        let hit = (\<lambda>r. w_id r = w_id w \<and> w_version r = w_version w) in
        if \<not> list_ex hit (wt_rows t) then Inl ErrOptimisticLock
        else Inr (saveEvents w (t\<lparr> wt_rows := map (\<lambda>r. if hit r
               then (stored w)\<lparr> w_version := w_version w + 1, w_userID := w_userID r, w_createdAt := w_createdAt r \<rparr> else r)
             (wt_rows t) \<rparr>)))"

definition Workflow_Delete :: "string \<Rightarrow> WorkflowTable \<Rightarrow> workflow_service_error + WorkflowTable" where
  "Workflow_Delete i t =
     (if list_ex (\<lambda>r. w_id r = i) (wt_rows t) then Inr (t\<lparr> wt_rows := filter (\<lambda>r. w_id r \<noteq> i) (wt_rows t) \<rparr>) else Inl ErrWorkflowNotFound)"

definition live :: "string \<Rightarrow> WorkflowTable \<Rightarrow> Workflow list" where
  "live userID t = filter (\<lambda>r. w_userID r = userID \<and> w_status r \<noteq> WorkflowStatusArchived) (wt_rows t)"

definition FindByUserID :: "string \<Rightarrow> nat \<Rightarrow> nat \<Rightarrow> WorkflowTable \<Rightarrow> Workflow list" where
  "FindByUserID userID offset limit t = take limit (drop offset (sort_key (\<lambda>r. - w_updatedAt r) (live userID t)))"

definition Workflow_Count :: "string \<Rightarrow> WorkflowTable \<Rightarrow> int" where
  "Workflow_Count userID t = int (length (live userID t))"

definition ExistsByName :: "string \<Rightarrow> string \<Rightarrow> WorkflowTable \<Rightarrow> bool" where
  "ExistsByName userID name t = list_ex (\<lambda>r. w_userID r = userID \<and> w_name r = name \<and> w_status r \<noteq> WorkflowStatusArchived) (wt_rows t)"

text \<open>\<open>FindActive\<close> runs its query and reads none of the rows.\<close>

definition FindActive :: "nat \<Rightarrow> nat \<Rightarrow> WorkflowTable \<Rightarrow> Workflow list" where
  "FindActive offset limit t = []"

section \<open>The service\<close>

type_synonym db_answers = "nat \<Rightarrow> string option"

record CreateWorkflowCommand =
  cw_UserID :: string
  cw_Name :: string
  cw_Description :: string
  cw_Nodes :: "Node list"
  cw_Connections :: "Connection list"

fun addNodes :: "(nat \<Rightarrow> string) \<Rightarrow> (nat \<Rightarrow> time) \<Rightarrow> nat \<Rightarrow> Node list \<Rightarrow> Workflow \<Rightarrow> WorkflowError + Workflow" where
  "addNodes rnd clk k [] w = Inr w"
| "addNodes rnd clk k (n # ns) w = (case AddNode (rnd k) (clk k) n w of Inl e \<Rightarrow> Inl e | Inr w' \<Rightarrow> addNodes rnd clk (k + 1) ns w')"

fun addConnections :: "(nat \<Rightarrow> string) \<Rightarrow> (nat \<Rightarrow> time) \<Rightarrow> nat \<Rightarrow> Connection list \<Rightarrow> Workflow \<Rightarrow> WorkflowError + Workflow" where
  "addConnections rnd clk k [] w = Inr w"
| "addConnections rnd clk k (c # cs) w =
     (case AddConnection (rnd k) (clk k) c w of Inl e \<Rightarrow> Inl e | Inr w' \<Rightarrow> addConnections rnd clk (k + 1) cs w')"

text \<open>Both loops, one after the other.\<close>

definition addGraph ::
  "(nat \<Rightarrow> string) \<Rightarrow> (nat \<Rightarrow> time) \<Rightarrow> nat \<Rightarrow> Node list \<Rightarrow> Connection list \<Rightarrow> Workflow \<Rightarrow> WorkflowError + Workflow" where
  "addGraph rnd clk k ns cs w =
     (case addNodes rnd clk k ns w of Inl e \<Rightarrow> Inl e | Inr w1 \<Rightarrow> addConnections rnd clk (k + length ns) cs w1)"

definition CreateWorkflow ::
  "db_answers \<Rightarrow> (nat \<Rightarrow> string) \<Rightarrow> (nat \<Rightarrow> time) \<Rightarrow> CreateWorkflowCommand \<Rightarrow> WorkflowTable \<Rightarrow> (workflow_service_error + Workflow) \<times> WorkflowTable" where
  "CreateWorkflow db rnd clk cmd t =
     (case db 0 of
        Some e \<Rightarrow> (Inl (ErrDB e), t)
      | None \<Rightarrow>
        if ExistsByName (cw_UserID cmd) (cw_Name cmd) t then (Inl ErrNameExists, t)
        else (case NewWorkflow (rnd 0) (clk 0) (clk 1) (cw_UserID cmd) (cw_Name cmd) (cw_Description cmd) of
            Inl e \<Rightarrow> (Inl (ErrDomain e), t)
          | Inr w0 \<Rightarrow>
            (case addGraph rnd clk 2 (cw_Nodes cmd) (cw_Connections cmd) w0 of
               Inl e \<Rightarrow> (Inl (ErrDomain e), t)
             | Inr w \<Rightarrow>
               (case Workflow_Save (db 1) w t of
                  Inl e \<Rightarrow> (Inl e, t)
                | Inr t' \<Rightarrow> (Inr (MarkEventsAsCommitted w), t')))))"

definition load :: "string option \<Rightarrow> string \<Rightarrow> WorkflowTable \<Rightarrow> workflow_service_error + Workflow" where
  "load err i t =
     (case err of
        Some e \<Rightarrow> Inl (ErrDB e)
      | None \<Rightarrow> (case Workflow_FindByID i t of None \<Rightarrow> Inl ErrWorkflowNotFound | Some w \<Rightarrow> Inr w))"

definition GetWorkflow :: "db_answers \<Rightarrow> string \<Rightarrow> WorkflowTable \<Rightarrow> workflow_service_error + Workflow" where
  "GetWorkflow db i t = load (db 0) i t"

definition ListWorkflows :: "db_answers \<Rightarrow> string \<Rightarrow> nat \<Rightarrow> nat \<Rightarrow> WorkflowTable \<Rightarrow> workflow_service_error + Workflow list \<times> int" where
  "ListWorkflows db userID offset limit t =
     (case (db 0, db 1) of
        (None, None) \<Rightarrow> Inr (FindByUserID userID offset limit t, Workflow_Count userID t)
      | (Some e, _) \<Rightarrow> Inl (ErrDB e)
      | (None, Some e) \<Rightarrow> Inl (ErrDB e))"

text \<open>
  The loop that clears the nodes ranges over the slice of the nodes while \<open>RemoveNode\<close> shifts the elements of the array
  under it: \<open>arr\<close> is that array, whose first cells are the nodes of the workflow, and the loop reads cell \<open>i\<close> at its
  \<open>i\<close>-th turn. An error of \<open>RemoveNode\<close> is only logged.
\<close>

fun clearNodes :: "(nat \<Rightarrow> time) \<Rightarrow> nat list \<Rightarrow> Node list \<Rightarrow> Workflow \<Rightarrow> Workflow" where
  "clearNodes clk [] arr w = w"
| "clearNodes clk (i # turns) arr w =
     (case RemoveNode (clk i) (n_ID (arr ! i)) w of
        Inl e \<Rightarrow> clearNodes clk turns arr w
      | Inr w' \<Rightarrow> clearNodes clk turns (w_nodes w' @ drop (length (w_nodes w')) arr) w')"

record UpdateWorkflowCommand =
  uw_WorkflowID :: string
  uw_Name :: string
  uw_Description :: string
  uw_Nodes :: "Node list"
  uw_Connections :: "Connection list"

text \<open>A change that is made on a loaded workflow and written back.\<close>

definition writeBack ::
  "string option \<Rightarrow> (WorkflowError + Workflow) \<Rightarrow> WorkflowTable \<Rightarrow> (workflow_service_error + Workflow) \<times> WorkflowTable" where
  "writeBack err change t =
     (case change of
        Inl e \<Rightarrow> (Inl (ErrDomain e), t)
      | Inr w \<Rightarrow> (case Workflow_Update err w t of Inl e \<Rightarrow> (Inl e, t) | Inr t' \<Rightarrow> (Inr (MarkEventsAsCommitted w), t')))"

definition UpdateWorkflow ::
  "db_answers \<Rightarrow> (nat \<Rightarrow> string) \<Rightarrow> (nat \<Rightarrow> time) \<Rightarrow> UpdateWorkflowCommand \<Rightarrow> WorkflowTable \<Rightarrow> (workflow_service_error + Workflow) \<times> WorkflowTable" where
  "UpdateWorkflow db rnd clk cmd t =
     (case load (db 0) (uw_WorkflowID cmd) t of
        Inl e \<Rightarrow> (Inl e, t)
      | Inr w \<Rightarrow>
        let n = length (w_nodes w); w1 = clearNodes clk [0..<n] (w_nodes w) w
        in writeBack (db 1) (addGraph rnd clk n (uw_Nodes cmd) (uw_Connections cmd) w1) t)"

definition DeleteWorkflow :: "db_answers \<Rightarrow> time \<Rightarrow> string \<Rightarrow> WorkflowTable \<Rightarrow> (workflow_service_error + Workflow) \<times> WorkflowTable" where
  "DeleteWorkflow db now i t =
     (case load (db 0) i t of Inl e \<Rightarrow> (Inl e, t) | Inr w \<Rightarrow> writeBack (db 1) (Workflow_Archive now w) t)"

definition ActivateWorkflow :: "db_answers \<Rightarrow> time \<Rightarrow> string \<Rightarrow> WorkflowTable \<Rightarrow> (workflow_service_error + Workflow) \<times> WorkflowTable" where
  "ActivateWorkflow db now i t =
     (case load (db 0) i t of Inl e \<Rightarrow> (Inl e, t) | Inr w \<Rightarrow> writeBack (db 1) (Workflow_Activate now w) t)"

definition DeactivateWorkflow :: "db_answers \<Rightarrow> time \<Rightarrow> string \<Rightarrow> WorkflowTable \<Rightarrow> (workflow_service_error + Workflow) \<times> WorkflowTable" where
  "DeactivateWorkflow db now i t =
     (case load (db 0) i t of Inl e \<Rightarrow> (Inl e, t) | Inr w \<Rightarrow> writeBack (db 1) (Workflow_Deactivate now w) t)"

section \<open>The domain service\<close>

definition DuplicateWorkflow ::
  "db_answers \<Rightarrow> (nat \<Rightarrow> string) \<Rightarrow> (nat \<Rightarrow> time) \<Rightarrow> string \<Rightarrow> string \<Rightarrow> WorkflowTable \<Rightarrow> (workflow_service_error + Workflow) \<times> WorkflowTable" where
  "DuplicateWorkflow db rnd clk i newName t =
     (case load (db 0) i t of
        Inl e \<Rightarrow> (Inl e, t)
      | Inr source \<Rightarrow>
        (case NewWorkflow (rnd 0) (clk 0) (clk 1) (w_userID source) newName (w_description source) of
           Inl e \<Rightarrow> (Inl (ErrDomain e), t)
         | Inr d0 \<Rightarrow>
           (case addGraph rnd clk 2 (w_nodes source) (w_connections source) d0 of
              Inl e \<Rightarrow> (Inl (ErrDomain e), t)
            | Inr d1 \<Rightarrow>
              (case UpdateSettings (clk (2 + length (w_nodes source) + length (w_connections source))) (w_settings source) d1 of
                 Inl e \<Rightarrow> (Inl (ErrDomain e), t)
               | Inr d \<Rightarrow>
                 (case Workflow_Save (db 1) d t of
                    Inl e \<Rightarrow> (Inl e, t)
                  | Inr t' \<Rightarrow> (Inr (MarkEventsAsCommitted d), t'))))))"

text \<open>The error of a node's configuration; \<open>noConfig\<close> says that the map is nil.\<close>

definition validateNodeConfig :: "bool \<Rightarrow> Node \<Rightarrow> string option" where
  "validateNodeConfig noConfig n =
     (if n_ID n = '''' then Some ''node ID is required''
      else if n_Name n = '''' then Some ''node name is required''
      else (case n_Type n of
          NodeTypeTrigger \<Rightarrow> if noConfig then Some ''trigger node requires configuration'' else None
        | NodeTypeAction \<Rightarrow> if noConfig then Some ''action node requires configuration'' else None
        | NodeTypeCondition \<Rightarrow> if noConfig \<or> n_Config n ''condition'' = None \<or> n_Config n ''condition'' = Some VNil
            then Some ''condition node requires condition configuration'' else None
        | _ \<Rightarrow> None))"

fun checkConfigs :: "(Node \<Rightarrow> bool) \<Rightarrow> Node list \<Rightarrow> workflow_service_error option" where
  "checkConfigs noConfig [] = None"
| "checkConfigs noConfig (n # ns) =
     (case validateNodeConfig (noConfig n) n of Some e \<Rightarrow> Some (ErrNodeConfig (n_ID n) e) | None \<Rightarrow> checkConfigs noConfig ns)"

definition completeConnections :: "Workflow \<Rightarrow> workflow_service_error option" where
  "completeConnections w =
     (case checkEndpoints (set (map n_ID (w_nodes w))) (w_connections w) of
        Some e \<Rightarrow> Some (ErrDomain e)
      | None \<Rightarrow>
        (case find (\<lambda>n. n_Type n \<noteq> NodeTypeTrigger \<and> n_ID n \<notin> set (map c_TargetNodeID (w_connections w))) (w_nodes w) of
           Some n \<Rightarrow> Some (ErrNoIncoming (n_ID n))
         | None \<Rightarrow> None))"

definition ValidateWorkflowExecutability :: "db_answers \<Rightarrow> (Node \<Rightarrow> bool) \<Rightarrow> string \<Rightarrow> WorkflowTable \<Rightarrow> workflow_service_error option" where
  "ValidateWorkflowExecutability db noConfig i t =
     (case load (db 0) i t of
        Inl e \<Rightarrow> Some e
      | Inr w \<Rightarrow>
        if w_status w \<noteq> WorkflowStatusActive then Some ErrMustBeActive
        else if \<not> list_ex (\<lambda>n. n_Type n = NodeTypeTrigger) (w_nodes w) then Some ErrNoTriggerNode
        else (case checkConfigs noConfig (w_nodes w) of Some e \<Rightarrow> Some e | None \<Rightarrow> completeConnections w))"

fun loadSources :: "db_answers \<Rightarrow> nat \<Rightarrow> string list \<Rightarrow> Workflow list \<Rightarrow> WorkflowTable \<Rightarrow> workflow_service_error + Workflow list" where
  "loadSources db k [] sources t = Inr sources"
| "loadSources db k (i # is) sources t =
     (case load (db k) i t of
        Inl e \<Rightarrow> Inl e
      | Inr w \<Rightarrow> if sources \<noteq> [] \<and> w_userID w \<noteq> w_userID (hd sources) then Inl ErrMergeUser
                 else loadSources db (k + 1) is (sources @ [w]) t)"

definition mergedID :: "Workflow \<Rightarrow> string \<Rightarrow> string" where
  "mergedID source oldID = take 8 (w_id source) @ ''_'' @ oldID"

fun mergeNodes ::
  "(nat \<Rightarrow> time) \<Rightarrow> nat \<Rightarrow> (Workflow \<times> Node) list \<Rightarrow> (string \<Rightarrow> string option) \<Rightarrow> Workflow
     \<Rightarrow> WorkflowError + (string \<Rightarrow> string option) \<times> Workflow" where
  "mergeNodes clk k [] mapping w = Inr (mapping, w)"
| "mergeNodes clk k ((source, n) # ns) mapping w =
     (case AddNode '''' (clk k) (n\<lparr> n_ID := mergedID source (n_ID n) \<rparr>) w of
        Inl e \<Rightarrow> Inl e
      | Inr w' \<Rightarrow> mergeNodes clk (k + 1) ns (mapping(n_ID n \<mapsto> mergedID source (n_ID n))) w')"

definition remap :: "(string \<Rightarrow> string option) \<Rightarrow> Connection \<Rightarrow> Connection" where
  "remap mapping c =
     c\<lparr> c_SourceNodeID := (case mapping (c_SourceNodeID c) of Some i \<Rightarrow> i | None \<Rightarrow> c_SourceNodeID c),
        c_TargetNodeID := (case mapping (c_TargetNodeID c) of Some i \<Rightarrow> i | None \<Rightarrow> c_TargetNodeID c) \<rparr>"

text \<open>A connection that is refused is skipped.\<close>

fun mergeConnections :: "(nat \<Rightarrow> string) \<Rightarrow> (nat \<Rightarrow> time) \<Rightarrow> nat \<Rightarrow> (string \<Rightarrow> string option) \<Rightarrow> Connection list \<Rightarrow> Workflow \<Rightarrow> Workflow" where
  "mergeConnections rnd clk k mapping [] w = w"
| "mergeConnections rnd clk k mapping (c # cs) w =
     mergeConnections rnd clk (k + 1) mapping cs
       (case AddConnection (rnd k) (clk k) (remap mapping c) w of Inl e \<Rightarrow> w | Inr w' \<Rightarrow> w')"

definition mergeSources ::
  "(nat \<Rightarrow> string) \<Rightarrow> (nat \<Rightarrow> time) \<Rightarrow> Workflow list \<Rightarrow> Workflow \<Rightarrow> WorkflowError + Workflow" where
  "mergeSources rnd clk sources w =
     (let ns = concat (map (\<lambda>s. map (Pair s) (w_nodes s)) sources) in
      case mergeNodes clk 2 ns Map.empty w of
        Inl e \<Rightarrow> Inl e
      | Inr (mapping, w1) \<Rightarrow> Inr (mergeConnections rnd clk (2 + length ns) mapping (concat (map w_connections sources)) w1))"

definition MergeWorkflows ::
  "db_answers \<Rightarrow> (nat \<Rightarrow> string) \<Rightarrow> (nat \<Rightarrow> time) \<Rightarrow> string list \<Rightarrow> string \<Rightarrow> WorkflowTable \<Rightarrow> (workflow_service_error + Workflow) \<times> WorkflowTable" where
  "MergeWorkflows db rnd clk ids newName t =
     (if length ids < 2 then (Inl ErrMergeOne, t)
      else (case loadSources db 0 ids [] t of
          Inl e \<Rightarrow> (Inl e, t)
        | Inr sources \<Rightarrow>
          (case NewWorkflow (rnd 0) (clk 0) (clk 1) (w_userID (hd sources)) newName ''Merged workflow'' of
             Inl e \<Rightarrow> (Inl (ErrDomain e), t)
           | Inr w0 \<Rightarrow>
             (case mergeSources rnd clk sources w0 of
                Inl e \<Rightarrow> (Inl (ErrDomain e), t)
              | Inr w \<Rightarrow>
                (case Workflow_Save (db (length ids)) w t of
                   Inl e \<Rightarrow> (Inl e, t)
                 | Inr t' \<Rightarrow> (Inr (MarkEventsAsCommitted w), t'))))))"

section \<open>Clearing the nodes\<close>

text \<open>What the loop leaves: every other node, and of the last two none.\<close>

fun survivors :: "Node list \<Rightarrow> Node list" where
  "survivors (x # y # z # zs) = y # survivors (z # zs)"
| "survivors _ = []"

lemma RemoveNode_found:
  assumes "w_status w \<noteq> WorkflowStatusArchived" and "w_nodes w = before @ n # after" and "n_ID n \<notin> node_ids before"
  shows "\<exists>w'. RemoveNode now (n_ID n) w = Inr w' \<and> w_nodes w' = before @ after \<and> w_status w' \<noteq> WorkflowStatusArchived"
proof -
  have "nodeIndex (n_ID n) (before @ n # after) = Some (length before)"
    using assms(3) by (induction before) auto
  with assms(1,2) show ?thesis
    by (auto simp: RemoveNode_def addEvent_def redraft_def)
qed

lemma RemoveNode_missing:
  assumes "x \<notin> node_ids (w_nodes w)"
  shows "\<exists>e. RemoveNode now x w = Inl e"
  using assms nodeIndex_None[of x "w_nodes w"] by (auto simp: RemoveNode_def)

lemma clearNodes_done:
  assumes "n_ID z \<notin> node_ids (w_nodes w)" and "\<forall>i \<in> set turns. arr ! i = z"
  shows "clearNodes clk turns arr w = w"
  using assms(2)
proof (induction turns)
  case (Cons i turns)
  then show ?case
    using RemoveNode_missing[OF assms(1), of "clk i"] by auto
qed simp

lemma clearNodes_last:
  assumes "w_status w \<noteq> WorkflowStatusArchived" and "w_nodes w = before @ [z]" and "n_ID z \<notin> node_ids before"
    and "turns \<noteq> []" and "\<forall>i \<in> set turns. i \<ge> length before \<and> i < length arr" and "drop (length before) arr = replicate m z"
  shows "w_nodes (clearNodes clk turns arr w) = before"
proof -
  have z: "arr ! i = z" if "i \<in> set turns" for i
  proof -
    have i: "length before \<le> i" "i < length arr"
      using that assms(5) by auto
    have "m = length arr - length before"
      using assms(6) by (metis length_drop length_replicate)
    then have "replicate m z ! (i - length before) = z"
      using i by simp
    moreover have "drop (length before) arr ! (i - length before) = arr ! i"
      using i by simp
    ultimately show ?thesis
      unfolding assms(6) by simp
  qed
  obtain i rest where turns: "turns = i # rest"
    using assms(4) by (cases turns) auto
  obtain w' where w': "RemoveNode (clk i) (n_ID z) w = Inr w'" "w_nodes w' = before"
    using RemoveNode_found[OF assms(1), of before z "[]" "clk i"] assms(2,3) by auto
  let ?arr = "w_nodes w' @ drop (length (w_nodes w')) arr"
  have "?arr ! j = z" if "j \<in> set rest" for j
    using that z assms(5) w'(2) by (auto simp: turns nth_append)
  then have "clearNodes clk rest ?arr w' = w'"
    using clearNodes_done[of z w' rest ?arr clk] assms(3) w'(2) by simp
  with w' z show ?thesis
    by (simp add: turns)
qed

lemma drop_to_last: "xs \<noteq> [] \<Longrightarrow> drop (length xs - 1) (xs @ ys) = last xs # ys"
  by (induction xs rule: rev_induct) auto

lemma clearNodes_loop:
  assumes "w_status w \<noteq> WorkflowStatusArchived" and "w_nodes w = kept @ rest" and "distinct (map n_ID (kept @ rest))"
    and "rest \<noteq> []" and "arr = kept @ rest @ replicate m (last rest)" and "length rest \<le> n - length kept" and "n = length arr"
  shows "w_nodes (clearNodes clk [length kept..<n] arr w) = kept @ survivors rest"
  using assms
proof (induction rest arbitrary: kept arr w m rule: survivors.induct[case_names many none one two])
  case (many x y z zs)
  have turns: "[length kept..<n] = length kept # [length (kept @ [y])..<n]"
    using many(7,8) by (simp add: upt_conv_Cons)
  obtain w' where w': "RemoveNode (clk (length kept)) (n_ID x) w = Inr w'" "w_nodes w' = kept @ y # z # zs"
      "w_status w' \<noteq> WorkflowStatusArchived"
    using RemoveNode_found[OF many(2), of kept x "y # z # zs" "clk (length kept)"] many(3,4) by auto
  have "drop (length (w_nodes w')) arr = last (kept @ x # y # z # zs) # replicate m (last (x # y # z # zs))"
    using drop_to_last[of "kept @ x # y # z # zs" "replicate m (last (x # y # z # zs))"] unfolding many(6) w'(2) by simp
  then have arr: "arr ! length kept = x"
      "w_nodes w' @ drop (length (w_nodes w')) arr = (kept @ [y]) @ (z # zs) @ replicate (Suc m) (last (z # zs))"
    using many(6) w'(2) by simp_all
  have "w_nodes (clearNodes clk [length (kept @ [y])..<n] (w_nodes w' @ drop (length (w_nodes w')) arr) w') = (kept @ [y]) @ survivors (z # zs)"
  proof (rule many.IH[OF w'(3), where m = "Suc m"])
    show "w_nodes w' @ drop (length (w_nodes w')) arr = (kept @ [y]) @ (z # zs) @ replicate (Suc m) (last (z # zs))"
      by (rule arr(2))
    show "n = length (w_nodes w' @ drop (length (w_nodes w')) arr)"
      using many(6,8) w'(2) by simp
  qed (use many(4,7,8) w'(2) in auto)
  with w' show ?case
    by (simp add: turns arr(1))
next
  case (two x y)
  have n: "n > length kept + 1"
    using two by simp
  then have turns: "[length kept..<n] = length kept # [length kept + 1..<n]"
    by (simp add: upt_conv_Cons)
  obtain w' where w': "RemoveNode (clk (length kept)) (n_ID x) w = Inr w'" "w_nodes w' = kept @ [y]"
      "w_status w' \<noteq> WorkflowStatusArchived"
    using RemoveNode_found[OF two(1), of kept x "[y]" "clk (length kept)"] two(2,3) by auto
  have arr: "arr ! length kept = x" "w_nodes w' @ drop (length (w_nodes w')) arr = kept @ replicate (Suc (Suc m)) y"
    using two(5) w'(2) by auto
  have "w_nodes (clearNodes clk [length kept + 1..<n] (w_nodes w' @ drop (length (w_nodes w')) arr) w') = kept"
    by (rule clearNodes_last[OF w'(3) w'(2), where m = "Suc (Suc m)"]) (use two n arr(2) in auto)
  with w' show ?case
    by (simp add: turns arr(1))
next
  case (one x)
  have "w_nodes (clearNodes clk [length kept..<n] arr w) = kept"
    by (rule clearNodes_last[OF one(1,2), where m = "Suc m"]) (use one in auto)
  then show ?case
    by simp
qed simp

text \<open>The loop with which an update clears the nodes of a workflow does not clear them: it ranges over the slice while the
  removals shift its elements, so of the nodes 1, 2, 3, ... it removes 1, 3, 5, ... and the last, and the others stay.\<close>

theorem update_keeps_every_other_node:
  assumes "w_status w \<noteq> WorkflowStatusArchived" and "distinct (map n_ID (w_nodes w))"
  shows "w_nodes (clearNodes clk [0..<length (w_nodes w)] (w_nodes w) w) = survivors (w_nodes w)
     \<and> length (survivors (w_nodes w)) = (length (w_nodes w) - 1) div 2"
proof -
  have "length (survivors xs) = (length xs - 1) div 2" for xs
    by (induction xs rule: survivors.induct) auto
  moreover have "w_nodes (clearNodes clk [0..<length (w_nodes w)] (w_nodes w) w) = survivors (w_nodes w)"
    using clearNodes_loop[of w "[]" "w_nodes w" "w_nodes w" 0 "length (w_nodes w)" clk] assms
    by (cases "w_nodes w = []") auto
  ultimately show ?thesis
    by simp
qed

section \<open>The table keeps what was saved first\<close>

text \<open>The identifier is the key of the table, and a row is read back as it is.\<close>

definition table_inv :: "WorkflowTable \<Rightarrow> bool" where
  "table_inv t \<longleftrightarrow> distinct (map w_id (wt_rows t)) \<and> (\<forall>r \<in> set (wt_rows t). stored r = r)"

lemma jsonNode_idem [simp]: "jsonNode (jsonNode n) = jsonNode n"
  by (simp add: jsonNode_def)

lemma jsonSettings_idem [simp]: "jsonSettings (jsonSettings s) = jsonSettings s"
  by (simp add: jsonSettings_def)

lemma stored_simps [simp]:
  "w_id (stored w) = w_id w" "w_version (stored w) = w_version w" "w_status (stored w) = w_status w"
  "w_userID (stored w) = w_userID w" "w_name (stored w) = w_name w" "w_description (stored w) = w_description w"
  "w_nodes (stored w) = map jsonNode (w_nodes w)" "w_connections (stored w) = w_connections w"
  "w_settings (stored w) = jsonSettings (w_settings w)" "w_maxNodes (stored w) = 100" "w_events (stored w) = []"
  by (simp_all add: stored_def ReconstructWorkflow_def)

lemma stored_idem [simp]: "stored (stored w) = stored w"
  by (simp add: stored_def ReconstructWorkflow_def comp_def)

lemma stored_update [simp]:
  "stored ((stored w)\<lparr> w_version := v, w_userID := u, w_createdAt := c \<rparr>) = (stored w)\<lparr> w_version := v, w_userID := u, w_createdAt := c \<rparr>"
  by (simp add: stored_def ReconstructWorkflow_def comp_def)

lemma FindByID_unique:
  assumes "distinct (map w_id (wt_rows t))" and "r \<in> set (wt_rows t)"
  shows "Workflow_FindByID (w_id r) t = Some r"
  using assms find_unique[of w_id "wt_rows t" r] by (simp add: Workflow_FindByID_def)

lemma FindByID_mem: "Workflow_FindByID i t = Some r \<Longrightarrow> r \<in> set (wt_rows t) \<and> w_id r = i"
  by (auto simp: Workflow_FindByID_def find_Some_iff)

lemma Workflow_Update_ok:
  "Workflow_Update err w t = Inr t' \<longleftrightarrow> err = None \<and> (\<exists>r \<in> set (wt_rows t). w_id r = w_id w \<and> w_version r = w_version w)
     \<and> t' = saveEvents w (t\<lparr> wt_rows := map (\<lambda>r. if w_id r = w_id w \<and> w_version r = w_version w
               then (stored w)\<lparr> w_version := w_version w + 1, w_userID := w_userID r, w_createdAt := w_createdAt r \<rparr> else r) (wt_rows t) \<rparr>)"
  by (auto simp: Workflow_Update_def list_ex_iff Let_def split: option.split)

lemma Workflow_Update_inv:
  assumes "table_inv t" and "Workflow_Update err w t = Inr t'"
  shows "table_inv t'"
proof -
  let ?f = "\<lambda>r. if w_id r = w_id w \<and> w_version r = w_version w
               then (stored w)\<lparr> w_version := w_version w + 1, w_userID := w_userID r, w_createdAt := w_createdAt r \<rparr> else r"
  have rows: "wt_rows t' = map ?f (wt_rows t)"
    using assms(2) by (simp add: Workflow_Update_ok saveEvents_def)
  have "map w_id (wt_rows t') = map w_id (wt_rows t)"
    unfolding rows by simp
  moreover have "\<forall>r \<in> set (wt_rows t'). stored r = r"
    using assms(1) unfolding rows by (auto simp: table_inv_def)
  ultimately show ?thesis
    using assms(1) unfolding table_inv_def by metis
qed

interpretation workflow_table: versioned_store "\<lambda>t i. Workflow_FindByID i t" "Workflow_Update None" w_id w_version table_inv
proof
  fix t t' :: WorkflowTable and w :: Workflow
  assume inv: "table_inv t" and up: "Workflow_Update None w t = Inr t'"
  obtain r where r: "r \<in> set (wt_rows t)" "w_id r = w_id w" "w_version r = w_version w"
    using up by (auto simp: Workflow_Update_ok)
  then show "\<exists>r. Workflow_FindByID (w_id w) t = Some r \<and> w_version r = w_version w"
    using inv FindByID_unique[of t r] by (auto simp: table_inv_def)
  have inv': "table_inv t'"
    by (rule Workflow_Update_inv[OF inv up])
  have "(stored w)\<lparr> w_version := w_version w + 1, w_userID := w_userID r, w_createdAt := w_createdAt r \<rparr> \<in> set (wt_rows t')"
    using up r by (auto simp: Workflow_Update_ok saveEvents_def intro!: image_eqI[of _ _ r])
  from FindByID_unique[OF _ this] inv' show "table_inv t' \<and> (\<exists>r. Workflow_FindByID (w_id w) t' = Some r \<and> w_version r = w_version w + 1)"
    by (auto simp: table_inv_def)
qed

text \<open>A change of a workflow advances its version, and only a change does.\<close>

definition moved :: "Workflow \<Rightarrow> Workflow \<Rightarrow> bool" where
  "moved w w' \<longleftrightarrow> w_id w' = w_id w \<and> (w' = w \<or> w_version w < w_version w')"

lemma moved_refl [simp]: "moved w w"
  by (simp add: moved_def)

lemma moved_trans: "moved u v \<Longrightarrow> moved v w \<Longrightarrow> moved u w"
  by (auto simp: moved_def)

lemma moved_step:
  assumes "workflow_step c w = Inr w'"
  shows "moved w w'"
proof -
  have "w_id w' = w_id w"
    using assms by (cases c) (auto simp: Workflow_Activate_ok Workflow_Deactivate_def Workflow_Archive_def
      AddNode_def RemoveNode_def AddConnection_def UpdateSettings_def Let_def split: if_splits option.splits)
  with workflow_step_version[OF assms] show ?thesis
    by (simp add: moved_def)
qed

lemma moved_clearNodes: "moved w (clearNodes clk turns arr w)"
proof (induction turns arbitrary: arr w)
  case (Cons i turns)
  show ?case
  proof (cases "RemoveNode (clk i) (n_ID (arr ! i)) w")
    case (Inr v)
    then have "moved w v"
      using moved_step[of "DoRemoveNode (clk i) (n_ID (arr ! i))" w v] by simp
    with Inr Cons[of v] show ?thesis
      by (auto intro: moved_trans)
  qed (simp add: Cons)
qed simp

lemma moved_addNodes: "addNodes rnd clk k ns w = Inr w' \<Longrightarrow> moved w w'"
proof (induction ns arbitrary: k w)
  case (Cons n ns)
  then obtain v where "AddNode (rnd k) (clk k) n w = Inr v" "moved v w'"
    by (auto split: sum.splits)
  then show ?case
    using moved_step[of "DoAddNode (rnd k) (clk k) n" w v] by (auto intro: moved_trans)
qed simp

lemma moved_addConnections: "addConnections rnd clk k cs w = Inr w' \<Longrightarrow> moved w w'"
proof (induction cs arbitrary: k w)
  case (Cons c cs)
  then obtain v where "AddConnection (rnd k) (clk k) c w = Inr v" "moved v w'"
    by (auto split: sum.splits)
  then show ?case
    using moved_step[of "DoAddConnection (rnd k) (clk k) c" w v] by (auto intro: moved_trans)
qed simp

lemma moved_addGraph: "addGraph rnd clk k ns cs w = Inr w' \<Longrightarrow> moved w w'"
  by (auto simp: addGraph_def split: sum.splits intro: moved_trans moved_addNodes moved_addConnections)

text \<open>A write back of a moved copy leaves every row as it was, but for its version.\<close>

definition unversioned :: "Workflow \<Rightarrow> Workflow" where
  "unversioned w = w\<lparr> w_version := 0 \<rparr>"

definition row_contents :: "WorkflowTable \<Rightarrow> Workflow list" where
  "row_contents t = map unversioned (wt_rows t)"

lemma unversioned_id: "unversioned v = unversioned w \<Longrightarrow> w_id v = w_id w"
  by (cases v; cases w) (simp add: unversioned_def)

lemma unversioned_same: "unversioned (r\<lparr> w_version := v, w_userID := w_userID r, w_createdAt := w_createdAt r \<rparr>) = unversioned r"
  by (cases r) (simp add: unversioned_def)

lemma writeBack_keeps:
  assumes "table_inv t" and "Workflow_FindByID i t = Some r" and "\<And>w. change = Inr w \<Longrightarrow> moved r w"
  shows "table_inv (snd (writeBack err change t)) \<and> row_contents (snd (writeBack err change t)) = row_contents t"
proof (cases "\<exists>w t'. change = Inr w \<and> Workflow_Update err w t = Inr t'")
  case True
  then obtain w t' where w: "change = Inr w" and up: "Workflow_Update err w t = Inr t'"
    by blast
  have r: "r \<in> set (wt_rows t)" "w_id r = i" "stored r = r"
    using FindByID_mem[OF assms(2)] assms(1) by (auto simp: table_inv_def)
  have "moved r w"
    by (rule assms(3)[OF w])
  moreover have "err = None"
    using up by (simp add: Workflow_Update_ok)
  ultimately have "w = r"
    using workflow_table.changed_copy_refused[OF assms(1), of w r] up assms(2) r(2) by (auto simp: moved_def)
  have "unversioned (if w_id x = w_id r \<and> w_version x = w_version r
      then (stored r)\<lparr> w_version := w_version r + 1, w_userID := w_userID x, w_createdAt := w_createdAt x \<rparr> else x) = unversioned x"
    if "x \<in> set (wt_rows t)" for x
  proof (cases "w_id x = w_id r")
    case True
    have "distinct (map w_id (wt_rows t))"
      using assms(1) by (simp add: table_inv_def)
    from FindByID_unique[OF this that] FindByID_unique[OF this r(1)] True have "x = r"
      by (metis option.inject)
    then show ?thesis
      unfolding \<open>x = r\<close> r(3) unversioned_same by (simp add: unversioned_def)
  qed simp
  then have "row_contents t' = row_contents t"
    using up by (simp add: Workflow_Update_ok saveEvents_def row_contents_def \<open>w = r\<close>)
  with Workflow_Update_inv[OF assms(1) up] w up show ?thesis
    by (simp add: writeBack_def)
next
  case False
  then have "snd (writeBack err change t) = t"
    by (auto simp: writeBack_def split: sum.split)
  with assms(1) show ?thesis
    by simp
qed

lemma writeBack_moved_refused:
  assumes "table_inv t" and "Workflow_FindByID i t = Some r" and "\<And>w. change = Inr w \<Longrightarrow> moved r w \<and> w \<noteq> r"
  shows "\<exists>e. writeBack err change t = (Inl e, t)"
proof (cases change)
  case (Inr w)
  have "\<exists>x. Workflow_Update err w t = Inl x"
  proof (cases err)
    case None
    have "w_id r = i"
      using FindByID_mem[OF assms(2)] by simp
    then show ?thesis
      using None assms(3)[OF Inr] workflow_table.changed_copy_refused[OF assms(1), of w r] assms(2) by (auto simp: moved_def)
  qed (simp add: Workflow_Update_def)
  with Inr show ?thesis
    by (auto simp: writeBack_def)
qed (simp add: writeBack_def)

text \<open>A save adds a row.\<close>

lemma Workflow_Save_keeps:
  assumes "table_inv t" and "Workflow_Save err w t = Inr t'"
  shows "table_inv t' \<and> row_contents t' = row_contents t @ [unversioned (stored w)]"
proof -
  have "\<forall>r \<in> set (wt_rows t). w_id r \<noteq> w_id w" "t' = saveEvents w (t\<lparr> wt_rows := wt_rows t @ [stored w] \<rparr>)"
    using assms(2) by (auto simp: Workflow_Save_def list_ex_iff split: option.splits if_splits)
  then show ?thesis
    using assms(1) by (fastforce simp: saveEvents_def table_inv_def row_contents_def)
qed

lemma NewWorkflow_draft: "NewWorkflow i t1 t2 u n d = Inr w \<Longrightarrow> w_status w = WorkflowStatusDraft"
  by (auto simp: NewWorkflow_def addEvent_def split: if_splits)

lemma AddNode_draft: "AddNode i now n w = Inr w' \<Longrightarrow> w_status w = WorkflowStatusDraft \<Longrightarrow> w_status w' = WorkflowStatusDraft"
  by (auto simp: AddNode_def addEvent_def redraft_def Let_def split: if_splits)

lemma AddConnection_draft: "AddConnection i now c w = Inr w' \<Longrightarrow> w_status w = WorkflowStatusDraft \<Longrightarrow> w_status w' = WorkflowStatusDraft"
  by (auto simp: AddConnection_def addEvent_def redraft_def Let_def split: if_splits)

lemma addGraph_draft:
  assumes "addGraph rnd clk k ns cs w = Inr w'" and "w_status w = WorkflowStatusDraft"
  shows "w_status w' = WorkflowStatusDraft"
proof -
  have "addNodes rnd clk k ns w = Inr w' \<Longrightarrow> w_status w = WorkflowStatusDraft \<Longrightarrow> w_status w' = WorkflowStatusDraft" for k w w'
    by (induction ns arbitrary: k w) (auto split: sum.splits dest: AddNode_draft)
  moreover have "addConnections rnd clk k cs w = Inr w' \<Longrightarrow> w_status w = WorkflowStatusDraft \<Longrightarrow> w_status w' = WorkflowStatusDraft" for k w w'
    by (induction cs arbitrary: k w) (auto split: sum.splits dest: AddConnection_draft)
  ultimately show ?thesis
    using assms by (auto simp: addGraph_def split: sum.splits)
qed

text \<open>The methods leave the user alone.\<close>

lemma workflow_step_user: "workflow_step c w = Inr w' \<Longrightarrow> w_userID w' = w_userID w"
  by (cases c) (auto simp: Workflow_Activate_ok Workflow_Deactivate_def Workflow_Archive_def AddNode_def RemoveNode_def
      AddConnection_def UpdateSettings_def addEvent_def redraft_def Let_def split: if_splits option.splits)

lemma addGraph_user:
  assumes "addGraph rnd clk k ns cs w = Inr w'"
  shows "w_userID w' = w_userID w"
proof -
  have "addNodes rnd clk k ns w = Inr w' \<Longrightarrow> w_userID w' = w_userID w" for k w w'
    by (induction ns arbitrary: k w)
       (auto split: sum.splits dest: workflow_step_user[of "DoAddNode i now n" for i now n, simplified])
  moreover have "addConnections rnd clk k cs w = Inr w' \<Longrightarrow> w_userID w' = w_userID w" for k w w'
    by (induction cs arbitrary: k w)
       (auto split: sum.splits dest: workflow_step_user[of "DoAddConnection i now c" for i now c, simplified])
  ultimately show ?thesis
    using assms by (auto simp: addGraph_def split: sum.splits)
qed

lemma mergeSources_draft:
  assumes "mergeSources rnd clk sources w = Inr w'" and "w_status w = WorkflowStatusDraft"
  shows "w_status w' = WorkflowStatusDraft"
proof -
  have "mergeNodes clk k ns m w = Inr (m', w') \<Longrightarrow> w_status w = WorkflowStatusDraft \<Longrightarrow> w_status w' = WorkflowStatusDraft" for k ns m m' w w'
  proof (induction ns arbitrary: k m w)
    case (Cons sn ns)
    then show ?case
      by (cases sn) (auto split: sum.splits dest: AddNode_draft)
  qed simp
  moreover have "w_status w = WorkflowStatusDraft \<Longrightarrow> w_status (mergeConnections rnd clk k m cs w) = WorkflowStatusDraft" for k m cs w
    by (induction cs arbitrary: k w) (auto split: sum.splits dest: AddConnection_draft)
  ultimately show ?thesis
    using assms by (auto simp: mergeSources_def Let_def split: sum.splits prod.splits)
qed

section \<open>Runs of the service\<close>

datatype service_command =
    SCreate db_answers "nat \<Rightarrow> string" "nat \<Rightarrow> time" CreateWorkflowCommand
  | SUpdate db_answers "nat \<Rightarrow> string" "nat \<Rightarrow> time" UpdateWorkflowCommand
  | SDelete db_answers time string
  | SActivate db_answers time string
  | SDeactivate db_answers time string
  | SDuplicate db_answers "nat \<Rightarrow> string" "nat \<Rightarrow> time" string string
  | SMerge db_answers "nat \<Rightarrow> string" "nat \<Rightarrow> time" "string list" string

fun service_call :: "service_command \<Rightarrow> WorkflowTable \<Rightarrow> (workflow_service_error + Workflow) \<times> WorkflowTable" where
  "service_call (SCreate db rnd clk cmd) t = CreateWorkflow db rnd clk cmd t"
| "service_call (SUpdate db rnd clk cmd) t = UpdateWorkflow db rnd clk cmd t"
| "service_call (SDelete db now i) t = DeleteWorkflow db now i t"
| "service_call (SActivate db now i) t = ActivateWorkflow db now i t"
| "service_call (SDeactivate db now i) t = DeactivateWorkflow db now i t"
| "service_call (SDuplicate db rnd clk i newName) t = DuplicateWorkflow db rnd clk i newName t"
| "service_call (SMerge db rnd clk ids newName) t = MergeWorkflows db rnd clk ids newName t"

definition service_step :: "service_command \<Rightarrow> WorkflowTable \<Rightarrow> workflow_service_error + WorkflowTable" where
  "service_step c t = (case service_call c t of (Inl e, t') \<Rightarrow> Inl e | (Inr w, t') \<Rightarrow> Inr t')"

text \<open>The rows are those of \<open>rs\<close> as they were, followed by drafts.\<close>

definition grown :: "Workflow list \<Rightarrow> WorkflowTable \<Rightarrow> bool" where
  "grown rs t \<longleftrightarrow> table_inv t \<and> (\<exists>ns. row_contents t = rs @ ns \<and> list_all (\<lambda>n. w_status n = WorkflowStatusDraft) ns)"

lemma grown_keep: "grown rs t \<Longrightarrow> table_inv t' \<Longrightarrow> row_contents t' = row_contents t \<Longrightarrow> grown rs t'"
  by (simp add: grown_def)

lemma grown_save:
  assumes "grown rs t" and "Workflow_Save err w t = Inr t'" and "w_status w = WorkflowStatusDraft"
  shows "grown rs t'"
proof -
  have "table_inv t"
    using assms(1) by (simp add: grown_def)
  from Workflow_Save_keeps[OF this assms(2)] have "table_inv t'" "row_contents t' = row_contents t @ [unversioned (stored w)]"
    by simp_all
  moreover obtain ns where "row_contents t = rs @ ns" "list_all (\<lambda>n. w_status n = WorkflowStatusDraft) ns"
    using assms(1) by (auto simp: grown_def)
  ultimately have "row_contents t' = rs @ (ns @ [unversioned (stored w)])"
      "list_all (\<lambda>n. w_status n = WorkflowStatusDraft) (ns @ [unversioned (stored w)])"
    using assms(3) by (simp_all add: unversioned_def)
  with \<open>table_inv t'\<close> show ?thesis
    unfolding grown_def by blast
qed

lemma load_FindByID: "load err i t = Inr r \<Longrightarrow> Workflow_FindByID i t = Some r"
  by (auto simp: load_def split: option.splits)

lemma grown_writeBack:
  assumes "grown rs t" and "load err i t = Inr r" and "\<And>w. change = Inr w \<Longrightarrow> moved r w"
  shows "grown rs (snd (writeBack err' change t))"
proof -
  have "table_inv t"
    using assms(1) by (simp add: grown_def)
  then show ?thesis
    using grown_keep[OF assms(1)] writeBack_keeps[OF _ load_FindByID[OF assms(2)] assms(3), where err = err'] by blast
qed

lemma grown_step:
  assumes "grown rs t"
  shows "grown rs (snd (service_call c t))"
proof (cases c)
  case (SCreate db rnd clk cmd)
  then show ?thesis
    using assms by (auto simp: CreateWorkflow_def split: option.split sum.split
        dest: NewWorkflow_draft addGraph_draft intro: grown_save)
next
  case (SUpdate db rnd clk cmd)
  then show ?thesis
    using assms by (auto simp: UpdateWorkflow_def Let_def split: sum.split
        intro!: grown_writeBack intro: moved_trans moved_clearNodes moved_addGraph)
next
  case (SDelete db now i)
  then show ?thesis
    using assms moved_step[of "DoArchive now"] by (auto simp: DeleteWorkflow_def split: sum.split intro!: grown_writeBack)
next
  case (SActivate db now i)
  then show ?thesis
    using assms moved_step[of "DoActivate now"] by (auto simp: ActivateWorkflow_def split: sum.split intro!: grown_writeBack)
next
  case (SDeactivate db now i)
  then show ?thesis
    using assms moved_step[of "DoDeactivate now"] by (auto simp: DeactivateWorkflow_def split: sum.split intro!: grown_writeBack)
next
  case (SDuplicate db rnd clk i newName)
  have "w_status w' = WorkflowStatusDraft" if "UpdateSettings now s w = Inr w'" "w_status w = WorkflowStatusDraft" for now s w w'
    using that by (auto simp: UpdateSettings_def addEvent_def)
  with SDuplicate show ?thesis
    using assms by (auto simp: DuplicateWorkflow_def split: sum.split
        dest!: NewWorkflow_draft addGraph_draft intro: grown_save)
next
  case (SMerge db rnd clk ids newName)
  then show ?thesis
    using assms by (auto simp: MergeWorkflows_def split: sum.split
        dest!: NewWorkflow_draft mergeSources_draft intro: grown_save)
qed

lemma grown_service_step: "grown rs t \<Longrightarrow> service_step c t = Inr t' \<Longrightarrow> grown rs t'"
  using grown_step[of rs t c] by (auto simp: service_step_def split: prod.splits sum.splits)

interpretation workflow_rows: aggregate service_step "grown rs" "\<lambda>_ _. True" for rs
  by unfold_locales (rule grown_service_step)

text \<open>C26: What is saved never changes. The table compares the version of the copy that is written back with the version of the
  row, and every change of a workflow has advanced the version of its copy, so a copy that was changed is refused. Whatever
  calls are made, the rows of the table keep their name, status, nodes, connections and settings, and every row that
  is added is a draft and stays one: no workflow is ever active.\<close>

theorem saved_workflows_never_change:
  assumes "table_inv t"
  shows "\<exists>ns. map unversioned (wt_rows (attempts service_step t cs)) = map unversioned (wt_rows t) @ ns
     \<and> list_all (\<lambda>n. w_status n = WorkflowStatusDraft) ns"
proof -
  have "grown (row_contents t) t"
    using assms by (simp add: grown_def)
  from workflow_rows.run_inv[OF this] have "grown (row_contents t) (attempts service_step t cs)"
    by simp
  then show ?thesis
    by (simp add: grown_def row_contents_def)
qed

text \<open>Activating, deactivating and deleting a workflow always answers an error and changes nothing.\<close>

theorem activation_never_succeeds:
  assumes "table_inv t"
  shows "(\<exists>e. ActivateWorkflow db now i t = (Inl e, t)) \<and> (\<exists>e. DeactivateWorkflow db now i t = (Inl e, t))
     \<and> (\<exists>e. DeleteWorkflow db now i t = (Inl e, t))"
proof -
  have "\<exists>e. (case load (db 0) i t of Inl e \<Rightarrow> (Inl e, t) | Inr w \<Rightarrow> writeBack (db 1) (workflow_step c w) t) = (Inl e, t)" for c
  proof (cases "load (db 0) i t")
    case (Inr r)
    have "moved r w \<and> w \<noteq> r" if "workflow_step c r = Inr w" for w
      using moved_step[OF that] workflow_step_version[OF that] by auto
    from writeBack_moved_refused[OF assms load_FindByID[OF Inr] this] Inr show ?thesis
      by simp
  qed simp
  from this[of "DoActivate now"] this[of "DoDeactivate now"] this[of "DoArchive now"] show ?thesis
    unfolding ActivateWorkflow_def DeactivateWorkflow_def DeleteWorkflow_def by (simp only: workflow_step.simps)
qed

section \<open>Copies\<close>

lemma addNodes_all:
  assumes "receives (length ns) w" and "distinct (map n_ID (w_nodes w @ ns))" and "'''' \<notin> node_ids ns"
  shows "\<exists>w'. addNodes rnd clk k ns w = Inr w' \<and> receives 0 w' \<and> w_nodes w' = w_nodes w @ ns \<and> w_connections w' = w_connections w
     \<and> w_id w' = w_id w \<and> w_name w' = w_name w \<and> w_settings w' = w_settings w"
  using assms
proof (induction ns arbitrary: k w)
  case (Cons n ns)
  then obtain v where v: "AddNode (rnd k) (clk k) n w = Inr v" "receives (length ns) v" "w_nodes v = w_nodes w @ [n]"
      "w_connections v = w_connections w" "w_settings v = w_settings w" "w_name v = w_name w" "w_id v = w_id w"
    using AddNode_receives[of "length ns" w n "rnd k" "clk k"] by auto
  with Cons.IH[of v "k + 1"] Cons.prems show ?case
    by auto
qed simp

lemma addConnections_all:
  assumes "w_status w = WorkflowStatusDraft" and "endpoints_in (node_ids (w_nodes w)) cs"
    and "distinct (map port_key (w_connections w) @ map port_key cs)"
  shows "\<exists>w'. addConnections rnd clk k cs w = Inr w' \<and> w_status w' = WorkflowStatusDraft \<and> w_nodes w' = w_nodes w
     \<and> map port_key (w_connections w') = map port_key (w_connections w) @ map port_key cs
     \<and> w_id w' = w_id w \<and> w_name w' = w_name w \<and> w_settings w' = w_settings w"
  using assms
proof (induction cs arbitrary: k w)
  case (Cons c cs)
  then obtain v where v: "AddConnection (rnd k) (clk k) c w = Inr v" "w_nodes v = w_nodes w" "w_status v = WorkflowStatusDraft"
      "map port_key (w_connections v) = map port_key (w_connections w) @ [port_key c]"
      "w_settings v = w_settings w" "w_name v = w_name w" "w_id v = w_id w"
    using AddConnection_accepts[of w c "rnd k" "clk k"] by auto
  have "\<exists>w'. addConnections rnd clk (k + 1) cs v = Inr w' \<and> w_status w' = WorkflowStatusDraft \<and> w_nodes w' = w_nodes v
     \<and> map port_key (w_connections w') = map port_key (w_connections v) @ map port_key cs
     \<and> w_id w' = w_id v \<and> w_name w' = w_name v \<and> w_settings w' = w_settings v"
    by (rule Cons.IH) (use Cons.prems v in auto)
  with v show ?case
    by auto
qed simp

text \<open>Duplicating a stored workflow stores a new draft with the same nodes (under the same identifiers), the same connections
  and the same settings, under the new name and for the same user.\<close>

theorem duplicate_is_a_copy:
  assumes "table_inv t" and "Workflow_FindByID i t = Some r" and "structure_inv r" and "w_userID r \<noteq> ''''" and "newName \<noteq> ''''"
    and "db 0 = None" and "db 1 = None" and "rnd 0 \<notin> w_id ` set (wt_rows t)"
  shows "\<exists>d t'. DuplicateWorkflow db rnd clk i newName t = (Inr d, t') \<and> row_contents t' = row_contents t @ [unversioned (stored d)]
     \<and> w_id d = rnd 0 \<and> w_name d = newName \<and> w_userID d = w_userID r \<and> w_status d = WorkflowStatusDraft \<and> w_nodes d = w_nodes r
     \<and> map port_key (w_connections d) = map port_key (w_connections r) \<and> w_settings d = w_settings r"
proof -
  have "stored r = r"
    using FindByID_mem[OF assms(2)] assms(1) by (auto simp: table_inv_def)
  then have "w_maxNodes r = 100"
    by (metis stored_simps(10))
  obtain d0 where d0: "NewWorkflow (rnd 0) (clk 0) (clk 1) (w_userID r) newName (w_description r) = Inr d0" "w_id d0 = rnd 0"
      "w_nodes d0 = []" "w_connections d0 = []" "receives 100 d0" "w_name d0 = newName" "w_userID d0 = w_userID r"
    using assms(4,5) by (simp add: NewWorkflow_def addEvent_def receives_def)
  have "receives (length (w_nodes r)) d0"
    using d0(5) assms(3) \<open>w_maxNodes r = 100\<close> by (simp add: receives_def structure_inv_def)
  then obtain d1 where d1: "addNodes rnd clk 2 (w_nodes r) d0 = Inr d1" "receives 0 d1" "w_nodes d1 = w_nodes r" "w_connections d1 = []"
      "w_id d1 = rnd 0" "w_name d1 = newName"
    using addNodes_all[of "w_nodes r" d0 rnd clk 2] assms(3) d0 by (auto simp: structure_inv_def)
  obtain d2 where d2: "addConnections rnd clk (2 + length (w_nodes r)) (w_connections r) d1 = Inr d2" "w_status d2 = WorkflowStatusDraft"
      "w_nodes d2 = w_nodes r" "map port_key (w_connections d2) = map port_key (w_connections r)" "w_id d2 = rnd 0" "w_name d2 = newName"
    using addConnections_all[of d1 "w_connections r" rnd clk "2 + length (w_nodes r)"] assms(3) d1
    by (auto simp: structure_inv_def receives_def)
  have "w_userID d2 = w_userID d0"
    using addGraph_user[of rnd clk 2 "w_nodes r" "w_connections r" d0 d2] d1(1) d2(1) by (simp add: addGraph_def)
  let ?now = "clk (2 + length (w_nodes r) + length (w_connections r))"
  define d where "d = addEvent (WorkflowSettingsUpdatedEvent (w_id d2) (w_settings r) ?now) (d2\<lparr> w_settings := w_settings r, w_updatedAt := ?now \<rparr>)"
  have d: "UpdateSettings ?now (w_settings r) d2 = Inr d" "w_id d = rnd 0" "w_name d = newName" "w_status d = WorkflowStatusDraft"
      "w_nodes d = w_nodes r" "w_connections d = w_connections d2" "w_settings d = w_settings r" "w_userID d = w_userID r"
    using d2 d0(7) \<open>w_userID d2 = w_userID d0\<close> by (simp_all add: UpdateSettings_def d_def addEvent_def)
  have "\<not> list_ex (\<lambda>r. w_id r = w_id d) (wt_rows t)"
    unfolding d(2) list_ex_iff using assms(8) by (metis imageI)
  then obtain t' where t': "Workflow_Save (db 1) d t = Inr t'"
    using assms(7) by (simp add: Workflow_Save_def)
  have "DuplicateWorkflow db rnd clk i newName t = (Inr (MarkEventsAsCommitted d), t')"
    using assms(2,6) d0(1) d1(1) d2(1) d(1) t' by (simp add: DuplicateWorkflow_def load_def addGraph_def)
  moreover have "stored (MarkEventsAsCommitted d) = stored d"
    by (simp add: MarkEventsAsCommitted_def stored_def)
  ultimately show ?thesis
    using Workflow_Save_keeps[OF assms(1) t'] d d2(4) by (simp add: MarkEventsAsCommitted_def)
qed

section \<open>Merging\<close>

lemma mergeNodes_append:
  "mergeNodes clk k (xs @ ys) m w =
     (case mergeNodes clk k xs m w of Inl e \<Rightarrow> Inl e | Inr (m1, w1) \<Rightarrow> mergeNodes clk (k + length xs) ys m1 w1)"
  by (induction xs arbitrary: k m w) (auto split: sum.split)

lemma mergeNodes_mapping:
  "mergeNodes clk k (map (Pair s) ns) m w = Inr (m', w') \<Longrightarrow>
     m' x = (if x \<in> node_ids ns then Some (mergedID s x) else m x)"
  by (induction ns arbitrary: k m w) (auto split: sum.splits if_splits)

lemma mergeNodes_length:
  "mergeNodes clk k ns m w = Inr (m', w') \<Longrightarrow> length (w_nodes w') = length (w_nodes w) + length ns \<and> w_connections w' = w_connections w"
proof (induction ns arbitrary: k m w)
  case (Cons sn ns)
  obtain s n where sn: "sn = (s, n)" by (cases sn)
  then obtain v where v: "AddNode '''' (clk k) (n\<lparr> n_ID := mergedID s (n_ID n) \<rparr>) w = Inr v"
      "mergeNodes clk (k + 1) ns (m(n_ID n \<mapsto> mergedID s (n_ID n))) v = Inr (m', w')"
    using Cons.prems by (auto split: sum.splits)
  have "length (w_nodes v) = Suc (length (w_nodes w))" "w_connections v = w_connections w"
    using v(1) by (auto simp: AddNode_def Let_def addEvent_def redraft_def split: if_splits)
  with Cons.IH[OF v(2)] show ?case
    by simp
qed simp

lemma mergeConnections_ends:
  assumes "list_all P (w_connections w)" and "list_all (\<lambda>c. \<forall>i. P ((remap m c)\<lparr> c_ID := i \<rparr>)) cs"
  shows "list_all P (w_connections (mergeConnections rnd clk k m cs w)) \<and> w_nodes (mergeConnections rnd clk k m cs w) = w_nodes w"
  using assms
proof (induction cs arbitrary: k w)
  case (Cons c cs)
  show ?case
  proof (cases "AddConnection (rnd k) (clk k) (remap m c) w")
    case (Inr v)
    have ids: "\<forall>i. P ((remap m c)\<lparr> c_ID := i \<rparr>)"
      using Cons.prems(2) by simp
    have same: "d\<lparr> c_ID := c_ID d \<rparr> = d" for d :: Connection
      by simp
    have "P (remap m c)"
      using spec[OF ids, of "c_ID (remap m c)"] unfolding same .
    then have "list_all P (w_connections v)" "w_nodes v = w_nodes w"
      using Inr Cons.prems(1) ids by (auto simp: AddConnection_def Let_def addEvent_def redraft_def split: if_splits)
    with Inr Cons show ?thesis
      by simp
  qed (use Cons in simp)
qed simp

text \<open>Merging mixes up workflows that share node identifiers, as a workflow and its duplicate do: the nodes of all of them are
  there, but when the last source has the node identifiers of the others, every connection of the merged workflow joins two nodes
  that come from the last source, and the nodes of the others are left without connections.\<close>

theorem merge_moves_connections:
  assumes "MergeWorkflows db rnd clk ids newName t = (Inr w, t')" and "loadSources db 0 ids [] t = Inr (sources @ [l])"
    and "\<forall>s \<in> set (sources @ [l]). endpoints_in (node_ids (w_nodes s)) (w_connections s) \<and> node_ids (w_nodes s) \<subseteq> node_ids (w_nodes l)"
  shows "length (w_nodes w) = (\<Sum>s \<leftarrow> sources @ [l]. length (w_nodes s))
     \<and> endpoints_in (mergedID l ` node_ids (w_nodes l)) (w_connections w)"
proof -
  let ?cs = "concat (map w_connections (sources @ [l]))" and ?ns = "concat (map (\<lambda>s. map (Pair s) (w_nodes s)) (sources @ [l]))"
  obtain w0 m w1 k where new: "NewWorkflow (rnd 0) (clk 0) (clk 1) (w_userID (hd (sources @ [l]))) newName ''Merged workflow'' = Inr w0"
      and nodes: "mergeNodes clk 2 ?ns Map.empty w0 = Inr (m, w1)"
      and w: "w = MarkEventsAsCommitted (mergeConnections rnd clk k m ?cs w1)"
    using assms(1,2) by (auto simp: MergeWorkflows_def mergeSources_def Let_def split: if_splits sum.splits)
  have w0: "w_nodes w0 = []" "w_connections w0 = []"
    using new by (auto simp: NewWorkflow_def addEvent_def split: if_splits)
  have m: "m x = Some (mergedID l x)" if "x \<in> node_ids (w_nodes l)" for x
  proof -
    obtain k' m1 w2 where "mergeNodes clk k' (map (Pair l) (w_nodes l)) m1 w2 = Inr (m, w1)"
      using nodes by (auto simp: mergeNodes_append split: sum.splits)
    from mergeNodes_mapping[OF this, of x] that show ?thesis
      by simp
  qed
  let ?P = "\<lambda>c. c_SourceNodeID c \<in> mergedID l ` node_ids (w_nodes l) \<and> c_TargetNodeID c \<in> mergedID l ` node_ids (w_nodes l)"
  have "list_all (\<lambda>c. \<forall>i. ?P ((remap m c)\<lparr> c_ID := i \<rparr>)) ?cs"
  proof -
    have "c_SourceNodeID c \<in> node_ids (w_nodes l) \<and> c_TargetNodeID c \<in> node_ids (w_nodes l)" if mem: "c \<in> set ?cs" for c
    proof -
      obtain s where s: "s \<in> set (sources @ [l])" "c \<in> set (w_connections s)"
        using mem by auto
      with assms(3) have "endpoints_in (node_ids (w_nodes l)) (w_connections s)"
        by (blast intro: endpoints_in_mono)
      with s(2) show ?thesis
        by (simp add: endpoints_in_def)
    qed
    then show ?thesis
      unfolding list_all_iff by (simp add: remap_def m)
  qed
  then have "list_all ?P (w_connections (mergeConnections rnd clk k m ?cs w1))
      \<and> w_nodes (mergeConnections rnd clk k m ?cs w1) = w_nodes w1"
    using mergeNodes_length[OF nodes] w0 by (intro mergeConnections_ends) simp_all
  moreover have "length ?ns = (\<Sum>s \<leftarrow> sources @ [l]. length (w_nodes s))"
    by (simp add: length_concat comp_def)
  ultimately show ?thesis
    using mergeNodes_length[OF nodes] w0 by (simp add: w MarkEventsAsCommitted_def endpoints_in_def list_all_iff)
qed

section \<open>Examples\<close>

definition sample_row :: Workflow where
  "sample_row = stored (sample_export\<lparr> w_id := ''11111111-1'' \<rparr>)"

definition second_row :: Workflow where
  "second_row = stored (sample_export\<lparr> w_id := ''22222222-2'' \<rparr>)"

definition sample_table :: WorkflowTable where
  "sample_table = \<lparr> wt_rows = [sample_row, second_row], wt_events = [] \<rparr>"

lemma sample_table_inv: "table_inv sample_table"
  by (simp add: table_inv_def sample_table_def sample_row_def second_row_def)

lemma saved_workflows_never_change_witness:
  "\<exists>ns. map unversioned (wt_rows (attempts service_step sample_table [SActivate (\<lambda>_. None) 5 ''11111111-1'', SDelete (\<lambda>_. None) 5 ''11111111-1'']))
       = map unversioned (wt_rows sample_table) @ ns \<and> list_all (\<lambda>n. w_status n = WorkflowStatusDraft) ns"
  by (rule saved_workflows_never_change[OF sample_table_inv])

lemma activation_never_succeeds_witness:
  "\<exists>e. ActivateWorkflow (\<lambda>_. None) 5 ''11111111-1'' sample_table = (Inl e, sample_table)"
  using activation_never_succeeds[OF sample_table_inv, of "\<lambda>_. None" 5 "''11111111-1''"] by blast

definition five_nodes :: Workflow where
  "five_nodes = sample_export\<lparr> w_nodes := map (\<lambda>i. exported_node i NodeTypeAction) [''1'', ''2'', ''3'', ''4'', ''5''] \<rparr>"

lemma update_keeps_every_other_node_witness:
  "map n_ID (w_nodes (clearNodes (\<lambda>_. 0) [0..<5] (w_nodes five_nodes) five_nodes)) = [''2'', ''4'']"
proof -
  have "length (w_nodes five_nodes) = 5" "w_status five_nodes \<noteq> WorkflowStatusArchived" "distinct (map n_ID (w_nodes five_nodes))"
      "map n_ID (survivors (w_nodes five_nodes)) = [''2'', ''4'']"
    by (simp_all add: five_nodes_def sample_export_def ReconstructWorkflow_def exported_node_def)
  with update_keeps_every_other_node[of five_nodes "\<lambda>_. 0"] show ?thesis
    by metis
qed

lemma duplicate_is_a_copy_witness:
  "\<exists>d t'. DuplicateWorkflow (\<lambda>_. None) (\<lambda>_. ''33333333-3'') (\<lambda>_. 9) ''11111111-1'' ''copy'' sample_table = (Inr d, t')
     \<and> w_nodes d = w_nodes sample_row \<and> w_id d = ''33333333-3''"
proof -
  have "Workflow_FindByID ''11111111-1'' sample_table = Some sample_row" "structure_inv sample_row"
    using sample_export_inv
    by (simp_all add: Workflow_FindByID_def sample_table_def sample_row_def structure_inv_def workflow_inv_def image_image comp_def
        sample_export_def ReconstructWorkflow_def)
  moreover have "w_userID sample_row \<noteq> ''''" "''33333333-3'' \<notin> w_id ` set (wt_rows sample_table)"
    by (simp_all add: sample_table_def sample_row_def second_row_def sample_export_def ReconstructWorkflow_def)
  ultimately show ?thesis
    using duplicate_is_a_copy[OF sample_table_inv, of "''11111111-1''" sample_row "''copy''" "\<lambda>_. None" "\<lambda>_. ''33333333-3''" "\<lambda>_. 9"]
    by blast
qed

lemma merged_sample:
  "case fst (MergeWorkflows (\<lambda>_. None) numbered (\<lambda>_. 9) [''11111111-1'', ''22222222-2''] ''merged'' sample_table) of
     Inl e \<Rightarrow> False | Inr w \<Rightarrow> length (w_nodes w) = 4"
  by code_simp

lemma merge_moves_connections_witness:
  "\<exists>w t'. MergeWorkflows (\<lambda>_. None) numbered (\<lambda>_. 9) [''11111111-1'', ''22222222-2''] ''merged'' sample_table = (Inr w, t')
     \<and> length (w_nodes w) = 4 \<and> endpoints_in {''22222222_a'', ''22222222_b''} (w_connections w)"
proof -
  obtain w t' where w: "MergeWorkflows (\<lambda>_. None) numbered (\<lambda>_. 9) [''11111111-1'', ''22222222-2''] ''merged'' sample_table = (Inr w, t')"
      "length (w_nodes w) = 4"
    using merged_sample by (cases "MergeWorkflows (\<lambda>_. None) numbered (\<lambda>_. 9) [''11111111-1'', ''22222222-2''] ''merged'' sample_table")
      (auto split: sum.splits)
  have "loadSources (\<lambda>_. None) 0 [''11111111-1'', ''22222222-2''] [] sample_table = Inr ([sample_row] @ [second_row])"
    by (simp add: load_def Workflow_FindByID_def sample_table_def sample_row_def second_row_def)
  moreover have "\<forall>s \<in> set ([sample_row] @ [second_row]). endpoints_in (node_ids (w_nodes s)) (w_connections s)
      \<and> node_ids (w_nodes s) \<subseteq> node_ids (w_nodes second_row)"
      "mergedID second_row ` node_ids (w_nodes second_row) = {''22222222_a'', ''22222222_b''}"
    by (simp_all add: sample_row_def second_row_def sample_export_def ReconstructWorkflow_def exported_node_def mergedID_def)
  ultimately have "endpoints_in {''22222222_a'', ''22222222_b''} (w_connections w)"
    using merge_moves_connections[OF w(1), of "[sample_row]" second_row] by simp
  with w show ?thesis
    by blast
qed

end
