(* ===== verification/Execution_Service.thy ===== *)
theory Execution_Service
  imports Execution Versioned_Store
begin

text \<open>
  The service of executions (\<open>internal/execution/app/service/execution_service.go\<close>) and its table
  (\<open>internal/execution/adapters/repository/postgres/execution_repository.go\<close>). A row is an execution as reading it back
  gives it, with the maps it refers to; that two fields which were one map are read back as two does not show, because the
  service writes into no map. \<open>db k\<close> is the answer of the database to the \<open>k\<close>-th call. A goroutine of the service
  is in the list \<open>xs_running\<close>, before its start or in its sleep, with the copy it works on. The cache holds for each key the
  time until which it xanswers: the fields of an execution are not exported, so that what is put in and given back is the
  JSON text \<open>{}\<close>, which is read as the zero value.
\<close>

section \<open>The table\<close>

type_synonym execution_copy = "heap \<times> Execution"

datatype phase = AtStart | InSleep

record ExecutionState =
  xs_rows :: "execution_copy list"
  xs_running :: "(phase \<times> execution_copy) list"
  xs_cache :: "string \<Rightarrow> time option"
  xs_published :: "(string \<times> string) list"

datatype xservice_error =
    ErrExecutionNotFound
  | ErrExecutionDB string
  | ErrExecutionExists
  | ErrOptimisticLocking
  | ErrExecution execution_error

definition jsonError :: "ExecutionError \<Rightarrow> ExecutionError" where
  "jsonError e = e\<lparr> ee_Details := jsonDict (ee_Details e) \<rparr>"

definition jsonNodeExecution :: "NodeExecution \<Rightarrow> NodeExecution" where
  "jsonNodeExecution n = n\<lparr> ne_Error := map_option jsonError (ne_Error n) \<rparr>"

text \<open>The columns of the trigger, the pause and the metadata are always written empty.\<close>

definition executionRow :: "execution_copy \<Rightarrow> execution_copy" where
  "executionRow he = (map jsonDict (fst he), (snd he)\<lparr>
     x_triggerID := '''', x_pausedAt := None, x_metadata := Map.empty, x_error := map_option jsonError (x_error (snd he)),
     x_nodeExecutions := map_option jsonNodeExecution \<circ> x_nodeExecutions (snd he),
     x_context := (x_context (snd he))\<lparr> ctx_Credentials := jsonDict (ctx_Credentials (x_context (snd he))),
       ctx_Metadata := jsonDict (ctx_Metadata (x_context (snd he))) \<rparr> \<rparr>)"

definition row_id :: "execution_copy \<Rightarrow> string" where
  "row_id he = x_id (snd he)"

definition row_version :: "execution_copy \<Rightarrow> int" where
  "row_version he = x_version (snd he)"

definition Execution_FindByID :: "string \<Rightarrow> execution_copy list \<Rightarrow> execution_copy option" where
  "Execution_FindByID i rows = find (\<lambda>r. row_id r = i) rows"

definition Execution_Save :: "string option \<Rightarrow> execution_copy \<Rightarrow> execution_copy list \<Rightarrow> xservice_error + execution_copy list" where
  "Execution_Save err he rows =
     (case err of
        Some e \<Rightarrow> Inl (ErrExecutionDB e)
      | None \<Rightarrow> if list_ex (\<lambda>r. row_id r = row_id he) rows then Inl ErrExecutionExists else Inr (rows @ [executionRow he]))"

definition newerRow :: "execution_copy \<Rightarrow> execution_copy \<Rightarrow> execution_copy" where
  "newerRow he r = (case executionRow he of (h, e) \<Rightarrow> (h, e\<lparr> x_version := x_version e + 1, x_workflowID := x_workflowID (snd r),
     x_userID := x_userID (snd r), x_createdAt := x_createdAt (snd r) \<rparr>))"

definition Execution_Update :: "string option \<Rightarrow> execution_copy \<Rightarrow> execution_copy list \<Rightarrow> xservice_error + execution_copy list" where
  "Execution_Update err he rows =
     (case err of
        Some e \<Rightarrow> Inl (ErrExecutionDB e)
      | None \<Rightarrow>
        let hit = (\<lambda>r. row_id r = row_id he \<and> row_version r = row_version he) in
        if \<not> list_ex hit rows then Inl ErrOptimisticLocking else Inr (map (\<lambda>r. if hit r then newerRow he r else r) rows))"

definition byCreation :: "execution_copy list \<Rightarrow> execution_copy list" where
  "byCreation rows = sort_key (\<lambda>r. - x_createdAt (snd r)) rows"

definition Execution_FindByUserID :: "string \<Rightarrow> nat \<Rightarrow> nat \<Rightarrow> execution_copy list \<Rightarrow> execution_copy list" where
  "Execution_FindByUserID userID offset limit rows = take limit (drop offset (byCreation (filter (\<lambda>r. x_userID (snd r) = userID) rows)))"

definition Execution_FindByWorkflowID :: "string \<Rightarrow> nat \<Rightarrow> nat \<Rightarrow> execution_copy list \<Rightarrow> execution_copy list" where
  "Execution_FindByWorkflowID workflowID offset limit rows =
     take limit (drop offset (byCreation (filter (\<lambda>r. x_workflowID (snd r) = workflowID) rows)))"

definition FindByStatus :: "ExecutionStatus \<Rightarrow> nat \<Rightarrow> nat \<Rightarrow> execution_copy list \<Rightarrow> execution_copy list" where
  "FindByStatus status offset limit rows = take limit (drop offset (byCreation (filter (\<lambda>r. x_status (snd r) = status) rows)))"

definition CountByUserID :: "string \<Rightarrow> execution_copy list \<Rightarrow> int" where
  "CountByUserID userID rows = int (length (filter (\<lambda>r. x_userID (snd r) = userID) rows))"

definition CountByWorkflowID :: "string \<Rightarrow> execution_copy list \<Rightarrow> int" where
  "CountByWorkflowID workflowID rows = int (length (filter (\<lambda>r. x_workflowID (snd r) = workflowID) rows))"

definition Execution_Delete :: "string \<Rightarrow> execution_copy list \<Rightarrow> xservice_error + execution_copy list" where
  "Execution_Delete i rows =
     (if list_ex (\<lambda>r. row_id r = i) rows then Inr (filter (\<lambda>r. row_id r \<noteq> i) rows) else Inl ErrExecutionNotFound)"

section \<open>The service\<close>

record ExecutionService =
  es_hasCache :: bool
  es_hasPublisher :: bool

type_synonym xanswers = "nat \<Rightarrow> string option"

definition publish :: "ExecutionService \<Rightarrow> string \<Rightarrow> string \<Rightarrow> ExecutionState \<Rightarrow> ExecutionState" where
  "publish sv kind i s = (if es_hasPublisher sv then s\<lparr> xs_published := xs_published s @ [(kind, i)] \<rparr> else s)"

definition forget :: "ExecutionService \<Rightarrow> string \<Rightarrow> ExecutionState \<Rightarrow> ExecutionState" where
  "forget sv i s = (if es_hasCache sv then s\<lparr> xs_cache := (xs_cache s)(i := None) \<rparr> else s)"

text \<open>The heap of a new execution holds its input, when it has one.\<close>

definition newCopy :: "string \<Rightarrow> time \<Rightarrow> string \<Rightarrow> string \<Rightarrow> TriggerType \<Rightarrow> dict option \<Rightarrow> execution_error + execution_copy" where
  "newCopy newId now workflowID userID trigger input =
     (case input of
        None \<Rightarrow> NewExecution newId now workflowID 1 userID trigger None []
      | Some d \<Rightarrow> (case make_map d [] of (r, h) \<Rightarrow> NewExecution newId now workflowID 1 userID trigger (Some r) h))"

record StartExecutionCommand =
  sx_WorkflowID :: string
  sx_UserID :: string
  sx_TriggerType :: "TriggerType option"
  sx_InputData :: "dict option"

definition Service_StartExecution ::
  "ExecutionService \<Rightarrow> xanswers \<Rightarrow> string \<Rightarrow> time \<Rightarrow> StartExecutionCommand \<Rightarrow> ExecutionState
     \<Rightarrow> (xservice_error + execution_copy) \<times> ExecutionState" where
  "Service_StartExecution sv db newId now cmd s =
     (let trigger = (case sx_TriggerType cmd of None \<Rightarrow> TriggerTypeManual | Some t \<Rightarrow> t) in
      case newCopy newId now (sx_WorkflowID cmd) (sx_UserID cmd) trigger (sx_InputData cmd) of
        Inl e \<Rightarrow> (Inl (ErrExecution e), s)
      | Inr he \<Rightarrow>
        (case Execution_Save (db 0) he (xs_rows s) of
           Inl e \<Rightarrow> (Inl e, s)
         | Inr rows \<Rightarrow>
           let s1 = publish sv ''execution.started'' newId (s\<lparr> xs_rows := rows \<rparr>)
           in (Inr he, s1\<lparr> xs_running := xs_running s1 @ [(AtStart, he)] \<rparr>)))"

text \<open>A write that the table refuses is only logged.\<close>

definition tryUpdate :: "string option \<Rightarrow> execution_copy \<Rightarrow> ExecutionState \<Rightarrow> ExecutionState" where
  "tryUpdate err he s = (case Execution_Update err he (xs_rows s) of Inl e \<Rightarrow> s | Inr rows \<Rightarrow> s\<lparr> xs_rows := rows \<rparr>)"

text \<open>The goroutine up to its sleep, and after it. \<open>None\<close> is its return.\<close>

definition asyncBegin :: "string option \<Rightarrow> time \<Rightarrow> execution_copy \<Rightarrow> ExecutionState \<Rightarrow> execution_copy option \<times> ExecutionState" where
  "asyncBegin err now he s =
     (case Execution_Start now (snd he) of
        Inl e \<Rightarrow> (None, s)
      | Inr e \<Rightarrow> (Some (fst he, e), tryUpdate err (fst he, e) s))"

definition finalOutput :: "time \<Rightarrow> dict" where
  "finalOutput now = [''status'' \<mapsto> VStr ''completed'', ''timestamp'' \<mapsto> VInt now]"

definition asyncFinish ::
  "ExecutionService \<Rightarrow> string option \<Rightarrow> time \<Rightarrow> execution_copy \<Rightarrow> ExecutionState \<Rightarrow> ExecutionState" where
  "asyncFinish sv err now he s =
     (case make_map (finalOutput now) (fst he) of (r, h) \<Rightarrow>
        (case Execution_Complete now (Some r) (snd he) of
           Inl e \<Rightarrow> s
         | Inr e \<Rightarrow> publish sv ''execution.completed'' (x_id e) (tryUpdate err (h, e) s)))"

text \<open>The whole of the goroutine, when nothing comes between its two parts.\<close>

definition executeAsync ::
  "ExecutionService \<Rightarrow> xanswers \<Rightarrow> (nat \<Rightarrow> time) \<Rightarrow> execution_copy \<Rightarrow> ExecutionState \<Rightarrow> ExecutionState" where
  "executeAsync sv db clk he s =
     (case asyncBegin (db 0) (clk 0) he s of (None, s1) \<Rightarrow> s1 | (Some he1, s1) \<Rightarrow> asyncFinish sv (db 1) (clk 1) he1 s1)"

text \<open>The \<open>k\<close>-th goroutine goes on.\<close>

definition dropAt :: "nat \<Rightarrow> 'a list \<Rightarrow> 'a list" where
  "dropAt k xs = take k xs @ drop (k + 1) xs"

definition goroutine :: "ExecutionService \<Rightarrow> string option \<Rightarrow> time \<Rightarrow> nat \<Rightarrow> ExecutionState \<Rightarrow> ExecutionState" where
  "goroutine sv err now k s =
     (if k < length (xs_running s) then
        let s0 = s\<lparr> xs_running := dropAt k (xs_running s) \<rparr> in
        (case xs_running s ! k of
           (AtStart, he) \<Rightarrow>
             (case asyncBegin err now he s0 of
                (None, s1) \<Rightarrow> s1
              | (Some he1, s1) \<Rightarrow> s1\<lparr> xs_running := xs_running s1 @ [(InSleep, he1)] \<rparr>)
         | (InSleep, he) \<Rightarrow> asyncFinish sv err now he s0)
      else s)"

definition syncOutput :: "time \<Rightarrow> dict" where
  "syncOutput now = [''status'' \<mapsto> VStr ''completed'', ''message'' \<mapsto> VStr ''Workflow executed successfully'', ''timestamp'' \<mapsto> VInt now]"

definition Service_ExecuteWorkflow ::
  "xanswers \<Rightarrow> string \<Rightarrow> (nat \<Rightarrow> time) \<Rightarrow> string \<Rightarrow> string \<Rightarrow> dict option \<Rightarrow> ExecutionState
     \<Rightarrow> (xservice_error + execution_copy) \<times> ExecutionState" where
  "Service_ExecuteWorkflow db newId clk workflowID userID input s =
     (case newCopy newId (clk 0) workflowID userID TriggerTypeAPI input of
        Inl e \<Rightarrow> (Inl (ErrExecution e), s)
      | Inr (h, e) \<Rightarrow>
        (case Execution_Save (db 0) (h, e) (xs_rows s) of
           Inl err \<Rightarrow> (Inl err, s)
         | Inr rows \<Rightarrow>
           let s1 = s\<lparr> xs_rows := rows \<rparr> in
           (case Execution_Start (clk 1) e of
              Inl err \<Rightarrow> (Inl (ErrExecution err), s1)
            | Inr e1 \<Rightarrow>
              (case make_map (syncOutput (clk 2)) h of (r, h1) \<Rightarrow>
                 (case Execution_Complete (clk 3) (Some r) e1 of
                    Inl err \<Rightarrow> (Inl (ErrExecution err), s1)
                  | Inr e2 \<Rightarrow>
                    (case Execution_Update (db 1) (h1, e2) rows of
                       Inl err \<Rightarrow> (Inl err, s1)
                     | Inr rows' \<Rightarrow> (Inr (h1, e2), s1\<lparr> xs_rows := rows' \<rparr>)))))))"

definition fetch :: "string option \<Rightarrow> string \<Rightarrow> ExecutionState \<Rightarrow> xservice_error + execution_copy" where
  "fetch err i s =
     (case err of
        Some e \<Rightarrow> Inl (ErrExecutionDB e)
      | None \<Rightarrow> (case Execution_FindByID i (xs_rows s) of None \<Rightarrow> Inl ErrExecutionNotFound | Some he \<Rightarrow> Inr he))"

datatype reading = ZeroValue | Read execution_copy

definition Service_GetExecution ::
  "ExecutionService \<Rightarrow> xanswers \<Rightarrow> time \<Rightarrow> string \<Rightarrow> ExecutionState \<Rightarrow> (xservice_error + reading) \<times> ExecutionState" where
  "Service_GetExecution sv db now i s =
     (if es_hasCache sv \<and> (case xs_cache s i of None \<Rightarrow> False | Some t \<Rightarrow> now < t) then (Inr ZeroValue, s)
      else (case fetch (db 0) i s of
          Inl e \<Rightarrow> (Inl e, s)
        | Inr he \<Rightarrow> (Inr (Read he), if es_hasCache sv then s\<lparr> xs_cache := (xs_cache s)(i \<mapsto> now + Minute) \<rparr> else s)))"

definition Service_ListExecutions :: "xanswers \<Rightarrow> string \<Rightarrow> nat \<Rightarrow> nat \<Rightarrow> ExecutionState \<Rightarrow> xservice_error + execution_copy list \<times> int" where
  "Service_ListExecutions db userID offset limit s =
     (case (db 0, db 1) of
        (None, None) \<Rightarrow> Inr (Execution_FindByUserID userID offset limit (xs_rows s), CountByUserID userID (xs_rows s))
      | (Some e, _) \<Rightarrow> Inl (ErrExecutionDB e)
      | (None, Some e) \<Rightarrow> Inl (ErrExecutionDB e))"

text \<open>Read, change, write.\<close>

definition changeStored ::
  "xanswers \<Rightarrow> (Execution \<Rightarrow> execution_error + Execution) \<Rightarrow> string \<Rightarrow> ExecutionState \<Rightarrow> xservice_error + execution_copy \<times> ExecutionState" where
  "changeStored db f i s =
     (case fetch (db 0) i s of
        Inl e \<Rightarrow> Inl e
      | Inr he \<Rightarrow>
        (case f (snd he) of
           Inl e \<Rightarrow> Inl (ErrExecution e)
         | Inr e \<Rightarrow>
           (case Execution_Update (db 1) (fst he, e) (xs_rows s) of
              Inl err \<Rightarrow> Inl err
            | Inr rows \<Rightarrow> Inr ((fst he, e), s\<lparr> xs_rows := rows \<rparr>))))"

definition Service_CancelExecution ::
  "ExecutionService \<Rightarrow> xanswers \<Rightarrow> time \<Rightarrow> string \<Rightarrow> ExecutionState \<Rightarrow> (xservice_error + unit) \<times> ExecutionState" where
  "Service_CancelExecution sv db now i s =
     (case changeStored db (Execution_Cancel now) i s of
        Inl e \<Rightarrow> (Inl e, s)
      | Inr (he, s1) \<Rightarrow> (Inr (), forget sv i (publish sv ''execution.cancelled'' i s1)))"

definition Service_PauseExecution ::
  "ExecutionService \<Rightarrow> xanswers \<Rightarrow> time \<Rightarrow> string \<Rightarrow> ExecutionState \<Rightarrow> (xservice_error + unit) \<times> ExecutionState" where
  "Service_PauseExecution sv db now i s =
     (case changeStored db (Execution_Pause now) i s of
        Inl e \<Rightarrow> (Inl e, s)
      | Inr (he, s1) \<Rightarrow> (Inr (), forget sv i s1))"

definition Service_ResumeExecution ::
  "ExecutionService \<Rightarrow> xanswers \<Rightarrow> time \<Rightarrow> string \<Rightarrow> ExecutionState \<Rightarrow> (xservice_error + unit) \<times> ExecutionState" where
  "Service_ResumeExecution sv db now i s =
     (case changeStored db (Execution_Resume now) i s of
        Inl e \<Rightarrow> (Inl e, s)
      | Inr (he, s1) \<Rightarrow> (Inr (), forget sv i (s1\<lparr> xs_running := xs_running s1 @ [(AtStart, he)] \<rparr>)))"

section \<open>The lock of a row\<close>

lemma row_executionRow [simp]:
  "row_id (executionRow he) = row_id he" "row_version (executionRow he) = row_version he"
  "x_status (snd (executionRow he)) = x_status (snd he)"
  by (simp_all add: row_id_def row_version_def executionRow_def)

lemma row_newerRow [simp]: "row_id (newerRow he r) = row_id he" "row_version (newerRow he r) = row_version he + 1"
  by (simp_all add: newerRow_def row_id_def row_version_def executionRow_def split: prod.split)

lemma FindByID_row: "distinct (map row_id rows) \<Longrightarrow> r \<in> set rows \<Longrightarrow> Execution_FindByID (row_id r) rows = Some r"
  using find_unique[of row_id rows r] by (simp add: Execution_FindByID_def)

lemma Execution_Update_ok:
  "Execution_Update err he rows = Inr rows' \<longleftrightarrow> err = None \<and> (\<exists>r \<in> set rows. row_id r = row_id he \<and> row_version r = row_version he)
     \<and> rows' = map (\<lambda>r. if row_id r = row_id he \<and> row_version r = row_version he then newerRow he r else r) rows"
  by (auto simp: Execution_Update_def Let_def list_ex_iff split: option.split)

interpretation execution_table:
  versioned_store "\<lambda>rows i. Execution_FindByID i rows" "Execution_Update None" row_id row_version "\<lambda>rows. distinct (map row_id rows)"
proof
  fix rows rows' :: "execution_copy list" and he :: execution_copy
  assume keys: "distinct (map row_id rows)" and up: "Execution_Update None he rows = Inr rows'"
  obtain r where r: "r \<in> set rows" "row_id r = row_id he" "row_version r = row_version he"
    using up by (auto simp: Execution_Update_ok)
  with FindByID_row[OF keys r(1)] show "\<exists>r. Execution_FindByID (row_id he) rows = Some r \<and> row_version r = row_version he"
    by auto
  let ?f = "\<lambda>r. if row_id r = row_id he \<and> row_version r = row_version he then newerRow he r else r"
  have "rows' = map ?f rows"
    using up by (simp add: Execution_Update_ok)
  moreover have "row_id (?f x) = row_id x" for x
    by simp
  ultimately have "map row_id rows' = map row_id rows" "newerRow he r \<in> set rows'"
    using r by (auto intro!: image_eqI[of _ _ r])
  with keys FindByID_row[of rows' "newerRow he r"]
  show "distinct (map row_id rows') \<and> (\<exists>r. Execution_FindByID (row_id he) rows' = Some r \<and> row_version r = row_version he + 1)"
    by auto
qed

lemma newer_copy_refused:
  assumes "\<forall>r \<in> set rows. row_id r = row_id he \<longrightarrow> row_version r < row_version he"
  shows "\<exists>e. Execution_Update err he rows = Inl e"
proof (cases "Execution_Update err he rows")
  case (Inr rows')
  with assms show ?thesis
    by (auto simp: Execution_Update_ok)
qed simp

section \<open>What is stored stays as it was saved\<close>

lemma newCopy_new:
  assumes "newCopy newId now workflowID userID trigger input = Inr he"
  shows "row_id he = newId \<and> row_version he = 0 \<and> x_status (snd he) = ExecutionStatusPending"
  using assms by (cases input) (auto simp: newCopy_def NewExecution_def make_map_def row_id_def row_version_def split: if_splits)

lemma step_version:
  "Execution_Start now e = Inr e' \<Longrightarrow> x_version e' = x_version e + 1 \<and> x_id e' = x_id e"
  "Execution_Complete now out e = Inr e' \<Longrightarrow> x_version e' = x_version e + 1 \<and> x_id e' = x_id e"
  "Execution_Cancel now e = Inr e' \<Longrightarrow> x_version e' = x_version e + 1 \<and> x_id e' = x_id e"
  "Execution_Pause now e = Inr e' \<Longrightarrow> x_version e' = x_version e + 1 \<and> x_id e' = x_id e"
  "Execution_Resume now e = Inr e' \<Longrightarrow> x_version e' = x_version e + 1 \<and> x_id e' = x_id e"
  by (auto simp: Execution_Start_def Execution_Complete_def Execution_Cancel_def Execution_Pause_def Execution_Resume_def
      touchExecution_def setDuration_def split: if_splits option.splits)

text \<open>A goroutine works on a copy of a row, and after its start on a newer one.\<close>

definition copy_of :: "execution_copy list \<Rightarrow> phase \<times> execution_copy \<Rightarrow> bool" where
  "copy_of rows g \<longleftrightarrow> row_id (snd g) \<in> row_id ` set rows
     \<and> (\<forall>r \<in> set rows. row_id r = row_id (snd g) \<longrightarrow> row_version r < row_version (snd g) + (if fst g = AtStart then 1 else 0))"

definition ahead :: "ExecutionState \<Rightarrow> bool" where
  "ahead s \<longleftrightarrow> distinct (map row_id (xs_rows s)) \<and> list_all (copy_of (xs_rows s)) (xs_running s)"

definition kept :: "execution_copy list \<Rightarrow> ExecutionState \<Rightarrow> bool" where
  "kept rs s \<longleftrightarrow> ahead s \<and> (\<exists>ns. xs_rows s = rs @ ns \<and> list_all (\<lambda>r. x_status (snd r) = ExecutionStatusPending) ns)"

lemma kept_same:
  assumes "kept rs s" and "xs_rows s' = xs_rows s" and "list_all (copy_of (xs_rows s)) (xs_running s')"
  shows "kept rs s'"
  using assms by (simp add: kept_def ahead_def)

lemma same_publish [simp]:
  "xs_rows (publish sv k i s) = xs_rows s" "xs_running (publish sv k i s) = xs_running s" "kept rs (publish sv k i s) = kept rs s"
  by (simp_all add: publish_def kept_def ahead_def)

lemma dropAt_subset: "list_all P xs \<Longrightarrow> list_all P (dropAt k xs)"
  by (auto simp: dropAt_def list_all_iff dest: in_set_takeD in_set_dropD)

lemma Execution_Save_keeps:
  assumes "kept rs s" and "newCopy newId now w u t input = Inr he" and "Execution_Save err he (xs_rows s) = Inr rows"
  shows "kept rs (s\<lparr> xs_rows := rows \<rparr>)" and "copy_of rows (AtStart, he)"
proof -
  have new: "row_id he \<notin> row_id ` set (xs_rows s)" and rows: "rows = xs_rows s @ [executionRow he]"
    using assms(3) by (auto simp: Execution_Save_def list_ex_iff split: option.splits if_splits)
  have "copy_of rows g" if "copy_of (xs_rows s) g" for g
    using that new by (auto simp: copy_of_def rows)
  moreover obtain ns where "xs_rows s = rs @ ns" "list_all (\<lambda>r. x_status (snd r) = ExecutionStatusPending) ns"
    using assms(1) by (auto simp: kept_def)
  then have "rows = rs @ (ns @ [executionRow he])" "list_all (\<lambda>r. x_status (snd r) = ExecutionStatusPending) (ns @ [executionRow he])"
    using newCopy_new[OF assms(2)] by (simp_all add: rows)
  ultimately show "kept rs (s\<lparr> xs_rows := rows \<rparr>)"
    using assms(1) new unfolding kept_def ahead_def by (auto simp: rows list_all_iff)
  show "copy_of rows (AtStart, he)"
    using new by (auto simp: copy_of_def rows image_iff)
qed

lemma changeStored_refused:
  assumes "distinct (map row_id (xs_rows s))" and "\<And>e e'. f e = Inr e' \<Longrightarrow> x_version e' = x_version e + 1 \<and> x_id e' = x_id e"
  shows "\<exists>e. changeStored db f i s = Inl e"
proof (cases "fetch (db 0) i s")
  case (Inr he)
  then have found: "Execution_FindByID i (xs_rows s) = Some he"
    by (auto simp: fetch_def split: option.splits)
  then have "row_id he = i"
    by (auto simp: Execution_FindByID_def dest: find_SomeD)
  show ?thesis
  proof (cases "f (snd he)")
    case (Inr e)
    have "\<exists>x. Execution_Update (db 1) (fst he, e) (xs_rows s) = Inl x"
    proof (cases "db 1")
      case None
      have "Execution_FindByID (row_id (fst he, e)) (xs_rows s) = Some he" "row_version (fst he, e) \<noteq> row_version he"
        using assms(2)[OF Inr] found \<open>row_id he = i\<close> by (simp_all add: row_id_def row_version_def)
      from execution_table.changed_copy_refused[OF assms(1) this] None show ?thesis
        by simp
    qed (simp add: Execution_Update_def)
    with Inr \<open>fetch (db 0) i s = Inr he\<close> show ?thesis
      by (auto simp: changeStored_def)
  qed (simp add: changeStored_def \<open>fetch (db 0) i s = Inr he\<close>)
qed (simp add: changeStored_def)

lemma goroutine_kept:
  assumes "kept rs s"
  shows "kept rs (goroutine sv err now k s)"
proof (cases "k < length (xs_running s)")
  case True
  obtain p he where g: "xs_running s ! k = (p, he)" by (cases "xs_running s ! k") blast
  let ?s0 = "s\<lparr> xs_running := dropAt k (xs_running s) \<rparr>"
  have all: "list_all (copy_of (xs_rows s)) (xs_running s)"
    using assms by (simp add: kept_def ahead_def)
  have s0: "kept rs ?s0"
    by (rule kept_same[OF assms]) (use all in \<open>simp_all add: dropAt_subset\<close>)
  have copy: "copy_of (xs_rows s) (p, he)"
    using all g nth_mem[OF True] by (auto simp: list_all_iff)
  show ?thesis
  proof (cases p)
    case AtStart
    show ?thesis
    proof (cases "Execution_Start now (snd he)")
      case (Inr e)
      have "\<forall>r \<in> set (xs_rows s). row_id r = row_id (fst he, e) \<longrightarrow> row_version r < row_version (fst he, e)"
        using copy step_version(1)[OF Inr] by (simp add: AtStart copy_of_def row_id_def row_version_def)
      moreover from this copy have "copy_of (xs_rows s) (InSleep, fst he, e)"
        using step_version(1)[OF Inr] by (simp add: copy_of_def row_id_def)
      ultimately show ?thesis
        using newer_copy_refused[of "xs_rows s" "(fst he, e)" err] True g Inr all dropAt_subset[OF all, of k]
        by (auto simp: goroutine_def AtStart asyncBegin_def tryUpdate_def Let_def intro!: kept_same[OF assms])
    qed (use True g s0 in \<open>simp add: goroutine_def AtStart asyncBegin_def\<close>)
  next
    case InSleep
    obtain r h where h: "make_map (finalOutput now) (fst he) = (r, h)" by fastforce
    show ?thesis
    proof (cases "Execution_Complete now (Some r) (snd he)")
      case (Inr e)
      have "\<forall>x \<in> set (xs_rows s). row_id x = row_id (h, e) \<longrightarrow> row_version x < row_version (h, e)"
        using copy step_version(2)[OF Inr] by (auto simp: InSleep copy_of_def row_id_def row_version_def)
      from newer_copy_refused[OF this, of err] show ?thesis
        using True g Inr h s0 by (auto simp: goroutine_def InSleep asyncFinish_def tryUpdate_def)
    qed (use True g s0 h in \<open>simp add: goroutine_def InSleep asyncFinish_def\<close>)
  qed
qed (use assms in \<open>simp add: goroutine_def\<close>)

datatype xcommand =
    XcStart xanswers string time StartExecutionCommand
  | XcGoroutine "string option" time nat
  | XcExecute xanswers string "nat \<Rightarrow> time" string string "dict option"
  | XcGet xanswers time string
  | XcCancel xanswers time string
  | XcPause xanswers time string
  | XcResume xanswers time string

fun xcall :: "ExecutionService \<Rightarrow> xcommand \<Rightarrow> ExecutionState \<Rightarrow> ExecutionState" where
  "xcall sv (XcStart db i now cmd) s = snd (Service_StartExecution sv db i now cmd s)"
| "xcall sv (XcGoroutine err now k) s = goroutine sv err now k s"
| "xcall sv (XcExecute db i clk w u input) s = snd (Service_ExecuteWorkflow db i clk w u input s)"
| "xcall sv (XcGet db now i) s = snd (Service_GetExecution sv db now i s)"
| "xcall sv (XcCancel db now i) s = snd (Service_CancelExecution sv db now i s)"
| "xcall sv (XcPause db now i) s = snd (Service_PauseExecution sv db now i s)"
| "xcall sv (XcResume db now i) s = snd (Service_ResumeExecution sv db now i s)"

definition xstep :: "ExecutionService \<Rightarrow> xcommand \<Rightarrow> ExecutionState \<Rightarrow> unit + ExecutionState" where
  "xstep sv c s = Inr (xcall sv c s)"

text \<open>The final write of a synchronous run is always refused.\<close>

lemma sync_refused:
  assumes "Execution_Save err he rows = Inr rows'" and "row_version he = 0"
    and "Execution_Start t1 (snd he) = Inr e1" and "Execution_Complete t2 out e1 = Inr e2"
    and "distinct (map row_id rows)"
  shows "\<exists>e. Execution_Update err' (h, e2) rows' = Inl e"
proof (rule newer_copy_refused)
  have "rows' = rows @ [executionRow he]" "\<forall>r \<in> set rows. row_id r \<noteq> row_id he"
    using assms(1) by (auto simp: Execution_Save_def list_ex_iff split: option.splits if_splits)
  moreover have "row_id (h, e2) = row_id he" "row_version (h, e2) = 2"
    using step_version(1)[OF assms(3)] step_version(2)[OF assms(4)] assms(2) by (simp_all add: row_id_def row_version_def)
  ultimately show "\<forall>r \<in> set rows'. row_id r = row_id (h, e2) \<longrightarrow> row_version r < row_version (h, e2)"
    using assms(2) by auto
qed

text \<open>Running a workflow synchronously never succeeds: the execution is saved, started and completed in memory, and the
  table then refuses it, because both steps have advanced the version that the update expects to find.\<close>

theorem execute_workflow_never_succeeds:
  assumes "distinct (map row_id (xs_rows s))"
  shows "\<exists>e. fst (Service_ExecuteWorkflow db newId clk w u input s) = Inl e"
proof (cases "newCopy newId (clk 0) w u TriggerTypeAPI input")
  case (Inr he)
  obtain h e where he: "he = (h, e)" by (cases he)
  show ?thesis
  proof (cases "Execution_Save (db 0) he (xs_rows s)")
    case save: (Inr rows)
    have "\<exists>err. Execution_Update (db 1) (h1, e2) rows = Inl err"
      if "Execution_Start (clk 1) e = Inr e1" "Execution_Complete (clk 3) out e1 = Inr e2" for h1 e1 e2 out
      using sync_refused[OF save _ _ that(2) assms(1)] that(1) newCopy_new[OF Inr] he by auto
    note refused = this
    obtain r h1 where out: "make_map (syncOutput (clk 2)) h = (r, h1)" by fastforce
    show ?thesis
    proof (cases "\<exists>e1 e2. Execution_Start (clk 1) e = Inr e1 \<and> Execution_Complete (clk 3) (Some r) e1 = Inr e2")
      case True
      then obtain e1 e2 where run: "Execution_Start (clk 1) e = Inr e1" "Execution_Complete (clk 3) (Some r) e1 = Inr e2" by blast
      with refused[OF run, of h1] Inr save he out show ?thesis
        by (auto simp: Service_ExecuteWorkflow_def Let_def)
    next
      case False
      with Inr save he out show ?thesis
        by (auto simp: Service_ExecuteWorkflow_def Let_def split: sum.split)
    qed
  qed (use Inr he in \<open>simp add: Service_ExecuteWorkflow_def\<close>)
qed (simp add: Service_ExecuteWorkflow_def)

lemma xcall_kept:
  assumes "kept rs s"
  shows "kept rs (xcall sv c s)"
proof -
  have keys: "distinct (map row_id (xs_rows s))"
    using assms by (simp add: kept_def ahead_def)
  show ?thesis
  proof (cases c)
    case (XcStart db i now cmd)
    have "kept rs (snd (Service_StartExecution sv db i now cmd s))"
      using assms Execution_Save_keeps[OF assms]
      by (auto simp: Service_StartExecution_def Let_def kept_def ahead_def split: sum.split)
    then show ?thesis
      by (simp add: XcStart)
  next
    case (XcGoroutine err now k)
    then show ?thesis
      using goroutine_kept[OF assms] by simp
  next
    case (XcExecute db i clk w u input)
    from execute_workflow_never_succeeds[OF keys, of db i clk w u input] obtain e where
      refused: "fst (Service_ExecuteWorkflow db i clk w u input s) = Inl e" by blast
    then show ?thesis
      using assms Execution_Save_keeps(1)[OF assms]
      by (auto simp: XcExecute Service_ExecuteWorkflow_def Let_def split: sum.splits prod.splits)
  next
    case (XcGet db now i)
    then show ?thesis
      using assms by (auto simp: Service_GetExecution_def kept_def ahead_def split: sum.split)
  next
    case (XcCancel db now i)
    have "\<exists>e. changeStored db (Execution_Cancel now) i s = Inl e"
      by (rule changeStored_refused[OF keys]) (rule step_version(3))
    then show ?thesis
      using assms by (auto simp: XcCancel Service_CancelExecution_def)
  next
    case (XcPause db now i)
    have "\<exists>e. changeStored db (Execution_Pause now) i s = Inl e"
      by (rule changeStored_refused[OF keys]) (rule step_version(4))
    then show ?thesis
      using assms by (auto simp: XcPause Service_PauseExecution_def)
  next
    case (XcResume db now i)
    have "\<exists>e. changeStored db (Execution_Resume now) i s = Inl e"
      by (rule changeStored_refused[OF keys]) (rule step_version(5))
    then show ?thesis
      using assms by (auto simp: XcResume Service_ResumeExecution_def)
  qed
qed

interpretation executions: aggregate "xstep sv" "kept rs" "\<lambda>_ _. True" for sv rs
  by unfold_locales (auto simp: xstep_def intro: xcall_kept)

text \<open>C27: No stored execution ever leaves the status it was saved with: whatever calls are made and whenever the goroutines go on,
  the rows of the table stay as they are, and every execution that is added is pending and stays so. The writes of a goroutine
  are refused like those of a cancellation, and it only logs the errors.\<close>

theorem stored_executions_stay_pending:
  assumes "distinct (map row_id (xs_rows s))" and "xs_running s = []"
  shows "\<exists>ns. xs_rows (attempts (xstep sv) s cs) = xs_rows s @ ns \<and> list_all (\<lambda>r. x_status (snd r) = ExecutionStatusPending) ns"
proof -
  have "kept (xs_rows s) s"
    using assms by (simp add: kept_def ahead_def)
  from executions.run_inv[OF this] show ?thesis
    by (simp add: kept_def)
qed

text \<open>An execution that was read once is lost for a minute: when the service has a cache, the next reading within a minute gives
  the zero value instead of the execution.\<close>

theorem cached_execution_reads_empty:
  assumes "es_hasCache sv" and "Service_GetExecution sv db now i s = (Inr (Read he), s1)" and "now' < now + Minute"
  shows "Service_GetExecution sv db' now' i s1 = (Inr ZeroValue, s1)"
  using assms by (auto simp: Service_GetExecution_def split: if_splits sum.splits option.splits)

text \<open>Even if the pause were stored, a resumed execution would not go on: its goroutine starts it, and only a pending execution starts.\<close>

lemma resumed_execution_never_continues:
  assumes "Execution_Resume now e = Inr e'"
  shows "asyncBegin err now' (h, e') s = (None, s)"
  using assms by (auto simp: Execution_Resume_def asyncBegin_def Execution_Start_def touchExecution_def split: if_splits)

section \<open>Examples\<close>

definition empty_executions :: ExecutionState where
  "empty_executions = \<lparr> xs_rows = [], xs_running = [], xs_cache = Map.empty, xs_published = [] \<rparr>"

definition cached_service :: ExecutionService where
  "cached_service = \<lparr> es_hasCache = True, es_hasPublisher = False \<rparr>"

definition sample_start :: StartExecutionCommand where
  "sample_start = \<lparr> sx_WorkflowID = ''w'', sx_UserID = ''u'', sx_TriggerType = None, sx_InputData = None \<rparr>"

definition sample_run :: "xcommand list" where
  "sample_run = [XcStart (\<lambda>_. None) ''e'' 1 sample_start, XcGoroutine None 2 0, XcGoroutine None 3 0]"

lemma sample_run_pending:
  "map (\<lambda>r. x_status (snd r)) (xs_rows (attempts (xstep cached_service) empty_executions sample_run)) = [ExecutionStatusPending]"
  by code_simp

lemma stored_executions_stay_pending_witness:
  "\<exists>ns. xs_rows (attempts (xstep cached_service) empty_executions sample_run) = ns
     \<and> list_all (\<lambda>r. x_status (snd r) = ExecutionStatusPending) ns \<and> length ns = 1"
proof -
  have "length (xs_rows (attempts (xstep cached_service) empty_executions sample_run)) = 1"
    using sample_run_pending by (metis length_map list.size(3,4) One_nat_def add_0)
  with stored_executions_stay_pending[of empty_executions cached_service sample_run] show ?thesis
    by (auto simp: empty_executions_def)
qed

lemma execute_workflow_never_succeeds_witness:
  "\<exists>e. fst (Service_ExecuteWorkflow (\<lambda>_. None) ''e'' (\<lambda>_. 1) ''w'' ''u'' None empty_executions) = Inl e"
  by (rule execute_workflow_never_succeeds) (simp add: empty_executions_def)

definition one_execution :: ExecutionState where
  "one_execution = xcall cached_service (XcStart (\<lambda>_. None) ''e'' 1 sample_start) empty_executions"

lemma cached_execution_reads_empty_witness:
  "\<exists>s1. Service_GetExecution cached_service (\<lambda>_. None) 5 ''e'' one_execution = (Inr (Read (hd (xs_rows one_execution))), s1)
     \<and> Service_GetExecution cached_service (\<lambda>_. None) 6 ''e'' s1 = (Inr ZeroValue, s1)"
proof -
  have "row_id (hd (xs_rows one_execution)) = ''e''" "length (xs_rows one_execution) = 1" "xs_cache one_execution ''e'' = None"
    by code_simp+
  then obtain s1 where s1: "Service_GetExecution cached_service (\<lambda>_. None) 5 ''e'' one_execution = (Inr (Read (hd (xs_rows one_execution))), s1)"
    by (auto simp: Service_GetExecution_def fetch_def Execution_FindByID_def length_Suc_conv)
  have "es_hasCache cached_service"
    by (simp add: cached_service_def)
  from cached_execution_reads_empty[OF this s1, of 6 "\<lambda>_. None"] s1 show ?thesis
    by auto
qed

end
