(* ===== verification/Schedule_Service.thy ===== *)
theory Schedule_Service
  imports Schedule
begin

text \<open>
  The service of schedules (\<open>internal/schedule/app/service/schedule_service.go\<close>) over its table
  (\<open>internal/schedule/adapters/repository/postgres/schedule_repository.go\<close>) and the scheduler of the theory Schedule.
  A schedule is read back by making a new one from the columns of its row: \<open>gen n\<close> is the identifier that the n-th call
  of the generator gives, and no identifier from \<open>ss_next\<close> on has been given yet. \<open>db k\<close> is the answer of the database to the k-th query of a call,
  \<open>clk\<close> the readings of the clock in a call. A call that does not return is None. The cache holds for each key the time
  until which it answers: no field of a schedule is exported, so that it answers with the zero value.
\<close>

section \<open>The table\<close>

record ScheduleRow =
  rw_id :: string
  rw_userID :: string
  rw_organizationID :: string
  rw_workflowID :: string
  rw_name :: string
  rw_description :: string
  rw_cronExpression :: string
  rw_timezone :: string
  rw_startDate :: "time option"
  rw_endDate :: "time option"
  rw_status :: ScheduleStatus
  rw_lastRunAt :: "time option"
  rw_nextRunAt :: "time option"
  rw_runCount :: int
  rw_successCount :: int
  rw_failureCount :: int
  rw_metadata :: dict
  rw_createdAt :: time
  rw_updatedAt :: time

datatype sched_service_error =
    ErrScheduleNotFound
  | ErrScheduleUnauthorized
  | ErrInvalidSchedule
  | ErrScheduleDB string
  | ErrScheduleLocking
  | ErrSchedule schedule_error

definition rowOf :: "('c, 'l) Schedule \<Rightarrow> ScheduleRow" where
  "rowOf s = \<lparr> rw_id = sc_id s, rw_userID = sc_userID s, rw_organizationID = sc_organizationID s,
     rw_workflowID = sc_workflowID s, rw_name = sc_name s, rw_description = sc_description s,
     rw_cronExpression = sc_cronExpression s, rw_timezone = sc_timezone s,
     rw_startDate = map_option fst (sc_startDate s), rw_endDate = map_option fst (sc_endDate s), rw_status = sc_status s,
     rw_lastRunAt = sc_lastRunAt s, rw_nextRunAt = sc_nextRunAt s, rw_runCount = sc_runCount s,
     rw_successCount = sc_successCount s, rw_failureCount = sc_failureCount s, rw_metadata = sc_metadata s,
     rw_createdAt = sc_createdAt s, rw_updatedAt = sc_updatedAt s \<rparr>"

definition Schedule_Save ::
  "string option \<Rightarrow> ('c, 'l) Schedule \<Rightarrow> ScheduleRow list \<Rightarrow> sched_service_error + ScheduleRow list" where
  "Schedule_Save err s rows =
     (case err of
        Some e \<Rightarrow> Inl (ErrScheduleDB e)
      | None \<Rightarrow> if list_ex (\<lambda>r. rw_id r = sc_id s) rows then Inl (ErrScheduleDB ''duplicate key'')
          else Inr (rows @ [rowOf s]))"

text \<open>The columns that an update does not name stay.\<close>

definition updatedRow :: "time \<Rightarrow> ('c, 'l) Schedule \<Rightarrow> ScheduleRow \<Rightarrow> ScheduleRow" where
  "updatedRow now s r = (rowOf s)\<lparr> rw_userID := rw_userID r, rw_organizationID := rw_organizationID r,
     rw_workflowID := rw_workflowID r, rw_createdAt := rw_createdAt r, rw_updatedAt := now \<rparr>"

definition Schedule_Update ::
  "string option \<Rightarrow> time \<Rightarrow> ('c, 'l) Schedule \<Rightarrow> ScheduleRow list \<Rightarrow> sched_service_error + ScheduleRow list" where
  "Schedule_Update err now s rows =
     (case err of
        Some e \<Rightarrow> Inl (ErrScheduleDB e)
      | None \<Rightarrow>
        let hit = (\<lambda>r. rw_id r = sc_id s \<and> rw_updatedAt r = sc_updatedAt s) in
        if \<not> list_ex hit rows then Inl ErrScheduleLocking
        else Inr (map (\<lambda>r. if hit r then updatedRow now s r else r) rows))"

definition Schedule_Delete :: "string option \<Rightarrow> string \<Rightarrow> ScheduleRow list \<Rightarrow> sched_service_error + ScheduleRow list" where
  "Schedule_Delete err i rows =
     (case err of
        Some e \<Rightarrow> Inl (ErrScheduleDB e)
      | None \<Rightarrow> if list_ex (\<lambda>r. rw_id r = i) rows then Inr (filter (\<lambda>r. rw_id r \<noteq> i) rows) else Inl ErrScheduleNotFound)"

definition laterClock :: "nat \<Rightarrow> (nat \<Rightarrow> time) \<Rightarrow> nat \<Rightarrow> time" where
  "laterClock k clk = (\<lambda>i. clk (i + k))"

definition datesFrom ::
  "(nat \<Rightarrow> time) \<Rightarrow> (time \<times> 'l) option \<Rightarrow> (time \<times> 'l) option \<Rightarrow> ('c, 'l) Schedule \<Rightarrow> schedule_error + ('c, 'l) Schedule" where
  "datesFrom clk a b s = (if a = None \<and> b = None then Inr s else SetDateRange clk a b s)"

text \<open>The times that come from the database are in the zone \<open>dbLoc\<close>.\<close>

definition toDomain ::
  "('c, 'l) CronLib \<Rightarrow> 'l \<Rightarrow> (nat \<Rightarrow> time) \<Rightarrow> string \<Rightarrow> ScheduleRow \<Rightarrow> schedule_error + ('c, 'l) Schedule" where
  "toDomain lib dbLoc clk newID r =
     (case NewSchedule lib clk newID (rw_userID r) (rw_workflowID r) (rw_name r) (rw_cronExpression r) (rw_timezone r) of
        Inl e \<Rightarrow> Inl e
      | Inr s0 \<Rightarrow>
        let s1 = SetOrganizationID (laterClock 2 clk) (rw_organizationID r) s0;
            s2 = SetDescription (laterClock 3 clk) (rw_description r) s1;
            dated = (\<lambda>t. (t, dbLoc))
        in Inr (case datesFrom (laterClock 4 clk) (map_option dated (rw_startDate r)) (map_option dated (rw_endDate r)) s2 of
             Inl e \<Rightarrow> s2 | Inr s3 \<Rightarrow> s3))"

text \<open>The rows of a query are converted in their order, each with its own clock and identifier.\<close>

fun scanRows ::
  "('c, 'l) CronLib \<Rightarrow> 'l \<Rightarrow> (nat \<Rightarrow> nat \<Rightarrow> time) \<Rightarrow> (nat \<Rightarrow> string) \<Rightarrow> nat \<Rightarrow> ScheduleRow list
     \<Rightarrow> schedule_error + ('c, 'l) Schedule list" where
  "scanRows lib dbLoc clks gen n [] = Inr []"
| "scanRows lib dbLoc clks gen n (r # rs) =
     (case toDomain lib dbLoc (clks n) (gen n) r of
        Inl e \<Rightarrow> Inl e
      | Inr s \<Rightarrow> (case scanRows lib dbLoc clks gen (n + 1) rs of Inl e \<Rightarrow> Inl e | Inr ss \<Rightarrow> Inr (s # ss)))"

definition page :: "nat \<Rightarrow> nat \<Rightarrow> (ScheduleRow \<Rightarrow> bool) \<Rightarrow> ScheduleRow list \<Rightarrow> ScheduleRow list" where
  "page offset limit P rows = take limit (drop offset (sort_key (\<lambda>r. - rw_createdAt r) (filter P rows)))"

definition Schedule_FindByUserID :: "string \<Rightarrow> nat \<Rightarrow> nat \<Rightarrow> ScheduleRow list \<Rightarrow> ScheduleRow list" where
  "Schedule_FindByUserID u offset limit rows = page offset limit (\<lambda>r. rw_userID r = u) rows"

definition Schedule_FindByWorkflowID :: "string \<Rightarrow> nat \<Rightarrow> nat \<Rightarrow> ScheduleRow list \<Rightarrow> ScheduleRow list" where
  "Schedule_FindByWorkflowID w offset limit rows = page offset limit (\<lambda>r. rw_workflowID r = w) rows"

definition Schedule_FindByOrganizationID :: "string \<Rightarrow> nat \<Rightarrow> nat \<Rightarrow> ScheduleRow list \<Rightarrow> ScheduleRow list" where
  "Schedule_FindByOrganizationID i offset limit rows = page offset limit (\<lambda>r. rw_organizationID r = i) rows"

text \<open>A status is a string: None is one that no row has.\<close>

definition Schedule_FindByStatus :: "ScheduleStatus option \<Rightarrow> nat \<Rightarrow> nat \<Rightarrow> ScheduleRow list \<Rightarrow> ScheduleRow list" where
  "Schedule_FindByStatus st offset limit rows = page offset limit (\<lambda>r. Some (rw_status r) = st) rows"

definition Schedule_CountByUserID :: "string \<Rightarrow> ScheduleRow list \<Rightarrow> int" where
  "Schedule_CountByUserID u rows = int (length (filter (\<lambda>r. rw_userID r = u) rows))"

definition Schedule_CountByWorkflowID :: "string \<Rightarrow> ScheduleRow list \<Rightarrow> int" where
  "Schedule_CountByWorkflowID w rows = int (length (filter (\<lambda>r. rw_workflowID r = w) rows))"

definition dueRows :: "time \<Rightarrow> nat \<Rightarrow> ScheduleRow list \<Rightarrow> ScheduleRow list" where
  "dueRows before limit rows =
     take limit (sort_key (\<lambda>r. the (rw_nextRunAt r))
       (filter (\<lambda>r. rw_status r = ScheduleStatusActive \<and> (case rw_nextRunAt r of None \<Rightarrow> False | Some n \<Rightarrow> n \<le> before)) rows))"

section \<open>The service\<close>

record ('c, 'l) ScheduleEnv =
  en_lib :: "('c, 'l) CronLib"
  en_dbLoc :: 'l
  en_gen :: "nat \<Rightarrow> string"
  en_hasCache :: bool
  en_publisher :: "(string \<Rightarrow> string option) option"

record ('c, 'l) ScheduleState =
  ss_rows :: "ScheduleRow list"
  ss_next :: nat
  ss_scheduler :: "('c, 'l) Scheduler"
  ss_cache :: "string \<Rightarrow> time option"
  ss_published :: "string list"

type_synonym sanswers = "nat \<Rightarrow> string option"

definition announce :: "('c, 'l) ScheduleEnv \<Rightarrow> string \<Rightarrow> ('c, 'l) ScheduleState \<Rightarrow> ('c, 'l) ScheduleState" where
  "announce env i s =
     (case en_publisher env of
        None \<Rightarrow> s
      | Some publish \<Rightarrow> if publish i = None then s\<lparr> ss_published := ss_published s @ [i] \<rparr> else s)"

definition uncache :: "('c, 'l) ScheduleEnv \<Rightarrow> string \<Rightarrow> ('c, 'l) ScheduleState \<Rightarrow> ('c, 'l) ScheduleState" where
  "uncache env i s = (if en_hasCache env then s\<lparr> ss_cache := (ss_cache s)(i := None) \<rparr> else s)"

text \<open>A call of the scheduler.\<close>

definition withScheduler ::
  "(('c, 'l) Scheduler \<Rightarrow> ('c, 'l) Scheduler option) \<Rightarrow> ('c, 'l) ScheduleState \<Rightarrow> ('c, 'l) ScheduleState option" where
  "withScheduler f s = (case f (ss_scheduler s) of None \<Rightarrow> None | Some sd \<Rightarrow> Some (s\<lparr> ss_scheduler := sd \<rparr>))"

text \<open>The result of a call that ends with a call of the scheduler.\<close>

definition finish :: "'a \<Rightarrow> ('c, 'l) ScheduleState option \<Rightarrow> ((sched_service_error + 'a) \<times> ('c, 'l) ScheduleState) option" where
  "finish v res = map_option (\<lambda>s. (Inr v, s)) res"

record 'l CreateScheduleCommand =
  cs_UserID :: string
  cs_OrganizationID :: string
  cs_WorkflowID :: string
  cs_Name :: string
  cs_Description :: string
  cs_CronExpression :: string
  cs_Timezone :: string
  cs_StartDate :: "(time \<times> 'l) option"
  cs_EndDate :: "(time \<times> 'l) option"
  cs_InputData :: "dict option"

definition withInput :: "(nat \<Rightarrow> time) \<Rightarrow> dict option \<Rightarrow> ('c, 'l) Schedule \<Rightarrow> ('c, 'l) Schedule" where
  "withInput clk input s =
     (case input of None \<Rightarrow> s | Some d \<Rightarrow> if dom d = {} then s else SetInputData clk input s)"

definition drawn :: "('c, 'l) ScheduleState \<Rightarrow> ('c, 'l) ScheduleState" where
  "drawn s = s\<lparr> ss_next := ss_next s + 1 \<rparr>"

definition createdBy ::
  "('c, 'l) CronLib \<Rightarrow> (nat \<Rightarrow> time) \<Rightarrow> string \<Rightarrow> 'l CreateScheduleCommand \<Rightarrow> schedule_error + ('c, 'l) Schedule" where
  "createdBy lib clk newID cmd =
     (case NewSchedule lib clk newID (cs_UserID cmd) (cs_WorkflowID cmd) (cs_Name cmd) (cs_CronExpression cmd) (cs_Timezone cmd) of
        Inl e \<Rightarrow> Inl e
      | Inr d0 \<Rightarrow>
        let d1 = (if cs_OrganizationID cmd \<noteq> '''' then SetOrganizationID (laterClock 2 clk) (cs_OrganizationID cmd) d0 else d0);
            d2 = (if cs_Description cmd \<noteq> '''' then SetDescription (laterClock 3 clk) (cs_Description cmd) d1 else d1)
        in (case datesFrom (laterClock 4 clk) (cs_StartDate cmd) (cs_EndDate cmd) d2 of
              Inl e \<Rightarrow> Inl e
            | Inr d3 \<Rightarrow> Inr (withInput (laterClock 6 clk) (cs_InputData cmd) d3)))"

definition Service_CreateSchedule ::
  "('c, 'l) ScheduleEnv \<Rightarrow> sanswers \<Rightarrow> (nat \<Rightarrow> time) \<Rightarrow> 'l CreateScheduleCommand \<Rightarrow> ('c, 'l) ScheduleState
     \<Rightarrow> ((sched_service_error + ('c, 'l) Schedule) \<times> ('c, 'l) ScheduleState) option" where
  "Service_CreateSchedule env db clk cmd s =
     (let s0 = drawn s in
      case createdBy (en_lib env) clk (en_gen env (ss_next s)) cmd of
        Inl e \<Rightarrow> Some (Inl (ErrSchedule e), s0)
      | Inr d \<Rightarrow>
        if Schedule_Validate (en_lib env) d \<noteq> None then Some (Inl ErrInvalidSchedule, s0)
        else (case Schedule_Save (db 0) d (ss_rows s0) of
            Inl e \<Rightarrow> Some (Inl e, s0)
          | Inr rows \<Rightarrow>
              finish d (withScheduler (RegisterSchedule (en_lib env) d) (announce env (sc_id d) (s0\<lparr> ss_rows := rows \<rparr>)))))"

text \<open>Reading a schedule by its identifier.\<close>

definition fetchSchedule ::
  "('c, 'l) ScheduleEnv \<Rightarrow> string option \<Rightarrow> (nat \<Rightarrow> time) \<Rightarrow> string \<Rightarrow> ('c, 'l) ScheduleState
     \<Rightarrow> (sched_service_error + ('c, 'l) Schedule) \<times> ('c, 'l) ScheduleState" where
  "fetchSchedule env err clk i s =
     (case err of
        Some e \<Rightarrow> (Inl (ErrScheduleDB e), s)
      | None \<Rightarrow>
        (case find (\<lambda>r. rw_id r = i) (ss_rows s) of
           None \<Rightarrow> (Inl ErrScheduleNotFound, s)
         | Some r \<Rightarrow>
           (case toDomain (en_lib env) (en_dbLoc env) clk (en_gen env (ss_next s)) r of
              Inl e \<Rightarrow> (Inl (ErrSchedule e), s)
            | Inr d \<Rightarrow> (Inr d, drawn s))))"

text \<open>The same with the check of the user.\<close>

definition fetchOwn ::
  "('c, 'l) ScheduleEnv \<Rightarrow> string option \<Rightarrow> (nat \<Rightarrow> time) \<Rightarrow> string \<Rightarrow> string \<Rightarrow> ('c, 'l) ScheduleState
     \<Rightarrow> (sched_service_error + ('c, 'l) Schedule) \<times> ('c, 'l) ScheduleState" where
  "fetchOwn env err clk i userID s =
     (case fetchSchedule env err clk i s of
        (Inl e, s1) \<Rightarrow> (Inl e, s1)
      | (Inr d, s1) \<Rightarrow> (if sc_userID d \<noteq> userID then Inl ErrScheduleUnauthorized else Inr d, s1))"

record 'l UpdateScheduleCommand =
  us_ID :: string
  us_UserID :: string
  us_Name :: string
  us_Description :: string
  us_CronExpression :: string
  us_Timezone :: string
  us_StartDate :: "(time \<times> 'l) option"
  us_EndDate :: "(time \<times> 'l) option"
  us_InputData :: "dict option"

definition changedBy ::
  "('c, 'l) CronLib \<Rightarrow> (nat \<Rightarrow> time) \<Rightarrow> 'l UpdateScheduleCommand \<Rightarrow> ('c, 'l) Schedule \<Rightarrow> schedule_error + ('c, 'l) Schedule" where
  "changedBy lib clk cmd d0 =
     (case (if us_CronExpression cmd \<noteq> '''' \<and> us_CronExpression cmd \<noteq> sc_cronExpression d0
            then UpdateCronExpression lib clk (us_CronExpression cmd) d0 else Inr d0) of
        Inl e \<Rightarrow> Inl e
      | Inr d1 \<Rightarrow>
        (case (if us_Timezone cmd \<noteq> '''' \<and> us_Timezone cmd \<noteq> sc_timezone d1
               then UpdateTimezone lib (laterClock 2 clk) (us_Timezone cmd) d1 else Inr d1) of
           Inl e \<Rightarrow> Inl e
         | Inr d2 \<Rightarrow>
           let d3 = (if us_Description cmd \<noteq> '''' then SetDescription (laterClock 4 clk) (us_Description cmd) d2 else d2)
           in (case datesFrom (laterClock 5 clk) (us_StartDate cmd) (us_EndDate cmd) d3 of
                 Inl e \<Rightarrow> Inl e
               | Inr d4 \<Rightarrow> Inr (withInput (laterClock 7 clk) (us_InputData cmd) d4))))"

text \<open>
  Read, change, write: what \<open>UpdateSchedule\<close>, \<open>PauseSchedule\<close> and \<open>ResumeSchedule\<close> share. The clock of the change comes after
  that of the reading, the time of the row after both.
\<close>

definition rewritten ::
  "('c, 'l) ScheduleEnv \<Rightarrow> sanswers \<Rightarrow> (nat \<Rightarrow> time) \<Rightarrow> string \<Rightarrow> string
     \<Rightarrow> ((nat \<Rightarrow> time) \<Rightarrow> ('c, 'l) Schedule \<Rightarrow> schedule_error + ('c, 'l) Schedule) \<Rightarrow> ('c, 'l) ScheduleState
     \<Rightarrow> (sched_service_error + ('c, 'l) Schedule) \<times> ('c, 'l) ScheduleState" where
  "rewritten env db clk i userID f s =
     (case fetchOwn env (db 0) clk i userID s of
        (Inl e, s1) \<Rightarrow> (Inl e, s1)
      | (Inr d, s1) \<Rightarrow>
        (case f (laterClock 6 clk) d of
           Inl e \<Rightarrow> (Inl (ErrSchedule e), s1)
         | Inr d' \<Rightarrow>
           (case Schedule_Update (db 1) (clk 20) d' (ss_rows s1) of
              Inl e \<Rightarrow> (Inl e, s1)
            | Inr rows \<Rightarrow> (Inr d', s1\<lparr> ss_rows := rows \<rparr>))))"

definition Service_UpdateSchedule ::
  "('c, 'l) ScheduleEnv \<Rightarrow> sanswers \<Rightarrow> (nat \<Rightarrow> time) \<Rightarrow> 'l UpdateScheduleCommand \<Rightarrow> ('c, 'l) ScheduleState
     \<Rightarrow> ((sched_service_error + ('c, 'l) Schedule) \<times> ('c, 'l) ScheduleState) option" where
  "Service_UpdateSchedule env db clk cmd s =
     (case rewritten env db clk (us_ID cmd) (us_UserID cmd) (\<lambda>clk d. changedBy (en_lib env) clk cmd d) s of
        (Inl e, s1) \<Rightarrow> Some (Inl e, s1)
      | (Inr d, s1) \<Rightarrow>
        (case withScheduler (Scheduler_UpdateSchedule (en_lib env) d) (uncache env (us_ID cmd) s1) of
           None \<Rightarrow> None
         | Some s2 \<Rightarrow> Some (Inr d, announce env (sc_id d) s2)))"

text \<open>\<open>None\<close> is the zero value that the cache answers with; its user is the empty string.\<close>

definition Service_GetSchedule ::
  "('c, 'l) ScheduleEnv \<Rightarrow> sanswers \<Rightarrow> (nat \<Rightarrow> time) \<Rightarrow> time \<Rightarrow> string \<Rightarrow> string \<Rightarrow> ('c, 'l) ScheduleState
     \<Rightarrow> (sched_service_error + ('c, 'l) Schedule option) \<times> ('c, 'l) ScheduleState" where
  "Service_GetSchedule env db clk now i userID s =
     (if en_hasCache env \<and> (case ss_cache s i of None \<Rightarrow> False | Some t \<Rightarrow> now < t)
      then (if '''' \<noteq> userID then Inl ErrScheduleUnauthorized else Inr None, s)
      else (case fetchOwn env (db 0) clk i userID s of
          (Inl e, s1) \<Rightarrow> (Inl e, s1)
        | (Inr d, s1) \<Rightarrow>
            (Inr (Some d), if en_hasCache env then s1\<lparr> ss_cache := (ss_cache s1)(i \<mapsto> now + 5 * Minute) \<rparr> else s1)))"

text \<open>The first of the filters that is given decides the query.\<close>


record ListSchedulesQuery =
  lq_UserID :: string
  lq_WorkflowID :: string
  lq_OrganizationID :: string
  lq_Status :: "ScheduleStatus option option"
  lq_Offset :: nat
  lq_Limit :: nat

definition queried :: "ListSchedulesQuery \<Rightarrow> ScheduleRow list \<Rightarrow> ScheduleRow list" where
  "queried q rows =
     (if lq_WorkflowID q \<noteq> '''' then Schedule_FindByWorkflowID (lq_WorkflowID q) (lq_Offset q) (lq_Limit q) rows
      else if lq_OrganizationID q \<noteq> '''' then Schedule_FindByOrganizationID (lq_OrganizationID q) (lq_Offset q) (lq_Limit q) rows
      else (case lq_Status q of
          Some st \<Rightarrow> Schedule_FindByStatus st (lq_Offset q) (lq_Limit q) rows
        | None \<Rightarrow> Schedule_FindByUserID (lq_UserID q) (lq_Offset q) (lq_Limit q) rows))"

definition Service_ListSchedules ::
  "('c, 'l) ScheduleEnv \<Rightarrow> sanswers \<Rightarrow> (nat \<Rightarrow> nat \<Rightarrow> time) \<Rightarrow> ListSchedulesQuery \<Rightarrow> ('c, 'l) ScheduleState
     \<Rightarrow> (sched_service_error + ('c, 'l) Schedule list \<times> int) \<times> ('c, 'l) ScheduleState" where
  "Service_ListSchedules env db clks q s =
     (case db 0 of
        Some e \<Rightarrow> (Inl (ErrScheduleDB e), s)
      | None \<Rightarrow>
        let rows = queried q (ss_rows s);
            s1 = s\<lparr> ss_next := ss_next s + length rows \<rparr>
        in (case scanRows (en_lib env) (en_dbLoc env) clks (en_gen env) (ss_next s) rows of
              Inl e \<Rightarrow> (Inl (ErrSchedule e), s1)
            | Inr ds \<Rightarrow>
              (case db 1 of
                 Some e \<Rightarrow> (Inl (ErrScheduleDB e), s1)
               | None \<Rightarrow> (Inr (filter (\<lambda>d. sc_userID d = lq_UserID q) ds,
                   Schedule_CountByUserID (lq_UserID q) (ss_rows s)), s1))))"

definition Service_PauseSchedule ::
  "('c, 'l) ScheduleEnv \<Rightarrow> sanswers \<Rightarrow> (nat \<Rightarrow> time) \<Rightarrow> string \<Rightarrow> string \<Rightarrow> ('c, 'l) ScheduleState
     \<Rightarrow> ((sched_service_error + unit) \<times> ('c, 'l) ScheduleState) option" where
  "Service_PauseSchedule env db clk i userID s =
     (case rewritten env db clk i userID Pause s of
        (Inl e, s1) \<Rightarrow> Some (Inl e, s1)
      | (Inr d, s1) \<Rightarrow> map_option (\<lambda>s2. (Inr (), uncache env i s2)) (withScheduler (Scheduler_PauseSchedule i) s1))"

definition Service_ResumeSchedule ::
  "('c, 'l) ScheduleEnv \<Rightarrow> sanswers \<Rightarrow> (nat \<Rightarrow> time) \<Rightarrow> string \<Rightarrow> string \<Rightarrow> ('c, 'l) ScheduleState
     \<Rightarrow> ((sched_service_error + unit) \<times> ('c, 'l) ScheduleState) option" where
  "Service_ResumeSchedule env db clk i userID s =
     (case rewritten env db clk i userID (Resume (en_lib env)) s of
        (Inl e, s1) \<Rightarrow> Some (Inl e, s1)
      | (Inr d, s1) \<Rightarrow>
          map_option (\<lambda>s2. (Inr (), uncache env i s2)) (withScheduler (Scheduler_ResumeSchedule (en_lib env) d) s1))"

definition Service_DeleteSchedule ::
  "('c, 'l) ScheduleEnv \<Rightarrow> sanswers \<Rightarrow> (nat \<Rightarrow> time) \<Rightarrow> string \<Rightarrow> string \<Rightarrow> ('c, 'l) ScheduleState
     \<Rightarrow> ((sched_service_error + unit) \<times> ('c, 'l) ScheduleState) option" where
  "Service_DeleteSchedule env db clk i userID s =
     (case fetchOwn env (db 0) clk i userID s of
        (Inl e, s1) \<Rightarrow> Some (Inl e, s1)
      | (Inr d, s1) \<Rightarrow>
        (case Schedule_Delete (db 1) i (ss_rows s1) of
           Inl e \<Rightarrow> Some (Inl e, s1)
         | Inr rows \<Rightarrow>
             map_option (\<lambda>s2. (Inr (), announce env i (uncache env i s2)))
               (withScheduler (RemoveSchedule i) (s1\<lparr> ss_rows := rows \<rparr>))))"

text \<open>The execution of a schedule by the scheduler, over the table.\<close>

definition runSchedule ::
  "('c, 'l) ScheduleEnv \<Rightarrow> string option \<Rightarrow> (nat \<Rightarrow> time) \<Rightarrow> ('c, 'l) Schedule \<Rightarrow> ('c, 'l) ScheduleState \<Rightarrow> ('c, 'l) ScheduleState" where
  "runSchedule env err clk d s =
     (let s1 = announce env (sc_id d) s in
      case Schedule_Update err (clk 4) (executed (en_lib env) (\<lambda>_. clk) (en_publisher env) d) (ss_rows s1) of
        Inl e \<Rightarrow> s1
      | Inr rows \<Rightarrow> s1\<lparr> ss_rows := rows \<rparr>)"

definition Service_ExecuteSchedule ::
  "('c, 'l) ScheduleEnv \<Rightarrow> sanswers \<Rightarrow> (nat \<Rightarrow> time) \<Rightarrow> string \<Rightarrow> string \<Rightarrow> ('c, 'l) ScheduleState
     \<Rightarrow> (sched_service_error + unit) \<times> ('c, 'l) ScheduleState" where
  "Service_ExecuteSchedule env db clk i userID s =
     (case fetchOwn env (db 0) clk i userID s of
        (Inl e, s1) \<Rightarrow> (Inl e, s1)
      | (Inr d, s1) \<Rightarrow> (Inr (), runSchedule env (db 1) (laterClock 6 clk) d s1))"

text \<open>Starting the service loads the active schedules, at most ten thousand.\<close>

definition loadActive ::
  "('c, 'l) ScheduleEnv \<Rightarrow> string option \<Rightarrow> (nat \<Rightarrow> nat \<Rightarrow> time) \<Rightarrow> ('c, 'l) ScheduleState \<Rightarrow> string + ('c, 'l) Schedule list" where
  "loadActive env err clks s =
     (case err of
        Some e \<Rightarrow> Inl e
      | None \<Rightarrow>
        (case scanRows (en_lib env) (en_dbLoc env) clks (en_gen env) (ss_next s)
            (Schedule_FindByStatus (Some ScheduleStatusActive) 0 10000 (ss_rows s)) of
           Inl e \<Rightarrow> Inl ''failed to reconstruct schedule''
         | Inr ds \<Rightarrow> Inr ds))"

definition Service_Start ::
  "('c, 'l) ScheduleEnv \<Rightarrow> string option \<Rightarrow> (nat \<Rightarrow> nat \<Rightarrow> time) \<Rightarrow> ('c, 'l) ScheduleState
     \<Rightarrow> (string option \<times> ('c, 'l) ScheduleState) option" where
  "Service_Start env err clks s =
     (case Scheduler_Start (en_lib env) (loadActive env err clks s) (ss_scheduler s) of
        None \<Rightarrow> None
      | Some (r, sd) \<Rightarrow> Some (r, s\<lparr> ss_scheduler := sd, ss_next := ss_next s + length (ss_rows s) \<rparr>))"

definition Service_Stop :: "('c, 'l) ScheduleState \<Rightarrow> ('c, 'l) ScheduleState option" where
  "Service_Stop s = withScheduler Scheduler_Stop s"

text \<open>The check of every minute over the table: at most one hundred due schedules, in the order of their next runs.\<close>

fun runDue ::
  "('c, 'l) ScheduleEnv \<Rightarrow> sanswers \<Rightarrow> (nat \<Rightarrow> nat \<Rightarrow> time) \<Rightarrow> time \<Rightarrow> nat \<Rightarrow> ('c, 'l) Schedule list \<Rightarrow> ('c, 'l) ScheduleState
     \<Rightarrow> ('c, 'l) ScheduleState option" where
  "runDue env db clks now k [] s = Some s"
| "runDue env db clks now k (d # ds) s =
     (if \<not> ShouldRun now d then runDue env db clks now (k + 1) ds s
      else if sd_locked (ss_scheduler s) then None
      else if sd_jobs (ss_scheduler s) (sc_id d) \<noteq> None then runDue env db clks now (k + 1) ds s
      else (case withScheduler (RegisterSchedule (en_lib env) d) s of
          None \<Rightarrow> None
        | Some s1 \<Rightarrow> runDue env db clks now (k + 1) ds (runSchedule env (db k) (clks k) d s1)))"

definition periodicCheck ::
  "('c, 'l) ScheduleEnv \<Rightarrow> sanswers \<Rightarrow> (nat \<Rightarrow> nat \<Rightarrow> time) \<Rightarrow> time \<Rightarrow> ('c, 'l) ScheduleState \<Rightarrow> ('c, 'l) ScheduleState option" where
  "periodicCheck env db clks now s =
     (case db 0 of
        Some e \<Rightarrow> Some s
      | None \<Rightarrow>
        let rows = dueRows now 100 (ss_rows s);
            s1 = s\<lparr> ss_next := ss_next s + length rows \<rparr>
        in (case scanRows (en_lib env) (en_dbLoc env) clks (en_gen env) (ss_next s) rows of
              Inl e \<Rightarrow> Some s1
            | Inr ds \<Rightarrow> runDue env (\<lambda>k. db (k + 1)) (\<lambda>k. laterClock 6 (clks (ss_next s + k))) now 0 ds s1))"

section \<open>What is read back\<close>

definition readable :: "('c, 'l) CronLib \<Rightarrow> ScheduleRow \<Rightarrow> bool" where
  "readable lib r \<longleftrightarrow> rw_userID r \<noteq> '''' \<and> rw_workflowID r \<noteq> '''' \<and> rw_name r \<noteq> '''' \<and> rw_cronExpression r \<noteq> ''''
     \<and> cl_Parse lib (rw_cronExpression r) \<noteq> None \<and> cl_LoadLocation lib (rw_timezone r) \<noteq> None"

text \<open>A schedule with a new identifier that has never run.\<close>

definition asNew :: "string \<Rightarrow> ('c, 'l) Schedule \<Rightarrow> bool" where
  "asNew i d \<longleftrightarrow> sc_id d = i \<and> sc_runCount d = 0 \<and> sc_lastRunAt d = None
     \<and> (sc_status d = ScheduleStatusActive \<or> sc_status d = ScheduleStatusExpired)"

lemma NewSchedule_asNew:
  "NewSchedule lib clk i u w n e tz = Inr d \<Longrightarrow> asNew i d \<and> sc_userID d = u
     \<and> (\<exists>loc. sc_nextRunAt d = Some (cl_Next lib (sc_cronSchedule d) loc (clk 1)))"
  by (auto simp: NewSchedule_def Let_def asNew_def calculateNextRun_def afterEnd_def split: if_splits option.splits)

lemma NewSchedule_ok:
  "(\<exists>d. NewSchedule lib clk i u w n e tz = Inr d) \<longleftrightarrow> u \<noteq> '''' \<and> w \<noteq> '''' \<and> n \<noteq> '''' \<and> e \<noteq> '''' \<and> cl_Parse lib e \<noteq> None
     \<and> cl_LoadLocation lib tz \<noteq> None"
  by (auto simp: NewSchedule_def Let_def split: option.split)

lemma datesFrom_keeps:
  assumes "datesFrom clk a b d = Inr d'"
  shows "sc_id d' = sc_id d \<and> sc_userID d' = sc_userID d \<and> sc_nextRunAt d' = sc_nextRunAt d \<and> (asNew i d \<longrightarrow> asNew i d')
    \<and> sc_cronExpression d' = sc_cronExpression d \<and> sc_timezone d' = sc_timezone d \<and> sc_workflowID d' = sc_workflowID d
    \<and> sc_name d' = sc_name d \<and> sc_cronSchedule d' = sc_cronSchedule d"
  using assms by (auto simp: datesFrom_def SetDateRange_def Let_def touched_def asNew_def split: if_splits)

lemma toDomain_new:
  assumes "toDomain lib dbLoc clk i r = Inr d"
  shows "asNew i d \<and> sc_userID d = rw_userID r \<and> (\<exists>c loc. sc_nextRunAt d = Some (cl_Next lib c loc (clk 1)))"
proof -
  obtain d0 where d0: "NewSchedule lib clk i (rw_userID r) (rw_workflowID r) (rw_name r) (rw_cronExpression r) (rw_timezone r) = Inr d0"
    using assms by (auto simp: toDomain_def split: sum.splits)
  let ?d2 = "SetDescription (laterClock 3 clk) (rw_description r) (SetOrganizationID (laterClock 2 clk) (rw_organizationID r) d0)"
  let ?dates = "datesFrom (laterClock 4 clk) (map_option (\<lambda>t. (t, dbLoc)) (rw_startDate r)) (map_option (\<lambda>t. (t, dbLoc)) (rw_endDate r)) ?d2"
  have d2: "asNew i ?d2" "sc_userID ?d2 = rw_userID r" "\<exists>c loc. sc_nextRunAt ?d2 = Some (cl_Next lib c loc (clk 1))"
    using NewSchedule_asNew[OF d0] by (auto simp: SetDescription_def SetOrganizationID_def touched_def asNew_def)
  have d: "d = (case ?dates of Inl e \<Rightarrow> ?d2 | Inr d3 \<Rightarrow> d3)"
    using assms d0 by (simp add: toDomain_def Let_def)
  show ?thesis
  proof (cases ?dates)
    case (Inr d3)
    from datesFrom_keeps[OF Inr, of i] d2 d Inr show ?thesis by simp
  qed (use d d2 in simp)
qed

lemma toDomain_next:
  assumes "toDomain lib dbLoc clk i r = Inr d"
  shows "\<exists>c loc. cl_Parse lib (rw_cronExpression r) = Some c \<and> cl_LoadLocation lib (rw_timezone r) = Some loc
    \<and> sc_nextRunAt d = Some (cl_Next lib c loc (clk 1))"
proof -
  obtain d0 where d0: "NewSchedule lib clk i (rw_userID r) (rw_workflowID r) (rw_name r) (rw_cronExpression r) (rw_timezone r) = Inr d0"
    using assms by (auto simp: toDomain_def split: sum.splits)
  have "sc_nextRunAt d = sc_nextRunAt d0"
    using assms d0 by (auto simp: toDomain_def Let_def SetDescription_def SetOrganizationID_def touched_def
        dest: datesFrom_keeps split: sum.splits)
  with d0 show ?thesis
    by (auto simp: NewSchedule_def Let_def calculateNextRun_def afterEnd_def split: if_splits option.splits)
qed

lemma toDomain_readable: "(\<exists>d. toDomain lib dbLoc clk i r = Inr d) \<longleftrightarrow> readable lib r"
proof -
  have "(\<exists>d. toDomain lib dbLoc clk i r = Inr d) \<longleftrightarrow>
      (\<exists>d. NewSchedule lib clk i (rw_userID r) (rw_workflowID r) (rw_name r) (rw_cronExpression r) (rw_timezone r) = Inr d)"
    by (simp add: toDomain_def Let_def split: sum.split)
  then show ?thesis
    by (simp add: NewSchedule_ok readable_def)
qed

lemma scanRows_readable:
  "list_all (readable lib) rows \<Longrightarrow> \<exists>ds. scanRows lib dbLoc clks gen n rows = Inr ds \<and> length ds = length rows"
proof (induction rows arbitrary: n)
  case (Cons r rows)
  then obtain d ds where "toDomain lib dbLoc (clks n) (gen n) r = Inr d" "scanRows lib dbLoc clks gen (n + 1) rows = Inr ds" "length ds = length rows"
    using toDomain_readable[of lib dbLoc "clks n" "gen n" r] by fastforce
  then show ?case by simp
qed simp

lemma fetchSchedule_new:
  assumes "fetchSchedule env err clk i s = (Inr d, s1)"
  shows "asNew (en_gen env (ss_next s)) d \<and> s1 = drawn s"
  using assms toDomain_new by (fastforce simp: fetchSchedule_def split: option.splits sum.splits)

lemma fetchOwn_new:
  assumes "fetchOwn env err clk i u s = (Inr d, s1)"
  shows "asNew (en_gen env (ss_next s)) d \<and> s1 = drawn s"
  using assms fetchSchedule_new by (fastforce simp: fetchOwn_def split: prod.splits sum.splits if_splits)

lemma fetchOwn_failed: "fetchOwn env err clk i u s = (Inl e, s1) \<Longrightarrow> s1 = s \<or> s1 = drawn s"
  by (auto simp: fetchOwn_def fetchSchedule_def split: option.splits prod.splits sum.splits if_splits)

section \<open>Nothing stored ever changes\<close>

definition ids_drawn :: "('c, 'l) ScheduleEnv \<Rightarrow> ('c, 'l) ScheduleState \<Rightarrow> bool" where
  "ids_drawn env s \<longleftrightarrow> inj (en_gen env) \<and> (\<forall>r \<in> set (ss_rows s). \<exists>j < ss_next s. rw_id r = en_gen env j)"

lemma ids_drawn_fresh: "ids_drawn env s \<Longrightarrow> r \<in> set (ss_rows s) \<Longrightarrow> rw_id r \<noteq> en_gen env (ss_next s + k)"
  by (fastforce simp: ids_drawn_def dest: injD)

text \<open>An update of what was read back meets no row: the identifier is a new one.\<close>

lemma Schedule_Update_refused: "\<forall>r \<in> set rows. rw_id r \<noteq> sc_id d \<Longrightarrow> \<exists>e. Schedule_Update err now d rows = Inl e"
  by (auto simp: Schedule_Update_def Let_def list_ex_iff split: option.split)

lemma rewritten_refused:
  assumes "ids_drawn env s" and "\<And>clk d d'. f clk d = Inr d' \<Longrightarrow> sc_id d' = sc_id d"
  shows "\<exists>e s1. rewritten env db clk i u f s = (Inl e, s1) \<and> (s1 = s \<or> s1 = drawn s)"
proof -
  obtain res s1 where fetched: "fetchOwn env (db 0) clk i u s = (res, s1)"
    by (cases "fetchOwn env (db 0) clk i u s")
  show ?thesis
  proof (cases res)
    case (Inl e)
    then show ?thesis
      using fetched fetchOwn_failed[of env "db 0" clk i u s e s1] by (simp add: rewritten_def)
  next
    case (Inr d)
    have new: "sc_id d = en_gen env (ss_next s)" "s1 = drawn s"
      using fetchOwn_new[of env "db 0" clk i u s d s1] fetched Inr by (simp_all add: asNew_def)
    show ?thesis
    proof (cases "f (laterClock 6 clk) d")
      case Changed: (Inr d')
      have "\<forall>r \<in> set (ss_rows s). rw_id r \<noteq> sc_id d'"
        using ids_drawn_fresh[OF assms(1), where k = 0] assms(2)[OF Changed] new(1) by simp
      from Schedule_Update_refused[OF this] obtain e where "Schedule_Update (db 1) (clk 20) d' (ss_rows s) = Inl e" by blast
      then show ?thesis
        using fetched Inr Changed new(2) by (simp add: rewritten_def drawn_def)
    qed (use fetched Inr new(2) in \<open>simp add: rewritten_def\<close>)
  qed
qed

lemma change_ids:
  "Pause clk d = Inr d' \<Longrightarrow> sc_id d' = sc_id d"
  "Resume lib clk d = Inr d' \<Longrightarrow> sc_id d' = sc_id d"
  "UpdateCronExpression lib clk e d = Inr d' \<Longrightarrow> sc_id d' = sc_id d"
  "UpdateTimezone lib clk e d = Inr d' \<Longrightarrow> sc_id d' = sc_id d"
  by (auto simp: Pause_def Resume_def UpdateCronExpression_def UpdateTimezone_def Let_def touched_def recalculated_def
      split: if_splits option.splits)

lemma withInput_keeps [simp]:
  "sc_id (withInput clk input d) = sc_id d" "rowOf (withInput clk input d) =
     (rowOf d)\<lparr> rw_updatedAt := sc_updatedAt (withInput clk input d) \<rparr>"
  by (auto simp: withInput_def SetInputData_def touched_def rowOf_def split: option.split)

lemma changedBy_id: "changedBy lib clk cmd d = Inr d' \<Longrightarrow> sc_id d' = sc_id d"
  by (auto simp: changedBy_def Let_def SetDescription_def touched_def dest!: change_ids datesFrom_keeps split: sum.splits if_splits)

lemma executed_id [simp]: "sc_id (executed lib clks pub d) = sc_id d"
  by (simp add: executed_def RecordRun_def countRun_def recalculated_def touched_def Let_def split: option.split)

lemma runSchedule_keeps:
  assumes "\<forall>r \<in> set (ss_rows s). rw_id r \<noteq> sc_id d"
  shows "runSchedule env err clk d s = announce env (sc_id d) s"
proof -
  have "\<forall>r \<in> set (ss_rows (announce env (sc_id d) s)). rw_id r \<noteq> sc_id (executed (en_lib env) (\<lambda>_. clk) (en_publisher env) d)"
    using assms by (simp add: announce_def split: option.split)
  from Schedule_Update_refused[OF this, of err "clk 4"] show ?thesis
    by (auto simp: runSchedule_def Let_def)
qed

text \<open>The calls of the service, its start and stop, and the check of every minute. A sequence of calls is None from the first
  that does not return.\<close>

datatype ('c, 'l) scall =
    CallCreate sanswers "nat \<Rightarrow> time" "'l CreateScheduleCommand"
  | CallUpdate sanswers "nat \<Rightarrow> time" "'l UpdateScheduleCommand"
  | CallGet sanswers "nat \<Rightarrow> time" time string string
  | CallList sanswers "nat \<Rightarrow> nat \<Rightarrow> time" ListSchedulesQuery
  | CallPause sanswers "nat \<Rightarrow> time" string string
  | CallResume sanswers "nat \<Rightarrow> time" string string
  | CallDelete sanswers "nat \<Rightarrow> time" string string
  | CallExecute sanswers "nat \<Rightarrow> time" string string
  | CallStart "string option" "nat \<Rightarrow> nat \<Rightarrow> time"
  | CallStop
  | CallCheck sanswers "nat \<Rightarrow> nat \<Rightarrow> time" time

fun perform :: "('c, 'l) ScheduleEnv \<Rightarrow> ('c, 'l) scall \<Rightarrow> ('c, 'l) ScheduleState \<Rightarrow> ('c, 'l) ScheduleState option" where
  "perform env (CallCreate db clk cmd) s = map_option snd (Service_CreateSchedule env db clk cmd s)"
| "perform env (CallUpdate db clk cmd) s = map_option snd (Service_UpdateSchedule env db clk cmd s)"
| "perform env (CallGet db clk now i u) s = Some (snd (Service_GetSchedule env db clk now i u s))"
| "perform env (CallList db clks q) s = Some (snd (Service_ListSchedules env db clks q s))"
| "perform env (CallPause db clk i u) s = map_option snd (Service_PauseSchedule env db clk i u s)"
| "perform env (CallResume db clk i u) s = map_option snd (Service_ResumeSchedule env db clk i u s)"
| "perform env (CallDelete db clk i u) s = map_option snd (Service_DeleteSchedule env db clk i u s)"
| "perform env (CallExecute db clk i u) s = Some (snd (Service_ExecuteSchedule env db clk i u s))"
| "perform env (CallStart err clks) s = map_option snd (Service_Start env err clks s)"
| "perform env CallStop s = Service_Stop s"
| "perform env (CallCheck db clks now) s = periodicCheck env db clks now s"

primrec scalls :: "('c, 'l) ScheduleEnv \<Rightarrow> ('c, 'l) scall list \<Rightarrow> ('c, 'l) ScheduleState \<Rightarrow> ('c, 'l) ScheduleState option" where
  "scalls env [] s = Some s"
| "scalls env (c # cs) s = (case perform env c s of None \<Rightarrow> None | Some s1 \<Rightarrow> scalls env cs s1)"

text \<open>A row as it was saved, and a step from \<open>s\<close> to \<open>s'\<close>: rows go, rows come, and none is changed.\<close>

definition as_saved :: "('c, 'l) CronLib \<Rightarrow> ScheduleRow \<Rightarrow> bool" where
  "as_saved lib r \<longleftrightarrow> readable lib r \<and> rw_runCount r = 0 \<and> rw_lastRunAt r = None
     \<and> (rw_status r = ScheduleStatusActive \<or> rw_status r = ScheduleStatusExpired)"

definition only_added ::
  "('c, 'l) ScheduleEnv \<Rightarrow> ('c, 'l) ScheduleState \<Rightarrow> ('c, 'l) ScheduleState \<Rightarrow> bool" where
  "only_added env s s' \<longleftrightarrow> ids_drawn env s' \<and> ss_next s \<le> ss_next s'
     \<and> (\<forall>r \<in> set (ss_rows s'). r \<in> set (ss_rows s) \<or> as_saved (en_lib env) r \<and> (\<exists>j \<ge> ss_next s. rw_id r = en_gen env j))"

lemma only_added_same:
  "ids_drawn env s \<Longrightarrow> set (ss_rows s') \<subseteq> set (ss_rows s) \<Longrightarrow> ss_next s \<le> ss_next s' \<Longrightarrow> only_added env s s'"
  unfolding only_added_def ids_drawn_def by (meson less_le_trans subsetD)

lemma only_added_trans:
  assumes "only_added env s s1" and "only_added env s1 s2"
  shows "only_added env s s2"
  using assms unfolding only_added_def by (meson order_trans)

lemma same_rows [simp]:
  "ss_rows (announce env i s) = ss_rows s" "ss_rows (uncache env i s) = ss_rows s" "ss_rows (drawn s) = ss_rows s"
  "ss_next (announce env i s) = ss_next s" "ss_next (uncache env i s) = ss_next s" "ss_next (drawn s) = ss_next s + 1"
  by (simp_all add: announce_def uncache_def drawn_def split: option.split)

lemma withScheduler_rows [simp]: "withScheduler f s = Some s' \<Longrightarrow> ss_rows s' = ss_rows s \<and> ss_next s' = ss_next s"
  by (auto simp: withScheduler_def split: option.splits)

lemma created_untouched:
  assumes "createdBy lib clk i cmd = Inr d" and "Schedule_Validate lib d = None"
  shows "as_saved lib (rowOf d) \<and> rw_id (rowOf d) = i"
proof -
  obtain d0 where d0: "NewSchedule lib clk i (cs_UserID cmd) (cs_WorkflowID cmd) (cs_Name cmd) (cs_CronExpression cmd) (cs_Timezone cmd) = Inr d0"
    using assms(1) by (auto simp: createdBy_def split: sum.splits)
  define d1 where "d1 = (if cs_OrganizationID cmd \<noteq> '''' then SetOrganizationID (laterClock 2 clk) (cs_OrganizationID cmd) d0 else d0)"
  define d2 where "d2 = (if cs_Description cmd \<noteq> '''' then SetDescription (laterClock 3 clk) (cs_Description cmd) d1 else d1)"
  have "createdBy lib clk i cmd = (case datesFrom (laterClock 4 clk) (cs_StartDate cmd) (cs_EndDate cmd) d2 of
      Inl e \<Rightarrow> Inl e | Inr d3 \<Rightarrow> Inr (withInput (laterClock 6 clk) (cs_InputData cmd) d3))"
    unfolding createdBy_def d0 d1_def d2_def Let_def by (simp only: sum.case)
  then obtain d3 where d3: "datesFrom (laterClock 4 clk) (cs_StartDate cmd) (cs_EndDate cmd) d2 = Inr d3"
      "d = withInput (laterClock 6 clk) (cs_InputData cmd) d3"
    using assms(1) by (cases "datesFrom (laterClock 4 clk) (cs_StartDate cmd) (cs_EndDate cmd) d2") auto
  have "asNew i d2"
    using NewSchedule_asNew[OF d0] by (simp add: d1_def d2_def SetOrganizationID_def SetDescription_def touched_def asNew_def)
  then have "asNew i d3"
    using datesFrom_keeps[OF d3(1), of i] by simp
  moreover have "readable lib (rowOf d)"
    using assms(2) by (auto simp: Schedule_Validate_def readable_def rowOf_def split: if_splits)
  ultimately show ?thesis
    unfolding d3(2) by (auto simp: as_saved_def readable_def asNew_def) (simp_all add: rowOf_def)
qed

lemma Schedule_Save_ok: "Schedule_Save err d rows = Inr rows' \<Longrightarrow> rows' = rows @ [rowOf d]"
  by (auto simp: Schedule_Save_def split: option.splits if_splits)

lemma only_added_new:
  assumes "ids_drawn env s" and "as_saved (en_lib env) r" and "rw_id r = en_gen env (ss_next s)"
    and "ss_rows s' = ss_rows s @ [r]" and "ss_next s' = ss_next s + 1"
  shows "only_added env s s'"
proof -
  have inj: "inj (en_gen env)" and old: "\<forall>x \<in> set (ss_rows s). \<exists>j < ss_next s'. rw_id x = en_gen env j"
    using assms(1) by (auto simp: ids_drawn_def assms(5) intro: less_SucI)
  have "\<exists>j < ss_next s'. rw_id r = en_gen env j"
    using assms(3,5) by auto
  with inj old assms(2,3) show ?thesis
    unfolding only_added_def ids_drawn_def assms(4) by (auto simp: assms(5))
qed

lemma create_only_adds:
  assumes "ids_drawn env s" and "Service_CreateSchedule env db clk cmd s = Some (res, s')"
  shows "only_added env s s'"
proof (cases "ss_rows s' = ss_rows s \<and> ss_next s' = ss_next s + 1")
  case True
  then show ?thesis
    using only_added_same[OF assms(1)] by simp
next
  case False
  then obtain d rows where d: "createdBy (en_lib env) clk (en_gen env (ss_next s)) cmd = Inr d" "Schedule_Validate (en_lib env) d = None"
      "Schedule_Save (db 0) d (ss_rows s) = Inr rows"
    using assms(2) by (auto simp: Service_CreateSchedule_def Let_def split: sum.splits if_splits)
  have "ss_rows s' = rows \<and> ss_next s' = ss_next s + 1"
    using assms(2) d by (auto simp: Service_CreateSchedule_def Let_def finish_def)
  with created_untouched[OF d(1,2)] Schedule_Save_ok[OF d(3)] show ?thesis
    by (intro only_added_new[OF assms(1), of "rowOf d"]) simp_all
qed

lemma rewritten_only_adds:
  assumes "ids_drawn env s" and "\<And>clk d d'. f clk d = Inr d' \<Longrightarrow> sc_id d' = sc_id d"
    and "rewritten env db clk i u f s = (res, s1)"
  shows "(\<exists>e. res = Inl e) \<and> only_added env s s1"
  using rewritten_refused[of env s f db clk i u] assms only_added_same[OF assms(1)] by auto

text \<open>So none of the three calls that change a schedule ever succeeds.\<close>

lemma change_refused:
  assumes "ids_drawn env s"
  shows "\<exists>e s'. Service_UpdateSchedule env db clk cmd s = Some (Inl e, s') \<and> only_added env s s'"
    and "\<exists>e s'. Service_PauseSchedule env db clk i u s = Some (Inl e, s') \<and> only_added env s s'"
    and "\<exists>e s'. Service_ResumeSchedule env db clk i u s = Some (Inl e, s') \<and> only_added env s s'"
proof -
  show "\<exists>e s'. Service_UpdateSchedule env db clk cmd s = Some (Inl e, s') \<and> only_added env s s'"
    using rewritten_refused[OF assms, of "\<lambda>clk d. changedBy (en_lib env) clk cmd d" db clk "us_ID cmd" "us_UserID cmd"]
      changedBy_id only_added_same[OF assms] by (fastforce simp: Service_UpdateSchedule_def)
  show "\<exists>e s'. Service_PauseSchedule env db clk i u s = Some (Inl e, s') \<and> only_added env s s'"
    using rewritten_refused[OF assms, of Pause db clk i u] change_ids(1) only_added_same[OF assms]
    by (fastforce simp: Service_PauseSchedule_def)
  show "\<exists>e s'. Service_ResumeSchedule env db clk i u s = Some (Inl e, s') \<and> only_added env s s'"
    using rewritten_refused[OF assms, of "Resume (en_lib env)" db clk i u] change_ids(2) only_added_same[OF assms]
    by (fastforce simp: Service_ResumeSchedule_def)
qed

lemma fetchOwn_same:
  assumes "fetchOwn env err clk i u s = (res, s1)"
  shows "ss_rows s1 = ss_rows s \<and> ss_next s \<le> ss_next s1"
  using assms fetchOwn_new[of env err clk i u s] fetchOwn_failed[of env err clk i u s] by (cases res) auto

lemma delete_only_adds:
  assumes "ids_drawn env s" and "Service_DeleteSchedule env db clk i u s = Some (res, s')"
  shows "only_added env s s'"
proof -
  obtain got s1 where got: "fetchOwn env (db 0) clk i u s = (got, s1)"
    by (cases "fetchOwn env (db 0) clk i u s")
  have "set (ss_rows s') \<subseteq> set (ss_rows s1) \<and> ss_next s' = ss_next s1"
    using assms(2) got by (auto simp: Service_DeleteSchedule_def Schedule_Delete_def split: sum.splits option.splits if_splits)
  with fetchOwn_same[OF got] show ?thesis
    by (intro only_added_same[OF assms(1)]) auto
qed

lemma runSchedule_only:
  assumes "ids_drawn env s0" and "ss_rows s = ss_rows s0" and "asNew (en_gen env (ss_next s0 + k)) d"
  shows "runSchedule env err clk d s = announce env (sc_id d) s"
  by (rule runSchedule_keeps) (use assms ids_drawn_fresh[OF assms(1), where k = k] in \<open>auto simp: asNew_def\<close>)

lemma execute_only_adds:
  assumes "ids_drawn env s"
  shows "only_added env s (snd (Service_ExecuteSchedule env db clk i u s))"
proof -
  obtain got s1 where got: "fetchOwn env (db 0) clk i u s = (got, s1)"
    by (cases "fetchOwn env (db 0) clk i u s")
  show ?thesis
  proof (cases got)
    case (Inr d)
    have "asNew (en_gen env (ss_next s + 0)) d"
      using fetchOwn_new[of env "db 0" clk i u s d s1] got Inr by simp
    from runSchedule_only[OF assms _ this] fetchOwn_same[OF got] got Inr show ?thesis
      by (intro only_added_same[OF assms]) (simp_all add: Service_ExecuteSchedule_def)
  qed (use got fetchOwn_same[OF got] in \<open>simp add: Service_ExecuteSchedule_def only_added_same[OF assms]\<close>)
qed

lemma scanRows_new:
  "scanRows lib dbLoc clks gen n rows = Inr ds \<Longrightarrow> \<forall>d \<in> set ds. \<exists>k. asNew (gen (n + k)) d"
proof (induction rows arbitrary: n ds)
  case (Cons r rows)
  then obtain d ds' where d: "toDomain lib dbLoc (clks n) (gen n) r = Inr d" "scanRows lib dbLoc clks gen (n + 1) rows = Inr ds'" "ds = d # ds'"
    by (auto split: sum.splits)
  have "\<exists>k. asNew (gen (n + k)) d"
    using toDomain_new[OF d(1)] by (metis add_0_right)
  moreover have "\<forall>d \<in> set ds'. \<exists>k. asNew (gen (n + k)) d"
    using Cons.IH[OF d(2)] by (metis add.assoc)
  ultimately show ?case
    by (simp add: d(3))
qed simp

lemma runDue_keeps:
  assumes "ids_drawn env s0" and "ss_rows s = ss_rows s0" and "\<forall>d \<in> set ds. \<exists>k. asNew (en_gen env (ss_next s0 + k)) d"
    and "runDue env db clks now k ds s = Some s'"
  shows "ss_rows s' = ss_rows s0 \<and> ss_next s' = ss_next s"
  using assms(2-4)
proof (induction ds arbitrary: k s)
  case (Cons d ds)
  show ?case
  proof (cases "ShouldRun now d \<and> sd_jobs (ss_scheduler s) (sc_id d) = None")
    case False
    with Cons show ?thesis by (auto split: if_splits)
  next
    case True
    then obtain s1 where s1: "withScheduler (RegisterSchedule (en_lib env) d) s = Some s1"
        "runDue env db clks now (k + 1) ds (runSchedule env (db k) (clks k) d s1) = Some s'"
      using Cons.prems(3) by (auto split: if_splits option.splits)
    obtain j where "asNew (en_gen env (ss_next s0 + j)) d"
      using Cons.prems(2) by auto
    then have "runSchedule env (db k) (clks k) d s1 = announce env (sc_id d) s1"
      by (intro runSchedule_only[OF assms(1)]) (use withScheduler_rows[OF s1(1)] Cons.prems(1) in auto)
    with Cons.IH[OF _ _ s1(2)] withScheduler_rows[OF s1(1)] Cons.prems(1,2) show ?thesis
      by simp
  qed
qed simp

lemma periodicCheck_only_adds:
  assumes "ids_drawn env s" and "periodicCheck env db clks now s = Some s'"
  shows "only_added env s s'"
proof -
  have "ss_rows s' = ss_rows s \<and> ss_next s \<le> ss_next s'"
  proof (cases "db 0")
    case None
    let ?rows = "dueRows now 100 (ss_rows s)"
    show ?thesis
    proof (cases "scanRows (en_lib env) (en_dbLoc env) clks (en_gen env) (ss_next s) ?rows")
      case (Inr ds)
      with assms(2) None have "runDue env (\<lambda>k. db (k + 1)) (\<lambda>k. laterClock 6 (clks (ss_next s + k))) now 0 ds
          (s\<lparr> ss_next := ss_next s + length ?rows \<rparr>) = Some s'"
        by (simp add: periodicCheck_def Let_def)
      from runDue_keeps[OF assms(1) _ scanRows_new[OF Inr] this] show ?thesis
        by simp
    qed (use assms(2) None in \<open>auto simp: periodicCheck_def Let_def\<close>)
  qed (use assms(2) in \<open>auto simp: periodicCheck_def\<close>)
  then show ?thesis
    by (intro only_added_same[OF assms(1)]) auto
qed

section \<open>The check of every minute starts nothing\<close>

text \<open>A row whose expression has no time after \<open>t\<close> in its zone.\<close>

definition noNextTime :: "('c, 'l) CronLib \<Rightarrow> time \<Rightarrow> ScheduleRow \<Rightarrow> bool" where
  "noNextTime lib t r =
     (case cl_Parse lib (rw_cronExpression r) of
        None \<Rightarrow> False
      | Some c \<Rightarrow> (case cl_LoadLocation lib (rw_timezone r) of None \<Rightarrow> False | Some loc \<Rightarrow> cl_Next lib c loc t = zero_time))"

text \<open>What is read back runs next after the moment at which it was read, if its expression has a next time.\<close>

lemma toDomain_not_due:
  assumes "toDomain lib dbLoc clk i r = Inr d" and "next_law lib" and "now \<le> clk 1" and "\<not> noNextTime lib (clk 1) r"
  shows "\<not> ShouldRun now d"
proof -
  obtain c loc where "cl_Parse lib (rw_cronExpression r) = Some c" "cl_LoadLocation lib (rw_timezone r) = Some loc"
      and next_run: "sc_nextRunAt d = Some (cl_Next lib c loc (clk 1))"
    using toDomain_next[OF assms(1)] by blast
  with assms(4) have "cl_Next lib c loc (clk 1) \<noteq> zero_time"
    by (simp add: noNextTime_def)
  with assms(2,3) have "now < cl_Next lib c loc (clk 1)"
    unfolding next_law_def by (metis le_less_trans)
  with next_run show ?thesis
    by (simp add: ShouldRun_def)
qed

lemma scanRows_not_due:
  assumes "scanRows lib dbLoc clks gen n rows = Inr ds" and "next_law lib" and "\<forall>k. now \<le> clks k 1"
    and "\<forall>r \<in> set rows. \<forall>k. \<not> noNextTime lib (clks k 1) r"
  shows "\<forall>d \<in> set ds. \<not> ShouldRun now d"
  using assms(1,4)
proof (induction rows arbitrary: n ds)
  case (Cons r rows)
  then obtain d ds' where d: "toDomain lib dbLoc (clks n) (gen n) r = Inr d" "scanRows lib dbLoc clks gen (n + 1) rows = Inr ds'" "ds = d # ds'"
    by (auto split: sum.splits)
  have "\<not> ShouldRun now d"
    by (rule toDomain_not_due[OF d(1) assms(2)]) (use assms(3) Cons.prems(2) in auto)
  with Cons.IH[OF d(2)] Cons.prems(2) d(3) show ?case by simp
qed simp

lemma runDue_nothing: "\<forall>d \<in> set ds. \<not> ShouldRun now d \<Longrightarrow> runDue env db clks now k ds s = Some s"
  by (induction ds arbitrary: k) auto

text \<open>C29: The check of every minute, which is what should run the due schedules, executes nothing and changes nothing, unless
  one of the due schedules has an expression without a next time. Each schedule that the query for the due ones gives is
  rebuilt as a new one, whose next run is computed from the present moment and so lies ahead; only the zero time, with which
  the cron library answers for an expression that nothing satisfies, does not.\<close>

theorem periodic_check_starts_nothing:
  assumes "next_law (en_lib env)" and "\<forall>k. now \<le> clks k 1"
  shows "(\<exists>n. periodicCheck env db clks now s = Some (s\<lparr> ss_next := n \<rparr>))
    \<or> (\<exists>r \<in> set (dueRows now 100 (ss_rows s)). \<exists>k. noNextTime (en_lib env) (clks k 1) r)"
proof (cases "db 0")
  case None
  let ?rows = "dueRows now 100 (ss_rows s)"
  show ?thesis
  proof (cases "scanRows (en_lib env) (en_dbLoc env) clks (en_gen env) (ss_next s) ?rows")
    case (Inr ds)
    show ?thesis
    proof (cases "\<forall>r \<in> set ?rows. \<forall>k. \<not> noNextTime (en_lib env) (clks k 1) r")
      case True
      from runDue_nothing[OF scanRows_not_due[OF Inr assms True]] None Inr show ?thesis
        by (auto simp: periodicCheck_def Let_def)
    qed blast
  qed (use None in \<open>auto simp: periodicCheck_def Let_def\<close>)
next
  case (Some e)
  then show ?thesis
    by (auto simp: periodicCheck_def intro: exI[of _ "ss_next s"])
qed


section \<open>The table over any calls\<close>

lemma perform_only_adds:
  assumes "ids_drawn env s" and "perform env c s = Some s'"
  shows "only_added env s s'"
proof (cases c)
  case (CallCreate db clk cmd)
  then show ?thesis using assms create_only_adds by (auto simp del: not_None_eq)
next
  case (CallUpdate db clk cmd)
  then show ?thesis using change_refused(1)[OF assms(1), of db clk cmd] assms(2) by auto
next
  case (CallGet db clk now i u)
  obtain got s1 where got: "fetchOwn env (db 0) clk i u s = (got, s1)"
    by (cases "fetchOwn env (db 0) clk i u s")
  have "snd (Service_GetSchedule env db clk now i u s) = s \<or> ss_rows (snd (Service_GetSchedule env db clk now i u s)) = ss_rows s1
      \<and> ss_next (snd (Service_GetSchedule env db clk now i u s)) = ss_next s1"
    by (simp add: Service_GetSchedule_def got split: sum.split)
  with fetchOwn_same[OF got] show ?thesis
    using assms(2) CallGet by (intro only_added_same[OF assms(1)]) auto
next
  case (CallList db clks q)
  then show ?thesis
    using assms by (auto simp: Service_ListSchedules_def Let_def intro!: only_added_same split: option.splits sum.splits)
next
  case (CallPause db clk i u)
  then show ?thesis using change_refused(2)[OF assms(1), of db clk i u] assms(2) by auto
next
  case (CallResume db clk i u)
  then show ?thesis using change_refused(3)[OF assms(1), of db clk i u] assms(2) by auto
next
  case (CallDelete db clk i u)
  then show ?thesis using assms delete_only_adds by auto
next
  case (CallExecute db clk i u)
  then show ?thesis using assms execute_only_adds by auto
next
  case (CallStart err clks)
  then show ?thesis
    using assms by (auto simp: Service_Start_def intro!: only_added_same split: option.splits prod.splits)
next
  case CallStop
  then show ?thesis using assms only_added_same by (fastforce simp: Service_Stop_def)
next
  case (CallCheck db clks now)
  then show ?thesis using assms periodicCheck_only_adds by simp
qed

lemma scalls_only_add:
  "ids_drawn env s \<Longrightarrow> scalls env cs s = Some s' \<Longrightarrow> only_added env s s'"
proof (induction cs arbitrary: s)
  case (Cons c cs)
  then obtain s1 where s1: "perform env c s = Some s1" "scalls env cs s1 = Some s'"
    by (auto split: option.splits)
  have "only_added env s s1"
    by (rule perform_only_adds[OF Cons.prems(1) s1(1)])
  moreover from this have "only_added env s1 s'"
    using Cons.IH[OF _ s1(2)] by (simp add: only_added_def)
  ultimately show ?case
    by (rule only_added_trans)
qed (auto intro: only_added_same)

text \<open>C28: A stored schedule never changes: whatever calls are made, whenever the scheduler is started or stopped and the due schedules
  are checked, a row stays as it was saved until it is deleted, with no run counted, and updating, pausing and resuming are
  refused. A schedule is read back with a new identifier, so that no update finds its row.\<close>

theorem stored_schedules_never_change:
  assumes "inj (en_gen env)" and "ss_rows s0 = []" and "scalls env cs s0 = Some s" and "scalls env ds s = Some s'"
  shows "(\<forall>r \<in> set (ss_rows s'). (r \<in> set (ss_rows s) \<or> rw_id r \<notin> rw_id ` set (ss_rows s))
      \<and> rw_runCount r = 0 \<and> rw_lastRunAt r = None)
    \<and> (\<exists>e t. Service_UpdateSchedule env db clk cmd s = Some (Inl e, t))
    \<and> (\<exists>e t. Service_PauseSchedule env db clk i u s = Some (Inl e, t))
    \<and> (\<exists>e t. Service_ResumeSchedule env db clk i u s = Some (Inl e, t))"
proof -
  have "ids_drawn env s0"
    using assms(1,2) by (simp add: ids_drawn_def)
  then have s: "only_added env s0 s" and drawn: "ids_drawn env s"
    using scalls_only_add[OF _ assms(3)] by (auto simp: only_added_def)
  have s': "only_added env s s'"
    by (rule scalls_only_add[OF drawn assms(4)])
  have "rw_id r \<notin> rw_id ` set (ss_rows s)" if "\<exists>j \<ge> ss_next s. rw_id r = en_gen env j" for r
    using that ids_drawn_fresh[OF drawn] by (auto dest!: le_Suc_ex)
  with s s' assms(2) have "\<forall>r \<in> set (ss_rows s'). (r \<in> set (ss_rows s) \<or> rw_id r \<notin> rw_id ` set (ss_rows s))
      \<and> rw_runCount r = 0 \<and> rw_lastRunAt r = None"
    unfolding only_added_def as_saved_def by (metis empty_iff list.set(1))
  with change_refused[OF drawn, of db clk] show ?thesis
    by blast
qed

text \<open>C30: Once the table holds an active schedule, the service cannot be started: after any calls from an empty table, starting the
  scheduler with one active row, and an answer of the database, never returns, and so the server is never set up. A pause
  does not help, since it is refused; only deleting every active schedule does.\<close>

theorem service_starts_iff_no_active_schedule:
  assumes "inj (en_gen env)" and "ss_rows s0 = []" and "scalls env cs s0 = Some s"
    and "\<not> sd_locked sd" and "\<not> sd_running sd"
  shows "Service_Start env None clks (s\<lparr> ss_scheduler := sd \<rparr>) = None \<longleftrightarrow>
    (\<exists>r \<in> set (ss_rows s). rw_status r = ScheduleStatusActive)"
proof -
  let ?active = "page 0 10000 (\<lambda>r. rw_status r = ScheduleStatusActive) (ss_rows s)"
  have "only_added env s0 s"
    using scalls_only_add[OF _ assms(3)] assms(1,2) by (simp add: ids_drawn_def)
  then have "\<forall>r \<in> set (ss_rows s). readable (en_lib env) r"
    using assms(2) by (auto simp: only_added_def as_saved_def)
  then have "list_all (readable (en_lib env)) ?active"
    by (auto simp: page_def list_all_iff dest: in_set_takeD)
  then obtain ds where ds: "loadActive env None clks (s\<lparr> ss_scheduler := sd \<rparr>) = Inr ds" "length ds = length ?active"
    using scanRows_readable[of "en_lib env" ?active "en_dbLoc env" clks "en_gen env" "ss_next s"]
    by (auto simp: loadActive_def Schedule_FindByStatus_def)
  have "Service_Start env None clks (s\<lparr> ss_scheduler := sd \<rparr>) = None \<longleftrightarrow> Scheduler_Start (en_lib env) (Inr ds) sd = None"
    using ds(1) by (simp add: Service_Start_def split: option.split prod.split)
  also have "\<dots> \<longleftrightarrow> ds \<noteq> []"
    using assms(4,5) by (cases ds) (simp_all add: Scheduler_Start_def lock_def RegisterSchedule_def)
  also have "\<dots> \<longleftrightarrow> filter (\<lambda>r. rw_status r = ScheduleStatusActive) (ss_rows s) \<noteq> []"
  proof -
    have "length ?active = 0 \<longleftrightarrow> filter (\<lambda>r. rw_status r = ScheduleStatusActive) (ss_rows s) = []"
      by (cases "filter (\<lambda>r. rw_status r = ScheduleStatusActive) (ss_rows s)") (simp_all add: page_def)
    then show ?thesis
      unfolding ds(2)[symmetric] by simp
  qed
  finally show ?thesis
    by (auto simp: filter_empty_conv)
qed

text \<open>A schedule that was read once is lost for five minutes: when the service has a cache, reading it again is refused as
  unauthorized to its own user.\<close>

theorem cached_schedule_unauthorized:
  assumes "en_hasCache env" and "Service_GetSchedule env db clk now i u s = (Inr (Some d), s1)"
    and "now' < now + 5 * Minute" and "v \<noteq> ''''"
  shows "Service_GetSchedule env db' clk' now' i v s1 = (Inl ErrScheduleUnauthorized, s1)"
  using assms by (auto simp: Service_GetSchedule_def split: if_splits sum.splits prod.splits)

section \<open>Examples\<close>

definition sample_schedule_env :: "(nat, nat) ScheduleEnv" where
  "sample_schedule_env = \<lparr> en_lib = sample_cron, en_dbLoc = 0, en_gen = (\<lambda>n. replicate n CHR ''i''), en_hasCache = True, en_publisher = None \<rparr>"

definition sample_creation :: "nat CreateScheduleCommand" where
  "sample_creation = \<lparr> cs_UserID = ''u'', cs_OrganizationID = '''', cs_WorkflowID = ''w'', cs_Name = ''daily'', cs_Description = '''',
     cs_CronExpression = ''0 9 * * *'', cs_Timezone = ''UTC'', cs_StartDate = None, cs_EndDate = None, cs_InputData = None \<rparr>"

definition empty_schedules :: "(nat, nat) ScheduleState" where
  "empty_schedules = \<lparr> ss_rows = [], ss_next = 0, ss_scheduler = new_scheduler, ss_cache = Map.empty, ss_published = [] \<rparr>"

definition one_schedule :: "(nat, nat) ScheduleState" where
  "one_schedule = the (perform sample_schedule_env (CallCreate (\<lambda>_. None) (\<lambda>_. 0) sample_creation) empty_schedules)"

lemma one_schedule_made:
  "scalls sample_schedule_env [CallCreate (\<lambda>_. None) (\<lambda>_. 0) sample_creation] empty_schedules = Some one_schedule"
  "map rw_status (ss_rows one_schedule) = [ScheduleStatusActive]" "map rw_id (ss_rows one_schedule) = ['''']"
  "map rw_userID (ss_rows one_schedule) = [''u'']" "list_all (readable sample_cron) (ss_rows one_schedule)" "ss_cache one_schedule = Map.empty"
  by (simp_all add: one_schedule_def Service_CreateSchedule_def createdBy_def sample_creation_def sample_schedule_env_def sample_cron_def
      NewSchedule_def datesFrom_def withInput_def Schedule_Validate_def startAfterEnd_def Schedule_Save_def empty_schedules_def
      withScheduler_def RegisterSchedule_def lock_def unlock_def new_scheduler_def finish_def Let_def calculateNextRun_def
      afterEnd_def drawn_def announce_def rowOf_def readable_def)

lemma inj_sample_gen: "inj (en_gen sample_schedule_env)"
  by (auto simp: sample_schedule_env_def inj_def)

lemma sample_rows: "\<exists>r. ss_rows one_schedule = [r] \<and> rw_status r = ScheduleStatusActive \<and> rw_id r = '''' \<and> rw_userID r = ''u''
    \<and> readable sample_cron r"
  using one_schedule_made(2-5) by (cases "ss_rows one_schedule") auto

lemma sample_next_time: "\<not> noNextTime sample_cron (2 * Hour) r"
  by (simp add: noNextTime_def sample_cron_def zero_time_def)

lemma periodic_check_starts_nothing_witness:
  "\<exists>n. periodicCheck sample_schedule_env (\<lambda>_. None) (\<lambda>_ _. 2 * Hour) (3 * Minute) one_schedule = Some (one_schedule\<lparr> ss_next := n \<rparr>)"
  using periodic_check_starts_nothing[of sample_schedule_env "3 * Minute" "\<lambda>_ _. 2 * Hour" "\<lambda>_. None" one_schedule]
    sample_cron_next_law sample_next_time
  by (simp add: sample_schedule_env_def)

text \<open>A schedule for the thirtieth of February, which no time satisfies, is executed at the check of every minute.\<close>

definition never_env :: "(nat, nat) ScheduleEnv" where
  "never_env = sample_schedule_env\<lparr> en_lib := sample_cron\<lparr> cl_Next := \<lambda>c l t. zero_time \<rparr>, en_publisher := Some (\<lambda>_. None) \<rparr>"

lemmas never_defs = never_env_def sample_creation_def sample_schedule_env_def sample_cron_def empty_schedules_def new_scheduler_def
  zero_time_def Let_def

lemma never_env_next_law: "next_law (en_lib never_env)"
  by (simp add: next_law_def never_env_def)

definition never_started :: "(nat, nat) ScheduleState" where
  "never_started = the (scalls never_env [CallStart None (\<lambda>_ _. 0), CallCreate (\<lambda>_. None) (\<lambda>_. 0) sample_creation] empty_schedules)"

lemmas never_calls = Service_CreateSchedule_def createdBy_def NewSchedule_def datesFrom_def withInput_def Schedule_Validate_def
  startAfterEnd_def Schedule_Save_def withScheduler_def RegisterSchedule_def lock_def unlock_def finish_def calculateNextRun_def
  Service_Start_def Scheduler_Start_def loadActive_def Schedule_FindByStatus_def page_def removeJob_def afterEnd_def drawn_def
  announce_def rowOf_def

lemma never_started_made:
  "scalls never_env [CallStart None (\<lambda>_ _. 0), CallCreate (\<lambda>_. None) (\<lambda>_. 0) sample_creation] empty_schedules = Some never_started"
  "map rw_nextRunAt (ss_rows never_started) = [Some zero_time]" "ss_published never_started = ['''']"
  by (simp_all add: never_started_def never_defs never_calls)

lemma unsatisfiable_executed_every_minute:
  "map_option ss_published (scalls never_env [CallCheck (\<lambda>_. None) (\<lambda>_ _. Minute) Minute,
      CallCheck (\<lambda>_. None) (\<lambda>_ _. 2 * Minute) (2 * Minute)] never_started) = Some ['''', ''i'', ''ii'']"
  by (simp add: never_started_def never_defs never_calls periodicCheck_def dueRows_def toDomain_def SetOrganizationID_def
      SetDescription_def touched_def ShouldRun_def runSchedule_def Schedule_Update_def executed_def RecordRun_def countRun_def
      recalculated_def)

lemma stored_schedules_never_change_witness:
  "(\<exists>e t. Service_PauseSchedule sample_schedule_env (\<lambda>_. None) (\<lambda>_. 5) '''' ''u'' one_schedule = Some (Inl e, t))
    \<and> length (ss_rows one_schedule) = 1"
proof -
  have "scalls sample_schedule_env [] one_schedule = Some one_schedule" "ss_rows empty_schedules = []"
    by (simp_all add: empty_schedules_def)
  from stored_schedules_never_change[OF inj_sample_gen this(2) one_schedule_made(1) this(1)] sample_rows show ?thesis
    by auto
qed

lemma service_starts_iff_no_active_schedule_witness:
  "Service_Start sample_schedule_env None (\<lambda>_ _. 9) (one_schedule\<lparr> ss_scheduler := new_scheduler \<rparr>) = None"
proof -
  have "ss_rows empty_schedules = []" "\<not> sd_locked new_scheduler" "\<not> sd_running new_scheduler"
    by (simp_all add: empty_schedules_def new_scheduler_def)
  from service_starts_iff_no_active_schedule[OF inj_sample_gen this(1) one_schedule_made(1) this(2,3), of "\<lambda>_ _. 9"] sample_rows
  show ?thesis by auto
qed

lemma cached_schedule_unauthorized_witness:
  "\<exists>d s1. Service_GetSchedule sample_schedule_env (\<lambda>_. None) (\<lambda>_. 5) 5 '''' ''u'' one_schedule = (Inr (Some d), s1)
     \<and> Service_GetSchedule sample_schedule_env (\<lambda>_. None) (\<lambda>_. 6) 6 '''' ''u'' s1 = (Inl ErrScheduleUnauthorized, s1)"
proof -
  obtain r where r: "ss_rows one_schedule = [r]" "rw_id r = ''''" "rw_userID r = ''u''" "readable sample_cron r"
    using sample_rows by blast
  obtain d where "toDomain sample_cron (0::nat) (\<lambda>_. 5) (en_gen sample_schedule_env (ss_next one_schedule)) r = Inr d"
    using toDomain_readable[of sample_cron "0::nat" "\<lambda>_. 5" _ r] r(4) by blast
  moreover from toDomain_new[OF this] have "sc_userID d = ''u''"
    using r(3) by simp
  moreover have "en_lib sample_schedule_env = sample_cron" "en_dbLoc sample_schedule_env = 0"
    by (simp_all add: sample_schedule_env_def)
  ultimately have "\<exists>d s1. Service_GetSchedule sample_schedule_env (\<lambda>_. None) (\<lambda>_. 5) 5 '''' ''u'' one_schedule = (Inr (Some d), s1)"
    using r(1,2) one_schedule_made(6) by (simp add: Service_GetSchedule_def fetchOwn_def fetchSchedule_def)
  then obtain d s1 where d: "Service_GetSchedule sample_schedule_env (\<lambda>_. None) (\<lambda>_. 5) 5 '''' ''u'' one_schedule = (Inr (Some d), s1)"
    by blast
  have "en_hasCache sample_schedule_env" "6 < 5 + 5 * Minute"
    by (simp_all add: sample_schedule_env_def)
  from cached_schedule_unauthorized[OF this(1) d this(2), of "''u''" "\<lambda>_. None" "\<lambda>_. 6"] d show ?thesis
    by auto
qed

end
