(* ===== verification/Engine_Scheduler.thy ===== *)
theory Engine_Scheduler
  imports Engine_Types
begin

text \<open>
  The scheduler of the engine (\<open>internal/engine/scheduler.go\<close>) over its in-memory repository. The entries are objects behind
  pointers, which the map of the scheduler, the repository, the closures of the cron and the clients share: an address is
  a number. The cron library is a parameter; its table lists the identifier of each entry and the address in
  its closure. A call that waits for the mutex while it is held never returns, which is \<open>Hangs\<close>; what it did before is done.
\<close>

section \<open>Entries and the cron\<close>

datatype cron_spec = CronSpec string | EverySpec duration

record CronEnv =
  ce_parses :: "string \<Rightarrow> bool"
  ce_accepts :: "cron_spec \<Rightarrow> bool"
  ce_next :: "nat \<Rightarrow> time"
  ce_format :: "time \<Rightarrow> string"

record ScheduleEntry =
  se_ID :: string
  se_WorkflowID :: string
  se_CronExpr :: string
  se_Interval :: duration
  se_NextRun :: time
  se_LastRun :: "time option"
  se_RunCount :: int
  se_Enabled :: bool
  se_Options :: "ExecutionOptions option"
  se_EntryID :: nat
  se_CreatedAt :: time
  se_UpdatedAt :: time

record EngineScheduler =
  gg_object :: "nat \<Rightarrow> ScheduleEntry"
  gg_schedules :: "string \<Rightarrow> nat option"
  gg_repository :: "(string \<Rightarrow> nat option) option"
  gg_cron :: "(nat \<times> nat) list"
  gg_nextID :: nat
  gg_locked :: bool
  gg_hasPool :: bool

datatype schedule_entry_error =
    InvalidCronExpression
  | NoSpec
  | CronRefused
  | EntryNotFound string
  | WorkflowNotLoaded

datatype 'a reply = Hangs | Fails schedule_entry_error | Returns 'a

definition writeEntry :: "nat \<Rightarrow> ScheduleEntry \<Rightarrow> EngineScheduler \<Rightarrow> EngineScheduler" where
  "writeEntry a e s = s\<lparr> gg_object := (gg_object s)(a := e) \<rparr>"

definition specOf :: "ScheduleEntry \<Rightarrow> cron_spec option" where
  "specOf e = (if se_CronExpr e \<noteq> '''' then Some (CronSpec (se_CronExpr e))
     else if se_Interval e > 0 then Some (EverySpec (se_Interval e)) else None)"

definition cronRemove :: "nat \<Rightarrow> EngineScheduler \<Rightarrow> EngineScheduler" where
  "cronRemove i s = s\<lparr> gg_cron := filter (\<lambda>c. fst c \<noteq> i) (gg_cron s) \<rparr>"

text \<open>The next time of an entry of the cron, and the zero time of one that it does not hold.\<close>

definition cronNext :: "CronEnv \<Rightarrow> EngineScheduler \<Rightarrow> nat \<Rightarrow> time" where
  "cronNext env s i = (if list_ex (\<lambda>c. fst c = i) (gg_cron s) then ce_next env i else - 62135596800 * Second)"

section \<open>The in-memory repository\<close>

type_synonym entry_repository = "string \<Rightarrow> nat option"

definition InMemory_Create :: "string \<Rightarrow> nat \<Rightarrow> entry_repository \<Rightarrow> entry_repository" where
  "InMemory_Create i a m = m(i \<mapsto> a)"

definition InMemory_FindByID :: "string \<Rightarrow> entry_repository \<Rightarrow> schedule_entry_error + nat" where
  "InMemory_FindByID i m = (case m i of None \<Rightarrow> Inl (EntryNotFound i) | Some a \<Rightarrow> Inr a)"

definition InMemory_Update :: "string \<Rightarrow> nat \<Rightarrow> entry_repository \<Rightarrow> entry_repository" where
  "InMemory_Update i a m = m(i \<mapsto> a)"

definition InMemory_Delete :: "string \<Rightarrow> entry_repository \<Rightarrow> entry_repository" where
  "InMemory_Delete i m = m(i := None)"

text \<open>Go enumerates a map in any order: \<open>keys\<close> lists its keys.\<close>

definition InMemory_FindByWorkflowID :: "string list \<Rightarrow> (nat \<Rightarrow> ScheduleEntry) \<Rightarrow> string \<Rightarrow> entry_repository \<Rightarrow> nat list" where
  "InMemory_FindByWorkflowID keys obj w m = filter (\<lambda>a. se_WorkflowID (obj a) = w) (List.map_filter m keys)"

definition InMemory_ListEnabled :: "string list \<Rightarrow> (nat \<Rightarrow> ScheduleEntry) \<Rightarrow> entry_repository \<Rightarrow> nat list" where
  "InMemory_ListEnabled keys obj m = filter (\<lambda>a. se_Enabled (obj a)) (List.map_filter m keys)"

text \<open>A write to the repository, when there is one.\<close>

definition inRepository :: "(entry_repository \<Rightarrow> entry_repository) \<Rightarrow> EngineScheduler \<Rightarrow> EngineScheduler" where
  "inRepository f s = s\<lparr> gg_repository := map_option f (gg_repository s) \<rparr>"

section \<open>The scheduler\<close>

definition addSchedule :: "CronEnv \<Rightarrow> nat \<Rightarrow> EngineScheduler \<Rightarrow> unit reply \<times> EngineScheduler" where
  "addSchedule env a s =
     (case specOf (gg_object s a) of
        None \<Rightarrow> (Fails NoSpec, s)
      | Some spec \<Rightarrow>
        if \<not> ce_accepts env spec then (Fails CronRefused, s)
        else
          let i = gg_nextID s;
              s1 = s\<lparr> gg_cron := gg_cron s @ [(i, a)], gg_nextID := i + 1 \<rparr>;
              s2 = writeEntry a ((gg_object s a)\<lparr> se_EntryID := i, se_NextRun := cronNext env s1 i \<rparr>) s1
          in if gg_locked s2 then (Hangs, s2)
             else (Returns (), s2\<lparr> gg_schedules := (gg_schedules s2)(se_ID (gg_object s2 a) \<mapsto> a) \<rparr>))"

text \<open>Starting adds every enabled schedule; the errors are skipped.\<close>

fun addAll :: "CronEnv \<Rightarrow> nat list \<Rightarrow> EngineScheduler \<Rightarrow> unit reply \<times> EngineScheduler" where
  "addAll env [] s = (Returns (), s)"
| "addAll env (a # as) s =
     (case addSchedule env a s of (Hangs, s1) \<Rightarrow> (Hangs, s1) | (_, s1) \<Rightarrow> addAll env as s1)"

definition Engine_Scheduler_Start :: "CronEnv \<Rightarrow> string list \<Rightarrow> EngineScheduler \<Rightarrow> unit reply \<times> EngineScheduler" where
  "Engine_Scheduler_Start env keys s =
     (case gg_repository s of
        None \<Rightarrow> (Returns (), s)
      | Some m \<Rightarrow> addAll env (InMemory_ListEnabled keys (gg_object s) m) s)"

definition Engine_CreateSchedule ::
  "CronEnv \<Rightarrow> string \<Rightarrow> time \<Rightarrow> nat \<Rightarrow> EngineScheduler \<Rightarrow> unit reply \<times> EngineScheduler" where
  "Engine_CreateSchedule env newID now a s =
     (let e = gg_object s a;
          e1 = e\<lparr> se_ID := (if se_ID e = '''' then newID else se_ID e), se_CreatedAt := now, se_UpdatedAt := now \<rparr>;
          s1 = writeEntry a e1 s
      in if se_CronExpr e1 \<noteq> '''' \<and> \<not> ce_parses env (se_CronExpr e1) then (Fails InvalidCronExpression, s1)
         else
           let s2 = inRepository (InMemory_Create (se_ID e1) a) s1
           in if se_Enabled e1 then addSchedule env a s2 else (Returns (), s2))"

text \<open>The removal of a registered schedule from the cron and the map.\<close>

definition unregister :: "string \<Rightarrow> EngineScheduler \<Rightarrow> EngineScheduler" where
  "unregister i s =
     (case gg_schedules s i of
        None \<Rightarrow> s
      | Some a \<Rightarrow> (cronRemove (se_EntryID (gg_object s a)) s)\<lparr> gg_schedules := (gg_schedules s)(i := None) \<rparr>)"

definition holding :: "EngineScheduler \<Rightarrow> EngineScheduler" where
  "holding s = s\<lparr> gg_locked := True \<rparr>"

definition releasing :: "'a reply \<times> EngineScheduler \<Rightarrow> 'a reply \<times> EngineScheduler" where
  "releasing rs = (case rs of (Hangs, s) \<Rightarrow> (Hangs, s) | (r, s) \<Rightarrow> (r, s\<lparr> gg_locked := False \<rparr>))"

definition Engine_UpdateSchedule :: "CronEnv \<Rightarrow> time \<Rightarrow> nat \<Rightarrow> EngineScheduler \<Rightarrow> unit reply \<times> EngineScheduler" where
  "Engine_UpdateSchedule env now a s =
     (if gg_locked s then (Hangs, s)
      else releasing
        (let s1 = unregister (se_ID (gg_object s a)) (holding s);
             s2 = writeEntry a ((gg_object s1 a)\<lparr> se_UpdatedAt := now \<rparr>) s1;
             s3 = inRepository (InMemory_Update (se_ID (gg_object s2 a)) a) s2
         in if se_Enabled (gg_object s3 a) then addSchedule env a s3 else (Returns (), s3)))"

definition Engine_DeleteSchedule :: "string \<Rightarrow> EngineScheduler \<Rightarrow> unit reply \<times> EngineScheduler" where
  "Engine_DeleteSchedule i s =
     (if gg_locked s then (Hangs, s)
      else releasing (Returns (), inRepository (InMemory_Delete i) (unregister i (holding s))))"

definition Engine_EnableSchedule :: "CronEnv \<Rightarrow> time \<Rightarrow> string \<Rightarrow> EngineScheduler \<Rightarrow> unit reply \<times> EngineScheduler" where
  "Engine_EnableSchedule env now i s =
     (if gg_locked s then (Hangs, s)
      else
        (case (case gg_schedules s i of
             Some a \<Rightarrow> Inr a
           | None \<Rightarrow> (case gg_repository s of None \<Rightarrow> Inl (EntryNotFound i) | Some m \<Rightarrow> InMemory_FindByID i m)) of
           Inl e \<Rightarrow> (Fails e, s)
         | Inr a \<Rightarrow>
           let s1 = writeEntry a ((gg_object s a)\<lparr> se_Enabled := True, se_UpdatedAt := now \<rparr>) s;
               s2 = inRepository (InMemory_Update (se_ID (gg_object s1 a)) a) s1
           in addSchedule env a s2))"

definition Engine_DisableSchedule :: "time \<Rightarrow> string \<Rightarrow> EngineScheduler \<Rightarrow> unit reply \<times> EngineScheduler" where
  "Engine_DisableSchedule now i s =
     (if gg_locked s then (Hangs, s)
      else releasing
        (case gg_schedules s i of
           None \<Rightarrow> (Fails (EntryNotFound i), holding s)
         | Some a \<Rightarrow>
           let s1 = cronRemove (se_EntryID (gg_object s a)) (holding s);
               s2 = writeEntry a ((gg_object s1 a)\<lparr> se_Enabled := False, se_UpdatedAt := now \<rparr>) s1;
               s3 = s2\<lparr> gg_schedules := (gg_schedules s2)(i := None) \<rparr>
           in (Returns (), inRepository (InMemory_Update (se_ID (gg_object s3 a)) a) s3)))"

definition Engine_GetSchedule :: "string \<Rightarrow> EngineScheduler \<Rightarrow> nat reply" where
  "Engine_GetSchedule i s =
     (if gg_locked s then Hangs
      else (case gg_schedules s i of None \<Rightarrow> Fails (EntryNotFound i) | Some a \<Rightarrow> Returns a))"

definition Engine_ListSchedules :: "string list \<Rightarrow> EngineScheduler \<Rightarrow> nat list reply" where
  "Engine_ListSchedules keys s = (if gg_locked s then Hangs else Returns (List.map_filter (gg_schedules s) keys))"

definition ListByWorkflow :: "string list \<Rightarrow> string \<Rightarrow> EngineScheduler \<Rightarrow> nat list reply" where
  "ListByWorkflow keys w s =
     (if gg_locked s then Hangs
      else Returns (filter (\<lambda>a. se_WorkflowID (gg_object s a) = w) (List.map_filter (gg_schedules s) keys)))"

text \<open>The options are written through the pointer of the entry; when there is none, a new object is filled and dropped.\<close>

definition withTrigger :: "string \<Rightarrow> dict \<Rightarrow> ScheduleEntry \<Rightarrow> ScheduleEntry" where
  "withTrigger mode data e =
     e\<lparr> se_Options := map_option (\<lambda>p. p\<lparr> eo_Mode := mode, eo_TriggerData := Some data \<rparr>) (se_Options e) \<rparr>"

text \<open>The closure of an entry of the cron fires. Nothing is executed.\<close>

definition executeScheduledWorkflow :: "CronEnv \<Rightarrow> time \<Rightarrow> nat \<Rightarrow> EngineScheduler \<Rightarrow> EngineScheduler" where
  "executeScheduledWorkflow env now a s =
     (let e = gg_object s a;
          e1 = e\<lparr> se_LastRun := Some now, se_RunCount := se_RunCount e + 1, se_NextRun := cronNext env s (se_EntryID e) \<rparr>;
          e2 = withTrigger ''schedule''
            [''scheduleId'' \<mapsto> VStr (se_ID e), ''scheduledAt'' \<mapsto> VStr (ce_format env now),
             ''runCount'' \<mapsto> VInt (se_RunCount e1), ''cronExpr'' \<mapsto> VStr (se_CronExpr e)] e1;
          s1 = writeEntry a e2 s
      in if gg_hasPool s then s1 else inRepository (InMemory_Update (se_ID e) a) s1)"

text \<open>The cron fires the entry with the identifier \<open>i\<close>, if it holds one.\<close>

definition fire :: "CronEnv \<Rightarrow> time \<Rightarrow> nat \<Rightarrow> EngineScheduler \<Rightarrow> EngineScheduler" where
  "fire env now i s = (case find (\<lambda>c. fst c = i) (gg_cron s) of None \<Rightarrow> s | Some (_, a) \<Rightarrow> executeScheduledWorkflow env now a s)"

definition TriggerNow :: "CronEnv \<Rightarrow> time \<Rightarrow> string \<Rightarrow> EngineScheduler \<Rightarrow> string reply \<times> EngineScheduler" where
  "TriggerNow env now i s =
     (if gg_locked s then (Hangs, s)
      else (case gg_schedules s i of
          None \<Rightarrow> (Fails (EntryNotFound i), s)
        | Some a \<Rightarrow>
          let e = gg_object s a;
              s1 = writeEntry a (withTrigger ''manual''
                [''scheduleId'' \<mapsto> VStr (se_ID e), ''triggeredAt'' \<mapsto> VStr (ce_format env now), ''manual'' \<mapsto> VBool True] e) s
          in (if gg_hasPool s then Fails WorkflowNotLoaded else Returns '''', s1)))"

record ScheduleRun =
  sr_ScheduleID :: string
  sr_WorkflowID :: string
  sr_NextRun :: time

fun nextRuns :: "CronEnv \<Rightarrow> string list \<Rightarrow> nat \<Rightarrow> (nat \<times> nat) list \<Rightarrow> EngineScheduler \<Rightarrow> ScheduleRun list reply" where
  "nextRuns env keys k [] s = Returns []"
| "nextRuns env keys 0 (c # cs) s = Returns []"
| "nextRuns env keys (Suc k) (c # cs) s =
     (if gg_locked s then Hangs
      else (case find (\<lambda>a. se_EntryID (gg_object s a) = fst c) (List.map_filter (gg_schedules s) keys) of
          None \<Rightarrow> nextRuns env keys (Suc k) cs s
        | Some a \<Rightarrow>
          (case nextRuns env keys k cs s of
             Returns rs \<Rightarrow> Returns (\<lparr> sr_ScheduleID = se_ID (gg_object s a), sr_WorkflowID = se_WorkflowID (gg_object s a),
               sr_NextRun = ce_next env (fst c) \<rparr> # rs)
           | other \<Rightarrow> other)))"

text \<open>The cron lists its entries by their next times.\<close>

definition GetNextRuns :: "CronEnv \<Rightarrow> string list \<Rightarrow> nat \<Rightarrow> EngineScheduler \<Rightarrow> ScheduleRun list reply" where
  "GetNextRuns env keys k s = nextRuns env keys k (sort_key (\<lambda>c. ce_next env (fst c)) (gg_cron s)) s"

section \<open>Runs\<close>

text \<open>
  The calls of the clients and the firings of the cron, in any order. \<open>GcAssign\<close> is a client that writes through its pointer
  to an entry; it leaves the identifiers of the entry alone.
\<close>

datatype gcommand =
    GcStart "string list"
  | GcCreate string time nat
  | GcUpdate time nat
  | GcDelete string
  | GcEnable time string
  | GcDisable time string
  | GcGet string
  | GcList "string list"
  | GcListByWorkflow "string list" string
  | GcTrigger time string
  | GcNextRuns "string list" nat
  | GcFire time nat
  | GcAssign nat ScheduleEntry

definition assign :: "nat \<Rightarrow> ScheduleEntry \<Rightarrow> EngineScheduler \<Rightarrow> EngineScheduler" where
  "assign a e s = writeEntry a (e\<lparr> se_ID := se_ID (gg_object s a), se_EntryID := se_EntryID (gg_object s a) \<rparr>) s"

definition hangs :: "'a reply \<Rightarrow> bool" where
  "hangs r = (case r of Hangs \<Rightarrow> True | _ \<Rightarrow> False)"

lemma hangs_simps [simp]: "hangs Hangs" "\<not> hangs (Fails e)" "\<not> hangs (Returns x)"
  by (simp_all add: hangs_def)

text \<open>Whether the call does not return, and the state.\<close>

fun gstep :: "CronEnv \<Rightarrow> gcommand \<Rightarrow> EngineScheduler \<Rightarrow> bool \<times> EngineScheduler" where
  "gstep env (GcStart keys) s = apfst hangs (Engine_Scheduler_Start env keys s)"
| "gstep env (GcCreate newID now a) s = apfst hangs (Engine_CreateSchedule env newID now a s)"
| "gstep env (GcUpdate now a) s = apfst hangs (Engine_UpdateSchedule env now a s)"
| "gstep env (GcDelete i) s = apfst hangs (Engine_DeleteSchedule i s)"
| "gstep env (GcEnable now i) s = apfst hangs (Engine_EnableSchedule env now i s)"
| "gstep env (GcDisable now i) s = apfst hangs (Engine_DisableSchedule now i s)"
| "gstep env (GcGet i) s = (hangs (Engine_GetSchedule i s), s)"
| "gstep env (GcList keys) s = (hangs (Engine_ListSchedules keys s), s)"
| "gstep env (GcListByWorkflow keys w) s = (hangs (ListByWorkflow keys w s), s)"
| "gstep env (GcTrigger now i) s = apfst hangs (TriggerNow env now i s)"
| "gstep env (GcNextRuns keys k) s = (hangs (GetNextRuns env keys k s), s)"
| "gstep env (GcFire now i) s = (False, fire env now i s)"
| "gstep env (GcAssign a e) s = (False, assign a e s)"

text \<open>A call that does not return leaves its caller waiting; the others go on.\<close>

primrec gruns :: "CronEnv \<Rightarrow> gcommand list \<Rightarrow> EngineScheduler \<Rightarrow> EngineScheduler" where
  "gruns env [] s = s"
| "gruns env (c # cs) s = gruns env cs (snd (gstep env c s))"

lemma gruns_induct:
  assumes "P s" and "\<And>s c. P s \<Longrightarrow> P (snd (gstep env c s))"
  shows "P (gruns env cs s)"
  using assms(1) by (induction cs arbitrary: s) (auto intro: assms(2))

section \<open>The mutex\<close>

lemma kept_simps [simp]:
  "gg_locked (writeEntry a e s) = gg_locked s" "gg_schedules (writeEntry a e s) = gg_schedules s"
  "gg_cron (writeEntry a e s) = gg_cron s" "gg_nextID (writeEntry a e s) = gg_nextID s"
  "gg_object (writeEntry a e s) = (gg_object s)(a := e)"
  "gg_locked (inRepository f s) = gg_locked s" "gg_schedules (inRepository f s) = gg_schedules s"
  "gg_cron (inRepository f s) = gg_cron s" "gg_nextID (inRepository f s) = gg_nextID s"
  "gg_object (inRepository f s) = gg_object s"
  "gg_locked (cronRemove i s) = gg_locked s" "gg_schedules (cronRemove i s) = gg_schedules s"
  "gg_cron (cronRemove i s) = filter (\<lambda>c. fst c \<noteq> i) (gg_cron s)" "gg_nextID (cronRemove i s) = gg_nextID s"
  "gg_object (cronRemove i s) = gg_object s"
  "gg_locked (holding s)" "gg_schedules (holding s) = gg_schedules s" "gg_cron (holding s) = gg_cron s"
  "gg_nextID (holding s) = gg_nextID s" "gg_object (holding s) = gg_object s"
  by (simp_all add: writeEntry_def inRepository_def cronRemove_def holding_def)

lemma unregister_simps [simp]:
  "gg_locked (unregister i s) = gg_locked s" "gg_object (unregister i s) = gg_object s"
  "gg_schedules (unregister i s) = (gg_schedules s)(i := None)" "gg_nextID (unregister i s) = gg_nextID s"
  by (auto simp: unregister_def cronRemove_def split: option.split)

lemma specOf_updated [simp]: "specOf (e\<lparr> se_UpdatedAt := t \<rparr>) = specOf e"
  by (simp add: specOf_def)

lemma addSchedule_locked: "addSchedule env a s = (r, s') \<Longrightarrow> gg_locked s' = gg_locked s"
  by (auto simp: addSchedule_def Let_def split: option.splits if_splits)

lemma addSchedule_hangs:
  assumes "gg_locked s" and "specOf (gg_object s a) = Some spec" and "ce_accepts env spec"
  shows "fst (addSchedule env a s) = Hangs"
  using assms by (simp add: addSchedule_def Let_def)

lemma addAll_locked: "addAll env as s = (r, s') \<Longrightarrow> gg_locked s' = gg_locked s"
  by (induction as arbitrary: s) (auto split: prod.splits reply.splits dest: addSchedule_locked)

lemma execute_simps [simp]:
  "gg_locked (executeScheduledWorkflow env now a s) = gg_locked s" "gg_schedules (executeScheduledWorkflow env now a s) = gg_schedules s"
  "gg_cron (executeScheduledWorkflow env now a s) = gg_cron s" "gg_nextID (executeScheduledWorkflow env now a s) = gg_nextID s"
  "se_EntryID (gg_object (executeScheduledWorkflow env now a s) b) = se_EntryID (gg_object s b)"
  "se_ID (gg_object (executeScheduledWorkflow env now a s) b) = se_ID (gg_object s b)"
  by (simp_all add: executeScheduledWorkflow_def Let_def withTrigger_def)

lemma fire_simps [simp]:
  "gg_locked (fire env now i s) = gg_locked s" "gg_schedules (fire env now i s) = gg_schedules s"
  "gg_cron (fire env now i s) = gg_cron s" "gg_nextID (fire env now i s) = gg_nextID s"
  "se_EntryID (gg_object (fire env now i s) b) = se_EntryID (gg_object s b)"
  "se_ID (gg_object (fire env now i s) b) = se_ID (gg_object s b)"
  by (simp_all add: fire_def split: option.split)

lemma gstep_locked:
  assumes "gg_locked s"
  shows "gg_locked (snd (gstep env c s))"
proof (cases c)
  case (GcStart keys)
  obtain r s' where "Engine_Scheduler_Start env keys s = (r, s')" by (cases "Engine_Scheduler_Start env keys s")
  then show ?thesis
    using assms GcStart by (auto simp: Engine_Scheduler_Start_def split: option.splits dest: addAll_locked)
next
  case (GcCreate newID now a)
  obtain r s' where "Engine_CreateSchedule env newID now a s = (r, s')" by (cases "Engine_CreateSchedule env newID now a s")
  then show ?thesis
    using assms GcCreate by (auto simp: Engine_CreateSchedule_def Let_def split: if_splits dest!: addSchedule_locked)
next
  case (GcTrigger now i)
  then show ?thesis using assms by (simp add: TriggerNow_def)
qed (use assms in \<open>simp_all add: Engine_UpdateSchedule_def Engine_DeleteSchedule_def Engine_EnableSchedule_def
    Engine_DisableSchedule_def assign_def\<close>)

fun takesMutex :: "gcommand \<Rightarrow> bool" where
  "takesMutex (GcUpdate _ _) = True"
| "takesMutex (GcDelete _) = True"
| "takesMutex (GcEnable _ _) = True"
| "takesMutex (GcDisable _ _) = True"
| "takesMutex (GcGet _) = True"
| "takesMutex (GcList _) = True"
| "takesMutex (GcListByWorkflow _ _) = True"
| "takesMutex (GcTrigger _ _) = True"
| "takesMutex _ = False"

lemma locked_hangs: "gg_locked s \<Longrightarrow> takesMutex c \<Longrightarrow> fst (gstep env c s)"
  by (cases c) (simp_all add: Engine_UpdateSchedule_def Engine_DeleteSchedule_def Engine_EnableSchedule_def
      Engine_DisableSchedule_def Engine_GetSchedule_def Engine_ListSchedules_def ListByWorkflow_def TriggerNow_def)

text \<open>C32: Updating an enabled schedule stops the scheduler for ever: the update holds the mutex when it registers the
  schedule, which locks the mutex again. Neither this call nor any later one that needs the mutex returns, whatever
  comes between.\<close>

theorem enabled_update_hangs_for_ever:
  assumes "\<not> gg_locked s" and "se_Enabled (gg_object s a)" and "specOf (gg_object s a) = Some spec" and "ce_accepts env spec"
    and "takesMutex c"
  shows "fst (Engine_UpdateSchedule env now a s) = Hangs
    \<and> fst (gstep env c (gruns env cs (snd (Engine_UpdateSchedule env now a s))))"
proof -
  let ?s3 = "inRepository (InMemory_Update (se_ID (gg_object s a)) a)
    (writeEntry a ((gg_object s a)\<lparr> se_UpdatedAt := now \<rparr>) (unregister (se_ID (gg_object s a)) (holding s)))"
  obtain r s' where add: "addSchedule env a ?s3 = (r, s')" by (cases "addSchedule env a ?s3")
  moreover have "fst (addSchedule env a ?s3) = Hangs"
    by (rule addSchedule_hangs[OF _ _ assms(4)]) (use assms(3) in simp_all)
  ultimately have "r = Hangs" "gg_locked s'"
    using addSchedule_locked[OF add] by simp_all
  then have up: "Engine_UpdateSchedule env now a s = (Hangs, s')"
    using assms(1,2) add by (simp add: Engine_UpdateSchedule_def Let_def releasing_def)
  have "gg_locked (gruns env cs s')"
    by (rule gruns_induct) (fact \<open>gg_locked s'\<close>, rule gstep_locked)
  with locked_hangs[OF this assms(5)] up show ?thesis
    by simp
qed

section \<open>Entries of the cron\<close>

text \<open>What adding a schedule does, when it does anything.\<close>

definition added :: "nat \<Rightarrow> EngineScheduler \<Rightarrow> EngineScheduler \<Rightarrow> bool" where
  "added b s s' \<longleftrightarrow> gg_cron s' = gg_cron s @ [(gg_nextID s, b)] \<and> gg_nextID s' = gg_nextID s + 1
     \<and> se_EntryID (gg_object s' b) = gg_nextID s \<and> (\<forall>c. c \<noteq> b \<longrightarrow> gg_object s' c = gg_object s c)
     \<and> se_ID (gg_object s' b) = se_ID (gg_object s b)
     \<and> (gg_schedules s' = gg_schedules s \<or> gg_schedules s' = (gg_schedules s)(se_ID (gg_object s b) \<mapsto> b))"

lemma addSchedule_added:
  assumes "addSchedule env b s = (r, s')"
  shows "s' = s \<and> (\<exists>e. r = Fails e) \<or> added b s s'"
proof (cases "specOf (gg_object s b)")
  case (Some spec)
  then show ?thesis
    using assms by (cases "ce_accepts env spec"; cases "gg_locked s") (auto simp: addSchedule_def Let_def added_def)
qed (use assms in \<open>auto simp: addSchedule_def\<close>)

text \<open>What a call can do to the entries: nothing, to rename the entry of a creation, to drop a registered schedule, or to add one.\<close>

definition same_entries :: "EngineScheduler \<Rightarrow> EngineScheduler \<Rightarrow> bool" where
  "same_entries s s' \<longleftrightarrow> gg_cron s' = gg_cron s \<and> gg_nextID s' = gg_nextID s \<and> gg_schedules s' = gg_schedules s
     \<and> (\<forall>b. se_EntryID (gg_object s' b) = se_EntryID (gg_object s b))"

definition same_IDs :: "EngineScheduler \<Rightarrow> EngineScheduler \<Rightarrow> bool" where
  "same_IDs s s' \<longleftrightarrow> (\<forall>b. se_ID (gg_object s' b) = se_ID (gg_object s b))"

definition dropped :: "string \<Rightarrow> nat \<Rightarrow> EngineScheduler \<Rightarrow> EngineScheduler \<Rightarrow> bool" where
  "dropped k b s s' \<longleftrightarrow> gg_schedules s k = Some b \<and> gg_cron s' = filter (\<lambda>c. fst c \<noteq> se_EntryID (gg_object s b)) (gg_cron s)
     \<and> gg_nextID s' = gg_nextID s \<and> gg_schedules s' = (gg_schedules s)(k := None)
     \<and> (\<forall>b. se_EntryID (gg_object s' b) = se_EntryID (gg_object s b)) \<and> same_IDs s s'"

lemmas change_defs = same_entries_def same_IDs_def dropped_def

text \<open>An invariant of the entries: what these four changes keep, every call keeps.\<close>

locale entry_invariant =
  fixes P :: "EngineScheduler \<Rightarrow> bool" and pre :: "EngineScheduler \<Rightarrow> nat \<Rightarrow> bool"
  assumes same: "P s \<Longrightarrow> same_entries s s' \<Longrightarrow> same_IDs s s' \<Longrightarrow> P s'"
    and renamed: "P s \<Longrightarrow> pre s b \<Longrightarrow> same_entries s s' \<Longrightarrow> (\<And>c. c \<noteq> b \<Longrightarrow> se_ID (gg_object s' c) = se_ID (gg_object s c)) \<Longrightarrow> P s'"
    and drop: "P s \<Longrightarrow> dropped k b s s' \<Longrightarrow> P s'"
    and add: "P s \<Longrightarrow> added b s s' \<Longrightarrow> P s'"
begin

lemma unregister_P: "P s \<Longrightarrow> P (unregister k s)"
proof (cases "gg_schedules s k")
  case (Some b)
  assume "P s"
  then show ?thesis
    by (rule drop[of _ k b]) (simp add: unregister_def change_defs Some cronRemove_def)
qed (simp add: unregister_def)

lemma addSchedule_P: "P s \<Longrightarrow> P (snd (addSchedule env b s))"
  using add addSchedule_added[of env b s] by (metis prod.collapse)

lemma addAll_P: "P s \<Longrightarrow> P (snd (addAll env bs s))"
proof (induction bs arbitrary: s)
  case (Cons b bs)
  obtain r s1 where "addSchedule env b s = (r, s1)" by (cases "addSchedule env b s")
  with Cons addSchedule_P[of s env b] show ?case by (cases r) simp_all
qed simp

lemma holding_P: "P s \<Longrightarrow> P (holding s)"
  by (erule same) (simp_all add: change_defs)

lemma releasing_P: "P (snd rs) \<Longrightarrow> P (snd (releasing rs))"
  by (cases rs; cases "fst rs") (auto simp: releasing_def change_defs elim!: same)

lemma inRepository_P: "P s \<Longrightarrow> P (inRepository f s)"
  by (erule same) (simp_all add: change_defs)

lemma writeEntry_P:
  "P s \<Longrightarrow> se_EntryID e = se_EntryID (gg_object s b) \<Longrightarrow> se_ID e = se_ID (gg_object s b) \<Longrightarrow> P (writeEntry b e s)"
  by (erule same) (simp_all add: change_defs)

lemmas parts_P = unregister_P addSchedule_P addAll_P holding_P releasing_P inRepository_P writeEntry_P

lemma disabled_P:
  assumes "P s" and "gg_schedules s k = Some b"
  shows "P (snd (Engine_DisableSchedule now k s))"
proof (cases "gg_locked s")
  case False
  let ?s1 = "cronRemove (se_EntryID (gg_object s b)) (holding s)"
  let ?s3 = "(writeEntry b ((gg_object s b)\<lparr> se_Enabled := False, se_UpdatedAt := now \<rparr>) ?s1)\<lparr> gg_schedules := (gg_schedules s)(k := None) \<rparr>"
  have "P ?s3"
    by (rule drop[OF assms(1), of k b]) (simp add: change_defs assms(2) writeEntry_def cronRemove_def holding_def)
  with False assms(2) show ?thesis
    by (auto simp: Engine_DisableSchedule_def Let_def intro!: releasing_P inRepository_P)
qed (simp add: Engine_DisableSchedule_def assms(1))

lemma step_P:
  assumes P: "P s" and pre: "\<And>newID now b. c = GcCreate newID now b \<Longrightarrow> pre s b"
  shows "P (snd (gstep env c s))"
proof (cases c)
  case (GcStart keys)
  then show ?thesis using P by (auto simp: Engine_Scheduler_Start_def intro: addAll_P split: option.split)
next
  case (GcCreate newID now b)
  let ?e = "(gg_object s b)\<lparr> se_ID := if se_ID (gg_object s b) = '''' then newID else se_ID (gg_object s b),
    se_CreatedAt := now, se_UpdatedAt := now \<rparr>"
  have "P (writeEntry b ?e s)"
    by (rule renamed[OF P pre[OF GcCreate]]) (simp_all add: change_defs)
  with GcCreate show ?thesis
    by (simp add: Engine_CreateSchedule_def Let_def parts_P)
next
  case (GcUpdate now b)
  then show ?thesis
    using P by (simp add: Engine_UpdateSchedule_def Let_def parts_P)
next
  case (GcDelete k)
  then show ?thesis
    using P by (simp add: Engine_DeleteSchedule_def parts_P)
next
  case (GcEnable now k)
  then show ?thesis
    using P by (auto simp: Engine_EnableSchedule_def Let_def intro!: parts_P split: sum.split)
next
  case (GcDisable now k)
  then show ?thesis
    using P disabled_P[OF P, of k] by (cases "gg_schedules s k") (auto simp: Engine_DisableSchedule_def intro!: parts_P)
next
  case (GcTrigger now k)
  then show ?thesis
    using P by (auto simp: TriggerNow_def Let_def withTrigger_def intro!: writeEntry_P split: option.split)
next
  case (GcFire now k)
  then show ?thesis
    using same[OF P] by (simp add: change_defs)
next
  case (GcAssign b e)
  then show ?thesis
    using P by (simp add: assign_def writeEntry_P)
qed (use P in simp_all)

end

section \<open>Entries without a schedule\<close>

text \<open>An entry of the cron that no registered schedule refers to, and the only one with its identifier.\<close>

definition cron_ok :: "EngineScheduler \<Rightarrow> bool" where
  "cron_ok s \<longleftrightarrow> distinct (map fst (gg_cron s)) \<and> (\<forall>c \<in> set (gg_cron s). fst c < gg_nextID s)"

definition orphan :: "nat \<Rightarrow> nat \<Rightarrow> EngineScheduler \<Rightarrow> bool" where
  "orphan i a s \<longleftrightarrow> cron_ok s \<and> (i, a) \<in> set (gg_cron s)
     \<and> (\<forall>k b. gg_schedules s k = Some b \<longrightarrow> se_EntryID (gg_object s b) \<noteq> i)"

lemma cron_ok_added: "cron_ok s \<Longrightarrow> added b s s' \<Longrightarrow> cron_ok s'"
  by (fastforce simp: cron_ok_def added_def)

lemma cron_ok_dropped: "cron_ok s \<Longrightarrow> dropped k b s s' \<Longrightarrow> cron_ok s'"
  by (auto simp: cron_ok_def dropped_def intro!: distinct_map_filter)

interpretation orphans: entry_invariant "orphan i a" "\<lambda>_ _. True" for i a
proof
  fix s s' b assume o: "orphan i a s" and new: "added b s s'"
  have "i < gg_nextID s"
    using o by (force simp: orphan_def cron_ok_def)
  have "se_EntryID (gg_object s' c) \<noteq> i" if "gg_schedules s' k = Some c" for k c
  proof (cases "c = b")
    case False
    with that new have "gg_schedules s k = Some c" "gg_object s' c = gg_object s c"
      by (auto simp: added_def split: if_splits)
    with o show ?thesis by (simp add: orphan_def)
  qed (use new \<open>i < gg_nextID s\<close> in \<open>simp add: added_def\<close>)
  with o new cron_ok_added[OF _ new] show "orphan i a s'"
    by (simp add: orphan_def added_def)
next
  fix s s' k b assume o: "orphan i a s" and d: "dropped k b s s'"
  with cron_ok_dropped[OF _ d] show "orphan i a s'"
    by (auto simp: orphan_def dropped_def split: if_splits)
qed (auto simp: orphan_def cron_ok_def same_entries_def)

lemma orphan_stays: "orphan i a s \<Longrightarrow> orphan i a (gruns env cs s)"
  by (rule gruns_induct) (auto intro: orphans.step_P)

lemma orphan_fires:
  assumes "orphan i a s"
  shows "fire env now i s = executeScheduledWorkflow env now a s"
proof -
  have "find (\<lambda>c. fst c = i) (gg_cron s) = Some (i, a)"
    using find_unique[of fst "gg_cron s" "(i, a)"] assms by (simp add: orphan_def cron_ok_def)
  then show ?thesis
    by (simp add: fire_def)
qed

text \<open>Every registered schedule is the one of its identifier and has its entry.\<close>

definition entries_ok :: "EngineScheduler \<Rightarrow> bool" where
  "entries_ok s \<longleftrightarrow> cron_ok s
     \<and> (\<forall>k a. gg_schedules s k = Some a \<longrightarrow> se_ID (gg_object s a) = k \<and> (se_EntryID (gg_object s a), a) \<in> set (gg_cron s))"

text \<open>A creation is handed an entry that is not registered.\<close>

definition unregistered :: "EngineScheduler \<Rightarrow> nat \<Rightarrow> bool" where
  "unregistered s a \<longleftrightarrow> a \<notin> ran (gg_schedules s)"

interpretation registered: entry_invariant entries_ok unregistered
proof
  fix s s' b assume ok: "entries_ok s" and new: "added b s s'"
  have "se_ID (gg_object s' c) = k \<and> (se_EntryID (gg_object s' c), c) \<in> set (gg_cron s')" if "gg_schedules s' k = Some c" for k c
    using that ok new by (cases "c = b") (auto simp: entries_ok_def added_def split: if_splits)
  with ok cron_ok_added[OF _ new] show "entries_ok s'"
    by (simp add: entries_ok_def)
next
  fix s s' k b assume ok: "entries_ok s" and d: "dropped k b s s'"
  have "se_ID (gg_object s' c) = k' \<and> (se_EntryID (gg_object s' c), c) \<in> set (gg_cron s')" if "gg_schedules s' k' = Some c" for k' c
  proof -
    have c: "gg_schedules s k' = Some c" "k' \<noteq> k" "gg_schedules s k = Some b"
      using that d by (auto simp: dropped_def split: if_splits)
    with ok have "c \<noteq> b" "(se_EntryID (gg_object s c), c) \<in> set (gg_cron s)" "(se_EntryID (gg_object s b), b) \<in> set (gg_cron s)"
      by (auto simp: entries_ok_def)
    moreover have "distinct (map fst (gg_cron s))"
      using ok by (simp add: entries_ok_def cron_ok_def)
    ultimately have "se_EntryID (gg_object s c) \<noteq> se_EntryID (gg_object s b)"
      using eq_key_imp_eq_value by metis
    with ok c d show ?thesis
      by (auto simp: entries_ok_def dropped_def same_IDs_def)
  qed
  with ok cron_ok_dropped[OF _ d] show "entries_ok s'"
    by (simp add: entries_ok_def)
next
  fix s s' b assume "entries_ok s" and "unregistered s b" and "same_entries s s'"
    and "\<And>c. c \<noteq> b \<Longrightarrow> se_ID (gg_object s' c) = se_ID (gg_object s c)"
  then show "entries_ok s'"
    by (fastforce simp: entries_ok_def cron_ok_def same_entries_def unregistered_def ran_def)
qed (auto simp: entries_ok_def cron_ok_def same_entries_def same_IDs_def)

text \<open>What the calls keep, from a new scheduler on: as long as creations are handed entries that are not registered, every registered
  schedule has its entry.\<close>

fun admissible_calls :: "CronEnv \<Rightarrow> gcommand list \<Rightarrow> EngineScheduler \<Rightarrow> bool" where
  "admissible_calls env [] s = True"
| "admissible_calls env (c # cs) s =
     ((case c of GcCreate _ _ a \<Rightarrow> gg_schedules s (se_ID (gg_object s a)) \<noteq> Some a | _ \<Rightarrow> True)
      \<and> admissible_calls env cs (snd (gstep env c s)))"

lemma entries_ok_run: "entries_ok s \<Longrightarrow> admissible_calls env cs s \<Longrightarrow> entries_ok (gruns env cs s)"
proof (induction cs arbitrary: s)
  case (Cons c cs)
  have "entries_ok (snd (gstep env c s))"
    by (rule registered.step_P[OF Cons.prems(1)])
      (use Cons.prems in \<open>auto simp: unregistered_def ran_def entries_ok_def\<close>)
  with Cons show ?case by simp
qed simp

lemma orphan_enabled:
  assumes "entries_ok s" and "gg_schedules s k = Some a" and "Engine_EnableSchedule env now k s = (Returns (), s1)"
  shows "orphan (se_EntryID (gg_object s a)) a s1"
proof -
  let ?s2 = "inRepository (InMemory_Update (se_ID (gg_object s a)) a) (writeEntry a ((gg_object s a)\<lparr> se_Enabled := True, se_UpdatedAt := now \<rparr>) s)"
  have add: "addSchedule env a ?s2 = (Returns (), s1)"
    using assms(2,3) by (simp add: Engine_EnableSchedule_def Let_def split: if_splits)
  then have new: "added a ?s2 s1"
    using addSchedule_added[OF add] by simp
  have entry: "(se_EntryID (gg_object s a), a) \<in> set (gg_cron s)" and ok: "cron_ok s"
    using assms(1,2) by (auto simp: entries_ok_def)
  then have "se_EntryID (gg_object s a) < gg_nextID s"
    by (force simp: cron_ok_def)
  moreover have "cron_ok ?s2"
    using ok by (simp add: cron_ok_def)
  moreover have "se_EntryID (gg_object s b) \<noteq> se_EntryID (gg_object s a)" if "gg_schedules s k' = Some b" "b \<noteq> a" for k' b
    using that entry ok assms(1) eq_key_imp_eq_value[of "gg_cron s" "se_EntryID (gg_object s a)" a b]
    by (auto simp: entries_ok_def cron_ok_def) metis
  moreover have "gg_schedules s1 k' = Some b \<Longrightarrow> b = a \<or> gg_schedules s k' = Some b \<and> gg_object s1 b = gg_object s b" for k' b
    using new by (auto simp: added_def split: if_splits)
  ultimately have "se_EntryID (gg_object s1 b) \<noteq> se_EntryID (gg_object s a)" if "gg_schedules s1 k' = Some b" for k' b
    using that new by (metis (no_types, lifting) added_def kept_simps(4,9) less_irrefl)
  with entry \<open>cron_ok ?s2\<close> cron_ok_added[OF _ new] new show ?thesis
    by (simp add: orphan_def added_def)
qed

text \<open>C31: Enabling a schedule that is registered makes it fire twice, for ever: it gets a second entry in the cron, and nothing refers
  to the first any more. Whatever is called afterwards, disabling and deleting the schedule included, the first entry is still
  there, and each time it fires it counts a run of the schedule.\<close>

theorem enabling_twice_fires_for_ever:
  assumes "entries_ok s" and "gg_schedules s k = Some a" and "Engine_EnableSchedule env now k s = (Returns (), s1)"
  shows "fire env now' (se_EntryID (gg_object s a)) (gruns env cs s1) = executeScheduledWorkflow env now' a (gruns env cs s1)
    \<and> se_RunCount (gg_object (executeScheduledWorkflow env now' a (gruns env cs s1)) a)
        = se_RunCount (gg_object (gruns env cs s1) a) + 1"
proof -
  have "orphan (se_EntryID (gg_object s a)) a (gruns env cs s1)"
    by (rule orphan_stays[OF orphan_enabled[OF assms]])
  from orphan_fires[OF this] show ?thesis
    by (simp add: executeScheduledWorkflow_def Let_def withTrigger_def)
qed

text \<open>Triggering a schedule by hand never names an execution: with a worker pool it always fails, without one the answer is empty.\<close>

lemma TriggerNow_names_nothing: "fst (TriggerNow env now i s) = Returns x \<Longrightarrow> x = ''''"
  by (auto simp: TriggerNow_def Let_def split: if_splits option.splits)

section \<open>Examples\<close>

definition sample_cron_env :: CronEnv where
  "sample_cron_env = \<lparr> ce_parses = (\<lambda>_. True), ce_accepts = (\<lambda>_. True), ce_next = (\<lambda>i. int i), ce_format = (\<lambda>_. ''now'') \<rparr>"

definition sample_entry :: ScheduleEntry where
  "sample_entry = \<lparr> se_ID = ''s'', se_WorkflowID = ''w'', se_CronExpr = ''0 0 9 * * *'', se_Interval = 0, se_NextRun = 0, se_LastRun = None,
     se_RunCount = 0, se_Enabled = True, se_Options = None, se_EntryID = 0, se_CreatedAt = 0, se_UpdatedAt = 0 \<rparr>"

definition empty_scheduler :: EngineScheduler where
  "empty_scheduler = \<lparr> gg_object = (\<lambda>_. sample_entry), gg_schedules = Map.empty, gg_repository = Some Map.empty, gg_cron = [],
     gg_nextID = 1, gg_locked = False, gg_hasPool = False \<rparr>"

definition one_registered :: EngineScheduler where
  "one_registered = gruns sample_cron_env [GcCreate ''x'' 1 0] empty_scheduler"

lemmas sample_scheduler_defs = sample_cron_env_def sample_entry_def empty_scheduler_def one_registered_def Engine_CreateSchedule_def
  Engine_EnableSchedule_def addSchedule_def specOf_def writeEntry_def inRepository_def InMemory_Create_def InMemory_Update_def
  cronNext_def

lemma one_registered_ok: "entries_ok one_registered" "gg_schedules one_registered ''s'' = Some 0"
  "\<exists>s1. Engine_EnableSchedule sample_cron_env 2 ''s'' one_registered = (Returns (), s1)" "se_EntryID (gg_object one_registered 0) = 1"
proof -
  have "entries_ok empty_scheduler" "admissible_calls sample_cron_env [GcCreate ''x'' 1 0] empty_scheduler"
    by (simp_all add: empty_scheduler_def entries_ok_def cron_ok_def)
  then show "entries_ok one_registered"
    unfolding one_registered_def by (rule entries_ok_run)
qed (simp_all add: sample_scheduler_defs)

lemma enabling_twice_fires_for_ever_witness:
  "\<exists>s1. Engine_EnableSchedule sample_cron_env 2 ''s'' one_registered = (Returns (), s1)
     \<and> fire sample_cron_env 9 1 (gruns sample_cron_env [GcDelete ''s''] s1)
         = executeScheduledWorkflow sample_cron_env 9 0 (gruns sample_cron_env [GcDelete ''s''] s1)"
  using one_registered_ok(3) enabling_twice_fires_for_ever[OF one_registered_ok(1,2), of sample_cron_env 2 _ 9 "[GcDelete ''s'']"]
  unfolding one_registered_ok(4) by blast

lemma enabled_update_hangs_for_ever_witness:
  "fst (Engine_UpdateSchedule sample_cron_env 5 0 one_registered) = Hangs
    \<and> fst (gstep sample_cron_env (GcGet ''s'') (gruns sample_cron_env [] (snd (Engine_UpdateSchedule sample_cron_env 5 0 one_registered))))"
proof (rule enabled_update_hangs_for_ever)
  show "specOf (gg_object one_registered 0) = Some (CronSpec ''0 0 9 * * *'')"
    by (simp add: sample_scheduler_defs)
qed (simp_all add: sample_scheduler_defs)

end
