(* ===== verification/Billing.thy ===== *)
theory Billing
  imports Prelude
begin

text \<open>
  Billing: the model \<open>internal/billing/domain/model/billing.go\<close>, its tables
  \<open>internal/billing/adapters/repository/postgres/billing_repository.go\<close> and the service
  \<open>internal/billing/app/service/billing_service.go\<close>. A query fails when it names a column that its table does not
  have; the columns are a parameter, and \<open>migrated\<close> is what \<open>migrations/000013_billing.up.sql\<close> creates. Stripe is a
  parameter, the answer to each call. The calendar of the local zone is a parameter too: the first day of a month and its
  label. A query for one row takes the first row in the order of the table.
\<close>

section \<open>The model\<close>

record PlanLimits =
  pl_MaxMembers :: int
  pl_MaxWorkflows :: int
  pl_MaxExecutionsMonth :: int
  pl_MaxCredentials :: int
  pl_MaxWebhooks :: int
  pl_MaxStorageGB :: int
  pl_RetentionDays :: int
  pl_SupportLevel :: string

record BillingPlan =
  bp_ID :: string
  bp_Name :: string
  bp_Slug :: string
  bp_Description :: string
  bp_MonthlyPriceID :: string
  bp_YearlyPriceID :: string
  bp_MonthlyPrice :: int
  bp_YearlyPrice :: int
  bp_Currency :: string
  bp_Features :: "string list"
  bp_Limits :: PlanLimits
  bp_IsPublic :: bool
  bp_TrialDays :: int
  bp_CreatedAt :: time
  bp_UpdatedAt :: time

text \<open>The status of a subscription is whatever string Stripe gives.\<close>

definition SubscriptionStatusTrialing :: string where "SubscriptionStatusTrialing = ''trialing''"
definition SubscriptionStatusActive :: string where "SubscriptionStatusActive = ''active''"
definition SubscriptionStatusCanceled :: string where "SubscriptionStatusCanceled = ''canceled''"

record Subscription =
  su_ID :: string
  su_WorkspaceID :: string
  su_PlanID :: string
  su_StripeSubscriptionID :: string
  su_StripeCustomerID :: string
  su_Status :: string
  su_CurrentPeriodStart :: time
  su_CurrentPeriodEnd :: time
  su_CancelAtPeriodEnd :: bool
  su_CanceledAt :: "time option"
  su_TrialStart :: "time option"
  su_TrialEnd :: "time option"
  su_Quantity :: int
  su_CreatedAt :: time
  su_UpdatedAt :: time

definition NewSubscription :: "string \<Rightarrow> time \<Rightarrow> string \<Rightarrow> string \<Rightarrow> string \<Rightarrow> string \<Rightarrow> Subscription" where
  "NewSubscription newID now workspaceID planID stripeSubID stripeCustomerID =
     \<lparr> su_ID = newID, su_WorkspaceID = workspaceID, su_PlanID = planID, su_StripeSubscriptionID = stripeSubID,
       su_StripeCustomerID = stripeCustomerID, su_Status = SubscriptionStatusActive, su_CurrentPeriodStart = - 62135596800 * Second,
       su_CurrentPeriodEnd = - 62135596800 * Second, su_CancelAtPeriodEnd = False, su_CanceledAt = None, su_TrialStart = None,
       su_TrialEnd = None, su_Quantity = 1, su_CreatedAt = now, su_UpdatedAt = now \<rparr>"

definition Subscription_IsActive :: "Subscription \<Rightarrow> bool" where
  "Subscription_IsActive s \<longleftrightarrow> su_Status s = SubscriptionStatusActive \<or> su_Status s = SubscriptionStatusTrialing"

definition Subscription_IsInTrial :: "Subscription \<Rightarrow> bool" where
  "Subscription_IsInTrial s \<longleftrightarrow> su_Status s = SubscriptionStatusTrialing"

definition Subscription_Cancel :: "time \<Rightarrow> Subscription \<Rightarrow> Subscription" where
  "Subscription_Cancel now s = s\<lparr> su_CancelAtPeriodEnd := True, su_CanceledAt := Some now, su_UpdatedAt := now \<rparr>"

record Address =
  ad_Line1 :: string
  ad_Line2 :: string
  ad_City :: string
  ad_State :: string
  ad_PostalCode :: string
  ad_Country :: string

record Customer =
  cu_ID :: string
  cu_WorkspaceID :: string
  cu_StripeCustomerID :: string
  cu_Email :: string
  cu_Name :: string
  cu_PaymentMethodID :: string
  cu_DefaultCurrency :: string
  cu_TaxID :: string
  cu_Address :: "Address option"
  cu_Metadata :: "string \<Rightarrow> string option"
  cu_CreatedAt :: time
  cu_UpdatedAt :: time

definition NewCustomer :: "string \<Rightarrow> time \<Rightarrow> string \<Rightarrow> string \<Rightarrow> string \<Rightarrow> string \<Rightarrow> Customer" where
  "NewCustomer newID now workspaceID stripeCustomerID email name =
     \<lparr> cu_ID = newID, cu_WorkspaceID = workspaceID, cu_StripeCustomerID = stripeCustomerID, cu_Email = email, cu_Name = name,
       cu_PaymentMethodID = '''', cu_DefaultCurrency = ''usd'', cu_TaxID = '''', cu_Address = None, cu_Metadata = Map.empty,
       cu_CreatedAt = now, cu_UpdatedAt = now \<rparr>"

record LineItem =
  li_ID :: string
  li_Description :: string
  li_Quantity :: int
  li_UnitAmount :: int
  li_Amount :: int
  li_Currency :: string

record Invoice =
  iv_ID :: string
  iv_WorkspaceID :: string
  iv_StripeInvoiceID :: string
  iv_Number :: string
  iv_Status :: string
  iv_Currency :: string
  iv_Subtotal :: int
  iv_Tax :: int
  iv_Total :: int
  iv_AmountPaid :: int
  iv_AmountDue :: int
  iv_LineItems :: "LineItem list"
  iv_PeriodStart :: time
  iv_PeriodEnd :: time
  iv_DueDate :: "time option"
  iv_PaidAt :: "time option"
  iv_HostedInvoiceURL :: string
  iv_InvoicePDFURL :: string
  iv_CreatedAt :: time

record Usage =
  ug_ID :: string
  ug_WorkspaceID :: string
  ug_Period :: time
  ug_ExecutionsCount :: int
  ug_APICallsCount :: int
  ug_StorageUsedBytes :: int
  ug_ActiveWorkflows :: int
  ug_ActiveMembers :: int
  ug_WebhooksCount :: int
  ug_CredentialsCount :: int
  ug_LastUpdated :: time

definition NewUsage :: "string \<Rightarrow> time \<Rightarrow> string \<Rightarrow> time \<Rightarrow> Usage" where
  "NewUsage newID now workspaceID period =
     \<lparr> ug_ID = newID, ug_WorkspaceID = workspaceID, ug_Period = period, ug_ExecutionsCount = 0, ug_APICallsCount = 0,
       ug_StorageUsedBytes = 0, ug_ActiveWorkflows = 0, ug_ActiveMembers = 0, ug_WebhooksCount = 0, ug_CredentialsCount = 0,
       ug_LastUpdated = now \<rparr>"

section \<open>The schema and the tables\<close>

datatype billing_error =
    ErrSubscriptionNotFound
  | ErrCustomerNotFound
  | ErrPlanNotFound
  | ErrInvoiceNotFound
  | UsageNotFound
  | UndefinedColumn string
  | UniqueViolation
  | NullScanned
  | NotAUUID
  | BillingDB string
  | StripeFailed string

text \<open>The columns of each table, and what a column of identifiers accepts.\<close>

record Schema =
  sm_Columns :: "string \<Rightarrow> string list"
  sm_AcceptsID :: "string \<Rightarrow> bool"

text \<open>A row of the plans: three columns may be NULL.\<close>

record PlanRow =
  pw_Plan :: BillingPlan
  pw_Description :: "string option"
  pw_MonthlyPriceID :: "string option"
  pw_YearlyPriceID :: "string option"
  pw_SortOrder :: int

record BillingTables =
  bt_plans :: "PlanRow list"
  bt_customers :: "Customer list"
  bt_subscriptions :: "Subscription list"
  bt_invoices :: "Invoice list"
  bt_usage :: "Usage list"

text \<open>A query over the columns \<open>cols\<close> of a table; \<open>err\<close> is any other failure of the database.\<close>

definition sql :: "Schema \<Rightarrow> string option \<Rightarrow> string \<Rightarrow> string list \<Rightarrow> (billing_error + 'a) \<Rightarrow> billing_error + 'a" where
  "sql sm err table cols result =
     (case find (\<lambda>c. c \<notin> set (sm_Columns sm table)) cols of
        Some c \<Rightarrow> Inl (UndefinedColumn c)
      | None \<Rightarrow> (case err of Some e \<Rightarrow> Inl (BillingDB e) | None \<Rightarrow> result))"

definition firstRow :: "billing_error \<Rightarrow> ('r \<Rightarrow> bool) \<Rightarrow> 'r list \<Rightarrow> billing_error + 'r" where
  "firstRow missing P rows = (case find P rows of None \<Rightarrow> Inl missing | Some r \<Rightarrow> Inr r)"

definition customerColumns :: "string list" where
  "customerColumns = [''id'', ''workspace_id'', ''stripe_customer_id'', ''email'', ''name'', ''payment_method_id'', ''default_currency'',
     ''tax_id'', ''address'', ''metadata'', ''created_at'', ''updated_at'']"

definition Customer_Create :: "Schema \<Rightarrow> string option \<Rightarrow> Customer \<Rightarrow> BillingTables \<Rightarrow> billing_error + BillingTables" where
  "Customer_Create sm err c t = sql sm err ''billing_customers'' customerColumns
     (if \<not> sm_AcceptsID sm (cu_ID c) then Inl NotAUUID
      else if list_ex (\<lambda>r. cu_ID r = cu_ID c \<or> cu_WorkspaceID r = cu_WorkspaceID c \<or> cu_StripeCustomerID r = cu_StripeCustomerID c)
          (bt_customers t) then Inl UniqueViolation
      else Inr (t\<lparr> bt_customers := bt_customers t @ [c] \<rparr>))"

definition Customer_findBy :: "Schema \<Rightarrow> string option \<Rightarrow> (Customer \<Rightarrow> bool) \<Rightarrow> BillingTables \<Rightarrow> billing_error + Customer" where
  "Customer_findBy sm err P t =
     sql sm err ''billing_customers'' customerColumns (firstRow ErrCustomerNotFound P (bt_customers t))"

definition Customer_FindByID :: "Schema \<Rightarrow> string option \<Rightarrow> string \<Rightarrow> BillingTables \<Rightarrow> billing_error + Customer" where
  "Customer_FindByID sm err i t = Customer_findBy sm err (\<lambda>c. cu_ID c = i) t"

definition Customer_FindByWorkspaceID :: "Schema \<Rightarrow> string option \<Rightarrow> string \<Rightarrow> BillingTables \<Rightarrow> billing_error + Customer" where
  "Customer_FindByWorkspaceID sm err w t = Customer_findBy sm err (\<lambda>c. cu_WorkspaceID c = w) t"

definition Customer_FindByStripeID :: "Schema \<Rightarrow> string option \<Rightarrow> string \<Rightarrow> BillingTables \<Rightarrow> billing_error + Customer" where
  "Customer_FindByStripeID sm err i t = Customer_findBy sm err (\<lambda>c. cu_StripeCustomerID c = i) t"

definition Customer_Update :: "Schema \<Rightarrow> string option \<Rightarrow> time \<Rightarrow> Customer \<Rightarrow> BillingTables \<Rightarrow> billing_error + BillingTables" where
  "Customer_Update sm err now c t = sql sm err ''billing_customers''
     [''email'', ''name'', ''payment_method_id'', ''default_currency'', ''tax_id'', ''address'', ''metadata'', ''updated_at'', ''id'']
     (Inr (t\<lparr> bt_customers := map (\<lambda>r. if cu_ID r = cu_ID c
        then c\<lparr> cu_WorkspaceID := cu_WorkspaceID r, cu_StripeCustomerID := cu_StripeCustomerID r, cu_CreatedAt := cu_CreatedAt r,
          cu_UpdatedAt := now \<rparr> else r) (bt_customers t) \<rparr>))"

definition Customer_Delete :: "Schema \<Rightarrow> string option \<Rightarrow> string \<Rightarrow> BillingTables \<Rightarrow> billing_error + BillingTables" where
  "Customer_Delete sm err i t = sql sm err ''billing_customers'' [''id'']
     (Inr (t\<lparr> bt_customers := filter (\<lambda>r. cu_ID r \<noteq> i) (bt_customers t) \<rparr>))"

definition subscriptionColumns :: "string list" where
  "subscriptionColumns = [''id'', ''workspace_id'', ''plan_id'', ''stripe_subscription_id'', ''stripe_customer_id'', ''status'',
     ''current_period_start'', ''current_period_end'', ''cancel_at_period_end'', ''canceled_at'', ''trial_start'', ''trial_end'',
     ''quantity'', ''created_at'', ''updated_at'']"

definition Subscription_Create :: "Schema \<Rightarrow> string option \<Rightarrow> Subscription \<Rightarrow> BillingTables \<Rightarrow> billing_error + BillingTables" where
  "Subscription_Create sm err s t = sql sm err ''subscriptions'' subscriptionColumns
     (if \<not> sm_AcceptsID sm (su_ID s) then Inl NotAUUID
      else if list_ex (\<lambda>r. su_ID r = su_ID s \<or> su_StripeSubscriptionID r = su_StripeSubscriptionID s) (bt_subscriptions t)
      then Inl UniqueViolation
      else Inr (t\<lparr> bt_subscriptions := bt_subscriptions t @ [s] \<rparr>))"

definition Subscription_findBy :: "Schema \<Rightarrow> string option \<Rightarrow> (Subscription \<Rightarrow> bool) \<Rightarrow> BillingTables \<Rightarrow> billing_error + Subscription" where
  "Subscription_findBy sm err P t =
     sql sm err ''subscriptions'' subscriptionColumns (firstRow ErrSubscriptionNotFound P (bt_subscriptions t))"

definition Subscription_FindByID :: "Schema \<Rightarrow> string option \<Rightarrow> string \<Rightarrow> BillingTables \<Rightarrow> billing_error + Subscription" where
  "Subscription_FindByID sm err i t = Subscription_findBy sm err (\<lambda>s. su_ID s = i) t"

definition Subscription_FindByWorkspaceID :: "Schema \<Rightarrow> string option \<Rightarrow> string \<Rightarrow> BillingTables \<Rightarrow> billing_error + Subscription" where
  "Subscription_FindByWorkspaceID sm err w t = Subscription_findBy sm err (\<lambda>s. su_WorkspaceID s = w) t"

definition Subscription_FindByStripeID :: "Schema \<Rightarrow> string option \<Rightarrow> string \<Rightarrow> BillingTables \<Rightarrow> billing_error + Subscription" where
  "Subscription_FindByStripeID sm err i t = Subscription_findBy sm err (\<lambda>s. su_StripeSubscriptionID s = i) t"

definition Subscription_Update ::
  "Schema \<Rightarrow> string option \<Rightarrow> time \<Rightarrow> Subscription \<Rightarrow> BillingTables \<Rightarrow> billing_error + BillingTables" where
  "Subscription_Update sm err now s t = sql sm err ''subscriptions''
     [''plan_id'', ''status'', ''current_period_start'', ''current_period_end'', ''cancel_at_period_end'', ''canceled_at'',
      ''trial_start'', ''trial_end'', ''quantity'', ''updated_at'', ''id'']
     (Inr (t\<lparr> bt_subscriptions := map (\<lambda>r. if su_ID r = su_ID s
        then s\<lparr> su_WorkspaceID := su_WorkspaceID r, su_StripeSubscriptionID := su_StripeSubscriptionID r,
          su_StripeCustomerID := su_StripeCustomerID r, su_CreatedAt := su_CreatedAt r, su_UpdatedAt := now \<rparr> else r)
        (bt_subscriptions t) \<rparr>))"

definition Subscription_Delete :: "Schema \<Rightarrow> string option \<Rightarrow> string \<Rightarrow> BillingTables \<Rightarrow> billing_error + BillingTables" where
  "Subscription_Delete sm err i t = sql sm err ''subscriptions'' [''id'']
     (Inr (t\<lparr> bt_subscriptions := filter (\<lambda>r. su_ID r \<noteq> i) (bt_subscriptions t) \<rparr>))"

definition planColumns :: "string list" where
  "planColumns = [''id'', ''name'', ''slug'', ''description'', ''monthly_price_id'', ''yearly_price_id'', ''monthly_price'', ''yearly_price'',
     ''currency'', ''features'', ''limits'', ''is_public'', ''trial_days'', ''created_at'', ''updated_at'']"

text \<open>A NULL cannot be scanned into a string.\<close>

definition planOf :: "PlanRow \<Rightarrow> billing_error + BillingPlan" where
  "planOf r =
     (case (pw_Description r, pw_MonthlyPriceID r, pw_YearlyPriceID r) of
        (Some d, Some m, Some y) \<Rightarrow> Inr ((pw_Plan r)\<lparr> bp_Description := d, bp_MonthlyPriceID := m, bp_YearlyPriceID := y \<rparr>)
      | _ \<Rightarrow> Inl NullScanned)"

definition Plan_findBy :: "Schema \<Rightarrow> string option \<Rightarrow> (BillingPlan \<Rightarrow> bool) \<Rightarrow> BillingTables \<Rightarrow> billing_error + BillingPlan" where
  "Plan_findBy sm err P t = sql sm err ''billing_plans'' planColumns
     (case find (\<lambda>r. P (pw_Plan r)) (bt_plans t) of None \<Rightarrow> Inl ErrPlanNotFound | Some r \<Rightarrow> planOf r)"

definition Plan_FindByID :: "Schema \<Rightarrow> string option \<Rightarrow> string \<Rightarrow> BillingTables \<Rightarrow> billing_error + BillingPlan" where
  "Plan_FindByID sm err i t = Plan_findBy sm err (\<lambda>p. bp_ID p = i) t"

definition Plan_FindBySlug :: "Schema \<Rightarrow> string option \<Rightarrow> string \<Rightarrow> BillingTables \<Rightarrow> billing_error + BillingPlan" where
  "Plan_FindBySlug sm err slug t = Plan_findBy sm err (\<lambda>p. bp_Slug p = slug) t"

fun plansOf :: "PlanRow list \<Rightarrow> billing_error + BillingPlan list" where
  "plansOf [] = Inr []"
| "plansOf (r # rs) =
     (case planOf r of Inl e \<Rightarrow> Inl e | Inr p \<Rightarrow> (case plansOf rs of Inl e \<Rightarrow> Inl e | Inr ps \<Rightarrow> Inr (p # ps)))"

definition Plan_ListPublic :: "Schema \<Rightarrow> string option \<Rightarrow> BillingTables \<Rightarrow> billing_error + BillingPlan list" where
  "Plan_ListPublic sm err t = sql sm err ''billing_plans'' (planColumns @ [''sort_order''])
     (plansOf (sort_key pw_SortOrder (filter (\<lambda>r. bp_IsPublic (pw_Plan r)) (bt_plans t))))"

definition invoiceColumns :: "string list" where
  "invoiceColumns = [''id'', ''workspace_id'', ''stripe_invoice_id'', ''number'', ''status'', ''currency'', ''subtotal'', ''tax'', ''total'',
     ''amount_paid'', ''amount_due'', ''line_items'', ''period_start'', ''period_end'', ''due_date'', ''paid_at'', ''hosted_invoice_url'',
     ''invoice_pdf_url'', ''created_at'']"

definition Invoice_Create :: "Schema \<Rightarrow> string option \<Rightarrow> Invoice \<Rightarrow> BillingTables \<Rightarrow> billing_error + BillingTables" where
  "Invoice_Create sm err i t = sql sm err ''billing_invoices'' invoiceColumns
     (if \<not> sm_AcceptsID sm (iv_ID i) then Inl NotAUUID
      else if list_ex (\<lambda>r. iv_ID r = iv_ID i \<or> iv_StripeInvoiceID r = iv_StripeInvoiceID i) (bt_invoices t) then Inl UniqueViolation
      else Inr (t\<lparr> bt_invoices := bt_invoices t @ [i] \<rparr>))"

definition Invoice_FindByID :: "Schema \<Rightarrow> string option \<Rightarrow> string \<Rightarrow> BillingTables \<Rightarrow> billing_error + Invoice" where
  "Invoice_FindByID sm err i t =
     sql sm err ''billing_invoices'' invoiceColumns (firstRow ErrInvoiceNotFound (\<lambda>r. iv_ID r = i) (bt_invoices t))"

definition Invoice_FindByStripeID :: "Schema \<Rightarrow> string option \<Rightarrow> string \<Rightarrow> BillingTables \<Rightarrow> billing_error + Invoice" where
  "Invoice_FindByStripeID sm err i t =
     sql sm err ''billing_invoices'' invoiceColumns (firstRow ErrInvoiceNotFound (\<lambda>r. iv_StripeInvoiceID r = i) (bt_invoices t))"

text \<open>The error of the count is dropped, and the total is then zero.\<close>

definition Invoice_ListByWorkspace ::
  "Schema \<Rightarrow> (nat \<Rightarrow> string option) \<Rightarrow> string \<Rightarrow> nat \<Rightarrow> nat \<Rightarrow> BillingTables \<Rightarrow> billing_error + Invoice list \<times> int" where
  "Invoice_ListByWorkspace sm db w limit offset t =
     (let mine = filter (\<lambda>r. iv_WorkspaceID r = w) (bt_invoices t);
          total = (case sql sm (db 0) ''billing_invoices'' [''workspace_id''] (Inr (int (length mine))) of Inl e \<Rightarrow> 0 | Inr n \<Rightarrow> n)
      in sql sm (db 1) ''billing_invoices'' invoiceColumns
           (Inr (take limit (drop offset (sort_key (\<lambda>r. - iv_CreatedAt r) mine)), total)))"

definition Invoice_Update :: "Schema \<Rightarrow> string option \<Rightarrow> Invoice \<Rightarrow> BillingTables \<Rightarrow> billing_error + BillingTables" where
  "Invoice_Update sm err i t = sql sm err ''billing_invoices'' [''status'', ''amount_paid'', ''amount_due'', ''paid_at'', ''id'']
     (Inr (t\<lparr> bt_invoices := map (\<lambda>r. if iv_ID r = iv_ID i
        then r\<lparr> iv_Status := iv_Status i, iv_AmountPaid := iv_AmountPaid i, iv_AmountDue := iv_AmountDue i, iv_PaidAt := iv_PaidAt i \<rparr>
        else r) (bt_invoices t) \<rparr>))"

record Calendar =
  cal_Month :: "time \<Rightarrow> time"
  cal_Label :: "time \<Rightarrow> string"

definition usageColumns :: "string list" where
  "usageColumns = [''id'', ''workspace_id'', ''period'', ''executions_count'', ''api_calls_count'', ''storage_used_bytes'',
     ''active_workflows'', ''active_members'', ''webhooks_count'', ''credentials_count'', ''last_updated'']"

definition findByWorkspaceAndPeriod ::
  "Schema \<Rightarrow> string option \<Rightarrow> string \<Rightarrow> time \<Rightarrow> BillingTables \<Rightarrow> billing_error + Usage" where
  "findByWorkspaceAndPeriod sm err w period t = sql sm err ''billing_usage'' usageColumns
     (firstRow UsageNotFound (\<lambda>u. ug_WorkspaceID u = w \<and> ug_Period u = period) (bt_usage t))"

text \<open>An error of the insertion is dropped.\<close>

definition Usage_GetOrCreate ::
  "Schema \<Rightarrow> (nat \<Rightarrow> string option) \<Rightarrow> Calendar \<Rightarrow> string \<Rightarrow> time \<Rightarrow> string \<Rightarrow> time \<Rightarrow> BillingTables
     \<Rightarrow> (billing_error + Usage) \<times> BillingTables" where
  "Usage_GetOrCreate sm db cal newID now w period0 t =
     (let period = cal_Month cal period0 in
      case findByWorkspaceAndPeriod sm (db 0) w period t of
        Inr u \<Rightarrow> (Inr u, t)
      | Inl e \<Rightarrow>
        let u = NewUsage newID now w period;
            t1 = (case sql sm (db 1) ''billing_usage'' usageColumns
                (if \<not> sm_AcceptsID sm newID then Inl NotAUUID
                 else if list_ex (\<lambda>r. ug_WorkspaceID r = w \<and> ug_Period r = period) (bt_usage t) then Inr t
                 else if list_ex (\<lambda>r. ug_ID r = newID) (bt_usage t) then Inl UniqueViolation
                 else Inr (t\<lparr> bt_usage := bt_usage t @ [u] \<rparr>)) of Inl e1 \<Rightarrow> t | Inr t2 \<Rightarrow> t2)
        in (findByWorkspaceAndPeriod sm (db 2) w period t1, t1))"

definition Usage_Update :: "Schema \<Rightarrow> string option \<Rightarrow> time \<Rightarrow> Usage \<Rightarrow> BillingTables \<Rightarrow> billing_error + BillingTables" where
  "Usage_Update sm err now u t = sql sm err ''billing_usage''
     [''executions_count'', ''api_calls_count'', ''storage_used_bytes'', ''active_workflows'', ''active_members'', ''webhooks_count'',
      ''credentials_count'', ''last_updated'', ''id'']
     (Inr (t\<lparr> bt_usage := map (\<lambda>r. if ug_ID r = ug_ID u
        then u\<lparr> ug_WorkspaceID := ug_WorkspaceID r, ug_Period := ug_Period r, ug_LastUpdated := now \<rparr> else r) (bt_usage t) \<rparr>))"

definition Usage_GetCurrentUsage ::
  "Schema \<Rightarrow> (nat \<Rightarrow> string option) \<Rightarrow> Calendar \<Rightarrow> string \<Rightarrow> time \<Rightarrow> string \<Rightarrow> BillingTables \<Rightarrow> (billing_error + Usage) \<times> BillingTables" where
  "Usage_GetCurrentUsage sm db cal newID now w t = Usage_GetOrCreate sm db cal newID now w (cal_Month cal now) t"

text \<open>An insertion that becomes an update when the workspace has a row for the period.\<close>

definition upsertUsage ::
  "Schema \<Rightarrow> string option \<Rightarrow> string \<Rightarrow> Calendar \<Rightarrow> time \<Rightarrow> (Usage \<Rightarrow> Usage) \<Rightarrow> string \<Rightarrow> BillingTables \<Rightarrow> billing_error + BillingTables" where
  "upsertUsage sm err counter cal now count_up w t =
     (let period = cal_Month cal now;
          newID = w @ ''-'' @ cal_Label cal period;
          hit = (\<lambda>r. ug_WorkspaceID r = w \<and> ug_Period r = period)
      in sql sm err ''billing_usage'' [''id'', ''workspace_id'', ''period'', counter, ''last_updated'']
           (if \<not> sm_AcceptsID sm newID then Inl NotAUUID
            else if list_ex hit (bt_usage t)
            then Inr (t\<lparr> bt_usage := map (\<lambda>r. if hit r then (count_up r)\<lparr> ug_LastUpdated := now \<rparr> else r) (bt_usage t) \<rparr>)
            else if list_ex (\<lambda>r. ug_ID r = newID) (bt_usage t) then Inl UniqueViolation
            else Inr (t\<lparr> bt_usage := bt_usage t @ [count_up (NewUsage newID now w period)] \<rparr>)))"

definition Usage_IncrementExecutions ::
  "Schema \<Rightarrow> string option \<Rightarrow> Calendar \<Rightarrow> time \<Rightarrow> string \<Rightarrow> int \<Rightarrow> BillingTables \<Rightarrow> billing_error + BillingTables" where
  "Usage_IncrementExecutions sm err cal now w n t =
     upsertUsage sm err ''executions_count'' cal now (\<lambda>u. u\<lparr> ug_ExecutionsCount := ug_ExecutionsCount u + n \<rparr>) w t"

definition Usage_IncrementAPICalls ::
  "Schema \<Rightarrow> string option \<Rightarrow> Calendar \<Rightarrow> time \<Rightarrow> string \<Rightarrow> int \<Rightarrow> BillingTables \<Rightarrow> billing_error + BillingTables" where
  "Usage_IncrementAPICalls sm err cal now w n t =
     upsertUsage sm err ''api_calls_count'' cal now (\<lambda>u. u\<lparr> ug_APICallsCount := ug_APICallsCount u + n \<rparr>) w t"

section \<open>The service\<close>

record StripeSubscription =
  ss_ID :: string
  ss_Status :: string
  ss_CurrentPeriodStart :: time
  ss_CurrentPeriodEnd :: time
  ss_CancelAtPeriodEnd :: bool
  ss_TrialStart :: "time option"
  ss_TrialEnd :: "time option"

record Stripe =
  st_CreateCustomer :: "string \<Rightarrow> string \<Rightarrow> string \<Rightarrow> string + string"
  st_CreateSubscription :: "string \<Rightarrow> string \<Rightarrow> int \<Rightarrow> string + StripeSubscription"
  st_UpdateSubscription :: "string \<Rightarrow> string \<Rightarrow> string option"
  st_CancelSubscription :: "string \<Rightarrow> bool \<Rightarrow> string option"
  st_GetSubscription :: "string \<Rightarrow> string + StripeSubscription"
  st_CreateCheckoutSession :: "string \<Rightarrow> string \<Rightarrow> string \<Rightarrow> string \<Rightarrow> string + string"
  st_CreatePortalSession :: "string \<Rightarrow> string \<Rightarrow> string + string"

text \<open>The requests that reach Stripe.\<close>

datatype stripe_request =
    ToCreateCustomer string string string
  | ToCreateSubscription string string int
  | ToUpdateSubscription string string
  | ToCancelSubscription string bool

record BillingState =
  bs_tables :: BillingTables
  bs_requests :: "stripe_request list"

text \<open>The environment of a call: the schema, the answers of the database to its queries and of Stripe, the clock and the identifiers.\<close>

record BillingEnv =
  be_schema :: Schema
  be_db :: "nat \<Rightarrow> string option"
  be_stripe :: Stripe
  be_calendar :: Calendar
  be_now :: time
  be_newID :: string

definition requested :: "stripe_request \<Rightarrow> BillingState \<Rightarrow> BillingState" where
  "requested r s = s\<lparr> bs_requests := bs_requests s @ [r] \<rparr>"

text \<open>A write as the last step of a call.\<close>

definition writing :: "'a \<Rightarrow> (billing_error + BillingTables) \<Rightarrow> BillingState \<Rightarrow> (billing_error + 'a) \<times> BillingState" where
  "writing v res s = (case res of Inl e \<Rightarrow> (Inl e, s) | Inr t \<Rightarrow> (Inr v, s\<lparr> bs_tables := t \<rparr>))"

definition Billing_CreateCustomer ::
  "BillingEnv \<Rightarrow> string \<Rightarrow> string \<Rightarrow> string \<Rightarrow> BillingState \<Rightarrow> (billing_error + Customer) \<times> BillingState" where
  "Billing_CreateCustomer env workspaceID email name s =
     (case Customer_FindByWorkspaceID (be_schema env) (be_db env 0) workspaceID (bs_tables s) of
        Inr c \<Rightarrow> (Inr c, s)
      | Inl _ \<Rightarrow>
        let s1 = requested (ToCreateCustomer email name workspaceID) s in
        (case st_CreateCustomer (be_stripe env) email name workspaceID of
           Inl e \<Rightarrow> (Inl (StripeFailed e), s1)
         | Inr stripeID \<Rightarrow>
           let c = NewCustomer (be_newID env) (be_now env) workspaceID stripeID email name
           in writing c (Customer_Create (be_schema env) (be_db env 1) c (bs_tables s1)) s1))"

definition Billing_GetCustomer :: "BillingEnv \<Rightarrow> string \<Rightarrow> BillingState \<Rightarrow> billing_error + Customer" where
  "Billing_GetCustomer env w s = Customer_FindByWorkspaceID (be_schema env) (be_db env 0) w (bs_tables s)"

definition priceOf :: "string \<Rightarrow> BillingPlan \<Rightarrow> string" where
  "priceOf cycle p = (if cycle = ''yearly'' then bp_YearlyPriceID p else bp_MonthlyPriceID p)"

definition Billing_CreateSubscription ::
  "BillingEnv \<Rightarrow> string \<Rightarrow> string \<Rightarrow> string \<Rightarrow> BillingState \<Rightarrow> (billing_error + Subscription) \<times> BillingState" where
  "Billing_CreateSubscription env workspaceID planSlug cycle s =
     (case Customer_FindByWorkspaceID (be_schema env) (be_db env 0) workspaceID (bs_tables s) of
        Inl _ \<Rightarrow> (Inl ErrCustomerNotFound, s)
      | Inr c \<Rightarrow>
        (case Plan_FindBySlug (be_schema env) (be_db env 1) planSlug (bs_tables s) of
           Inl _ \<Rightarrow> (Inl ErrPlanNotFound, s)
         | Inr p \<Rightarrow>
           let s1 = requested (ToCreateSubscription (cu_StripeCustomerID c) (priceOf cycle p) (bp_TrialDays p)) s in
           (case st_CreateSubscription (be_stripe env) (cu_StripeCustomerID c) (priceOf cycle p) (bp_TrialDays p) of
              Inl e \<Rightarrow> (Inl (StripeFailed e), s1)
            | Inr x \<Rightarrow>
              let u = (NewSubscription (be_newID env) (be_now env) workspaceID (bp_ID p) (ss_ID x) (cu_StripeCustomerID c))\<lparr>
                    su_Status := ss_Status x, su_CurrentPeriodStart := ss_CurrentPeriodStart x,
                    su_CurrentPeriodEnd := ss_CurrentPeriodEnd x, su_TrialStart := ss_TrialStart x, su_TrialEnd := ss_TrialEnd x \<rparr>
              in writing u (Subscription_Create (be_schema env) (be_db env 2) u (bs_tables s1)) s1)))"

definition Billing_GetSubscription :: "BillingEnv \<Rightarrow> string \<Rightarrow> BillingState \<Rightarrow> billing_error + Subscription" where
  "Billing_GetSubscription env w s = Subscription_FindByWorkspaceID (be_schema env) (be_db env 0) w (bs_tables s)"

definition Billing_CancelSubscription ::
  "BillingEnv \<Rightarrow> string \<Rightarrow> bool \<Rightarrow> BillingState \<Rightarrow> (billing_error + unit) \<times> BillingState" where
  "Billing_CancelSubscription env workspaceID immediate s =
     (case Subscription_FindByWorkspaceID (be_schema env) (be_db env 0) workspaceID (bs_tables s) of
        Inl _ \<Rightarrow> (Inl ErrSubscriptionNotFound, s)
      | Inr u \<Rightarrow>
        let s1 = requested (ToCancelSubscription (su_StripeSubscriptionID u) (\<not> immediate)) s in
        (case st_CancelSubscription (be_stripe env) (su_StripeSubscriptionID u) (\<not> immediate) of
           Some e \<Rightarrow> (Inl (StripeFailed e), s1)
         | None \<Rightarrow>
           let u1 = Subscription_Cancel (be_now env) u;
               u2 = (if immediate then u1\<lparr> su_Status := SubscriptionStatusCanceled \<rparr> else u1)
           in writing () (Subscription_Update (be_schema env) (be_db env 1) (be_now env) u2 (bs_tables s1)) s1))"

definition Billing_ChangePlan ::
  "BillingEnv \<Rightarrow> string \<Rightarrow> string \<Rightarrow> string \<Rightarrow> BillingState \<Rightarrow> (billing_error + Subscription) \<times> BillingState" where
  "Billing_ChangePlan env workspaceID newPlanSlug cycle s =
     (case Subscription_FindByWorkspaceID (be_schema env) (be_db env 0) workspaceID (bs_tables s) of
        Inl _ \<Rightarrow> (Inl ErrSubscriptionNotFound, s)
      | Inr u \<Rightarrow>
        (case Plan_FindBySlug (be_schema env) (be_db env 1) newPlanSlug (bs_tables s) of
           Inl _ \<Rightarrow> (Inl ErrPlanNotFound, s)
         | Inr p \<Rightarrow>
           let s1 = requested (ToUpdateSubscription (su_StripeSubscriptionID u) (priceOf cycle p)) s in
           (case st_UpdateSubscription (be_stripe env) (su_StripeSubscriptionID u) (priceOf cycle p) of
              Some e \<Rightarrow> (Inl (StripeFailed e), s1)
            | None \<Rightarrow>
              let u1 = u\<lparr> su_PlanID := bp_ID p, su_UpdatedAt := be_now env \<rparr>
              in writing u1 (Subscription_Update (be_schema env) (be_db env 2) (be_now env) u1 (bs_tables s1)) s1)))"

definition Billing_CreateCheckoutSession ::
  "BillingEnv \<Rightarrow> string \<Rightarrow> string \<Rightarrow> string \<Rightarrow> string \<Rightarrow> BillingState \<Rightarrow> billing_error + string" where
  "Billing_CreateCheckoutSession env workspaceID planSlug successURL cancelURL s =
     (case Customer_FindByWorkspaceID (be_schema env) (be_db env 0) workspaceID (bs_tables s) of
        Inl _ \<Rightarrow> Inl ErrCustomerNotFound
      | Inr c \<Rightarrow>
        (case Plan_FindBySlug (be_schema env) (be_db env 1) planSlug (bs_tables s) of
           Inl _ \<Rightarrow> Inl ErrPlanNotFound
         | Inr p \<Rightarrow>
           (case st_CreateCheckoutSession (be_stripe env) (cu_StripeCustomerID c) (bp_MonthlyPriceID p) successURL cancelURL of
              Inl e \<Rightarrow> Inl (StripeFailed e) | Inr url \<Rightarrow> Inr url)))"

definition Billing_CreatePortalSession :: "BillingEnv \<Rightarrow> string \<Rightarrow> string \<Rightarrow> BillingState \<Rightarrow> billing_error + string" where
  "Billing_CreatePortalSession env workspaceID returnURL s =
     (case Customer_FindByWorkspaceID (be_schema env) (be_db env 0) workspaceID (bs_tables s) of
        Inl _ \<Rightarrow> Inl ErrCustomerNotFound
      | Inr c \<Rightarrow> (case st_CreatePortalSession (be_stripe env) (cu_StripeCustomerID c) returnURL of
          Inl e \<Rightarrow> Inl (StripeFailed e) | Inr url \<Rightarrow> Inr url))"

definition isWithinLimit :: "Usage \<Rightarrow> PlanLimits \<Rightarrow> string \<Rightarrow> bool" where
  "isWithinLimit u l limitType =
     (if limitType = ''members'' then pl_MaxMembers l = -1 \<or> ug_ActiveMembers u < pl_MaxMembers l
      else if limitType = ''workflows'' then pl_MaxWorkflows l = -1 \<or> ug_ActiveWorkflows u < pl_MaxWorkflows l
      else if limitType = ''executions'' then pl_MaxExecutionsMonth l = -1 \<or> ug_ExecutionsCount u < pl_MaxExecutionsMonth l
      else if limitType = ''credentials'' then pl_MaxCredentials l = -1 \<or> ug_CredentialsCount u < pl_MaxCredentials l
      else if limitType = ''webhooks'' then pl_MaxWebhooks l = -1 \<or> ug_WebhooksCount u < pl_MaxWebhooks l
      else True)"

definition freePlanLimits :: PlanLimits where
  "freePlanLimits = \<lparr> pl_MaxMembers = 3, pl_MaxWorkflows = 5, pl_MaxExecutionsMonth = 100, pl_MaxCredentials = 5, pl_MaxWebhooks = 2,
     pl_MaxStorageGB = 0, pl_RetentionDays = 0, pl_SupportLevel = '''' \<rparr>"

text \<open>The usage is read, and created, after the queries for the subscription and the plan; without it everything is allowed.\<close>

definition againstUsage ::
  "BillingEnv \<Rightarrow> PlanLimits \<Rightarrow> string \<Rightarrow> string \<Rightarrow> BillingState \<Rightarrow> (billing_error + bool) \<times> BillingState" where
  "againstUsage env l workspaceID limitType s =
     (case Usage_GetCurrentUsage (be_schema env) (\<lambda>k. be_db env (k + 2)) (be_calendar env) (be_newID env) (be_now env) workspaceID (bs_tables s) of
        (Inl _, t) \<Rightarrow> (Inr True, s\<lparr> bs_tables := t \<rparr>)
      | (Inr u, t) \<Rightarrow> (Inr (isWithinLimit u l limitType), s\<lparr> bs_tables := t \<rparr>))"

definition checkFreePlanLimit :: "BillingEnv \<Rightarrow> string \<Rightarrow> string \<Rightarrow> BillingState \<Rightarrow> (billing_error + bool) \<times> BillingState" where
  "checkFreePlanLimit env workspaceID limitType s = againstUsage env freePlanLimits workspaceID limitType s"

definition CheckLimit :: "BillingEnv \<Rightarrow> string \<Rightarrow> string \<Rightarrow> BillingState \<Rightarrow> (billing_error + bool) \<times> BillingState" where
  "CheckLimit env workspaceID limitType s =
     (case Subscription_FindByWorkspaceID (be_schema env) (be_db env 0) workspaceID (bs_tables s) of
        Inl _ \<Rightarrow> checkFreePlanLimit env workspaceID limitType s
      | Inr u \<Rightarrow>
        (case Plan_FindByID (be_schema env) (be_db env 1) (su_PlanID u) (bs_tables s) of
           Inl e \<Rightarrow> (Inl e, s)
         | Inr p \<Rightarrow> againstUsage env (bp_Limits p) workspaceID limitType s))"

definition RecordExecution :: "BillingEnv \<Rightarrow> string \<Rightarrow> BillingState \<Rightarrow> (billing_error + unit) \<times> BillingState" where
  "RecordExecution env w s =
     writing () (Usage_IncrementExecutions (be_schema env) (be_db env 0) (be_calendar env) (be_now env) w 1 (bs_tables s)) s"

definition RecordAPICall :: "BillingEnv \<Rightarrow> string \<Rightarrow> BillingState \<Rightarrow> (billing_error + unit) \<times> BillingState" where
  "RecordAPICall env w s =
     writing () (Usage_IncrementAPICalls (be_schema env) (be_db env 0) (be_calendar env) (be_now env) w 1 (bs_tables s)) s"

record BillingEvent =
  wv_Type :: string
  wv_Data :: dict

definition eventSubscription :: "BillingEvent \<Rightarrow> string" where
  "eventSubscription e = (case wv_Data e ''id'' of Some (VStr i) \<Rightarrow> i | _ \<Rightarrow> '''')"

definition handleSubscriptionUpdate :: "BillingEnv \<Rightarrow> BillingEvent \<Rightarrow> BillingState \<Rightarrow> (billing_error + unit) \<times> BillingState" where
  "handleSubscriptionUpdate env e s =
     (case Subscription_FindByStripeID (be_schema env) (be_db env 0) (eventSubscription e) (bs_tables s) of
        Inl _ \<Rightarrow> (Inr (), s)
      | Inr u \<Rightarrow>
        (case st_GetSubscription (be_stripe env) (eventSubscription e) of
           Inl err \<Rightarrow> (Inl (StripeFailed err), s)
         | Inr x \<Rightarrow>
           let u1 = u\<lparr> su_Status := ss_Status x, su_CurrentPeriodStart := ss_CurrentPeriodStart x,
                 su_CurrentPeriodEnd := ss_CurrentPeriodEnd x, su_CancelAtPeriodEnd := ss_CancelAtPeriodEnd x, su_UpdatedAt := be_now env \<rparr>
           in writing () (Subscription_Update (be_schema env) (be_db env 1) (be_now env) u1 (bs_tables s)) s))"

definition handleSubscriptionDeleted :: "BillingEnv \<Rightarrow> BillingEvent \<Rightarrow> BillingState \<Rightarrow> (billing_error + unit) \<times> BillingState" where
  "handleSubscriptionDeleted env e s =
     (case Subscription_FindByStripeID (be_schema env) (be_db env 0) (eventSubscription e) (bs_tables s) of
        Inl _ \<Rightarrow> (Inr (), s)
      | Inr u \<Rightarrow>
        writing () (Subscription_Update (be_schema env) (be_db env 1) (be_now env)
          (u\<lparr> su_Status := SubscriptionStatusCanceled, su_UpdatedAt := be_now env \<rparr>) (bs_tables s)) s)"

text \<open>The events of invoices and all others do nothing.\<close>

definition Billing_HandleWebhook :: "BillingEnv \<Rightarrow> BillingEvent \<Rightarrow> BillingState \<Rightarrow> (billing_error + unit) \<times> BillingState" where
  "Billing_HandleWebhook env e s =
     (if wv_Type e = ''customer.subscription.created'' \<or> wv_Type e = ''customer.subscription.updated'' then handleSubscriptionUpdate env e s
      else if wv_Type e = ''customer.subscription.deleted'' then handleSubscriptionDeleted env e s
      else (Inr (), s))"

section \<open>The schema that the migration creates\<close>

definition migrated :: "string \<Rightarrow> string list" where
  "migrated table =
     (if table = ''billing_plans'' then
        [''id'', ''name'', ''slug'', ''description'', ''stripe_price_id_monthly'', ''stripe_price_id_yearly'', ''monthly_price'', ''yearly_price'',
         ''currency'', ''features'', ''limits'', ''is_public'', ''trial_days'', ''sort_order'', ''created_at'', ''updated_at'']
      else if table = ''billing_customers'' then customerColumns
      else if table = ''subscriptions'' then subscriptionColumns
      else if table = ''billing_invoices'' then invoiceColumns
      else if table = ''billing_usage'' then
        [''id'', ''workspace_id'', ''period'', ''executions_count'', ''api_calls_count'', ''storage_used_bytes'', ''active_workflows'',
         ''active_members'', ''webhooks_count'', ''credentials_count'', ''updated_at'']
      else [])"

section \<open>Calls\<close>

datatype bcommand =
    BcCreateCustomer string string string
  | BcCreateSubscription string string string
  | BcCancel string bool
  | BcChangePlan string string string
  | BcCheckLimit string string
  | BcRecordExecution string
  | BcRecordAPICall string
  | BcWebhook BillingEvent

fun bcall :: "BillingEnv \<times> bcommand \<Rightarrow> BillingState \<Rightarrow> BillingState" where
  "bcall (env, BcCreateCustomer w e n) s = snd (Billing_CreateCustomer env w e n s)"
| "bcall (env, BcCreateSubscription w p c) s = snd (Billing_CreateSubscription env w p c s)"
| "bcall (env, BcCancel w b) s = snd (Billing_CancelSubscription env w b s)"
| "bcall (env, BcChangePlan w p c) s = snd (Billing_ChangePlan env w p c s)"
| "bcall (env, BcCheckLimit w l) s = snd (CheckLimit env w l s)"
| "bcall (env, BcRecordExecution w) s = snd (RecordExecution env w s)"
| "bcall (env, BcRecordAPICall w) s = snd (RecordAPICall env w s)"
| "bcall (env, BcWebhook e) s = snd (Billing_HandleWebhook env e s)"

primrec bcalls :: "(BillingEnv \<times> bcommand) list \<Rightarrow> BillingState \<Rightarrow> BillingState" where
  "bcalls [] s = s"
| "bcalls (c # cs) s = bcalls cs (bcall c s)"

lemma sql_Inr: "sql sm err table cols res = Inr x \<longleftrightarrow> res = Inr x \<and> err = None \<and> (\<forall>c \<in> set cols. c \<in> set (sm_Columns sm table))"
  by (auto simp: sql_def find_None_iff split: option.split dest: find_SomeD)

lemma sql_refused: "c \<in> set cols \<Longrightarrow> c \<notin> set (sm_Columns sm table) \<Longrightarrow> \<exists>e. sql sm err table cols res = Inl e"
  using sql_Inr[of sm err table cols res] by (cases "sql sm err table cols res") auto

section \<open>Under the migration\<close>

lemma migrated_refuses:
  assumes "sm_Columns sm = migrated"
  shows "\<exists>e. Plan_findBy sm err P t = Inl e" and "\<exists>e. Plan_ListPublic sm err t = Inl e"
    and "\<exists>e. findByWorkspaceAndPeriod sm err w m t = Inl e" and "\<exists>e. upsertUsage sm err counter cal now f w t = Inl e"
    and "\<exists>e. Usage_Update sm err now u t = Inl e" and "\<exists>e. sql sm err ''billing_usage'' usageColumns res = Inl e"
  unfolding Plan_findBy_def Plan_ListPublic_def findByWorkspaceAndPeriod_def upsertUsage_def Usage_Update_def Let_def
  by (rule sql_refused[of "''monthly_price_id''"]; simp add: planColumns_def assms migrated_def)+
    (rule sql_refused[of "''last_updated''"]; simp add: usageColumns_def assms migrated_def)+

lemma migrated_usage:
  assumes "sm_Columns sm = migrated"
  shows "\<exists>e. Usage_GetCurrentUsage sm db cal newID now w t = (Inl e, t)"
proof -
  obtain e0 where e0: "findByWorkspaceAndPeriod sm (db 0) w (cal_Month cal (cal_Month cal now)) t = Inl e0"
    using migrated_refuses(3)[OF assms] by blast
  obtain e1 where e1: "findByWorkspaceAndPeriod sm (db 2) w (cal_Month cal (cal_Month cal now)) t = Inl e1"
    using migrated_refuses(3)[OF assms] by blast
  have no: "(case sql sm err ''billing_usage'' usageColumns res of Inl e1 \<Rightarrow> t | Inr t2 \<Rightarrow> t2) = t" for err res
    using migrated_refuses(6)[OF assms, of err res] by auto
  show ?thesis
    by (simp add: Usage_GetCurrentUsage_def Usage_GetOrCreate_def Let_def e0 e1 no)
qed

lemma migrated_againstUsage:
  assumes "sm_Columns (be_schema env) = migrated"
  shows "againstUsage env l w k s = (Inr True, s)"
proof -
  obtain e where "Usage_GetCurrentUsage (be_schema env) (\<lambda>k. be_db env (k + 2)) (be_calendar env) (be_newID env) (be_now env) w (bs_tables s)
      = (Inl e, bs_tables s)"
    using migrated_usage[OF assms, of "\<lambda>k. be_db env (k + 2)" "be_calendar env" "be_newID env" "be_now env" w "bs_tables s"] by blast
  then show ?thesis
    by (simp add: againstUsage_def)
qed

lemma no_subscription:
  "bt_subscriptions t = [] \<Longrightarrow> \<exists>e. Subscription_findBy sm err P t = Inl e"
  by (auto simp: Subscription_findBy_def sql_def firstRow_def split: option.split)

lemma migrated_CreateSubscription:
  assumes "sm_Columns (be_schema env) = migrated"
  shows "\<exists>e. Billing_CreateSubscription env w p c s = (Inl e, s)"
proof -
  obtain e where "Plan_FindBySlug (be_schema env) (be_db env 1) p (bs_tables s) = Inl e"
    unfolding Plan_FindBySlug_def using migrated_refuses(1)[OF assms] by blast
  then show ?thesis
    by (auto simp: Billing_CreateSubscription_def split: sum.split)
qed

lemma migrated_Record:
  assumes "sm_Columns (be_schema env) = migrated"
  shows "\<exists>e. RecordExecution env w s = (Inl e, s)" and "\<exists>e. RecordAPICall env w s = (Inl e, s)"
proof -
  obtain e1 where "Usage_IncrementExecutions (be_schema env) (be_db env 0) (be_calendar env) (be_now env) w 1 (bs_tables s) = Inl e1"
    unfolding Usage_IncrementExecutions_def using migrated_refuses(4)[OF assms] by blast
  then show "\<exists>e. RecordExecution env w s = (Inl e, s)"
    by (simp add: RecordExecution_def writing_def)
  obtain e2 where "Usage_IncrementAPICalls (be_schema env) (be_db env 0) (be_calendar env) (be_now env) w 1 (bs_tables s) = Inl e2"
    unfolding Usage_IncrementAPICalls_def using migrated_refuses(4)[OF assms] by blast
  then show "\<exists>e. RecordAPICall env w s = (Inl e, s)"
    by (simp add: RecordAPICall_def writing_def)
qed

lemma migrated_CheckLimit:
  assumes "sm_Columns (be_schema env) = migrated" and "bt_subscriptions (bs_tables s) = []"
  shows "CheckLimit env w l s = (Inr True, s)"
proof -
  obtain e where "Subscription_FindByWorkspaceID (be_schema env) (be_db env 0) w (bs_tables s) = Inl e"
    unfolding Subscription_FindByWorkspaceID_def using no_subscription[OF assms(2)] by blast
  then show ?thesis
    by (simp add: CheckLimit_def checkFreePlanLimit_def migrated_againstUsage[OF assms(1)])
qed

lemma bcall_no_subscription:
  assumes "sm_Columns (be_schema env) = migrated" and "bt_subscriptions (bs_tables s) = []"
  shows "bt_subscriptions (bs_tables (bcall (env, c) s)) = []"
proof (cases c)
  case (BcCreateCustomer w e n)
  then show ?thesis
    using assms(2) by (auto simp: Billing_CreateCustomer_def Let_def requested_def writing_def Customer_Create_def sql_Inr
        split: sum.split if_splits)
next
  case (BcCreateSubscription w p k)
  with migrated_CreateSubscription[OF assms(1), of w p k s] assms(2) show ?thesis by auto
next
  case (BcCancel w b)
  then show ?thesis
    using assms(2) no_subscription[OF assms(2), of "be_schema env" "be_db env 0" "\<lambda>s. su_WorkspaceID s = w"]
    by (auto simp: Billing_CancelSubscription_def Subscription_FindByWorkspaceID_def)
next
  case (BcChangePlan w p k)
  then show ?thesis
    using assms(2) no_subscription[OF assms(2), of "be_schema env" "be_db env 0" "\<lambda>s. su_WorkspaceID s = w"]
    by (auto simp: Billing_ChangePlan_def Subscription_FindByWorkspaceID_def)
next
  case (BcCheckLimit w l)
  with migrated_CheckLimit[OF assms, of w l] assms(2) show ?thesis by simp
next
  case (BcRecordExecution w)
  with migrated_Record(1)[OF assms(1), of w s] assms(2) show ?thesis by auto
next
  case (BcRecordAPICall w)
  with migrated_Record(2)[OF assms(1), of w s] assms(2) show ?thesis by auto
next
  case (BcWebhook e)
  then show ?thesis
    using assms(2) no_subscription[OF assms(2), of "be_schema env" "be_db env 0" "\<lambda>s. su_StripeSubscriptionID s = eventSubscription e"]
    by (auto simp: Billing_HandleWebhook_def handleSubscriptionUpdate_def handleSubscriptionDeleted_def Subscription_FindByStripeID_def)
qed

lemma bcalls_no_subscription:
  "\<forall>c \<in> set cs. sm_Columns (be_schema (fst c)) = migrated \<Longrightarrow> bt_subscriptions (bs_tables s) = [] \<Longrightarrow>
     bt_subscriptions (bs_tables (bcalls cs s)) = []"
proof (induction cs arbitrary: s)
  case (Cons c cs)
  have "bt_subscriptions (bs_tables (bcall c s)) = []"
    using bcall_no_subscription[of "fst c" s "snd c"] Cons.prems by simp
  with Cons show ?case by simp
qed simp

text \<open>C33: With the tables that the migration creates, no limit is ever enforced: after any calls from tables without subscriptions, every
  limit of every workspace is met, no execution or API call is recorded, and no subscription can be created. The queries name columns of the plans
  and of the usage that the migration calls otherwise.\<close>

theorem limits_never_enforced:
  assumes "\<forall>c \<in> set cs. sm_Columns (be_schema (fst c)) = migrated" and "bt_subscriptions (bs_tables s0) = []"
    and "sm_Columns (be_schema env) = migrated"
  shows "fst (CheckLimit env w l (bcalls cs s0)) = Inr True
    \<and> (\<exists>e. fst (RecordExecution env w (bcalls cs s0)) = Inl e) \<and> (\<exists>e. fst (RecordAPICall env w (bcalls cs s0)) = Inl e)
    \<and> (\<exists>e. fst (Billing_CreateSubscription env w p cycle (bcalls cs s0)) = Inl e)"
proof -
  have "bt_subscriptions (bs_tables (bcalls cs s0)) = []"
    by (rule bcalls_no_subscription[OF assms(1,2)])
  from migrated_CheckLimit[OF assms(3) this, of w l] migrated_Record[OF assms(3), of w "bcalls cs s0"]
    migrated_CreateSubscription[OF assms(3), of w p cycle "bcalls cs s0"]
  show ?thesis by fastforce
qed

section \<open>Under a schema with every column\<close>

definition complete :: "Schema \<Rightarrow> bool" where
  "complete sm \<longleftrightarrow> (\<forall>i. sm_AcceptsID sm i) \<and> set customerColumns \<subseteq> set (sm_Columns sm ''billing_customers'')
     \<and> set subscriptionColumns \<subseteq> set (sm_Columns sm ''subscriptions'') \<and> set planColumns \<subseteq> set (sm_Columns sm ''billing_plans'')
     \<and> set usageColumns \<subseteq> set (sm_Columns sm ''billing_usage'')"

lemma sql_ok: "set cols \<subseteq> set (sm_Columns sm table) \<Longrightarrow> sql sm None table cols res = res"
  by (auto simp: sql_def subset_iff split: option.split dest: find_SomeD)

text \<open>The executions that are counted for a workspace and a month, and those that a run records.\<close>

definition execs :: "string \<Rightarrow> time \<Rightarrow> Usage list \<Rightarrow> int" where
  "execs w m us = (case find (\<lambda>u. ug_WorkspaceID u = w \<and> ug_Period u = m) us of None \<Rightarrow> 0 | Some u \<Rightarrow> ug_ExecutionsCount u)"

fun records :: "string \<Rightarrow> time \<Rightarrow> BillingEnv \<times> bcommand \<Rightarrow> BillingState \<Rightarrow> bool" where
  "records w m (env, BcRecordExecution v) s \<longleftrightarrow>
     v = w \<and> cal_Month (be_calendar env) (be_now env) = m \<and> \<not> isl (fst (RecordExecution env v s))"
| "records w m (env, c) s \<longleftrightarrow> False"

primrec recorded :: "string \<Rightarrow> time \<Rightarrow> (BillingEnv \<times> bcommand) list \<Rightarrow> BillingState \<Rightarrow> int" where
  "recorded w m [] s = 0"
| "recorded w m (c # cs) s = (if records w m c s then 1 else 0) + recorded w m cs (bcall c s)"

lemma execs_append:
  "execs w m (us @ [u]) = (if find (\<lambda>u. ug_WorkspaceID u = w \<and> ug_Period u = m) us = None \<and> ug_WorkspaceID u = w \<and> ug_Period u = m
     then ug_ExecutionsCount u else execs w m us)"
  by (auto simp: execs_def find_append split: option.split)

lemma execs_zero: "ug_ExecutionsCount u = 0 \<Longrightarrow> execs w m (us @ [u]) = execs w m us"
  by (auto simp: execs_def find_append split: option.split)

lemma execs_map:
  assumes "\<And>u. ug_WorkspaceID (f u) = ug_WorkspaceID u \<and> ug_Period (f u) = ug_Period u"
    and "\<And>u. ug_WorkspaceID u = w \<Longrightarrow> ug_Period u = m \<Longrightarrow> ug_ExecutionsCount (f u) = ug_ExecutionsCount u + d"
  shows "execs w m (map f us) = execs w m us + (if find (\<lambda>u. ug_WorkspaceID u = w \<and> ug_Period u = m) us = None then 0 else d)"
  using assms by (induction us) (auto simp: execs_def)

lemma upsert_execs:
  assumes "upsertUsage sm err counter cal now f v t = Inr t'"
    and "\<And>u. ug_WorkspaceID (f u) = ug_WorkspaceID u \<and> ug_Period (f u) = ug_Period u \<and> ug_ExecutionsCount (f u) = ug_ExecutionsCount u + d"
  shows "execs w m (bt_usage t') = execs w m (bt_usage t) + (if v = w \<and> cal_Month cal now = m then d else 0)"
proof -
  let ?hit = "\<lambda>r. ug_WorkspaceID r = v \<and> ug_Period r = cal_Month cal now"
  let ?new = "NewUsage (v @ ''-'' @ cal_Label cal (cal_Month cal now)) now v (cal_Month cal now)"
  have "bt_usage t' = map (\<lambda>r. if ?hit r then (f r)\<lparr> ug_LastUpdated := now \<rparr> else r) (bt_usage t) \<and> list_ex ?hit (bt_usage t)
      \<or> bt_usage t' = bt_usage t @ [f ?new] \<and> \<not> list_ex ?hit (bt_usage t)"
    using assms(1) by (auto simp: upsertUsage_def Let_def sql_Inr split: if_splits)
  then show ?thesis
  proof (elim disjE conjE)
    assume m: "bt_usage t' = map (\<lambda>r. if ?hit r then (f r)\<lparr> ug_LastUpdated := now \<rparr> else r) (bt_usage t)" and hit: "list_ex ?hit (bt_usage t)"
    have "execs w m (bt_usage t') = execs w m (bt_usage t)
        + (if find (\<lambda>u. ug_WorkspaceID u = w \<and> ug_Period u = m) (bt_usage t) = None then 0 else if v = w \<and> cal_Month cal now = m then d else 0)"
      unfolding m by (rule execs_map) (auto simp: assms(2))
    with hit show ?thesis
      by (auto simp: find_None_iff list_ex_iff)
  next
    assume new: "bt_usage t' = bt_usage t @ [f ?new]" and none: "\<not> list_ex ?hit (bt_usage t)"
    have u: "ug_WorkspaceID (f ?new) = v" "ug_Period (f ?new) = cal_Month cal now" "ug_ExecutionsCount (f ?new) = d"
      by (simp_all add: assms(2) NewUsage_def)
    have "find (\<lambda>u. ug_WorkspaceID u = w \<and> ug_Period u = m) (bt_usage t) = None" if "v = w" "cal_Month cal now = m"
      using none that by (simp add: find_None_iff list_ex_iff)
    then show ?thesis
      unfolding new execs_append u by (auto simp: execs_def)
  qed
qed

lemma GetOrCreate_execs:
  assumes "Usage_GetOrCreate sm db cal newID now v p t = (res, t')"
  shows "execs w m (bt_usage t') = execs w m (bt_usage t) \<and> bt_subscriptions t' = bt_subscriptions t \<and> bt_plans t' = bt_plans t"
proof -
  have "t' = t \<or> t' = t\<lparr> bt_usage := bt_usage t @ [NewUsage newID now v (cal_Month cal p)] \<rparr>"
    using assms by (auto simp: Usage_GetOrCreate_def Let_def sql_Inr split: sum.splits if_splits)
  then show ?thesis
    by (elim disjE) (simp_all add: execs_zero NewUsage_def)
qed

lemma CheckLimit_execs: "execs w m (bt_usage (bs_tables (snd (CheckLimit env v l s)))) = execs w m (bt_usage (bs_tables s))"
proof -
  have "execs w m (bt_usage (bs_tables (snd (againstUsage env k v l s)))) = execs w m (bt_usage (bs_tables s))" for k
    using GetOrCreate_execs unfolding againstUsage_def Usage_GetCurrentUsage_def
    by (auto split: prod.split sum.split)
  then show ?thesis
    by (simp add: CheckLimit_def checkFreePlanLimit_def split: sum.split)
qed

lemma bcall_execs:
  "execs w m (bt_usage (bs_tables (bcall c s))) = execs w m (bt_usage (bs_tables s)) + (if records w m c s then 1 else 0)"
proof (cases c)
  case (Pair env k)
  show ?thesis
  proof (cases k)
    case (BcRecordExecution v)
    show ?thesis
    proof (cases "Usage_IncrementExecutions (be_schema env) (be_db env 0) (be_calendar env) (be_now env) v 1 (bs_tables s)")
      case (Inr t)
      have "execs w m (bt_usage t) = execs w m (bt_usage (bs_tables s)) + (if v = w \<and> cal_Month (be_calendar env) (be_now env) = m then 1 else 0)"
        by (rule upsert_execs[OF Inr[unfolded Usage_IncrementExecutions_def]]) simp
      with Inr Pair BcRecordExecution show ?thesis
        by (simp add: RecordExecution_def writing_def)
    qed (simp add: Pair BcRecordExecution RecordExecution_def writing_def)
  next
    case (BcRecordAPICall v)
    show ?thesis
    proof (cases "Usage_IncrementAPICalls (be_schema env) (be_db env 0) (be_calendar env) (be_now env) v 1 (bs_tables s)")
      case (Inr t)
      have "execs w m (bt_usage t) = execs w m (bt_usage (bs_tables s)) + (if v = w \<and> cal_Month (be_calendar env) (be_now env) = m then 0 else 0)"
        by (rule upsert_execs[OF Inr[unfolded Usage_IncrementAPICalls_def]]) simp
      with Inr Pair BcRecordAPICall show ?thesis
        by (simp add: RecordAPICall_def writing_def)
    qed (simp add: Pair BcRecordAPICall RecordAPICall_def writing_def)
  qed (auto simp: Pair CheckLimit_execs Billing_CreateCustomer_def Billing_CreateSubscription_def Billing_CancelSubscription_def
      Billing_ChangePlan_def Billing_HandleWebhook_def handleSubscriptionUpdate_def handleSubscriptionDeleted_def writing_def requested_def
      Customer_Create_def Subscription_Create_def Subscription_Update_def sql_Inr Let_def split: sum.split option.split)
qed

lemma bcalls_execs:
  "execs w m (bt_usage (bs_tables (bcalls cs s))) = execs w m (bt_usage (bs_tables s)) + recorded w m cs s"
  by (induction cs arbitrary: s) (simp_all add: bcall_execs)

text \<open>C34: The free limit of executions is exact: with every column in place, a workspace without a subscription is within its limit
  exactly as long as fewer than a hundred of its executions have been recorded in the month, whatever other calls of
  any workspace come between.\<close>

theorem free_executions_limit_exact:
  assumes "complete (be_schema env)" and "\<forall>k. be_db env k = None"
    and "cal_Month (be_calendar env) (cal_Month (be_calendar env) (be_now env)) = cal_Month (be_calendar env) (be_now env)"
    and "bt_usage (bs_tables s0) = []" and "\<forall>u \<in> set (bt_subscriptions (bs_tables (bcalls cs s0))). su_WorkspaceID u \<noteq> w"
  shows "fst (CheckLimit env w ''executions'' (bcalls cs s0))
    = Inr (recorded w (cal_Month (be_calendar env) (be_now env)) cs s0 < 100)"
proof -
  let ?s = "bcalls cs s0" and ?m = "cal_Month (be_calendar env) (be_now env)"
  let ?hit = "\<lambda>u. ug_WorkspaceID u = w \<and> ug_Period u = ?m"
  have count: "recorded w ?m cs s0 = execs w ?m (bt_usage (bs_tables ?s))"
    using bcalls_execs[of w ?m cs s0] assms(4) by (simp add: execs_def)
  have cols: "set usageColumns \<subseteq> set (sm_Columns (be_schema env) ''billing_usage'')"
      "set subscriptionColumns \<subseteq> set (sm_Columns (be_schema env) ''subscriptions'')"
    using assms(1) by (simp_all add: complete_def)
  have free: "CheckLimit env w ''executions'' ?s = againstUsage env freePlanLimits w ''executions'' ?s"
    using assms(2,5) by (auto simp: CheckLimit_def checkFreePlanLimit_def Subscription_FindByWorkspaceID_def Subscription_findBy_def
        sql_ok[OF cols(2)] firstRow_def find_None_iff split: option.split dest!: find_SomeD)
  have found: "findByWorkspaceAndPeriod (be_schema env) None w ?m t = firstRow UsageNotFound ?hit (bt_usage t)" for t
    by (simp add: findByWorkspaceAndPeriod_def sql_ok[OF cols(1)])
  obtain res t where get: "Usage_GetCurrentUsage (be_schema env) (\<lambda>k. be_db env (k + 2)) (be_calendar env) (be_newID env) (be_now env) w (bs_tables ?s) = (res, t)"
    by fastforce
  have t: "execs w ?m (bt_usage t) = execs w ?m (bt_usage (bs_tables ?s))"
    using GetOrCreate_execs get unfolding Usage_GetCurrentUsage_def by blast
  have "res = firstRow UsageNotFound ?hit (bt_usage t)"
    using get assms(2,3) by (auto simp: Usage_GetCurrentUsage_def Usage_GetOrCreate_def Let_def found split: sum.splits)
  then have "fst (againstUsage env freePlanLimits w ''executions'' ?s) = Inr (execs w ?m (bt_usage t) < 100)"
    unfolding againstUsage_def get by (auto simp: firstRow_def execs_def isWithinLimit_def freePlanLimits_def split: option.split)
  with free count t show ?thesis
    by simp
qed

lemma find_map_same: "(\<And>r. r \<in> set rs \<Longrightarrow> P (g r) = P r) \<Longrightarrow> find P (map g rs) = map_option g (find P rs)"
  by (induction rs) auto

text \<open>The limits of a workspace depend on the plans of its subscriptions only.\<close>

lemma GetCurrentUsage_other:
  "fst (Usage_GetCurrentUsage sm db cal newID now w (t\<lparr> bt_subscriptions := us \<rparr>)) = fst (Usage_GetCurrentUsage sm db cal newID now w t)"
proof -
  have same: "findByWorkspaceAndPeriod sm err w p t1 = findByWorkspaceAndPeriod sm err w p t2" if "bt_usage t1 = bt_usage t2" for err p t1 t2
    using that by (simp add: findByWorkspaceAndPeriod_def)
  let ?p = "cal_Month cal (cal_Month cal now)"
  let ?ins = "\<lambda>t. sql sm (db 1) ''billing_usage'' usageColumns
      (if \<not> sm_AcceptsID sm newID then Inl NotAUUID
       else if list_ex (\<lambda>r. ug_WorkspaceID r = w \<and> ug_Period r = ?p) (bt_usage t) then Inr t
       else if list_ex (\<lambda>r. ug_ID r = newID) (bt_usage t) then Inl UniqueViolation
       else Inr (t\<lparr> bt_usage := bt_usage t @ [NewUsage newID now w ?p] \<rparr>))"
  have get: "fst (Usage_GetCurrentUsage sm db cal newID now w t) = (case findByWorkspaceAndPeriod sm (db 0) w ?p t of
      Inr u \<Rightarrow> Inr u | Inl e \<Rightarrow> findByWorkspaceAndPeriod sm (db 2) w ?p (case ?ins t of Inl e1 \<Rightarrow> t | Inr t2 \<Rightarrow> t2))" for t
    unfolding Usage_GetCurrentUsage_def Usage_GetOrCreate_def Let_def by (simp split: sum.split)
  have "bt_usage (case ?ins (t\<lparr> bt_subscriptions := us \<rparr>) of Inl e1 \<Rightarrow> t\<lparr> bt_subscriptions := us \<rparr> | Inr t2 \<Rightarrow> t2)
      = bt_usage (case ?ins t of Inl e1 \<Rightarrow> t | Inr t2 \<Rightarrow> t2)"
    by (simp add: sql_def split: option.split)
  from same[OF this, of "db 2" ?p] have "findByWorkspaceAndPeriod sm (db 2) w ?p (case ?ins (t\<lparr> bt_subscriptions := us \<rparr>) of
      Inl e1 \<Rightarrow> t\<lparr> bt_subscriptions := us \<rparr> | Inr t2 \<Rightarrow> t2) = findByWorkspaceAndPeriod sm (db 2) w ?p (case ?ins t of Inl e1 \<Rightarrow> t | Inr t2 \<Rightarrow> t2)" .
  moreover have "findByWorkspaceAndPeriod sm (db 0) w ?p (t\<lparr> bt_subscriptions := us \<rparr>) = findByWorkspaceAndPeriod sm (db 0) w ?p t"
    by (rule same) simp
  ultimately show ?thesis
    by (simp only: get)
qed

lemma CheckLimit_plans:
  assumes "\<And>u. u \<in> set (bt_subscriptions (bs_tables s)) \<Longrightarrow> su_WorkspaceID (g u) = su_WorkspaceID u \<and> su_PlanID (g u) = su_PlanID u"
    and "bs_tables s1 = (bs_tables s)\<lparr> bt_subscriptions := map g (bt_subscriptions (bs_tables s)) \<rparr>"
  shows "fst (CheckLimit env w l s1) = fst (CheckLimit env w l s)"
proof -
  have usage: "fst (againstUsage env k w l s1) = fst (againstUsage env k w l s)" for k
  proof -
    have "fst (againstUsage env k w l x) = (case fst (Usage_GetCurrentUsage (be_schema env) (\<lambda>k. be_db env (k + 2)) (be_calendar env)
        (be_newID env) (be_now env) w (bs_tables x)) of Inl _ \<Rightarrow> Inr True | Inr u \<Rightarrow> Inr (isWithinLimit u k l))" for x
      unfolding againstUsage_def by (auto split: prod.split sum.split)
    from this[of s1] this[of s] show ?thesis
      by (simp only: assms(2) GetCurrentUsage_other)
  qed
  have found: "find (\<lambda>u. su_WorkspaceID u = w) (map g (bt_subscriptions (bs_tables s)))
      = map_option g (find (\<lambda>u. su_WorkspaceID u = w) (bt_subscriptions (bs_tables s)))"
    by (rule find_map_same) (simp add: assms(1))
  have plans: "Plan_FindByID (be_schema env) err i (bs_tables s1) = Plan_FindByID (be_schema env) err i (bs_tables s)" for err i
    by (simp add: Plan_FindByID_def Plan_findBy_def assms(2))
  show ?thesis
  proof (cases "find (\<lambda>u. su_WorkspaceID u = w) (bt_subscriptions (bs_tables s))")
    case None
    with found show ?thesis
      by (auto simp: CheckLimit_def checkFreePlanLimit_def usage Subscription_FindByWorkspaceID_def Subscription_findBy_def firstRow_def
          assms(2) sql_def split: option.split)
  next
    case (Some u)
    then have "su_PlanID (g u) = su_PlanID u"
      using assms(1) by (auto dest: find_SomeD)
    with Some found plans usage show ?thesis
      by (auto simp: CheckLimit_def checkFreePlanLimit_def Subscription_FindByWorkspaceID_def Subscription_findBy_def firstRow_def
          assms(2) sql_def split: option.split sum.split)
  qed
qed

text \<open>A cancelled subscription keeps its limits: cancelling at once makes the subscription inactive, and every check of a limit
  of the workspace answers as before, because the check looks at the plan of the subscription and never at its status.\<close>

theorem cancelled_subscription_keeps_limits:
  assumes "distinct (map su_ID (bt_subscriptions (bs_tables s)))" and "Billing_CancelSubscription env w True s = (Inr (), s1)"
  shows "(\<forall>u. Subscription_FindByWorkspaceID sm err w (bs_tables s1) = Inr u \<longrightarrow>
      \<not> Subscription_IsActive u \<and> su_CanceledAt u = Some (be_now env))
    \<and> fst (CheckLimit env' w l s1) = fst (CheckLimit env' w l s)"
proof -
  let ?rows = "bt_subscriptions (bs_tables s)"
  obtain u where u: "find (\<lambda>u. su_WorkspaceID u = w) ?rows = Some u"
    using assms(2) by (auto simp: Billing_CancelSubscription_def Subscription_FindByWorkspaceID_def Subscription_findBy_def sql_Inr firstRow_def
        split: sum.splits option.splits)
  define c where "c = (Subscription_Cancel (be_now env) u)\<lparr> su_Status := SubscriptionStatusCanceled \<rparr>"
  define g where "g r = (if su_ID r = su_ID c then c\<lparr> su_WorkspaceID := su_WorkspaceID r, su_StripeSubscriptionID := su_StripeSubscriptionID r,
      su_StripeCustomerID := su_StripeCustomerID r, su_CreatedAt := su_CreatedAt r, su_UpdatedAt := be_now env \<rparr> else r)" for r
  have s1: "bs_tables s1 = (bs_tables s)\<lparr> bt_subscriptions := map g ?rows \<rparr>"
    using assms(2) u by (auto simp: Billing_CancelSubscription_def Subscription_FindByWorkspaceID_def Subscription_findBy_def sql_Inr firstRow_def
        Subscription_Update_def writing_def requested_def Let_def c_def g_def fun_eq_iff split: sum.splits option.splits)
  have "r = u" if "r \<in> set ?rows" "su_ID r = su_ID u" for r
    using find_SomeD[OF u] that assms(1) by (auto simp: distinct_map inj_on_def)
  then have "su_WorkspaceID (g r) = su_WorkspaceID r \<and> su_PlanID (g r) = su_PlanID r" if "r \<in> set ?rows" for r
    using that by (auto simp: g_def c_def Subscription_Cancel_def)
  moreover from this have "find (\<lambda>u. su_WorkspaceID u = w) (map g ?rows) = Some (g u)"
    using find_map_same[of ?rows "\<lambda>u. su_WorkspaceID u = w" g] u by simp
  moreover have "\<not> Subscription_IsActive (g u)" "su_CanceledAt (g u) = Some (be_now env)"
    by (simp_all add: g_def c_def Subscription_Cancel_def Subscription_IsActive_def SubscriptionStatusCanceled_def
        SubscriptionStatusActive_def SubscriptionStatusTrialing_def)
  ultimately show ?thesis
    using CheckLimit_plans[of s g s1 env' w l] s1
    by (auto simp: Subscription_FindByWorkspaceID_def Subscription_findBy_def sql_Inr firstRow_def)
qed

section \<open>Examples\<close>

definition sample_stripe :: Stripe where
  "sample_stripe = \<lparr> st_CreateCustomer = (\<lambda>_ _ _. Inr ''cus''), st_CreateSubscription = (\<lambda>_ _ _. Inl ''declined''),
     st_UpdateSubscription = (\<lambda>_ _. None), st_CancelSubscription = (\<lambda>_ _. None), st_GetSubscription = (\<lambda>_. Inl ''none''),
     st_CreateCheckoutSession = (\<lambda>_ _ _ _. Inl ''none''), st_CreatePortalSession = (\<lambda>_ _. Inl ''none'') \<rparr>"

definition billing_env :: "(string \<Rightarrow> string list) \<Rightarrow> BillingEnv" where
  "billing_env cols = \<lparr> be_schema = \<lparr> sm_Columns = cols, sm_AcceptsID = (\<lambda>_. True) \<rparr>, be_db = (\<lambda>_. None), be_stripe = sample_stripe,
     be_calendar = \<lparr> cal_Month = (\<lambda>_. 0), cal_Label = (\<lambda>_. ''1970-01'') \<rparr>, be_now = 5, be_newID = ''id'' \<rparr>"

definition all_columns :: "string \<Rightarrow> string list" where
  "all_columns _ = customerColumns @ subscriptionColumns @ planColumns @ usageColumns @ [''sort_order'']"

definition sample_subscription :: Subscription where
  "sample_subscription = NewSubscription ''s'' 0 ''w'' ''pro'' ''sub'' ''cus''"

definition sample_tables :: "Subscription list \<Rightarrow> BillingState" where
  "sample_tables us = \<lparr> bs_tables = \<lparr> bt_plans = [], bt_customers = [], bt_subscriptions = us, bt_invoices = [], bt_usage = [] \<rparr>, bs_requests = [] \<rparr>"

lemma limits_never_enforced_witness:
  "fst (CheckLimit (billing_env migrated) ''w'' ''workflows''
     (bcalls [(billing_env migrated, BcCreateCustomer ''w'' ''e'' ''n''), (billing_env migrated, BcRecordExecution ''w'')] (sample_tables []))) = Inr True"
  using limits_never_enforced[of "[(billing_env migrated, BcCreateCustomer ''w'' ''e'' ''n''), (billing_env migrated, BcRecordExecution ''w'')]"
      "sample_tables []" "billing_env migrated" "''w''" "''workflows''" "''pro''" "''yearly''"]
  by (simp add: billing_env_def sample_tables_def)

lemma free_executions_limit_exact_witness:
  "fst (CheckLimit (billing_env all_columns) ''w'' ''executions'' (bcalls [(billing_env all_columns, BcRecordExecution ''w'')] (sample_tables [])))
    = Inr (recorded ''w'' 0 [(billing_env all_columns, BcRecordExecution ''w'')] (sample_tables []) < 100)
   \<and> recorded ''w'' 0 [(billing_env all_columns, BcRecordExecution ''w'')] (sample_tables []) = 1"
proof
  have "cal_Month (be_calendar (billing_env all_columns)) (be_now (billing_env all_columns)) = 0"
    by (simp add: billing_env_def)
  moreover have "complete (be_schema (billing_env all_columns))"
    by (auto simp: complete_def billing_env_def all_columns_def)
  moreover have "bt_subscriptions (bs_tables (bcalls [(billing_env all_columns, BcRecordExecution ''w'')] (sample_tables []))) = []"
    by (auto simp: sample_tables_def RecordExecution_def writing_def Usage_IncrementExecutions_def upsertUsage_def sql_Inr Let_def split: sum.split)
  ultimately show "fst (CheckLimit (billing_env all_columns) ''w'' ''executions'' (bcalls [(billing_env all_columns, BcRecordExecution ''w'')] (sample_tables [])))
      = Inr (recorded ''w'' 0 [(billing_env all_columns, BcRecordExecution ''w'')] (sample_tables []) < 100)"
    using free_executions_limit_exact[of "billing_env all_columns" "sample_tables []" "[(billing_env all_columns, BcRecordExecution ''w'')]" "''w''"]
    by (simp add: sample_tables_def billing_env_def)
  show "recorded ''w'' 0 [(billing_env all_columns, BcRecordExecution ''w'')] (sample_tables []) = 1"
    by code_simp
qed

lemma cancelled_subscription_keeps_limits_witness:
  "\<exists>s1. Billing_CancelSubscription (billing_env all_columns) ''w'' True (sample_tables [sample_subscription]) = (Inr (), s1)
     \<and> fst (CheckLimit (billing_env all_columns) ''w'' ''members'' s1)
       = fst (CheckLimit (billing_env all_columns) ''w'' ''members'' (sample_tables [sample_subscription]))"
proof -
  have d: "distinct (map su_ID (bt_subscriptions (bs_tables (sample_tables [sample_subscription]))))"
    by (simp add: sample_tables_def)
  have "\<exists>s1. Billing_CancelSubscription (billing_env all_columns) ''w'' True (sample_tables [sample_subscription]) = (Inr (), s1)"
  proof -
    have "\<not> isl (fst (Billing_CancelSubscription (billing_env all_columns) ''w'' True (sample_tables [sample_subscription])))"
      by code_simp
    then show ?thesis
      by (cases "Billing_CancelSubscription (billing_env all_columns) ''w'' True (sample_tables [sample_subscription])";
          cases "fst (Billing_CancelSubscription (billing_env all_columns) ''w'' True (sample_tables [sample_subscription]))") auto
  qed
  then show ?thesis
    using cancelled_subscription_keeps_limits[OF d] by blast
qed

end
