(* ===== verification/Templates.thy ===== *)
theory Templates
  imports Workflow
begin

text \<open>
  Templates of workflows (\<open>internal/workflow/features/templates.go\<close>): the service over the in-memory repository, a map
  from identifiers to templates. \<open>replaceAll\<close> may run for ever and is a partial function; a call that does not return
  is None. The JSON text of a value and what a reader gets from a text are fields of
  \<open>json_lib\<close>; new identifiers \<open>rnd k\<close> and readings of the clock \<open>clk k\<close> are numbered by call; an argument \<open>order\<close> lists the
  keys of a map in the order of a loop over it. Strings are lists of bytes.
\<close>

section \<open>Strings\<close>

text \<open>\<open>containsHelper\<close> and the inner loop of \<open>replaceAll\<close>: the first position at which a substring starts.\<close>

fun indexOf :: "string \<Rightarrow> string \<Rightarrow> nat option" where
  "indexOf old [] = (if old = [] then Some 0 else None)"
| "indexOf old (c # s) = (if take (length old) (c # s) = old then Some 0 else map_option Suc (indexOf old s))"

definition contains :: "string \<Rightarrow> string \<Rightarrow> bool" where
  "contains s substr \<longleftrightarrow> length substr \<le> length s \<and> (s = substr \<or> 0 < length s \<and> indexOf substr s \<noteq> None)"

partial_function (option) replaceAll :: "string \<Rightarrow> string \<Rightarrow> string \<Rightarrow> string option" where
  "replaceAll s old new =
     (case indexOf old s of
        None \<Rightarrow> Some s
      | Some idx \<Rightarrow> replaceAll (take idx s @ new @ drop (idx + length old) s) old new)"

section \<open>Templates\<close>

record TemplateVariable =
  tv_Name :: string
  tv_Description :: string
  tv_Type :: string
  tv_Required :: bool
  tv_DefaultValue :: "value"
  tv_Options :: "string list"
  tv_Placeholder :: string

record Template =
  te_ID :: string
  te_Name :: string
  te_Description :: string
  te_Category :: string
  te_Tags :: "string list"
  te_Icon :: string
  te_Nodes :: "Node list"
  te_Connections :: "Connection list"
  te_Settings :: Settings
  te_Variables :: "TemplateVariable list"
  te_Integrations :: "string list"
  te_Author :: string
  te_Version :: string
  te_IsPublic :: bool
  te_UsageCount :: int
  te_Rating :: rat
  te_CreatedAt :: time
  te_UpdatedAt :: time
  te_Metadata :: dict

record TemplateFilter =
  tf_Category :: string
  tf_Tags :: "string list"
  tf_Integrations :: "string list"
  tf_IsPublic :: "bool option"
  tf_Author :: string
  tf_Search :: string

record json_lib =
  js_Marshal :: "value \<Rightarrow> string"
  js_Unmarshal :: "string \<Rightarrow> dict option"

datatype template_error =
    ErrTemplateNotFound
  | ErrVariableNotProvided string
  | ErrAssignmentToNilMap
  | ErrTemplateWorkflow WorkflowError
  | ErrFailedToAddNode WorkflowError
  | ErrFailedToAddConnection WorkflowError
  | ErrFailedToUpdateSettings WorkflowError

section \<open>Categories\<close>

record TemplateCategory =
  ca_ID :: string
  ca_Name :: string
  ca_Description :: string
  ca_Icon :: string
  ca_Order :: int

definition defaultCategories :: "TemplateCategory list" where
  "defaultCategories = map (\<lambda>(i, n, d, ic, k). \<lparr> ca_ID = i, ca_Name = n, ca_Description = d, ca_Icon = ic, ca_Order = k \<rparr>)
     [(''marketing'', ''Marketing'', ''Marketing automation workflows'', ''megaphone'', 1),
      (''sales'', ''Sales'', ''Sales and CRM workflows'', ''chart-line'', 2),
      (''devops'', ''DevOps'', ''CI/CD and infrastructure workflows'', ''server'', 3),
      (''productivity'', ''Productivity'', ''Personal productivity workflows'', ''clock'', 4),
      (''data'', ''Data & Analytics'', ''Data processing workflows'', ''database'', 5),
      (''communication'', ''Communication'', ''Messaging and notification workflows'', ''message'', 6),
      (''ecommerce'', ''E-commerce'', ''Online store workflows'', ''shopping-cart'', 7),
      (''hr'', ''HR & Recruiting'', ''Human resources workflows'', ''users'', 8),
      (''finance'', ''Finance'', ''Financial and accounting workflows'', ''dollar-sign'', 9),
      (''other'', ''Other'', ''Miscellaneous workflows'', ''folder'', 100)]"

definition initDefaultCategories :: "string \<Rightarrow> TemplateCategory option" where
  "initDefaultCategories = fold (\<lambda>cat m. m(ca_ID cat \<mapsto> cat)) defaultCategories Map.empty"

definition ListCategories :: "string list \<Rightarrow> (string \<Rightarrow> TemplateCategory option) \<Rightarrow> TemplateCategory list" where
  "ListCategories order categories = List.map_filter categories order"

section \<open>The in-memory repository\<close>

type_synonym templates = "string \<Rightarrow> Template option"

definition Template_Create :: "Template \<Rightarrow> templates \<Rightarrow> templates" where
  "Template_Create t r = r(te_ID t \<mapsto> t)"

definition Template_FindByID :: "string \<Rightarrow> templates \<Rightarrow> template_error + Template" where
  "Template_FindByID i r = (case r i of None \<Rightarrow> Inl ErrTemplateNotFound | Some t \<Rightarrow> Inr t)"

definition Template_Update :: "Template \<Rightarrow> templates \<Rightarrow> templates" where
  "Template_Update t r = r(te_ID t \<mapsto> t)"

definition Template_Delete :: "string \<Rightarrow> templates \<Rightarrow> templates" where
  "Template_Delete i r = r(i := None)"

definition matchesFilter :: "Template \<Rightarrow> TemplateFilter option \<Rightarrow> bool" where
  "matchesFilter t flt =
     (case flt of
        None \<Rightarrow> True
      | Some f \<Rightarrow>
          \<not> (tf_Category f \<noteq> '''' \<and> te_Category t \<noteq> tf_Category f)
          \<and> \<not> (case tf_IsPublic f of None \<Rightarrow> False | Some p \<Rightarrow> te_IsPublic t \<noteq> p)
          \<and> \<not> (tf_Author f \<noteq> '''' \<and> te_Author t \<noteq> tf_Author f))"

definition matching :: "string list \<Rightarrow> TemplateFilter option \<Rightarrow> templates \<Rightarrow> Template list" where
  "matching order flt r = filter (\<lambda>t. matchesFilter t flt) (List.map_filter r order)"

text \<open>A slice expression with bounds out of range panics: None.\<close>

definition Template_List ::
  "string list \<Rightarrow> TemplateFilter option \<Rightarrow> int \<Rightarrow> int \<Rightarrow> templates \<Rightarrow> Template list option" where
  "Template_List order flt limit offset r =
     (let result = matching order flt r; n = int (length result)
      in if offset \<ge> n then Some []
         else let stop = (if offset + limit > n then n else offset + limit)
              in if 0 \<le> offset \<and> offset \<le> stop then Some (take (nat (stop - offset)) (drop (nat offset) result)) else None)"

definition Template_Count :: "string list \<Rightarrow> TemplateFilter option \<Rightarrow> templates \<Rightarrow> int" where
  "Template_Count order flt r = int (length (matching order flt r))"

definition IncrementUsage :: "string \<Rightarrow> templates \<Rightarrow> templates" where
  "IncrementUsage i r = (case r i of None \<Rightarrow> r | Some t \<Rightarrow> r(i \<mapsto> t\<lparr> te_UsageCount := te_UsageCount t + 1 \<rparr>))"

section \<open>The service\<close>

definition CreateTemplate :: "string \<Rightarrow> time \<Rightarrow> time \<Rightarrow> Template \<Rightarrow> templates \<Rightarrow> templates" where
  "CreateTemplate fresh now1 now2 t r =
     Template_Create (t\<lparr> te_ID := (if te_ID t = '''' then fresh else te_ID t), te_CreatedAt := now1, te_UpdatedAt := now2,
       te_Version := ''1.0.0'', te_UsageCount := 0,
       te_Category := (if te_Category t = '''' then ''other'' else te_Category t) \<rparr>) r"

text \<open>The variables that the configuration of a node asks for; \<open>seen\<close> holds the names found so far.\<close>

definition variableIn :: "value \<Rightarrow> string option" where
  "variableIn v =
     (case v of
        VStr s \<Rightarrow> if length s > 4 \<and> take 2 s = ''{{'' \<and> drop (length s - 2) s = ''}}'' then Some (drop 2 (take (length s - 2) s)) else None
      | _ \<Rightarrow> None)"

fun nodeVariables :: "Node \<Rightarrow> string list \<Rightarrow> TemplateVariable list \<Rightarrow> TemplateVariable list" where
  "nodeVariables n [] vs = vs"
| "nodeVariables n (key # keys) vs =
     (case Option.bind (n_Config n key) variableIn of
        None \<Rightarrow> nodeVariables n keys vs
      | Some varName \<Rightarrow>
          if varName \<in> set (map tv_Name vs) then nodeVariables n keys vs
          else nodeVariables n keys (vs @ [\<lparr> tv_Name = varName,
                 tv_Description = ''Variable for '' @ key @ '' in '' @ n_Name n, tv_Type = ''string'', tv_Required = True,
                 tv_DefaultValue = VNil, tv_Options = [], tv_Placeholder = '''' \<rparr>]))"

fun extractVariables :: "(Node \<Rightarrow> string list) \<Rightarrow> Node list \<Rightarrow> TemplateVariable list \<Rightarrow> TemplateVariable list" where
  "extractVariables order [] vs = vs"
| "extractVariables order (n # ns) vs = extractVariables order ns (nodeVariables n (order n) vs)"

definition integrationOf :: "Node \<Rightarrow> string option" where
  "integrationOf n =
     (let name = n_Name n
      in if contains name ''Slack'' then Some ''slack''
         else if contains name ''GitHub'' then Some ''github''
         else if contains name ''Google'' then Some ''google''
         else if contains name ''Email'' \<or> contains name ''SMTP'' then Some ''email''
         else if contains name ''Notion'' then Some ''notion''
         else if contains name ''Airtable'' then Some ''airtable''
         else None)"

text \<open>\<open>shuffle\<close> is the order in which the keys of the map of integrations come.\<close>

definition extractIntegrations :: "(string list \<Rightarrow> string list) \<Rightarrow> Node list \<Rightarrow> string list" where
  "extractIntegrations shuffle ns = shuffle (remdups (List.map_filter integrationOf ns))"

definition CreateFromWorkflow ::
  "string \<Rightarrow> time \<Rightarrow> time \<Rightarrow> (Node \<Rightarrow> string list) \<Rightarrow> (string list \<Rightarrow> string list) \<Rightarrow> Workflow \<Rightarrow>
   string \<Rightarrow> string \<Rightarrow> string \<Rightarrow> bool \<Rightarrow> templates \<Rightarrow> Template \<times> templates" where
  "CreateFromWorkflow fresh now1 now2 order shuffle w name description category isPublic r =
     (let t = \<lparr> te_ID = fresh, te_Name = name, te_Description = description, te_Category = category, te_Tags = [],
            te_Icon = '''', te_Nodes = w_nodes w, te_Connections = w_connections w, te_Settings = w_settings w,
            te_Variables = extractVariables order (w_nodes w) [], te_Integrations = extractIntegrations shuffle (w_nodes w),
            te_Author = w_userID w, te_Version = ''1.0.0'', te_IsPublic = isPublic, te_UsageCount = 0, te_Rating = 0,
            te_CreatedAt = now1, te_UpdatedAt = now2, te_Metadata = Map.empty \<rparr>
      in (t, Template_Create t r))"

text \<open>The check of the required variables writes the defaults into the caller's map, which may be nil.\<close>

fun requireVariables :: "TemplateVariable list \<Rightarrow> dict option \<Rightarrow> dict option \<times> template_error option" where
  "requireVariables [] vals = (vals, None)"
| "requireVariables (v # vs) vals =
     (if tv_Required v \<and> entries vals (tv_Name v) = None then
        (if tv_DefaultValue v = VNil then (vals, Some (ErrVariableNotProvided (tv_Name v)))
         else case vals of
             None \<Rightarrow> (vals, Some ErrAssignmentToNilMap)
           | Some m \<Rightarrow> requireVariables vs (Some (m(tv_Name v \<mapsto> tv_DefaultValue v))))
      else requireVariables vs vals)"

definition replacementOf :: "json_lib \<Rightarrow> value \<Rightarrow> string" where
  "replacementOf js v = (case v of VStr s \<Rightarrow> s | _ \<Rightarrow> js_Marshal js v)"

definition placeholder :: "string \<Rightarrow> string" where
  "placeholder name = ''{{'' @ name @ ''}}''"

fun replaceVariables :: "json_lib \<Rightarrow> string list \<Rightarrow> dict \<Rightarrow> string \<Rightarrow> string option" where
  "replaceVariables js [] vals s = Some s"
| "replaceVariables js (name # names) vals s =
     (case vals name of
        None \<Rightarrow> replaceVariables js names vals s
      | Some v \<Rightarrow>
          Option.bind (replaceAll s (placeholder name) (replacementOf js v)) (replaceVariables js names vals))"

text \<open>An error of the reader is ignored, which leaves the map nil; a nil map reads as an empty one.\<close>

definition substituteVariables :: "json_lib \<Rightarrow> string \<Rightarrow> string list \<Rightarrow> Node \<Rightarrow> dict option \<Rightarrow> Node option" where
  "substituteVariables js fresh order n vals =
     map_option (\<lambda>s. \<lparr> n_ID = fresh, n_Type = n_Type n, n_Name = n_Name n, n_Description = n_Description n,
         n_Config = entries (js_Unmarshal js s), n_Position = n_Position n \<rparr>)
       (replaceVariables js order (entries vals) (js_Marshal js (VMap (n_Config n))))"

fun instantiateNodes ::
  "json_lib \<Rightarrow> (nat \<Rightarrow> string) \<Rightarrow> (nat \<Rightarrow> time) \<Rightarrow> (nat \<Rightarrow> string list) \<Rightarrow> dict option \<Rightarrow> nat \<Rightarrow> Node list \<Rightarrow> Workflow \<Rightarrow>
   (template_error + Workflow) option" where
  "instantiateNodes js rnd clk order vals k [] w = Some (Inr w)"
| "instantiateNodes js rnd clk order vals k (n # ns) w =
     (case substituteVariables js (rnd k) (order k) n vals of
        None \<Rightarrow> None
      | Some processed \<Rightarrow>
          (case AddNode '''' (clk k) processed w of
             Inl e \<Rightarrow> Some (Inl (ErrFailedToAddNode e))
           | Inr w' \<Rightarrow> instantiateNodes js rnd clk order vals (k + 1) ns w'))"

fun instantiateConnections ::
  "(nat \<Rightarrow> string) \<Rightarrow> (nat \<Rightarrow> time) \<Rightarrow> nat \<Rightarrow> Connection list \<Rightarrow> Workflow \<Rightarrow> template_error + Workflow" where
  "instantiateConnections rnd clk k [] w = Inr w"
| "instantiateConnections rnd clk k (c # cs) w =
     (case AddConnection (rnd k) (clk k) c w of
        Inl e \<Rightarrow> Inl (ErrFailedToAddConnection e)
      | Inr w' \<Rightarrow> instantiateConnections rnd clk (k + 1) cs w')"

text \<open>
  The result: the caller's map after the call, the repository, and the answer. Call \<open>0\<close> of the generator names the
  workflow, the calls from \<open>2\<close> on the nodes and the connections without a name.
\<close>

definition buildWorkflow ::
  "json_lib \<Rightarrow> (nat \<Rightarrow> string) \<Rightarrow> (nat \<Rightarrow> time) \<Rightarrow> (nat \<Rightarrow> string list) \<Rightarrow> Template \<Rightarrow> string \<Rightarrow> dict option \<Rightarrow>
   (template_error + Workflow) option" where
  "buildWorkflow js rnd clk order t userID vals =
     (case NewWorkflow (rnd 0) (clk 0) (clk 1) userID (te_Name t) (te_Description t) of
        Inl e \<Rightarrow> Some (Inl (ErrTemplateWorkflow e))
      | Inr w0 \<Rightarrow>
        (case instantiateNodes js rnd clk order vals 2 (te_Nodes t) w0 of
           None \<Rightarrow> None
         | Some (Inl e) \<Rightarrow> Some (Inl e)
         | Some (Inr w1) \<Rightarrow>
           (case instantiateConnections rnd clk (2 + length (te_Nodes t)) (te_Connections t) w1 of
              Inl e \<Rightarrow> Some (Inl e)
            | Inr w2 \<Rightarrow>
              (case UpdateSettings (clk (2 + length (te_Nodes t) + length (te_Connections t))) (te_Settings t) w2 of
                 Inl e \<Rightarrow> Some (Inl (ErrFailedToUpdateSettings e))
               | Inr w3 \<Rightarrow> Some (Inr w3)))))"

definition InstantiateTemplate ::
  "json_lib \<Rightarrow> (nat \<Rightarrow> string) \<Rightarrow> (nat \<Rightarrow> time) \<Rightarrow> (nat \<Rightarrow> string list) \<Rightarrow> string \<Rightarrow> string \<Rightarrow> dict option \<Rightarrow> templates \<Rightarrow>
   (dict option \<times> templates \<times> (template_error + Workflow)) option" where
  "InstantiateTemplate js rnd clk order templateID userID vals r =
     (case Template_FindByID templateID r of
        Inl e \<Rightarrow> Some (vals, r, Inl e)
      | Inr t \<Rightarrow>
        (case requireVariables (te_Variables t) vals of
           (vals', Some e) \<Rightarrow> Some (vals', r, Inl e)
         | (vals', None) \<Rightarrow>
           (case buildWorkflow js rnd clk order t userID vals' of
              None \<Rightarrow> None
            | Some (Inl e) \<Rightarrow> Some (vals', r, Inl e)
            | Some (Inr w) \<Rightarrow> Some (vals', IncrementUsage templateID r, Inr w))))"

definition UpdateTemplate :: "time \<Rightarrow> Template \<Rightarrow> templates \<Rightarrow> templates" where
  "UpdateTemplate now t r = Template_Update (t\<lparr> te_UpdatedAt := now \<rparr>) r"

section \<open>Replacement\<close>

lemma indexOf_Some:
  "indexOf old s = Some i \<Longrightarrow> i + length old \<le> length s \<and> take (length old) (drop i s) = old"
  by (induction old s arbitrary: i rule: indexOf.induct) (auto split: if_splits dest: arg_cong[of _ _ length])

lemma indexOf_split:
  assumes "indexOf old s = Some i"
  shows "s = take i s @ old @ drop (i + length old) s"
  using indexOf_Some[OF assms] by (metis append_take_drop_id drop_drop add.commute)

lemma indexOf_None: "indexOf old s = None \<longleftrightarrow> (\<nexists>us vs. s = us @ old @ vs)"
proof (induction old s rule: indexOf.induct)
  case (2 old c s)
  have "(\<exists>us vs. c # s = us @ old @ vs) \<longleftrightarrow> take (length old) (c # s) = old \<or> (\<exists>us vs. s = us @ old @ vs)"
  proof (intro iffI)
    assume "\<exists>us vs. c # s = us @ old @ vs"
    then obtain us vs where cs: "c # s = us @ old @ vs"
      by blast
    show "take (length old) (c # s) = old \<or> (\<exists>us vs. s = us @ old @ vs)"
    proof (cases us)
      case Nil
      then show ?thesis
        using cs by simp
    next
      case (Cons d us')
      then have "s = us' @ old @ vs"
        using cs by simp
      then show ?thesis
        by blast
    qed
  next
    assume "take (length old) (c # s) = old \<or> (\<exists>us vs. s = us @ old @ vs)"
    then show "\<exists>us vs. c # s = us @ old @ vs"
      by (metis append_Cons append_Nil append_take_drop_id)
  qed
  then show ?case
    using 2 by auto
qed auto

text \<open>What is returned holds no placeholder any more.\<close>

lemma replaceAll_result: "replaceAll s old new = Some t \<Longrightarrow> indexOf old t = None"
proof (induction rule: replaceAll.raw_induct[rotated, consumes 1])
  case (1 go s old new t)
  then show ?case
    by (auto split: option.splits)
qed

text \<open>A replacement that has fewer of some character than the placeholder shortens the work that is left.\<close>

lemma replaceAll_returns:
  assumes "count_list new c < count_list old c"
  shows "\<exists>t. replaceAll s old new = Some t"
proof (induction "count_list s c" arbitrary: s rule: less_induct)
  case less
  show ?case
  proof (cases "indexOf old s")
    case (Some i)
    have "count_list (take i s @ new @ drop (i + length old) s) c < count_list s c"
      using assms arg_cong[OF indexOf_split[OF Some], of "\<lambda>s. count_list s c"] by simp
    from less[OF this] Some show ?thesis
      by (subst replaceAll.simps) simp
  qed (subst replaceAll.simps, simp)
qed

text \<open>A replacement that holds the placeholder itself keeps the loop going for ever.\<close>

lemma replaceAll_hangs:
  assumes "new = us @ old @ vs" and "indexOf old s \<noteq> None"
  shows "replaceAll s old new = None"
proof -
  have "replaceAll s old new = Some t \<Longrightarrow> \<exists>us vs. new = us @ old @ vs \<Longrightarrow> indexOf old s = None" for s t
  proof (induction rule: replaceAll.raw_induct[rotated, consumes 1])
    case (1 go s old new t)
    then obtain us vs where new: "new = us @ old @ vs"
      by blast
    have left: "indexOf old (take i s @ new @ drop (i + length old) s) \<noteq> None" for i
      unfolding indexOf_None new by (metis append.assoc)
    show ?case
    proof (cases "indexOf old s")
      case (Some i)
      then have "go (take i s @ new @ drop (i + length old) s) old new = Some t"
        using 1(2) by simp
      from 1(1)[OF this 1(3)] left show ?thesis
        by blast
    qed
  qed
  then show ?thesis
    using assms by (metis not_None_eq)
qed

section \<open>What an instantiation can give\<close>

text \<open>The nodes of a workflow in the making have the identifiers of the generator.\<close>

lemma instantiateNodes_result:
  assumes "instantiateNodes js rnd clk order vals k ns w = Some (Inr w')"
    and "w_status w = WorkflowStatusDraft" and "\<forall>j. rnd j \<noteq> ''''"
  shows "w_status w' = WorkflowStatusDraft \<and> w_connections w' = w_connections w \<and> w_userID w' = w_userID w
    \<and> w_name w' = w_name w \<and> map n_ID (w_nodes w') = map n_ID (w_nodes w) @ map rnd [k..<k + length ns]
    \<and> map (\<lambda>n. (n_Type n, n_Name n, n_Description n, n_Position n)) (w_nodes w')
        = map (\<lambda>n. (n_Type n, n_Name n, n_Description n, n_Position n)) (w_nodes w @ ns)"
  using assms
proof (induction js rnd clk order vals k ns w rule: instantiateNodes.induct)
  case (2 js rnd clk order vals k n ns w)
  then obtain m w1 where m: "substituteVariables js (rnd k) (order k) n vals = Some m" and w1: "AddNode '''' (clk k) m w = Inr w1"
    and run: "instantiateNodes js rnd clk order vals (k + 1) ns w1 = Some (Inr w')"
    by (auto split: option.splits sum.splits)
  have "n_ID m = rnd k" and "(n_Type m, n_Name m, n_Description m, n_Position m) = (n_Type n, n_Name n, n_Description n, n_Position n)"
    using m by (auto simp: substituteVariables_def)
  then have "w_nodes w1 = w_nodes w @ [m]" and "w_status w1 = WorkflowStatusDraft" and "w_connections w1 = w_connections w"
    and "w_userID w1 = w_userID w" and "w_name w1 = w_name w"
    using w1 2(3,4) by (auto simp: op_defs split: if_splits)
  then show ?case
    using 2(1)[OF m w1 run] 2(4) \<open>n_ID m = rnd k\<close> \<open>(n_Type m, _, _, _) = _\<close>
    by (simp add: upt_conv_Cons del: upt_Suc)
qed simp

lemma instantiateConnections_dangling:
  assumes "\<forall>n \<in> set (w_nodes w). n_ID n \<noteq> c_SourceNodeID c" and "w_status w = WorkflowStatusDraft"
  shows "instantiateConnections rnd clk k (c # cs) w = Inl (ErrFailedToAddConnection (ErrSourceNotFound (c_SourceNodeID c)))"
  using assms by (auto simp: AddConnection_def list_ex_iff)

lemma buildWorkflow_result:
  assumes "buildWorkflow js rnd clk order t userID vals = Some (Inr w)"
    and "\<forall>k. rnd k \<noteq> ''''" and "\<forall>k. \<forall>c \<in> set (te_Connections t). rnd k \<noteq> c_SourceNodeID c"
  shows "te_Connections t = [] \<and> w_status w = WorkflowStatusDraft \<and> w_connections w = [] \<and> w_settings w = te_Settings t
    \<and> w_userID w = userID \<and> w_name w = te_Name t \<and> map n_ID (w_nodes w) = map rnd [2..<2 + length (te_Nodes t)]
    \<and> map (\<lambda>n. (n_Type n, n_Name n, n_Description n, n_Position n)) (w_nodes w)
        = map (\<lambda>n. (n_Type n, n_Name n, n_Description n, n_Position n)) (te_Nodes t)"
proof -
  obtain w0 w1 w2 where w0: "NewWorkflow (rnd 0) (clk 0) (clk 1) userID (te_Name t) (te_Description t) = Inr w0"
    and w1: "instantiateNodes js rnd clk order vals 2 (te_Nodes t) w0 = Some (Inr w1)"
    and w2: "instantiateConnections rnd clk (2 + length (te_Nodes t)) (te_Connections t) w1 = Inr w2"
    and w3: "UpdateSettings (clk (2 + length (te_Nodes t) + length (te_Connections t))) (te_Settings t) w2 = Inr w"
    using assms(1) by (auto simp: buildWorkflow_def split: sum.splits option.splits)
  have new: "w_status w0 = WorkflowStatusDraft" "w_nodes w0 = []" "w_connections w0 = []" "w_userID w0 = userID" "w_name w0 = te_Name t"
    using w0 by (auto simp: NewWorkflow_def addEvent_def split: if_splits)
  note nodes = instantiateNodes_result[OF w1 new(1) assms(2), unfolded new append_Nil list.map(1)]
  have "te_Connections t = []"
  proof (rule ccontr)
    assume "te_Connections t \<noteq> []"
    then obtain c cs where c: "te_Connections t = c # cs"
      by (cases "te_Connections t") auto
    have ids: "map n_ID (w_nodes w1) = map rnd [2..<2 + length (te_Nodes t)]"
      using nodes by blast
    have "n_ID n \<in> range rnd" if "n \<in> set (w_nodes w1)" for n
      using arg_cong[OF ids, of set] that by auto
    then have "\<forall>n \<in> set (w_nodes w1). n_ID n \<noteq> c_SourceNodeID c"
      using assms(3) unfolding c by fastforce
    from instantiateConnections_dangling[OF this] w2 nodes show False
      unfolding c by simp
  qed
  then have "w2 = w1"
    using w2 by simp
  have "\<exists>v es now. w = w1\<lparr> w_settings := te_Settings t, w_updatedAt := now, w_events := es, w_version := v \<rparr>"
    using w3 unfolding \<open>w2 = w1\<close> UpdateSettings_def addEvent_def by (auto split: if_splits)
  then show ?thesis
    using nodes \<open>te_Connections t = []\<close> by (elim exE) (simp only: Workflow.simps, simp)
qed

text \<open>C37: A template that connects its nodes can never be instantiated: every node gets a new identifier and the connections keep the
  old ones, so that a call that gives a workflow was made with a template without connections, and its workflow is a draft
  with the nodes of the template under new identifiers and the settings of the template; the repository has changed exactly if a workflow was given, and then only in the count of uses.\<close>
theorem instantiated_template_is_bare:
  assumes "r templateID = Some t" and "\<forall>k. rnd k \<noteq> ''''" and "\<forall>k. \<forall>c \<in> set (te_Connections t). rnd k \<noteq> c_SourceNodeID c"
    and "InstantiateTemplate js rnd clk order templateID userID vals r = Some (vals', r', answer)"
  shows "case answer of
      Inl e \<Rightarrow> r' = r
    | Inr w \<Rightarrow> te_Connections t = [] \<and> w_status w = WorkflowStatusDraft \<and> w_connections w = [] \<and> w_settings w = te_Settings t
        \<and> w_userID w = userID \<and> w_name w = te_Name t \<and> map n_ID (w_nodes w) = map rnd [2..<2 + length (te_Nodes t)]
        \<and> map (\<lambda>n. (n_Type n, n_Name n, n_Description n, n_Position n)) (w_nodes w)
            = map (\<lambda>n. (n_Type n, n_Name n, n_Description n, n_Position n)) (te_Nodes t)
        \<and> r' = r(templateID \<mapsto> t\<lparr> te_UsageCount := te_UsageCount t + 1 \<rparr>)"
proof (cases answer)
  case (Inl e)
  then show ?thesis
    using assms(1,4) by (auto simp: InstantiateTemplate_def Template_FindByID_def split: prod.splits option.splits sum.splits)
next
  case (Inr w)
  then obtain vals1 where "buildWorkflow js rnd clk order t userID vals1 = Some (Inr w)"
    and r': "r' = IncrementUsage templateID r"
    using assms(1,4) by (auto simp: InstantiateTemplate_def Template_FindByID_def split: prod.splits option.splits sum.splits)
  from buildWorkflow_result[OF this(1) assms(2,3)] show ?thesis
    using Inr assms(1) r' by (simp add: IncrementUsage_def)
qed

text \<open>The same for a template made from a workflow: a connection of a workflow is among its own nodes.\<close>

corollary shared_workflow_cannot_be_rebuilt:
  assumes "CreateFromWorkflow fresh now1 now2 order shuffle w name description category isPublic r0 = (t, r)"
    and "w_connections w \<noteq> []" and "\<forall>k. rnd k \<noteq> ''''" and "\<forall>k. \<forall>c \<in> set (w_connections w). rnd k \<noteq> c_SourceNodeID c"
    and "InstantiateTemplate js rnd clk orders (te_ID t) userID vals r = Some (vals', r', answer)"
  shows "\<exists>e. answer = Inl e"
proof (cases answer)
  case (Inr w')
  have t: "te_Connections t = w_connections w" and r: "r (te_ID t) = Some t"
    using assms(1) by (auto simp: CreateFromWorkflow_def Template_Create_def Let_def)
  from Inr instantiated_template_is_bare[OF r assms(3) _ assms(5)] assms(2,4) t show ?thesis
    by simp
qed simp

section \<open>When an instantiation returns\<close>

definition harmless :: "json_lib \<Rightarrow> value \<Rightarrow> bool" where
  "harmless js v \<longleftrightarrow> count_list (replacementOf js v) (CHR ''{'') < 2"

lemma replaceVariables_returns:
  "\<forall>v \<in> ran vals. harmless js v \<Longrightarrow> \<exists>t. replaceVariables js names vals s = Some t"
proof (induction names arbitrary: s)
  case (Cons name names)
  show ?case
  proof (cases "vals name")
    case (Some v)
    then have "harmless js v"
      using Cons.prems by (auto intro: ranI)
    then have "count_list (replacementOf js v) (CHR ''{'') < count_list (placeholder name) (CHR ''{'')"
      by (simp add: harmless_def placeholder_def)
    from replaceAll_returns[OF this] obtain u where "replaceAll s (placeholder name) (replacementOf js v) = Some u"
      by blast
    then show ?thesis
      using Cons Some by auto
  qed (use Cons in auto)
qed simp

lemma instantiateNodes_returns:
  assumes "\<forall>v \<in> ran (entries vals). harmless js v"
  shows "\<exists>answer. instantiateNodes js rnd clk order vals k ns w = Some answer"
proof (induction ns arbitrary: k w)
  case (Cons n ns)
  obtain s where "replaceVariables js (order k) (entries vals) (js_Marshal js (VMap (n_Config n))) = Some s"
    using replaceVariables_returns[OF assms] by blast
  then obtain m where "substituteVariables js (rnd k) (order k) n vals = Some m"
    by (auto simp: substituteVariables_def)
  then show ?case
    using Cons by (auto split: sum.splits)
qed simp

lemma requireVariables_values:
  assumes "requireVariables vs vals = (vals', e)" and "\<forall>v \<in> ran (entries vals). P v" and "\<forall>v \<in> set vs. P (tv_DefaultValue v)"
  shows "\<forall>v \<in> ran (entries vals'). P v"
  using assms
proof (induction vs vals rule: requireVariables.induct)
  case (2 v vs vals)
  consider m where "tv_Required v" "m (tv_Name v) = None" "tv_DefaultValue v \<noteq> VNil" "vals = Some m"
    | "\<not> (tv_Required v \<and> entries vals (tv_Name v) = None)"
    | "tv_Required v" "entries vals (tv_Name v) = None" "tv_DefaultValue v = VNil \<or> vals = None"
    by (cases vals) auto
  then show ?case
  proof cases
    case 1
    have run: "requireVariables vs (Some (m(tv_Name v \<mapsto> tv_DefaultValue v))) = (vals', e)"
      using 2(3) 1 by simp
    have "\<forall>x \<in> ran (entries (Some (m(tv_Name v \<mapsto> tv_DefaultValue v)))). P x"
      using 2(4,5) 1 by (simp add: ran_map_upd)
    from 2(1)[OF _ _ 1(4) run this] 1 2(5) show ?thesis
      by auto
  next
    case 2: 2
    with "2.IH"(2) "2.prems" show ?thesis
      by simp
  next
    case 3
    then have "vals' = vals"
      using 2(3) by (auto split: option.splits if_splits)
    then show ?thesis
      using 2(4) by simp
  qed
qed simp

text \<open>An instantiation returns when no value and no default of a variable holds two opening braces.\<close>

theorem InstantiateTemplate_returns:
  assumes "\<forall>v \<in> ran (entries vals). harmless js v"
    and "\<forall>t. r templateID = Some t \<longrightarrow> (\<forall>v \<in> set (te_Variables t). harmless js (tv_DefaultValue v))"
  shows "\<exists>answer. InstantiateTemplate js rnd clk order templateID userID vals r = Some answer"
proof (cases "r templateID")
  case (Some t)
  obtain vals' e where req: "requireVariables (te_Variables t) vals = (vals', e)"
    by force
  have "\<forall>v \<in> ran (entries vals'). harmless js v"
    using requireVariables_values[OF req, of "harmless js"] assms Some by blast
  from instantiateNodes_returns[OF this]
  have "\<exists>answer. buildWorkflow js rnd clk order t userID vals' = Some answer"
    unfolding buildWorkflow_def by (auto split: sum.splits option.splits) (metis option.distinct(1))
  then show ?thesis
    using Some req by (auto simp: InstantiateTemplate_def Template_FindByID_def split: option.splits sum.splits)
qed (simp add: InstantiateTemplate_def Template_FindByID_def)

text \<open>A text that holds its own placeholder makes the substitution run for ever at the first place where it is used.\<close>

theorem substitution_of_itself_hangs:
  assumes "m name = Some (VStr s)" and "contains s (placeholder name)"
    and "contains (js_Marshal js (VMap (n_Config n))) (placeholder name)"
  shows "substituteVariables js fresh (name # names) n (Some m) = None"
proof -
  obtain us vs where "s = us @ placeholder name @ vs"
    using assms(2) indexOf_None[of "placeholder name" s] by (auto simp: contains_def) (metis append_Nil append_Nil2)
  moreover have "indexOf (placeholder name) (js_Marshal js (VMap (n_Config n))) \<noteq> None"
    using assms(3) indexOf_None[of "placeholder name" "placeholder name"]
    by (auto simp: contains_def) (metis append_Nil append_Nil2 not_None_eq)
  ultimately show ?thesis
    using assms(1) replaceAll_hangs by (simp add: substituteVariables_def replacementOf_def)
qed

section \<open>Examples\<close>

definition template_node :: Node where
  "template_node = \<lparr> n_ID = ''a'', n_Type = NodeTypeTrigger, n_Name = ''Slack hook'', n_Description = '''',
     n_Config = [''text'' \<mapsto> VStr ''{{who}}''], n_Position = \<lparr> p_X = 0, p_Y = 0 \<rparr> \<rparr>"

definition sample_template :: "Connection list \<Rightarrow> Template" where
  "sample_template cs = \<lparr> te_ID = ''t'', te_Name = ''greet'', te_Description = '''', te_Category = ''other'', te_Tags = [],
     te_Icon = '''', te_Nodes = [template_node], te_Connections = cs, te_Settings = DefaultSettings,
     te_Variables = extractVariables (\<lambda>_. [''text'']) [template_node] [], te_Integrations = extractIntegrations id [template_node],
     te_Author = ''ann'', te_Version = ''1.0.0'', te_IsPublic = True, te_UsageCount = 0, te_Rating = 0, te_CreatedAt = 0,
     te_UpdatedAt = 0, te_Metadata = Map.empty \<rparr>"

definition template_json :: json_lib where
  "template_json = \<lparr> js_Marshal = (\<lambda>_. ''[{{who}}]''), js_Unmarshal = (\<lambda>s. Some [''text'' \<mapsto> VStr s]) \<rparr>"

definition template_rnd :: "nat \<Rightarrow> string" where
  "template_rnd k = replicate (k + 1) (CHR ''u'')"

lemma sample_template_variables:
  "map tv_Name (te_Variables (sample_template cs)) = [''who''] \<and> te_Integrations (sample_template cs) = [''slack'']"
  by (simp add: sample_template_def template_node_def variableIn_def extractIntegrations_def integrationOf_def contains_def
      map_filter_simps)

lemma sample_substitution:
  "substituteVariables template_json ''n'' [''who''] template_node (Some [''who'' \<mapsto> VStr ''you''])
     = Some (template_node\<lparr> n_ID := ''n'', n_Config := [''text'' \<mapsto> VStr ''[you]''] \<rparr>)"
  by (simp add: substituteVariables_def template_node_def template_json_def placeholder_def replacementOf_def replaceAll.simps)

lemma sample_instance:
  "\<exists>r' w. InstantiateTemplate template_json template_rnd (\<lambda>_. 0) (\<lambda>_. [''who'']) ''t'' ''bob'' (Some [''who'' \<mapsto> VStr ''you''])
     [''t'' \<mapsto> sample_template []] = Some (Some [''who'' \<mapsto> VStr ''you''], r', Inr w)"
proof -
  have "requireVariables (te_Variables (sample_template [])) (Some [''who'' \<mapsto> VStr ''you'']) = (Some [''who'' \<mapsto> VStr ''you''], None)"
    by (simp add: sample_template_def template_node_def variableIn_def)
  moreover have "\<exists>w. buildWorkflow template_json template_rnd (\<lambda>_. 0) (\<lambda>_. [''who'']) (sample_template []) ''bob''
      (Some [''who'' \<mapsto> VStr ''you'']) = Some (Inr w)"
    by (simp add: buildWorkflow_def sample_template_def NewWorkflow_def op_defs substituteVariables_def template_node_def
        template_json_def placeholder_def replacementOf_def replaceAll.simps)
  ultimately show ?thesis
    by (auto simp: InstantiateTemplate_def Template_FindByID_def)
qed

lemma instantiated_template_is_bare_witness:
  "\<exists>r' w. InstantiateTemplate template_json template_rnd (\<lambda>_. 0) (\<lambda>_. [''who'']) ''t'' ''bob'' (Some [''who'' \<mapsto> VStr ''you''])
       [''t'' \<mapsto> sample_template []] = Some (Some [''who'' \<mapsto> VStr ''you''], r', Inr w)
     \<and> w_connections w = [] \<and> map n_ID (w_nodes w) = [''uuu''] \<and> w_name w = ''greet''"
proof -
  obtain r' w where run: "InstantiateTemplate template_json template_rnd (\<lambda>_. 0) (\<lambda>_. [''who'']) ''t'' ''bob'' (Some [''who'' \<mapsto> VStr ''you''])
       [''t'' \<mapsto> sample_template []] = Some (Some [''who'' \<mapsto> VStr ''you''], r', Inr w)"
    using sample_instance by blast
  from instantiated_template_is_bare[OF _ _ _ this, of "sample_template []"]
  have "w_connections w = []" "map n_ID (w_nodes w) = map template_rnd [2..<3]" "w_name w = ''greet''"
    by (simp_all add: template_rnd_def sample_template_def)
  moreover have "map template_rnd [2..<3] = [''uuu'']"
    by code_simp
  ultimately show ?thesis
    using run by (simp del: upt_conv_Nil)
qed

lemma sample_hangs:
  "substituteVariables template_json ''n'' [''who''] template_node (Some [''who'' \<mapsto> VStr ''dear {{who}}'']) = None"
  by (rule substitution_of_itself_hangs[where s = "''dear {{who}}''"])
    (simp_all add: contains_def placeholder_def template_json_def)

end
