(* ===== verification/Debugger.thy ===== *)
theory Debugger
  imports Prelude
begin

text \<open>
  The debugger of workflows (\<open>internal/workflow/features/debug.go\<close>): sessions, their manager and the executor of a debugged run.
  A session is an object that the manager and its clients share: \<open>dm_objects\<close> holds every session ever made by its
  identifier, \<open>dm_sessions\<close> the keys of the manager's table. Maps that are handed in are only stored. New identifiers and
  readings of the clock are arguments, \<open>order\<close> lists the keys of a map in the order of a loop over it.
\<close>

section \<open>Sessions\<close>

datatype DebugStatus =
    DebugStatusIdle
  | DebugStatusRunning
  | DebugStatusPaused
  | DebugStatusStepping
  | DebugStatusStopped

datatype StepMode =
    StepModeNone
  | StepModeInto
  | StepModeOver
  | StepModeOut
  | StepModeToNext
  | StepModeToCursor

datatype DebugEventType =
    DebugEventNodeEnter
  | DebugEventNodeExit
  | DebugEventNodeError
  | DebugEventBreakpointHit
  | DebugEventVariableChange
  | DebugEventStepComplete
  | DebugEventSessionStart
  | DebugEventSessionEnd

record DebugEvent =
  de_ID :: string
  de_Type :: DebugEventType
  de_NodeID :: string
  de_Message :: string
  de_Data :: "dict option"
  de_Timestamp :: time

record StackFrame =
  sf_NodeID :: string
  sf_NodeName :: string
  sf_NodeType :: string
  sf_Input :: "dict option"
  sf_Depth :: int
  sf_SubWorkflow :: string

record DebugState =
  dt_NodeOutputs :: "string \<Rightarrow> dict option option"
  dt_Variables :: dict
  dt_TriggerData :: "dict option"
  dt_CurrentInput :: "dict option"
  dt_CallStack :: "StackFrame list"

record DebugSession =
  ds_ID :: string
  ds_WorkflowID :: string
  ds_UserID :: string
  ds_Status :: DebugStatus
  ds_CurrentNode :: string
  ds_Breakpoints :: "string \<Rightarrow> bool option"
  ds_WatchedVars :: "string list"
  ds_StepMode :: StepMode
  ds_StartedAt :: time
  ds_LastActivity :: time
  ds_ExecutionID :: string
  ds_State :: DebugState
  ds_History :: "DebugEvent list"

text \<open>\<open>event_stamp\<close> is the identifier and the time of a new event.\<close>

type_synonym event_stamp = "string \<times> time"

definition Debug_addEvent ::
  "event_stamp \<Rightarrow> DebugEventType \<Rightarrow> string \<Rightarrow> string \<Rightarrow> dict option \<Rightarrow> DebugSession \<Rightarrow> DebugSession" where
  "Debug_addEvent st eventType nodeID message data s =
     s\<lparr> ds_History := ds_History s @ [\<lparr> de_ID = fst st, de_Type = eventType, de_NodeID = nodeID, de_Message = message,
        de_Data = data, de_Timestamp = snd st \<rparr>] \<rparr>"

definition SetBreakpoint :: "time \<Rightarrow> string \<Rightarrow> DebugSession \<Rightarrow> DebugSession" where
  "SetBreakpoint now nodeID s = s\<lparr> ds_Breakpoints := (ds_Breakpoints s)(nodeID \<mapsto> True), ds_LastActivity := now \<rparr>"

definition RemoveBreakpoint :: "time \<Rightarrow> string \<Rightarrow> DebugSession \<Rightarrow> DebugSession" where
  "RemoveBreakpoint now nodeID s = s\<lparr> ds_Breakpoints := (ds_Breakpoints s)(nodeID := None), ds_LastActivity := now \<rparr>"

definition ClearBreakpoints :: "time \<Rightarrow> DebugSession \<Rightarrow> DebugSession" where
  "ClearBreakpoints now s = s\<lparr> ds_Breakpoints := Map.empty, ds_LastActivity := now \<rparr>"

definition HasBreakpoint :: "string \<Rightarrow> DebugSession \<Rightarrow> bool" where
  "HasBreakpoint nodeID s = (case ds_Breakpoints s nodeID of None \<Rightarrow> False | Some b \<Rightarrow> b)"

definition AddWatch :: "time \<Rightarrow> string \<Rightarrow> DebugSession \<Rightarrow> DebugSession" where
  "AddWatch now varName s = s\<lparr> ds_WatchedVars := ds_WatchedVars s @ [varName], ds_LastActivity := now \<rparr>"

definition RemoveWatch :: "time \<Rightarrow> string \<Rightarrow> DebugSession \<Rightarrow> DebugSession" where
  "RemoveWatch now varName s = s\<lparr> ds_WatchedVars := remove1 varName (ds_WatchedVars s), ds_LastActivity := now \<rparr>"

definition Debug_Start :: "string \<Rightarrow> time \<Rightarrow> dict option \<Rightarrow> DebugSession \<Rightarrow> DebugSession" where
  "Debug_Start fresh now triggerData s =
     s\<lparr> ds_Status := DebugStatusRunning, ds_State := (ds_State s)\<lparr> dt_TriggerData := triggerData \<rparr>,
        ds_ExecutionID := fresh, ds_LastActivity := now \<rparr>"

definition Debug_Pause :: "time \<Rightarrow> DebugSession \<Rightarrow> DebugSession" where
  "Debug_Pause now s = s\<lparr> ds_Status := DebugStatusPaused, ds_LastActivity := now \<rparr>"

definition Debug_Resume :: "time \<Rightarrow> DebugSession \<Rightarrow> DebugSession" where
  "Debug_Resume now s = s\<lparr> ds_Status := DebugStatusRunning, ds_StepMode := StepModeNone, ds_LastActivity := now \<rparr>"

definition StepInto :: "time \<Rightarrow> DebugSession \<Rightarrow> DebugSession" where
  "StepInto now s = s\<lparr> ds_Status := DebugStatusStepping, ds_StepMode := StepModeInto, ds_LastActivity := now \<rparr>"

definition StepOver :: "time \<Rightarrow> DebugSession \<Rightarrow> DebugSession" where
  "StepOver now s = s\<lparr> ds_Status := DebugStatusStepping, ds_StepMode := StepModeOver, ds_LastActivity := now \<rparr>"

definition StepOut :: "time \<Rightarrow> DebugSession \<Rightarrow> DebugSession" where
  "StepOut now s = s\<lparr> ds_Status := DebugStatusStepping, ds_StepMode := StepModeOut, ds_LastActivity := now \<rparr>"

definition Debug_Stop :: "time \<Rightarrow> DebugSession \<Rightarrow> DebugSession" where
  "Debug_Stop now s = s\<lparr> ds_Status := DebugStatusStopped, ds_LastActivity := now \<rparr>"

text \<open>The answer says whether the run should pause here.\<close>

definition EnterNode ::
  "event_stamp \<Rightarrow> event_stamp \<Rightarrow> time \<Rightarrow> string \<Rightarrow> string \<Rightarrow> string \<Rightarrow> dict option \<Rightarrow> DebugSession \<Rightarrow> bool \<times> DebugSession" where
  "EnterNode st1 st2 now nodeID nodeName nodeType input s =
     (let state = ds_State s;
          frame = \<lparr> sf_NodeID = nodeID, sf_NodeName = nodeName, sf_NodeType = nodeType, sf_Input = input,
            sf_Depth = int (length (dt_CallStack state)), sf_SubWorkflow = '''' \<rparr>;
          s1 = s\<lparr> ds_CurrentNode := nodeID,
            ds_State := state\<lparr> dt_CurrentInput := input, dt_CallStack := dt_CallStack state @ [frame] \<rparr> \<rparr>;
          s2 = Debug_addEvent st1 DebugEventNodeEnter nodeID (''Entering node: '' @ nodeName) (Some [''input'' \<mapsto> VMap (entries input)]) s1
      in if HasBreakpoint nodeID s2 then
           (True, Debug_addEvent st2 DebugEventBreakpointHit nodeID (''Breakpoint hit at: '' @ nodeName) None (s2\<lparr> ds_Status := DebugStatusPaused \<rparr>))
         else if ds_StepMode s2 \<noteq> StepModeNone then
           (True, Debug_addEvent st2 DebugEventStepComplete nodeID (''Step complete at: '' @ nodeName) None (s2\<lparr> ds_Status := DebugStatusPaused \<rparr>))
         else (False, s2\<lparr> ds_LastActivity := now \<rparr>))"

definition ExitNode :: "event_stamp \<Rightarrow> time \<Rightarrow> string \<Rightarrow> dict option \<Rightarrow> DebugSession \<Rightarrow> DebugSession" where
  "ExitNode st now nodeID output s =
     (let state = ds_State s;
          state' = state\<lparr> dt_NodeOutputs := (dt_NodeOutputs state)(nodeID \<mapsto> output), dt_CallStack := butlast (dt_CallStack state) \<rparr>
      in (Debug_addEvent st DebugEventNodeExit nodeID ''Exiting node'' (Some [''output'' \<mapsto> VMap (entries output)])
            (s\<lparr> ds_State := state' \<rparr>))\<lparr> ds_LastActivity := now \<rparr>)"

definition NodeError :: "event_stamp \<Rightarrow> time \<Rightarrow> string \<Rightarrow> string \<Rightarrow> DebugSession \<Rightarrow> DebugSession" where
  "NodeError st now nodeID err s =
     (Debug_addEvent st DebugEventNodeError nodeID (''Node error: '' @ err) None s)\<lparr> ds_Status := DebugStatusPaused, ds_LastActivity := now \<rparr>"

text \<open>A name that the map does not have reads as nil.\<close>

definition Debug_SetVariable :: "event_stamp \<Rightarrow> time \<Rightarrow> string \<Rightarrow> value \<Rightarrow> DebugSession \<Rightarrow> DebugSession" where
  "Debug_SetVariable st now name v s =
     (let state = ds_State s;
          old = (case dt_Variables state name of None \<Rightarrow> VNil | Some x \<Rightarrow> x);
          s1 = s\<lparr> ds_State := state\<lparr> dt_Variables := (dt_Variables state)(name \<mapsto> v) \<rparr> \<rparr>
      in (Debug_addEvent st DebugEventVariableChange '''' (''Variable '' @ [CHR 0x27] @ name @ [CHR 0x27] @ '' changed'')
            (Some [''oldValue'' \<mapsto> old, ''newValue'' \<mapsto> v]) s1)\<lparr> ds_LastActivity := now \<rparr>)"

definition Debug_GetVariable :: "string \<Rightarrow> DebugSession \<Rightarrow> value option" where
  "Debug_GetVariable name s = dt_Variables (ds_State s) name"

definition GetHistory :: "int \<Rightarrow> DebugSession \<Rightarrow> DebugEvent list" where
  "GetHistory limit s =
     (let h = ds_History s
      in if limit \<le> 0 \<or> limit > int (length h) then h else drop (length h - nat limit) h)"

lemmas session_defs =
  Debug_addEvent_def SetBreakpoint_def RemoveBreakpoint_def ClearBreakpoints_def AddWatch_def RemoveWatch_def
  Debug_Start_def Debug_Pause_def Debug_Resume_def StepInto_def StepOver_def StepOut_def Debug_Stop_def
  EnterNode_def ExitNode_def NodeError_def Debug_SetVariable_def Let_def

section \<open>The manager\<close>

record DebugManager =
  dm_objects :: "string \<Rightarrow> DebugSession option"
  dm_sessions :: "string list"
  dm_maxSessions :: int

datatype debug_error =
    ErrSessionExists
  | ErrSessionNotFound

definition NewDebugManager :: DebugManager where
  "NewDebugManager = \<lparr> dm_objects = Map.empty, dm_sessions = [], dm_maxSessions = 100 \<rparr>"

text \<open>The loop over the table: the stopped session with the oldest activity, none as the empty text.\<close>

fun oldestStopped :: "(string \<Rightarrow> DebugSession option) \<Rightarrow> string list \<Rightarrow> string \<Rightarrow> time \<Rightarrow> string" where
  "oldestStopped objs [] oldest oldestTime = oldest"
| "oldestStopped objs (i # is) oldest oldestTime =
     (case objs i of
        None \<Rightarrow> oldestStopped objs is oldest oldestTime
      | Some s \<Rightarrow>
          if ds_Status s = DebugStatusStopped \<and> (oldest = '''' \<or> ds_LastActivity s < oldestTime)
          then oldestStopped objs is i (ds_LastActivity s)
          else oldestStopped objs is oldest oldestTime)"

definition cleanupOldestSession :: "time \<Rightarrow> string list \<Rightarrow> DebugManager \<Rightarrow> DebugManager" where
  "cleanupOldestSession zero order m =
     (let oldest = oldestStopped (dm_objects m) (filter (\<lambda>i. i \<in> set (dm_sessions m)) order) '''' zero
      in if oldest \<noteq> '''' then m\<lparr> dm_sessions := remove1 oldest (dm_sessions m) \<rparr> else m)"

definition liveFor :: "string \<Rightarrow> string \<Rightarrow> DebugSession \<Rightarrow> bool" where
  "liveFor workflowID userID s \<longleftrightarrow>
     ds_WorkflowID s = workflowID \<and> ds_UserID s = userID \<and> ds_Status s \<noteq> DebugStatusStopped"

definition newSession :: "string \<Rightarrow> time \<Rightarrow> time \<Rightarrow> string \<Rightarrow> string \<Rightarrow> DebugSession" where
  "newSession fresh now1 now2 workflowID userID =
     \<lparr> ds_ID = fresh, ds_WorkflowID = workflowID, ds_UserID = userID, ds_Status = DebugStatusIdle, ds_CurrentNode = '''',
       ds_Breakpoints = Map.empty, ds_WatchedVars = [], ds_StepMode = StepModeNone, ds_StartedAt = now1,
       ds_LastActivity = now2, ds_ExecutionID = '''',
       ds_State = \<lparr> dt_NodeOutputs = Map.empty, dt_Variables = Map.empty, dt_TriggerData = None, dt_CurrentInput = None, dt_CallStack = [] \<rparr>,
       ds_History = [] \<rparr>"

definition CreateSession ::
  "string \<Rightarrow> time \<Rightarrow> time \<Rightarrow> event_stamp \<Rightarrow> time \<Rightarrow> string list \<Rightarrow> string \<Rightarrow> string \<Rightarrow> DebugManager \<Rightarrow> debug_error + DebugManager" where
  "CreateSession fresh now1 now2 st zero order workflowID userID m =
     (if list_ex (\<lambda>i. case dm_objects m i of None \<Rightarrow> False | Some s \<Rightarrow> liveFor workflowID userID s) (dm_sessions m)
      then Inl ErrSessionExists
      else
        let session = Debug_addEvent st DebugEventSessionStart '''' ''Debug session started'' None (newSession fresh now1 now2 workflowID userID);
            m1 = m\<lparr> dm_objects := (dm_objects m)(fresh \<mapsto> session), dm_sessions := List.insert fresh (dm_sessions m) \<rparr>
        in Inr (if int (length (dm_sessions m1)) > dm_maxSessions m1 then cleanupOldestSession zero order m1 else m1))"

definition Debug_GetSession :: "string \<Rightarrow> DebugManager \<Rightarrow> DebugSession option" where
  "Debug_GetSession sessionID m = (if sessionID \<in> set (dm_sessions m) then dm_objects m sessionID else None)"

definition EndSession :: "event_stamp \<Rightarrow> string \<Rightarrow> DebugManager \<Rightarrow> debug_error + DebugManager" where
  "EndSession st sessionID m =
     (case Debug_GetSession sessionID m of
        None \<Rightarrow> Inl ErrSessionNotFound
      | Some s \<Rightarrow> Inr (m\<lparr> dm_objects := (dm_objects m)(sessionID \<mapsto>
            Debug_addEvent st DebugEventSessionEnd '''' ''Debug session ended'' None (s\<lparr> ds_Status := DebugStatusStopped \<rparr>)) \<rparr>))"

definition Debug_ListSessions :: "string list \<Rightarrow> string \<Rightarrow> DebugManager \<Rightarrow> DebugSession list" where
  "Debug_ListSessions order userID m =
     filter (\<lambda>s. ds_UserID s = userID) (List.map_filter (\<lambda>i. Debug_GetSession i m) order)"

section \<open>The executor\<close>

record DebugResult =
  dr_ExecutionID :: string
  dr_Status :: string
  dr_Output :: dict

text \<open>No node is run: the outputs are those that the session holds.\<close>

definition DebugExecutor_Execute :: "string \<Rightarrow> time \<Rightarrow> dict option \<Rightarrow> DebugSession \<Rightarrow> DebugResult \<times> DebugSession" where
  "DebugExecutor_Execute fresh now input s =
     (let s1 = Debug_Start fresh now input s
      in (\<lparr> dr_ExecutionID = ds_ExecutionID s1, dr_Status = ''completed'',
            dr_Output = (\<lambda>i. map_option (\<lambda>out. VMap (entries out)) (dt_NodeOutputs (ds_State s1) i)) \<rparr>, s1))"

datatype wait_answer =
    Resumed
  | WaitCancelled string
  | WaitStopped

text \<open>The \<open>k\<close>-th look of the polling loop finds \<open>obs k\<close>: the error of a done context, and the status of the session.\<close>

partial_function (option) WaitForResume :: "(nat \<Rightarrow> string option \<times> DebugStatus) \<Rightarrow> nat \<Rightarrow> wait_answer option" where
  "WaitForResume obs k =
     (case obs k of
        (Some e, status) \<Rightarrow> Some (WaitCancelled e)
      | (None, status) \<Rightarrow>
          if status = DebugStatusRunning \<or> status = DebugStatusStepping then Some Resumed
          else if status = DebugStatusStopped then Some WaitStopped
          else WaitForResume obs (k + 1))"

section \<open>Runs\<close>

datatype SessionCmd =
    DoSetBreakpoint time string
  | DoRemoveBreakpoint time string
  | DoClearBreakpoints time
  | DoAddWatch time string
  | DoRemoveWatch time string
  | DoStart string time "dict option"
  | DoPause time
  | DoResume time
  | DoStepInto time
  | DoStepOver time
  | DoStepOut time
  | DoStop time
  | DoEnterNode event_stamp event_stamp time string string string "dict option"
  | DoExitNode event_stamp time string "dict option"
  | DoNodeError event_stamp time string string
  | DoSetVariable event_stamp time string "value"

fun session_step :: "SessionCmd \<Rightarrow> DebugSession \<Rightarrow> DebugSession" where
  "session_step (DoSetBreakpoint now i) s = SetBreakpoint now i s"
| "session_step (DoRemoveBreakpoint now i) s = RemoveBreakpoint now i s"
| "session_step (DoClearBreakpoints now) s = ClearBreakpoints now s"
| "session_step (DoAddWatch now x) s = AddWatch now x s"
| "session_step (DoRemoveWatch now x) s = RemoveWatch now x s"
| "session_step (DoStart fresh now d) s = Debug_Start fresh now d s"
| "session_step (DoPause now) s = Debug_Pause now s"
| "session_step (DoResume now) s = Debug_Resume now s"
| "session_step (DoStepInto now) s = StepInto now s"
| "session_step (DoStepOver now) s = StepOver now s"
| "session_step (DoStepOut now) s = StepOut now s"
| "session_step (DoStop now) s = Debug_Stop now s"
| "session_step (DoEnterNode st1 st2 now i nm ty input) s = snd (EnterNode st1 st2 now i nm ty input s)"
| "session_step (DoExitNode st now i out) s = ExitNode st now i out s"
| "session_step (DoNodeError st now i err) s = NodeError st now i err s"
| "session_step (DoSetVariable st now x v) s = Debug_SetVariable st now x v s"

text \<open>A client may hold a session that has left the table.\<close>

datatype DebugCmd =
    DoCreateSession string time time event_stamp time "string list" string string
  | DoEndSession event_stamp string
  | DoSession string SessionCmd

fun debug_step :: "DebugCmd \<Rightarrow> DebugManager \<Rightarrow> debug_error + DebugManager" where
  "debug_step (DoCreateSession fresh now1 now2 st zero order workflowID userID) m =
     CreateSession fresh now1 now2 st zero order workflowID userID m"
| "debug_step (DoEndSession st i) m = EndSession st i m"
| "debug_step (DoSession i c) m =
     (case dm_objects m i of
        None \<Rightarrow> Inl ErrSessionNotFound
      | Some s \<Rightarrow> Inr (m\<lparr> dm_objects := (dm_objects m)(i \<mapsto> session_step c s) \<rparr>))"

section \<open>What a session records\<close>

text \<open>The depths of the frames number the call stack, and the history opens with the start of the session.\<close>

definition session_ok :: "DebugSession \<Rightarrow> bool" where
  "session_ok s \<longleftrightarrow>
     map sf_Depth (dt_CallStack (ds_State s)) = map int [0..<length (dt_CallStack (ds_State s))]
     \<and> ds_History s \<noteq> [] \<and> de_Type (hd (ds_History s)) = DebugEventSessionStart"

lemma numbered_butlast:
  "map f xs = map int [0..<length xs] \<Longrightarrow> map f (butlast xs) = map int [0..<length xs - 1]"
  by (cases xs rule: rev_cases) auto

lemma session_step_ok: "session_ok s \<Longrightarrow> session_ok (session_step c s)"
  by (cases c) (auto simp: session_ok_def session_defs numbered_butlast)

text \<open>No method of a session changes what it belongs to, and the history only grows.\<close>

lemma session_step_keeps:
  "ds_ID (session_step c s) = ds_ID s \<and> ds_WorkflowID (session_step c s) = ds_WorkflowID s
   \<and> ds_UserID (session_step c s) = ds_UserID s \<and> (\<exists>es. ds_History (session_step c s) = ds_History s @ es)"
  by (cases c) (auto simp: session_defs)

definition debug_inv :: "DebugManager \<Rightarrow> bool" where
  "debug_inv m \<longleftrightarrow> distinct (dm_sessions m) \<and> set (dm_sessions m) \<subseteq> dom (dm_objects m)
     \<and> (\<forall>i s. dm_objects m i = Some s \<longrightarrow> ds_ID s = i \<and> session_ok s)"

lemma cleanup_keeps: "debug_inv m \<Longrightarrow> debug_inv (cleanupOldestSession zero order m)"
  by (auto simp: cleanupOldestSession_def debug_inv_def Let_def dest: notin_set_remove1)

lemma debug_step_inv: "debug_inv m \<Longrightarrow> debug_step c m = Inr m' \<Longrightarrow> debug_inv m'"
proof (cases c)
  case (DoCreateSession fresh now1 now2 st zero order workflowID userID)
  let ?s = "Debug_addEvent st DebugEventSessionStart '''' ''Debug session started'' None (newSession fresh now1 now2 workflowID userID)"
  let ?m = "m\<lparr> dm_objects := (dm_objects m)(fresh \<mapsto> ?s), dm_sessions := List.insert fresh (dm_sessions m) \<rparr>"
  assume inv: "debug_inv m" and step: "debug_step c m = Inr m'"
  have "debug_inv ?m"
    using inv by (auto simp: debug_inv_def session_ok_def Debug_addEvent_def newSession_def)
  then show ?thesis
    using step DoCreateSession cleanup_keeps by (auto simp: CreateSession_def Let_def split: if_splits)
next
  case (DoEndSession st i)
  assume "debug_inv m" and "debug_step c m = Inr m'"
  then show ?thesis
    using DoEndSession
    by (auto simp: EndSession_def Debug_GetSession_def debug_inv_def session_ok_def Debug_addEvent_def hd_append
        split: option.splits if_splits)
next
  case (DoSession i d)
  assume "debug_inv m" and "debug_step c m = Inr m'"
  then show ?thesis
    using DoSession by (auto simp: debug_inv_def session_step_ok session_step_keeps split: option.splits if_splits)
qed

interpretation debugger: aggregate debug_step debug_inv "\<lambda>_ _. True"
  by unfold_locales (rule debug_step_inv)

section \<open>The limits on sessions\<close>

text \<open>A stopped session is what the table may lose; while none is stopped, it keeps all.\<close>

lemma oldestStopped_none:
  "\<forall>i \<in> set is. \<forall>s. objs i = Some s \<longrightarrow> ds_Status s \<noteq> DebugStatusStopped \<Longrightarrow> oldestStopped objs is oldest t = oldest"
  by (induction objs "is" oldest t rule: oldestStopped.induct) (auto split: option.splits)

definition session_name :: "nat \<Rightarrow> string" where
  "session_name k = replicate (Suc k) (CHR ''s'')"

lemma session_name_inject [simp]: "session_name j = session_name k \<longleftrightarrow> j = k"
  by (auto simp: session_name_def dest: arg_cong[of _ _ length])

definition live_count :: "DebugManager \<Rightarrow> (DebugSession \<Rightarrow> bool) \<Rightarrow> nat" where
  "live_count m P = length (filter (\<lambda>i. case Debug_GetSession i m of None \<Rightarrow> False | Some s \<Rightarrow> P s \<and> ds_Status s \<noteq> DebugStatusStopped)
     (dm_sessions m))"

text \<open>The table after \<open>n\<close> creations: the sessions \<open>session_name 0\<close> to \<open>session_name (n - 1)\<close>, each as \<open>Q\<close> says.\<close>

definition created :: "nat \<Rightarrow> (nat \<Rightarrow> DebugSession \<Rightarrow> bool) \<Rightarrow> DebugManager \<Rightarrow> bool" where
  "created n Q m \<longleftrightarrow> dm_sessions m = map session_name (rev [0..<n]) \<and> dm_maxSessions m = 100
     \<and> (\<forall>k < n. \<exists>s. dm_objects m (session_name k) = Some s \<and> Q k s)"

lemma created_live_count:
  assumes "created n Q m" and "\<And>k s. Q k s \<Longrightarrow> P s \<and> ds_Status s \<noteq> DebugStatusStopped"
  shows "live_count m P = n"
proof -
  have "filter (\<lambda>i. case Debug_GetSession i m of None \<Rightarrow> False | Some s \<Rightarrow> P s \<and> ds_Status s \<noteq> DebugStatusStopped) (dm_sessions m)
      = dm_sessions m"
    using assms by (fastforce simp: created_def Debug_GetSession_def filter_id_conv)
  then show ?thesis
    using assms(1) by (simp add: live_count_def created_def)
qed

lemma create_session:
  assumes "created n Q m" and "\<And>k s. k < n \<Longrightarrow> Q k s \<Longrightarrow> \<not> liveFor wid u s"
    and "n < 100 \<or> (\<forall>k < n. \<forall>s. Q k s \<longrightarrow> ds_Status s \<noteq> DebugStatusStopped)"
    and "Q n (Debug_addEvent ('''', 0) DebugEventSessionStart '''' ''Debug session started'' None (newSession (session_name n) 0 0 wid u))"
  shows "\<exists>m'. CreateSession (session_name n) 0 0 ('''', 0) 0 (map session_name [0..<Suc n]) wid u m = Inr m' \<and> created (Suc n) Q m'"
proof -
  let ?s = "Debug_addEvent ('''', 0) DebugEventSessionStart '''' ''Debug session started'' None (newSession (session_name n) 0 0 wid u)"
  let ?m = "m\<lparr> dm_objects := (dm_objects m)(session_name n \<mapsto> ?s), dm_sessions := List.insert (session_name n) (dm_sessions m) \<rparr>"
  have none: "\<not> list_ex (\<lambda>i. case dm_objects m i of None \<Rightarrow> False | Some s \<Rightarrow> liveFor wid u s) (dm_sessions m)"
    using assms(1,2) by (fastforce simp: created_def list_ex_iff)
  have new: "created (Suc n) Q ?m"
    using assms(1,4) by (auto simp: created_def List.insert_def less_Suc_eq)
  have "cleanupOldestSession 0 (map session_name [0..<Suc n]) ?m = ?m" if "\<not> n < 100"
  proof -
    have "\<forall>i \<in> set (dm_sessions ?m). \<forall>s. dm_objects ?m i = Some s \<longrightarrow> ds_Status s \<noteq> DebugStatusStopped"
      using that assms(1,3) by (fastforce simp: created_def Debug_addEvent_def newSession_def split: if_splits)
    then show ?thesis
      unfolding cleanupOldestSession_def Let_def by (subst oldestStopped_none) auto
  qed
  moreover have "\<not> int (length (dm_sessions ?m)) > dm_maxSessions ?m" if "n < 100"
    using new that by (simp add: created_def)
  ultimately show ?thesis
    using none new unfolding CreateSession_def Let_def by (simp split: if_split) metis
qed

lemma created_mono: "created n Q m \<Longrightarrow> (\<And>k s. k < n \<Longrightarrow> Q k s \<Longrightarrow> R k s) \<Longrightarrow> created n R m"
  by (fastforce simp: created_def)

lemma created_session:
  assumes "created n Q m" and "k < n" and "\<And>j s. j < n \<Longrightarrow> j \<noteq> k \<Longrightarrow> Q j s \<Longrightarrow> R j s" and "\<And>s. Q k s \<Longrightarrow> R k (session_step c s)"
  shows "created n R (attempts debug_step m [DoSession (session_name k) c])"
proof -
  obtain s where s: "dm_objects m (session_name k) = Some s" "Q k s"
    using assms(1,2) by (auto simp: created_def)
  then have run: "attempts debug_step m [DoSession (session_name k) c] = m\<lparr> dm_objects := (dm_objects m)(session_name k \<mapsto> session_step c s) \<rparr>"
    by (simp add: attempt_def)
  have "\<exists>u. dm_objects (attempts debug_step m [DoSession (session_name k) c]) (session_name j) = Some u \<and> R j u" if "j < n" for j
  proof (cases "j = k")
    case False
    then show ?thesis
      using that assms(1,3) unfolding run created_def by (auto dest!: spec[of _ j])
  qed (use s assms(4) in \<open>simp add: run\<close>)
  then show ?thesis
    using assms(1) unfolding created_def run by simp
qed

lemma created_empty: "created 0 Q NewDebugManager"
  by (simp add: created_def NewDebugManager_def)

lemma live_in_many_workflows: "\<exists>cmds. created n (\<lambda>k. liveFor (session_name k) u) (attempts debug_step NewDebugManager cmds)"
proof (induction n)
  case 0
  show ?case
    by (rule exI[of _ "[]"]) (simp add: created_empty)
next
  case (Suc n)
  then obtain cmds where m: "created n (\<lambda>k. liveFor (session_name k) u) (attempts debug_step NewDebugManager cmds)"
    by blast
  obtain m' where "CreateSession (session_name n) 0 0 ('''', 0) 0 (map session_name [0..<Suc n]) (session_name n) u
      (attempts debug_step NewDebugManager cmds) = Inr m'" and "created (Suc n) (\<lambda>k. liveFor (session_name k) u) m'"
    using create_session[OF m, of "session_name n" u] by (auto simp: liveFor_def Debug_addEvent_def newSession_def)
  then show ?case
    by (intro exI[of _ "cmds @ [DoCreateSession (session_name n) 0 0 ('''', 0) 0 (map session_name [0..<Suc n]) (session_name n) u]"])
      (simp only: attempts_append attempts.simps attempt_Inr debug_step.simps)
qed

definition belongs :: "string \<Rightarrow> string \<Rightarrow> DebugStatus \<Rightarrow> DebugSession \<Rightarrow> bool" where
  "belongs wid u status s \<longleftrightarrow> ds_WorkflowID s = wid \<and> ds_UserID s = u \<and> ds_Status s = status"

lemma stopped_in_one_workflow:
  "n \<le> 100 \<Longrightarrow> \<exists>cmds. created n (\<lambda>k. belongs wid u DebugStatusStopped) (attempts debug_step NewDebugManager cmds)"
proof (induction n)
  case 0
  show ?case
    by (rule exI[of _ "[]"]) (simp add: created_empty)
next
  case (Suc n)
  then obtain cmds where m: "created n (\<lambda>k. belongs wid u DebugStatusStopped) (attempts debug_step NewDebugManager cmds)"
    by auto
  let ?Q = "\<lambda>k s. belongs wid u (if k < n then DebugStatusStopped else DebugStatusIdle) s"
  have "created n ?Q (attempts debug_step NewDebugManager cmds)"
    by (rule created_mono[OF m]) simp
  from create_session[OF this, of wid u] obtain m'
    where run: "CreateSession (session_name n) 0 0 ('''', 0) 0 (map session_name [0..<Suc n]) wid u (attempts debug_step NewDebugManager cmds) = Inr m'"
      and m': "created (Suc n) ?Q m'"
    using Suc.prems by (auto simp: liveFor_def belongs_def Debug_addEvent_def newSession_def)
  have "created (Suc n) (\<lambda>k. belongs wid u DebugStatusStopped) (attempts debug_step m' [DoSession (session_name n) (DoStop 0)])"
    by (rule created_session[OF m']) (auto simp: belongs_def Debug_Stop_def less_Suc_eq)
  then show ?case
    using run
    by (intro exI[of _ "cmds @ [DoCreateSession (session_name n) 0 0 ('''', 0) 0 (map session_name [0..<Suc n]) wid u,
          DoSession (session_name n) (DoStop 0)]"])
      (simp only: attempts_append attempts.simps attempt_Inr debug_step.simps)
qed

lemma live_in_one_workflow:
  assumes "n \<le> 100"
  shows "i \<le> n \<Longrightarrow> \<exists>cmds. created n (\<lambda>k. belongs wid u (if k < i then DebugStatusRunning else DebugStatusStopped))
    (attempts debug_step NewDebugManager cmds)"
proof (induction i)
  case 0
  show ?case
    using stopped_in_one_workflow[OF assms] by simp
next
  case (Suc i)
  then obtain cmds where m: "created n (\<lambda>k. belongs wid u (if k < i then DebugStatusRunning else DebugStatusStopped))
      (attempts debug_step NewDebugManager cmds)"
    by auto
  have "created n (\<lambda>k. belongs wid u (if k < Suc i then DebugStatusRunning else DebugStatusStopped))
      (attempts debug_step (attempts debug_step NewDebugManager cmds) [DoSession (session_name i) (DoResume 0)])"
    by (rule created_session[OF m]) (use Suc.prems in \<open>auto simp: belongs_def Debug_Resume_def\<close>)
  then show ?case
    unfolding attempts_append[symmetric] by blast
qed

text \<open>Neither limit on the sessions of the debugger is kept. The manager is to hold at most a hundred sessions, yet
  for every number there are calls after which it holds as many, all of them live; and a user is to have one live session for a
  workflow, yet there are calls after which a user has two, or any number up to a hundred, since a session that was stopped can be resumed after the next one was created.\<close>
theorem session_limits_not_kept:
  shows "(\<exists>cmds. live_count (attempts debug_step NewDebugManager cmds) (\<lambda>_. True) = n)
    \<and> (\<exists>cmds. live_count (attempts debug_step NewDebugManager cmds) (liveFor workflowID userID) = min n 100)"
proof (intro conjI)
  obtain cmds where "created n (\<lambda>k. liveFor (session_name k) userID) (attempts debug_step NewDebugManager cmds)"
    using live_in_many_workflows by blast
  from created_live_count[OF this, of "\<lambda>_. True"]
  show "\<exists>cmds. live_count (attempts debug_step NewDebugManager cmds) (\<lambda>_. True) = n"
    by (auto simp: liveFor_def)
  obtain cmds where "created (min n 100) (\<lambda>k. belongs workflowID userID (if k < min n 100 then DebugStatusRunning else DebugStatusStopped))
      (attempts debug_step NewDebugManager cmds)"
    using live_in_one_workflow[of "min n 100" "min n 100"] by auto
  from created_mono[OF this, of "\<lambda>k. belongs workflowID userID DebugStatusRunning"]
  have "created (min n 100) (\<lambda>k. belongs workflowID userID DebugStatusRunning) (attempts debug_step NewDebugManager cmds)"
    by simp
  from created_live_count[OF this, of "liveFor workflowID userID"]
  show "\<exists>cmds. live_count (attempts debug_step NewDebugManager cmds) (liveFor workflowID userID) = min n 100"
    by (auto simp: liveFor_def belongs_def)
qed

section \<open>Stepping and waiting\<close>

text \<open>Entering a node pauses at a breakpoint and in every step mode, whichever it is: stepping over or out is stepping into.\<close>

lemma EnterNode_pauses:
  assumes "EnterNode st1 st2 now nodeID nodeName nodeType input s = (pause, s')"
  shows "pause \<longleftrightarrow> HasBreakpoint nodeID s \<or> ds_StepMode s \<noteq> StepModeNone"
    and "ds_Status s' = (if pause then DebugStatusPaused else ds_Status s)"
    and "length (ds_History s') = length (ds_History s) + (if pause then 2 else 1)"
  using assms by (auto simp: EnterNode_def Debug_addEvent_def HasBreakpoint_def Let_def split: if_splits)

lemma Exit_undoes_Enter:
  "dt_CallStack (ds_State (ExitNode st now' i out (snd (EnterNode st1 st2 now i nm ty input s)))) = dt_CallStack (ds_State s)"
  by (simp add: ExitNode_def EnterNode_def Debug_addEvent_def Let_def)

definition wakes :: "string option \<times> DebugStatus \<Rightarrow> bool" where
  "wakes x \<longleftrightarrow> fst x \<noteq> None \<or> snd x \<in> {DebugStatusRunning, DebugStatusStepping, DebugStatusStopped}"

lemma WaitForResume_stays:
  assumes "WaitForResume obs k = Some answer"
  shows "\<exists>j \<ge> k. wakes (obs j)"
  using assms
proof (induction rule: WaitForResume.raw_induct[rotated, consumes 1])
  case (1 go obs k answer)
  show ?case
  proof (cases "wakes (obs k)")
    case False
    then have "go obs (k + 1) = Some answer"
      using 1(2) by (cases "obs k") (auto simp: wakes_def split: option.splits if_splits)
    from 1(1)[OF this] show ?thesis
      by (metis Suc_eq_plus1 Suc_leD)
  qed blast
qed

lemma WaitForResume_wakes:
  "wakes (obs (k + d)) \<Longrightarrow> \<exists>answer. WaitForResume obs k = Some answer"
proof (induction d arbitrary: k)
  case 0
  then show ?case
    by (cases "obs k") (subst WaitForResume.simps, auto simp: wakes_def split: option.splits)
next
  case (Suc d)
  then obtain answer where "WaitForResume obs (k + 1) = Some answer"
    by force
  then show ?case
    by (subst WaitForResume.simps) (auto split: option.splits prod.splits)
qed

text \<open>Waiting ends exactly if some look finds the context done or the session running, stepping or stopped.\<close>

theorem WaitForResume_returns_iff:
  "(\<exists>answer. WaitForResume obs k = Some answer) \<longleftrightarrow> (\<exists>j \<ge> k. wakes (obs j))"
proof
  assume "\<exists>j \<ge> k. wakes (obs j)"
  then obtain d where "wakes (obs (k + d))"
    using le_Suc_ex by blast
  then show "\<exists>answer. WaitForResume obs k = Some answer"
    by (rule WaitForResume_wakes)
qed (use WaitForResume_stays in blast)

end
