(* ===== verification/Replay.thy ===== *)
theory Replay
  imports "HOL-Library.AList" Prelude
begin

text \<open>
  Recordings of executions and their replay (\<open>internal/workflow/features/replay.go\<close>). The recorder's table lists the
  recordings by execution identifier, each key once; \<open>order\<close> lists its keys in the order of a loop over it. The text of an
  exported recording is the recording that a reader gets from it. New identifiers and readings of the clock are arguments;
  \<open>stop i\<close> is the error of the context when it is done before the pause for snapshot \<open>i\<close> is over.
\<close>

section \<open>Recordings\<close>

record ExecutionSnapshot =
  ss_ID :: string
  ss_ExecutionID :: string
  ss_WorkflowID :: string
  ss_NodeID :: string
  ss_NodeName :: string
  ss_NodeType :: string
  ss_Sequence :: int
  ss_Timestamp :: time
  ss_Status :: string
  ss_Input :: "dict option"
  ss_Output :: "dict option"
  ss_Error :: string
  ss_DurationMs :: int
  ss_Variables :: "dict option"
  ss_ContextData :: "dict option"

record ExecutionRecording =
  er_ID :: string
  er_ExecutionID :: string
  er_WorkflowID :: string
  er_WorkflowName :: string
  er_Mode :: string
  er_Status :: string
  er_StartedAt :: time
  er_CompletedAt :: "time option"
  er_TotalDurationMs :: int
  er_TriggerData :: "dict option"
  er_FinalOutput :: "dict option"
  er_Error :: string
  er_Snapshots :: "ExecutionSnapshot list"
  er_Metadata :: "dict option"

record ExecutionRecorder =
  rr_recordings :: "(string \<times> ExecutionRecording) list"
  rr_maxSize :: int

definition Milliseconds :: "duration \<Rightarrow> int" where
  "Milliseconds d = quot d 1000000"

definition copyMap :: "dict option \<Rightarrow> dict option" where
  "copyMap m = (case m of None \<Rightarrow> None | Some d \<Rightarrow> Some (\<lambda>k. d k))"

definition NewExecutionRecorder :: "int \<Rightarrow> ExecutionRecorder" where
  "NewExecutionRecorder maxSize = \<lparr> rr_recordings = [], rr_maxSize = maxSize \<rparr>"

definition GetRecording :: "string \<Rightarrow> ExecutionRecorder \<Rightarrow> ExecutionRecording option" where
  "GetRecording executionID r = map_of (rr_recordings r) executionID"

text \<open>The recording that started first; the empty text is none.\<close>

fun oldestRecording :: "(string \<Rightarrow> ExecutionRecording option) \<Rightarrow> string list \<Rightarrow> string \<Rightarrow> time \<Rightarrow> string" where
  "oldestRecording recs [] oldest oldestTime = oldest"
| "oldestRecording recs (i # is) oldest oldestTime =
     (case recs i of
        None \<Rightarrow> oldestRecording recs is oldest oldestTime
      | Some x \<Rightarrow>
          if oldest = '''' \<or> er_StartedAt x < oldestTime then oldestRecording recs is i (er_StartedAt x)
          else oldestRecording recs is oldest oldestTime)"

definition cleanupOldest :: "time \<Rightarrow> string list \<Rightarrow> ExecutionRecorder \<Rightarrow> ExecutionRecorder" where
  "cleanupOldest zero order r =
     (let oldest = oldestRecording (map_of (rr_recordings r)) order '''' zero
      in if oldest \<noteq> '''' then r\<lparr> rr_recordings := AList.delete oldest (rr_recordings r) \<rparr> else r)"

definition newRecording :: "string \<Rightarrow> time \<Rightarrow> string \<Rightarrow> string \<Rightarrow> string \<Rightarrow> string \<Rightarrow> dict option \<Rightarrow> ExecutionRecording" where
  "newRecording fresh now executionID workflowID workflowName mode triggerData =
     \<lparr> er_ID = fresh, er_ExecutionID = executionID, er_WorkflowID = workflowID, er_WorkflowName = workflowName,
       er_Mode = mode, er_Status = ''running'', er_StartedAt = now, er_CompletedAt = None, er_TotalDurationMs = 0,
       er_TriggerData = triggerData, er_FinalOutput = None, er_Error = '''', er_Snapshots = [], er_Metadata = Some Map.empty \<rparr>"

definition StartRecording ::
  "string \<Rightarrow> time \<Rightarrow> time \<Rightarrow> string list \<Rightarrow> string \<Rightarrow> string \<Rightarrow> string \<Rightarrow> string \<Rightarrow> dict option \<Rightarrow> ExecutionRecorder \<Rightarrow> ExecutionRecorder" where
  "StartRecording fresh now zero order executionID workflowID workflowName mode triggerData r =
     (let x = newRecording fresh now executionID workflowID workflowName mode triggerData;
          r1 = r\<lparr> rr_recordings := AList.update executionID x (rr_recordings r) \<rparr>
      in if int (length (rr_recordings r1)) > rr_maxSize r1 then cleanupOldest zero order r1 else r1)"

text \<open>A change of the recording of an execution; none is made to an unknown one.\<close>

definition changeRecording ::
  "string \<Rightarrow> (ExecutionRecording \<Rightarrow> ExecutionRecording) \<Rightarrow> ExecutionRecorder \<Rightarrow> ExecutionRecorder" where
  "changeRecording executionID f r =
     (case GetRecording executionID r of
        None \<Rightarrow> r
      | Some x \<Rightarrow> r\<lparr> rr_recordings := AList.update executionID (f x) (rr_recordings r) \<rparr>)"

definition RecordNodeStart ::
  "string \<Rightarrow> time \<Rightarrow> string \<Rightarrow> string \<Rightarrow> string \<Rightarrow> string \<Rightarrow> dict option \<Rightarrow> dict option \<Rightarrow> ExecutionRecorder \<Rightarrow> ExecutionRecorder" where
  "RecordNodeStart fresh now executionID nodeID nodeName nodeType input variables =
     changeRecording executionID (\<lambda>x. x\<lparr> er_Snapshots := er_Snapshots x @ [\<lparr> ss_ID = fresh, ss_ExecutionID = executionID,
       ss_WorkflowID = er_WorkflowID x, ss_NodeID = nodeID, ss_NodeName = nodeName, ss_NodeType = nodeType,
       ss_Sequence = int (length (er_Snapshots x)) + 1, ss_Timestamp = now, ss_Status = ''running'', ss_Input = copyMap input,
       ss_Output = None, ss_Error = '''', ss_DurationMs = 0, ss_Variables = copyMap variables, ss_ContextData = Some Map.empty \<rparr>] \<rparr>)"

text \<open>The loop from the last snapshot to the first: the one of the node that is still running is changed.\<close>

definition runningAt :: "string \<Rightarrow> ExecutionSnapshot \<Rightarrow> bool" where
  "runningAt nodeID s \<longleftrightarrow> ss_NodeID s = nodeID \<and> ss_Status s = ''running''"

fun changeFirst :: "(ExecutionSnapshot \<Rightarrow> bool) \<Rightarrow> (ExecutionSnapshot \<Rightarrow> ExecutionSnapshot) \<Rightarrow> ExecutionSnapshot list \<Rightarrow> ExecutionSnapshot list" where
  "changeFirst P f [] = []"
| "changeFirst P f (s # ss) = (if P s then f s # ss else s # changeFirst P f ss)"

definition changeLast :: "(ExecutionSnapshot \<Rightarrow> bool) \<Rightarrow> (ExecutionSnapshot \<Rightarrow> ExecutionSnapshot) \<Rightarrow> ExecutionSnapshot list \<Rightarrow> ExecutionSnapshot list" where
  "changeLast P f ss = rev (changeFirst P f (rev ss))"

definition RecordNodeComplete :: "string \<Rightarrow> string \<Rightarrow> dict option \<Rightarrow> int \<Rightarrow> ExecutionRecorder \<Rightarrow> ExecutionRecorder" where
  "RecordNodeComplete executionID nodeID output durationMs =
     changeRecording executionID (\<lambda>x. x\<lparr> er_Snapshots := changeLast (runningAt nodeID)
       (\<lambda>s. s\<lparr> ss_Status := ''completed'', ss_Output := copyMap output, ss_DurationMs := durationMs \<rparr>) (er_Snapshots x) \<rparr>)"

definition RecordNodeError :: "string \<Rightarrow> string \<Rightarrow> string \<Rightarrow> int \<Rightarrow> ExecutionRecorder \<Rightarrow> ExecutionRecorder" where
  "RecordNodeError executionID nodeID err durationMs =
     changeRecording executionID (\<lambda>x. x\<lparr> er_Snapshots := changeLast (runningAt nodeID)
       (\<lambda>s. s\<lparr> ss_Status := ''failed'', ss_Error := err, ss_DurationMs := durationMs \<rparr>) (er_Snapshots x) \<rparr>)"

definition CompleteRecording ::
  "time \<Rightarrow> string \<Rightarrow> string \<Rightarrow> dict option \<Rightarrow> string option \<Rightarrow> ExecutionRecorder \<Rightarrow> ExecutionRecorder" where
  "CompleteRecording now executionID status output err =
     changeRecording executionID (\<lambda>x. x\<lparr> er_Status := status, er_CompletedAt := Some now,
       er_TotalDurationMs := Milliseconds (now - er_StartedAt x), er_FinalOutput := copyMap output,
       er_Error := (case err of None \<Rightarrow> er_Error x | Some e \<Rightarrow> e) \<rparr>)"

definition ListRecordings :: "string list \<Rightarrow> string \<Rightarrow> int \<Rightarrow> ExecutionRecorder \<Rightarrow> ExecutionRecording list" where
  "ListRecordings order workflowID limit r =
     (let recs = filter (\<lambda>x. workflowID = '''' \<or> er_WorkflowID x = workflowID) (List.map_filter (\<lambda>i. GetRecording i r) order)
      in if limit > 0 \<and> int (length recs) > limit then take (nat limit) recs else recs)"

definition DeleteRecording :: "string \<Rightarrow> ExecutionRecorder \<Rightarrow> ExecutionRecorder" where
  "DeleteRecording executionID r = r\<lparr> rr_recordings := AList.delete executionID (rr_recordings r) \<rparr>"

section \<open>Replay\<close>

record ReplayOptions =
  ro_StartFromNode :: string
  ro_StopAtNode :: string
  ro_OverrideInput :: "dict option"
  ro_OverrideVariables :: "dict option"
  ro_Speed :: rat
  ro_BreakpointNodes :: "string list"
  ro_SkipNodes :: "string list"

record ReplayDiff =
  rd_NodeID :: string
  rd_NodeName :: string
  rd_Field :: string
  rd_OriginalValue :: "value"
  rd_ReplayValue :: "value"
  rd_Type :: string

record ReplayResult =
  rz_ExecutionID :: string
  rz_OriginalID :: string
  rz_Status :: string
  rz_NodesReplayed :: int
  rz_NodesSkipped :: int
  rz_Output :: "dict option"
  rz_Diffs :: "ReplayDiff list"
  rz_StartedAt :: time
  rz_CompletedAt :: time
  rz_DurationMs :: int
  rz_Metadata :: "dict option"

datatype replay_error =
    ErrRecordingNotFound string
  | ErrReplayContext string
  | ErrInvalidSequence int
  | ErrParseRecording

text \<open>The first snapshot of the node to start from, the beginning if there is none.\<close>

fun firstOf :: "string \<Rightarrow> ExecutionSnapshot list \<Rightarrow> nat option" where
  "firstOf nodeID [] = None"
| "firstOf nodeID (s # ss) = (if ss_NodeID s = nodeID then Some 0 else map_option Suc (firstOf nodeID ss))"

definition startIndex :: "ReplayOptions option \<Rightarrow> ExecutionSnapshot list \<Rightarrow> nat" where
  "startIndex opt ss =
     (case opt of
        None \<Rightarrow> 0
      | Some p \<Rightarrow>
          if ro_StartFromNode p \<noteq> '''' then (case firstOf (ro_StartFromNode p) ss of None \<Rightarrow> 0 | Some i \<Rightarrow> i) else 0)"

definition stopsAt :: "ReplayOptions option \<Rightarrow> ExecutionSnapshot \<Rightarrow> bool" where
  "stopsAt opt s \<longleftrightarrow> (case opt of None \<Rightarrow> False | Some p \<Rightarrow> ro_StopAtNode p \<noteq> '''' \<and> ss_NodeID s = ro_StopAtNode p)"

definition skips :: "ReplayOptions option \<Rightarrow> ExecutionSnapshot \<Rightarrow> bool" where
  "skips opt s \<longleftrightarrow> (case opt of None \<Rightarrow> False | Some p \<Rightarrow> ss_NodeID s \<in> set (ro_SkipNodes p))"

definition breaksAt :: "ReplayOptions option \<Rightarrow> ExecutionSnapshot \<Rightarrow> bool" where
  "breaksAt opt s \<longleftrightarrow> (case opt of None \<Rightarrow> False | Some p \<Rightarrow> ss_NodeID s \<in> set (ro_BreakpointNodes p))"

definition waitsFor :: "ReplayOptions option \<Rightarrow> ExecutionSnapshot \<Rightarrow> bool" where
  "waitsFor opt s \<longleftrightarrow> (case opt of None \<Rightarrow> False | Some p \<Rightarrow> ro_Speed p > 0 \<and> ss_DurationMs s > 0)"

text \<open>The loop; \<open>i\<close> is the index of the first snapshot that is left.\<close>

fun replayLoop ::
  "(nat \<Rightarrow> string option) \<Rightarrow> ReplayOptions option \<Rightarrow> nat \<Rightarrow> ExecutionSnapshot list \<Rightarrow> ReplayResult \<Rightarrow> string + ReplayResult" where
  "replayLoop stop opt i [] z = Inr z"
| "replayLoop stop opt i (s # ss) z =
     (if stopsAt opt s then Inr z
      else if skips opt s then replayLoop stop opt (i + 1) ss (z\<lparr> rz_NodesSkipped := rz_NodesSkipped z + 1 \<rparr>)
      else if breaksAt opt s then
        Inr (z\<lparr> rz_Status := ''paused'',
          rz_Metadata := Some [''pausedAt'' \<mapsto> VStr (ss_NodeID s), ''pausedAtName'' \<mapsto> VStr (ss_NodeName s)] \<rparr>)
      else
        (case (if waitsFor opt s then stop i else None) of
           Some e \<Rightarrow> Inl e
         | None \<Rightarrow> replayLoop stop opt (i + 1) ss (z\<lparr> rz_NodesReplayed := rz_NodesReplayed z + 1 \<rparr>)))"

definition newResult :: "string \<Rightarrow> string \<Rightarrow> string \<Rightarrow> time \<Rightarrow> ReplayResult" where
  "newResult fresh executionID status now1 =
     \<lparr> rz_ExecutionID = fresh, rz_OriginalID = executionID, rz_Status = status, rz_NodesReplayed = 0, rz_NodesSkipped = 0,
       rz_Output = None, rz_Diffs = [], rz_StartedAt = now1, rz_CompletedAt = 0, rz_DurationMs = 0, rz_Metadata = None \<rparr>"

definition Replay ::
  "string \<Rightarrow> time \<Rightarrow> time \<Rightarrow> (nat \<Rightarrow> string option) \<Rightarrow> string \<Rightarrow> ReplayOptions option \<Rightarrow> ExecutionRecorder \<Rightarrow> replay_error + ReplayResult" where
  "Replay fresh now1 now2 stop executionID opt r =
     (case GetRecording executionID r of
        None \<Rightarrow> Inl (ErrRecordingNotFound executionID)
      | Some x \<Rightarrow>
        let k = startIndex opt (er_Snapshots x)
        in (case replayLoop stop opt k (drop k (er_Snapshots x)) (newResult fresh executionID ''running'' now1) of
              Inl e \<Rightarrow> Inl (ErrReplayContext e)
            | Inr z \<Rightarrow> Inr (z\<lparr> rz_CompletedAt := now2, rz_DurationMs := Milliseconds (now2 - rz_StartedAt z),
                rz_Status := (if rz_Status z = ''running'' then ''completed'' else rz_Status z), rz_Output := er_FinalOutput x \<rparr>)))"

definition equalValues :: "(value \<Rightarrow> string) \<Rightarrow> value \<Rightarrow> value \<Rightarrow> bool" where
  "equalValues marshal a b \<longleftrightarrow> marshal a = marshal b"

fun inputDiffs :: "(value \<Rightarrow> string) \<Rightarrow> dict \<Rightarrow> dict \<Rightarrow> string list \<Rightarrow> ReplayDiff list" where
  "inputDiffs marshal orig new [] = []"
| "inputDiffs marshal orig new (key # keys) =
     (case (orig key, new key) of
        (Some a, Some b) \<Rightarrow>
          (if \<not> equalValues marshal a b then
             \<lparr> rd_NodeID = '''', rd_NodeName = '''', rd_Field = ''input.'' @ key, rd_OriginalValue = a, rd_ReplayValue = b, rd_Type = ''input'' \<rparr>
               # inputDiffs marshal orig new keys
           else inputDiffs marshal orig new keys)
      | _ \<Rightarrow> inputDiffs marshal orig new keys)"

definition ReplayWithComparison ::
  "(value \<Rightarrow> string) \<Rightarrow> string \<Rightarrow> time \<Rightarrow> time \<Rightarrow> string list \<Rightarrow> string \<Rightarrow> dict option \<Rightarrow> ExecutionRecorder \<Rightarrow> replay_error + ReplayResult" where
  "ReplayWithComparison marshal fresh now1 now2 order executionID newInput r =
     (case GetRecording executionID r of
        None \<Rightarrow> Inl (ErrRecordingNotFound executionID)
      | Some x \<Rightarrow>
        let (input, diffs) = (case newInput of
              None \<Rightarrow> (er_TriggerData x, [])
            | Some new \<Rightarrow> (newInput, inputDiffs marshal (entries (er_TriggerData x)) new order))
        in Inr ((newResult fresh executionID ''completed'' now1)\<lparr> rz_Diffs := diffs, rz_Output := input, rz_CompletedAt := now2,
             rz_DurationMs := Milliseconds (now2 - now1), rz_NodesReplayed := int (length (er_Snapshots x)) \<rparr>))"

definition GetSnapshotAt :: "string \<Rightarrow> int \<Rightarrow> ExecutionRecorder \<Rightarrow> replay_error + ExecutionSnapshot" where
  "GetSnapshotAt executionID sequence r =
     (case GetRecording executionID r of
        None \<Rightarrow> Inl (ErrRecordingNotFound executionID)
      | Some x \<Rightarrow>
          if sequence < 1 \<or> sequence > int (length (er_Snapshots x)) then Inl (ErrInvalidSequence sequence)
          else Inr (er_Snapshots x ! nat (sequence - 1)))"

definition GetNodeSnapshots :: "string \<Rightarrow> string \<Rightarrow> ExecutionRecorder \<Rightarrow> replay_error + ExecutionSnapshot list" where
  "GetNodeSnapshots executionID nodeID r =
     (case GetRecording executionID r of
        None \<Rightarrow> Inl (ErrRecordingNotFound executionID)
      | Some x \<Rightarrow> Inr (filter (\<lambda>s. ss_NodeID s = nodeID) (er_Snapshots x)))"

definition ExportRecording :: "string \<Rightarrow> ExecutionRecorder \<Rightarrow> replay_error + ExecutionRecording" where
  "ExportRecording executionID r =
     (case GetRecording executionID r of None \<Rightarrow> Inl (ErrRecordingNotFound executionID) | Some x \<Rightarrow> Inr x)"

text \<open>None is a text that is no recording.\<close>

definition ImportRecording :: "ExecutionRecording option \<Rightarrow> ExecutionRecorder \<Rightarrow> replay_error + ExecutionRecorder" where
  "ImportRecording data r =
     (case data of
        None \<Rightarrow> Inl ErrParseRecording
      | Some x \<Rightarrow> Inr (r\<lparr> rr_recordings := AList.update (er_ExecutionID x) x (rr_recordings r) \<rparr>))"

section \<open>Runs of the recorder\<close>

datatype RecorderCmd =
    DoStartRecording string time time "string list" string string string string "dict option"
  | DoNodeStart string time string string string string "dict option" "dict option"
  | DoNodeComplete string string "dict option" int
  | DoRecordNodeError string string string int
  | DoComplete time string string "dict option" "string option"
  | DoDelete string
  | DoImport "ExecutionRecording option"

fun recorder_step :: "RecorderCmd \<Rightarrow> ExecutionRecorder \<Rightarrow> replay_error + ExecutionRecorder" where
  "recorder_step (DoStartRecording fresh now zero order i wid nm mode d) r = Inr (StartRecording fresh now zero order i wid nm mode d r)"
| "recorder_step (DoNodeStart fresh now i nid nm ty input vars) r = Inr (RecordNodeStart fresh now i nid nm ty input vars r)"
| "recorder_step (DoNodeComplete i nid out d) r = Inr (RecordNodeComplete i nid out d r)"
| "recorder_step (DoRecordNodeError i nid err d) r = Inr (RecordNodeError i nid err d r)"
| "recorder_step (DoComplete now i status out err) r = Inr (CompleteRecording now i status out err r)"
| "recorder_step (DoDelete i) r = Inr (DeleteRecording i r)"
| "recorder_step (DoImport data) r = ImportRecording data r"

text \<open>The snapshots of a recording are numbered from one.\<close>

definition sequenced :: "ExecutionRecording \<Rightarrow> bool" where
  "sequenced x \<longleftrightarrow> map ss_Sequence (er_Snapshots x) = map (\<lambda>k. int k + 1) [0..<length (er_Snapshots x)]"

definition recorder_inv :: "ExecutionRecorder \<Rightarrow> bool" where
  "recorder_inv r \<longleftrightarrow> distinct (map fst (rr_recordings r))
     \<and> (\<forall>(i, x) \<in> set (rr_recordings r). er_ExecutionID x = i \<and> sequenced x)"

definition recorder_pre :: "ExecutionRecorder \<Rightarrow> RecorderCmd \<Rightarrow> bool" where
  "recorder_pre r c \<longleftrightarrow> (case c of DoImport (Some x) \<Rightarrow> sequenced x | _ \<Rightarrow> True)"

lemma changeFirst_map: "(\<And>s. g (f s) = g s) \<Longrightarrow> map g (changeFirst P f ss) = map g ss"
  by (induction ss) auto

lemma changeLast_map: "(\<And>s. g (f s) = g s) \<Longrightarrow> map g (changeLast P f ss) = map g ss"
  by (simp add: changeLast_def changeFirst_map flip: rev_map)

lemma changeLast_length [simp]: "length (changeLast P f ss) = length ss"
  using changeLast_map[of "\<lambda>_. ()" f P ss] by (metis length_map)

lemma update_inv:
  assumes "recorder_inv r" and "er_ExecutionID x = i" and "sequenced x"
  shows "recorder_inv (r\<lparr> rr_recordings := AList.update i x (rr_recordings r) \<rparr>)"
proof -
  have "set (AList.update i x recs) \<subseteq> insert (i, x) (set recs)" for recs
    by (induction recs) auto
  with assms show ?thesis
    by (fastforce simp: recorder_inv_def distinct_update)
qed

lemma delete_inv: "recorder_inv r \<Longrightarrow> recorder_inv (r\<lparr> rr_recordings := AList.delete i (rr_recordings r) \<rparr>)"
  using distinct_delete[of "rr_recordings r" i] by (auto simp: recorder_inv_def AList.delete_eq)

lemma GetRecording_inv: "recorder_inv r \<Longrightarrow> GetRecording i r = Some x \<Longrightarrow> er_ExecutionID x = i \<and> sequenced x"
  by (fastforce simp: recorder_inv_def GetRecording_def dest: map_of_SomeD)

lemma changeRecording_inv:
  assumes "recorder_inv r" and "\<And>x. sequenced x \<Longrightarrow> sequenced (f x)" and "\<And>x. er_ExecutionID (f x) = er_ExecutionID x"
  shows "recorder_inv (changeRecording i f r)"
proof (cases "GetRecording i r")
  case (Some x)
  with GetRecording_inv[OF assms(1) this] assms show ?thesis
    by (simp add: changeRecording_def update_inv)
qed (use assms(1) in \<open>simp add: changeRecording_def\<close>)

lemma recorder_step_inv: "recorder_inv r \<Longrightarrow> recorder_pre r c \<Longrightarrow> recorder_step c r = Inr r' \<Longrightarrow> recorder_inv r'"
proof (cases c)
  case (DoStartRecording fresh now zero order i wid nm mode d)
  assume inv: "recorder_inv r" and step: "recorder_step c r = Inr r'"
  let ?x = "newRecording fresh now i wid nm mode d"
  have x: "er_ExecutionID ?x = i" "sequenced ?x"
    by (simp_all add: newRecording_def sequenced_def)
  show ?thesis
    using step DoStartRecording update_inv[OF inv x] delete_inv[OF update_inv[OF inv x]]
    by (auto simp: StartRecording_def cleanupOldest_def Let_def split: if_splits)
next
  case (DoNodeStart fresh now i nid nm ty input vars)
  assume "recorder_inv r" and "recorder_step c r = Inr r'"
  then show ?thesis
    using DoNodeStart by (auto simp: RecordNodeStart_def sequenced_def intro!: changeRecording_inv)
next
  case (DoNodeComplete i nid out d)
  assume "recorder_inv r" and "recorder_step c r = Inr r'"
  then show ?thesis
    using DoNodeComplete by (auto simp: RecordNodeComplete_def sequenced_def changeLast_map intro!: changeRecording_inv)
next
  case (DoRecordNodeError i nid err d)
  assume "recorder_inv r" and "recorder_step c r = Inr r'"
  then show ?thesis
    using DoRecordNodeError by (auto simp: RecordNodeError_def sequenced_def changeLast_map intro!: changeRecording_inv)
next
  case (DoComplete now i status out err)
  assume "recorder_inv r" and "recorder_step c r = Inr r'"
  then show ?thesis
    using DoComplete by (auto simp: CompleteRecording_def sequenced_def intro!: changeRecording_inv)
next
  case (DoDelete i)
  assume "recorder_inv r" and "recorder_step c r = Inr r'"
  then show ?thesis
    using DoDelete by (auto simp: DeleteRecording_def delete_inv)
next
  case (DoImport data)
  assume "recorder_inv r" and "recorder_pre r c" and "recorder_step c r = Inr r'"
  then show ?thesis
    using DoImport by (auto simp: ImportRecording_def recorder_pre_def update_inv split: option.splits)
qed

interpretation recorder: aggregate recorder_step recorder_inv recorder_pre
  by unfold_locales (rule recorder_step_inv)

section \<open>The size of the table\<close>

lemma oldest_known: "oldestRecording recs is oldest t = oldest \<or> recs (oldestRecording recs is oldest t) \<noteq> None"
  by (induction recs "is" oldest t rule: oldestRecording.induct) (auto split: option.splits)

lemma oldest_found:
  "oldest \<noteq> '''' \<or> (\<exists>i \<in> set is. recs i \<noteq> None) \<Longrightarrow> \<forall>i \<in> set is. recs i \<noteq> None \<longrightarrow> i \<noteq> '''' \<Longrightarrow>
   oldestRecording recs is oldest t \<noteq> ''''"
  by (induction recs "is" oldest t rule: oldestRecording.induct) (auto split: option.splits)

lemma delete_length: "distinct (map fst recs) \<Longrightarrow> map_of recs i \<noteq> None \<Longrightarrow> Suc (length (AList.delete i recs)) = length recs"
proof (induction recs)
  case (Cons p recs)
  then show ?case
  proof (cases "fst p = i")
    case True
    then have "i \<notin> fst ` set recs"
      using Cons.prems(1) by auto
    then show ?thesis
      using True by (cases p) (simp add: delete_idem)
  qed (cases p; auto)
qed simp

lemma update_length: "length (AList.update i x recs) \<le> Suc (length recs)"
  by (induction recs) auto

lemma delete_length_le: "int (length recs) \<le> k \<Longrightarrow> int (length (AList.delete i recs)) \<le> k"
  unfolding AList.delete_eq by (rule order_trans[OF of_nat_mono[OF length_filter_le]])

lemma update_known_length: "map_of recs i \<noteq> None \<Longrightarrow> length (AList.update i x recs) = length recs"
  by (induction recs) auto

text \<open>
  The table with its bound. The empty identifier is the mark of the search for the oldest recording, so that no recording may
  have it; \<open>order\<close> lists the keys there are.
\<close>

definition bounded_inv :: "ExecutionRecorder \<Rightarrow> bool" where
  "bounded_inv r \<longleftrightarrow> recorder_inv r \<and> map_of (rr_recordings r) '''' = None \<and> int (length (rr_recordings r)) \<le> max 0 (rr_maxSize r)"

definition bounded_pre :: "ExecutionRecorder \<Rightarrow> RecorderCmd \<Rightarrow> bool" where
  "bounded_pre r c \<longleftrightarrow>
     (case c of
        DoStartRecording fresh now zero order i wid nm mode d \<Rightarrow> i \<noteq> '''' \<and> set order = insert i (fst ` set (rr_recordings r))
      | DoImport data \<Rightarrow> False
      | _ \<Rightarrow> True)"

lemma changeRecording_length: "length (rr_recordings (changeRecording i f r)) = length (rr_recordings r)"
  and changeRecording_keeps: "rr_maxSize (changeRecording i f r) = rr_maxSize r"
      "map_of (rr_recordings (changeRecording i f r)) j = None \<longleftrightarrow> map_of (rr_recordings r) j = None"
  by (auto simp: changeRecording_def GetRecording_def update_known_length update_conv' split: option.splits)

lemma StartRecording_bound:
  assumes "bounded_inv r" and "i \<noteq> ''''" and "set order = insert i (fst ` set (rr_recordings r))"
  shows "bounded_inv (StartRecording fresh now zero order i wid nm mode d r)"
proof -
  let ?x = "newRecording fresh now i wid nm mode d"
  let ?r = "r\<lparr> rr_recordings := AList.update i ?x (rr_recordings r) \<rparr>"
  have inv: "recorder_inv ?r"
    using assms(1) by (intro update_inv) (auto simp: bounded_inv_def newRecording_def sequenced_def)
  have none: "map_of (rr_recordings ?r) '''' = None"
    using assms(1,2) by (simp add: bounded_inv_def update_conv')
  have len: "int (length (rr_recordings ?r)) \<le> max 0 (rr_maxSize r) + 1"
    using assms(1) update_length[of i ?x "rr_recordings r"] by (simp add: bounded_inv_def)
  have "map_of (rr_recordings ?r) i \<noteq> None" and "\<forall>j \<in> set order. map_of (rr_recordings ?r) j \<noteq> None \<longrightarrow> j \<noteq> ''''"
    using assms(2) none by (auto simp: update_conv')
  then obtain j where j: "oldestRecording (map_of (rr_recordings ?r)) order '''' zero = j" "j \<noteq> ''''" "map_of (rr_recordings ?r) j \<noteq> None"
    using oldest_found[of "''''" order "map_of (rr_recordings ?r)" zero] oldest_known[of "map_of (rr_recordings ?r)" order "''''" zero]
      assms(3) none by auto
  have "Suc (length (AList.delete j (rr_recordings ?r))) = length (rr_recordings ?r)"
    by (rule delete_length[OF _ j(3)]) (use inv in \<open>simp add: recorder_inv_def\<close>)
  then have "bounded_inv (?r\<lparr> rr_recordings := AList.delete j (rr_recordings ?r) \<rparr>)"
    using delete_inv[OF inv, of j] none len by (auto simp: bounded_inv_def delete_conv')
  then show ?thesis
    using inv none j by (auto simp: StartRecording_def cleanupOldest_def bounded_inv_def Let_def)
qed

lemma bounded_step_inv: "bounded_inv r \<Longrightarrow> bounded_pre r c \<Longrightarrow> recorder_step c r = Inr r' \<Longrightarrow> bounded_inv r'"
proof -
  assume b: "bounded_inv r" and pre: "bounded_pre r c" and step: "recorder_step c r = Inr r'"
  have "recorder_inv r'"
    using recorder_step_inv[OF _ _ step] b pre by (cases c) (auto simp: bounded_inv_def bounded_pre_def recorder_pre_def)
  then show ?thesis
    using b pre step
  proof (cases c)
    case (DoStartRecording fresh now zero order i wid nm mode d)
    then show ?thesis
      using b pre step StartRecording_bound by (auto simp: bounded_pre_def)
  qed (auto simp: bounded_pre_def bounded_inv_def RecordNodeStart_def RecordNodeComplete_def RecordNodeError_def
      CompleteRecording_def changeRecording_length changeRecording_keeps DeleteRecording_def delete_conv' delete_length_le)
qed

interpretation bounded: aggregate recorder_step bounded_inv bounded_pre
  by unfold_locales (rule bounded_step_inv)

text \<open>As long as no recording is imported and none has the empty identifier, the recorder holds at most as many recordings as it was
  made for, each under its own execution, and the snapshots of each are numbered from one in their order, whatever is recorded, completed or deleted.\<close>
theorem recordings_bounded:
  assumes "admissible recorder_step bounded_pre (NewExecutionRecorder maxSize) cmds"
  shows "let r = attempts recorder_step (NewExecutionRecorder maxSize) cmds
    in int (length (rr_recordings r)) \<le> max 0 maxSize
      \<and> list_all (\<lambda>(i, x). er_ExecutionID x = i
          \<and> map ss_Sequence (er_Snapshots x) = map (\<lambda>k. int k + 1) [0..<length (er_Snapshots x)]) (rr_recordings r)"
proof -
  let ?r = "attempts recorder_step (NewExecutionRecorder maxSize) cmds"
  have keeps: "rr_maxSize r' = rr_maxSize r" if "recorder_step c r = Inr r'" for c r r'
    using that by (cases c)
      (auto simp: StartRecording_def cleanupOldest_def RecordNodeStart_def RecordNodeComplete_def RecordNodeError_def
        CompleteRecording_def changeRecording_keeps DeleteRecording_def ImportRecording_def Let_def split: option.splits)
  have "rr_maxSize ?r = maxSize"
    by (rule attempts_induct[where P = "\<lambda>r. rr_maxSize r = maxSize" and pre = bounded_pre, OF _ assms])
      (simp_all add: NewExecutionRecorder_def keeps)
  moreover have "bounded_inv ?r"
    by (rule bounded.run_inv[OF _ assms]) (simp add: bounded_inv_def recorder_inv_def NewExecutionRecorder_def)
  ultimately show ?thesis
    by (auto simp: bounded_inv_def recorder_inv_def sequenced_def list_all_iff Let_def)
qed

text \<open>A snapshot is found under its number.\<close>

lemma GetSnapshotAt_sequence:
  assumes "recorder_inv r" and "GetSnapshotAt i k r = Inr s"
  shows "ss_Sequence s = k"
proof -
  obtain x where x: "GetRecording i r = Some x" and k: "1 \<le> k" "k \<le> int (length (er_Snapshots x))"
    and s: "s = er_Snapshots x ! nat (k - 1)"
    using assms(2) by (auto simp: GetSnapshotAt_def split: option.splits if_splits)
  have "map ss_Sequence (er_Snapshots x) ! nat (k - 1) = map (\<lambda>k. int k + 1) [0..<length (er_Snapshots x)] ! nat (k - 1)"
    using GetRecording_inv[OF assms(1) x] by (simp add: sequenced_def)
  then show ?thesis
    using k s by simp
qed

section \<open>What a replay counts\<close>

text \<open>The snapshots that a replay passes: up to the first one to stop at, or to pause at unless it is skipped.\<close>

definition passed :: "ReplayOptions option \<Rightarrow> ExecutionSnapshot list \<Rightarrow> ExecutionSnapshot list" where
  "passed opt ss = takeWhile (\<lambda>s. \<not> stopsAt opt s \<and> (skips opt s \<or> \<not> breaksAt opt s)) ss"

definition pausesIn :: "ReplayOptions option \<Rightarrow> ExecutionSnapshot list \<Rightarrow> bool" where
  "pausesIn opt ss \<longleftrightarrow>
     (case drop (length (passed opt ss)) ss of [] \<Rightarrow> False | s # _ \<Rightarrow> \<not> stopsAt opt s)"

lemma replayLoop_result:
  assumes "replayLoop stop opt i ss z = Inr z'" and "rz_Status z = ''running''"
  shows "rz_NodesSkipped z' = rz_NodesSkipped z + int (length (filter (skips opt) (passed opt ss)))
    \<and> rz_NodesReplayed z' = rz_NodesReplayed z + int (length (filter (\<lambda>s. \<not> skips opt s) (passed opt ss)))
    \<and> rz_Status z' = (if pausesIn opt ss then ''paused'' else ''running'') \<and> rz_OriginalID z' = rz_OriginalID z
    \<and> rz_Diffs z' = rz_Diffs z"
  using assms
  by (induction stop opt i ss z rule: replayLoop.induct)
    (auto simp: passed_def pausesIn_def split: if_splits option.splits)

lemma replayLoop_error:
  "replayLoop stop opt i ss z = Inl e \<Longrightarrow> \<exists>j < length (passed opt ss). stop (i + j) = Some e"
proof (induction stop opt i ss z rule: replayLoop.induct)
  case (2 stop opt i s ss z)
  show ?case
  proof (cases "skips opt s \<or> \<not> (if waitsFor opt s then stop i else None) = Some e")
    case True
    have "\<exists>j < length (passed opt ss). stop (i + 1 + j) = Some e" and "passed opt (s # ss) = s # passed opt ss"
      using 2 True by (auto simp: passed_def split: if_splits option.splits)
    then show ?thesis
      by (metis add.assoc length_Cons not_less_eq plus_1_eq_Suc)
  next
    case False
    then have "passed opt (s # ss) = s # passed opt ss" and "stop i = Some e"
      using 2(3) by (auto simp: passed_def split: if_splits)
    then show ?thesis
      by (intro exI[of _ 0]) simp
  qed
qed simp

text \<open>A replay that is not cancelled counts every snapshot from its first one up to the first one to stop or to pause at: those
  of the nodes to skip as skipped and the others as replayed. It ends as paused exactly if it met a breakpoint and not the node to stop at;
  its output is the recorded one, since no node is run. Only the end of the context can make it fail.\<close>
theorem Replay_counts:
  assumes "GetRecording executionID r = Some x" and "ss = drop (startIndex opt (er_Snapshots x)) (er_Snapshots x)"
  shows "case Replay fresh now1 now2 stop executionID opt r of
      Inl e \<Rightarrow> \<exists>j < length (passed opt ss). \<exists>c. stop (startIndex opt (er_Snapshots x) + j) = Some c \<and> e = ErrReplayContext c
    | Inr z \<Rightarrow> rz_NodesSkipped z = int (length (filter (skips opt) (passed opt ss)))
        \<and> rz_NodesReplayed z = int (length (filter (\<lambda>s. \<not> skips opt s) (passed opt ss)))
        \<and> rz_Status z = (if pausesIn opt ss then ''paused'' else ''completed'')
        \<and> rz_Output z = er_FinalOutput x \<and> rz_OriginalID z = executionID \<and> rz_Diffs z = []"
proof (cases "replayLoop stop opt (startIndex opt (er_Snapshots x)) ss (newResult fresh executionID ''running'' now1)")
  case (Inl e)
  then show ?thesis
    using assms replayLoop_error[OF Inl] by (auto simp: Replay_def Let_def)
next
  case (Inr z)
  then show ?thesis
    using assms replayLoop_result[OF Inr] by (auto simp: Replay_def Let_def newResult_def)
qed

text \<open>A comparison runs nothing either: its output is the input, and no node's output is ever compared.\<close>

lemma comparison_returns_input:
  assumes "ReplayWithComparison marshal fresh now1 now2 order i newInput r = Inr z" and "GetRecording i r = Some x"
  shows "rz_Output z = (case newInput of None \<Rightarrow> er_TriggerData x | Some d \<Rightarrow> newInput)"
    and "\<forall>d \<in> set (rz_Diffs z). rd_Type d = ''input''"
proof -
  have "\<forall>d \<in> set (inputDiffs marshal a b order). rd_Type d = ''input''" for a b
    by (induction marshal a b order rule: inputDiffs.induct) (auto split: option.splits)
  then show "rz_Output z = (case newInput of None \<Rightarrow> er_TriggerData x | Some d \<Rightarrow> newInput)"
    and "\<forall>d \<in> set (rz_Diffs z). rd_Type d = ''input''"
    using assms by (auto simp: ReplayWithComparison_def newResult_def split: option.splits)
qed

section \<open>Examples\<close>

definition sample_recording :: ExecutionRecorder where
  "sample_recording = attempts recorder_step (NewExecutionRecorder 1)
     [DoStartRecording ''r0'' 5 0 [''e0''] ''e0'' ''w'' ''W'' ''manual'' None,
      DoStartRecording ''r1'' 7 0 [''e0'', ''e1''] ''e1'' ''w'' ''W'' ''manual'' None,
      DoNodeStart ''s1'' 8 ''e1'' ''a'' ''A'' ''action'' None None, DoNodeComplete ''e1'' ''a'' None 3,
      DoNodeStart ''s2'' 9 ''e1'' ''b'' ''B'' ''action'' None None, DoNodeComplete ''e1'' ''b'' None 3,
      DoNodeStart ''s3'' 9 ''e1'' ''c'' ''C'' ''action'' None None, DoRecordNodeError ''e1'' ''c'' ''boom'' 3]"

lemmas recorder_ops = attempt_def StartRecording_def cleanupOldest_def RecordNodeStart_def RecordNodeComplete_def RecordNodeError_def
  changeRecording_def GetRecording_def changeLast_def runningAt_def newRecording_def NewExecutionRecorder_def Let_def

lemma recordings_bounded_witness:
  "length (rr_recordings sample_recording) = 1 \<and> map fst (rr_recordings sample_recording) = [''e1'']"
proof -
  have "int (length (rr_recordings sample_recording)) \<le> max 0 1"
    unfolding sample_recording_def
    by (rule recordings_bounded[unfolded Let_def, THEN conjunct1])
      (auto simp: bounded_pre_def recorder_ops)
  moreover have "map fst (rr_recordings sample_recording) = [''e1'']"
    by (simp add: sample_recording_def recorder_ops)
  ultimately show ?thesis
    by (metis length_map length_Cons list.size(3) One_nat_def)
qed

definition replay_options :: ReplayOptions where
  "replay_options = \<lparr> ro_StartFromNode = '''', ro_StopAtNode = '''', ro_OverrideInput = None, ro_OverrideVariables = None,
     ro_Speed = 1, ro_BreakpointNodes = [''c''], ro_SkipNodes = [''a''] \<rparr>"

lemma Replay_counts_witness:
  "\<exists>z. Replay ''z'' 10 11 (\<lambda>_. None) ''e1'' (Some replay_options) sample_recording = Inr z
     \<and> rz_NodesSkipped z = 1 \<and> rz_NodesReplayed z = 1 \<and> rz_Status z = ''paused''"
proof -
  obtain x where x: "GetRecording ''e1'' sample_recording = Some x" "map ss_NodeID (er_Snapshots x) = [''a'', ''b'', ''c'']"
    by (simp add: sample_recording_def recorder_ops)
  then obtain sa sb sc where ss: "er_Snapshots x = [sa, sb, sc]" "ss_NodeID sa = ''a''" "ss_NodeID sb = ''b''" "ss_NodeID sc = ''c''"
    by auto
  let ?o = "Some replay_options"
  have start: "startIndex ?o ss = 0" for ss
    by (simp add: startIndex_def replay_options_def)
  have "length (filter (skips ?o) (passed ?o [sa, sb, sc])) = 1"
    and "length (filter (\<lambda>s. \<not> skips ?o s) (passed ?o [sa, sb, sc])) = 1" and "pausesIn ?o [sa, sb, sc]"
    using ss by (simp_all add: passed_def pausesIn_def stopsAt_def skips_def breaksAt_def replay_options_def)
  then show ?thesis
    using Replay_counts[OF x(1) refl, where opt = ?o and fresh = "''z''" and ?now1.0 = 10 and ?now2.0 = 11 and stop = "\<lambda>_. None"]
    unfolding start ss(1) drop_0
    by (cases "Replay ''z'' 10 11 (\<lambda>_. None) ''e1'' ?o sample_recording") auto
qed

end
