(* ===== verification/Subworkflow.thy ===== *)
theory Subworkflow
  imports Workflow_Types
begin

text \<open>
  Workflows inside workflows (\<open>internal/workflow/features/subworkflow.go\<close>): the executor of a node that runs another
  workflow, the registry of references, and the check of a chain. The repository and the executor are interfaces: a lookup,
  and a function on a world \<open>'w\<close> that also gets the time limit of its context, if there is one. A mapping of keys is a
  list with one entry for each target, empty for a nil map.
\<close>

section \<open>Execution\<close>

record SubExecutionOptions =
  xo_Mode :: string
  xo_UserID :: string
  xo_WorkspaceID :: string
  xo_ParentID :: string
  xo_Depth :: int
  xo_Variables :: "dict option"
  xo_Credentials :: "string \<Rightarrow> dict option option"

record SubExecutionResult =
  xr_ExecutionID :: string
  xr_Status :: string
  xr_Output :: "dict option"
  xr_Error :: "string option"
  xr_DurationMs :: int

record SubWorkflowNode =
  sn_WorkflowID :: string
  sn_InputMapping :: "(string \<times> string) list"
  sn_OutputMapping :: "(string \<times> string) list"
  sn_WaitForOutput :: bool
  sn_Timeout :: duration
  sn_OnError :: string
  sn_FallbackValue :: "dict option"

datatype subworkflow_error =
    ErrMaxDepth int
  | ErrSubWorkflowNotFound string
  | ErrSubExecution string

type_synonym 'w workflow_executor =
  "duration option \<Rightarrow> Workflow \<Rightarrow> dict option \<Rightarrow> SubExecutionOptions \<Rightarrow> 'w \<Rightarrow> 'w \<times> (string + SubExecutionResult)"

record 'w SubWorkflowExecutor =
  se_workflowRepo :: "string \<Rightarrow> string + Workflow"
  se_executor :: "'w workflow_executor"
  se_maxDepth :: int

definition NewSubWorkflowExecutor :: "(string \<Rightarrow> string + Workflow) \<Rightarrow> 'w workflow_executor \<Rightarrow> 'w SubWorkflowExecutor" where
  "NewSubWorkflowExecutor repo executor = \<lparr> se_workflowRepo = repo, se_executor = executor, se_maxDepth = 10 \<rparr>"

fun mapKeys :: "dict \<Rightarrow> (string \<times> string) list \<Rightarrow> dict \<Rightarrow> dict" where
  "mapKeys source [] mapped = mapped"
| "mapKeys source ((targetKey, sourceKey) # rest) mapped =
     (case source sourceKey of
        None \<Rightarrow> mapKeys source rest mapped
      | Some v \<Rightarrow> mapKeys source rest (mapped(targetKey \<mapsto> v)))"

definition mapInput :: "dict option \<Rightarrow> (string \<times> string) list \<Rightarrow> dict option" where
  "mapInput input mapping = (if mapping = [] then input else Some (mapKeys (entries input) mapping Map.empty))"

definition mapOutput :: "dict option \<Rightarrow> (string \<times> string) list \<Rightarrow> dict option" where
  "mapOutput output mapping = Some (mapKeys (entries output) mapping Map.empty)"

definition subOptions :: "SubExecutionOptions \<Rightarrow> SubExecutionOptions" where
  "subOptions opt = opt\<lparr> xo_Mode := ''subworkflow'', xo_Depth := xo_Depth opt + 1 \<rparr>"

definition ExecuteSubWorkflow ::
  "'w SubWorkflowExecutor \<Rightarrow> SubWorkflowNode \<Rightarrow> dict option \<Rightarrow> SubExecutionOptions \<Rightarrow> 'w \<Rightarrow> 'w \<times> (subworkflow_error + SubExecutionResult)" where
  "ExecuteSubWorkflow e config input opt w =
     (if xo_Depth opt \<ge> se_maxDepth e then (w, Inl (ErrMaxDepth (se_maxDepth e)))
      else case se_workflowRepo e (sn_WorkflowID config) of
        Inl err \<Rightarrow> (w, Inl (ErrSubWorkflowNotFound err))
      | Inr wfl \<Rightarrow>
        (case se_executor e (if sn_Timeout config > 0 then Some (sn_Timeout config) else None) wfl
            (mapInput input (sn_InputMapping config)) (subOptions opt) w of
           (w', Inl err) \<Rightarrow>
             if sn_OnError config = ''continue'' then
               (w', Inr \<lparr> xr_ExecutionID = '''', xr_Status = ''failed'', xr_Output = sn_FallbackValue config, xr_Error = Some err, xr_DurationMs = 0 \<rparr>)
             else if sn_OnError config = ''fallback'' then
               (w', Inr \<lparr> xr_ExecutionID = '''', xr_Status = ''fallback'', xr_Output = sn_FallbackValue config, xr_Error = None, xr_DurationMs = 0 \<rparr>)
             else (w', Inl (ErrSubExecution err))
         | (w', Inr z) \<Rightarrow>
             (w', Inr (if sn_OutputMapping config \<noteq> [] then z\<lparr> xr_Output := mapOutput (xr_Output z) (sn_OutputMapping config) \<rparr> else z))))"

section \<open>References\<close>

record SubWorkflowReference =
  sr_ID :: string
  sr_WorkflowID :: string
  sr_ParentID :: string
  sr_Name :: string
  sr_Description :: string
  sr_InputSchema :: "dict option"
  sr_OutputSchema :: "dict option"
  sr_CreatedAt :: time

type_synonym SubWorkflowRegistry = "string \<Rightarrow> SubWorkflowReference option"

definition RegisterReference :: "string \<Rightarrow> time \<Rightarrow> SubWorkflowReference \<Rightarrow> SubWorkflowRegistry \<Rightarrow> SubWorkflowRegistry" where
  "RegisterReference fresh now ref r =
     (let ref' = ref\<lparr> sr_ID := (if sr_ID ref = '''' then fresh else sr_ID ref), sr_CreatedAt := now \<rparr> in r(sr_ID ref' \<mapsto> ref'))"

definition GetReference :: "string \<Rightarrow> SubWorkflowRegistry \<Rightarrow> SubWorkflowReference option" where
  "GetReference i r = r i"

definition ListReferencesByParent :: "string list \<Rightarrow> string \<Rightarrow> SubWorkflowRegistry \<Rightarrow> SubWorkflowReference list" where
  "ListReferencesByParent order parentID r = filter (\<lambda>x. sr_ParentID x = parentID) (List.map_filter r order)"

definition ListAllReferences :: "string list \<Rightarrow> SubWorkflowRegistry \<Rightarrow> SubWorkflowReference list" where
  "ListAllReferences order r = List.map_filter r order"

definition DeleteReference :: "string \<Rightarrow> SubWorkflowRegistry \<Rightarrow> SubWorkflowRegistry" where
  "DeleteReference i r = r(i := None)"

text \<open>The answer is the workflow found twice, if any, and the set of visited ones.\<close>

definition ValidateSubWorkflowChain :: "string \<Rightarrow> string set option \<Rightarrow> string option \<times> string set" where
  "ValidateSubWorkflowChain workflowID visited =
     (let seen = (case visited of None \<Rightarrow> {} | Some v \<Rightarrow> v)
      in if workflowID \<in> seen then (Some workflowID, seen) else (None, insert workflowID seen))"

section \<open>Mapping of keys\<close>

lemma mapKeys_unmapped: "key \<notin> fst ` set mapping \<Longrightarrow> mapKeys source mapping mapped key = mapped key"
  by (induction source mapping mapped rule: mapKeys.induct) (auto split: option.splits)

lemma mapKeys_entry:
  "distinct (map fst mapping) \<Longrightarrow> (targetKey, sourceKey) \<in> set mapping \<Longrightarrow> mapped targetKey = None \<Longrightarrow>
   mapKeys source mapping mapped targetKey = source sourceKey"
proof (induction source mapping mapped rule: mapKeys.induct)
  case (2 source t s rest mapped)
  show ?case
  proof (cases "t = targetKey")
    case True
    then have "targetKey \<notin> fst ` set rest" and "s = sourceKey"
      using 2(3,4) by force+
    then show ?thesis
      using True 2(5) by (simp add: mapKeys_unmapped split: option.split)
  next
    case False
    then show ?thesis
      using 2 by (cases "source s") (auto simp: fun_upd_def)
  qed
qed simp

text \<open>With a mapping a workflow sees the mapped keys only, each with the value of its source.\<close>

lemma mapInput_reads:
  assumes "distinct (map fst mapping)" and "mapping \<noteq> []"
  shows "entries (mapInput input mapping) key = (case map_of mapping key of None \<Rightarrow> None | Some sourceKey \<Rightarrow> entries input sourceKey)"
proof (cases "map_of mapping key")
  case None
  then show ?thesis
    using assms(2) mapKeys_unmapped[of key mapping] by (simp add: mapInput_def) (simp add: map_of_eq_None_iff)
next
  case (Some s)
  then show ?thesis
    using assms mapKeys_entry[OF assms(1) map_of_SomeD[OF Some]] by (simp add: mapInput_def)
qed

section \<open>Depth and errors\<close>

text \<open>
  A run of the executor is only started one level deeper than its caller and never below the limit. Beyond it nothing
  happens.
\<close>

lemma depth_bounded:
  assumes "e = NewSubWorkflowExecutor repo executor" and "\<And>t wfl input opt w. xo_Depth opt \<le> 10 \<Longrightarrow> executor t wfl input opt w = executor' t wfl input opt w"
    and "e' = NewSubWorkflowExecutor repo executor'"
  shows "ExecuteSubWorkflow e config input opt w = ExecuteSubWorkflow e' config input opt w"
proof (cases "10 \<le> xo_Depth opt")
  case False
  then have "executor t wfl i (subOptions opt) w = executor' t wfl i (subOptions opt) w" for t wfl i w
    by (intro assms(2)) (simp add: subOptions_def)
  then show ?thesis
    unfolding assms(1,3) ExecuteSubWorkflow_def NewSubWorkflowExecutor_def by (simp cong: sum.case_cong)
qed (simp add: assms(1,3) ExecuteSubWorkflow_def NewSubWorkflowExecutor_def)
lemma too_deep: "se_maxDepth e \<le> xo_Depth opt \<Longrightarrow> ExecuteSubWorkflow e config input opt w = (w, Inl (ErrMaxDepth (se_maxDepth e)))"
  by (simp add: ExecuteSubWorkflow_def)

text \<open>With the policies \<open>continue\<close> and \<open>fallback\<close> a failed run is never an error of the node.\<close>

lemma tolerant_node_succeeds:
  assumes "sn_OnError config = ''continue'' \<or> sn_OnError config = ''fallback''"
    and "xo_Depth opt < se_maxDepth e" and "se_workflowRepo e (sn_WorkflowID config) = Inr wfl"
  shows "\<exists>w' z. ExecuteSubWorkflow e config input opt w = (w', Inr z)"
proof -
  obtain w' answer where run: "se_executor e (if sn_Timeout config > 0 then Some (sn_Timeout config) else None) wfl
      (mapInput input (sn_InputMapping config)) (subOptions opt) w = (w', answer)"
    by (metis surj_pair)
  show ?thesis
    using assms unfolding ExecuteSubWorkflow_def by (cases answer) (auto simp: run)
qed

text \<open>The check of a chain looks at one workflow and never at those it contains: started as its comment says, it finds no cycle.\<close>

lemma chain_never_refused: "fst (ValidateSubWorkflowChain workflowID None) = None"
  by (simp add: ValidateSubWorkflowChain_def)

end
