(* ===== verification/Node_Catalogue.thy ===== *)
theory Node_Catalogue
  imports Prelude
begin

text \<open>
  The catalogue of node definitions: the aggregate \<open>internal/node/domain/model/node.go\<close>, its table
  \<open>internal/node/adapters/repository/postgres/node_repository.go\<close> and the service
  \<open>internal/node/app/service/node_service.go\<close>. A query fails when it names a column that the table does not have; the
  columns are a parameter, and \<open>migratedColumns\<close> is what \<open>migrations/000007_nodes.up.sql\<close> creates. \<open>nn_db k\<close> is the
  answer of the database to the query at place \<open>k\<close> of a call, \<open>nn_clk k\<close> the clock and \<open>nn_rnd k\<close> the new identifier there.
  The cache holds for each key the time until which it answers: no field of a definition is exported, so that it answers
  with the zero value. Types, categories and statuses are strings, as callers pass them.
\<close>

section \<open>The aggregate\<close>

record NodePort =
  po_ID :: string
  po_Name :: string
  po_Type :: string
  po_Required :: bool
  po_Multiple :: bool
  po_Description :: string
  po_DefaultValue :: "value"
  po_Schema :: "dict option"

record NodePropertyOption =
  pn_Label :: string
  pn_Value :: "value"

record NodeProperty =
  py_ID :: string
  py_Name :: string
  py_Type :: string
  py_Required :: bool
  py_Description :: string
  py_DefaultValue :: "value"
  py_Options :: "NodePropertyOption list"
  py_Validation :: "dict option"
  py_Placeholder :: string
  py_Hidden :: bool

record NodeDefinition =
  nf_id :: string
  nf_name :: string
  nf_nodeType :: string
  nf_category :: string
  nf_description :: string
  nf_icon :: string
  nf_color :: string
  nf_version :: string
  nf_status :: string
  nf_inputs :: "NodePort list"
  nf_outputs :: "NodePort list"
  nf_properties :: "NodeProperty list"
  nf_configuration :: dict
  nf_validationRules :: dict
  nf_documentation :: string
  nf_examples :: "dict option list"
  nf_tags :: "string list"
  nf_author :: string
  nf_isSystem :: bool
  nf_isPremium :: bool
  nf_executionHandler :: string
  nf_metadata :: dict
  nf_createdAt :: time
  nf_updatedAt :: time

datatype node_error =
    ErrNodeName
  | ErrNodeType
  | ErrNodeCategory
  | ErrInputExists string
  | ErrOutputExists string
  | ErrPropertyExists string
  | ErrInputNotFound string
  | ErrOutputNotFound string
  | ErrPropertyNotFound string
  | ErrInputField string
  | ErrOutputField string
  | ErrPropertyField string
  | ErrNodeMissing
  | ErrNodeAlreadyExists
  | ErrSystemNode
  | ErrDuplicateName
  | ErrNodeColumn string
  | ErrNodeDB string

definition NewNodeDefinition :: "string \<Rightarrow> time \<Rightarrow> string \<Rightarrow> string \<Rightarrow> string \<Rightarrow> string \<Rightarrow> node_error + NodeDefinition" where
  "NewNodeDefinition fresh now name nodeType category description =
     (if name = '''' then Inl ErrNodeName
      else if nodeType = '''' then Inl ErrNodeType
      else Inr \<lparr> nf_id = fresh, nf_name = name, nf_nodeType = nodeType,
        nf_category = (if category = '''' then ''core'' else category), nf_description = description, nf_icon = '''',
        nf_color = '''', nf_version = ''1.0.0'', nf_status = ''active'', nf_inputs = [], nf_outputs = [], nf_properties = [],
        nf_configuration = Map.empty, nf_validationRules = Map.empty, nf_documentation = '''', nf_examples = [], nf_tags = [],
        nf_author = '''', nf_isSystem = False, nf_isPremium = False, nf_executionHandler = '''', nf_metadata = Map.empty,
        nf_createdAt = now, nf_updatedAt = now \<rparr>)"

definition Node_SetName :: "time \<Rightarrow> string \<Rightarrow> NodeDefinition \<Rightarrow> node_error + NodeDefinition" where
  "Node_SetName now name n = (if name = '''' then Inl ErrNodeName else Inr (n\<lparr> nf_name := name, nf_updatedAt := now \<rparr>))"

definition Node_SetDescription :: "time \<Rightarrow> string \<Rightarrow> NodeDefinition \<Rightarrow> NodeDefinition" where
  "Node_SetDescription now x n = n\<lparr> nf_description := x, nf_updatedAt := now \<rparr>"

definition Node_SetIcon :: "time \<Rightarrow> string \<Rightarrow> NodeDefinition \<Rightarrow> NodeDefinition" where
  "Node_SetIcon now x n = n\<lparr> nf_icon := x, nf_updatedAt := now \<rparr>"

definition Node_SetColor :: "time \<Rightarrow> string \<Rightarrow> NodeDefinition \<Rightarrow> NodeDefinition" where
  "Node_SetColor now x n = n\<lparr> nf_color := x, nf_updatedAt := now \<rparr>"

definition AddInput :: "time \<Rightarrow> NodePort \<Rightarrow> NodeDefinition \<Rightarrow> node_error + NodeDefinition" where
  "AddInput now port n =
     (if list_ex (\<lambda>p. po_ID p = po_ID port) (nf_inputs n) then Inl (ErrInputExists (po_ID port))
      else Inr (n\<lparr> nf_inputs := nf_inputs n @ [port], nf_updatedAt := now \<rparr>))"

definition AddOutput :: "time \<Rightarrow> NodePort \<Rightarrow> NodeDefinition \<Rightarrow> node_error + NodeDefinition" where
  "AddOutput now port n =
     (if list_ex (\<lambda>p. po_ID p = po_ID port) (nf_outputs n) then Inl (ErrOutputExists (po_ID port))
      else Inr (n\<lparr> nf_outputs := nf_outputs n @ [port], nf_updatedAt := now \<rparr>))"

definition AddProperty :: "time \<Rightarrow> NodeProperty \<Rightarrow> NodeDefinition \<Rightarrow> node_error + NodeDefinition" where
  "AddProperty now p n =
     (if list_ex (\<lambda>q. py_ID q = py_ID p) (nf_properties n) then Inl (ErrPropertyExists (py_ID p))
      else Inr (n\<lparr> nf_properties := nf_properties n @ [p], nf_updatedAt := now \<rparr>))"

text \<open>The loops that remove the first element with an identifier.\<close>

fun removeFirst :: "('a \<Rightarrow> bool) \<Rightarrow> 'a list \<Rightarrow> 'a list option" where
  "removeFirst P [] = None"
| "removeFirst P (x # xs) = (if P x then Some xs else map_option ((#) x) (removeFirst P xs))"

definition RemoveInput :: "time \<Rightarrow> string \<Rightarrow> NodeDefinition \<Rightarrow> node_error + NodeDefinition" where
  "RemoveInput now portID n =
     (case removeFirst (\<lambda>p. po_ID p = portID) (nf_inputs n) of
        None \<Rightarrow> Inl (ErrInputNotFound portID) | Some ps \<Rightarrow> Inr (n\<lparr> nf_inputs := ps, nf_updatedAt := now \<rparr>))"

definition RemoveOutput :: "time \<Rightarrow> string \<Rightarrow> NodeDefinition \<Rightarrow> node_error + NodeDefinition" where
  "RemoveOutput now portID n =
     (case removeFirst (\<lambda>p. po_ID p = portID) (nf_outputs n) of
        None \<Rightarrow> Inl (ErrOutputNotFound portID) | Some ps \<Rightarrow> Inr (n\<lparr> nf_outputs := ps, nf_updatedAt := now \<rparr>))"

definition RemoveProperty :: "time \<Rightarrow> string \<Rightarrow> NodeDefinition \<Rightarrow> node_error + NodeDefinition" where
  "RemoveProperty now propertyID n =
     (case removeFirst (\<lambda>p. py_ID p = propertyID) (nf_properties n) of
        None \<Rightarrow> Inl (ErrPropertyNotFound propertyID) | Some ps \<Rightarrow> Inr (n\<lparr> nf_properties := ps, nf_updatedAt := now \<rparr>))"

definition Node_SetStatus :: "time \<Rightarrow> string \<Rightarrow> NodeDefinition \<Rightarrow> NodeDefinition" where
  "Node_SetStatus now st n = n\<lparr> nf_status := st, nf_updatedAt := now \<rparr>"

definition Node_Deprecate :: "time \<Rightarrow> NodeDefinition \<Rightarrow> NodeDefinition" where
  "Node_Deprecate now n = n\<lparr> nf_status := ''deprecated'', nf_updatedAt := now \<rparr>"

definition Node_Disable :: "time \<Rightarrow> NodeDefinition \<Rightarrow> NodeDefinition" where
  "Node_Disable now n = n\<lparr> nf_status := ''disabled'', nf_updatedAt := now \<rparr>"

definition Node_Enable :: "time \<Rightarrow> NodeDefinition \<Rightarrow> NodeDefinition" where
  "Node_Enable now n = n\<lparr> nf_status := ''active'', nf_updatedAt := now \<rparr>"

definition Node_AddTag :: "time \<Rightarrow> string \<Rightarrow> NodeDefinition \<Rightarrow> NodeDefinition" where
  "Node_AddTag now tag n = (if tag \<in> set (nf_tags n) then n else n\<lparr> nf_tags := nf_tags n @ [tag], nf_updatedAt := now \<rparr>)"

definition Node_RemoveTag :: "time \<Rightarrow> string \<Rightarrow> NodeDefinition \<Rightarrow> NodeDefinition" where
  "Node_RemoveTag now tag n =
     (case removeFirst (\<lambda>t. t = tag) (nf_tags n) of None \<Rightarrow> n | Some ts \<Rightarrow> n\<lparr> nf_tags := ts, nf_updatedAt := now \<rparr>)"

definition SetExecutionHandler :: "time \<Rightarrow> string \<Rightarrow> NodeDefinition \<Rightarrow> NodeDefinition" where
  "SetExecutionHandler now h n = n\<lparr> nf_executionHandler := h, nf_updatedAt := now \<rparr>"

definition MarkAsSystem :: "time \<Rightarrow> NodeDefinition \<Rightarrow> NodeDefinition" where
  "MarkAsSystem now n = n\<lparr> nf_isSystem := True, nf_updatedAt := now \<rparr>"

definition MarkAsPremium :: "time \<Rightarrow> NodeDefinition \<Rightarrow> NodeDefinition" where
  "MarkAsPremium now n = n\<lparr> nf_isPremium := True, nf_updatedAt := now \<rparr>"

definition SetDocumentation :: "time \<Rightarrow> string \<Rightarrow> NodeDefinition \<Rightarrow> NodeDefinition" where
  "SetDocumentation now d n = n\<lparr> nf_documentation := d, nf_updatedAt := now \<rparr>"

definition AddExample :: "time \<Rightarrow> dict option \<Rightarrow> NodeDefinition \<Rightarrow> NodeDefinition" where
  "AddExample now x n = n\<lparr> nf_examples := nf_examples n @ [x], nf_updatedAt := now \<rparr>"

text \<open>The first field that is missing in the first port or property that lacks one.\<close>

definition missingField :: "string \<Rightarrow> string \<Rightarrow> string \<Rightarrow> string option" where
  "missingField i name ty = (if i = '''' then Some ''ID'' else if name = '''' then Some ''name'' else if ty = '''' then Some ''type'' else None)"

fun firstMissing :: "('a \<Rightarrow> string option) \<Rightarrow> 'a list \<Rightarrow> string option" where
  "firstMissing f [] = None"
| "firstMissing f (x # xs) = (case f x of None \<Rightarrow> firstMissing f xs | Some m \<Rightarrow> Some m)"

definition missingInPort :: "NodePort \<Rightarrow> string option" where
  "missingInPort p = missingField (po_ID p) (po_Name p) (po_Type p)"

definition missingInProperty :: "NodeProperty \<Rightarrow> string option" where
  "missingInProperty p = missingField (py_ID p) (py_Name p) (py_Type p)"

definition Node_Validate :: "NodeDefinition \<Rightarrow> node_error option" where
  "Node_Validate n =
     (if nf_name n = '''' then Some ErrNodeName
      else if nf_nodeType n = '''' then Some ErrNodeType
      else if nf_category n = '''' then Some ErrNodeCategory
      else case firstMissing missingInPort (nf_inputs n) of
        Some m \<Rightarrow> Some (ErrInputField m)
      | None \<Rightarrow>
        (case firstMissing missingInPort (nf_outputs n) of
           Some m \<Rightarrow> Some (ErrOutputField m)
         | None \<Rightarrow> map_option ErrPropertyField (firstMissing missingInProperty (nf_properties n))))"

definition Node_Clone :: "string \<Rightarrow> time \<Rightarrow> time \<Rightarrow> NodeDefinition \<Rightarrow> NodeDefinition" where
  "Node_Clone fresh now1 now2 n = n\<lparr> nf_id := fresh, nf_name := nf_name n @ '' (Copy)'', nf_isSystem := False,
     nf_createdAt := now1, nf_updatedAt := now2 \<rparr>"

section \<open>The table\<close>

text \<open>The columns of the table, and whether its types are unique.\<close>

record NodeSchema =
  nc_Columns :: "string list"
  nc_UniqueType :: bool

record NodeEnv =
  nn_schema :: NodeSchema
  nn_db :: "nat \<Rightarrow> string option"
  nn_clk :: "nat \<Rightarrow> time"
  nn_rnd :: "nat \<Rightarrow> string"
  nn_ilike :: "string \<Rightarrow> string \<Rightarrow> bool"
  nn_cached :: bool
  nn_published :: bool

definition nodeColumns :: "string list" where
  "nodeColumns = [''id'', ''name'', ''type'', ''category'', ''description'', ''icon'', ''color'', ''version'', ''status'', ''inputs'',
     ''outputs'', ''properties'', ''configuration'', ''validation_rules'', ''documentation'', ''examples'', ''tags'', ''author'',
     ''is_system'', ''is_premium'', ''execution_handler'', ''metadata'', ''created_at'', ''updated_at'']"

definition updatedColumns :: "string list" where
  "updatedColumns = [''name'', ''description'', ''icon'', ''color'', ''status'', ''inputs'', ''outputs'', ''properties'',
     ''configuration'', ''documentation'', ''tags'', ''is_system'', ''is_premium'', ''execution_handler'', ''updated_at'', ''id'']"

definition nodeQuery :: "NodeEnv \<Rightarrow> nat \<Rightarrow> string list \<Rightarrow> (node_error + 'a) \<Rightarrow> node_error + 'a" where
  "nodeQuery env k cols result =
     (case find (\<lambda>c. c \<notin> set (nc_Columns (nn_schema env))) cols of
        Some c \<Rightarrow> Inl (ErrNodeColumn c)
      | None \<Rightarrow> (case nn_db env k of Some e \<Rightarrow> Inl (ErrNodeDB e) | None \<Rightarrow> result))"

text \<open>What an insertion stores; documentation, author, examples, rules and metadata are stored as empty.\<close>

definition insertedRow :: "NodeDefinition \<Rightarrow> NodeDefinition" where
  "insertedRow n = n\<lparr> nf_validationRules := Map.empty, nf_documentation := '''', nf_examples := [], nf_author := '''', nf_metadata := Map.empty \<rparr>"

definition Node_Save :: "NodeEnv \<Rightarrow> nat \<Rightarrow> NodeDefinition \<Rightarrow> NodeDefinition list \<Rightarrow> node_error + NodeDefinition list" where
  "Node_Save env k n rows = nodeQuery env k nodeColumns
     (if list_ex (\<lambda>r. nf_id r = nf_id n \<or> nc_UniqueType (nn_schema env) \<and> nf_nodeType r = nf_nodeType n) rows
      then Inl ErrDuplicateName
      else Inr (rows @ [insertedRow n]))"

definition changedRow :: "NodeDefinition \<Rightarrow> NodeDefinition \<Rightarrow> NodeDefinition" where
  "changedRow n r = r\<lparr> nf_name := nf_name n, nf_description := nf_description n, nf_icon := nf_icon n, nf_color := nf_color n,
     nf_status := nf_status n, nf_inputs := nf_inputs n, nf_outputs := nf_outputs n, nf_properties := nf_properties n,
     nf_configuration := nf_configuration n, nf_documentation := '''', nf_tags := nf_tags n, nf_isSystem := nf_isSystem n,
     nf_isPremium := nf_isPremium n, nf_executionHandler := nf_executionHandler n, nf_updatedAt := nf_updatedAt n \<rparr>"

definition Node_Update :: "NodeEnv \<Rightarrow> nat \<Rightarrow> NodeDefinition \<Rightarrow> NodeDefinition list \<Rightarrow> node_error + NodeDefinition list" where
  "Node_Update env k n rows = nodeQuery env k updatedColumns
     (if \<not> list_ex (\<lambda>r. nf_id r = nf_id n) rows then Inl ErrNodeMissing
      else Inr (map (\<lambda>r. if nf_id r = nf_id n then changedRow n r else r) rows))"

text \<open>A definition is rebuilt from four of its columns, under a new identifier.\<close>

definition node_toDomain :: "string \<Rightarrow> time \<Rightarrow> NodeDefinition \<Rightarrow> node_error + NodeDefinition" where
  "node_toDomain fresh now r = NewNodeDefinition fresh now (nf_name r) (nf_nodeType r) (nf_category r) (nf_description r)"

definition findNode :: "NodeEnv \<Rightarrow> nat \<Rightarrow> (NodeDefinition \<Rightarrow> bool) \<Rightarrow> NodeDefinition list \<Rightarrow> node_error + NodeDefinition" where
  "findNode env k P rows = nodeQuery env k nodeColumns
     (case find P rows of None \<Rightarrow> Inl ErrNodeMissing | Some r \<Rightarrow> node_toDomain (nn_rnd env k) (nn_clk env k) r)"

definition Node_FindByID :: "NodeEnv \<Rightarrow> nat \<Rightarrow> string \<Rightarrow> NodeDefinition list \<Rightarrow> node_error + NodeDefinition" where
  "Node_FindByID env k i = findNode env k (\<lambda>r. nf_id r = i)"

definition Node_FindByName :: "NodeEnv \<Rightarrow> nat \<Rightarrow> string \<Rightarrow> NodeDefinition list \<Rightarrow> node_error + NodeDefinition" where
  "Node_FindByName env k name = findNode env k (\<lambda>r. nf_name r = name)"

text \<open>The rows of a page, each rebuilt with the identifier and the clock at its own place.\<close>

fun scanNodes :: "NodeEnv \<Rightarrow> nat \<Rightarrow> NodeDefinition list \<Rightarrow> node_error + NodeDefinition list" where
  "scanNodes env j [] = Inr []"
| "scanNodes env j (r # rs) =
     (case node_toDomain (nn_rnd env j) (nn_clk env j) r of
        Inl e \<Rightarrow> Inl e
      | Inr n \<Rightarrow> (case scanNodes env (j + 1) rs of Inl e \<Rightarrow> Inl e | Inr ns \<Rightarrow> Inr (n # ns)))"

definition Node_findBy ::
  "NodeEnv \<Rightarrow> nat \<Rightarrow> (NodeDefinition \<Rightarrow> bool) \<Rightarrow> nat \<Rightarrow> nat \<Rightarrow> NodeDefinition list \<Rightarrow> node_error + NodeDefinition list" where
  "Node_findBy env k P offset limit rows = nodeQuery env k nodeColumns
     (scanNodes env (k + 1) (take limit (drop offset (sort_key (\<lambda>r. - nf_createdAt r) (filter P rows)))))"

definition Node_FindByType :: "NodeEnv \<Rightarrow> nat \<Rightarrow> string \<Rightarrow> nat \<Rightarrow> nat \<Rightarrow> NodeDefinition list \<Rightarrow> node_error + NodeDefinition list" where
  "Node_FindByType env k ty = Node_findBy env k (\<lambda>r. nf_nodeType r = ty)"

definition Node_FindByCategory :: "NodeEnv \<Rightarrow> nat \<Rightarrow> string \<Rightarrow> nat \<Rightarrow> nat \<Rightarrow> NodeDefinition list \<Rightarrow> node_error + NodeDefinition list" where
  "Node_FindByCategory env k c = Node_findBy env k (\<lambda>r. nf_category r = c)"

definition Node_FindByStatus :: "NodeEnv \<Rightarrow> nat \<Rightarrow> string \<Rightarrow> nat \<Rightarrow> nat \<Rightarrow> NodeDefinition list \<Rightarrow> node_error + NodeDefinition list" where
  "Node_FindByStatus env k st = Node_findBy env k (\<lambda>r. nf_status r = st)"

definition Node_FindAll :: "NodeEnv \<Rightarrow> nat \<Rightarrow> nat \<Rightarrow> nat \<Rightarrow> NodeDefinition list \<Rightarrow> node_error + NodeDefinition list" where
  "Node_FindAll env k = Node_findBy env k (\<lambda>_. True)"

definition FindSystemNodes :: "NodeEnv \<Rightarrow> nat \<Rightarrow> nat \<Rightarrow> nat \<Rightarrow> NodeDefinition list \<Rightarrow> node_error + NodeDefinition list" where
  "FindSystemNodes env k = Node_findBy env k nf_isSystem"

definition Node_Search :: "NodeEnv \<Rightarrow> nat \<Rightarrow> string \<Rightarrow> nat \<Rightarrow> nat \<Rightarrow> NodeDefinition list \<Rightarrow> node_error + NodeDefinition list" where
  "Node_Search env k q = Node_findBy env k (\<lambda>r. let pattern = ''%'' @ q @ ''%'' in nn_ilike env (nf_name r) pattern \<or> nn_ilike env (nf_description r) pattern)"

definition Node_Count :: "NodeEnv \<Rightarrow> nat \<Rightarrow> NodeDefinition list \<Rightarrow> node_error + int" where
  "Node_Count env k rows = nodeQuery env k [] (Inr (int (length rows)))"

definition CountByType :: "NodeEnv \<Rightarrow> nat \<Rightarrow> string \<Rightarrow> NodeDefinition list \<Rightarrow> node_error + int" where
  "CountByType env k ty rows = nodeQuery env k [''type''] (Inr (int (length (filter (\<lambda>r. nf_nodeType r = ty) rows))))"

definition CountByCategory :: "NodeEnv \<Rightarrow> nat \<Rightarrow> string \<Rightarrow> NodeDefinition list \<Rightarrow> node_error + int" where
  "CountByCategory env k c rows = nodeQuery env k [''category''] (Inr (int (length (filter (\<lambda>r. nf_category r = c) rows))))"

definition Node_Delete :: "NodeEnv \<Rightarrow> nat \<Rightarrow> string \<Rightarrow> NodeDefinition list \<Rightarrow> node_error + NodeDefinition list" where
  "Node_Delete env k i rows = nodeQuery env k [''id'']
     (if list_ex (\<lambda>r. nf_id r = i) rows then Inr (filter (\<lambda>r. nf_id r \<noteq> i) rows) else Inl ErrNodeMissing)"

section \<open>The service\<close>

record NodeState =
  ns_rows :: "NodeDefinition list"
  ns_cache :: "string \<Rightarrow> time option"
  ns_events :: "(string \<times> string) list"

record CreateNodeCommand =
  cn_Name :: string
  cn_Type :: string
  cn_Category :: string
  cn_Description :: string
  cn_Icon :: string
  cn_Color :: string
  cn_Inputs :: "NodePort list"
  cn_Outputs :: "NodePort list"
  cn_Properties :: "NodeProperty list"
  cn_ExecutionHandler :: string
  cn_Documentation :: string
  cn_Tags :: "string list"
  cn_IsPremium :: bool

text \<open>Elements are added one after another; the first error ends the loop.\<close>

fun addEach :: "('x \<Rightarrow> 's \<Rightarrow> node_error + 's) \<Rightarrow> 'x list \<Rightarrow> 's \<Rightarrow> node_error + 's" where
  "addEach add [] n = Inr n"
| "addEach add (x # xs) n = (case add x n of Inl e \<Rightarrow> Inl e | Inr n' \<Rightarrow> addEach add xs n')"

definition orElse :: "string \<Rightarrow> (string \<Rightarrow> 's \<Rightarrow> 's) \<Rightarrow> 's \<Rightarrow> 's" where
  "orElse x f s = (if x \<noteq> '''' then f x s else s)"

text \<open>The definition that a command describes; the readings of the clock within the loops are one.\<close>

definition definitionFor :: "NodeEnv \<Rightarrow> CreateNodeCommand \<Rightarrow> node_error + NodeDefinition" where
  "definitionFor env cmd =
     (case NewNodeDefinition (nn_rnd env 1) (nn_clk env 1) (cn_Name cmd) (cn_Type cmd) (cn_Category cmd) (cn_Description cmd) of
        Inl e \<Rightarrow> Inl e
      | Inr n0 \<Rightarrow>
        let now = nn_clk env 2;
            n1 = orElse (cn_Documentation cmd) (SetDocumentation now) (orElse (cn_ExecutionHandler cmd) (SetExecutionHandler now)
              (orElse (cn_Color cmd) (Node_SetColor now) (orElse (cn_Icon cmd) (Node_SetIcon now) n0)));
            n2 = (if cn_IsPremium cmd then MarkAsPremium now n1 else n1)
        in (case addEach (AddInput now) (cn_Inputs cmd) n2 of
              Inl e \<Rightarrow> Inl e
            | Inr n3 \<Rightarrow>
              (case addEach (AddOutput now) (cn_Outputs cmd) n3 of
                 Inl e \<Rightarrow> Inl e
               | Inr n4 \<Rightarrow>
                 (case addEach (AddProperty now) (cn_Properties cmd) n4 of
                    Inl e \<Rightarrow> Inl e
                  | Inr n5 \<Rightarrow>
                    let n6 = fold (Node_AddTag now) (cn_Tags cmd) n5
                    in (case Node_Validate n6 of Some e \<Rightarrow> Inl e | None \<Rightarrow> Inr n6)))))"

definition publishNode :: "NodeEnv \<Rightarrow> string \<Rightarrow> NodeState \<Rightarrow> NodeState" where
  "publishNode env i s = (if nn_published env then s\<lparr> ns_events := ns_events s @ [(i, ''node.execution.started'')] \<rparr> else s)"

definition uncacheNode :: "NodeEnv \<Rightarrow> string \<Rightarrow> NodeState \<Rightarrow> NodeState" where
  "uncacheNode env i s = (if nn_cached env then s\<lparr> ns_cache := (ns_cache s)(''node:'' @ i := None) \<rparr> else s)"

definition CreateNode :: "NodeEnv \<Rightarrow> CreateNodeCommand \<Rightarrow> NodeState \<Rightarrow> (node_error + NodeDefinition) \<times> NodeState" where
  "CreateNode env cmd s =
     (case Node_FindByName env 0 (cn_Name cmd) (ns_rows s) of
        Inr _ \<Rightarrow> (Inl ErrNodeAlreadyExists, s)
      | Inl _ \<Rightarrow>
        (case definitionFor env cmd of
           Inl e \<Rightarrow> (Inl e, s)
         | Inr n \<Rightarrow>
           (case Node_Save env 3 n (ns_rows s) of
              Inl e \<Rightarrow> (Inl e, s)
            | Inr rows \<Rightarrow> (Inr n, publishNode env (nf_id n) (s\<lparr> ns_rows := rows \<rparr>)))))"

record UpdateNodeCommand =
  un_ID :: string
  un_Name :: string
  un_Description :: string
  un_Icon :: string
  un_Color :: string
  un_Inputs :: "NodePort list"
  un_Outputs :: "NodePort list"
  un_Properties :: "NodeProperty list"
  un_ExecutionHandler :: string
  un_Documentation :: string
  un_Tags :: "string list"
  un_Status :: string

definition updatedNode :: "time \<Rightarrow> UpdateNodeCommand \<Rightarrow> NodeDefinition \<Rightarrow> node_error + NodeDefinition" where
  "updatedNode now cmd n =
     (case (if un_Name cmd \<noteq> '''' \<and> un_Name cmd \<noteq> nf_name n then Node_SetName now (un_Name cmd) n else Inr n) of
        Inl e \<Rightarrow> Inl e
      | Inr n1 \<Rightarrow> Inr (orElse (un_Status cmd) (Node_SetStatus now) (orElse (un_Documentation cmd) (SetDocumentation now)
          (orElse (un_ExecutionHandler cmd) (SetExecutionHandler now) (orElse (un_Color cmd) (Node_SetColor now)
            (orElse (un_Icon cmd) (Node_SetIcon now) (orElse (un_Description cmd) (Node_SetDescription now) n1)))))))"

definition UpdateNode :: "NodeEnv \<Rightarrow> UpdateNodeCommand \<Rightarrow> NodeState \<Rightarrow> (node_error + NodeDefinition) \<times> NodeState" where
  "UpdateNode env cmd s =
     (case Node_FindByID env 0 (un_ID cmd) (ns_rows s) of
        Inl e \<Rightarrow> (Inl e, s)
      | Inr n \<Rightarrow>
        if nf_isSystem n then (Inl ErrSystemNode, s)
        else case updatedNode (nn_clk env 1) cmd n of
          Inl e \<Rightarrow> (Inl e, s)
        | Inr n' \<Rightarrow>
          (case Node_Update env 2 n' (ns_rows s) of
             Inl e \<Rightarrow> (Inl e, s)
           | Inr rows \<Rightarrow> (Inr n', publishNode env (nf_id n') (uncacheNode env (un_ID cmd) (s\<lparr> ns_rows := rows \<rparr>)))))"

definition zeroDefinition :: NodeDefinition where
  "zeroDefinition = \<lparr> nf_id = '''', nf_name = '''', nf_nodeType = '''', nf_category = '''', nf_description = '''', nf_icon = '''',
     nf_color = '''', nf_version = '''', nf_status = '''', nf_inputs = [], nf_outputs = [], nf_properties = [],
     nf_configuration = Map.empty, nf_validationRules = Map.empty, nf_documentation = '''', nf_examples = [], nf_tags = [],
     nf_author = '''', nf_isSystem = False, nf_isPremium = False, nf_executionHandler = '''', nf_metadata = Map.empty,
     nf_createdAt = 0, nf_updatedAt = 0 \<rparr>"

definition GetNode :: "NodeEnv \<Rightarrow> string \<Rightarrow> NodeState \<Rightarrow> (node_error + NodeDefinition) \<times> NodeState" where
  "GetNode env i s =
     (if nn_cached env \<and> (case ns_cache s (''node:'' @ i) of None \<Rightarrow> False | Some t \<Rightarrow> nn_clk env 0 < t) then (Inr zeroDefinition, s)
      else case Node_FindByID env 1 i (ns_rows s) of
        Inl e \<Rightarrow> (Inl e, s)
      | Inr n \<Rightarrow> (Inr n, if nn_cached env then s\<lparr> ns_cache := (ns_cache s)(''node:'' @ i \<mapsto> nn_clk env 2 + 5 * Minute) \<rparr> else s))"

record ListNodesQuery =
  ln_Type :: string
  ln_Category :: string
  ln_Status :: string
  ln_IsSystem :: "bool option"
  ln_IsPremium :: "bool option"
  ln_SearchQuery :: string
  ln_Offset :: nat
  ln_Limit :: nat

definition queriedNodes :: "NodeEnv \<Rightarrow> ListNodesQuery \<Rightarrow> NodeDefinition list \<Rightarrow> node_error + NodeDefinition list" where
  "queriedNodes env q =
     (if ln_SearchQuery q \<noteq> '''' then Node_Search env 1 (ln_SearchQuery q) (ln_Offset q) (ln_Limit q)
      else if ln_Type q \<noteq> '''' then Node_FindByType env 1 (ln_Type q) (ln_Offset q) (ln_Limit q)
      else if ln_Category q \<noteq> '''' then Node_FindByCategory env 1 (ln_Category q) (ln_Offset q) (ln_Limit q)
      else if ln_Status q \<noteq> '''' then Node_FindByStatus env 1 (ln_Status q) (ln_Offset q) (ln_Limit q)
      else if ln_IsSystem q = Some True then FindSystemNodes env 1 (ln_Offset q) (ln_Limit q)
      else Node_FindAll env 1 (ln_Offset q) (ln_Limit q))"

definition ListNodes :: "NodeEnv \<Rightarrow> ListNodesQuery \<Rightarrow> NodeState \<Rightarrow> node_error + NodeDefinition list \<times> int" where
  "ListNodes env q s =
     (case queriedNodes env q (ns_rows s) of
        Inl e \<Rightarrow> Inl e
      | Inr nodes \<Rightarrow>
        let filtered = (case ln_IsPremium q of None \<Rightarrow> nodes | Some b \<Rightarrow> filter (\<lambda>n. nf_isPremium n = b) nodes)
        in (case Node_Count env 0 (ns_rows s) of Inl e \<Rightarrow> Inl e | Inr n \<Rightarrow> Inr (filtered, n)))"

definition CloneNode :: "NodeEnv \<Rightarrow> string \<Rightarrow> NodeState \<Rightarrow> (node_error + NodeDefinition) \<times> NodeState" where
  "CloneNode env i s =
     (case Node_FindByID env 0 i (ns_rows s) of
        Inl e \<Rightarrow> (Inl e, s)
      | Inr original \<Rightarrow>
        let copy = Node_Clone (nn_rnd env 1) (nn_clk env 1) (nn_clk env 2) original
        in (case Node_Save env 3 copy (ns_rows s) of
              Inl e \<Rightarrow> (Inl e, s)
            | Inr rows \<Rightarrow> (Inr copy, publishNode env (nf_id copy) (s\<lparr> ns_rows := rows \<rparr>))))"

definition DeleteNode :: "NodeEnv \<Rightarrow> string \<Rightarrow> NodeState \<Rightarrow> (node_error + unit) \<times> NodeState" where
  "DeleteNode env i s =
     (case Node_FindByID env 0 i (ns_rows s) of
        Inl e \<Rightarrow> (Inl e, s)
      | Inr n \<Rightarrow>
        if nf_isSystem n then (Inl ErrSystemNode, s)
        else (case Node_Delete env 1 i (ns_rows s) of
                Inl e \<Rightarrow> (Inl e, s)
              | Inr rows \<Rightarrow> (Inr (), publishNode env i (uncacheNode env i (s\<lparr> ns_rows := rows \<rparr>)))))"

section \<open>The nodes of the system\<close>

definition catalogPort :: "string \<Rightarrow> string \<Rightarrow> string \<Rightarrow> bool \<Rightarrow> NodePort" where
  "catalogPort i name ty required = \<lparr> po_ID = i, po_Name = name, po_Type = ty, po_Required = required, po_Multiple = False,
     po_Description = '''', po_DefaultValue = VNil, po_Schema = None \<rparr>"

definition property :: "string \<Rightarrow> string \<Rightarrow> string \<Rightarrow> bool \<Rightarrow> value \<Rightarrow> NodePropertyOption list \<Rightarrow> NodeProperty" where
  "property i name ty required v opts = \<lparr> py_ID = i, py_Name = name, py_Type = ty, py_Required = required, py_Description = '''',
     py_DefaultValue = v, py_Options = opts, py_Validation = None, py_Placeholder = '''', py_Hidden = False \<rparr>"

definition systemCommand ::
  "string \<Rightarrow> string \<Rightarrow> string \<Rightarrow> string \<Rightarrow> string \<Rightarrow> string \<Rightarrow> NodePort list \<Rightarrow> NodePort list \<Rightarrow> NodeProperty list \<Rightarrow> CreateNodeCommand" where
  "systemCommand name ty category description icon color inputs outputs properties =
     \<lparr> cn_Name = name, cn_Type = ty, cn_Category = category, cn_Description = description, cn_Icon = icon, cn_Color = color,
       cn_Inputs = inputs, cn_Outputs = outputs, cn_Properties = properties, cn_ExecutionHandler = '''', cn_Documentation = '''',
       cn_Tags = [], cn_IsPremium = False \<rparr>"

definition getDefaultSystemNodes :: "CreateNodeCommand list" where
  "getDefaultSystemNodes =
     [systemCommand ''HTTP Request'' ''http'' ''integration'' ''Make HTTP requests to external APIs'' ''http'' ''#4CAF50''
        [catalogPort ''url'' ''URL'' ''string'' True, catalogPort ''method'' ''Method'' ''string'' True,
         catalogPort ''headers'' ''Headers'' ''object'' False, catalogPort ''body'' ''Body'' ''any'' False]
        [catalogPort ''response'' ''Response'' ''object'' False, catalogPort ''status'' ''Status Code'' ''number'' False,
         catalogPort ''error'' ''Error'' ''string'' False]
        [property ''timeout'' ''Timeout'' ''number'' False (VInt 30000) [], property ''retries'' ''Retries'' ''number'' False (VInt 3) []],
      systemCommand ''Condition'' ''condition'' ''control'' ''Branch workflow based on conditions'' ''condition'' ''#2196F3''
        [catalogPort ''input'' ''Input'' ''any'' True]
        [catalogPort ''true'' ''True'' ''any'' False, catalogPort ''false'' ''False'' ''any'' False]
        [property ''condition'' ''Condition'' ''string'' True VNil [],
         property ''operator'' ''Operator'' ''select'' True VNil
           [\<lparr> pn_Label = ''Equals'', pn_Value = VStr ''=='' \<rparr>, \<lparr> pn_Label = ''Not Equals'', pn_Value = VStr ''!='' \<rparr>,
            \<lparr> pn_Label = ''Greater Than'', pn_Value = VStr ''>'' \<rparr>, \<lparr> pn_Label = ''Less Than'', pn_Value = VStr ''<'' \<rparr>]],
      systemCommand ''Transform'' ''transform'' ''transform'' ''Transform data using JavaScript expressions'' ''transform'' ''#FF9800''
        [catalogPort ''input'' ''Input'' ''any'' True] [catalogPort ''output'' ''Output'' ''any'' False]
        [property ''expression'' ''Expression'' ''string'' True VNil []]]"

text \<open>One round of the loop: the query at place 4 asks for the name, the one at place 5 marks the new node. Errors are logged.\<close>

definition initializeNode :: "NodeEnv \<Rightarrow> CreateNodeCommand \<Rightarrow> NodeState \<Rightarrow> NodeState" where
  "initializeNode env cmd s =
     (case Node_FindByName env 4 (cn_Name cmd) (ns_rows s) of
        Inr _ \<Rightarrow> s
      | Inl _ \<Rightarrow>
        (case CreateNode env cmd s of
           (Inl _, s') \<Rightarrow> s'
         | (Inr n, s') \<Rightarrow>
             (case Node_Update env 5 (MarkAsSystem (nn_clk env 5) n) (ns_rows s') of
                Inl _ \<Rightarrow> s' | Inr rows \<Rightarrow> s'\<lparr> ns_rows := rows \<rparr>)))"

fun initializeNodes :: "(nat \<Rightarrow> NodeEnv) \<Rightarrow> nat \<Rightarrow> CreateNodeCommand list \<Rightarrow> NodeState \<Rightarrow> NodeState" where
  "initializeNodes envs j [] s = s"
| "initializeNodes envs j (cmd # cmds) s = initializeNodes envs (j + 1) cmds (initializeNode (envs j) cmd s)"

definition InitializeSystemNodes :: "(nat \<Rightarrow> NodeEnv) \<Rightarrow> NodeState \<Rightarrow> NodeState" where
  "InitializeSystemNodes envs s = initializeNodes envs 0 getDefaultSystemNodes s"

section \<open>Calls\<close>

definition emptyCatalogue :: NodeState where
  "emptyCatalogue = \<lparr> ns_rows = [], ns_cache = Map.empty, ns_events = [] \<rparr>"

datatype ncommand =
    NcCreate NodeEnv CreateNodeCommand
  | NcUpdate NodeEnv UpdateNodeCommand
  | NcGet NodeEnv string
  | NcList NodeEnv ListNodesQuery
  | NcClone NodeEnv string
  | NcDelete NodeEnv string
  | NcInitialize "nat \<Rightarrow> NodeEnv"

fun ncall :: "ncommand \<Rightarrow> NodeState \<Rightarrow> NodeState" where
  "ncall (NcCreate env cmd) s = snd (CreateNode env cmd s)"
| "ncall (NcUpdate env cmd) s = snd (UpdateNode env cmd s)"
| "ncall (NcGet env i) s = snd (GetNode env i s)"
| "ncall (NcList env q) s = s"
| "ncall (NcClone env i) s = snd (CloneNode env i s)"
| "ncall (NcDelete env i) s = snd (DeleteNode env i s)"
| "ncall (NcInitialize envs) s = InitializeSystemNodes envs s"

text \<open>The environments of a call.\<close>

definition envsOf :: "ncommand \<Rightarrow> NodeEnv set" where
  "envsOf c = (case c of NcCreate env _ \<Rightarrow> {env} | NcUpdate env _ \<Rightarrow> {env} | NcGet env _ \<Rightarrow> {env} | NcList env _ \<Rightarrow> {env}
     | NcClone env _ \<Rightarrow> {env} | NcDelete env _ \<Rightarrow> {env} | NcInitialize envs \<Rightarrow> range envs)"

definition migratedColumns :: "string list" where
  "migratedColumns = [''id'', ''name'', ''type'', ''category'', ''description'', ''icon'', ''color'', ''version'', ''status'', ''inputs'',
     ''outputs'', ''properties'', ''config_schema'', ''validation_rules'', ''documentation'', ''examples'', ''tags'', ''author'',
     ''is_system'', ''is_premium'', ''execution_handler'', ''metadata'', ''created_at'', ''updated_at'']"

lemma nodeQuery_Inr: "nodeQuery env k cols res = Inr x \<longleftrightarrow>
    res = Inr x \<and> nn_db env k = None \<and> set cols \<subseteq> set (nc_Columns (nn_schema env))"
  by (auto simp: nodeQuery_def find_None_iff split: option.split dest: find_SomeD)

section \<open>Under the migration\<close>

lemma node_refused:
  assumes "nc_Columns (nn_schema env) = migratedColumns" and "''configuration'' \<in> set cols"
  shows "\<exists>e. nodeQuery env k cols res = Inl e"
proof (cases "nodeQuery env k cols res")
  case (Inr x)
  then show ?thesis
    using assms by (auto simp: nodeQuery_Inr migratedColumns_def)
qed blast

lemma migrated_node_queries:
  assumes "nc_Columns (nn_schema env) = migratedColumns"
  shows "\<exists>e. findNode env k P rows = Inl e" and "\<exists>e. Node_Save env k n rows = Inl e" and "\<exists>e. Node_Update env k n rows = Inl e"
    and "\<exists>e. Node_findBy env k P offset limit rows = Inl e"
proof -
  have "''configuration'' \<in> set nodeColumns" and "''configuration'' \<in> set updatedColumns"
    by (simp_all add: nodeColumns_def updatedColumns_def)
  then show "\<exists>e. findNode env k P rows = Inl e" and "\<exists>e. Node_Save env k n rows = Inl e" and "\<exists>e. Node_Update env k n rows = Inl e"
    and "\<exists>e. Node_findBy env k P offset limit rows = Inl e"
    unfolding findNode_def Node_Save_def Node_Update_def Node_findBy_def by (simp_all only: node_refused[OF assms])
qed

text \<open>A call answers with an error; one that only reads answers with what it read.\<close>

fun ncall_fails :: "ncommand \<Rightarrow> NodeState \<Rightarrow> bool" where
  "ncall_fails (NcCreate env cmd) s = (\<exists>e. fst (CreateNode env cmd s) = Inl e)"
| "ncall_fails (NcUpdate env cmd) s = (\<exists>e. fst (UpdateNode env cmd s) = Inl e)"
| "ncall_fails (NcGet env i) s = (\<exists>e. fst (GetNode env i s) = Inl e)"
| "ncall_fails (NcList env q) s = (\<exists>e. ListNodes env q s = Inl e)"
| "ncall_fails (NcClone env i) s = (\<exists>e. fst (CloneNode env i s) = Inl e)"
| "ncall_fails (NcDelete env i) s = (\<exists>e. fst (DeleteNode env i s) = Inl e)"
| "ncall_fails (NcInitialize envs) s = True"

lemma migrated_create:
  assumes "nc_Columns (nn_schema env) = migratedColumns"
  shows "\<exists>e. CreateNode env cmd s = (Inl e, s)"
  using migrated_node_queries(1)[OF assms] migrated_node_queries(2)[OF assms]
  by (auto simp: CreateNode_def Node_FindByName_def split: sum.split) (metis Inl_Inr_False)

lemma migrated_initialize:
  assumes "\<forall>j. nc_Columns (nn_schema (envs j)) = migratedColumns"
  shows "initializeNodes envs j cmds s = s"
proof (induction cmds arbitrary: j)
  case (Cons cmd cmds)
  obtain e where "CreateNode (envs j) cmd s = (Inl e, s)"
    using migrated_create assms by blast
  then have "initializeNode (envs j) cmd s = s"
    by (auto simp: initializeNode_def split: sum.split)
  then show ?case
    using Cons by simp
qed simp

lemma migrated_call:
  assumes "\<forall>env \<in> envsOf c. nc_Columns (nn_schema env) = migratedColumns" and "ns_cache s = Map.empty"
  shows "ncall c s = s \<and> ncall_fails c s"
proof (cases c)
  case (NcCreate env cmd)
  then show ?thesis
    using migrated_create[of env cmd s] assms by (auto simp: envsOf_def)
next
  case (NcUpdate env cmd)
  then show ?thesis
    using migrated_node_queries(1)[of env] assms
    by (auto simp: envsOf_def UpdateNode_def Node_FindByID_def split: sum.split) (metis Inl_Inr_False)+
next
  case (NcGet env i)
  then show ?thesis
    using migrated_node_queries(1)[of env] assms
    by (auto simp: envsOf_def GetNode_def Node_FindByID_def split: sum.split) (metis Inl_Inr_False)+
next
  case (NcList env q)
  then have "\<exists>e. queriedNodes env q (ns_rows s) = Inl e"
    using migrated_node_queries(4)[of env] assms
    by (auto simp: envsOf_def queriedNodes_def Node_Search_def Node_FindByType_def Node_FindByCategory_def Node_FindByStatus_def
        FindSystemNodes_def Node_FindAll_def)
  then show ?thesis
    using NcList by (auto simp: ListNodes_def)
next
  case (NcClone env i)
  then show ?thesis
    using migrated_node_queries(1)[of env] assms
    by (auto simp: envsOf_def CloneNode_def Node_FindByID_def split: sum.split) (metis Inl_Inr_False)+
next
  case (NcDelete env i)
  then show ?thesis
    using migrated_node_queries(1)[of env] assms
    by (auto simp: envsOf_def DeleteNode_def Node_FindByID_def split: sum.split) (metis Inl_Inr_False)+
next
  case (NcInitialize envs)
  then show ?thesis
    using migrated_initialize[of envs] assms by (auto simp: envsOf_def InitializeSystemNodes_def)
qed

primrec ncalls :: "ncommand list \<Rightarrow> NodeState \<Rightarrow> NodeState" where
  "ncalls [] s = s"
| "ncalls (c # cs) s = ncalls cs (ncall c s)"

text \<open>With the table that the migration creates the catalogue stays empty whatever is called, the initialization of the nodes of
  the system included, and every call answers with an error: the queries name a column \<open>configuration\<close> that the table does not have.\<close>
theorem catalogue_stays_empty:
  assumes "\<forall>c \<in> set cs. \<forall>env \<in> envsOf c. nc_Columns (nn_schema env) = migratedColumns"
    and "\<forall>env \<in> envsOf c. nc_Columns (nn_schema env) = migratedColumns"
  shows "ncalls cs emptyCatalogue = emptyCatalogue \<and> ncall_fails c (ncalls cs emptyCatalogue)"
proof -
  have cache: "ns_cache emptyCatalogue = Map.empty"
    by (simp add: emptyCatalogue_def)
  have "ncalls cs emptyCatalogue = emptyCatalogue"
    using assms(1) migrated_call[OF _ cache] by (induction cs) auto
  then show ?thesis
    using migrated_call[OF assms(2) cache] by simp
qed

section \<open>With every column in place\<close>

definition catalogue_inv :: "NodeDefinition list \<Rightarrow> bool" where
  "catalogue_inv rows \<longleftrightarrow> distinct (map nf_id rows) \<and> (\<forall>r \<in> set rows. nf_name r \<noteq> '''' \<and> nf_nodeType r \<noteq> '''')"

lemma catalogue_save:
  "Node_Save env k n rows = Inr rows' \<Longrightarrow> nf_name n \<noteq> '''' \<Longrightarrow> nf_nodeType n \<noteq> '''' \<Longrightarrow> catalogue_inv rows \<Longrightarrow> catalogue_inv rows'"
proof -
  assume save: "Node_Save env k n rows = Inr rows'" and named: "nf_name n \<noteq> ''''" "nf_nodeType n \<noteq> ''''" and inv: "catalogue_inv rows"
  have "rows' = rows @ [insertedRow n]" and "\<forall>r \<in> set rows. nf_id r \<noteq> nf_id n"
    using save by (auto simp: Node_Save_def nodeQuery_Inr list_ex_iff split: if_splits)
  then have "rows' = rows @ [insertedRow n]" and "nf_id n \<notin> nf_id ` set rows"
    by (auto simp: image_iff)
  then show ?thesis
    using named inv by (simp add: catalogue_inv_def insertedRow_def)
qed
lemma catalogue_update:
  assumes "Node_Update env k n rows = Inr rows'" and "nf_name n \<noteq> ''''" and "catalogue_inv rows"
  shows "catalogue_inv rows'"
proof -
  have rows': "rows' = map (\<lambda>r. if nf_id r = nf_id n then changedRow n r else r) rows"
    using assms(1) by (auto simp: Node_Update_def nodeQuery_Inr split: if_splits)
  have "map nf_id rows' = map nf_id rows"
    by (simp add: rows' changedRow_def)
  moreover have "\<forall>r \<in> set rows'. nf_name r \<noteq> '''' \<and> nf_nodeType r \<noteq> ''''"
    using assms(2,3) by (auto simp: catalogue_inv_def rows' changedRow_def)
  ultimately show ?thesis
    using assms(3) by (simp add: catalogue_inv_def)
qed

lemma catalogue_delete: "Node_Delete env k i rows = Inr rows' \<Longrightarrow> catalogue_inv rows \<Longrightarrow> catalogue_inv rows'"
  by (auto simp: Node_Delete_def nodeQuery_Inr catalogue_inv_def filter_distinct_map split: if_splits)

lemma definitionFor_named: "definitionFor env cmd = Inr n \<Longrightarrow> nf_name n \<noteq> '''' \<and> nf_nodeType n \<noteq> ''''"
  by (auto simp: definitionFor_def Let_def Node_Validate_def split: sum.splits if_splits option.splits)

lemma findNode_named: "findNode env k P rows = Inr n \<Longrightarrow> nf_name n \<noteq> '''' \<and> nf_nodeType n \<noteq> '''' \<and> nf_id n = nn_rnd env k \<and> \<not> nf_isSystem n"
  by (auto simp: findNode_def nodeQuery_Inr node_toDomain_def NewNodeDefinition_def split: option.splits if_splits)

lemma orElse_keeps: "(\<And>y. g (f x y) = g y) \<Longrightarrow> g (orElse x f s) = g s"
  by (simp add: orElse_def)

lemma setters_keep [simp]:
  "nf_name (orElse x (Node_SetStatus now) n) = nf_name n" "nf_id (orElse x (Node_SetStatus now) n) = nf_id n"
  "nf_name (orElse x (SetDocumentation now) n) = nf_name n" "nf_id (orElse x (SetDocumentation now) n) = nf_id n"
  "nf_name (orElse x (SetExecutionHandler now) n) = nf_name n" "nf_id (orElse x (SetExecutionHandler now) n) = nf_id n"
  "nf_name (orElse x (Node_SetColor now) n) = nf_name n" "nf_id (orElse x (Node_SetColor now) n) = nf_id n"
  "nf_name (orElse x (Node_SetIcon now) n) = nf_name n" "nf_id (orElse x (Node_SetIcon now) n) = nf_id n"
  "nf_name (orElse x (Node_SetDescription now) n) = nf_name n" "nf_id (orElse x (Node_SetDescription now) n) = nf_id n"
  by (rule orElse_keeps, simp add: Node_SetStatus_def SetDocumentation_def SetExecutionHandler_def Node_SetColor_def
      Node_SetIcon_def Node_SetDescription_def)+

lemma updatedNode_keeps: "updatedNode now cmd n = Inr n' \<Longrightarrow> nf_name n \<noteq> '''' \<Longrightarrow> nf_name n' \<noteq> '''' \<and> nf_id n' = nf_id n"
  by (auto simp: updatedNode_def Node_SetName_def split: if_splits)

lemma create_inv: "catalogue_inv (ns_rows s) \<Longrightarrow> CreateNode env cmd s = (r, s') \<Longrightarrow> catalogue_inv (ns_rows s')"
  using definitionFor_named[of env cmd] catalogue_save[of env 3 _ "ns_rows s"]
  by (auto simp: CreateNode_def publishNode_def split: sum.splits)

lemma create_named: "CreateNode env cmd s = (Inr n, s') \<Longrightarrow> nf_name n \<noteq> ''''"
  using definitionFor_named[of env cmd] by (auto simp: CreateNode_def split: sum.splits)

lemma initialize_inv: "catalogue_inv (ns_rows s) \<Longrightarrow> catalogue_inv (ns_rows (initializeNodes envs j cmds s))"
proof (induction envs j cmds s rule: initializeNodes.induct)
  case (2 envs j cmd cmds s)
  obtain r s' where create: "CreateNode (envs j) cmd s = (r, s')"
    by force
  have "nf_name (MarkAsSystem now n) = nf_name n" for now n
    by (simp add: MarkAsSystem_def)
  then have "catalogue_inv (ns_rows (initializeNode (envs j) cmd s))"
    using 2(2) create create_inv[OF 2(2) create] create_named[of "envs j" cmd s _ s']
      catalogue_update[of "envs j" 5 _ "ns_rows s'"]
    by (auto simp: initializeNode_def split: sum.splits)
  then show ?case
    using 2 by simp
qed simp

lemma Node_Clone_fields: "nf_name (Node_Clone fresh a b n) = nf_name n @ '' (Copy)''" "nf_nodeType (Node_Clone fresh a b n) = nf_nodeType n"
  by (simp_all add: Node_Clone_def)

lemma clone_inv: "catalogue_inv (ns_rows s) \<Longrightarrow> catalogue_inv (ns_rows (snd (CloneNode env i s)))"
proof (cases "Node_FindByID env 0 i (ns_rows s)")
  case (Inr n)
  assume inv: "catalogue_inv (ns_rows s)"
  let ?copy = "Node_Clone (nn_rnd env 1) (nn_clk env 1) (nn_clk env 2) n"
  have "nf_name ?copy \<noteq> ''''" and "nf_nodeType ?copy \<noteq> ''''"
    using findNode_named Inr by (auto simp: Node_FindByID_def Node_Clone_fields)
  then show ?thesis
    using Inr inv catalogue_save[of env 3 ?copy "ns_rows s"]
    by (cases "Node_Save env 3 ?copy (ns_rows s)") (simp_all add: CloneNode_def publishNode_def Let_def)
qed (simp add: CloneNode_def)

lemma ncall_inv:
  assumes "catalogue_inv (ns_rows s)"
  shows "catalogue_inv (ns_rows (ncall c s))"
proof (cases c)
  case (NcCreate env cmd)
  then show ?thesis
    using create_inv[OF assms] by (metis ncall.simps(1) surjective_pairing)
next
  case (NcUpdate env cmd)
  show ?thesis
  proof (cases "UpdateNode env cmd s")
    case (Pair r s')
    then show ?thesis
      using assms NcUpdate findNode_named[of env 0 "\<lambda>r. nf_id r = un_ID cmd" "ns_rows s"] updatedNode_keeps[of "nn_clk env 1" cmd]
        catalogue_update[of env 2 _ "ns_rows s"]
      by (auto simp: UpdateNode_def Node_FindByID_def publishNode_def uncacheNode_def split: sum.splits if_splits)
  qed
next
  case (NcGet env i)
  then show ?thesis
    using assms by (auto simp: GetNode_def split: sum.split)
next
  case (NcClone env i)
  then show ?thesis
    using assms clone_inv by simp
next
  case (NcDelete env i)
  then show ?thesis
    using assms catalogue_delete[of env 1 i "ns_rows s"]
    by (auto simp: DeleteNode_def publishNode_def uncacheNode_def split: sum.splits)
qed (use assms in \<open>simp_all add: InitializeSystemNodes_def initialize_inv\<close>)

interpretation catalogue: aggregate "\<lambda>c s. Inr (ncall c s) :: unit + NodeState" "\<lambda>s. catalogue_inv (ns_rows s)" "\<lambda>_ _. True"
  by unfold_locales (auto intro: ncall_inv)

lemma ncalls_attempts: "ncalls cs s = attempts (\<lambda>c s. Inr (ncall c s) :: unit + NodeState) s cs"
  by (induction cs arbitrary: s) (simp_all add: attempt_def)

lemma ncalls_inv: "catalogue_inv (ns_rows (ncalls cs emptyCatalogue))"
  unfolding ncalls_attempts by (rule catalogue.run_inv) (simp_all add: catalogue_inv_def emptyCatalogue_def)

lemma findNode_found:
  assumes "catalogue_inv rows" and "r \<in> set rows" and "P r" and "nn_db env k = None" and "set nodeColumns \<subseteq> set (nc_Columns (nn_schema env))"
  shows "\<exists>n. findNode env k P rows = Inr n"
proof -
  obtain r' where r': "find P rows = Some r'"
    using assms(2,3) by (cases "find P rows") (auto simp: find_None_iff)
  then have "nf_name r' \<noteq> ''''" "nf_nodeType r' \<noteq> ''''"
    using assms(1) find_SomeD[OF r'] by (auto simp: catalogue_inv_def)
  then show ?thesis
    using r' assms(4,5) by (simp add: findNode_def nodeQuery_Inr node_toDomain_def NewNodeDefinition_def)
qed

lemma UpdateNode_fails:
  assumes "nn_rnd env 0 \<notin> nf_id ` set (ns_rows s)"
  shows "\<exists>e. UpdateNode env cmd s = (Inl e, s)"
proof (cases "Node_FindByID env 0 (un_ID cmd) (ns_rows s)")
  case (Inr n)
  then have n: "nf_id n = nn_rnd env 0" "nf_name n \<noteq> ''''" "\<not> nf_isSystem n"
    using findNode_named by (auto simp: Node_FindByID_def)
  have "\<exists>e. Node_Update env 2 n' (ns_rows s) = Inl e" if "updatedNode (nn_clk env 1) cmd n = Inr n'" for n'
  proof (cases "Node_Update env 2 n' (ns_rows s)")
    case (Inr rows)
    then show ?thesis
      using assms updatedNode_keeps[OF that n(2)] n(1)
      by (auto simp: Node_Update_def nodeQuery_Inr list_ex_iff image_iff split: if_splits)
  qed blast
  then obtain e where "updatedNode (nn_clk env 1) cmd n = Inl e
      \<or> (\<exists>n'. updatedNode (nn_clk env 1) cmd n = Inr n' \<and> Node_Update env 2 n' (ns_rows s) = Inl e)"
    by (cases "updatedNode (nn_clk env 1) cmd n") auto
  then show ?thesis
    using Inr n(3) by (auto simp: UpdateNode_def)
qed (simp add: UpdateNode_def)

text \<open>C38: Even with every column in place the nodes of the system are not protected, and no node can be changed: whatever was called before, deleting
  a node that the catalogue holds succeeds, whether it is a node of the system or not, and removes exactly it, because it
  is rebuilt without its mark; and every update is refused and changes nothing, because the node is rebuilt under an identifier that no row has.\<close>
theorem system_nodes_unprotected:
  assumes "r \<in> set (ns_rows (ncalls cs emptyCatalogue))"
    and "set nodeColumns \<subseteq> set (nc_Columns (nn_schema env))" and "\<forall>k. nn_db env k = None"
    and "nn_rnd env 0 \<notin> nf_id ` set (ns_rows (ncalls cs emptyCatalogue))"
  shows "fst (DeleteNode env (nf_id r) (ncalls cs emptyCatalogue)) = Inr ()
    \<and> ns_rows (snd (DeleteNode env (nf_id r) (ncalls cs emptyCatalogue)))
        = filter (\<lambda>x. nf_id x \<noteq> nf_id r) (ns_rows (ncalls cs emptyCatalogue))
    \<and> (\<forall>cmd. \<exists>e. UpdateNode env cmd (ncalls cs emptyCatalogue) = (Inl e, ncalls cs emptyCatalogue))"
proof -
  let ?s = "ncalls cs emptyCatalogue"
  obtain n where n: "Node_FindByID env 0 (nf_id r) (ns_rows ?s) = Inr n"
    using findNode_found[OF ncalls_inv assms(1), of "\<lambda>x. nf_id x = nf_id r" env 0] assms(2,3) by (auto simp: Node_FindByID_def)
  have "\<not> nf_isSystem n"
    using findNode_named n by (auto simp: Node_FindByID_def)
  moreover have "Node_Delete env 1 (nf_id r) (ns_rows ?s) = Inr (filter (\<lambda>x. nf_id x \<noteq> nf_id r) (ns_rows ?s))"
    using assms(1-3) by (auto simp: Node_Delete_def nodeQuery_Inr list_ex_iff nodeColumns_def)
  ultimately show ?thesis
    using n UpdateNode_fails[OF assms(4)] by (simp add: DeleteNode_def publishNode_def uncacheNode_def)
qed

text \<open>A copy has the type of its original, and a type has one row: no node can be cloned.\<close>

lemma CloneNode_fails:
  assumes "nc_UniqueType (nn_schema env)"
  shows "\<exists>e. CloneNode env i s = (Inl e, s)"
proof (cases "Node_FindByID env 0 i (ns_rows s)")
  case (Inr n)
  then obtain r where r: "find (\<lambda>r. nf_id r = i) (ns_rows s) = Some r" "nf_nodeType n = nf_nodeType r"
    by (auto simp: Node_FindByID_def findNode_def nodeQuery_Inr node_toDomain_def NewNodeDefinition_def split: option.splits if_splits)
  then have "r \<in> set (ns_rows s)"
    using find_SomeD by metis
  then have "list_ex (\<lambda>x. nf_id x = nf_id (Node_Clone fresh a b n) \<or> nc_UniqueType (nn_schema env) \<and> nf_nodeType x = nf_nodeType (Node_Clone fresh a b n))
      (ns_rows s)" for fresh a b
    using assms r(2) by (auto simp: list_ex_iff Node_Clone_def)
  then have "\<exists>e. Node_Save env 3 (Node_Clone fresh a b n) (ns_rows s) = Inl e" for fresh a b
    by (cases "Node_Save env 3 (Node_Clone fresh a b n) (ns_rows s)") (auto simp: Node_Save_def nodeQuery_Inr)
  then obtain e where "Node_Save env 3 (Node_Clone (nn_rnd env 1) (nn_clk env 1) (nn_clk env 2) n) (ns_rows s) = Inl e"
    by blast
  then show ?thesis
    using Inr by (simp add: CloneNode_def)
qed (simp add: CloneNode_def)

text \<open>No listed node is premium: asked for the premium ones, the catalogue lists none.\<close>

lemma scanNodes_plain: "scanNodes env j rows = Inr ns \<Longrightarrow> \<forall>n \<in> set ns. \<not> nf_isPremium n \<and> \<not> nf_isSystem n"
proof (induction env j rows arbitrary: ns rule: scanNodes.induct)
  case (2 env j r rs)
  from 2(2) obtain n ms where n: "node_toDomain (nn_rnd env j) (nn_clk env j) r = Inr n"
    and ms: "scanNodes env (j + 1) rs = Inr ms" "ns = n # ms"
    by (auto split: sum.splits)
  have "\<not> nf_isPremium n \<and> \<not> nf_isSystem n"
    using n by (auto simp: node_toDomain_def NewNodeDefinition_def split: if_splits)
  then show ?case
    using 2(1)[OF n ms(1)] ms(2) by simp
qed simp

lemma ListNodes_no_premium:
  assumes "ListNodes env q s = Inr (ns, k)" and "ln_IsPremium q = Some True"
  shows "ns = []"
proof -
  obtain ms where ms: "queriedNodes env q (ns_rows s) = Inr ms" "ns = filter (\<lambda>n. nf_isPremium n = True) ms"
    using assms by (auto simp: ListNodes_def Let_def split: sum.splits)
  have "\<forall>n \<in> set ms. \<not> nf_isPremium n"
    using ms(1) scanNodes_plain
    by (auto simp: queriedNodes_def Node_Search_def Node_FindByType_def Node_FindByCategory_def Node_FindByStatus_def
        FindSystemNodes_def Node_FindAll_def Node_findBy_def nodeQuery_Inr split: if_splits)
  then show ?thesis
    using ms(2) by (simp add: filter_empty_conv)
qed

section \<open>Examples\<close>

definition node_env :: "string list \<Rightarrow> nat \<Rightarrow> NodeEnv" where
  "node_env cols j = \<lparr> nn_schema = \<lparr> nc_Columns = cols, nc_UniqueType = True \<rparr>, nn_db = (\<lambda>_. None), nn_clk = (\<lambda>_. 0),
     nn_rnd = (\<lambda>_. replicate (j + 1) (CHR ''n'')), nn_ilike = (\<lambda>_ _. False), nn_cached = False, nn_published = True \<rparr>"

lemma catalogue_stays_empty_witness:
  "ns_rows (ncalls [NcInitialize (node_env migratedColumns)] emptyCatalogue) = []
   \<and> (\<exists>e. fst (DeleteNode (node_env migratedColumns 0) ''n'' (ncalls [NcInitialize (node_env migratedColumns)] emptyCatalogue)) = Inl e)"
proof -
  have cols: "nc_Columns (nn_schema (node_env migratedColumns j)) = migratedColumns" for j
    by (simp add: node_env_def)
  have "ns_rows emptyCatalogue = []"
    by (simp add: emptyCatalogue_def)
  with catalogue_stays_empty[of "[NcInitialize (node_env migratedColumns)]" "NcDelete (node_env migratedColumns 0) ''n''"]
  show ?thesis
    by (auto simp: envsOf_def cols)
qed

lemma system_rows:
  "map (\<lambda>r. (nf_id r, nf_isSystem r)) (ns_rows (ncalls [NcInitialize (node_env nodeColumns)] emptyCatalogue))
     = [(''n'', True), (''nn'', True), (''nnn'', True)]"
  by code_simp

lemma system_nodes_unprotected_witness:
  "\<exists>r. r \<in> set (ns_rows (ncalls [NcInitialize (node_env nodeColumns)] emptyCatalogue)) \<and> nf_isSystem r
     \<and> fst (DeleteNode (node_env nodeColumns 9) (nf_id r) (ncalls [NcInitialize (node_env nodeColumns)] emptyCatalogue)) = Inr ()"
proof -
  let ?cs = "[NcInitialize (node_env nodeColumns)]"
  obtain r where r: "r \<in> set (ns_rows (ncalls ?cs emptyCatalogue))" "nf_isSystem r"
    using system_rows by (cases "ns_rows (ncalls ?cs emptyCatalogue)") auto
  have "nf_id ` set (ns_rows (ncalls ?cs emptyCatalogue)) = {''n'', ''nn'', ''nnn''}"
    using arg_cong[OF system_rows, of "\<lambda>xs. fst ` set xs"] by (simp add: image_image)
  then have "nn_rnd (node_env nodeColumns 9) 0 \<notin> nf_id ` set (ns_rows (ncalls ?cs emptyCatalogue))"
    by (simp add: node_env_def numeral_eq_Suc)
  with system_nodes_unprotected[OF r(1), of "node_env nodeColumns 9"] r show ?thesis
    by (auto simp: node_env_def)
qed

end
