(* ===== verification/Credentials.thy ===== *)
theory Credentials
  imports Prelude
begin

text \<open>
  Credentials and variables: the model \<open>internal/credential/domain/model/credential.go\<close>, the service over its in-memory tables
  \<open>internal/credential/app/service/credential_service.go\<close>, and the encryption of single fields
  \<open>internal/credential/encryption.go\<close>. A text is its list of bytes. The cipher, the encodings, JSON and the key derivation are
  fields of \<open>crypto_lib\<close>; \<open>cr_open\<close> gives None for a text that the key did not seal. A nonce is read from the system: \<open>Inl\<close> is
  an error of it. A credential is an object that the table and its readers share; its identifier is its address. New
  identifiers and readings of the clock are arguments, \<open>order\<close> lists the keys of a map in the order of a loop.
\<close>

section \<open>The libraries\<close>

record crypto_lib =
  cr_seal :: "string \<Rightarrow> string \<Rightarrow> string \<Rightarrow> string"
  cr_open :: "string \<Rightarrow> string \<Rightarrow> string \<Rightarrow> string option"
  cr_encode :: "string \<Rightarrow> string"
  cr_decode :: "string \<Rightarrow> string option"
  cr_marshal :: "dict option \<Rightarrow> string"
  cr_unmarshal :: "string \<Rightarrow> dict option option"
  cr_pbkdf2 :: "string \<Rightarrow> string \<Rightarrow> int \<Rightarrow> string"
  cr_sha256 :: "string \<Rightarrow> string"
  cr_token :: "dict option \<Rightarrow> ((string \<times> string \<times> string) \<times> time \<times> value) option"
  cr_timeValue :: "time \<Rightarrow> value"

datatype credential_error =
    ErrCredentialUser
  | ErrCredentialName
  | ErrVariableKey
  | ErrCredentialNotFound
  | ErrVariableNotFound
  | ErrCredentialExpired
  | ErrDataFormat
  | ErrNonce string
  | ErrBase64
  | ErrTooShort
  | ErrOpen
  | ErrCredentialJSON
  | ErrTokenData
  | ErrKeyType string
  | ErrKeySize
  | ErrInvalidKey

text \<open>The nonce of AES-GCM has twelve bytes and stands before the sealed text.\<close>

definition sealText :: "crypto_lib \<Rightarrow> string \<Rightarrow> string + string \<Rightarrow> string \<Rightarrow> credential_error + string" where
  "sealText lib key rnd plaintext =
     (case rnd of Inl e \<Rightarrow> Inl (ErrNonce e) | Inr nonce \<Rightarrow> Inr (nonce @ cr_seal lib key nonce plaintext))"

definition openText :: "crypto_lib \<Rightarrow> string \<Rightarrow> string \<Rightarrow> credential_error + string" where
  "openText lib key ciphertext =
     (if length ciphertext < 12 then Inl ErrTooShort
      else case cr_open lib key (take 12 ciphertext) (drop 12 ciphertext) of None \<Rightarrow> Inl ErrOpen | Some p \<Rightarrow> Inr p)"

definition encrypt :: "crypto_lib \<Rightarrow> string \<Rightarrow> string + string \<Rightarrow> string \<Rightarrow> credential_error + string" where
  "encrypt lib key rnd plaintext =
     (case sealText lib key rnd plaintext of Inl e \<Rightarrow> Inl e | Inr c \<Rightarrow> Inr (cr_encode lib c))"

definition decrypt :: "crypto_lib \<Rightarrow> string \<Rightarrow> string \<Rightarrow> credential_error + string" where
  "decrypt lib key encrypted =
     (case cr_decode lib encrypted of None \<Rightarrow> Inl ErrBase64 | Some c \<Rightarrow> openText lib key c)"

definition encryptData :: "crypto_lib \<Rightarrow> string \<Rightarrow> string + string \<Rightarrow> dict option \<Rightarrow> credential_error + string" where
  "encryptData lib key rnd d = encrypt lib key rnd (cr_marshal lib d)"

definition decryptData :: "crypto_lib \<Rightarrow> string \<Rightarrow> string \<Rightarrow> credential_error + dict option" where
  "decryptData lib key encrypted =
     (case decrypt lib key encrypted of
        Inl e \<Rightarrow> Inl e
      | Inr p \<Rightarrow> (case cr_unmarshal lib p of None \<Rightarrow> Inl ErrCredentialJSON | Some d \<Rightarrow> Inr d))"

section \<open>The model\<close>

text \<open>The types of credentials and the scopes of variables are strings, as callers pass them.\<close>

record Credential =
  cd_ID :: string
  cd_UserID :: string
  cd_OrganizationID :: string
  cd_Name :: string
  cd_Description :: string
  cd_Type :: string
  cd_Provider :: string
  cd_Data :: dict
  cd_Metadata :: "string \<Rightarrow> string option"
  cd_ExpiresAt :: "time option"
  cd_LastUsedAt :: "time option"
  cd_CreatedAt :: time
  cd_UpdatedAt :: time
  cd_Version :: int

definition NewCredential ::
  "string \<Rightarrow> time \<Rightarrow> time \<Rightarrow> string \<Rightarrow> string \<Rightarrow> string \<Rightarrow> string \<Rightarrow> string \<Rightarrow> credential_error + Credential" where
  "NewCredential fresh now1 now2 userID orgID name credType provider =
     (if userID = '''' then Inl ErrCredentialUser
      else if name = '''' then Inl ErrCredentialName
      else Inr \<lparr> cd_ID = fresh, cd_UserID = userID, cd_OrganizationID = orgID, cd_Name = name, cd_Description = '''',
        cd_Type = credType, cd_Provider = provider, cd_Data = Map.empty, cd_Metadata = Map.empty, cd_ExpiresAt = None,
        cd_LastUsedAt = None, cd_CreatedAt = now1, cd_UpdatedAt = now2, cd_Version = 1 \<rparr>)"

definition Credential_SetData :: "time \<Rightarrow> dict \<Rightarrow> Credential \<Rightarrow> Credential" where
  "Credential_SetData now d c = c\<lparr> cd_Data := d, cd_UpdatedAt := now, cd_Version := cd_Version c + 1 \<rparr>"

definition Credential_MarkUsed :: "time \<Rightarrow> Credential \<Rightarrow> Credential" where
  "Credential_MarkUsed now c = c\<lparr> cd_LastUsedAt := Some now \<rparr>"

definition Credential_IsExpired :: "time \<Rightarrow> Credential \<Rightarrow> bool" where
  "Credential_IsExpired now c = (case cd_ExpiresAt c of None \<Rightarrow> False | Some t \<Rightarrow> t < now)"

definition SetExpiration :: "time \<Rightarrow> time \<Rightarrow> Credential \<Rightarrow> Credential" where
  "SetExpiration now t c = c\<lparr> cd_ExpiresAt := Some t, cd_UpdatedAt := now \<rparr>"

record OAuth2Token =
  ot_AccessToken :: string
  ot_RefreshToken :: string
  ot_TokenType :: string
  ot_ExpiresAt :: time
  ot_Scope :: "value"

definition IsAccessTokenExpired :: "time \<Rightarrow> OAuth2Token \<Rightarrow> bool" where
  "IsAccessTokenExpired now t \<longleftrightarrow> ot_ExpiresAt t < now"

definition NeedsRefresh :: "time \<Rightarrow> OAuth2Token \<Rightarrow> bool" where
  "NeedsRefresh now t \<longleftrightarrow> ot_ExpiresAt t < now + 5 * Minute"

record Variable =
  va_ID :: string
  va_UserID :: string
  va_OrganizationID :: string
  va_WorkflowID :: "string option"
  va_Key :: string
  va_Value :: string
  va_Description :: string
  va_Type :: string
  va_Sensitive :: bool
  va_Scope :: string
  va_CreatedAt :: time
  va_UpdatedAt :: time

definition NewVariable ::
  "string \<Rightarrow> time \<Rightarrow> time \<Rightarrow> string \<Rightarrow> string \<Rightarrow> string \<Rightarrow> string \<Rightarrow> string \<Rightarrow> credential_error + Variable" where
  "NewVariable fresh now1 now2 userID key v varType scope =
     (if userID = '''' then Inl ErrCredentialUser
      else if key = '''' then Inl ErrVariableKey
      else Inr \<lparr> va_ID = fresh, va_UserID = userID, va_OrganizationID = '''', va_WorkflowID = None, va_Key = key, va_Value = v,
        va_Description = '''', va_Type = varType, va_Sensitive = (varType = ''secret''), va_Scope = scope,
        va_CreatedAt = now1, va_UpdatedAt = now2 \<rparr>)"

definition Variable_Update :: "time \<Rightarrow> string \<Rightarrow> Variable \<Rightarrow> Variable" where
  "Variable_Update now v x = x\<lparr> va_Value := v, va_UpdatedAt := now \<rparr>"

definition SetWorkflowScope :: "time \<Rightarrow> string \<Rightarrow> Variable \<Rightarrow> Variable" where
  "SetWorkflowScope now workflowID x = x\<lparr> va_WorkflowID := Some workflowID, va_Scope := ''workflow'', va_UpdatedAt := now \<rparr>"

section \<open>The service\<close>

record CredentialService =
  vs_credentials :: "string \<Rightarrow> Credential option"
  vs_variables :: "string \<Rightarrow> Variable option"
  vs_encryptKey :: string

text \<open>The key is cut or filled up with zeros to 32 bytes.\<close>

definition NewCredentialService :: "string \<Rightarrow> CredentialService" where
  "NewCredentialService encryptionKey =
     \<lparr> vs_credentials = Map.empty, vs_variables = Map.empty,
       vs_encryptKey = take 32 (encryptionKey @ replicate 32 (CHR 0x00)) \<rparr>"

definition CreateCredential ::
  "crypto_lib \<Rightarrow> string \<Rightarrow> time \<Rightarrow> time \<Rightarrow> string + string \<Rightarrow> string \<Rightarrow> string \<Rightarrow> string \<Rightarrow> string \<Rightarrow> string \<Rightarrow> dict option \<Rightarrow>
   CredentialService \<Rightarrow> (credential_error + Credential) \<times> CredentialService" where
  "CreateCredential lib fresh now1 now2 rnd userID orgID name credType provider d s =
     (case NewCredential fresh now1 now2 userID orgID name credType provider of
        Inl e \<Rightarrow> (Inl e, s)
      | Inr cred \<Rightarrow>
        (case encryptData lib (vs_encryptKey s) rnd d of
           Inl e \<Rightarrow> (Inl e, s)
         | Inr encrypted \<Rightarrow>
             let cred' = cred\<lparr> cd_Data := [''encrypted'' \<mapsto> VStr encrypted] \<rparr>
             in (Inr cred', s\<lparr> vs_credentials := (vs_credentials s)(cd_ID cred' \<mapsto> cred') \<rparr>)))"

definition GetCredential :: "string \<Rightarrow> CredentialService \<Rightarrow> credential_error + Credential" where
  "GetCredential i s = (case vs_credentials s i of None \<Rightarrow> Inl ErrCredentialNotFound | Some c \<Rightarrow> Inr c)"

definition GetCredentialData ::
  "crypto_lib \<Rightarrow> time \<Rightarrow> time \<Rightarrow> string \<Rightarrow> CredentialService \<Rightarrow> (credential_error + dict option) \<times> CredentialService" where
  "GetCredentialData lib now1 now2 i s =
     (case GetCredential i s of
        Inl e \<Rightarrow> (Inl e, s)
      | Inr cred \<Rightarrow>
        if Credential_IsExpired now1 cred then (Inl ErrCredentialExpired, s)
        else case cd_Data cred ''encrypted'' of
          Some (VStr encrypted) \<Rightarrow>
            (case decryptData lib (vs_encryptKey s) encrypted of
               Inl e \<Rightarrow> (Inl e, s)
             | Inr d \<Rightarrow> (Inr d, s\<lparr> vs_credentials := (vs_credentials s)(i \<mapsto> Credential_MarkUsed now2 cred) \<rparr>))
        | _ \<Rightarrow> (Inl ErrDataFormat, s))"

definition UpdateCredential ::
  "crypto_lib \<Rightarrow> time \<Rightarrow> string + string \<Rightarrow> string \<Rightarrow> dict option \<Rightarrow> CredentialService \<Rightarrow> credential_error + CredentialService" where
  "UpdateCredential lib now rnd i d s =
     (case vs_credentials s i of
        None \<Rightarrow> Inl ErrCredentialNotFound
      | Some cred \<Rightarrow>
        (case encryptData lib (vs_encryptKey s) rnd d of
           Inl e \<Rightarrow> Inl e
         | Inr encrypted \<Rightarrow> Inr (s\<lparr> vs_credentials := (vs_credentials s)(i \<mapsto>
               Credential_SetData now [''encrypted'' \<mapsto> VStr encrypted] cred) \<rparr>)))"

definition DeleteCredential :: "string \<Rightarrow> CredentialService \<Rightarrow> credential_error + CredentialService" where
  "DeleteCredential i s =
     (case vs_credentials s i of None \<Rightarrow> Inl ErrCredentialNotFound | Some _ \<Rightarrow> Inr (s\<lparr> vs_credentials := (vs_credentials s)(i := None) \<rparr>))"

definition ListCredentials :: "string list \<Rightarrow> string \<Rightarrow> CredentialService \<Rightarrow> Credential list" where
  "ListCredentials order userID s = filter (\<lambda>c. cd_UserID c = userID) (List.map_filter (vs_credentials s) order)"

text \<open>The token is extended by an hour; no provider is asked.\<close>

definition refreshedData :: "crypto_lib \<Rightarrow> time \<Rightarrow> OAuth2Token \<Rightarrow> dict option" where
  "refreshedData lib now t = Some [''access_token'' \<mapsto> VStr (ot_AccessToken t), ''refresh_token'' \<mapsto> VStr (ot_RefreshToken t),
     ''token_type'' \<mapsto> VStr (ot_TokenType t), ''expires_at'' \<mapsto> cr_timeValue lib (now + Hour), ''scope'' \<mapsto> ot_Scope t]"

definition RefreshOAuth2Token ::
  "crypto_lib \<Rightarrow> (nat \<Rightarrow> time) \<Rightarrow> string + string \<Rightarrow> string \<Rightarrow> CredentialService \<Rightarrow> credential_error option \<times> CredentialService" where
  "RefreshOAuth2Token lib clk rnd i s =
     (case GetCredentialData lib (clk 0) (clk 1) i s of
        (Inl e, s1) \<Rightarrow> (Some e, s1)
      | (Inr d, s1) \<Rightarrow>
        (case cr_token lib d of
           None \<Rightarrow> (Some ErrTokenData, s1)
         | Some ((access, refresh, ty), expires, scope) \<Rightarrow>
             let t = \<lparr> ot_AccessToken = access, ot_RefreshToken = refresh, ot_TokenType = ty, ot_ExpiresAt = expires, ot_Scope = scope \<rparr>
             in if \<not> NeedsRefresh (clk 2) t then (None, s1)
                else (case UpdateCredential lib (clk 4) rnd i (refreshedData lib (clk 3) t) s1 of
                        Inl e \<Rightarrow> (Some e, s1)
                      | Inr s2 \<Rightarrow> (None, s2))))"

definition CreateVariable ::
  "crypto_lib \<Rightarrow> string \<Rightarrow> time \<Rightarrow> time \<Rightarrow> string + string \<Rightarrow> string \<Rightarrow> string \<Rightarrow> string \<Rightarrow> string \<Rightarrow> string \<Rightarrow> CredentialService \<Rightarrow>
   (credential_error + Variable) \<times> CredentialService" where
  "CreateVariable lib fresh now1 now2 rnd userID key v varType scope s =
     (case NewVariable fresh now1 now2 userID key v varType scope of
        Inl e \<Rightarrow> (Inl e, s)
      | Inr x \<Rightarrow>
        (case (if va_Sensitive x then encrypt lib (vs_encryptKey s) rnd v else Inr (va_Value x)) of
           Inl e \<Rightarrow> (Inl e, s)
         | Inr stored \<Rightarrow>
             let x' = x\<lparr> va_Value := stored \<rparr> in (Inr x', s\<lparr> vs_variables := (vs_variables s)(va_ID x' \<mapsto> x') \<rparr>)))"

definition Credential_GetVariable :: "string \<Rightarrow> CredentialService \<Rightarrow> credential_error + Variable" where
  "Credential_GetVariable i s = (case vs_variables s i of None \<Rightarrow> Inl ErrVariableNotFound | Some x \<Rightarrow> Inr x)"

definition valueOf :: "crypto_lib \<Rightarrow> string \<Rightarrow> Variable \<Rightarrow> credential_error + string" where
  "valueOf lib key x = (if va_Sensitive x then decrypt lib key (va_Value x) else Inr (va_Value x))"

definition GetVariableValue :: "crypto_lib \<Rightarrow> string \<Rightarrow> CredentialService \<Rightarrow> credential_error + string" where
  "GetVariableValue lib i s =
     (case Credential_GetVariable i s of Inl e \<Rightarrow> Inl e | Inr x \<Rightarrow> valueOf lib (vs_encryptKey s) x)"

definition UpdateVariable :: "crypto_lib \<Rightarrow> time \<Rightarrow> string + string \<Rightarrow> string \<Rightarrow> string \<Rightarrow> CredentialService \<Rightarrow> credential_error + CredentialService" where
  "UpdateVariable lib now rnd i v s =
     (case vs_variables s i of
        None \<Rightarrow> Inl ErrVariableNotFound
      | Some x \<Rightarrow>
        (case (if va_Sensitive x then encrypt lib (vs_encryptKey s) rnd v else Inr v) of
           Inl e \<Rightarrow> Inl e
         | Inr stored \<Rightarrow> Inr (s\<lparr> vs_variables := (vs_variables s)(i \<mapsto> Variable_Update now stored x) \<rparr>)))"

definition DeleteVariable :: "string \<Rightarrow> CredentialService \<Rightarrow> credential_error + CredentialService" where
  "DeleteVariable i s =
     (case vs_variables s i of None \<Rightarrow> Inl ErrVariableNotFound | Some _ \<Rightarrow> Inr (s\<lparr> vs_variables := (vs_variables s)(i := None) \<rparr>))"

definition ListVariables :: "string list \<Rightarrow> string \<Rightarrow> string \<Rightarrow> CredentialService \<Rightarrow> Variable list" where
  "ListVariables order userID scope s =
     filter (\<lambda>x. va_UserID x = userID \<and> va_Scope x = scope) (List.map_filter (vs_variables s) order)"

fun workflowVariables :: "crypto_lib \<Rightarrow> string \<Rightarrow> string \<Rightarrow> Variable list \<Rightarrow> (string \<Rightarrow> string option) \<Rightarrow> credential_error + (string \<Rightarrow> string option)" where
  "workflowVariables lib key workflowID [] result = Inr result"
| "workflowVariables lib key workflowID (x # xs) result =
     (if va_WorkflowID x = Some workflowID then
        (case valueOf lib key x of
           Inl e \<Rightarrow> Inl e
         | Inr v \<Rightarrow> workflowVariables lib key workflowID xs (result(va_Key x \<mapsto> v)))
      else workflowVariables lib key workflowID xs result)"

definition GetWorkflowVariables ::
  "crypto_lib \<Rightarrow> string list \<Rightarrow> string \<Rightarrow> CredentialService \<Rightarrow> credential_error + (string \<Rightarrow> string option)" where
  "GetWorkflowVariables lib order workflowID s =
     workflowVariables lib (vs_encryptKey s) workflowID (List.map_filter (vs_variables s) order) Map.empty"

section \<open>Encryption of single fields\<close>

record EncryptionConfig =
  ec_Key :: string
  ec_KeyType :: string
  ec_Salt :: string
  ec_Iterations :: int

definition DefaultEncryptionConfig :: EncryptionConfig where
  "DefaultEncryptionConfig = \<lparr> ec_Key = '''', ec_KeyType = ''passphrase'', ec_Salt = '''', ec_Iterations = 100000 \<rparr>"

text \<open>An encryptor is its key.\<close>

definition NewEncryptor :: "crypto_lib \<Rightarrow> EncryptionConfig \<Rightarrow> credential_error + string" where
  "NewEncryptor lib config =
     (case (if ec_KeyType config = ''raw'' then
              (case cr_decode lib (ec_Key config) of None \<Rightarrow> Inl ErrInvalidKey | Some k \<Rightarrow> Inr k)
            else if ec_KeyType config = ''passphrase'' then
              Inr (cr_pbkdf2 lib (ec_Key config) (if ec_Salt config = '''' then ''linkflow-default-salt'' else ec_Salt config) (ec_Iterations config))
            else Inl (ErrKeyType (ec_KeyType config))) of
        Inl e \<Rightarrow> Inl e
      | Inr key \<Rightarrow> if length key \<noteq> 32 then Inl ErrKeySize else Inr key)"

definition EncryptString :: "crypto_lib \<Rightarrow> string \<Rightarrow> string + string \<Rightarrow> string \<Rightarrow> credential_error + string" where
  "EncryptString lib key rnd plaintext =
     (case sealText lib key rnd plaintext of Inl e \<Rightarrow> Inl e | Inr c \<Rightarrow> Inr (cr_encode lib c))"

definition DecryptString :: "crypto_lib \<Rightarrow> string \<Rightarrow> string \<Rightarrow> credential_error + string" where
  "DecryptString lib key ciphertext =
     (case cr_decode lib ciphertext of None \<Rightarrow> Inl ErrBase64 | Some c \<Rightarrow> openText lib key c)"

definition EncryptJSON :: "crypto_lib \<Rightarrow> string \<Rightarrow> string + string \<Rightarrow> dict option \<Rightarrow> credential_error + string" where
  "EncryptJSON lib key rnd v = EncryptString lib key rnd (cr_marshal lib v)"

definition DecryptJSON :: "crypto_lib \<Rightarrow> string \<Rightarrow> string \<Rightarrow> credential_error + dict option" where
  "DecryptJSON lib key ciphertext =
     (case DecryptString lib key ciphertext of
        Inl e \<Rightarrow> Inl e
      | Inr p \<Rightarrow> (case cr_unmarshal lib p of None \<Rightarrow> Inl ErrCredentialJSON | Some d \<Rightarrow> Inr d))"

record CredentialData =
  cq_Type :: string
  cq_Data :: dict
  cq_Encrypted :: string
  cq_IsEncrypted :: bool

definition sensitiveFields :: "string list" where
  "sensitiveFields = [''password'', ''secret'', ''api_key'', ''apiKey'', ''access_token'', ''accessToken'', ''refresh_token'',
     ''refreshToken'', ''private_key'', ''privateKey'', ''client_secret'', ''clientSecret'']"

text \<open>The loop over the fields, each with its own nonce; the fields before an error stay encrypted.\<close>

fun encryptFields ::
  "crypto_lib \<Rightarrow> string \<Rightarrow> (string \<Rightarrow> string + string) \<Rightarrow> string list \<Rightarrow> dict \<Rightarrow> credential_error option \<times> dict" where
  "encryptFields lib key rnd [] d = (None, d)"
| "encryptFields lib key rnd (k # ks) d =
     (case d k of
        Some (VStr v) \<Rightarrow>
          if k \<in> set sensitiveFields then
            (case EncryptString lib key (rnd k) v of
               Inl e \<Rightarrow> (Some e, d)
             | Inr x \<Rightarrow> encryptFields lib key rnd ks (d(k \<mapsto> VStr (''encrypted:'' @ x))))
          else encryptFields lib key rnd ks d
      | _ \<Rightarrow> encryptFields lib key rnd ks d)"

definition EncryptCredential ::
  "crypto_lib \<Rightarrow> string \<Rightarrow> (string \<Rightarrow> string + string) \<Rightarrow> string list \<Rightarrow> CredentialData \<Rightarrow> credential_error option \<times> CredentialData" where
  "EncryptCredential lib key rnd order cred =
     (if cq_IsEncrypted cred then (None, cred)
      else case encryptFields lib key rnd order (cq_Data cred) of
        (Some e, d) \<Rightarrow> (Some e, cred\<lparr> cq_Data := d \<rparr>)
      | (None, d) \<Rightarrow> (None, cred\<lparr> cq_Data := d, cq_IsEncrypted := True \<rparr>))"

definition looksEncrypted :: "string \<Rightarrow> bool" where
  "looksEncrypted v \<longleftrightarrow> 10 < length v \<and> take 10 v = ''encrypted:''"

fun decryptFields :: "crypto_lib \<Rightarrow> string \<Rightarrow> string list \<Rightarrow> dict \<Rightarrow> credential_error option \<times> dict" where
  "decryptFields lib key [] d = (None, d)"
| "decryptFields lib key (k # ks) d =
     (case d k of
        Some (VStr v) \<Rightarrow>
          if looksEncrypted v then
            (case DecryptString lib key (drop 10 v) of
               Inl e \<Rightarrow> (Some e, d)
             | Inr p \<Rightarrow> decryptFields lib key ks (d(k \<mapsto> VStr p)))
          else decryptFields lib key ks d
      | _ \<Rightarrow> decryptFields lib key ks d)"

definition DecryptCredential :: "crypto_lib \<Rightarrow> string \<Rightarrow> string list \<Rightarrow> CredentialData \<Rightarrow> credential_error option \<times> CredentialData" where
  "DecryptCredential lib key order cred =
     (if \<not> cq_IsEncrypted cred then (None, cred)
      else case decryptFields lib key order (cq_Data cred) of
        (Some e, d) \<Rightarrow> (Some e, cred\<lparr> cq_Data := d \<rparr>)
      | (None, d) \<Rightarrow> (None, cred\<lparr> cq_Data := d, cq_IsEncrypted := False \<rparr>))"

definition GenerateKey :: "crypto_lib \<Rightarrow> string + string \<Rightarrow> credential_error + string" where
  "GenerateKey lib rnd = (case rnd of Inl e \<Rightarrow> Inl (ErrNonce e) | Inr key \<Rightarrow> Inr (cr_encode lib key))"

definition HashCredential :: "crypto_lib \<Rightarrow> dict option \<Rightarrow> string" where
  "HashCredential lib d = cr_encode lib (cr_sha256 lib (cr_marshal lib d))"

definition maskedValue :: "value \<Rightarrow> value" where
  "maskedValue v =
     (case v of
        VStr s \<Rightarrow> if length s > 4 then VStr (''****'' @ drop (length s - 4) s) else VStr ''****''
      | _ \<Rightarrow> VStr ''****'')"

definition MaskCredential :: "dict \<Rightarrow> dict" where
  "MaskCredential d = (\<lambda>k. if k \<in> set sensitiveFields then map_option maskedValue (d k) else d k)"

section \<open>Encryption and decryption\<close>

text \<open>What the libraries promise: a sealed text opens with its key and nonce, and a decoder undoes its encoder, which gives no
  empty text for a text.\<close>

definition crypto_ok :: "crypto_lib \<Rightarrow> bool" where
  "crypto_ok lib \<longleftrightarrow> (\<forall>k n p. length n = 12 \<longrightarrow> cr_open lib k n (cr_seal lib k n p) = Some p)
     \<and> (\<forall>x. cr_decode lib (cr_encode lib x) = Some x) \<and> (\<forall>x. x \<noteq> '''' \<longrightarrow> cr_encode lib x \<noteq> '''')"

definition nonce_ok :: "string + string \<Rightarrow> bool" where
  "nonce_ok rnd \<longleftrightarrow> (case rnd of Inl _ \<Rightarrow> True | Inr n \<Rightarrow> length n = 12)"

lemma decrypt_encrypt:
  assumes "crypto_ok lib" and "nonce_ok rnd" and "encrypt lib key rnd p = Inr c"
  shows "decrypt lib key c = Inr p" and "c \<noteq> ''''"
proof -
  obtain n where n: "rnd = Inr n" "c = cr_encode lib (n @ cr_seal lib key n p)"
    using assms(3) by (auto simp: encrypt_def sealText_def split: sum.splits)
  have len: "length n = 12"
    using assms(2) n by (simp add: nonce_ok_def)
  then have "n @ cr_seal lib key n p \<noteq> ''''"
    by auto
  then show "c \<noteq> ''''"
    using assms(1) n by (auto simp: crypto_ok_def)
  show "decrypt lib key c = Inr p"
    using assms(1) n len by (simp add: crypto_ok_def decrypt_def openText_def)
qed

lemma decryptData_encryptData:
  assumes "crypto_ok lib" and "nonce_ok rnd" and "encryptData lib key rnd d = Inr c"
  shows "decryptData lib key c = (case cr_unmarshal lib (cr_marshal lib d) of None \<Rightarrow> Inl ErrCredentialJSON | Some x \<Rightarrow> Inr x)"
  using decrypt_encrypt(1)[OF assms(1,2) assms(3)[unfolded encryptData_def]] by (simp add: decryptData_def)

lemma DecryptString_EncryptString:
  assumes "crypto_ok lib" and "nonce_ok rnd" and "EncryptString lib key rnd p = Inr c"
  shows "DecryptString lib key c = Inr p" and "c \<noteq> ''''"
  using decrypt_encrypt[OF assms(1,2), of key p c] assms(3)
  by (simp_all add: encrypt_def decrypt_def EncryptString_def DecryptString_def)

text \<open>The fields after the loops.\<close>

definition encryptedField :: "crypto_lib \<Rightarrow> string \<Rightarrow> (string \<Rightarrow> string + string) \<Rightarrow> string \<Rightarrow> value \<Rightarrow> value \<Rightarrow> bool" where
  "encryptedField lib key rnd k v u \<longleftrightarrow>
     (case v of
        VStr s \<Rightarrow> if k \<in> set sensitiveFields then (\<exists>x. EncryptString lib key (rnd k) s = Inr x \<and> u = VStr (''encrypted:'' @ x)) else u = v
      | _ \<Rightarrow> u = v)"

lemma encryptFields_result:
  assumes "encryptFields lib key rnd ks d = (None, d')" and "distinct ks"
  shows "(k \<notin> set ks \<longrightarrow> d' k = d k) \<and> (k \<in> set ks \<longrightarrow> rel_option (encryptedField lib key rnd k) (d k) (d' k))"
  using assms
proof (induction ks arbitrary: d)
  case (Cons j ks)
  show ?case
  proof (cases "\<exists>v. d j = Some (VStr v) \<and> j \<in> set sensitiveFields")
    case True
    then obtain v where v: "d j = Some (VStr v)" "j \<in> set sensitiveFields"
      by blast
    with Cons.prems(1) obtain x where x: "EncryptString lib key (rnd j) v = Inr x"
      and run: "encryptFields lib key rnd ks (d(j \<mapsto> VStr (''encrypted:'' @ x))) = (None, d')"
      by (cases "EncryptString lib key (rnd j) v") auto
    from Cons.IH[OF run] show ?thesis
      using v x Cons.prems(2) by (cases "k = j") (auto simp: encryptedField_def)
  next
    case False
    then have run: "encryptFields lib key rnd ks d = (None, d')"
      using Cons.prems(1) by (auto split: option.splits "value.splits" if_splits)
    have "rel_option (encryptedField lib key rnd j) (d j) (d j)"
      using False by (cases "d j") (auto simp: encryptedField_def split: "value.split")
    then show ?thesis
      using Cons.IH[OF run] Cons.prems(2) by (cases "k = j") auto
  qed
qed simp

text \<open>A field that was encrypted, or that does not look like one, is decrypted to what it was.\<close>

lemma decryptFields_restores:
  assumes "crypto_ok lib" and "\<forall>k. nonce_ok (rnd k)" and "distinct ks"
    and "\<forall>k \<in> set ks. rel_option (encryptedField lib key rnd k) (d0 k) (d k)"
    and "\<forall>k s. d0 k = Some (VStr s) \<longrightarrow> k \<notin> set sensitiveFields \<longrightarrow> \<not> looksEncrypted s"
  shows "\<exists>d'. decryptFields lib key ks d = (None, d') \<and> (\<forall>k \<in> set ks. d' k = d0 k) \<and> (\<forall>k. k \<notin> set ks \<longrightarrow> d' k = d k)"
  using assms(3,4)
proof (induction ks arbitrary: d)
  case (Cons j ks)
  have j: "rel_option (encryptedField lib key rnd j) (d0 j) (d j)"
    using Cons.prems(2) by simp
  show ?case
  proof (cases "\<exists>s. d0 j = Some (VStr s) \<and> j \<in> set sensitiveFields")
    case True
    then obtain s where s: "d0 j = Some (VStr s)" "j \<in> set sensitiveFields"
      by blast
    with j obtain u where u: "d j = Some u" "encryptedField lib key rnd j (VStr s) u"
      by (cases "d j") auto
    then obtain x where x: "EncryptString lib key (rnd j) s = Inr x" and dj: "d j = Some (VStr (''encrypted:'' @ x))"
      using s(2) by (auto simp: encryptedField_def)
    have dec: "DecryptString lib key x = Inr s" and "x \<noteq> ''''"
      using DecryptString_EncryptString[OF assms(1) _ x] assms(2) by blast+
    then have "looksEncrypted (''encrypted:'' @ x)"
      by (simp add: looksEncrypted_def)
    then have step: "decryptFields lib key (j # ks) d = decryptFields lib key ks (d(j \<mapsto> VStr s))"
      using dj dec by simp
    have "\<forall>k \<in> set ks. rel_option (encryptedField lib key rnd k) (d0 k) ((d(j \<mapsto> VStr s)) k)"
      using Cons.prems by auto
    from Cons.IH[OF _ this] Cons.prems(1) obtain d' where d': "decryptFields lib key ks (d(j \<mapsto> VStr s)) = (None, d')"
      "\<forall>k \<in> set ks. d' k = d0 k" "\<forall>k. k \<notin> set ks \<longrightarrow> d' k = (d(j \<mapsto> VStr s)) k"
      unfolding distinct.simps by blast
    have "d' j = d0 j"
      using d'(3) Cons.prems(1) s(1) by simp
    then show ?thesis
      unfolding step using d' by (intro exI[of _ d']) auto
  next
    case False
    have same: "d j = d0 j"
    proof (cases "d0 j")
      case (Some v)
      then show ?thesis
        using j False by (cases "d j"; cases v) (auto simp: encryptedField_def)
    qed (use j in simp)
    have step: "decryptFields lib key (j # ks) d = decryptFields lib key ks d"
    proof (cases "d0 j")
      case (Some v)
      then show ?thesis
        using same False assms(5) by (cases v) auto
    qed (simp add: same)
    from Cons.IH[of d] Cons.prems obtain d' where d': "decryptFields lib key ks d = (None, d')"
      "\<forall>k \<in> set ks. d' k = d0 k" "\<forall>k. k \<notin> set ks \<longrightarrow> d' k = d k"
      by auto
    have "d' j = d0 j"
      using d'(3) Cons.prems(1) same by simp
    then show ?thesis
      unfolding step using d' by (intro exI[of _ d']) auto
  qed
qed simp

text \<open>Decrypting a credential that was encrypted field by field gives it back, whatever the orders in which the loops visit the fields, if no
  text of a field that stays in the clear looks like an encrypted one; the texts of the sensitive fields are arbitrary.\<close>
theorem credential_fields_roundtrip:
  assumes "crypto_ok lib" and "\<forall>k. nonce_ok (rnd k)" and "\<not> cq_IsEncrypted cred"
    and "distinct order" and "set order = dom (cq_Data cred)" and "distinct order'" and "set order' = dom (cq_Data cred)"
    and "\<forall>k s. cq_Data cred k = Some (VStr s) \<longrightarrow> k \<notin> set sensitiveFields \<longrightarrow> \<not> looksEncrypted s"
    and "EncryptCredential lib key rnd order cred = (None, cred')"
  shows "cq_IsEncrypted cred' \<and> DecryptCredential lib key order' cred' = (None, cred)"
proof -
  obtain d where d: "encryptFields lib key rnd order (cq_Data cred) = (None, d)" "cred' = cred\<lparr> cq_Data := d, cq_IsEncrypted := True \<rparr>"
    using assms(3,9) by (auto simp: EncryptCredential_def split: prod.splits option.splits)
  note fields = encryptFields_result[OF d(1) assms(4)]
  have "\<forall>k \<in> set order'. rel_option (encryptedField lib key rnd k) (cq_Data cred k) (d k)"
    using fields assms(5,7) by simp
  from decryptFields_restores[OF assms(1,2,6) this assms(8)] obtain d'
    where d': "decryptFields lib key order' d = (None, d')" "\<forall>k \<in> set order'. d' k = cq_Data cred k" "\<forall>k. k \<notin> set order' \<longrightarrow> d' k = d k"
    by blast
  have "d' k = cq_Data cred k" for k
    using d'(2,3) fields assms(5,7) by (cases "k \<in> set order'") auto
  then have "d' = cq_Data cred"
    by auto
  then show ?thesis
    using d' d(2) assms(3) by (simp add: DecryptCredential_def)
qed

text \<open>A field in the clear that looks like an encrypted one makes the decryption fail, or changes.\<close>

lemma lookalike_not_restored:
  assumes "cq_Data cred k = Some (VStr v)" and "looksEncrypted v" and "k \<notin> set sensitiveFields" and "\<not> cq_IsEncrypted cred"
    and "DecryptString lib key (drop 10 v) = Inl e"
  shows "fst (DecryptCredential lib key [k] (snd (EncryptCredential lib key rnd [k] cred))) = Some e"
  using assms by (simp add: EncryptCredential_def DecryptCredential_def)

section \<open>Masks\<close>

text \<open>A mask shows at most the last four characters of a text: of a text of five characters all but one.\<close>

lemma mask_shows_suffix:
  assumes "d k = Some (VStr s)" and "k \<in> set sensitiveFields"
  shows "MaskCredential d k = Some (VStr (''****'' @ (if length s > 4 then drop (length s - 4) s else '''')))"
  using assms by (simp add: MaskCredential_def maskedValue_def)

lemma mask_keeps_fields: "dom (MaskCredential d) = dom d"
  by (auto simp: MaskCredential_def split: if_splits)

section \<open>Runs of the service\<close>

datatype ccommand =
    CcCreate string time time "string + string" string string string string string "dict option"
  | CcRead time time string
  | CcUpdate time "string + string" string "dict option"
  | CcDelete string
  | CcRefresh "nat \<Rightarrow> time" "string + string" string
  | CcExpire time time string
  | CcCreateVariable string time time "string + string" string string string string string
  | CcUpdateVariable time "string + string" string string
  | CcDeleteVariable string

text \<open>A call that only answers leaves the state as it is; \<open>CcExpire\<close> is a client that sets the expiry of a credential it was given.\<close>

fun cstep :: "crypto_lib \<Rightarrow> ccommand \<Rightarrow> CredentialService \<Rightarrow> credential_error + CredentialService" where
  "cstep lib (CcCreate fresh t1 t2 rnd u og n ty p d) s = Inr (snd (CreateCredential lib fresh t1 t2 rnd u og n ty p d s))"
| "cstep lib (CcRead t1 t2 i) s = Inr (snd (GetCredentialData lib t1 t2 i s))"
| "cstep lib (CcUpdate now rnd i d) s = UpdateCredential lib now rnd i d s"
| "cstep lib (CcDelete i) s = DeleteCredential i s"
| "cstep lib (CcRefresh clk rnd i) s = Inr (snd (RefreshOAuth2Token lib clk rnd i s))"
| "cstep lib (CcExpire now t i) s =
     (case vs_credentials s i of
        None \<Rightarrow> Inl ErrCredentialNotFound
      | Some c \<Rightarrow> Inr (s\<lparr> vs_credentials := (vs_credentials s)(i \<mapsto> SetExpiration now t c) \<rparr>))"
| "cstep lib (CcCreateVariable fresh t1 t2 rnd u k v ty sc) s = Inr (snd (CreateVariable lib fresh t1 t2 rnd u k v ty sc s))"
| "cstep lib (CcUpdateVariable now rnd i v) s = UpdateVariable lib now rnd i v s"
| "cstep lib (CcDeleteVariable i) s = DeleteVariable i s"

definition nonceOf :: "ccommand \<Rightarrow> string + string" where
  "nonceOf c = (case c of CcCreate _ _ _ rnd _ _ _ _ _ _ \<Rightarrow> rnd | CcUpdate _ rnd _ _ \<Rightarrow> rnd | CcRefresh _ rnd _ \<Rightarrow> rnd
     | CcCreateVariable _ _ _ rnd _ _ _ _ _ \<Rightarrow> rnd | CcUpdateVariable _ rnd _ _ \<Rightarrow> rnd | _ \<Rightarrow> Inl '''')"

definition sealed :: "crypto_lib \<Rightarrow> string \<Rightarrow> string \<Rightarrow> bool" where
  "sealed lib key x \<longleftrightarrow> (\<exists>p. decrypt lib key x = Inr p)"

text \<open>Everything that is stored as encrypted opens, under the key of the service, and no variable belongs to a workflow.\<close>

definition service_inv :: "crypto_lib \<Rightarrow> string \<Rightarrow> CredentialService \<Rightarrow> bool" where
  "service_inv lib key s \<longleftrightarrow> vs_encryptKey s = key
     \<and> (\<forall>i c. vs_credentials s i = Some c \<longrightarrow> (\<exists>x. cd_Data c ''encrypted'' = Some (VStr x) \<and> sealed lib key x))
     \<and> (\<forall>i x. vs_variables s i = Some x \<longrightarrow> (va_Sensitive x \<longrightarrow> sealed lib key (va_Value x)) \<and> va_WorkflowID x = None)"

lemma encrypt_sealed: "crypto_ok lib \<Longrightarrow> nonce_ok rnd \<Longrightarrow> encrypt lib key rnd p = Inr x \<Longrightarrow> sealed lib key x"
  unfolding sealed_def using decrypt_encrypt(1) by blast

lemma store_credential:
  "service_inv lib key s \<Longrightarrow> cd_Data c ''encrypted'' = Some (VStr x) \<Longrightarrow> sealed lib key x \<Longrightarrow>
   service_inv lib key (s\<lparr> vs_credentials := (vs_credentials s)(i \<mapsto> c) \<rparr>)"
  by (auto simp: service_inv_def)

lemma store_variable:
  "service_inv lib key s \<Longrightarrow> va_Sensitive x \<longrightarrow> sealed lib key (va_Value x) \<Longrightarrow> va_WorkflowID x = None \<Longrightarrow>
   service_inv lib key (s\<lparr> vs_variables := (vs_variables s)(i \<mapsto> x) \<rparr>)"
  by (auto simp: service_inv_def)

lemma drop_credential: "service_inv lib key s \<Longrightarrow> service_inv lib key (s\<lparr> vs_credentials := (vs_credentials s)(i := None) \<rparr>)"
  by (auto simp: service_inv_def)

lemma drop_variable: "service_inv lib key s \<Longrightarrow> service_inv lib key (s\<lparr> vs_variables := (vs_variables s)(i := None) \<rparr>)"
  by (auto simp: service_inv_def)

lemma stored_sealed:
  "service_inv lib key s \<Longrightarrow> vs_credentials s i = Some c \<Longrightarrow> \<exists>x. cd_Data c ''encrypted'' = Some (VStr x) \<and> sealed lib key x"
  by (auto simp: service_inv_def)

lemma read_inv: "service_inv lib key s \<Longrightarrow> service_inv lib key (snd (GetCredentialData lib t1 t2 i s))"
proof (cases "vs_credentials s i")
  case (Some c)
  assume inv: "service_inv lib key s"
  then obtain x where x: "cd_Data c ''encrypted'' = Some (VStr x)" "sealed lib key x"
    using stored_sealed[OF inv Some] by blast
  then have "service_inv lib key (s\<lparr> vs_credentials := (vs_credentials s)(i \<mapsto> Credential_MarkUsed t2 c) \<rparr>)"
    by (intro store_credential[OF inv]) (simp_all add: Credential_MarkUsed_def)
  then show ?thesis
    using inv Some x by (simp add: GetCredentialData_def GetCredential_def split: sum.split)
qed (simp add: GetCredentialData_def GetCredential_def)

lemma update_credential_inv:
  assumes "crypto_ok lib" and "nonce_ok rnd" and "service_inv lib key s" and "UpdateCredential lib now rnd i d s = Inr s'"
  shows "service_inv lib key s'"
proof -
  obtain c x where x: "encryptData lib key rnd d = Inr x"
    and s': "s' = s\<lparr> vs_credentials := (vs_credentials s)(i \<mapsto> Credential_SetData now [''encrypted'' \<mapsto> VStr x] c) \<rparr>"
    using assms(3,4) by (auto simp: UpdateCredential_def service_inv_def split: option.splits sum.splits)
  show ?thesis
    unfolding s' by (rule store_credential[OF assms(3)])
      (use encrypt_sealed[OF assms(1,2)] x in \<open>simp_all add: Credential_SetData_def encryptData_def\<close>)
qed

lemma refresh_inv:
  assumes "crypto_ok lib" and "nonce_ok rnd" and "service_inv lib key s"
  shows "service_inv lib key (snd (RefreshOAuth2Token lib clk rnd i s))"
proof (cases "GetCredentialData lib (clk 0) (clk 1) i s")
  case (Pair r s1)
  have "service_inv lib key s1"
    using read_inv[OF assms(3), of "clk 0" "clk 1" i] Pair by simp
  then show ?thesis
    using Pair update_credential_inv[OF assms(1,2)]
    by (auto simp: RefreshOAuth2Token_def Let_def split: sum.split option.split prod.split)
qed

lemma create_credential_inv:
  assumes "crypto_ok lib" and "nonce_ok rnd" and "service_inv lib key s"
  shows "service_inv lib key (snd (CreateCredential lib fresh t1 t2 rnd u og n ty p d s))"
  using assms store_credential[OF assms(3)] encrypt_sealed[OF assms(1,2)]
  by (auto simp: CreateCredential_def encryptData_def service_inv_def Let_def split: sum.split)

lemma create_variable_inv:
  assumes "crypto_ok lib" and "nonce_ok rnd" and "service_inv lib key s"
  shows "service_inv lib key (snd (CreateVariable lib fresh t1 t2 rnd u k v ty sc s))"
  using assms encrypt_sealed[OF assms(1,2)]
  by (auto simp: CreateVariable_def NewVariable_def service_inv_def Let_def split: sum.split)

lemma cstep_inv:
  assumes "crypto_ok lib"
    and inv: "service_inv lib key s" and nonce: "nonce_ok (nonceOf c)" and step: "cstep lib c s = Inr s'"
  shows "service_inv lib key s'"
proof (cases c)
  case (CcCreate fresh t1 t2 rnd u og n ty p d)
  then show ?thesis
    using create_credential_inv[OF assms(1) _ inv] nonce step by (auto simp: nonceOf_def)
next
  case (CcRead t1 t2 i)
  then show ?thesis
    using read_inv[OF inv] step by auto
next
  case (CcUpdate now rnd i d)
  then show ?thesis
    using update_credential_inv[OF assms(1) _ inv] nonce step by (auto simp: nonceOf_def)
next
  case (CcDelete i)
  then show ?thesis
    using drop_credential[OF inv] step by (auto simp: DeleteCredential_def split: option.splits)
next
  case (CcRefresh clk rnd i)
  then show ?thesis
    using refresh_inv[OF assms(1) _ inv] nonce step by (auto simp: nonceOf_def)
next
  case (CcExpire now t i)
  then obtain c' where c': "vs_credentials s i = Some c'" and s': "s' = s\<lparr> vs_credentials := (vs_credentials s)(i \<mapsto> SetExpiration now t c') \<rparr>"
    using step by (auto split: option.splits)
  then show ?thesis
    using stored_sealed[OF inv c'] store_credential[OF inv] by (auto simp: SetExpiration_def)
next
  case (CcCreateVariable fresh t1 t2 rnd u k v ty sc)
  then show ?thesis
    using create_variable_inv[OF assms(1) _ inv] nonce step by (auto simp: nonceOf_def)
next
  case (CcDeleteVariable i)
  then show ?thesis
    using drop_variable[OF inv] step by (auto simp: DeleteVariable_def split: option.splits)
next
  case (CcUpdateVariable now rnd i v)
  show ?thesis
    using inv step CcUpdateVariable encrypt_sealed[OF assms(1), of rnd] nonce
    by (auto simp: UpdateVariable_def Variable_Update_def nonceOf_def service_inv_def split: option.splits sum.splits if_splits)
qed

interpretation credentials: aggregate "cstep lib" "\<lambda>s. crypto_ok lib \<and> service_inv lib key s" "\<lambda>_ c. nonce_ok (nonceOf c)" for lib key
  by unfold_locales (use cstep_inv in blast)

lemma workflowVariables_none:
  "\<forall>x \<in> set xs. va_WorkflowID x = None \<Longrightarrow> workflowVariables lib key w xs result = Inr result"
  by (induction xs arbitrary: result) auto

text \<open>
  Whatever is called, every credential that has not expired can be read and every variable too, up to an error of the reader of
  JSON; and no workflow has a variable, because none is ever given to one.
\<close>

theorem stored_secrets_readable:
  assumes "crypto_ok lib" and "\<forall>c \<in> set cs. nonce_ok (nonceOf c)" and "s = attempts (cstep lib) (NewCredentialService key) cs"
  shows "\<forall>i c. vs_credentials s i = Some c \<longrightarrow> \<not> Credential_IsExpired t1 c \<longrightarrow>
      fst (GetCredentialData lib t1 t2 i s) = Inl ErrCredentialJSON \<or> (\<exists>d. fst (GetCredentialData lib t1 t2 i s) = Inr d)"
    and "\<forall>i x. vs_variables s i = Some x \<longrightarrow> (\<exists>v. GetVariableValue lib i s = Inr v)"
    and "GetWorkflowVariables lib order workflowID s = Inr Map.empty"
proof -
  have inv: "service_inv lib (vs_encryptKey (NewCredentialService key)) s"
    unfolding assms(3)
    by (rule credentials.run_inv[THEN conjunct2, OF _ admissible_all[OF assms(2)]])
      (simp add: assms(1) service_inv_def NewCredentialService_def)
  then have key: "vs_encryptKey s = vs_encryptKey (NewCredentialService key)"
    by (simp add: service_inv_def)
  show "\<forall>i c. vs_credentials s i = Some c \<longrightarrow> \<not> Credential_IsExpired t1 c \<longrightarrow>
      fst (GetCredentialData lib t1 t2 i s) = Inl ErrCredentialJSON \<or> (\<exists>d. fst (GetCredentialData lib t1 t2 i s) = Inr d)"
  proof (intro allI impI)
    fix i c
    assume c: "vs_credentials s i = Some c" "\<not> Credential_IsExpired t1 c"
    obtain x p where "cd_Data c ''encrypted'' = Some (VStr x)" "decrypt lib (vs_encryptKey s) x = Inr p"
      using stored_sealed[OF inv c(1)] by (auto simp: sealed_def key)
    then show "fst (GetCredentialData lib t1 t2 i s) = Inl ErrCredentialJSON \<or> (\<exists>d. fst (GetCredentialData lib t1 t2 i s) = Inr d)"
      using c by (cases "cr_unmarshal lib p") (simp_all add: GetCredentialData_def GetCredential_def decryptData_def)
  qed
  show "\<forall>i x. vs_variables s i = Some x \<longrightarrow> (\<exists>v. GetVariableValue lib i s = Inr v)"
    using inv by (auto simp: GetVariableValue_def Credential_GetVariable_def valueOf_def service_inv_def sealed_def)
  have "\<forall>x \<in> set (List.map_filter (vs_variables s) order). va_WorkflowID x = None"
    using inv by (auto simp: service_inv_def List.map_filter_def)
  then show "GetWorkflowVariables lib order workflowID s = Inr Map.empty"
    unfolding GetWorkflowVariables_def by (rule workflowVariables_none)
qed

text \<open>What was stored is what is read, through the text of its JSON.\<close>

theorem credential_readback:
  assumes "crypto_ok lib" and "nonce_ok rnd"
    and "CreateCredential lib fresh now1 now2 rnd userID orgID name credType provider d s = (Inr c, s')"
  shows "fst (GetCredentialData lib t1 t2 (cd_ID c) s')
      = (case cr_unmarshal lib (cr_marshal lib d) of None \<Rightarrow> Inl ErrCredentialJSON | Some x \<Rightarrow> Inr x)"
proof -
  obtain c0 x where new: "NewCredential fresh now1 now2 userID orgID name credType provider = Inr c0"
    and x: "encryptData lib (vs_encryptKey s) rnd d = Inr x"
    and c: "c = c0\<lparr> cd_Data := [''encrypted'' \<mapsto> VStr x] \<rparr>" and s': "s' = s\<lparr> vs_credentials := (vs_credentials s)(cd_ID c \<mapsto> c) \<rparr>"
    using assms(3) by (auto simp: CreateCredential_def Let_def split: sum.splits)
  have "cd_ExpiresAt c = None"
    using new c by (auto simp: NewCredential_def split: if_splits)
  then show ?thesis
    using decryptData_encryptData[OF assms(1,2) x] c s'
    by (simp add: GetCredentialData_def GetCredential_def Credential_IsExpired_def split: option.split)
qed

section \<open>Examples\<close>

definition plain_lib :: crypto_lib where
  "plain_lib = \<lparr> cr_seal = (\<lambda>_ _ p. p), cr_open = (\<lambda>_ _ p. Some p), cr_encode = id, cr_decode = Some, cr_marshal = (\<lambda>_. ''{}''),
     cr_unmarshal = (\<lambda>_. Some (Some Map.empty)), cr_pbkdf2 = (\<lambda>_ _ _. replicate 32 (CHR ''k'')), cr_sha256 = id,
     cr_token = (\<lambda>_. None), cr_timeValue = VInt \<rparr>"

lemma plain_lib_ok: "crypto_ok plain_lib"
  by (simp add: crypto_ok_def plain_lib_def)

definition basic_login :: CredentialData where
  "basic_login = \<lparr> cq_Type = ''basic_auth'', cq_Data = [''username'' \<mapsto> VStr ''ann'', ''password'' \<mapsto> VStr ''encrypted:pw''],
     cq_Encrypted = '''', cq_IsEncrypted = False \<rparr>"

lemma credential_fields_roundtrip_witness:
  "\<exists>cred. EncryptCredential plain_lib ''k'' (\<lambda>_. Inr (replicate 12 (CHR ''n''))) [''username'', ''password''] basic_login = (None, cred)
     \<and> DecryptCredential plain_lib ''k'' [''password'', ''username''] cred = (None, basic_login)"
proof -
  obtain cred where run: "EncryptCredential plain_lib ''k'' (\<lambda>_. Inr (replicate 12 (CHR ''n''))) [''username'', ''password''] basic_login = (None, cred)"
    by (simp add: EncryptCredential_def basic_login_def sensitiveFields_def EncryptString_def sealText_def)
  have "DecryptCredential plain_lib ''k'' [''password'', ''username''] cred = (None, basic_login)"
    by (rule credential_fields_roundtrip[THEN conjunct2, OF plain_lib_ok _ _ _ _ _ _ _ run])
      (auto simp: nonce_ok_def basic_login_def sensitiveFields_def looksEncrypted_def split: if_splits)
  with run show ?thesis
    by blast
qed

lemma mask_example:
  "MaskCredential [''password'' \<mapsto> VStr ''s3cret!'', ''username'' \<mapsto> VStr ''ann''] ''password'' = Some (VStr ''****ret!'')"
  by (simp add: MaskCredential_def sensitiveFields_def maskedValue_def)

end
