(* ===== verification/Migrations.thy ===== *)
theory Migrations
  imports Expression "HOL-Library.Multiset"
begin

text \<open>
  The migration tool: the model \<open>internal/migration/domain/model/migration.go\<close>, the table of its history
  \<open>internal/migration/adapters/repository/postgres/migration_repository.go\<close> and the service
  \<open>internal/migration/app/service/migration_service.go\<close>. The rest of the database is a value of any type that the text of a
  migration changes through \<open>ml_exec\<close>, an argument, as are the listing of the directory, the hash, the format of a time and
  the sorting routine of Go, which may order equal keys in any way: \<open>ml_sort\<close> gives for a list of keys the order of its positions.
  \<open>mv_down k\<close> says that the query at place \<open>k\<close> of a call fails, \<open>mv_clk k\<close> is the clock there. A file is a name with its text, or
  None where it cannot be read.
\<close>

section \<open>The model\<close>

datatype Direction = DirectionUp | DirectionDown

datatype MigrationStatus =
    MigrationPending
  | MigrationRunning
  | MigrationApplied
  | MigrationFailed
  | MigrationRolledBack

record Migration =
  mi_ID :: string
  mi_Version :: int
  mi_Name :: string
  mi_Content :: string
  mi_Direction :: Direction
  mi_Status :: MigrationStatus
  mi_ExecutedAt :: "time option"
  mi_DurationMs :: int
  mi_Checksum :: string
  mi_CreatedAt :: time

record MigrationHistory =
  mh_ID :: string
  mh_Version :: int
  mh_Name :: string
  mh_Direction :: Direction
  mh_Status :: MigrationStatus
  mh_ExecutedAt :: time
  mh_DurationMs :: int
  mh_Error :: string

record MigrationResult =
  mr_Version :: int
  mr_Name :: string
  mr_Direction :: Direction
  mr_Status :: MigrationStatus
  mr_DurationMs :: int
  mr_Error :: string

text \<open>The zero time of Go, the first of January of the year 1.\<close>

definition zeroTime :: time where
  "zeroTime = - 62135596800 * Second"

definition NewMigration :: "time \<Rightarrow> int \<Rightarrow> string \<Rightarrow> string \<Rightarrow> Direction \<Rightarrow> Migration" where
  "NewMigration now version name content direction =
     \<lparr> mi_ID = '''', mi_Version = version, mi_Name = name, mi_Content = content, mi_Direction = direction,
       mi_Status = MigrationPending, mi_ExecutedAt = None, mi_DurationMs = 0, mi_Checksum = '''', mi_CreatedAt = now \<rparr>"

definition MarkApplied :: "time \<Rightarrow> int \<Rightarrow> Migration \<Rightarrow> Migration" where
  "MarkApplied now durationMs m = m\<lparr> mi_ExecutedAt := Some now, mi_DurationMs := durationMs, mi_Status := MigrationApplied \<rparr>"

definition MarkFailed :: "Migration \<Rightarrow> Migration" where
  "MarkFailed m = m\<lparr> mi_Status := MigrationFailed \<rparr>"

definition MarkRolledBack :: "Migration \<Rightarrow> Migration" where
  "MarkRolledBack m = m\<lparr> mi_Status := MigrationRolledBack \<rparr>"

section \<open>The libraries\<close>

record DirEntry =
  de_Name :: string
  de_IsDir :: bool
  de_Text :: "string option"

record 'd MigrationLib =
  ml_exec :: "string \<Rightarrow> 'd \<Rightarrow> string option \<times> 'd"
  ml_dir :: "DirEntry list option"
  ml_seeds :: "string + DirEntry list option"
  ml_md5 :: "string \<Rightarrow> string"
  ml_format :: "time \<Rightarrow> string"
  ml_sort :: "int list \<Rightarrow> nat list"

record MigrationEnv =
  mv_down :: "nat \<Rightarrow> bool"
  mv_clk :: "nat \<Rightarrow> time"

text \<open>\<open>sort.Slice\<close> by a key: which permutation it makes depends on the outcomes of the comparisons only.\<close>

definition sortSlice :: "(int list \<Rightarrow> nat list) \<Rightarrow> ('a \<Rightarrow> int) \<Rightarrow> 'a list \<Rightarrow> 'a list" where
  "sortSlice p key xs = map (\<lambda>i. xs ! i) (p (map key xs))"

definition sort_ok :: "(int list \<Rightarrow> nat list) \<Rightarrow> bool" where
  "sort_ok p \<longleftrightarrow> (\<forall>ks. mset (p ks) = mset [0..<length ks] \<and> sorted (map (\<lambda>i. ks ! i) (p ks)))"

section \<open>The table of the history\<close>

text \<open>The rows of \<open>schema_migrations\<close>, None before the table is created, and the rest of the database.\<close>

record 'd MigrationDB =
  md_rows :: "MigrationHistory list option"
  md_world :: 'd

datatype migration_error =
    ErrQuery
  | ErrReadDir
  | ErrDownNotFound
  | ErrMigrationNotFound
  | ErrExecute string
  | ErrSeedFile string
  | ErrSeed string string

definition EnsureMigrationTable :: "bool \<Rightarrow> 'd MigrationDB \<Rightarrow> (migration_error + unit) \<times> 'd MigrationDB" where
  "EnsureMigrationTable down db =
     (if down then (Inl ErrQuery, db)
      else (Inr (), db\<lparr> md_rows := (case md_rows db of None \<Rightarrow> Some [] | Some rows \<Rightarrow> Some rows) \<rparr>))"

text \<open>What a row becomes when another one arrives for its version.\<close>

definition overwrite :: "MigrationHistory \<Rightarrow> MigrationHistory \<Rightarrow> MigrationHistory" where
  "overwrite h r = (if mh_Version r = mh_Version h
     then r\<lparr> mh_Status := mh_Status h, mh_ExecutedAt := mh_ExecutedAt h, mh_DurationMs := mh_DurationMs h, mh_Error := mh_Error h \<rparr>
     else r)"

definition upsertHistory :: "MigrationHistory \<Rightarrow> MigrationHistory list \<Rightarrow> migration_error + MigrationHistory list" where
  "upsertHistory h rows =
     (if \<exists>r \<in> set rows. mh_Version r = mh_Version h then Inr (map (overwrite h) rows)
      else if \<exists>r \<in> set rows. mh_ID r = mh_ID h then Inl ErrQuery
      else Inr (rows @ [h]))"

definition CreateHistory :: "bool \<Rightarrow> MigrationHistory \<Rightarrow> 'd MigrationDB \<Rightarrow> (migration_error + unit) \<times> 'd MigrationDB" where
  "CreateHistory down h db =
     (case md_rows db of
        None \<Rightarrow> (Inl ErrQuery, db)
      | Some rows \<Rightarrow>
          if down then (Inl ErrQuery, db)
          else (case upsertHistory h rows of
              Inl e \<Rightarrow> (Inl e, db)
            | Inr rows' \<Rightarrow> (Inr (), db\<lparr> md_rows := Some rows' \<rparr>)))"

definition isApplied :: "MigrationHistory \<Rightarrow> bool" where
  "isApplied h \<longleftrightarrow> mh_Status h = MigrationApplied \<and> mh_Direction h = DirectionUp"

definition GetCurrentVersion :: "bool \<Rightarrow> 'd MigrationDB \<Rightarrow> migration_error + int" where
  "GetCurrentVersion down db =
     (case md_rows db of
        None \<Rightarrow> Inl ErrQuery
      | Some rows \<Rightarrow>
          if down then Inl ErrQuery
          else (let vs = map mh_Version (filter isApplied rows) in Inr (if vs = [] then 0 else Max (set vs))))"

definition GetAppliedMigrations :: "bool \<Rightarrow> 'd MigrationDB \<Rightarrow> migration_error + MigrationHistory list" where
  "GetAppliedMigrations down db =
     (case md_rows db of
        None \<Rightarrow> Inl ErrQuery
      | Some rows \<Rightarrow> if down then Inl ErrQuery else Inr (sort_key mh_Version (filter isApplied rows)))"

definition MarkMigrationFailed :: "bool \<Rightarrow> time \<Rightarrow> int \<Rightarrow> string \<Rightarrow> 'd MigrationDB \<Rightarrow> (migration_error + unit) \<times> 'd MigrationDB" where
  "MarkMigrationFailed down now version msg db =
     (case md_rows db of
        None \<Rightarrow> (Inl ErrQuery, db)
      | Some rows \<Rightarrow>
          if down then (Inl ErrQuery, db)
          else (Inr (), db\<lparr> md_rows := Some (map (\<lambda>r. if mh_Version r = version
            then r\<lparr> mh_Status := MigrationFailed, mh_Error := msg, mh_ExecutedAt := now \<rparr> else r) rows) \<rparr>))"

definition removeRows :: "bool \<Rightarrow> (MigrationHistory \<Rightarrow> bool) \<Rightarrow> 'd MigrationDB \<Rightarrow> (migration_error + unit) \<times> 'd MigrationDB" where
  "removeRows down P db =
     (case md_rows db of
        None \<Rightarrow> (Inl ErrQuery, db)
      | Some rows \<Rightarrow> if down then (Inl ErrQuery, db) else (Inr (), db\<lparr> md_rows := Some (filter (\<lambda>r. \<not> P r) rows) \<rparr>))"

definition DeleteMigration :: "bool \<Rightarrow> int \<Rightarrow> 'd MigrationDB \<Rightarrow> (migration_error + unit) \<times> 'd MigrationDB" where
  "DeleteMigration down version = removeRows down (\<lambda>r. mh_Version r = version)"

definition ClearDirty :: "bool \<Rightarrow> int \<Rightarrow> 'd MigrationDB \<Rightarrow> (migration_error + unit) \<times> 'd MigrationDB" where
  "ClearDirty down version = removeRows down (\<lambda>r. mh_Version r = version \<and> mh_Status r = MigrationFailed)"

definition IsDirty :: "bool \<Rightarrow> 'd MigrationDB \<Rightarrow> migration_error + (bool \<times> int)" where
  "IsDirty down db =
     (case md_rows db of
        None \<Rightarrow> Inl ErrQuery
      | Some rows \<Rightarrow>
          if down then Inl ErrQuery
          else (let vs = map mh_Version (filter (\<lambda>r. mh_Status r = MigrationFailed) rows)
            in Inr (if vs = [] then (False, 0) else (True, Max (set vs)))))"

definition Migration_Execute :: "'d MigrationLib \<Rightarrow> string \<Rightarrow> 'd MigrationDB \<Rightarrow> string option \<times> 'd MigrationDB" where
  "Migration_Execute lib sql db = (case ml_exec lib sql (md_world db) of (e, w) \<Rightarrow> (e, db\<lparr> md_world := w \<rparr>))"

section \<open>The files\<close>

text \<open>The migration that a file holds, where its name has the form of one and its text can be read.\<close>

definition parseFile :: "'d MigrationLib \<Rightarrow> DirEntry \<Rightarrow> Migration option" where
  "parseFile lib f =
     (let name = de_Name f; parts = SplitChar (CHR ''_'') name
      in if de_IsDir f \<or> \<not> HasSuffix name ''.sql'' \<or> length parts < 2 then None
         else (case Atoi (hd parts) of
             None \<Rightarrow> None
           | Some version \<Rightarrow>
               (case de_Text f of
                  None \<Rightarrow> None
                | Some content \<Rightarrow>
                    let direction = (if Contains name ''.down.'' then DirectionDown else DirectionUp)
                    in Some \<lparr> mi_ID = ''mig-'' @ showInt version @ ''-'' @ (if direction = DirectionDown then ''down'' else ''up''),
                         mi_Version = version,
                         mi_Name = TrimSuffix (TrimSuffix (TrimPrefix name (hd parts @ ''_'')) ''.up.sql'') ''.down.sql'',
                         mi_Content = content, mi_Direction = direction, mi_Status = MigrationPending, mi_ExecutedAt = None,
                         mi_DurationMs = 0, mi_Checksum = ml_md5 lib content, mi_CreatedAt = zeroTime \<rparr>)))"

definition loadMigrations :: "'d MigrationLib \<Rightarrow> migration_error + Migration list" where
  "loadMigrations lib =
     (case ml_dir lib of
        None \<Rightarrow> Inl ErrReadDir
      | Some files \<Rightarrow> Inr (sortSlice (ml_sort lib) mi_Version (List.map_filter (parseFile lib) files)))"

definition findDownMigration :: "'d MigrationLib \<Rightarrow> int \<Rightarrow> migration_error + Migration" where
  "findDownMigration lib version =
     (case loadMigrations lib of
        Inl e \<Rightarrow> Inl e
      | Inr ms \<Rightarrow>
          (case find (\<lambda>m. mi_Version m = version \<and> mi_Direction m = DirectionDown) ms of
             None \<Rightarrow> Inl ErrDownNotFound
           | Some m \<Rightarrow> Inr m))"

section \<open>The status\<close>

record MigrationView =
  vw_Version :: int
  vw_Name :: string
  vw_Direction :: Direction
  vw_Status :: MigrationStatus
  vw_ExecutedAt :: "time option"
  vw_DurationMs :: int

record MigrationReport =
  ri_CurrentVersion :: int
  ri_Pending :: int
  ri_Applied :: int
  ri_LastApplied :: string
  ri_Migrations :: "MigrationView list"

definition viewOf :: "(int \<rightharpoonup> MigrationHistory) \<Rightarrow> Migration \<Rightarrow> MigrationView" where
  "viewOf appliedSet m =
     (case appliedSet (mi_Version m) of
        Some h \<Rightarrow> \<lparr> vw_Version = mi_Version m, vw_Name = mi_Name m, vw_Direction = mi_Direction m, vw_Status = mh_Status h,
          vw_ExecutedAt = Some (mh_ExecutedAt h), vw_DurationMs = mh_DurationMs h \<rparr>
      | None \<Rightarrow> \<lparr> vw_Version = mi_Version m, vw_Name = mi_Name m, vw_Direction = mi_Direction m, vw_Status = MigrationPending,
          vw_ExecutedAt = None, vw_DurationMs = 0 \<rparr>)"

fun statusLoop :: "'d MigrationLib \<Rightarrow> (int \<rightharpoonup> MigrationHistory) \<Rightarrow> Migration list \<Rightarrow> int \<times> string \<times> MigrationView list
    \<Rightarrow> int \<times> string \<times> MigrationView list" where
  "statusLoop lib appliedSet [] acc = acc"
| "statusLoop lib appliedSet (m # ms) (pending, latest, views) =
     statusLoop lib appliedSet ms
       (case appliedSet (mi_Version m) of
          Some h \<Rightarrow> (pending, if zeroTime < mh_ExecutedAt h then ml_format lib (mh_ExecutedAt h) else latest, views @ [viewOf appliedSet m])
        | None \<Rightarrow> (pending + 1, latest, views @ [viewOf appliedSet m]))"

definition Migration_GetStatus :: "'d MigrationLib \<Rightarrow> MigrationEnv \<Rightarrow> 'd MigrationDB \<Rightarrow> migration_error + MigrationReport" where
  "Migration_GetStatus lib env db =
     (let current = (case GetCurrentVersion (mv_down env 0) db of Inl _ \<Rightarrow> 0 | Inr v \<Rightarrow> v)
      in case GetAppliedMigrations (mv_down env 1) db of
           Inl e \<Rightarrow> Inl e
         | Inr applied \<Rightarrow>
             (case loadMigrations lib of
                Inl e \<Rightarrow> Inl e
              | Inr ms \<Rightarrow>
                  (case statusLoop lib (map_of (rev (map (\<lambda>h. (mh_Version h, h)) applied))) ms (0, '''', []) of
                     (pending, latest, views) \<Rightarrow>
                       Inr \<lparr> ri_CurrentVersion = current, ri_Pending = pending, ri_Applied = int (length applied),
                         ri_LastApplied = latest, ri_Migrations = views \<rparr>)))"

text \<open>The filter is the text of a status; the empty one lets everything through.\<close>

definition statusText :: "MigrationStatus \<Rightarrow> string" where
  "statusText st = (case st of
       MigrationPending \<Rightarrow> ''pending'' | MigrationRunning \<Rightarrow> ''running'' | MigrationApplied \<Rightarrow> ''applied''
     | MigrationFailed \<Rightarrow> ''failed'' | MigrationRolledBack \<Rightarrow> ''rolled_back'')"

definition ListMigrations :: "'d MigrationLib \<Rightarrow> MigrationEnv \<Rightarrow> string \<Rightarrow> 'd MigrationDB \<Rightarrow> migration_error + MigrationView list" where
  "ListMigrations lib env status db =
     (case Migration_GetStatus lib env db of
        Inl e \<Rightarrow> Inl e
      | Inr r \<Rightarrow> Inr (if status = '''' then ri_Migrations r else filter (\<lambda>v. statusText (vw_Status v) = status) (ri_Migrations r)))"

definition GetMigration :: "'d MigrationLib \<Rightarrow> int \<Rightarrow> migration_error + MigrationView" where
  "GetMigration lib version =
     (case loadMigrations lib of
        Inl e \<Rightarrow> Inl e
      | Inr ms \<Rightarrow>
          (case find (\<lambda>m. mi_Version m = version) ms of
             None \<Rightarrow> Inl ErrMigrationNotFound
           | Some m \<Rightarrow> Inr \<lparr> vw_Version = mi_Version m, vw_Name = mi_Name m, vw_Direction = mi_Direction m,
               vw_Status = mi_Status m, vw_ExecutedAt = None, vw_DurationMs = 0 \<rparr>))"

section \<open>Migrating\<close>

record MigrateInput =
  mg_Steps :: int
  mg_DryRun :: bool

datatype migrate_message =
    UpFailed int string
  | DownMissing int migration_error
  | RollbackFailed int string

record MigrateResult =
  rt_Applied :: "MigrationResult list"
  rt_Errors :: "migrate_message list"

definition limitSteps :: "int \<Rightarrow> 'a list \<Rightarrow> 'a list" where
  "limitSteps steps xs = (if 0 < steps \<and> steps < int (length xs) then take (nat steps) xs else xs)"

definition milliseconds :: "time \<Rightarrow> time \<Rightarrow> int" where
  "milliseconds from_time to_time = quot (to_time - from_time) 1000000"

text \<open>One round of a loop reads the clock at five places, for its beginning, the identifier, the row, and the two durations.\<close>

definition historyRow :: "MigrationEnv \<Rightarrow> nat \<Rightarrow> int \<Rightarrow> string \<Rightarrow> Direction \<Rightarrow> MigrationStatus \<Rightarrow> MigrationHistory" where
  "historyRow env k version name direction status =
     \<lparr> mh_ID = ''mig-'' @ showInt (mv_clk env (5 * k + 1)), mh_Version = version, mh_Name = name, mh_Direction = direction,
       mh_Status = status, mh_ExecutedAt = mv_clk env (5 * k + 2),
       mh_DurationMs = milliseconds (mv_clk env (5 * k)) (mv_clk env (5 * k + 3)), mh_Error = '''' \<rparr>"

definition doneResult :: "MigrationEnv \<Rightarrow> nat \<Rightarrow> int \<Rightarrow> string \<Rightarrow> Direction \<Rightarrow> MigrationStatus \<Rightarrow> MigrationResult" where
  "doneResult env k version name direction status =
     \<lparr> mr_Version = version, mr_Name = name, mr_Direction = direction, mr_Status = status,
       mr_DurationMs = milliseconds (mv_clk env (5 * k)) (mv_clk env (5 * k + 4)), mr_Error = '''' \<rparr>"

definition failedResult :: "int \<Rightarrow> string \<Rightarrow> Direction \<Rightarrow> string \<Rightarrow> MigrationResult" where
  "failedResult version name direction e =
     \<lparr> mr_Version = version, mr_Name = name, mr_Direction = direction, mr_Status = MigrationFailed, mr_DurationMs = 0, mr_Error = e \<rparr>"

fun upLoop :: "'d MigrationLib \<Rightarrow> MigrationEnv \<Rightarrow> bool \<Rightarrow> nat \<Rightarrow> Migration list \<Rightarrow> MigrateResult \<Rightarrow> 'd MigrationDB
    \<Rightarrow> MigrateResult \<times> 'd MigrationDB" where
  "upLoop lib env dry k [] r db = (r, db)"
| "upLoop lib env dry k (m # ms) r db =
     (let ok = doneResult env k (mi_Version m) (mi_Name m) DirectionUp MigrationApplied
      in if dry then upLoop lib env dry (k + 1) ms (r\<lparr> rt_Applied := rt_Applied r @ [ok] \<rparr>) db
         else (case Migration_Execute lib (mi_Content m) db of
             (Some e, db') \<Rightarrow>
               (r\<lparr> rt_Errors := rt_Errors r @ [UpFailed (mi_Version m) e],
                   rt_Applied := rt_Applied r @ [failedResult (mi_Version m) (mi_Name m) DirectionUp e] \<rparr>, db')
           | (None, db') \<Rightarrow>
               upLoop lib env dry (k + 1) ms (r\<lparr> rt_Applied := rt_Applied r @ [ok] \<rparr>)
                 (snd (CreateHistory (mv_down env (k + 1))
                   (historyRow env k (mi_Version m) (mi_Name m) DirectionUp MigrationApplied) db'))))"

definition emptyResult :: MigrateResult where
  "emptyResult = \<lparr> rt_Applied = [], rt_Errors = [] \<rparr>"

definition pendingUps :: "'d MigrationLib \<Rightarrow> int \<Rightarrow> Migration list \<Rightarrow> Migration list" where
  "pendingUps lib current ms =
     sortSlice (ml_sort lib) mi_Version (filter (\<lambda>m. current < mi_Version m \<and> mi_Direction m = DirectionUp) ms)"

definition MigrateUp :: "'d MigrationLib \<Rightarrow> MigrationEnv \<Rightarrow> MigrateInput \<Rightarrow> 'd MigrationDB
    \<Rightarrow> (migration_error + MigrateResult) \<times> 'd MigrationDB" where
  "MigrateUp lib env input db =
     (let current = (case GetCurrentVersion (mv_down env 0) db of Inl _ \<Rightarrow> 0 | Inr v \<Rightarrow> v)
      in case loadMigrations lib of
           Inl e \<Rightarrow> (Inl e, db)
         | Inr ms \<Rightarrow>
             (case upLoop lib env (mg_DryRun input) 0 (limitSteps (mg_Steps input) (pendingUps lib current ms)) emptyResult db of
                (r, db') \<Rightarrow> (Inr r, db')))"

fun downLoop :: "'d MigrationLib \<Rightarrow> MigrationEnv \<Rightarrow> bool \<Rightarrow> nat \<Rightarrow> MigrationHistory list \<Rightarrow> MigrateResult \<Rightarrow> 'd MigrationDB
    \<Rightarrow> MigrateResult \<times> 'd MigrationDB" where
  "downLoop lib env dry k [] r db = (r, db)"
| "downLoop lib env dry k (h # hs) r db =
     (case findDownMigration lib (mh_Version h) of
        Inl e \<Rightarrow> downLoop lib env dry (k + 1) hs (r\<lparr> rt_Errors := rt_Errors r @ [DownMissing (mh_Version h) e] \<rparr>) db
      | Inr d \<Rightarrow>
          (let ok = doneResult env k (mh_Version h) (mh_Name h) DirectionDown MigrationRolledBack
           in if dry then downLoop lib env dry (k + 1) hs (r\<lparr> rt_Applied := rt_Applied r @ [ok] \<rparr>) db
              else (case Migration_Execute lib (mi_Content d) db of
                  (Some e, db') \<Rightarrow>
                    (r\<lparr> rt_Errors := rt_Errors r @ [RollbackFailed (mh_Version h) e],
                        rt_Applied := rt_Applied r @ [failedResult (mh_Version h) (mh_Name h) DirectionDown e] \<rparr>, db')
                | (None, db') \<Rightarrow>
                    downLoop lib env dry (k + 1) hs (r\<lparr> rt_Applied := rt_Applied r @ [ok] \<rparr>)
                      (snd (CreateHistory (mv_down env (k + 1))
                        (historyRow env k (mh_Version h) (mh_Name h) DirectionDown MigrationRolledBack) db')))))"

definition MigrateDown :: "'d MigrationLib \<Rightarrow> MigrationEnv \<Rightarrow> MigrateInput \<Rightarrow> 'd MigrationDB
    \<Rightarrow> (migration_error + MigrateResult) \<times> 'd MigrationDB" where
  "MigrateDown lib env input db =
     (case GetAppliedMigrations (mv_down env 0) db of
        Inl e \<Rightarrow> (Inl e, db)
      | Inr applied \<Rightarrow>
          if applied = [] then (Inr emptyResult, db)
          else (case downLoop lib env (mg_DryRun input) 0
                  (limitSteps (mg_Steps input) (sortSlice (ml_sort lib) (\<lambda>h. - mh_Version h) applied)) emptyResult db of
              (r, db') \<Rightarrow> (Inr r, db')))"

text \<open>The two halves of a reset have a record of answers each.\<close>

definition Migration_Reset :: "'d MigrationLib \<Rightarrow> MigrationEnv \<Rightarrow> MigrationEnv \<Rightarrow> bool \<Rightarrow> 'd MigrationDB
    \<Rightarrow> (migration_error + MigrateResult) \<times> 'd MigrationDB" where
  "Migration_Reset lib env1 env2 dry db =
     (case MigrateDown lib env1 \<lparr> mg_Steps = 0, mg_DryRun = dry \<rparr> db of
        (Inl e, db1) \<Rightarrow> (Inl e, db1)
      | (Inr downs, db1) \<Rightarrow>
          (case MigrateUp lib env2 \<lparr> mg_Steps = 0, mg_DryRun = dry \<rparr> db1 of
             (Inl e, db2) \<Rightarrow> (Inl e, db2)
           | (Inr ups, db2) \<Rightarrow>
               (Inr \<lparr> rt_Applied = rt_Applied downs @ rt_Applied ups, rt_Errors = rt_Errors downs @ rt_Errors ups \<rparr>, db2)))"

text \<open>A missing directory of seeds is the empty answer \<open>Inr None\<close>.\<close>

fun seedLoop :: "'d MigrationLib \<Rightarrow> string list \<Rightarrow> DirEntry list \<Rightarrow> 'd MigrationDB \<Rightarrow> (migration_error + unit) \<times> 'd MigrationDB" where
  "seedLoop lib tables [] db = (Inr (), db)"
| "seedLoop lib tables (f # fs) db =
     (let name = TrimSuffix (de_Name f) ''.sql''
      in if de_IsDir f \<or> \<not> HasSuffix (de_Name f) ''.sql'' then seedLoop lib tables fs db
         else if tables \<noteq> [] \<and> name \<notin> set tables then seedLoop lib tables fs db
         else (case de_Text f of
             None \<Rightarrow> (Inl (ErrSeedFile (de_Name f)), db)
           | Some content \<Rightarrow>
               (case Migration_Execute lib content db of
                  (Some e, db') \<Rightarrow> (Inl (ErrSeed name e), db')
                | (None, db') \<Rightarrow> seedLoop lib tables fs db')))"

definition Seed :: "'d MigrationLib \<Rightarrow> string list \<Rightarrow> 'd MigrationDB \<Rightarrow> (migration_error + unit) \<times> 'd MigrationDB" where
  "Seed lib tables db =
     (case ml_seeds lib of
        Inl _ \<Rightarrow> (Inl ErrReadDir, db)
      | Inr None \<Rightarrow> (Inr (), db)
      | Inr (Some files) \<Rightarrow> seedLoop lib tables files db)"

section \<open>The sorting routine\<close>

lemma sort_positions: "sort_ok p \<Longrightarrow> i \<in> set (p ks) \<Longrightarrow> i < length ks"
proof -
  assume ok: "sort_ok p" and i: "i \<in> set (p ks)"
  have "mset (p ks) = mset [0..<length ks]"
    using ok by (auto simp: sort_ok_def)
  then have "set (p ks) = set [0..<length ks]"
    by (rule mset_eq_setD)
  then show "i < length ks"
    using i by auto
qed

lemma mset_sortSlice: "sort_ok p \<Longrightarrow> mset (sortSlice p key xs) = mset xs"
proof -
  assume ok: "sort_ok p"
  have "mset (p (map key xs)) = mset [0..<length (map key xs)]"
    using ok unfolding sort_ok_def by blast
  then have "mset (sortSlice p key xs) = mset (map (\<lambda>i. xs ! i) [0..<length xs])"
    by (simp add: sortSlice_def del: mset_upt)
  then show ?thesis
    by (simp only: map_nth)
qed

lemma set_sortSlice: "sort_ok p \<Longrightarrow> set (sortSlice p key xs) = set xs"
  by (rule mset_eq_setD) (rule mset_sortSlice)

lemma sorted_sortSlice: "sort_ok p \<Longrightarrow> sorted (map key (sortSlice p key xs))"
proof -
  assume ok: "sort_ok p"
  have "map key (sortSlice p key xs) = map (\<lambda>i. map key xs ! i) (p (map key xs))"
    using sort_positions[OF ok, of _ "map key xs"] by (simp add: sortSlice_def)
  then show ?thesis
    using ok by (simp add: sort_ok_def)
qed

lemma sortSlice_distinct:
  assumes "sort_ok p" and "distinct (map key xs)"
  shows "sortSlice p key xs = sort_key key xs"
  using sort_key_inj_key_eq[OF mset_sortSlice[OF assms(1), of key xs, symmetric] _ sorted_sortSlice[OF assms(1)]] assms(2)
  by (simp add: distinct_map)

lemma sortSlice_sorted: "sort_ok p \<Longrightarrow> distinct (map key xs) \<Longrightarrow> sorted (map key xs) \<Longrightarrow> sortSlice p key xs = xs"
  by (simp add: sortSlice_distinct sort_key_id_if_sorted)

lemma set_limitSteps: "set (limitSteps n xs) \<subseteq> set xs"
  by (auto simp: limitSteps_def dest: in_set_takeD)

lemma loadMigrations_sorted:
  assumes "sort_ok (ml_sort lib)" and "loadMigrations lib = Inr ms"
  shows "sorted (map mi_Version ms)"
  using assms sorted_sortSlice by (fastforce simp: loadMigrations_def split: option.splits)

definition upsOf :: "Migration list \<Rightarrow> Migration list" where
  "upsOf ms = filter (\<lambda>m. mi_Direction m = DirectionUp) ms"

lemma pendingUps_sorted:
  assumes "sort_ok (ml_sort lib)" and "sorted (map mi_Version ms)" and "distinct (map mi_Version (upsOf ms))"
  shows "pendingUps lib current ms = filter (\<lambda>m. current < mi_Version m) (upsOf ms)"
proof -
  have eq: "filter (\<lambda>m. current < mi_Version m \<and> mi_Direction m = DirectionUp) ms = filter (\<lambda>m. current < mi_Version m) (upsOf ms)"
    by (simp add: upsOf_def conj_commute)
  have "sorted (map mi_Version (filter (\<lambda>m. current < mi_Version m) (upsOf ms)))"
    using assms(2) by (simp add: upsOf_def sorted_filter)
  then show ?thesis
    using assms(1,3) by (simp add: pendingUps_def eq sortSlice_sorted filter_distinct_map)
qed

section \<open>What the history says\<close>

definition versions :: "MigrationHistory list \<Rightarrow> int set" where
  "versions rows = mh_Version ` set rows"

definition appliedIn :: "MigrationHistory list \<Rightarrow> int set" where
  "appliedIn rows = mh_Version ` set (filter isApplied rows)"

text \<open>The rows belong to different versions, all were written by an upward migration, under identifiers made before the time \<open>t\<close>.\<close>

definition namedBefore :: "time \<Rightarrow> MigrationHistory \<Rightarrow> bool" where
  "namedBefore t r \<longleftrightarrow> (\<exists>n < t. mh_ID r = ''mig-'' @ showInt n)"
definition rows_ok :: "time \<Rightarrow> MigrationHistory list \<Rightarrow> bool" where
  "rows_ok t rows \<longleftrightarrow> distinct (map mh_Version rows) \<and>
     (\<forall>r \<in> set rows. mh_Direction r = DirectionUp \<and> namedBefore t r)"

lemma digitsValue_snoc: "digitsValue (s @ [c]) = digitsValue s * 10 + digitValue c"
  by (simp add: digitsValue_def)

lemma digitsValue_showNat: "digitsValue (showNat n) = int n"
proof (induction n rule: showNat.induct)
  case (1 n)
  show ?case
  proof (cases "n < 10")
    case True
    then show ?thesis
      by (simp add: showNat.simps[of n] digitsValue_def digitValue_def of_char_of)
  next
    case False
    then have "digitsValue (showNat n) = int (n div 10) * 10 + int (n mod 10)"
      using 1 by (simp add: showNat.simps[of n] digitsValue_snoc digitValue_def of_char_of)
    then show ?thesis
      by presburger
  qed
qed

lemma showNat_digits: "\<forall>c \<in> set (showNat n). isDigit c"
proof (induction n rule: showNat.induct)
  case (1 n)
  then show ?case
    by (cases "n < 10") (auto simp: showNat.simps[of n] isDigit_def of_char_of)
qed

lemma showNat_no_sign: "showNat n \<noteq> CHR ''-'' # s"
proof
  assume "showNat n = CHR ''-'' # s"
  then have "isDigit (CHR ''-'')"
    using showNat_digits[of n] by simp
  then show False
    by (simp add: isDigit_def)
qed

definition readInt :: "string \<Rightarrow> int" where
  "readInt s = (case s of [] \<Rightarrow> 0 | c # t \<Rightarrow> if c = CHR ''-'' then - digitsValue t else digitsValue s)"

lemma readInt_showInt: "readInt (showInt n) = n"
proof (cases "n < 0")
  case True
  then show ?thesis
    by (simp add: readInt_def showInt_def digitsValue_showNat)
next
  case False
  obtain c s where s: "showNat (nat n) = c # s"
    by (cases "showNat (nat n)") (simp_all add: showNat.simps[of "nat n"] split: if_splits)
  then have "c \<noteq> CHR ''-''"
    using showNat_no_sign by metis
  then show ?thesis
    using False s digitsValue_showNat[of "nat n"] by (simp add: readInt_def showInt_def)
qed

lemma showInt_inj: "showInt a = showInt b \<Longrightarrow> a = b"
  using readInt_showInt by metis

lemma namedBefore_mono: "namedBefore t r \<Longrightarrow> t \<le> u \<Longrightarrow> namedBefore u r"
  unfolding namedBefore_def by (meson less_le_trans)

lemma namedBefore_fresh: "namedBefore t r \<Longrightarrow> t \<le> n \<Longrightarrow> mh_ID r \<noteq> ''mig-'' @ showInt n"
  unfolding namedBefore_def by (metis leD same_append_eq showInt_inj)

lemma rows_ok_mono: "rows_ok t rows \<Longrightarrow> t \<le> u \<Longrightarrow> rows_ok u rows"
  by (auto simp: rows_ok_def intro: namedBefore_mono)

lemma appliedIn_iff: "x \<in> appliedIn rows \<longleftrightarrow> (\<exists>r \<in> set rows. mh_Version r = x \<and> isApplied r)"
  by (auto simp: appliedIn_def)

lemma overwrite_simps [simp]:
  "mh_Version (overwrite h r) = mh_Version r" "mh_ID (overwrite h r) = mh_ID r" "mh_Direction (overwrite h r) = mh_Direction r"
  by (simp_all add: overwrite_def)

lemma overwrite_applied:
  "mh_Direction r = DirectionUp \<Longrightarrow>
    isApplied (overwrite h r) \<longleftrightarrow> (if mh_Version r = mh_Version h then mh_Status h = MigrationApplied else isApplied r)"
  by (simp add: overwrite_def isApplied_def)

lemma upsert_known:
  assumes "rows_ok t rows" and "t \<le> u" and "mh_Version h \<in> versions rows"
  shows "upsertHistory h rows = Inr (map (overwrite h) rows)" and "rows_ok u (map (overwrite h) rows)"
    and "versions (map (overwrite h) rows) = versions rows"
    and "appliedIn (map (overwrite h) rows) =
      (if mh_Status h = MigrationApplied then insert (mh_Version h) (appliedIn rows) else appliedIn rows - {mh_Version h})"
proof -
  show "upsertHistory h rows = Inr (map (overwrite h) rows)"
    using assms(3) by (auto simp: upsertHistory_def versions_def)
  have named: "namedBefore u (overwrite h r)" if "r \<in> set rows" for r
    using namedBefore_mono[OF _ assms(2), of r] assms(1) that by (simp add: rows_ok_def namedBefore_def)
  then show "rows_ok u (map (overwrite h) rows)"
    using assms(1) by (simp add: rows_ok_def comp_def)
  show "versions (map (overwrite h) rows) = versions rows"
    by (simp add: versions_def image_image)
  have iff: "x \<in> appliedIn (map (overwrite h) rows) \<longleftrightarrow>
      (if x = mh_Version h then mh_Status h = MigrationApplied else x \<in> appliedIn rows)" for x
  proof -
    have "x \<in> appliedIn (map (overwrite h) rows) \<longleftrightarrow> (\<exists>r \<in> set rows. mh_Version r = x \<and> isApplied (overwrite h r))"
      by (auto simp: appliedIn_iff)
    also have "\<dots> \<longleftrightarrow> (\<exists>r \<in> set rows. mh_Version r = x \<and>
        (if x = mh_Version h then mh_Status h = MigrationApplied else isApplied r))"
      by (rule bex_cong[OF refl]) (use assms(1) overwrite_applied in \<open>auto simp: rows_ok_def\<close>)
    also have "\<dots> \<longleftrightarrow> (if x = mh_Version h then mh_Status h = MigrationApplied else x \<in> appliedIn rows)"
      using assms(3) by (auto simp: appliedIn_iff versions_def)
    finally show ?thesis .
  qed
  show "appliedIn (map (overwrite h) rows) =
      (if mh_Status h = MigrationApplied then insert (mh_Version h) (appliedIn rows) else appliedIn rows - {mh_Version h})"
    by (rule set_eqI) (simp add: iff)
qed

lemma upsert_new:
  assumes "rows_ok t rows" and "t \<le> n" and "mh_ID h = ''mig-'' @ showInt n"
    and "mh_Direction h = DirectionUp" and "mh_Version h \<notin> versions rows"
  shows "upsertHistory h rows = Inr (rows @ [h])" and "rows_ok (n + 1) (rows @ [h])"
    and "versions (rows @ [h]) = insert (mh_Version h) (versions rows)"
    and "appliedIn (rows @ [h]) =
      (if mh_Status h = MigrationApplied then insert (mh_Version h) (appliedIn rows) else appliedIn rows - {mh_Version h})"
proof -
  have "\<not> (\<exists>r \<in> set rows. mh_ID r = mh_ID h)"
    using assms(1-3) namedBefore_fresh by (auto simp: rows_ok_def)
  moreover have "\<not> (\<exists>r \<in> set rows. mh_Version r = mh_Version h)"
    using assms(5) unfolding versions_def by (metis imageI)
  ultimately show "upsertHistory h rows = Inr (rows @ [h])"
    by (simp add: upsertHistory_def)
  have "namedBefore (n + 1) h"
    using assms(3) by (auto simp: namedBefore_def)
  then show "rows_ok (n + 1) (rows @ [h])"
    using rows_ok_mono[OF assms(1), of "n + 1"] assms(2,4,5) by (simp add: rows_ok_def versions_def)
  show "versions (rows @ [h]) = insert (mh_Version h) (versions rows)"
    by (simp add: versions_def)
  show "appliedIn (rows @ [h]) =
      (if mh_Status h = MigrationApplied then insert (mh_Version h) (appliedIn rows) else appliedIn rows - {mh_Version h})"
    using assms(4,5) by (auto simp: appliedIn_def versions_def isApplied_def image_iff)
qed

lemma upsert_ok:
  assumes "rows_ok t rows" and "t \<le> n" and "mh_ID h = ''mig-'' @ showInt n"
    and "mh_Direction h = DirectionUp \<or> mh_Version h \<in> versions rows"
  shows "\<exists>rows'. upsertHistory h rows = Inr rows' \<and> rows_ok (n + 1) rows' \<and> versions rows' = insert (mh_Version h) (versions rows) \<and>
    appliedIn rows' = (if mh_Status h = MigrationApplied then insert (mh_Version h) (appliedIn rows) else appliedIn rows - {mh_Version h})"
proof (cases "mh_Version h \<in> versions rows")
  case True
  have "t \<le> n + 1"
    using assms(2) by simp
  note k = upsert_known[OF assms(1) this True]
  show ?thesis
    using k insert_absorb[OF True] by (intro exI[of _ "map (overwrite h) rows"] conjI) simp_all
next
  case False
  then have "mh_Direction h = DirectionUp"
    using assms(4) by simp
  note n = upsert_new[OF assms(1-3) this False]
  show ?thesis
    using n by (intro exI[of _ "rows @ [h]"] conjI)
qed


section \<open>The loops\<close>

text \<open>The database answers every query, the clock goes on, and no row is named after the time at which the call begins.\<close>

definition calm :: "MigrationEnv \<Rightarrow> bool" where
  "calm env \<longleftrightarrow> (\<forall>k. \<not> mv_down env k) \<and> strict_mono (mv_clk env)"

lemma calm_clk: "calm env \<Longrightarrow> j < k \<Longrightarrow> mv_clk env j < mv_clk env k"
  by (simp add: calm_def strict_mono_def)

lemma create_ok:
  assumes "calm env" and "md_rows db = Some rows" and "rows_ok t rows" and "t \<le> mv_clk env (5 * k)"
    and "direction = DirectionUp \<or> version \<in> versions rows"
  shows "\<exists>rows'. snd (CreateHistory (mv_down env (k + 1)) (historyRow env k version name direction status) db) = db\<lparr> md_rows := Some rows' \<rparr> \<and>
    rows_ok (mv_clk env (5 * (k + 1))) rows' \<and> versions rows' = insert version (versions rows) \<and>
    appliedIn rows' = (if status = MigrationApplied then insert version (appliedIn rows) else appliedIn rows - {version})"
proof -
  let ?n = "mv_clk env (5 * k + 1)" and ?h = "historyRow env k version name direction status"
  have lt: "t \<le> ?n" "?n + 1 \<le> mv_clk env (5 * (k + 1))"
    using calm_clk[OF assms(1), of "5 * k" "5 * k + 1"] calm_clk[OF assms(1), of "5 * k + 1" "5 * (k + 1)"] assms(4) by simp_all
  have h: "mh_ID ?h = ''mig-'' @ showInt ?n" "mh_Direction ?h = DirectionUp \<or> mh_Version ?h \<in> versions rows"
      "mh_Version ?h = version" "mh_Status ?h = status"
    using assms(5) by (auto simp: historyRow_def)
  obtain rows' where rows': "upsertHistory ?h rows = Inr rows'" "rows_ok (?n + 1) rows'"
      "versions rows' = insert version (versions rows)"
      "appliedIn rows' = (if status = MigrationApplied then insert version (appliedIn rows) else appliedIn rows - {version})"
    using upsert_ok[OF assms(3) lt(1) h(1,2)] unfolding h(3,4) by blast
  have "snd (CreateHistory (mv_down env (k + 1)) ?h db) = db\<lparr> md_rows := Some rows' \<rparr>"
    using rows'(1) assms(1,2) by (simp add: CreateHistory_def calm_def)
  then show ?thesis
    using rows'(3,4) rows_ok_mono[OF rows'(2) lt(2)] by (intro exI[of _ rows'] conjI)
qed

text \<open>The scripts are executed one after the other until one fails: how many were done, and what the database is then.\<close>

fun runScripts :: "(string \<Rightarrow> 'd \<Rightarrow> string option \<times> 'd) \<Rightarrow> string list \<Rightarrow> 'd \<Rightarrow> nat \<times> 'd" where
  "runScripts ex [] w = (0, w)"
| "runScripts ex (s # ss) w =
     (case ex s w of
        (Some e, w') \<Rightarrow> (0, w')
      | (None, w') \<Rightarrow> (case runScripts ex ss w' of (n, w'') \<Rightarrow> (Suc n, w'')))"

lemma runScripts_le: "fst (runScripts ex ss w) \<le> length ss"
  by (induction ss arbitrary: w) (auto split: prod.splits option.splits, metis fst_conv)


lemma upLoop_rows:
  assumes "calm env" and "md_rows db = Some rows" and "rows_ok (mv_clk env (5 * k)) rows"
  shows "\<exists>rows' k'. md_rows (snd (upLoop lib env False k ms r db)) = Some rows' \<and> rows_ok (mv_clk env k') rows' \<and>
    k' \<le> 5 * (k + length ms) \<and>
    appliedIn rows' = appliedIn rows \<union>
      mi_Version ` set (take (fst (runScripts (ml_exec lib) (map mi_Content ms) (md_world db))) ms)"
  using assms(2,3)
proof (induction ms arbitrary: k r db rows)
  case Nil
  then show ?case
    by (intro exI[of _ rows] exI[of _ "5 * k"]) simp
next
  case (Cons m ms)
  obtain e w where x: "ml_exec lib (mi_Content m) (md_world db) = (e, w)"
    by fastforce
  show ?case
  proof (cases e)
    case (Some err)
    then show ?thesis
      using x Cons.prems by (intro exI[of _ rows] exI[of _ "5 * k"]) (simp add: Migration_Execute_def Let_def)
  next
    case None
    let ?db = "db\<lparr> md_world := w \<rparr>"
    let ?h = "historyRow env k (mi_Version m) (mi_Name m) DirectionUp MigrationApplied"
    let ?r = "r\<lparr> rt_Applied := rt_Applied r @ [doneResult env k (mi_Version m) (mi_Name m) DirectionUp MigrationApplied] \<rparr>"
    obtain rows1 where rows1: "snd (CreateHistory (mv_down env (k + 1)) ?h ?db) = ?db\<lparr> md_rows := Some rows1 \<rparr>"
        "rows_ok (mv_clk env (5 * (k + 1))) rows1" "appliedIn rows1 = insert (mi_Version m) (appliedIn rows)"
      using create_ok[OF assms(1) _ Cons.prems(2) order_refl, of ?db DirectionUp "mi_Version m" "mi_Name m" MigrationApplied] Cons.prems(1)
      by auto
    obtain rows' k' where rows': "md_rows (snd (upLoop lib env False (k + 1) ms ?r (?db\<lparr> md_rows := Some rows1 \<rparr>))) = Some rows'"
        "rows_ok (mv_clk env k') rows'" "k' \<le> 5 * (k + 1 + length ms)"
        "appliedIn rows' = appliedIn rows1 \<union> mi_Version ` set (take (fst (runScripts (ml_exec lib) (map mi_Content ms) w)) ms)"
      using Cons.IH[of "?db\<lparr> md_rows := Some rows1 \<rparr>" rows1 "k + 1" ?r] rows1(2) by auto
    show ?thesis
      using None x rows1(1,3) rows' by (intro exI[of _ rows'] exI[of _ k']) (auto simp: Migration_Execute_def Let_def split: prod.splits)
  qed
qed






section \<open>Properties\<close>

text \<open>A dry run changes nothing.\<close>

lemma upLoop_dry: "snd (upLoop lib env True k ms r db) = db"
  by (induction ms arbitrary: k r) (auto simp: Let_def)

lemma downLoop_dry: "snd (downLoop lib env True k hs r db) = db"
  by (induction hs arbitrary: k r) (auto simp: Let_def split: sum.splits)

lemma MigrateUp_dry: "mg_DryRun input \<Longrightarrow> snd (MigrateUp lib env input db) = db"
  using upLoop_dry[of lib env 0] by (auto simp: MigrateUp_def Let_def split: sum.splits prod.splits) (metis snd_conv)+

lemma MigrateDown_dry: "mg_DryRun input \<Longrightarrow> snd (MigrateDown lib env input db) = db"
  using downLoop_dry[of lib env 0] by (auto simp: MigrateDown_def split: sum.splits prod.splits) (metis snd_conv)+

theorem dry_reset_changes_nothing: "snd (Migration_Reset lib env1 env2 True db) = db"
  using MigrateDown_dry[of "\<lparr> mg_Steps = 0, mg_DryRun = True \<rparr>" lib env1 db]
    MigrateUp_dry[of "\<lparr> mg_Steps = 0, mg_DryRun = True \<rparr>" lib env2 db]
  by (auto simp: Migration_Reset_def split: sum.splits prod.splits)


lemma current_none: "appliedIn rows = {} \<Longrightarrow> filter isApplied rows = []"
  by (auto simp: appliedIn_def filter_empty_conv)

lemma GetCurrentVersion_ok:
  "md_rows db = Some rows \<Longrightarrow> GetCurrentVersion False db = Inr (if appliedIn rows = {} then 0 else Max (appliedIn rows))"
  by (cases "filter isApplied rows = []") (simp_all add: GetCurrentVersion_def Let_def appliedIn_def del: set_filter)

lemma finite_appliedIn [simp]: "finite (appliedIn rows)"
  by (simp add: appliedIn_def)





section \<open>Migrations that are passed over\<close>

text \<open>A version below the highest applied one that is not applied itself: its file was added late, or its rollback went through
  while that of a later one did not.\<close>

definition passedOver :: "int \<Rightarrow> 'd MigrationDB \<Rightarrow> bool" where
  "passedOver v db \<longleftrightarrow> (\<exists>rows. md_rows db = Some rows \<and> v \<notin> appliedIn rows \<and> (\<exists>x \<in> appliedIn rows. v < x))"

lemma overwrite_up:
  assumes "mh_Status h = MigrationApplied" and "isApplied r"
  shows "isApplied (overwrite h r)"
  using assms by (simp add: overwrite_def isApplied_def)

lemma upsert_passed:
  assumes "upsertHistory h rows = Inr rows'" and "mh_Status h = MigrationApplied" and "mh_Version h \<noteq> v"
  shows "appliedIn rows \<subseteq> appliedIn rows'" and "v \<in> appliedIn rows' \<longleftrightarrow> v \<in> appliedIn rows"
proof -
  have cases: "rows' = map (overwrite h) rows \<or> rows' = rows @ [h]"
    using assms(1) by (auto simp: upsertHistory_def split: if_splits)
  show "appliedIn rows \<subseteq> appliedIn rows'"
    using cases overwrite_up[OF assms(2)] by (auto simp: appliedIn_iff) (metis overwrite_simps(1))
  have "overwrite h r = r" if "mh_Version r = v" for r
    using that assms(3) by (simp add: overwrite_def)
  then show "v \<in> appliedIn rows' \<longleftrightarrow> v \<in> appliedIn rows"
    using cases assms(3) by (auto simp: appliedIn_iff) (metis overwrite_simps(1))+
qed

lemma create_passed:
  assumes "passedOver v db" and "mh_Status h = MigrationApplied" and "mh_Version h \<noteq> v"
  shows "passedOver v (snd (CreateHistory down h db))"
  using assms(1) upsert_passed[OF _ assms(2,3)]
  by (fastforce simp: CreateHistory_def passedOver_def split: sum.splits option.splits)

lemma execute_passed: "passedOver v (snd (Migration_Execute lib sql db)) \<longleftrightarrow> passedOver v db"
  by (simp add: Migration_Execute_def passedOver_def split: prod.splits)

lemma upLoop_passed:
  assumes "passedOver v db" and "v \<notin> mi_Version ` set ms"
  shows "passedOver v (snd (upLoop lib env dry k ms r db)) \<and>
    (\<forall>x \<in> set (rt_Applied (fst (upLoop lib env dry k ms r db))). x \<in> set (rt_Applied r) \<or> mr_Version x \<noteq> v)"
  using assms
proof (induction ms arbitrary: k r db)
  case (Cons m ms)
  let ?h = "historyRow env k (mi_Version m) (mi_Name m) DirectionUp MigrationApplied"
  let ?r = "r\<lparr> rt_Applied := rt_Applied r @ [doneResult env k (mi_Version m) (mi_Name m) DirectionUp MigrationApplied] \<rparr>"
  have v: "mi_Version m \<noteq> v" "v \<notin> mi_Version ` set ms"
    using Cons.prems(2) by auto
  show ?case
  proof (cases dry)
    case True
    then show ?thesis
      using Cons.IH[OF Cons.prems(1) v(2), of "k + 1" ?r] v(1) by (auto simp: Let_def doneResult_def)
  next
    case False
    obtain e db' where x: "Migration_Execute lib (mi_Content m) db = (e, db')"
      by fastforce
    then have p: "passedOver v db'"
      using execute_passed[of v lib "mi_Content m" db] Cons.prems(1) by simp
    have "passedOver v (snd (CreateHistory (mv_down env (k + 1)) ?h db'))"
      using p v(1) by (intro create_passed) (simp_all add: historyRow_def)
    then show ?thesis
      using False x p v(1) Cons.IH[OF _ v(2), of "snd (CreateHistory (mv_down env (k + 1)) ?h db')" "k + 1" ?r]
      by (cases e) (auto simp: Let_def doneResult_def failedResult_def)
  qed
qed simp

lemma MigrateUp_passed:
  assumes "passedOver v db" and "sort_ok (ml_sort lib)" and "\<not> mv_down env 0"
  shows "passedOver v (snd (MigrateUp lib env input db)) \<and>
    (\<forall>r. fst (MigrateUp lib env input db) = Inr r \<longrightarrow> (\<forall>x \<in> set (rt_Applied r). mr_Version x \<noteq> v))"
proof -
  obtain rows x where rows: "md_rows db = Some rows" "x \<in> appliedIn rows" "v < x"
    using assms(1) by (auto simp: passedOver_def)
  then have current: "GetCurrentVersion (mv_down env 0) db = Inr (Max (appliedIn rows))"
    using GetCurrentVersion_ok[OF rows(1)] assms(3) by auto
  have less: "v < Max (appliedIn rows)"
    using rows(2,3) Max_ge[OF finite_appliedIn, of x rows] by linarith
  show ?thesis
  proof (cases "loadMigrations lib")
    case (Inl e)
    then show ?thesis
      using assms(1) by (simp add: MigrateUp_def)
  next
    case (Inr ms)
    let ?ms = "limitSteps (mg_Steps input) (pendingUps lib (Max (appliedIn rows)) ms)"
    have "v \<notin> mi_Version ` set ?ms"
      using set_limitSteps[of "mg_Steps input" "pendingUps lib (Max (appliedIn rows)) ms"] less
      by (auto simp: pendingUps_def set_sortSlice[OF assms(2)])
    from upLoop_passed[OF assms(1) this, of lib env "mg_DryRun input" 0 emptyResult] show ?thesis
      using Inr current by (auto simp: MigrateUp_def emptyResult_def split: prod.splits)
  qed
qed

definition upStep :: "'d MigrationLib \<times> MigrationEnv \<times> MigrateInput \<Rightarrow> 'd MigrationDB \<Rightarrow> unit + 'd MigrationDB" where
  "upStep c db = (case c of (lib, env, input) \<Rightarrow> Inr (snd (MigrateUp lib env input db)))"

definition answered :: "'d MigrationLib \<times> MigrationEnv \<times> MigrateInput \<Rightarrow> bool" where
  "answered c = (case c of (lib, env, input) \<Rightarrow> sort_ok (ml_sort lib) \<and> \<not> mv_down env 0)"

interpretation migrating: aggregate upStep "passedOver v" "\<lambda>_ c. answered c" for v
  by unfold_locales (auto simp: upStep_def answered_def dest: MigrateUp_passed)

text \<open>C40: As long as the query for the current version is answered in every call, a migration below the highest applied
  version is never run: whatever upward migrations are asked for, with whatever files in the directory, no call executes it
  and the history does not get it. An error of that query is dropped and counts as version 0, with which such a migration is
  run (\<open>unread_version_reruns\<close>).\<close>

theorem passed_migration_never_runs:
  assumes "md_rows db = Some rows" and "x \<in> appliedIn rows" and "v < x" and "v \<notin> appliedIn rows"
    and "\<forall>c \<in> set cs. answered c" and "answered (lib, env, input)"
    and "fst (MigrateUp lib env input (attempts upStep db cs)) = Inr r"
  shows "v \<notin> mr_Version ` set (rt_Applied r) \<and>
    (\<exists>rows'. md_rows (attempts upStep db cs) = Some rows' \<and> v \<notin> appliedIn rows')"
proof -
  have "passedOver v (attempts upStep db cs)"
    using assms(1-5) by (intro migrating.run_inv admissible_all) (auto simp: passedOver_def)
  then show ?thesis
    using MigrateUp_passed[of v "attempts upStep db cs" lib env input] assms(6,7) by (auto simp: answered_def passedOver_def)
qed

section \<open>A second call\<close>

lemma upLoop_errors:
  assumes "fst (runScripts (ml_exec lib) (map mi_Content ms) (md_world db)) < length ms"
  shows "rt_Errors (fst (upLoop lib env False k ms r db)) \<noteq> []"
  using assms
proof (induction ms arbitrary: k r db)
  case (Cons m ms)
  obtain e w where x: "ml_exec lib (mi_Content m) (md_world db) = (e, w)"
    by fastforce
  have keep: "md_world (snd (CreateHistory down h db')) = md_world db'" for down h and db' :: "'a MigrationDB"
    by (simp add: CreateHistory_def split: option.splits sum.splits)
  show ?case
    using x Cons by (cases e) (simp_all add: Migration_Execute_def Let_def keep split: prod.splits)
qed simp


text \<open>A call that has applied everything without an error leaves nothing to do for the next one.\<close>

theorem migrated_stays_migrated:
  assumes "sort_ok (ml_sort lib)" and "loadMigrations lib = Inr ms" and "distinct (map mi_Version (upsOf ms))"
    and "calm env1" and "calm env2" and "md_rows db = Some rows" and "rows_ok (mv_clk env1 0) rows"
    and "MigrateUp lib env1 \<lparr> mg_Steps = 0, mg_DryRun = False \<rparr> db = (Inr r, db1)" and "rt_Errors r = []"
  shows "MigrateUp lib env2 input db1 = (Inr emptyResult, db1)"
proof -
  define cur where "cur = (if appliedIn rows = {} then 0 else Max (appliedIn rows))"
  let ?ms = "pendingUps lib cur ms"
  have pending: "pendingUps lib c ms = filter (\<lambda>m. c < mi_Version m) (upsOf ms)" for c
    using pendingUps_sorted[OF assms(1) loadMigrations_sorted[OF assms(1,2)] assms(3)] .
  have "GetCurrentVersion False db = Inr cur"
    using GetCurrentVersion_ok[OF assms(6)] by (simp only: cur_def)
  then have run: "upLoop lib env1 False 0 ?ms emptyResult db = (r, db1)"
    using assms(2,4,8) by (simp add: MigrateUp_def calm_def limitSteps_def split: prod.splits)
  have "\<not> fst (runScripts (ml_exec lib) (map mi_Content ?ms) (md_world db)) < length ?ms"
    using upLoop_errors[of lib ?ms db env1 0 emptyResult] run assms(9) by auto
  then have ran: "fst (runScripts (ml_exec lib) (map mi_Content ?ms) (md_world db)) = length ?ms"
    using runScripts_le[of "ml_exec lib" "map mi_Content ?ms" "md_world db"] by simp
  obtain rows1 where rows1: "md_rows db1 = Some rows1" "appliedIn rows1 = appliedIn rows \<union> mi_Version ` set ?ms"
    using upLoop_rows[OF assms(4,6), of 0 lib ?ms emptyResult] assms(7) run ran by auto
  define cur1 where "cur1 = (if appliedIn rows1 = {} then 0 else Max (appliedIn rows1))"
  have grown: "cur \<le> cur1"
  proof (cases "appliedIn rows = {}")
    case True
    have pos: "0 < x" if "x \<in> appliedIn rows1" for x
      using that True rows1(2) by (auto simp: pending cur_def)
    show ?thesis
      using True pos[OF Max_in[OF finite_appliedIn]] by (cases "appliedIn rows1 = {}") (simp_all add: cur_def cur1_def)
  next
    case False
    then show ?thesis
      using rows1(2) Max_mono[of "appliedIn rows" "appliedIn rows1"] by (simp add: cur_def cur1_def)
  qed
  have "mi_Version u \<le> cur1" if u: "u \<in> set (upsOf ms)" for u
  proof (cases "cur < mi_Version u")
    case True
    then have "mi_Version u \<in> appliedIn rows1"
      using u rows1(2) by (simp add: pending)
    then show ?thesis
      by (auto simp: cur1_def)
  next
    case False
    then show ?thesis
      using grown by linarith
  qed
  then have "pendingUps lib cur1 ms = []"
    by (auto simp: pending filter_empty_conv not_less)
  moreover have "GetCurrentVersion False db1 = Inr cur1"
    using GetCurrentVersion_ok[OF rows1(1)] by (simp only: cur1_def)
  ultimately show ?thesis
    using assms(2,5) by (simp add: MigrateUp_def calm_def limitSteps_def)
qed

text \<open>The number of pending migrations is the number of files of versions that are not applied, upward and downward ones.\<close>

lemma statusLoop_pending:
  "fst (statusLoop lib applied ms (n, latest, views)) = n + int (length (filter (\<lambda>m. applied (mi_Version m) = None) ms))"
  by (induction ms arbitrary: n latest views) (auto split: option.splits)

theorem pending_counts_files:
  assumes "Migration_GetStatus lib env db = Inr r" and "md_rows db = Some rows" and "loadMigrations lib = Inr ms"
  shows "ri_Pending r = int (length (filter (\<lambda>m. mi_Version m \<notin> appliedIn rows) ms))"
proof -
  let ?f = "map_of (rev (map (\<lambda>h. (mh_Version h, h)) (sort_key mh_Version (filter isApplied rows))))"
  have "?f v = None \<longleftrightarrow> v \<notin> appliedIn rows" for v
    by (auto simp: map_of_eq_None_iff appliedIn_def image_iff)
  then show ?thesis
    using assms statusLoop_pending[of lib ?f ms 0 "''''" "[]"]
    by (auto simp: Migration_GetStatus_def GetAppliedMigrations_def Let_def split: if_splits prod.splits sum.splits)
qed

section \<open>Witnesses\<close>

definition stableSort :: "int list \<Rightarrow> nat list" where
  "stableSort ks = sort_key (\<lambda>i. ks ! i) [0..<length ks]"

lemma stableSort_ok: "sort_ok stableSort"
  by (simp add: sort_ok_def stableSort_def del: mset_upt)

text \<open>A database that counts what has been created in it.\<close>

definition counting_lib :: "DirEntry list \<Rightarrow> nat MigrationLib" where
  "counting_lib files = \<lparr> ml_exec = (\<lambda>s w. if s = ''create'' then (None, w + 1) else if s = ''drop'' then (None, w - 1) else (Some ''syntax'', w)),
     ml_dir = Some files, ml_seeds = Inr None, ml_md5 = (\<lambda>_. ''''), ml_format = showInt, ml_sort = stableSort \<rparr>"

definition tick_env :: "time \<Rightarrow> MigrationEnv" where
  "tick_env t = \<lparr> mv_down = (\<lambda>_. False), mv_clk = (\<lambda>k. t + int k) \<rparr>"

definition sql_file :: "string \<Rightarrow> string \<Rightarrow> DirEntry" where
  "sql_file name content = \<lparr> de_Name = name, de_IsDir = False, de_Text = Some content \<rparr>"

definition two_files :: "DirEntry list" where
  "two_files = [sql_file ''1_a.down.sql'' ''drop'', sql_file ''1_a.up.sql'' ''create'']"

definition applied_row :: "int \<Rightarrow> MigrationHistory" where
  "applied_row v = \<lparr> mh_ID = ''mig-0'', mh_Version = v, mh_Name = ''a'', mh_Direction = DirectionUp, mh_Status = MigrationApplied,
     mh_ExecutedAt = 0, mh_DurationMs = 0, mh_Error = '''' \<rparr>"



definition one_up :: Migration where
  "one_up = \<lparr> mi_ID = ''mig-1-up'', mi_Version = 1, mi_Name = ''a'', mi_Content = ''create'', mi_Direction = DirectionUp,
     mi_Status = MigrationPending, mi_ExecutedAt = None, mi_DurationMs = 0, mi_Checksum = '''', mi_CreatedAt = zeroTime \<rparr>"

definition one_down :: Migration where
  "one_down = one_up\<lparr> mi_ID := ''mig-1-down'', mi_Content := ''drop'', mi_Direction := DirectionDown \<rparr>"

lemma load_two_files: "loadMigrations (counting_lib two_files) = Inr [one_down, one_up]"
  by code_simp



lemma MigrateUp_returns: "loadMigrations lib = Inr ms \<Longrightarrow> \<exists>r. fst (MigrateUp lib env input db) = Inr r"
  by (simp add: MigrateUp_def split: prod.splits)

lemma passed_migration_never_runs_witness:
  "\<exists>r. fst (MigrateUp (counting_lib two_files) (tick_env 9) \<lparr> mg_Steps = 0, mg_DryRun = False \<rparr>
      (attempts upStep \<lparr> md_rows = Some [applied_row 2], md_world = 5 \<rparr>
        [(counting_lib two_files, tick_env 1, \<lparr> mg_Steps = 0, mg_DryRun = False \<rparr>)])) = Inr r \<and> 1 \<notin> mr_Version ` set (rt_Applied r)"
proof -
  let ?in = "\<lparr> mg_Steps = 0, mg_DryRun = False \<rparr>"
  let ?db = "\<lparr> md_rows = Some [applied_row 2], md_world = 5 \<rparr>"
  let ?cs = "[(counting_lib two_files, tick_env 1, ?in)]"
  have applied: "appliedIn [applied_row 2] = {2}"
    by (simp add: appliedIn_def isApplied_def applied_row_def)
  have ok: "answered (counting_lib two_files, tick_env t, ?in)" for t
    by (simp add: answered_def counting_lib_def stableSort_ok tick_env_def)
  obtain r where r: "fst (MigrateUp (counting_lib two_files) (tick_env 9) ?in (attempts upStep ?db ?cs)) = Inr r"
    using MigrateUp_returns[OF load_two_files] by blast
  show ?thesis
    using passed_migration_never_runs[of ?db "[applied_row 2]" 2 1 ?cs "counting_lib two_files" "tick_env 9" ?in r] applied ok r
    by auto
qed

text \<open>When the query for the current version fails, the passed migration is executed and recorded.\<close>

lemma unread_version_reruns:
  "(case MigrateUp (counting_lib two_files) ((tick_env 9)\<lparr> mv_down := \<lambda>k. k = 0 \<rparr>) \<lparr> mg_Steps = 0, mg_DryRun = False \<rparr>
        \<lparr> md_rows = Some [applied_row 2], md_world = 5 \<rparr> of
      (res, db) \<Rightarrow> (case res of Inl e \<Rightarrow> False | Inr r \<Rightarrow> map mr_Version (rt_Applied r) = [1] \<and> rt_Errors r = [])
        \<and> map_option (map mh_Version) (md_rows db) = Some [2, 1] \<and> md_world db = 6)"
  by code_simp

end
