(* ===== verification/Spec2Isabelle.thy ===== *)
theory Spec2Isabelle
  imports Workflow Engine Plan Task_Queue Worker_Pool Circuit_Breaker Retry Saga Execution Workflow_Executor
    Expression Expression_Functions Flow_Nodes Rate_Limit Schedule Folders Executor_Service Sharing Workspace User_Service Auth Import_Export Workflow_Service Execution_Service
    Schedule_Service Engine_Scheduler Billing Templates Debugger Replay Subworkflow Node_Catalogue Credentials Migrations
begin

text \<open>
  LinkFlow is a workflow automation server in Go. A user draws a workflow, a graph of nodes; an event, a schedule or a
  call starts it; an engine runs the nodes and hands the output of each to the next ones. The code consists of one
  aggregate per subject with a service and a table around it (\<open>internal/<subject>/domain\<close>, \<open>app/service\<close>,
  \<open>adapters/repository\<close>), of the engine (\<open>internal/engine\<close>, \<open>internal/node/runtime\<close>), and of shared packages
  (\<open>internal/platform\<close>, \<open>internal/gateway\<close>, \<open>pkg\<close>). This library models the core of each.

  How the parts interact. A request passes the rate limiter of the gateway and the check of a token and reaches a
  service. The service loads an aggregate from its table, calls a method of it, and saves it again, where a version
  column is to refuse a lost update. The service of executions runs a workflow with the executor of the execution domain;
  the engine package holds two further engines, a recursive one and one in stages, a pool of workers with its queues, its
  retries, its circuit breaker, and a scheduler of its own. Nodes are interface values that the engines call.

  \<^bold>\<open>Conventions.\<close> A struct is a \<open>record\<close>, an enumeration a \<open>datatype\<close>, except that roles, plans and permissions that
  callers pass as strings stay strings. A method that can fail gives \<open>Inl\<close> of the error or \<open>Inr\<close> of the new state; a
  method that fails after it changed its receiver gives both. A reading of the clock, a new identifier, a random number, the order
  in which Go visits a map, and the answer of the database to the k-th statement (\<open>db k\<close>) are arguments, so that each
  theorem holds for all of them. Go's \<open>int\<close>, durations and times are \<open>int\<close> or \<open>nat\<close>, because no counter here comes near
  its width; a float is a rational. Strings are lists of bytes. Locked sections are one step; where a mutex can
  stay held for ever it is a field of the state. Calls run one after another, but for the theories that interleave the steps
  of several: \<open>Worker_Pool\<close> (one atomic action at a time), \<open>Rate_Limit\<close> and \<open>Sharing\<close> (one locked section or operation of the
  repository at a time) and the goroutines of \<open>Execution_Service\<close>. Hashing, signing, cron expressions, time zones, Stripe, the templates'
  regular expressions and the handlers of nodes are parameters.

  \<^bold>\<open>Theories.\<close>

  \<^item> \<open>Prelude\<close>: values of dynamic type, runs of a command list (\<open>attempts\<close>), the locales \<open>aggregate\<close> and
    \<open>versioned_aggregate\<close> (an invariant kept by each command is kept by all runs; versions only grow), generic lemmas.
    \<open>Versioned_Store\<close>: what a JSON column gives back, and the locale \<open>versioned_store\<close> of a row with an optimistic lock.

  \<^item> \<open>Workflow_Types\<close>, \<open>Workflow_Cycle\<close>, \<open>Workflow\<close> (\<open>workflow/domain/model\<close>): the aggregate. \<open>hasCycle\<close> is proved to
    decide cycles of the connections; \<open>workflow_inv\<close> holds in all runs; replaying the events rebuilds the content.

  \<^item> \<open>Engine_Types\<close>, \<open>Engine\<close>, \<open>Plan\<close> (\<open>engine/engine.go\<close>, \<open>engine/executor.go\<close>, \<open>node/runtime/registry.go\<close>): the registry
    and the two engines. \<open>executeFromNode\<close> has fuel, a bound on the depth of its recursion: more fuel than the definition has
    connections is enough where no cycle is reachable, and no fuel is enough where all nodes succeed on a cycle.
    \<open>buildExecutionPlan\<close> succeeds exactly for the acyclic definitions with one start, and its stages respect every
    connection; a completed run has a result for each node.

  \<^item> \<open>Task_Queue\<close>, \<open>Worker_Pool\<close>, \<open>Circuit_Breaker\<close>, \<open>Retry\<close>, \<open>Engine_Scheduler\<close> (\<open>engine/queue.go\<close>, \<open>worker.go\<close>, \<open>retry.go\<close>,
    \<open>scheduler.go\<close>, \<open>platform/resilience\<close>): two queues behind the locale \<open>task_queue\<close>, two breakers behind the locale
    \<open>breaker\<close>, the pool as threads of atomic actions that interleave, with an invariant of its reachable states that
    holds each counter to what it measures up to what is under way, the loop of attempts against its specification with its
    delays, and the scheduler over shared pointers with its mutex (locale \<open>entry_invariant\<close>).

  \<^item> \<open>Saga\<close> (\<open>platform/saga\<close>): a run refines an abstract run that undoes exactly the completed steps in reverse.

  \<^item> \<open>Execution\<close>, \<open>Workflow_Executor\<close>, \<open>Execution_Service\<close> (\<open>execution\<close>): the aggregate over a heap of maps, the traversal
    of a workflow, which visits exactly the nodes reachable through completed ones, and the service with its goroutines and table.

  \<^item> \<open>Workflow_Service\<close>, \<open>Import_Export\<close>, \<open>Sharing\<close>, \<open>Folders\<close>, \<open>Templates\<close>, \<open>Debugger\<close>, \<open>Replay\<close>, \<open>Subworkflow\<close>
    (\<open>workflow/app\<close>, \<open>workflow/features\<close>): the service over its table, documents and what is rebuilt from them, permissions and
    links (whose accesses interleave, one operation of the repository per step), the hierarchy of folders, templates and what
    can be built from them, sessions of the debugger, recordings of executions, and workflows inside workflows. The search and replacement in the text of a template is a \<open>partial_function\<close>:
    it is proved to return for values without two opening braces and to run for ever for a value that holds its own placeholder. The loop up
    the parents of a folder is a \<open>partial_function\<close>, proved to return in every hierarchy without a cycle; the recursion of a deletion has
    fuel, and one unit for each folder is proved to be enough.

  \<^item> \<open>Schedule\<close>, \<open>Schedule_Service\<close> (\<open>schedule\<close>): the aggregate, the scheduler, and the service that rebuilds a schedule
    from its row at each read. A call that waits for a held mutex gives None. For an expression that nothing satisfies the
    cron library answers the zero time; the statements on next runs name that case.

  \<^item> \<open>Executor_Service\<close> (\<open>executor\<close>): workers, tasks and rounds of the dispatcher; the load of a worker is exact.

  \<^item> \<open>Workspace\<close>, \<open>User\<close>, \<open>Organization\<close>, \<open>User_Service\<close>, \<open>Auth\<close>, \<open>Billing\<close>: members and their roles, users with validation,
    tokens and the lock of an account, customers, plans and limits, each with its service and tables.

  \<^item> \<open>Expression\<close>, \<open>Expression_Functions\<close>, \<open>Flow_Nodes\<close> (\<open>pkg/expression\<close>, \<open>node/runtime/nodes\<close>): templates, paths and calls,
    the functions on strings, numbers and lists, and the nodes IF, Switch, Merge, Loop and Split In Batches.

  \<^item> \<open>Node_Catalogue\<close> (\<open>node/domain/model\<close>, \<open>node/adapters\<close>, \<open>node/app\<close>): the definitions of nodes, their table and the
    service, under the columns that the migration creates and under those that the queries name.

  \<^item> \<open>Credentials\<close> (\<open>credential\<close>): credentials and variables behind a cipher that is a parameter. Every run of calls keeps each
    stored secret readable under the key; field by field, decryption undoes encryption.
  \<^item> \<open>Migrations\<close> (\<open>migration\<close>): the history of migrations and the tool that goes up and down in it; the rest of the database
    is a value that scripts change. A reset of reversible migrations restores it; a second call has nothing to do.

  \<^item> \<open>Rate_Limit\<close> (\<open>gateway/middleware\<close>, \<open>pkg/middleware\<close>): two token buckets behind the locale \<open>token_bucket\<close> and what the
    limiters built on them let through in any span of time. For the gateway the two locked sections of a request and the sweeps
    of \<open>cleanupLoop\<close> are steps that interleave (\<open>gatewayStep\<close>).

  \<^bold>\<open>Not modelled.\<close> Handlers of HTTP and GraphQL, the mains and the wiring of the services, which decode and forward; adapters
  of libraries (databases, Kafka, caches, metrics, telemetry, mail, OAuth, connectors) and nodes that only call a third
  party, whose behaviour lies in code that is not here; webhooks and notifications, whose
  delivery is done by others, the tenants and the events of the realtime gateway, and storage, search, analytics, monitoring, backup
  and configuration, which are thin layers over files, counters and rows. The queue in Redis, the handler table of the
  engine's event emitter, the evaluation of a map of templates in an order Go leaves open, and the expression functions on dates,
  hashes and JSON are left out of their theories.
\<close>

end
